(* ===== verification/Prelude.thy ===== *)
theory Prelude
  imports Main "HOL-Library.Word"
begin

text \<open>
  What every component theory shares: Go's error values and results, the recover-and-wrap
  convention of the code base, the named collections that carry the component proofs, and
  generic lemmas on lists and association lists.

  A Go \<open>error\<close> is a format string with its arguments (\<open>fmt.Errorf\<close>, \<open>errors.New\<close>); it is
  kept symbolic, so that two errors are equal exactly when the code builds them from the same
  format and arguments. A function that returns \<open>(T, error)\<close> is modelled by \<open>'a result\<close>: \<open>Inl\<close>
  an error, \<open>Inr\<close> a value. A \<open>panic\<close> that a deferred \<open>recover\<close> turns into an error is an \<open>Inl\<close>
  wrapped by \<open>recovered\<close>.
\<close>

datatype go_error = Errorf string "go_arg list"
  and go_arg = AStr string | AInt int | AErr go_error

type_synonym 'a result = "go_error + 'a"

definition errors_New :: "string \<Rightarrow> go_error" where
  "errors_New s = Errorf s []"

definition recovered :: "string \<Rightarrow> 'a result \<Rightarrow> 'a result" where
  "recovered f r = (case r of Inl e \<Rightarrow> Inl (Errorf (f @ ''() -> %v'') [AErr e]) | Inr x \<Rightarrow> Inr x)"

text \<open>A verb between single quotes, as the format strings have them.\<close>

definition quoted :: "string \<Rightarrow> string" where
  "quoted s = [CHR 0x27] @ s @ [CHR 0x27]"

text \<open>Go's \<open>if err != nil\<close>: run the rest only on success.\<close>

definition and_then :: "'a result \<Rightarrow> ('a \<Rightarrow> 'b result) \<Rightarrow> 'b result" where
  "and_then r k = (case r of Inl e \<Rightarrow> Inl e | Inr x \<Rightarrow> k x)"

definition is_ok :: "'a result \<Rightarrow> bool" where
  "is_ok r = (case r of Inl _ \<Rightarrow> False | Inr _ \<Rightarrow> True)"

text \<open>A \<open>for\<close> loop whose body may return an error from the enclosing function.\<close>

fun fold_res :: "('s \<Rightarrow> 'a \<Rightarrow> 's result) \<Rightarrow> 's \<Rightarrow> 'a list \<Rightarrow> 's result" where
  "fold_res f s [] = Inr s"
| "fold_res f s (x # xs) = (case f s x of Inl e \<Rightarrow> Inl e | Inr s' \<Rightarrow> fold_res f s' xs)"

fun map_res :: "('a \<Rightarrow> 'b result) \<Rightarrow> 'a list \<Rightarrow> 'b list result" where
  "map_res f [] = Inr []"
| "map_res f (x # xs) =
     (case f x of Inl e \<Rightarrow> Inl e
      | Inr y \<Rightarrow> (case map_res f xs of Inl e \<Rightarrow> Inl e | Inr ys \<Rightarrow> Inr (y # ys)))"

fun all_res :: "('a \<Rightarrow> unit result) \<Rightarrow> 'a list \<Rightarrow> unit result" where
  "all_res f [] = Inr ()"
| "all_res f (x # xs) = (case f x of Inl e \<Rightarrow> Inl e | Inr _ \<Rightarrow> all_res f xs)"

named_theorems result_simps
named_theorems mig_inv
named_theorems mig_frame

lemma recovered_Inr [simp, result_simps]: "recovered f (Inr x) = Inr x"
  by (simp add: recovered_def)

lemma recovered_Inl [simp, result_simps]:
  "recovered f (Inl e) = Inl (Errorf (f @ ''() -> %v'') [AErr e])"
  by (simp add: recovered_def)

lemma recovered_eq_Inr [simp, result_simps]: "recovered f r = Inr x \<longleftrightarrow> r = Inr x"
  by (simp add: recovered_def split: sum.splits)

lemma is_ok_Inr [simp, result_simps]: "is_ok (Inr x)"
  by (simp add: is_ok_def)

lemma is_ok_Inl [simp, result_simps]: "\<not> is_ok (Inl e)"
  by (simp add: is_ok_def)

lemma is_ok_iff: "is_ok r \<longleftrightarrow> (\<exists>x. r = Inr x)"
  by (simp add: is_ok_def split: sum.splits)

lemma is_ok_recovered [simp, result_simps]: "is_ok (recovered f r) = is_ok r"
  by (simp add: is_ok_iff)

lemma and_then_simps [simp, result_simps]:
  "and_then (Inl e) k = Inl e"
  "and_then (Inr x) k = k x"
  by (simp_all add: and_then_def)

lemma and_then_eq_Inr: "and_then r k = Inr y \<longleftrightarrow> (\<exists>x. r = Inr x \<and> k x = Inr y)"
  by (simp add: and_then_def split: sum.splits)

lemma is_ok_and_then: "is_ok (and_then r k) \<longleftrightarrow> (\<exists>x. r = Inr x \<and> is_ok (k x))"
  by (simp add: and_then_def split: sum.splits)

lemma map_res_eq_Inr:
  "map_res f xs = Inr ys \<longleftrightarrow> list_all2 (\<lambda>x y. f x = Inr y) xs ys"
proof (induction xs arbitrary: ys)
  case Nil
  then show ?case by auto
next
  case (Cons x xs)
  then show ?case
    by (auto simp: list_all2_Cons1 simp flip: Cons.IH split: sum.splits)
qed

lemma map_res_length: "map_res f xs = Inr ys \<Longrightarrow> length ys = length xs"
  by (simp add: map_res_eq_Inr list_all2_lengthD)

lemma all_res_eq_Inr: "all_res f xs = Inr () \<longleftrightarrow> (\<forall>x\<in>set xs. f x = Inr ())"
  by (induction xs) (auto split: sum.splits)

lemma all_res_eq_Inl:
  "all_res f xs = Inl e \<longleftrightarrow>
     (\<exists>ys x zs. xs = ys @ x # zs \<and> (\<forall>y\<in>set ys. f y = Inr ()) \<and> f x = Inl e)"
proof (induction xs)
  case Nil
  then show ?case by simp
next
  case (Cons a xs)
  show ?case
  proof (cases "f a")
    case (Inl e')
    then show ?thesis
      by (fastforce simp: Cons_eq_append_conv)
  next
    case (Inr u)
    then have "f a = Inr ()" by simp
    with Cons.IH show ?thesis
      by (auto simp: Cons_eq_append_conv) (metis list.set_intros(2) set_ConsD)+
  qed
qed

text \<open>
  An invariant of a loop that may return early: if the body keeps it, the loop keeps it.
\<close>

lemma fold_res_invariant:
  assumes "fold_res f s xs = Inr s'" and "P s"
    and "\<And>s x s'. x \<in> set xs \<Longrightarrow> P s \<Longrightarrow> f s x = Inr s' \<Longrightarrow> P s'"
  shows "P s'"
  using assms
proof (induction xs arbitrary: s)
  case Nil
  then show ?case by simp
next
  case (Cons x xs)
  then obtain s1 where s1: "f s x = Inr s1" and rest: "fold_res f s1 xs = Inr s'"
    by (auto split: sum.splits)
  from Cons.prems(2,3) s1 have "P s1" by (meson list.set_intros(1))
  with Cons.IH rest Cons.prems(3) show ?case by (meson list.set_intros(2))
qed

lemma fold_res_append:
  "fold_res f s (xs @ ys) = (case fold_res f s xs of Inl e \<Rightarrow> Inl e | Inr s' \<Rightarrow> fold_res f s' ys)"
  by (induction xs arbitrary: s) (auto split: sum.splits)

text \<open>Association lists: Go maps iterate over their entries, each key once.\<close>

fun al_set :: "'k \<Rightarrow> 'v \<Rightarrow> ('k \<times> 'v) list \<Rightarrow> ('k \<times> 'v) list" where
  "al_set k v [] = [(k, v)]"
| "al_set k v ((k', v') # m) = (if k' = k then (k, v) # m else (k', v') # al_set k v m)"

definition al_del :: "'k \<Rightarrow> ('k \<times> 'v) list \<Rightarrow> ('k \<times> 'v) list" where
  "al_del k m = filter (\<lambda>(k', v'). k' \<noteq> k) m"

lemma map_of_al_set [simp]: "map_of (al_set k v m) k' = (if k' = k then Some v else map_of m k')"
  by (induction k v m rule: al_set.induct) auto

lemma map_of_al_del [simp]: "map_of (al_del k m) k' = (if k' = k then None else map_of m k')"
  by (induction m) (auto simp: al_del_def)

lemma keys_al_set [simp]: "fst ` set (al_set k v m) = insert k (fst ` set m)"
  by (induction k v m rule: al_set.induct) auto

lemma keys_al_del [simp]: "fst ` set (al_del k m) = fst ` set m - {k}"
  by (induction m) (auto simp: al_del_def)

lemma distinct_keys_al_set:
  "distinct (map fst m) \<Longrightarrow> distinct (map fst (al_set k v m))"
  by (induction k v m rule: al_set.induct) auto

lemma distinct_keys_al_del: "distinct (map fst m) \<Longrightarrow> distinct (map fst (al_del k m))"
  by (induction m) (auto simp: al_del_def)

text \<open>
  The contract of a state machine: every step keeps an invariant, and relates the state before and
  after by a preorder that says what the step preserves. Both then hold along every run.
\<close>

locale state_machine =
  fixes step :: "'s \<Rightarrow> 's \<Rightarrow> bool"
    and inv :: "'s \<Rightarrow> bool"
    and keeps :: "'s \<Rightarrow> 's \<Rightarrow> bool"
  assumes step_inv: "inv s \<Longrightarrow> step s s' \<Longrightarrow> inv s'"
    and step_keeps: "inv s \<Longrightarrow> step s s' \<Longrightarrow> keeps s s'"
    and keeps_refl: "keeps s s"
    and keeps_trans: "keeps s s' \<Longrightarrow> keeps s' s'' \<Longrightarrow> keeps s s''"
begin

lemma run_inv: "step\<^sup>*\<^sup>* s s' \<Longrightarrow> inv s \<Longrightarrow> inv s'"
  by (induction rule: rtranclp_induct) (auto intro: step_inv)

lemma run_keeps: "step\<^sup>*\<^sup>* s s' \<Longrightarrow> inv s \<Longrightarrow> keeps s s'"
proof (induction rule: rtranclp_induct)
  case base
  show ?case by (rule keeps_refl)
next
  case (step s1 s2)
  from step.hyps(1) step.prems have "inv s1" by (rule run_inv)
  with step show ?case by (blast intro: keeps_trans step_keeps)
qed

end

end
