(* ===== verification/GoStd.thy ===== *)
theory GoStd
  imports Prelude "HOL-Library.Sublist"
begin

text \<open>
  The pieces of Go's language and standard library that the modelled code uses: \<open>int\<close> and
  \<open>int64\<close> arithmetic (wrap-around at 64 bits), \<open>strings\<close>, \<open>strconv.ParseUint\<close>, the \<open>%d\<close> verb
  of \<open>fmt\<close>, \<open>path.Split\<close>, and \<open>time\<close>.

  Strings are Go byte strings over the ASCII range. A \<open>time.Time\<close> is the number of nanoseconds
  since the Unix epoch and a \<open>time.Duration\<close> a number of nanoseconds, both as \<open>int\<close>:
  \<open>Before\<close> is \<open><\<close>, \<open>After\<close> is \<open>>\<close>, \<open>Add\<close> is \<open>+\<close>.
\<close>

section \<open>Integers\<close>

definition wrap64 :: "int \<Rightarrow> int" where
  "wrap64 x = (x + 2 ^ 63) mod 2 ^ 64 - 2 ^ 63"

definition in_int64 :: "int \<Rightarrow> bool" where
  "in_int64 x \<longleftrightarrow> - (2 ^ 63) \<le> x \<and> x < 2 ^ 63"

lemma wrap64_id: "in_int64 x \<Longrightarrow> wrap64 x = x"
  by (simp add: wrap64_def in_int64_def)

lemma in_int64_wrap64 [simp]: "in_int64 (wrap64 x)"
proof -
  have "0 \<le> (x + 2 ^ 63) mod 2 ^ 64" "(x + 2 ^ 63) mod 2 ^ 64 < 2 ^ 64"
    by simp_all
  then show ?thesis by (simp add: wrap64_def in_int64_def)
qed

lemma wrap64_add_left [simp]: "wrap64 (wrap64 a + b) = wrap64 (a + b)"
proof -
  have "((a + 2 ^ 63) mod 2 ^ 64 - 2 ^ 63 + b + 2 ^ 63) mod 2 ^ 64
      = ((a + 2 ^ 63) mod 2 ^ 64 + b) mod (2 ^ 64 :: int)" by (simp add: algebra_simps)
  also have "\<dots> = (a + 2 ^ 63 + b) mod 2 ^ 64" by (rule mod_add_left_eq)
  also have "\<dots> = (a + b + 2 ^ 63) mod 2 ^ 64" by (simp add: algebra_simps)
  finally show ?thesis by (simp add: wrap64_def)
qed

lemma wrap64_add_right [simp]: "wrap64 (a + wrap64 b) = wrap64 (a + b)"
  using wrap64_add_left [of b a] by (simp add: add.commute)

lemma wrap64_wrap64 [simp]: "wrap64 (wrap64 a) = wrap64 a"
  by (simp add: wrap64_id)

lemma wrap64_0 [simp]: "wrap64 0 = 0"
  by (simp add: wrap64_def)

section \<open>Strings\<close>

abbreviation byte :: "char \<Rightarrow> nat" where "byte \<equiv> of_char"

definition is_upper :: "char \<Rightarrow> bool" where "is_upper c \<longleftrightarrow> 65 \<le> byte c \<and> byte c \<le> 90"
definition is_lower :: "char \<Rightarrow> bool" where "is_lower c \<longleftrightarrow> 97 \<le> byte c \<and> byte c \<le> 122"
definition is_digit :: "char \<Rightarrow> bool" where "is_digit c \<longleftrightarrow> 48 \<le> byte c \<and> byte c \<le> 57"

definition to_upper_char :: "char \<Rightarrow> char" where
  "to_upper_char c = (if is_lower c then char_of (byte c - 32) else c)"

definition to_lower_char :: "char \<Rightarrow> char" where
  "to_lower_char c = (if is_upper c then char_of (byte c + 32) else c)"

text \<open>\<open>strings.ToUpper\<close> and \<open>strings.ToLower\<close> (ASCII).\<close>

definition ToUpper :: "string \<Rightarrow> string" where "ToUpper s = map to_upper_char s"
definition ToLower :: "string \<Rightarrow> string" where "ToLower s = map to_lower_char s"

lemma byte_char_of [simp]: "n < 256 \<Longrightarrow> byte (char_of n) = n"
  by (simp add: of_char_of)

lemma byte_to_upper_char: "byte (to_upper_char c) = (if is_lower c then byte c - 32 else byte c)"
proof -
  have "byte c - 32 < 256" using nat_of_char_less_256 [of c] by linarith
  then show ?thesis by (simp add: to_upper_char_def)
qed

lemma to_upper_char_idem [simp]: "to_upper_char (to_upper_char c) = to_upper_char c"
proof -
  have "\<not> is_lower (to_upper_char c)"
    unfolding is_lower_def byte_to_upper_char by auto
  then show ?thesis by (simp add: to_upper_char_def [of "to_upper_char c"])
qed

lemma ToUpper_idem [simp]: "ToUpper (ToUpper s) = ToUpper s"
  by (simp add: ToUpper_def)

lemma to_upper_char_fixed: "\<not> is_upper c \<Longrightarrow> \<not> is_upper d \<Longrightarrow>
    to_upper_char c = to_upper_char d \<Longrightarrow> c = d"
proof -
  assume u: "\<not> is_upper c" "\<not> is_upper d" and eq: "to_upper_char c = to_upper_char d"
  from arg_cong [OF eq, of byte] u have "byte c = byte d"
    by (auto simp: byte_to_upper_char is_lower_def is_upper_def simp del: of_char_eq_iff
        split: if_splits)
  then show "c = d" by (simp add: of_char_eq_iff)
qed

text \<open>\<open>ToUpper\<close> is injective on strings without upper-case letters, such as \<open>hex.EncodeToString\<close>'s.\<close>

definition no_upper :: "string \<Rightarrow> bool" where "no_upper s \<longleftrightarrow> list_all (\<lambda>c. \<not> is_upper c) s"

lemma ToUpper_inj: "no_upper s \<Longrightarrow> no_upper t \<Longrightarrow> ToUpper s = ToUpper t \<Longrightarrow> s = t"
proof (induction s arbitrary: t)
  case Nil
  then show ?case by (simp add: ToUpper_def)
next
  case (Cons c s)
  then obtain d t' where t: "t = d # t'" by (cases t) (auto simp: ToUpper_def)
  with Cons show ?case
    by (auto simp: ToUpper_def no_upper_def intro: to_upper_char_fixed)
qed

text \<open>\<open>strings.HasPrefix\<close>, \<open>HasSuffix\<close>, \<open>Split\<close> on a one-byte separator, and \<open>Join\<close>.\<close>

definition HasSuffix :: "string \<Rightarrow> string \<Rightarrow> bool" where "HasSuffix s t = suffix t s"

fun Split :: "string \<Rightarrow> char \<Rightarrow> string list" where
  "Split [] d = [[]]"
| "Split (c # s) d =
     (if c = d then [] # Split s d
      else (case Split s d of [] \<Rightarrow> [[c]] | w # ws \<Rightarrow> (c # w) # ws))"

fun Join :: "string list \<Rightarrow> string \<Rightarrow> string" where
  "Join [] sep = []"
| "Join [w] sep = w"
| "Join (w # ws) sep = w @ sep @ Join ws sep"

lemma Split_nonempty [simp]: "Split s d \<noteq> []"
  by (induction s d rule: Split.induct) (auto split: list.splits)

lemma Split_no_sep: "d \<notin> set s \<Longrightarrow> Split s d = [s]"
  by (induction s d rule: Split.induct) auto

lemma length_Split: "length (Split s d) = Suc (count_list s d)"
  by (induction s d rule: Split.induct) (auto split: list.splits)

lemma Join_Split: "Join (Split s d) [d] = s"
proof (induction s d rule: Split.induct)
  case (1 d)
  then show ?case by simp
next
  case (2 c s d)
  then show ?case
    by (cases "Split s d"; cases "tl (Split s d)") auto
qed

lemma Split_append: "d \<notin> set w \<Longrightarrow> Split (w @ d # s) d = w # Split s d"
  by (induction w) auto

text \<open>\<open>strings.Fields\<close>.\<close>

definition is_space :: "char \<Rightarrow> bool" where
  "is_space c \<longleftrightarrow> c = CHR '' '' \<or> 9 \<le> byte c \<and> byte c \<le> 13"

function Fields :: "string \<Rightarrow> string list" where
  "Fields s =
     (let s = dropWhile is_space s; w = takeWhile (\<lambda>c. \<not> is_space c) s
      in if s = [] then [] else w # Fields (drop (length w) s))"
  by auto
termination
proof (relation "measure length", simp)
  fix s :: string and x xa
  assume x: "x = dropWhile is_space s" "xa = takeWhile (\<lambda>c. \<not> is_space c) x" "x \<noteq> []"
  then have "\<not> is_space (hd x)" using hd_dropWhile [of is_space s] by simp
  with x(2,3) have "0 < length xa" by (cases x) auto
  moreover have "length x \<le> length s" using x(1) length_dropWhile_le by simp
  moreover have "0 < length x" using x(3) by simp
  ultimately have "length x - length xa < length s" by linarith
  then show "(drop (length xa) x, s) \<in> measure length" by simp
qed

declare Fields.simps [simp del]

section \<open>Numbers as text\<close>

fun fmt_nat :: "nat \<Rightarrow> string" where
  "fmt_nat n = (if n < 10 then [char_of (48 + n)] else fmt_nat (n div 10) @ [char_of (48 + n mod 10)])"

declare fmt_nat.simps [simp del]

text \<open>The \<open>%d\<close> verb.\<close>

definition fmt_d :: "int \<Rightarrow> string" where
  "fmt_d x = (if x < 0 then CHR ''-'' # fmt_nat (nat (- x)) else fmt_nat (nat x))"

definition digit_val :: "char \<Rightarrow> nat option" where
  "digit_val c =
     (if 48 \<le> byte c \<and> byte c \<le> 57 then Some (byte c - 48)
      else if 97 \<le> byte c \<and> byte c \<le> 122 then Some (byte c - 87)
      else if 65 \<le> byte c \<and> byte c \<le> 90 then Some (byte c - 55)
      else None)"

fun digits_val :: "nat \<Rightarrow> nat \<Rightarrow> string \<Rightarrow> nat option" where
  "digits_val base acc [] = Some acc"
| "digits_val base acc (c # s) =
     (case digit_val c of None \<Rightarrow> None
      | Some d \<Rightarrow> if d < base then digits_val base (acc * base + d) s else None)"

text \<open>
  \<open>strconv.ParseUint(s, base, bits)\<close>: a syntax error on the empty string and on a byte that is
  no digit of the base, a range error when the value does not fit.
\<close>

definition ParseUint :: "string \<Rightarrow> nat \<Rightarrow> nat \<Rightarrow> nat result" where
  "ParseUint s base bits =
     (if s = [] then Inl (errors_New ''invalid syntax'')
      else (case digits_val base 0 s of
              None \<Rightarrow> Inl (errors_New ''invalid syntax'')
            | Some n \<Rightarrow> if n < 2 ^ bits then Inr n else Inl (errors_New ''value out of range'')))"

lemma digit_val_char_of [simp]: "n < 10 \<Longrightarrow> digit_val (char_of (48 + n :: nat)) = Some n"
  by (simp add: digit_val_def)

lemma is_digit_char_of [simp]: "n < 10 \<Longrightarrow> is_digit (char_of (48 + n :: nat))"
  by (simp add: is_digit_def)

lemma digits_val_append:
  "digits_val b acc (s @ t) =
     (case digits_val b acc s of None \<Rightarrow> None | Some a \<Rightarrow> digits_val b a t)"
  by (induction s arbitrary: acc) (auto split: option.splits)

lemma fmt_nat_nonempty [simp]: "fmt_nat n \<noteq> []"
  by (subst fmt_nat.simps) simp

lemma fmt_nat_digits: "list_all is_digit (fmt_nat n)"
proof (induction n rule: fmt_nat.induct)
  case (1 n)
  then show ?case
    by (cases "n < 10") (simp_all add: fmt_nat.simps [of n])
qed

lemma digits_val_fmt_nat: "digits_val 10 0 (fmt_nat n) = Some n"
proof (induction n rule: fmt_nat.induct)
  case (1 n)
  then show ?case
    by (cases "n < 10") (simp_all add: fmt_nat.simps [of n] digits_val_append)
qed

lemma ParseUint_fmt_nat: "n < 2 ^ bits \<Longrightarrow> ParseUint (fmt_nat n) 10 bits = Inr n"
  by (simp add: ParseUint_def digits_val_fmt_nat)

lemma fmt_nat_inj: "fmt_nat m = fmt_nat n \<Longrightarrow> m = n"
  by (metis digits_val_fmt_nat option.inject)

lemma fmt_nat_hd: "hd (fmt_nat n) \<noteq> CHR ''-''"
proof -
  have "is_digit (hd (fmt_nat n))"
    using fmt_nat_digits [of n] by (cases "fmt_nat n") auto
  then show ?thesis by (auto simp: is_digit_def)
qed

lemma fmt_nat_neq_minus: "fmt_nat n \<noteq> CHR ''-'' # s"
  using fmt_nat_hd [of n] by (metis list.sel(1))

lemma fmt_d_inj: "fmt_d x = fmt_d y \<Longrightarrow> x = y"
proof -
  assume eq: "fmt_d x = fmt_d y"
  then have neg: "x < 0 \<longleftrightarrow> y < 0"
    unfolding fmt_d_def by (metis fmt_nat_neq_minus)
  show "x = y"
  proof (cases "x < 0")
    case True
    with eq neg have "fmt_nat (nat (- x)) = fmt_nat (nat (- y))"
      unfolding fmt_d_def by (metis list.inject)
    then have "nat (- x) = nat (- y)" by (rule fmt_nat_inj)
    with True neg show ?thesis by linarith
  next
    case False
    with eq neg have "fmt_nat (nat x) = fmt_nat (nat y)"
      unfolding fmt_d_def by metis
    then have "nat x = nat y" by (rule fmt_nat_inj)
    with False neg show ?thesis by linarith
  qed
qed

lemma fmt_d_no_semicolon: "CHR '';'' \<notin> set (fmt_d x)" "CHR '')'' \<notin> set (fmt_d x)"
  using fmt_nat_digits [of "nat x"] fmt_nat_digits [of "nat (- x)"]
  by (auto simp: fmt_d_def list_all_iff is_digit_def)

text \<open>\<open>strconv.Atoi\<close>: an optional sign and decimal digits that fit in an \<open>int\<close>.\<close>

definition Atoi :: "string \<Rightarrow> int result" where
  "Atoi s =
     (let (neg, ds) = (case s of
            [] \<Rightarrow> (False, s)
          | c # t \<Rightarrow> if c = CHR ''-'' then (True, t) else if c = CHR ''+'' then (False, t) else (False, s))
      in if ds = [] then Inl (errors_New ''invalid syntax'')
         else (case digits_val 10 0 ds of
                 None \<Rightarrow> Inl (errors_New ''invalid syntax'')
               | Some n \<Rightarrow>
                   (let x = (if neg then - int n else int n)
                    in if in_int64 x then Inr x else Inl (errors_New ''value out of range''))))"

section \<open>Lines\<close>

abbreviation newline :: char where "newline \<equiv> CHR 0x0A"
abbreviation carriage :: char where "carriage \<equiv> CHR 0x0D"

definition drop_cr :: "string \<Rightarrow> string" where
  "drop_cr l = (if l \<noteq> [] \<and> last l = carriage then butlast l else l)"

text \<open>
  The lines of a \<open>bufio.Scanner\<close>, without their line ends; it stops at a line of 64 kilobytes, and what
  comes after is not seen.
\<close>

definition max_token :: nat where "max_token = 65536"

function scan_lines :: "string \<Rightarrow> string list" where
  "scan_lines s =
     (let l = takeWhile (\<lambda>c. c \<noteq> newline) s
      in if s = [] \<or> max_token \<le> length l then []
         else drop_cr l # scan_lines (drop (Suc (length l)) s))"
  by auto
termination by (relation "measure length") auto

declare scan_lines.simps [simp del]

section \<open>Paths\<close>

text \<open>\<open>path.Split\<close>: the file component is what follows the last slash.\<close>

definition path_Split_file :: "string \<Rightarrow> string" where
  "path_Split_file p = last (Split p CHR ''/'')"

text \<open>\<open>path.Clean\<close> and \<open>filepath.Clean\<close>, for paths on a POSIX system.\<close>

definition slash :: char where "slash = CHR ''/''"

fun clean_parts :: "bool \<Rightarrow> string list \<Rightarrow> string list \<Rightarrow> string list" where
  "clean_parts rooted acc [] = rev acc"
| "clean_parts rooted acc (p # ps) =
     (if p = [] \<or> p = ''.'' then clean_parts rooted acc ps
      else if p = ''..''
      then (if acc \<noteq> [] \<and> hd acc \<noteq> ''..'' then clean_parts rooted (tl acc) ps
            else if rooted then clean_parts rooted acc ps else clean_parts rooted (p # acc) ps)
      else clean_parts rooted (p # acc) ps)"

definition Clean :: "string \<Rightarrow> string" where
  "Clean p =
     (let rooted = (p \<noteq> [] \<and> hd p = slash);
          q = (if rooted then [slash] else []) @ Join (clean_parts rooted [] (Split p slash)) [slash]
      in if q = [] then ''.'' else q)"

definition path_Dir :: "string \<Rightarrow> string" where
  "path_Dir p = Clean (take (length p - length (path_Split_file p)) p)"

definition path_Join :: "string \<Rightarrow> string \<Rightarrow> string" where
  "path_Join a b = (if a = [] \<and> b = [] then [] else if a = [] then Clean b else if b = [] then Clean a
                    else Clean (a @ [slash] @ b))"

section \<open>Time\<close>

type_synonym time = int
type_synonym duration = int

abbreviation (input) second :: duration where "second \<equiv> 1000000000"
abbreviation (input) minute :: duration where "minute \<equiv> 60 * second"
abbreviation (input) hour :: duration where "hour \<equiv> 60 * minute"

text \<open>\<open>t.Unix()\<close>: whole seconds, rounded towards minus infinity.\<close>

definition Unix :: "time \<Rightarrow> int" where "Unix t = t div second"

text \<open>The zero \<open>time.Time\<close> is January 1, year 1, 00:00:00 UTC.\<close>

definition zero_time :: time where "zero_time = - 62135596800 * second"

text \<open>\<open>time.Date(9998, time.January, 11, 11, 11, 11, 11, time.UTC)\<close>, the code's far future.\<close>

definition future_date :: time where "future_date = 253340133071 * second + 11"

end
