(* ===== verification/Acl.thy ===== *)
theory Acl
  imports GoStd "HOL-Library.Multiset"
begin

text \<open>
  Access control lists (\<open>acl.go\<close>): the \<open>ACL\<close> type and \<open>verifyPermission\<close>, which decides whether
  the fingerprints that signed an action carry enough weight to run a module. The locale
  \<open>quorum\<close> is the contract "enough weight from distinct keys", which the loader's manifest check
  (theory \<open>Manifests\<close>) meets as well.

  Go maps iterate in any order: an ACL and an entry's investigators are association lists, and
  \<open>verifyPermission_order_irrelevant\<close> shows that their order does not matter.
\<close>

section \<open>Data\<close>

record acl_signer =
  Fingerprint :: string
  Weight :: int

record acl_entry =
  MinimumWeight :: int
  Investigators :: "(string \<times> acl_signer) list"

type_synonym acl = "(string \<times> acl_entry) list"

section \<open>verifyPermission\<close>

text \<open>\<open>acl[moduleName]\<close>, falling back to \<open>acl["default"]\<close>, with the name of the entry used.\<close>

definition acl_entry_for :: "string \<Rightarrow> acl \<Rightarrow> (string \<times> acl_entry) option" where
  "acl_entry_for moduleName acl =
     (case map_of acl moduleName of
        Some aclent \<Rightarrow> Some (moduleName, aclent)
      | None \<Rightarrow> (case map_of acl ''default'' of
                  Some aclent \<Rightarrow> Some (''default'', aclent)
                | None \<Rightarrow> None))"

fun add_signer_weights :: "string \<Rightarrow> (string \<times> acl_signer) list \<Rightarrow> int \<Rightarrow> int" where
  "add_signer_weights fp [] w = w"
| "add_signer_weights fp ((_, signer) # is) w =
     add_signer_weights fp is
       (if ToUpper fp = ToUpper (Fingerprint signer) then wrap64 (w + Weight signer) else w)"

fun signatures_loop :: "acl_entry \<Rightarrow> string list \<Rightarrow> int \<Rightarrow> string list \<Rightarrow> int result" where
  "signatures_loop aclent seenFp signaturesWeight [] = Inr signaturesWeight"
| "signatures_loop aclent seenFp signaturesWeight (fp # fps) =
     (if fp \<in> set seenFp
      then Inl (Errorf ''permission violation: key %v used to sign multiple times'' [AStr fp])
      else signatures_loop aclent (seenFp @ [fp])
             (add_signer_weights fp (Investigators aclent) signaturesWeight) fps)"

definition verifyPermission :: "string \<Rightarrow> acl \<Rightarrow> string list \<Rightarrow> unit result" where
  "verifyPermission moduleName acl fingerprints =
     (case acl_entry_for moduleName acl of
        None \<Rightarrow> Inl (Errorf ''no ACL entry found for %v, and no default present'' [AStr moduleName])
      | Some (aclname, aclent) \<Rightarrow>
          if MinimumWeight aclent < 1
          then Inl (Errorf ''invalid ACL %v, weight must be > 0'' [AStr aclname])
          else (case signatures_loop aclent [] 0 fingerprints of
                  Inl e \<Rightarrow> Inl e
                | Inr signaturesWeight \<Rightarrow>
                    if signaturesWeight < MinimumWeight aclent
                    then Inl (Errorf (''permission denied for operation %v, insufficient signatures weight''
                                      @ '' (need %v, got %v)'')
                               [AStr moduleName, AInt (MinimumWeight aclent), AInt signaturesWeight])
                    else Inr ()))"

section \<open>What the loops compute\<close>

text \<open>The weight of one fingerprint: the sum over the investigators that have it.\<close>

definition fp_weight :: "acl_entry \<Rightarrow> string \<Rightarrow> int" where
  "fp_weight aclent fp =
     (\<Sum>i\<leftarrow>Investigators aclent.
        if ToUpper fp = ToUpper (Fingerprint (snd i)) then Weight (snd i) else 0)"

lemma add_signer_weights_eq:
  "wrap64 (add_signer_weights fp is w) =
     wrap64 (w + (\<Sum>i\<leftarrow>is. if ToUpper fp = ToUpper (Fingerprint (snd i)) then Weight (snd i) else 0))"
  by (induction fp "is" w rule: add_signer_weights.induct) (auto simp: add.assoc)

lemma add_signer_weights_wrapped:
  "in_int64 w \<Longrightarrow> in_int64 (add_signer_weights fp is w)"
  by (induction fp "is" w rule: add_signer_weights.induct) auto

lemma add_signer_weights_fp_weight:
  "in_int64 w \<Longrightarrow>
     add_signer_weights fp (Investigators aclent) w = wrap64 (w + fp_weight aclent fp)"
  using add_signer_weights_eq [of fp "Investigators aclent" w]
    wrap64_id [OF add_signer_weights_wrapped, of w fp "Investigators aclent"]
  by (simp add: fp_weight_def)

lemma signatures_loop_eq:
  "in_int64 w \<Longrightarrow>
   signatures_loop aclent seen w fps = Inr r \<longleftrightarrow>
     distinct fps \<and> set fps \<inter> set seen = {} \<and> r = wrap64 (w + (\<Sum>fp\<leftarrow>fps. fp_weight aclent fp))"
proof (induction fps arbitrary: seen w)
  case Nil
  then show ?case by (auto simp: wrap64_id)
next
  case (Cons fp fps)
  let ?w = "add_signer_weights fp (Investigators aclent) w"
  have w: "?w = wrap64 (w + fp_weight aclent fp)"
    using Cons.prems by (rule add_signer_weights_fp_weight)
  have "in_int64 ?w" by (simp add: w)
  from Cons.IH [OF this, of "seen @ [fp]"] show ?case
    by (auto simp: w add.assoc)
qed

lemma in_int64_0 [simp]: "in_int64 0"
  by (simp add: in_int64_def)

lemma verifyPermission_Some:
  assumes "acl_entry_for moduleName acl = Some (aclname, aclent)"
  shows "verifyPermission moduleName acl fps = Inr () \<longleftrightarrow>
     1 \<le> MinimumWeight aclent \<and> distinct fps \<and>
     MinimumWeight aclent \<le> wrap64 (\<Sum>fp\<leftarrow>fps. fp_weight aclent fp)"
proof -
  have loop: "signatures_loop aclent [] 0 fps = Inr r \<longleftrightarrow>
      distinct fps \<and> r = wrap64 (\<Sum>fp\<leftarrow>fps. fp_weight aclent fp)" for r
    using signatures_loop_eq [of 0 aclent "[]" fps r] by simp
  show ?thesis
  proof (cases "signatures_loop aclent [] 0 fps")
    case (Inl e)
    then have "\<not> distinct fps" using loop [of "wrap64 (\<Sum>fp\<leftarrow>fps. fp_weight aclent fp)"] by simp
    with Inl assms show ?thesis by (simp add: verifyPermission_def)
  next
    case (Inr r)
    then have "distinct fps \<and> r = wrap64 (\<Sum>fp\<leftarrow>fps. fp_weight aclent fp)" using loop [of r] by simp
    with Inr assms show ?thesis by (auto simp: verifyPermission_def)
  qed
qed

lemma sum_list_mset_cong: "mset xs = mset ys \<Longrightarrow> (\<Sum>x\<leftarrow>xs. (f x :: int)) = (\<Sum>x\<leftarrow>ys. f x)"
  by (metis mset_map sum_mset_sum_list)

section \<open>The contract: a quorum of distinct keys\<close>

locale quorum =
  fixes valid :: "'c \<Rightarrow> bool"
    and accept :: "'c \<Rightarrow> 'k list \<Rightarrow> bool"
    and weight :: "'c \<Rightarrow> 'k \<Rightarrow> int"
    and need :: "'c \<Rightarrow> int"
    and agg :: "int \<Rightarrow> int"
  assumes accept_iff:
      "valid c \<Longrightarrow> accept c ks \<longleftrightarrow> distinct ks \<and> need c \<le> agg (\<Sum>k\<leftarrow>ks. weight c k)"
    and need_pos: "valid c \<Longrightarrow> 0 < need c"
    and agg_0: "agg 0 = 0"
begin

lemma accept_order:
  assumes "valid c" "mset ks = mset ks'"
  shows "accept c ks \<longleftrightarrow> accept c ks'"
proof -
  have "(\<Sum>k\<leftarrow>ks. weight c k) = (\<Sum>k\<leftarrow>ks'. weight c k)"
    using assms(2) by (rule sum_list_mset_cong)
  moreover have "distinct ks \<longleftrightarrow> distinct ks'"
    using assms(2) by (metis distinct_count_atmost_1 set_mset_mset)
  ultimately show ?thesis using assms(1) by (simp add: accept_iff)
qed

lemma accept_some_key:
  assumes "valid c" "accept c ks"
  obtains k where "k \<in> set ks" "weight c k \<noteq> 0"
proof -
  have "\<exists>k\<in>set ks. weight c k \<noteq> 0"
  proof (rule ccontr)
    assume "\<not> (\<exists>k\<in>set ks. weight c k \<noteq> 0)"
    then have "(\<Sum>k\<leftarrow>ks. weight c k) = 0" by (simp add: sum_list_0 map_idI cong: map_cong)
    with assms need_pos [OF assms(1)] show False by (simp add: accept_iff agg_0)
  qed
  with that show thesis by blast
qed

lemma no_keys_rejected: "valid c \<Longrightarrow> \<not> accept c []"
  by (auto elim: accept_some_key)

lemma repeated_key_rejected: "valid c \<Longrightarrow> \<not> distinct ks \<Longrightarrow> \<not> accept c ks"
  by (simp add: accept_iff)

end

definition acl_valid :: "string \<times> acl \<Rightarrow> bool" where
  "acl_valid c = (case acl_entry_for (fst c) (snd c) of None \<Rightarrow> False
                  | Some (_, aclent) \<Rightarrow> 1 \<le> MinimumWeight aclent)"

definition acl_weight :: "string \<times> acl \<Rightarrow> string \<Rightarrow> int" where
  "acl_weight c fp = (case acl_entry_for (fst c) (snd c) of None \<Rightarrow> 0
                      | Some (_, aclent) \<Rightarrow> fp_weight aclent fp)"

definition acl_need :: "string \<times> acl \<Rightarrow> int" where
  "acl_need c = (case acl_entry_for (fst c) (snd c) of None \<Rightarrow> 0
                 | Some (_, aclent) \<Rightarrow> MinimumWeight aclent)"

definition acl_accept :: "string \<times> acl \<Rightarrow> string list \<Rightarrow> bool" where
  "acl_accept c fps = is_ok (verifyPermission (fst c) (snd c) fps)"

lemma acl_accept_eq: "acl_accept (m, a) fps \<longleftrightarrow> verifyPermission m a fps = Inr ()"
  by (auto simp: acl_accept_def is_ok_iff)

interpretation acl: quorum acl_valid acl_accept acl_weight acl_need wrap64
proof unfold_locales
  fix c :: "string \<times> acl" and ks
  assume "acl_valid c"
  then obtain aclname aclent where "acl_entry_for (fst c) (snd c) = Some (aclname, aclent)"
    and "1 \<le> MinimumWeight aclent"
    by (auto simp: acl_valid_def split: option.splits)
  then show "acl_accept c ks = (distinct ks \<and> acl_need c \<le> wrap64 (\<Sum>k\<leftarrow>ks. acl_weight c k))"
    using acl_accept_eq [of "fst c" "snd c" ks]
    by (simp add: verifyPermission_Some acl_need_def acl_weight_def)
  show "0 < acl_need c"
    using \<open>acl_valid c\<close> by (auto simp: acl_valid_def acl_need_def split: option.splits)
next
  show "wrap64 0 = 0" by simp
qed

lemma verifyPermission_valid: "verifyPermission m a fps = Inr () \<Longrightarrow> acl_valid (m, a)"
  by (auto simp: verifyPermission_def acl_valid_def not_less split: option.splits if_splits)

section \<open>Each investigator counts once\<close>

lemma sum_list_if_single:
  "distinct fps \<Longrightarrow> inj_on g (set fps) \<Longrightarrow>
     (\<Sum>fp\<leftarrow>fps. if g fp = k then (w :: int) else 0) = (if k \<in> g ` set fps then w else 0)"
  by (induction fps) (auto simp: inj_on_def)

lemma sum_list_swap:
  "(\<Sum>x\<leftarrow>xs. \<Sum>y\<leftarrow>ys. f x y) = (\<Sum>y\<leftarrow>ys. \<Sum>x\<leftarrow>xs. (f x y :: int))"
  by (induction xs) (simp_all add: sum_list_addf)

definition signers_weight :: "acl_entry \<Rightarrow> string list \<Rightarrow> int" where
  "signers_weight aclent fps =
     (\<Sum>i\<leftarrow>Investigators aclent.
        if ToUpper (Fingerprint (snd i)) \<in> ToUpper ` set fps then Weight (snd i) else 0)"

lemma sum_fp_weight_signers:
  assumes "distinct fps" "list_all no_upper fps"
  shows "(\<Sum>fp\<leftarrow>fps. fp_weight aclent fp) = signers_weight aclent fps"
proof -
  have inj: "inj_on ToUpper (set fps)"
    using assms(2) by (auto simp: inj_on_def list_all_iff intro: ToUpper_inj)
  have "(\<Sum>fp\<leftarrow>fps. fp_weight aclent fp) =
      (\<Sum>i\<leftarrow>Investigators aclent. \<Sum>fp\<leftarrow>fps.
         if ToUpper fp = ToUpper (Fingerprint (snd i)) then Weight (snd i) else 0)"
    unfolding fp_weight_def by (rule sum_list_swap)
  also have "\<dots> = signers_weight aclent fps"
    by (simp add: sum_list_if_single [OF assms(1) inj] signers_weight_def)
  finally show ?thesis .
qed

section \<open>Properties\<close>

text \<open>
  \<open>verifyPermission\<close> grants exactly when the module has an ACL entry, its own or the default
  one, the entry's minimum weight is at least 1, no key signed twice, and the weights of the
  signing keys, added with Go's 64-bit \<open>int\<close> arithmetic, reach the minimum.
\<close>

theorem verifyPermission_iff:
  "verifyPermission moduleName acl fingerprints = Inr () \<longleftrightarrow>
     (\<exists>aclname aclent. acl_entry_for moduleName acl = Some (aclname, aclent) \<and>
        1 \<le> MinimumWeight aclent \<and> distinct fingerprints \<and>
        MinimumWeight aclent \<le> wrap64 (\<Sum>fp\<leftarrow>fingerprints. fp_weight aclent fp))"
proof (cases "acl_entry_for moduleName acl")
  case None
  then show ?thesis by (simp add: verifyPermission_def)
next
  case (Some p)
  then show ?thesis by (cases p) (simp add: verifyPermission_Some)
qed

text \<open>
  For fingerprints as the signature check produces them (hexadecimal without upper-case
  letters) and weights whose sum fits in an \<open>int\<close>, permission is granted exactly when the
  investigators that signed, each counted once however its fingerprint is spelled in the ACL,
  reach the minimum weight.
\<close>

theorem verifyPermission_counts_each_investigator_once:
  assumes "acl_entry_for moduleName acl = Some (aclname, aclent)"
    and "list_all no_upper fingerprints" and "distinct fingerprints"
    and "in_int64 (signers_weight aclent fingerprints)"
  shows "verifyPermission moduleName acl fingerprints = Inr () \<longleftrightarrow>
     1 \<le> MinimumWeight aclent \<and> MinimumWeight aclent \<le> signers_weight aclent fingerprints"
  using assms
  by (simp add: verifyPermission_Some sum_fp_weight_signers wrap64_id)

definition example_entry :: acl_entry where
  "example_entry = \<lparr>MinimumWeight = 3,
     Investigators = [(''bob'', \<lparr>Fingerprint = ''AF'', Weight = 2\<rparr>),
                      (''eve'', \<lparr>Fingerprint = ''C0'', Weight = 1\<rparr>)]\<rparr>"

theorem verifyPermission_counts_each_investigator_once_witness:
  "verifyPermission ''ping'' [(''default'', example_entry)] [''c0'', ''af''] = Inr ()"
proof -
  have "acl_entry_for ''ping'' [(''default'', example_entry)] = Some (''default'', example_entry)"
    by (simp add: acl_entry_for_def)
  moreover have "list_all no_upper [''c0'', ''af'']" by code_simp
  moreover have "distinct [''c0'', ''af'']" by simp
  moreover have "in_int64 (signers_weight example_entry [''c0'', ''af''])" by code_simp
  moreover have "1 \<le> MinimumWeight example_entry
      \<and> MinimumWeight example_entry \<le> signers_weight example_entry [''c0'', ''af'']"
    by code_simp
  ultimately show ?thesis
    using verifyPermission_counts_each_investigator_once by blast
qed

text \<open>
  The outcome does not depend on the order in which Go's map iteration visits the
  investigators, nor on the order of the signatures.
\<close>

theorem verifyPermission_order_irrelevant:
  assumes "acl_entry_for moduleName acl = Some (aclname, e)"
    and "acl_entry_for moduleName acl' = Some (aclname', e')"
    and "MinimumWeight e' = MinimumWeight e"
    and "mset (Investigators e') = mset (Investigators e)"
    and "mset fps' = mset fps"
  shows "is_ok (verifyPermission moduleName acl' fps') = is_ok (verifyPermission moduleName acl fps)"
proof -
  have fw: "fp_weight e' fp = fp_weight e fp" for fp
    using assms(4) unfolding fp_weight_def by (rule sum_list_mset_cong)
  have "acl_accept (moduleName, acl') fps' = acl_accept (moduleName, acl') fps"
  proof (cases "acl_valid (moduleName, acl')")
    case True
    then show ?thesis using assms(5) by (rule acl.accept_order)
  next
    case False
    then show ?thesis using verifyPermission_valid acl_accept_eq by blast
  qed
  also have "\<dots> = acl_accept (moduleName, acl) fps"
    using assms(1,2,3) fw by (simp add: acl_accept_eq verifyPermission_Some)
  finally show ?thesis by (simp add: acl_accept_def)
qed

theorem verifyPermission_order_irrelevant_witness:
  "is_ok (verifyPermission ''m''
      [(''m'', example_entry\<lparr>Investigators := rev (Investigators example_entry)\<rparr>)] [''c0'', ''af''])
   = is_ok (verifyPermission ''m'' [(''m'', example_entry)] [''af'', ''c0''])"
  by (rule verifyPermission_order_irrelevant
      [where aclname = "''m''" and aclname' = "''m''" and e = example_entry
        and e' = "example_entry\<lparr>Investigators := rev (Investigators example_entry)\<rparr>"])
    (simp_all add: acl_entry_for_def)

end
