(* ===== verification/Perms.thy ===== *)
theory Perms
  imports GoStd
begin

unbundle bit_operations_syntax

text \<open>
  Investigator permissions (\<open>investigator.go\<close>): the permission constants, the boolean permission
  set \<open>InvestigatorPerms\<close> with its conversions to and from a bit mask, the predefined sets, and
  \<open>CheckPermission\<close>, on which the API's authorisation rests. Masks are Go's \<open>int64\<close>, here
  \<open>64 word\<close>.
\<close>

section \<open>Data\<close>

type_synonym mask = "64 word"

definition PermSearch :: mask where "PermSearch = push_bit 0 1"
definition PermAction :: mask where "PermAction = push_bit 1 1"
definition PermActionCreate :: mask where "PermActionCreate = push_bit 2 1"
definition PermCommand :: mask where "PermCommand = push_bit 3 1"
definition PermAgent :: mask where "PermAgent = push_bit 4 1"
definition PermDashboard :: mask where "PermDashboard = push_bit 5 1"
definition PermLoader :: mask where "PermLoader = push_bit 6 1"
definition PermLoaderStatus :: mask where "PermLoaderStatus = push_bit 7 1"
definition PermLoaderExpect :: mask where "PermLoaderExpect = push_bit 8 1"
definition PermLoaderKey :: mask where "PermLoaderKey = push_bit 9 1"
definition PermLoaderNew :: mask where "PermLoaderNew = push_bit 10 1"
definition PermManifest :: mask where "PermManifest = push_bit 11 1"
definition PermManifestSign :: mask where "PermManifestSign = push_bit 12 1"
definition PermManifestNew :: mask where "PermManifestNew = push_bit 13 1"
definition PermManifestStatus :: mask where "PermManifestStatus = push_bit 14 1"
definition PermManifestLoaders :: mask where "PermManifestLoaders = push_bit 15 1"
definition PermInvestigator :: mask where "PermInvestigator = push_bit 16 1"
definition PermInvestigatorCreate :: mask where "PermInvestigatorCreate = push_bit 17 1"
definition PermInvestigatorUpdate :: mask where "PermInvestigatorUpdate = push_bit 18 1"

lemmas Perm_defs = PermSearch_def
  PermAction_def
  PermActionCreate_def
  PermCommand_def
  PermAgent_def
  PermDashboard_def
  PermLoader_def
  PermLoaderStatus_def
  PermLoaderExpect_def
  PermLoaderKey_def
  PermLoaderNew_def
  PermManifest_def
  PermManifestSign_def
  PermManifestNew_def
  PermManifestStatus_def
  PermManifestLoaders_def
  PermInvestigator_def
  PermInvestigatorCreate_def
  PermInvestigatorUpdate_def

record InvestigatorPerms =
  pSearch :: bool
  pAction :: bool
  pActionCreate :: bool
  pCommand :: bool
  pAgent :: bool
  pDashboard :: bool
  pLoader :: bool
  pLoaderStatus :: bool
  pLoaderExpect :: bool
  pLoaderKey :: bool
  pLoaderNew :: bool
  pManifest :: bool
  pManifestSign :: bool
  pManifestStatus :: bool
  pManifestNew :: bool
  pManifestLoaders :: bool
  pInvestigator :: bool
  pInvestigatorCreate :: bool
  pInvestigatorUpdate :: bool

text \<open>The zero value \<open>InvestigatorPerms{}\<close>.\<close>

definition no_perms :: InvestigatorPerms where
  "no_perms = \<lparr>pSearch = False, pAction = False, pActionCreate = False, pCommand = False, pAgent = False, pDashboard = False, pLoader = False, pLoaderStatus = False, pLoaderExpect = False, pLoaderKey = False, pLoaderNew = False, pManifest = False, pManifestSign = False, pManifestStatus = False, pManifestNew = False, pManifestLoaders = False, pInvestigator = False, pInvestigatorCreate = False, pInvestigatorUpdate = False\<rparr>"

section \<open>Operations\<close>

definition CheckPermission :: "InvestigatorPerms \<Rightarrow> mask \<Rightarrow> bool" where
  "CheckPermission ip pv =
     (if pv = PermSearch then pSearch ip
      else if pv = PermAction then pAction ip
      else if pv = PermActionCreate then pActionCreate ip
      else if pv = PermCommand then pCommand ip
      else if pv = PermAgent then pAgent ip
      else if pv = PermDashboard then pDashboard ip
      else if pv = PermLoader then pLoader ip
      else if pv = PermLoaderStatus then pLoaderStatus ip
      else if pv = PermLoaderExpect then pLoaderExpect ip
      else if pv = PermLoaderKey then pLoaderKey ip
      else if pv = PermLoaderNew then pLoaderNew ip
      else if pv = PermManifest then pManifest ip
      else if pv = PermManifestSign then pManifestSign ip
      else if pv = PermManifestNew then pManifestNew ip
      else if pv = PermManifestLoaders then pManifestLoaders ip
      else if pv = PermInvestigator then pInvestigator ip
      else if pv = PermInvestigatorCreate then pInvestigatorCreate ip
      else if pv = PermInvestigatorUpdate then pInvestigatorUpdate ip
      else False)"

text \<open>\<open>FromMask\<close> sets the fields whose bit is set and leaves the others as they are.\<close>

definition FromMask :: "InvestigatorPerms \<Rightarrow> mask \<Rightarrow> InvestigatorPerms" where
  "FromMask ip msk =
     (let ip = (if msk AND PermSearch \<noteq> 0 then ip\<lparr>pSearch := True\<rparr> else ip);
          ip = (if msk AND PermAction \<noteq> 0 then ip\<lparr>pAction := True\<rparr> else ip);
          ip = (if msk AND PermActionCreate \<noteq> 0 then ip\<lparr>pActionCreate := True\<rparr> else ip);
          ip = (if msk AND PermCommand \<noteq> 0 then ip\<lparr>pCommand := True\<rparr> else ip);
          ip = (if msk AND PermAgent \<noteq> 0 then ip\<lparr>pAgent := True\<rparr> else ip);
          ip = (if msk AND PermDashboard \<noteq> 0 then ip\<lparr>pDashboard := True\<rparr> else ip);
          ip = (if msk AND PermLoader \<noteq> 0 then ip\<lparr>pLoader := True\<rparr> else ip);
          ip = (if msk AND PermLoaderStatus \<noteq> 0 then ip\<lparr>pLoaderStatus := True\<rparr> else ip);
          ip = (if msk AND PermLoaderExpect \<noteq> 0 then ip\<lparr>pLoaderExpect := True\<rparr> else ip);
          ip = (if msk AND PermLoaderKey \<noteq> 0 then ip\<lparr>pLoaderKey := True\<rparr> else ip);
          ip = (if msk AND PermLoaderNew \<noteq> 0 then ip\<lparr>pLoaderNew := True\<rparr> else ip);
          ip = (if msk AND PermManifest \<noteq> 0 then ip\<lparr>pManifest := True\<rparr> else ip);
          ip = (if msk AND PermManifestSign \<noteq> 0 then ip\<lparr>pManifestSign := True\<rparr> else ip);
          ip = (if msk AND PermManifestNew \<noteq> 0 then ip\<lparr>pManifestNew := True\<rparr> else ip);
          ip = (if msk AND PermManifestStatus \<noteq> 0 then ip\<lparr>pManifestStatus := True\<rparr> else ip);
          ip = (if msk AND PermManifestLoaders \<noteq> 0 then ip\<lparr>pManifestLoaders := True\<rparr> else ip);
          ip = (if msk AND PermInvestigator \<noteq> 0 then ip\<lparr>pInvestigator := True\<rparr> else ip);
          ip = (if msk AND PermInvestigatorCreate \<noteq> 0 then ip\<lparr>pInvestigatorCreate := True\<rparr> else ip);
          ip = (if msk AND PermInvestigatorUpdate \<noteq> 0 then ip\<lparr>pInvestigatorUpdate := True\<rparr> else ip)
      in ip)"

definition ToMask :: "InvestigatorPerms \<Rightarrow> mask" where
  "ToMask ip =
     (let ret = 0;
          ret = (if pSearch ip then ret OR PermSearch else ret);
          ret = (if pAction ip then ret OR PermAction else ret);
          ret = (if pActionCreate ip then ret OR PermActionCreate else ret);
          ret = (if pCommand ip then ret OR PermCommand else ret);
          ret = (if pAgent ip then ret OR PermAgent else ret);
          ret = (if pDashboard ip then ret OR PermDashboard else ret);
          ret = (if pLoader ip then ret OR PermLoader else ret);
          ret = (if pLoaderStatus ip then ret OR PermLoaderStatus else ret);
          ret = (if pLoaderExpect ip then ret OR PermLoaderExpect else ret);
          ret = (if pLoaderKey ip then ret OR PermLoaderKey else ret);
          ret = (if pLoaderNew ip then ret OR PermLoaderNew else ret);
          ret = (if pManifest ip then ret OR PermManifest else ret);
          ret = (if pManifestSign ip then ret OR PermManifestSign else ret);
          ret = (if pManifestNew ip then ret OR PermManifestNew else ret);
          ret = (if pManifestStatus ip then ret OR PermManifestStatus else ret);
          ret = (if pManifestLoaders ip then ret OR PermManifestLoaders else ret);
          ret = (if pInvestigator ip then ret OR PermInvestigator else ret);
          ret = (if pInvestigatorCreate ip then ret OR PermInvestigatorCreate else ret);
          ret = (if pInvestigatorUpdate ip then ret OR PermInvestigatorUpdate else ret)
      in ret)"

definition DefaultSet :: "InvestigatorPerms \<Rightarrow> InvestigatorPerms" where
  "DefaultSet ip = ip\<lparr>pSearch := True, pAction := True, pActionCreate := True, pCommand := True,
     pAgent := True, pDashboard := True\<rparr>"

definition ManifestSet :: "InvestigatorPerms \<Rightarrow> InvestigatorPerms" where
  "ManifestSet ip = ip\<lparr>pManifest := True, pManifestSign := True, pManifestNew := True,
     pManifestStatus := True, pManifestLoaders := True\<rparr>"

definition LoaderSet :: "InvestigatorPerms \<Rightarrow> InvestigatorPerms" where
  "LoaderSet ip = ip\<lparr>pLoader := True, pLoaderStatus := True, pLoaderExpect := True,
     pLoaderKey := True, pLoaderNew := True\<rparr>"

definition AdminSet :: "InvestigatorPerms \<Rightarrow> InvestigatorPerms" where
  "AdminSet ip = ip\<lparr>pInvestigator := True, pInvestigatorCreate := True,
     pInvestigatorUpdate := True\<rparr>"

text \<open>
  \<open>FromSetList\<close> works on the receiver in place: on an unknown name it stops with an error and
  leaves the sets applied so far. The result is the error, if any, and the receiver.
\<close>

fun FromSetList :: "InvestigatorPerms \<Rightarrow> string list \<Rightarrow> go_error option \<times> InvestigatorPerms" where
  "FromSetList ip [] = (None, ip)"
| "FromSetList ip (x # sl) =
     (if x = ''PermManifest'' then FromSetList (ManifestSet ip) sl
      else if x = ''PermLoader'' then FromSetList (LoaderSet ip) sl
      else if x = ''PermAdmin'' then FromSetList (AdminSet ip) sl
      else (Some (Errorf ''invalid permission %q'' [AStr x]), ip))"

definition PermSets :: "string list" where
  "PermSets = [''PermManifest'', ''PermLoader'', ''PermAdmin'']"

text \<open>The closure \<open>cf\<close> of \<open>ToDescriptive\<close>: both loops count bits of an \<open>int64\<close> by arithmetic shifts.\<close>

definition count_bits :: "mask \<Rightarrow> mask" where
  "count_bits v = fold (\<lambda>sb cnt. cnt + (signed_drop_bit sb v AND 1)) [0..<64] 0"

definition cf :: "mask \<Rightarrow> mask \<Rightarrow> bool \<times> mask" where
  "cf want have' =
     (let wantcnt = count_bits want; havecnt = count_bits (have' AND want)
      in (havecnt = wantcnt, havecnt))"

definition describe_set :: "InvestigatorPerms \<Rightarrow> InvestigatorPerms \<Rightarrow> string \<Rightarrow> string" where
  "describe_set ip tv name =
     (let (fs, part) = cf (ToMask tv) (ToMask ip)
      in if fs then name else if 0 <s part then name @ ''(partial)'' else [])"

definition add_description :: "string \<Rightarrow> string \<Rightarrow> string" where
  "add_description ret av = (if ret \<noteq> [] \<and> av \<noteq> [] then ret @ '','' else ret) @ av"

definition ToDescriptive :: "InvestigatorPerms \<Rightarrow> string" where
  "ToDescriptive ip =
     (let ret = describe_set ip (DefaultSet no_perms) ''Default'';
          ret = add_description ret (describe_set ip (AdminSet no_perms) ''PermAdmin'');
          ret = add_description ret (describe_set ip (LoaderSet no_perms) ''PermLoader'');
          ret = add_description ret (describe_set ip (ManifestSet no_perms) ''PermManifest'')
      in ret)"

section \<open>Masks and fields\<close>

lemma and_push_bit_1: "(w :: mask) AND push_bit n 1 \<noteq> 0 \<longleftrightarrow> bit w n"
  by (simp add: push_bit_eq_mult and_exp_eq_0_iff_not_bit)

lemma bit_push_bit_1: "m < 64 \<Longrightarrow> bit (push_bit m (1 :: mask)) n \<longleftrightarrow> n = m"
  by (auto simp: bit_exp_iff)

lemma bit_zero_mask: "bit (0 :: mask) n \<longleftrightarrow> False"
  by simp

lemma if_or: "(if b then w OR p else w) = (w OR (if b then p else 0) :: mask)"
  by simp

lemma bit_if_0: "bit (if b then p else (0 :: mask)) n \<longleftrightarrow> b \<and> bit p n"
  by simp

lemma if_field_updates:
  "(if b then (ip :: InvestigatorPerms)\<lparr>pSearch := True\<rparr> else ip) = pSearch_update (\<lambda>v. v \<or> b) ip"
  "(if b then (ip :: InvestigatorPerms)\<lparr>pAction := True\<rparr> else ip) = pAction_update (\<lambda>v. v \<or> b) ip"
  "(if b then (ip :: InvestigatorPerms)\<lparr>pActionCreate := True\<rparr> else ip) = pActionCreate_update (\<lambda>v. v \<or> b) ip"
  "(if b then (ip :: InvestigatorPerms)\<lparr>pCommand := True\<rparr> else ip) = pCommand_update (\<lambda>v. v \<or> b) ip"
  "(if b then (ip :: InvestigatorPerms)\<lparr>pAgent := True\<rparr> else ip) = pAgent_update (\<lambda>v. v \<or> b) ip"
  "(if b then (ip :: InvestigatorPerms)\<lparr>pDashboard := True\<rparr> else ip) = pDashboard_update (\<lambda>v. v \<or> b) ip"
  "(if b then (ip :: InvestigatorPerms)\<lparr>pLoader := True\<rparr> else ip) = pLoader_update (\<lambda>v. v \<or> b) ip"
  "(if b then (ip :: InvestigatorPerms)\<lparr>pLoaderStatus := True\<rparr> else ip) = pLoaderStatus_update (\<lambda>v. v \<or> b) ip"
  "(if b then (ip :: InvestigatorPerms)\<lparr>pLoaderExpect := True\<rparr> else ip) = pLoaderExpect_update (\<lambda>v. v \<or> b) ip"
  "(if b then (ip :: InvestigatorPerms)\<lparr>pLoaderKey := True\<rparr> else ip) = pLoaderKey_update (\<lambda>v. v \<or> b) ip"
  "(if b then (ip :: InvestigatorPerms)\<lparr>pLoaderNew := True\<rparr> else ip) = pLoaderNew_update (\<lambda>v. v \<or> b) ip"
  "(if b then (ip :: InvestigatorPerms)\<lparr>pManifest := True\<rparr> else ip) = pManifest_update (\<lambda>v. v \<or> b) ip"
  "(if b then (ip :: InvestigatorPerms)\<lparr>pManifestSign := True\<rparr> else ip) = pManifestSign_update (\<lambda>v. v \<or> b) ip"
  "(if b then (ip :: InvestigatorPerms)\<lparr>pManifestStatus := True\<rparr> else ip) = pManifestStatus_update (\<lambda>v. v \<or> b) ip"
  "(if b then (ip :: InvestigatorPerms)\<lparr>pManifestNew := True\<rparr> else ip) = pManifestNew_update (\<lambda>v. v \<or> b) ip"
  "(if b then (ip :: InvestigatorPerms)\<lparr>pManifestLoaders := True\<rparr> else ip) = pManifestLoaders_update (\<lambda>v. v \<or> b) ip"
  "(if b then (ip :: InvestigatorPerms)\<lparr>pInvestigator := True\<rparr> else ip) = pInvestigator_update (\<lambda>v. v \<or> b) ip"
  "(if b then (ip :: InvestigatorPerms)\<lparr>pInvestigatorCreate := True\<rparr> else ip) = pInvestigatorCreate_update (\<lambda>v. v \<or> b) ip"
  "(if b then (ip :: InvestigatorPerms)\<lparr>pInvestigatorUpdate := True\<rparr> else ip) = pInvestigatorUpdate_update (\<lambda>v. v \<or> b) ip"
  by simp_all

lemma bit_ToMask:
  "bit (ToMask ip) n \<longleftrightarrow>
     (pSearch ip \<and> n = 0) \<or>
     (pAction ip \<and> n = 1) \<or>
     (pActionCreate ip \<and> n = 2) \<or>
     (pCommand ip \<and> n = 3) \<or>
     (pAgent ip \<and> n = 4) \<or>
     (pDashboard ip \<and> n = 5) \<or>
     (pLoader ip \<and> n = 6) \<or>
     (pLoaderStatus ip \<and> n = 7) \<or>
     (pLoaderExpect ip \<and> n = 8) \<or>
     (pLoaderKey ip \<and> n = 9) \<or>
     (pLoaderNew ip \<and> n = 10) \<or>
     (pManifest ip \<and> n = 11) \<or>
     (pManifestSign ip \<and> n = 12) \<or>
     (pManifestNew ip \<and> n = 13) \<or>
     (pManifestStatus ip \<and> n = 14) \<or>
     (pManifestLoaders ip \<and> n = 15) \<or>
     (pInvestigator ip \<and> n = 16) \<or>
     (pInvestigatorCreate ip \<and> n = 17) \<or>
     (pInvestigatorUpdate ip \<and> n = 18)"
  unfolding ToMask_def Perm_defs
  by (simp only: if_or)
    (simp only: Let_def bit_or_iff bit_if_0 bit_push_bit_1 bit_zero_mask less_numeral_simps
      zero_less_numeral one_less_numeral_iff numeral_less_iff less_num_simps le_num_simps
      simp_thms disj_assoc)

lemma FromMask_unfold:
  "FromMask ip msk = 
    (pInvestigatorUpdate_update (\<lambda>v. v \<or> bit msk 18)
      (pInvestigatorCreate_update (\<lambda>v. v \<or> bit msk 17)
      (pInvestigator_update (\<lambda>v. v \<or> bit msk 16)
      (pManifestLoaders_update (\<lambda>v. v \<or> bit msk 15)
      (pManifestStatus_update (\<lambda>v. v \<or> bit msk 14)
      (pManifestNew_update (\<lambda>v. v \<or> bit msk 13)
      (pManifestSign_update (\<lambda>v. v \<or> bit msk 12)
      (pManifest_update (\<lambda>v. v \<or> bit msk 11)
      (pLoaderNew_update (\<lambda>v. v \<or> bit msk 10)
      (pLoaderKey_update (\<lambda>v. v \<or> bit msk 9)
      (pLoaderExpect_update (\<lambda>v. v \<or> bit msk 8)
      (pLoaderStatus_update (\<lambda>v. v \<or> bit msk 7)
      (pLoader_update (\<lambda>v. v \<or> bit msk 6)
      (pDashboard_update (\<lambda>v. v \<or> bit msk 5)
      (pAgent_update (\<lambda>v. v \<or> bit msk 4)
      (pCommand_update (\<lambda>v. v \<or> bit msk 3)
      (pActionCreate_update (\<lambda>v. v \<or> bit msk 2)
      (pAction_update (\<lambda>v. v \<or> bit msk 1)
      (pSearch_update (\<lambda>v. v \<or> bit msk 0) ip)))))))))))))))))))"
  unfolding FromMask_def Perm_defs
  by (simp only: and_push_bit_1 if_field_updates Let_def)

lemma FromMask_fields [simp]:
  "pSearch (FromMask ip msk) \<longleftrightarrow> pSearch ip \<or> bit msk 0"
  "pAction (FromMask ip msk) \<longleftrightarrow> pAction ip \<or> bit msk 1"
  "pActionCreate (FromMask ip msk) \<longleftrightarrow> pActionCreate ip \<or> bit msk 2"
  "pCommand (FromMask ip msk) \<longleftrightarrow> pCommand ip \<or> bit msk 3"
  "pAgent (FromMask ip msk) \<longleftrightarrow> pAgent ip \<or> bit msk 4"
  "pDashboard (FromMask ip msk) \<longleftrightarrow> pDashboard ip \<or> bit msk 5"
  "pLoader (FromMask ip msk) \<longleftrightarrow> pLoader ip \<or> bit msk 6"
  "pLoaderStatus (FromMask ip msk) \<longleftrightarrow> pLoaderStatus ip \<or> bit msk 7"
  "pLoaderExpect (FromMask ip msk) \<longleftrightarrow> pLoaderExpect ip \<or> bit msk 8"
  "pLoaderKey (FromMask ip msk) \<longleftrightarrow> pLoaderKey ip \<or> bit msk 9"
  "pLoaderNew (FromMask ip msk) \<longleftrightarrow> pLoaderNew ip \<or> bit msk 10"
  "pManifest (FromMask ip msk) \<longleftrightarrow> pManifest ip \<or> bit msk 11"
  "pManifestSign (FromMask ip msk) \<longleftrightarrow> pManifestSign ip \<or> bit msk 12"
  "pManifestNew (FromMask ip msk) \<longleftrightarrow> pManifestNew ip \<or> bit msk 13"
  "pManifestStatus (FromMask ip msk) \<longleftrightarrow> pManifestStatus ip \<or> bit msk 14"
  "pManifestLoaders (FromMask ip msk) \<longleftrightarrow> pManifestLoaders ip \<or> bit msk 15"
  "pInvestigator (FromMask ip msk) \<longleftrightarrow> pInvestigator ip \<or> bit msk 16"
  "pInvestigatorCreate (FromMask ip msk) \<longleftrightarrow> pInvestigatorCreate ip \<or> bit msk 17"
  "pInvestigatorUpdate (FromMask ip msk) \<longleftrightarrow> pInvestigatorUpdate ip \<or> bit msk 18"
  by (simp_all add: FromMask_unfold)

lemma perms_eqI:
  "(\<And>n. bit (ToMask p) n = bit (ToMask q) n) \<Longrightarrow> p = q"
proof -
  assume eq: "\<And>n. bit (ToMask p) n = bit (ToMask q) n"
  have "pSearch p = pSearch q"
    "pAction p = pAction q"
    "pActionCreate p = pActionCreate q"
    "pCommand p = pCommand q"
    "pAgent p = pAgent q"
    "pDashboard p = pDashboard q"
    "pLoader p = pLoader q"
    "pLoaderStatus p = pLoaderStatus q"
    "pLoaderExpect p = pLoaderExpect q"
    "pLoaderKey p = pLoaderKey q"
    "pLoaderNew p = pLoaderNew q"
    "pManifest p = pManifest q"
    "pManifestSign p = pManifestSign q"
    "pManifestStatus p = pManifestStatus q"
    "pManifestNew p = pManifestNew q"
    "pManifestLoaders p = pManifestLoaders q"
    "pInvestigator p = pInvestigator q"
    "pInvestigatorCreate p = pInvestigatorCreate q"
    "pInvestigatorUpdate p = pInvestigatorUpdate q"
    using eq [of 0] eq [of 1] eq [of 2] eq [of 3] eq [of 4] eq [of 5] eq [of 6] eq [of 7] eq [of 8] eq [of 9] eq [of 10] eq [of 11] eq [of 12] eq [of 13] eq [of 14] eq [of 15] eq [of 16] eq [of 17] eq [of 18]
    by (simp_all add: bit_ToMask)
  then show "p = q" by simp
qed

section \<open>Counting bits\<close>

lemma shifted_bit: "sb < 64 \<Longrightarrow> signed_drop_bit sb (v :: mask) AND 1 = of_bool (bit v sb)"
proof -
  assume "sb < 64"
  then have "bit (signed_drop_bit sb v) 0 \<longleftrightarrow> bit v sb"
    by (simp add: bit_signed_drop_bit_iff)
  then show ?thesis by (simp add: and_one_eq mod_2_eq_odd bit_0)
qed

lemma count_bits_card: "count_bits v = of_nat (card {n. n < 64 \<and> bit v n})"
proof -
  have "fold (\<lambda>sb cnt. cnt + (signed_drop_bit sb v AND 1)) [0..<k] 0
      = (of_nat (card {n. n < k \<and> bit v n}) :: mask)" if "k \<le> 64" for k
    using that
  proof (induction k)
    case 0
    then show ?case by simp
  next
    case (Suc k)
    have "{n. n < Suc k \<and> bit v n} =
        (if bit v k then insert k {n. n < k \<and> bit v n} else {n. n < k \<and> bit v n})"
      by (auto simp: less_Suc_eq)
    with Suc show ?case by (simp add: shifted_bit)
  qed
  then show ?thesis by (simp add: count_bits_def)
qed

lemma card_bits_le: "card {n. n < 64 \<and> bit (v :: mask) n} \<le> 64"
  using card_mono [of "{..<64}" "{n. n < 64 \<and> bit v n}"] by auto

lemma of_nat_card_inj:
  "(of_nat (card {n. n < 64 \<and> bit (v :: mask) n}) :: mask) = of_nat (card {n. n < 64 \<and> bit (w :: mask) n})
     \<longleftrightarrow> card {n. n < 64 \<and> bit v n} = card {n. n < 64 \<and> bit w n}"
  using card_bits_le [of v] card_bits_le [of w]
  by (auto simp: word_of_nat_eq_iff take_bit_nat_eq_self)

lemma cf_full: "fst (cf want have') \<longleftrightarrow> want AND have' = want"
proof -
  let ?A = "{n. n < 64 \<and> bit (have' AND want) n}" and ?B = "{n. n < 64 \<and> bit want n}"
  have "?A \<subseteq> ?B" by (auto simp: bit_and_iff)
  then have "card ?A = card ?B \<longleftrightarrow> ?A = ?B"
    using card_subset_eq [of ?B ?A] by auto
  also have "\<dots> \<longleftrightarrow> want AND have' = want"
    by (auto simp: bit_eq_iff bit_and_iff set_eq_iff dest: bit_imp_le_length)
  finally show ?thesis
    by (simp add: cf_def Let_def count_bits_card of_nat_card_inj)
qed

lemma cf_part: "0 <s snd (cf want have') \<longleftrightarrow> have' AND want \<noteq> 0"
proof -
  let ?A = "{n. n < 64 \<and> bit (have' AND want) n}"
  have "sint (of_nat (card ?A) :: mask) = int (card ?A)"
    using card_bits_le [of "have' AND want"]
    by (simp add: signed_of_nat signed_take_bit_int_eq_self)
  then have "0 <s (of_nat (card ?A) :: mask) \<longleftrightarrow> card ?A \<noteq> 0"
    by (simp add: word_sless_alt card_gt_0_iff)
  also have "\<dots> \<longleftrightarrow> (\<exists>n<64. bit (have' AND want) n)"
    by (auto simp: card_eq_0_iff)
  also have "\<dots> \<longleftrightarrow> have' AND want \<noteq> 0"
    using bit_eq_iff [of "have' AND want" 0] by (auto dest: bit_imp_le_length)
  finally show ?thesis by (simp add: cf_def Let_def count_bits_card)
qed

lemma describe_set_eq:
  "describe_set ip tv name =
     (if ToMask tv AND ToMask ip = ToMask tv then name
      else if ToMask ip AND ToMask tv \<noteq> 0 then name @ ''(partial)'' else [])"
  using cf_full [of "ToMask tv" "ToMask ip"] cf_part [of "ToMask tv" "ToMask ip"]
  by (cases "cf (ToMask tv) (ToMask ip)") (simp add: describe_set_def)

text \<open>Inclusion and overlap of permission sets, on masks.\<close>

definition perms_le :: "InvestigatorPerms \<Rightarrow> InvestigatorPerms \<Rightarrow> bool" where
  "perms_le p q \<longleftrightarrow> ToMask p AND ToMask q = ToMask p"

definition all_perms :: mask where "all_perms = mask 19"

lemma bit_all_perms: "bit all_perms n \<longleftrightarrow> n < 19"
  by (auto simp: all_perms_def bit_mask_iff)

lemma ToMask_bound: "bit (ToMask ip) n \<Longrightarrow> n < 19"
  by (auto simp: bit_ToMask)

lemma less_19_iff:
  "n < (19 :: nat) \<longleftrightarrow> n = 18 \<or> n = 17 \<or> n = 16 \<or> n = 15 \<or> n = 14 \<or> n = 13 \<or> n = 12 \<or> n = 11 \<or> n = 10 \<or> n = 9 \<or> 
     n = 8 \<or> n = 7 \<or> n = 6 \<or> n = 5 \<or> n = 4 \<or> n = 3 \<or> n = 2 \<or> n = 1 \<or> n = 0"
  by (auto simp: less_Suc_eq numeral_eq_Suc)

lemma bit_ToMask_FromMask:
  "bit (ToMask (FromMask ip msk)) n \<longleftrightarrow> bit (ToMask ip) n \<or> n < 19 \<and> bit msk n"
proof (cases "n < 19")
  case True
  then consider "n = 0" | "n = 1" | "n = 2" | "n = 3" | "n = 4" | "n = 5" | "n = 6" | "n = 7" | "n = 8" | "n = 9"
    | "n = 10" | "n = 11" | "n = 12" | "n = 13" | "n = 14" | "n = 15" | "n = 16" | "n = 17" | "n = 18"
    unfolding less_19_iff by blast
  then show ?thesis by cases (simp_all add: bit_ToMask)
next
  case False
  then show ?thesis using ToMask_bound by blast
qed

lemma bit_ToMask_no_perms [simp]: "\<not> bit (ToMask no_perms) n"
  by (simp add: bit_ToMask no_perms_def)

section \<open>Properties\<close>

text \<open>
  \<open>FromMask\<close> inverts \<open>ToMask\<close>: a permission set stored as a mask and read back into a zero
  value is unchanged, for all nineteen permissions.
\<close>

theorem FromMask_ToMask: "FromMask no_perms (ToMask ip) = ip"
  by (rule perms_eqI) (auto simp: bit_ToMask_FromMask dest: ToMask_bound)

text \<open>
  \<open>FromMask\<close> on a set that already has permissions adds those of the mask and drops none;
  bits beyond the nineteen permissions are ignored.
\<close>

theorem ToMask_FromMask: "ToMask (FromMask ip msk) = ToMask ip OR (msk AND all_perms)"
  by (rule bit_word_eqI) (auto simp: bit_ToMask_FromMask bit_or_iff bit_and_iff bit_all_perms)

text \<open>
  \<open>CheckPermission\<close> on a single permission bit answers whether that bit is in the mask of the
  investigator, except for bit 14, \<open>PermManifestStatus\<close>, which the switch does not list: it is
  refused to everybody, including the holders of that permission.
\<close>

theorem CheckPermission_bit:
  "CheckPermission ip (push_bit n 1) \<longleftrightarrow> n \<noteq> 14 \<and> bit (ToMask ip) n"
proof (cases "n < 19")
  case True
  then consider "n = 0" | "n = 1" | "n = 2" | "n = 3" | "n = 4" | "n = 5" | "n = 6" | "n = 7" | "n = 8" | "n = 9"
    | "n = 10" | "n = 11" | "n = 12" | "n = 13" | "n = 14" | "n = 15" | "n = 16" | "n = 17" | "n = 18"
    unfolding less_19_iff by blast
  then show ?thesis
    by cases (simp_all add: CheckPermission_def Perm_defs bit_ToMask)
next
  case False
  have neq: "push_bit n (1 :: mask) \<noteq> push_bit m 1" if "m < 19" for m
  proof
    assume "push_bit n (1 :: mask) = push_bit m 1"
    then have "bit (push_bit n (1 :: mask)) m" using that by (simp only: bit_push_bit_1)
    then show False using False that by (simp add: bit_exp_iff)
  qed
  have "\<not> CheckPermission ip (push_bit n 1)"
    unfolding CheckPermission_def Perm_defs by (simp only: neq) simp
  then show ?thesis using False ToMask_bound by blast
qed

theorem ManifestStatus_never_granted: "\<not> CheckPermission ip PermManifestStatus"
  unfolding PermManifestStatus_def
  by (simp add: CheckPermission_def Perm_defs)

section \<open>Applying and describing the predefined sets\<close>

definition valid_sets :: "string list \<Rightarrow> bool" where
  "valid_sets sl \<longleftrightarrow> set sl \<subseteq> set PermSets"

definition apply_sets :: "bool \<Rightarrow> bool \<Rightarrow> bool \<Rightarrow> InvestigatorPerms \<Rightarrow> InvestigatorPerms" where
  "apply_sets m l a ip =
     (if a then AdminSet else id) ((if l then LoaderSet else id) ((if m then ManifestSet else id) ip))"

lemma sets_commute:
  "ManifestSet (ManifestSet ip) = ManifestSet ip" "LoaderSet (LoaderSet ip) = LoaderSet ip"
  "AdminSet (AdminSet ip) = AdminSet ip" "LoaderSet (AdminSet ip) = AdminSet (LoaderSet ip)"
  "ManifestSet (LoaderSet ip) = LoaderSet (ManifestSet ip)"
  "ManifestSet (AdminSet ip) = AdminSet (ManifestSet ip)"
  by (simp_all add: ManifestSet_def LoaderSet_def AdminSet_def)

lemma FromSetList_valid:
  "valid_sets sl \<Longrightarrow> FromSetList ip sl =
     (None, apply_sets (''PermManifest'' \<in> set sl) (''PermLoader'' \<in> set sl) (''PermAdmin'' \<in> set sl) ip)"
proof (induction sl arbitrary: ip)
  case Nil
  then show ?case by (simp add: apply_sets_def)
next
  case (Cons x sl)
  then have IH: "FromSetList ip sl = (None, apply_sets (''PermManifest'' \<in> set sl)
      (''PermLoader'' \<in> set sl) (''PermAdmin'' \<in> set sl) ip)" for ip
    by (simp add: valid_sets_def)
  from Cons.prems consider "x = ''PermManifest''" | "x = ''PermLoader''" | "x = ''PermAdmin''"
    by (auto simp: valid_sets_def PermSets_def)
  then show ?case
    by cases (simp_all add: IH apply_sets_def sets_commute)
qed

lemma FromSetList_error_iff: "fst (FromSetList ip sl) = None \<longleftrightarrow> valid_sets sl"
  by (induction sl arbitrary: ip) (auto simp: valid_sets_def PermSets_def)

text \<open>
  \<open>FromSetList\<close> reports an error exactly when a name is not one of \<open>PermSets\<close>; otherwise,
  applied on top of the default set, \<open>ToDescriptive\<close> describes the result as \<open>Default\<close> followed by
  precisely the sets that were named, none of them partial.
\<close>

theorem ToDescriptive_FromSetList:
  assumes "fst (FromSetList (DefaultSet no_perms) sl) = None"
  shows "ToDescriptive (snd (FromSetList (DefaultSet no_perms) sl)) =
    Join (''Default'' # filter (\<lambda>n. n \<in> set sl) [''PermAdmin'', ''PermLoader'', ''PermManifest'']) '',''"
proof -
  have *: "ToDescriptive (apply_sets m l a (DefaultSet no_perms)) =
      Join (''Default'' # (if a then [''PermAdmin''] else []) @ (if l then [''PermLoader''] else [])
         @ (if m then [''PermManifest''] else [])) '',''" for m l a
    by (cases m; cases l; cases a)
      (simp_all add: ToDescriptive_def describe_set_eq add_description_def apply_sets_def
        DefaultSet_def ManifestSet_def LoaderSet_def AdminSet_def no_perms_def ToMask_def Perm_defs)
  from assms have "valid_sets sl" by (simp add: FromSetList_error_iff)
  then show ?thesis by (simp add: FromSetList_valid *)
qed

theorem ToDescriptive_FromSetList_witness:
  "ToDescriptive (snd (FromSetList (DefaultSet no_perms) [''PermManifest'', ''PermAdmin'']))
   = ''Default,PermAdmin,PermManifest''"
  using ToDescriptive_FromSetList [of "[''PermManifest'', ''PermAdmin'']"] by simp

end
