(* ===== verification/Pgp.thy ===== *)
theory Pgp
  imports GoStd
begin

text \<open>
  PGP keys and signatures (\<open>pgp/verify.go\<close>, \<open>pgp/pgp.go\<close>). The OpenPGP library
  (\<open>golang.org/x/crypto/openpgp\<close>) is not part of the repository: its operations are the fields of
  a record \<open>openpgp\<close> that the definitions take as an argument. What the repository adds is
  modelled: re-armouring a one-line signature, the checks around the library's verification, the
  fingerprints in hexadecimal, and building a keyring.

  \<open>Verify\<close> panics on every failure, so that its result is either a panic (\<open>Inl\<close>) or a valid
  signature's entity (\<open>Inr\<close>): its \<open>valid\<close> result is never false on a normal return.
\<close>

section \<open>hex.EncodeToString\<close>

type_synonym byte8 = "8 word"

definition hex_char :: "nat \<Rightarrow> char" where
  "hex_char n = (if n < 10 then char_of (48 + n) else char_of (87 + n))"

definition HexEncode :: "byte8 list \<Rightarrow> string" where
  "HexEncode bs = concat (map (\<lambda>b. [hex_char (unat b div 16), hex_char (unat b mod 16)]) bs)"

lemma byte_hex_char: "n < 16 \<Longrightarrow> byte (hex_char n) = (if n < 10 then 48 + n else 87 + n)"
  by (simp add: hex_char_def)

lemma hex_char_inj: "m < 16 \<Longrightarrow> n < 16 \<Longrightarrow> hex_char m = hex_char n \<Longrightarrow> m = n"
  by (drule arg_cong [where f = byte]) (auto simp: byte_hex_char split: if_splits)

lemma hex_char_no_upper: "n < 16 \<Longrightarrow> \<not> is_upper (hex_char n)"
  by (auto simp: is_upper_def byte_hex_char)

lemma unat_byte8: "unat (b :: byte8) div 16 < 16" "unat b mod 16 < 16"
  using unsigned_less [of b, where ?'a = nat] by simp_all

lemma no_upper_HexEncode [simp]: "no_upper (HexEncode bs)"
  by (induction bs) (simp_all add: HexEncode_def no_upper_def hex_char_no_upper unat_byte8)

lemma HexEncode_inj: "HexEncode xs = HexEncode ys \<Longrightarrow> xs = ys"
proof (induction xs arbitrary: ys)
  case Nil
  then show ?case by (cases ys) (simp_all add: HexEncode_def)
next
  case (Cons x xs)
  then obtain y ys' where ys: "ys = y # ys'" by (cases ys) (simp_all add: HexEncode_def)
  with Cons.prems have "unat x div 16 = unat y div 16" "unat x mod 16 = unat y mod 16"
    and "HexEncode xs = HexEncode ys'"
    by (auto simp: HexEncode_def intro: hex_char_inj unat_byte8)
  moreover from this(1,2) have "unat x = unat y" by (metis div_mult_mod_eq)
  ultimately show ?case using Cons.IH ys by (simp add: word_unat_eq_iff)
qed

section \<open>The OpenPGP library\<close>

record entity =
  PrimaryKeyFingerprint :: "byte8 list"
  HasPrivateKey :: bool

record 'ring openpgp =
  armor_Decode :: "string \<Rightarrow> (string \<times> string) result"
  ReadKeyRing :: "string \<Rightarrow> 'ring result"
  CheckDetachedSignature :: "'ring \<Rightarrow> string \<Rightarrow> string \<Rightarrow> entity result"
  ReadArmoredKeyRing :: "string \<Rightarrow> entity list result"
  Serialize :: "entity \<Rightarrow> string result"
  SerializePrivate :: "entity \<Rightarrow> string result"
  armor_Encode :: "string \<Rightarrow> string result"

section \<open>reArmorSignature\<close>

fun LastIndex :: "string \<Rightarrow> char \<Rightarrow> nat option" where
  "LastIndex [] c = None"
| "LastIndex (x # s) c =
     (case LastIndex s c of Some i \<Rightarrow> Some (Suc i) | None \<Rightarrow> if x = c then Some 0 else None)"


function armor_lines :: "string \<Rightarrow> string" where
  "armor_lines payload =
     (if payload = [] then []
      else (let chunkLen = (if length payload > 64 then 64 else length payload)
            in take chunkLen payload @ [newline] @ armor_lines (drop chunkLen payload)))"
  by pat_completeness auto
termination
  by (relation "measure length") (auto simp: Let_def split: if_splits)

declare armor_lines.simps [simp del]

definition armor_header :: string where
  "armor_header = ''-----BEGIN PGP SIGNATURE-----'' @ [newline, newline]"

definition armor_footer :: string where
  "armor_footer = [newline] @ ''-----END PGP SIGNATURE-----''"

definition reArmorSignature :: "string \<Rightarrow> string" where
  "reArmorSignature line =
     (case LastIndex line CHR ''='' of
        None \<Rightarrow> []
      | Some lastEq \<Rightarrow>
          (let payload = take lastEq line; crc = drop lastEq line
           in armor_header @ armor_lines payload @ crc @ armor_footer))"

section \<open>Verify and the fingerprint of a signer\<close>

definition Verify :: "'ring openpgp \<Rightarrow> string \<Rightarrow> string \<Rightarrow> string \<Rightarrow> entity result" where
  "Verify pg data signature keyring =
     (case armor_Decode pg (reArmorSignature signature) of
        Inl e \<Rightarrow> Inl e
      | Inr (sigType, sigBody) \<Rightarrow>
          if sigType \<noteq> ''PGP SIGNATURE''
          then Inl (Errorf (''Wrong signature type '' @ quoted ''%s'') [AStr sigType])
          else (case ReadKeyRing pg keyring of
                  Inl e \<Rightarrow> Inl e
                | Inr ring \<Rightarrow> CheckDetachedSignature pg ring data sigBody))"

definition GetFingerprintFromSignature ::
  "'ring openpgp \<Rightarrow> string \<Rightarrow> string \<Rightarrow> string \<Rightarrow> string result" where
  "GetFingerprintFromSignature pg data signature keyring =
     recovered ''GetFingerprintFromSignature''
       (case Verify pg data signature keyring of
          Inl e \<Rightarrow> Inl e
        | Inr ent \<Rightarrow> Inr (HexEncode (PrimaryKeyFingerprint ent)))"

section \<open>Keyrings\<close>

fun keys_to_buf :: "'ring openpgp \<Rightarrow> nat \<Rightarrow> string list \<Rightarrow> string \<times> int \<Rightarrow> (string \<times> int) result" where
  "keys_to_buf pg i [] (buf, keycount) = Inr (buf, keycount)"
| "keys_to_buf pg i (key # keys) (buf, keycount) =
     (case ReadArmoredKeyRing pg key of
        Inl err \<Rightarrow> Inl (Errorf ''key num.%d failed to load with error %v'' [AInt (int i), AErr err])
      | Inr el \<Rightarrow>
          (case el of
             [ent] \<Rightarrow>
               (case (if HasPrivateKey ent then SerializePrivate pg ent else Serialize pg ent) of
                  Inl err \<Rightarrow> Inl err
                | Inr out \<Rightarrow> keys_to_buf pg (Suc i) keys (buf @ out, keycount + 1))
           | _ \<Rightarrow> Inl (Errorf ''PGP key contains %d entities, wanted 1'' [AInt (int (length el))])))"

definition ArmoredKeysToKeyring :: "'ring openpgp \<Rightarrow> string list \<Rightarrow> (string \<times> int) result" where
  "ArmoredKeysToKeyring pg keys = recovered ''ArmoredPubKeysToKeyRing'' (keys_to_buf pg 0 keys ([], 0))"

definition LoadArmoredPubKey :: "'ring openpgp \<Rightarrow> string \<Rightarrow> string result" where
  "LoadArmoredPubKey pg pubkey =
     recovered ''LoadArmoredPubKey''
       (case ReadArmoredKeyRing pg pubkey of
          Inl e \<Rightarrow> Inl e
        | Inr el \<Rightarrow>
            (case el of
               [ent] \<Rightarrow> Inr (ToUpper (HexEncode (PrimaryKeyFingerprint ent)))
             | _ \<Rightarrow> Inl (Errorf ''Public GPG Key contains %d entities, wanted 1''
                          [AInt (int (length el))])))"

text \<open>
  \<open>KeyringToArmoredPubKeys\<close> stores into its named result \<open>armoredkeys\<close>, a map that is never
  allocated: the first store panics with Go's nil-map error, which the deferred handler returns.
  Only an empty keyring gets through, with the nil map as the result.
\<close>

definition nil_map_panic :: go_error where
  "nil_map_panic = errors_New ''assignment to entry in nil map''"

fun armored_pub_keys :: "'ring openpgp \<Rightarrow> entity list \<Rightarrow> (string \<times> string) list result" where
  "armored_pub_keys pg [] = Inr []"
| "armored_pub_keys pg (el # els) =
     (case Serialize pg el of
        Inl e \<Rightarrow> Inl e
      | Inr pubkeybuf \<Rightarrow>
          (case armor_Encode pg pubkeybuf of
             Inl e \<Rightarrow> Inl e
           | Inr _ \<Rightarrow> Inl nil_map_panic))"

definition KeyringToArmoredPubKeys ::
  "'ring openpgp \<Rightarrow> string \<Rightarrow> (string \<times> string) list result" where
  "KeyringToArmoredPubKeys pg keyring =
     recovered ''KeyringToArmoredPubKeys''
       (case ReadArmoredKeyRing pg keyring of
          Inl e \<Rightarrow> Inl e
        | Inr els \<Rightarrow> armored_pub_keys pg els)"

section \<open>Lemmas\<close>

lemma LastIndex_None: "LastIndex s c = None \<longleftrightarrow> c \<notin> set s"
  by (induction s c rule: LastIndex.induct) (auto split: option.splits)

lemma LastIndex_Some:
  "LastIndex s c = Some i \<Longrightarrow> i < length s \<and> s ! i = c \<and> c \<notin> set (drop (Suc i) s)"
  by (induction s c arbitrary: i rule: LastIndex.induct)
    (auto simp: LastIndex_None split: option.splits if_splits)

lemma armor_lines_chunks:
  "\<exists>ls. armor_lines payload = concat (map (\<lambda>l. l @ [newline]) ls) \<and> concat ls = payload \<and>
        (\<forall>l\<in>set ls. l \<noteq> [] \<and> length l \<le> 64)"
proof (induction payload rule: armor_lines.induct)
  case (1 payload)
  show ?case
  proof (cases "payload = []")
    case True
    then show ?thesis by (intro exI [of _ "[]"]) (simp add: armor_lines.simps)
  next
    case False
    define n where "n = (if length payload > 64 then 64 else length payload)"
    from "1.IH" [OF False n_def] obtain ls where ls:
      "armor_lines (drop n payload) = concat (map (\<lambda>l. l @ [newline]) ls)"
      "concat ls = drop n payload" "\<forall>l\<in>set ls. l \<noteq> [] \<and> length l \<le> 64" by blast
    have "armor_lines payload = take n payload @ [newline] @ armor_lines (drop n payload)"
      using False by (subst armor_lines.simps) (simp add: Let_def n_def)
    moreover have "take n payload \<noteq> []" "length (take n payload) \<le> 64"
      using False by (simp_all add: n_def)
    ultimately show ?thesis
      using ls by (intro exI [of _ "take n payload # ls"]) simp
  qed
qed

lemma GetFingerprint_no_upper:
  "GetFingerprintFromSignature pg data sig keyring = Inr fp \<Longrightarrow> no_upper fp"
  by (auto simp: GetFingerprintFromSignature_def split: sum.splits)

lemma GetFingerprint_Inr:
  "GetFingerprintFromSignature pg data sig keyring = Inr fp \<longleftrightarrow>
     (\<exists>ent. Verify pg data sig keyring = Inr ent \<and> fp = HexEncode (PrimaryKeyFingerprint ent))"
  by (auto simp: GetFingerprintFromSignature_def split: sum.splits)

text \<open>A keyring from which \<open>KeyringToArmoredPubKeys\<close> reads any key makes it fail.\<close>

lemma KeyringToArmoredPubKeys_fails:
  "ReadArmoredKeyRing pg keyring = Inr els \<Longrightarrow> els \<noteq> [] \<Longrightarrow>
     \<not> is_ok (KeyringToArmoredPubKeys pg keyring)"
  by (cases els) (auto simp: KeyringToArmoredPubKeys_def split: sum.splits)

section \<open>Properties\<close>

text \<open>
  Re-armouring a one-line signature loses and adds nothing but line breaks: between the PGP
  header and footer stand the payload's bytes in order, cut into non-empty lines of at most 64
  bytes, followed by the checksum that starts at the last \<open>=\<close>.
\<close>

theorem reArmorSignature_lines:
  assumes "CHR ''='' \<in> set line"
  shows "\<exists>ls crc. reArmorSignature line =
           armor_header @ concat (map (\<lambda>l. l @ [newline]) ls) @ crc @ armor_footer \<and>
         concat ls @ crc = line \<and> (\<forall>l\<in>set ls. l \<noteq> [] \<and> length l \<le> 64) \<and>
         hd crc = CHR ''='' \<and> CHR ''='' \<notin> set (tl crc)"
proof -
  from assms obtain i where i: "LastIndex line CHR ''='' = Some i"
    using LastIndex_None by (metis not_None_eq)
  note last = LastIndex_Some [OF i]
  obtain ls where ls: "armor_lines (take i line) = concat (map (\<lambda>l. l @ [newline]) ls)"
    "concat ls = take i line" "\<forall>l\<in>set ls. l \<noteq> [] \<and> length l \<le> 64"
    using armor_lines_chunks by blast
  have "hd (drop i line) = CHR ''=''" "CHR ''='' \<notin> set (tl (drop i line))"
    using last by (simp_all add: hd_drop_conv_nth drop_Suc tl_drop)
  with ls i show ?thesis
    by (intro exI [of _ ls] exI [of _ "drop i line"]) (simp add: reArmorSignature_def)
qed

theorem reArmorSignature_lines_witness:
  "\<exists>ls crc. reArmorSignature ''wsBc=AbCd'' =
     armor_header @ concat (map (\<lambda>l. l @ [newline]) ls) @ crc @ armor_footer \<and>
     concat ls @ crc = ''wsBc=AbCd''"
  using reArmorSignature_lines [of "''wsBc=AbCd''"] by auto

end
