(* ===== verification/Actions.thy ===== *)
theory Actions
  imports Acl Pgp Perms
begin

text \<open>
  Actions (\<open>action.go\<close>): the signed orders that investigators send, their validation, the string
  that is signed, signature and ACL verification, parameter compression, and the generator of
  unique identifiers.

  Identifiers are \<open>float64\<close> in the code; they only ever hold integers of magnitude at most
  \<open>2 ^ 53\<close>, which \<open>float64\<close> represents exactly, and are \<open>int\<close> here. Operation parameters are
  arbitrary JSON values. \<open>encoding/json\<close>, \<open>compress/gzip\<close> and \<open>encoding/base64\<close> enter as the fields
  of a record \<open>codec\<close>.
\<close>

section \<open>Data\<close>

datatype json = JNull | JBool bool | JNum int | JStr string | JArr "json list"
  | JObj "(string \<times> json) list"

type_synonym mig_id = int

record operation =
  op_Module :: string
  op_Parameters :: json
  op_IsCompressed :: bool
  op_WantCompressed :: bool

record action_counters =
  cnt_Sent :: int
  cnt_Done :: int
  cnt_InFlight :: int
  cnt_Success :: int
  cnt_Cancelled :: int
  cnt_Expired :: int
  cnt_Failed :: int
  cnt_TimeOut :: int

definition zero_counters :: action_counters where
  "zero_counters = \<lparr>cnt_Sent = 0, cnt_Done = 0, cnt_InFlight = 0, cnt_Success = 0,
     cnt_Cancelled = 0, cnt_Expired = 0, cnt_Failed = 0, cnt_TimeOut = 0\<rparr>"

record description =
  desc_Author :: string
  desc_Email :: string
  desc_URL :: string
  desc_Revision :: int

record threat =
  thr_Ref :: string
  thr_Level :: string
  thr_Family :: string
  thr_Type :: string

record investigator =
  inv_ID :: mig_id
  inv_Name :: string
  inv_PGPFingerprint :: string
  inv_PublicKey :: string
  inv_PrivateKey :: string
  inv_Status :: string
  inv_CreatedAt :: time
  inv_LastModified :: time
  inv_APIKey :: string
  inv_Permissions :: InvestigatorPerms

text \<open>
  \<open>Operations\<close> is a slice and can be nil: \<open>None\<close>. An empty slice that is not nil is \<open>Some []\<close>.
\<close>

record action =
  act_ID :: mig_id
  act_Name :: string
  act_Target :: string
  act_Description :: description
  act_Threat :: threat
  act_ValidFrom :: time
  act_ExpireAfter :: time
  act_Operations :: "operation list option"
  act_PGPSignatures :: "string list"
  act_Investigators :: "investigator list"
  act_Status :: string
  act_StartTime :: time
  act_FinishTime :: time
  act_LastUpdateTime :: time
  act_Counters :: action_counters
  act_SyntaxVersion :: nat

definition ops :: "action \<Rightarrow> operation list" where
  "ops a = (case act_Operations a of None \<Rightarrow> [] | Some os \<Rightarrow> os)"

definition zero_action :: action where
  "zero_action = \<lparr>act_ID = 0, act_Name = [], act_Target = [],
     act_Description = \<lparr>desc_Author = [], desc_Email = [], desc_URL = [], desc_Revision = 0\<rparr>,
     act_Threat = \<lparr>thr_Ref = [], thr_Level = [], thr_Family = [], thr_Type = []\<rparr>,
     act_ValidFrom = zero_time, act_ExpireAfter = zero_time, act_Operations = None,
     act_PGPSignatures = [], act_Investigators = [], act_Status = [],
     act_StartTime = zero_time, act_FinishTime = zero_time, act_LastUpdateTime = zero_time,
     act_Counters = zero_counters, act_SyntaxVersion = 0\<rparr>"

definition ActionVersion :: nat where "ActionVersion = 2"

record codec =
  json_Marshal :: "json \<Rightarrow> string result"
  json_Unmarshal :: "string \<Rightarrow> json result"
  json_MarshalOps :: "operation list option \<Rightarrow> string result"
  gzip_Write :: "string \<Rightarrow> string"
  gzip_Read :: "string \<Rightarrow> string result"
  b64_Encode :: "string \<Rightarrow> string"
  b64_Decode :: "string \<Rightarrow> string result"

section \<open>Compression of operation parameters\<close>

text \<open>
  Both methods work on the receiver in place; they return the error, if any, with the receiver.
\<close>

definition CompressOperationParam :: "codec \<Rightarrow> operation \<Rightarrow> go_error option \<times> operation" where
  "CompressOperationParam cd op =
     (case json_Marshal cd (op_Parameters op) of
        Inl e \<Rightarrow> (Some (Errorf ''CompressOperationParam() -> %v'' [AErr e]), op)
      | Inr jb \<Rightarrow>
          (None, op\<lparr>op_Parameters := JStr (b64_Encode cd (gzip_Write cd jb)), op_IsCompressed := True\<rparr>))"

text \<open>Base64-decode, decompress and parse a parameter that must be a string.\<close>

definition decompress_json :: "codec \<Rightarrow> json \<Rightarrow> json result" where
  "decompress_json cd p =
     (case p of
        JStr pstr \<Rightarrow>
          and_then (b64_Decode cd pstr) (\<lambda>b. and_then (gzip_Read cd b) (\<lambda>rb. json_Unmarshal cd rb))
      | _ \<Rightarrow> Inl (errors_New ''Compressed parameter was not a string''))"

definition DecompressOperationParam :: "codec \<Rightarrow> operation \<Rightarrow> go_error option \<times> operation" where
  "DecompressOperationParam cd op =
     (if \<not> op_IsCompressed op then (None, op)
      else (case decompress_json cd (op_Parameters op) of
              Inl e \<Rightarrow> (Some (Errorf ''DecompressOperationParam() -> %v'' [AErr e]), op)
            | Inr v \<Rightarrow> (None, op\<lparr>op_Parameters := v, op_IsCompressed := False\<rparr>)))"

text \<open>What the standard library documents of these encoders: decoding undoes encoding.\<close>

definition codec_lossless :: "codec \<Rightarrow> bool" where
  "codec_lossless cd \<longleftrightarrow>
     (\<forall>v s. json_Marshal cd v = Inr s \<longrightarrow> json_Unmarshal cd s = Inr v) \<and>
     (\<forall>s. gzip_Read cd (gzip_Write cd s) = Inr s) \<and>
     (\<forall>s. b64_Decode cd (b64_Encode cd s) = Inr s)"

lemma decompress_compressed:
  "codec_lossless cd \<Longrightarrow> json_Marshal cd v = Inr s \<Longrightarrow>
     decompress_json cd (JStr (b64_Encode cd (gzip_Write cd s))) = Inr v"
  by (simp add: decompress_json_def codec_lossless_def)

section \<open>Unique identifiers\<close>

text \<open>
  \<open>time.Since\<close> is a \<open>Duration\<close>, an \<open>int64\<close> of nanoseconds that saturates; its seconds plus one,
  truncated and shifted left by 16 bits, fit in 51 bits and are exact in a \<open>float64\<close>. Adding one to
  a \<open>float64\<close> integer is exact below \<open>2 ^ 53\<close> and has no effect at \<open>2 ^ 53\<close>. (\<open>Seconds()\<close> is a
  \<open>float64\<close>, which may round the last few nanoseconds of a second up to the next one; the sum here
  is exact.)
\<close>

definition mig_epoch :: time where "mig_epoch = 1367258400 * second"

definition saturate64 :: "int \<Rightarrow> int" where
  "saturate64 x = max (- (2 ^ 63)) (min (2 ^ 63 - 1) x)"

definition trunc_div :: "int \<Rightarrow> int \<Rightarrow> int" where
  "trunc_div a b = (if (a < 0) = (b < 0) then \<bar>a\<bar> div \<bar>b\<bar> else - (\<bar>a\<bar> div \<bar>b\<bar>))"

definition float_incr :: "int \<Rightarrow> int" where
  "float_incr v = (if v < 2 ^ 53 then v + 1 else v)"

text \<open>\<open>GenID\<close> takes the value of \<open>globalID\<close> and returns the new identifier and the new value.\<close>

definition GenID :: "mig_id \<Rightarrow> time \<Rightarrow> mig_id \<times> mig_id" where
  "GenID value now =
     (if value < 1
      then (let tmpid = trunc_div (saturate64 (now - mig_epoch) + second) second;
                tmpid = push_bit 16 tmpid
            in (tmpid, tmpid))
      else (let value' = float_incr value in (value', value')))"

section \<open>Validation\<close>

text \<open>
  The tests \<open>a.ValidFrom.String() == ""\<close> and \<open>a.ExpireAfter.String() == ""\<close> never succeed, because
  \<open>time.Time.String\<close> returns a formatted date; they have no branch here.
\<close>

definition Validate :: "time \<Rightarrow> action \<Rightarrow> unit result" where
  "Validate now a =
     (if act_Name a = [] then Inl (errors_New ''action name is empty'')
      else if act_Target a = [] then Inl (errors_New ''action target is empty'')
      else if act_SyntaxVersion a \<noteq> ActionVersion
        then Inl (Errorf ''wring syntax version, expected %v'' [AInt (int ActionVersion)])
      else if act_ValidFrom a > act_ExpireAfter a
        then Inl (errors_New ''action expireafter is set before action validfrom'')
      else if now > act_ExpireAfter a then Inl (errors_New ''action expireafter is in the past'')
      else if act_Operations a = None then Inl (errors_New ''action operations is empty'')
      else if length (act_PGPSignatures a) < 1 then Inl (errors_New ''action pgpsignatures is empty'')
      else Inr ())"

section \<open>The signed string\<close>

definition String :: "codec \<Rightarrow> action \<Rightarrow> string result" where
  "String cd a =
     (case json_MarshalOps cd (act_Operations a) of
        Inl e \<Rightarrow> Inl e
      | Inr args \<Rightarrow>
          (let expire = ''%!s(int64='' @ fmt_d (Unix (act_ExpireAfter a)) @ '')''
           in Inr (''name='' @ act_Name a @ '';target='' @ act_Target a @
                   '';validfrom='' @ fmt_d (Unix (act_ValidFrom a)) @
                   '';expireafter='' @ expire @ '';operations='' @ args @ '';'')))"

section \<open>Signatures and permissions\<close>

definition VerifySignatures :: "codec \<Rightarrow> 'ring openpgp \<Rightarrow> string \<Rightarrow> action \<Rightarrow> unit result" where
  "VerifySignatures cd pg keyring a =
     (case String cd a of
        Inl _ \<Rightarrow> Inl (errors_New ''failed to stringify action'')
      | Inr astr \<Rightarrow>
          if act_PGPSignatures a = [] then Inl (errors_New ''action contained no valid signatures'')
          else recovered ''VerifySignatures''
                 (all_res (\<lambda>sig. case Verify pg astr sig keyring of Inl e \<Rightarrow> Inl e | Inr _ \<Rightarrow> Inr ())
                   (act_PGPSignatures a)))"

definition VerifyACL ::
  "codec \<Rightarrow> 'ring openpgp \<Rightarrow> acl \<Rightarrow> string \<Rightarrow> bool \<Rightarrow> action \<Rightarrow> unit result" where
  "VerifyACL cd pg acl keyring onlyVerifyPubKey a =
     (case String cd a of
        Inl _ \<Rightarrow> Inl (errors_New ''failed to stringify action'')
      | Inr astr \<Rightarrow>
          (case map_res (\<lambda>sig. case GetFingerprintFromSignature pg astr sig keyring of
                          Inl e \<Rightarrow> Inl (Errorf ''failed to retrieve fingerprint from signatures: %v'' [AErr e])
                        | Inr fp \<Rightarrow> Inr fp) (act_PGPSignatures a) of
             Inl e \<Rightarrow> Inl e
           | Inr fingerprints \<Rightarrow>
               if fingerprints = [] then Inl (errors_New ''no valid fingerprints found'')
               else if onlyVerifyPubKey then Inr ()
               else all_res (\<lambda>operation. verifyPermission (op_Module operation) acl fingerprints) (ops a)))"

section \<open>Lemmas\<close>

lemma split_at_separator:
  assumes "xs @ c # r = ys @ c # r'" "c \<notin> set xs" "c \<notin> set ys"
  shows "xs = ys \<and> r = r'"
  using assms
proof (induction xs arbitrary: ys)
  case Nil
  then show ?case by (cases ys) auto
next
  case (Cons x xs)
  then show ?case by (cases ys) auto
qed

lemma separator_inj:
  "c \<notin> set xs \<Longrightarrow> c \<notin> set ys \<Longrightarrow> xs @ c # r = ys @ c # r' \<longleftrightarrow> xs = ys \<and> r = r'"
  by (blast dest: split_at_separator)

lemma String_eq_Inr:
  "String cd a = Inr s \<longleftrightarrow> (\<exists>args. json_MarshalOps cd (act_Operations a) = Inr args \<and>
     s = ''name='' @ act_Name a @ '';target='' @ act_Target a @
         '';validfrom='' @ fmt_d (Unix (act_ValidFrom a)) @ '';expireafter='' @
         (''%!s(int64='' @ fmt_d (Unix (act_ExpireAfter a)) @ '')'') @ '';operations='' @ args @ '';'')"
  by (auto simp: String_def Let_def split: sum.splits)

lemma verifies_eq_Inr [simp]:
  "(case r of Inl e \<Rightarrow> Inl e | Inr _ \<Rightarrow> Inr ()) = (Inr () :: unit result) \<longleftrightarrow> is_ok r"
  by (cases r) simp_all

lemma fingerprint_error_Inr:
  "(case r of Inl e \<Rightarrow> Inl (f e) | Inr fp \<Rightarrow> Inr fp) = Inr y \<longleftrightarrow> r = Inr y"
  by (cases r) simp_all

definition signed_by :: "'ring openpgp \<Rightarrow> string \<Rightarrow> string \<Rightarrow> string list \<Rightarrow> string list \<Rightarrow> bool" where
  "signed_by pg keyring astr sigs fps \<longleftrightarrow>
     list_all2 (\<lambda>sig fp. GetFingerprintFromSignature pg astr sig keyring = Inr fp) sigs fps"

lemma VerifyACL_Inr:
  "VerifyACL cd pg acl keyring False a = Inr () \<longleftrightarrow>
     (\<exists>astr fps. String cd a = Inr astr \<and> fps \<noteq> [] \<and>
        signed_by pg keyring astr (act_PGPSignatures a) fps \<and>
        (\<forall>operation\<in>set (ops a). verifyPermission (op_Module operation) acl fps = Inr ()))"
proof (cases "String cd a")
  case Inl
  then show ?thesis by (simp add: VerifyACL_def)
next
  case (Inr astr)
  let ?m = "map_res (\<lambda>sig. case GetFingerprintFromSignature pg astr sig keyring of
      Inl e \<Rightarrow> Inl (Errorf ''failed to retrieve fingerprint from signatures: %v'' [AErr e])
    | Inr fp \<Rightarrow> Inr fp) (act_PGPSignatures a)"
  have m: "signed_by pg keyring astr (act_PGPSignatures a) fps \<longleftrightarrow> ?m = Inr fps" for fps
    by (simp add: map_res_eq_Inr fingerprint_error_Inr signed_by_def)
  show ?thesis
  proof (cases ?m)
    case (Inl e)
    with m show ?thesis unfolding VerifyACL_def Inr by simp
  next
    case (Inr fps)
    with \<open>String cd a = Inr astr\<close> m show ?thesis
      unfolding VerifyACL_def by (simp add: all_res_eq_Inr)
  qed
qed

section \<open>A source of identifiers\<close>

text \<open>
  What the users of \<open>GenID\<close> rely on: while there is room, every identifier is greater than all
  the ones before it, whatever the clock does within its bounds.
\<close>

fun draw :: "('g \<Rightarrow> time \<Rightarrow> mig_id \<times> 'g) \<Rightarrow> 'g \<Rightarrow> time list \<Rightarrow> mig_id list \<times> 'g" where
  "draw next_id g [] = ([], g)"
| "draw next_id g (now # nows) =
     (let (i, g') = next_id g now; (is, g'') = draw next_id g' nows in (i # is, g''))"

locale id_source =
  fixes next_id :: "'g \<Rightarrow> time \<Rightarrow> mig_id \<times> 'g"
    and high :: "'g \<Rightarrow> mig_id"
    and room :: "'g \<Rightarrow> nat \<Rightarrow> bool"
    and clock_ok :: "time \<Rightarrow> bool"
  assumes fresh: "room g (Suc n) \<Longrightarrow> clock_ok now \<Longrightarrow> next_id g now = (i, g') \<Longrightarrow>
      high g < i \<and> high g' = i \<and> room g' n"
begin

lemma draw_increasing:
  assumes "room g (length nows)" "list_all clock_ok nows" "draw next_id g nows = (is, g')"
  shows "sorted_wrt (<) is \<and> (\<forall>i\<in>set is. high g < i) \<and> length is = length nows"
  using assms
proof (induction nows arbitrary: g "is")
  case Nil
  then show ?case by simp
next
  case (Cons now nows)
  obtain i g1 where i: "next_id g now = (i, g1)" by (cases "next_id g now")
  obtain is1 g2 where rest: "draw next_id g1 nows = (is1, g2)" by (cases "draw next_id g1 nows")
  have f: "high g < i" "high g1 = i" "room g1 (length nows)"
    using fresh [OF _ _ i, of "length nows"] Cons.prems by simp_all
  from Cons.IH [OF f(3) _ ] rest Cons.prems i
  have "sorted_wrt (<) is1" "\<forall>j\<in>set is1. i < j" "length is1 = length nows" "is = i # is1"
    by (auto simp: f)
  with f(1) show ?case by auto
qed

lemma draw_distinct:
  assumes "room g (length nows)" "list_all clock_ok nows" "draw next_id g nows = (is, g')"
  shows "distinct is"
  using draw_increasing [OF assms] strict_sorted_iff by blast

end

definition genid_room :: "mig_id \<Rightarrow> nat \<Rightarrow> bool" where
  "genid_room g n \<longleftrightarrow> (g < 1 \<and> n \<le> 2 ^ 52) \<or> (1 \<le> g \<and> g + int n \<le> 2 ^ 53)"

lemma GenID_first:
  assumes "g < 1" "mig_epoch \<le> now" "GenID g now = (i, g')"
  shows "g' = i \<and> 1 \<le> i \<and> i \<le> 2 ^ 50"
proof -
  define d where "d = saturate64 (now - mig_epoch)"
  have d: "0 \<le> d" "d \<le> 9223372036854775807"
    using assms(2) by (auto simp: d_def saturate64_def)
  define q where "q = (d + second) div second"
  have q: "trunc_div (d + second) second = q"
    using d by (simp add: trunc_div_def q_def)
  have "1 \<le> q" "q \<le> 9223372037" using d unfolding q_def by linarith+
  moreover have "i = q * 65536" "g' = i"
    using assms q by (auto simp: GenID_def Let_def d_def push_bit_eq_mult)
  ultimately show ?thesis by simp
qed

interpretation genid: id_source GenID "\<lambda>g. g" genid_room "\<lambda>now. mig_epoch \<le> now"
proof unfold_locales
  fix g g' i :: mig_id and n now
  assume room: "genid_room g (Suc n)" and now: "mig_epoch \<le> now" and step: "GenID g now = (i, g')"
  show "g < i \<and> g' = i \<and> genid_room g' n"
  proof (cases "g < 1")
    case True
    with room GenID_first [OF True now step] show ?thesis by (auto simp: genid_room_def)
  next
    case False
    with room step show ?thesis by (auto simp: genid_room_def GenID_def Let_def float_incr_def)
  qed
qed

text \<open>The quorum behind an operation of an accepted action.\<close>

lemma VerifyACL_quorum:
  assumes "VerifyACL cd pg acl keyring False a = Inr ()" and "operation \<in> set (ops a)"
    and "\<forall>e\<in>snd ` set acl. \<forall>fps. in_int64 (signers_weight e fps)"
  shows "\<exists>astr fps aclname aclent. String cd a = Inr astr \<and>
     signed_by pg keyring astr (act_PGPSignatures a) fps \<and> fps \<noteq> [] \<and> distinct fps \<and>
     acl_entry_for (op_Module operation) acl = Some (aclname, aclent) \<and>
     1 \<le> MinimumWeight aclent \<and> MinimumWeight aclent \<le> signers_weight aclent fps"
proof -
  obtain astr fps where astr: "String cd a = Inr astr" "fps \<noteq> []"
    and signed: "signed_by pg keyring astr (act_PGPSignatures a) fps"
    and perm: "verifyPermission (op_Module operation) acl fps = Inr ()"
    using assms(1,2) unfolding VerifyACL_Inr by blast
  have upper: "list_all no_upper fps"
    using signed GetFingerprint_no_upper unfolding signed_by_def list_all2_conv_all_nth list_all_length
    by metis
  from verifyPermission_valid [OF perm] obtain aclname aclent
    where e: "acl_entry_for (op_Module operation) acl = Some (aclname, aclent)"
    by (auto simp: acl_valid_def split: option.splits)
  then have "aclent \<in> snd ` set acl"
    by (force simp: acl_entry_for_def dest: map_of_SomeD split: option.splits)
  with assms(3) have "wrap64 (signers_weight aclent fps) = signers_weight aclent fps"
    by (blast intro: wrap64_id)
  with e perm upper have "1 \<le> MinimumWeight aclent" "distinct fps"
    "MinimumWeight aclent \<le> signers_weight aclent fps"
    by (auto simp: verifyPermission_Some sum_fp_weight_signers [OF _ upper])
  with astr signed e show ?thesis by blast
qed

section \<open>Properties\<close>

text \<open>
  C3. An action that \<open>VerifyACL\<close> accepts is authorised operation by operation: each signature
  verifies over the action's string and yields a key, no key is repeated, and for every operation
  the module's ACL entry (or the default one) exists and the investigators behind those keys,
  each counted once, carry at least its minimum weight, which is at least 1.
\<close>

theorem VerifyACL_sound:
  assumes "VerifyACL cd pg acl keyring False a = Inr ()" and "operation \<in> set (ops a)"
    and "\<forall>e\<in>snd ` set acl. \<forall>fps. in_int64 (signers_weight e fps)"
  shows "\<exists>astr fps aclname aclent. String cd a = Inr astr \<and>
     signed_by pg keyring astr (act_PGPSignatures a) fps \<and> fps \<noteq> [] \<and> distinct fps \<and>
     acl_entry_for (op_Module operation) acl = Some (aclname, aclent) \<and>
     1 \<le> MinimumWeight aclent \<and> MinimumWeight aclent \<le> signers_weight aclent fps"
  by (rule VerifyACL_quorum [OF assms])

definition example_codec :: codec where
  "example_codec = \<lparr>json_Marshal = (\<lambda>v. case v of JStr s \<Rightarrow> Inr s | _ \<Rightarrow> Inl (errors_New ''unsupported type'')),
     json_Unmarshal = (\<lambda>s. Inr (JStr s)),
     json_MarshalOps = (\<lambda>os. Inr (case os of None \<Rightarrow> ''null'' | Some os \<Rightarrow> ''['' @ concat (map op_Module os) @ '']'')),
     gzip_Write = (\<lambda>s. ''gz'' @ s), gzip_Read = (\<lambda>s. Inr (drop 2 s)),
     b64_Encode = rev, b64_Decode = (\<lambda>s. Inr (rev s))\<rparr>"

definition example_pg :: "unit openpgp" where
  "example_pg = \<lparr>armor_Decode = (\<lambda>s. Inr (''PGP SIGNATURE'', s)), ReadKeyRing = (\<lambda>s. Inr ()),
     CheckDetachedSignature = (\<lambda>_ _ sig. Inr \<lparr>PrimaryKeyFingerprint =
        (if CHR ''w'' \<in> set sig then [0xaf] else [0xc0]),
        HasPrivateKey = False\<rparr>),
     ReadArmoredKeyRing = (\<lambda>s. Inr []), Serialize = (\<lambda>e. Inr []), SerializePrivate = (\<lambda>e. Inr []),
     armor_Encode = Inr\<rparr>"

definition example_action :: action where
  "example_action = zero_action\<lparr>act_Name := ''n'', act_Target := ''all'',
     act_Operations := Some [\<lparr>op_Module = ''ping'', op_Parameters = JStr ''x'',
       op_IsCompressed = False, op_WantCompressed = False\<rparr>],
     act_PGPSignatures := [''x=y'', ''z=w''], act_SyntaxVersion := 2\<rparr>"

definition example_acl :: acl where "example_acl = [(''default'', example_entry)]"

lemma example_acl_fits: "\<forall>e\<in>snd ` set example_acl. \<forall>fps. in_int64 (signers_weight e fps)"
  by (simp add: example_acl_def example_entry_def signers_weight_def in_int64_def)

lemma example_hex: "HexEncode [0xc0] = ''c0''" "HexEncode [0xaf] = ''af''"
  by code_simp+

lemma example_fingerprints:
  "GetFingerprintFromSignature example_pg d ''x=y'' ''ring'' = Inr ''c0''"
  "GetFingerprintFromSignature example_pg d ''z=w'' ''ring'' = Inr ''af''"
  by (simp_all add: GetFingerprintFromSignature_def Verify_def example_pg_def reArmorSignature_def
      armor_lines.simps armor_header_def armor_footer_def example_hex)

lemma example_action_accepted:
  "VerifyACL example_codec example_pg example_acl ''ring'' False example_action = Inr ()"
proof -
  obtain astr where "String example_codec example_action = Inr astr"
    by (simp add: String_eq_Inr example_codec_def)
  moreover have "signed_by example_pg ''ring'' astr (act_PGPSignatures example_action) [''c0'', ''af'']"
    by (simp add: signed_by_def example_action_def example_fingerprints)
  moreover have "verifyPermission ''ping'' example_acl [''c0'', ''af''] = Inr ()" by code_simp
  ultimately show ?thesis
    unfolding VerifyACL_Inr by (force simp: example_action_def ops_def)
qed

theorem VerifyACL_sound_witness:
  "\<exists>astr fps aclname aclent. String example_codec example_action = Inr astr \<and>
     fps \<noteq> [] \<and> distinct fps \<and> acl_entry_for ''ping'' example_acl = Some (aclname, aclent) \<and>
     MinimumWeight aclent \<le> signers_weight aclent fps"
proof -
  have op: "hd (ops example_action) \<in> set (ops example_action)"
    "op_Module (hd (ops example_action)) = ''ping''"
    by (simp_all add: ops_def example_action_def)
  from VerifyACL_sound [OF example_action_accepted op(1) example_acl_fits] op(2) show ?thesis by auto
qed

text \<open>
  \<open>VerifySignatures\<close> accepts exactly the actions that can be written out and carry at least one
  signature, all of whose signatures verify over that string.
\<close>

theorem VerifySignatures_iff:
  "VerifySignatures cd pg keyring a = Inr () \<longleftrightarrow>
     (\<exists>astr. String cd a = Inr astr \<and> act_PGPSignatures a \<noteq> [] \<and>
        list_all (\<lambda>sig. is_ok (Verify pg astr sig keyring)) (act_PGPSignatures a))"
  by (auto simp: VerifySignatures_def all_res_eq_Inr list_all_iff split: sum.splits)

text \<open>
  C28. The signed string determines what is signed as long as name and target contain no semicolon:
  a second action has the same string exactly when it has the same name, target, validity period
  in seconds and JSON operations. So a signature cannot be carried over to an action that differs
  in one of them.
\<close>

theorem String_determines_action:
  assumes "String cd a = Inr s"
    and "CHR '';'' \<notin> set (act_Name a @ act_Target a @ act_Name b @ act_Target b)"
  shows "String cd b = Inr s \<longleftrightarrow>
     act_Name b = act_Name a \<and> act_Target b = act_Target a \<and>
     Unix (act_ValidFrom b) = Unix (act_ValidFrom a) \<and>
     Unix (act_ExpireAfter b) = Unix (act_ExpireAfter a) \<and>
     json_MarshalOps cd (act_Operations b) = json_MarshalOps cd (act_Operations a)" (is "_ \<longleftrightarrow> ?same")
proof
  assume b: "String cd b = Inr s"
  from assms(1) obtain ja where ja: "json_MarshalOps cd (act_Operations a) = Inr ja"
    and sa: "s = ''name='' @ act_Name a @ CHR '';'' # ''target='' @ act_Target a @
       CHR '';'' # ''validfrom='' @ fmt_d (Unix (act_ValidFrom a)) @ CHR '';'' # ''expireafter=%!s(int64='' @
       fmt_d (Unix (act_ExpireAfter a)) @ CHR '')'' # '';operations='' @ ja @ '';''"
    by (auto simp: String_eq_Inr)
  from b obtain jb where jb: "json_MarshalOps cd (act_Operations b) = Inr jb"
    and sb: "s = ''name='' @ act_Name b @ CHR '';'' # ''target='' @ act_Target b @
       CHR '';'' # ''validfrom='' @ fmt_d (Unix (act_ValidFrom b)) @ CHR '';'' # ''expireafter=%!s(int64='' @
       fmt_d (Unix (act_ExpireAfter b)) @ CHR '')'' # '';operations='' @ jb @ '';''"
    by (auto simp: String_eq_Inr)
  have free: "CHR '';'' \<notin> set (act_Name a)" "CHR '';'' \<notin> set (act_Name b)"
    "CHR '';'' \<notin> set (act_Target a)" "CHR '';'' \<notin> set (act_Target b)"
    using assms(2) by simp_all
  from sa sb ja jb show ?same
    by (auto simp: separator_inj free fmt_d_no_semicolon dest: fmt_d_inj)
next
  assume ?same
  with assms(1) show "String cd b = Inr s" by (auto simp: String_eq_Inr)
qed

theorem String_determines_action_witness:
  "(String example_codec (example_action\<lparr>act_Target := ''one''\<rparr>) =
     String example_codec example_action) = False"
proof -
  obtain s where s: "String example_codec example_action = Inr s"
    by (simp add: String_eq_Inr example_codec_def)
  have "CHR '';'' \<notin> set (act_Name example_action @ act_Target example_action @
      act_Name (example_action\<lparr>act_Target := ''one''\<rparr>) @ act_Target (example_action\<lparr>act_Target := ''one''\<rparr>))"
    by (simp add: example_action_def)
  from String_determines_action [OF s this] s show ?thesis by (simp add: example_action_def)
qed

text \<open>
  The condition on semicolons is needed: an action named \<open>n;target=t\<close> has the same signed string
  as one named \<open>n\<close> whose target starts with \<open>t;target=\<close>, so one signature is valid for two actions
  with different targets.
\<close>

theorem String_ambiguous:
  "String cd (a\<lparr>act_Name := n @ '';target='' @ t, act_Target := u\<rparr>) =
   String cd (a\<lparr>act_Name := n, act_Target := t @ '';target='' @ u\<rparr>)"
  by (simp add: String_def Let_def split: sum.splits)

text \<open>
  Identifiers drawn from \<open>GenID\<close> by one process that starts uninitialised after MIG's creation
  date are positive, strictly increasing and so distinct, for up to \<open>2 ^ 52\<close> of them, even when the
  clock jumps between calls.
\<close>

theorem GenID_unique:
  assumes "length nows \<le> 2 ^ 52" and "\<forall>now\<in>set nows. mig_epoch \<le> now"
  shows "sorted_wrt (<) (fst (draw GenID 0 nows)) \<and> distinct (fst (draw GenID 0 nows)) \<and>
    (\<forall>i\<in>set (fst (draw GenID 0 nows)). 0 < i)"
proof -
  obtain "is" g' where d: "draw GenID 0 nows = (is, g')" by (cases "draw GenID 0 nows")
  have room: "genid_room 0 (length nows)" using assms(1) by (simp add: genid_room_def)
  have clock: "list_all (\<lambda>now. mig_epoch \<le> now) nows" using assms(2) by (simp add: list_all_iff)
  show ?thesis
    using genid.draw_increasing [OF room clock d] genid.draw_distinct [OF room clock d] d by simp
qed

theorem GenID_unique_witness:
  "distinct (fst (draw GenID 0 [future_date, mig_epoch, future_date]))"
  using GenID_unique [of "[future_date, mig_epoch, future_date]"]
  by (simp add: mig_epoch_def future_date_def)

text \<open>
  Compressing an operation's parameters and decompressing them again gives back the operation,
  when the encoders undo each other as their documentation says; decompression leaves an
  operation that is not compressed alone.
\<close>

theorem compress_decompress:
  assumes "codec_lossless cd" and "CompressOperationParam cd op = (None, op')"
  shows "op_IsCompressed op' \<and>
    DecompressOperationParam cd op' = (None, op\<lparr>op_IsCompressed := False\<rparr>) \<and>
    (\<not> op_IsCompressed op \<longrightarrow> DecompressOperationParam cd op' = (None, op))"
proof -
  from assms(2) obtain s where s: "json_Marshal cd (op_Parameters op) = Inr s"
    and op': "op' = op\<lparr>op_Parameters := JStr (b64_Encode cd (gzip_Write cd s)), op_IsCompressed := True\<rparr>"
    by (auto simp: CompressOperationParam_def split: sum.splits)
  show ?thesis
    by (simp add: op' DecompressOperationParam_def decompress_compressed [OF assms(1) s])
qed

lemma example_codec_lossless: "codec_lossless example_codec"
  by (auto simp: codec_lossless_def example_codec_def split: json.splits)

theorem compress_decompress_witness:
  "snd (DecompressOperationParam example_codec
     \<lparr>op_Module = ''file'', op_Parameters = JStr ''01zg'', op_IsCompressed = True,
      op_WantCompressed = True\<rparr>)
   = \<lparr>op_Module = ''file'', op_Parameters = JStr ''10'', op_IsCompressed = False,
      op_WantCompressed = True\<rparr>"
  using compress_decompress [OF example_codec_lossless,
      of "\<lparr>op_Module = ''file'', op_Parameters = JStr ''10'', op_IsCompressed = False,
            op_WantCompressed = True\<rparr>"]
  by (simp add: CompressOperationParam_def example_codec_def)

text \<open>
  \<open>Validate\<close> accepts exactly the actions with a name, a target, the current syntax version, a
  validity period that does not end before it starts nor in the past, at least one signature, and
  an operations array that is present. The array may be empty: an action with no operation at all
  is valid.
\<close>

theorem Validate_iff:
  "Validate now a = Inr () \<longleftrightarrow>
     act_Name a \<noteq> [] \<and> act_Target a \<noteq> [] \<and> act_SyntaxVersion a = 2 \<and>
     act_ValidFrom a \<le> act_ExpireAfter a \<and> now \<le> act_ExpireAfter a \<and>
     act_Operations a \<noteq> None \<and> act_PGPSignatures a \<noteq> []"
  by (auto simp: Validate_def ActionVersion_def)

lemma Validate_accepts_no_operations:
  "Validate now a = Inr () \<Longrightarrow> Validate now (a\<lparr>act_Operations := Some []\<rparr>) = Inr ()"
  by (simp add: Validate_def split: if_splits)

end
