(* ===== verification/LoaderKeys.thy ===== *)
theory LoaderKeys
  imports Pgp
begin

text \<open>
  Loader keys (\<open>loader.go\<close>, \<open>misc.go\<close>) and the hashing of keys (\<open>hashAPIKey\<close> in
  \<open>mig-api/apikey.go\<close>). A loader authenticates with a prefix of 8 characters, which the database
  stores in clear, followed by a key of 32 characters, of which it stores a salted hash.

  The random source is an argument: \<open>rs i\<close> is the value of the i-th call of \<open>r.Int()\<close>, which is not
  negative. \<open>crypto/rand\<close> and \<open>pbkdf2\<close> are arguments as well.
\<close>

section \<open>Data\<close>

record loader_entry =
  le_ID :: int
  le_Name :: string
  le_Prefix :: string
  le_Key :: string
  le_AgentName :: string
  le_LastSeen :: time
  le_Enabled :: bool
  le_ExpectEnv :: string

record loader_auth_details =
  lad_ID :: int
  lad_Hash :: "byte8 list"
  lad_Salt :: "byte8 list"

definition LoaderPrefixAndKeyLength :: nat where "LoaderPrefixAndKeyLength = 40"
definition LoaderPrefixLength :: nat where "LoaderPrefixLength = 8"
definition LoaderKeyLength :: nat where "LoaderKeyLength = 32"
definition LoaderHashedKeyLength :: nat where "LoaderHashedKeyLength = 32"
definition LoaderSaltLength :: nat where "LoaderSaltLength = 16"

lemmas loader_lengths = LoaderPrefixAndKeyLength_def LoaderPrefixLength_def LoaderKeyLength_def
  LoaderHashedKeyLength_def LoaderSaltLength_def

section \<open>Validation\<close>

text \<open>The character class \<open>[A-Za-z0-9]\<close>, and \<open>^[A-Za-z0-9]{n}$\<close>.\<close>

definition is_alnum :: "char \<Rightarrow> bool" where
  "is_alnum c \<longleftrightarrow> is_upper c \<or> is_lower c \<or> is_digit c"

definition alnum_string :: "nat \<Rightarrow> string \<Rightarrow> bool" where
  "alnum_string n s \<longleftrightarrow> length s = n \<and> list_all is_alnum s"

definition ValidateLoaderKey :: "string \<Rightarrow> unit result" where
  "ValidateLoaderKey key =
     (if \<not> alnum_string LoaderKeyLength key then Inl (errors_New ''loader key format is invalid'')
      else Inr ())"

definition ValidateLoaderPrefix :: "string \<Rightarrow> unit result" where
  "ValidateLoaderPrefix pre =
     (if \<not> alnum_string LoaderPrefixLength pre
      then Inl (errors_New ''loader prefix format is invalid'') else Inr ())"

definition ValidateLoaderPrefixAndKey :: "string \<Rightarrow> unit result" where
  "ValidateLoaderPrefixAndKey pk =
     (if length pk \<noteq> LoaderPrefixAndKeyLength
      then Inl (errors_New ''loader key is incorrect length'')
      else (case ValidateLoaderPrefix (take LoaderPrefixLength pk) of
              Inl e \<Rightarrow> Inl e
            | Inr _ \<Rightarrow> (case ValidateLoaderKey (drop LoaderPrefixLength pk) of
                         Inl e \<Rightarrow> Inl e
                       | Inr _ \<Rightarrow> Inr ())))"

text \<open>\<open>LoaderEntry.Validate\<close> computes the key's error and then returns nil.\<close>

definition LoaderEntry_Validate :: "loader_entry \<Rightarrow> unit result" where
  "LoaderEntry_Validate le =
     (let err = (if le_Key le \<noteq> [] then ValidateLoaderPrefixAndKey (le_Prefix le @ le_Key le)
                 else Inr ())
      in Inr ())"

definition LoaderAuthDetails_Validate :: "loader_auth_details \<Rightarrow> unit result" where
  "LoaderAuthDetails_Validate lad =
     (if length (lad_Hash lad) \<noteq> LoaderHashedKeyLength \<or> length (lad_Salt lad) \<noteq> LoaderSaltLength
      then Inl (errors_New ''contents of LoaderAuthDetails are invalid'') else Inr ())"

section \<open>Generation\<close>

definition lset :: string where
  "lset = ''abcdefghijklmnopqrstuvwxyzABCDEFCHIJKLMNOPQRSTUVWXYZ0123456789''"

fun rand_fill :: "(nat \<Rightarrow> nat) \<Rightarrow> nat \<Rightarrow> nat \<Rightarrow> string" where
  "rand_fill rs i 0 = []"
| "rand_fill rs i (Suc n) = lset ! (rs i mod length lset) # rand_fill rs (Suc i) n"

definition RandAPIKeyString :: "(nat \<Rightarrow> nat) \<Rightarrow> nat \<Rightarrow> string" where
  "RandAPIKeyString rs len = rand_fill rs 0 len"

definition GenerateLoaderPrefix :: "(nat \<Rightarrow> nat) \<Rightarrow> string" where
  "GenerateLoaderPrefix rs = RandAPIKeyString rs LoaderPrefixLength"

definition GenerateLoaderKey :: "(nat \<Rightarrow> nat) \<Rightarrow> string" where
  "GenerateLoaderKey rs = RandAPIKeyString rs LoaderKeyLength"

section \<open>Hashing\<close>

record crypto =
  rand_Read :: "nat \<Rightarrow> byte8 list result"
  pbkdf2_Key :: "string \<Rightarrow> byte8 list \<Rightarrow> nat \<Rightarrow> byte8 list"

text \<open>The salt \<open>None\<close> is Go's nil: a new salt is drawn. \<open>pbkdf2_Key\<close> runs 4096 rounds of SHA-256.\<close>

definition hashAPIKey ::
  "crypto \<Rightarrow> string \<Rightarrow> byte8 list option \<Rightarrow> nat \<Rightarrow> nat \<Rightarrow> (byte8 list \<times> byte8 list) result" where
  "hashAPIKey cr key salt keylen saltlen =
     (if key = [] then Inl (errors_New ''loader key cannot be zero length'')
      else (case (case salt of None \<Rightarrow> rand_Read cr saltlen | Some s \<Rightarrow> Inr s) of
              Inl e \<Rightarrow> Inl e
            | Inr retsalt \<Rightarrow> Inr (pbkdf2_Key cr key retsalt keylen, retsalt)))"

text \<open>What the two libraries document: the length asked for is the length returned.\<close>

definition crypto_lengths :: "crypto \<Rightarrow> bool" where
  "crypto_lengths cr \<longleftrightarrow>
     (\<forall>n bs. rand_Read cr n = Inr bs \<longrightarrow> length bs = n) \<and>
     (\<forall>k s n. length (pbkdf2_Key cr k s n) = n)"

section \<open>Lemmas\<close>

lemma ValidateLoaderPrefixAndKey_Inr:
  "ValidateLoaderPrefixAndKey pk = Inr () \<longleftrightarrow> alnum_string 40 pk"
proof -
  have "list_all is_alnum pk \<longleftrightarrow> list_all is_alnum (take 8 pk) \<and> list_all is_alnum (drop 8 pk)"
    by (metis append_take_drop_id list_all_append)
  then show ?thesis
    by (auto simp: ValidateLoaderPrefixAndKey_def ValidateLoaderPrefix_def ValidateLoaderKey_def
        alnum_string_def loader_lengths)
qed

lemma lset_alnum: "list_all is_alnum lset"
  by code_simp

lemma length_lset: "length lset = 62"
  by (simp add: lset_def)

lemma rand_fill_in_lset: "set (rand_fill rs i n) \<subseteq> set lset"
proof (induction rs i n rule: rand_fill.induct)
  case (2 rs i n)
  have "lset ! (rs i mod length lset) \<in> set lset" by (rule nth_mem) (simp add: length_lset)
  with 2 show ?case by simp
qed simp

lemma length_rand_fill [simp]: "length (rand_fill rs i n) = n"
  by (induction rs i n rule: rand_fill.induct) simp_all

lemma RandAPIKeyString_alnum: "alnum_string n (RandAPIKeyString rs n)"
  using rand_fill_in_lset [of rs 0 n] lset_alnum
  by (auto simp: alnum_string_def RandAPIKeyString_def list_all_iff)

lemma generated_key_valid:
  "ValidateLoaderKey (GenerateLoaderKey rs) = Inr ()"
  "ValidateLoaderPrefixAndKey (GenerateLoaderPrefix rs @ GenerateLoaderKey rs') = Inr ()"
  using RandAPIKeyString_alnum [of 32 rs] RandAPIKeyString_alnum [of 8 rs]
    RandAPIKeyString_alnum [of 32 rs']
  by (auto simp: ValidateLoaderKey_def GenerateLoaderKey_def GenerateLoaderPrefix_def
      ValidateLoaderPrefixAndKey_Inr alnum_string_def loader_lengths)

lemma generated_lengths [simp]:
  "length (GenerateLoaderPrefix rs) = 8" "length (GenerateLoaderKey rs) = 32"
  by (simp_all add: GenerateLoaderPrefix_def GenerateLoaderKey_def RandAPIKeyString_def loader_lengths)

text \<open>The letter G never occurs in a generated key: the alphabet has a second C in its place.\<close>

lemma generated_key_no_G: "CHR ''G'' \<notin> set (RandAPIKeyString rs n)"
proof -
  have "CHR ''G'' \<notin> set lset" by (simp add: lset_def)
  then show ?thesis using rand_fill_in_lset unfolding RandAPIKeyString_def by blast
qed

lemma LoaderEntry_Validate_always: "LoaderEntry_Validate le = Inr ()"
  by (simp add: LoaderEntry_Validate_def)

lemma hashAPIKey_Some [simp]:
  "key \<noteq> [] \<Longrightarrow> hashAPIKey cr key (Some s) n m = Inr (pbkdf2_Key cr key s n, s)"
  by (simp add: hashAPIKey_def)

lemma hashAPIKey_None:
  "hashAPIKey cr key None n m = Inr (h, s) \<longleftrightarrow>
     key \<noteq> [] \<and> rand_Read cr m = Inr s \<and> h = pbkdf2_Key cr key s n"
  by (auto simp: hashAPIKey_def split: sum.splits)

section \<open>Properties\<close>

text \<open>
  Whatever the random source returns, a generated prefix followed by a generated key passes the
  validation that the API and the loader apply to it; validation accepts exactly the strings of 40
  ASCII letters and digits.
\<close>

theorem generated_loader_key_valid:
  "ValidateLoaderPrefixAndKey (GenerateLoaderPrefix rs @ GenerateLoaderKey rs') = Inr () \<and>
   (ValidateLoaderPrefixAndKey pk = Inr () \<longleftrightarrow> length pk = 40 \<and> list_all is_alnum pk)"
  by (simp add: generated_key_valid ValidateLoaderPrefixAndKey_Inr alnum_string_def)

end
