(* ===== verification/Manifests.thy ===== *)
theory Manifests
  imports Acl Pgp
begin

text \<open>
  Manifests (\<open>manifest.go\<close>): the records that the API stores, their conversion to the response
  that a loader receives, the extraction of a file, and the verification of a response's
  signatures.

  A manifest's content is a base64-encoded, gzip-compressed tar archive. \<open>encoding/base64\<close>,
  \<open>compress/gzip\<close> and \<open>archive/tar\<close> are the field \<open>tar_Open\<close> of a record: it yields what the calls
  of \<open>tr.Next()\<close> return in order, each header with what the calls of \<open>tr.Read\<close> return for it. A
  call of \<open>Read\<close> may return data together with \<open>io.EOF\<close>. SHA-256 in hexadecimal, JSON and signing
  are fields as well.
\<close>

section \<open>Data\<close>

record manifest_record =
  mr_ID :: int
  mr_Name :: string
  mr_Content :: string
  mr_Timestamp :: time
  mr_Status :: string
  mr_Target :: string
  mr_Signatures :: "string list"

record manifest_entry =
  me_Name :: string
  me_SHA256 :: string

record manifest_response =
  mresp_LoaderName :: string
  mresp_Entries :: "manifest_entry list"
  mresp_Signatures :: "string list"

datatype read_status = RNil | REOF | RErr go_error

type_synonym reads = "(string \<times> read_status) list"

datatype tar_next = TarHeader string bool reads | TarError go_error

record manifest_env =
  tar_Open :: "string \<Rightarrow> tar_next list result"
  sha256_hex :: "string \<Rightarrow> string"
  gzip_bytes :: "string \<Rightarrow> string"
  json_Response :: "manifest_response \<Rightarrow> string result"
  pgp_Sign :: "string \<Rightarrow> string \<Rightarrow> string \<Rightarrow> string result"

section \<open>Reading an archive\<close>

text \<open>
  The read loop of \<open>ManifestResponse\<close> and \<open>ManifestObject\<close>: it leaves the loop at \<open>io.EOF\<close> before
  it looks at the bytes that came with it.
\<close>

fun read_loop :: "string \<Rightarrow> reads \<Rightarrow> string result" where
  "read_loop acc [] = Inr acc"
| "read_loop acc ((bs, RNil) # rs) = read_loop (acc @ bs) rs"
| "read_loop acc ((bs, REOF) # rs) = Inr acc"
| "read_loop acc ((bs, RErr e) # rs) = Inl e"

fun response_entries :: "manifest_env \<Rightarrow> manifest_entry list \<Rightarrow> tar_next list \<Rightarrow> manifest_entry list result" where
  "response_entries env ents [] = Inr ents"
| "response_entries env ents (TarError e # ts) = Inl e"
| "response_entries env ents (TarHeader nm is_reg rs # ts) =
     (if \<not> is_reg then response_entries env ents ts
      else (case read_loop [] rs of
              Inl e \<Rightarrow> Inl e
            | Inr content \<Rightarrow>
                response_entries env
                  (ents @ [\<lparr>me_Name = path_Split_file nm, me_SHA256 = sha256_hex env content\<rparr>]) ts))"

definition toManifestResponse :: "manifest_env \<Rightarrow> manifest_record \<Rightarrow> manifest_response result" where
  "toManifestResponse env m =
     (if length (mr_Content m) = 0 then Inl (errors_New ''manifest record has no content'')
      else (case tar_Open env (mr_Content m) of
              Inl e \<Rightarrow> Inl e
            | Inr ts \<Rightarrow>
                (case response_entries env [] ts of
                   Inl e \<Rightarrow> Inl e
                 | Inr ents \<Rightarrow> Inr \<lparr>mresp_LoaderName = [], mresp_Entries = ents,
                                  mresp_Signatures = mr_Signatures m\<rparr>)))"

fun find_object :: "manifest_env \<Rightarrow> string \<Rightarrow> tar_next list \<Rightarrow> string result" where
  "find_object env obj [] = Inl (Errorf ''object %v not found in manifest'' [AStr obj])"
| "find_object env obj (TarError e # ts) = Inl e"
| "find_object env obj (TarHeader nm is_reg rs # ts) =
     (if \<not> is_reg then find_object env obj ts
      else if path_Split_file nm \<noteq> obj then find_object env obj ts
      else (case read_loop [] rs of
              Inl e \<Rightarrow> Inl e
            | Inr content \<Rightarrow> Inr (gzip_bytes env content)))"

definition ManifestObject :: "manifest_env \<Rightarrow> manifest_record \<Rightarrow> string \<Rightarrow> string result" where
  "ManifestObject env m obj =
     (case tar_Open env (mr_Content m) of Inl e \<Rightarrow> Inl e | Inr ts \<Rightarrow> find_object env obj ts)"

section \<open>Validation\<close>

definition ManifestRecord_Validate :: "manifest_env \<Rightarrow> manifest_record \<Rightarrow> unit result" where
  "ManifestRecord_Validate env m =
     (if mr_Name m = [] then Inl (errors_New ''manifest has invalid name'')
      else if mr_Target m = [] then Inl (errors_New ''manifest has invalid target'')
      else if mr_Status m \<noteq> ''staged'' \<and> mr_Status m \<noteq> ''active'' \<and> mr_Status m \<noteq> ''disabled''
        then Inl (errors_New ''manifest has invalid status'')
      else (case toManifestResponse env m of Inl e \<Rightarrow> Inl e | Inr _ \<Rightarrow> Inr ()))"

record manifest_parameters =
  mp_AgentName :: string
  mp_QueueLoc :: string
  mp_Object :: string

definition ManifestParameters_Validate :: "manifest_parameters \<Rightarrow> unit result" where
  "ManifestParameters_Validate m = Inr ()"

definition ValidateFetch :: "manifest_parameters \<Rightarrow> unit result" where
  "ValidateFetch m =
     (case ManifestParameters_Validate m of
        Inl e \<Rightarrow> Inl e
      | Inr _ \<Rightarrow> if mp_Object m = [] then Inl (errors_New ''manifest fetch with no object'')
                else ManifestParameters_Validate m)"

definition ManifestResponse_Validate :: "manifest_response \<Rightarrow> unit result" where
  "ManifestResponse_Validate m =
     (if mresp_LoaderName m = [] then Inl (errors_New ''manifest response has no loader name'')
      else Inr ())"

section \<open>Signing and verifying\<close>

definition ManifestRecord_Sign ::
  "manifest_env \<Rightarrow> string \<Rightarrow> string \<Rightarrow> manifest_record \<Rightarrow> string result" where
  "ManifestRecord_Sign env keyid secring m =
     recovered ''Sign''
       (case toManifestResponse env m of
          Inl e \<Rightarrow> Inl e
        | Inr me \<Rightarrow>
            (case json_Response env (me\<lparr>mresp_Signatures := []\<rparr>) of
               Inl e \<Rightarrow> Inl e
             | Inr buf \<Rightarrow> pgp_Sign env buf keyid secring))"

fun count_signatures ::
  "'ring openpgp \<Rightarrow> string \<Rightarrow> string \<Rightarrow> string list \<Rightarrow> int \<Rightarrow> string list \<Rightarrow> int result" where
  "count_signatures pg keyring buf fpcache validcnt [] = Inr validcnt"
| "count_signatures pg keyring buf fpcache validcnt (x # sigs) =
     (case Verify pg buf x keyring of
        Inl e \<Rightarrow> Inl e
      | Inr ent \<Rightarrow>
          (let fp = HexEncode (PrimaryKeyFingerprint ent)
           in if fp \<in> set fpcache
              then Inl (Errorf ''duplicate signature for fingerprint %v'' [AStr fp])
              else count_signatures pg keyring buf (fpcache @ [fp]) (validcnt + 1) sigs))"

text \<open>
  \<open>ManifestResponse.VerifySignatures\<close> empties the receiver's signatures; the second component is
  the receiver afterwards.
\<close>

definition VerifyResponse ::
  "manifest_env \<Rightarrow> 'ring openpgp \<Rightarrow> string \<Rightarrow> manifest_response \<Rightarrow> int result \<times> manifest_response" where
  "VerifyResponse env pg keyring m =
     (let sigs = mresp_Signatures m;
          m' = m\<lparr>mresp_Signatures := []\<rparr>;
          mcopy = m'\<lparr>mresp_LoaderName := []\<rparr>
      in (case json_Response env mcopy of
            Inl e \<Rightarrow> Inl e
          | Inr buf \<Rightarrow> count_signatures pg keyring buf [] 0 sigs, m'))"

section \<open>Bundles\<close>

type_synonym file_mode = "32 word"

record bundle_entry =
  be_Name :: string
  be_Path :: string
  be_SHA256 :: string
  be_Perm :: file_mode

abbreviation mode0700 :: file_mode where "mode0700 \<equiv> 448"
abbreviation mode0600 :: file_mode where "mode0600 \<equiv> 384"
abbreviation mode0644 :: file_mode where "mode0644 \<equiv> 420"

definition bde :: "string \<Rightarrow> string \<Rightarrow> file_mode \<Rightarrow> bundle_entry" where
  "bde nm p perm = \<lparr>be_Name = nm, be_Path = p, be_SHA256 = [], be_Perm = perm\<rparr>"

definition bundleEntryLinux :: "bundle_entry list" where
  "bundleEntryLinux =
     [bde ''mig-agent'' ''/sbin/mig-agent'' mode0700,
      bde ''mig-loader'' ''/sbin/mig-loader'' mode0700,
      bde ''configuration'' ''/etc/mig/mig-agent.cfg'' mode0600,
      bde ''agentcert'' ''/etc/mig/agent.crt'' mode0644,
      bde ''agentkey'' ''/etc/mig/agent.key'' mode0600,
      bde ''cacert'' ''/etc/mig/ca.crt'' mode0644,
      bde ''loaderconfig'' ''/etc/mig/mig-loader.cfg'' mode0600]"

definition bundleEntryDarwin :: "bundle_entry list" where
  "bundleEntryDarwin =
     [bde ''mig-agent'' ''/usr/local/bin/mig-agent'' mode0700,
      bde ''mig-loader'' ''/usr/local/bin/mig-loader'' mode0700,
      bde ''configuration'' ''/etc/mig/mig-agent.cfg'' mode0600,
      bde ''agentcert'' ''/etc/mig/agent.crt'' mode0644,
      bde ''agentkey'' ''/etc/mig/agent.key'' mode0600,
      bde ''cacert'' ''/etc/mig/ca.crt'' mode0644,
      bde ''loaderconfig'' ''/etc/mig/mig-loader.cfg'' mode0600]"

definition windows_path :: "string \<Rightarrow> string" where
  "windows_path f = ''C:'' @ [CHR 0x5C] @ ''mig'' @ [CHR 0x5C] @ f"

definition bundleEntryWindows :: "bundle_entry list" where
  "bundleEntryWindows =
     [bde ''mig-agent'' (windows_path ''mig-agent.exe'') mode0700,
      bde ''mig-loader'' (windows_path ''mig-loader.exe'') mode0700,
      bde ''configuration'' (windows_path ''mig-agent.cfg'') mode0600,
      bde ''agentcert'' (windows_path ''agent.crt'') mode0644,
      bde ''agentkey'' (windows_path ''agent.key'') mode0600,
      bde ''cacert'' (windows_path ''ca.crt'') mode0644,
      bde ''loaderconfig'' (windows_path ''mig-loader.cfg'') mode0600]"

text \<open>\<open>runtime.GOOS\<close> is an argument.\<close>

definition GetHostBundle :: "string \<Rightarrow> bundle_entry list result" where
  "GetHostBundle goos =
     (if goos = ''linux'' then Inr bundleEntryLinux
      else if goos = ''darwin'' then Inr bundleEntryDarwin
      else if goos = ''windows'' then Inr bundleEntryWindows
      else Inl (Errorf ''no entry for %v in bundle dictionary'' [AStr goos]))"

section \<open>Lemmas\<close>

lemma read_loop_complete:
  "list_all (\<lambda>(bs, st). st = RNil \<or> st = REOF \<and> bs = []) rs \<Longrightarrow>
     \<exists>ys zs. rs = ys @ zs \<and> read_loop acc rs = Inr (acc @ concat (map fst ys)) \<and>
       list_all (\<lambda>(bs, st). st = RNil) ys \<and> (zs = [] \<or> snd (hd zs) = REOF)"
proof (induction acc rs rule: read_loop.induct)
  case (2 acc bs rs)
  then obtain ys zs where "rs = ys @ zs"
    "read_loop (acc @ bs) rs = Inr ((acc @ bs) @ concat (map fst ys))"
    "list_all (\<lambda>(bs, st). st = RNil) ys" "zs = [] \<or> snd (hd zs) = REOF" by auto
  then show ?case by (intro exI [of _ "(bs, RNil) # ys"] exI [of _ zs]) simp
qed (auto intro: exI [of _ "[]"])

lemma count_signatures_eq:
  "count_signatures pg keyring buf fpcache n sigs = Inr r \<longleftrightarrow>
     (\<exists>ents. list_all2 (\<lambda>x ent. Verify pg buf x keyring = Inr ent) sigs ents \<and>
        distinct (map PrimaryKeyFingerprint ents) \<and>
        (\<forall>ent\<in>set ents. HexEncode (PrimaryKeyFingerprint ent) \<notin> set fpcache) \<and>
        r = n + int (length ents))"
proof (induction sigs arbitrary: fpcache n)
  case Nil
  then show ?case by auto
next
  case (Cons x sigs)
  show ?case
  proof (cases "Verify pg buf x keyring")
    case (Inl e)
    then show ?thesis by (simp add: list_all2_Cons1)
  next
    case (Inr ent)
    have inj: "HexEncode (PrimaryKeyFingerprint e) = HexEncode (PrimaryKeyFingerprint ent) \<longleftrightarrow>
        PrimaryKeyFingerprint e = PrimaryKeyFingerprint ent" for e
      by (metis HexEncode_inj)
    let ?P = "\<lambda>ents. list_all2 (\<lambda>x ent. Verify pg buf x keyring = Inr ent) sigs ents \<and>
        distinct (map PrimaryKeyFingerprint ents) \<and>
        (\<forall>e\<in>set ents. HexEncode (PrimaryKeyFingerprint e) \<notin>
            set (fpcache @ [HexEncode (PrimaryKeyFingerprint ent)])) \<and>
        r = n + 1 + int (length ents)"
    let ?Q = "\<lambda>ents. list_all2 (\<lambda>x ent. Verify pg buf x keyring = Inr ent) (x # sigs) ents \<and>
        distinct (map PrimaryKeyFingerprint ents) \<and>
        (\<forall>e\<in>set ents. HexEncode (PrimaryKeyFingerprint e) \<notin> set fpcache) \<and>
        r = n + int (length ents)"
    have "count_signatures pg keyring buf fpcache n (x # sigs) = Inr r \<longleftrightarrow>
        HexEncode (PrimaryKeyFingerprint ent) \<notin> set fpcache \<and> (\<exists>ents. ?P ents)"
      using Inr Cons.IH [of "fpcache @ [HexEncode (PrimaryKeyFingerprint ent)]" "n + 1"]
      by (simp add: Let_def)
    also have "\<dots> \<longleftrightarrow> (\<exists>ents. HexEncode (PrimaryKeyFingerprint ent) \<notin> set fpcache \<and> ?P ents)"
      by blast
    also have "\<dots> \<longleftrightarrow> (\<exists>ents. ?Q (ent # ents))"
      by (rule arg_cong [where f = Ex], rule ext)
        (auto simp: inj Inr, metis image_eqI)
    also have "\<dots> \<longleftrightarrow> (\<exists>ents. ?Q ents)"
    proof
      assume "\<exists>ents. ?Q ents"
      then obtain ents where q: "?Q ents" by blast
      then obtain ents' where "ents = ent # ents'" using Inr by (auto simp: list_all2_Cons1)
      with q show "\<exists>ents. ?Q (ent # ents)" by blast
    qed blast
    finally show ?thesis .
  qed
qed

lemma VerifyResponse_Inr:
  "fst (VerifyResponse env pg keyring m) = Inr n \<longleftrightarrow>
     (\<exists>buf ents. json_Response env (m\<lparr>mresp_Signatures := [], mresp_LoaderName := []\<rparr>) = Inr buf \<and>
        list_all2 (\<lambda>x ent. Verify pg buf x keyring = Inr ent) (mresp_Signatures m) ents \<and>
        distinct (map PrimaryKeyFingerprint ents) \<and> n = int (length ents))"
  by (auto simp: VerifyResponse_def Let_def count_signatures_eq split: sum.splits)

lemma response_entries_acc:
  "response_entries env ents ts =
     (case response_entries env [] ts of Inl e \<Rightarrow> Inl e | Inr es \<Rightarrow> Inr (ents @ es))"
proof (induction ts arbitrary: ents)
  case Nil
  then show ?case by simp
next
  case (Cons t ts)
  show ?case
  proof (cases t)
    case (TarError e)
    then show ?thesis by simp
  next
    case (TarHeader nm is_reg rs)
    show ?thesis
    proof (cases "is_reg \<and> is_ok (read_loop [] rs)")
      case True
      then obtain c where "read_loop [] rs = Inr c" by (auto simp: is_ok_iff)
      then show ?thesis
        using True TarHeader Cons.IH [of "ents @ [_]"] Cons.IH [of "[_]"]
        by (simp split: sum.splits)
    next
      case False
      then show ?thesis
        using TarHeader Cons.IH [of ents] by (cases "read_loop [] rs") auto
    qed
  qed
qed

text \<open>The first entry of a given name, as the loader looks it up.\<close>

definition first_entry :: "string \<Rightarrow> manifest_entry list \<Rightarrow> manifest_entry option" where
  "first_entry nm es = find (\<lambda>x. me_Name x = nm) es"

lemma find_object_entry:
  assumes "find_object env obj ts = Inr gz" "response_entries env [] ts = Inr es"
  shows "\<exists>content. gz = gzip_bytes env content \<and>
    first_entry obj es = Some \<lparr>me_Name = obj, me_SHA256 = sha256_hex env content\<rparr>"
  using assms
proof (induction ts arbitrary: es)
  case Nil
  then show ?case by simp
next
  case (Cons t ts)
  then obtain nm is_reg rs where t: "t = TarHeader nm is_reg rs"
    by (cases t) auto
  show ?case
  proof (cases is_reg)
    case False
    with Cons t show ?thesis by simp
  next
    case True
    with Cons.prems(2) t obtain c where c: "read_loop [] rs = Inr c"
      by (auto split: sum.splits)
    let ?e = "\<lparr>me_Name = path_Split_file nm, me_SHA256 = sha256_hex env c\<rparr>"
    have "response_entries env [?e] ts = Inr es"
      using Cons.prems(2) t True c by simp
    then obtain es' where es: "es = ?e # es'" "response_entries env [] ts = Inr es'"
      by (subst (asm) response_entries_acc) (auto split: sum.splits)
    show ?thesis
    proof (cases "path_Split_file nm = obj")
      case True
      with \<open>is_reg\<close> Cons.prems(1) t c es show ?thesis by (auto simp: first_entry_def)
    next
      case False
      with \<open>is_reg\<close> Cons.prems(1) t have "find_object env obj ts = Inr gz" by simp
      from Cons.IH [OF this es(2)] False es(1) show ?thesis by (simp add: first_entry_def)
    qed
  qed
qed

section \<open>Enough signatures from distinct keys\<close>

text \<open>
  The loader accepts a manifest when \<open>VerifyResponse\<close> counts at least the required number: a quorum
  in which every key weighs 1 and a repeated key is refused. The keys are those of the signatures
  of one response, whose verification the rest of the context fixes.
\<close>

fun count_unique :: "byte8 list list \<Rightarrow> byte8 list list \<Rightarrow> int \<Rightarrow> int option" where
  "count_unique seen [] n = Some n"
| "count_unique seen (fp # fps) n =
     (if fp \<in> set seen then None else count_unique (seen @ [fp]) fps (n + 1))"

lemma count_unique_eq:
  "count_unique seen fps n =
     (if distinct fps \<and> set fps \<inter> set seen = {} then Some (n + int (length fps)) else None)"
  by (induction seen fps n rule: count_unique.induct) auto

definition required_accept :: "int \<Rightarrow> byte8 list list \<Rightarrow> bool" where
  "required_accept required fps =
     (case count_unique [] fps 0 of None \<Rightarrow> False | Some cnt \<Rightarrow> \<not> cnt < required)"

interpretation manifest: quorum "\<lambda>required. 0 < required" required_accept "\<lambda>_ _. 1" "\<lambda>required. required" "\<lambda>x. x"
  by unfold_locales (auto simp: required_accept_def count_unique_eq sum_list_triv)

lemma count_signatures_unique:
  assumes "list_all2 (\<lambda>x ent. Verify pg buf x keyring = Inr ent) sigs ents"
  shows "count_signatures pg keyring buf [] 0 sigs =
     (case count_unique [] (map PrimaryKeyFingerprint ents) 0 of
        None \<Rightarrow> count_signatures pg keyring buf [] 0 sigs | Some n \<Rightarrow> Inr n)"
  using assms by (auto simp: count_unique_eq count_signatures_eq dest: list_all2_lengthD split: option.splits)

section \<open>Properties\<close>

text \<open>
  A manifest that enough people signed verifies: the bytes that the loader checks in the response
  the API builds (with the loader's name and the stored signatures filled in) are the bytes that
  \<open>ManifestRecord_Sign\<close> signed, so with signing keys that are distinct and known to the keyring every
  signature counts.
\<close>

theorem signed_manifest_verifies:
  assumes "toManifestResponse env m = Inr me"
    and "\<forall>(keyid, sig)\<in>set signers. ManifestRecord_Sign env keyid secring m = Inr sig"
    and "\<forall>data keyid sig. pgp_Sign env data keyid secring = Inr sig \<longrightarrow>
           Verify pg data sig keyring = Inr (key keyid)"
    and "distinct (map (\<lambda>(keyid, sig). PrimaryKeyFingerprint (key keyid)) signers)"
    and "signers \<noteq> []"
  shows "fst (VerifyResponse env pg keyring
           (me\<lparr>mresp_LoaderName := loader, mresp_Signatures := map snd signers\<rparr>))
         = Inr (int (length signers))"
proof -
  have name: "mresp_LoaderName me = []"
    using assms(1) by (auto simp: toManifestResponse_def split: if_splits sum.splits)
  have signed: "\<exists>buf. json_Response env (me\<lparr>mresp_Signatures := []\<rparr>) = Inr buf \<and>
      pgp_Sign env buf keyid secring = Inr sig" if "(keyid, sig) \<in> set signers" for keyid sig
    using that assms(1,2) by (fastforce simp: ManifestRecord_Sign_def split: sum.splits)
  obtain keyid sig where "(keyid, sig) \<in> set signers"
    using assms(5) by (metis list.set_intros(1) neq_Nil_conv surj_pair)
  from signed [OF this] obtain buf
    where buf: "json_Response env (me\<lparr>mresp_Signatures := []\<rparr>) = Inr buf" by blast
  have ver: "\<forall>(keyid, sig)\<in>set signers. Verify pg buf sig keyring = Inr (key keyid)"
    using signed assms(3) buf by fastforce
  have bytes: "json_Response env (me\<lparr>mresp_LoaderName := loader, mresp_Signatures := map snd signers,
      mresp_Signatures := [], mresp_LoaderName := []\<rparr>) = Inr buf"
    using buf name by (cases me) simp
  have "list_all2 (\<lambda>x ent. Verify pg buf x keyring = Inr ent) (map snd signers) (map (key \<circ> fst) signers)"
    using ver by (auto simp: list_all2_conv_all_nth dest: nth_mem)
  moreover have "distinct (map PrimaryKeyFingerprint (map (key \<circ> fst) signers))"
    using assms(4) by (simp add: case_prod_unfold comp_def)
  ultimately show ?thesis
    unfolding VerifyResponse_Inr using bytes
    by (intro exI [of _ buf] exI [of _ "map (key \<circ> fst) signers"]) simp
qed

definition example_env :: manifest_env where
  "example_env = \<lparr>tar_Open = (\<lambda>s. Inr [TarHeader ''dir/mig-agent'' True [(s, RNil), ([], REOF)]]),
     sha256_hex = rev, gzip_bytes = (\<lambda>s. CHR ''z'' # s),
     json_Response = (\<lambda>r. Inr (concat (map me_SHA256 (mresp_Entries r)))),
     pgp_Sign = (\<lambda>data keyid secring. Inr (keyid @ ''=''))\<rparr>"

definition example_manifest :: manifest_record where
  "example_manifest = \<lparr>mr_ID = 1, mr_Name = ''m'', mr_Content = ''tgz'', mr_Timestamp = 0,
     mr_Status = ''staged'', mr_Target = ''true'', mr_Signatures = []\<rparr>"

definition example_response :: manifest_response where
  "example_response = \<lparr>mresp_LoaderName = [],
     mresp_Entries = [\<lparr>me_Name = ''mig-agent'', me_SHA256 = ''zgt''\<rparr>], mresp_Signatures = []\<rparr>"

lemma example_toManifestResponse: "toManifestResponse example_env example_manifest = Inr example_response"
  by (simp add: toManifestResponse_def example_manifest_def example_env_def example_response_def
      path_Split_file_def)

text \<open>A library under which the signature of a key verifies, to the entity with that key's name.\<close>

definition signing_pg :: "string openpgp" where
  "signing_pg = \<lparr>armor_Decode = (\<lambda>s. Inr (''PGP SIGNATURE'', s)), ReadKeyRing = Inr,
     CheckDetachedSignature = (\<lambda>_ _ sig. Inr \<lparr>PrimaryKeyFingerprint = map (\<lambda>c. word_of_nat (byte c)) sig,
        HasPrivateKey = False\<rparr>),
     ReadArmoredKeyRing = (\<lambda>s. Inr []), Serialize = (\<lambda>e. Inr []), SerializePrivate = (\<lambda>e. Inr []),
     armor_Encode = Inr\<rparr>"

definition signing_key :: "string \<Rightarrow> entity" where
  "signing_key keyid = \<lparr>PrimaryKeyFingerprint =
     map (\<lambda>c. word_of_nat (byte c)) (reArmorSignature (keyid @ ''='')), HasPrivateKey = False\<rparr>"

theorem signed_manifest_verifies_witness:
  "fst (VerifyResponse example_env signing_pg ''ring''
     (example_response\<lparr>mresp_LoaderName := ''loader'', mresp_Signatures := [''a='', ''b='']\<rparr>)) = Inr 2"
proof -
  let ?signers = "[(''a'', ''a=''), (''b'', ''b='')]"
  have sign: "\<forall>(keyid, sig)\<in>set ?signers. ManifestRecord_Sign example_env keyid ''sec'' example_manifest = Inr sig"
    using example_toManifestResponse
    by (simp add: ManifestRecord_Sign_def) (simp add: example_env_def)
  have lib: "\<forall>data keyid sig. pgp_Sign example_env data keyid ''sec'' = Inr sig \<longrightarrow>
      Verify signing_pg data sig ''ring'' = Inr (signing_key keyid)"
    by (simp add: example_env_def Verify_def signing_pg_def signing_key_def)
  have keys: "distinct (map (\<lambda>(keyid, sig). PrimaryKeyFingerprint (signing_key keyid)) ?signers)"
    by (simp add: signing_key_def reArmorSignature_def armor_lines.simps)
  have "fst (VerifyResponse example_env signing_pg ''ring''
      (example_response\<lparr>mresp_LoaderName := ''loader'', mresp_Signatures := map snd ?signers\<rparr>))
      = Inr (int (length ?signers))"
    by (rule signed_manifest_verifies [OF example_toManifestResponse sign lib keys]) simp
  then show ?thesis by simp
qed

text \<open>
  What the API serves matches what it announces: the object it extracts for a name is the content
  whose SHA-256 the response gives in its first entry of that name, the entry the loader compares.
\<close>

theorem ManifestObject_matches_entry:
  assumes "toManifestResponse env m = Inr resp" and "ManifestObject env m obj = Inr gz"
  shows "\<exists>content. gz = gzip_bytes env content \<and>
     first_entry obj (mresp_Entries resp) = Some \<lparr>me_Name = obj, me_SHA256 = sha256_hex env content\<rparr>"
  using assms
  by (auto simp: toManifestResponse_def ManifestObject_def intro: find_object_entry
      split: if_splits sum.splits)

theorem ManifestObject_matches_entry_witness:
  "\<exists>content. ''ztgz'' = gzip_bytes example_env content \<and>
     me_SHA256 (hd (mresp_Entries example_response)) = sha256_hex example_env content"
proof -
  have "ManifestObject example_env example_manifest ''mig-agent'' = Inr ''ztgz''"
    by (simp add: ManifestObject_def example_env_def example_manifest_def path_Split_file_def)
  from ManifestObject_matches_entry [OF example_toManifestResponse this] show ?thesis
    by (auto simp: example_response_def first_entry_def)
qed

text \<open>
  A manifest response is counted as signed by \<open>n\<close> keys exactly when every signature in it verifies
  over the response without its signatures and loader name, the keys are pairwise different, and
  there are \<open>n\<close> of them. One signature that fails, or one key that signed twice, makes the count an
  error.
\<close>

theorem VerifyResponse_iff:
  "fst (VerifyResponse env pg keyring m) = Inr n \<longleftrightarrow>
     (\<exists>buf ents. json_Response env (m\<lparr>mresp_Signatures := [], mresp_LoaderName := []\<rparr>) = Inr buf \<and>
        list_all2 (\<lambda>x ent. Verify pg buf x keyring = Inr ent) (mresp_Signatures m) ents \<and>
        distinct (map PrimaryKeyFingerprint ents) \<and> n = int (length ents))"
  by (rule VerifyResponse_Inr)

text \<open>
  Bytes that a reader returns together with \<open>io.EOF\<close> are left out of the hash and of the extracted
  object: two archives whose only file differs in such a last chunk have the same manifest response,
  so that a signature on one is valid for the other.
\<close>

theorem read_loop_drops_last_chunk:
  assumes "list_all (\<lambda>(bs, st). st = RNil) rs"
  shows "read_loop [] (rs @ [(last_chunk, REOF)]) = Inr (concat (map fst rs))"
proof -
  have "read_loop acc (rs @ [(last_chunk, REOF)]) = Inr (acc @ concat (map fst rs))" for acc
    using assms by (induction acc rs rule: read_loop.induct) auto
  then show ?thesis by simp
qed

theorem read_loop_drops_last_chunk_witness:
  "read_loop [] ([(''abc'', RNil)] @ [(''def'', REOF)]) = Inr ''abc''"
  using read_loop_drops_last_chunk [of "[(''abc'', RNil)]" "''def''"] by simp

end
