(* ===== verification/Loader.thy ===== *)
theory Loader
  imports Manifests LoaderKeys
begin

text \<open>
  The loader (\<open>mig-loader/loader.go\<close>, \<open>config.go\<close>, \<open>context.go\<close>, \<open>agentops.go\<close>): it hashes the
  installed bundle, fetches a manifest, checks that enough known keys signed it, and replaces every
  file whose hash differs.

  The file system is a map from paths to files; the outcome of the system calls that may fail is
  given by a record \<open>os\<close>. In particular \<open>os_write\<close> says what a write of some bytes leaves on the
  disk, which need not be those bytes. The API is the function \<open>fetch\<close> from object names to the
  decompressed file that \<open>fetchFile\<close> returns. Log messages are left out.
\<close>

section \<open>The file system\<close>

record fs_file =
  f_Content :: string
  f_Mode :: file_mode

type_synonym disk = "string \<rightharpoonup> fs_file"

record os =
  umask :: file_mode
  os_open_error :: "string \<Rightarrow> go_error option"
  os_read_error :: "string \<Rightarrow> go_error option"
  os_create_error :: "string \<Rightarrow> go_error option"
  os_write :: "string \<Rightarrow> string \<Rightarrow> string \<times> go_error option"
  os_rename_error :: "string \<Rightarrow> string \<Rightarrow> go_error option"
  os_chmod_error :: "string \<Rightarrow> go_error option"

definition not_exist :: go_error where "not_exist = errors_New ''file does not exist''"

text \<open>\<open>os.OpenFile\<close> with \<open>O_CREATE|O_TRUNC|O_WRONLY\<close>: a file that exists keeps its mode.\<close>

definition open_create :: "os \<Rightarrow> string \<Rightarrow> file_mode \<Rightarrow> disk \<Rightarrow> disk result" where
  "open_create s p perm d =
     (case os_create_error s p of
        Some e \<Rightarrow> Inl e
      | None \<Rightarrow>
          Inr (d(p \<mapsto> (case d p of
                         Some f \<Rightarrow> f\<lparr>f_Content := []\<rparr>
                       | None \<Rightarrow> \<lparr>f_Content = [], f_Mode = and perm (not (umask s))\<rparr>))))"

definition write_file :: "os \<Rightarrow> string \<Rightarrow> string \<Rightarrow> disk \<Rightarrow> disk \<times> go_error option" where
  "write_file s p bs d =
     (let (written, e) = os_write s p bs
      in (d(p := map_option (\<lambda>f. f\<lparr>f_Content := written\<rparr>) (d p)), e))"

text \<open>Open a file and read it to the end.\<close>

definition read_file :: "os \<Rightarrow> string \<Rightarrow> disk \<Rightarrow> string result" where
  "read_file s p d =
     (case d p of
        None \<Rightarrow> Inl not_exist
      | Some f \<Rightarrow>
          (case os_open_error s p of
             Some e \<Rightarrow> Inl e
           | None \<Rightarrow> (case os_read_error s p of Some e \<Rightarrow> Inl e | None \<Rightarrow> Inr (f_Content f))))"

definition rename :: "os \<Rightarrow> string \<Rightarrow> string \<Rightarrow> disk \<Rightarrow> disk \<times> go_error option" where
  "rename s src dst d =
     (case d src of
        None \<Rightarrow> (d, Some not_exist)
      | Some f \<Rightarrow>
          (case os_rename_error s src dst of
             Some e \<Rightarrow> (d, Some e)
           | None \<Rightarrow> ((d(src := None))(dst \<mapsto> f), None)))"

section \<open>Hashing the bundle\<close>

fun HashBundle :: "os \<Rightarrow> (string \<Rightarrow> string) \<Rightarrow> disk \<Rightarrow> bundle_entry list \<Rightarrow> bundle_entry list result" where
  "HashBundle s sha d [] = Inr []"
| "HashBundle s sha d (x # b) =
     (case d (be_Path x) of
        None \<Rightarrow> (case HashBundle s sha d b of Inl e \<Rightarrow> Inl e | Inr r \<Rightarrow> Inr (x # r))
      | Some f \<Rightarrow>
          (case read_file s (be_Path x) d of
             Inl e \<Rightarrow> Inl e
           | Inr content \<Rightarrow>
               (case HashBundle s sha d b of
                  Inl e \<Rightarrow> Inl e
                | Inr r \<Rightarrow> Inr (x\<lparr>be_SHA256 := sha content\<rparr> # r))))"

definition initializeHaveBundle ::
  "os \<Rightarrow> (string \<Rightarrow> string) \<Rightarrow> string \<Rightarrow> disk \<Rightarrow> bundle_entry list result" where
  "initializeHaveBundle s sha goos d =
     recovered ''initializeHaveBundle''
       (case GetHostBundle goos of Inl e \<Rightarrow> Inl e | Inr b \<Rightarrow> HashBundle s sha d b)"

section \<open>Replacing a file\<close>

definition staged_path :: "bundle_entry \<Rightarrow> string" where
  "staged_path entry = be_Path entry @ ''.loader''"

definition old_path :: "bundle_entry \<Rightarrow> string" where
  "old_path entry = be_Path entry @ ''.old''"

text \<open>The panics of \<open>fetchAndReplace\<close>, with the disk as each leaves it.\<close>

definition replace_steps ::
  "os \<Rightarrow> (string \<Rightarrow> string) \<Rightarrow> (string \<Rightarrow> string result) \<Rightarrow> bundle_entry \<Rightarrow> string \<Rightarrow> disk \<Rightarrow>
     disk \<times> unit result" where
  "replace_steps s sha fetch entry sig d =
     (case fetch (be_Name entry) of
        Inl e \<Rightarrow> (d, Inl e)
      | Inr filebuf \<Rightarrow>
          (let reppath = staged_path entry; oldpath = old_path entry
           in (case open_create s reppath (be_Perm entry) d of
                 Inl e \<Rightarrow> (d, Inl e)
               | Inr d1 \<Rightarrow>
                   (case write_file s reppath filebuf d1 of
                      (d2, Some e) \<Rightarrow> (d2, Inl e)
                    | (d2, None) \<Rightarrow>
                        (case read_file s reppath d2 of
                           Inl e \<Rightarrow> (d2, Inl e)
                         | Inr staged \<Rightarrow>
                             if sig \<noteq> sha staged
                             then (d2, Inl (errors_New ''staged file signature mismatch''))
                             else (let d3 = fst (rename s (be_Path entry) oldpath d2)
                                   in (case rename s reppath (be_Path entry) d3 of
                                         (d4, Some e) \<Rightarrow> (d4, Inl e)
                                       | (d4, None) \<Rightarrow> (d4, Inr ()))))))))"

definition fetchAndReplace ::
  "os \<Rightarrow> (string \<Rightarrow> string) \<Rightarrow> (string \<Rightarrow> string result) \<Rightarrow> bundle_entry \<Rightarrow> string \<Rightarrow> disk \<Rightarrow>
     disk \<times> unit result" where
  "fetchAndReplace s sha fetch entry sig d =
     (let (d', r) = replace_steps s sha fetch entry sig d in (d', recovered ''fetchAndReplace'' r))"

definition entryPermCheck :: "os \<Rightarrow> bundle_entry \<Rightarrow> disk \<Rightarrow> disk \<times> unit result" where
  "entryPermCheck s entry d =
     (case d (be_Path entry) of
        None \<Rightarrow> (d, recovered ''entryPermCheck'' (Inl not_exist))
      | Some fi \<Rightarrow>
          if f_Mode fi \<noteq> be_Perm entry
          then (case os_chmod_error s (be_Path entry) of
                  Some e \<Rightarrow> (d, recovered ''entryPermCheck'' (Inl e))
                | None \<Rightarrow> (d(be_Path entry \<mapsto> fi\<lparr>f_Mode := be_Perm entry\<rparr>), Inr ()))
          else (d, Inr ()))"

section \<open>Comparing with the manifest\<close>

text \<open>The state that the comparison changes: the disk and the global \<open>haveChanges\<close>.\<close>

record loader_state =
  ls_Disk :: disk
  ls_HaveChanges :: bool

definition checkEntry ::
  "os \<Rightarrow> (string \<Rightarrow> string) \<Rightarrow> (string \<Rightarrow> string result) \<Rightarrow> manifest_entry list \<Rightarrow> bundle_entry \<Rightarrow>
     loader_state \<Rightarrow> loader_state \<times> unit result" where
  "checkEntry s sha fetch entries entry st =
     (case first_entry (be_Name entry) entries of
        None \<Rightarrow> (st, Inr ())
      | Some compare \<Rightarrow>
          if be_SHA256 entry = me_SHA256 compare
          then (let (d, r) = entryPermCheck s entry (ls_Disk st) in (st\<lparr>ls_Disk := d\<rparr>, r))
          else (let (d, r) = fetchAndReplace s sha fetch entry (me_SHA256 compare) (ls_Disk st)
                in (\<lparr>ls_Disk = d, ls_HaveChanges = True\<rparr>, recovered ''checkEntry'' r)))"

fun check_entries ::
  "os \<Rightarrow> (string \<Rightarrow> string) \<Rightarrow> (string \<Rightarrow> string result) \<Rightarrow> manifest_entry list \<Rightarrow> bundle_entry list \<Rightarrow>
     loader_state \<Rightarrow> loader_state \<times> unit result" where
  "check_entries s sha fetch entries [] st = (st, Inr ())"
| "check_entries s sha fetch entries (x # have) st =
     (case checkEntry s sha fetch entries x st of
        (st', Inl e) \<Rightarrow> (st', Inl e)
      | (st', Inr _) \<Rightarrow> check_entries s sha fetch entries have st')"

definition compareManifest ::
  "os \<Rightarrow> (string \<Rightarrow> string) \<Rightarrow> (string \<Rightarrow> string result) \<Rightarrow> manifest_entry list \<Rightarrow> bundle_entry list \<Rightarrow>
     loader_state \<Rightarrow> loader_state \<times> unit result" where
  "compareManifest s sha fetch entries have st =
     (let (st', r) = check_entries s sha fetch entries have st
      in (st', recovered ''compareManifest'' r))"

section \<open>Checking the manifest's signatures\<close>

definition checkManifestSignature ::
  "manifest_env \<Rightarrow> 'ring openpgp \<Rightarrow> int \<Rightarrow> string list \<Rightarrow> manifest_response \<Rightarrow>
     manifest_response \<times> unit result" where
  "checkManifestSignature env pg required keylist mr =
     (case ArmoredKeysToKeyring pg keylist of
        Inl e \<Rightarrow> (mr, recovered ''checkManifestSignature'' (Inl e))
      | Inr (keyring, _) \<Rightarrow>
          (case VerifyResponse env pg keyring mr of
             (r, mr') \<Rightarrow>
               (mr', recovered ''checkManifestSignature''
                  (case r of
                     Inl e \<Rightarrow> Inl e
                   | Inr cnt \<Rightarrow>
                       if cnt < required
                       then Inl (Errorf ''Not enough valid signatures (got %v, need %v), rejecting''
                                  [AInt cnt, AInt required])
                       else Inr ()))))"

text \<open>
  The tail of \<open>requestManifest\<close>, from the manifest in the API's answer: it becomes the global
  \<open>apiManifest\<close> before it is validated and its signatures are checked.
\<close>

definition acceptManifest ::
  "manifest_env \<Rightarrow> 'ring openpgp \<Rightarrow> int \<Rightarrow> string list \<Rightarrow> manifest_response result \<Rightarrow>
     manifest_response option \<times> unit result" where
  "acceptManifest env pg required keylist answer =
     (case answer of
        Inl e \<Rightarrow> (None, recovered ''requestManifest'' (Inl e))
      | Inr mf \<Rightarrow>
          (case ManifestResponse_Validate mf of
             Inl e \<Rightarrow> (Some mf, recovered ''requestManifest'' (Inl e))
           | Inr _ \<Rightarrow>
               (case checkManifestSignature env pg required keylist mf of (mf', r) \<Rightarrow> (Some mf', r))))"

text \<open>
  The part of \<open>main\<close> that updates the system: every error exits with status 1 before the next step.
\<close>

definition update_system ::
  "manifest_env \<Rightarrow> 'ring openpgp \<Rightarrow> int \<Rightarrow> string list \<Rightarrow> os \<Rightarrow> string \<Rightarrow> manifest_response result \<Rightarrow>
     (string \<Rightarrow> string result) \<Rightarrow> disk \<Rightarrow> loader_state \<times> unit result" where
  "update_system env pg required keylist s goos answer fetch d =
     (let st = \<lparr>ls_Disk = d, ls_HaveChanges = False\<rparr>
      in (case initializeHaveBundle s (sha256_hex env) goos d of
            Inl e \<Rightarrow> (st, Inl e)
          | Inr have \<Rightarrow>
              (case acceptManifest env pg required keylist answer of
                 (_, Inl e) \<Rightarrow> (st, Inl e)
               | (None, Inr _) \<Rightarrow> (st, Inr ())
               | (Some mf, Inr _) \<Rightarrow>
                   compareManifest s (sha256_hex env) fetch (mresp_Entries mf) have st)))"

section \<open>The loader key\<close>

fun Trim_left :: "char \<Rightarrow> string \<Rightarrow> string" where
  "Trim_left c [] = []"
| "Trim_left c (x # s) = (if x = c then Trim_left c s else x # s)"

definition Trim :: "string \<Rightarrow> char \<Rightarrow> string" where
  "Trim s c = rev (Trim_left c (rev (Trim_left c s)))"

text \<open>
  \<open>loadLoaderKey\<close>: the first line of the key file, when there is one, replaces the built-in key. The
  argument is what opening the file and reading its first line gave: no file or an empty one
  (\<open>Inr None\<close>), an error, or a line. The result is the global \<open>LOADERKEY\<close>, the key in the context, and
  the error.
\<close>

definition loadLoaderKey ::
  "string option result \<Rightarrow> string \<times> string \<Rightarrow> (string \<times> string) \<times> unit result" where
  "loadLoaderKey line keys =
     (case line of
        Inl e \<Rightarrow> (keys, Inl e)
      | Inr None \<Rightarrow> (keys, Inr ())
      | Inr (Some buf) \<Rightarrow>
          (let key = Trim buf CHR '' ''
           in (case ValidateLoaderPrefixAndKey key of
                 Inl e \<Rightarrow> ((key, snd keys), Inl e)
               | Inr _ \<Rightarrow> ((key, key), Inr ()))))"

section \<open>Configuration\<close>

record loader_config =
  lc_DiscoverPublicIP :: bool
  lc_DiscoverAWSMeta :: bool
  lc_Proxies :: string
  lc_Api :: string
  lc_Tags :: "string list"
  lc_RequiredSignatures :: int

record loader_globals =
  lg_DiscoverPublicIP :: bool
  lg_DiscoverAWSMeta :: bool
  lg_ApiURL :: string
  lg_Proxies :: "string list"
  lg_Tags :: "(string \<times> string) list"
  lg_RequiredSignatures :: int

definition stringPair :: "string \<Rightarrow> string \<times> string" where
  "stringPair pair =
     (let parts = Split pair CHR '':''
      in if length parts = 0 then ([], [])
         else (let key = Trim (parts ! 0) CHR '' ''
               in if length parts = 1 then (key, []) else (key, Trim (parts ! 1) CHR '' '')))"

fun add_tags :: "string list \<Rightarrow> (string \<times> string) list \<Rightarrow> (string \<times> string) list" where
  "add_tags [] tags = tags"
| "add_tags (t # ts) tags =
     (case stringPair t of (key, val) \<Rightarrow> add_tags ts (if key = [] then tags else al_set key val tags))"

text \<open>\<open>parseConfig\<close> and \<open>apply\<close>: the global settings after the configuration file is read.\<close>

definition parseConfig :: "loader_config \<Rightarrow> loader_globals \<Rightarrow> loader_globals" where
  "parseConfig c g =
     \<lparr>lg_DiscoverPublicIP = lc_DiscoverPublicIP c,
      lg_DiscoverAWSMeta = lc_DiscoverAWSMeta c,
      lg_ApiURL = lc_Api c,
      lg_Proxies = (if lc_Proxies c \<noteq> [] then Split (lc_Proxies c) CHR '','' else lg_Proxies g),
      lg_Tags = (if length (lc_Tags c) > 0 then add_tags (lc_Tags c) (lg_Tags g) else lg_Tags g),
      lg_RequiredSignatures =
        (if lc_RequiredSignatures c \<noteq> 0 then lc_RequiredSignatures c else lg_RequiredSignatures g)\<rparr>"

text \<open>
  \<open>initKeyring\<close>: the files of the key directory, read in order, replace the built-in keys; without
  the directory the built-in keys stay. A file that cannot be read leaves the keys before it.
\<close>

fun read_keys :: "string result list \<Rightarrow> string list \<Rightarrow> string list \<times> unit result" where
  "read_keys [] keys = (keys, Inr ())"
| "read_keys (Inl e # fs) keys = (keys, Inl e)"
| "read_keys (Inr buf # fs) keys = read_keys fs (keys @ [buf])"

definition initKeyring :: "string result list option \<Rightarrow> string list \<Rightarrow> string list \<times> unit result" where
  "initKeyring files keys =
     (case files of
        None \<Rightarrow> (keys, Inr ())
      | Some fs \<Rightarrow> (case read_keys fs [] of (ks, r) \<Rightarrow> (ks, recovered ''initKeyring'' r)))"

section \<open>The agent's commands\<close>

text \<open>
  \<open>agentops.go\<close> runs the installed agent with a flag; \<open>exec\<close> is the outcome of running a path with
  arguments. \<open>runTriggers\<close> ignores a failure to stop the old agent.
\<close>

definition agent_command ::
  "string \<Rightarrow> string list \<Rightarrow> string \<Rightarrow> (string \<Rightarrow> string list \<Rightarrow> go_error option) \<Rightarrow> unit result" where
  "agent_command fn args goos exec =
     recovered fn
       (case GetHostBundle goos of
          Inl e \<Rightarrow> Inl e
        | Inr hb \<Rightarrow>
            (case find (\<lambda>x. be_Name x = ''mig-agent'') hb of
               None \<Rightarrow> Inl (errors_New ''no agent entry in host bundle'')
             | Some abe \<Rightarrow> (case exec (be_Path abe) args of Some e \<Rightarrow> Inl e | None \<Rightarrow> Inr ())))"

definition terminateAgent where "terminateAgent = agent_command ''terminateAgent'' [''-q'', ''shutdown'']"
definition agentServices where "agentServices = agent_command ''agentServices'' [''-u'']"
definition agentRunning where "agentRunning = agent_command ''agentRunning'' [''-q'', ''pid'']"

definition runTriggers ::
  "string \<Rightarrow> (string \<Rightarrow> string list \<Rightarrow> go_error option) \<Rightarrow> unit result \<Rightarrow> unit result" where
  "runTriggers goos exec serviceTriggers =
     (let ignored = terminateAgent goos exec
      in recovered ''runTriggers''
           (case agentServices goos exec of Inl e \<Rightarrow> Inl e | Inr _ \<Rightarrow> serviceTriggers))"

definition finish_update ::
  "string \<Rightarrow> (string \<Rightarrow> string list \<Rightarrow> go_error option) \<Rightarrow> unit result \<Rightarrow> bool \<Rightarrow> unit result" where
  "finish_update goos exec serviceTriggers haveChanges =
     (if haveChanges then runTriggers goos exec serviceTriggers
      else (case agentRunning goos exec of
              Inl _ \<Rightarrow> runTriggers goos exec serviceTriggers
            | Inr _ \<Rightarrow> Inr ()))"

section \<open>Lemmas\<close>

lemma paths_differ [simp]:
  "staged_path x \<noteq> be_Path x" "old_path x \<noteq> be_Path x" "staged_path x \<noteq> old_path x"
  "be_Path x \<noteq> staged_path x" "be_Path x \<noteq> old_path x" "old_path x \<noteq> staged_path x"
  by (simp_all add: staged_path_def old_path_def)

lemma open_create_other: "open_create s p perm d = Inr d' \<Longrightarrow> q \<noteq> p \<Longrightarrow> d' q = d q"
  by (auto simp: open_create_def split: option.splits)

lemma write_file_other: "write_file s p bs d = (d', e) \<Longrightarrow> q \<noteq> p \<Longrightarrow> d' q = d q"
  by (auto simp: write_file_def split: prod.splits)

lemma rename_cases:
  assumes "rename s src dst d = (d', e)" "src \<noteq> dst"
  shows "d' = d \<and> e \<noteq> None \<or> (\<exists>f. d src = Some f \<and> d' = (d(src := None))(dst \<mapsto> f) \<and> e = None)"
  using assms by (auto simp: rename_def split: option.splits)

lemma read_file_Inr: "read_file s p d = Inr c \<Longrightarrow> \<exists>f. d p = Some f \<and> f_Content f = c"
  by (auto simp: read_file_def split: option.splits)

text \<open>The installed file after \<open>fetchAndReplace\<close>: untouched, moved away, or replaced as announced.\<close>

definition replaced_safely :: "(string \<Rightarrow> string) \<Rightarrow> bundle_entry \<Rightarrow> string \<Rightarrow> disk \<Rightarrow> disk \<Rightarrow> bool \<Rightarrow> bool" where
  "replaced_safely sha entry sig d d' ok \<longleftrightarrow>
     (if ok then (\<exists>f. d' (be_Path entry) = Some f \<and> sha (f_Content f) = sig)
      else d' (be_Path entry) = d (be_Path entry) \<or>
           d' (be_Path entry) = None \<and> d' (old_path entry) = d (be_Path entry))"

lemma swap_safe:
  assumes "d2 (staged_path entry) = Some f" "sha (f_Content f) = sig"
    and "rename s (staged_path entry) (be_Path entry)
           (fst (rename s (be_Path entry) (old_path entry) d2)) = (d4, e)"
  shows "replaced_safely sha entry sig d2 d4 (e = None) \<and>
    (\<forall>q. q \<notin> {be_Path entry, staged_path entry, old_path entry} \<longrightarrow> d4 q = d2 q)"
  using assms
  by (auto simp: rename_def replaced_safely_def split: option.splits if_splits) (metis option.exhaust)

lemma replace_steps_safe:
  assumes "replace_steps s sha fetch entry sig d = (d', r)"
  shows "replaced_safely sha entry sig d d' (is_ok r) \<and>
    (\<forall>q. q \<notin> {be_Path entry, staged_path entry, old_path entry} \<longrightarrow> d' q = d q)"
proof -
  consider (unchanged) "d' = d" "\<not> is_ok r"
    | (staged) d1 d2 e filebuf where "open_create s (staged_path entry) (be_Perm entry) d = Inr d1"
        "write_file s (staged_path entry) filebuf d1 = (d2, e)" "d' = d2" "\<not> is_ok r"
    | (swapped) d1 d2 e filebuf f where "open_create s (staged_path entry) (be_Perm entry) d = Inr d1"
        "write_file s (staged_path entry) filebuf d1 = (d2, None)"
        "d2 (staged_path entry) = Some f" "sha (f_Content f) = sig"
        "rename s (staged_path entry) (be_Path entry)
           (fst (rename s (be_Path entry) (old_path entry) d2)) = (d', e)"
        "is_ok r = (e = None)"
    using assms
    by (auto simp: replace_steps_def Let_def dest!: read_file_Inr
        split: sum.splits prod.splits option.splits if_splits)
  then show ?thesis
  proof cases
    case unchanged
    then show ?thesis by (simp add: replaced_safely_def)
  next
    case staged
    then have "d' q = d q" if "q \<noteq> staged_path entry" for q
      using that by (metis open_create_other write_file_other)
    with staged(4) show ?thesis by (simp add: replaced_safely_def)
  next
    case swapped
    then have "d2 q = d q" if "q \<noteq> staged_path entry" for q
      using that by (metis open_create_other write_file_other)
    with swap_safe [where sha = sha and sig = sig, OF swapped(3,4,5)] swapped(6) show ?thesis
      by (auto simp: replaced_safely_def)
  qed
qed

lemma fetchAndReplace_safe:
  assumes "fetchAndReplace s sha fetch entry sig d = (d', r)"
  shows "replaced_safely sha entry sig d d' (is_ok r)"
    "q \<notin> {be_Path entry, staged_path entry, old_path entry} \<Longrightarrow> d' q = d q"
proof -
  obtain r' where "replace_steps s sha fetch entry sig d = (d', r')" "r = recovered ''fetchAndReplace'' r'"
    using assms by (auto simp: fetchAndReplace_def split: prod.splits)
  with replace_steps_safe [OF this(1)]
  show "replaced_safely sha entry sig d d' (is_ok r)"
    "q \<notin> {be_Path entry, staged_path entry, old_path entry} \<Longrightarrow> d' q = d q" by auto
qed

section \<open>One pass over the bundle\<close>

definition family :: "bundle_entry \<Rightarrow> string list" where
  "family x = [be_Path x, staged_path x, old_path x]"

definition bundle_disjoint :: "bundle_entry list \<Rightarrow> bool" where
  "bundle_disjoint b \<longleftrightarrow> distinct (concat (map family b))"

lemma host_bundle_disjoint: "GetHostBundle goos = Inr b \<Longrightarrow> bundle_disjoint b"
  by (auto simp: GetHostBundle_def bundle_disjoint_def family_def staged_path_def old_path_def
      bundleEntryLinux_def bundleEntryDarwin_def bundleEntryWindows_def bde_def windows_path_def
      split: if_splits)

definition hashed :: "(string \<Rightarrow> string) \<Rightarrow> disk \<Rightarrow> bundle_entry \<Rightarrow> bool" where
  "hashed sha d x \<longleftrightarrow> (\<forall>f. d (be_Path x) = Some f \<longrightarrow> be_SHA256 x = sha (f_Content f))"

lemma HashBundle_hashed:
  "HashBundle s sha d b = Inr have \<Longrightarrow>
     list_all (hashed sha d) have \<and> map family have = map family b \<and>
     map (\<lambda>x. (be_Name x, be_Path x)) have = map (\<lambda>x. (be_Name x, be_Path x)) b"
  by (induction b arbitrary: "have")
    (auto simp: hashed_def family_def staged_path_def old_path_def dest!: read_file_Inr
      split: option.splits sum.splits)

text \<open>What a pass may do to one entry's file, and what it has done when it succeeds.\<close>

definition entry_safe ::
  "(string \<Rightarrow> string) \<Rightarrow> manifest_entry list \<Rightarrow> disk \<Rightarrow> disk \<Rightarrow> bundle_entry \<Rightarrow> bool" where
  "entry_safe sha entries d d' x \<longleftrightarrow>
     map_option f_Content (d' (be_Path x)) = map_option f_Content (d (be_Path x)) \<or>
     d' (be_Path x) = None \<and> d' (old_path x) = d (be_Path x) \<or>
     (\<exists>f c. d' (be_Path x) = Some f \<and> first_entry (be_Name x) entries = Some c \<and>
        sha (f_Content f) = me_SHA256 c)"

definition entry_installed :: "(string \<Rightarrow> string) \<Rightarrow> manifest_entry list \<Rightarrow> disk \<Rightarrow> bundle_entry \<Rightarrow> bool" where
  "entry_installed sha entries d' x \<longleftrightarrow>
     (\<forall>c. first_entry (be_Name x) entries = Some c \<longrightarrow>
        (\<exists>f. d' (be_Path x) = Some f \<and> sha (f_Content f) = me_SHA256 c))"

lemma entryPermCheck_effect:
  assumes "entryPermCheck s x d = (d', r)"
  shows "map_option f_Content (d' (be_Path x)) = map_option f_Content (d (be_Path x)) \<and>
    (is_ok r \<longrightarrow> d (be_Path x) \<noteq> None) \<and> (\<forall>q. q \<noteq> be_Path x \<longrightarrow> d' q = d q)"
  using assms by (auto simp: entryPermCheck_def split: option.splits if_splits)

lemma checkEntry_effect:
  assumes "checkEntry s sha fetch entries x st = (st', r)" "hashed sha (ls_Disk st) x"
  shows "entry_safe sha entries (ls_Disk st) (ls_Disk st') x"
    and "is_ok r \<Longrightarrow> entry_installed sha entries (ls_Disk st') x"
    and "q \<notin> set (family x) \<Longrightarrow> ls_Disk st' q = ls_Disk st q"
proof -
  consider (ignored) "first_entry (be_Name x) entries = None" "st' = st"
    | (perm) c d where "first_entry (be_Name x) entries = Some c" "be_SHA256 x = me_SHA256 c"
        "entryPermCheck s x (ls_Disk st) = (d, r)" "ls_Disk st' = d"
    | (fetched) c d r' where "first_entry (be_Name x) entries = Some c"
        "fetchAndReplace s sha fetch x (me_SHA256 c) (ls_Disk st) = (d, r')" "ls_Disk st' = d"
        "is_ok r = is_ok r'"
    using assms(1) by (auto simp: checkEntry_def split: option.splits if_splits prod.splits)
  then have "entry_safe sha entries (ls_Disk st) (ls_Disk st') x \<and>
      (is_ok r \<longrightarrow> entry_installed sha entries (ls_Disk st') x) \<and>
      (q \<notin> set (family x) \<longrightarrow> ls_Disk st' q = ls_Disk st q)"
  proof cases
    case ignored
    then show ?thesis by (simp add: entry_safe_def entry_installed_def)
  next
    case perm
    from entryPermCheck_effect [OF perm(3)] perm(1,2,4) assms(2) show ?thesis
      by (auto simp: entry_safe_def entry_installed_def hashed_def family_def map_option_eq_Some)
  next
    case fetched
    from fetchAndReplace_safe [OF fetched(2)] fetched(1,3,4) show ?thesis
      by (auto simp: replaced_safely_def entry_safe_def entry_installed_def family_def split: if_splits)
  qed
  then show "entry_safe sha entries (ls_Disk st) (ls_Disk st') x"
    "is_ok r \<Longrightarrow> entry_installed sha entries (ls_Disk st') x"
    "q \<notin> set (family x) \<Longrightarrow> ls_Disk st' q = ls_Disk st q" by blast+
qed

lemma check_entries_effect:
  assumes "check_entries s sha fetch entries have st = (st', r)"
    and "list_all (hashed sha (ls_Disk st)) have" "bundle_disjoint have"
  shows "(\<forall>x\<in>set have. entry_safe sha entries (ls_Disk st) (ls_Disk st') x) \<and>
    (is_ok r \<longrightarrow> (\<forall>x\<in>set have. entry_installed sha entries (ls_Disk st') x)) \<and>
    (\<forall>q. q \<notin> set (concat (map family have)) \<longrightarrow> ls_Disk st' q = ls_Disk st q)"
  using assms
proof (induction "have" arbitrary: st)
  case Nil
  then show ?case by simp
next
  case (Cons x xs)
  obtain st1 r1 where step: "checkEntry s sha fetch entries x st = (st1, r1)"
    by (cases "checkEntry s sha fetch entries x st")
  have hx: "hashed sha (ls_Disk st) x" using Cons.prems(2) by simp
  note eff = checkEntry_effect [OF step hx]
  have disj: "set (family x) \<inter> set (concat (map family xs)) = {}" and "bundle_disjoint xs"
    using Cons.prems(3) by (auto simp: bundle_disjoint_def)
  have other: "set (family y) \<inter> set (family x) = {}" if "y \<in> set xs" for y
    using disj that by auto
  have same: "ls_Disk st1 q = ls_Disk st q" if "y \<in> set xs" "q \<in> set (family y)" for y q
    using eff(3) other that by blast
  have mem: "be_Path y \<in> set (family y)" "old_path y \<in> set (family y)" for y
    by (simp_all add: family_def)
  have h: "list_all (hashed sha (ls_Disk st1)) xs"
    using Cons.prems(2) same mem by (simp add: list_all_iff hashed_def)
  show ?case
  proof (cases r1)
    case (Inl e)
    with Cons.prems(1) step have "st' = st1" "\<not> is_ok r" by auto
    with eff same mem show ?thesis by (auto simp: entry_safe_def)
  next
    case (Inr u)
    with Cons.prems(1) step have "check_entries s sha fetch entries xs st1 = (st', r)" by simp
    note IH = Cons.IH [OF this h \<open>bundle_disjoint xs\<close>]
    have x_kept: "ls_Disk st' q = ls_Disk st1 q" if "q \<in> set (family x)" for q
      using IH disj that by blast
    have "entry_safe sha entries (ls_Disk st) (ls_Disk st') x"
      using eff(1) x_kept mem by (simp add: entry_safe_def)
    moreover have "entry_installed sha entries (ls_Disk st') x"
      using eff(2) Inr x_kept mem by (simp add: entry_installed_def)
    moreover have "entry_safe sha entries (ls_Disk st) (ls_Disk st') y" if "y \<in> set xs" for y
      using IH that same mem by (simp add: entry_safe_def)
    moreover have "ls_Disk st' q = ls_Disk st q" if "q \<notin> set (concat (map family (x # xs)))" for q
      using IH eff(3) that by simp
    ultimately show ?thesis using IH by auto
  qed
qed

lemma compareManifest_effect:
  assumes "compareManifest s sha fetch entries have st = (st', r)"
    and "list_all (hashed sha (ls_Disk st)) have" "bundle_disjoint have"
  shows "(\<forall>x\<in>set have. entry_safe sha entries (ls_Disk st) (ls_Disk st') x) \<and>
    (is_ok r \<longrightarrow> (\<forall>x\<in>set have. entry_installed sha entries (ls_Disk st') x)) \<and>
    (\<forall>q. q \<notin> set (concat (map family have)) \<longrightarrow> ls_Disk st' q = ls_Disk st q)"
proof -
  obtain r' where "check_entries s sha fetch entries have st = (st', r')" "is_ok r = is_ok r'"
    using assms(1) by (auto simp: compareManifest_def split: prod.splits)
  with check_entries_effect [OF this(1) assms(2,3)] show ?thesis by simp
qed

lemma initializeHaveBundle_Inr:
  assumes "initializeHaveBundle s sha goos d = Inr have"
  shows "list_all (hashed sha d) have" "bundle_disjoint have"
    "\<exists>b. GetHostBundle goos = Inr b \<and> map family have = map family b \<and>
       map (\<lambda>x. (be_Name x, be_Path x)) have = map (\<lambda>x. (be_Name x, be_Path x)) b"
proof -
  obtain b where b: "GetHostBundle goos = Inr b" "HashBundle s sha d b = Inr have"
    using assms by (auto simp: initializeHaveBundle_def split: sum.splits)
  note h = HashBundle_hashed [OF b(2)]
  from h show "list_all (hashed sha d) have" by blast
  from h host_bundle_disjoint [OF b(1)] show "bundle_disjoint have" by (simp add: bundle_disjoint_def)
  from h b(1) show "\<exists>b. GetHostBundle goos = Inr b \<and> map family have = map family b \<and>
      map (\<lambda>x. (be_Name x, be_Path x)) have = map (\<lambda>x. (be_Name x, be_Path x)) b" by blast
qed

text \<open>A manifest that the loader acts on: complete, with enough signatures from distinct known keys.\<close>

definition manifest_trusted ::
  "manifest_env \<Rightarrow> 'ring openpgp \<Rightarrow> int \<Rightarrow> string list \<Rightarrow> manifest_response \<Rightarrow> bool" where
  "manifest_trusted env pg required keylist mf \<longleftrightarrow>
     mresp_LoaderName mf \<noteq> [] \<and>
     (\<exists>keyring n buf ents. ArmoredKeysToKeyring pg keylist = Inr (keyring, n) \<and>
        json_Response env (mf\<lparr>mresp_Signatures := [], mresp_LoaderName := []\<rparr>) = Inr buf \<and>
        list_all2 (\<lambda>sig ent. Verify pg buf sig keyring = Inr ent) (mresp_Signatures mf) ents \<and>
        distinct (map PrimaryKeyFingerprint ents) \<and> required \<le> int (length ents))"

lemma acceptManifest_Inr:
  assumes "acceptManifest env pg required keylist answer = (mf', Inr ())"
  shows "\<exists>mf. answer = Inr mf \<and> manifest_trusted env pg required keylist mf \<and>
     mf' = Some (mf\<lparr>mresp_Signatures := []\<rparr>)"
proof -
  obtain mf where mf: "answer = Inr mf" "mresp_LoaderName mf \<noteq> []"
    and check: "checkManifestSignature env pg required keylist mf = (the mf', Inr ())" "mf' \<noteq> None"
    using assms
    by (auto simp: acceptManifest_def ManifestResponse_Validate_def split: sum.splits if_splits prod.splits)
  then obtain keyring n cnt where ring: "ArmoredKeysToKeyring pg keylist = Inr (keyring, n)"
    and cnt: "fst (VerifyResponse env pg keyring mf) = Inr cnt" "required \<le> cnt"
    and m: "the mf' = snd (VerifyResponse env pg keyring mf)"
    by (auto simp: checkManifestSignature_def split: sum.splits prod.splits if_splits)
  from cnt(1) obtain buf ents where
    "json_Response env (mf\<lparr>mresp_Signatures := [], mresp_LoaderName := []\<rparr>) = Inr buf"
    "list_all2 (\<lambda>sig ent. Verify pg buf sig keyring = Inr ent) (mresp_Signatures mf) ents"
    "distinct (map PrimaryKeyFingerprint ents)" "cnt = int (length ents)"
    unfolding VerifyResponse_Inr by blast
  with mf ring cnt(2) m check(2) show ?thesis
    by (auto simp: manifest_trusted_def VerifyResponse_def Let_def)
qed

text \<open>An entry with its hash has the name and the path of the entry it comes from.\<close>

lemma same_entry:
  assumes "map (\<lambda>x. (be_Name x, be_Path x)) have = map (\<lambda>x. (be_Name x, be_Path x)) b" "x \<in> set b"
  obtains y where "y \<in> set have" "be_Name y = be_Name x" "be_Path y = be_Path x"
proof -
  have "(be_Name x, be_Path x) \<in> set (map (\<lambda>x. (be_Name x, be_Path x)) have)"
    unfolding assms(1) using assms(2) by force
  with that show thesis by auto
qed

lemma same_entry_safe:
  "be_Name y = be_Name x \<Longrightarrow> be_Path y = be_Path x \<Longrightarrow>
     entry_safe sha entries d d' y = entry_safe sha entries d d' x"
  "be_Name y = be_Name x \<Longrightarrow> be_Path y = be_Path x \<Longrightarrow>
     entry_installed sha entries d' y = entry_installed sha entries d' x"
  by (simp_all add: entry_safe_def entry_installed_def old_path_def)

lemma update_system_compare:
  assumes "update_system env pg required keylist s goos answer fetch d = (st', r)"
  shows "(ls_Disk st' = d \<and> \<not> is_ok r) \<or>
    (\<exists>mf b. answer = Inr mf \<and> manifest_trusted env pg required keylist mf \<and> GetHostBundle goos = Inr b \<and>
       (\<forall>x\<in>set b. entry_safe (sha256_hex env) (mresp_Entries mf) d (ls_Disk st') x) \<and>
       (is_ok r \<longrightarrow> (\<forall>x\<in>set b. entry_installed (sha256_hex env) (mresp_Entries mf) (ls_Disk st') x)) \<and>
       (\<forall>q. q \<notin> set (concat (map family b)) \<longrightarrow> ls_Disk st' q = d q))"
proof (cases "initializeHaveBundle s (sha256_hex env) goos d")
  case (Inl e)
  with assms show ?thesis by (auto simp: update_system_def Let_def)
next
  case (Inr "have")
  note init = initializeHaveBundle_Inr [OF Inr]
  obtain mf' r' where acc: "acceptManifest env pg required keylist answer = (mf', r')"
    by (cases "acceptManifest env pg required keylist answer")
  show ?thesis
  proof (cases r')
    case (Inl e)
    with assms acc \<open>initializeHaveBundle _ _ _ _ = Inr have\<close> show ?thesis
      by (auto simp: update_system_def Let_def split: option.splits)
  next
    case (Inr u)
    with acc obtain mf where mf: "answer = Inr mf" "manifest_trusted env pg required keylist mf"
      and mf': "mf' = Some (mf\<lparr>mresp_Signatures := []\<rparr>)"
      using acceptManifest_Inr by fastforce
    define st where "st = \<lparr>ls_Disk = d, ls_HaveChanges = False\<rparr>"
    have "compareManifest s (sha256_hex env) fetch (mresp_Entries mf) have st = (st', r)"
      using assms acc Inr mf' \<open>initializeHaveBundle _ _ _ _ = Inr have\<close>
      by (simp add: update_system_def Let_def st_def)
    from compareManifest_effect [OF this] init(1,2)
    have eff: "\<forall>x\<in>set have. entry_safe (sha256_hex env) (mresp_Entries mf) d (ls_Disk st') x"
      "is_ok r \<longrightarrow> (\<forall>x\<in>set have. entry_installed (sha256_hex env) (mresp_Entries mf) (ls_Disk st') x)"
      "\<forall>q. q \<notin> set (concat (map family have)) \<longrightarrow> ls_Disk st' q = d q"
      by (simp_all add: st_def)
    obtain b where b: "GetHostBundle goos = Inr b" "map family have = map family b"
      "map (\<lambda>x. (be_Name x, be_Path x)) have = map (\<lambda>x. (be_Name x, be_Path x)) b"
      using init(3) by blast
    have "entry_safe (sha256_hex env) (mresp_Entries mf) d (ls_Disk st') x"
      "is_ok r \<longrightarrow> entry_installed (sha256_hex env) (mresp_Entries mf) (ls_Disk st') x"
      if "x \<in> set b" for x
      using same_entry [OF b(3) that] eff(1,2) same_entry_safe by metis+
    with mf b(1) eff(3) b(2) show ?thesis by metis
  qed
qed

section \<open>Properties\<close>

text \<open>
  C1. The loader never installs an unannounced file. However the run ends, even half-way through a
  failing system call: if no manifest with the required number of valid signatures from distinct
  known keys was received, the disk is unchanged; otherwise every installed file either has its old
  content, or was moved to its \<open>.old\<close> name, or has exactly the SHA-256 that the signed manifest gives
  for it, and no path outside the bundle's own (with \<open>.loader\<close> and \<open>.old\<close>) is touched.
\<close>

theorem update_system_safe:
  assumes "update_system env pg required keylist s goos answer fetch d = (st', r)"
  shows "ls_Disk st' = d \<or>
    (\<exists>mf b. answer = Inr mf \<and> manifest_trusted env pg required keylist mf \<and> GetHostBundle goos = Inr b \<and>
       (\<forall>x\<in>set b. entry_safe (sha256_hex env) (mresp_Entries mf) d (ls_Disk st') x) \<and>
       (\<forall>q. q \<notin> set (concat (map family b)) \<longrightarrow> ls_Disk st' q = d q))"
  using update_system_compare [OF assms] by blast

definition example_os :: os where
  "example_os = \<lparr>umask = 18, os_open_error = (\<lambda>_. None), os_read_error = (\<lambda>_. None),
     os_create_error = (\<lambda>_. None), os_write = (\<lambda>_ bs. (bs, None)),
     os_rename_error = (\<lambda>_ _. None), os_chmod_error = (\<lambda>_. None)\<rparr>"

definition example_answer :: "manifest_response result" where
  "example_answer = Inr (example_response\<lparr>mresp_LoaderName := ''l'', mresp_Signatures := [''a='']\<rparr>)"

definition example_fetch :: "string \<Rightarrow> string result" where "example_fetch nm = Inr ''tgz''"

lemma example_have:
  "initializeHaveBundle example_os (sha256_hex example_env) ''linux'' (\<lambda>_. None) = Inr bundleEntryLinux"
  by (simp add: initializeHaveBundle_def GetHostBundle_def bundleEntryLinux_def bde_def)

lemma example_accepted:
  "acceptManifest example_env signing_pg 1 [] example_answer =
     (Some (example_response\<lparr>mresp_LoaderName := ''l'', mresp_Signatures := []\<rparr>), Inr ())"
  by (simp add: acceptManifest_def example_answer_def ManifestResponse_Validate_def example_response_def
      checkManifestSignature_def ArmoredKeysToKeyring_def VerifyResponse_def Let_def example_env_def
      Verify_def signing_pg_def)

lemma example_run:
  "snd (update_system example_env signing_pg 1 [] example_os ''linux'' example_answer example_fetch
     (\<lambda>_. None)) = Inr ()"
  unfolding update_system_def Let_def example_have example_accepted
  by (simp add: compareManifest_def bundleEntryLinux_def bde_def checkEntry_def first_entry_def
      example_response_def fetchAndReplace_def replace_steps_def example_fetch_def open_create_def
      write_file_def read_file_def rename_def example_os_def example_env_def Let_def
      staged_path_def old_path_def)

theorem update_system_safe_witness:
  "ls_Disk (fst (update_system example_env signing_pg 1 [] example_os ''linux'' example_answer
     example_fetch (\<lambda>_. None))) ''/etc/passwd'' = None"
proof -
  have other: "''/etc/passwd'' \<notin> set (concat (map family bundleEntryLinux))"
    by (simp add: bundleEntryLinux_def bde_def family_def staged_path_def old_path_def)
  obtain st' r where run: "update_system example_env signing_pg 1 [] example_os ''linux'' example_answer
      example_fetch (\<lambda>_. None) = (st', r)" by (rule prod.exhaust)
  have "GetHostBundle ''linux'' = Inr bundleEntryLinux" by (simp add: GetHostBundle_def)
  with update_system_safe [OF run] other have "ls_Disk st' ''/etc/passwd'' = None" by auto
  with run show ?thesis by simp
qed

text \<open>
  A run of the loader that succeeds has installed the manifest: every file of the host's bundle
  that the signed manifest names exists with the SHA-256 the manifest gives, whether it was there
  before or was fetched.
\<close>

theorem update_system_installs:
  assumes "update_system env pg required keylist s goos answer fetch d = (st', Inr ())"
  shows "\<exists>mf b. answer = Inr mf \<and> manifest_trusted env pg required keylist mf \<and> GetHostBundle goos = Inr b \<and>
    (\<forall>x\<in>set b. \<forall>c. first_entry (be_Name x) (mresp_Entries mf) = Some c \<longrightarrow>
       (\<exists>f. ls_Disk st' (be_Path x) = Some f \<and> sha256_hex env (f_Content f) = me_SHA256 c))"
  using update_system_compare [OF assms] unfolding entry_installed_def by auto

theorem update_system_installs_witness:
  "\<exists>f. ls_Disk (fst (update_system example_env signing_pg 1 [] example_os ''linux'' example_answer
     example_fetch (\<lambda>_. None))) ''/sbin/mig-agent'' = Some f \<and> rev (f_Content f) = ''zgt''"
proof -
  obtain st' where "update_system example_env signing_pg 1 [] example_os ''linux'' example_answer
      example_fetch (\<lambda>_. None) = (st', Inr ())"
    using example_run by (metis prod.collapse)
  from update_system_installs [OF this] this show ?thesis
    by (auto simp: GetHostBundle_def bundleEntryLinux_def bde_def example_answer_def
        example_response_def first_entry_def example_env_def)
qed

end
