(* ===== verification/AgentTypes.thy ===== *)
theory AgentTypes
  imports Actions
begin

text \<open>
  Agents (\<open>agent.go\<close>) and commands (\<open>command.go\<close>): the record that an agent's heartbeat and every
  command carry, the status strings, and the check that a command read from a file must pass.
\<close>

record agent_env_aws =
  aws_InstanceID :: string
  aws_LocalIPV4 :: string
  aws_AMIID :: string
  aws_InstanceType :: string

record agent_env =
  env_Init :: string
  env_Ident :: string
  env_OS :: string
  env_Arch :: string
  env_IsProxied :: bool
  env_Proxy :: string
  env_Addresses :: "string list"
  env_PublicIP :: string
  env_AWS :: agent_env_aws
  env_Modules :: "string list"

record agent =
  agt_ID :: mig_id
  agt_Name :: string
  agt_QueueLoc :: string
  agt_Mode :: string
  agt_Version :: string
  agt_PID :: int
  agt_LoaderName :: string
  agt_StartTime :: time
  agt_DestructionTime :: time
  agt_HeartBeatTS :: time
  agt_RefreshTS :: time
  agt_Status :: string
  agt_Authorized :: bool
  agt_Env :: agent_env
  agt_Tags :: "(string \<times> string) list"

definition AgtStatusOnline :: string where "AgtStatusOnline = ''online''"
definition AgtStatusDestroyed :: string where "AgtStatusDestroyed = ''destroyed''"
definition AgtStatusOffline :: string where "AgtStatusOffline = ''offline''"
definition AgtStatusIdle :: string where "AgtStatusIdle = ''idle''"

lemmas agent_statuses = AgtStatusOnline_def AgtStatusDestroyed_def AgtStatusOffline_def AgtStatusIdle_def

definition zero_env :: agent_env where
  "zero_env = \<lparr>env_Init = [], env_Ident = [], env_OS = [], env_Arch = [], env_IsProxied = False,
     env_Proxy = [], env_Addresses = [], env_PublicIP = [],
     env_AWS = \<lparr>aws_InstanceID = [], aws_LocalIPV4 = [], aws_AMIID = [], aws_InstanceType = []\<rparr>,
     env_Modules = []\<rparr>"

definition zero_agent :: agent where
  "zero_agent = \<lparr>agt_ID = 0, agt_Name = [], agt_QueueLoc = [], agt_Mode = [], agt_Version = [],
     agt_PID = 0, agt_LoaderName = [], agt_StartTime = zero_time, agt_DestructionTime = zero_time,
     agt_HeartBeatTS = zero_time, agt_RefreshTS = zero_time, agt_Status = [], agt_Authorized = False,
     agt_Env = zero_env, agt_Tags = []\<rparr>"

text \<open>What a module returns (\<open>modules.Result\<close>).\<close>

record module_result =
  res_FoundAnything :: bool
  res_Success :: bool
  res_Elements :: json
  res_Statistics :: json
  res_Errors :: "string list"

record command =
  cmd_ID :: mig_id
  cmd_Action :: action
  cmd_Agent :: agent
  cmd_Status :: string
  cmd_Results :: "module_result list"
  cmd_StartTime :: time
  cmd_FinishTime :: time

definition StatusSent :: string where "StatusSent = ''sent''"
definition StatusSuccess :: string where "StatusSuccess = ''success''"
definition StatusCancelled :: string where "StatusCancelled = ''cancelled''"
definition StatusExpired :: string where "StatusExpired = ''expired''"
definition StatusFailed :: string where "StatusFailed = ''failed''"
definition StatusTimeout :: string where "StatusTimeout = ''timeout''"

lemmas command_statuses = StatusSent_def StatusSuccess_def StatusCancelled_def StatusExpired_def
  StatusFailed_def StatusTimeout_def

definition checkCmd :: "command \<Rightarrow> unit result" where
  "checkCmd cmd =
     (if agt_Name (cmd_Agent cmd) = [] then Inl (errors_New ''command agent name is empty'')
      else if agt_QueueLoc (cmd_Agent cmd) = [] then Inl (errors_New ''command queue location is empty'')
      else if cmd_Status cmd = [] then Inl (errors_New ''command status is empty'')
      else Inr ())"

text \<open>\<open>CmdFromFile\<close>, from the outcome of reading and unmarshalling the file.\<close>

definition CmdFromFile :: "command result \<Rightarrow> command result" where
  "CmdFromFile file =
     recovered ''CmdFromFile''
       (case file of
          Inl e \<Rightarrow> Inl e
        | Inr cmd \<Rightarrow> (case checkCmd cmd of Inl e \<Rightarrow> Inl e | Inr _ \<Rightarrow> Inr cmd))"

text \<open>Commands go through \<open>sent\<close> to one of the terminal states.\<close>

lemma CmdFromFile_Inr:
  "CmdFromFile file = Inr cmd \<longleftrightarrow>
     file = Inr cmd \<and> agt_Name (cmd_Agent cmd) \<noteq> [] \<and> agt_QueueLoc (cmd_Agent cmd) \<noteq> [] \<and>
     cmd_Status cmd \<noteq> []"
  by (auto simp: CmdFromFile_def checkCmd_def split: sum.splits if_splits)

end
