(* ===== verification/ManifestDB.thy ===== *)
theory ManifestDB
  imports AgentTypes Manifests LoaderKeys
begin

text \<open>
  The tables of manifests, manifest signatures and loaders, and the queries on them
  (\<open>database/manifest.go\<close>, \<open>database/loader.go\<close>, tables in \<open>database/schema.sql\<close>).

  A table is the list of its rows. Primary keys come from sequences; a unique index makes an insert
  or update that would repeat a key fail. Target and environment expressions are SQL text that the code pastes
  behind a condition of its own, without parentheses. What PostgreSQL selects from \<open>loaders\<close> with such a text is a
  parameter, which is applied to the whole text, its numbered arguments and the whole table, and may fail on a
  malformed expression. Manifests of the same instant come in the order of the table, which PostgreSQL leaves
  open. \<open>now()\<close> is an argument. Failures of the connection itself are left out.
\<close>

section \<open>Tables\<close>

record manifest_row =
  m_ID :: int
  m_Name :: string
  m_Content :: string
  m_Timestamp :: time
  m_Status :: string
  m_Target :: string

record manifestsig_row =
  ms_ManifestID :: int
  ms_InvestigatorID :: mig_id
  ms_PGPSignature :: string

record loader_row =
  l_ID :: int
  l_LoaderName :: string
  l_KeyPrefix :: string
  l_LoaderKey :: "byte8 list"
  l_Salt :: "byte8 list"
  l_Name :: "string option"
  l_Env :: "agent_env option"
  l_Tags :: "(string \<times> string) list option"
  l_LastSeen :: time
  l_Enabled :: bool
  l_ExpectEnv :: "string option"
  l_QueueLoc :: "string option"

record manifest_db =
  db_Manifests :: "manifest_row list"
  db_ManifestSigs :: "manifestsig_row list"
  db_Loaders :: "loader_row list"
  db_ManifestSeq :: int
  db_LoaderSeq :: int

definition empty_db :: manifest_db where
  "empty_db = \<lparr>db_Manifests = [], db_ManifestSigs = [], db_Loaders = [], db_ManifestSeq = 1,
     db_LoaderSeq = 1\<rparr>"

type_synonym loader_query = "string \<Rightarrow> int list \<Rightarrow> loader_row list \<Rightarrow> loader_row list result"

text \<open>The text after \<open>WHERE\<close>: a condition of the code and an expression of the user.\<close>

definition and_expr :: "string \<Rightarrow> string \<Rightarrow> string" where
  "and_expr cond e = cond @ '' AND '' @ e"

definition no_rows :: go_error where "no_rows = errors_New ''sql: no rows in result set''"
definition unique_violation :: go_error where
  "unique_violation = errors_New ''pq: duplicate key value violates unique constraint''"

text \<open>\<open>QueryRow\<close> takes the first row of the result.\<close>

definition row :: "('r \<Rightarrow> bool) \<Rightarrow> 'r list \<Rightarrow> 'r result" where
  "row p t = (case find p t of None \<Rightarrow> Inl no_rows | Some r \<Rightarrow> Inr r)"

definition update_rows :: "('r \<Rightarrow> bool) \<Rightarrow> ('r \<Rightarrow> 'r) \<Rightarrow> 'r list \<Rightarrow> 'r list" where
  "update_rows p f t = map (\<lambda>r. if p r then f r else r) t"

section \<open>Manifests\<close>

definition ManifestAdd :: "time \<Rightarrow> manifest_record \<Rightarrow> manifest_db \<Rightarrow> manifest_db" where
  "ManifestAdd now mr db =
     db\<lparr>db_Manifests := db_Manifests db @
          [\<lparr>m_ID = db_ManifestSeq db, m_Name = mr_Name mr, m_Content = mr_Content mr,
            m_Timestamp = now, m_Status = ''staged'', m_Target = mr_Target mr\<rparr>],
        db_ManifestSeq := db_ManifestSeq db + 1\<rparr>"

definition sig_count :: "int \<Rightarrow> manifest_db \<Rightarrow> int" where
  "sig_count mid db = int (length (filter (\<lambda>s. ms_ManifestID s = mid) (db_ManifestSigs db)))"

definition ManifestUpdateStatus :: "int \<Rightarrow> int \<Rightarrow> manifest_db \<Rightarrow> manifest_db" where
  "ManifestUpdateStatus mid reqsig db =
     (let cnt = sig_count mid db;
          status = (if cnt \<ge> reqsig then ''active'' else ''staged'')
      in db\<lparr>db_Manifests :=
           update_rows (\<lambda>m. m_ID m = mid \<and> m_Status m \<noteq> ''disabled'') (\<lambda>m. m\<lparr>m_Status := status\<rparr>)
             (db_Manifests db)\<rparr>)"

definition ManifestAddSignature ::
  "int \<Rightarrow> string \<Rightarrow> mig_id \<Rightarrow> int \<Rightarrow> manifest_db \<Rightarrow> manifest_db \<times> unit result" where
  "ManifestAddSignature mid sig invid reqsig db =
     (if \<not> (\<exists>m\<in>set (db_Manifests db). m_ID m = mid \<and> m_Status m \<noteq> ''disabled'')
      then (db, Inl (errors_New ''Manifest signing operation failed''))
      else if \<exists>s\<in>set (db_ManifestSigs db). ms_ManifestID s = mid \<and> ms_InvestigatorID s = invid
      then (db, Inl unique_violation)
      else (ManifestUpdateStatus mid reqsig
              (db\<lparr>db_ManifestSigs := db_ManifestSigs db @
                    [\<lparr>ms_ManifestID = mid, ms_InvestigatorID = invid, ms_PGPSignature = sig\<rparr>]\<rparr>),
            Inr ()))"

definition ManifestDisable :: "int \<Rightarrow> manifest_db \<Rightarrow> manifest_db" where
  "ManifestDisable mid db =
     db\<lparr>db_Manifests :=
       update_rows (\<lambda>m. m_ID m = mid) (\<lambda>m. m\<lparr>m_Status := ''disabled''\<rparr>) (db_Manifests db)\<rparr>"

definition ManifestClearSignatures :: "int \<Rightarrow> manifest_db \<Rightarrow> manifest_db" where
  "ManifestClearSignatures mid db =
     db\<lparr>db_ManifestSigs := filter (\<lambda>s. ms_ManifestID s \<noteq> mid) (db_ManifestSigs db)\<rparr>"

definition GetManifestFromID :: "int \<Rightarrow> manifest_db \<Rightarrow> manifest_record result" where
  "GetManifestFromID mid db =
     (case row (\<lambda>m. m_ID m = mid) (db_Manifests db) of
        Inl e \<Rightarrow> Inl (Errorf (''Error while retrieving manifest: '' @ quoted ''%v'') [AErr e])
      | Inr m \<Rightarrow>
          Inr \<lparr>mr_ID = m_ID m, mr_Name = m_Name m, mr_Content = m_Content m,
               mr_Timestamp = m_Timestamp m, mr_Status = m_Status m, mr_Target = m_Target m,
               mr_Signatures = map ms_PGPSignature
                 (filter (\<lambda>s. ms_ManifestID s = mid) (db_ManifestSigs db))\<rparr>)"

section \<open>Loaders\<close>

definition GetLoaderEntryID :: "byte8 list \<Rightarrow> manifest_db \<Rightarrow> int result" where
  "GetLoaderEntryID key db =
     (if key = [] then Inl (errors_New ''key cannot be empty'')
      else (case row (\<lambda>l. l_LoaderKey l = key \<and> l_Enabled l) (db_Loaders db) of
              Inl _ \<Rightarrow> Inl (errors_New ''No matching loader entry found for key'')
            | Inr l \<Rightarrow> Inr (l_ID l)))"

definition GetLoaderAuthDetails :: "string \<Rightarrow> manifest_db \<Rightarrow> loader_auth_details result" where
  "GetLoaderAuthDetails pre db =
     (case row (\<lambda>l. l_KeyPrefix l = pre \<and> l_Enabled l) (db_Loaders db) of
        Inl _ \<Rightarrow> Inl (errors_New ''Unable to locate loader from prefix'')
      | Inr l \<Rightarrow>
          (let lad = \<lparr>lad_ID = l_ID l, lad_Hash = l_LoaderKey l, lad_Salt = l_Salt l\<rparr>
           in (case LoaderAuthDetails_Validate lad of Inl e \<Rightarrow> Inl e | Inr _ \<Rightarrow> Inr lad)))"

definition GetLoaderName :: "int \<Rightarrow> manifest_db \<Rightarrow> string result" where
  "GetLoaderName i db =
     (case row (\<lambda>l. l_ID l = i \<and> l_Enabled l) (db_Loaders db) of
        Inl _ \<Rightarrow> Inl (errors_New ''Unable to locate name for loader ID'')
      | Inr l \<Rightarrow> Inr (l_LoaderName l))"

definition UpdateLoaderEntry :: "time \<Rightarrow> int \<Rightarrow> agent \<Rightarrow> manifest_db \<Rightarrow> manifest_db \<times> unit result" where
  "UpdateLoaderEntry now lid agt db =
     (if agt_Name agt = []
      then (db, Inl (errors_New ''will not update loader entry with no agent name''))
      else (let qloc = (if agt_QueueLoc agt = [] then None else Some (agt_QueueLoc agt))
            in if qloc \<noteq> None \<and> (\<exists>l\<in>set (db_Loaders db). l_ID l = lid) \<and>
                  (\<exists>l\<in>set (db_Loaders db). l_ID l \<noteq> lid \<and> l_QueueLoc l = qloc)
               then (db, Inl unique_violation)
               else (db\<lparr>db_Loaders :=
                       update_rows (\<lambda>l. l_ID l = lid)
                         (\<lambda>l. l\<lparr>l_Name := Some (agt_Name agt), l_Env := Some (agt_Env agt),
                                l_Tags := Some (agt_Tags agt), l_QueueLoc := qloc,
                                l_LastSeen := now\<rparr>)
                         (db_Loaders db)\<rparr>, Inr ())))"

definition loader_env_failed :: go_error where
  "loader_env_failed = errors_New ''loader environment verification failed''"

definition CompareLoaderExpectEnv :: "loader_query \<Rightarrow> int \<Rightarrow> manifest_db \<Rightarrow> unit result" where
  "CompareLoaderExpectEnv query lid db =
     (case row (\<lambda>l. l_ID l = lid) (db_Loaders db) of
        Inl _ \<Rightarrow> Inl loader_env_failed
      | Inr l \<Rightarrow>
          (case l_ExpectEnv l of
             None \<Rightarrow> Inr ()
           | Some e \<Rightarrow>
               if e = [] then Inr ()
               else (case query (and_expr ''id=$1'' e) [lid] (db_Loaders db) of
                       Inl _ \<Rightarrow> Inl loader_env_failed
                     | Inr rows \<Rightarrow> if rows = [] then Inl loader_env_failed else Inr ())))"

text \<open>
  The first active manifest, the newest first, whose query finds a row. PostgreSQL leaves the order of manifests with
  the same timestamp open; here they are tried in the order of the table.
\<close>

fun first_match :: "loader_query \<Rightarrow> int \<Rightarrow> loader_row list \<Rightarrow> manifest_row list \<Rightarrow> int result" where
  "first_match query lid ls [] = Inl (errors_New ''No matching manifest was found for loader entry'')"
| "first_match query lid ls (m # ms) =
     (case query (and_expr ''id=$1'' (m_Target m)) [lid] ls of
        Inl e \<Rightarrow> Inl e
      | Inr rows \<Rightarrow> if rows = [] then first_match query lid ls ms else Inr (m_ID m))"

definition ManifestIDFromLoaderID :: "loader_query \<Rightarrow> int \<Rightarrow> manifest_db \<Rightarrow> int result" where
  "ManifestIDFromLoaderID query lid db =
     first_match query lid (db_Loaders db)
       (sort_key (\<lambda>m. - m_Timestamp m) (filter (\<lambda>m. m_Status m = ''active'') (db_Manifests db)))"

definition AllLoadersFromManifestID :: "loader_query \<Rightarrow> int \<Rightarrow> manifest_db \<Rightarrow> loader_entry list result" where
  "AllLoadersFromManifestID query mid db =
     (case row (\<lambda>m. (m_Status m = ''active'' \<or> m_Status m = ''staged'') \<and> m_ID m = mid) (db_Manifests db) of
        Inl e \<Rightarrow> Inl e
      | Inr m \<Rightarrow>
          (case query (and_expr ''enabled=TRUE'' (m_Target m)) [] (db_Loaders db) of
             Inl e \<Rightarrow> Inl e
           | Inr ls \<Rightarrow>
               Inr (map (\<lambda>l. \<lparr>le_ID = l_ID l, le_Name = l_LoaderName l, le_Prefix = [], le_Key = [],
                        le_AgentName = (case l_Name l of Some n \<Rightarrow> n | None \<Rightarrow> []),
                        le_LastSeen = l_LastSeen l, le_Enabled = l_Enabled l, le_ExpectEnv = []\<rparr>) ls)))"

definition GetLoaderFromID :: "int \<Rightarrow> manifest_db \<Rightarrow> loader_entry result" where
  "GetLoaderFromID lid db =
     (case row (\<lambda>l. l_ID l = lid) (db_Loaders db) of
        Inl e \<Rightarrow> Inl (Errorf (''Error while retrieving loader: '' @ quoted ''%v'') [AErr e])
      | Inr l \<Rightarrow>
          Inr \<lparr>le_ID = l_ID l, le_Name = l_LoaderName l, le_Prefix = l_KeyPrefix l, le_Key = [],
               le_AgentName = (case l_Name l of Some n \<Rightarrow> n | None \<Rightarrow> []),
               le_LastSeen = l_LastSeen l, le_Enabled = l_Enabled l,
               le_ExpectEnv = (case l_ExpectEnv l of Some e \<Rightarrow> e | None \<Rightarrow> [])\<rparr>)"

definition LoaderUpdateStatus :: "int \<Rightarrow> bool \<Rightarrow> manifest_db \<Rightarrow> manifest_db" where
  "LoaderUpdateStatus lid status db =
     db\<lparr>db_Loaders := update_rows (\<lambda>l. l_ID l = lid) (\<lambda>l. l\<lparr>l_Enabled := status\<rparr>) (db_Loaders db)\<rparr>"

definition LoaderUpdateExpect :: "int \<Rightarrow> string \<Rightarrow> manifest_db \<Rightarrow> manifest_db" where
  "LoaderUpdateExpect lid eenv db =
     (let eset = (if eenv \<noteq> [] then Some eenv else None)
      in db\<lparr>db_Loaders :=
           update_rows (\<lambda>l. l_ID l = lid) (\<lambda>l. l\<lparr>l_ExpectEnv := eset\<rparr>) (db_Loaders db)\<rparr>)"

definition LoaderUpdateKey ::
  "int \<Rightarrow> byte8 list \<Rightarrow> byte8 list \<Rightarrow> manifest_db \<Rightarrow> manifest_db \<times> unit result" where
  "LoaderUpdateKey lid hashkey salt db =
     (if (\<exists>l\<in>set (db_Loaders db). l_ID l = lid) \<and>
         (\<exists>l\<in>set (db_Loaders db). l_ID l \<noteq> lid \<and> l_LoaderKey l = hashkey)
      then (db, Inl unique_violation)
      else (db\<lparr>db_Loaders := update_rows (\<lambda>l. l_ID l = lid)
                  (\<lambda>l. l\<lparr>l_LoaderKey := hashkey, l_Salt := salt\<rparr>) (db_Loaders db)\<rparr>, Inr ()))"

definition LoaderAdd ::
  "time \<Rightarrow> loader_entry \<Rightarrow> byte8 list \<Rightarrow> byte8 list \<Rightarrow> manifest_db \<Rightarrow>
     manifest_db \<times> loader_entry result" where
  "LoaderAdd now le hashkey salt db =
     (let eval = (if le_ExpectEnv le \<noteq> [] then Some (le_ExpectEnv le) else None);
          i = db_LoaderSeq db
      in if \<exists>l\<in>set (db_Loaders db). l_LoaderName l = le_Name le \<or> l_LoaderKey l = hashkey \<or>
              l_KeyPrefix l = le_Prefix le
         then (db\<lparr>db_LoaderSeq := i + 1\<rparr>, Inl unique_violation)
         else (db\<lparr>db_Loaders := db_Loaders db @
                    [\<lparr>l_ID = i, l_LoaderName = le_Name le, l_KeyPrefix = le_Prefix le,
                      l_LoaderKey = hashkey, l_Salt = salt, l_Name = None, l_Env = None, l_Tags = None,
                      l_LastSeen = now, l_Enabled = False, l_ExpectEnv = eval, l_QueueLoc = None\<rparr>],
                  db_LoaderSeq := i + 1\<rparr>,
               Inr (le\<lparr>le_ID := i\<rparr>)))"

section \<open>Lemmas\<close>

lemma row_Inr: "row p t = Inr r \<longleftrightarrow> find p t = Some r"
  by (auto simp: row_def split: option.splits)

lemma row_InrD: "row p t = Inr r \<Longrightarrow> r \<in> set t \<and> p r"
  unfolding row_Inr by (auto simp: find_Some_iff)

lemma row_unique:
  "distinct (map k t) \<Longrightarrow> r \<in> set t \<Longrightarrow> k r = i \<Longrightarrow> row (\<lambda>x. k x = i) t = Inr r"
  unfolding row_Inr by (induction t) (auto simp: image_iff)

lemma set_update_rows: "set (update_rows p f t) = (\<lambda>r. if p r then f r else r) ` set t"
  by (simp add: update_rows_def)

lemma bex_update_rows:
  "(\<exists>x\<in>set (update_rows p f t). Q x) \<longleftrightarrow> (\<exists>x\<in>set t. Q (if p x then f x else x))"
  unfolding update_rows_def set_map by (rule bex_simps ball_simps)

lemma ball_update_rows:
  "(\<forall>x\<in>set (update_rows p f t). Q x) \<longleftrightarrow> (\<forall>x\<in>set t. Q (if p x then f x else x))"
  unfolding update_rows_def set_map by (rule bex_simps ball_simps)

lemma map_update_rows [simp]: "(\<And>r. k (f r) = k r) \<Longrightarrow> map k (update_rows p f t) = map k t"
  by (simp add: update_rows_def)

end
