(* ===== verification/ManifestApi.thy ===== *)
theory ManifestApi
  imports ManifestDB
begin

text \<open>
  The API's manifest and loader endpoints (\<open>mig-api/manifest_endpoints.go\<close>) and the authentication
  of loaders (\<open>hashAuthenticateLoader\<close> in \<open>mig-api/apikey.go\<close>, \<open>authenticateLoader\<close> in
  \<open>mig-api/api.go\<close>).

  A handler maps the database to the database and a response: the status code, the error of the
  Collection+JSON resource and its items. A panic is caught by the deferred handler, which responds
  500 with the error. The request gives the form values, the query parameter, and what the
  authentication stored in its context. Decoding JSON and parsing numbers are fields of the
  environment.
\<close>

section \<open>Requests and responses\<close>

datatype item = ManifestItem manifest_record | LoaderItem loader_entry
  | ResponseItem manifest_response | FetchItem string

record response =
  rsp_Code :: nat
  rsp_Error :: "go_error option"
  rsp_Items :: "item list"

record request =
  rq_FormValue :: "string \<Rightarrow> string"
  rq_Query :: "string list"
  rq_InvID :: mig_id
  rq_LoaderID :: int
  rq_LoaderKey :: string

record api_env =
  api_RequiredSignatures :: int
  api_ParseFloat :: "string \<Rightarrow> int result"
  api_ManifestRecord :: "string \<Rightarrow> manifest_record result"
  api_LoaderEntry :: "string \<Rightarrow> loader_entry result"
  api_Parameters :: "string \<Rightarrow> (agent \<times> string) result"
  api_Manifest :: manifest_env
  api_Crypto :: crypto
  api_Loaders :: loader_query

definition ok :: "nat \<Rightarrow> item list \<Rightarrow> response result" where
  "ok code items = Inr \<lparr>rsp_Code = code, rsp_Error = None, rsp_Items = items\<rparr>"

definition fail :: "nat \<Rightarrow> go_error \<Rightarrow> response result" where
  "fail code e = Inr \<lparr>rsp_Code = code, rsp_Error = Some e, rsp_Items = []\<rparr>"

definition recover_500 :: "'db \<times> response result \<Rightarrow> 'db \<times> response" where
  "recover_500 dr =
     (case dr of
        (db, Inl e) \<Rightarrow> (db, \<lparr>rsp_Code = 500, rsp_Error = Some e, rsp_Items = []\<rparr>)
      | (db, Inr r) \<Rightarrow> (db, r))"

text \<open>Sequencing a computation on the database that may panic.\<close>

definition bind_db :: "'db \<times> 'a result \<Rightarrow> ('a \<Rightarrow> 'db \<Rightarrow> 'db \<times> 'b result) \<Rightarrow> 'db \<times> 'b result" where
  "bind_db m k = (case m of (db, Inl e) \<Rightarrow> (db, Inl e) | (db, Inr x) \<Rightarrow> k x db)"

section \<open>Manifests\<close>

definition locateManifestFromLoader ::
  "api_env \<Rightarrow> time \<Rightarrow> int \<Rightarrow> agent \<Rightarrow> manifest_db \<Rightarrow> manifest_db \<times> manifest_record result" where
  "locateManifestFromLoader env now loaderid agt db =
     (case bind_db (UpdateLoaderEntry now loaderid agt db) (\<lambda>_ db.
             (db, and_then (CompareLoaderExpectEnv (api_Loaders env) loaderid db) (\<lambda>_.
                    and_then (ManifestIDFromLoaderID (api_Loaders env) loaderid db) (\<lambda>manifestid.
                      GetManifestFromID manifestid db)))) of
        (db', Inl _) \<Rightarrow> (db', Inl (errors_New ''Unable to locate valid manifest for this loader entry''))
      | (db', Inr mr) \<Rightarrow> (db', Inr mr))"

definition statusManifest :: "api_env \<Rightarrow> request \<Rightarrow> manifest_db \<Rightarrow> manifest_db \<times> response" where
  "statusManifest env rq db =
     recover_500
       (bind_db (db, api_ParseFloat env (rq_FormValue rq ''manifestid'')) (\<lambda>manifestid db.
          (let sts = rq_FormValue rq ''status''
           in if sts = ''staged''
              then (ManifestUpdateStatus manifestid (api_RequiredSignatures env)
                      (ManifestClearSignatures manifestid db), ok 200 [])
              else if sts = ''disabled'' then (ManifestDisable manifestid db, ok 200 [])
              else (db, Inl (errors_New ''Invalid status specified, must be disabled or staged'')))))"

definition signManifest :: "api_env \<Rightarrow> request \<Rightarrow> manifest_db \<Rightarrow> manifest_db \<times> response" where
  "signManifest env rq db =
     recover_500
       (bind_db (db, api_ParseFloat env (rq_FormValue rq ''manifestid'')) (\<lambda>manifestid db.
          (let sig = rq_FormValue rq ''signature''
           in if sig = [] then (db, Inl (errors_New ''Invalid signature specified''))
              else bind_db (ManifestAddSignature manifestid sig (rq_InvID rq)
                              (api_RequiredSignatures env) db) (\<lambda>_ db. (db, ok 200 [])))))"

definition newManifest :: "api_env \<Rightarrow> time \<Rightarrow> request \<Rightarrow> manifest_db \<Rightarrow> manifest_db \<times> response" where
  "newManifest env now rq db =
     recover_500
       (let mrstr = rq_FormValue rq ''manifest''
        in if mrstr = [] then (db, Inl (errors_New ''no manifest record specified in form''))
           else bind_db (db, api_ManifestRecord env mrstr) (\<lambda>mr db.
                  bind_db (db, ManifestRecord_Validate (api_Manifest env) mr) (\<lambda>_ db.
                    (ManifestAdd now mr db, ok 201 []))))"

text \<open>The first value of a query parameter; without one the index expression panics.\<close>

definition query_id :: "api_env \<Rightarrow> string \<Rightarrow> request \<Rightarrow> int result" where
  "query_id env nm rq =
     (case rq_Query rq of
        [] \<Rightarrow> Inl (errors_New ''index out of range'')
      | v # _ \<Rightarrow> (case api_ParseFloat env v of
                    Inl e \<Rightarrow> Inl (Errorf (''Wrong parameters '' @ quoted nm @ '': '' @ quoted ''%v'') [AErr e])
                  | Inr i \<Rightarrow> Inr i))"

definition not_found_err :: "string \<Rightarrow> go_error" where
  "not_found_err what = Errorf (''Error while retrieving '' @ what @ '': '' @ quoted ''%v'') [AErr no_rows]"

definition getManifest :: "api_env \<Rightarrow> request \<Rightarrow> manifest_db \<Rightarrow> manifest_db \<times> response" where
  "getManifest env rq db =
     recover_500
       (bind_db (db, query_id env ''manifestid'' rq) (\<lambda>mid db.
          if mid > 0
          then (case GetManifestFromID mid db of
                  Inl e \<Rightarrow>
                    (db, if e = not_found_err ''manifest''
                         then fail 404 (Errorf (''Manifest ID '' @ quoted ''%.0f'' @ '' not found'') [AInt mid])
                         else Inl e)
                | Inr mr \<Rightarrow> (db, ok 200 [ManifestItem mr]))
          else (db, fail 400 (Errorf (''Invalid Manifest ID '' @ quoted ''%.0f'') [AInt mid]))))"

definition manifestLoaders :: "api_env \<Rightarrow> request \<Rightarrow> manifest_db \<Rightarrow> manifest_db \<times> response" where
  "manifestLoaders env rq db =
     recover_500
       (bind_db (db, query_id env ''manifestid'' rq) (\<lambda>mid db.
          if mid > 0
          then (case GetManifestFromID mid db of
                  Inl e \<Rightarrow>
                    (db, if e = not_found_err ''manifest''
                         then fail 404 (Errorf (''Manifest ID '' @ quoted ''%.0f'' @ '' not found'') [AInt mid])
                         else Inl e)
                | Inr _ \<Rightarrow>
                    (case AllLoadersFromManifestID (api_Loaders env) mid db of
                       Inl _ \<Rightarrow> (db, fail 404 (Errorf (''No matching loaders for manifest '' @ quoted ''%.0f'')
                                                 [AInt mid]))
                     | Inr ldrs \<Rightarrow> (db, ok 200 (map LoaderItem ldrs))))
          else (db, fail 400 (Errorf (''Invalid Manifest ID '' @ quoted ''%.0f'') [AInt mid]))))"

text \<open>The requests of a loader, after its authentication.\<close>

definition getManifestFile :: "api_env \<Rightarrow> time \<Rightarrow> request \<Rightarrow> manifest_db \<Rightarrow> manifest_db \<times> response" where
  "getManifestFile env now rq db =
     recover_500
       (bind_db (db, api_Parameters env (rq_FormValue rq ''parameters'')) (\<lambda>(agt, object) db.
          bind_db (db, ValidateFetch \<lparr>mp_AgentName = agt_Name agt, mp_QueueLoc = agt_QueueLoc agt,
                                      mp_Object = object\<rparr>) (\<lambda>_ db.
            if rq_LoaderID rq = 0 then (db, Inl (errors_New ''Request has no valid loader ID''))
            else bind_db (locateManifestFromLoader env now (rq_LoaderID rq) agt db) (\<lambda>mf db.
                   bind_db (db, ManifestObject (api_Manifest env) mf object) (\<lambda>data db.
                     (db, ok 200 [FetchItem data]))))))"

definition getAgentManifest :: "api_env \<Rightarrow> time \<Rightarrow> request \<Rightarrow> manifest_db \<Rightarrow> manifest_db \<times> response" where
  "getAgentManifest env now rq db =
     recover_500
       (bind_db (db, api_Parameters env (rq_FormValue rq ''parameters'')) (\<lambda>(agt, object) db.
          bind_db (db, ManifestParameters_Validate \<lparr>mp_AgentName = agt_Name agt,
                         mp_QueueLoc = agt_QueueLoc agt, mp_Object = object\<rparr>) (\<lambda>_ db.
            if rq_LoaderID rq = 0 then (db, Inl (errors_New ''Request has no valid loader ID''))
            else bind_db (locateManifestFromLoader env now (rq_LoaderID rq) agt db) (\<lambda>mf db.
                   bind_db (db, toManifestResponse (api_Manifest env) mf) (\<lambda>m db.
                     bind_db (db, GetLoaderName (rq_LoaderID rq) db) (\<lambda>nm db.
                       (db, ok 200 [ResponseItem (m\<lparr>mresp_LoaderName := nm\<rparr>)])))))))"

section \<open>Loaders\<close>

definition getLoader :: "api_env \<Rightarrow> request \<Rightarrow> manifest_db \<Rightarrow> manifest_db \<times> response" where
  "getLoader env rq db =
     recover_500
       (bind_db (db, query_id env ''loaderid'' rq) (\<lambda>lid db.
          if lid > 0
          then (case GetLoaderFromID lid db of
                  Inl e \<Rightarrow>
                    (db, if e = not_found_err ''loader''
                         then fail 404 (Errorf (''Loader ID '' @ quoted ''%.0f'' @ '' not found'') [AInt lid])
                         else Inl e)
                | Inr le \<Rightarrow> (db, ok 200 [LoaderItem le]))
          else (db, fail 400 (Errorf (''Invalid Loader ID '' @ quoted ''%.0f'') [AInt lid]))))"

definition expectLoader :: "api_env \<Rightarrow> request \<Rightarrow> manifest_db \<Rightarrow> manifest_db \<times> response" where
  "expectLoader env rq db =
     recover_500
       (bind_db (db, api_ParseFloat env (rq_FormValue rq ''loaderid'')) (\<lambda>loaderid db.
          (LoaderUpdateExpect loaderid (rq_FormValue rq ''expectenv'') db, ok 200 [])))"

definition statusLoader :: "api_env \<Rightarrow> request \<Rightarrow> manifest_db \<Rightarrow> manifest_db \<times> response" where
  "statusLoader env rq db =
     recover_500
       (bind_db (db, api_ParseFloat env (rq_FormValue rq ''loaderid'')) (\<lambda>loaderid db.
          (let setval = (rq_FormValue rq ''status'' = ''enabled'')
           in (LoaderUpdateStatus loaderid setval db, ok 200 []))))"

definition keyLoader ::
  "api_env \<Rightarrow> (nat \<Rightarrow> nat) \<Rightarrow> request \<Rightarrow> manifest_db \<Rightarrow> manifest_db \<times> response" where
  "keyLoader env rs rq db =
     recover_500
       (bind_db (db, api_ParseFloat env (rq_FormValue rq ''loaderid'')) (\<lambda>loaderid db.
          (let lkey = GenerateLoaderKey rs
           in bind_db (db, ValidateLoaderKey lkey) (\<lambda>_ db.
                bind_db (db, hashAPIKey (api_Crypto env) lkey None LoaderHashedKeyLength LoaderSaltLength)
                  (\<lambda>(hashkey, salt) db.
                     bind_db (LoaderUpdateKey loaderid hashkey salt db) (\<lambda>_ db.
                       bind_db (db, GetLoaderFromID loaderid db) (\<lambda>le db.
                         (db, ok 200 [LoaderItem (le\<lparr>le_Key := lkey\<rparr>)]))))))))"

definition newLoader ::
  "api_env \<Rightarrow> time \<Rightarrow> (nat \<Rightarrow> nat) \<Rightarrow> (nat \<Rightarrow> nat) \<Rightarrow> request \<Rightarrow> manifest_db \<Rightarrow> manifest_db \<times> response" where
  "newLoader env now rs rs' rq db =
     recover_500
       (let lestr = rq_FormValue rq ''loader''
        in if lestr = [] then (db, Inl (errors_New ''no loader entry specified in form''))
           else bind_db (db, api_LoaderEntry env lestr) (\<lambda>le db.
                  bind_db (db, LoaderEntry_Validate le) (\<lambda>_ db.
                    (let le = le\<lparr>le_Prefix := GenerateLoaderPrefix rs, le_Key := GenerateLoaderKey rs'\<rparr>
                     in bind_db (db, ValidateLoaderPrefixAndKey (le_Prefix le @ le_Key le)) (\<lambda>_ db.
                          bind_db (db, hashAPIKey (api_Crypto env) (le_Key le) None
                                         LoaderHashedKeyLength LoaderSaltLength) (\<lambda>(hkey, salt) db.
                            bind_db (LoaderAdd now le hkey salt db) (\<lambda>createle db.
                              (db, ok 201 [LoaderItem (le\<lparr>le_ID := le_ID createle\<rparr>)]))))))))"

section \<open>Authentication of loaders\<close>

definition hashAuthenticateLoader :: "crypto \<Rightarrow> string \<Rightarrow> manifest_db \<Rightarrow> loader_entry result" where
  "hashAuthenticateLoader cr lkey db =
     and_then (ValidateLoaderPrefixAndKey lkey) (\<lambda>_.
       (let pre = take LoaderPrefixLength lkey; suppkey = drop LoaderPrefixLength lkey
        in and_then (GetLoaderAuthDetails pre db) (\<lambda>lad.
             and_then (hashAPIKey cr suppkey (Some (lad_Salt lad)) LoaderHashedKeyLength LoaderSaltLength)
               (\<lambda>(tryhash, _).
                  if tryhash \<noteq> lad_Hash lad then Inl (errors_New ''Loader key authentication failed'')
                  else GetLoaderFromID (lad_ID lad) db))))"

text \<open>\<open>authenticateLoader\<close> passes the request on with the loader's identity, or responds 401.\<close>

definition authenticateLoader ::
  "crypto \<Rightarrow> (request \<Rightarrow> manifest_db \<Rightarrow> manifest_db \<times> response) \<Rightarrow> request \<Rightarrow> manifest_db \<Rightarrow>
     manifest_db \<times> response" where
  "authenticateLoader cr pass rq db =
     (let unauthorized = (\<lambda>msg. (db, \<lparr>rsp_Code = 401, rsp_Error = Some (errors_New msg), rsp_Items = []\<rparr>));
          lkey = rq_LoaderKey rq
      in if lkey = [] then unauthorized ''X-LOADERKEY header not found''
         else (case ValidateLoaderPrefixAndKey lkey of
                 Inl _ \<Rightarrow> unauthorized ''Loader authorization failed''
               | Inr _ \<Rightarrow>
                   (case hashAuthenticateLoader cr lkey db of
                      Inl _ \<Rightarrow> unauthorized ''Loader authorization failed''
                    | Inr ldr \<Rightarrow> pass (rq\<lparr>rq_LoaderID := le_ID ldr\<rparr>) db)))"

section \<open>The service as a state machine\<close>

datatype manifest_call =
    StatusManifest request | SignManifest request | NewManifest time request
  | GetManifest request | ManifestLoaders request
  | GetManifestFile time request | GetAgentManifest time request
  | GetLoader request | ExpectLoader request | StatusLoader request
  | KeyLoader "nat \<Rightarrow> nat" request | NewLoader time "nat \<Rightarrow> nat" "nat \<Rightarrow> nat" request

fun serve :: "api_env \<Rightarrow> manifest_call \<Rightarrow> manifest_db \<Rightarrow> manifest_db \<times> response" where
  "serve env (StatusManifest rq) db = statusManifest env rq db"
| "serve env (SignManifest rq) db = signManifest env rq db"
| "serve env (NewManifest now rq) db = newManifest env now rq db"
| "serve env (GetManifest rq) db = getManifest env rq db"
| "serve env (ManifestLoaders rq) db = manifestLoaders env rq db"
| "serve env (GetManifestFile now rq) db =
     authenticateLoader (api_Crypto env) (getManifestFile env now) rq db"
| "serve env (GetAgentManifest now rq) db =
     authenticateLoader (api_Crypto env) (getAgentManifest env now) rq db"
| "serve env (GetLoader rq) db = getLoader env rq db"
| "serve env (ExpectLoader rq) db = expectLoader env rq db"
| "serve env (StatusLoader rq) db = statusLoader env rq db"
| "serve env (KeyLoader rs rq) db = keyLoader env rs rq db"
| "serve env (NewLoader now rs rs' rq) db = newLoader env now rs rs' rq db"

inductive api_step :: "api_env \<Rightarrow> manifest_db \<Rightarrow> manifest_db \<Rightarrow> bool" for env where
  call: "serve env c db = (db', r) \<Longrightarrow> api_step env db db'"

inductive_cases api_stepE: "api_step env db db'"

section \<open>The invariant, and what a request keeps\<close>

definition good_manifests :: "int \<Rightarrow> manifest_db \<Rightarrow> bool" where
  "good_manifests req db \<longleftrightarrow>
     distinct (map m_ID (db_Manifests db)) \<and> (\<forall>m\<in>set (db_Manifests db). m_ID m < db_ManifestSeq db) \<and>
     distinct (map (\<lambda>s. (ms_ManifestID s, ms_InvestigatorID s)) (db_ManifestSigs db)) \<and>
     (\<forall>s\<in>set (db_ManifestSigs db). ms_ManifestID s < db_ManifestSeq db) \<and>
     (\<forall>m\<in>set (db_Manifests db). m_Status m \<in> {''staged'', ''active'', ''disabled''} \<and>
        (m_Status m = ''active'' \<longrightarrow> req \<le> sig_count (m_ID m) db))"

definition good_loaders :: "manifest_db \<Rightarrow> bool" where
  "good_loaders db \<longleftrightarrow>
     distinct (map l_ID (db_Loaders db)) \<and> distinct (map l_KeyPrefix (db_Loaders db)) \<and>
     (\<forall>l\<in>set (db_Loaders db). l_ID l < db_LoaderSeq db)"

definition good_db :: "int \<Rightarrow> manifest_db \<Rightarrow> bool" where
  "good_db req db \<longleftrightarrow> good_manifests req db \<and> good_loaders db"

text \<open>The row of a manifest stays, with its content; a disabled one stays disabled.\<close>

definition row_kept :: "manifest_row \<Rightarrow> manifest_row \<Rightarrow> bool" where
  "row_kept m m' \<longleftrightarrow>
     m_ID m' = m_ID m \<and> m_Name m' = m_Name m \<and> m_Content m' = m_Content m \<and>
     m_Timestamp m' = m_Timestamp m \<and> m_Target m' = m_Target m \<and>
     (m_Status m = ''disabled'' \<longrightarrow> m_Status m' = ''disabled'')"

definition manifests_kept :: "manifest_db \<Rightarrow> manifest_db \<Rightarrow> bool" where
  "manifests_kept db db' \<longleftrightarrow>
     (\<forall>m\<in>set (db_Manifests db). \<exists>m'\<in>set (db_Manifests db'). row_kept m m')"

definition good_step :: "int \<Rightarrow> manifest_db \<Rightarrow> manifest_db \<Rightarrow> bool" where
  "good_step req db db' \<longleftrightarrow> (good_db req db \<longrightarrow> good_db req db' \<and> manifests_kept db db')"

lemma manifests_kept_refl [simp]: "manifests_kept db db"
  by (auto simp: manifests_kept_def row_kept_def)

lemma manifests_kept_trans: "manifests_kept a b \<Longrightarrow> manifests_kept b c \<Longrightarrow> manifests_kept a c"
  unfolding manifests_kept_def row_kept_def by metis

lemma good_step_refl [simp, intro]: "good_step req db db"
  by (simp add: good_step_def)

lemma good_step_trans: "good_step req a b \<Longrightarrow> good_step req b c \<Longrightarrow> good_step req a c"
  unfolding good_step_def using manifests_kept_trans by blast

lemma good_step_bind [intro]:
  assumes "good_step req db (fst m)"
    and "\<And>x. snd m = Inr x \<Longrightarrow> good_step req (fst m) (fst (k x (fst m)))"
  shows "good_step req db (fst (bind_db m k))"
  using assms by (auto simp: bind_db_def intro: good_step_trans split: prod.splits sum.splits)

lemma good_step_recover [intro]: "good_step req db (fst m) \<Longrightarrow> good_step req db (fst (recover_500 m))"
  by (auto simp: recover_500_def split: prod.splits sum.splits)

lemma row_kept_refl [simp]: "row_kept m m"
  by (simp add: row_kept_def)

lemma manifests_kept_update:
  assumes "db_Manifests db' = update_rows p f (db_Manifests db)" "\<And>m. p m \<Longrightarrow> row_kept m (f m)"
  shows "manifests_kept db db'"
proof -
  have "\<exists>m'\<in>set (db_Manifests db'). row_kept m m'" if "m \<in> set (db_Manifests db)" for m
    by (rule bexI [of _ "if p m then f m else m"])
      (use assms that in \<open>auto simp: set_update_rows\<close>)
  then show ?thesis by (simp add: manifests_kept_def)
qed

lemma sig_count_loaders [simp]: "sig_count mid (db\<lparr>db_Loaders := ls\<rparr>) = sig_count mid db"
  "sig_count mid (db\<lparr>db_Manifests := ms\<rparr>) = sig_count mid db"
  "sig_count mid (db\<lparr>db_ManifestSeq := n\<rparr>) = sig_count mid db"
  "sig_count mid (db\<lparr>db_LoaderSeq := n\<rparr>) = sig_count mid db"
  by (simp_all add: sig_count_def)

lemma good_step_Add: "good_step req db (ManifestAdd now mr db)"
  by (auto simp: good_step_def good_db_def good_manifests_def good_loaders_def manifests_kept_def
      row_kept_def ManifestAdd_def)

lemma good_step_Disable: "good_step req db (ManifestDisable mid db)"
proof -
  have "manifests_kept db (ManifestDisable mid db)"
    unfolding ManifestDisable_def
    by (rule manifests_kept_update [where p = "\<lambda>m. m_ID m = mid"]) (simp, simp add: row_kept_def)
  then show ?thesis
    by (auto simp: good_step_def good_db_def good_manifests_def good_loaders_def ManifestDisable_def
        set_update_rows)
qed

text \<open>
  Replacing the signatures of one manifest and then recomputing its status, the two ways the API
  does it.
\<close>

lemma good_step_UpdateStatus:
  assumes "\<And>i. i \<noteq> mid \<Longrightarrow> sig_count i (db\<lparr>db_ManifestSigs := sigs\<rparr>) = sig_count i db"
    and "good_db req db \<Longrightarrow> distinct (map (\<lambda>s. (ms_ManifestID s, ms_InvestigatorID s)) sigs) \<and>
      (\<forall>s\<in>set sigs. ms_ManifestID s < db_ManifestSeq db)"
  shows "good_step req db (ManifestUpdateStatus mid req (db\<lparr>db_ManifestSigs := sigs\<rparr>))"
proof -
  let ?db' = "ManifestUpdateStatus mid req (db\<lparr>db_ManifestSigs := sigs\<rparr>)"
  have "manifests_kept db ?db'"
    unfolding ManifestUpdateStatus_def Let_def
    by (rule manifests_kept_update [where p = "\<lambda>m. m_ID m = mid \<and> m_Status m \<noteq> ''disabled''"])
      (simp, simp add: row_kept_def)
  moreover have "good_db req ?db'" if "good_db req db"
    using that assms
    by (auto simp: good_db_def good_manifests_def good_loaders_def ManifestUpdateStatus_def
        set_update_rows Let_def split: if_splits)
  ultimately show ?thesis by (simp add: good_step_def)
qed

lemma good_step_Clear: "good_step req db (ManifestUpdateStatus mid req (ManifestClearSignatures mid db))"
  unfolding ManifestClearSignatures_def
proof (rule good_step_UpdateStatus)
  show "sig_count i (db\<lparr>db_ManifestSigs := filter (\<lambda>s. ms_ManifestID s \<noteq> mid) (db_ManifestSigs db)\<rparr>)
      = sig_count i db" if "i \<noteq> mid" for i
    using that by (simp add: sig_count_def) (metis (mono_tags, lifting) filter_cong)
qed (auto simp: good_db_def good_manifests_def distinct_map_filter)

lemma good_step_AddSignature: "good_step req db (fst (ManifestAddSignature mid sig invid req db))"
proof (cases "snd (ManifestAddSignature mid sig invid req db) = Inr ()")
  case False
  then have "fst (ManifestAddSignature mid sig invid req db) = db"
    by (auto simp: ManifestAddSignature_def split: if_splits)
  then show ?thesis by simp
next
  case True
  then have exists: "\<exists>m\<in>set (db_Manifests db). m_ID m = mid"
    and fresh: "\<forall>s\<in>set (db_ManifestSigs db). \<not> (ms_ManifestID s = mid \<and> ms_InvestigatorID s = invid)"
    by (auto simp: ManifestAddSignature_def split: if_splits)
  have "good_step req db (ManifestUpdateStatus mid req
      (db\<lparr>db_ManifestSigs := db_ManifestSigs db @
        [\<lparr>ms_ManifestID = mid, ms_InvestigatorID = invid, ms_PGPSignature = sig\<rparr>]\<rparr>))"
    by (rule good_step_UpdateStatus)
      (use exists fresh in \<open>auto simp: sig_count_def good_db_def good_manifests_def\<close>)
  with True show ?thesis by (simp add: ManifestAddSignature_def split: if_splits)
qed

lemma good_step_update_loaders:
  assumes "\<And>l. l_ID (f l) = l_ID l \<and> l_KeyPrefix (f l) = l_KeyPrefix l"
  shows "good_step req db (db\<lparr>db_Loaders := update_rows p f (db_Loaders db)\<rparr>)"
  using assms
  by (auto simp: good_step_def good_db_def good_manifests_def good_loaders_def manifests_kept_def
      set_update_rows intro: bexI [of _ "_ :: manifest_row"] row_kept_refl)

lemma good_step_loader_updates:
  "good_step req db (fst (UpdateLoaderEntry now lid agt db))"
  "good_step req db (LoaderUpdateStatus lid st db)"
  "good_step req db (LoaderUpdateExpect lid eenv db)"
  "good_step req db (fst (LoaderUpdateKey lid hk salt db))"
  by (auto simp: UpdateLoaderEntry_def LoaderUpdateStatus_def LoaderUpdateExpect_def
      LoaderUpdateKey_def Let_def intro: good_step_update_loaders)

lemma good_step_LoaderAdd: "good_step req db (fst (LoaderAdd now le hk salt db))"
  by (auto simp: good_step_def good_db_def good_manifests_def good_loaders_def LoaderAdd_def Let_def
      manifests_kept_def intro: bexI [of _ "_ :: manifest_row"] row_kept_refl)

lemma fst_locate:
  "fst (locateManifestFromLoader env now lid agt db) = fst (UpdateLoaderEntry now lid agt db)"
  by (auto simp: locateManifestFromLoader_def bind_db_def split: prod.splits sum.splits)

lemma good_step_locate: "good_step req db (fst (locateManifestFromLoader env now lid agt db))"
  by (simp add: fst_locate good_step_loader_updates)

lemmas good_steps = good_step_Add good_step_Disable good_step_Clear good_step_AddSignature
  good_step_loader_updates good_step_LoaderAdd good_step_locate

lemma good_step_handlers:
  "good_step (api_RequiredSignatures env) db (fst (statusManifest env rq db))"
  "good_step (api_RequiredSignatures env) db (fst (signManifest env rq db))"
  "good_step (api_RequiredSignatures env) db (fst (newManifest env now rq db))"
  "good_step (api_RequiredSignatures env) db (fst (expectLoader env rq db))"
  "good_step (api_RequiredSignatures env) db (fst (statusLoader env rq db))"
  "good_step (api_RequiredSignatures env) db (fst (keyLoader env rs rq db))"
  "good_step (api_RequiredSignatures env) db (fst (newLoader env now rs rs' rq db))"
  "good_step (api_RequiredSignatures env) db (fst (getManifestFile env now rq db))"
  "good_step (api_RequiredSignatures env) db (fst (getAgentManifest env now rq db))"
  by (auto simp: statusManifest_def signManifest_def newManifest_def expectLoader_def statusLoader_def
      keyLoader_def newLoader_def getManifestFile_def getAgentManifest_def Let_def good_steps
      intro!: good_step_recover good_step_bind split: prod.splits)

lemma reads_only:
  "fst (getManifest env rq db) = db" "fst (manifestLoaders env rq db) = db" "fst (getLoader env rq db) = db"
  by (auto simp: getManifest_def manifestLoaders_def getLoader_def recover_500_def bind_db_def fail_def
      ok_def split: sum.splits)

lemma good_step_authenticate:
  "(\<And>rq. good_step req db (fst (pass rq db))) \<Longrightarrow> good_step req db (fst (authenticateLoader cr pass rq db))"
  by (auto simp: authenticateLoader_def Let_def split: sum.splits)

lemma good_step_serve: "good_step (api_RequiredSignatures env) db (fst (serve env c db))"
  by (cases c) (auto simp: good_step_handlers reads_only intro: good_step_authenticate)

interpretation manifests: state_machine "api_step env" "good_db (api_RequiredSignatures env)" manifests_kept
proof
  fix db db'
  assume good: "good_db (api_RequiredSignatures env) db" and step: "api_step env db db'"
  from step obtain c r where "serve env c db = (db', r)" by (auto elim: api_stepE)
  then have "db' = fst (serve env c db)" by simp
  with good good_step_serve show "good_db (api_RequiredSignatures env) db'" "manifests_kept db db'"
    by (auto simp: good_step_def)
qed (auto intro: manifests_kept_trans)

section \<open>Signers, and the manifest that is served\<close>

definition signers :: "manifest_db \<Rightarrow> int \<Rightarrow> mig_id list" where
  "signers db mid = map ms_InvestigatorID (filter (\<lambda>s. ms_ManifestID s = mid) (db_ManifestSigs db))"

lemma good_signers:
  assumes "good_db req db" "m \<in> set (db_Manifests db)" "m_Status m = ''active''"
  shows "distinct (signers db (m_ID m)) \<and> req \<le> int (length (signers db (m_ID m)))"
proof -
  have "distinct (map (\<lambda>s. (ms_ManifestID s, ms_InvestigatorID s)) (db_ManifestSigs db))"
    and "req \<le> sig_count (m_ID m) db"
    using assms by (auto simp: good_db_def good_manifests_def)
  then show ?thesis
    by (auto simp: signers_def sig_count_def distinct_map inj_on_def)
qed

lemma good_empty: "good_db req empty_db"
  by (simp add: good_db_def good_manifests_def good_loaders_def empty_db_def)

lemma first_match_Inr:
  "first_match query lid ls ms = Inr i \<Longrightarrow>
     \<exists>pre m post rows. ms = pre @ m # post \<and> m_ID m = i \<and> rows \<noteq> [] \<and>
       query (and_expr ''id=$1'' (m_Target m)) [lid] ls = Inr rows \<and>
       (\<forall>m'\<in>set pre. query (and_expr ''id=$1'' (m_Target m')) [lid] ls = Inr [])"
proof (induction ms)
  case (Cons m ms)
  from Cons.prems obtain rows where q: "query (and_expr ''id=$1'' (m_Target m)) [lid] ls = Inr rows"
    by (auto split: sum.splits)
  show ?case
  proof (cases "rows = []")
    case True
    with Cons q obtain pre m' post rows' where "ms = pre @ m' # post" "m_ID m' = i" "rows' \<noteq> []"
      "query (and_expr ''id=$1'' (m_Target m')) [lid] ls = Inr rows'"
      "\<forall>m'\<in>set pre. query (and_expr ''id=$1'' (m_Target m')) [lid] ls = Inr []" by auto
    with True q show ?thesis
      by (intro exI [of _ "m # pre"] exI [of _ m'] exI [of _ post] exI [of _ rows']) simp
  next
    case False
    with Cons.prems q show ?thesis by (intro exI [of _ "[]"]) simp
  qed
qed simp

lemma ManifestIDFromLoaderID_Inr:
  assumes "ManifestIDFromLoaderID query lid db = Inr i"
  shows "\<exists>m rows. m \<in> set (db_Manifests db) \<and> m_ID m = i \<and> m_Status m = ''active'' \<and> rows \<noteq> [] \<and>
    query (and_expr ''id=$1'' (m_Target m)) [lid] (db_Loaders db) = Inr rows \<and>
    (\<forall>m'\<in>set (db_Manifests db). m_Status m' = ''active'' \<and> m_Timestamp m' > m_Timestamp m \<longrightarrow>
       query (and_expr ''id=$1'' (m_Target m')) [lid] (db_Loaders db) = Inr [])"
proof -
  let ?ms = "sort_key (\<lambda>m. - m_Timestamp m) (filter (\<lambda>m. m_Status m = ''active'') (db_Manifests db))"
  let ?run = "\<lambda>m. query (and_expr ''id=$1'' (m_Target m)) [lid] (db_Loaders db)"
  obtain pre m post rows where ms: "?ms = pre @ m # post" "m_ID m = i" "rows \<noteq> []" "?run m = Inr rows"
    and pre: "\<forall>m'\<in>set pre. ?run m' = Inr []"
    using first_match_Inr assms unfolding ManifestIDFromLoaderID_def by blast
  have set_ms: "set ?ms = {m \<in> set (db_Manifests db). m_Status m = ''active''}" by simp
  have "sorted (map (\<lambda>m. - m_Timestamp m) ?ms)" by (rule sorted_sort_key)
  then have post: "\<forall>m'\<in>set post. m_Timestamp m' \<le> m_Timestamp m"
    unfolding ms(1) by (simp add: sorted_append)
  have "?run m' = Inr []"
    if "m' \<in> set (db_Manifests db)" "m_Status m' = ''active''" "m_Timestamp m' > m_Timestamp m" for m'
  proof -
    have "m' \<in> set ?ms" using that set_ms by simp
    then have "m' \<in> set pre \<or> m' = m \<or> m' \<in> set post" unfolding ms(1) by auto
    with pre post that(3) show ?thesis by force
  qed
  moreover have "m \<in> set ?ms" unfolding ms(1) by simp
  ultimately show ?thesis using set_ms ms by auto
qed

section \<open>Authentication\<close>

lemma hashAuthenticateLoader_Inr:
  "hashAuthenticateLoader cr lkey db = Inr le \<longleftrightarrow>
     alnum_string 40 lkey \<and>
     (\<exists>l. row (\<lambda>l. l_KeyPrefix l = take 8 lkey \<and> l_Enabled l) (db_Loaders db) = Inr l \<and>
        length (l_LoaderKey l) = 32 \<and> length (l_Salt l) = 16 \<and>
        pbkdf2_Key cr (drop 8 lkey) (l_Salt l) 32 = l_LoaderKey l \<and>
        GetLoaderFromID (l_ID l) db = Inr le)"
proof (cases "alnum_string 40 lkey")
  case False
  then show ?thesis
    by (cases "ValidateLoaderPrefixAndKey lkey")
      (use ValidateLoaderPrefixAndKey_Inr [of lkey] in \<open>auto simp: hashAuthenticateLoader_def\<close>)
next
  case True
  then have "drop 8 lkey \<noteq> []" "ValidateLoaderPrefixAndKey lkey = Inr ()"
    by (auto simp: alnum_string_def ValidateLoaderPrefixAndKey_Inr)
  with True show ?thesis
    by (cases "row (\<lambda>l. l_KeyPrefix l = take 8 lkey \<and> l_Enabled l) (db_Loaders db)")
      (auto simp: hashAuthenticateLoader_def GetLoaderAuthDetails_def
        LoaderAuthDetails_Validate_def loader_lengths Let_def)
qed

definition new_loader_row :: "time \<Rightarrow> loader_entry \<Rightarrow> byte8 list \<Rightarrow> byte8 list \<Rightarrow> loader_row" where
  "new_loader_row now le hashkey salt =
     \<lparr>l_ID = le_ID le, l_LoaderName = le_Name le, l_KeyPrefix = le_Prefix le, l_LoaderKey = hashkey,
      l_Salt = salt, l_Name = None, l_Env = None, l_Tags = None, l_LastSeen = now, l_Enabled = False,
      l_ExpectEnv = (if le_ExpectEnv le \<noteq> [] then Some (le_ExpectEnv le) else None), l_QueueLoc = None\<rparr>"

lemma find_append_None: "\<forall>x\<in>set xs. \<not> p x \<Longrightarrow> find p (xs @ ys) = find p ys"
  by (induction xs) auto

lemma newLoader_adds:
  assumes "newLoader env now rs rs' rq db = (db1, r)" "rsp_Items r = [LoaderItem le]"
  shows "\<exists>hk salt. le_Prefix le = GenerateLoaderPrefix rs \<and> le_Key le = GenerateLoaderKey rs' \<and>
    le_ID le = db_LoaderSeq db \<and>
    rand_Read (api_Crypto env) 16 = Inr salt \<and> hk = pbkdf2_Key (api_Crypto env) (le_Key le) salt 32 \<and>
    (\<forall>l\<in>set (db_Loaders db). l_KeyPrefix l \<noteq> le_Prefix le) \<and>
    db_Loaders db1 = db_Loaders db @ [new_loader_row now le hk salt]"
proof -
  obtain le0 hk salt created where
    hash: "hashAPIKey (api_Crypto env) (GenerateLoaderKey rs') None 32 16 = Inr (hk, salt)"
    and add: "LoaderAdd now (le0\<lparr>le_Prefix := GenerateLoaderPrefix rs, le_Key := GenerateLoaderKey rs'\<rparr>)
      hk salt db = (db1, Inr created)"
    and le: "le = le0\<lparr>le_Prefix := GenerateLoaderPrefix rs, le_Key := GenerateLoaderKey rs',
      le_ID := le_ID created\<rparr>"
    using assms
    by (auto simp: newLoader_def recover_500_def bind_db_def ok_def Let_def loader_lengths
        split: prod.splits sum.splits if_splits)
  from add le have "le = created" "le_ID le = db_LoaderSeq db"
    and "\<forall>l\<in>set (db_Loaders db). l_KeyPrefix l \<noteq> GenerateLoaderPrefix rs"
    and "db_Loaders db1 = db_Loaders db @ [new_loader_row now le hk salt]"
    by (auto simp: LoaderAdd_def Let_def new_loader_row_def split: if_splits)
  moreover have "le_Prefix le = GenerateLoaderPrefix rs" "le_Key le = GenerateLoaderKey rs'"
    by (simp_all add: le)
  ultimately show ?thesis using hash by (auto simp: hashAPIKey_None)
qed

section \<open>Properties\<close>

text \<open>
  C2. Along every sequence of API requests, starting from an empty database: a manifest is active only
  while at least the required number of different investigators have signed it, a manifest that was
  disabled never leaves that state, and no request changes the name, content, target or timestamp of
  a manifest.
\<close>

theorem manifest_lifecycle:
  assumes "(api_step env)\<^sup>*\<^sup>* empty_db db" and "(api_step env)\<^sup>*\<^sup>* db db'"
  shows "(\<forall>m\<in>set (db_Manifests db). m_Status m = ''active'' \<longrightarrow>
            distinct (signers db (m_ID m)) \<and>
            api_RequiredSignatures env \<le> int (length (signers db (m_ID m)))) \<and>
         (\<forall>m\<in>set (db_Manifests db). \<exists>m'\<in>set (db_Manifests db').
            m_ID m' = m_ID m \<and> m_Name m' = m_Name m \<and> m_Content m' = m_Content m \<and>
            m_Target m' = m_Target m \<and> m_Timestamp m' = m_Timestamp m \<and>
            (m_Status m = ''disabled'' \<longrightarrow> m_Status m' = ''disabled''))"
proof -
  have good: "good_db (api_RequiredSignatures env) db"
    using assms(1) good_empty by (rule manifests.run_inv)
  have "manifests_kept db db'"
    using assms(2) good by (rule manifests.run_keeps)
  with good good_signers [OF good] show ?thesis
    unfolding manifests_kept_def row_kept_def by metis
qed

text \<open>
  An expression that is one condition, or is put in parentheses, is evaluated on the row of the loader; this is how
  PostgreSQL reads the text then.
\<close>

definition one_condition :: "loader_query \<Rightarrow> (loader_row \<Rightarrow> bool) \<Rightarrow> string \<Rightarrow> bool" where
  "one_condition query holds e \<longleftrightarrow>
     (\<forall>lid ls. query (and_expr ''id=$1'' e) [lid] ls = Inr (filter (\<lambda>l. l_ID l = lid \<and> holds l) ls))"

text \<open>
  C26. A loader that asks for its manifest is served only when it authenticated with its key; what it
  gets is an active manifest, signed by enough different investigators, for which the query for its target found a
  row, while the queries for all newer active manifests found none; when the target is a single condition,
  it holds for the loader itself. The response has the entries that are made from the content of that
  manifest and its stored signatures.
\<close>

theorem served_manifest_is_active:
  assumes "(api_step env)\<^sup>*\<^sup>* empty_db db"
    and "serve env (GetAgentManifest now rq) db = (db', r)" and "rsp_Code r = 200"
  shows "\<exists>ldr m rows resp ts. hashAuthenticateLoader (api_Crypto env) (rq_LoaderKey rq) db = Inr ldr \<and>
    rsp_Items r = [ResponseItem resp] \<and>
    m \<in> set (db_Manifests db') \<and> m_Status m = ''active'' \<and>
    api_RequiredSignatures env \<le> int (length (signers db' (m_ID m))) \<and> distinct (signers db' (m_ID m)) \<and>
    api_Loaders env (and_expr ''id=$1'' (m_Target m)) [le_ID ldr] (db_Loaders db') = Inr rows \<and> rows \<noteq> [] \<and>
    (\<forall>m'\<in>set (db_Manifests db'). m_Status m' = ''active'' \<and> m_Timestamp m' > m_Timestamp m \<longrightarrow>
       api_Loaders env (and_expr ''id=$1'' (m_Target m')) [le_ID ldr] (db_Loaders db') = Inr []) \<and>
    (\<forall>holds. one_condition (api_Loaders env) holds (m_Target m) \<longrightarrow>
       (\<exists>l\<in>set (db_Loaders db'). l_ID l = le_ID ldr \<and> holds l)) \<and>
    tar_Open (api_Manifest env) (m_Content m) = Inr ts \<and>
    response_entries (api_Manifest env) [] ts = Inr (mresp_Entries resp) \<and>
    mresp_Signatures resp =
      map ms_PGPSignature (filter (\<lambda>s. ms_ManifestID s = m_ID m) (db_ManifestSigs db'))"
proof -
  have step: "api_step env db db'" using assms(2) by (rule api_step.call)
  have good: "good_db (api_RequiredSignatures env) db'"
    using assms(1) step good_empty by (meson manifests.run_inv rtranclp.rtrancl_into_rtrancl)
  obtain ldr where ldr: "hashAuthenticateLoader (api_Crypto env) (rq_LoaderKey rq) db = Inr ldr"
    and pass: "getAgentManifest env now (rq\<lparr>rq_LoaderID := le_ID ldr\<rparr>) db = (db', r)"
    using assms(2,3) by (auto simp: authenticateLoader_def Let_def split: if_splits sum.splits)
  from pass assms(3) obtain agt mf resp nm where
    mf: "locateManifestFromLoader env now (le_ID ldr) agt db = (db', Inr mf)"
    and resp: "toManifestResponse (api_Manifest env) mf = Inr resp"
    and items: "rsp_Items r = [ResponseItem (resp\<lparr>mresp_LoaderName := nm\<rparr>)]"
    by (auto simp: getAgentManifest_def recover_500_def bind_db_def ok_def ManifestParameters_Validate_def
        split: prod.splits sum.splits if_splits)
  from mf obtain mid where mid: "ManifestIDFromLoaderID (api_Loaders env) (le_ID ldr) db' = Inr mid"
    and get: "GetManifestFromID mid db' = Inr mf"
    by (auto simp: locateManifestFromLoader_def bind_db_def and_then_eq_Inr split: prod.splits sum.splits)
  from ManifestIDFromLoaderID_Inr [OF mid] obtain m rows where
    m: "m \<in> set (db_Manifests db')" "m_ID m = mid" "m_Status m = ''active''" "rows \<noteq> []"
    "api_Loaders env (and_expr ''id=$1'' (m_Target m)) [le_ID ldr] (db_Loaders db') = Inr rows"
    "\<forall>m'\<in>set (db_Manifests db'). m_Status m' = ''active'' \<and> m_Timestamp m' > m_Timestamp m \<longrightarrow>
       api_Loaders env (and_expr ''id=$1'' (m_Target m')) [le_ID ldr] (db_Loaders db') = Inr []" by blast
  have own: "\<exists>l\<in>set (db_Loaders db'). l_ID l = le_ID ldr \<and> holds l"
    if "one_condition (api_Loaders env) holds (m_Target m)" for holds
    using m(4,5) that by (auto simp: one_condition_def filter_empty_conv)
  have "row (\<lambda>x. m_ID x = mid) (db_Manifests db') = Inr m"
    by (rule row_unique [where k = m_ID]) (use good m(1,2) in \<open>simp_all add: good_db_def good_manifests_def\<close>)
  then have content: "mr_Content mf = m_Content m" and sigs: "mr_Signatures mf =
      map ms_PGPSignature (filter (\<lambda>s. ms_ManifestID s = mid) (db_ManifestSigs db'))"
    using get by (auto simp: GetManifestFromID_def)
  from resp content obtain ts where "tar_Open (api_Manifest env) (m_Content m) = Inr ts"
    "response_entries (api_Manifest env) [] ts = Inr (mresp_Entries resp)" "mresp_Signatures resp = mr_Signatures mf"
    by (auto simp: toManifestResponse_def split: if_splits sum.splits)
  with ldr items m good_signers [OF good m(1,3)] own sigs show ?thesis
    by (intro exI [of _ ldr] exI [of _ m] exI [of _ rows] exI [of _ "resp\<lparr>mresp_LoaderName := nm\<rparr>"] exI [of _ ts]) simp
qed

text \<open>
  An expression with \<open>OR\<close> is not one condition: \<open>AND\<close> binds tighter, so the part behind \<open>OR\<close> is looked for in all rows. A
  manifest for such a target goes to every loader as soon as any loader meets that part, and such an
  expected environment is taken to be met by a loader that meets neither part.
\<close>

theorem or_expression_ignores_loader:
  assumes "\<And>lid ls. query (and_expr ''id=$1'' e) [lid] ls = Inr (filter (\<lambda>l. l_ID l = lid \<and> p l \<or> q l) ls)"
    and "other \<in> set (db_Loaders db)" and "q other"
  shows "(\<forall>lid m. filter (\<lambda>m. m_Status m = ''active'') (db_Manifests db) = [m] \<and> m_Target m = e \<longrightarrow>
      ManifestIDFromLoaderID query lid db = Inr (m_ID m)) \<and>
    (\<forall>l. row (\<lambda>x. l_ID x = l_ID l) (db_Loaders db) = Inr l \<and> l_ExpectEnv l = Some e \<longrightarrow>
      CompareLoaderExpectEnv query (l_ID l) db = Inr ())"
proof -
  have "filter (\<lambda>l. l_ID l = lid \<and> p l \<or> q l) (db_Loaders db) \<noteq> []" for lid
    using assms(2,3) by (auto simp: filter_empty_conv)
  then show ?thesis by (auto simp: ManifestIDFromLoaderID_def CompareLoaderExpectEnv_def assms(1))
qed

text \<open>
  The key that \<open>newLoader\<close> hands out works, but only once an administrator has enabled the loader:
  directly after creation authentication with it fails, and after \<open>statusLoader\<close> enables the entry it
  succeeds and yields that entry.
\<close>

theorem newLoader_key_authenticates:
  assumes "good_db req db" and "crypto_lengths (api_Crypto env)"
    and "newLoader env now rs rs' rq db = (db1, r)" and "rsp_Items r = [LoaderItem le]"
    and "statusLoader env rq' db1 = (db2, r')" and "rq_FormValue rq' ''status'' = ''enabled''"
    and "api_ParseFloat env (rq_FormValue rq' ''loaderid'') = Inr (le_ID le)"
  shows "\<not> is_ok (hashAuthenticateLoader (api_Crypto env) (le_Prefix le @ le_Key le) db1) \<and>
    (\<exists>le'. hashAuthenticateLoader (api_Crypto env) (le_Prefix le @ le_Key le) db2 = Inr le' \<and>
       le_ID le' = le_ID le \<and> le_Name le' = le_Name le)"
proof -
  let ?cr = "api_Crypto env"
  let ?key = "le_Prefix le @ le_Key le"
  from newLoader_adds [OF assms(3,4)] obtain hk salt where
    le: "le_Prefix le = GenerateLoaderPrefix rs" "le_Key le = GenerateLoaderKey rs'" "le_ID le = db_LoaderSeq db"
    and hash: "rand_Read ?cr 16 = Inr salt" "hk = pbkdf2_Key ?cr (le_Key le) salt 32"
    and fresh: "\<forall>l\<in>set (db_Loaders db). l_KeyPrefix l \<noteq> le_Prefix le"
    and db1: "db_Loaders db1 = db_Loaders db @ [new_loader_row now le hk salt]" by blast
  have key: "alnum_string 40 ?key" "take 8 ?key = le_Prefix le" "drop 8 ?key = le_Key le"
    using generated_key_valid(2) [of rs rs'] by (simp_all add: le ValidateLoaderPrefixAndKey_Inr)
  have lens: "length hk = 32" "length salt = 16"
    using assms(2) hash by (auto simp: crypto_lengths_def)
  let ?row = "new_loader_row now le hk salt"
  have "find (\<lambda>l. l_KeyPrefix l = le_Prefix le \<and> l_Enabled l) (db_Loaders db1) = None"
    using fresh by (auto simp: db1 find_None_iff new_loader_row_def)
  then have before: "\<not> is_ok (hashAuthenticateLoader ?cr ?key db1)"
    unfolding is_ok_iff hashAuthenticateLoader_Inr key by (simp add: row_Inr)
  have db2: "db_Loaders db2 = update_rows (\<lambda>l. l_ID l = le_ID le) (\<lambda>l. l\<lparr>l_Enabled := True\<rparr>) (db_Loaders db1)"
    using assms(5,6,7)
    by (auto simp: statusLoader_def recover_500_def bind_db_def ok_def LoaderUpdateStatus_def)
  have old: "\<forall>l\<in>set (db_Loaders db). l_ID l \<noteq> le_ID le"
    using assms(1) le(3) by (auto simp: good_db_def good_loaders_def)
  then have rows: "db_Loaders db2 = db_Loaders db @ [?row\<lparr>l_Enabled := True\<rparr>]"
    by (simp add: db2 db1 update_rows_def new_loader_row_def map_idI)
  have find_new: "row (\<lambda>l. l_KeyPrefix l = le_Prefix le \<and> l_Enabled l) (db_Loaders db2)
      = Inr (?row\<lparr>l_Enabled := True\<rparr>)"
    using fresh by (simp add: rows row_Inr new_loader_row_def find_append_None)
  have "row (\<lambda>l. l_ID l = le_ID le) (db_Loaders db2) = Inr (?row\<lparr>l_Enabled := True\<rparr>)"
    using old by (simp add: rows row_Inr new_loader_row_def find_append_None)
  then have "\<exists>le'. GetLoaderFromID (le_ID le) db2 = Inr le' \<and> le_ID le' = le_ID le \<and> le_Name le' = le_Name le"
    by (simp add: GetLoaderFromID_def new_loader_row_def)
  then obtain le' where "GetLoaderFromID (le_ID le) db2 = Inr le'" "le_ID le' = le_ID le" "le_Name le' = le_Name le"
    by blast
  with before find_new lens hash(2) key show ?thesis
    by (auto simp: hashAuthenticateLoader_Inr new_loader_row_def)
qed

section \<open>A concrete run\<close>

definition form_of :: "(string \<times> string) list \<Rightarrow> string \<Rightarrow> string" where
  "form_of kvs k = (case map_of kvs k of Some v \<Rightarrow> v | None \<Rightarrow> [])"

definition post_of :: "(string \<times> string) list \<Rightarrow> request" where
  "post_of kvs = \<lparr>rq_FormValue = form_of kvs, rq_Query = [], rq_InvID = 7, rq_LoaderID = 0, rq_LoaderKey = []\<rparr>"

definition example_api :: api_env where
  "example_api = \<lparr>api_RequiredSignatures = 1,
     api_ParseFloat = (\<lambda>s. if s = ''1'' then Inr 1 else Inl (errors_New ''invalid syntax'')),
     api_ManifestRecord = (\<lambda>_. Inr example_manifest),
     api_LoaderEntry = (\<lambda>s. Inr \<lparr>le_ID = 0, le_Name = s, le_Prefix = [], le_Key = [], le_AgentName = [],
        le_LastSeen = 0, le_Enabled = False, le_ExpectEnv = []\<rparr>),
     api_Parameters = (\<lambda>s. Inr (zero_agent\<lparr>agt_Name := ''host''\<rparr>, s)),
     api_Manifest = example_env,
     api_Crypto = \<lparr>rand_Read = (\<lambda>n. Inr (replicate n 0)), pbkdf2_Key = (\<lambda>k s n. replicate n 1)\<rparr>,
     api_Loaders = (\<lambda>w args ls. Inr (if w = and_expr ''id=$1'' ''true'' then filter (\<lambda>l. [l_ID l] = args) ls else []))\<rparr>"

definition example_loader_row :: loader_row where
  "example_loader_row = \<lparr>l_ID = 1, l_LoaderName = ''ldr'', l_KeyPrefix = replicate 8 CHR ''a'',
     l_LoaderKey = replicate 32 1, l_Salt = replicate 16 0, l_Name = None, l_Env = None, l_Tags = None,
     l_LastSeen = 3, l_Enabled = False, l_ExpectEnv = None, l_QueueLoc = None\<rparr>"

definition example_manifest_row :: manifest_row where
  "example_manifest_row = \<lparr>m_ID = 1, m_Name = ''m'', m_Content = ''tgz'', m_Timestamp = 5,
     m_Status = ''staged'', m_Target = ''true''\<rparr>"

definition example_db1 :: manifest_db where
  "example_db1 = empty_db\<lparr>db_Loaders := [example_loader_row], db_LoaderSeq := 2\<rparr>"
definition example_db2 :: manifest_db where
  "example_db2 = example_db1\<lparr>db_Loaders := [example_loader_row\<lparr>l_Enabled := True\<rparr>]\<rparr>"
definition example_db3 :: manifest_db where
  "example_db3 = example_db2\<lparr>db_Manifests := [example_manifest_row], db_ManifestSeq := 2\<rparr>"
definition example_db4 :: manifest_db where
  "example_db4 = example_db3\<lparr>db_Manifests := [example_manifest_row\<lparr>m_Status := ''active''\<rparr>],
     db_ManifestSigs := [\<lparr>ms_ManifestID = 1, ms_InvestigatorID = 7, ms_PGPSignature = ''a=''\<rparr>]\<rparr>"
definition example_db5 :: manifest_db where
  "example_db5 = example_db4\<lparr>db_Manifests := [example_manifest_row\<lparr>m_Status := ''disabled''\<rparr>]\<rparr>"

definition example_loader_entry :: loader_entry where
  "example_loader_entry = \<lparr>le_ID = 1, le_Name = ''ldr'', le_Prefix = replicate 8 CHR ''a'',
     le_Key = replicate 32 CHR ''a'', le_AgentName = [], le_LastSeen = 0, le_Enabled = False,
     le_ExpectEnv = []\<rparr>"

lemma rand_fill_0: "rand_fill (\<lambda>_. 0) i n = replicate n CHR ''a''"
  by (induction n arbitrary: i) (simp_all add: lset_def)

lemma example_keys:
  "GenerateLoaderPrefix (\<lambda>_. 0) = replicate 8 CHR ''a''"
  "GenerateLoaderKey (\<lambda>_. 0) = replicate 32 CHR ''a''"
  by (simp_all only: GenerateLoaderPrefix_def GenerateLoaderKey_def RandAPIKeyString_def rand_fill_0
      loader_lengths)

lemma example_step1:
  "newLoader example_api 3 (\<lambda>_. 0) (\<lambda>_. 0) (post_of [(''loader'', ''ldr'')]) empty_db =
     (example_db1, \<lparr>rsp_Code = 201, rsp_Error = None, rsp_Items = [LoaderItem example_loader_entry]\<rparr>)"
proof -
  have "ValidateLoaderPrefixAndKey (replicate 8 CHR ''a'' @ replicate 32 CHR ''a'') = Inr ()"
    using generated_key_valid(2) [of "\<lambda>_. 0" "\<lambda>_. 0"] by (simp only: example_keys)
  moreover have "replicate 32 CHR ''a'' \<noteq> []" by simp
  ultimately show ?thesis
    unfolding newLoader_def
    by (simp add: example_keys post_of_def form_of_def example_api_def bind_db_def recover_500_def ok_def
        LoaderEntry_Validate_always Let_def hashAPIKey_def LoaderAdd_def empty_db_def example_db1_def
        example_loader_row_def example_loader_entry_def loader_lengths del: replicate.simps)
qed

lemma example_step2:
  "statusLoader example_api (post_of [(''loaderid'', ''1''), (''status'', ''enabled'')]) example_db1 =
     (example_db2, \<lparr>rsp_Code = 200, rsp_Error = None, rsp_Items = []\<rparr>)"
  by (simp add: statusLoader_def post_of_def form_of_def example_api_def bind_db_def recover_500_def ok_def
      LoaderUpdateStatus_def update_rows_def example_db1_def example_db2_def example_loader_row_def)

lemma example_step3:
  "newManifest example_api 5 (post_of [(''manifest'', ''x'')]) example_db2 =
     (example_db3, \<lparr>rsp_Code = 201, rsp_Error = None, rsp_Items = []\<rparr>)"
  using example_toManifestResponse
  by (simp add: newManifest_def post_of_def form_of_def example_api_def bind_db_def recover_500_def ok_def
      ManifestRecord_Validate_def ManifestAdd_def example_manifest_def example_db3_def example_manifest_row_def
      example_db2_def example_db1_def empty_db_def)

lemma example_step4:
  "signManifest example_api (post_of [(''manifestid'', ''1''), (''signature'', ''a='')]) example_db3 =
     (example_db4, \<lparr>rsp_Code = 200, rsp_Error = None, rsp_Items = []\<rparr>)"
  by (simp add: signManifest_def post_of_def form_of_def example_api_def bind_db_def recover_500_def ok_def
      ManifestAddSignature_def ManifestUpdateStatus_def sig_count_def update_rows_def Let_def
      example_db4_def example_db3_def example_db2_def example_db1_def empty_db_def example_manifest_row_def)

lemma example_step5:
  "statusManifest example_api (post_of [(''manifestid'', ''1''), (''status'', ''disabled'')]) example_db4 =
     (example_db5, \<lparr>rsp_Code = 200, rsp_Error = None, rsp_Items = []\<rparr>)"
  by (simp add: statusManifest_def post_of_def form_of_def example_api_def bind_db_def recover_500_def ok_def
      ManifestDisable_def update_rows_def Let_def example_db5_def example_db4_def example_manifest_row_def)

lemma example_run_steps:
  "(api_step example_api)\<^sup>*\<^sup>* empty_db example_db4" "(api_step example_api)\<^sup>*\<^sup>* example_db4 example_db5"
proof -
  have "api_step example_api empty_db example_db1"
    by (rule api_step.call [where c = "NewLoader 3 (\<lambda>_. 0) (\<lambda>_. 0) (post_of [(''loader'', ''ldr'')])"])
      (simp add: example_step1)
  moreover have "api_step example_api example_db1 example_db2"
    by (rule api_step.call
        [where c = "StatusLoader (post_of [(''loaderid'', ''1''), (''status'', ''enabled'')])"])
      (simp add: example_step2)
  moreover have "api_step example_api example_db2 example_db3"
    by (rule api_step.call [where c = "NewManifest 5 (post_of [(''manifest'', ''x'')])"])
      (simp add: example_step3)
  moreover have "api_step example_api example_db3 example_db4"
    by (rule api_step.call
        [where c = "SignManifest (post_of [(''manifestid'', ''1''), (''signature'', ''a='')])"])
      (simp add: example_step4)
  ultimately show "(api_step example_api)\<^sup>*\<^sup>* empty_db example_db4" 
    by (meson rtranclp.rtrancl_refl rtranclp.rtrancl_into_rtrancl)
  have "api_step example_api example_db4 example_db5"
    by (rule api_step.call
        [where c = "StatusManifest (post_of [(''manifestid'', ''1''), (''status'', ''disabled'')])"])
      (simp add: example_step5)
  then show "(api_step example_api)\<^sup>*\<^sup>* example_db4 example_db5" by blast
qed

theorem manifest_lifecycle_witness:
  "m_Status (hd (db_Manifests example_db4)) = ''active'' \<and> length (signers example_db4 1) \<ge> 1 \<and>
   (\<exists>m'\<in>set (db_Manifests example_db5). m_ID m' = 1 \<and> m_Content m' = ''tgz'')"
  using manifest_lifecycle [OF example_run_steps]
  by (auto simp: example_db4_def example_manifest_row_def example_api_def)

theorem newLoader_key_authenticates_witness:
  "\<exists>le'. hashAuthenticateLoader (api_Crypto example_api)
     (replicate 8 CHR ''a'' @ replicate 32 CHR ''a'') example_db2 = Inr le' \<and> le_Name le' = ''ldr''"
proof -
  have "crypto_lengths (api_Crypto example_api)" by (simp add: crypto_lengths_def example_api_def)
  from newLoader_key_authenticates [OF good_empty this example_step1 _ example_step2]
  show ?thesis
    by (auto simp: post_of_def form_of_def example_api_def example_loader_entry_def simp del: replicate.simps)
qed

definition agent_request :: request where
  "agent_request = (post_of [(''parameters'', ''p'')])\<lparr>rq_LoaderKey :=
     replicate 8 CHR ''a'' @ replicate 32 CHR ''a''\<rparr>"

lemma example_served:
  "rsp_Code (snd (serve example_api (GetAgentManifest 9 agent_request) example_db4)) = 200"
proof -
  let ?key = "replicate 8 CHR ''a'' @ replicate 32 CHR ''a''"
  have valid: "ValidateLoaderPrefixAndKey ?key = Inr ()"
    using generated_key_valid(2) [of "\<lambda>_. 0" "\<lambda>_. 0"] by (simp only: example_keys)
  then have "alnum_string 40 ?key" by (simp only: ValidateLoaderPrefixAndKey_Inr)
  then have auth: "\<exists>ldr. hashAuthenticateLoader (api_Crypto example_api) ?key example_db4 = Inr ldr \<and> le_ID ldr = 1"
    by (simp add: hashAuthenticateLoader_Inr row_def example_db4_def example_db3_def example_db2_def example_loader_row_def
        example_api_def GetLoaderFromID_def del: replicate.simps)
  then obtain ldr where ldr: "hashAuthenticateLoader (api_Crypto example_api) ?key example_db4 = Inr ldr" "le_ID ldr = 1"
    by blast
  have "rsp_Code (snd (getAgentManifest example_api 9 (agent_request\<lparr>rq_LoaderID := 1\<rparr>) example_db4)) = 200"
    using example_toManifestResponse
    by (simp add: getAgentManifest_def agent_request_def post_of_def form_of_def example_api_def bind_db_def
        recover_500_def ok_def ManifestParameters_Validate_def locateManifestFromLoader_def
        UpdateLoaderEntry_def zero_agent_def CompareLoaderExpectEnv_def row_def
        ManifestIDFromLoaderID_def GetManifestFromID_def GetLoaderName_def update_rows_def
        example_db4_def example_db3_def example_db2_def example_db1_def empty_db_def example_loader_row_def example_manifest_row_def
        toManifestResponse_def example_env_def del: replicate.simps)
  then show ?thesis
    using valid ldr
    by (simp add: authenticateLoader_def agent_request_def del: replicate.simps)
qed

theorem served_manifest_is_active_witness:
  "\<exists>resp. rsp_Items (snd (serve example_api (GetAgentManifest 9 agent_request) example_db4)) = [ResponseItem resp]"
  using served_manifest_is_active [OF example_run_steps(1) prod.collapse [symmetric] example_served]
  by blast

definition or_query :: loader_query where
  "or_query w args ls = Inr (filter (\<lambda>l. [l_ID l] = args \<and> l_LoaderName l = ''a'' \<or> l_LoaderName l = ''b'') ls)"

definition or_db :: manifest_db where
  "or_db = empty_db\<lparr>db_Loaders := [example_loader_row\<lparr>l_ExpectEnv := Some ''x''\<rparr>,
       example_loader_row\<lparr>l_ID := 2, l_LoaderName := ''b''\<rparr>],
     db_Manifests := [example_manifest_row\<lparr>m_Status := ''active'', m_Target := ''x''\<rparr>]\<rparr>"

theorem or_expression_ignores_loader_witness:
  "ManifestIDFromLoaderID or_query 1 or_db = Inr 1 \<and> CompareLoaderExpectEnv or_query 1 or_db = Inr ()"
proof -
  have other: "example_loader_row\<lparr>l_ID := 2, l_LoaderName := ''b''\<rparr> \<in> set (db_Loaders or_db)" by (simp add: or_db_def)
  have q: "or_query (and_expr ''id=$1'' ''x'') [lid] ls =
      Inr (filter (\<lambda>l. l_ID l = lid \<and> l_LoaderName l = ''a'' \<or> l_LoaderName l = ''b'') ls)" for lid ls
    by (simp add: or_query_def)
  from or_expression_ignores_loader [of or_query "''x''" "\<lambda>l. l_LoaderName l = ''a''" "\<lambda>l. l_LoaderName l = ''b''", OF q other]
  have "(\<forall>lid m. filter (\<lambda>m. m_Status m = ''active'') (db_Manifests or_db) = [m] \<and> m_Target m = ''x'' \<longrightarrow>
      ManifestIDFromLoaderID or_query lid or_db = Inr (m_ID m)) \<and>
    (\<forall>l. row (\<lambda>x. l_ID x = l_ID l) (db_Loaders or_db) = Inr l \<and> l_ExpectEnv l = Some ''x'' \<longrightarrow>
      CompareLoaderExpectEnv or_query (l_ID l) or_db = Inr ())" by simp
  then show ?thesis
    by (elim conjE allE [where x = 1] allE [where x = "example_manifest_row\<lparr>m_Status := ''active'', m_Target := ''x''\<rparr>"]
        allE [where x = "example_loader_row\<lparr>l_ExpectEnv := Some ''x''\<rparr>"])
      (simp add: or_db_def row_def example_loader_row_def example_manifest_row_def)
qed

end
