(* ===== verification/InvestigatorApi.thy ===== *)
theory InvestigatorApi
  imports ManifestApi
begin

text \<open>
  Investigators: their table (\<open>database/investigators.go\<close>), the endpoints that create and update them
  (\<open>mig-api/investigator_endpoints.go\<close>), and the authentication of investigators by signed tokens and
  by API keys (\<open>mig-api/pgp.go\<close>, \<open>mig-api/apikey.go\<close>, \<open>mig-api/api.go\<close>).

  The state is the table and the cached keyring. A request happens at one instant \<open>now\<close>.
  \<open>time.Parse\<close> and \<open>net.ParseIP\<close> are arguments; the text of log messages is left out.
\<close>

section \<open>The table\<close>

record inv_row =
  i_ID :: int
  i_Name :: string
  i_PGPFingerprint :: "string option"
  i_PublicKey :: "string option"
  i_PrivateKey :: "string option"
  i_Status :: string
  i_CreatedAt :: time
  i_LastModified :: time
  i_Permissions :: mask
  i_APIKey :: "byte8 list option"
  i_APISalt :: "byte8 list option"

record inv_db =
  idb_Rows :: "inv_row list"
  idb_Seq :: int

definition StatusActiveInvestigator :: string where "StatusActiveInvestigator = ''active''"
definition StatusDisabledInvestigator :: string where "StatusDisabledInvestigator = ''disabled''"

record api_auth_helper =
  ah_ID :: int
  ah_APIKey :: "byte8 list"
  ah_Salt :: "byte8 list"

definition ActiveInvestigatorsPubKeys :: "inv_db \<Rightarrow> string list" where
  "ActiveInvestigatorsPubKeys db =
     map (\<lambda>i. the (i_PublicKey i))
       (filter (\<lambda>i. i_Status i = ''active'' \<and> i_PublicKey i \<noteq> None) (idb_Rows db))"

definition opt_text :: "string option \<Rightarrow> string" where
  "opt_text x = (case x of Some s \<Rightarrow> s | None \<Rightarrow> [])"

definition InvestigatorByID :: "int \<Rightarrow> inv_db \<Rightarrow> investigator result" where
  "InvestigatorByID iid db =
     (case row (\<lambda>i. i_ID i = iid) (idb_Rows db) of
        Inl e \<Rightarrow> Inl (Errorf (''Error while retrieving investigator: '' @ quoted ''%v'') [AErr e])
      | Inr i \<Rightarrow>
          Inr \<lparr>inv_ID = i_ID i, inv_Name = i_Name i, inv_PGPFingerprint = opt_text (i_PGPFingerprint i),
               inv_PublicKey = opt_text (i_PublicKey i), inv_PrivateKey = [], inv_Status = i_Status i,
               inv_CreatedAt = i_CreatedAt i, inv_LastModified = i_LastModified i,
               inv_APIKey = (if i_APIKey i \<noteq> None then ''set'' else []),
               inv_Permissions = FromMask no_perms (i_Permissions i)\<rparr>)"

definition InvestigatorByFingerprint :: "string \<Rightarrow> inv_db \<Rightarrow> investigator result" where
  "InvestigatorByFingerprint fp db =
     (case row (\<lambda>i. case i_PGPFingerprint i of None \<Rightarrow> False | Some f \<Rightarrow> ToLower f = ToLower fp)
             (idb_Rows db) of
        Inl _ \<Rightarrow> Inl (Errorf (''InvestigatorByFingerprint: no investigator found for fingerprint ''
                       @ quoted ''%s'') [AStr fp])
      | Inr i \<Rightarrow>
          Inr \<lparr>inv_ID = i_ID i, inv_Name = i_Name i, inv_PGPFingerprint = opt_text (i_PGPFingerprint i),
               inv_PublicKey = opt_text (i_PublicKey i), inv_PrivateKey = [], inv_Status = i_Status i,
               inv_CreatedAt = i_CreatedAt i, inv_LastModified = i_LastModified i, inv_APIKey = [],
               inv_Permissions = FromMask no_perms (i_Permissions i)\<rparr>)"

definition InvestigatorAPIKeyAuthHelpers :: "inv_db \<Rightarrow> api_auth_helper list" where
  "InvestigatorAPIKeyAuthHelpers db =
     map (\<lambda>i. \<lparr>ah_ID = i_ID i, ah_APIKey = the (i_APIKey i), ah_Salt = the (i_APISalt i)\<rparr>)
       (filter (\<lambda>i. i_APIKey i \<noteq> None \<and> i_APISalt i \<noteq> None \<and> i_Status i = ''active'') (idb_Rows db))"

text \<open>
  The new row of \<open>InsertInvestigator\<close>. \<open>NULLIF\<close> makes an empty fingerprint or key null; the unique
  index on fingerprints ignores nulls. The sequence advances even when the insert fails.
\<close>

definition InsertInvestigator :: "time \<Rightarrow> investigator \<Rightarrow> inv_db \<Rightarrow> inv_db \<times> int result" where
  "InsertInvestigator now iv db =
     (let fp = (if inv_PGPFingerprint iv = [] then None else Some (inv_PGPFingerprint iv));
          db' = db\<lparr>idb_Seq := idb_Seq db + 1\<rparr>
      in if fp \<noteq> None \<and> (\<exists>i\<in>set (idb_Rows db). i_PGPFingerprint i = fp)
         then (db', Inl (errors_New (''Investigator'' @ [CHR 0x27] @
                                     ''s PGP Fingerprint already exists in database'')))
         else (db'\<lparr>idb_Rows := idb_Rows db @
                [\<lparr>i_ID = idb_Seq db, i_Name = inv_Name iv, i_PGPFingerprint = fp,
                  i_PublicKey = (if inv_PublicKey iv = [] then None else Some (inv_PublicKey iv)),
                  i_PrivateKey = None, i_Status = ''active'', i_CreatedAt = now, i_LastModified = now,
                  i_Permissions = ToMask (inv_Permissions iv), i_APIKey = None, i_APISalt = None\<rparr>]\<rparr>,
               Inr (idb_Seq db)))"

definition UpdateInvestigatorStatus :: "investigator \<Rightarrow> inv_db \<Rightarrow> inv_db \<times> unit result" where
  "UpdateInvestigatorStatus iv db =
     (if inv_Status iv \<noteq> StatusActiveInvestigator \<and> inv_Status iv \<noteq> StatusDisabledInvestigator
      then (db, Inl (Errorf (''Invalid investigator status '' @ quoted ''%s'') [AStr (inv_Status iv)]))
      else (db\<lparr>idb_Rows := update_rows (\<lambda>i. i_ID i = inv_ID iv) (\<lambda>i. i\<lparr>i_Status := inv_Status iv\<rparr>)
                            (idb_Rows db)\<rparr>, Inr ()))"

definition UpdateInvestigatorAPIKey ::
  "investigator \<Rightarrow> byte8 list \<Rightarrow> byte8 list \<Rightarrow> inv_db \<Rightarrow> inv_db" where
  "UpdateInvestigatorAPIKey iv key salt db =
     db\<lparr>idb_Rows := update_rows (\<lambda>i. i_ID i = inv_ID iv)
          (\<lambda>i. if length key = 0 then i\<lparr>i_APIKey := None, i_APISalt := None\<rparr>
               else i\<lparr>i_APIKey := Some key, i_APISalt := Some salt\<rparr>) (idb_Rows db)\<rparr>"

definition admin_mask :: mask where "admin_mask = ToMask (AdminSet no_perms)"

definition UpdateInvestigatorPerms :: "investigator \<Rightarrow> inv_db \<Rightarrow> inv_db \<times> unit result" where
  "UpdateInvestigatorPerms iv db =
     (let m = ToMask (inv_Permissions iv);
          update = (db\<lparr>idb_Rows := update_rows (\<lambda>i. i_ID i = inv_ID iv) (\<lambda>i. i\<lparr>i_Permissions := m\<rparr>)
                                    (idb_Rows db)\<rparr>, Inr ())
      in if and m PermInvestigator = 0 \<or> and m PermInvestigatorUpdate = 0
         then (let cnt = length (filter (\<lambda>i. and (i_Permissions i) admin_mask \<noteq> 0 \<and> i_ID i \<noteq> inv_ID iv)
                           (idb_Rows db))
               in if cnt < 1
                  then (db, Inl (Errorf (''Failed to update investigator: '' @
                                         quoted ''will not remove last admin'') []))
                  else update)
         else update)"

section \<open>Authentication state and environment\<close>

record inv_state =
  st_DB :: inv_db
  st_Keyring :: "string option"
  st_KeyringTime :: time

record 'ring auth_env =
  ae_Enabled :: bool
  ae_Duration :: duration
  ae_ParseTime :: "string \<Rightarrow> time result"
  ae_PGP :: "'ring openpgp"
  ae_Crypto :: crypto

section \<open>Signed tokens\<close>

definition makeKeyring :: "'ring auth_env \<Rightarrow> inv_db \<Rightarrow> string result" where
  "makeKeyring env db =
     recovered ''makeKeyring''
       (case ArmoredKeysToKeyring (ae_PGP env) (ActiveInvestigatorsPubKeys db) of
          Inl e \<Rightarrow> Inl e
        | Inr (keyring, keycount) \<Rightarrow> Inr keyring)"

definition getKeyring :: "'ring auth_env \<Rightarrow> time \<Rightarrow> inv_state \<Rightarrow> inv_state \<times> string result" where
  "getKeyring env now st =
     (if st_KeyringTime st < now + - 5 * minute
      then (case makeKeyring env (st_DB st) of
              Inl e \<Rightarrow> (st\<lparr>st_Keyring := None\<rparr>, recovered ''getKeyring'' (Inl e))
            | Inr kr \<Rightarrow> (st\<lparr>st_Keyring := Some kr, st_KeyringTime := now\<rparr>, Inr kr))
      else (case st_Keyring st of
              None \<Rightarrow> (st, recovered ''getKeyring'' (Inl (errors_New ''nil pointer dereference'')))
            | Some kr \<Rightarrow> (st, Inr kr)))"

definition verifySignedToken ::
  "'ring auth_env \<Rightarrow> time \<Rightarrow> string \<Rightarrow> inv_state \<Rightarrow> inv_state \<times> investigator result" where
  "verifySignedToken env now token st =
     (let parts = Split token CHR '';'';
          failed = (\<lambda>e. (st, recovered ''verifySignedToken'' (Inl e)))
      in if length parts \<noteq> 4 then failed (errors_New ''invalid token format'')
         else (let tv = parts ! 0; tstr = parts ! 1; nonce = parts ! 2; sig = parts ! 3
               in if tv \<noteq> ''1'' then failed (errors_New ''invalid token version, must be 1'')
                  else (case ae_ParseTime env tstr of
                          Inl e \<Rightarrow> failed e
                        | Inr ts \<Rightarrow>
                            (let early = now + - ae_Duration env; late = now + ae_Duration env
                             in if ts < early \<or> ts > late
                                then failed (errors_New ''token timestamp is not within acceptable time limits'')
                                else (case getKeyring env now st of
                                        (st', Inl e) \<Rightarrow> (st', recovered ''verifySignedToken'' (Inl e))
                                      | (st', Inr keyring) \<Rightarrow>
                                          (st', recovered ''verifySignedToken''
                                             (case GetFingerprintFromSignature (ae_PGP env)
                                                     (tv @ '';'' @ tstr @ '';'' @ nonce @ [newline]) sig keyring of
                                                Inl e \<Rightarrow> Inl e
                                              | Inr fp \<Rightarrow>
                                                  if fp = [] then Inl (errors_New ''token verification failed'')
                                                  else InvestigatorByFingerprint fp (st_DB st'))))))))"

section \<open>API keys\<close>

definition api_key_failed :: go_error where "api_key_failed = errors_New ''API key authentication failed''"

fun try_api_keys :: "crypto \<Rightarrow> string \<Rightarrow> inv_db \<Rightarrow> api_auth_helper list \<Rightarrow> investigator result" where
  "try_api_keys cr key db [] = Inl api_key_failed"
| "try_api_keys cr key db (x # xs) =
     (case hashAPIKey cr key (Some (ah_Salt x)) (length (ah_APIKey x)) (length (ah_Salt x)) of
        Inl _ \<Rightarrow> Inl api_key_failed
      | Inr (tryhash, _) \<Rightarrow>
          if tryhash = ah_APIKey x
          then (case InvestigatorByID (ah_ID x) db of Inl _ \<Rightarrow> Inl api_key_failed | Inr iv \<Rightarrow> Inr iv)
          else try_api_keys cr key db xs)"

definition verifyAPIKey :: "crypto \<Rightarrow> string \<Rightarrow> inv_db \<Rightarrow> investigator result" where
  "verifyAPIKey cr key db = try_api_keys cr key db (InvestigatorAPIKeyAuthHelpers db)"

section \<open>Authorization of a request\<close>

record auth_request =
  aq_PGPAuthorization :: string
  aq_APIKey :: string

definition unauthorized :: "go_error \<Rightarrow> response" where
  "unauthorized e = \<lparr>rsp_Code = 401, rsp_Error = Some e, rsp_Items = []\<rparr>"

definition auth_disabled :: investigator where
  "auth_disabled = \<lparr>inv_ID = 0, inv_Name = ''authdisabled'', inv_PGPFingerprint = [], inv_PublicKey = [],
     inv_PrivateKey = [], inv_Status = [], inv_CreatedAt = zero_time, inv_LastModified = zero_time,
     inv_APIKey = [], inv_Permissions = AdminSet (LoaderSet (ManifestSet (DefaultSet no_perms)))\<rparr>"

definition verification_failed :: "'a result \<Rightarrow> 'a result" where
  "verification_failed r =
     (case r of
        Inl e \<Rightarrow> Inl (Errorf (''Authorization verification failed with error '' @ quoted ''%v'') [AErr e])
      | Inr x \<Rightarrow> Inr x)"

text \<open>
  \<open>authenticate\<close>: either the response that refuses the request, or the investigator as whom the
  handler runs.
\<close>

definition authenticate ::
  "'ring auth_env \<Rightarrow> time \<Rightarrow> mask \<Rightarrow> auth_request \<Rightarrow> inv_state \<Rightarrow> inv_state \<times> (response + investigator)" where
  "authenticate env now requirePerm rq st =
     (if \<not> ae_Enabled env then (st, Inr auth_disabled)
      else
        (case (if aq_PGPAuthorization rq \<noteq> []
               then map_prod id verification_failed (verifySignedToken env now (aq_PGPAuthorization rq) st)
               else if aq_APIKey rq \<noteq> []
               then (st, verification_failed (verifyAPIKey (ae_Crypto env) (aq_APIKey rq) (st_DB st)))
               else (st, Inl (errors_New ''Valid authentication header not found''))) of
           (st', Inl e) \<Rightarrow> (st', Inl (unauthorized e))
         | (st', Inr iv) \<Rightarrow>
             if \<not> CheckPermission (inv_Permissions iv) requirePerm
             then (st', Inl (unauthorized (errors_New ''Insufficient permissions to access endpoint'')))
             else (st', Inr iv)))"

section \<open>Endpoints\<close>

text \<open>
  \<open>createInvestigator\<close>, from the form: a name, the permissions, and the public key file if one was
  uploaded.
\<close>

definition createInvestigator ::
  "'ring openpgp \<Rightarrow> time \<Rightarrow> string \<Rightarrow> InvestigatorPerms result \<Rightarrow> string option \<Rightarrow> inv_db \<Rightarrow>
     inv_db \<times> investigator result" where
  "createInvestigator pg now name perms publickey db =
     (if name = [] then (db, Inl (errors_New ''Investigator name must not be empty''))
      else bind_db (db, perms) (\<lambda>p db.
        bind_db
          (db, case publickey of
                 None \<Rightarrow> Inr ([], [])
               | Some key \<Rightarrow>
                   if length key = 0 then Inl (errors_New ''Investigator Public Key must not be empty'')
                   else (case LoadArmoredPubKey pg key of Inl e \<Rightarrow> Inl e | Inr fp \<Rightarrow> Inr (key, fp)))
          (\<lambda>(key, fp) db.
             (let iv = auth_disabled\<lparr>inv_Name := name, inv_Permissions := p, inv_PublicKey := key,
                          inv_PGPFingerprint := fp\<rparr>
              in bind_db (InsertInvestigator now iv db) (\<lambda>i db. (db, Inr (iv\<lparr>inv_ID := i\<rparr>)))))))"

definition APIKeyLength :: nat where "APIKeyLength = 32"
definition APIHashedKeyLength :: nat where "APIHashedKeyLength = 32"
definition APISaltLength :: nat where "APISaltLength = 16"

text \<open>
  \<open>updateInvestigator\<close>, from the form values: each update that is asked for takes effect at once, and a
  later one that fails does not undo it.
\<close>

definition updateInvestigator ::
  "crypto \<Rightarrow> (string \<Rightarrow> int result) \<Rightarrow> (string \<Rightarrow> InvestigatorPerms result) \<Rightarrow> (nat \<Rightarrow> nat) \<Rightarrow>
     (string \<Rightarrow> string) \<Rightarrow> inv_db \<Rightarrow> inv_db \<times> investigator result" where
  "updateInvestigator cr parse_id parse_perms rs form db =
     (let iid = form ''id''; status = form ''status''; invperm = form ''permissions''; apikey = form ''apikey''
      in if iid = [] then (db, Inl (errors_New ''Investigator ID must not be empty''))
         else bind_db (db, parse_id iid) (\<lambda>i db.
           if status = [] \<and> invperm = [] \<and> apikey = []
           then (db, Inl (errors_New ''No updates to the investigator were specified''))
           else
             (let iv = auth_disabled\<lparr>inv_Name := [], inv_ID := i, inv_Status := status,
                          inv_Permissions := no_perms\<rparr>
              in bind_db
                   (if status \<noteq> []
                    then bind_db (UpdateInvestigatorStatus iv db) (\<lambda>_ db. (db, Inr iv))
                    else (db, Inr iv)) (\<lambda>iv db.
                 bind_db
                   (if invperm \<noteq> []
                    then bind_db (db, parse_perms invperm) (\<lambda>p db.
                           bind_db (UpdateInvestigatorPerms (iv\<lparr>inv_Permissions := p\<rparr>) db) (\<lambda>_ db.
                             (db, Inr (iv\<lparr>inv_Permissions := p\<rparr>))))
                    else (db, Inr iv)) (\<lambda>iv db.
                   if apikey = [] then (db, Inr iv)
                   else if apikey = ''active''
                   then (let rkey = RandAPIKeyString rs APIKeyLength
                         in bind_db (db, hashAPIKey cr rkey None APIHashedKeyLength APISaltLength)
                              (\<lambda>(setkey, setsalt) db.
                                 (UpdateInvestigatorAPIKey iv setkey setsalt db,
                                  Inr (iv\<lparr>inv_APIKey := rkey\<rparr>))))
                   else if apikey \<noteq> ''disabled''
                   then (db, Inl (errors_New ''Invalid value for apikey parameter''))
                   else (UpdateInvestigatorAPIKey iv [] [] db, Inr iv))))))"

definition getInvestigator :: "(string \<Rightarrow> int result) \<Rightarrow> string list \<Rightarrow> inv_db \<Rightarrow> (response + investigator) result" where
  "getInvestigator parse_id query db =
     (case query of
        [] \<Rightarrow> Inl (errors_New ''index out of range'')
      | q # _ \<Rightarrow>
          (case parse_id q of
             Inl e \<Rightarrow> Inl (Errorf (''Wrong parameters '' @ quoted ''investigatorid'' @ '': '' @ quoted ''%v'') [AErr e])
           | Inr iid \<Rightarrow>
               if iid > 0
               then (case InvestigatorByID iid db of
                       Inl e \<Rightarrow>
                         if e = not_found_err ''investigator''
                         then Inr (Inl \<lparr>rsp_Code = 404, rsp_Error =
                                Some (Errorf (''Investigator ID '' @ quoted ''%.0f'' @ '' not found'') [AInt iid]),
                                rsp_Items = []\<rparr>)
                         else Inl e
                     | Inr iv \<Rightarrow> Inr (Inr iv))
               else Inr (Inl \<lparr>rsp_Code = 400, rsp_Error =
                          Some (Errorf (''Invalid Investigator ID '' @ quoted ''%.0f'') [AInt iid]),
                          rsp_Items = []\<rparr>)))"

section \<open>The client's address\<close>

definition parseClientPublicIP :: "string \<Rightarrow> int result" where
  "parseClientPublicIP s =
     (if s = ''peer'' then Inr (- 1)
      else recovered ''parseClientPublicIP''
        (let args = Split s CHR '':''
         in if length args \<noteq> 2 \<or> args ! 0 \<noteq> ''x-forwarded-for''
            then Inl (errors_New ''argument must be peer or x-forwarded-for:<int>'')
            else (case Atoi (args ! 1) of
                    Inl _ \<Rightarrow> Inl (errors_New ''x-forwarded-for argument must be positive integer or zero'')
                  | Inr ret \<Rightarrow>
                      if ret < 0
                      then Inl (errors_New ''x-forwarded-for argument must be positive integer or zero'')
                      else Inr ret)))"

fun trim_left_char :: "char \<Rightarrow> string \<Rightarrow> string" where
  "trim_left_char c [] = []"
| "trim_left_char c (x # s) = (if x = c then trim_left_char c s else x # s)"

definition trim_char :: "string \<Rightarrow> char \<Rightarrow> string" where
  "trim_char s c = rev (trim_left_char c (rev (trim_left_char c s)))"

text \<open>An index or slice out of range is a panic: \<open>Inl\<close>.\<close>

definition remotePublicIP :: "int \<Rightarrow> (string \<Rightarrow> bool) \<Rightarrow> string \<Rightarrow> string \<Rightarrow> string result" where
  "remotePublicIP offset is_ip remote_addr xff =
     (let checked = (\<lambda>useip. if is_ip useip then Inr useip else Inr ''0.0.0.0'')
      in if offset = - 1
         then (case LastIndex remote_addr CHR '':'' of
                 None \<Rightarrow> Inl (errors_New ''slice bounds out of range'')
               | Some i \<Rightarrow> checked (take i remote_addr))
         else if xff \<noteq> []
         then (let xargs = Split xff CHR '',''; n = int (length xargs)
               in if offset \<ge> n then checked (trim_char (xargs ! 0) CHR '' '')
                  else if (n - 1) - offset < 0 \<or> (n - 1) - offset \<ge> n
                  then Inl (errors_New ''index out of range'')
                  else checked (trim_char (xargs ! nat ((n - 1) - offset)) CHR '' ''))
         else Inr ''0.0.0.0'')"

section \<open>Lemmas\<close>

lemma verification_failed_Inr [simp]: "verification_failed r = Inr x \<longleftrightarrow> r = Inr x"
  by (simp add: verification_failed_def split: sum.splits)

lemma InvestigatorByFingerprint_Inr:
  assumes "InvestigatorByFingerprint fp db = Inr iv"
  shows "\<exists>i f. i \<in> set (idb_Rows db) \<and> i_PGPFingerprint i = Some f \<and> ToLower f = ToLower fp \<and>
    inv_ID iv = i_ID i \<and> inv_Permissions iv = FromMask no_perms (i_Permissions i)"
proof -
  from assms obtain i where
    i: "row (\<lambda>i. case i_PGPFingerprint i of None \<Rightarrow> False | Some f \<Rightarrow> ToLower f = ToLower fp) (idb_Rows db) = Inr i"
    and iv: "inv_ID iv = i_ID i" "inv_Permissions iv = FromMask no_perms (i_Permissions i)"
    by (auto simp: InvestigatorByFingerprint_def split: sum.splits)
  from row_InrD [OF i] iv show ?thesis by (auto split: option.splits)
qed

lemma InvestigatorByID_Inr:
  "InvestigatorByID iid db = Inr iv \<Longrightarrow> \<exists>i\<in>set (idb_Rows db). i_ID i = iid \<and> inv_ID iv = iid \<and>
     inv_Permissions iv = FromMask no_perms (i_Permissions i)"
  by (auto simp: InvestigatorByID_def dest!: row_InrD split: sum.splits)

lemma getKeyring_Inr:
  assumes "getKeyring env now st = (st', Inr kr)"
  shows "st_DB st' = st_DB st \<and> st_Keyring st' = Some kr \<and> now - 5 * minute \<le> st_KeyringTime st' \<and>
    (st_KeyringTime st < now - 5 * minute \<longrightarrow> makeKeyring env (st_DB st) = Inr kr \<and> st_KeyringTime st' = now) \<and>
    (\<not> st_KeyringTime st < now - 5 * minute \<longrightarrow> st' = st)"
  using assms by (auto simp: getKeyring_def split: if_splits sum.splits option.splits)

text \<open>What a token that was accepted shows, and what an API key that was accepted shows.\<close>

definition token_ok :: "'ring auth_env \<Rightarrow> time \<Rightarrow> string \<Rightarrow> string \<Rightarrow> string \<Rightarrow> bool" where
  "token_ok env now token keyring fp \<longleftrightarrow>
     (\<exists>tstr nonce sig ts ent. Split token CHR '';'' = [''1'', tstr, nonce, sig] \<and>
        ae_ParseTime env tstr = Inr ts \<and> now - ae_Duration env \<le> ts \<and> ts \<le> now + ae_Duration env \<and>
        Verify (ae_PGP env) (''1;'' @ tstr @ '';'' @ nonce @ [newline]) sig keyring = Inr ent \<and>
        fp = HexEncode (PrimaryKeyFingerprint ent))"

definition keyring_fresh :: "'ring auth_env \<Rightarrow> time \<Rightarrow> inv_state \<Rightarrow> string \<Rightarrow> bool" where
  "keyring_fresh env now st keyring \<longleftrightarrow>
     (if st_KeyringTime st < now - 5 * minute
      then makeKeyring env (st_DB st) = Inr keyring
      else st_Keyring st = Some keyring \<and> now - 5 * minute \<le> st_KeyringTime st)"

lemma length_4: "length xs = 4 \<Longrightarrow> xs = [xs ! 0, xs ! 1, xs ! 2, xs ! 3]"
  by (auto simp: length_Suc_conv eval_nat_numeral)

lemma verifySignedToken_Inr:
  assumes "verifySignedToken env now token st = (st', Inr iv)"
  shows "\<exists>keyring fp. token_ok env now token keyring fp \<and> keyring_fresh env now st keyring \<and>
    InvestigatorByFingerprint fp (st_DB st) = Inr iv"
proof -
  let ?parts = "Split token CHR '';''"
  obtain ts keyring fp where parts: "length ?parts = 4" "?parts ! 0 = ''1''"
    and ts: "ae_ParseTime env (?parts ! 1) = Inr ts" "now - ae_Duration env \<le> ts" "ts \<le> now + ae_Duration env"
    and kr: "getKeyring env now st = (st', Inr keyring)"
    and fp: "GetFingerprintFromSignature (ae_PGP env)
        (?parts ! 0 @ '';'' @ ?parts ! 1 @ '';'' @ ?parts ! 2 @ [newline]) (?parts ! 3) keyring = Inr fp"
    and iv: "InvestigatorByFingerprint fp (st_DB st') = Inr iv"
    using assms
    by (auto simp: verifySignedToken_def Let_def not_less split: if_splits sum.splits prod.splits)
  have "?parts = [''1'', ?parts ! 1, ?parts ! 2, ?parts ! 3]" using length_4 [OF parts(1)] parts(2) by simp
  moreover obtain ent where "Verify (ae_PGP env)
        (''1;'' @ ?parts ! 1 @ '';'' @ ?parts ! 2 @ [newline]) (?parts ! 3) keyring = Inr ent"
      "fp = HexEncode (PrimaryKeyFingerprint ent)"
    using fp parts(2) by (auto simp: GetFingerprint_Inr)
  ultimately have "token_ok env now token keyring fp"
    using ts unfolding token_ok_def by blast
  moreover have "keyring_fresh env now st keyring" "st_DB st' = st_DB st"
    using getKeyring_Inr [OF kr] by (auto simp: keyring_fresh_def)
  ultimately show ?thesis using iv by auto
qed

lemma verifyAPIKey_Inr:
  assumes "verifyAPIKey cr key db = Inr iv"
  shows "\<exists>i h s. i \<in> set (idb_Rows db) \<and> i_Status i = ''active'' \<and> i_APIKey i = Some h \<and>
    i_APISalt i = Some s \<and> pbkdf2_Key cr key s (length h) = h \<and> InvestigatorByID (i_ID i) db = Inr iv"
proof -
  have "\<exists>x\<in>set xs. pbkdf2_Key cr key (ah_Salt x) (length (ah_APIKey x)) = ah_APIKey x \<and>
      InvestigatorByID (ah_ID x) db = Inr iv" if "try_api_keys cr key db xs = Inr iv" for xs
    using that
    by (induction cr key db xs rule: try_api_keys.induct)
      (auto simp: hashAPIKey_def split: if_splits sum.splits)
  from this [of "InvestigatorAPIKeyAuthHelpers db"] assms show ?thesis
    by (force simp: verifyAPIKey_def InvestigatorAPIKeyAuthHelpers_def)
qed

section \<open>Administrators\<close>

text \<open>Somebody with at least one of the three administrative permissions.\<close>

definition some_admin :: "inv_db \<Rightarrow> bool" where
  "some_admin db \<longleftrightarrow> (\<exists>i\<in>set (idb_Rows db). and (i_Permissions i) admin_mask \<noteq> 0)"

definition admin_kept :: "inv_db \<Rightarrow> inv_db \<Rightarrow> bool" where
  "admin_kept db db' \<longleftrightarrow> (some_admin db \<longrightarrow> some_admin db')"

lemma admin_mask_eq:
  "admin_mask = or (or PermInvestigator PermInvestigatorCreate) PermInvestigatorUpdate"
  by (simp add: admin_mask_def ToMask_def AdminSet_def no_perms_def)

lemma admin_mask_Investigator: "and m PermInvestigator \<noteq> 0 \<Longrightarrow> and m admin_mask \<noteq> 0"
  by (simp add: admin_mask_eq bit.conj_disj_distrib or_eq_0_iff)

lemma admin_kept_refl [simp]: "admin_kept db db"
  by (simp add: admin_kept_def)

lemma admin_kept_bind:
  "admin_kept db (fst m) \<Longrightarrow> (\<And>x. snd m = Inr x \<Longrightarrow> admin_kept (fst m) (fst (k x (fst m)))) \<Longrightarrow>
     admin_kept db (fst (bind_db m k))"
  by (auto simp: bind_db_def admin_kept_def split: prod.splits sum.splits)

lemma admin_kept_update:
  "(\<And>i. i_Permissions (f i) = i_Permissions i) \<Longrightarrow>
     admin_kept db (db\<lparr>idb_Rows := update_rows p f (idb_Rows db)\<rparr>)"
  by (auto simp: admin_kept_def some_admin_def bex_update_rows)

lemma admin_kept_table:
  "admin_kept db (fst (UpdateInvestigatorStatus iv db))"
  "admin_kept db (UpdateInvestigatorAPIKey iv key salt db)"
  "admin_kept db (fst (InsertInvestigator now iv db))"
proof -
  show "admin_kept db (fst (UpdateInvestigatorStatus iv db))"
    by (simp add: UpdateInvestigatorStatus_def admin_kept_update)
  show "admin_kept db (UpdateInvestigatorAPIKey iv key salt db)"
    by (simp add: UpdateInvestigatorAPIKey_def admin_kept_update)
  show "admin_kept db (fst (InsertInvestigator now iv db))"
    by (auto simp: InsertInvestigator_def Let_def admin_kept_def some_admin_def)
qed

lemma admin_kept_perms: "admin_kept db (fst (UpdateInvestigatorPerms iv db))"
proof (cases "\<exists>i\<in>set (idb_Rows db). and (i_Permissions i) admin_mask \<noteq> 0 \<and> i_ID i \<noteq> inv_ID iv")
  case True
  then show ?thesis
    by (auto simp: UpdateInvestigatorPerms_def Let_def admin_kept_def some_admin_def bex_update_rows)
next
  case False
  then have cnt: "length (filter (\<lambda>i. and (i_Permissions i) admin_mask \<noteq> 0 \<and> i_ID i \<noteq> inv_ID iv)
      (idb_Rows db)) = 0" by (auto simp: filter_empty_conv)
  show ?thesis
  proof (cases "and (ToMask (inv_Permissions iv)) PermInvestigator = 0
      \<or> and (ToMask (inv_Permissions iv)) PermInvestigatorUpdate = 0")
    case True
    with cnt show ?thesis by (simp add: UpdateInvestigatorPerms_def)
  next
    case full: False
    then have "and (ToMask (inv_Permissions iv)) admin_mask \<noteq> 0"
      using admin_mask_Investigator by auto
    then show ?thesis
      using full False
      by (auto simp: UpdateInvestigatorPerms_def Let_def admin_kept_def some_admin_def bex_update_rows)
  qed
qed

datatype inv_call =
    CreateInvestigator time string "InvestigatorPerms result" "string option"
  | UpdateInvestigator "nat \<Rightarrow> nat" "string \<Rightarrow> string"

fun inv_serve ::
  "'ring openpgp \<Rightarrow> crypto \<Rightarrow> (string \<Rightarrow> int result) \<Rightarrow> (string \<Rightarrow> InvestigatorPerms result) \<Rightarrow> inv_call \<Rightarrow>
     inv_db \<Rightarrow> inv_db \<times> investigator result" where
  "inv_serve pg cr parse_id parse_perms (CreateInvestigator now nm perms key) db =
     createInvestigator pg now nm perms key db"
| "inv_serve pg cr parse_id parse_perms (UpdateInvestigator rs frm) db =
     updateInvestigator cr parse_id parse_perms rs frm db"

lemma admin_kept_serve: "admin_kept db (fst (inv_serve pg cr parse_id parse_perms c db))"
proof (cases c)
  case (CreateInvestigator now nm perms key)
  then show ?thesis
    by (auto simp: createInvestigator_def Let_def admin_kept_table intro!: admin_kept_bind split: prod.splits)
next
  case (UpdateInvestigator rs frm)
  then show ?thesis
    by (auto simp: updateInvestigator_def Let_def admin_kept_table admin_kept_perms
        intro!: admin_kept_bind split: prod.splits)
qed

definition inv_step ::
  "'ring openpgp \<Rightarrow> crypto \<Rightarrow> (string \<Rightarrow> int result) \<Rightarrow> (string \<Rightarrow> InvestigatorPerms result) \<Rightarrow>
     inv_db \<Rightarrow> inv_db \<Rightarrow> bool" where
  "inv_step pg cr parse_id parse_perms db db' \<longleftrightarrow>
     (\<exists>c. db' = fst (inv_serve pg cr parse_id parse_perms c db))"

interpretation investigators: state_machine "inv_step pg cr parse_id parse_perms" some_admin admin_kept
proof
  fix db db'
  assume "some_admin db" and step: "inv_step pg cr parse_id parse_perms db db'"
  from step show "admin_kept db db'" by (auto simp: inv_step_def admin_kept_serve)
  with \<open>some_admin db\<close> show "some_admin db'" by (simp add: admin_kept_def)
qed (auto simp: admin_kept_def)

section \<open>A new API key\<close>

lemma try_api_keys_match:
  assumes "\<exists>x\<in>set xs. pbkdf2_Key cr key (ah_Salt x) (length (ah_APIKey x)) = ah_APIKey x"
    and "\<forall>x\<in>set xs. pbkdf2_Key cr key (ah_Salt x) (length (ah_APIKey x)) = ah_APIKey x \<longrightarrow> ah_ID x = k"
    and "key \<noteq> []" "InvestigatorByID k db = Inr iv"
  shows "try_api_keys cr key db xs = Inr iv"
  using assms(1,2)
proof (induction xs)
  case Nil
  then show ?case by simp
next
  case (Cons x xs)
  show ?case
  proof (cases "pbkdf2_Key cr key (ah_Salt x) (length (ah_APIKey x)) = ah_APIKey x")
    case True
    with Cons.prems(2) have "ah_ID x = k" by simp
    with True assms(3,4) show ?thesis by simp
  next
    case False
    with Cons have "try_api_keys cr key db xs = Inr iv" by simp
    with False assms(3) show ?thesis by simp
  qed
qed

lemma updateInvestigator_apikey:
  assumes "updateInvestigator cr parse_id parse_perms rs frm db = (db', Inr iv)"
    and "frm ''status'' = []" "frm ''permissions'' = []" "frm ''apikey'' = ''active''"
  shows "\<exists>h s. rand_Read cr 16 = Inr s \<and> h = pbkdf2_Key cr (inv_APIKey iv) s 32 \<and> inv_APIKey iv \<noteq> [] \<and>
    db' = db\<lparr>idb_Rows := update_rows (\<lambda>i. i_ID i = inv_ID iv)
      (\<lambda>i. if length h = 0 then i\<lparr>i_APIKey := None, i_APISalt := None\<rparr>
           else i\<lparr>i_APIKey := Some h, i_APISalt := Some s\<rparr>) (idb_Rows db)\<rparr>"
  using assms
  by (auto simp: updateInvestigator_def Let_def bind_db_def APIHashedKeyLength_def APISaltLength_def
      hashAPIKey_None UpdateInvestigatorAPIKey_def cong: if_cong
      split: if_splits sum.splits prod.splits)

section \<open>Properties\<close>

text \<open>
  C25. With authentication enabled, a request is authorised only for an investigator of the database
  whose stored permissions include the one the endpoint requires, and who proved its identity: by a
  token within the configured time of now, signed with a key of a keyring that is at most five
  minutes old and whose fingerprint is the investigator's, or by an API key whose salted hash is the
  one stored for that active investigator.
\<close>

theorem authenticate_sound:
  assumes "authenticate env now perm rq st = (st', Inr iv)" and "ae_Enabled env"
  shows "CheckPermission (inv_Permissions iv) perm \<and>
    (\<exists>i\<in>set (idb_Rows (st_DB st)). i_ID i = inv_ID iv \<and>
       inv_Permissions iv = FromMask no_perms (i_Permissions i) \<and>
       ((\<exists>keyring fp f. token_ok env now (aq_PGPAuthorization rq) keyring fp \<and>
           keyring_fresh env now st keyring \<and> i_PGPFingerprint i = Some f \<and> ToLower f = ToLower fp) \<or>
        (\<exists>i' h s. i' \<in> set (idb_Rows (st_DB st)) \<and> i_ID i' = i_ID i \<and> i_Status i' = ''active'' \<and>
           i_APIKey i' = Some h \<and> i_APISalt i' = Some s \<and>
           pbkdf2_Key (ae_Crypto env) (aq_APIKey rq) s (length h) = h)))"
proof -
  have perm: "CheckPermission (inv_Permissions iv) perm"
    using assms by (auto simp: authenticate_def split: if_splits prod.splits sum.splits)
  consider (token) "verifySignedToken env now (aq_PGPAuthorization rq) st = (st', Inr iv)"
    | (apikey) "verifyAPIKey (ae_Crypto env) (aq_APIKey rq) (st_DB st) = Inr iv"
    using assms
    by (cases "verifySignedToken env now (aq_PGPAuthorization rq) st")
      (auto simp: authenticate_def split: if_splits prod.splits sum.splits)
  then show ?thesis
  proof cases
    case token
    from verifySignedToken_Inr [OF token] obtain keyring fp where
      "token_ok env now (aq_PGPAuthorization rq) keyring fp" "keyring_fresh env now st keyring"
      "InvestigatorByFingerprint fp (st_DB st) = Inr iv" by blast
    with InvestigatorByFingerprint_Inr [OF this(3)] perm show ?thesis by metis
  next
    case apikey
    from verifyAPIKey_Inr [OF apikey] obtain i h s where
      "i \<in> set (idb_Rows (st_DB st))" "i_Status i = ''active''" "i_APIKey i = Some h" "i_APISalt i = Some s"
      "pbkdf2_Key (ae_Crypto env) (aq_APIKey rq) s (length h) = h"
      "InvestigatorByID (i_ID i) (st_DB st) = Inr iv" by blast
    with InvestigatorByID_Inr [OF this(6)] perm show ?thesis by metis
  qed
qed

text \<open>
  C27. No sequence of API requests leaves the database without anyone who has an administrative
  permission, if there was one to begin with.
\<close>

theorem admin_never_lost:
  assumes "(inv_step pg cr parse_id parse_perms)\<^sup>*\<^sup>* db db'"
    and "\<exists>i\<in>set (idb_Rows db). and (i_Permissions i) (ToMask (AdminSet no_perms)) \<noteq> 0"
  shows "\<exists>i\<in>set (idb_Rows db'). and (i_Permissions i) (ToMask (AdminSet no_perms)) \<noteq> 0"
  using investigators.run_inv [OF assms(1)] assms(2) by (simp add: some_admin_def admin_mask_def)

text \<open>
  An API key that \<open>updateInvestigator\<close> hands out authenticates its investigator, provided the
  investigator is active and the key does not by chance match another investigator's stored hash.
\<close>

theorem issued_api_key_authenticates:
  assumes "updateInvestigator cr parse_id parse_perms rs frm db = (db', Inr iv)"
    and "frm ''status'' = []" "frm ''permissions'' = []" "frm ''apikey'' = ''active''"
    and "crypto_lengths cr" and "distinct (map i_ID (idb_Rows db))"
    and "i \<in> set (idb_Rows db)" "i_ID i = inv_ID iv" "i_Status i = ''active''"
    and "\<forall>j\<in>set (idb_Rows db). \<forall>h s. i_ID j \<noteq> inv_ID iv \<and> i_APIKey j = Some h \<and> i_APISalt j = Some s \<longrightarrow>
           pbkdf2_Key cr (inv_APIKey iv) s (length h) \<noteq> h"
  shows "\<exists>iv'. verifyAPIKey cr (inv_APIKey iv) db' = Inr iv' \<and> inv_ID iv' = inv_ID iv"
proof -
  from updateInvestigator_apikey [OF assms(1-4)] obtain h s where
    s: "rand_Read cr 16 = Inr s" and h: "h = pbkdf2_Key cr (inv_APIKey iv) s 32" and key: "inv_APIKey iv \<noteq> []"
    and db': "db' = db\<lparr>idb_Rows := update_rows (\<lambda>i. i_ID i = inv_ID iv)
      (\<lambda>i. if length h = 0 then i\<lparr>i_APIKey := None, i_APISalt := None\<rparr>
           else i\<lparr>i_APIKey := Some h, i_APISalt := Some s\<rparr>) (idb_Rows db)\<rparr>" by blast
  have len: "length h = 32" using assms(5) h by (simp add: crypto_lengths_def)
  let ?f = "\<lambda>i. if i_ID i = inv_ID iv then i\<lparr>i_APIKey := Some h, i_APISalt := Some s\<rparr> else i"
  have rows: "idb_Rows db' = map ?f (idb_Rows db)"
    using len by (simp add: db' update_rows_def)
  let ?xs = "InvestigatorAPIKeyAuthHelpers db'"
  let ?new = "\<lparr>ah_ID = inv_ID iv, ah_APIKey = h, ah_Salt = s\<rparr>"
  have fi: "?f i \<in> set (idb_Rows db')" unfolding rows set_map using assms(7) by blast
  have "?new \<in> set ?xs"
    unfolding InvestigatorAPIKeyAuthHelpers_def set_map
    by (rule image_eqI [of _ _ "?f i"]) (use assms(8,9) fi in auto)
  then have 1: "\<exists>x\<in>set ?xs. pbkdf2_Key cr (inv_APIKey iv) (ah_Salt x) (length (ah_APIKey x)) = ah_APIKey x"
    by (rule bexI [rotated]) (simp add: len h [symmetric])
  have 2: "\<forall>x\<in>set ?xs. pbkdf2_Key cr (inv_APIKey iv) (ah_Salt x) (length (ah_APIKey x)) = ah_APIKey x \<longrightarrow>
      ah_ID x = inv_ID iv"
    using assms(10) by (auto simp: InvestigatorAPIKeyAuthHelpers_def rows split: if_splits)
  have "distinct (map i_ID (idb_Rows db'))"
    using assms(6) by (simp add: rows comp_def if_distrib [of i_ID] cong: if_cong)
  moreover have "i_ID (?f i) = inv_ID iv" using assms(8) by simp
  ultimately have "row (\<lambda>x. i_ID x = inv_ID iv) (idb_Rows db') = Inr (?f i)"
    using fi by (intro row_unique)
  then obtain iv' where iv': "InvestigatorByID (inv_ID iv) db' = Inr iv'"
    by (simp add: InvestigatorByID_def)
  from try_api_keys_match [OF 1 2 key iv'] InvestigatorByID_Inr [OF iv'] iv' show ?thesis
    by (auto simp: verifyAPIKey_def)
qed

text \<open>
  With an offset that \<open>parseClientPublicIP\<close> accepts and a peer address that has a port, finding the
  client's public address never panics, and the result is an address or the placeholder.
\<close>

theorem remotePublicIP_total:
  assumes "parseClientPublicIP s = Inr offset" and "CHR '':'' \<in> set remote_addr"
  shows "\<exists>ip. remotePublicIP offset is_ip remote_addr xff = Inr ip \<and> (is_ip ip \<or> ip = ''0.0.0.0'')"
proof -
  have off: "- 1 \<le> offset"
    using assms(1) by (auto simp: parseClientPublicIP_def Let_def split: if_splits sum.splits)
  obtain i where "LastIndex remote_addr CHR '':'' = Some i"
    using assms(2) LastIndex_None by (metis not_None_eq)
  moreover have "0 < length (Split xff CHR '','')"
    by simp
  ultimately show ?thesis
    using off by (auto simp: remotePublicIP_def Let_def)
qed

section \<open>Concrete inputs\<close>

text \<open>
  The check in \<open>UpdateInvestigatorPerms\<close> counts everyone with any administrative permission as an
  administrator: the last investigator who may update permissions can be demoted while another one,
  who may only list investigators, remains.
\<close>

definition inv_row_of :: "int \<Rightarrow> mask \<Rightarrow> inv_row" where
  "inv_row_of i m = \<lparr>i_ID = i, i_Name = ''n'', i_PGPFingerprint = Some [CHR ''A''], i_PublicKey = None,
     i_PrivateKey = None, i_Status = ''active'', i_CreatedAt = 0, i_LastModified = 0,
     i_Permissions = m, i_APIKey = None, i_APISalt = None\<rparr>"

definition two_admins :: inv_db where
  "two_admins = \<lparr>idb_Rows = [inv_row_of 1 admin_mask, inv_row_of 2 PermInvestigator], idb_Seq = 3\<rparr>"

lemma last_updater_demoted:
  "UpdateInvestigatorPerms (auth_disabled\<lparr>inv_ID := 1, inv_Permissions := no_perms\<rparr>) two_admins =
     (\<lparr>idb_Rows = [inv_row_of 1 0, inv_row_of 2 PermInvestigator], idb_Seq = 3\<rparr>, Inr ())"
  by (simp add: UpdateInvestigatorPerms_def two_admins_def inv_row_of_def auth_disabled_def update_rows_def
      ToMask_def no_perms_def admin_mask_def AdminSet_def Perm_defs)

text \<open>An endpoint that requires \<open>PermManifestStatus\<close> refuses every authenticated request.\<close>

lemma manifest_status_unreachable:
  "ae_Enabled env \<Longrightarrow> authenticate env now PermManifestStatus rq st \<noteq> (st', Inr iv)"
  by (auto simp: authenticate_def ManifestStatus_never_granted split: prod.splits sum.splits)

definition example_crypto :: crypto where
  "example_crypto = \<lparr>rand_Read = (\<lambda>n. Inr (replicate n 0)), pbkdf2_Key = (\<lambda>k s n. replicate n 1)\<rparr>"

definition example_auth_env :: "unit auth_env" where
  "example_auth_env = \<lparr>ae_Enabled = True, ae_Duration = minute, ae_ParseTime = (\<lambda>s. Inr 0),
     ae_PGP = example_pg, ae_Crypto = example_crypto\<rparr>"

definition keyed_db :: inv_db where
  "keyed_db = \<lparr>idb_Rows = [(inv_row_of 1 PermSearch)\<lparr>i_APIKey := Some [1, 1], i_APISalt := Some [0]\<rparr>],
     idb_Seq = 2\<rparr>"

lemma replicate_2: "replicate (Suc (Suc 0)) x = [x, x]"
  by simp

lemma example_authenticated:
  "\<exists>iv. authenticate example_auth_env 0 PermSearch \<lparr>aq_PGPAuthorization = [], aq_APIKey = ''k''\<rparr>
     \<lparr>st_DB = keyed_db, st_Keyring = None, st_KeyringTime = 0\<rparr> =
     (\<lparr>st_DB = keyed_db, st_Keyring = None, st_KeyringTime = 0\<rparr>, Inr iv) \<and> inv_ID iv = 1"
  by (simp add: authenticate_def example_auth_env_def verifyAPIKey_def InvestigatorAPIKeyAuthHelpers_def
      keyed_db_def inv_row_of_def example_crypto_def InvestigatorByID_def row_def replicate_2
      verification_failed_def CheckPermission_def FromMask_def no_perms_def Perm_defs)

theorem authenticate_sound_witness:
  "\<exists>i\<in>set (idb_Rows keyed_db). i_ID i = 1 \<and> CheckPermission (FromMask no_perms (i_Permissions i)) PermSearch"
proof -
  obtain iv where auth: "authenticate example_auth_env 0 PermSearch
      \<lparr>aq_PGPAuthorization = [], aq_APIKey = ''k''\<rparr>
      \<lparr>st_DB = keyed_db, st_Keyring = None, st_KeyringTime = 0\<rparr> =
      (\<lparr>st_DB = keyed_db, st_Keyring = None, st_KeyringTime = 0\<rparr>, Inr iv)" "inv_ID iv = 1"
    using example_authenticated by blast
  have "ae_Enabled example_auth_env" by (simp add: example_auth_env_def)
  from authenticate_sound [OF auth(1) this] auth(2) show ?thesis by auto
qed

theorem admin_never_lost_witness:
  "\<exists>i\<in>set (idb_Rows (fst (updateInvestigator example_crypto (\<lambda>_. Inr 1) (\<lambda>_. Inr no_perms) (\<lambda>_. 0)
      (\<lambda>_. ''permissions'') two_admins))).
     and (i_Permissions i) (ToMask (AdminSet no_perms)) \<noteq> 0"
proof (rule admin_never_lost)
  show "(inv_step example_pg example_crypto (\<lambda>_. Inr 1) (\<lambda>_. Inr no_perms))\<^sup>*\<^sup>* two_admins
      (fst (updateInvestigator example_crypto (\<lambda>_. Inr 1) (\<lambda>_. Inr no_perms) (\<lambda>_. 0)
        (\<lambda>_. ''permissions'') two_admins))"
    unfolding inv_step_def
    by (rule r_into_rtranclp, rule exI [of _ "UpdateInvestigator (\<lambda>_. 0) (\<lambda>_. ''permissions'')"]) simp
  show "\<exists>i\<in>set (idb_Rows two_admins). and (i_Permissions i) (ToMask (AdminSet no_perms)) \<noteq> 0"
    by (simp add: two_admins_def inv_row_of_def admin_mask_def ToMask_def AdminSet_def no_perms_def Perm_defs)
qed

theorem issued_api_key_authenticates_witness:
  "\<exists>db' iv iv'. updateInvestigator example_crypto (\<lambda>_. Inr 1) (\<lambda>_. Inr no_perms) (\<lambda>_. 0)
       (form_of [(''id'', ''1''), (''apikey'', ''active'')]) two_admins = (db', Inr iv) \<and>
     verifyAPIKey example_crypto (inv_APIKey iv) db' = Inr iv' \<and> inv_ID iv' = 1"
proof -
  let ?form = "form_of [(''id'', ''1''), (''apikey'', ''active'')]"
  have form: "?form ''id'' = ''1''" "?form ''status'' = []" "?form ''permissions'' = []" "?form ''apikey'' = ''active''"
    by (simp_all add: form_of_def)
  have key: "RandAPIKeyString (\<lambda>_. 0) APIKeyLength = replicate 32 CHR ''a''"
    by (simp only: RandAPIKeyString_def rand_fill_0 APIKeyLength_def)
  have "hashAPIKey example_crypto (replicate 32 CHR ''a'') None 32 16 = Inr (replicate 32 1, replicate 16 0)"
    by (simp add: hashAPIKey_def example_crypto_def del: replicate.simps)
  then obtain db' iv where run: "updateInvestigator example_crypto (\<lambda>_. Inr 1) (\<lambda>_. Inr no_perms) (\<lambda>_. 0)
      ?form two_admins = (db', Inr iv)" and iv: "inv_ID iv = 1"
    by (simp add: updateInvestigator_def form bind_db_def key APIHashedKeyLength_def APISaltLength_def
        Let_def del: replicate.simps)
  have "crypto_lengths example_crypto" by (simp add: crypto_lengths_def example_crypto_def)
  from issued_api_key_authenticates [OF run form(2-4) this, of "inv_row_of 1 admin_mask"] iv
  obtain iv' where "verifyAPIKey example_crypto (inv_APIKey iv) db' = Inr iv'" "inv_ID iv' = 1"
    by (auto simp: two_admins_def inv_row_of_def)
  with run show ?thesis by blast
qed

theorem remotePublicIP_total_witness:
  "\<exists>ip. remotePublicIP 2 (\<lambda>_. True) ''10.0.0.1:99'' ''1.1.1.1, 2.2.2.2'' = Inr ip"
proof -
  have "parseClientPublicIP ''x-forwarded-for:2'' = Inr 2" by code_simp
  from remotePublicIP_total [OF this, of "''10.0.0.1:99''"] show ?thesis by auto
qed

end
