(* ===== verification/Database.thy ===== *)
theory Database
  imports InvestigatorApi "HOL-Library.Char_ord" "HOL-Library.List_Lexorder"
begin

text \<open>
  The tables of actions, commands, agents and action signatures, and the queries on them
  (\<open>database/actions.go\<close>, \<open>database/commands.go\<close>, \<open>database/agents.go\<close>, tables in
  \<open>database/schema.sql\<close>).

  As in \<open>ManifestDB\<close>, a table is the list of its rows, in the order in which an unordered query returns
  them; primary keys, unique indexes and foreign keys make an insert fail, and \<open>now()\<close> is an
  argument. JSON columns hold the text that \<open>encoding/json\<close> produced: its functions are the record
  \<open>db_json\<close>. The target of an action is an SQL condition on a row of \<open>agents\<close>, evaluated by the argument
  \<open>holds\<close>, which may fail. The length limits of the text columns, the rounding of times to
  microseconds and failures of the connection are left out.
\<close>

section \<open>Tables\<close>

record action_row =
  ar_ID :: mig_id
  ar_Name :: string
  ar_Target :: string
  ar_Description :: string
  ar_Threat :: string
  ar_Operations :: string
  ar_ValidFrom :: time
  ar_ExpireAfter :: time
  ar_StartTime :: time
  ar_FinishTime :: time
  ar_LastUpdateTime :: time
  ar_Status :: string
  ar_PGPSignatures :: string
  ar_SyntaxVersion :: nat

record agent_row =
  gr_ID :: mig_id
  gr_Name :: string
  gr_QueueLoc :: string
  gr_Mode :: string
  gr_Version :: string
  gr_PID :: int
  gr_StartTime :: time
  gr_DestructionTime :: time
  gr_HeartBeatTS :: time
  gr_RefreshTS :: time
  gr_Status :: string
  gr_Env :: string
  gr_Tags :: string
  gr_LoaderName :: "string option"

record command_row =
  cr_ID :: mig_id
  cr_ActionID :: mig_id
  cr_AgentID :: mig_id
  cr_Status :: string
  cr_Results :: string
  cr_StartTime :: time
  cr_FinishTime :: time

record signature_row =
  sr_ActionID :: mig_id
  sr_InvestigatorID :: mig_id
  sr_PGPSignature :: string

record agents_versions_sum =
  avs_Count :: int
  avs_Version :: string

record agents_stats =
  as_Timestamp :: time
  as_OnlineAgents :: int
  as_OnlineAgentsByVersion :: "agents_versions_sum list"
  as_OnlineEndpoints :: int
  as_IdleAgents :: int
  as_IdleAgentsByVersion :: "agents_versions_sum list"
  as_IdleEndpoints :: int
  as_NewEndpoints :: int
  as_MultiAgentsEndpoints :: int
  as_DisappearedEndpoints :: int
  as_FlappingEndpoints :: int

record mig_db =
  t_Actions :: "action_row list"
  t_Commands :: "command_row list"
  t_Agents :: "agent_row list"
  t_Signatures :: "signature_row list"
  t_Stats :: "agents_stats list"
  t_Loaders :: "loader_row list"
  t_Investigators :: inv_db

record db_json =
  dj_Results :: "module_result list \<Rightarrow> string result"
  dj_UnResults :: "string \<Rightarrow> module_result list result"
  dj_Description :: "description \<Rightarrow> string result"
  dj_UnDescription :: "string \<Rightarrow> description result"
  dj_Threat :: "threat \<Rightarrow> string result"
  dj_UnThreat :: "string \<Rightarrow> threat result"
  dj_Operations :: "operation list option \<Rightarrow> string result"
  dj_UnOperations :: "string \<Rightarrow> operation list option result"
  dj_Signatures :: "string list \<Rightarrow> string result"
  dj_UnSignatures :: "string \<Rightarrow> string list result"
  dj_Env :: "agent_env \<Rightarrow> string result"
  dj_UnEnv :: "string \<Rightarrow> agent_env result"
  dj_Tags :: "(string \<times> string) list \<Rightarrow> string result"
  dj_UnTags :: "string \<Rightarrow> (string \<times> string) list result"

definition foreign_key_violation :: go_error where
  "foreign_key_violation = errors_New ''pq: insert or update on table violates foreign key constraint''"

text \<open>\<open>return fmt.Errorf("... '%v'", err)\<close>.\<close>

definition wrap_err :: "string \<Rightarrow> 'a result \<Rightarrow> 'a result" where
  "wrap_err msg r =
     (case r of Inl e \<Rightarrow> Inl (Errorf (msg @ '': '' @ quoted ''%v'') [AErr e]) | Inr x \<Rightarrow> Inr x)"

lemma wrap_err_Inr [simp, result_simps]: "wrap_err msg r = Inr x \<longleftrightarrow> r = Inr x"
  by (auto simp: wrap_err_def split: sum.splits)

section \<open>Actions\<close>

text \<open>The JSON columns of an action, decoded into the record that the query fills.\<close>

definition unmarshal_action :: "db_json \<Rightarrow> action_row \<Rightarrow> action \<Rightarrow> action result" where
  "unmarshal_action js r a =
     and_then (wrap_err ''Failed to unmarshal action description'' (dj_UnDescription js (ar_Description r))) (\<lambda>d.
     and_then (wrap_err ''Failed to unmarshal action threat'' (dj_UnThreat js (ar_Threat r))) (\<lambda>t.
     and_then (wrap_err ''Failed to unmarshal action operations'' (dj_UnOperations js (ar_Operations r))) (\<lambda>ops.
     and_then (wrap_err ''Failed to unmarshal action signatures'' (dj_UnSignatures js (ar_PGPSignatures r))) (\<lambda>sigs.
       Inr (a\<lparr>act_Description := d, act_Threat := t, act_Operations := ops, act_PGPSignatures := sigs\<rparr>)))))"

definition deserializeActionFromDB :: "db_json \<Rightarrow> action_row \<Rightarrow> action result" where
  "deserializeActionFromDB js r =
     unmarshal_action js r
       (zero_action\<lparr>act_ID := ar_ID r, act_Name := ar_Name r, act_Target := ar_Target r,
          act_ValidFrom := ar_ValidFrom r, act_ExpireAfter := ar_ExpireAfter r,
          act_Status := ar_Status r, act_SyntaxVersion := ar_SyntaxVersion r\<rparr>)"

text \<open>\<open>SELECT DISTINCT(status), COUNT(id) ... GROUP BY status\<close>.\<close>

definition status_counts :: "mig_id \<Rightarrow> mig_db \<Rightarrow> (string \<times> int) list" where
  "status_counts aid db =
     (let statuses = map cr_Status (filter (\<lambda>c. cr_ActionID c = aid) (t_Commands db))
      in map (\<lambda>s. (s, int (count_list statuses s))) (remdups statuses))"

fun add_counter :: "action_counters \<Rightarrow> string \<times> int \<Rightarrow> action_counters" where
  "add_counter c (status, n) =
     (if status = StatusSent
      then c\<lparr>cnt_InFlight := n, cnt_Sent := cnt_Sent c + n\<rparr>
      else if status = StatusSuccess
      then c\<lparr>cnt_Success := n, cnt_Done := cnt_Done c + n, cnt_Sent := cnt_Sent c + n\<rparr>
      else if status = StatusCancelled
      then c\<lparr>cnt_Cancelled := n, cnt_Done := cnt_Done c + n, cnt_Sent := cnt_Sent c + n\<rparr>
      else if status = StatusExpired
      then c\<lparr>cnt_Expired := n, cnt_Done := cnt_Done c + n, cnt_Sent := cnt_Sent c + n\<rparr>
      else if status = StatusFailed
      then c\<lparr>cnt_Failed := n, cnt_Done := cnt_Done c + n, cnt_Sent := cnt_Sent c + n\<rparr>
      else if status = StatusTimeout
      then c\<lparr>cnt_TimeOut := n, cnt_Done := cnt_Done c + n, cnt_Sent := cnt_Sent c + n\<rparr>
      else c)"

definition GetActionCounters :: "mig_id \<Rightarrow> mig_db \<Rightarrow> action_counters" where
  "GetActionCounters aid db = foldl add_counter zero_counters (status_counts aid db)"

text \<open>The columns that \<open>LastActions\<close> and \<open>ActionByID\<close> read.\<close>

definition full_action :: "db_json \<Rightarrow> action_row \<Rightarrow> mig_db \<Rightarrow> action result" where
  "full_action js r db =
     and_then
       (unmarshal_action js r
         (zero_action\<lparr>act_ID := ar_ID r, act_Name := ar_Name r, act_Target := ar_Target r,
            act_ValidFrom := ar_ValidFrom r, act_ExpireAfter := ar_ExpireAfter r,
            act_StartTime := ar_StartTime r, act_FinishTime := ar_FinishTime r,
            act_LastUpdateTime := ar_LastUpdateTime r, act_Status := ar_Status r,
            act_SyntaxVersion := ar_SyntaxVersion r\<rparr>))
       (\<lambda>a. Inr (a\<lparr>act_Counters := GetActionCounters (act_ID a) db\<rparr>))"

definition LastActions :: "db_json \<Rightarrow> nat \<Rightarrow> mig_db \<Rightarrow> action list result" where
  "LastActions js limit db =
     map_res (\<lambda>r. full_action js r db) (take limit (sort_key (\<lambda>r. - ar_StartTime r) (t_Actions db)))"

definition ActionByID :: "db_json \<Rightarrow> mig_id \<Rightarrow> mig_db \<Rightarrow> action result" where
  "ActionByID js i db =
     and_then (wrap_err ''Error while retrieving action'' (row (\<lambda>r. ar_ID r = i) (t_Actions db)))
       (\<lambda>r. full_action js r db)"

definition ActionMetaByID :: "mig_id \<Rightarrow> mig_db \<Rightarrow> action result" where
  "ActionMetaByID i db =
     and_then (wrap_err ''Error while retrieving action'' (row (\<lambda>r. ar_ID r = i) (t_Actions db)))
       (\<lambda>r. Inr (zero_action\<lparr>act_ID := ar_ID r, act_Name := ar_Name r, act_ValidFrom := ar_ValidFrom r,
              act_ExpireAfter := ar_ExpireAfter r, act_StartTime := ar_StartTime r,
              act_FinishTime := ar_FinishTime r, act_LastUpdateTime := ar_LastUpdateTime r,
              act_Status := ar_Status r\<rparr>))"

definition InsertAction :: "db_json \<Rightarrow> action \<Rightarrow> mig_db \<Rightarrow> mig_db \<times> unit result" where
  "InsertAction js a db =
     (let columns =
        and_then (wrap_err ''Failed to marshal description'' (dj_Description js (act_Description a))) (\<lambda>d.
        and_then (wrap_err ''Failed to marshal threat'' (dj_Threat js (act_Threat a))) (\<lambda>t.
        and_then (wrap_err ''Failed to marshal operations'' (dj_Operations js (act_Operations a))) (\<lambda>ops.
        and_then (wrap_err ''Failed to marshal pgp signatures'' (dj_Signatures js (act_PGPSignatures a))) (\<lambda>sigs.
          Inr \<lparr>ar_ID = act_ID a, ar_Name = act_Name a, ar_Target = act_Target a, ar_Description = d,
               ar_Threat = t, ar_Operations = ops, ar_ValidFrom = act_ValidFrom a,
               ar_ExpireAfter = act_ExpireAfter a, ar_StartTime = act_StartTime a,
               ar_FinishTime = act_FinishTime a, ar_LastUpdateTime = act_LastUpdateTime a,
               ar_Status = act_Status a, ar_PGPSignatures = sigs,
               ar_SyntaxVersion = act_SyntaxVersion a\<rparr>))))
      in (case columns of
            Inl e \<Rightarrow> (db, Inl e)
          | Inr r \<Rightarrow>
              if \<exists>x\<in>set (t_Actions db). ar_ID x = act_ID a
              then (db, wrap_err ''Failed to store action'' (Inl unique_violation))
              else (db\<lparr>t_Actions := t_Actions db @ [r]\<rparr>, Inr ())))"

definition update_action :: "mig_id \<Rightarrow> (action_row \<Rightarrow> action_row) \<Rightarrow> mig_db \<Rightarrow> mig_db" where
  "update_action i f db = db\<lparr>t_Actions := update_rows (\<lambda>r. ar_ID r = i) f (t_Actions db)\<rparr>"

definition UpdateAction :: "action \<Rightarrow> mig_db \<Rightarrow> mig_db" where
  "UpdateAction a =
     update_action (act_ID a)
       (\<lambda>r. r\<lparr>ar_StartTime := act_StartTime a, ar_LastUpdateTime := act_LastUpdateTime a,
              ar_Status := act_Status a\<rparr>)"

definition InsertOrUpdateAction :: "db_json \<Rightarrow> action \<Rightarrow> mig_db \<Rightarrow> mig_db \<times> bool result" where
  "InsertOrUpdateAction js a db =
     (case row (\<lambda>r. ar_ID r = act_ID a) (t_Actions db) of
        Inl _ \<Rightarrow> (case InsertAction js a db of (db', Inl e) \<Rightarrow> (db', Inl e) | (db', Inr _) \<Rightarrow> (db', Inr True))
      | Inr _ \<Rightarrow> (UpdateAction a db, Inr False))"

definition UpdateActionStatus :: "action \<Rightarrow> mig_db \<Rightarrow> mig_db" where
  "UpdateActionStatus a = update_action (act_ID a) (\<lambda>r. r\<lparr>ar_Status := act_Status a\<rparr>)"

definition UpdateRunningAction :: "action \<Rightarrow> mig_db \<Rightarrow> mig_db" where
  "UpdateRunningAction a = update_action (act_ID a) (\<lambda>r. r\<lparr>ar_LastUpdateTime := act_LastUpdateTime a\<rparr>)"

definition FinishAction :: "time \<Rightarrow> action \<Rightarrow> mig_db \<Rightarrow> mig_db" where
  "FinishAction now a =
     update_action (act_ID a)
       (\<lambda>r. r\<lparr>ar_FinishTime := now, ar_LastUpdateTime := act_LastUpdateTime a, ar_Status := ''completed''\<rparr>)"

definition InsertSignature :: "mig_id \<Rightarrow> mig_id \<Rightarrow> string \<Rightarrow> mig_db \<Rightarrow> mig_db \<times> unit result" where
  "InsertSignature aid iid sig db =
     (if \<exists>s\<in>set (t_Signatures db). sr_ActionID s = aid \<and> sr_InvestigatorID s = iid
      then (db, wrap_err ''Failed to store signature'' (Inl unique_violation))
      else if \<not> (\<exists>r\<in>set (t_Actions db). ar_ID r = aid) \<or>
              \<not> (\<exists>i\<in>set (idb_Rows (t_Investigators db)). i_ID i = iid)
      then (db, wrap_err ''Failed to store signature'' (Inl foreign_key_violation))
      else (db\<lparr>t_Signatures := t_Signatures db @
                 [\<lparr>sr_ActionID = aid, sr_InvestigatorID = iid, sr_PGPSignature = sig\<rparr>]\<rparr>, Inr ()))"

text \<open>The scan of a fingerprint that is \<open>NULL\<close> into a string fails.\<close>

definition InvestigatorByActionID :: "mig_id \<Rightarrow> mig_db \<Rightarrow> investigator list result" where
  "InvestigatorByActionID aid db =
     map_res
       (\<lambda>i. case i_PGPFingerprint i of
              None \<Rightarrow> wrap_err ''Failed to retrieve investigator data''
                        (Inl (errors_New ''sql: Scan error: converting NULL to string is unsupported''))
            | Some fp \<Rightarrow>
                Inr (auth_disabled\<lparr>inv_ID := i_ID i, inv_Name := i_Name i, inv_PGPFingerprint := fp,
                       inv_Status := i_Status i, inv_CreatedAt := i_CreatedAt i,
                       inv_LastModified := i_LastModified i,
                       inv_Permissions := FromMask no_perms (i_Permissions i)\<rparr>))
       [i. s \<leftarrow> t_Signatures db, sr_ActionID s = aid, i \<leftarrow> idb_Rows (t_Investigators db),
           i_ID i = sr_InvestigatorID s]"

text \<open>
  \<open>SetupRunnableActions\<close>: one statement marks the runnable actions and returns them; they are decoded
  afterwards, so an action that cannot be decoded loses the whole batch.
\<close>

definition runnable :: "time \<Rightarrow> action_row \<Rightarrow> bool" where
  "runnable now r \<longleftrightarrow> ar_Status r = ''pending'' \<and> ar_ValidFrom r < now \<and> now < ar_ExpireAfter r"

definition SetupRunnableActions :: "db_json \<Rightarrow> time \<Rightarrow> mig_db \<Rightarrow> mig_db \<times> action list result" where
  "SetupRunnableActions js now db =
     (let scheduled = (\<lambda>r. r\<lparr>ar_Status := ''scheduled''\<rparr>)
      in (db\<lparr>t_Actions := update_rows (runnable now) scheduled (t_Actions db)\<rparr>,
          map_res (deserializeActionFromDB js) (map scheduled (filter (runnable now) (t_Actions db)))))"

section \<open>Counters\<close>

text \<open>The number of commands of an action in a given status.\<close>

definition commands_in :: "mig_id \<Rightarrow> string \<Rightarrow> mig_db \<Rightarrow> int" where
  "commands_in aid s db =
     int (length (filter (\<lambda>c. cr_ActionID c = aid \<and> cr_Status c = s) (t_Commands db)))"

definition group_count :: "(string \<times> int) list \<Rightarrow> string \<Rightarrow> int" where
  "group_count g s = (case map_of g s of Some n \<Rightarrow> n | None \<Rightarrow> 0)"

lemma group_count_Cons [simp]:
  "group_count ((s, n) # g) t = (if t = s then n else group_count g t)"
  by (simp add: group_count_def)

lemma group_count_Nil [simp]: "group_count [] s = 0"
  by (simp add: group_count_def)

lemma group_count_absent: "s \<notin> fst ` set g \<Longrightarrow> group_count g s = 0"
  by (auto simp: group_count_def map_of_eq_None_iff [symmetric] split: option.splits)

lemma map_of_map_key: "map_of (map (\<lambda>s. (s, f s)) ss) t = (if t \<in> set ss then Some (f t) else None)"
  by (induction ss) auto

lemma count_statuses:
  "count_list (map cr_Status (filter (\<lambda>c. cr_ActionID c = aid) cs)) s =
     length (filter (\<lambda>c. cr_ActionID c = aid \<and> cr_Status c = s) cs)"
  by (induction cs) auto

lemma status_counts_group: "group_count (status_counts aid db) s = commands_in aid s db"
proof -
  let ?ss = "map cr_Status (filter (\<lambda>c. cr_ActionID c = aid) (t_Commands db))"
  have "group_count (status_counts aid db) s = (if s \<in> set ?ss then int (count_list ?ss s) else 0)"
    by (simp only: group_count_def status_counts_def Let_def map_of_map_key set_remdups if_split) auto
  also have "\<dots> = int (count_list ?ss s)" using count_notin [of s ?ss] by simp
  finally show ?thesis by (simp add: count_statuses commands_in_def)
qed

lemma status_counts_distinct: "distinct (map fst (status_counts aid db))"
  by (simp add: status_counts_def Let_def comp_def)

lemma status_distinct [simp]:
  "StatusSent \<noteq> StatusSuccess" "StatusSent \<noteq> StatusCancelled" "StatusSent \<noteq> StatusExpired"
  "StatusSent \<noteq> StatusFailed" "StatusSent \<noteq> StatusTimeout" "StatusSuccess \<noteq> StatusCancelled"
  "StatusSuccess \<noteq> StatusExpired" "StatusSuccess \<noteq> StatusFailed" "StatusSuccess \<noteq> StatusTimeout"
  "StatusCancelled \<noteq> StatusExpired" "StatusCancelled \<noteq> StatusFailed" "StatusCancelled \<noteq> StatusTimeout"
  "StatusExpired \<noteq> StatusFailed" "StatusExpired \<noteq> StatusTimeout" "StatusFailed \<noteq> StatusTimeout"
  by (simp_all add: command_statuses)

lemmas status_distinct' [simp] = status_distinct [symmetric]

lemma foldl_add_counter:
  assumes "distinct (map fst g)"
  defines "n \<equiv> group_count g"
  shows "foldl add_counter zero_counters g =
    \<lparr>cnt_Sent = n StatusSent + (n StatusSuccess + n StatusCancelled + n StatusExpired + n StatusFailed + n StatusTimeout),
     cnt_Done = n StatusSuccess + n StatusCancelled + n StatusExpired + n StatusFailed + n StatusTimeout,
     cnt_InFlight = n StatusSent, cnt_Success = n StatusSuccess, cnt_Cancelled = n StatusCancelled,
     cnt_Expired = n StatusExpired, cnt_Failed = n StatusFailed, cnt_TimeOut = n StatusTimeout\<rparr>"
  using assms(1) unfolding n_def
proof (induction g rule: rev_induct)
  case Nil
  then show ?case by (simp add: zero_counters_def)
next
  case (snoc x g)
  obtain s k where x: "x = (s, k)" by fastforce
  from snoc.prems x have s: "s \<notin> fst ` set g" "distinct (map fst g)" by auto
  from s(1) have "map_of g s = None" by (simp add: map_of_eq_None_iff)
  then have old: "group_count (g @ [x]) t = (if t = s then k else group_count g t)" for t
    by (simp add: x group_count_def map_add_def split: option.split)
  show ?case
  proof -
    note absent = group_count_absent [OF s(1)]
    consider "s = StatusSent" | "s = StatusSuccess" | "s = StatusCancelled" | "s = StatusExpired"
      | "s = StatusFailed" | "s = StatusTimeout"
      | "s \<notin> {StatusSent, StatusSuccess, StatusCancelled, StatusExpired, StatusFailed, StatusTimeout}"
      by blast
    then show ?thesis
      unfolding foldl_append snoc.IH [OF s(2)] old using absent by cases (simp_all add: x eq_commute [of _ s])
  qed
qed

lemma GetActionCounters_eq:
  "GetActionCounters aid db =
    (let n = (\<lambda>s. commands_in aid s db) in
    \<lparr>cnt_Sent = n StatusSent + (n StatusSuccess + n StatusCancelled + n StatusExpired + n StatusFailed + n StatusTimeout),
     cnt_Done = n StatusSuccess + n StatusCancelled + n StatusExpired + n StatusFailed + n StatusTimeout,
     cnt_InFlight = n StatusSent, cnt_Success = n StatusSuccess, cnt_Cancelled = n StatusCancelled,
     cnt_Expired = n StatusExpired, cnt_Failed = n StatusFailed, cnt_TimeOut = n StatusTimeout\<rparr>)"
  unfolding GetActionCounters_def foldl_add_counter [OF status_counts_distinct] status_counts_group
  by (simp add: Let_def)

lemma GetActionCounters_complete:
  "cnt_Done (GetActionCounters aid db) = cnt_Sent (GetActionCounters aid db) \<longleftrightarrow>
     filter (\<lambda>c. cr_ActionID c = aid \<and> cr_Status c = StatusSent) (t_Commands db) = []"
  by (simp add: GetActionCounters_eq Let_def commands_in_def)

text \<open>
  The counters of an action add up, whatever the order of the groups that the database returns: each
  counter is the number of the action's commands in that status, the total sent is the number in
  flight plus the number done, and the action counts as complete, all sent commands done, exactly
  when none of its commands is left in status \<open>sent\<close>.
\<close>

theorem GetActionCounters_exact:
  "GetActionCounters aid db =
    \<lparr>cnt_Sent = commands_in aid StatusSent db + cnt_Done (GetActionCounters aid db),
     cnt_Done = commands_in aid StatusSuccess db + commands_in aid StatusCancelled db +
       commands_in aid StatusExpired db + commands_in aid StatusFailed db + commands_in aid StatusTimeout db,
     cnt_InFlight = commands_in aid StatusSent db, cnt_Success = commands_in aid StatusSuccess db,
     cnt_Cancelled = commands_in aid StatusCancelled db, cnt_Expired = commands_in aid StatusExpired db,
     cnt_Failed = commands_in aid StatusFailed db, cnt_TimeOut = commands_in aid StatusTimeout db\<rparr> \<and>
   (cnt_Done (GetActionCounters aid db) = cnt_Sent (GetActionCounters aid db) \<longleftrightarrow>
      filter (\<lambda>c. cr_ActionID c = aid \<and> cr_Status c = StatusSent) (t_Commands db) = [])"
  using GetActionCounters_complete [of aid db] by (simp add: GetActionCounters_eq Let_def)

section \<open>Scheduling\<close>

lemma deserialize_fields:
  "deserializeActionFromDB js r = Inr a \<Longrightarrow>
     act_ID a = ar_ID r \<and> act_Target a = ar_Target r \<and> act_Status a = ar_Status r \<and>
     act_ValidFrom a = ar_ValidFrom r \<and> act_ExpireAfter a = ar_ExpireAfter r"
  by (auto simp: deserializeActionFromDB_def unmarshal_action_def and_then_eq_Inr)

lemma SetupRunnable_ids:
  assumes "SetupRunnableActions js now db = (db', Inr as)"
  shows "map act_ID as = map ar_ID (filter (runnable now) (t_Actions db))"
proof -
  from assms have "list_all2 (\<lambda>r a. deserializeActionFromDB js r = Inr a)
      (map (\<lambda>r. r\<lparr>ar_Status := ''scheduled''\<rparr>) (filter (runnable now) (t_Actions db))) as"
    by (simp add: SetupRunnableActions_def Let_def map_res_eq_Inr)
  then have "list_all2 (\<lambda>r a. ar_ID r = act_ID a) (filter (runnable now) (t_Actions db)) as"
    by (fastforce simp: list_all2_conv_all_nth dest: deserialize_fields)
  then show ?thesis by (auto simp: list_all2_conv_all_nth intro: nth_equalityI)
qed

lemma runnable_after_setup:
  assumes "fst (SetupRunnableActions js now db) = db'" "r \<in> set (t_Actions db')" "runnable now' r"
  shows "r \<in> set (t_Actions db) \<and> \<not> runnable now r"
proof -
  from assms(1,2) obtain x where "x \<in> set (t_Actions db)"
    "r = (if runnable now x then x\<lparr>ar_Status := ''scheduled''\<rparr> else x)"
    by (auto simp: SetupRunnableActions_def Let_def set_update_rows)
  with assms(3) show ?thesis by (cases "runnable now x") (auto simp: runnable_def)
qed

text \<open>
  Two schedulers never pick up the same action. \<open>SetupRunnableActions\<close> returns precisely the pending
  actions inside their validity period, and a second call, at whatever time, returns none of them.
\<close>

theorem SetupRunnableActions_exactly_once:
  assumes "SetupRunnableActions js now db = (db', Inr as)"
    and "SetupRunnableActions js now' db' = (db'', Inr as')"
    and "distinct (map ar_ID (t_Actions db))"
  shows "act_ID ` set as = ar_ID ` {r \<in> set (t_Actions db). ar_Status r = ''pending'' \<and>
            ar_ValidFrom r < now \<and> now < ar_ExpireAfter r} \<and>
         distinct (map act_ID as) \<and> act_ID ` set as \<inter> act_ID ` set as' = {}"
proof -
  note ids = SetupRunnable_ids [OF assms(1)] and ids' = SetupRunnable_ids [OF assms(2)]
  have s: "act_ID ` set as = ar_ID ` {r \<in> set (t_Actions db). runnable now r}"
    using arg_cong [OF ids, of set] by simp
  moreover have "act_ID ` set as' \<subseteq> ar_ID ` {r \<in> set (t_Actions db). \<not> runnable now r}"
    using arg_cong [OF ids', of set] runnable_after_setup [of js now db db'] assms(1) by force
  moreover have "ar_ID ` {r \<in> set (t_Actions db). runnable now r} \<inter>
      ar_ID ` {r \<in> set (t_Actions db). \<not> runnable now r} = {}"
    using assms(3) by (auto simp: distinct_map dest: inj_onD)
  moreover have "distinct (map act_ID as)"
    using assms(3) by (simp add: ids distinct_map_filter)
  ultimately show ?thesis by (auto simp: runnable_def)
qed

text \<open>
  When one runnable action cannot be decoded, all of them have left status \<open>pending\<close> and none is
  returned.
\<close>

lemma SetupRunnable_batch_lost:
  assumes "r \<in> set (t_Actions db)" "runnable now r"
    and "\<not> is_ok (deserializeActionFromDB js (r\<lparr>ar_Status := ''scheduled''\<rparr>))"
  shows "\<not> is_ok (snd (SetupRunnableActions js now db)) \<and>
    (\<forall>r\<in>set (t_Actions (fst (SetupRunnableActions js now db))). \<not> runnable now r)"
proof
  have lost: "\<not> is_ok (map_res f (map g xs))"
    if "x \<in> set xs" "\<not> is_ok (f (g x))" for f :: "action_row \<Rightarrow> action result" and g x xs
    using that by (induction xs) (auto split: sum.splits)
  show "\<not> is_ok (snd (SetupRunnableActions js now db))"
    using lost [of r "filter (runnable now) (t_Actions db)" "deserializeActionFromDB js"] assms
    by (simp add: SetupRunnableActions_def Let_def)
  show "\<forall>r\<in>set (t_Actions (fst (SetupRunnableActions js now db))). \<not> runnable now r"
    using runnable_after_setup [OF refl] by blast
qed

section \<open>An example database\<close>

definition example_js :: db_json where
  "example_js =
     \<lparr>dj_Results = (\<lambda>_. Inr ''[]''), dj_UnResults = (\<lambda>_. Inr []),
      dj_Description = (\<lambda>_. Inr ''{}''), dj_UnDescription = (\<lambda>_. Inr (act_Description zero_action)),
      dj_Threat = (\<lambda>_. Inr ''{}''), dj_UnThreat = (\<lambda>_. Inr (act_Threat zero_action)),
      dj_Operations = (\<lambda>_. Inr ''[]''), dj_UnOperations = (\<lambda>_. Inr (Some [])),
      dj_Signatures = (\<lambda>_. Inr ''[]''), dj_UnSignatures = (\<lambda>_. Inr []),
      dj_Env = (\<lambda>_. Inr ''{}''), dj_UnEnv = (\<lambda>_. Inr (agt_Env zero_agent)),
      dj_Tags = (\<lambda>_. Inr ''{}''), dj_UnTags = (\<lambda>_. Inr [])\<rparr>"

definition example_action_row :: action_row where
  "example_action_row =
     \<lparr>ar_ID = 1, ar_Name = ''n'', ar_Target = ''all'', ar_Description = ''{}'', ar_Threat = ''{}'',
      ar_Operations = ''[]'', ar_ValidFrom = 10, ar_ExpireAfter = 90, ar_StartTime = 0, ar_FinishTime = 0,
      ar_LastUpdateTime = 0, ar_Status = ''pending'', ar_PGPSignatures = ''[]'', ar_SyntaxVersion = 2\<rparr>"

definition example_agent_row :: "mig_id \<Rightarrow> string \<Rightarrow> time \<Rightarrow> agent_row" where
  "example_agent_row i q start =
     \<lparr>gr_ID = i, gr_Name = ''host'', gr_QueueLoc = q, gr_Mode = ''daemon'', gr_Version = ''1'', gr_PID = 7,
      gr_StartTime = start, gr_DestructionTime = future_date, gr_HeartBeatTS = 100, gr_RefreshTS = 0,
      gr_Status = ''online'', gr_Env = ''{}'', gr_Tags = ''{}'', gr_LoaderName = None\<rparr>"

definition example_mdb :: mig_db where
  "example_mdb =
     \<lparr>t_Actions = [example_action_row],
      t_Commands =
        [\<lparr>cr_ID = 5, cr_ActionID = 1, cr_AgentID = 3, cr_Status = ''success'', cr_Results = ''[]'',
          cr_StartTime = 0, cr_FinishTime = 0\<rparr>,
         \<lparr>cr_ID = 6, cr_ActionID = 1, cr_AgentID = 3, cr_Status = ''sent'', cr_Results = ''[]'',
          cr_StartTime = 0, cr_FinishTime = 0\<rparr>],
      t_Agents = [example_agent_row 3 ''q'' 20, example_agent_row 4 ''q'' 30], t_Signatures = [], t_Stats = [],
      t_Loaders = [], t_Investigators = \<lparr>idb_Rows = [], idb_Seq = 1\<rparr>\<rparr>"

lemma example_setup:
  "\<exists>db' a. SetupRunnableActions example_js 50 example_mdb = (db', Inr [a]) \<and> act_ID a = 1 \<and>
     SetupRunnableActions example_js 60 db' = (db', Inr [])"
  by (simp add: SetupRunnableActions_def example_mdb_def example_action_row_def runnable_def Let_def
      update_rows_def deserializeActionFromDB_def unmarshal_action_def example_js_def wrap_err_def)

theorem SetupRunnableActions_exactly_once_witness:
  "\<exists>db' as. SetupRunnableActions example_js 50 example_mdb = (db', Inr as) \<and> act_ID ` set as = {1}"
proof -
  obtain db' a where a: "SetupRunnableActions example_js 50 example_mdb = (db', Inr [a])"
    and b: "SetupRunnableActions example_js 60 db' = (db', Inr [])"
    using example_setup by blast
  have d: "distinct (map ar_ID (t_Actions example_mdb))" by (simp add: example_mdb_def)
  from SetupRunnableActions_exactly_once [OF a b d] a show ?thesis
    by (auto simp: example_mdb_def example_action_row_def)
qed

end
