(* ===== verification/CommandTable.thy ===== *)
theory CommandTable
  imports Database "HOL-Library.Sublist"
begin

text \<open>
  The table of commands (\<open>database/commands.go\<close>), one row for every agent that an action was sent to,
  and what holds of it however the routines of several schedulers interleave.
\<close>

section \<open>Bytes\<close>

text \<open>\<open>bytes.Replace(s, old, new, -1)\<close> for a non-empty \<open>old\<close>.\<close>

function replace_all :: "string \<Rightarrow> string \<Rightarrow> string \<Rightarrow> string" where
  "replace_all old new [] = []"
| "replace_all old new (c # s) =
     (if old \<noteq> [] \<and> take (length old) (c # s) = old
      then new @ replace_all old new (drop (length old) (c # s))
      else c # replace_all old new s)"
  by pat_completeness auto
termination
  by (relation "measure (\<lambda>(old, new, s). length s)") (auto simp: length_greater_0_conv)

definition nul_escape :: string where
  "nul_escape = CHR 0x5C # ''u0000''"

section \<open>Queries\<close>

definition CommandByID :: "db_json \<Rightarrow> mig_id \<Rightarrow> mig_db \<Rightarrow> command result" where
  "CommandByID js i db =
     and_then (wrap_err ''Error while retrieving command'' (row (\<lambda>(c, a, g). cr_ID c = i \<and>
          cr_ActionID c = ar_ID a \<and> cr_AgentID c = gr_ID g)
        (List.product (t_Commands db) (List.product (t_Actions db) (t_Agents db)))))
     (\<lambda>(c, a, g).
       and_then (wrap_err ''Failed to unmarshal command results'' (dj_UnResults js (cr_Results c))) (\<lambda>res.
       and_then (unmarshal_action js a (zero_action\<lparr>act_ID := ar_ID a, act_Name := ar_Name a,
           act_Target := ar_Target a, act_ValidFrom := ar_ValidFrom a,
           act_ExpireAfter := ar_ExpireAfter a, act_SyntaxVersion := ar_SyntaxVersion a\<rparr>)) (\<lambda>act.
         Inr \<lparr>cmd_ID = cr_ID c, cmd_Action = act,
              cmd_Agent = zero_agent\<lparr>agt_ID := gr_ID g, agt_Name := gr_Name g,
                agt_QueueLoc := gr_QueueLoc g, agt_Mode := gr_Mode g, agt_Version := gr_Version g\<rparr>,
              cmd_Status = cr_Status c, cmd_Results = res, cmd_StartTime = cr_StartTime c,
              cmd_FinishTime = cr_FinishTime c\<rparr>)))"

definition CommandsByActionID :: "db_json \<Rightarrow> mig_id \<Rightarrow> mig_db \<Rightarrow> command list result" where
  "CommandsByActionID js aid db =
     map_res
       (\<lambda>(c, a, g).
          and_then (wrap_err ''Failed to unmarshal command results'' (dj_UnResults js (cr_Results c))) (\<lambda>res.
          and_then (unmarshal_action js a (zero_action\<lparr>act_ID := ar_ID a, act_Name := ar_Name a,
              act_Target := ar_Target a, act_ValidFrom := ar_ValidFrom a,
              act_ExpireAfter := ar_ExpireAfter a, act_SyntaxVersion := ar_SyntaxVersion a\<rparr>)) (\<lambda>act.
            Inr \<lparr>cmd_ID = cr_ID c, cmd_Action = act,
                 cmd_Agent = zero_agent\<lparr>agt_ID := gr_ID g, agt_Name := gr_Name g,
                   agt_Version := gr_Version g\<rparr>,
                 cmd_Status = cr_Status c, cmd_Results = res, cmd_StartTime = cr_StartTime c,
                 cmd_FinishTime = cr_FinishTime c\<rparr>)))
       (filter (\<lambda>(c, a, g). cr_ActionID c = ar_ID a \<and> cr_AgentID c = gr_ID g \<and> ar_ID a = aid)
         (List.product (t_Commands db) (List.product (t_Actions db) (t_Agents db))))"

section \<open>Updates\<close>

definition InsertCommand :: "db_json \<Rightarrow> command \<Rightarrow> agent \<Rightarrow> mig_db \<Rightarrow> mig_db \<times> unit result" where
  "InsertCommand js cmd agt db =
     (case dj_Results js (cmd_Results cmd) of
        Inl e \<Rightarrow> (db, wrap_err ''Failed to marshal results'' (Inl e))
      | Inr res \<Rightarrow>
          if \<exists>c\<in>set (t_Commands db). cr_ID c = cmd_ID cmd
          then (db, wrap_err ''Error while inserting command'' (Inl unique_violation))
          else if \<not> (\<exists>a\<in>set (t_Actions db). ar_ID a = act_ID (cmd_Action cmd)) \<or>
                  \<not> (\<exists>g\<in>set (t_Agents db). gr_ID g = agt_ID agt)
          then (db, wrap_err ''Error while inserting command'' (Inl foreign_key_violation))
          else (db\<lparr>t_Commands := t_Commands db @
                     [\<lparr>cr_ID = cmd_ID cmd, cr_ActionID = act_ID (cmd_Action cmd), cr_AgentID = agt_ID agt,
                       cr_Status = cmd_Status cmd, cr_Results = res,
                       cr_StartTime = cmd_StartTime cmd, cr_FinishTime = cmd_FinishTime cmd\<rparr>]\<rparr>, Inr ()))"

text \<open>
  \<open>InsertCommands\<close> stores all commands with one statement, or none. Without commands the statement is
  malformed, and the deferred \<open>Close\<close> of the missing statement panics.
\<close>

definition command_row_of :: "db_json \<Rightarrow> command \<Rightarrow> command_row result" where
  "command_row_of js cmd =
     and_then (dj_Results js (cmd_Results cmd)) (\<lambda>res.
       Inr \<lparr>cr_ID = cmd_ID cmd, cr_ActionID = act_ID (cmd_Action cmd),
            cr_AgentID = agt_ID (cmd_Agent cmd), cr_Status = cmd_Status cmd, cr_Results = res,
            cr_StartTime = cmd_StartTime cmd, cr_FinishTime = future_date\<rparr>)"

definition InsertCommands :: "db_json \<Rightarrow> command list \<Rightarrow> mig_db \<Rightarrow> mig_db \<times> int result" where
  "InsertCommands js cmds db =
     (case map_res (command_row_of js) cmds of
        Inl e \<Rightarrow> (db, Inl e)
      | Inr rows \<Rightarrow>
          if rows = [] then (db, Inl (errors_New ''runtime error: invalid memory address''))
          else if \<not> distinct (map cr_ID (t_Commands db @ rows))
          then (db, wrap_err ''Error while inserting commands'' (Inl unique_violation))
          else if \<exists>r\<in>set rows. \<not> (\<exists>a\<in>set (t_Actions db). ar_ID a = cr_ActionID r) \<or>
                               \<not> (\<exists>g\<in>set (t_Agents db). gr_ID g = cr_AgentID r)
          then (db, wrap_err ''Error while inserting commands'' (Inl foreign_key_violation))
          else (db\<lparr>t_Commands := t_Commands db @ rows\<rparr>, Inr (int (length rows))))"

text \<open>An update that must affect exactly one row; it has taken effect when the count is wrong.\<close>

definition update_one ::
  "string \<Rightarrow> (command_row \<Rightarrow> bool) \<Rightarrow> (command_row \<Rightarrow> command_row) \<Rightarrow> mig_db \<Rightarrow> mig_db \<times> unit result" where
  "update_one msg p f db =
     (let ctr = int (length (filter p (t_Commands db)))
      in (db\<lparr>t_Commands := update_rows p f (t_Commands db)\<rparr>,
          if ctr \<noteq> 1 then Inl (Errorf (msg @ '', %d rows affected'') [AInt ctr]) else Inr ()))"

definition UpdateSentCommand :: "command \<Rightarrow> mig_db \<Rightarrow> mig_db \<times> unit result" where
  "UpdateSentCommand cmd =
     update_one ''Failed to update command status correctly''
       (\<lambda>c. cr_ID c = cmd_ID cmd \<and> cr_Status c \<noteq> StatusSuccess)
       (\<lambda>c. c\<lparr>cr_Status := cmd_Status cmd\<rparr>)"

definition finish_target :: "command \<Rightarrow> mig_db \<Rightarrow> command_row \<Rightarrow> bool" where
  "finish_target cmd db c \<longleftrightarrow>
     cr_ID c = cmd_ID cmd \<and> cr_Status c \<noteq> StatusSuccess \<and>
     (\<exists>g\<in>set (t_Agents db). gr_ID g = cr_AgentID c \<and> gr_QueueLoc g = agt_QueueLoc (cmd_Agent cmd) \<and>
        gr_PID g = agt_PID (cmd_Agent cmd) \<and> gr_Status g \<in> {''online'', ''idle''})"

definition FinishCommand :: "db_json \<Rightarrow> command \<Rightarrow> mig_db \<Rightarrow> mig_db \<times> unit result" where
  "FinishCommand js cmd db =
     (case dj_Results js (cmd_Results cmd) of
        Inl e \<Rightarrow> (db, wrap_err ''Failed to marshal results'' (Inl e))
      | Inr res \<Rightarrow>
          (let jResults = replace_all nul_escape ''NULL'' res
           in (case dj_UnResults js jResults of
                 Inl e \<Rightarrow> (db, Inl e)
               | Inr _ \<Rightarrow>
                   update_one ''Failed to finish command status correctly'' (finish_target cmd db)
                     (\<lambda>c. c\<lparr>cr_Status := cmd_Status cmd, cr_Results := jResults,
                            cr_FinishTime := cmd_FinishTime cmd\<rparr>) db)))"

section \<open>Results without NUL\<close>

lemma replaced_plain_prefix:
  "take (length p) (replace_all nul_escape ''NULL'' s) = p \<Longrightarrow> set p \<inter> {CHR 0x5C, CHR ''N''} = {} \<Longrightarrow>
     take (length p) s = p"
proof (induction p arbitrary: s)
  case Nil
  then show ?case by simp
next
  case (Cons x p)
  show ?case
  proof (cases s)
    case Nil
    with Cons.prems(1) show ?thesis by simp
  next
    case (Cons c s')
    with Cons.prems have "\<not> take 6 s = nul_escape" by (auto simp: nul_escape_def split: if_splits)
    with Cons Cons.prems have "c = x" "take (length p) (replace_all nul_escape ''NULL'' s') = p"
      by (auto simp: nul_escape_def split: if_splits)
    with Cons.IH [of s'] Cons.prems(2) Cons show ?thesis by simp
  qed
qed

text \<open>After the replacement the escape sequence of the NUL character does not occur any more.\<close>

lemma replaced_not_prefix: "\<not> prefix nul_escape (replace_all nul_escape ''NULL'' s)"
proof
  assume p: "prefix nul_escape (replace_all nul_escape ''NULL'' s)"
  then obtain c s' where s: "s = c # s'" by (cases s) (auto simp: nul_escape_def)
  with p have nm: "take (length nul_escape) s \<noteq> nul_escape" by (auto simp: nul_escape_def prefix_def)
  with p s have c: "c = CHR 0x5C" and "prefix ''u0000'' (replace_all nul_escape ''NULL'' s')"
    by (auto simp: nul_escape_def split: if_splits)
  then have "take (length ''u0000'') (replace_all nul_escape ''NULL'' s') = ''u0000''"
    by (auto simp: prefix_def)
  from replaced_plain_prefix [OF this] c s have "take (length nul_escape) s = nul_escape"
    by (simp add: nul_escape_def)
  with nm show False by simp
qed

lemma replaced_no_nul: "\<not> sublist nul_escape (replace_all nul_escape ''NULL'' s)"
proof (induction "length s" arbitrary: s rule: less_induct)
  case less
  show ?case
  proof (cases s)
    case Nil
    then show ?thesis by (simp add: nul_escape_def)
  next
    case (Cons c s')
    have none: "\<not> prefix nul_escape (replace_all nul_escape ''NULL'' (c # s'))"
      by (rule replaced_not_prefix)
    show ?thesis
    proof (cases "take (length nul_escape) (c # s') = nul_escape")
      case True
      have "\<not> sublist nul_escape (replace_all nul_escape ''NULL'' (drop (length nul_escape) (c # s')))"
        using less Cons by (simp add: nul_escape_def)
      with True Cons show ?thesis by (auto simp: sublist_Cons_right nul_escape_def)
    next
      case False
      with less [of s'] Cons none show ?thesis by (auto simp: sublist_Cons_right)
    qed
  qed
qed


section \<open>The table as a state machine\<close>

text \<open>
  What any routine of any scheduler, or the API, may do: insert commands, update one, finish one, or
  change the other tables without deleting actions or agents.
\<close>

inductive command_step :: "db_json \<Rightarrow> mig_db \<Rightarrow> mig_db \<Rightarrow> bool" for js where
  insert: "fst (InsertCommand js cmd agt db) = db' \<Longrightarrow> command_step js db db'"
| inserts: "fst (InsertCommands js cmds db) = db' \<Longrightarrow> command_step js db db'"
| sent: "fst (UpdateSentCommand cmd db) = db' \<Longrightarrow> command_step js db db'"
| finish: "fst (FinishCommand js cmd db) = db' \<Longrightarrow> command_step js db db'"
| other: "t_Commands db' = t_Commands db \<Longrightarrow> ar_ID ` set (t_Actions db) \<subseteq> ar_ID ` set (t_Actions db') \<Longrightarrow>
    gr_ID ` set (t_Agents db) \<subseteq> gr_ID ` set (t_Agents db') \<Longrightarrow> command_step js db db'"

definition good_commands :: "mig_db \<Rightarrow> bool" where
  "good_commands db \<longleftrightarrow>
     distinct (map cr_ID (t_Commands db)) \<and>
     (\<forall>c\<in>set (t_Commands db). cr_ActionID c \<in> ar_ID ` set (t_Actions db) \<and>
        cr_AgentID c \<in> gr_ID ` set (t_Agents db))"

text \<open>A row keeps its identity, and if it succeeded it does not change at all.\<close>

definition command_kept :: "command_row \<Rightarrow> command_row \<Rightarrow> bool" where
  "command_kept c c' \<longleftrightarrow>
     cr_ID c' = cr_ID c \<and> cr_ActionID c' = cr_ActionID c \<and> cr_AgentID c' = cr_AgentID c \<and>
     cr_StartTime c' = cr_StartTime c \<and> (cr_Status c = StatusSuccess \<longrightarrow> c' = c)"

definition commands_kept :: "mig_db \<Rightarrow> mig_db \<Rightarrow> bool" where
  "commands_kept db db' \<longleftrightarrow>
     (\<exists>cs new. t_Commands db' = cs @ new \<and> list_all2 command_kept (t_Commands db) cs)"

lemma command_kept_refl [simp]: "command_kept c c"
  by (simp add: command_kept_def)

lemma list_all2_refl': "(\<And>x. P x x) \<Longrightarrow> list_all2 P xs xs"
  by (induction xs) auto

lemma commands_kept_append: "t_Commands db' = t_Commands db @ new \<Longrightarrow> commands_kept db db'"
  by (auto simp: commands_kept_def intro!: list_all2_refl')

lemma commands_kept_update:
  "t_Commands db' = update_rows p f (t_Commands db) \<Longrightarrow>
     (\<And>c. c \<in> set (t_Commands db) \<Longrightarrow> p c \<Longrightarrow> command_kept c (f c)) \<Longrightarrow> commands_kept db db'"
  unfolding commands_kept_def
  by (intro exI [of _ "update_rows p f (t_Commands db)"] exI [of _ "[]"])
    (auto simp: update_rows_def list_all2_conv_all_nth)

lemma commands_kept_trans:
  assumes "commands_kept a b" "commands_kept b c"
  shows "commands_kept a c"
proof -
  from assms(1) obtain cs new where 1: "t_Commands b = cs @ new" "list_all2 command_kept (t_Commands a) cs"
    by (auto simp: commands_kept_def)
  from assms(2) obtain ds new' where 2: "t_Commands c = ds @ new'" "list_all2 command_kept (cs @ new) ds"
    by (auto simp: commands_kept_def 1)
  from 2(2) obtain ds1 ds2 where 3: "ds = ds1 @ ds2" "list_all2 command_kept cs ds1"
    by (auto simp: list_all2_append1)
  have "list_all2 command_kept (t_Commands a) ds1"
    by (rule list_all2_trans [OF _ 1(2) 3(2)]) (auto simp: command_kept_def)
  with 2(1) 3(1) show ?thesis by (auto simp: commands_kept_def)
qed

lemma FinishCommand_table:
  "fst (FinishCommand js cmd db) = db \<or>
   (\<exists>res. fst (FinishCommand js cmd db) = db\<lparr>t_Commands := update_rows (finish_target cmd db)
      (\<lambda>c. c\<lparr>cr_Status := cmd_Status cmd, cr_Results := res, cr_FinishTime := cmd_FinishTime cmd\<rparr>)
      (t_Commands db)\<rparr>)"
  by (auto simp: FinishCommand_def update_one_def Let_def split: sum.splits)

lemma command_step_keeps:
  assumes "command_step js db db'"
  shows "commands_kept db db'"
  using assms
proof cases
  case (insert cmd agt)
  then show ?thesis
    by (auto simp: InsertCommand_def intro: commands_kept_append split: sum.splits if_splits)
next
  case (inserts cmds)
  then show ?thesis
    by (auto simp: InsertCommands_def intro: commands_kept_append split: sum.splits if_splits)
next
  case (sent cmd)
  then show ?thesis
    by (auto simp: UpdateSentCommand_def update_one_def Let_def command_kept_def
        intro!: commands_kept_update [of _ "\<lambda>c. cr_ID c = cmd_ID cmd \<and> cr_Status c \<noteq> StatusSuccess"])
next
  case (finish cmd)
  from FinishCommand_table [of js cmd db] show ?thesis
  proof
    assume "fst (FinishCommand js cmd db) = db"
    with finish show ?thesis by (auto intro: commands_kept_append [where new = "[]"])
  next
    assume "\<exists>res. fst (FinishCommand js cmd db) = db\<lparr>t_Commands := update_rows (finish_target cmd db)
      (\<lambda>c. c\<lparr>cr_Status := cmd_Status cmd, cr_Results := res, cr_FinishTime := cmd_FinishTime cmd\<rparr>)
      (t_Commands db)\<rparr>"
    then obtain res where "t_Commands (fst (FinishCommand js cmd db)) = update_rows (finish_target cmd db)
      (\<lambda>c. c\<lparr>cr_Status := cmd_Status cmd, cr_Results := res, cr_FinishTime := cmd_FinishTime cmd\<rparr>)
      (t_Commands db)" by auto
    from commands_kept_update [OF this] finish show ?thesis
      by (auto simp: command_kept_def finish_target_def)
  qed
next
  case other
  then show ?thesis by (auto intro: commands_kept_append [where new = "[]"])
qed

text \<open>The columns that the constraints are about.\<close>

definition command_keys :: "mig_db \<Rightarrow> (mig_id \<times> mig_id \<times> mig_id) list" where
  "command_keys db = map (\<lambda>c. (cr_ID c, cr_ActionID c, cr_AgentID c)) (t_Commands db)"

lemma good_commands_keys:
  "good_commands db \<longleftrightarrow> distinct (map fst (command_keys db)) \<and>
     (\<forall>(c, a, g)\<in>set (command_keys db). a \<in> ar_ID ` set (t_Actions db) \<and> g \<in> gr_ID ` set (t_Agents db))"
  by (auto simp: good_commands_def command_keys_def comp_def)

lemma command_keys_update [simp]:
  "(\<And>c. cr_ID (f c) = cr_ID c \<and> cr_ActionID (f c) = cr_ActionID c \<and> cr_AgentID (f c) = cr_AgentID c) \<Longrightarrow>
     command_keys (db\<lparr>t_Commands := update_rows p f (t_Commands db)\<rparr>) = command_keys db"
  by (simp add: command_keys_def update_rows_def)

lemma good_commands_update [simp]:
  assumes "\<And>c. cr_ID (f c) = cr_ID c \<and> cr_ActionID (f c) = cr_ActionID c \<and> cr_AgentID (f c) = cr_AgentID c"
  shows "good_commands (db\<lparr>t_Commands := update_rows p f (t_Commands db)\<rparr>) = good_commands db"
  using command_keys_update [of f p db] assms by (simp add: good_commands_keys)

lemma ex_key: "(\<exists>a\<in>A. f a = x) \<longleftrightarrow> x \<in> f ` A"
  by auto

lemma command_step_good:
  assumes "good_commands db" "command_step js db db'"
  shows "good_commands db'"
  using assms(2)
proof cases
  case (insert cmd agt)
  with assms(1) show ?thesis
    by (auto simp: InsertCommand_def good_commands_def ex_key split: sum.splits if_splits)
next
  case (inserts cmds)
  with assms(1) show ?thesis
    by (auto simp: InsertCommands_def good_commands_def ex_key split: sum.splits if_splits)
next
  case (sent cmd)
  with assms(1) show ?thesis by (auto simp: UpdateSentCommand_def update_one_def Let_def)
next
  case (finish cmd)
  with FinishCommand_table [of js cmd db] assms(1) show ?thesis by auto
next
  case other
  with assms(1) show ?thesis by (fastforce simp: good_commands_def)
qed

interpretation commands: state_machine "command_step js" good_commands commands_kept
proof
  show "commands_kept db db" for db by (rule commands_kept_append [where new = "[]"]) simp
qed (auto intro: command_step_good command_step_keeps commands_kept_trans)

section \<open>Properties\<close>

lemma list_all2_in_left: "list_all2 P xs ys \<Longrightarrow> x \<in> set xs \<Longrightarrow> \<exists>y\<in>set ys. P x y"
  by (force simp: list_all2_conv_all_nth in_set_conv_nth)

text \<open>
  C12. A command that succeeded keeps its result: along every sequence of inserts, status updates and
  finished commands, from any number of schedulers in any order, the row of a successful command is
  never changed, rows are never lost or renumbered, identifiers stay unique, and each command belongs
  to an existing action and an existing agent.
\<close>

theorem command_success_is_final:
  assumes "(command_step js)\<^sup>*\<^sup>* db db'" and "good_commands db" and "c \<in> set (t_Commands db)"
  shows "distinct (map cr_ID (t_Commands db')) \<and>
    (\<exists>c'\<in>set (t_Commands db'). cr_ID c' = cr_ID c \<and> cr_ActionID c' = cr_ActionID c \<and>
       cr_AgentID c' = cr_AgentID c \<and> (cr_Status c = StatusSuccess \<longrightarrow> c' = c)) \<and>
    (\<forall>c'\<in>set (t_Commands db'). cr_ActionID c' \<in> ar_ID ` set (t_Actions db') \<and>
       cr_AgentID c' \<in> gr_ID ` set (t_Agents db'))"
proof -
  from commands.run_inv [OF assms(1,2)] have g: "good_commands db'" .
  from commands.run_keeps [OF assms(1,2)] obtain cs new
    where "t_Commands db' = cs @ new" "list_all2 command_kept (t_Commands db) cs"
    by (auto simp: commands_kept_def)
  with list_all2_in_left [OF _ assms(3)] have "\<exists>c'\<in>set (t_Commands db'). command_kept c c'" by fastforce
  with g show ?thesis by (auto simp: good_commands_def command_kept_def)
qed

lemma update_one_ok:
  assumes "update_one msg p f db = (db', Inr ())" "distinct (map k (t_Commands db))"
    and "\<And>c. p c \<Longrightarrow> k c = i" "\<And>c. k (f c) = k c"
  shows "\<exists>c\<in>set (t_Commands db). p c \<and> f c \<in> set (t_Commands db') \<and>
    (\<forall>d\<in>set (t_Commands db'). d \<noteq> f c \<longrightarrow> d \<in> set (t_Commands db) \<and> k d \<noteq> i)"
proof -
  from assms(1) have len: "length (filter p (t_Commands db)) = 1"
    and db': "t_Commands db' = update_rows p f (t_Commands db)"
    by (auto simp: update_one_def Let_def split: if_splits)
  from len obtain c where c: "filter p (t_Commands db) = [c]"
    by (auto simp: length_Suc_conv)
  then have pc: "c \<in> set (t_Commands db)" "p c"
    using set_filter [of p "t_Commands db"] by auto
  have only: "d = c" if "d \<in> set (t_Commands db)" "k d = i" for d
    using that pc assms(2,3) by (auto simp: distinct_map dest: inj_onD)
  have kc: "k c = i" using pc assms(3) by blast
  have "f c \<in> set (t_Commands db')" using pc by (auto simp: db' set_update_rows)
  moreover have "d \<in> set (t_Commands db) \<and> k d \<noteq> i" if d: "d \<in> set (t_Commands db')" "d \<noteq> f c" for d
  proof -
    from d(1) obtain x where x: "x \<in> set (t_Commands db)" "d = (if p x then f x else x)"
      by (auto simp: db' set_update_rows)
    with d(2) only assms(3) have "\<not> p x" by auto
    with x pc only show ?thesis by auto
  qed
  ultimately show ?thesis using pc by blast
qed

text \<open>
  A command that is reported finished is finished: its row has the returned status, finish time and
  results, it had not succeeded before and belongs to an online or idle agent with the queue and
  process number of the report, no other row changed, and the stored results do not contain the
  escape sequence of a NUL character that PostgreSQL rejects.
\<close>

theorem FinishCommand_stores:
  assumes "FinishCommand js cmd db = (db', Inr ())" and "good_commands db"
  shows "\<exists>c\<in>set (t_Commands db). \<exists>c'\<in>set (t_Commands db'). \<exists>g\<in>set (t_Agents db).
    cr_ID c = cmd_ID cmd \<and> cr_Status c \<noteq> StatusSuccess \<and>
    gr_ID g = cr_AgentID c \<and> gr_QueueLoc g = agt_QueueLoc (cmd_Agent cmd) \<and>
    gr_PID g = agt_PID (cmd_Agent cmd) \<and> (gr_Status g = ''online'' \<or> gr_Status g = ''idle'') \<and>
    cr_ID c' = cr_ID c \<and> cr_Status c' = cmd_Status cmd \<and> cr_FinishTime c' = cmd_FinishTime cmd \<and>
    \<not> sublist nul_escape (cr_Results c') \<and> is_ok (dj_UnResults js (cr_Results c')) \<and>
    (\<forall>d\<in>set (t_Commands db'). d \<noteq> c' \<longrightarrow> d \<in> set (t_Commands db))"
proof -
  from assms(1) obtain res where res: "dj_Results js (cmd_Results cmd) = Inr res"
    and un: "is_ok (dj_UnResults js (replace_all nul_escape ''NULL'' res))"
    and up: "update_one ''Failed to finish command status correctly'' (finish_target cmd db)
        (\<lambda>c. c\<lparr>cr_Status := cmd_Status cmd, cr_Results := replace_all nul_escape ''NULL'' res,
               cr_FinishTime := cmd_FinishTime cmd\<rparr>) db = (db', Inr ())"
    by (auto simp: FinishCommand_def Let_def split: sum.splits)
  from update_one_ok [OF up, of cr_ID "cmd_ID cmd"] assms(2)
  obtain c where "c \<in> set (t_Commands db)" "finish_target cmd db c"
    "c\<lparr>cr_Status := cmd_Status cmd, cr_Results := replace_all nul_escape ''NULL'' res,
       cr_FinishTime := cmd_FinishTime cmd\<rparr> \<in> set (t_Commands db')"
    "\<forall>d\<in>set (t_Commands db'). d \<noteq> c\<lparr>cr_Status := cmd_Status cmd,
        cr_Results := replace_all nul_escape ''NULL'' res, cr_FinishTime := cmd_FinishTime cmd\<rparr> \<longrightarrow>
      d \<in> set (t_Commands db)"
    by (auto simp: good_commands_def finish_target_def)
  then show ?thesis
    unfolding finish_target_def using un replaced_no_nul [of res]
    by (elim conjE bexE) (intro bexI conjI, auto)
qed

text \<open>
  While the agent that a command was sent to is neither online nor idle under the same queue and
  process number, the command cannot be finished, whatever its status.
\<close>

lemma FinishCommand_agent_gone:
  assumes "\<forall>c\<in>set (t_Commands db). cr_ID c = cmd_ID cmd \<longrightarrow> (\<forall>g\<in>set (t_Agents db). gr_ID g = cr_AgentID c \<longrightarrow>
      gr_Status g \<notin> {''online'', ''idle''})"
  shows "\<exists>e. FinishCommand js cmd db = (db, Inl e)"
proof -
  have none: "\<not> finish_target cmd db c" if "c \<in> set (t_Commands db)" for c
    using assms that by (auto simp: finish_target_def)
  then have "filter (finish_target cmd db) (t_Commands db) = []"
    "update_rows (finish_target cmd db) f (t_Commands db) = t_Commands db" for f
    by (auto simp: filter_empty_conv update_rows_def intro: map_idI)
  then show ?thesis
    by (auto simp: FinishCommand_def update_one_def Let_def wrap_err_def split: sum.splits)
qed

section \<open>Witnesses\<close>

lemma example_good_commands: "good_commands example_mdb"
  by (simp add: good_commands_def example_mdb_def example_action_row_def example_agent_row_def)

definition example_command :: "mig_id \<Rightarrow> string \<Rightarrow> command" where
  "example_command i status =
     \<lparr>cmd_ID = i, cmd_Action = zero_action\<lparr>act_ID := 1\<rparr>,
      cmd_Agent = zero_agent\<lparr>agt_ID := 3, agt_QueueLoc := ''q'', agt_PID := 7\<rparr>, cmd_Status = status,
      cmd_Results = [], cmd_StartTime = 0, cmd_FinishTime = 70\<rparr>"

theorem command_success_is_final_witness:
  "\<exists>c\<in>set (t_Commands (fst (UpdateSentCommand (example_command 5 ''failed'') example_mdb))).
     cr_ID c = 5 \<and> cr_Status c = ''success''"
proof -
  let ?c = "hd (t_Commands example_mdb)"
  have run: "(command_step example_js)\<^sup>*\<^sup>* example_mdb (fst (UpdateSentCommand (example_command 5 ''failed'') example_mdb))"
    by (rule r_into_rtranclp, rule command_step.sent) simp
  have c: "?c \<in> set (t_Commands example_mdb)" "cr_ID ?c = 5" "cr_Status ?c = ''success''"
    by (simp_all add: example_mdb_def)
  from command_success_is_final [OF run example_good_commands c(1)] c(2,3) show ?thesis
    by (metis StatusSuccess_def)
qed

lemma example_finish: "\<exists>db'. FinishCommand example_js (example_command 6 ''success'') example_mdb = (db', Inr ())"
  by (simp add: FinishCommand_def example_js_def example_command_def example_mdb_def example_agent_row_def
      update_one_def finish_target_def StatusSuccess_def Let_def)

theorem FinishCommand_stores_witness:
  "\<exists>db'. FinishCommand example_js (example_command 6 ''success'') example_mdb = (db', Inr ()) \<and>
     (\<exists>c\<in>set (t_Commands db'). cr_ID c = 6 \<and> cr_Status c = ''success'' \<and> cr_FinishTime c = 70)"
proof -
  obtain db' where f: "FinishCommand example_js (example_command 6 ''success'') example_mdb = (db', Inr ())"
    using example_finish by blast
  from FinishCommand_stores [OF f example_good_commands] f show ?thesis
    by (auto simp: example_command_def)
qed

end
