(* ===== verification/AgentTable.thy ===== *)
theory AgentTable
  imports Database
begin

text \<open>
  The table of agents and its statistics (\<open>database/agents.go\<close>): one row for every agent process that
  was seen, with the endpoint's queue in \<open>queueloc\<close>. Several rows may have the same queue.
\<close>

section \<open>SQL idioms\<close>

text \<open>A \<open>WHERE\<close> clause that the database may fail to evaluate.\<close>

fun filter_res :: "('r \<Rightarrow> bool result) \<Rightarrow> 'r list \<Rightarrow> 'r list result" where
  "filter_res p [] = Inr []"
| "filter_res p (r # rs) =
     and_then (p r) (\<lambda>b. and_then (filter_res p rs) (\<lambda>rs'. Inr (if b then r # rs' else rs')))"

text \<open>\<open>SELECT DISTINCT ON (k)\<close> keeps the first row of every group.\<close>

function distinct_on :: "('r \<Rightarrow> 'k) \<Rightarrow> 'r list \<Rightarrow> 'r list" where
  "distinct_on k [] = []"
| "distinct_on k (r # rs) = r # distinct_on k (filter (\<lambda>x. k x \<noteq> k r) rs)"
  by pat_completeness auto
termination
  by (relation "measure (\<lambda>(k, rs). length rs)") (auto simp: less_Suc_eq_le)

lemma filter_res_Inr:
  "filter_res p rs = Inr rs' \<Longrightarrow> set rs' = {r \<in> set rs. p r = Inr True} \<and> (\<forall>r\<in>set rs. is_ok (p r))"
  by (induction rs arbitrary: rs') (auto simp: and_then_eq_Inr split: if_splits)

lemma set_distinct_on: "set (distinct_on k rs) \<subseteq> set rs"
  by (induction k rs rule: distinct_on.induct) auto

lemma keys_distinct_on: "k ` set (distinct_on k rs) = k ` set rs"
  by (induction k rs rule: distinct_on.induct) auto

lemma distinct_distinct_on: "distinct (map k (distinct_on k rs))"
proof (induction k rs rule: distinct_on.induct)
  case (2 k r rs)
  moreover have "k r \<notin> set (map k (distinct_on k (filter (\<lambda>x. k x \<noteq> k r) rs)))"
    using keys_distinct_on [of k "filter (\<lambda>x. k x \<noteq> k r) rs"] by auto
  ultimately show ?case by simp
qed simp

section \<open>Single agents\<close>

definition agent_columns :: "agent_row \<Rightarrow> agent" where
  "agent_columns g =
     zero_agent\<lparr>agt_ID := gr_ID g, agt_Name := gr_Name g, agt_QueueLoc := gr_QueueLoc g,
       agt_Mode := gr_Mode g, agt_Version := gr_Version g, agt_PID := gr_PID g,
       agt_StartTime := gr_StartTime g, agt_HeartBeatTS := gr_HeartBeatTS g,
       agt_RefreshTS := gr_RefreshTS g, agt_Status := gr_Status g\<rparr>"

definition AgentByQueueAndPID :: "string \<Rightarrow> int \<Rightarrow> mig_db \<Rightarrow> agent result" where
  "AgentByQueueAndPID queueloc pid db =
     and_then (wrap_err ''Error while retrieving agent''
         (row (\<lambda>g. gr_QueueLoc g = queueloc \<and> gr_PID g = pid \<and> gr_Status g \<noteq> AgtStatusOffline) (t_Agents db)))
       (\<lambda>g. Inr (agent_columns g))"

definition AgentByID :: "db_json \<Rightarrow> mig_id \<Rightarrow> mig_db \<Rightarrow> agent result" where
  "AgentByID js i db =
     and_then (wrap_err ''Error while retrieving agent'' (row (\<lambda>g. gr_ID g = i) (t_Agents db))) (\<lambda>g.
       case dj_UnTags js (gr_Tags g) of
         Inl _ \<Rightarrow> Inl (errors_New ''failed to unmarshal agent tags'')
       | Inr tags \<Rightarrow>
           (case dj_UnEnv js (gr_Env g) of
              Inl _ \<Rightarrow> Inl (errors_New ''failed to unmarshal agent environment'')
            | Inr env \<Rightarrow> Inr (agent_columns g\<lparr>agt_Tags := tags, agt_Env := env\<rparr>)))"

text \<open>\<open>(SELECT loadername FROM loaders WHERE queueloc = $1 LIMIT 1)\<close>.\<close>

definition loader_name :: "string \<Rightarrow> mig_db \<Rightarrow> string option" where
  "loader_name queueloc db =
     map_option l_LoaderName (find (\<lambda>l. l_QueueLoc l = Some queueloc) (t_Loaders db))"

definition InsertAgent :: "db_json \<Rightarrow> mig_id \<Rightarrow> agent \<Rightarrow> mig_db \<Rightarrow> mig_db \<times> unit result" where
  "InsertAgent js agtid agt db =
     (let columns =
        and_then (wrap_err ''Failed to marshal agent environment'' (dj_Env js (agt_Env agt))) (\<lambda>env.
        and_then (wrap_err ''Failed to marshal agent tags'' (dj_Tags js (agt_Tags agt))) (\<lambda>tags.
          Inr \<lparr>gr_ID = agtid, gr_Name = agt_Name agt, gr_QueueLoc = agt_QueueLoc agt,
               gr_Mode = agt_Mode agt, gr_Version = agt_Version agt, gr_PID = agt_PID agt,
               gr_StartTime = agt_StartTime agt, gr_DestructionTime = agt_DestructionTime agt,
               gr_HeartBeatTS = agt_HeartBeatTS agt, gr_RefreshTS = agt_RefreshTS agt,
               gr_Status = agt_Status agt, gr_Env = env, gr_Tags = tags,
               gr_LoaderName = loader_name (agt_QueueLoc agt) db\<rparr>))
      in (case columns of
            Inl e \<Rightarrow> (db, Inl e)
          | Inr g \<Rightarrow>
              if \<exists>x\<in>set (t_Agents db). gr_ID x = agtid
              then (db, wrap_err ''Failed to insert agent in database'' (Inl unique_violation))
              else (db\<lparr>t_Agents := t_Agents db @ [g]\<rparr>, Inr ())))"

definition update_agents :: "(agent_row \<Rightarrow> bool) \<Rightarrow> (agent_row \<Rightarrow> agent_row) \<Rightarrow> mig_db \<Rightarrow> mig_db" where
  "update_agents p f db = db\<lparr>t_Agents := update_rows p f (t_Agents db)\<rparr>"

definition UpdateAgentHeartbeat :: "agent \<Rightarrow> mig_db \<Rightarrow> mig_db" where
  "UpdateAgentHeartbeat agt db =
     update_agents (\<lambda>g. gr_ID g = agt_ID agt)
       (\<lambda>g. g\<lparr>gr_Status := AgtStatusOnline, gr_HeartBeatTS := agt_HeartBeatTS agt,
              gr_LoaderName := loader_name (agt_QueueLoc agt) db\<rparr>) db"

text \<open>One transaction: when the insertion fails, the old row keeps its status.\<close>

definition ReplaceRefreshedAgent :: "db_json \<Rightarrow> mig_id \<Rightarrow> agent \<Rightarrow> mig_db \<Rightarrow> mig_db \<times> unit result" where
  "ReplaceRefreshedAgent js agtid agt db =
     (case InsertAgent js agtid agt
             (update_agents (\<lambda>g. gr_ID g = agt_ID agt) (\<lambda>g. g\<lparr>gr_Status := AgtStatusOffline\<rparr>) db) of
        (db', Inl e) \<Rightarrow> (db, Inl e)
      | (db', Inr u) \<Rightarrow> (db', Inr u))"

definition MarkAgentDestroyed :: "time \<Rightarrow> agent \<Rightarrow> mig_db \<Rightarrow> mig_db" where
  "MarkAgentDestroyed now agt =
     update_agents (\<lambda>g. gr_ID g = agt_ID agt)
       (\<lambda>g. g\<lparr>gr_DestructionTime := now, gr_Status := AgtStatusDestroyed\<rparr>)"

definition MarkOfflineAgents :: "time \<Rightarrow> mig_db \<Rightarrow> mig_db" where
  "MarkOfflineAgents pointInTime =
     update_agents (\<lambda>g. gr_HeartBeatTS g < pointInTime \<and> gr_Status g = AgtStatusIdle)
       (\<lambda>g. g\<lparr>gr_Status := AgtStatusOffline\<rparr>)"

definition MarkIdleAgents :: "time \<Rightarrow> mig_db \<Rightarrow> mig_db" where
  "MarkIdleAgents pointInTime =
     update_agents (\<lambda>g. gr_HeartBeatTS g < pointInTime \<and> gr_Status g = AgtStatusOnline)
       (\<lambda>g. g\<lparr>gr_Status := AgtStatusIdle\<rparr>)"

section \<open>Groups of agents\<close>

definition AgentsActiveSince :: "time \<Rightarrow> time \<Rightarrow> mig_db \<Rightarrow> agent list" where
  "AgentsActiveSince now pointInTime db =
     map (\<lambda>(q, n). zero_agent\<lparr>agt_QueueLoc := q, agt_Name := n\<rparr>)
       (remdups (map (\<lambda>g. (gr_QueueLoc g, gr_Name g))
         (filter (\<lambda>g. pointInTime \<le> gr_HeartBeatTS g \<and> gr_HeartBeatTS g \<le> now) (t_Agents db))))"

definition ListMultiAgentsQueues :: "time \<Rightarrow> mig_db \<Rightarrow> string list" where
  "ListMultiAgentsQueues pointInTime db =
     (let qs = map gr_QueueLoc
                 (filter (\<lambda>g. pointInTime < gr_HeartBeatTS g \<and> gr_Mode g \<noteq> ''checkin'') (t_Agents db))
      in filter (\<lambda>q. 1 < count_list qs q) (remdups qs))"

definition ActiveAgentsByQueue :: "string \<Rightarrow> time \<Rightarrow> mig_db \<Rightarrow> agent list" where
  "ActiveAgentsByQueue queueloc pointInTime db =
     map agent_columns
       (filter (\<lambda>g. pointInTime < gr_HeartBeatTS g \<and> gr_QueueLoc g = queueloc \<and>
                    gr_Status g \<noteq> AgtStatusOffline) (t_Agents db))"

definition load_agent :: "db_json \<Rightarrow> agent_row \<Rightarrow> agent result" where
  "load_agent js g =
     (case dj_UnTags js (gr_Tags g) of
        Inl _ \<Rightarrow> Inl (errors_New ''failed to unmarshal agent tags'')
      | Inr tags \<Rightarrow>
          (case dj_UnEnv js (gr_Env g) of
             Inl _ \<Rightarrow> Inl (errors_New ''failed to unmarshal agent environment'')
           | Inr env \<Rightarrow>
               Inr (agent_columns g\<lparr>agt_DestructionTime := gr_DestructionTime g, agt_Tags := tags,
                      agt_Env := env, agt_LoaderName := opt_text (gr_LoaderName g)\<rparr>)))"

definition ActiveAgentsByTarget ::
  "db_json \<Rightarrow> (string \<Rightarrow> agent_row \<Rightarrow> bool result) \<Rightarrow> string \<Rightarrow> mig_db \<Rightarrow> agent list result" where
  "ActiveAgentsByTarget js holds target db =
     and_then (wrap_err ''Error while finding agents''
         (filter_res (holds target)
           (filter (\<lambda>g. gr_Status g \<in> {AgtStatusOnline, AgtStatusIdle}) (t_Agents db))))
       (\<lambda>rs. map_res (load_agent js) (sort_key gr_QueueLoc (distinct_on gr_QueueLoc rs)))"

section \<open>Statistics\<close>

definition queues_where :: "(agent_row \<Rightarrow> bool) \<Rightarrow> mig_db \<Rightarrow> string list" where
  "queues_where p db = remdups (map gr_QueueLoc (filter p (t_Agents db)))"

definition sum_by_version :: "(agent_row \<Rightarrow> bool) \<Rightarrow> mig_db \<Rightarrow> agents_versions_sum list" where
  "sum_by_version p db =
     (let vs = map gr_Version (filter p (t_Agents db))
      in map (\<lambda>v. \<lparr>avs_Count = int (count_list vs v), avs_Version = v\<rparr>) (remdups vs))"

definition SumOnlineAgentsByVersion :: "mig_db \<Rightarrow> agents_versions_sum list" where
  "SumOnlineAgentsByVersion = sum_by_version (\<lambda>g. gr_Status g = AgtStatusOnline)"

definition SumIdleAgentsByVersion :: "mig_db \<Rightarrow> agents_versions_sum list" where
  "SumIdleAgentsByVersion db =
     sum_by_version (\<lambda>g. gr_Status g = AgtStatusIdle \<and>
        gr_QueueLoc g \<notin> set (queues_where (\<lambda>g. gr_Status g = AgtStatusOnline) db)) db"

definition CountOnlineEndpoints :: "mig_db \<Rightarrow> int" where
  "CountOnlineEndpoints db = int (length (queues_where (\<lambda>g. gr_Status g = AgtStatusOnline) db))"

definition CountIdleEndpoints :: "mig_db \<Rightarrow> int" where
  "CountIdleEndpoints db =
     int (length (queues_where (\<lambda>g. gr_Status g = AgtStatusIdle \<and>
        gr_QueueLoc g \<notin> set (queues_where (\<lambda>g. gr_Status g = AgtStatusOnline) db)) db))"

definition CountNewEndpoints :: "time \<Rightarrow> time \<Rightarrow> mig_db \<Rightarrow> int" where
  "CountNewEndpoints recent old db =
     int (length (queues_where (\<lambda>g. recent < gr_StartTime g \<and>
        gr_QueueLoc g \<notin> set (queues_where (\<lambda>g. old < gr_HeartBeatTS g \<and> gr_HeartBeatTS g < recent) db)) db))"

definition multi_queues :: "(agent_row \<Rightarrow> bool) \<Rightarrow> mig_db \<Rightarrow> string list" where
  "multi_queues p db =
     filter (\<lambda>q. 1 < length (filter (\<lambda>g. p g \<and> gr_QueueLoc g = q) (t_Agents db))) (queues_where p db)"

definition CountDoubleAgents :: "mig_db \<Rightarrow> int" where
  "CountDoubleAgents db =
     int (length (queues_where
       (\<lambda>g. gr_QueueLoc g \<in> set (multi_queues (\<lambda>g. gr_Status g = AgtStatusOnline) db)) db))"

definition active_queues :: "mig_db \<Rightarrow> string list" where
  "active_queues = queues_where (\<lambda>g. gr_Status g = AgtStatusIdle \<or> gr_Status g = AgtStatusOnline)"

definition CountDisappearedEndpoints :: "time \<Rightarrow> mig_db \<Rightarrow> int" where
  "CountDisappearedEndpoints pointInTime db =
     int (length (queues_where
       (\<lambda>g. gr_QueueLoc g \<notin> set (active_queues db) \<and> pointInTime < gr_HeartBeatTS g) db))"

definition GetDisappearedEndpoints :: "time \<Rightarrow> mig_db \<Rightarrow> string list" where
  "GetDisappearedEndpoints oldest db =
     queues_where (\<lambda>g. gr_Status g = ''offline'' \<and> oldest < gr_HeartBeatTS g \<and>
       gr_QueueLoc g \<notin> set (active_queues db)) db"

definition CountFlappingEndpoints :: "mig_db \<Rightarrow> int" where
  "CountFlappingEndpoints db =
     int (length (multi_queues (\<lambda>g. gr_Status g = AgtStatusOnline \<or> gr_Status g = AgtStatusIdle) db))"

definition GetAgentsStats :: "nat \<Rightarrow> mig_db \<Rightarrow> agents_stats list" where
  "GetAgentsStats limit db = take limit (sort_key (\<lambda>s. - as_Timestamp s) (t_Stats db))"

definition StoreAgentsStats :: "time \<Rightarrow> agents_stats \<Rightarrow> mig_db \<Rightarrow> mig_db" where
  "StoreAgentsStats now stats db = db\<lparr>t_Stats := t_Stats db @ [stats\<lparr>as_Timestamp := now\<rparr>]\<rparr>"

section \<open>Facts about the queries\<close>

lemma set_queues_where: "set (queues_where p db) = gr_QueueLoc ` {g \<in> set (t_Agents db). p g}"
  by (simp add: queues_where_def)

lemma distinct_queues_where: "distinct (queues_where p db)"
  by (simp add: queues_where_def)

lemma sum_count_list: "(\<Sum>x\<leftarrow>remdups xs. int (count_list xs x)) = int (length xs)"
proof -
  have "(\<Sum>x\<leftarrow>remdups xs. int (count_list xs x)) = (\<Sum>x\<in>set xs. int (count_list xs x))"
    by (simp add: sum_list_distinct_conv_sum_set)
  also have "\<dots> = int (length xs)"
    using sum_count_set [of xs "set xs"] by (simp flip: of_nat_sum)
  finally show ?thesis .
qed

text \<open>The counts by version add up to the number of agents counted.\<close>

lemma sum_by_version_total:
  "(\<Sum>v\<leftarrow>sum_by_version p db. avs_Count v) = int (length (filter p (t_Agents db)))"
  using sum_count_list [of "map gr_Version (filter p (t_Agents db))"]
  by (simp add: sum_by_version_def Let_def comp_def)

lemma load_agent_columns:
  "load_agent js g = Inr a \<Longrightarrow>
     agt_ID a = gr_ID g \<and> agt_QueueLoc a = gr_QueueLoc g \<and> agt_Status a = gr_Status g \<and> agt_PID a = gr_PID g"
  by (auto simp: load_agent_def agent_columns_def split: sum.splits)

lemma list_all2_map_eq: "list_all2 (\<lambda>x y. f x = g y) xs ys \<Longrightarrow> map g ys = map f xs"
  by (induction rule: list_all2_induct) auto

lemma list_all2_in_right: "list_all2 P xs ys \<Longrightarrow> y \<in> set ys \<Longrightarrow> \<exists>x\<in>set xs. P x y"
  by (induction rule: list_all2_induct) auto

text \<open>
  Every endpoint that the target designates gets the action once. The agents that
  \<open>ActiveAgentsByTarget\<close> returns are ordered by queue, without two on the same queue; each is an online
  or idle agent whose row satisfies the target condition; and every queue of such an agent is there.
\<close>

theorem ActiveAgentsByTarget_one_per_endpoint:
  assumes "ActiveAgentsByTarget js holds target db = Inr as"
  shows "sorted_wrt (<) (map agt_QueueLoc as) \<and>
    (\<forall>a\<in>set as. \<exists>g\<in>set (t_Agents db). gr_ID g = agt_ID a \<and> gr_QueueLoc g = agt_QueueLoc a \<and>
       gr_Status g \<in> {AgtStatusOnline, AgtStatusIdle} \<and> holds target g = Inr True) \<and>
    (\<forall>g\<in>set (t_Agents db). gr_Status g \<in> {AgtStatusOnline, AgtStatusIdle} \<longrightarrow> holds target g = Inr True \<longrightarrow>
       gr_QueueLoc g \<in> agt_QueueLoc ` set as)"
proof -
  let ?active = "filter (\<lambda>g. gr_Status g \<in> {AgtStatusOnline, AgtStatusIdle}) (t_Agents db)"
  from assms obtain rs where rs: "filter_res (holds target) ?active = Inr rs"
    and l: "list_all2 (\<lambda>g a. load_agent js g = Inr a) (sort_key gr_QueueLoc (distinct_on gr_QueueLoc rs)) as"
    by (auto simp: ActiveAgentsByTarget_def and_then_eq_Inr map_res_eq_Inr)
  let ?gs = "sort_key gr_QueueLoc (distinct_on gr_QueueLoc rs)"
  from filter_res_Inr [OF rs] have set_rs: "set rs = {g \<in> set ?active. holds target g = Inr True}" by simp
  have q: "map agt_QueueLoc as = map gr_QueueLoc ?gs"
    by (rule list_all2_map_eq, rule list_all2_mono [OF l]) (auto dest: load_agent_columns)
  have "distinct (map gr_QueueLoc ?gs)"
    using distinct_distinct_on [of gr_QueueLoc rs] by (simp add: distinct_map)
  then have "sorted_wrt (<) (map agt_QueueLoc as)"
    unfolding q by (simp add: strict_sorted_iff)
  moreover have "\<exists>g\<in>set (t_Agents db). gr_ID g = agt_ID a \<and> gr_QueueLoc g = agt_QueueLoc a \<and>
       gr_Status g \<in> {AgtStatusOnline, AgtStatusIdle} \<and> holds target g = Inr True" if "a \<in> set as" for a
  proof -
    from list_all2_in_right [OF l that] obtain g where "g \<in> set rs" "load_agent js g = Inr a"
      using set_distinct_on [of gr_QueueLoc rs] by auto
    then show ?thesis using set_rs load_agent_columns [of js g a] by auto
  qed
  moreover have "agt_QueueLoc ` set as = gr_QueueLoc ` set rs"
    using arg_cong [OF q, of set] keys_distinct_on [of gr_QueueLoc rs] by simp
  ultimately show ?thesis using set_rs by auto
qed

section \<open>Witness\<close>

lemma example_targets:
  "\<exists>a. ActiveAgentsByTarget example_js (\<lambda>_ _. Inr True) ''all'' example_mdb = Inr [a]"
  by (simp add: ActiveAgentsByTarget_def example_mdb_def example_agent_row_def agent_statuses load_agent_def
      example_js_def wrap_err_def)

theorem ActiveAgentsByTarget_one_per_endpoint_witness:
  "\<exists>a. ActiveAgentsByTarget example_js (\<lambda>_ _. Inr True) ''all'' example_mdb = Inr [a] \<and> agt_QueueLoc a = ''q''"
proof -
  obtain a where a: "ActiveAgentsByTarget example_js (\<lambda>_ _. Inr True) ''all'' example_mdb = Inr [a]"
    using example_targets by blast
  from ActiveAgentsByTarget_one_per_endpoint [OF a] a show ?thesis
    by (auto simp: example_mdb_def example_agent_row_def)
qed

end
