(* ===== verification/Heartbeats.thy ===== *)
theory Heartbeats
  imports AgentTable
begin

text \<open>
  How agents appear in the database: the whitelist (\<open>mig-scheduler/authorization.go\<close>), the heartbeats
  that the scheduler receives (\<open>mig-scheduler/agents_queues.go\<close>), the periodic marking of silent agents
  (\<open>mig-scheduler/periodic.go\<close>), and the heartbeats that are posted to the API
  (\<open>mig-api/agents/upload_heartbeat.go\<close>, \<open>mig-api/agents/persist_heartbeat_postgres.go\<close>).

  A heartbeat is written to the database in a goroutine of its own: what it read may be out of date
  when it writes, so reading and writing are two steps.
\<close>

section \<open>The whitelist\<close>

text \<open>
  The configuration as these routines use it. \<open>hc_Whitelist\<close> is \<open>None\<close> when no file is configured;
  otherwise the lines of the file, or the error of opening it. \<open>hc_Regexp\<close> compiles a regular expression
  and matches it.
\<close>

record heartbeat_conf =
  hc_Whitelist :: "string list result option"
  hc_Regexp :: "string \<Rightarrow> (string \<Rightarrow> bool) result"
  hc_TimeOut :: "duration result"
  hc_HeartbeatFreq :: "duration result"
  hc_DetectMultiAgents :: bool
  hc_KillDupAgents :: bool
  hc_Unmarshal :: "string \<Rightarrow> agent result"
  hc_Json :: db_json

fun whitelist_scan :: "(string \<Rightarrow> (string \<Rightarrow> bool) result) \<Rightarrow> string \<Rightarrow> string list \<Rightarrow> bool result" where
  "whitelist_scan re q [] = Inr False"
| "whitelist_scan re q (t # ts) =
     (if 4 < length t \<and> take 3 t = ''re:''
      then and_then (re (''^'' @ drop 3 t @ ''$'')) (\<lambda>matches. if matches q then Inr True else whitelist_scan re q ts)
      else if t = q then Inr True else whitelist_scan re q ts)"

definition isAgentAuthorized :: "heartbeat_conf \<Rightarrow> string \<Rightarrow> bool result" where
  "isAgentAuthorized hc q =
     recovered ''isAgentAuthorized''
       (case hc_Whitelist hc of
          None \<Rightarrow> Inr True
        | Some contents \<Rightarrow> and_then contents (whitelist_scan (hc_Regexp hc) q))"

section \<open>The scheduler\<close>

text \<open>
  The first half of \<open>getHeartbeats\<close>: the agent whose heartbeat goes to the database, none when the
  heartbeat is dropped.
\<close>

definition accept_heartbeat :: "heartbeat_conf \<Rightarrow> time \<Rightarrow> string \<Rightarrow> agent option result" where
  "accept_heartbeat hc now body =
     recovered ''getHeartbeats''
       (if 102400 < length body then Inl (errors_New ''discarded heartbeat larger than 100kB'')
        else and_then (hc_Unmarshal hc body) (\<lambda>agt.
          and_then (hc_TimeOut hc) (\<lambda>timeout.
            if agt_HeartBeatTS agt < now - timeout then Inr None
            else if agt_Mode agt \<noteq> [] \<and> agt_Mode agt \<noteq> ''daemon'' \<and> agt_Mode agt \<noteq> ''checkin''
            then Inl (Errorf (''invalid mode '' @ quoted ''%s'') [AStr (agt_Mode agt)])
            else if 1024 < length (agt_Name agt)
            then Inl (Errorf ''agent name longer than 1024 characters: %s'' [AStr (agt_Name agt)])
            else if 128 < length (agt_Version agt)
            then Inl (Errorf ''agent version longer than 128 characters: %s'' [AStr (agt_Version agt)])
            else and_then (isAgentAuthorized hc (agt_QueueLoc agt)) (\<lambda>ok.
              if \<not> ok then Inr None else Inr (Some (agt\<lparr>agt_HeartBeatTS := now\<rparr>))))))"

text \<open>
  The second half, in the goroutine: \<open>found\<close> is what \<open>AgentByQueueAndPID\<close> returned, \<open>db\<close> the database at
  the time of the write, \<open>agtid\<close> a fresh identifier. The queue is handed to the detection of duplicate
  agents when the agent that was found is marked destroyed.
\<close>

definition store_heartbeat ::
  "heartbeat_conf \<Rightarrow> time \<Rightarrow> mig_id \<Rightarrow> agent \<Rightarrow> agent result \<Rightarrow> mig_db \<Rightarrow> mig_db \<times> string list" where
  "store_heartbeat hc now agtid agt found db =
     (case found of
        Inl _ \<Rightarrow>
          (let agt = agt\<lparr>agt_DestructionTime := future_date, agt_Status := AgtStatusOnline,
                         agt_StartTime := now\<rparr>
           in (fst (InsertAgent (hc_Json hc) agtid agt db), []))
      | Inr agent \<Rightarrow>
          (let agt = agt\<lparr>agt_ID := agt_ID agent,
                         agt_Status := (if agt_Status agt = AgtStatusDestroyed then agt_Status agent
                                        else AgtStatusOnline)\<rparr>;
               cutoff = agt_RefreshTS agent + 15 * second;
               db' = (if agt_RefreshTS agt \<noteq> zero_time \<and> cutoff < agt_RefreshTS agt
                      then fst (ReplaceRefreshedAgent (hc_Json hc) agtid agt db)
                      else UpdateAgentHeartbeat agt db)
           in (db', if agt_Status agent = AgtStatusDestroyed \<and> hc_DetectMultiAgents hc
                    then [agt_QueueLoc agent] else [])))"

text \<open>The two halves without interference.\<close>

definition getHeartbeats ::
  "heartbeat_conf \<Rightarrow> time \<Rightarrow> mig_id \<Rightarrow> string \<Rightarrow> mig_db \<Rightarrow> (mig_db \<times> string list) result" where
  "getHeartbeats hc now agtid body db =
     and_then (accept_heartbeat hc now body) (\<lambda>accepted.
       case accepted of
         None \<Rightarrow> Inr (db, [])
       | Some agt \<Rightarrow>
           Inr (store_heartbeat hc now agtid agt (AgentByQueueAndPID (agt_QueueLoc agt) (agt_PID agt) db) db))"

definition markOfflineAgents :: "heartbeat_conf \<Rightarrow> time \<Rightarrow> mig_db \<Rightarrow> mig_db result" where
  "markOfflineAgents hc now db =
     recovered ''markOfflineAgents'' (and_then (hc_TimeOut hc) (\<lambda>d. Inr (MarkOfflineAgents (now - d) db)))"

definition markIdleAgents :: "heartbeat_conf \<Rightarrow> time \<Rightarrow> mig_db \<Rightarrow> mig_db result" where
  "markIdleAgents hc now db =
     recovered ''markIdleAgents'' (and_then (hc_HeartbeatFreq hc) (\<lambda>d. Inr (MarkIdleAgents (now - d * 5) db)))"

text \<open>
  \<open>computeAgentsStats\<close>: its goroutines each fill a field of the record; the new endpoints are counted
  at most once an hour.
\<close>

definition computeAgentsStats :: "time \<Rightarrow> time \<Rightarrow> mig_db \<Rightarrow> mig_db \<times> time" where
  "computeAgentsStats now hourly db =
     (let online = SumOnlineAgentsByVersion db; idle = SumIdleAgentsByVersion db;
          due = hourly < now - hour
      in (StoreAgentsStats now
            \<lparr>as_Timestamp = zero_time, as_OnlineAgents = (\<Sum>v\<leftarrow>online. avs_Count v),
             as_OnlineAgentsByVersion = online, as_OnlineEndpoints = CountOnlineEndpoints db,
             as_IdleAgents = (\<Sum>v\<leftarrow>idle. avs_Count v), as_IdleAgentsByVersion = idle,
             as_IdleEndpoints = CountIdleEndpoints db,
             as_NewEndpoints = (if due then CountNewEndpoints (now - 24 * hour) (now - 7 * 24 * hour) db else 0),
             as_MultiAgentsEndpoints = CountDoubleAgents db,
             as_DisappearedEndpoints = CountDisappearedEndpoints (now - 7 * 24 * hour) db,
             as_FlappingEndpoints = CountFlappingEndpoints db\<rparr> db,
          if due then now else hourly))"

definition detectMultiAgents :: "heartbeat_conf \<Rightarrow> time \<Rightarrow> mig_db \<Rightarrow> string list result" where
  "detectMultiAgents hc now db =
     (if \<not> hc_DetectMultiAgents hc then Inr []
      else and_then (hc_HeartbeatFreq hc) (\<lambda>d. Inr (ListMultiAgentsQueues (now - d) db)))"

section \<open>Duplicate agents\<close>

text \<open>
  \<open>issueKillAction\<close> signs an \<open>agentdestroy\<close> action for the agent, writes it to the spool and marks the
  agent destroyed. \<open>write\<close> is the outcome of signing, marshalling and writing it.
\<close>

definition kill_action :: "mig_id \<Rightarrow> time \<Rightarrow> agent \<Rightarrow> action" where
  "kill_action aid now agt =
     zero_action\<lparr>act_ID := aid, act_Name := ''Kill agent '' @ agt_Name agt,
       act_Target := ''queueloc='' @ quoted (agt_QueueLoc agt), act_ValidFrom := now - 60 * second,
       act_ExpireAfter := now + 30 * 60 * second, act_SyntaxVersion := 2,
       act_Operations := Some [\<lparr>op_Module = ''agentdestroy'',
          op_Parameters = JObj [(''pid'', JNum (agt_PID agt)), (''version'', JStr (agt_Version agt))],
          op_IsCompressed = False, op_WantCompressed = False\<rparr>]\<rparr>"

record kill_state =
  ks_DB :: mig_db
  ks_Issued :: "action list"

definition issueKillAction ::
  "(action \<Rightarrow> action result) \<Rightarrow> mig_id \<Rightarrow> time \<Rightarrow> agent \<Rightarrow> kill_state \<Rightarrow> kill_state \<times> unit result" where
  "issueKillAction sign_and_write aid now agt st =
     (case sign_and_write (kill_action aid now agt) of
        Inl e \<Rightarrow> (st, recovered ''issueKillAction'' (Inl e))
      | Inr a \<Rightarrow> (\<lparr>ks_DB = MarkAgentDestroyed now agt (ks_DB st), ks_Issued = ks_Issued st @ [a]\<rparr>, Inr ()))"

text \<open>
  The loop over agents that are already marked destroyed: their number, those of them that are left
  alone, and the identifiers still to be drawn.
\<close>

fun reissue ::
  "(action \<Rightarrow> action result) \<Rightarrow> duration \<Rightarrow> time \<Rightarrow> agent list \<Rightarrow> mig_id list \<Rightarrow> int \<Rightarrow> int \<Rightarrow> kill_state \<Rightarrow>
     kill_state \<times> (int \<times> int \<times> mig_id list) result" where
  "reissue sw freq now [] ids destroyed alone st = (st, Inr (destroyed, alone, ids))"
| "reissue sw freq now (agt # agts) ids destroyed alone st =
     (if agt_Status agt = ''destroyed''
      then if agt_DestructionTime agt < now - freq * 3
           then (case issueKillAction sw (hd ids) now agt st of
                   (st', Inl e) \<Rightarrow> (st', Inl e)
                 | (st', Inr _) \<Rightarrow> reissue sw freq now agts (tl ids) (destroyed + 1) alone st')
           else reissue sw freq now agts ids destroyed (alone + 1) st
      else reissue sw freq now agts ids destroyed alone st)"

definition oldest_online :: "agent list \<Rightarrow> agent" where
  "oldest_online agents =
     foldl (\<lambda>oldest agt. if agt_Status agt \<noteq> ''online'' then oldest
                          else if agt_StartTime agt < agt_StartTime oldest then agt else oldest)
       (hd agents) agents"

definition killDupAgents ::
  "heartbeat_conf \<Rightarrow> (action \<Rightarrow> action result) \<Rightarrow> mig_id list \<Rightarrow> time \<Rightarrow> string \<Rightarrow> kill_state \<Rightarrow>
     kill_state \<times> unit result" where
  "killDupAgents hc sw ids now queueLoc st =
     (case hc_HeartbeatFreq hc of
        Inl e \<Rightarrow> (st, Inl e)
      | Inr freq \<Rightarrow>
          (let agents = ActiveAgentsByQueue queueLoc (now - freq) (ks_DB st)
           in if length agents < 2 then (st, Inr ())
              else (case reissue sw freq now agents ids 0 0 st of
                      (st', Inl e) \<Rightarrow> (st', recovered ''killDupAgents'' (Inl e))
                    | (st', Inr (destroyed, alone, ids')) \<Rightarrow>
                        if 1 < int (length agents) - destroyed - alone \<and> hc_KillDupAgents hc
                        then map_prod id (recovered ''killDupAgents'')
                               (issueKillAction sw (hd ids') now (oldest_online agents) st')
                        else (st', Inr ()))))"

section \<open>Heartbeats posted to the API\<close>

record heartbeat =
  hb_Name :: string
  hb_Mode :: string
  hb_Version :: string
  hb_PID :: nat
  hb_QueueLoc :: string
  hb_StartTime :: time
  hb_RefreshTime :: time
  hb_Env :: agent_env
  hb_Tags :: "(string \<times> string) list"

text \<open>The destruction time that a posted heartbeat starts with, when the local time zone is UTC.\<close>

definition heartbeat_destruction :: time where
  "heartbeat_destruction = 253368090061 * second + 1"

text \<open>
  \<open>validate\<close>. The missing fields are listed in the order of a map iteration, which is left out of the
  error; of several failed checks the last one in this order names the error.
\<close>

definition heartbeat_validate :: "time \<Rightarrow> heartbeat \<Rightarrow> unit result" where
  "heartbeat_validate now hb =
     (let env = hb_Env hb
      in if hb_Name hb = [] \<or> hb_Mode hb = [] \<or> hb_Version hb = [] \<or> hb_QueueLoc hb = [] \<or> hb_PID hb = 0 \<or>
            env_Init env = [] \<or> env_Ident env = [] \<or> env_OS env = [] \<or> env_Arch env = [] \<or> env_PublicIP env = []
         then Inl (errors_New ''missing field(s)'')
         else if 128 < length (hb_Version hb)
         then Inl (errors_New ''agent reported a version string that is too long'')
         else if 1024 < length (hb_Name hb)
         then Inl (errors_New ''agent reported a name that is too long'')
         else if hb_Mode hb \<noteq> [] \<and> hb_Mode hb \<noteq> ''daemon'' \<and> hb_Mode hb \<noteq> ''checkin''
         then Inl (errors_New ''agent reported an invalid mode'')
         else if hb_StartTime hb < now - 300 * second
         then Inl (errors_New ''heartbeat expired'')
         else Inr ())"

definition ToMigAgent :: "time \<Rightarrow> heartbeat \<Rightarrow> agent" where
  "ToMigAgent now hb =
     zero_agent\<lparr>agt_Name := hb_Name hb, agt_Mode := hb_Mode hb, agt_Status := AgtStatusOnline,
       agt_QueueLoc := hb_QueueLoc hb, agt_Version := hb_Version hb, agt_PID := wrap64 (int (hb_PID hb)),
       agt_StartTime := hb_StartTime hb, agt_RefreshTS := hb_RefreshTime hb, agt_DestructionTime := heartbeat_destruction,
       agt_HeartBeatTS := now, agt_Env := (hb_Env hb)\<lparr>env_AWS := env_AWS zero_env\<rparr>,
       agt_Tags := foldl (\<lambda>m (n, v). al_set n v m) [] (hb_Tags hb)\<rparr>"

definition PersistHeartbeat ::
  "db_json \<Rightarrow> time \<Rightarrow> mig_id \<Rightarrow> heartbeat \<Rightarrow> mig_db \<Rightarrow> mig_db \<times> unit result" where
  "PersistHeartbeat js now agtid hb db =
     (let agt = ToMigAgent now hb
      in (case AgentByQueueAndPID (hb_QueueLoc hb) (wrap64 (int (hb_PID hb))) db of
            Inl _ \<Rightarrow>
              InsertAgent js agtid
                (agt\<lparr>agt_DestructionTime := future_date, agt_Status := AgtStatusOnline, agt_StartTime := now\<rparr>) db
          | Inr foundAgent \<Rightarrow>
              (let agt = agt\<lparr>agt_Status := AgtStatusOnline, agt_HeartBeatTS := now,
                             agt_RefreshTS := agt_RefreshTS foundAgent,
                             agt_Authorized := agt_Authorized foundAgent, agt_ID := agt_ID foundAgent\<rparr>;
                   cutoff = agt_RefreshTS foundAgent + 15 * second
               in if agt_RefreshTS foundAgent \<noteq> zero_time \<and> cutoff < agt_RefreshTS foundAgent
                  then ReplaceRefreshedAgent js agtid agt db
                  else (UpdateAgentHeartbeat agt db, Inr ()))))"

text \<open>
  \<open>ServeHTTP\<close>: the response code, and the database afterwards. The authenticator that the API installs
  accepts every heartbeat.
\<close>

definition NilAuthenticator :: "heartbeat \<Rightarrow> unit result" where
  "NilAuthenticator hb = Inr ()"

definition ServeHTTP ::
  "db_json \<Rightarrow> (heartbeat \<Rightarrow> unit result) \<Rightarrow> time \<Rightarrow> mig_id \<Rightarrow> heartbeat result \<Rightarrow> mig_db \<Rightarrow> mig_db \<times> nat" where
  "ServeHTTP js auth now agtid req db =
     (case req of
        Inl _ \<Rightarrow> (db, 400)
      | Inr hb \<Rightarrow>
          (case heartbeat_validate now hb of
             Inl _ \<Rightarrow> (db, 400)
           | Inr _ \<Rightarrow>
               (case auth hb of
                  Inl _ \<Rightarrow> (db, 401)
                | Inr _ \<Rightarrow>
                    (case PersistHeartbeat js now agtid hb db of
                       (db', Inl _) \<Rightarrow> (db', 500)
                     | (db', Inr _) \<Rightarrow> (db', 200)))))"

section \<open>The agents table as a state machine\<close>

text \<open>
  The scheduler's routines on the table: a heartbeat is accepted and starts a goroutine, which first
  reads and later writes; agents are marked idle or offline; duplicates are destroyed.
\<close>

record hb_world =
  hw_DB :: mig_db
  hw_Pending :: "(agent \<times> agent result option) list"
  hw_Issued :: "action list"

inductive hb_step :: "heartbeat_conf \<Rightarrow> hb_world \<Rightarrow> hb_world \<Rightarrow> bool" for hc where
  accept: "accept_heartbeat hc now body = Inr (Some agt) \<Longrightarrow>
    hb_step hc w (w\<lparr>hw_Pending := hw_Pending w @ [(agt, None)]\<rparr>)"
| read: "(agt, None) \<in> set (hw_Pending w) \<Longrightarrow>
    found = AgentByQueueAndPID (agt_QueueLoc agt) (agt_PID agt) (hw_DB w) \<Longrightarrow>
    hb_step hc w (w\<lparr>hw_Pending := remove1 (agt, None) (hw_Pending w) @ [(agt, Some found)]\<rparr>)"
| store: "(agt, Some found) \<in> set (hw_Pending w) \<Longrightarrow>
    store_heartbeat hc now agtid agt found (hw_DB w) = (db', queues) \<Longrightarrow>
    hb_step hc w (w\<lparr>hw_Pending := remove1 (agt, Some found) (hw_Pending w), hw_DB := db'\<rparr>)"
| offline: "markOfflineAgents hc now (hw_DB w) = Inr db' \<Longrightarrow> hb_step hc w (w\<lparr>hw_DB := db'\<rparr>)"
| idle: "markIdleAgents hc now (hw_DB w) = Inr db' \<Longrightarrow> hb_step hc w (w\<lparr>hw_DB := db'\<rparr>)"
| stats: "computeAgentsStats now hourly (hw_DB w) = (db', hourly') \<Longrightarrow> hb_step hc w (w\<lparr>hw_DB := db'\<rparr>)"
| kill: "killDupAgents hc sw ids now q \<lparr>ks_DB = hw_DB w, ks_Issued = hw_Issued w\<rparr> = (st', r) \<Longrightarrow>
    hb_step hc w (w\<lparr>hw_DB := ks_DB st', hw_Issued := ks_Issued st'\<rparr>)"

text \<open>Everything that is in a row but its status, and the columns that go with the status.\<close>

definition same_agent :: "agent_row \<Rightarrow> agent_row \<Rightarrow> bool" where
  "same_agent g g' \<longleftrightarrow>
     g' = g\<lparr>gr_Status := gr_Status g', gr_HeartBeatTS := gr_HeartBeatTS g',
            gr_DestructionTime := gr_DestructionTime g', gr_LoaderName := gr_LoaderName g'\<rparr>"

definition agents_kept :: "mig_db \<Rightarrow> mig_db \<Rightarrow> bool" where
  "agents_kept db db' \<longleftrightarrow>
     (\<exists>gs new. t_Agents db' = gs @ new \<and> list_all2 same_agent (t_Agents db) gs)"

definition sane_row :: "heartbeat_conf \<Rightarrow> agent_row \<Rightarrow> bool" where
  "sane_row hc g \<longleftrightarrow>
     isAgentAuthorized hc (gr_QueueLoc g) = Inr True \<and> gr_Mode g \<in> {[], ''daemon'', ''checkin''} \<and>
     length (gr_Name g) \<le> 1024 \<and> length (gr_Version g) \<le> 128"

definition sane_agent :: "heartbeat_conf \<Rightarrow> agent \<Rightarrow> bool" where
  "sane_agent hc a \<longleftrightarrow>
     isAgentAuthorized hc (agt_QueueLoc a) = Inr True \<and> agt_Mode a \<in> {[], ''daemon'', ''checkin''} \<and>
     length (agt_Name a) \<le> 1024 \<and> length (agt_Version a) \<le> 128"

definition good_agents :: "heartbeat_conf \<Rightarrow> hb_world \<Rightarrow> bool" where
  "good_agents hc w \<longleftrightarrow>
     distinct (map gr_ID (t_Agents (hw_DB w))) \<and> (\<forall>g\<in>set (t_Agents (hw_DB w)). sane_row hc g) \<and>
     (\<forall>(a, f)\<in>set (hw_Pending w). sane_agent hc a)"

lemma same_agent_refl [simp]: "same_agent g g"
  by (simp add: same_agent_def)

lemma same_agent_columns:
  "same_agent g g' \<Longrightarrow> gr_ID g' = gr_ID g \<and> gr_QueueLoc g' = gr_QueueLoc g \<and> gr_PID g' = gr_PID g \<and>
     gr_Name g' = gr_Name g \<and> gr_Mode g' = gr_Mode g \<and> gr_Version g' = gr_Version g \<and>
     gr_RefreshTS g' = gr_RefreshTS g \<and> gr_Env g' = gr_Env g \<and> gr_Tags g' = gr_Tags g"
  by (cases g; cases g') (simp add: same_agent_def)

lemma same_agent_trans: "same_agent a b \<Longrightarrow> same_agent b c \<Longrightarrow> same_agent a c"
  by (cases a; cases b; cases c) (simp add: same_agent_def)

lemma agents_kept_refl [simp]: "agents_kept db db"
  unfolding agents_kept_def
  by (intro exI [of _ "t_Agents db"] exI [of _ "[]"]) (simp add: list_all2_conv_all_nth)

lemma agents_kept_same [simp]: "t_Agents db' = t_Agents db \<Longrightarrow> agents_kept db db'"
  unfolding agents_kept_def
  by (intro exI [of _ "t_Agents db"] exI [of _ "[]"]) (simp add: list_all2_conv_all_nth)

lemma agents_kept_trans:
  assumes "agents_kept a b" "agents_kept b c"
  shows "agents_kept a c"
proof -
  from assms(1) obtain gs new where 1: "t_Agents b = gs @ new" "list_all2 same_agent (t_Agents a) gs"
    by (auto simp: agents_kept_def)
  from assms(2) obtain hs new' where 2: "t_Agents c = hs @ new'" "list_all2 same_agent (gs @ new) hs"
    by (auto simp: agents_kept_def 1)
  from 2(2) obtain hs1 hs2 where 3: "hs = hs1 @ hs2" "list_all2 same_agent gs hs1"
    by (auto simp: list_all2_append1)
  have "list_all2 same_agent (t_Agents a) hs1"
    by (rule list_all2_trans [OF _ 1(2) 3(2)]) (rule same_agent_trans)
  with 2(1) 3(1) show ?thesis by (auto simp: agents_kept_def)
qed

lemma agents_kept_update:
  "(\<And>g. same_agent g (f g)) \<Longrightarrow> agents_kept db (update_agents p f db)"
  unfolding agents_kept_def update_agents_def
  by (intro exI [of _ "update_rows p f (t_Agents db)"] exI [of _ "[]"])
    (auto simp: update_rows_def list_all2_conv_all_nth)

lemma InsertAgent_table:
  "fst (InsertAgent js i agt db) = db \<or>
   (\<exists>g. gr_ID g = i \<and> gr_Name g = agt_Name agt \<and> gr_QueueLoc g = agt_QueueLoc agt \<and> gr_Mode g = agt_Mode agt \<and>
      gr_Version g = agt_Version agt \<and> i \<notin> gr_ID ` set (t_Agents db) \<and>
      fst (InsertAgent js i agt db) = db\<lparr>t_Agents := t_Agents db @ [g]\<rparr>)"
proof (cases "fst (InsertAgent js i agt db) = db")
  case False
  let ?g = "\<lambda>env tags. \<lparr>gr_ID = i, gr_Name = agt_Name agt, gr_QueueLoc = agt_QueueLoc agt,
       gr_Mode = agt_Mode agt, gr_Version = agt_Version agt, gr_PID = agt_PID agt,
       gr_StartTime = agt_StartTime agt, gr_DestructionTime = agt_DestructionTime agt,
       gr_HeartBeatTS = agt_HeartBeatTS agt, gr_RefreshTS = agt_RefreshTS agt,
       gr_Status = agt_Status agt, gr_Env = env, gr_Tags = tags,
       gr_LoaderName = loader_name (agt_QueueLoc agt) db\<rparr>"
  from False obtain env tags where "i \<notin> gr_ID ` set (t_Agents db)"
    "fst (InsertAgent js i agt db) = db\<lparr>t_Agents := t_Agents db @ [?g env tags]\<rparr>"
    by (auto simp: InsertAgent_def Let_def and_then_eq_Inr split: sum.splits if_splits)
  then show ?thesis by (intro disjI2 exI [of _ "?g env tags"]) simp
qed simp

text \<open>What a write of the scheduler does to the table: it changes rows in place, then may add one sane row.\<close>

definition agents_written :: "heartbeat_conf \<Rightarrow> mig_db \<Rightarrow> mig_db \<Rightarrow> bool" where
  "agents_written hc db db' \<longleftrightarrow>
     (\<exists>gs new. t_Agents db' = gs @ new \<and> list_all2 same_agent (t_Agents db) gs \<and>
        (new = [] \<or> (\<exists>g. new = [g] \<and> sane_row hc g \<and> gr_ID g \<notin> gr_ID ` set gs)))"

lemma written_kept: "agents_written hc db db' \<Longrightarrow> agents_kept db db'"
  by (auto simp: agents_written_def agents_kept_def)

lemma written_update:
  "(\<And>g. same_agent g (f g)) \<Longrightarrow> agents_written hc db (update_agents p f db)"
  using agents_kept_update [of f db p]
  unfolding agents_written_def update_agents_def
  by (intro exI [of _ "update_rows p f (t_Agents db)"] exI [of _ "[]"])
    (auto simp: update_rows_def list_all2_conv_all_nth)

lemma written_insert:
  assumes "agents_kept db db1" "length (t_Agents db1) = length (t_Agents db)" "sane_agent hc agt"
  shows "agents_written hc db (fst (InsertAgent js i agt db1))"
proof -
  have "list_all2 same_agent (t_Agents db) (t_Agents db1)"
  proof -
    from assms(1) obtain gs new where gs: "t_Agents db1 = gs @ new" "list_all2 same_agent (t_Agents db) gs"
      by (auto simp: agents_kept_def)
    with assms(2) list_all2_lengthD [OF gs(2)] show ?thesis by simp
  qed
  with InsertAgent_table [of js i agt db1] assms(3) show ?thesis
    unfolding agents_written_def
    by (elim disjE exE) (force simp: sane_row_def sane_agent_def)+
qed

lemma written_store:
  assumes "sane_agent hc agt" "store_heartbeat hc now i agt found db = (db', qs)"
  shows "agents_written hc db db'"
proof (cases found)
  case (Inl e)
  with assms show ?thesis
    by (auto simp: store_heartbeat_def Let_def intro!: written_insert) (simp add: sane_agent_def)
next
  case (Inr old)
  let ?agt = "agt\<lparr>agt_ID := agt_ID old, agt_Status := (if agt_Status agt = AgtStatusDestroyed
     then agt_Status old else AgtStatusOnline)\<rparr>"
  have sane: "sane_agent hc ?agt" using assms(1) by (simp add: sane_agent_def)
  have up: "agents_written hc db (UpdateAgentHeartbeat ?agt db)"
    unfolding UpdateAgentHeartbeat_def by (rule written_update) (simp add: same_agent_def)
  have off: "same_agent g (g\<lparr>gr_Status := AgtStatusOffline\<rparr>)" for g by (simp add: same_agent_def)
  have "agents_written hc db (fst (ReplaceRefreshedAgent (hc_Json hc) i ?agt db))"
  proof (cases "snd (ReplaceRefreshedAgent (hc_Json hc) i ?agt db)")
    case (Inl e)
    then have "fst (ReplaceRefreshedAgent (hc_Json hc) i ?agt db) = db"
      by (auto simp: ReplaceRefreshedAgent_def split: prod.splits sum.splits)
    then show ?thesis using written_update [of "\<lambda>g. g" hc db "\<lambda>_. False"]
      by (simp add: update_agents_def update_rows_def)
  next
    case (Inr u)
    then have "fst (ReplaceRefreshedAgent (hc_Json hc) i ?agt db) =
        fst (InsertAgent (hc_Json hc) i ?agt
          (update_agents (\<lambda>g. gr_ID g = agt_ID ?agt) (\<lambda>g. g\<lparr>gr_Status := AgtStatusOffline\<rparr>) db))"
      by (auto simp: ReplaceRefreshedAgent_def split: prod.splits sum.splits)
    moreover have "agents_written hc db \<dots>"
      by (rule written_insert [OF agents_kept_update [OF off] _ sane])
        (simp add: update_agents_def update_rows_def)
    ultimately show ?thesis by simp
  qed
  with up assms(2) Inr show ?thesis by (auto simp: store_heartbeat_def Let_def split: if_splits)
qed

text \<open>Destroying agents only updates rows.\<close>

definition agents_updated :: "mig_db \<Rightarrow> mig_db \<Rightarrow> bool" where
  "agents_updated db db' \<longleftrightarrow> list_all2 same_agent (t_Agents db) (t_Agents db')"

lemma agents_updated_refl [simp]: "agents_updated db db"
  by (simp add: agents_updated_def list_all2_conv_all_nth)

lemma agents_updated_trans: "agents_updated a b \<Longrightarrow> agents_updated b c \<Longrightarrow> agents_updated a c"
  unfolding agents_updated_def by (rule list_all2_trans [of same_agent same_agent]) (rule same_agent_trans)

lemma updated_written: "agents_updated db db' \<Longrightarrow> agents_written hc db db'"
  unfolding agents_updated_def agents_written_def
  by (intro exI [of _ "t_Agents db'"] exI [of _ "[]"]) simp

lemma updated_update: "(\<And>g. same_agent g (f g)) \<Longrightarrow> agents_updated db (update_agents p f db)"
  by (auto simp: agents_updated_def update_agents_def update_rows_def list_all2_conv_all_nth)

lemma updated_issue: "agents_updated (ks_DB st) (ks_DB (fst (issueKillAction sw i now agt st)))"
  by (auto simp: issueKillAction_def MarkAgentDestroyed_def same_agent_def intro!: updated_update
      split: sum.splits)

lemma updated_reissue:
  "reissue sw freq now agts ids d a st = (st', r) \<Longrightarrow> agents_updated (ks_DB st) (ks_DB st')"
proof (induction sw freq now agts ids d a st rule: reissue.induct)
  case (2 sw freq now agt agts ids d a st)
  then show ?case
    using updated_issue [of st sw "hd ids" now agt]
    by (auto split: if_splits prod.splits sum.splits intro: agents_updated_trans)
qed simp

lemma updated_killDup:
  "killDupAgents hc sw ids now q st = (st', r) \<Longrightarrow> agents_updated (ks_DB st) (ks_DB st')"
  by (auto simp: killDupAgents_def Let_def map_prod_def split: sum.splits if_splits prod.splits
      dest!: updated_reissue intro: agents_updated_trans dest: arg_cong [of _ _ fst]
      intro!: agents_updated_trans [OF _ updated_issue])

text \<open>One step, as a write to the table.\<close>

lemma accepted_sane:
  "accept_heartbeat hc now body = Inr (Some agt) \<Longrightarrow> sane_agent hc agt"
  by (auto simp: accept_heartbeat_def and_then_eq_Inr sane_agent_def split: if_splits)

lemma hb_step_written:
  assumes "hb_step hc w w'" "good_agents hc w"
  shows "agents_written hc (hw_DB w) (hw_DB w') \<and> (\<forall>(a, f)\<in>set (hw_Pending w'). sane_agent hc a)"
  using assms(1)
proof cases
  case (accept now body agt)
  with assms(2) accepted_sane [OF accept(2)] show ?thesis
    by (auto simp: good_agents_def updated_written)
next
  case (read agt found)
  with assms(2) show ?thesis by (auto simp: good_agents_def updated_written dest: notin_set_remove1)
next
  case (store agt found now agtid db' queues)
  with assms(2) have "sane_agent hc agt" by (auto simp: good_agents_def)
  from written_store [OF this store(3)] store assms(2) show ?thesis
    by (auto simp: good_agents_def dest: notin_set_remove1)
next
  case (offline now db')
  with assms(2) show ?thesis
    by (auto simp: good_agents_def markOfflineAgents_def and_then_eq_Inr MarkOfflineAgents_def same_agent_def
        intro!: written_update)
next
  case (idle now db')
  with assms(2) show ?thesis
    by (auto simp: good_agents_def markIdleAgents_def and_then_eq_Inr MarkIdleAgents_def same_agent_def
        intro!: written_update)
next
  case (stats now hourly db' hourly')
  with assms(2) show ?thesis
    by (auto simp: good_agents_def computeAgentsStats_def Let_def StoreAgentsStats_def agents_updated_def
        list_all2_conv_all_nth intro!: updated_written)
next
  case (kill sw ids now q st' r)
  with assms(2) updated_killDup [OF kill(2)] show ?thesis
    by (auto simp: good_agents_def intro: updated_written)
qed

lemma written_good:
  assumes "agents_written hc db db'" "distinct (map gr_ID (t_Agents db))" "\<forall>g\<in>set (t_Agents db). sane_row hc g"
  shows "distinct (map gr_ID (t_Agents db')) \<and> (\<forall>g\<in>set (t_Agents db'). sane_row hc g)"
proof -
  from assms(1) obtain gs new where w: "t_Agents db' = gs @ new" "list_all2 same_agent (t_Agents db) gs"
    "new = [] \<or> (\<exists>g. new = [g] \<and> sane_row hc g \<and> gr_ID g \<notin> gr_ID ` set gs)"
    by (auto simp: agents_written_def)
  have "map gr_ID gs = map gr_ID (t_Agents db)"
    by (rule list_all2_map_eq, rule list_all2_mono [OF w(2)]) (auto dest: same_agent_columns)
  moreover have "sane_row hc g" if "g \<in> set gs" for g
    using list_all2_in_right [OF w(2) that] assms(3) same_agent_columns
    by (auto simp: sane_row_def)
  ultimately show ?thesis
    using assms(2) w(1,3) by (auto simp flip: set_map)
qed

interpretation agents: state_machine "hb_step hc" "good_agents hc"
  "\<lambda>w w'. agents_kept (hw_DB w) (hw_DB w')"
proof
  fix w w'
  assume g: "good_agents hc w" and st: "hb_step hc w w'"
  note w = hb_step_written [OF st g]
  with written_good [of hc "hw_DB w" "hw_DB w'"] g show "good_agents hc w'"
    by (auto simp: good_agents_def)
  from w show "agents_kept (hw_DB w) (hw_DB w')" by (blast intro: written_kept)
qed (auto intro: agents_kept_trans)

section \<open>Properties\<close>

text \<open>
  C11. Only whitelisted endpoints can be given work. From an empty table, however heartbeats, their
  concurrent writes, the marking of silent agents and the destruction of duplicates interleave, every
  row belongs to a queue that the whitelist authorises, so \<open>ActiveAgentsByTarget\<close> returns no other agent
  whatever the target; identifiers are unique.
\<close>

theorem only_authorized_agents_targeted:
  assumes "(hb_step hc)\<^sup>*\<^sup>* w w'" and "t_Agents (hw_DB w) = []" and "hw_Pending w = []"
    and "ActiveAgentsByTarget js holds target (hw_DB w') = Inr as"
  shows "distinct (map gr_ID (t_Agents (hw_DB w'))) \<and>
    (\<forall>a\<in>set as. isAgentAuthorized hc (agt_QueueLoc a) = Inr True)"
proof -
  from assms(2,3) have "good_agents hc w" by (simp add: good_agents_def)
  from agents.run_inv [OF assms(1) this] have g: "good_agents hc w'" .
  from assms(4) obtain rs where "filter_res (holds target)
        (filter (\<lambda>g. gr_Status g \<in> {AgtStatusOnline, AgtStatusIdle}) (t_Agents (hw_DB w'))) = Inr rs"
    and l: "list_all2 (\<lambda>g a. load_agent js g = Inr a) (sort_key gr_QueueLoc (distinct_on gr_QueueLoc rs)) as"
    by (auto simp: ActiveAgentsByTarget_def and_then_eq_Inr map_res_eq_Inr)
  from filter_res_Inr [OF this(1)] have rs: "set rs \<subseteq> set (t_Agents (hw_DB w'))" by auto
  have "isAgentAuthorized hc (agt_QueueLoc a) = Inr True" if a: "a \<in> set as" for a
    using list_all2_in_right [OF l a] set_distinct_on [of gr_QueueLoc rs] rs g load_agent_columns
    by (fastforce simp: good_agents_def sane_row_def)
  with g show ?thesis by (simp add: good_agents_def)
qed

text \<open>
  The comment on \<open>UpdateAgentHeartbeat\<close> says that destroyed agents are left alone; a heartbeat of one
  brings it back online.
\<close>

lemma destroyed_agent_revived:
  assumes "g \<in> set (t_Agents db)" "gr_ID g = agt_ID agent" "agt_RefreshTS agt \<le> agt_RefreshTS agent + 15 * second"
  shows "\<exists>g'\<in>set (t_Agents (fst (store_heartbeat hc now i agt (Inr agent) db))).
    gr_ID g' = gr_ID g \<and> gr_Status g' = AgtStatusOnline"
  using assms
  by (auto simp: store_heartbeat_def Let_def UpdateAgentHeartbeat_def update_agents_def bex_update_rows
      intro!: bexI [of _ g])

text \<open>
  A heartbeat posted to the API never refreshes what is known of an agent: the refresh time of the row
  is compared with itself, so the branch that replaces the row is never taken, and environment, tags
  and refresh time stay as they were.
\<close>

lemma PersistHeartbeat_never_refreshes:
  assumes "AgentByQueueAndPID (hb_QueueLoc hb) (wrap64 (int (hb_PID hb))) db = Inr found"
  shows "agents_updated db (fst (PersistHeartbeat js now i hb db))"
  using assms
  by (auto simp: PersistHeartbeat_def Let_def UpdateAgentHeartbeat_def same_agent_def intro!: updated_update)

text \<open>
  The API takes heartbeats from anybody: a well-formed one of an unknown agent inserts a row, on a queue
  that the whitelist need not contain.
\<close>

lemma posted_heartbeat_inserts:
  assumes "heartbeat_validate now hb = Inr ()"
    and "\<forall>g\<in>set (t_Agents db). gr_QueueLoc g \<noteq> hb_QueueLoc hb" and "i \<notin> gr_ID ` set (t_Agents db)"
    and "\<And>e. is_ok (dj_Env js e)" "\<And>t. is_ok (dj_Tags js t)"
  shows "\<exists>g. t_Agents (fst (ServeHTTP js NilAuthenticator now i (Inr hb) db)) = t_Agents db @ [g] \<and>
    gr_QueueLoc g = hb_QueueLoc hb \<and> gr_Status g = AgtStatusOnline"
proof -
  obtain env tags where j: "dj_Env js ((hb_Env hb)\<lparr>env_AWS := env_AWS zero_env\<rparr>) = Inr env"
    "dj_Tags js (foldl (\<lambda>m (n, v). al_set n v m) [] (hb_Tags hb)) = Inr tags"
    using assms(4,5) by (meson is_ok_iff)
  have "\<exists>e. AgentByQueueAndPID (hb_QueueLoc hb) p db = Inl e" for p
    using assms(2)
    by (auto simp: AgentByQueueAndPID_def row_def wrap_err_def and_then_def find_None_iff
        split: option.splits sum.splits dest!: find_Some_iff [THEN iffD1] nth_mem)
  then obtain e where "AgentByQueueAndPID (hb_QueueLoc hb) (wrap64 (int (hb_PID hb))) db = Inl e" by blast
  with assms(1,3) j show ?thesis
    by (auto simp: ServeHTTP_def NilAuthenticator_def PersistHeartbeat_def InsertAgent_def ToMigAgent_def
        Let_def wrap_err_def and_then_def split: sum.splits if_splits)
qed

section \<open>Killing duplicates\<close>

lemma oldest_online_least:
  assumes "agents \<noteq> []" "\<forall>a\<in>set agents. agt_Status a = ''online''"
  shows "oldest_online agents \<in> set agents \<and> (\<forall>b\<in>set agents. agt_StartTime (oldest_online agents) \<le> agt_StartTime b)"
proof -
  let ?step = "\<lambda>oldest agt. if agt_Status agt \<noteq> ''online'' then oldest
      else if agt_StartTime agt < agt_StartTime oldest then agt else oldest"
  have min: "foldl ?step a bs \<in> insert a (set bs) \<and> (\<forall>b\<in>insert a (set bs). agt_StartTime (foldl ?step a bs) \<le> agt_StartTime b)"
    if "\<forall>b\<in>set bs. agt_Status b = ''online''" for a bs
    using that
  proof (induction bs arbitrary: a)
    case (Cons b bs)
    then show ?case
    proof (cases "agt_StartTime b < agt_StartTime a")
      case True
      with Cons.IH [of b] Cons.prems show ?thesis by force
    next
      case False
      with Cons.IH [of a] Cons.prems show ?thesis by force
    qed
  qed simp
  have all: "insert (hd agents) (set agents) = set agents" using assms(1) by (simp add: insert_absorb)
  show ?thesis unfolding oldest_online_def by (rule min [OF assms(2), of "hd agents", unfolded all])
qed

lemma reissue_none:
  "\<forall>a\<in>set agts. agt_Status a \<noteq> ''destroyed'' \<Longrightarrow> reissue sw freq now agts ids d n st = (st, Inr (d, n, ids))"
  by (induction agts) auto

text \<open>
  Of several online agents on a queue exactly one is killed at a time, the one that started first: one
  action is issued, an \<open>agentdestroy\<close> with its process number for its queue, and only its row is marked
  destroyed.
\<close>

theorem killDupAgents_kills_oldest:
  assumes "hc_HeartbeatFreq hc = Inr freq" and "hc_KillDupAgents hc"
    and "agents = ActiveAgentsByQueue q (now - freq) (ks_DB st)" and "2 \<le> length agents"
    and "\<forall>a\<in>set agents. agt_Status a = ''online''"
    and "killDupAgents hc sw (i # ids) now q st = (st', Inr ())"
  shows "\<exists>old\<in>set agents. \<exists>signed. (\<forall>b\<in>set agents. agt_StartTime old \<le> agt_StartTime b) \<and>
    sw (kill_action i now old) = Inr signed \<and> ks_Issued st' = ks_Issued st @ [signed] \<and>
    act_Target (kill_action i now old) = ''queueloc='' @ quoted q \<and>
    t_Agents (ks_DB st') = map (\<lambda>g. if gr_ID g = agt_ID old
      then g\<lparr>gr_DestructionTime := now, gr_Status := ''destroyed''\<rparr> else g) (t_Agents (ks_DB st))"
proof -
  let ?old = "oldest_online agents"
  have none: "\<forall>a\<in>set agents. agt_Status a \<noteq> ''destroyed''" using assms(5) by auto
  have "agents \<noteq> []" using assms(4) by auto
  note least = oldest_online_least [OF this assms(5)]
  from assms(6) have issued: "issueKillAction sw i now ?old st = (st', Inr ())"
    unfolding killDupAgents_def assms(1) assms(3) [symmetric]
    using assms(2,4) reissue_none [OF none, of sw freq now "i # ids" 0 0 st]
    by (auto simp: assms(3) [symmetric] map_prod_def split: prod.splits)
  then obtain signed where "sw (kill_action i now ?old) = Inr signed" "ks_Issued st' = ks_Issued st @ [signed]"
    "ks_DB st' = MarkAgentDestroyed now ?old (ks_DB st)"
    by (auto simp: issueKillAction_def split: sum.splits)
  moreover have "agt_QueueLoc ?old = q"
    using least by (auto simp: assms(3) ActiveAgentsByQueue_def agent_columns_def)
  ultimately show ?thesis
    using least
    by (intro bexI [of _ ?old] exI [of _ signed])
      (auto simp: MarkAgentDestroyed_def update_agents_def update_rows_def kill_action_def AgtStatusDestroyed_def)
qed

text \<open>
  The query does not select the destruction time, so every agent marked destroyed looks overdue and its
  kill action is issued again at every round, however recent the last one.
\<close>

lemma reissue_always:
  assumes "\<forall>a\<in>set agts. agt_DestructionTime a = zero_time" "zero_time < now - freq * 3"
    and "\<And>a. is_ok (sw a)"
  shows "\<exists>st' ids'. reissue sw freq now agts ids d n st =
    (st', Inr (d + int (length (filter (\<lambda>a. agt_Status a = ''destroyed'') agts)), n, ids')) \<and>
    length (ks_Issued st') = length (ks_Issued st) + length (filter (\<lambda>a. agt_Status a = ''destroyed'') agts)"
  using assms(1)
proof (induction agts arbitrary: ids d n st)
  case (Cons a agts)
  show ?case
  proof (cases "agt_Status a = ''destroyed''")
    case True
    obtain signed where "sw (kill_action (hd ids) now a) = Inr signed" using assms(3) by (meson is_ok_iff)
    then have iss: "issueKillAction sw (hd ids) now a st =
        (\<lparr>ks_DB = MarkAgentDestroyed now a (ks_DB st), ks_Issued = ks_Issued st @ [signed]\<rparr>, Inr ())"
      by (simp add: issueKillAction_def)
    from Cons.IH [of "tl ids" "d + 1" n "\<lparr>ks_DB = MarkAgentDestroyed now a (ks_DB st),
        ks_Issued = ks_Issued st @ [signed]\<rparr>"] Cons.prems True iss assms(2)
    show ?thesis by auto
  next
    case False
    with Cons show ?thesis by auto
  qed
qed simp

lemma destruction_time_not_selected:
  "a \<in> set (ActiveAgentsByQueue q t db) \<Longrightarrow> agt_DestructionTime a = zero_time"
  by (auto simp: ActiveAgentsByQueue_def agent_columns_def zero_agent_def)

section \<open>Witnesses\<close>

definition example_hc :: heartbeat_conf where
  "example_hc =
     \<lparr>hc_Whitelist = Some (Inr [''q'']), hc_Regexp = (\<lambda>p. Inl (errors_New ''no regexp'')), hc_TimeOut = Inr 1000,
      hc_HeartbeatFreq = Inr 50, hc_DetectMultiAgents = True, hc_KillDupAgents = True,
      hc_Unmarshal = (\<lambda>b. Inr (zero_agent\<lparr>agt_Name := ''host'', agt_QueueLoc := ''q'', agt_PID := 7,
         agt_HeartBeatTS := 90\<rparr>)),
      hc_Json = example_js\<rparr>"

definition empty_world :: hb_world where
  "empty_world = \<lparr>hw_DB = example_mdb\<lparr>t_Agents := [], t_Commands := []\<rparr>, hw_Pending = [], hw_Issued = []\<rparr>"

lemma example_accept:
  "accept_heartbeat example_hc 100 ''{}'' = Inr (Some (zero_agent\<lparr>agt_Name := ''host'', agt_QueueLoc := ''q'',
     agt_PID := 7, agt_HeartBeatTS := 100\<rparr>))"
  by (simp add: accept_heartbeat_def example_hc_def isAgentAuthorized_def zero_agent_def)

lemma example_hb_run:
  "\<exists>w g. (hb_step example_hc)\<^sup>*\<^sup>* empty_world w \<and> t_Agents (hw_DB w) = [g] \<and> gr_Status g = ''online''"
proof -
  let ?agt = "zero_agent\<lparr>agt_Name := ''host'', agt_QueueLoc := ''q'', agt_PID := 7, agt_HeartBeatTS := 100\<rparr>"
  let ?found = "AgentByQueueAndPID ''q'' 7 (hw_DB empty_world)"
  let ?w1 = "empty_world\<lparr>hw_Pending := [(?agt, None)]\<rparr>"
  let ?w2 = "empty_world\<lparr>hw_Pending := [(?agt, Some ?found)]\<rparr>"
  obtain db' qs where st: "store_heartbeat example_hc 101 9 ?agt ?found (hw_DB empty_world) = (db', qs)"
    by fastforce
  have 1: "hb_step example_hc empty_world ?w1"
    using hb_step.accept [OF example_accept, of empty_world] by (simp add: empty_world_def)
  have 2: "hb_step example_hc ?w1 ?w2"
    using hb_step.read [of ?agt ?w1 ?found example_hc] by simp
  have 3: "hb_step example_hc ?w2 (?w2\<lparr>hw_Pending := [], hw_DB := db'\<rparr>)"
    using hb_step.store [of ?agt ?found ?w2 example_hc 101 9 db' qs] st by simp
  have "\<exists>g. t_Agents (hw_DB (?w2\<lparr>hw_Pending := [], hw_DB := db'\<rparr>)) = [g] \<and> gr_Status g = ''online''"
    using st by (auto simp: store_heartbeat_def AgentByQueueAndPID_def row_def wrap_err_def empty_world_def
        example_hc_def example_js_def InsertAgent_def Let_def AgtStatusOnline_def)
  moreover from 1 2 3 have "(hb_step example_hc)\<^sup>*\<^sup>* empty_world (?w2\<lparr>hw_Pending := [], hw_DB := db'\<rparr>)"
    by (meson converse_rtranclp_into_rtranclp rtranclp.rtrancl_refl)
  ultimately show ?thesis by blast
qed

theorem only_authorized_agents_targeted_witness:
  "\<exists>w as. (hb_step example_hc)\<^sup>*\<^sup>* empty_world w \<and>
     ActiveAgentsByTarget example_js (\<lambda>_ _. Inr True) ''all'' (hw_DB w) = Inr as \<and> as \<noteq> [] \<and>
     isAgentAuthorized example_hc (agt_QueueLoc (hd as)) = Inr True"
proof -
  obtain w g where w: "(hb_step example_hc)\<^sup>*\<^sup>* empty_world w" "t_Agents (hw_DB w) = [g]" "gr_Status g = ''online''"
    using example_hb_run by blast
  then obtain a where a: "ActiveAgentsByTarget example_js (\<lambda>_ _. Inr True) ''all'' (hw_DB w) = Inr [a]"
    by (auto simp: ActiveAgentsByTarget_def agent_statuses load_agent_def example_js_def wrap_err_def)
  from only_authorized_agents_targeted [OF w(1) _ _ a] w(1) a show ?thesis
    by (auto simp: empty_world_def intro!: exI)
qed

theorem killDupAgents_kills_oldest_witness:
  "\<exists>st'. killDupAgents example_hc Inr [9] 120 ''q'' \<lparr>ks_DB = example_mdb, ks_Issued = []\<rparr> = (st', Inr ()) \<and>
     length (ks_Issued st') = 1"
proof -
  let ?st = "\<lparr>ks_DB = example_mdb, ks_Issued = []\<rparr>"
  define agents where "agents = ActiveAgentsByQueue ''q'' (120 - 50) (ks_DB ?st)"
  have a: "2 \<le> length agents" "\<forall>a\<in>set agents. agt_Status a = ''online''"
    by (simp_all add: agents_def ActiveAgentsByQueue_def example_mdb_def example_agent_row_def
        agent_columns_def AgtStatusOffline_def)
  have hc: "hc_HeartbeatFreq example_hc = Inr 50" "hc_KillDupAgents example_hc" by (simp_all add: example_hc_def)
  have none: "\<forall>a\<in>set agents. agt_Status a \<noteq> ''destroyed''" using a(2) by auto
  have "\<exists>st'. killDupAgents example_hc Inr [9] 120 ''q'' ?st = (st', Inr ())"
    unfolding killDupAgents_def hc using a(1) hc(2) reissue_none [OF none, of Inr 50 120 "[9]" 0 0 ?st]
    by (auto simp: agents_def issueKillAction_def Let_def)
  then obtain st' where k: "killDupAgents example_hc Inr [9] 120 ''q'' ?st = (st', Inr ())" by blast
  from killDupAgents_kills_oldest [OF hc agents_def a k] k show ?thesis by auto
qed

end
