(* ===== verification/Scheduler.thy ===== *)
theory Scheduler
  imports CommandTable Heartbeats
begin

text \<open>
  The scheduler (\<open>mig-scheduler/\<close>): how an action becomes one command per agent and how the commands
  come back. Its state is the database, the spool (a directory for every stage, \<open>flow.go\<close>), the channels
  between its routines (\<open>routines.go\<close>) and the messages it has published.

  File names are relative to their directory; a file has contents and a modification time. A write may
  fail, which the argument \<open>io\<close> of an operation says; removing and renaming a file that is not there has
  no effect, as the code ignores those errors. \<open>safeWrite\<close> writes to a temporary directory first, which
  is not part of the model. JSON is a pair of functions for actions and one for commands. Identifiers
  drawn from \<open>GenID\<close> and the time are arguments.
\<close>

section \<open>State\<close>

datatype spool_dir = ActionNew | ActionInFlight | ActionDone | ActionInvalid | CommandInFlight | CommandReturned

record spool_file =
  sf_Data :: string
  sf_Mtime :: time

record amqp_msg =
  am_Queue :: string
  am_Expiration :: int
  am_Body :: string

record sched =
  s_DB :: mig_db
  s_Spool :: "spool_dir \<Rightarrow> (string \<times> spool_file) list"
  s_NewAction :: "string list"
  s_CommandReady :: "command list"
  s_CommandReturned :: "string list"
  s_Finishing :: "command list"
  s_CommandDone :: "command list"
  s_Published :: "amqp_msg list"

record 'ring sched_env =
  e_Json :: db_json
  e_MarshalAction :: "action \<Rightarrow> string result"
  e_UnmarshalAction :: "string \<Rightarrow> action result"
  e_MarshalCommand :: "command \<Rightarrow> string result"
  e_UnmarshalCommand :: "string \<Rightarrow> command result"
  e_Holds :: "string \<Rightarrow> agent_row \<Rightarrow> bool result"
  e_Codec :: codec
  e_PGP :: "'ring openpgp"

type_synonym io = "spool_dir \<Rightarrow> string \<Rightarrow> go_error option"

definition set_dir :: "spool_dir \<Rightarrow> ((string \<times> spool_file) list \<Rightarrow> (string \<times> spool_file) list) \<Rightarrow> sched \<Rightarrow> sched" where
  "set_dir d f st = st\<lparr>s_Spool := (s_Spool st)(d := f (s_Spool st d))\<rparr>"

definition spool_remove :: "spool_dir \<Rightarrow> string \<Rightarrow> sched \<Rightarrow> sched" where
  "spool_remove d n = set_dir d (al_del n)"

definition spool_rename :: "spool_dir \<Rightarrow> string \<Rightarrow> spool_dir \<Rightarrow> string \<Rightarrow> sched \<Rightarrow> sched" where
  "spool_rename d n d' n' st =
     (case map_of (s_Spool st d) n of
        None \<Rightarrow> st
      | Some f \<Rightarrow> set_dir d' (al_set n' f) (spool_remove d n st))"

definition spool_read :: "spool_dir \<Rightarrow> string \<Rightarrow> sched \<Rightarrow> string result" where
  "spool_read d n st =
     (case map_of (s_Spool st d) n of
        None \<Rightarrow> Inl (errors_New ''no such file or directory'')
      | Some f \<Rightarrow> Inr (sf_Data f))"

definition safeWrite :: "io \<Rightarrow> time \<Rightarrow> spool_dir \<Rightarrow> string \<Rightarrow> string \<Rightarrow> sched \<Rightarrow> sched \<times> unit result" where
  "safeWrite io now d n data st =
     (if length data = 0 then (st, Inl (errors_New ''data slice is empty. file not written''))
      else (case io d n of
              Some e \<Rightarrow> (st, Inl (Errorf ''safeWrite: %v'' [AErr e]))
            | None \<Rightarrow> (set_dir d (al_set n \<lparr>sf_Data = data, sf_Mtime = now\<rparr>) st, Inr ())))"

text \<open>\<open>waitForFileOrDelete\<close>, for a file whose size does not change while it waits.\<close>

definition waitForFileOrDelete :: "spool_dir \<Rightarrow> string \<Rightarrow> sched \<Rightarrow> sched \<times> unit result" where
  "waitForFileOrDelete d n st =
     (case spool_read d n st of
        Inl e \<Rightarrow> (st, Inl (Errorf ''stat failed. error: %v'' [AErr e]))
      | Inr data \<Rightarrow>
          if length data \<noteq> 0 then (st, Inr ())
          else (spool_remove d n st,
                Inl (errors_New ''file reached timeout with a zero size and has been deleted'')))"

definition action_file :: "mig_id \<Rightarrow> string" where
  "action_file i = fmt_d i @ ''.json''"

definition command_file :: "command \<Rightarrow> string" where
  "command_file cmd = fmt_d (act_ID (cmd_Action cmd)) @ ''-'' @ fmt_d (cmd_ID cmd) @ ''.json''"

definition on_db :: "(mig_db \<Rightarrow> mig_db) \<Rightarrow> sched \<Rightarrow> sched" where
  "on_db f st = st\<lparr>s_DB := f (s_DB st)\<rparr>"

section \<open>The stages of an action (flow.go)\<close>

definition setupAction :: "'ring sched_env \<Rightarrow> io \<Rightarrow> time \<Rightarrow> action \<Rightarrow> sched \<Rightarrow> sched \<times> unit result" where
  "setupAction env io now a st =
     (case e_MarshalAction env a of
        Inl e \<Rightarrow> (st, recovered ''setupAction'' (Inl e))
      | Inr jsonA \<Rightarrow> map_prod id (recovered ''setupAction'') (safeWrite io now ActionNew (action_file (act_ID a)) jsonA st))"

definition flyAction ::
  "'ring sched_env \<Rightarrow> io \<Rightarrow> time \<Rightarrow> action \<Rightarrow> string \<Rightarrow> sched \<Rightarrow> sched \<times> unit result" where
  "flyAction env io now a origin st =
     (case e_MarshalAction env a of
        Inl e \<Rightarrow> (st, recovered ''flyAction'' (Inl e))
      | Inr jsonA \<Rightarrow>
          (case safeWrite io now ActionInFlight (action_file (act_ID a)) jsonA st of
             (st, Inl e) \<Rightarrow> (st, recovered ''flyAction'' (Inl e))
           | (st, Inr _) \<Rightarrow>
               (on_db (UpdateActionStatus (a\<lparr>act_Status := ''inflight''\<rparr>)) (spool_remove ActionNew origin st), Inr ())))"

definition invalidAction ::
  "'ring sched_env \<Rightarrow> io \<Rightarrow> time \<Rightarrow> action \<Rightarrow> string \<Rightarrow> sched \<Rightarrow> sched \<times> unit result" where
  "invalidAction env io now a origin st =
     (case e_MarshalAction env a of
        Inl e \<Rightarrow> (st, recovered ''invalidAction'' (Inl e))
      | Inr jsonA \<Rightarrow>
          (case safeWrite io now ActionInvalid (action_file (act_ID a)) jsonA st of
             (st, Inl e) \<Rightarrow> (st, recovered ''invalidAction'' (Inl e))
           | (st, Inr _) \<Rightarrow>
               (on_db (UpdateAction (a\<lparr>act_Status := ''invalid'', act_LastUpdateTime := now, act_FinishTime := now\<rparr>))
                  (spool_remove ActionNew origin st), Inr ())))"

definition landAction :: "'ring sched_env \<Rightarrow> io \<Rightarrow> time \<Rightarrow> action \<Rightarrow> sched \<Rightarrow> sched \<times> unit result" where
  "landAction env io now a st =
     (let a = a\<lparr>act_Status := ''done'', act_FinishTime := now\<rparr>
      in (case e_MarshalAction env a of
            Inl e \<Rightarrow> (st, recovered ''landAction'' (Inl e))
          | Inr jsonA \<Rightarrow>
              (case safeWrite io now ActionDone (action_file (act_ID a)) jsonA st of
                 (st, Inl e) \<Rightarrow> (st, recovered ''landAction'' (Inl e))
               | (st, Inr _) \<Rightarrow>
                   (on_db (FinishAction now a) (spool_remove ActionInFlight (action_file (act_ID a)) st), Inr ()))))"

section \<open>New actions (scheduler.go)\<close>

definition ActionFromFile :: "'ring sched_env \<Rightarrow> string \<Rightarrow> sched \<Rightarrow> action result" where
  "ActionFromFile env path st = and_then (spool_read ActionNew path st) (e_UnmarshalAction env)"

text \<open>
  \<open>getPubring\<close>: the context is passed by value, so the time of the last refresh is never kept and the
  keyring is made from the database every time (\<open>makePubring\<close>).
\<close>

definition makePubring :: "'ring sched_env \<Rightarrow> mig_db \<Rightarrow> string result" where
  "makePubring env db =
     recovered ''makePubring''
       (case ArmoredKeysToKeyring (e_PGP env) (ActiveInvestigatorsPubKeys (t_Investigators db)) of
          Inl e \<Rightarrow> Inl e | Inr (keyring, keycount) \<Rightarrow> Inr keyring)"

definition getPubring :: "'ring sched_env \<Rightarrow> mig_db \<Rightarrow> string result" where
  "getPubring env db = recovered ''getPubring'' (makePubring env db)"

text \<open>The signatures of an action that was dropped into the spool and is not in the database yet.\<close>

fun store_signatures :: "'ring sched_env \<Rightarrow> action \<Rightarrow> string \<Rightarrow> string list \<Rightarrow> mig_db \<Rightarrow> mig_db \<times> unit result" where
  "store_signatures env a astr [] db = (db, Inr ())"
| "store_signatures env a astr (sig # sigs) db =
     (case and_then (getPubring env db) (\<lambda>pubring.
             and_then (GetFingerprintFromSignature (e_PGP env) astr sig pubring) (\<lambda>fp.
               InvestigatorByFingerprint fp (t_Investigators db))) of
        Inl e \<Rightarrow> (db, Inl e)
      | Inr iv \<Rightarrow>
          (case InsertSignature (act_ID a) (inv_ID iv) sig db of
             (db', Inl e) \<Rightarrow> (db', Inl e)
           | (db', Inr _) \<Rightarrow> store_signatures env a astr sigs db'))"

definition createCommand :: "action \<Rightarrow> agent \<Rightarrow> module_result list \<Rightarrow> mig_id \<Rightarrow> time \<Rightarrow> command" where
  "createCommand a agt emptyResults cmdid now =
     \<lparr>cmd_ID = cmdid, cmd_Action = a, cmd_Agent = agt, cmd_Status = ''sent'', cmd_Results = emptyResults,
      cmd_StartTime = now, cmd_FinishTime = zero_time\<rparr>"

definition empty_result :: module_result where
  "empty_result = \<lparr>res_FoundAnything = False, res_Success = False, res_Elements = JNull,
     res_Statistics = JNull, res_Errors = []\<rparr>"

text \<open>The part of \<open>processNewAction\<close> after the targets have been found.\<close>

definition schedule_action ::
  "'ring sched_env \<Rightarrow> io \<Rightarrow> time \<Rightarrow> (nat \<Rightarrow> mig_id) \<Rightarrow> string \<Rightarrow> action \<Rightarrow> agent list \<Rightarrow> sched \<Rightarrow>
     sched \<times> unit result" where
  "schedule_action env io now cids path a agents st =
     (let a = a\<lparr>act_Status := ''preparing''\<rparr>
      in (case InsertOrUpdateAction (e_Json env) a (s_DB st) of
            (db, Inl e) \<Rightarrow> (st\<lparr>s_DB := db\<rparr>, Inl e)
          | (db, Inr inserted) \<Rightarrow>
              (case (if inserted
                     then (case String (e_Codec env) a of
                             Inl e \<Rightarrow> (db, Inl e)
                           | Inr astr \<Rightarrow> store_signatures env a astr (act_PGPSignatures a) db)
                     else (db, Inr ())) of
                 (db, Inl e) \<Rightarrow> (st\<lparr>s_DB := db\<rparr>, Inl e)
               | (db, Inr _) \<Rightarrow>
                   (let cmds = map (\<lambda>(k, agt). createCommand a agt (map (\<lambda>_. empty_result) (ops a)) (cids k) now)
                                 (zip [0..<length agents] agents);
                        st = st\<lparr>s_DB := db, s_CommandReady := s_CommandReady st @ cmds\<rparr>
                    in if length cmds = 0 then invalidAction env io now a path st
                       else flyAction env io now a path st))))"

definition start_action :: "time \<Rightarrow> mig_id \<Rightarrow> action \<Rightarrow> action" where
  "start_action now aid a = a\<lparr>act_StartTime := now, act_ID := (if act_ID a < 1 then aid else act_ID a)\<rparr>"

definition processNewAction ::
  "'ring sched_env \<Rightarrow> io \<Rightarrow> time \<Rightarrow> mig_id \<Rightarrow> (nat \<Rightarrow> mig_id) \<Rightarrow> string \<Rightarrow> sched \<Rightarrow> sched \<times> unit result" where
  "processNewAction env io now aid cids path st =
     map_prod id (recovered ''processNewAction'')
       (case ActionFromFile env path st of
          Inl e \<Rightarrow> (st, Inl e)
        | Inr a \<Rightarrow>
            (let a = start_action now aid a
             in if now < act_ValidFrom a then (st, Inr ())
                else if act_ExpireAfter a < now then invalidAction env io now a path st
                else (case ActiveAgentsByTarget (e_Json env) (e_Holds env) (act_Target a) (s_DB st) of
                        Inl e \<Rightarrow> (st, Inl e)
                      | Inr agents \<Rightarrow>
                          (let a = a\<lparr>act_Counters := (act_Counters a)\<lparr>cnt_Sent := int (length agents)\<rparr>\<rparr>
                           in if length agents = 0
                              then (case invalidAction env io now a path st of
                                      (st, Inl e) \<Rightarrow> (st, Inl e)
                                    | (st, Inr _) \<Rightarrow> schedule_action env io now cids path a agents st)
                              else schedule_action env io now cids path a agents st))))"

section \<open>Sending and returning commands (scheduler.go)\<close>

text \<open>
  The loop of \<open>sendCommands\<close>; a message is published in a goroutine, whose failure is only logged, which
  \<open>pub\<close> decides.
\<close>

fun send_loop :: "'ring sched_env \<Rightarrow> io \<Rightarrow> (command \<Rightarrow> bool) \<Rightarrow> time \<Rightarrow> command list \<Rightarrow> sched \<Rightarrow> sched \<times> unit result" where
  "send_loop env io pub now [] st = (st, Inr ())"
| "send_loop env io pub now (cmd # cmds) st =
     (case e_MarshalCommand env cmd of
        Inl e \<Rightarrow> (st, Inl e)
      | Inr data \<Rightarrow>
          (case safeWrite io now CommandInFlight (command_file cmd) data st of
             (st, Inl e) \<Rightarrow> (st, Inl e)
           | (st, Inr _) \<Rightarrow>
               (let expire = act_ExpireAfter (cmd_Action cmd) - act_ValidFrom (cmd_Action cmd);
                    msg = \<lparr>am_Queue = ''mig.agt.'' @ agt_QueueLoc (cmd_Agent cmd),
                           am_Expiration = trunc_div expire 1000000, am_Body = data\<rparr>
                in send_loop env io pub now cmds
                     (if pub cmd then st\<lparr>s_Published := s_Published st @ [msg]\<rparr> else st))))"

definition sendCommands ::
  "'ring sched_env \<Rightarrow> io \<Rightarrow> (command \<Rightarrow> bool) \<Rightarrow> time \<Rightarrow> command list \<Rightarrow> sched \<Rightarrow> sched \<times> unit result" where
  "sendCommands env io pub now cmds st =
     map_prod id (recovered ''sendCommands'')
       (case InsertCommands (e_Json env) cmds (s_DB st) of
          (db, Inl e) \<Rightarrow> (st\<lparr>s_DB := db\<rparr>, Inl e)
        | (db, Inr insertCount) \<Rightarrow> send_loop env io pub now cmds (st\<lparr>s_DB := db\<rparr>))"

definition CommandFromFile :: "'ring sched_env \<Rightarrow> spool_dir \<Rightarrow> string \<Rightarrow> sched \<Rightarrow> command result" where
  "CommandFromFile env d n st = CmdFromFile (and_then (spool_read d n st) (e_UnmarshalCommand env))"

text \<open>
  \<open>returnCommands\<close> starts a goroutine for every command it could read, here an entry of \<open>s_Finishing\<close>, and
  removes its files without waiting for it.
\<close>

fun returnCommands :: "'ring sched_env \<Rightarrow> time \<Rightarrow> string list \<Rightarrow> sched \<Rightarrow> sched" where
  "returnCommands env now [] st = st"
| "returnCommands env now (cmdFile # files) st =
     (case CommandFromFile env CommandReturned cmdFile st of
        Inl _ \<Rightarrow>
          returnCommands env now files
            (spool_rename CommandReturned cmdFile CommandReturned (cmdFile @ ''.fail'') st)
      | Inr cmd \<Rightarrow>
          (let cmd = cmd\<lparr>cmd_FinishTime := now\<rparr>
           in returnCommands env now files
                (spool_remove CommandReturned cmdFile
                  (spool_remove CommandInFlight (command_file cmd)
                    (st\<lparr>s_Finishing := s_Finishing st @ [cmd]\<rparr>)))))"

text \<open>The goroutine: whether or not the database took the command, it goes to the next channel.\<close>

definition finish_one :: "'ring sched_env \<Rightarrow> command \<Rightarrow> sched \<Rightarrow> sched" where
  "finish_one env cmd st =
     st\<lparr>s_DB := fst (FinishCommand (e_Json env) cmd (s_DB st)), s_Finishing := remove1 cmd (s_Finishing st),
        s_CommandDone := s_CommandDone st @ [cmd]\<rparr>"

text \<open>\<open>updateAction\<close>: first the actions of the commands, each once, then each is landed or updated.\<close>

fun collect_actions :: "mig_db \<Rightarrow> time \<Rightarrow> command list \<Rightarrow> (mig_id \<times> action) list \<Rightarrow> (mig_id \<times> action) list result" where
  "collect_actions db now [] m = Inr m"
| "collect_actions db now (cmd # cmds) m =
     and_then (case map_of m (act_ID (cmd_Action cmd)) of
                 Some a \<Rightarrow> Inr a
               | None \<Rightarrow> ActionMetaByID (act_ID (cmd_Action cmd)) db)
       (\<lambda>a. collect_actions db now cmds (al_set (act_ID a) (a\<lparr>act_LastUpdateTime := now\<rparr>) m))"

fun update_loop :: "'ring sched_env \<Rightarrow> io \<Rightarrow> time \<Rightarrow> action list \<Rightarrow> sched \<Rightarrow> sched \<times> unit result" where
  "update_loop env io now [] st = (st, Inr ())"
| "update_loop env io now (a # as) st =
     (let counters = GetActionCounters (act_ID a) (s_DB st); a = a\<lparr>act_Counters := counters\<rparr>
      in if cnt_Done counters = cnt_Sent counters
         then (case landAction env io now a st of
                 (st, Inl e) \<Rightarrow> (st, Inl e)
               | (st, Inr _) \<Rightarrow>
                   update_loop env io now as
                     (spool_rename ActionInFlight (action_file (act_ID a)) ActionDone (action_file (act_ID a)) st))
         else update_loop env io now as (on_db (UpdateRunningAction a) st))"

definition updateAction :: "'ring sched_env \<Rightarrow> io \<Rightarrow> time \<Rightarrow> command list \<Rightarrow> sched \<Rightarrow> sched \<times> unit result" where
  "updateAction env io now cmds st =
     map_prod id (recovered ''updateAction'')
       (case collect_actions (s_DB st) now cmds [] of
          Inl e \<Rightarrow> (st, Inl e)
        | Inr m \<Rightarrow> update_loop env io now (map snd m) st)"

end
