(* ===== verification/Collector.thy ===== *)
theory Collector
  imports Scheduler
begin

text \<open>
  The routines that drive the scheduler: the inspection of the spool (\<open>mig-scheduler/collector.go\<close>), the
  cleaning of old files (\<open>mig-scheduler/periodic.go\<close>), and the loops that connect the channels
  (\<open>mig-scheduler/routines.go\<close>), whose interleavings are a step relation.
\<close>

section \<open>The collector\<close>

fun setup_loop :: "'ring sched_env \<Rightarrow> io \<Rightarrow> time \<Rightarrow> action list \<Rightarrow> sched \<Rightarrow> sched \<times> unit result" where
  "setup_loop env io now [] st = (st, Inr ())"
| "setup_loop env io now (a # as) st =
     (case setupAction env io now a st of
        (st, Inl e) \<Rightarrow> (st, Inl e)
      | (st, Inr _) \<Rightarrow> setup_loop env io now as st)"

definition loadNewActionsFromDB :: "'ring sched_env \<Rightarrow> io \<Rightarrow> time \<Rightarrow> sched \<Rightarrow> sched \<times> unit result" where
  "loadNewActionsFromDB env io now st =
     map_prod id (recovered ''loadNewActionsFromDB'')
       (case SetupRunnableActions (e_Json env) now (s_DB st) of
          (db, Inl e) \<Rightarrow> (st\<lparr>s_DB := db\<rparr>, Inl e)
        | (db, Inr actions) \<Rightarrow> setup_loop env io now actions (st\<lparr>s_DB := db\<rparr>))"

fun load_new_loop :: "'ring sched_env \<Rightarrow> time \<Rightarrow> string list \<Rightarrow> sched \<Rightarrow> sched" where
  "load_new_loop env now [] st = st"
| "load_new_loop env now (n # ns) st =
     (case waitForFileOrDelete ActionNew n st of
        (st, Inl _) \<Rightarrow> load_new_loop env now ns st
      | (st, Inr _) \<Rightarrow>
          (case ActionFromFile env n st of
             Inl _ \<Rightarrow> load_new_loop env now ns st
           | Inr a \<Rightarrow>
               if act_ExpireAfter a < now then load_new_loop env now ns (spool_remove ActionNew n st)
               else if act_ValidFrom a < now
               then load_new_loop env now ns (st\<lparr>s_NewAction := s_NewAction st @ [n]\<rparr>)
               else load_new_loop env now ns st))"

definition loadNewActionsFromSpool :: "'ring sched_env \<Rightarrow> time \<Rightarrow> sched \<Rightarrow> sched" where
  "loadNewActionsFromSpool env now st = load_new_loop env now (map fst (s_Spool st ActionNew)) st"

fun load_returned_loop :: "'ring sched_env \<Rightarrow> string list \<Rightarrow> sched \<Rightarrow> sched" where
  "load_returned_loop env [] st = st"
| "load_returned_loop env (n # ns) st =
     (if HasSuffix n ''.fail'' then load_returned_loop env ns st
      else (case waitForFileOrDelete CommandReturned n st of
              (st, Inl _) \<Rightarrow> load_returned_loop env ns st
            | (st, Inr _) \<Rightarrow>
                (case CommandFromFile env CommandReturned n st of
                   Inl _ \<Rightarrow> load_returned_loop env ns st
                 | Inr cmd \<Rightarrow>
                     load_returned_loop env ns (st\<lparr>s_CommandReturned := s_CommandReturned st @ [n]\<rparr>))))"

definition loadReturnedCommands :: "'ring sched_env \<Rightarrow> sched \<Rightarrow> sched" where
  "loadReturnedCommands env st = load_returned_loop env (map fst (s_Spool st CommandReturned)) st"

fun expire_loop :: "'ring sched_env \<Rightarrow> io \<Rightarrow> time \<Rightarrow> string list \<Rightarrow> sched \<Rightarrow> sched \<times> unit result" where
  "expire_loop env io now [] st = (st, Inr ())"
| "expire_loop env io now (n # ns) st =
     (case waitForFileOrDelete CommandInFlight n st of
        (st, Inl _) \<Rightarrow> expire_loop env io now ns st
      | (st, Inr _) \<Rightarrow>
          (case CommandFromFile env CommandInFlight n st of
             Inl _ \<Rightarrow> expire_loop env io now ns st
           | Inr cmd \<Rightarrow>
               if act_ExpireAfter (cmd_Action cmd) < now
               then (let cmd = cmd\<lparr>cmd_Status := ''expired'', cmd_FinishTime := now\<rparr>
                     in (case e_MarshalCommand env cmd of
                           Inl e \<Rightarrow> (st, Inl e)
                         | Inr data \<Rightarrow>
                             (case safeWrite io now CommandReturned (command_file cmd) data st of
                                (st, Inl e) \<Rightarrow> (st, Inl e)
                              | (st, Inr _) \<Rightarrow>
                                  expire_loop env io now ns (spool_remove CommandInFlight n st))))
               else expire_loop env io now ns st))"

definition expireCommands :: "'ring sched_env \<Rightarrow> io \<Rightarrow> time \<Rightarrow> sched \<Rightarrow> sched \<times> unit result" where
  "expireCommands env io now st =
     map_prod id (recovered ''expireCommands'') (expire_loop env io now (map fst (s_Spool st CommandInFlight)) st)"

definition collector :: "'ring sched_env \<Rightarrow> io \<Rightarrow> time \<Rightarrow> sched \<Rightarrow> sched \<times> unit result" where
  "collector env io now st =
     map_prod id (recovered ''spoolInspection'')
       (case loadNewActionsFromDB env io now st of
          (st, Inl e) \<Rightarrow> (st, Inl e)
        | (st, Inr _) \<Rightarrow>
            expireCommands env io now (loadReturnedCommands env (loadNewActionsFromSpool env now st)))"

text \<open>\<open>cleanDir\<close>, run on the directories of done and of invalid actions.\<close>

definition cleanDir :: "duration result \<Rightarrow> time \<Rightarrow> spool_dir \<Rightarrow> sched \<Rightarrow> sched \<times> unit result" where
  "cleanDir deleteAfter now d st =
     (case deleteAfter of
        Inl e \<Rightarrow> (st, recovered ''cleanDir'' (Inl e))
      | Inr deletionPoint \<Rightarrow>
          (set_dir d (filter (\<lambda>(n, f). \<not> sf_Mtime f < now - deletionPoint)) st, Inr ()))"

section \<open>Channels and routines\<close>

text \<open>The file of an action whose processing fails goes to the directory of invalid actions.\<close>

definition new_action_routine ::
  "'ring sched_env \<Rightarrow> io \<Rightarrow> time \<Rightarrow> mig_id \<Rightarrow> (nat \<Rightarrow> mig_id) \<Rightarrow> string \<Rightarrow> sched \<Rightarrow> sched" where
  "new_action_routine env io now aid cids path st =
     (case processNewAction env io now aid cids path st of
        (st, Inl _) \<Rightarrow> spool_rename ActionNew path ActionInvalid (fmt_d now @ ''.json'') st
      | (st, Inr _) \<Rightarrow> st)"

text \<open>A message on the results queue is written to the directory of returned commands.\<close>

definition receive_result :: "io \<Rightarrow> time \<Rightarrow> mig_id \<Rightarrow> string \<Rightarrow> sched \<Rightarrow> sched" where
  "receive_result io now opid body st =
     (if length body < 10 \<or> hd body \<noteq> CHR 0x7B \<or> last body \<noteq> CHR 0x7D then st
      else fst (safeWrite io now CommandReturned (fmt_d opid) body st))"

text \<open>
  The batches that the routines for sent and for finished commands take from their channel are maps
  by identifier, in any order.
\<close>

definition batch_of :: "command list \<Rightarrow> command list \<Rightarrow> bool" where
  "batch_of cmds taken \<longleftrightarrow>
     taken \<noteq> [] \<and> set cmds \<subseteq> set taken \<and> distinct (map cmd_ID cmds) \<and> cmd_ID ` set cmds = cmd_ID ` set taken"

text \<open>Other processes use the database as well; they do not touch the commands.\<close>

definition db_quiet :: "mig_db \<Rightarrow> mig_db \<Rightarrow> bool" where
  "db_quiet db db' \<longleftrightarrow>
     t_Commands db' = t_Commands db \<and> ar_ID ` set (t_Actions db) \<subseteq> ar_ID ` set (t_Actions db') \<and>
     gr_ID ` set (t_Agents db) \<subseteq> gr_ID ` set (t_Agents db')"

inductive sched_step :: "'ring sched_env \<Rightarrow> sched \<Rightarrow> sched \<Rightarrow> bool" for env where
  collect: "collector env io now st = (st', r) \<Longrightarrow> sched_step env st st'"
| new_action: "s_NewAction st = path # paths \<Longrightarrow>
    new_action_routine env io now aid cids path (st\<lparr>s_NewAction := paths\<rparr>) = st' \<Longrightarrow> sched_step env st st'"
| send: "s_CommandReady st = taken @ rest \<Longrightarrow> batch_of cmds taken \<Longrightarrow>
    sendCommands env io pub now cmds (st\<lparr>s_CommandReady := rest\<rparr>) = (st', r) \<Longrightarrow> sched_step env st st'"
| return: "s_CommandReturned st = taken @ rest \<Longrightarrow> mset files = mset taken \<Longrightarrow>
    returnCommands env now files (st\<lparr>s_CommandReturned := rest\<rparr>) = st' \<Longrightarrow> sched_step env st st'"
| finish: "cmd \<in> set (s_Finishing st) \<Longrightarrow> finish_one env cmd st = st' \<Longrightarrow> sched_step env st st'"
| update: "s_CommandDone st = taken @ rest \<Longrightarrow> batch_of cmds taken \<Longrightarrow>
    updateAction env io now cmds (st\<lparr>s_CommandDone := rest\<rparr>) = (st', r) \<Longrightarrow> sched_step env st st'"
| result: "receive_result io now opid body st = st' \<Longrightarrow> sched_step env st st'"
| clean: "cleanDir deleteAfter now d st = (st', r) \<Longrightarrow> d \<in> {ActionDone, ActionInvalid} \<Longrightarrow> sched_step env st st'"
| drop_action: "st' = set_dir ActionNew (al_set n \<lparr>sf_Data = data, sf_Mtime = now\<rparr>) st \<Longrightarrow> sched_step env st st'"
| other_db: "db_quiet (s_DB st) db' \<Longrightarrow> sched_step env st (st\<lparr>s_DB := db'\<rparr>)"

section \<open>What the operations leave alone\<close>

text \<open>The part of the state that is not the spool.\<close>

lemma spool_frame [simp]:
  "s_DB (set_dir d f st) = s_DB st" "s_CommandReady (set_dir d f st) = s_CommandReady st"
  "s_DB (spool_remove d n st) = s_DB st" "s_CommandReady (spool_remove d n st) = s_CommandReady st"
  "s_DB (spool_rename d n d' n' st) = s_DB st"
  "s_CommandReady (spool_rename d n d' n' st) = s_CommandReady st"
  by (simp_all add: set_dir_def spool_remove_def spool_rename_def split: option.splits)

lemma safeWrite_cases:
  assumes "safeWrite io now d n data st = (st', r)"
  obtains (failed) e where "st' = st" "r = Inl e"
    | (written) "st' = set_dir d (al_set n \<lparr>sf_Data = data, sf_Mtime = now\<rparr>) st" "r = Inr ()"
  using assms by (auto simp: safeWrite_def split: if_splits option.splits)

lemma safeWrite_frame [simp]:
  "s_DB (fst (safeWrite io now d n data st)) = s_DB st"
  "s_CommandReady (fst (safeWrite io now d n data st)) = s_CommandReady st"
  by (auto simp: safeWrite_def split: option.splits)

lemma wait_frame:
  "waitForFileOrDelete d n st = (st', r) \<Longrightarrow> s_DB st' = s_DB st"
  by (auto simp: waitForFileOrDelete_def split: sum.splits if_splits)

lemma quiet_refl [simp]: "db_quiet db db"
  by (simp add: db_quiet_def)

lemma quiet_trans: "db_quiet a b \<Longrightarrow> db_quiet b c \<Longrightarrow> db_quiet a c"
  unfolding db_quiet_def by (simp, meson order_trans)

lemma quiet_keys:
  assumes "t_Commands db' = t_Commands db" "t_Agents db' = t_Agents db"
    and "map ar_ID (t_Actions db') = map ar_ID (t_Actions db) @ new"
  shows "db_quiet db db'"
proof -
  have "ar_ID ` set (t_Actions db') = ar_ID ` set (t_Actions db) \<union> set new"
    using arg_cong [OF assms(3), of set] by simp
  with assms(1,2) show ?thesis by (auto simp: db_quiet_def)
qed

lemma quiet_update_action:
  "(\<And>r. ar_ID (f r) = ar_ID r) \<Longrightarrow> db_quiet db (update_action i f db)"
  by (rule quiet_keys [where new = "[]"]) (simp_all add: update_action_def)

lemmas action_updates = UpdateAction_def UpdateActionStatus_def UpdateRunningAction_def FinishAction_def

lemma quiet_updates [simp]:
  "db_quiet db (UpdateAction a db)" "db_quiet db (UpdateActionStatus a db)"
  "db_quiet db (UpdateRunningAction a db)" "db_quiet db (FinishAction now a db)"
  by (simp_all add: action_updates quiet_update_action)

lemma quiet_InsertOrUpdate: "InsertOrUpdateAction js a db = (db', r) \<Longrightarrow> db_quiet db db'"
  by (auto simp: InsertOrUpdateAction_def InsertAction_def Let_def and_then_eq_Inr
      intro: quiet_keys [where new = "[act_ID a]"] split: sum.splits if_splits prod.splits)

lemma quiet_InsertSignature: "InsertSignature aid iid sig db = (db', r) \<Longrightarrow> db_quiet db db'"
  by (auto simp: InsertSignature_def db_quiet_def split: if_splits)

lemma quiet_store_signatures: "store_signatures env a astr sigs db = (db', r) \<Longrightarrow> db_quiet db db'"
proof (induction env a astr sigs db rule: store_signatures.induct)
  case (2 env a astr sig sigs db)
  then show ?case
    by (fastforce split: sum.splits prod.splits intro: quiet_trans quiet_InsertSignature)
qed simp

lemma quiet_Setup: "SetupRunnableActions js now db = (db', r) \<Longrightarrow> db_quiet db db'"
  by (auto simp: SetupRunnableActions_def Let_def intro!: quiet_keys [where new = "[]"])

lemma quiet_stages:
  "setupAction env io now a st = (st', r) \<Longrightarrow> db_quiet (s_DB st) (s_DB st')"
  "flyAction env io now a path st = (st', r) \<Longrightarrow> db_quiet (s_DB st) (s_DB st')"
  "invalidAction env io now a path st = (st', r) \<Longrightarrow> db_quiet (s_DB st) (s_DB st')"
  "landAction env io now a st = (st', r) \<Longrightarrow> db_quiet (s_DB st) (s_DB st')"
  by (auto simp: setupAction_def flyAction_def invalidAction_def landAction_def Let_def map_prod_def on_db_def
      split: sum.splits prod.splits elim: safeWrite_cases)

lemma quiet_schedule:
  assumes "schedule_action env io now cids path a agents st = (st', r)"
  shows "db_quiet (s_DB st) (s_DB st')"
proof -
  let ?a = "a\<lparr>act_Status := ''preparing''\<rparr>"
  obtain db1 r1 where 1: "InsertOrUpdateAction (e_Json env) ?a (s_DB st) = (db1, r1)" by fastforce
  note q1 = quiet_InsertOrUpdate [OF 1]
  show ?thesis
  proof (cases r1)
    case (Inl e)
    with assms 1 q1 show ?thesis by (auto simp: schedule_action_def Let_def)
  next
    case (Inr inserted)
    obtain db2 r2 where 2: "(if inserted then (case String (e_Codec env) ?a of Inl e \<Rightarrow> (db1, Inl e)
        | Inr astr \<Rightarrow> store_signatures env ?a astr (act_PGPSignatures ?a) db1) else (db1, Inr ())) = (db2, r2)"
      by fastforce
    then have "db_quiet db1 db2" by (auto split: if_splits sum.splits dest: quiet_store_signatures)
    with q1 have q2: "db_quiet (s_DB st) db2" by (rule quiet_trans)
    show ?thesis
    proof (cases r2)
      case (Inl e)
      with assms 1 2 Inr q2 show ?thesis by (auto simp: schedule_action_def Let_def)
    next
      case (Inr u)
      with assms 1 2 \<open>r1 = Inr inserted\<close> q2 show ?thesis
        by (auto simp: schedule_action_def Let_def split: if_splits dest!: quiet_stages intro: quiet_trans)
    qed
  qed
qed

lemma quiet_new_action:
  assumes "processNewAction env io now aid cids path st = (st', r)"
  shows "db_quiet (s_DB st) (s_DB st')"
proof (cases "ActionFromFile env path st")
  case (Inl e)
  with assms show ?thesis by (auto simp: processNewAction_def)
next
  case (Inr a)
  with assms show ?thesis
    by (auto simp: processNewAction_def Let_def map_prod_def
        split: sum.splits prod.splits if_splits dest!: quiet_stages quiet_schedule intro: quiet_trans)
qed

lemma quiet_setup_loop: "setup_loop env io now as st = (st', r) \<Longrightarrow> db_quiet (s_DB st) (s_DB st')"
  by (induction as arbitrary: st)
    (auto split: prod.splits sum.splits dest!: quiet_stages intro: quiet_trans)

lemma quiet_load_db:
  "loadNewActionsFromDB env io now st = (st', r) \<Longrightarrow> db_quiet (s_DB st) (s_DB st')"
  by (auto simp: loadNewActionsFromDB_def map_prod_def split: prod.splits sum.splits
      dest!: quiet_setup_loop quiet_Setup intro: quiet_trans)

lemma frame_load_new [simp]: "s_DB (load_new_loop env now ns st) = s_DB st"
  by (induction ns arbitrary: st)
    (auto split: prod.splits sum.splits dest: wait_frame)

lemma frame_load_returned [simp]: "s_DB (load_returned_loop env ns st) = s_DB st"
  by (induction ns arbitrary: st)
    (auto split: prod.splits sum.splits dest: wait_frame)

lemma frame_safeWrite: "safeWrite io now d n data st = (st', r) \<Longrightarrow> s_DB st' = s_DB st"
  by (elim safeWrite_cases) simp_all

lemma frame_expire: "expire_loop env io now ns st = (st', r) \<Longrightarrow> s_DB st' = s_DB st"
  by (induction ns arbitrary: st)
    (auto simp: Let_def split: prod.splits sum.splits if_splits dest!: wait_frame frame_safeWrite)

lemma quiet_collector: "collector env io now st = (st', r) \<Longrightarrow> db_quiet (s_DB st) (s_DB st')"
  by (auto simp: collector_def expireCommands_def loadReturnedCommands_def loadNewActionsFromSpool_def
      map_prod_def split: prod.splits sum.splits dest!: quiet_load_db frame_expire)

lemma frame_return [simp]: "s_DB (returnCommands env now files st) = s_DB st"
  by (induction files arbitrary: st) (auto simp: Let_def split: sum.splits)

lemma frame_send: "send_loop env io pub now cmds st = (st', r) \<Longrightarrow> s_DB st' = s_DB st"
  by (induction cmds arbitrary: st)
    (auto simp: Let_def split: sum.splits prod.splits if_splits dest!: frame_safeWrite)

lemma quiet_update_loop: "update_loop env io now as st = (st', r) \<Longrightarrow> db_quiet (s_DB st) (s_DB st')"
proof (induction as arbitrary: st)
  case (Cons a as)
  from Cons.prems show ?case
    by (auto simp: Let_def on_db_def split: if_splits prod.splits sum.splits
        dest!: quiet_stages Cons.IH intro: quiet_trans [OF quiet_updates(3)] quiet_trans)
qed simp

lemma quiet_updateAction: "updateAction env io now cmds st = (st', r) \<Longrightarrow> db_quiet (s_DB st) (s_DB st')"
  by (auto simp: updateAction_def map_prod_def split: sum.splits prod.splits dest!: quiet_update_loop)

section \<open>The scheduler refines the table of commands\<close>

lemma quiet_step: "db_quiet db db' \<Longrightarrow> command_step js db db'"
  by (rule command_step.other) (auto simp: db_quiet_def)

text \<open>
  Every step of the scheduler is a step of the command table: it inserts a batch of commands,
  finishes one, or leaves the commands alone.
\<close>

lemma sched_step_refines:
  assumes "sched_step env st st'"
  shows "command_step (e_Json env) (s_DB st) (s_DB st')"
  using assms
proof cases
  case (collect io now r)
  then show ?thesis by (blast intro: quiet_step quiet_collector)
next
  case (new_action path paths io now aid cids)
  obtain st1 r1 where 1: "processNewAction env io now aid cids path (st\<lparr>s_NewAction := paths\<rparr>) = (st1, r1)"
    by fastforce
  with quiet_new_action [OF 1] new_action show ?thesis
    by (auto simp: new_action_routine_def split: sum.splits intro: quiet_step)
next
  case (send taken rest cmds io pub now r)
  then have "s_DB st' = fst (InsertCommands (e_Json env) cmds (s_DB st))"
    by (auto simp: sendCommands_def map_prod_def split: prod.splits sum.splits dest!: frame_send)
  then show ?thesis by (intro command_step.inserts) simp
next
  case (return taken rest files now)
  then show ?thesis by (auto intro: quiet_step)
next
  case (finish cmd)
  then show ?thesis by (auto simp: finish_one_def intro: command_step.finish)
next
  case (update taken rest cmds io now r)
  with quiet_updateAction [OF update(3)] show ?thesis by (auto intro: quiet_step)
next
  case (result io now opid body)
  then show ?thesis by (auto simp: receive_result_def intro: quiet_step)
next
  case (clean deleteAfter now d r)
  then show ?thesis by (auto simp: cleanDir_def split: sum.splits intro: quiet_step)
next
  case (drop_action n data now)
  then show ?thesis by (auto intro: quiet_step)
next
  case (other_db db')
  then show ?thesis by (auto intro: quiet_step)
qed

interpretation scheduler: state_machine "sched_step env" "\<lambda>st. good_commands (s_DB st)"
  "\<lambda>st st'. commands_kept (s_DB st) (s_DB st')"
proof
  fix st st'
  assume "good_commands (s_DB st)" "sched_step env st st'"
  then show "good_commands (s_DB st')" "commands_kept (s_DB st) (s_DB st')"
    using sched_step_refines commands.step_inv commands.step_keeps by blast+
qed (auto intro: commands.keeps_refl commands_kept_trans)

end
