(* ===== verification/Scheduling.thy ===== *)
theory Scheduling
  imports Collector
begin

text \<open>
  What the scheduler guarantees: a new action becomes one command per endpoint or is invalidated, an
  action lands when its last command is done, expired commands are handed back, and a command that
  succeeded stays so along every run.
\<close>

section \<open>Single stages\<close>

lemma map_of_spool_simps [simp]:
  "map_of (s_Spool (spool_remove d n st) d') n' =
     (if d' = d \<and> n' = n then None else map_of (s_Spool st d') n')"
  "map_of (s_Spool (set_dir d (al_set n f) st) d') n' =
     (if d' = d \<and> n' = n then Some f else map_of (s_Spool st d') n')"
  by (auto simp: spool_remove_def set_dir_def)

lemma on_db_frame [simp]:
  "s_Spool (on_db f st) = s_Spool st" "s_CommandReady (on_db f st) = s_CommandReady st"
  "s_DB (on_db f st) = f (s_DB st)"
  by (simp_all add: on_db_def)

text \<open>The status of an action in the database, when there is a row.\<close>

definition action_status_is :: "mig_id \<Rightarrow> string \<Rightarrow> mig_db \<Rightarrow> bool" where
  "action_status_is i s db \<longleftrightarrow> (\<forall>r\<in>set (t_Actions db). ar_ID r = i \<longrightarrow> ar_Status r = s)"

lemma action_status_updates [simp]:
  "action_status_is (act_ID a) (act_Status a) (UpdateAction a db)"
  "action_status_is (act_ID a) (act_Status a) (UpdateActionStatus a db)"
  "action_status_is (act_ID a) ''completed'' (FinishAction now a db)"
  by (auto simp: action_status_is_def action_updates update_action_def set_update_rows)

lemma flyAction_ok:
  assumes "flyAction env io now a path st = (st', Inr ())"
  shows "s_CommandReady st' = s_CommandReady st \<and> map_of (s_Spool st' ActionNew) path = None \<and>
    (\<exists>f. map_of (s_Spool st' ActionInFlight) (action_file (act_ID a)) = Some f \<and>
       e_MarshalAction env a = Inr (sf_Data f)) \<and>
    action_status_is (act_ID a) ''inflight'' (s_DB st')"
  using assms action_status_updates(2) [of "a\<lparr>act_Status := ''inflight''\<rparr>"]
  by (auto simp: flyAction_def split: sum.splits prod.splits elim!: safeWrite_cases)

lemma invalidAction_ok:
  assumes "invalidAction env io now a path st = (st', Inr ())"
  shows "s_CommandReady st' = s_CommandReady st \<and> map_of (s_Spool st' ActionNew) path = None \<and>
    (\<exists>f. map_of (s_Spool st' ActionInvalid) (action_file (act_ID a)) = Some f) \<and>
    action_status_is (act_ID a) ''invalid'' (s_DB st')"
  using assms action_status_updates(1) [of "a\<lparr>act_Status := ''invalid'', act_LastUpdateTime := now,
      act_FinishTime := now\<rparr>"]
  by (auto simp: invalidAction_def split: sum.splits prod.splits elim!: safeWrite_cases)

lemma landAction_ok:
  assumes "landAction env io now a st = (st', Inr ())"
  shows "map_of (s_Spool st' ActionInFlight) (action_file (act_ID a)) = None \<and>
    (\<exists>f. map_of (s_Spool st' ActionDone) (action_file (act_ID a)) = Some f) \<and>
    s_DB st' = FinishAction now (a\<lparr>act_Status := ''done'', act_FinishTime := now\<rparr>) (s_DB st) \<and>
    (\<forall>d n. n \<noteq> action_file (act_ID a) \<longrightarrow> map_of (s_Spool st' d) n = map_of (s_Spool st d) n)"
  using assms
  by (auto simp: landAction_def Let_def split: sum.splits prod.splits elim!: safeWrite_cases)

section \<open>New actions\<close>

lemma InsertOrUpdate_row:
  "InsertOrUpdateAction js a db = (db', Inr b) \<Longrightarrow> act_ID a \<in> ar_ID ` set (t_Actions db')"
  by (auto simp: InsertOrUpdateAction_def InsertAction_def UpdateAction_def update_action_def set_update_rows
      Let_def and_then_eq_Inr image_iff bex_Un dest!: row_InrD split: sum.splits prod.splits if_splits)

lemma quiet_action_ids:
  "db_quiet db db' \<Longrightarrow> i \<in> ar_ID ` set (t_Actions db) \<Longrightarrow> i \<in> ar_ID ` set (t_Actions db')"
  by (simp add: db_quiet_def subset_iff)

lemma schedule_action_ok:
  assumes "schedule_action env io now cids path a agents st = (st', Inr ())"
  shows "\<exists>cmds. s_CommandReady st' = s_CommandReady st @ cmds \<and> map cmd_Agent cmds = agents \<and>
    map cmd_ID cmds = map cids [0..<length agents] \<and>
    (\<forall>c\<in>set cmds. cmd_Status c = ''sent'' \<and> cmd_Action c = a\<lparr>act_Status := ''preparing''\<rparr>) \<and>
    map_of (s_Spool st' ActionNew) path = None \<and>
    (agents = [] \<longrightarrow> (\<exists>f. map_of (s_Spool st' ActionInvalid) (action_file (act_ID a)) = Some f) \<and>
       action_status_is (act_ID a) ''invalid'' (s_DB st')) \<and>
    (agents \<noteq> [] \<longrightarrow> (\<exists>f. map_of (s_Spool st' ActionInFlight) (action_file (act_ID a)) = Some f) \<and>
       action_status_is (act_ID a) ''inflight'' (s_DB st')) \<and>
    act_ID a \<in> ar_ID ` set (t_Actions (s_DB st'))"
proof -
  let ?a = "a\<lparr>act_Status := ''preparing''\<rparr>"
  let ?cmds = "map (\<lambda>(k, agt). createCommand ?a agt (map (\<lambda>_. empty_result) (ops ?a)) (cids k) now)
      (zip [0..<length agents] agents)"
  from assms obtain db1 inserted where 1: "InsertOrUpdateAction (e_Json env) ?a (s_DB st) = (db1, Inr inserted)"
    by (auto simp: schedule_action_def Let_def split: prod.splits sum.splits)
  obtain db2 r2 where 2: "(if inserted then (case String (e_Codec env) ?a of Inl e \<Rightarrow> (db1, Inl e)
      | Inr astr \<Rightarrow> store_signatures env ?a astr (act_PGPSignatures ?a) db1) else (db1, Inr ())) = (db2, r2)"
    by fastforce
  with assms 1 obtain u where r2: "r2 = Inr u" by (cases r2) (auto simp: schedule_action_def Let_def)
  let ?st = "st\<lparr>s_DB := db2, s_CommandReady := s_CommandReady st @ ?cmds\<rparr>"
  have stage: "(if agents = [] then invalidAction env io now ?a path ?st else flyAction env io now ?a path ?st)
      = (st', Inr ())"
    using assms 1 2 r2 by (simp add: schedule_action_def Let_def)
  have "db_quiet db1 db2" using 2 by (auto split: if_splits sum.splits dest: quiet_store_signatures)
  moreover have "db_quiet db2 (s_DB st')" using stage by (auto dest!: quiet_stages split: if_splits)
  ultimately have "db_quiet db1 (s_DB st')" by (rule quiet_trans)
  from quiet_action_ids [OF this] InsertOrUpdate_row [OF 1]
  have row: "act_ID a \<in> ar_ID ` set (t_Actions (s_DB st'))" by simp
  have cmds: "map cmd_Agent ?cmds = agents" "map cmd_ID ?cmds = map cids [0..<length agents]"
    "\<forall>c\<in>set ?cmds. cmd_Status c = ''sent'' \<and> cmd_Action c = ?a"
    by (auto simp: createCommand_def split_def comp_def nth_equalityI intro!: nth_equalityI)
  show ?thesis
    using stage row cmds
    by (intro exI [of _ ?cmds]) (auto dest!: flyAction_ok invalidAction_ok split: if_splits)
qed

text \<open>
  C9. A new action that \<open>processNewAction\<close> handles without an error ends in one of three ways. It is not yet
  valid and nothing changes. Or it has expired or no agent matches its target: its file moves to the
  invalid actions, its row is marked invalid and no command is made. Or it flies: the commands made are
  one for each agent that matches, in order, all in status \<open>sent\<close> and carrying the action with its
  operations and signatures; its file moves from the new to the inflight actions, and its row exists
  and is marked \<open>inflight\<close>.
\<close>

theorem processNewAction_outcome:
  assumes "processNewAction env io now aid cids path st = (st', Inr ())"
  shows "\<exists>a. ActionFromFile env path st = Inr a \<and>
    (let i = (if act_ID a < 1 then aid else act_ID a);
         targets = ActiveAgentsByTarget (e_Json env) (e_Holds env) (act_Target a) (s_DB st)
     in now < act_ValidFrom a \<and> st' = st \<or>
        act_ValidFrom a \<le> now \<and> (act_ExpireAfter a < now \<or> targets = Inr []) \<and>
        s_CommandReady st' = s_CommandReady st \<and> map_of (s_Spool st' ActionNew) path = None \<and>
        (\<exists>f. map_of (s_Spool st' ActionInvalid) (action_file i) = Some f) \<and>
        action_status_is i ''invalid'' (s_DB st') \<or>
        act_ValidFrom a \<le> now \<and> now \<le> act_ExpireAfter a \<and>
        (\<exists>agents cmds. targets = Inr agents \<and> agents \<noteq> [] \<and>
           s_CommandReady st' = s_CommandReady st @ cmds \<and> map cmd_Agent cmds = agents \<and>
           map cmd_ID cmds = map cids [0..<length agents] \<and>
           (\<forall>c\<in>set cmds. cmd_Status c = ''sent'' \<and> act_ID (cmd_Action c) = i \<and>
              act_Operations (cmd_Action c) = act_Operations a \<and>
              act_PGPSignatures (cmd_Action c) = act_PGPSignatures a) \<and>
           map_of (s_Spool st' ActionNew) path = None \<and>
           (\<exists>f. map_of (s_Spool st' ActionInFlight) (action_file i) = Some f) \<and>
           i \<in> ar_ID ` set (t_Actions (s_DB st')) \<and> action_status_is i ''inflight'' (s_DB st')))"
proof -
  from assms obtain a where a: "ActionFromFile env path st = Inr a"
    by (cases "ActionFromFile env path st") (auto simp: processNewAction_def)
  define b where "b = start_action now aid a"
  have b: "act_ID b = (if act_ID a < 1 then aid else act_ID a)" "act_ValidFrom b = act_ValidFrom a"
    "act_ExpireAfter b = act_ExpireAfter a" "act_Target b = act_Target a"
    "act_Operations b = act_Operations a" "act_PGPSignatures b = act_PGPSignatures a"
    by (simp_all add: b_def start_action_def)
  let ?targets = "ActiveAgentsByTarget (e_Json env) (e_Holds env) (act_Target a) (s_DB st)"
  note pn = assms [unfolded processNewAction_def a sum.case b_def [symmetric] b(2-4)]
  consider (early) "now < act_ValidFrom a" | (expired) "act_ValidFrom a \<le> now" "act_ExpireAfter a < now"
    | (ready) "act_ValidFrom a \<le> now" "now \<le> act_ExpireAfter a" by linarith
  then show ?thesis
  proof cases
    case early
    with pn a show ?thesis by (auto simp: Let_def b(2))
  next
    case expired
    with pn have "invalidAction env io now b path st = (st', Inr ())"
      by (auto simp: map_prod_def Let_def b(2,3) split: prod.splits)
    from invalidAction_ok [OF this] a expired show ?thesis by (auto simp: b(1) Let_def)
  next
    case ready
    with pn obtain agents where agents: "?targets = Inr agents"
      by (cases ?targets) (auto simp: Let_def b)
    let ?b = "b\<lparr>act_Counters := (act_Counters b)\<lparr>cnt_Sent := int (length agents)\<rparr>\<rparr>"
    have "\<exists>st0. s_CommandReady st0 = s_CommandReady st \<and> schedule_action env io now cids path ?b agents st0 = (st', Inr ())"
      using pn ready agents
      by (auto simp: Let_def b map_prod_def split: prod.splits sum.splits if_splits dest!: invalidAction_ok)
    then obtain st0 where st0: "s_CommandReady st0 = s_CommandReady st"
      and sa: "schedule_action env io now cids path ?b agents st0 = (st', Inr ())" by blast
    from schedule_action_ok [OF sa] obtain cmds where cmds: "s_CommandReady st' = s_CommandReady st @ cmds"
      "map cmd_Agent cmds = agents" "map cmd_ID cmds = map cids [0..<length agents]"
      "\<forall>c\<in>set cmds. cmd_Status c = ''sent'' \<and> cmd_Action c = ?b\<lparr>act_Status := ''preparing''\<rparr>"
      "map_of (s_Spool st' ActionNew) path = None" "act_ID b \<in> ar_ID ` set (t_Actions (s_DB st'))"
      "agents = [] \<longrightarrow> (\<exists>f. map_of (s_Spool st' ActionInvalid) (action_file (act_ID b)) = Some f) \<and>
         action_status_is (act_ID b) ''invalid'' (s_DB st')"
      "agents \<noteq> [] \<longrightarrow> (\<exists>f. map_of (s_Spool st' ActionInFlight) (action_file (act_ID b)) = Some f) \<and>
         action_status_is (act_ID b) ''inflight'' (s_DB st')"
      by (auto simp: st0)
    show ?thesis
    proof (cases "agents = []")
      case True
      with a agents cmds ready show ?thesis by (auto simp: b(1) Let_def)
    next
      case False
      with a agents cmds ready b show ?thesis by (auto simp: Let_def)
    qed
  qed
qed

section \<open>Finished actions\<close>

text \<open>The rows of an action; there is at most one, as identifiers are unique.\<close>

definition rows_of :: "mig_id \<Rightarrow> mig_db \<Rightarrow> action_row list" where
  "rows_of i db = filter (\<lambda>r. ar_ID r = i) (t_Actions db)"

lemma filter_update_rows:
  "(\<And>r. ar_ID (f r) = ar_ID r) \<Longrightarrow> filter (\<lambda>r. ar_ID r = i) (update_rows (\<lambda>r. ar_ID r = j) f rs) =
     (if i = j then map f (filter (\<lambda>r. ar_ID r = i) rs) else filter (\<lambda>r. ar_ID r = i) rs)"
  by (induction rs) (auto simp: update_rows_def)

lemma rows_of_update:
  "(\<And>r. ar_ID (f r) = ar_ID r) \<Longrightarrow>
     rows_of i (update_action j f db) = (if i = j then map f (rows_of i db) else rows_of i db)"
  by (simp add: rows_of_def update_action_def filter_update_rows)

lemma commands_update_action [simp]: "t_Commands (update_action i f db) = t_Commands db"
  by (simp add: update_action_def)

lemma GetActionCounters_cong:
  "t_Commands db' = t_Commands db \<Longrightarrow> GetActionCounters i db' = GetActionCounters i db"
  by (simp add: GetActionCounters_def status_counts_def)

lemma collect_actions_keys:
  assumes "collect_actions db now cmds m = Inr m'"
    and "distinct (map fst m)" "\<forall>(i, a)\<in>set m. act_ID a = i \<and> rows_of i db \<noteq> []"
  shows "distinct (map fst m') \<and> (\<forall>(i, a)\<in>set m'. act_ID a = i \<and> rows_of i db \<noteq> []) \<and>
    fst ` set m' = fst ` set m \<union> (\<lambda>c. act_ID (cmd_Action c)) ` set cmds"
  using assms
proof (induction cmds arbitrary: m)
  case Nil
  then show ?case by simp
next
  case (Cons c cmds)
  let ?i = "act_ID (cmd_Action c)"
  from Cons.prems(1) obtain a where a: "(case map_of m ?i of Some a \<Rightarrow> Inr a | None \<Rightarrow> ActionMetaByID ?i db) = Inr a"
    and rest: "collect_actions db now cmds (al_set (act_ID a) (a\<lparr>act_LastUpdateTime := now\<rparr>) m) = Inr m'"
    by (auto simp: and_then_eq_Inr)
  have i: "act_ID a = ?i \<and> rows_of ?i db \<noteq> []"
  proof (cases "map_of m ?i")
    case None
    with a show ?thesis
      by (auto simp: ActionMetaByID_def and_then_eq_Inr rows_of_def filter_empty_conv dest!: row_InrD)
  next
    case (Some b)
    with a have "(?i, a) \<in> set m" by (auto dest: map_of_SomeD)
    with Cons.prems(3) show ?thesis by auto
  qed
  have entries: "\<forall>(j, b)\<in>set (al_set ?i (a\<lparr>act_LastUpdateTime := now\<rparr>) m). act_ID b = j \<and> rows_of j db \<noteq> []"
    using Cons.prems(3) i
    by (induction ?i "a\<lparr>act_LastUpdateTime := now\<rparr>" m rule: al_set.induct) auto
  from Cons.IH [OF rest _ entries [folded conjunct1 [OF i]]] Cons.prems(2) i
  show ?case by (auto simp: distinct_keys_al_set)
qed

text \<open>What the loop has done to one of the actions.\<close>

definition action_settled :: "sched \<Rightarrow> sched \<Rightarrow> mig_id \<Rightarrow> bool" where
  "action_settled st st' i \<longleftrightarrow>
     (if cnt_Done (GetActionCounters i (s_DB st)) = cnt_Sent (GetActionCounters i (s_DB st))
      then action_status_is i ''completed'' (s_DB st') \<and>
           (\<exists>f. map_of (s_Spool st' ActionDone) (action_file i) = Some f) \<and>
           map_of (s_Spool st' ActionInFlight) (action_file i) = None
      else map ar_Status (rows_of i (s_DB st')) = map ar_Status (rows_of i (s_DB st)))"

text \<open>The loop neither takes finished files away nor puts new ones in flight.\<close>

definition files_settle :: "sched \<Rightarrow> sched \<Rightarrow> bool" where
  "files_settle st st' \<longleftrightarrow>
     (\<forall>n. map_of (s_Spool st ActionDone) n \<noteq> None \<longrightarrow> map_of (s_Spool st' ActionDone) n \<noteq> None) \<and>
     (\<forall>n. map_of (s_Spool st ActionInFlight) n = None \<longrightarrow> map_of (s_Spool st' ActionInFlight) n = None)"

lemma files_settle_trans: "files_settle a b \<Longrightarrow> files_settle b c \<Longrightarrow> files_settle a c"
  by (auto simp: files_settle_def)

lemma files_settle_land:
  "landAction env io now a st = (st', Inr ()) \<Longrightarrow> files_settle st st'"
proof -
  assume "landAction env io now a st = (st', Inr ())"
  note land = landAction_ok [OF this]
  have "map_of (s_Spool st' ActionDone) n \<noteq> None" if "map_of (s_Spool st ActionDone) n \<noteq> None" for n
    using land that by (cases "n = action_file (act_ID a)") auto
  moreover have "map_of (s_Spool st' ActionInFlight) n = None" if "map_of (s_Spool st ActionInFlight) n = None" for n
    using land that by (cases "n = action_file (act_ID a)") auto
  ultimately show ?thesis unfolding files_settle_def by blast
qed

lemma files_settle_rename: "files_settle st (spool_rename ActionInFlight n ActionDone n st)"
  by (auto simp: files_settle_def spool_rename_def split: option.splits)

lemma action_status_rows: "action_status_is i s db \<longleftrightarrow> (\<forall>r\<in>set (rows_of i db). ar_Status r = s)"
  by (auto simp: action_status_is_def rows_of_def)

lemma settled_step:
  assumes "s_DB st1 = update_action (act_ID a) f (s_DB st)" "\<And>r. ar_ID (f r) = ar_ID r"
    and "act_ID b \<noteq> act_ID a" "action_settled st1 st' (act_ID b)"
  shows "action_settled st st' (act_ID b)"
proof -
  have "GetActionCounters (act_ID b) (s_DB st1) = GetActionCounters (act_ID b) (s_DB st)"
    by (rule GetActionCounters_cong) (simp add: assms(1))
  moreover have "rows_of (act_ID b) (s_DB st1) = rows_of (act_ID b) (s_DB st)"
    using assms(1-3) by (simp add: rows_of_update)
  ultimately show ?thesis using assms(4) by (simp add: action_settled_def)
qed

lemma update_loop_ok:
  assumes "update_loop env io now as st = (st', Inr ())" "distinct (map act_ID as)"
  shows "t_Commands (s_DB st') = t_Commands (s_DB st) \<and> (\<forall>a\<in>set as. action_settled st st' (act_ID a)) \<and>
    (\<forall>i. i \<notin> act_ID ` set as \<longrightarrow> rows_of i (s_DB st') = rows_of i (s_DB st)) \<and> files_settle st st'"
  using assms
proof (induction as arbitrary: st)
  case Nil
  then show ?case by (simp add: files_settle_def)
next
  case (Cons a as)
  let ?c = "GetActionCounters (act_ID a) (s_DB st)" and ?f = "action_file (act_ID a)"
  let ?a = "a\<lparr>act_Counters := ?c\<rparr>"
  have new: "act_ID a \<notin> act_ID ` set as" "distinct (map act_ID as)" using Cons.prems(2) by auto
  then have neq: "act_ID b \<noteq> act_ID a" if "b \<in> set as" for b using that by (metis image_eqI)
  show ?case
  proof (cases "cnt_Done ?c = cnt_Sent ?c")
    case True
    with Cons.prems(1) obtain st1 where l: "landAction env io now ?a st = (st1, Inr ())"
      and rest: "update_loop env io now as (spool_rename ActionInFlight ?f ActionDone ?f st1) = (st', Inr ())"
      by (auto simp: Let_def split: prod.splits sum.splits)
    note land = landAction_ok [OF l]
    let ?st2 = "spool_rename ActionInFlight ?f ActionDone ?f st1"
    have fs: "files_settle st ?st2"
      using files_settle_land [OF l] files_settle_rename by (rule files_settle_trans)
    note ih = Cons.IH [OF rest new(2)]
    let ?g = "\<lambda>r. r\<lparr>ar_FinishTime := now, ar_LastUpdateTime := act_LastUpdateTime a, ar_Status := ''completed''\<rparr>"
    have db: "s_DB st1 = update_action (act_ID a) ?g (s_DB st)"
      using land by (simp add: FinishAction_def)
    have db2: "s_DB ?st2 = update_action (act_ID a) ?g (s_DB st)" using db by simp
    have "action_status_is (act_ID a) ''completed'' (s_DB st')"
      using ih new(1) by (auto simp: action_status_rows db rows_of_update)
    moreover have "map_of (s_Spool ?st2 ActionDone) ?f \<noteq> None" "map_of (s_Spool ?st2 ActionInFlight) ?f = None"
      using land by (auto simp: spool_rename_def)
    ultimately have "action_settled st st' (act_ID a)"
      using True ih by (auto simp: action_settled_def files_settle_def)
    moreover have "action_settled st st' (act_ID b)" if "b \<in> set as" for b
      by (rule settled_step [OF db2 _ neq [OF that]]) (use ih that in auto)
    ultimately show ?thesis using ih fs db files_settle_trans [OF fs] by (auto simp: rows_of_update)
  next
    case False
    let ?st1 = "on_db (UpdateRunningAction ?a) st"
    from False Cons.prems(1) have rest: "update_loop env io now as ?st1 = (st', Inr ())"
      by (simp add: Let_def)
    note ih = Cons.IH [OF rest new(2)]
    have db: "s_DB ?st1 = update_action (act_ID a) (\<lambda>r. r\<lparr>ar_LastUpdateTime := act_LastUpdateTime a\<rparr>) (s_DB st)"
      by (simp add: UpdateRunningAction_def)
    have "action_settled st st' (act_ID a)"
      using False ih new(1) by (simp add: action_settled_def UpdateRunningAction_def rows_of_update)
    moreover have "action_settled st st' (act_ID b)" if "b \<in> set as" for b
      by (rule settled_step [OF db _ neq [OF that]]) (use ih that in auto)
    moreover have "files_settle st st'" using ih by (auto simp: files_settle_def)
    ultimately show ?thesis using ih db by (auto simp: rows_of_update)
  qed
qed

text \<open>Files of actions that are not landed stay as they are.\<close>

lemma spool_rename_other:
  "m \<noteq> n \<Longrightarrow> map_of (s_Spool (spool_rename d n d' n st) e) m = map_of (s_Spool st e) m"
  by (auto simp: spool_rename_def set_dir_def spool_remove_def map_of_al_set map_of_al_del split: option.splits)

lemma update_loop_files:
  assumes "update_loop env io now as st = (st', Inr ())"
    and "\<forall>a\<in>set as. action_file (act_ID a) = n \<longrightarrow>
      cnt_Done (GetActionCounters (act_ID a) (s_DB st)) \<noteq> cnt_Sent (GetActionCounters (act_ID a) (s_DB st))"
  shows "map_of (s_Spool st' d) n = map_of (s_Spool st d) n"
  using assms
proof (induction as arbitrary: st)
  case (Cons a as)
  let ?c = "GetActionCounters (act_ID a) (s_DB st)" and ?f = "action_file (act_ID a)"
  let ?a = "a\<lparr>act_Counters := ?c\<rparr>"
  have cong: "GetActionCounters i (s_DB st1) = GetActionCounters i (s_DB st)"
    if "t_Commands (s_DB st1) = t_Commands (s_DB st)" for i st1
    using that by (rule GetActionCounters_cong)
  show ?case
  proof (cases "cnt_Done ?c = cnt_Sent ?c")
    case True
    with Cons.prems(1) obtain st1 where l: "landAction env io now ?a st = (st1, Inr ())"
      and rest: "update_loop env io now as (spool_rename ActionInFlight ?f ActionDone ?f st1) = (st', Inr ())"
      by (auto simp: Let_def split: prod.splits sum.splits)
    note land = landAction_ok [OF l]
    let ?st2 = "spool_rename ActionInFlight ?f ActionDone ?f st1"
    have n: "n \<noteq> ?f" using Cons.prems(2) True by auto
    have "t_Commands (s_DB ?st2) = t_Commands (s_DB st)" using land by (simp add: FinishAction_def)
    note same = cong [OF this]
    have "map_of (s_Spool st' d) n = map_of (s_Spool ?st2 d) n"
      by (rule Cons.IH [OF rest]) (use Cons.prems(2) same in auto)
    with land n show ?thesis by (simp add: spool_rename_other)
  next
    case False
    let ?st1 = "on_db (UpdateRunningAction ?a) st"
    from False Cons.prems(1) have rest: "update_loop env io now as ?st1 = (st', Inr ())" by (simp add: Let_def)
    have "t_Commands (s_DB ?st1) = t_Commands (s_DB st)" by (simp add: UpdateRunningAction_def)
    note same = cong [OF this]
    have "map_of (s_Spool st' d) n = map_of (s_Spool ?st1 d) n"
      by (rule Cons.IH [OF rest]) (use Cons.prems(2) same in auto)
    then show ?thesis by simp
  qed
qed simp

lemma action_file_inj: "action_file i = action_file j \<Longrightarrow> i = j"
  by (simp add: action_file_def fmt_d_inj)

text \<open>
  C10. An action is completed when, and only when, its last command is done. After \<open>updateAction\<close> has
  processed a batch of commands, an action of the batch of which no command is left in status \<open>sent\<close> is
  marked completed, its file is among the done actions and no longer in flight; any other action of the
  batch has the status it had, and its file is where it was in every directory of the spool. The commands
  themselves and the files of all other actions are not touched.
\<close>

theorem updateAction_completes_exactly:
  assumes "updateAction env io now cmds st = (st', Inr ())" and "cmd \<in> set cmds"
    and "i = act_ID (cmd_Action cmd)"
  shows "t_Commands (s_DB st') = t_Commands (s_DB st) \<and> rows_of i (s_DB st') \<noteq> [] \<and>
    (if filter (\<lambda>c. cr_ActionID c = i \<and> cr_Status c = ''sent'') (t_Commands (s_DB st)) = []
     then (\<forall>r\<in>set (rows_of i (s_DB st')). ar_Status r = ''completed'') \<and>
          (\<exists>f. map_of (s_Spool st' ActionDone) (action_file i) = Some f) \<and>
          map_of (s_Spool st' ActionInFlight) (action_file i) = None
     else map ar_Status (rows_of i (s_DB st')) = map ar_Status (rows_of i (s_DB st)) \<and>
          (\<forall>d. map_of (s_Spool st' d) (action_file i) = map_of (s_Spool st d) (action_file i))) \<and>
    (\<forall>d n. (\<forall>c\<in>set cmds. n \<noteq> action_file (act_ID (cmd_Action c))) \<longrightarrow>
       map_of (s_Spool st' d) n = map_of (s_Spool st d) n)"
proof -
  from assms(1) obtain m where m: "collect_actions (s_DB st) now cmds [] = Inr m"
    and loop: "update_loop env io now (map snd m) st = (st', Inr ())"
    by (auto simp: updateAction_def map_prod_def split: sum.splits prod.splits)
  note keys = collect_actions_keys [OF m]
  have ids: "map act_ID (map snd m) = map fst m" using keys by auto
  note loop_ok = update_loop_ok [OF loop, unfolded ids]
  from keys assms(2,3) have i: "i \<in> fst ` set m" by auto
  then obtain a where "(i, a) \<in> set m" by auto
  with keys have row: "rows_of i (s_DB st) \<noteq> []" by fastforce
  have "i \<in> act_ID ` set (map snd m)" using i arg_cong [OF ids, of set] by (simp add: image_image)
  with loop_ok keys have settled: "action_settled st st' i" by auto
  have "db_quiet (s_DB st) (s_DB st')" by (rule quiet_updateAction [OF assms(1)])
  moreover have "i \<in> ar_ID ` set (t_Actions (s_DB st))" using row by (force simp: rows_of_def filter_empty_conv)
  ultimately have rows: "rows_of i (s_DB st') \<noteq> []"
    using quiet_action_ids [of "s_DB st" "s_DB st'" i] by (auto simp: rows_of_def filter_empty_conv)
  have complete: "(cnt_Done (GetActionCounters i (s_DB st)) = cnt_Sent (GetActionCounters i (s_DB st))) \<longleftrightarrow>
      filter (\<lambda>c. cr_ActionID c = i \<and> cr_Status c = ''sent'') (t_Commands (s_DB st)) = []"
    using GetActionCounters_complete by (simp add: StatusSent_def)
  have "map_of (s_Spool st' d) (action_file i) = map_of (s_Spool st d) (action_file i)"
    if "cnt_Done (GetActionCounters i (s_DB st)) \<noteq> cnt_Sent (GetActionCounters i (s_DB st))" for d
    by (rule update_loop_files [OF loop]) (use that action_file_inj in blast)
  moreover have "map_of (s_Spool st' d) n = map_of (s_Spool st d) n"
    if "\<forall>c\<in>set cmds. n \<noteq> action_file (act_ID (cmd_Action c))" for d n
  proof (rule update_loop_files [OF loop])
    have "act_ID ` set (map snd m) = (\<lambda>c. act_ID (cmd_Action c)) ` set cmds"
      using arg_cong [OF ids, of set] keys by (simp add: image_image)
    with that have "\<forall>a\<in>set (map snd m). action_file (act_ID a) \<noteq> n" by (metis imageE image_eqI)
    then show "\<forall>a\<in>set (map snd m). action_file (act_ID a) = n \<longrightarrow>
        cnt_Done (GetActionCounters (act_ID a) (s_DB st)) \<noteq> cnt_Sent (GetActionCounters (act_ID a) (s_DB st))" by blast
  qed
  ultimately show ?thesis
    using loop_ok keys settled complete rows by (auto simp: action_settled_def action_status_rows split: if_splits)
qed

section \<open>Expired commands\<close>

definition well_named :: "'ring sched_env \<Rightarrow> sched \<Rightarrow> bool" where
  "well_named env st \<longleftrightarrow>
     (\<forall>n cmd. CommandFromFile env CommandInFlight n st = Inr cmd \<longrightarrow> command_file cmd = n)"

lemma command_file_update [simp]:
  "command_file (cmd\<lparr>cmd_Status := s, cmd_FinishTime := t\<rparr>) = command_file cmd"
  "command_file (cmd\<lparr>cmd_FinishTime := t\<rparr>) = command_file cmd"
  "command_file (cmd\<lparr>cmd_Status := s\<rparr>) = command_file cmd"
  by (simp_all add: command_file_def)

lemma CommandFromFile_cong:
  "map_of (s_Spool st' d) n = map_of (s_Spool st d) n \<Longrightarrow> CommandFromFile env d n st' = CommandFromFile env d n st"
  by (simp add: CommandFromFile_def spool_read_def)

lemma CommandFromFile_None [simp]:
  "map_of (s_Spool st d) n = None \<Longrightarrow> \<not> is_ok (CommandFromFile env d n st)"
  by (simp add: CommandFromFile_def spool_read_def CmdFromFile_def)

lemma well_named_remove:
  assumes "well_named env st" "\<And>m. map_of (s_Spool st' CommandInFlight) m \<in> {None, map_of (s_Spool st CommandInFlight) m}"
  shows "well_named env st'"
  unfolding well_named_def
proof (intro allI impI)
  fix m cmd
  assume c: "CommandFromFile env CommandInFlight m st' = Inr cmd"
  have "map_of (s_Spool st' CommandInFlight) m \<noteq> None"
    using c CommandFromFile_None [of st' CommandInFlight m env] by (metis is_ok_Inr)
  with assms(2) [of m] have "CommandFromFile env CommandInFlight m st = Inr cmd"
    using c CommandFromFile_cong [of st' CommandInFlight m st env] by auto
  with assms(1) show "command_file cmd = m" by (simp add: well_named_def)
qed

lemma wait_spool:
  "waitForFileOrDelete d n st = (st', r) \<Longrightarrow>
     map_of (s_Spool st' d') m =
       (if d' = d \<and> m = n \<and> (\<exists>f. map_of (s_Spool st d) n = Some f \<and> sf_Data f = []) then None
        else map_of (s_Spool st d') m) \<and>
     (r = Inr () \<longleftrightarrow> (\<exists>f. map_of (s_Spool st d) n = Some f \<and> sf_Data f \<noteq> []))"
  by (auto simp: waitForFileOrDelete_def spool_read_def split: option.splits if_splits)

text \<open>What the loop over the names \<open>ns\<close> does to the file \<open>n\<close>.\<close>

definition expired_ok :: "'ring sched_env \<Rightarrow> time \<Rightarrow> string list \<Rightarrow> sched \<Rightarrow> sched \<Rightarrow> string \<Rightarrow> bool" where
  "expired_ok env now ns st st' n \<longleftrightarrow>
     (case map_of (s_Spool st CommandInFlight) n of
        None \<Rightarrow> map_of (s_Spool st' CommandInFlight) n = None \<and>
                map_of (s_Spool st' CommandReturned) n = map_of (s_Spool st CommandReturned) n
      | Some f \<Rightarrow>
          (\<forall>cmd. sf_Data f \<noteq> [] \<longrightarrow> CommandFromFile env CommandInFlight n st = Inr cmd \<longrightarrow>
             (if act_ExpireAfter (cmd_Action cmd) < now \<and> n \<in> set ns
              then map_of (s_Spool st' CommandInFlight) n = None \<and>
                   (\<exists>g. map_of (s_Spool st' CommandReturned) n = Some g \<and>
                      e_MarshalCommand env (cmd\<lparr>cmd_Status := ''expired'', cmd_FinishTime := now\<rparr>) = Inr (sf_Data g))
              else map_of (s_Spool st' CommandInFlight) n = Some f)))"

lemma expired_ok_skip:
  assumes "expired_ok env now ns st1 st' m" "map_of (s_Spool st1 CommandInFlight) m = map_of (s_Spool st CommandInFlight) m"
    and "map_of (s_Spool st1 CommandReturned) m = map_of (s_Spool st CommandReturned) m"
    and "m = n \<Longrightarrow> \<not> (\<exists>f cmd. map_of (s_Spool st CommandInFlight) n = Some f \<and> sf_Data f \<noteq> [] \<and>
           CommandFromFile env CommandInFlight n st = Inr cmd \<and> act_ExpireAfter (cmd_Action cmd) < now)"
  shows "expired_ok env now (n # ns) st st' m"
  using assms CommandFromFile_cong [OF assms(2), of env]
  by (auto simp: expired_ok_def split: option.splits)

lemma expire_loop_ok:
  assumes "expire_loop env io now ns st = (st', Inr ())" "well_named env st"
  shows "expired_ok env now ns st st' m"
  using assms
proof (induction ns arbitrary: st)
  case Nil
  then show ?case by (auto simp: expired_ok_def split: option.splits)
next
  case (Cons n ns)
  obtain st1 r where w: "waitForFileOrDelete CommandInFlight n st = (st1, r)" by fastforce
  note spool = wait_spool [OF w]
  have wn1: "well_named env st1"
    by (rule well_named_remove [OF Cons.prems(2)]) (use spool in auto)
  show ?case
  proof (cases "r = Inr ()")
    case False
    with Cons.prems(1) w have "expire_loop env io now ns st1 = (st', Inr ())"
      by (cases r) auto
    note ih = Cons.IH [OF this wn1]
    show ?thesis
    proof (cases "\<exists>f. map_of (s_Spool st CommandInFlight) n = Some f \<and> sf_Data f = [] \<and> m = n")
      case True
      then show ?thesis by (auto simp: expired_ok_def)
    next
      case no: False
      show ?thesis by (rule expired_ok_skip [OF ih]) (use spool no False in auto)
    qed
  next
    case True
    then have same: "map_of (s_Spool st1 d) k = map_of (s_Spool st d) k" for d k using spool by auto
    have cmd_eq: "CommandFromFile env CommandInFlight n st1 = CommandFromFile env CommandInFlight n st"
      by (rule CommandFromFile_cong [OF same])
    show ?thesis
    proof (cases "\<exists>cmd. CommandFromFile env CommandInFlight n st = Inr cmd \<and> act_ExpireAfter (cmd_Action cmd) < now")
      case False
      with Cons.prems(1) w True cmd_eq have "expire_loop env io now ns st1 = (st', Inr ())"
        by (cases "CommandFromFile env CommandInFlight n st") auto
      note ih = Cons.IH [OF this wn1]
      show ?thesis by (rule expired_ok_skip [OF ih]) (use same False in auto)
    next
      case exp: True
      then obtain cmd where cmd: "CommandFromFile env CommandInFlight n st = Inr cmd"
        and late: "act_ExpireAfter (cmd_Action cmd) < now" by blast
      have name: "command_file cmd = n" using Cons.prems(2) cmd by (simp add: well_named_def)
      let ?cmd = "cmd\<lparr>cmd_Status := ''expired'', cmd_FinishTime := now\<rparr>"
      from Cons.prems(1) w True cmd_eq cmd late name obtain data st2
        where data: "e_MarshalCommand env ?cmd = Inr data"
        and sw: "safeWrite io now CommandReturned n data st1 = (st2, Inr ())"
        and rest: "expire_loop env io now ns (spool_remove CommandInFlight n st2) = (st', Inr ())"
        by (auto simp: Let_def split: sum.splits prod.splits)
      from sw have st2: "st2 = set_dir CommandReturned (al_set n \<lparr>sf_Data = data, sf_Mtime = now\<rparr>) st1"
        by (auto elim: safeWrite_cases)
      have wn: "well_named env (spool_remove CommandInFlight n st2)"
        by (rule well_named_remove [OF wn1]) (simp add: st2)
      note ih = Cons.IH [OF rest wn]
      show ?thesis
      proof (cases "m = n")
        case eq: True
        with ih have "map_of (s_Spool st' CommandInFlight) n = None"
          "map_of (s_Spool st' CommandReturned) n = Some \<lparr>sf_Data = data, sf_Mtime = now\<rparr>"
          by (auto simp: expired_ok_def st2)
        with eq cmd late data show ?thesis by (auto simp: expired_ok_def split: option.splits)
          (use spool True in auto)
      next
        case ne: False
        show ?thesis by (rule expired_ok_skip [OF ih]) (use ne same in \<open>auto simp: st2\<close>)
      qed
    qed
  qed
qed

text \<open>
  Expiry moves exactly the expired commands. When \<open>expireCommands\<close> succeeds, the file of a command in
  flight whose action has expired is gone from there and stands, under the same name, among the
  returned commands, with status \<open>expired\<close> and the current time as its finish time; the file of any
  other command in flight is untouched. Files are named after their commands, as \<open>sendCommands\<close> does.
\<close>

theorem expireCommands_moves_expired:
  assumes "expireCommands env io now st = (st', Inr ())" and "well_named env st"
    and "map_of (s_Spool st CommandInFlight) n = Some f" and "sf_Data f \<noteq> []"
    and "CommandFromFile env CommandInFlight n st = Inr cmd"
  shows "if act_ExpireAfter (cmd_Action cmd) < now
    then map_of (s_Spool st' CommandInFlight) n = None \<and>
         (\<exists>g. map_of (s_Spool st' CommandReturned) n = Some g \<and>
            e_MarshalCommand env (cmd\<lparr>cmd_Status := ''expired'', cmd_FinishTime := now\<rparr>) = Inr (sf_Data g))
    else map_of (s_Spool st' CommandInFlight) n = Some f"
proof -
  from assms(1) have "expire_loop env io now (map fst (s_Spool st CommandInFlight)) st = (st', Inr ())"
    by (auto simp: expireCommands_def map_prod_def split: prod.splits)
  from expire_loop_ok [OF this assms(2), of n] assms(3-5)
  show ?thesis by (auto simp: expired_ok_def dest!: map_of_SomeD split: if_splits) (force intro: map_of_SomeD)+
qed

section \<open>Runs of the scheduler\<close>

lemma scheduler_run_refines:
  "(sched_step env)\<^sup>*\<^sup>* st st' \<Longrightarrow> (command_step (e_Json env))\<^sup>*\<^sup>* (s_DB st) (s_DB st')"
  by (induction rule: rtranclp_induct) (auto intro: rtranclp.rtrancl_into_rtrancl sched_step_refines)

text \<open>
  C8. The scheduler implements the table of commands. Whatever the collector, the routines and the other
  users of the database do and in whatever order, a run of the scheduler is, on its database, a run of
  inserts, status changes and finished commands: commands are never lost, moved to another action or
  agent or duplicated, and one that succeeded never changes again.
\<close>

theorem scheduler_refines_commands:
  assumes "(sched_step env)\<^sup>*\<^sup>* st st'" and "good_commands (s_DB st)"
  shows "(command_step (e_Json env))\<^sup>*\<^sup>* (s_DB st) (s_DB st') \<and> good_commands (s_DB st') \<and>
    (\<exists>cs new. t_Commands (s_DB st') = cs @ new \<and> list_all2 command_kept (t_Commands (s_DB st)) cs)"
  using scheduler_run_refines [OF assms(1)] scheduler.run_inv [OF assms]
    scheduler.run_keeps [OF assms] by (auto simp: commands_kept_def)

text \<open>
  A command whose agent has gone offline is never finished. When its expired command comes back from
  \<open>expireCommands\<close>, \<open>returnCommands\<close> removes both of its files before \<open>FinishCommand\<close> is asked to store
  it, and \<open>FinishCommand\<close> refuses because the agent is neither online nor idle: the row still says
  \<open>sent\<close>, nothing in the spool remembers the command, and the counters of its action do not add up to
  completion, in this state and in any later state with the same rows.
\<close>

theorem expired_command_lost:
  assumes "CommandFromFile env CommandReturned n st = Inr cmd" and "command_file cmd = n"
    and "c \<in> set (t_Commands (s_DB st))" and "cr_ID c = cmd_ID cmd" and "cr_Status c = ''sent''"
    and "\<forall>d\<in>set (t_Commands (s_DB st)). cr_ID d = cmd_ID cmd \<longrightarrow>
           (\<forall>g\<in>set (t_Agents (s_DB st)). gr_ID g = cr_AgentID d \<longrightarrow> gr_Status g \<notin> {''online'', ''idle''})"
  shows "let st' = finish_one env (cmd\<lparr>cmd_FinishTime := now\<rparr>) (returnCommands env now [n] st)
    in s_DB st' = s_DB st \<and>
       map_of (s_Spool st' CommandReturned) n = None \<and> map_of (s_Spool st' CommandInFlight) n = None \<and>
       s_CommandDone st' = s_CommandDone st @ [cmd\<lparr>cmd_FinishTime := now\<rparr>] \<and>
       cnt_Done (GetActionCounters (cr_ActionID c) (s_DB st')) <
         cnt_Sent (GetActionCounters (cr_ActionID c) (s_DB st'))"
proof -
  let ?cmd = "cmd\<lparr>cmd_FinishTime := now\<rparr>" and ?st = "returnCommands env now [n] st"
  have st: "s_DB ?st = s_DB st" "map_of (s_Spool ?st CommandReturned) n = None"
    "map_of (s_Spool ?st CommandInFlight) n = None" "s_CommandDone ?st = s_CommandDone st"
    using assms(1,2) by (simp_all add: Let_def spool_remove_def set_dir_def)
  obtain e where "FinishCommand (e_Json env) ?cmd (s_DB st) = (s_DB st, Inl e)"
    using FinishCommand_agent_gone [of "s_DB st" ?cmd "e_Json env"] assms(6) by auto
  moreover have "filter (\<lambda>d. cr_ActionID d = cr_ActionID c \<and> cr_Status d = ''sent'') (t_Commands (s_DB st)) \<noteq> []"
    using assms(3,5) by (auto simp: filter_empty_conv)
  ultimately show ?thesis
    using st GetActionCounters_eq [of "cr_ActionID c" "s_DB st"]
    by (simp add: finish_one_def Let_def StatusSent_def commands_in_def)
qed

section \<open>Witnesses\<close>

definition example_new_action :: action where
  "example_new_action = zero_action\<lparr>act_ID := 1, act_Target := ''all'', act_ValidFrom := 10, act_ExpireAfter := 90\<rparr>"

definition example_sent :: command where
  "example_sent =
     \<lparr>cmd_ID = 6, cmd_Action = example_new_action,
      cmd_Agent = zero_agent\<lparr>agt_ID := 3, agt_Name := ''host'', agt_QueueLoc := ''q'', agt_PID := 7\<rparr>,
      cmd_Status = ''sent'', cmd_Results = [], cmd_StartTime = 0, cmd_FinishTime = 0\<rparr>"

definition example_senv :: "unit sched_env" where
  "example_senv =
     \<lparr>e_Json = example_js, e_MarshalAction = (\<lambda>_. Inr ''{}''), e_UnmarshalAction = (\<lambda>_. Inr example_new_action),
      e_MarshalCommand = (\<lambda>_. Inr ''{}''), e_UnmarshalCommand = (\<lambda>_. Inr example_sent),
      e_Holds = (\<lambda>_ _. Inr True), e_Codec = example_codec,
      e_PGP = \<lparr>armor_Decode = (\<lambda>_. Inr ([], [])), ReadKeyRing = (\<lambda>_. Inr ()),
        CheckDetachedSignature = (\<lambda>_ _ _. Inl (errors_New ''none'')), ReadArmoredKeyRing = (\<lambda>_. Inr []),
        Serialize = (\<lambda>_. Inr []), SerializePrivate = (\<lambda>_. Inr []), armor_Encode = (\<lambda>_. Inr [])\<rparr>\<rparr>"

definition example_sched :: "(spool_dir \<Rightarrow> (string \<times> spool_file) list) \<Rightarrow> sched" where
  "example_sched spool =
     \<lparr>s_DB = example_mdb, s_Spool = spool, s_NewAction = [], s_CommandReady = [], s_CommandReturned = [],
      s_Finishing = [], s_CommandDone = [], s_Published = []\<rparr>"

abbreviation example_file :: spool_file where
  "example_file \<equiv> \<lparr>sf_Data = ''{}'', sf_Mtime = 1\<rparr>"

lemmas example_defs = example_senv_def example_sched_def example_sent_def example_new_action_def example_mdb_def
  example_js_def example_agent_row_def example_action_row_def

lemma example_new_action_from_file:
  "ActionFromFile example_senv ''a'' (example_sched ((\<lambda>_. [])(ActionNew := [(''a'', example_file)]))) =
     Inr example_new_action"
  by (simp add: ActionFromFile_def spool_read_def example_senv_def example_sched_def)

lemma example_targets_all:
  "\<exists>g. ActiveAgentsByTarget example_js (\<lambda>_ _. Inr True) ''all'' example_mdb = Inr [g]"
  by (simp add: ActiveAgentsByTarget_def example_mdb_def example_agent_row_def agent_statuses load_agent_def
      example_js_def wrap_err_def)

lemma example_facts:
  "act_ID example_new_action = 1" "act_ValidFrom example_new_action = 10" "act_ExpireAfter example_new_action = 90"
  "act_Target example_new_action = ''all''" "e_Json example_senv = example_js"
  "e_Holds example_senv = (\<lambda>_ _. Inr True)" "e_MarshalAction example_senv = (\<lambda>_. Inr ''{}'')"
  "s_DB (example_sched spool) = example_mdb" "s_CommandReady (example_sched spool) = []"
  by (simp_all add: example_new_action_def example_senv_def example_sched_def)

lemma example_schedule:
  assumes "act_ID a = 1" "s_DB st = example_mdb"
  shows "snd (schedule_action example_senv (\<lambda>_ _. None) 50 ids ''a'' a [g] st) = Inr ()"
proof -
  have "InsertOrUpdateAction example_js b example_mdb = (UpdateAction b example_mdb, Inr False)" if "act_ID b = 1" for b
    using that by (simp add: InsertOrUpdateAction_def row_def example_mdb_def example_action_row_def)
  then show ?thesis
    using assms by (simp add: schedule_action_def example_facts flyAction_def safeWrite_def Let_def)
qed

theorem processNewAction_outcome_witness:
  "\<exists>st' c. processNewAction example_senv (\<lambda>_ _. None) 50 9 (\<lambda>k. 20) ''a''
       (example_sched ((\<lambda>_. [])(ActionNew := [(''a'', example_file)]))) = (st', Inr ()) \<and>
     s_CommandReady st' = [c] \<and> cmd_Status c = ''sent'' \<and> cmd_ID c = 20"
proof -
  let ?st = "example_sched ((\<lambda>_. [])(ActionNew := [(''a'', example_file)]))"
  obtain g where g: "ActiveAgentsByTarget example_js (\<lambda>_ _. Inr True) ''all'' example_mdb = Inr [g]"
    using example_targets_all by blast
  have "snd (processNewAction example_senv (\<lambda>_ _. None) 50 9 (\<lambda>k. 20) ''a'' ?st) = Inr ()"
    using g unfolding processNewAction_def example_new_action_from_file
    by (simp add: start_action_def example_facts Let_def example_schedule)
  then obtain st' where p: "processNewAction example_senv (\<lambda>_ _. None) 50 9 (\<lambda>k. 20) ''a'' ?st = (st', Inr ())"
    by (metis prod.collapse)
  have "\<exists>c. s_CommandReady st' = [c] \<and> cmd_Status c = ''sent'' \<and> cmd_ID c = 20"
    using processNewAction_outcome [OF p] g
    by (auto simp: example_new_action_from_file Let_def example_facts map_eq_Cons_conv)
  with p show ?thesis by blast
qed


definition example_landing :: sched where
  "example_landing =
     example_sched ((\<lambda>_. [])(ActionInFlight := [(action_file 1, example_file)]))\<lparr>s_DB :=
       example_mdb\<lparr>t_Commands := map (\<lambda>c. c\<lparr>cr_Status := ''success''\<rparr>) (t_Commands example_mdb)\<rparr>\<rparr>"

theorem updateAction_completes_exactly_witness:
  "\<exists>st'. updateAction example_senv (\<lambda>_ _. None) 60 [example_sent] example_landing = (st', Inr ()) \<and>
     (\<forall>r\<in>set (rows_of 1 (s_DB st')). ar_Status r = ''completed'') \<and>
     map_of (s_Spool st' ActionInFlight) (action_file 1) = None"
proof -
  have act: "act_ID (cmd_Action example_sent) = 1" by (simp add: example_sent_def example_new_action_def)
  have "\<exists>a. collect_actions (s_DB example_landing) 60 [example_sent] [] = Inr [(1, a)] \<and> act_ID a = 1"
    by (simp add: act example_landing_def ActionMetaByID_def row_def example_mdb_def example_action_row_def
        wrap_err_def)
  then obtain a where a: "collect_actions (s_DB example_landing) 60 [example_sent] [] = Inr [(1, a)]" "act_ID a = 1"
    by blast
  have all_done: "filter (\<lambda>c. cr_ActionID c = 1 \<and> cr_Status c = ''sent'') (t_Commands (s_DB example_landing)) = []"
    by (simp add: example_landing_def example_mdb_def)
  then have "snd (updateAction example_senv (\<lambda>_ _. None) 60 [example_sent] example_landing) = Inr ()"
    using GetActionCounters_complete [of 1 "s_DB example_landing"] a
    by (simp add: updateAction_def Let_def landAction_def example_facts safeWrite_def StatusSent_def)
  then obtain st' where u: "updateAction example_senv (\<lambda>_ _. None) 60 [example_sent] example_landing = (st', Inr ())"
    by (metis prod.collapse)
  from updateAction_completes_exactly [OF u _ act [symmetric]] u all_done show ?thesis by simp
qed

lemma example_sent_file:
  "CommandFromFile example_senv d n (example_sched ((\<lambda>_. [])(d := [(n, example_file)]))) = Inr example_sent"
  by (simp add: CommandFromFile_def CmdFromFile_Inr spool_read_def example_sched_def example_senv_def example_sent_def)

theorem expireCommands_moves_expired_witness:
  "\<exists>st'. expireCommands example_senv (\<lambda>_ _. None) 100
       (example_sched ((\<lambda>_. [])(CommandInFlight := [(command_file example_sent, example_file)]))) = (st', Inr ()) \<and>
     map_of (s_Spool st' CommandInFlight) (command_file example_sent) = None \<and>
     map_of (s_Spool st' CommandReturned) (command_file example_sent) \<noteq> None"
proof -
  let ?n = "command_file example_sent"
  let ?st = "example_sched ((\<lambda>_. [])(CommandInFlight := [(?n, example_file)]))"
  have files: "s_Spool ?st CommandInFlight = [(?n, example_file)]" by (simp add: example_sched_def)
  have late: "act_ExpireAfter (cmd_Action example_sent) < 100" by (simp add: example_sent_def example_new_action_def)
  have marshal: "e_MarshalCommand example_senv = (\<lambda>_. Inr ''{}'')" by (simp add: example_senv_def)
  have wait: "waitForFileOrDelete CommandInFlight ?n ?st = (?st, Inr ())"
    by (simp add: waitForFileOrDelete_def spool_read_def files)
  have "snd (expireCommands example_senv (\<lambda>_ _. None) 100 ?st) = Inr ()"
    using late by (simp add: expireCommands_def files wait example_sent_file Let_def marshal safeWrite_def)
  then obtain st' where e: "expireCommands example_senv (\<lambda>_ _. None) 100 ?st = (st', Inr ())"
    by (metis prod.collapse)
  have wn: "well_named example_senv ?st"
    unfolding well_named_def
  proof (intro allI impI)
    fix m cmd
    assume c: "CommandFromFile example_senv CommandInFlight m ?st = Inr cmd"
    then have "m = ?n" using CommandFromFile_None [of ?st CommandInFlight m example_senv]
      by (cases "m = ?n") (simp_all add: files)
    with c show "command_file cmd = m" by (simp add: example_sent_file)
  qed
  from expireCommands_moves_expired [OF e wn _ _ example_sent_file] late e show ?thesis
    by (auto simp: files)
qed

definition example_lost :: sched where
  "example_lost =
     example_sched ((\<lambda>_. [])(CommandReturned := [(command_file example_sent, example_file)]))\<lparr>s_DB :=
       example_mdb\<lparr>t_Agents := map (\<lambda>g. g\<lparr>gr_Status := ''offline''\<rparr>) (t_Agents example_mdb)\<rparr>\<rparr>"

theorem expired_command_lost_witness:
  "cnt_Done (GetActionCounters 1 (s_DB (finish_one example_senv (example_sent\<lparr>cmd_FinishTime := 100\<rparr>)
       (returnCommands example_senv 100 [command_file example_sent] example_lost)))) <
   cnt_Sent (GetActionCounters 1 (s_DB (finish_one example_senv (example_sent\<lparr>cmd_FinishTime := 100\<rparr>)
       (returnCommands example_senv 100 [command_file example_sent] example_lost))))"
proof -
  have r: "CommandFromFile example_senv CommandReturned (command_file example_sent) example_lost = Inr example_sent"
    by (simp add: CommandFromFile_def CmdFromFile_Inr spool_read_def example_lost_def example_sched_def
        example_senv_def) (simp add: example_sent_def)
  let ?c = "last (t_Commands example_mdb)"
  have c: "?c \<in> set (t_Commands (s_DB example_lost))" "cr_ID ?c = cmd_ID example_sent" "cr_Status ?c = ''sent''"
    "cr_ActionID ?c = 1"
    by (simp_all add: example_lost_def example_mdb_def example_sent_def)
  have gone: "\<forall>d\<in>set (t_Commands (s_DB example_lost)). cr_ID d = cmd_ID example_sent \<longrightarrow>
      (\<forall>g\<in>set (t_Agents (s_DB example_lost)). gr_ID g = cr_AgentID d \<longrightarrow> gr_Status g \<notin> {''online'', ''idle''})"
    by (simp add: example_lost_def)
  from expired_command_lost [OF r refl c(1-3) gone, of 100] show ?thesis unfolding Let_def c(4) by (elim conjE)
qed

theorem scheduler_refines_commands_witness:
  "\<exists>st'. (sched_step example_senv)\<^sup>*\<^sup>* (example_sched (\<lambda>_. [])) st' \<and> s_CommandReady st' = [] \<and>
     good_commands (s_DB st')"
proof -
  let ?st = "example_sched (\<lambda>_. [])"
  let ?st' = "receive_result (\<lambda>_ _. None) 50 8 ''{.........}'' ?st"
  have run: "(sched_step example_senv)\<^sup>*\<^sup>* ?st ?st'"
    by (rule r_into_rtranclp, rule sched_step.result) simp
  have good: "good_commands (s_DB ?st)" using example_good_commands by (simp add: example_facts)
  have "s_CommandReady ?st' = []" by (simp add: receive_result_def safeWrite_def set_dir_def example_sched_def)
  with scheduler_refines_commands [OF run good] run show ?thesis by blast
qed

end
