(* ===== verification/Modules.thy ===== *)
theory Modules
  imports AgentTypes
begin

text \<open>
  The interface between the agent and its modules (\<open>modules/modules.go\<close>): the messages, their framing
  in lines, and the requests to persistent modules.

  A stream is the string of the bytes that are still to be read; end of file is reported alone, after
  the last bytes, as pipes and sockets do. A writer is a function that tells how many bytes its \<open>k\<close>-th
  call takes and whether it fails.
\<close>

section \<open>Messages\<close>

record message =
  msg_Class :: string
  msg_Parameters :: json
  msg_PersistSock :: string

definition MsgClassParameters :: string where "MsgClassParameters = ''parameters''"
definition MsgClassStop :: string where "MsgClassStop = ''stop''"
definition MsgClassPing :: string where "MsgClassPing = ''ping''"
definition MsgClassLog :: string where "MsgClassLog = ''log''"
definition MsgClassRegister :: string where "MsgClassRegister = ''register''"
definition MsgClassConfig :: string where "MsgClassConfig = ''config''"
definition MsgClassAlert :: string where "MsgClassAlert = ''alert''"

lemmas message_classes = MsgClassParameters_def MsgClassStop_def MsgClassPing_def MsgClassLog_def
  MsgClassRegister_def MsgClassConfig_def MsgClassAlert_def

text \<open>
  The fields with their JSON names; \<open>omitempty\<close> drops a nil interface and an empty string. Decoding
  matches names without regard to case, a \<open>null\<close> leaves a string as it is, a value of another type is
  an error.
\<close>

definition message_json :: "message \<Rightarrow> json" where
  "message_json m =
     JObj ([(''class'', JStr (msg_Class m))] @
           (if msg_Parameters m = JNull then [] else [(''parameters'', msg_Parameters m)]) @
           (if msg_PersistSock m = [] then [] else [(''persistsock'', JStr (msg_PersistSock m))]))"

definition decode_string :: "json \<Rightarrow> string \<Rightarrow> string result" where
  "decode_string v old =
     (case v of JStr s \<Rightarrow> Inr s | JNull \<Rightarrow> Inr old
      | _ \<Rightarrow> Inl (errors_New ''json: cannot unmarshal value into Go value of type string''))"

definition decode_field :: "message \<Rightarrow> string \<times> json \<Rightarrow> message result" where
  "decode_field m kv =
     (case kv of (k, v) \<Rightarrow>
        if ToLower k = ''class'' then and_then (decode_string v (msg_Class m)) (\<lambda>s. Inr (m\<lparr>msg_Class := s\<rparr>))
        else if ToLower k = ''parameters'' then Inr (m\<lparr>msg_Parameters := v\<rparr>)
        else if ToLower k = ''persistsock''
        then and_then (decode_string v (msg_PersistSock m)) (\<lambda>s. Inr (m\<lparr>msg_PersistSock := s\<rparr>))
        else Inr m)"

definition zero_message :: message where
  "zero_message = \<lparr>msg_Class = [], msg_Parameters = JNull, msg_PersistSock = []\<rparr>"

definition decode_message :: "json \<Rightarrow> message result" where
  "decode_message v =
     (case v of
        JObj fs \<Rightarrow> fold_res decode_field zero_message fs
      | JNull \<Rightarrow> Inr zero_message
      | _ \<Rightarrow> Inl (errors_New ''json: cannot unmarshal value into Go value of type modules.Message''))"

definition MakeMessage :: "codec \<Rightarrow> string \<Rightarrow> json \<Rightarrow> bool \<Rightarrow> string result" where
  "MakeMessage cd cls params isCompressed =
     (case and_then (if isCompressed then decompress_json cd params else Inr params) (\<lambda>p.
             json_Marshal cd (message_json \<lparr>msg_Class = cls, msg_Parameters = p, msg_PersistSock = []\<rparr>)) of
        Inl e \<Rightarrow> Inl (Errorf ''Failed to make modules.Message: %v'' [AErr e])
      | Inr rawMsg \<Rightarrow> Inr rawMsg)"

definition make_message_of :: "codec \<Rightarrow> string \<Rightarrow> string \<Rightarrow> json \<Rightarrow> string result" where
  "make_message_of cd what cls params =
     (case json_Marshal cd (message_json \<lparr>msg_Class = cls, msg_Parameters = params, msg_PersistSock = []\<rparr>) of
        Inl e \<Rightarrow> Inl (Errorf (''Failed to make module '' @ what @ '' message: %v'') [AErr e])
      | Inr rawMsg \<Rightarrow> Inr rawMsg)"

text \<open>The text of a log or alert message is what \<open>fmt.Sprintf\<close> made of the arguments.\<close>

definition MakeMessageLog :: "codec \<Rightarrow> string \<Rightarrow> string result" where
  "MakeMessageLog cd txt = make_message_of cd ''log'' MsgClassLog (JObj [(''message'', JStr txt)])"

definition MakeMessageRegister :: "codec \<Rightarrow> string \<Rightarrow> string result" where
  "MakeMessageRegister cd spec = make_message_of cd ''register'' MsgClassRegister (JObj [(''sockpath'', JStr spec)])"

definition MakeMessageConfig :: "codec \<Rightarrow> json \<Rightarrow> string \<Rightarrow> json \<Rightarrow> json \<Rightarrow> string result" where
  "MakeMessageConfig cd cfgdata hostname env tags =
     make_message_of cd ''config'' MsgClassConfig
       (JObj [(''config'', cfgdata), (''hostname'', JStr hostname), (''environment'', env), (''tags'', tags)])"

definition MakeMessageAlert :: "codec \<Rightarrow> string \<Rightarrow> string result" where
  "MakeMessageAlert cd txt = make_message_of cd ''alert'' MsgClassAlert (JObj [(''message'', JStr txt)])"

section \<open>Lines\<close>

text \<open>
  \<open>bufio.Reader.ReadLine\<close> with a buffer of \<open>bufSize\<close> bytes: a line, whether it is only the beginning of
  one, and the rest of the input; \<open>None\<close> is \<open>io.EOF\<close>. A carriage return that ends a full buffer is put
  back, as it may belong to the end of the line.
\<close>

definition bufSize :: nat where "bufSize = 4096"

definition ReadLine :: "string \<Rightarrow> (string \<times> bool \<times> string) option" where
  "ReadLine s =
     (if s = [] then None
      else if newline \<in> set (take bufSize s)
      then (let l = takeWhile (\<lambda>c. c \<noteq> newline) s in Some (drop_cr l, False, drop (Suc (length l)) s))
      else if bufSize \<le> length s
      then (if s ! (bufSize - 1) = carriage
            then Some (take (bufSize - 1) s, True, drop (bufSize - 1) s)
            else Some (take bufSize s, True, drop bufSize s))
      else Some (s, False, []))"

lemma ReadLine_shorter: "ReadLine s = Some (l, p, rest) \<Longrightarrow> length rest < length s"
  by (auto simp: ReadLine_def Let_def bufSize_def split: if_splits)

text \<open>\<open>readInputLine\<close>: what was read, whether without an error, and the rest.\<close>

function readInputLine :: "string \<Rightarrow> string \<times> bool \<times> string" where
  "readInputLine s =
     (case ReadLine s of
        None \<Rightarrow> ([], False, [])
      | Some (lb, isPrefix, rest) \<Rightarrow>
          if isPrefix then (case readInputLine rest of (ret, ok, rest') \<Rightarrow> (lb @ ret, ok, rest'))
          else (lb, True, rest))"
  by auto
termination
  by (relation "measure length") (auto dest: ReadLine_shorter)

declare readInputLine.simps [simp del]

definition ReadInput :: "codec \<Rightarrow> string \<Rightarrow> message result \<times> string" where
  "ReadInput cd s =
     (case readInputLine s of (linebuffer, ok, rest) \<Rightarrow>
        (recovered ''ReadInput''
           (if \<not> ok then Inl (errors_New ''EOF'')
            else and_then (json_Unmarshal cd linebuffer) decode_message), rest))"

text \<open>\<open>ReadInputParameters\<close>: \<open>decode\<close> stands for the type of the parameters.\<close>

definition ReadInputParameters :: "codec \<Rightarrow> (json \<Rightarrow> 'p result) \<Rightarrow> string \<Rightarrow> 'p result \<times> string" where
  "ReadInputParameters cd decode s =
     (case ReadInput cd s of (r, rest) \<Rightarrow>
        (recovered ''ReadInputParameters''
           (and_then r (\<lambda>msg.
              if msg_Class msg \<noteq> MsgClassParameters
              then Inl (errors_New ''unexpected input is not module parameters'')
              else and_then (json_Marshal cd (msg_Parameters msg)) (\<lambda>raw. and_then (json_Unmarshal cd raw) decode))), rest))"

definition ReadPersistInputParameters ::
  "codec \<Rightarrow> (json \<Rightarrow> 'p result) \<Rightarrow> string \<Rightarrow> (string \<times> 'p) result \<times> string" where
  "ReadPersistInputParameters cd decode s =
     (case ReadInput cd s of (r, rest) \<Rightarrow>
        (recovered ''ReadPersistInputParameters''
           (and_then r (\<lambda>msg.
              if msg_Class msg \<noteq> MsgClassParameters
              then Inl (errors_New ''unexpected input is not module parameters'')
              else if msg_PersistSock msg = [] then Inl (errors_New ''no persistsock set in message'')
              else and_then (json_Marshal cd (msg_Parameters msg)) (\<lambda>raw.
                     and_then (and_then (json_Unmarshal cd raw) decode) (\<lambda>p. Inr (msg_PersistSock msg, p))))), rest))"

section \<open>Writing\<close>

type_synonym writer = "nat \<Rightarrow> string \<Rightarrow> nat \<times> go_error option"

text \<open>
  The loop of \<open>WriteOutput\<close>: what reached the other side, and the outcome. A writer that takes nothing
  and reports no error keeps it going for ever; one that claims more bytes than it got makes the
  slice expression panic.
\<close>

partial_function (option) write_loop :: "writer \<Rightarrow> nat \<Rightarrow> string \<Rightarrow> string \<Rightarrow> (string \<times> unit result) option" where
  "write_loop w k buf out =
     (if buf = [] then Some (out, Inr ())
      else (case w k buf of
              (nb, Some e) \<Rightarrow> Some (out @ take nb buf, Inl e)
            | (nb, None) \<Rightarrow>
                if length buf < nb
                then Some (out @ buf, recovered ''WriteOutput'' (Inl (errors_New ''slice bounds out of range'')))
                else write_loop w (Suc k) (drop nb buf) (out @ take nb buf)))"

definition WriteOutput :: "writer \<Rightarrow> string \<Rightarrow> (string \<times> unit result) option" where
  "WriteOutput w buf = write_loop w 0 (buf @ [newline]) []"

section \<open>Stop messages\<close>

lemma readInputLine_shorter: "readInputLine s = (l, True, rest) \<Longrightarrow> length rest < length s"
proof (induction s arbitrary: l rest rule: length_induct)
  case (1 s)
  from "1.prems" show ?case
    by (subst (asm) readInputLine.simps)
      (auto split: option.splits if_splits prod.splits dest: ReadLine_shorter intro: less_trans dest!: "1.IH" [rule_format])
qed

lemma ReadInput_shorter: "ReadInput cd s = (Inr m, rest) \<Longrightarrow> length rest < length s"
  by (auto simp: ReadInput_def split: prod.splits if_splits dest: readInputLine_shorter)

text \<open>\<open>WatchForStop\<close> ends at the first stop message, with \<open>True\<close>, or at the first error.\<close>

function WatchForStop :: "codec \<Rightarrow> string \<Rightarrow> bool \<times> string" where
  "WatchForStop cd s =
     (case ReadInput cd s of
        (Inl _, rest) \<Rightarrow> (False, rest)
      | (Inr msg, rest) \<Rightarrow> if msg_Class msg = MsgClassStop then (True, rest) else WatchForStop cd rest)"
  by auto
termination
  by (relation "measure (\<lambda>(cd, s). length s)") (auto dest!: ReadInput_shorter [OF sym])

declare WatchForStop.simps [simp del]

section \<open>Persistent modules\<close>

text \<open>What \<open>DefaultPersistHandlers\<close> waits for, and what it has done so far.\<close>

datatype persist_event = EvError string | EvAlert string | EvLog string | EvRegister string
  | EvMessage message | EvClosed

record persist_state =
  ps_Written :: "string list"
  ps_Config :: "json list"
  ps_Dispatched :: "string list"

text \<open>
  One turn of the loop, and whether the loop goes on: \<open>wr\<close> tells which messages can be written,
  \<open>dispatch\<close> whether a dispatch function is registered, \<open>cfg\<close> and \<open>alert\<close> decode parameters.
\<close>

definition emit :: "(string \<Rightarrow> bool) \<Rightarrow> string result \<Rightarrow> persist_state \<Rightarrow> persist_state \<times> bool" where
  "emit wr r st =
     (case r of Inl _ \<Rightarrow> (st, False)
      | Inr m \<Rightarrow> if wr m then (st\<lparr>ps_Written := ps_Written st @ [m]\<rparr>, True) else (st, False))"

definition redecode :: "codec \<Rightarrow> (json \<Rightarrow> 'a result) \<Rightarrow> json \<Rightarrow> 'a result" where
  "redecode cd decode v = and_then (json_Marshal cd v) (\<lambda>buf. and_then (json_Unmarshal cd buf) decode)"

definition persist_turn ::
  "codec \<Rightarrow> (string \<Rightarrow> bool) \<Rightarrow> bool \<Rightarrow> (json \<Rightarrow> json result) \<Rightarrow> (json \<Rightarrow> string result) \<Rightarrow> persist_event \<Rightarrow>
     persist_state \<Rightarrow> persist_state \<times> bool" where
  "persist_turn cd wr dispatch cfg alert ev st =
     (case ev of
        EvError em \<Rightarrow> (fst (emit wr (MakeMessageLog cd em) st), False)
      | EvAlert s \<Rightarrow> emit wr (MakeMessageAlert cd s) st
      | EvLog s \<Rightarrow> emit wr (MakeMessageLog cd s) st
      | EvRegister r \<Rightarrow> emit wr (MakeMessageRegister cd r) st
      | EvClosed \<Rightarrow> (st, False)
      | EvMessage msg \<Rightarrow>
          if msg_Class msg = ''ping'' then emit wr (json_Marshal cd (message_json msg)) st
          else if msg_Class msg = ''config''
          then (case redecode cd cfg (msg_Parameters msg) of
                  Inl _ \<Rightarrow> (st, False)
                | Inr c \<Rightarrow> (st\<lparr>ps_Config := ps_Config st @ [c]\<rparr>, True))
          else if msg_Class msg = ''alert'' \<and> dispatch
          then (case redecode cd alert (msg_Parameters msg) of
                  Inl _ \<Rightarrow> (st, False)
                | Inr a \<Rightarrow> (st\<lparr>ps_Dispatched := ps_Dispatched st @ [a]\<rparr>, True))
          else (st, True))"

fun DefaultPersistHandlers ::
  "codec \<Rightarrow> (string \<Rightarrow> bool) \<Rightarrow> bool \<Rightarrow> (json \<Rightarrow> json result) \<Rightarrow> (json \<Rightarrow> string result) \<Rightarrow> persist_event list \<Rightarrow>
     persist_state \<Rightarrow> persist_state \<times> bool" where
  "DefaultPersistHandlers cd wr dispatch cfg alert [] st = (st, True)"
| "DefaultPersistHandlers cd wr dispatch cfg alert (ev # evs) st =
     (case persist_turn cd wr dispatch cfg alert ev st of
        (st', True) \<Rightarrow> DefaultPersistHandlers cd wr dispatch cfg alert evs st'
      | (st', False) \<Rightarrow> (st', False))"

text \<open>
  \<open>HandlePersistRequest\<close>, one connection: what is written to it, with the outcome of the writes, or the
  error passed to the module.
\<close>

definition HandlePersistRequest ::
  "codec \<Rightarrow> (json \<Rightarrow> string) \<Rightarrow> writer \<Rightarrow> string \<Rightarrow> (string option) result" where
  "HandlePersistRequest cd f w request =
     (case ReadInputParameters cd Inr request of
        (Inl e, _) \<Rightarrow> Inl e
      | (Inr p, _) \<Rightarrow> Inr (map_option fst (WriteOutput w (f p))))"

text \<open>The socket specification of \<open>SendPersistRequest\<close>: the family and the address to dial.\<close>

definition parse_sockspec :: "string \<Rightarrow> (string \<times> string) result" where
  "parse_sockspec sockspec =
     (let args = Split sockspec CHR '':''
      in if length args < 1 \<or> 3 < length args
         then Inl (errors_New ''invalid socket specification for request'')
         else if hd args = ''unix''
         then (if length args \<noteq> 2 then Inl (errors_New ''invalid socket specification for unix connection'')
               else Inr (''unix'', args ! 1))
         else if hd args = ''tcp''
         then (if length args \<noteq> 3 then Inl (errors_New ''invalid socket specification for tcp connection'')
               else Inr (''tcp'', Join (tl args) '':''))
         else Inl (errors_New ''socket specification had invalid address family''))"

text \<open>
  \<open>SendPersistRequest\<close>: \<open>dial\<close> connects, takes the request and gives what the other side writes until it
  closes the connection; \<open>failure\<close> is the marshalled result that carries an error.
\<close>

definition SendPersistRequest ::
  "codec \<Rightarrow> (string \<times> string \<Rightarrow> string \<Rightarrow> string result) \<Rightarrow> (go_error \<Rightarrow> string) \<Rightarrow> json \<Rightarrow> string \<Rightarrow> string" where
  "SendPersistRequest cd dial failure p sockspec =
     (case and_then (parse_sockspec sockspec) (\<lambda>addr.
             and_then (MakeMessage cd MsgClassParameters p False) (\<lambda>buf. dial addr (buf @ [newline]))) of
        Inl e \<Rightarrow> failure e
      | Inr res \<Rightarrow> res)"

text \<open>The specification that \<open>GetPersistListener\<close> returns, where there is one; \<open>spath\<close> is the joined path.\<close>

definition GetPersistListener :: "string \<Rightarrow> string \<Rightarrow> string result" where
  "GetPersistListener goos spath =
     (if goos = ''darwin'' \<or> goos = ''linux'' then Inr (''unix:'' @ spath)
      else Inl (errors_New ''persistent listener not available for this platform''))"

text \<open>\<open>GetElements\<close> and \<open>GetStatistics\<close> of a result.\<close>

definition GetElements :: "codec \<Rightarrow> (json \<Rightarrow> 'a result) \<Rightarrow> module_result \<Rightarrow> 'a result" where
  "GetElements cd decode r = recovered ''GetElements'' (redecode cd decode (res_Elements r))"

definition GetStatistics :: "codec \<Rightarrow> (json \<Rightarrow> 'a result) \<Rightarrow> module_result \<Rightarrow> 'a result" where
  "GetStatistics cd decode r = recovered ''GetStatistics'' (redecode cd decode (res_Statistics r))"

section \<open>Lines and messages\<close>

lemma drop_cr_append: "ys \<noteq> [] \<Longrightarrow> drop_cr (xs @ ys) = xs @ drop_cr ys"
  by (simp add: drop_cr_def butlast_append)

lemma ReadLine_short:
  assumes "newline \<notin> set l" "length l < bufSize"
  shows "ReadLine (l @ newline # rest) = Some (drop_cr l, False, rest)"
proof -
  have "takeWhile (\<lambda>c. c \<noteq> newline) (l @ newline # rest) = l" using assms(1) by (induction l) auto
  moreover obtain m where "bufSize - length l = Suc m" using assms(2) by (metis Suc_diff_Suc)
  then have "newline \<in> set (take bufSize (l @ newline # rest))" by simp
  ultimately show ?thesis by (simp add: ReadLine_def Let_def)
qed

lemma ReadLine_long:
  assumes "newline \<notin> set l" "bufSize \<le> length l"
  shows "\<exists>n. 0 < n \<and> n \<le> length l \<and> (n = length l \<longrightarrow> drop_cr l = l) \<and>
    ReadLine (l @ r) = Some (take n l, True, drop n l @ r)"
proof -
  have nl: "newline \<notin> set (take bufSize (l @ r))"
    using assms by (auto dest: in_set_takeD)
  have last: "last l = l ! (bufSize - 1)" if "bufSize = length l"
    using that by (cases "l = []") (simp_all add: last_conv_nth bufSize_def)
  show ?thesis
  proof (cases "l ! (bufSize - 1) = carriage")
    case True
    with assms nl show ?thesis
      by (intro exI [of _ "bufSize - 1"]) (auto simp: ReadLine_def nth_append bufSize_def)
  next
    case False
    with assms nl last show ?thesis
      by (intro exI [of _ bufSize]) (auto simp: ReadLine_def nth_append bufSize_def drop_cr_def)
  qed
qed

text \<open>A line of any length is read whole, without its newline and one carriage return before it.\<close>

lemma readInputLine_line:
  "newline \<notin> set l \<Longrightarrow> readInputLine (l @ newline # rest) = (drop_cr l, True, rest)"
proof (induction l rule: length_induct)
  case (1 l)
  show ?case
  proof (cases "length l < bufSize")
    case True
    with 1 show ?thesis by (subst readInputLine.simps) (simp add: ReadLine_short)
  next
    case False
    with "1.prems" ReadLine_long [of l "newline # rest"] obtain n where n: "0 < n" "n \<le> length l"
      "n = length l \<longrightarrow> drop_cr l = l"
      "ReadLine (l @ newline # rest) = Some (take n l, True, drop n l @ newline # rest)" by auto
    from n(1,2) have "length (drop n l) < length l" by auto
    moreover have "newline \<notin> set (drop n l)" using "1.prems" by (blast dest: in_set_dropD)
    ultimately have "readInputLine (drop n l @ newline # rest) = (drop_cr (drop n l), True, rest)"
      using "1.IH" by blast
    moreover have "take n l @ drop_cr (drop n l) = drop_cr l"
    proof (cases "n = length l")
      case True
      with n(3) show ?thesis by (simp add: drop_cr_def)
    next
      case False
      with n(2) have "drop n l \<noteq> []" by auto
      with drop_cr_append [of "drop n l" "take n l"] show ?thesis by simp
    qed
    ultimately show ?thesis using n(4) by (subst readInputLine.simps) simp
  qed
qed

text \<open>
  Input without a newline is an error when its length is a multiple of the size of the buffer: the
  end of the file is seen only by the next call.
\<close>

lemma readInputLine_unterminated:
  "newline \<notin> set s \<Longrightarrow> carriage \<notin> set s \<Longrightarrow> length s = k * bufSize \<Longrightarrow> readInputLine s = (s, False, [])"
proof (induction k arbitrary: s)
  case 0
  then show ?case by (subst readInputLine.simps) (simp add: ReadLine_def)
next
  case (Suc k)
  let ?n = bufSize
  have len: "?n \<le> length s" "s \<noteq> []" using Suc.prems(3) by (auto simp: bufSize_def)
  have "s ! (?n - 1) \<in> set s" using len by (intro nth_mem) (auto simp: bufSize_def)
  with Suc.prems len have "ReadLine s = Some (take ?n s, True, drop ?n s)"
    by (auto simp: ReadLine_def dest: in_set_takeD)
  moreover have "readInputLine (drop ?n s) = (drop ?n s, False, [])"
    using Suc.prems by (intro Suc.IH) (auto dest: in_set_dropD)
  ultimately show ?case by (subst readInputLine.simps) simp
qed

text \<open>What \<open>encoding/json\<close> documents of compact output: control characters are escaped.\<close>

definition marshal_line :: "codec \<Rightarrow> bool" where
  "marshal_line cd \<longleftrightarrow> (\<forall>v s. json_Marshal cd v = Inr s \<longrightarrow> newline \<notin> set s \<and> carriage \<notin> set s)"

lemma drop_cr_id: "carriage \<notin> set s \<Longrightarrow> drop_cr s = s"
  by (auto simp: drop_cr_def dest: last_in_set)

lemma field_names [simp]:
  "ToLower ''class'' = ''class''" "ToLower ''parameters'' = ''parameters''" "ToLower ''persistsock'' = ''persistsock''"
  by code_simp+

lemma decode_message_json [simp]: "decode_message (message_json m) = Inr m"
  by (cases m) (auto simp: decode_message_def message_json_def decode_field_def decode_string_def zero_message_def)

lemma ReadInput_message:
  assumes "codec_lossless cd" "marshal_line cd" "json_Marshal cd (message_json m) = Inr raw"
  shows "ReadInput cd (raw @ newline # rest) = (Inr m, rest)"
  using assms readInputLine_line [of raw rest]
  by (auto simp: ReadInput_def codec_lossless_def marshal_line_def drop_cr_id)

section \<open>Writers\<close>

text \<open>The contract of \<open>io.Writer\<close>, of which the loop needs that a call without an error makes progress.\<close>

definition writer_ok :: "writer \<Rightarrow> bool" where
  "writer_ok w \<longleftrightarrow> (\<forall>k buf. buf \<noteq> [] \<longrightarrow> fst (w k buf) \<le> length buf \<and> (snd (w k buf) = None \<longrightarrow> 0 < fst (w k buf)))"

lemma write_loop_returns:
  assumes "writer_ok w"
  shows "\<exists>sent r. write_loop w k buf out = Some (out @ sent, r) \<and> prefix sent buf \<and> (r = Inr () \<longleftrightarrow> sent = buf \<and> is_ok r) \<and>
    ((\<forall>k b. snd (w k b) = None) \<longrightarrow> r = Inr ())"
proof (induction buf arbitrary: k out rule: length_induct)
  case (1 buf)
  show ?case
  proof (cases "buf = []")
    case True
    then show ?thesis by (subst write_loop.simps) simp
  next
    case False
    obtain nb e where w: "w k buf = (nb, e)" by fastforce
    with assms False have nb: "nb \<le> length buf" "e = None \<longrightarrow> 0 < nb"
      by (auto simp: writer_ok_def dest!: spec [of _ k] spec [of _ buf])
    show ?thesis
    proof (cases e)
      case (Some err)
      moreover from Some w have "\<not> (\<forall>k b. snd (w k b) = None)" by (metis option.distinct(1) snd_conv)
      ultimately show ?thesis using False w by (subst write_loop.simps) (auto simp: take_is_prefix)
    next
      case None
      with nb False have "length (drop nb buf) < length buf" by auto
      from "1.IH" [rule_format, OF this, of "Suc k" "out @ take nb buf"] obtain sent r
        where ih: "write_loop w (Suc k) (drop nb buf) (out @ take nb buf) = Some ((out @ take nb buf) @ sent, r)"
          "prefix sent (drop nb buf)" "r = Inr () \<longleftrightarrow> sent = drop nb buf \<and> is_ok r"
          "(\<forall>k b. snd (w k b) = None) \<longrightarrow> r = Inr ()" by blast
      have split: "take nb buf @ sent = buf \<longleftrightarrow> sent = drop nb buf"
        by (metis append_take_drop_id same_append_eq)
      have "prefix (take nb buf @ sent) buf" using ih(2) by (metis append_take_drop_id same_prefix_prefix)
      with ih False w None nb split show ?thesis
        by (subst write_loop.simps) (auto intro!: exI [of _ "take nb buf @ sent"])
    qed
  qed
qed

lemma stuck_writer:
  assumes "write_loop w k buf out = Some y"
  shows "(\<forall>k b. w k b = (0, None)) \<longrightarrow> buf = []"
proof (rule write_loop.raw_induct [where P = "\<lambda>w k buf out y. (\<forall>k b. w k b = (0, None)) \<longrightarrow> buf = []", OF _ assms])
  fix f :: "writer \<Rightarrow> nat \<Rightarrow> string \<Rightarrow> string \<Rightarrow> (string \<times> unit result) option"
  fix w :: writer and k buf out y
  assume ih: "\<And>w k buf out y. f w k buf out = Some y \<Longrightarrow> (\<forall>k b. w k b = (0, None)) \<longrightarrow> buf = []"
    and step: "(if buf = [] then Some (out, Inr ())
      else (case w k buf of
              (nb, Some e) \<Rightarrow> Some (out @ take nb buf, Inl e)
            | (nb, None) \<Rightarrow>
                if length buf < nb
                then Some (out @ buf, recovered ''WriteOutput'' (Inl (errors_New ''slice bounds out of range'')))
                else f w (Suc k) (drop nb buf) (out @ take nb buf))) = Some y"
  show "(\<forall>k b. w k b = (0, None)) \<longrightarrow> buf = []"
  proof
    assume w: "\<forall>k b. w k b = (0, None)"
    show "buf = []"
    proof (rule ccontr)
      assume "buf \<noteq> []"
      with step w have "f w (Suc k) buf out = Some y" by simp
      from ih [OF this] w \<open>buf \<noteq> []\<close> show False by simp
    qed
  qed
qed

text \<open>
  C23. \<open>WriteOutput\<close> returns whenever the writer makes progress on every call that does not fail, as
  \<open>io.Writer\<close> asks; what reached the other side is a prefix of the line, all of it with its newline
  exactly when no error is reported. A writer that takes nothing and reports nothing would keep it
  from returning.
\<close>

theorem WriteOutput_returns:
  "(writer_ok w \<longrightarrow> (\<exists>out r. WriteOutput w buf = Some (out, r) \<and> prefix out (buf @ [newline]) \<and>
      (r = Inr () \<longrightarrow> out = buf @ [newline]))) \<and>
   ((\<forall>k b. w k b = (0, None)) \<longrightarrow> WriteOutput w buf = None)"
proof (intro conjI impI)
  assume "writer_ok w"
  from write_loop_returns [OF this, of 0 "buf @ [newline]" "[]"]
  show "\<exists>out r. WriteOutput w buf = Some (out, r) \<and> prefix out (buf @ [newline]) \<and>
      (r = Inr () \<longrightarrow> out = buf @ [newline])" by (auto simp: WriteOutput_def)
next
  assume "\<forall>k b. w k b = (0, None)"
  then show "WriteOutput w buf = None"
    using stuck_writer [of w 0 "buf @ [newline]" "[]"] by (cases "WriteOutput w buf") (auto simp: WriteOutput_def)
qed

lemma MakeMessage_Inr:
  "MakeMessage cd cls p c = Inr raw \<longleftrightarrow>
     (\<exists>v. (if c then decompress_json cd p else Inr p) = Inr v \<and>
        json_Marshal cd (message_json \<lparr>msg_Class = cls, msg_Parameters = v, msg_PersistSock = []\<rparr>) = Inr raw)"
  by (auto simp: MakeMessage_def and_then_def split: sum.splits if_splits)

lemma write_all:
  assumes "writer_ok w" "\<forall>k b. snd (w k b) = None"
  shows "WriteOutput w buf = Some (buf @ [newline], Inr ())"
  using write_loop_returns [OF assms(1), of 0 "buf @ [newline]" "[]"] assms(2) by (auto simp: WriteOutput_def)

text \<open>
  C24. Messages survive the pipe: what \<open>MakeMessage\<close> made and \<open>WriteOutput\<close> wrote, in whatever portions the
  pipe took it, is read back by \<open>ReadInput\<close> as the same message, whatever its length, and the input
  that follows it is left alone. A message made from the compressed parameters of an operation is
  the one made from the parameters themselves.
\<close>

theorem message_roundtrip:
  assumes "codec_lossless cd" and "marshal_line cd" and "writer_ok w" and "\<forall>k b. snd (w k b) = None"
    and "CompressOperationParam cd op = (None, op')"
    and "MakeMessage cd cls (op_Parameters op') (op_IsCompressed op') = Inr raw"
  shows "MakeMessage cd cls (op_Parameters op) False = Inr raw \<and>
    (\<exists>out. WriteOutput w raw = Some (out, Inr ()) \<and>
       ReadInput cd (out @ rest) =
         (Inr \<lparr>msg_Class = cls, msg_Parameters = op_Parameters op, msg_PersistSock = []\<rparr>, rest))"
proof -
  from assms(5) obtain s where s: "json_Marshal cd (op_Parameters op) = Inr s"
    and op': "op' = op\<lparr>op_Parameters := JStr (b64_Encode cd (gzip_Write cd s)), op_IsCompressed := True\<rparr>"
    by (auto simp: CompressOperationParam_def split: sum.splits)
  from assms(6) decompress_compressed [OF assms(1) s]
  have raw: "json_Marshal cd (message_json \<lparr>msg_Class = cls, msg_Parameters = op_Parameters op, msg_PersistSock = []\<rparr>)
      = Inr raw"
    by (simp add: MakeMessage_Inr op')
  then have "MakeMessage cd cls (op_Parameters op) False = Inr raw" by (simp add: MakeMessage_Inr)
  with write_all [OF assms(3,4)] ReadInput_message [OF assms(1,2) raw, of rest] show ?thesis by simp
qed

section \<open>Requests to persistent modules\<close>

lemma ReadInputParameters_message:
  assumes "codec_lossless cd" "marshal_line cd" "MakeMessage cd MsgClassParameters p False = Inr raw"
    and "json_Marshal cd p = Inr s"
  shows "ReadInputParameters cd decode (raw @ [newline]) = (recovered ''ReadInputParameters'' (decode p), [])"
  using assms ReadInput_message [OF assms(1,2), of _ raw "[]"]
  by (auto simp: ReadInputParameters_def MakeMessage_Inr codec_lossless_def)

lemma parse_unix: "CHR '':'' \<notin> set path \<Longrightarrow> parse_sockspec (''unix:'' @ path) = Inr (''unix'', path)"
  by (simp add: parse_sockspec_def Split_no_sep Let_def)

text \<open>
  A request reaches the persistent module that registered the socket: with the specification that
  \<open>GetPersistListener\<close> returned and a run directory without a colon, what \<open>SendPersistRequest\<close> returns is
  what the module's handler answers to the same parameters, followed by a newline.
\<close>

theorem persist_request_roundtrip:
  assumes "codec_lossless cd" and "marshal_line cd" and "CHR '':'' \<notin> set path"
    and "GetPersistListener goos path = Inr spec"
    and "writer_ok w" and "\<forall>k b. snd (w k b) = None"
    and "MakeMessage cd MsgClassParameters p False = Inr raw" and "json_Marshal cd p = Inr s"
    and "\<And>request. dial (''unix'', path) request =
           (case HandlePersistRequest cd f w request of Inr (Some answer) \<Rightarrow> Inr answer | _ \<Rightarrow> Inl e)"
  shows "SendPersistRequest cd dial failure p spec = f p @ [newline]"
proof -
  have spec: "spec = ''unix:'' @ path" using assms(4) by (auto simp: GetPersistListener_def split: if_splits)
  have "HandlePersistRequest cd f w (raw @ [newline]) = Inr (Some (f p @ [newline]))"
    using ReadInputParameters_message [OF assms(1,2,7,8), of Inr] write_all [OF assms(5,6)]
    by (simp add: HandlePersistRequest_def)
  then show ?thesis
    using assms(7,9) parse_unix [OF assms(3)] by (simp add: SendPersistRequest_def spec)
qed

section \<open>Witnesses\<close>

definition example_params :: message where
  "example_params = \<lparr>msg_Class = ''parameters'', msg_Parameters = JStr ''x'', msg_PersistSock = []\<rparr>"

definition example_mcodec :: codec where
  "example_mcodec =
     \<lparr>json_Marshal = (\<lambda>v. if v = JStr ''x'' then Inr ''1'' else if v = message_json example_params then Inr ''2''
                           else Inl (errors_New ''unsupported type'')),
      json_Unmarshal = (\<lambda>s. if s = ''1'' then Inr (JStr ''x'') else if s = ''2'' then Inr (message_json example_params)
                             else Inl (errors_New ''invalid character'')),
      json_MarshalOps = (\<lambda>_. Inr ''[]''), gzip_Write = (\<lambda>s. s), gzip_Read = Inr, b64_Encode = (\<lambda>s. s),
      b64_Decode = Inr\<rparr>"

definition example_writer :: writer where
  "example_writer k buf = (1, None)"

lemma example_mcodec_ok: "codec_lossless example_mcodec" "marshal_line example_mcodec"
  by (auto simp: codec_lossless_def marshal_line_def example_mcodec_def example_params_def message_json_def
      split: if_splits)

lemma example_writer_ok: "writer_ok example_writer" "\<forall>k b. snd (example_writer k b) = None"
  by (auto simp: writer_ok_def example_writer_def Suc_le_eq)

theorem WriteOutput_returns_witness:
  "\<exists>out r. WriteOutput example_writer ''ab'' = Some (out, r) \<and> prefix out (''ab'' @ [newline])"
  using WriteOutput_returns [of example_writer "''ab''"] example_writer_ok by blast

lemma example_make:
  "MakeMessage example_mcodec ''parameters'' (JStr ''x'') False = Inr ''2''"
  "MakeMessage example_mcodec ''parameters'' (JStr ''1'') True = Inr ''2''"
  by (simp_all add: MakeMessage_def decompress_json_def example_mcodec_def example_params_def message_json_def)

theorem message_roundtrip_witness:
  "\<exists>out. WriteOutput example_writer ''2'' = Some (out, Inr ()) \<and>
     ReadInput example_mcodec (out @ ''rest'') = (Inr example_params, ''rest'')"
proof -
  let ?op = "\<lparr>op_Module = ''file'', op_Parameters = JStr ''x'', op_IsCompressed = False, op_WantCompressed = True\<rparr>"
  let ?op' = "?op\<lparr>op_Parameters := JStr ''1'', op_IsCompressed := True\<rparr>"
  have c: "CompressOperationParam example_mcodec ?op = (None, ?op')"
    by (simp add: CompressOperationParam_def example_mcodec_def)
  have m: "MakeMessage example_mcodec ''parameters'' (op_Parameters ?op') (op_IsCompressed ?op') = Inr ''2''"
    using example_make(2) by simp
  from message_roundtrip [OF example_mcodec_ok example_writer_ok c m, of "''rest''"] show ?thesis
    by (simp add: example_params_def)
qed

theorem persist_request_roundtrip_witness:
  "SendPersistRequest example_mcodec
     (\<lambda>_ request. case HandlePersistRequest example_mcodec (\<lambda>p. ''answer'') example_writer request of
        Inr (Some answer) \<Rightarrow> Inr answer | _ \<Rightarrow> Inl (errors_New ''EOF''))
     (\<lambda>e. ''failed'') (JStr ''x'') ''unix:/run/mig.sock'' = ''answer'' @ [newline]"
proof -
  have path: "CHR '':'' \<notin> set ''/run/mig.sock''" by simp
  have spec: "GetPersistListener ''linux'' ''/run/mig.sock'' = Inr ''unix:/run/mig.sock''"
    by (simp add: GetPersistListener_def)
  have p: "json_Marshal example_mcodec (JStr ''x'') = Inr ''1''" by (simp add: example_mcodec_def)
  show ?thesis
    by (rule persist_request_roundtrip [OF example_mcodec_ok path spec example_writer_ok
          example_make(1) [folded MsgClassParameters_def] p refl])
qed

end
