(* ===== verification/Agent.thy ===== *)
theory Agent
  imports Modules Heartbeats
begin

text \<open>
  The agent (\<open>mig-agent/agent.go\<close>, \<open>acl.go\<close>, \<open>stats.go\<close>): a message from the relay is parsed, its action
  is checked against the keys and the access control list of the agent, its operations go one by one
  through a channel to the routine that runs modules, and a goroutine per command collects their
  results.

  The goroutines are part of the state: \<open>agent_step\<close> interleaves them. A module is an external process;
  how it ends is the argument \<open>outcome\<close> of \<open>runModule\<close>. The channel to the module routine holds five
  operations, a result channel holds none; the other channels are taken to be large enough, and the
  accesses to \<open>runningOps\<close> from several goroutines to be atomic.
\<close>

section \<open>Configuration and state\<close>

record 'ring agent_conf =
  ac_Codec :: codec
  ac_PGP :: "'ring openpgp"
  ac_PublicKeys :: "string list"
  ac_OnlyVerifyPubKey :: bool
  ac_ACL :: acl
  ac_Available :: "string \<Rightarrow> bool"
  ac_Persistent :: "string \<Rightarrow> bool"
  ac_ModuleTimeout :: duration
  ac_StatsMax :: int
  ac_Agent :: agent
  ac_Unmarshal :: "string \<Rightarrow> command \<times> go_error option"
  ac_Marshal :: "command \<Rightarrow> string result"
  ac_UnmarshalResult :: "string \<Rightarrow> module_result \<times> go_error option"
  ac_ErrText :: "go_error \<Rightarrow> string"
  ac_UnmarshalInto :: "string \<Rightarrow> module_result \<Rightarrow> module_result \<times> go_error option"

text \<open>
  The fields \<open>ac_Unmarshal\<close> and \<open>ac_UnmarshalResult\<close> are \<open>json.Unmarshal\<close> into a zero value, which may be
  partly filled when there is an error; \<open>ac_UnmarshalInto\<close> is \<open>json.Unmarshal\<close> into a result that has a value;
  \<open>ac_ErrText\<close> prints an error.
\<close>

record module_op =
  mo_Err :: "go_error option"
  mo_ID :: mig_id
  mo_Mode :: string
  mo_IsCompressed :: bool
  mo_Params :: json
  mo_Chan :: nat
  mo_Position :: nat
  mo_ExpireAfter :: time

record module_out =
  mr_ID :: mig_id
  mr_Err :: "go_error option"
  mr_Status :: string
  mr_Output :: module_result
  mr_Position :: nat

record stats_action =
  sa_Time :: time
  sa_Name :: string
  sa_Accepted :: string
  sa_Modules :: string

definition zero_result :: module_result where
  "zero_result = \<lparr>res_FoundAnything = False, res_Success = False, res_Elements = JNull,
     res_Statistics = JNull, res_Errors = []\<rparr>"

section \<open>Authorisation (acl.go)\<close>

definition checkActionAuthorization :: "'ring agent_conf \<Rightarrow> time \<Rightarrow> action \<Rightarrow> unit result" where
  "checkActionAuthorization conf now a =
     recovered ''checkActionAuthorization''
       (case ArmoredKeysToKeyring (ac_PGP conf) (ac_PublicKeys conf) of
          Inl e \<Rightarrow> Inl e
        | Inr (keyring, keycount) \<Rightarrow>
            (case Validate now a of
               Inl e \<Rightarrow> Inl (Errorf ''action validation failed: %v'' [AErr e])
             | Inr _ \<Rightarrow>
                 if now < act_ValidFrom a then Inl (errors_New ''Action ValidFrom date is in the future'')
                 else (case VerifyACL (ac_Codec conf) (ac_PGP conf) (ac_ACL conf) keyring (ac_OnlyVerifyPubKey conf) a of
                         Inl e \<Rightarrow> Inl (Errorf ''action ACL verification failed: %v'' [AErr e])
                       | Inr _ \<Rightarrow> Inr ())))"

section \<open>Statistics (stats.go)\<close>

definition import_modules :: "action \<Rightarrow> string list" where
  "import_modules a =
     foldl (\<lambda>fl x. if ToLower (op_Module x) \<in> set fl then fl else fl @ [ToLower (op_Module x)]) [] (ops a)"

definition stats_of :: "time \<Rightarrow> action \<Rightarrow> bool \<Rightarrow> stats_action" where
  "stats_of now a accepted =
     \<lparr>sa_Time = now, sa_Name = act_Name a, sa_Accepted = (if accepted then ''Accepted'' else ''Rejected''),
      sa_Modules = Join (import_modules a) '', ''\<rparr>"

definition importAction :: "int \<Rightarrow> time \<Rightarrow> action \<Rightarrow> bool \<Rightarrow> stats_action list \<Rightarrow> stats_action list" where
  "importAction limit now a accepted actions =
     (if limit = 0 then actions
      else (if int (length actions) = limit then tl actions else actions) @ [stats_of now a accepted])"

section \<open>Running a module\<close>

text \<open>
  The socket specifications of persistent modules (\<open>persist.go\<close>): \<open>None\<close> for a module that was never
  registered, \<open>Some None\<close> after it was removed.
\<close>

type_synonym persist_register = "string \<Rightarrow> string option option"

definition register_get :: "persist_register \<Rightarrow> string \<Rightarrow> string result" where
  "register_get reg m =
     (case reg m of Some (Some spec) \<Rightarrow> Inr spec
      | _ \<Rightarrow> Inl (Errorf ''module %v is not registered'' [AStr m]))"

text \<open>The smaller of the agent's limit and the time until the action expires.\<close>

definition exec_timeout :: "'ring agent_conf \<Rightarrow> time \<Rightarrow> module_op \<Rightarrow> duration" where
  "exec_timeout conf now op =
     (if mo_ExpireAfter op < now + ac_ModuleTimeout conf then mo_ExpireAfter op - now else ac_ModuleTimeout conf)"

text \<open>The bytes written to the standard input of the module.\<close>

definition module_input :: "'ring agent_conf \<Rightarrow> persist_register \<Rightarrow> module_op \<Rightarrow> string result" where
  "module_input conf reg op =
     and_then (MakeMessage (ac_Codec conf) MsgClassParameters (mo_Params op) (mo_IsCompressed op)) (\<lambda>modParams.
       if \<not> ac_Available conf (mo_Mode op) then Inl (Errorf ''module %v is not available'' [AStr (mo_Mode op)])
       else if ac_Persistent conf (mo_Mode op)
       then and_then (and_then (json_Unmarshal (ac_Codec conf) modParams) decode_message) (\<lambda>tm.
              and_then (register_get reg (mo_Mode op)) (\<lambda>spec.
                json_Marshal (ac_Codec conf) (message_json (tm\<lparr>msg_PersistSock := spec\<rparr>))))
       else Inr modParams)"

text \<open>
  How the process ends: it does not start, it fails, it exits with its output, or it reaches the time
  limit and is killed, or cannot be killed.
\<close>

datatype outcome = NotStarted go_error | ExitFailed go_error | Exited string | Killed | NotKilled go_error

definition runModule :: "'ring agent_conf \<Rightarrow> persist_register \<Rightarrow> outcome \<Rightarrow> module_op \<Rightarrow> module_out" where
  "runModule conf reg out op =
     (let result = \<lparr>mr_ID = mo_ID op, mr_Err = None, mr_Status = [], mr_Output = zero_result,
                    mr_Position = mo_Position op\<rparr>;
          failed = (\<lambda>r e. r\<lparr>mr_Err := Some (Errorf ''runModule() -> %v'' [AErr e]), mr_Status := StatusFailed\<rparr>)
      in (case module_input conf reg op of
            Inl e \<Rightarrow> failed result e
          | Inr _ \<Rightarrow>
              (case out of
                 NotStarted e \<Rightarrow> failed result e
               | ExitFailed e \<Rightarrow> failed result e
               | NotKilled e \<Rightarrow> failed result e
               | Killed \<Rightarrow> result\<lparr>mr_Status := StatusTimeout\<rparr>
               | Exited txt \<Rightarrow>
                   (case ac_UnmarshalResult conf txt of
                      (r, Some e) \<Rightarrow> failed (result\<lparr>mr_Output := r\<rparr>) e
                    | (r, None) \<Rightarrow> result\<lparr>mr_Output := r, mr_Status := StatusSuccess\<rparr>))))"

section \<open>Collecting results\<close>

text \<open>
  \<open>receiveModuleResults\<close>: the command under construction, the number of results it waits for and the
  number received.
\<close>

record receiver =
  rc_Chan :: nat
  rc_Cmd :: command
  rc_Total :: nat
  rc_Count :: nat
  rc_Started :: bool

datatype received = Waiting receiver | Finished command | Died

definition make_receiver :: "nat \<Rightarrow> command \<Rightarrow> nat \<Rightarrow> receiver" where
  "make_receiver ch cmd n =
     \<lparr>rc_Chan = ch, rc_Cmd = cmd\<lparr>cmd_Results := replicate n zero_result, cmd_Status := StatusSuccess\<rparr>,
      rc_Total = n, rc_Count = 0, rc_Started = False\<rparr>"

definition count_one :: "receiver \<Rightarrow> command \<Rightarrow> received" where
  "count_one rc cmd =
     (if rc_Total rc \<le> Suc (rc_Count rc) then Finished cmd
      else Waiting (rc\<lparr>rc_Cmd := cmd, rc_Count := Suc (rc_Count rc)\<rparr>))"

text \<open>
  The operations in \<open>runningOps\<close> that carry an error, in the order of the map iteration: those of every
  command, not only of this one. The text of the error is pasted into a JSON text; when that is not valid,
  and when the index is out of range, the goroutine ends.
\<close>

definition error_json :: "string \<Rightarrow> string" where
  "error_json txt =
     (let dq = [CHR 0x22] in ''{'' @ dq @ ''errors'' @ dq @ '': ['' @ dq @ txt @ dq @ '']}'')"

fun failed_ops :: "'ring agent_conf \<Rightarrow> module_op list \<Rightarrow> receiver \<Rightarrow> received" where
  "failed_ops conf [] rc = Waiting (rc\<lparr>rc_Started := True\<rparr>)"
| "failed_ops conf (op # rest) rc =
     (case mo_Err op of
        None \<Rightarrow> failed_ops conf rest rc
      | Some e \<Rightarrow>
          if length (cmd_Results (rc_Cmd rc)) \<le> mo_Position op then Died
          else (case ac_UnmarshalInto conf (error_json (ac_ErrText conf e)) (cmd_Results (rc_Cmd rc) ! mo_Position op) of
                  (_, Some _) \<Rightarrow> Died
                | (res, None) \<Rightarrow>
                    (let cmd = rc_Cmd rc;
                         cmd = cmd\<lparr>cmd_Status := ''failed'', cmd_Results := (cmd_Results cmd)[mo_Position op := res]\<rparr>
                     in (case count_one rc cmd of
                           Waiting rc' \<Rightarrow> failed_ops conf rest rc'
                         | r \<Rightarrow> r))))"

definition receive_one :: "'ring agent_conf \<Rightarrow> module_out \<Rightarrow> receiver \<Rightarrow> received" where
  "receive_one conf r rc =
     (let cmd = rc_Cmd rc;
          status = (if cmd_Status cmd = StatusSuccess \<and> mr_Status r \<noteq> StatusSuccess then mr_Status r
                    else cmd_Status cmd);
          output = (case mr_Err r of None \<Rightarrow> mr_Output r
                    | Some e \<Rightarrow> (mr_Output r)\<lparr>res_Errors := res_Errors (mr_Output r) @ [ac_ErrText conf e]\<rparr>)
      in if length (cmd_Results cmd) \<le> mr_Position r then Died
         else count_one rc (cmd\<lparr>cmd_Status := status, cmd_Results := (cmd_Results cmd)[mr_Position r := output]\<rparr>))"

fun receive_all :: "'ring agent_conf \<Rightarrow> module_out list \<Rightarrow> receiver \<Rightarrow> received" where
  "receive_all conf [] rc = Waiting rc"
| "receive_all conf (r # rs) rc =
     (case receive_one conf r rc of Waiting rc' \<Rightarrow> receive_all conf rs rc' | x \<Rightarrow> x)"

section \<open>Parsing commands\<close>

text \<open>The command that is sent back when parsing fails after its identifier is known.\<close>

definition failed_command :: "'ring agent_conf \<Rightarrow> command \<Rightarrow> go_error \<Rightarrow> command" where
  "failed_command conf cmd e =
     cmd\<lparr>cmd_Results := map (\<lambda>_. zero_result\<lparr>res_Errors := [ac_ErrText conf e]\<rparr>) (ops (cmd_Action cmd)),
         cmd_Status := ''failed''\<rparr>"

definition make_op :: "'ring agent_conf \<Rightarrow> mig_id \<Rightarrow> command \<Rightarrow> nat \<Rightarrow> nat \<times> operation \<Rightarrow> module_op" where
  "make_op conf i cmd ch po =
     \<lparr>mo_Err = (if ac_Available conf (op_Module (snd po)) then None
                else Some (Errorf (''module '' @ quoted ''%s'' @ '' is not available'') [AStr (op_Module (snd po))])),
      mo_ID = i, mo_Mode = op_Module (snd po), mo_IsCompressed = op_IsCompressed (snd po),
      mo_Params = op_Parameters (snd po), mo_Chan = ch, mo_Position = fst po,
      mo_ExpireAfter = act_ExpireAfter (cmd_Action cmd)\<rparr>"

section \<open>The goroutines\<close>

text \<open>
  The parser is idle or in the loop over the operations of a command; the runner is idle or has a
  result that it could not hand over yet.
\<close>

datatype parser = PIdle | PSending command nat "(nat \<times> operation) list"
datatype runner = RIdle | RDone module_op module_out

record agent_state =
  ag_Parser :: parser
  ag_Runner :: runner
  ag_Queue :: "module_op list"
  ag_Running :: "(mig_id \<times> module_op) list"
  ag_Receivers :: "receiver list"
  ag_Closed :: "nat list"
  ag_NextChan :: nat
  ag_LastID :: mig_id
  ag_Results :: "command list"
  ag_Stats :: "stats_action list"
  ag_Started :: "(time \<times> duration \<times> module_op) list"
  ag_Crashed :: bool

definition start_command :: "'ring agent_conf \<Rightarrow> time \<Rightarrow> string \<Rightarrow> agent_state \<Rightarrow> agent_state" where
  "start_command conf now msg st =
     (let refuse = (\<lambda>cmd e st.
            if 0 < cmd_ID cmd
            then st\<lparr>ag_Results := ag_Results st @ [failed_command conf cmd (Errorf ''parseCommands() -> %v'' [AErr e])]\<rparr>
            else st)
      in (case ac_Unmarshal conf msg of
            (cmd, Some e) \<Rightarrow> refuse cmd e st
          | (cmd, None) \<Rightarrow>
              (case checkActionAuthorization conf now (cmd_Action cmd) of
                 Inl e \<Rightarrow>
                   refuse cmd e (st\<lparr>ag_Stats := importAction (ac_StatsMax conf) now (cmd_Action cmd) False (ag_Stats st)\<rparr>)
               | Inr _ \<Rightarrow>
                   st\<lparr>ag_Stats := importAction (ac_StatsMax conf) now (cmd_Action cmd) True (ag_Stats st),
                      ag_Parser := PSending cmd (ag_NextChan st)
                        (zip [0..<length (ops (cmd_Action cmd))] (ops (cmd_Action cmd))),
                      ag_NextChan := Suc (ag_NextChan st)\<rparr>)))"

definition settle :: "received \<Rightarrow> nat \<Rightarrow> agent_state \<Rightarrow> agent_state" where
  "settle r ch st =
     (let others = filter (\<lambda>rc. rc_Chan rc \<noteq> ch) (ag_Receivers st)
      in (case r of
            Waiting rc \<Rightarrow> st\<lparr>ag_Receivers := others @ [rc]\<rparr>
          | Finished cmd \<Rightarrow>
              st\<lparr>ag_Receivers := others, ag_Results := ag_Results st @ [cmd], ag_Closed := ch # ag_Closed st\<rparr>
          | Died \<Rightarrow> st\<lparr>ag_Receivers := others\<rparr>))"

definition queue_capacity :: nat where "queue_capacity = 5"

text \<open>The work on the messages that were received, and the arrival of a message.\<close>

inductive agent_work :: "'ring agent_conf \<Rightarrow> agent_state \<Rightarrow> agent_state \<Rightarrow> bool" for conf where
  send: "\<not> ag_Crashed st \<Longrightarrow> ag_Parser st = PSending cmd ch (po # rest) \<Longrightarrow> ag_LastID st < i \<Longrightarrow>
    op = make_op conf i cmd ch po \<Longrightarrow> mo_Err op = None \<Longrightarrow> length (ag_Queue st) < queue_capacity \<Longrightarrow>
    agent_work conf st (st\<lparr>ag_Parser := PSending cmd ch rest, ag_LastID := i,
      ag_Running := ag_Running st @ [(i, op)], ag_Queue := ag_Queue st @ [op]\<rparr>)"
| unavailable: "\<not> ag_Crashed st \<Longrightarrow> ag_Parser st = PSending cmd ch (po # rest) \<Longrightarrow> ag_LastID st < i \<Longrightarrow>
    op = make_op conf i cmd ch po \<Longrightarrow> mo_Err op = Some e \<Longrightarrow>
    agent_work conf st (st\<lparr>ag_Parser := PSending cmd ch rest, ag_LastID := i,
      ag_Running := ag_Running st @ [(i, op)]\<rparr>)"
| receiver: "\<not> ag_Crashed st \<Longrightarrow> ag_Parser st = PSending cmd ch [] \<Longrightarrow>
    agent_work conf st (st\<lparr>ag_Parser := PIdle,
      ag_Receivers := ag_Receivers st @ [make_receiver ch cmd (length (ops (cmd_Action cmd)))]\<rparr>)"
| run: "\<not> ag_Crashed st \<Longrightarrow> ag_Runner st = RIdle \<Longrightarrow> ag_Queue st = op # queue \<Longrightarrow>
    agent_work conf st (st\<lparr>ag_Queue := queue, ag_Running := al_del (mo_ID op) (ag_Running st),
      ag_Runner := RDone op (runModule conf reg out op),
      ag_Started := ag_Started st @ [(now, exec_timeout conf now op, op)]\<rparr>)"
| failed: "\<not> ag_Crashed st \<Longrightarrow> rc \<in> set (ag_Receivers st) \<Longrightarrow> \<not> rc_Started rc \<Longrightarrow>
    mset order = mset (map snd (ag_Running st)) \<Longrightarrow>
    agent_work conf st (settle (failed_ops conf order rc) (rc_Chan rc) st)"
| deliver: "\<not> ag_Crashed st \<Longrightarrow> ag_Runner st = RDone op r \<Longrightarrow> rc \<in> set (ag_Receivers st) \<Longrightarrow>
    rc_Started rc \<Longrightarrow> rc_Chan rc = mo_Chan op \<Longrightarrow>
    agent_work conf st (settle (receive_one conf r rc) (rc_Chan rc) (st\<lparr>ag_Runner := RIdle\<rparr>))"
| closed: "\<not> ag_Crashed st \<Longrightarrow> ag_Runner st = RDone op r \<Longrightarrow> mo_Chan op \<in> set (ag_Closed st) \<Longrightarrow>
    agent_work conf st (st\<lparr>ag_Crashed := True\<rparr>)"

inductive agent_step :: "'ring agent_conf \<Rightarrow> agent_state \<Rightarrow> agent_state \<Rightarrow> bool" for conf where
  parse: "\<not> ag_Crashed st \<Longrightarrow> ag_Parser st = PIdle \<Longrightarrow> agent_step conf st (start_command conf now msg st)"
| work: "agent_work conf st st' \<Longrightarrow> agent_step conf st st'"

inductive_cases agent_workE: "agent_work conf st st'"

definition agent_init :: agent_state where
  "agent_init =
     \<lparr>ag_Parser = PIdle, ag_Runner = RIdle, ag_Queue = [], ag_Running = [], ag_Receivers = [], ag_Closed = [],
      ag_NextChan = 0, ag_LastID = 0, ag_Results = [], ag_Stats = [], ag_Started = [], ag_Crashed = False\<rparr>"

section \<open>Sending results\<close>

text \<open>
  \<open>publish\<close> tries twice; \<open>sent k\<close> is the error of the \<open>k\<close>-th try. The result says whether the agent is told
  to terminate.
\<close>

definition publish :: "(nat \<Rightarrow> go_error option) \<Rightarrow> unit result \<times> bool" where
  "publish sent =
     (case sent 0 of
        None \<Rightarrow> (Inr (), False)
      | Some _ \<Rightarrow> (case sent 1 of None \<Rightarrow> (Inr (), False) | Some e \<Rightarrow> (Inl e, True)))"

definition sendResults ::
  "'ring agent_conf \<Rightarrow> (string \<Rightarrow> nat \<Rightarrow> go_error option) \<Rightarrow> command \<Rightarrow> string result \<times> bool" where
  "sendResults conf sent result =
     (case ac_Marshal conf (result\<lparr>cmd_Agent := (cmd_Agent result)\<lparr>agt_QueueLoc := agt_QueueLoc (ac_Agent conf)\<rparr>\<rparr>) of
        Inl e \<Rightarrow> (recovered ''sendResults'' (Inl e), False)
      | Inr body \<Rightarrow>
          (case publish (sent body) of
             (Inl e, t) \<Rightarrow> (recovered ''sendResults'' (Inl e), t)
           | (Inr _, t) \<Rightarrow> (Inr body, t)))"

end
