(* ===== verification/AgentRuns.thy ===== *)
theory AgentRuns
  imports Agent
begin

text \<open>
  What the agent guarantees along its runs: only authorised operations are executed, within their time
  limits; results are put together in the order of the operations whatever the order in which the
  modules end; and when every command is answered, and when not.
\<close>

section \<open>Authorised operations\<close>

definition authorised_cmd :: "'ring agent_conf \<Rightarrow> command \<Rightarrow> bool" where
  "authorised_cmd conf cmd \<longleftrightarrow>
     (\<exists>msg now. ac_Unmarshal conf msg = (cmd, None) \<and> checkActionAuthorization conf now (cmd_Action cmd) = Inr ())"

definition op_of :: "command \<Rightarrow> module_op \<Rightarrow> bool" where
  "op_of cmd op \<longleftrightarrow>
     mo_Position op < length (ops (cmd_Action cmd)) \<and>
     (let operation = ops (cmd_Action cmd) ! mo_Position op
      in mo_Mode op = op_Module operation \<and> mo_Params op = op_Parameters operation \<and>
         mo_IsCompressed op = op_IsCompressed operation) \<and>
     mo_ExpireAfter op = act_ExpireAfter (cmd_Action cmd)"

definition authorised_op :: "'ring agent_conf \<Rightarrow> module_op \<Rightarrow> bool" where
  "authorised_op conf op \<longleftrightarrow> (\<exists>cmd. authorised_cmd conf cmd \<and> op_of cmd op)"

definition numbered :: "'a list \<Rightarrow> (nat \<times> 'a) list" where
  "numbered xs = zip [0..<length xs] xs"

lemma numbered_nth: "(k, x) \<in> set (numbered xs) \<longleftrightarrow> k < length xs \<and> xs ! k = x"
  by (auto simp: numbered_def in_set_zip intro: exI [of _ k])

lemma numbered_snd: "po \<in> set (numbered xs) \<Longrightarrow> snd po \<in> set xs"
  by (cases po) (auto simp: numbered_nth)

lemma numbered_fst: "po \<in> set (numbered xs) \<Longrightarrow> fst po < length xs"
  by (cases po) (auto simp: numbered_nth)

definition parser_ok :: "'ring agent_conf \<Rightarrow> parser \<Rightarrow> bool" where
  "parser_ok conf p \<longleftrightarrow>
     (case p of PIdle \<Rightarrow> True
      | PSending cmd ch rest \<Rightarrow> authorised_cmd conf cmd \<and> suffix rest (numbered (ops (cmd_Action cmd))))"

text \<open>Everything that runs or will run is authorised and kept its time limit.\<close>

definition agent_safe :: "'ring agent_conf \<Rightarrow> agent_state \<Rightarrow> bool" where
  "agent_safe conf st \<longleftrightarrow>
     parser_ok conf (ag_Parser st) \<and> list_all (authorised_op conf) (ag_Queue st) \<and>
     list_all (\<lambda>op. mo_ID op \<le> ag_LastID st) (ag_Queue st) \<and>
     list_all (\<lambda>(now, limit, op). authorised_op conf op \<and> limit = exec_timeout conf now op) (ag_Started st)"

definition agent_keeps :: "agent_state \<Rightarrow> agent_state \<Rightarrow> bool" where
  "agent_keeps st st' \<longleftrightarrow>
     prefix (ag_Started st) (ag_Started st') \<and> prefix (ag_Results st) (ag_Results st') \<and>
     ag_LastID st \<le> ag_LastID st' \<and> ag_NextChan st \<le> ag_NextChan st'"

lemma settle_frame [simp]:
  "ag_Parser (settle r ch st) = ag_Parser st" "ag_Runner (settle r ch st) = ag_Runner st"
  "ag_Queue (settle r ch st) = ag_Queue st" "ag_Running (settle r ch st) = ag_Running st"
  "ag_NextChan (settle r ch st) = ag_NextChan st" "ag_LastID (settle r ch st) = ag_LastID st"
  "ag_Started (settle r ch st) = ag_Started st" "ag_Stats (settle r ch st) = ag_Stats st"
  "ag_Crashed (settle r ch st) = ag_Crashed st"
  by (simp_all add: settle_def Let_def split: received.splits)

lemma settle_results: "prefix (ag_Results st) (ag_Results (settle r ch st))"
  by (simp add: settle_def Let_def split: received.splits)

lemma start_command_cases:
  obtains (refused) rs where "list_all (\<lambda>c. cmd_Status c = ''failed'') rs"
      "ag_Results (start_command conf now msg st) = ag_Results st @ rs"
      "ag_Parser (start_command conf now msg st) = ag_Parser st"
      "ag_NextChan (start_command conf now msg st) = ag_NextChan st"
  | (accepted) cmd where "ac_Unmarshal conf msg = (cmd, None)"
      "checkActionAuthorization conf now (cmd_Action cmd) = Inr ()"
      "ag_Results (start_command conf now msg st) = ag_Results st"
      "ag_Parser (start_command conf now msg st) = PSending cmd (ag_NextChan st) (numbered (ops (cmd_Action cmd)))"
      "ag_NextChan (start_command conf now msg st) = Suc (ag_NextChan st)"
proof (cases "ac_Unmarshal conf msg")
  case (Pair cmd e)
  show ?thesis
  proof (cases "e = None \<and> checkActionAuthorization conf now (cmd_Action cmd) = Inr ()")
    case True
    with Pair show ?thesis by (intro accepted) (simp_all add: start_command_def Let_def numbered_def)
  next
    case False
    with Pair show ?thesis
      by (intro refused [of "drop (length (ag_Results st)) (ag_Results (start_command conf now msg st))"])
        (auto simp: start_command_def Let_def failed_command_def split: option.splits sum.splits)
  qed
qed

lemma start_command_frame [simp]:
  "ag_Queue (start_command conf now msg st) = ag_Queue st" "ag_Runner (start_command conf now msg st) = ag_Runner st"
  "ag_Running (start_command conf now msg st) = ag_Running st" "ag_Receivers (start_command conf now msg st) = ag_Receivers st"
  "ag_Closed (start_command conf now msg st) = ag_Closed st" "ag_LastID (start_command conf now msg st) = ag_LastID st"
  "ag_Started (start_command conf now msg st) = ag_Started st" "ag_Crashed (start_command conf now msg st) = ag_Crashed st"
  by (auto simp: start_command_def Let_def split: prod.splits option.splits sum.splits)

lemma make_op_of:
  "(k, x) \<in> set (numbered (ops (cmd_Action cmd))) \<Longrightarrow> op_of cmd (make_op conf i cmd ch (k, x))"
  by (auto simp: op_of_def make_op_def numbered_nth)

lemma sending_authorised:
  assumes "parser_ok conf (PSending cmd ch (po # rest))"
  shows "authorised_op conf (make_op conf i cmd ch po) \<and> parser_ok conf (PSending cmd ch rest)"
proof -
  from assms have a: "authorised_cmd conf cmd" and s: "suffix (po # rest) (numbered (ops (cmd_Action cmd)))"
    by (simp_all add: parser_ok_def)
  from s have "po \<in> set (numbered (ops (cmd_Action cmd)))" "suffix rest (numbered (ops (cmd_Action cmd)))"
    by (auto simp: suffix_def)
  with a make_op_of [of "fst po" "snd po" cmd conf i ch] show ?thesis
    by (auto simp: authorised_op_def parser_ok_def)
qed

lemma agent_work_safe:
  assumes "agent_safe conf st" "agent_work conf st st'"
  shows "agent_safe conf st' \<and> agent_keeps st st'"
  using assms(2)
proof cases
  case (send cmd ch po rest i op)
  moreover from send(5) have "mo_ID op = i" by (simp add: make_op_def)
  ultimately show ?thesis using assms(1) sending_authorised [of conf cmd ch po rest i]
    by (auto simp: agent_safe_def agent_keeps_def list_all_iff)
next
  case (unavailable cmd ch po rest i op e)
  with assms(1) sending_authorised [of conf cmd ch po rest i] show ?thesis
    by (auto simp: agent_safe_def agent_keeps_def list_all_iff)
next
  case (receiver cmd ch)
  with assms(1) show ?thesis by (auto simp: agent_safe_def agent_keeps_def parser_ok_def)
next
  case (run op queue now reg out)
  with assms(1) show ?thesis by (auto simp: agent_safe_def agent_keeps_def)
next
  case (failed rc order)
  with assms(1) show ?thesis by (auto simp: agent_safe_def agent_keeps_def settle_results)
next
  case (deliver op r rc)
  with assms(1) settle_results [of "st\<lparr>ag_Runner := RIdle\<rparr>"] show ?thesis
    by (auto simp: agent_safe_def agent_keeps_def)
next
  case (closed op r)
  with assms(1) show ?thesis by (auto simp: agent_safe_def agent_keeps_def)
qed

interpretation agent: state_machine "agent_step conf" "agent_safe conf" agent_keeps
proof
  show "agent_keeps st st" for st by (simp add: agent_keeps_def)
  show "agent_keeps st st' \<Longrightarrow> agent_keeps st' st'' \<Longrightarrow> agent_keeps st st''" for st st' st''
    by (auto simp: agent_keeps_def)
next
  fix st st'
  assume safe: "agent_safe conf st" and step: "agent_step conf st st'"
  from step have "agent_safe conf st' \<and> agent_keeps st st'"
  proof cases
    case (parse now msg)
    with safe show ?thesis
      by (cases rule: start_command_cases [of conf now msg st])
        (auto simp: agent_safe_def agent_keeps_def parser_ok_def authorised_cmd_def)
  next
    case work
    with agent_work_safe [OF safe] show ?thesis by blast
  qed
  then show "agent_safe conf st'" "agent_keeps st st'" by blast+
qed

lemma checkActionAuthorization_Inr:
  "checkActionAuthorization conf now a = Inr () \<longleftrightarrow>
     (\<exists>keyring n. ArmoredKeysToKeyring (ac_PGP conf) (ac_PublicKeys conf) = Inr (keyring, n) \<and>
        Validate now a = Inr () \<and> act_ValidFrom a \<le> now \<and>
        VerifyACL (ac_Codec conf) (ac_PGP conf) (ac_ACL conf) keyring (ac_OnlyVerifyPubKey conf) a = Inr ())"
  by (auto simp: checkActionAuthorization_def not_less split: sum.splits prod.splits)

lemma exec_timeout_le: "exec_timeout conf now op \<le> ac_ModuleTimeout conf \<and> now + exec_timeout conf now op \<le> mo_ExpireAfter op"
  by (simp add: exec_timeout_def)

lemma agent_init_safe: "agent_safe conf agent_init"
  by (simp add: agent_safe_def agent_init_def parser_ok_def)

text \<open>
  C4. The agent runs nothing that was not authorised. Along every run, with messages of any content and
  goroutines interleaved in any way, every module that is started executes an operation of a command
  that was received; at the time it was checked the action was valid, its signatures verified over
  its string against a keyring of exactly the configured public keys, and the distinct
  investigators who made them carry at least the weight that the access control list asks for this
  module. A module is given neither more time than the agent's limit nor than is left until the
  action expires.
\<close>

theorem agent_runs_only_authorised:
  assumes "(agent_step conf)\<^sup>*\<^sup>* agent_init st" and "(now, limit, op) \<in> set (ag_Started st)"
    and "\<not> ac_OnlyVerifyPubKey conf"
    and "\<forall>e\<in>snd ` set (ac_ACL conf). \<forall>fps. in_int64 (signers_weight e fps)"
  shows "\<exists>msg cmd checked operation keyring n astr fps aclname aclent.
    ac_Unmarshal conf msg = (cmd, None) \<and> operation \<in> set (ops (cmd_Action cmd)) \<and>
    mo_Mode op = op_Module operation \<and> mo_Params op = op_Parameters operation \<and>
    act_ValidFrom (cmd_Action cmd) \<le> checked \<and> checked \<le> act_ExpireAfter (cmd_Action cmd) \<and>
    ArmoredKeysToKeyring (ac_PGP conf) (ac_PublicKeys conf) = Inr (keyring, n) \<and>
    String (ac_Codec conf) (cmd_Action cmd) = Inr astr \<and>
    signed_by (ac_PGP conf) keyring astr (act_PGPSignatures (cmd_Action cmd)) fps \<and> distinct fps \<and>
    acl_entry_for (op_Module operation) (ac_ACL conf) = Some (aclname, aclent) \<and>
    1 \<le> MinimumWeight aclent \<and> MinimumWeight aclent \<le> signers_weight aclent fps \<and>
    limit \<le> ac_ModuleTimeout conf \<and> now + limit \<le> act_ExpireAfter (cmd_Action cmd)"
proof -
  from agent.run_inv [OF assms(1) agent_init_safe] assms(2)
  have "authorised_op conf op" and limit: "limit = exec_timeout conf now op"
    by (auto simp: agent_safe_def list_all_iff)
  then obtain cmd msg checked where cmd: "ac_Unmarshal conf msg = (cmd, None)" "op_of cmd op"
    and auth: "checkActionAuthorization conf checked (cmd_Action cmd) = Inr ()"
    by (auto simp: authorised_op_def authorised_cmd_def)
  let ?operation = "ops (cmd_Action cmd) ! mo_Position op"
  from cmd(2) have op: "?operation \<in> set (ops (cmd_Action cmd))" "mo_Mode op = op_Module ?operation"
    "mo_Params op = op_Parameters ?operation" "mo_ExpireAfter op = act_ExpireAfter (cmd_Action cmd)"
    by (auto simp: op_of_def Let_def)
  from auth assms(3) obtain keyring n where
    k: "ArmoredKeysToKeyring (ac_PGP conf) (ac_PublicKeys conf) = Inr (keyring, n)"
    "Validate checked (cmd_Action cmd) = Inr ()" "act_ValidFrom (cmd_Action cmd) \<le> checked"
    "VerifyACL (ac_Codec conf) (ac_PGP conf) (ac_ACL conf) keyring False (cmd_Action cmd) = Inr ()"
    by (auto simp: checkActionAuthorization_Inr)
  then have "checked \<le> act_ExpireAfter (cmd_Action cmd)" by (auto simp: Validate_def split: if_splits)
  with VerifyACL_quorum [OF k(4) op(1) assms(4)] cmd(1) op k exec_timeout_le [of conf now op] limit
  show ?thesis by metis
qed

section \<open>Results in the order of the operations\<close>

definition output_of :: "'ring agent_conf \<Rightarrow> module_out \<Rightarrow> module_result" where
  "output_of conf r =
     (case mr_Err r of None \<Rightarrow> mr_Output r
      | Some e \<Rightarrow> (mr_Output r)\<lparr>res_Errors := res_Errors (mr_Output r) @ [ac_ErrText conf e]\<rparr>)"

definition put_result :: "'ring agent_conf \<Rightarrow> module_out \<Rightarrow> command \<Rightarrow> command" where
  "put_result conf r cmd =
     cmd\<lparr>cmd_Status := (if cmd_Status cmd = StatusSuccess \<and> mr_Status r \<noteq> StatusSuccess then mr_Status r
                         else cmd_Status cmd),
         cmd_Results := (cmd_Results cmd)[mr_Position r := output_of conf r]\<rparr>"

lemma receive_one_eq:
  "receive_one conf r rc =
     (if length (cmd_Results (rc_Cmd rc)) \<le> mr_Position r then Died else count_one rc (put_result conf r (rc_Cmd rc)))"
  by (simp add: receive_one_def put_result_def output_of_def Let_def)

lemma length_put_result [simp]: "length (cmd_Results (put_result conf r cmd)) = length (cmd_Results cmd)"
  by (simp add: put_result_def)

lemma receive_all_eq:
  "rs \<noteq> [] \<Longrightarrow> rc_Count rc + length rs = rc_Total rc \<Longrightarrow> \<forall>r\<in>set rs. mr_Position r < length (cmd_Results (rc_Cmd rc)) \<Longrightarrow>
     receive_all conf rs rc = Finished (foldl (\<lambda>c r. put_result conf r c) (rc_Cmd rc) rs)"
proof (induction rs arbitrary: rc)
  case (Cons r rs)
  show ?case
  proof (cases "rs = []")
    case True
    with Cons.prems show ?thesis by (simp add: receive_one_eq count_one_def)
  next
    case False
    with Cons.prems have "receive_one conf r rc =
        Waiting (rc\<lparr>rc_Cmd := put_result conf r (rc_Cmd rc), rc_Count := Suc (rc_Count rc)\<rparr>)"
      by (cases rs) (auto simp: receive_one_eq count_one_def)
    with Cons.IH [OF False, of "rc\<lparr>rc_Cmd := put_result conf r (rc_Cmd rc), rc_Count := Suc (rc_Count rc)\<rparr>"] Cons.prems
    show ?thesis by simp
  qed
qed simp

lemma put_results:
  assumes "distinct (map mr_Position rs)" "\<forall>r\<in>set rs. mr_Position r < length (cmd_Results cmd)"
  shows "let cmd' = foldl (\<lambda>c r. put_result conf r c) cmd rs in
    length (cmd_Results cmd') = length (cmd_Results cmd) \<and> cmd_ID cmd' = cmd_ID cmd \<and> cmd_Action cmd' = cmd_Action cmd \<and>
    (\<forall>r\<in>set rs. cmd_Results cmd' ! mr_Position r = output_of conf r) \<and>
    (\<forall>i. i \<notin> mr_Position ` set rs \<longrightarrow> cmd_Results cmd' ! i = cmd_Results cmd ! i) \<and>
    (cmd_Status cmd' = StatusSuccess \<longleftrightarrow> cmd_Status cmd = StatusSuccess \<and> (\<forall>r\<in>set rs. mr_Status r = StatusSuccess))"
  using assms
proof (induction rs arbitrary: cmd)
  case (Cons r rs)
  let ?c = "put_result conf r cmd"
  have c: "length (cmd_Results ?c) = length (cmd_Results cmd)" "cmd_ID ?c = cmd_ID cmd" "cmd_Action ?c = cmd_Action cmd"
    "cmd_Results ?c ! mr_Position r = output_of conf r"
    "\<And>i. i \<noteq> mr_Position r \<Longrightarrow> cmd_Results ?c ! i = cmd_Results cmd ! i"
    "cmd_Status ?c = StatusSuccess \<longleftrightarrow> cmd_Status cmd = StatusSuccess \<and> mr_Status r = StatusSuccess"
    using Cons.prems(2) by (auto simp: put_result_def)
  have "distinct (map mr_Position rs)" "\<forall>r\<in>set rs. mr_Position r < length (cmd_Results ?c)"
    using Cons.prems by auto
  from Cons.IH [OF this] c Cons.prems(1) show ?case by (simp add: Let_def)
qed (simp add: Let_def)

lemma failed_ops_none:
  "\<forall>op\<in>set order. mo_Err op = None \<Longrightarrow> failed_ops conf order rc = Waiting (rc\<lparr>rc_Started := True\<rparr>)"
  by (induction order) auto

text \<open>
  C13. Results end up in the order of the operations. As long as no operation in \<open>runningOps\<close> carries an error, which
  the receiver scans first, and when the modules of a command's \<open>n\<close> operations have
  reported, in whatever order, the command that goes back has \<open>n\<close> results, the one of each operation
  at its position with its error appended, and its status is success exactly when all the modules
  succeeded.
\<close>

theorem receive_all_in_order:
  assumes "length rs = n" and "0 < n" and "mr_Position ` set rs = {..<n}"
    and "\<forall>op\<in>set running. mo_Err op = None"
  shows "\<exists>rc cmd'. failed_ops conf running (make_receiver ch cmd n) = Waiting rc \<and>
    receive_all conf rs rc = Finished cmd' \<and>
    cmd_ID cmd' = cmd_ID cmd \<and> cmd_Action cmd' = cmd_Action cmd \<and> length (cmd_Results cmd') = n \<and>
    (\<forall>r\<in>set rs. cmd_Results cmd' ! mr_Position r = output_of conf r) \<and>
    (cmd_Status cmd' = StatusSuccess \<longleftrightarrow> (\<forall>r\<in>set rs. mr_Status r = StatusSuccess))"
proof -
  have "card (set (map mr_Position rs)) = length (map mr_Position rs)" using assms(1,3) by simp
  then have d: "distinct (map mr_Position rs)" by (rule card_distinct)
  have pos: "\<forall>r\<in>set rs. mr_Position r < n" using assms(3) by blast
  let ?rc = "(make_receiver ch cmd n)\<lparr>rc_Started := True\<rparr>"
  have rc: "rc_Count ?rc = 0" "rc_Total ?rc = n" "length (cmd_Results (rc_Cmd ?rc)) = n"
    "cmd_ID (rc_Cmd ?rc) = cmd_ID cmd" "cmd_Action (rc_Cmd ?rc) = cmd_Action cmd"
    "cmd_Status (rc_Cmd ?rc) = StatusSuccess"
    by (simp_all add: make_receiver_def)
  have "receive_all conf rs ?rc = Finished (foldl (\<lambda>c r. put_result conf r c) (rc_Cmd ?rc) rs)"
    by (rule receive_all_eq) (use assms(1,2) pos rc in auto)
  with put_results [OF d, of "rc_Cmd ?rc" conf] pos rc show ?thesis
    by (intro exI [of _ ?rc]) (simp add: Let_def failed_ops_none [OF assms(4)])
qed

section \<open>Operations whose module is not available\<close>

text \<open>What the scan of \<open>runningOps\<close> leaves of a command's success.\<close>

definition spoiled :: "received \<Rightarrow> bool" where
  "spoiled r \<longleftrightarrow> (case r of Waiting rc \<Rightarrow> cmd_Status (rc_Cmd rc) \<noteq> StatusSuccess | Finished cmd \<Rightarrow> cmd_Status cmd \<noteq> StatusSuccess
     | Died \<Rightarrow> True)"

lemma count_one_spoiled [simp]: "spoiled (count_one rc cmd) \<longleftrightarrow> cmd_Status cmd \<noteq> StatusSuccess"
  by (simp add: count_one_def spoiled_def)

lemma failed_ops_spoiled:
  "cmd_Status (rc_Cmd rc) \<noteq> StatusSuccess \<or> (\<exists>op\<in>set order. mo_Err op \<noteq> None) \<Longrightarrow> spoiled (failed_ops conf order rc)"
proof (induction order arbitrary: rc)
  case Nil
  then show ?case by (simp add: spoiled_def)
next
  case (Cons op order)
  show ?case
  proof (cases "mo_Err op")
    case None
    with Cons show ?thesis by auto
  next
    case (Some e)
    let ?go = "\<lambda>res. rc_Cmd rc\<lparr>cmd_Status := ''failed'', cmd_Results := (cmd_Results (rc_Cmd rc))[mo_Position op := res]\<rparr>"
    have "spoiled (case count_one rc (?go res) of Waiting rc' \<Rightarrow> failed_ops conf order rc' | r \<Rightarrow> r)" for res
      using Cons.IH count_one_spoiled [of rc "?go res"]
      by (auto simp: StatusSuccess_def spoiled_def count_one_def split: received.splits if_splits)
    with Some show ?thesis by (auto simp: Let_def spoiled_def [of Died] split: prod.splits option.splits)
  qed
qed

lemma receive_one_spoiled:
  "cmd_Status (rc_Cmd rc) \<noteq> StatusSuccess \<Longrightarrow> spoiled (receive_one conf r rc)"
  by (auto simp: receive_one_eq put_result_def spoiled_def [of Died])

text \<open>
  A state in which the map still holds an operation that failed because its module is not available:
  nothing removes it, and every receiver that scans the map is spoiled.
\<close>

definition poisoned :: "agent_state \<Rightarrow> bool" where
  "poisoned st \<longleftrightarrow>
     (\<exists>op. (mo_ID op, op) \<in> set (ag_Running st) \<and> mo_Err op \<noteq> None \<and> mo_ID op \<le> ag_LastID st \<and>
        mo_ID op \<notin> mo_ID ` set (ag_Queue st)) \<and>
     (\<forall>rc\<in>set (ag_Receivers st). rc_Started rc \<longrightarrow> cmd_Status (rc_Cmd rc) \<noteq> StatusSuccess)"

lemma poisonedI:
  "(mo_ID op, op) \<in> set (ag_Running st) \<Longrightarrow> mo_Err op \<noteq> None \<Longrightarrow> mo_ID op \<le> ag_LastID st \<Longrightarrow>
   mo_ID op \<notin> mo_ID ` set (ag_Queue st) \<Longrightarrow>
   \<forall>rc\<in>set (ag_Receivers st). rc_Started rc \<longrightarrow> cmd_Status (rc_Cmd rc) \<noteq> StatusSuccess \<Longrightarrow> poisoned st"
  by (auto simp: poisoned_def)

lemma poisonedE:
  assumes "poisoned st"
  obtains op where "(mo_ID op, op) \<in> set (ag_Running st)" "mo_Err op \<noteq> None" "mo_ID op \<le> ag_LastID st"
    "mo_ID op \<notin> mo_ID ` set (ag_Queue st)"
    "\<forall>rc\<in>set (ag_Receivers st). rc_Started rc \<longrightarrow> cmd_Status (rc_Cmd rc) \<noteq> StatusSuccess"
  using assms unfolding poisoned_def by blast

lemma settle_poisoned:
  assumes "poisoned st" "spoiled r"
  shows "poisoned (settle r ch st) \<and>
    (\<exists>new. ag_Results (settle r ch st) = ag_Results st @ new \<and> list_all (\<lambda>c. cmd_Status c \<noteq> StatusSuccess) new)"
  using assms by (cases r) (auto simp: settle_def Let_def poisoned_def spoiled_def)

definition worse :: "agent_state \<Rightarrow> agent_state \<Rightarrow> bool" where
  "worse st st' \<longleftrightarrow> poisoned st' \<and>
     (\<exists>new. ag_Results st' = ag_Results st @ new \<and> list_all (\<lambda>c. cmd_Status c \<noteq> StatusSuccess) new)"

lemma al_del_other: "(i, x) \<in> set (al_del k m) \<longleftrightarrow> (i, x) \<in> set m \<and> i \<noteq> k"
  by (auto simp: al_del_def)

lemma poisoned_work:
  assumes "poisoned st" "agent_work conf st st'"
  shows "worse st st'"
proof -
  obtain p where p: "(mo_ID p, p) \<in> set (ag_Running st)" "mo_Err p \<noteq> None" "mo_ID p \<le> ag_LastID st"
      "mo_ID p \<notin> mo_ID ` set (ag_Queue st)"
      "\<forall>rc\<in>set (ag_Receivers st). rc_Started rc \<longrightarrow> cmd_Status (rc_Cmd rc) \<noteq> StatusSuccess"
    by (rule poisonedE [OF assms(1)])
  show ?thesis using assms(2)
  proof cases
    case (send cmd ch po rest i op)
    have "mo_ID op = i" using send(5) by (simp add: make_op_def)
    with send p have "poisoned st'" by (intro poisonedI [of p]) auto
    with send(1) show ?thesis by (simp add: worse_def)
  next
    case (unavailable cmd ch po rest i op e)
    with p have "poisoned st'" by (intro poisonedI [of p]) auto
    with unavailable(1) show ?thesis by (simp add: worse_def)
  next
    case (receiver cmd ch)
    with assms(1) show ?thesis by (auto simp: worse_def poisoned_def make_receiver_def)
  next
    case (run op queue now reg out)
    with p have "poisoned st'" by (intro poisonedI [of p]) (auto simp: al_del_other)
    with run(1) show ?thesis by (simp add: worse_def)
  next
    case (failed rc order)
    have "p \<in> snd ` set (ag_Running st)" using imageI [OF p(1), of snd] by simp
    moreover have "set order = snd ` set (ag_Running st)" using arg_cong [OF failed(5), of set_mset] by simp
    ultimately have "spoiled (failed_ops conf order rc)" using p(2) by (intro failed_ops_spoiled) auto
    from settle_poisoned [OF assms(1) this] failed(1) show ?thesis by (simp add: worse_def)
  next
    case (deliver op r rc)
    with assms(1) have "cmd_Status (rc_Cmd rc) \<noteq> StatusSuccess" by (simp add: poisoned_def)
    moreover have "poisoned (st\<lparr>ag_Runner := RIdle\<rparr>)" using assms(1) by (simp add: poisoned_def)
    ultimately show ?thesis
      using settle_poisoned [OF _ receive_one_spoiled, of "st\<lparr>ag_Runner := RIdle\<rparr>" rc conf r "rc_Chan rc"] deliver(1)
      by (simp add: worse_def)
  next
    case (closed op r)
    with assms(1) show ?thesis by (simp add: worse_def poisoned_def)
  qed
qed

lemma poisoned_parse:
  assumes "poisoned st"
  shows "worse st (start_command conf now msg st)"
proof -
  have "poisoned (start_command conf now msg st)" using assms by (simp add: poisoned_def)
  then show ?thesis
    by (cases rule: start_command_cases [of conf now msg st])
      (auto simp: worse_def list_all_iff StatusSuccess_def)
qed

lemma poisoned_run:
  assumes "(agent_step conf)\<^sup>*\<^sup>* st st'" "poisoned st"
  shows "worse st st'"
  using assms
proof (induction rule: rtranclp_induct)
  case base
  then show ?case by (simp add: worse_def)
next
  case (step st1 st2)
  then have "worse st st1" "poisoned st1" by (auto simp: worse_def)
  moreover have "worse st1 st2"
    using step.hyps(2) poisoned_work [OF \<open>poisoned st1\<close>] poisoned_parse [OF \<open>poisoned st1\<close>] by cases auto
  ultimately show ?case by (auto simp: worse_def)
qed

text \<open>
  One operation for a module that the agent does not have spoils every later command. Once the parser
  has noted such an operation, it stays in \<open>runningOps\<close> for ever, and the receiver of every command that
  starts collecting after that takes it for one of its own: along every further run no command that
  is sent back has status success.
\<close>

theorem unavailable_module_spoils:
  assumes "(agent_step conf)\<^sup>*\<^sup>* agent_init st" and "ag_Parser st = PSending cmd ch (po # rest)"
    and "\<not> ac_Available conf (op_Module (snd po))" and "\<forall>rc\<in>set (ag_Receivers st). \<not> rc_Started rc"
    and "agent_work conf st st1" and "ag_Parser st1 = PSending cmd ch rest"
    and "(agent_step conf)\<^sup>*\<^sup>* st1 st2"
  shows "\<exists>new. ag_Results st2 = ag_Results st1 @ new \<and> list_all (\<lambda>c. cmd_Status c \<noteq> ''success'') new"
proof -
  from agent.run_inv [OF assms(1) agent_init_safe]
  have ids: "\<forall>op\<in>set (ag_Queue st). mo_ID op \<le> ag_LastID st" by (simp add: agent_safe_def list_all_iff)
  have "poisoned st1"
    using assms(5)
  proof cases
    case (send cmd' ch' po' rest' i op)
    with assms(2,3) show ?thesis by (simp add: make_op_def)
  next
    case (unavailable cmd' ch' po' rest' i op e)
    have "mo_ID op = i" using unavailable(5) by (simp add: make_op_def)
    with unavailable ids assms(4) show ?thesis
      by (auto simp: poisoned_def intro!: exI [of _ op])
  qed (use assms(2,6) in auto)
  from poisoned_run [OF assms(7) this] show ?thesis by (simp add: worse_def StatusSuccess_def)
qed

section \<open>Deadlock\<close>

definition line :: "agent_state \<Rightarrow> module_op list" where
  "line st = (case ag_Runner st of RIdle \<Rightarrow> [] | RDone op r \<Rightarrow> [op]) @ ag_Queue st"

definition wedged :: "'ring agent_conf \<Rightarrow> command \<Rightarrow> agent_state \<Rightarrow> bool" where
  "wedged conf cmd st \<longleftrightarrow> (\<exists>rest. ag_Parser st = PSending cmd 0 rest \<and> suffix rest (numbered (ops (cmd_Action cmd))) \<and>
     length rest + length (line st) = length (ops (cmd_Action cmd)) \<and> length (ag_Queue st) \<le> queue_capacity) \<and>
     ag_Receivers st = [] \<and> ag_Closed st = [] \<and> ag_Results st = []"

lemma length_numbered [simp]: "length (numbered xs) = length xs"
  by (simp add: numbered_def)

lemma wedged_step:
  assumes "wedged conf cmd st" "agent_step conf st st'"
    and "7 \<le> length (ops (cmd_Action cmd))" "list_all (\<lambda>operation. ac_Available conf (op_Module operation)) (ops (cmd_Action cmd))"
  shows "wedged conf cmd st'"
proof -
  from assms(1) obtain rest where w: "ag_Parser st = PSending cmd 0 rest" "suffix rest (numbered (ops (cmd_Action cmd)))"
    "length rest + length (line st) = length (ops (cmd_Action cmd))" "length (ag_Queue st) \<le> queue_capacity"
    "ag_Receivers st = []" "ag_Closed st = []" "ag_Results st = []"
    by (auto simp: wedged_def)
  have short: "length (line st) \<le> 6" using w(4) by (auto simp: line_def queue_capacity_def split: runner.splits)
  from assms(2) have "agent_work conf st st'" using w(1) by cases auto
  then show ?thesis
  proof cases
    case (send cmd' ch po rest' i op)
    with w show ?thesis
      by (auto simp: wedged_def line_def suffix_def queue_capacity_def split: runner.splits)
  next
    case (unavailable cmd' ch po rest' i op e)
    with w have "po \<in> set (numbered (ops (cmd_Action cmd)))" by (auto simp: suffix_def)
    then have "ac_Available conf (op_Module (snd po))"
      using numbered_snd assms(4) by (fastforce simp: list_all_iff)
    with unavailable show ?thesis by (simp add: make_op_def)
  next
    case (run op queue now reg out)
    with w show ?thesis by (auto simp: wedged_def line_def)
  qed (use w short assms(3) in auto)
qed

text \<open>
  C14. An action with seven operations or more stops the agent. The receiver of a command starts only after
  all of its operations have been put on the channel, which holds five, and the routine that runs
  modules stands still with the first result: along every run the parser never gets to the end, so
  no receiver starts, no result is sent, and no later message is read.
\<close>

theorem seven_operations_deadlock:
  assumes "ac_Unmarshal conf msg = (cmd, None)" and "checkActionAuthorization conf now (cmd_Action cmd) = Inr ()"
    and "7 \<le> length (ops (cmd_Action cmd))"
    and "list_all (\<lambda>operation. ac_Available conf (op_Module operation)) (ops (cmd_Action cmd))"
    and "(agent_step conf)\<^sup>*\<^sup>* (start_command conf now msg agent_init) st"
  shows "(\<exists>rest. ag_Parser st = PSending cmd 0 rest \<and> rest \<noteq> []) \<and> ag_Receivers st = [] \<and> ag_Results st = []"
proof -
  have start: "wedged conf cmd (start_command conf now msg agent_init)"
    using assms(1,2) by (simp add: wedged_def start_command_def agent_init_def line_def Let_def numbered_def)
  have "wedged conf cmd st"
    using assms(5) start
    by (induction rule: rtranclp_induct) (auto intro: wedged_step [OF _ _ assms(3,4)])
  then obtain rest where "ag_Parser st = PSending cmd 0 rest" "length rest + length (line st) = length (ops (cmd_Action cmd))"
    "length (ag_Queue st) \<le> 5" "ag_Receivers st = []" "ag_Results st = []"
    by (auto simp: wedged_def queue_capacity_def)
  moreover from this(3) have "length (line st) \<le> 6" by (auto simp: line_def split: runner.splits)
  ultimately show ?thesis using assms(3) by auto
qed

section \<open>Every accepted command is answered\<close>

definition parser_chans :: "agent_state \<Rightarrow> nat list" where
  "parser_chans st = (case ag_Parser st of PIdle \<Rightarrow> [] | PSending cmd ch rest \<Rightarrow> [ch])"

definition chan_count :: "nat \<Rightarrow> module_op list \<Rightarrow> nat" where
  "chan_count ch l = length (filter (\<lambda>op. mo_Chan op = ch) l)"

definition receiver_ok :: "module_op list \<Rightarrow> receiver \<Rightarrow> bool" where
  "receiver_ok l rc \<longleftrightarrow>
     rc_Count rc < rc_Total rc \<and> rc_Count rc + chan_count (rc_Chan rc) l = rc_Total rc \<and>
     length (cmd_Results (rc_Cmd rc)) = rc_Total rc \<and>
     (\<forall>op\<in>set l. mo_Chan op = rc_Chan rc \<longrightarrow> mo_Position op < rc_Total rc)"

text \<open>The operations of the command that is being parsed come after all others.\<close>

definition parser_live :: "'ring agent_conf \<Rightarrow> module_op list \<Rightarrow> parser \<Rightarrow> bool" where
  "parser_live conf l p \<longleftrightarrow>
     (case p of PIdle \<Rightarrow> True
      | PSending cmd ch rest \<Rightarrow>
          (let n = length (ops (cmd_Action cmd))
           in 0 < n \<and> n \<le> 6 \<and> suffix rest (numbered (ops (cmd_Action cmd))) \<and>
              list_all (\<lambda>operation. ac_Available conf (op_Module operation)) (ops (cmd_Action cmd)) \<and>
              length rest + chan_count ch l = n \<and> (\<forall>op\<in>set l. mo_Chan op = ch \<longrightarrow> mo_Position op < n) \<and>
              (\<exists>old cur. l = old @ cur \<and> (\<forall>op\<in>set old. mo_Chan op \<noteq> ch) \<and> (\<forall>op\<in>set cur. mo_Chan op = ch))))"

definition agent_live :: "'ring agent_conf \<Rightarrow> agent_state \<Rightarrow> bool" where
  "agent_live conf st \<longleftrightarrow>
     \<not> ag_Crashed st \<and> parser_live conf (line st) (ag_Parser st) \<and>
     (\<forall>rc\<in>set (ag_Receivers st). receiver_ok (line st) rc) \<and>
     mset (parser_chans st) + mset (map rc_Chan (ag_Receivers st)) + mset (ag_Closed st) = mset [0..<ag_NextChan st] \<and>
     (\<forall>op\<in>set (line st). mo_Chan op \<in> set (parser_chans st) \<union> rc_Chan ` set (ag_Receivers st)) \<and>
     (\<forall>(i, op)\<in>set (ag_Running st). mo_Err op = None) \<and>
     (case ag_Runner st of RIdle \<Rightarrow> True | RDone op r \<Rightarrow> mr_Position r = mo_Position op)"

definition serviceable :: "'ring agent_conf \<Rightarrow> bool" where
  "serviceable conf \<longleftrightarrow>
     (\<forall>cmd. authorised_cmd conf cmd \<longrightarrow>
        0 < length (ops (cmd_Action cmd)) \<and> length (ops (cmd_Action cmd)) \<le> 6 \<and>
        list_all (\<lambda>operation. ac_Available conf (op_Module operation)) (ops (cmd_Action cmd)))"

lemma runModule_Position [simp]: "mr_Position (runModule conf reg out op) = mo_Position op"
  by (simp add: runModule_def Let_def split: sum.splits outcome.splits prod.splits option.splits)

lemma chan_count_simps [simp]:
  "chan_count ch [] = 0" "chan_count ch (l @ l') = chan_count ch l + chan_count ch l'"
  "chan_count ch (op # l) = (if mo_Chan op = ch then 1 else 0) + chan_count ch l"
  by (simp_all add: chan_count_def)

lemma chan_count_0: "chan_count ch l = 0 \<longleftrightarrow> (\<forall>op\<in>set l. mo_Chan op \<noteq> ch)"
  by (auto simp: chan_count_def filter_empty_conv)

lemma mset_map_remove:
  "distinct (map rc_Chan rs) \<Longrightarrow> rc \<in> set rs \<Longrightarrow>
     mset (map f rs) = add_mset (f rc) (mset (map f (filter (\<lambda>x. rc_Chan x \<noteq> rc_Chan rc) rs)))"
proof (induction rs)
  case (Cons x rs)
  show ?case
  proof (cases "x = rc")
    case True
    with Cons.prems have "\<forall>y\<in>set rs. rc_Chan y \<noteq> rc_Chan rc" by (auto simp: image_iff)
    then have "filter (\<lambda>x. rc_Chan x \<noteq> rc_Chan rc) rs = rs" by (simp add: filter_id_conv)
    with True show ?thesis by simp
  next
    case False
    with Cons.prems have "rc \<in> set rs" "rc_Chan x \<noteq> rc_Chan rc" by auto
    with Cons show ?thesis by simp
  qed
qed simp

lemma live_chans:
  assumes "agent_live conf st"
  shows "distinct (parser_chans st @ map rc_Chan (ag_Receivers st) @ ag_Closed st)"
    and "set (parser_chans st @ map rc_Chan (ag_Receivers st) @ ag_Closed st) = {..<ag_NextChan st}"
proof -
  have m: "mset (parser_chans st @ map rc_Chan (ag_Receivers st) @ ag_Closed st) = mset [0..<ag_NextChan st]"
    using assms by (simp add: agent_live_def add.assoc)
  show "distinct (parser_chans st @ map rc_Chan (ag_Receivers st) @ ag_Closed st)"
    using mset_eq_imp_distinct_iff [OF m] by simp
  show "set (parser_chans st @ map rc_Chan (ag_Receivers st) @ ag_Closed st) = {..<ag_NextChan st}"
    using mset_eq_setD [OF m] by (simp add: atLeast0LessThan)
qed

lemma receiver_ok_cong:
  "chan_count (rc_Chan rc) l' = chan_count (rc_Chan rc) l \<Longrightarrow>
   (\<And>op. op \<in> set l' \<Longrightarrow> mo_Chan op = rc_Chan rc \<Longrightarrow> op \<in> set l) \<Longrightarrow> receiver_ok l rc \<Longrightarrow> receiver_ok l' rc"
  by (auto simp: receiver_ok_def)

lemma live_send:
  assumes live: "agent_live conf st" and p: "ag_Parser st = PSending cmd ch (po # rest)"
    and op: "op = make_op conf i cmd ch po" "mo_Err op = None"
    and st': "st' = st\<lparr>ag_Parser := PSending cmd ch rest, ag_LastID := i, ag_Running := ag_Running st @ [(i, op)],
      ag_Queue := ag_Queue st @ [op]\<rparr>"
  shows "agent_live conf st'"
proof -
  have line: "line st' = line st @ [op]" by (simp add: st' line_def)
  have chan: "mo_Chan op = ch" "mo_Position op = fst po" using op by (simp_all add: make_op_def)
  from live p have pl: "parser_live conf (line st) (PSending cmd ch (po # rest))" by (simp add: agent_live_def)
  then have po: "po \<in> set (numbered (ops (cmd_Action cmd)))" by (auto simp: parser_live_def Let_def suffix_def)
  then have pos: "fst po < length (ops (cmd_Action cmd))" by (rule numbered_fst)
  from pl obtain old cur where split: "line st = old @ cur" "\<forall>op\<in>set old. mo_Chan op \<noteq> ch" "\<forall>op\<in>set cur. mo_Chan op = ch"
    by (auto simp: parser_live_def Let_def)
  have "\<exists>old cur. line st @ [op] = old @ cur \<and> (\<forall>op\<in>set old. mo_Chan op \<noteq> ch) \<and> (\<forall>op\<in>set cur. mo_Chan op = ch)"
    using split chan by (intro exI [of _ old] exI [of _ "cur @ [op]"]) simp
  moreover have "suffix rest (numbered (ops (cmd_Action cmd)))" using pl by (auto simp: parser_live_def Let_def suffix_def)
  ultimately have "parser_live conf (line st') (PSending cmd ch rest)"
    using pl pos chan by (simp add: parser_live_def Let_def line)
  moreover have "receiver_ok (line st') rc" if "rc \<in> set (ag_Receivers st)" for rc
  proof -
    from live_chans(1) [OF live] that p have "rc_Chan rc \<noteq> ch" by (auto simp: parser_chans_def)
    with live that chan show ?thesis
      by (intro receiver_ok_cong [of rc "line st'" "line st"]) (auto simp: line agent_live_def)
  qed
  ultimately show ?thesis
    using live op(2) chan unfolding agent_live_def line by (simp add: st' p parser_chans_def split: runner.splits)
qed

lemma live_receiver:
  assumes live: "agent_live conf st" and p: "ag_Parser st = PSending cmd ch []"
    and st': "st' = st\<lparr>ag_Parser := PIdle,
      ag_Receivers := ag_Receivers st @ [make_receiver ch cmd (length (ops (cmd_Action cmd)))]\<rparr>"
  shows "agent_live conf st'"
proof -
  have line: "line st' = line st" by (simp add: st' line_def)
  from live p have "parser_live conf (line st) (PSending cmd ch [])" by (simp add: agent_live_def)
  then have "receiver_ok (line st) (make_receiver ch cmd (length (ops (cmd_Action cmd))))"
    by (simp add: parser_live_def Let_def receiver_ok_def make_receiver_def)
  with live show ?thesis
    unfolding agent_live_def line by (auto simp: st' p parser_chans_def parser_live_def make_receiver_def split: runner.splits)
qed

lemma live_run:
  assumes live: "agent_live conf st" and q: "ag_Runner st = RIdle" "ag_Queue st = op # queue"
    and st': "st' = st\<lparr>ag_Queue := queue, ag_Running := al_del (mo_ID op) (ag_Running st),
      ag_Runner := RDone op (runModule conf reg out op), ag_Started := ag_Started st @ [x]\<rparr>"
  shows "agent_live conf st'"
proof -
  have line: "line st' = line st" using q by (simp add: st' line_def)
  from live q show ?thesis
    unfolding agent_live_def line by (auto simp: st' parser_chans_def al_del_def)
qed

lemma live_waiting:
  assumes live: "agent_live conf st" and rc: "rc \<in> set (ag_Receivers st)" "rc_Chan rc' = rc_Chan rc"
    and st': "ag_Receivers st' = filter (\<lambda>x. rc_Chan x \<noteq> rc_Chan rc) (ag_Receivers st) @ [rc']"
    and same: "ag_Parser st' = ag_Parser st" "ag_Closed st' = ag_Closed st" "ag_NextChan st' = ag_NextChan st"
  shows "mset (parser_chans st') + mset (map rc_Chan (ag_Receivers st')) + mset (ag_Closed st') = mset [0..<ag_NextChan st']"
    and "rc_Chan ` set (ag_Receivers st') = rc_Chan ` set (ag_Receivers st)"
proof -
  have d: "distinct (map rc_Chan (ag_Receivers st))" using live_chans(1) [OF live] by simp
  have m: "mset (map rc_Chan (ag_Receivers st')) = mset (map rc_Chan (ag_Receivers st))"
    using mset_map_remove [where f = rc_Chan, OF d rc(1)] rc(2) by (simp add: st')
  with live same show "mset (parser_chans st') + mset (map rc_Chan (ag_Receivers st')) + mset (ag_Closed st') =
      mset [0..<ag_NextChan st']"
    by (simp add: agent_live_def parser_chans_def)
  show "rc_Chan ` set (ag_Receivers st') = rc_Chan ` set (ag_Receivers st)"
    using mset_eq_setD [OF m] by simp
qed

lemma live_failed:
  assumes live: "agent_live conf st" and rc: "rc \<in> set (ag_Receivers st)"
    and ord: "mset ord = mset (map snd (ag_Running st))"
  shows "agent_live conf (settle (failed_ops conf ord rc) (rc_Chan rc) st)"
proof -
  have "set ord = snd ` set (ag_Running st)" using arg_cong [OF ord, of set_mset] by simp
  with live have "\<forall>op\<in>set ord. mo_Err op = None" by (fastforce simp: agent_live_def)
  then have f: "failed_ops conf ord rc = Waiting (rc\<lparr>rc_Started := True\<rparr>)" by (rule failed_ops_none)
  let ?st = "settle (failed_ops conf ord rc) (rc_Chan rc) st"
  have recs: "ag_Receivers ?st = filter (\<lambda>x. rc_Chan x \<noteq> rc_Chan rc) (ag_Receivers st) @ [rc\<lparr>rc_Started := True\<rparr>]"
    "ag_Closed ?st = ag_Closed st" by (simp_all add: f settle_def Let_def)
  note w = live_waiting [OF live rc _ recs(1), simplified recs(2)]
  have line: "line ?st = line st" by (simp add: line_def)
  have "receiver_ok (line st) (rc\<lparr>rc_Started := True\<rparr>)"
    using live rc by (auto simp: agent_live_def receiver_ok_def)
  with live w recs show ?thesis
    unfolding agent_live_def line by (auto simp: parser_chans_def split: runner.splits parser.splits)
qed

lemma parser_live_tail:
  assumes "parser_live conf (op # l) p" "\<And>cmd ch rest. p = PSending cmd ch rest \<Longrightarrow> ch \<noteq> mo_Chan op"
  shows "parser_live conf l p"
proof (cases p)
  case PIdle
  then show ?thesis by (simp add: parser_live_def)
next
  case (PSending cmd ch rest)
  with assms(2) have ne: "ch \<noteq> mo_Chan op" by blast
  from assms(1) PSending obtain old cur where s: "op # l = old @ cur" "\<forall>op\<in>set old. mo_Chan op \<noteq> ch"
    "\<forall>op\<in>set cur. mo_Chan op = ch"
    by (auto simp: parser_live_def Let_def)
  with ne have "l = tl old @ cur \<and> (\<forall>op\<in>set (tl old). mo_Chan op \<noteq> ch)"
    by (cases old) (auto split: if_splits)
  with s(3) have "\<exists>old cur. l = old @ cur \<and> (\<forall>op\<in>set old. mo_Chan op \<noteq> ch) \<and> (\<forall>op\<in>set cur. mo_Chan op = ch)" by blast
  with assms(1) PSending ne show ?thesis by (auto simp: parser_live_def Let_def)
qed

lemma live_deliver:
  assumes live: "agent_live conf st" and run: "ag_Runner st = RDone op r"
    and rc: "rc \<in> set (ag_Receivers st)" "rc_Chan rc = mo_Chan op"
  shows "agent_live conf (settle (receive_one conf r rc) (rc_Chan rc) (st\<lparr>ag_Runner := RIdle\<rparr>))"
proof -
  let ?st = "settle (receive_one conf r rc) (rc_Chan rc) (st\<lparr>ag_Runner := RIdle\<rparr>)"
  let ?others = "filter (\<lambda>x. rc_Chan x \<noteq> rc_Chan rc) (ag_Receivers st)"
  have l: "line st = op # ag_Queue st" and l': "line ?st = ag_Queue st" by (simp_all add: line_def run)
  note d = live_chans(1) [OF live]
  have ok: "receiver_ok (op # ag_Queue st) rc'" if "rc' \<in> set (ag_Receivers st)" for rc'
    using live that l by (simp add: agent_live_def)
  have pos: "mr_Position r < rc_Total rc" "rc_Total rc = length (cmd_Results (rc_Cmd rc))"
  proof -
    have "mr_Position r = mo_Position op" using live by (simp add: agent_live_def run)
    then show "mr_Position r < rc_Total rc" "rc_Total rc = length (cmd_Results (rc_Cmd rc))"
      using ok [OF rc(1)] rc(2) by (simp_all add: receiver_ok_def)
  qed
  then have one: "receive_one conf r rc = count_one rc (put_result conf r (rc_Cmd rc))"
    by (simp add: receive_one_eq)
  have others: "receiver_ok (ag_Queue st) x" if "x \<in> set ?others" for x
  proof -
    from that rc(2) have x: "x \<in> set (ag_Receivers st)" "rc_Chan x \<noteq> mo_Chan op" by auto
    show ?thesis by (rule receiver_ok_cong [OF _ _ ok [OF x(1)]]) (use x(2) in auto)
  qed
  have "parser_live conf (op # ag_Queue st) (ag_Parser st)" using live by (simp add: agent_live_def l)
  moreover have "ch \<noteq> mo_Chan op" if "ag_Parser st = PSending cmd ch rest" for cmd ch rest
    using d rc(2) imageI [OF rc(1), of rc_Chan] by (auto simp: parser_chans_def that)
  ultimately have "parser_live conf (ag_Queue st) (ag_Parser st)" by (rule parser_live_tail)
  note common = this others live run
  have chans: "\<forall>x\<in>set (ag_Queue st). mo_Chan x \<in> set (parser_chans st) \<union> rc_Chan ` set (ag_Receivers st)"
    using live l by (simp add: agent_live_def)
  have pc: "parser_chans ?st = parser_chans st" by (simp add: parser_chans_def)
  show ?thesis
  proof (cases "rc_Total rc \<le> Suc (rc_Count rc)")
    case True
    then have st: "ag_Receivers ?st = ?others" "ag_Closed ?st = rc_Chan rc # ag_Closed st"
      by (simp_all add: one count_one_def settle_def Let_def)
    have "chan_count (rc_Chan rc) (ag_Queue st) = 0" using ok [OF rc(1)] True rc(2) by (simp add: receiver_ok_def)
    then have "\<forall>x\<in>set (ag_Queue st). mo_Chan x \<in> set (parser_chans st) \<union> rc_Chan ` set ?others"
      using chans by (force simp: chan_count_0)
    moreover have "mset (parser_chans st) + mset (map rc_Chan ?others) + mset (rc_Chan rc # ag_Closed st) =
        mset [0..<ag_NextChan st]"
      using mset_map_remove [where f = rc_Chan, of "ag_Receivers st" rc] d rc(1) live by (simp add: agent_live_def)
    ultimately show ?thesis using common unfolding agent_live_def l' pc st by auto
  next
    case False
    let ?rc = "rc\<lparr>rc_Cmd := put_result conf r (rc_Cmd rc), rc_Count := Suc (rc_Count rc)\<rparr>"
    from False have st: "ag_Receivers ?st = ?others @ [?rc]" "ag_Closed ?st = ag_Closed st"
      by (simp_all add: one count_one_def settle_def Let_def)
    have "receiver_ok (ag_Queue st) ?rc" using ok [OF rc(1)] False rc(2) by (auto simp: receiver_ok_def)
    with others have oks: "\<forall>x\<in>set (?others @ [?rc]). receiver_ok (ag_Queue st) x" by auto
    have "rc_Chan ?rc = rc_Chan rc" by simp
    note w = live_waiting [OF live rc(1) this st(1)]
    show ?thesis
      using common(1,3,4) oks w chans unfolding agent_live_def l' pc by (simp add: st)
  qed
qed

lemma live_work:
  assumes "agent_live conf st" "agent_work conf st st'"
  shows "agent_live conf st'"
  using assms(2)
proof cases
  case (send cmd ch po rest i op)
  then show ?thesis using live_send [OF assms(1)] by blast
next
  case (unavailable cmd ch po rest i op e)
  with assms(1) have "po \<in> set (numbered (ops (cmd_Action cmd)))"
    "list_all (\<lambda>operation. ac_Available conf (op_Module operation)) (ops (cmd_Action cmd))"
    by (auto simp: agent_live_def parser_live_def Let_def suffix_def)
  then have "ac_Available conf (op_Module (snd po))" using numbered_snd by (fastforce simp: list_all_iff)
  with unavailable show ?thesis by (simp add: make_op_def)
next
  case (receiver cmd ch)
  then show ?thesis using live_receiver [OF assms(1)] by blast
next
  case (run op queue now reg out)
  then show ?thesis using live_run [OF assms(1)] by blast
next
  case (failed rc ord)
  then show ?thesis using live_failed [OF assms(1)] by blast
next
  case (deliver op r rc)
  then show ?thesis using live_deliver [OF assms(1)] by blast
next
  case (closed op r)
  with assms(1) have "mo_Chan op \<in> set (parser_chans st) \<union> rc_Chan ` set (ag_Receivers st)"
    by (simp add: agent_live_def line_def)
  with live_chans(1) [OF assms(1)] closed show ?thesis by auto
qed

lemma live_parse:
  assumes live: "agent_live conf st" and "serviceable conf" and idle: "ag_Parser st = PIdle"
  shows "agent_live conf (start_command conf now msg st)"
proof (cases rule: start_command_cases [of conf now msg st])
  case (refused rs)
  have "line (start_command conf now msg st) = line st" by (simp add: line_def)
  with live refused idle show ?thesis by (simp add: agent_live_def parser_chans_def)
next
  case (accepted cmd)
  let ?st = "start_command conf now msg st"
  from accepted(1,2) assms(2) have n: "0 < length (ops (cmd_Action cmd))" "length (ops (cmd_Action cmd)) \<le> 6"
    "list_all (\<lambda>operation. ac_Available conf (op_Module operation)) (ops (cmd_Action cmd))"
    unfolding serviceable_def authorised_cmd_def by blast+
  have line: "line ?st = line st" by (simp add: line_def)
  have pc: "parser_chans st = []" "parser_chans ?st = [ag_NextChan st]"
    by (simp_all add: parser_chans_def idle accepted(4))
  have "mo_Chan op < ag_NextChan st" if "op \<in> set (line st)" for op
    using live live_chans(2) [OF live] that pc by (force simp: agent_live_def)
  then have old: "\<forall>op\<in>set (line st). mo_Chan op \<noteq> ag_NextChan st" by (metis less_irrefl_nat)
  then have "chan_count (ag_NextChan st) (line st) = 0" by (simp add: chan_count_0)
  moreover have "line st = line st @ [] \<and> (\<forall>op\<in>set (line st). mo_Chan op \<noteq> ag_NextChan st)" using old by simp
  then have "\<exists>old cur. line st = old @ cur \<and> (\<forall>op\<in>set old. mo_Chan op \<noteq> ag_NextChan st) \<and>
      (\<forall>op\<in>set cur. mo_Chan op = ag_NextChan st)" by (metis empty_iff empty_set)
  ultimately have "parser_live conf (line st) (ag_Parser ?st)"
    using n old by (simp add: parser_live_def Let_def accepted(4))
  with live show ?thesis unfolding agent_live_def line by (simp add: pc accepted(5))
qed

text \<open>A bound on the number of steps that are left without further messages.\<close>

definition unstarted :: "receiver list \<Rightarrow> nat" where
  "unstarted rs = length (filter (\<lambda>rc. \<not> rc_Started rc) rs)"

definition work_left :: "agent_state \<Rightarrow> nat" where
  "work_left st =
     (case ag_Parser st of PIdle \<Rightarrow> 0 | PSending cmd ch rest \<Rightarrow> 3 * length rest + 2) +
     2 * length (ag_Queue st) + (case ag_Runner st of RIdle \<Rightarrow> 0 | RDone op r \<Rightarrow> 1) + unstarted (ag_Receivers st)"

lemma unstarted_remove:
  "rc \<in> set rs \<Longrightarrow> unstarted (filter (\<lambda>x. rc_Chan x \<noteq> rc_Chan rc) rs) + (if rc_Started rc then 0 else 1) \<le> unstarted rs"
proof (induction rs)
  case (Cons x rs)
  have mono: "unstarted (filter P rs) \<le> unstarted rs" for P
    unfolding unstarted_def by (induction rs) auto
  show ?case
  proof (cases "rc \<in> set rs")
    case True
    with Cons show ?thesis by (auto simp: unstarted_def)
  next
    case False
    with Cons.prems mono [of "\<lambda>x. rc_Chan x \<noteq> rc_Chan rc"] show ?thesis by (auto simp: unstarted_def)
  qed
qed simp

lemma receive_one_started:
  "receive_one conf r rc = Waiting rc' \<Longrightarrow> rc_Started rc' = rc_Started rc"
  by (auto simp: receive_one_eq count_one_def split: if_splits)

lemma work_less:
  assumes "agent_live conf st" "agent_work conf st st'"
  shows "work_left st' < work_left st"
  using assms(2)
proof cases
  case (failed rc ord)
  have "set ord = snd ` set (ag_Running st)" using arg_cong [OF failed(5), of set_mset] by simp
  with assms(1) have "\<forall>op\<in>set ord. mo_Err op = None" by (fastforce simp: agent_live_def)
  then have "failed_ops conf ord rc = Waiting (rc\<lparr>rc_Started := True\<rparr>)" by (rule failed_ops_none)
  with failed unstarted_remove [of rc "ag_Receivers st"] show ?thesis
    by (simp add: work_left_def) (simp add: settle_def unstarted_def)
next
  case (deliver op r rc)
  have "unstarted (ag_Receivers st') \<le> unstarted (ag_Receivers st)"
    using unstarted_remove [OF deliver(4)] deliver(1,5) receive_one_started [of conf r rc]
    by (cases "receive_one conf r rc") (auto simp: settle_def Let_def unstarted_def)
  with deliver show ?thesis by (simp add: work_left_def)
next
  case (closed op r)
  with assms(1) have "mo_Chan op \<in> set (parser_chans st) \<union> rc_Chan ` set (ag_Receivers st)"
    by (simp add: agent_live_def line_def)
  with live_chans(1) [OF assms(1)] closed show ?thesis by auto
qed (auto simp: work_left_def unstarted_def make_receiver_def split: runner.splits parser.splits)

lemma live_send_possible:
  assumes live: "agent_live conf st" and p: "ag_Parser st = PSending cmd ch rest" and q: "length (ag_Queue st) < 5 \<or> rest = []"
  shows "\<exists>st'. agent_work conf st st'"
proof (cases rest)
  case Nil
  with live p show ?thesis by (blast intro: agent_work.receiver dest: agent_live_def [THEN iffD1])
next
  case (Cons po rest')
  from live p Cons have "po \<in> set (numbered (ops (cmd_Action cmd)))"
    "list_all (\<lambda>operation. ac_Available conf (op_Module operation)) (ops (cmd_Action cmd))"
    by (auto simp: agent_live_def parser_live_def Let_def suffix_def)
  then have "ac_Available conf (op_Module (snd po))" using numbered_snd by (fastforce simp: list_all_iff)
  then have "mo_Err (make_op conf (ag_LastID st + 1) cmd ch po) = None" by (simp add: make_op_def)
  moreover have "\<not> ag_Crashed st" "length (ag_Queue st) < queue_capacity" "ag_LastID st < ag_LastID st + 1"
    using live q Cons by (auto simp: agent_live_def queue_capacity_def)
  ultimately show ?thesis using agent_work.send [OF _ p [unfolded Cons] _ refl] by blast
qed

lemma live_progress:
  assumes live: "agent_live conf st" and stuck: "\<nexists>st'. agent_work conf st st'"
  shows "ag_Parser st = PIdle \<and> line st = [] \<and> ag_Receivers st = []"
proof -
  have alive: "\<not> ag_Crashed st" using live by (simp add: agent_live_def)
  have runner: "ag_Runner st = RIdle"
  proof (rule ccontr)
    assume "ag_Runner st \<noteq> RIdle"
    then obtain op r where run: "ag_Runner st = RDone op r" by (cases "ag_Runner st") auto
    have line: "line st = op # ag_Queue st" by (simp add: line_def run)
    with live have "mo_Chan op \<in> set (parser_chans st) \<union> rc_Chan ` set (ag_Receivers st)"
      by (simp add: agent_live_def)
    then consider (parser) cmd ch rest where "ag_Parser st = PSending cmd ch rest" "mo_Chan op = ch"
      | (receiver) rc where "rc \<in> set (ag_Receivers st)" "rc_Chan rc = mo_Chan op"
      by (cases "ag_Parser st") (auto simp: parser_chans_def)
    then show False
    proof cases
      case parser
      with live line have pl: "parser_live conf (op # ag_Queue st) (PSending cmd ch rest)" by (simp add: agent_live_def)
      then obtain old cur where s: "op # ag_Queue st = old @ cur" "\<forall>op\<in>set old. mo_Chan op \<noteq> ch" "\<forall>op\<in>set cur. mo_Chan op = ch"
        by (auto simp: parser_live_def Let_def)
      with parser(2) have "old = []" by (cases old) auto
      with s have "chan_count ch (op # ag_Queue st) = length (op # ag_Queue st)"
        by (simp add: chan_count_def filter_id_conv)
      with pl have "length (ag_Queue st) < 5 \<or> rest = []" by (cases rest) (auto simp: parser_live_def Let_def)
      from live_send_possible [OF live parser(1) this] stuck show False by blast
    next
      case receiver
      show False
      proof (cases "rc_Started rc")
        case True
        with stuck agent_work.deliver [OF alive run receiver(1)] receiver(2) show False by blast
      next
        case False
        with stuck agent_work.failed [OF alive receiver(1) False refl] show False by blast
      qed
    qed
  qed
  have queue: "ag_Queue st = []"
    using stuck agent_work.run [OF alive runner] by (cases "ag_Queue st") blast+
  then have line: "line st = []" by (simp add: line_def runner)
  moreover have "ag_Parser st = PIdle"
    using stuck queue live_send_possible [OF live] by (cases "ag_Parser st") auto
  moreover have "ag_Receivers st = []"
    using live line by (cases "ag_Receivers st") (auto simp: agent_live_def receiver_ok_def)
  ultimately show ?thesis by blast
qed

lemma agent_live_run:
  assumes "serviceable conf"
  shows "(agent_step conf)\<^sup>*\<^sup>* agent_init st \<Longrightarrow> agent_live conf st"
proof (induction rule: rtranclp_induct)
  case base
  show ?case by (simp add: agent_live_def agent_init_def parser_live_def line_def parser_chans_def)
next
  case (step st1 st2)
  from step.hyps(2) show ?case
    using step.IH live_parse [OF step.IH assms] live_work [OF step.IH] by cases auto
qed

lemma work_runs:
  "(agent_work conf ^^ k) st st' \<Longrightarrow> agent_live conf st \<Longrightarrow> agent_live conf st' \<and> k + work_left st' \<le> work_left st"
proof (induction k arbitrary: st')
  case (Suc k)
  then obtain st1 where 1: "(agent_work conf ^^ k) st st1" "agent_work conf st1 st'" by auto
  with Suc have "agent_live conf st1" "k + work_left st1 \<le> work_left st" by auto
  with work_less [of conf st1 st'] live_work [of conf st1 st'] 1(2) show ?case by auto
qed simp

text \<open>
  The runs that start with given messages, each with the time at which it was parsed, and the answers that are
  due for them: one for each command that is accepted, and one for each that is refused with an identifier.
\<close>

inductive agent_takes :: "'ring agent_conf \<Rightarrow> (time \<times> string) list \<Rightarrow> agent_state \<Rightarrow> bool" for conf where
  takes_start: "agent_takes conf [] agent_init"
| takes_parse: "agent_takes conf msgs st \<Longrightarrow> \<not> ag_Crashed st \<Longrightarrow> ag_Parser st = PIdle \<Longrightarrow>
    agent_takes conf (msgs @ [(now, msg)]) (start_command conf now msg st)"
| takes_work: "agent_takes conf msgs st \<Longrightarrow> agent_work conf st st' \<Longrightarrow> agent_takes conf msgs st'"

definition answer_key :: "command \<Rightarrow> mig_id \<times> action" where
  "answer_key cmd = (cmd_ID cmd, cmd_Action cmd)"

definition answer_due :: "'ring agent_conf \<Rightarrow> time \<times> string \<Rightarrow> (mig_id \<times> action) list" where
  "answer_due conf m =
     (case ac_Unmarshal conf (snd m) of (cmd, e) \<Rightarrow>
        if e = None \<and> is_ok (checkActionAuthorization conf (fst m) (cmd_Action cmd)) \<or> 0 < cmd_ID cmd
        then [answer_key cmd] else [])"

text \<open>The result is the output of a run of the module for the operation at this position.\<close>

definition ran :: "'ring agent_conf \<Rightarrow> command \<Rightarrow> nat \<Rightarrow> module_result \<Rightarrow> bool" where
  "ran conf cmd i res \<longleftrightarrow>
     (\<exists>op reg out. op_of cmd op \<and> mo_Position op = i \<and> res = output_of conf (runModule conf reg out op))"

definition answered :: "'ring agent_conf \<Rightarrow> command \<Rightarrow> bool" where
  "answered conf c \<longleftrightarrow> length (cmd_Results c) = length (ops (cmd_Action c)) \<and>
     (cmd_Status c = ''failed'' \<and> (\<exists>e. \<forall>res\<in>set (cmd_Results c). res = zero_result\<lparr>res_Errors := [e]\<rparr>) \<or>
      (\<forall>i<length (cmd_Results c). ran conf c i (cmd_Results c ! i)))"

definition pending_keys :: "agent_state \<Rightarrow> (mig_id \<times> action) list" where
  "pending_keys st =
     (case ag_Parser st of PIdle \<Rightarrow> [] | PSending cmd ch rest \<Rightarrow> [answer_key cmd]) @
     map (\<lambda>rc. answer_key (rc_Cmd rc)) (ag_Receivers st)"

definition in_line :: "module_op list \<Rightarrow> nat \<Rightarrow> nat \<Rightarrow> bool" where
  "in_line l ch i \<longleftrightarrow> (\<exists>op\<in>set l. mo_Chan op = ch \<and> mo_Position op = i)"

text \<open>Every operation of a command is still to come, in the line, or its result is there.\<close>

definition receiver_exact :: "'ring agent_conf \<Rightarrow> module_op list \<Rightarrow> receiver \<Rightarrow> bool" where
  "receiver_exact conf l rc \<longleftrightarrow>
     rc_Total rc = length (ops (cmd_Action (rc_Cmd rc))) \<and>
     (\<forall>op\<in>set l. mo_Chan op = rc_Chan rc \<longrightarrow> op_of (rc_Cmd rc) op) \<and>
     (\<forall>i<rc_Total rc. in_line l (rc_Chan rc) i \<or> ran conf (rc_Cmd rc) i (cmd_Results (rc_Cmd rc) ! i))"

definition parser_exact :: "module_op list \<Rightarrow> parser \<Rightarrow> bool" where
  "parser_exact l p \<longleftrightarrow>
     (case p of PIdle \<Rightarrow> True
      | PSending cmd ch rest \<Rightarrow>
          (\<forall>op\<in>set l. mo_Chan op = ch \<longrightarrow> op_of cmd op) \<and>
          (\<forall>i<length (ops (cmd_Action cmd)). i \<in> fst ` set rest \<or> in_line l ch i))"

definition agent_exact :: "'ring agent_conf \<Rightarrow> (time \<times> string) list \<Rightarrow> agent_state \<Rightarrow> bool" where
  "agent_exact conf msgs st \<longleftrightarrow>
     mset (map answer_key (ag_Results st)) + mset (pending_keys st) = mset (concat (map (answer_due conf) msgs)) \<and>
     (\<forall>c\<in>set (ag_Results st). answered conf c) \<and>
     (\<forall>rc\<in>set (ag_Receivers st). receiver_exact conf (line st) rc) \<and>
     parser_exact (line st) (ag_Parser st) \<and>
     (case ag_Runner st of RIdle \<Rightarrow> True | RDone op r \<Rightarrow> \<exists>reg out. r = runModule conf reg out op)"

lemma op_of_cong: "cmd_Action cmd' = cmd_Action cmd \<Longrightarrow> op_of cmd' op = op_of cmd op"
  by (simp add: op_of_def)

lemma ran_cong: "cmd_Action cmd' = cmd_Action cmd \<Longrightarrow> ran conf cmd' i res = ran conf cmd i res"
  by (simp add: ran_def op_of_def)

lemma put_result_fields [simp]:
  "cmd_Action (put_result conf r cmd) = cmd_Action cmd" "answer_key (put_result conf r cmd) = answer_key cmd"
  "cmd_Results (put_result conf r cmd) = (cmd_Results cmd)[mr_Position r := output_of conf r]"
  by (simp_all add: put_result_def answer_key_def)

lemma in_line_simps [simp]:
  "\<not> in_line [] ch i" "in_line (op # l) ch i \<longleftrightarrow> mo_Chan op = ch \<and> mo_Position op = i \<or> in_line l ch i"
  "in_line (l @ l') ch i \<longleftrightarrow> in_line l ch i \<or> in_line l' ch i"
  by (auto simp: in_line_def)

lemma chan_count_line: "chan_count ch l = 0 \<Longrightarrow> \<not> in_line l ch i"
  by (auto simp: chan_count_0 in_line_def)

lemma receiver_exact_other:
  "receiver_exact conf (op # l) rc \<Longrightarrow> rc_Chan rc \<noteq> mo_Chan op \<Longrightarrow> receiver_exact conf l rc"
  by (auto simp: receiver_exact_def)

lemma receiver_exact_append:
  "receiver_exact conf l rc \<Longrightarrow> rc_Chan rc \<noteq> mo_Chan op \<Longrightarrow> receiver_exact conf (l @ [op]) rc"
  by (auto simp: receiver_exact_def)

lemma live_line_old:
  assumes "agent_live conf st" and "ag_Parser st = PIdle"
  shows "\<forall>op\<in>set (line st). mo_Chan op \<noteq> ag_NextChan st"
proof -
  have "mo_Chan op < ag_NextChan st" if "op \<in> set (line st)" for op
    using assms live_chans(2) [OF assms(1)] that by (force simp: agent_live_def parser_chans_def)
  then show ?thesis by (metis less_irrefl_nat)
qed

lemma refusal_answered: "answered conf (failed_command conf cmd e)"
  by (auto simp: answered_def failed_command_def)

lemma start_command_refused:
  assumes "ac_Unmarshal conf msg = (cmd, e)" and "\<not> (e = None \<and> is_ok (checkActionAuthorization conf now (cmd_Action cmd)))"
  shows "ag_Parser (start_command conf now msg st) = ag_Parser st \<and>
    (\<exists>e'. ag_Results (start_command conf now msg st) =
       ag_Results st @ (if 0 < cmd_ID cmd then [failed_command conf cmd e'] else []))"
proof (cases e)
  case None
  with assms obtain e' where "checkActionAuthorization conf now (cmd_Action cmd) = Inl e'"
    by (cases "checkActionAuthorization conf now (cmd_Action cmd)") (auto simp: is_ok_iff)
  with None assms(1) show ?thesis by (auto simp: start_command_def Let_def)
next
  case (Some e')
  with assms(1) show ?thesis by (auto simp: start_command_def Let_def)
qed

lemma exact_parse:
  assumes live: "agent_live conf st" and exact: "agent_exact conf msgs st" and idle: "ag_Parser st = PIdle"
  shows "agent_exact conf (msgs @ [(now, msg)]) (start_command conf now msg st)"
proof -
  let ?st = "start_command conf now msg st"
  have line: "line ?st = line st" by (simp add: line_def)
  obtain cmd e where u: "ac_Unmarshal conf msg = (cmd, e)" by fastforce
  show ?thesis
  proof (cases "e = None \<and> is_ok (checkActionAuthorization conf now (cmd_Action cmd))")
    case True
    with u have st: "ag_Parser ?st = PSending cmd (ag_NextChan st) (numbered (ops (cmd_Action cmd)))"
      "ag_Results ?st = ag_Results st" and due: "answer_due conf (now, msg) = [answer_key cmd]"
      by (auto simp: start_command_def Let_def numbered_def is_ok_iff answer_due_def)
    have "i \<in> fst ` set (numbered xs)" if "i < length xs" for i and xs :: "operation list"
      using that numbered_nth [of i "xs ! i" xs] image_eqI [of i fst "(i, xs ! i)"] by simp
    with live_line_old [OF live idle] have "parser_exact (line st) (ag_Parser ?st)"
      by (simp add: st parser_exact_def)
    with exact idle due st show ?thesis unfolding agent_exact_def line by (simp add: pending_keys_def)
  next
    case False
    from start_command_refused [OF u False, of st] obtain e' where st: "ag_Parser ?st = PIdle"
      "ag_Results ?st = ag_Results st @ (if 0 < cmd_ID cmd then [failed_command conf cmd e'] else [])"
      using idle by metis
    have "map answer_key (if 0 < cmd_ID cmd then [failed_command conf cmd e'] else []) = answer_due conf (now, msg)"
      using False u by (auto simp: answer_due_def failed_command_def answer_key_def)
    with st have st: "\<exists>rs. ag_Parser ?st = PIdle \<and> ag_Results ?st = ag_Results st @ rs \<and>
        list_all (answered conf) rs \<and> map answer_key rs = answer_due conf (now, msg)"
      by (intro exI [of _ "if 0 < cmd_ID cmd then [failed_command conf cmd e'] else []"]) (simp add: refusal_answered)
    then obtain rs where st: "ag_Parser ?st = PIdle" "ag_Results ?st = ag_Results st @ rs" "list_all (answered conf) rs"
      "map answer_key rs = answer_due conf (now, msg)" by blast
    with exact idle show ?thesis
      unfolding agent_exact_def line by (auto simp: pending_keys_def list_all_iff ac_simps)
  qed
qed

lemma exact_send:
  assumes live: "agent_live conf st" and exact: "agent_exact conf msgs st"
    and p: "ag_Parser st = PSending cmd ch (po # rest)" and op: "op = make_op conf i cmd ch po"
    and st': "st' = st\<lparr>ag_Parser := PSending cmd ch rest, ag_LastID := i, ag_Running := ag_Running st @ [(i, op)],
      ag_Queue := ag_Queue st @ [op]\<rparr>"
  shows "agent_exact conf msgs st'"
proof -
  have line: "line st' = line st @ [op]" by (simp add: st' line_def)
  have chan: "mo_Chan op = ch" "mo_Position op = fst po" using op by (simp_all add: make_op_def)
  from live p have "po \<in> set (numbered (ops (cmd_Action cmd)))"
    by (auto simp: agent_live_def parser_live_def Let_def suffix_def)
  then have "op_of cmd op" using make_op_of [of "fst po" "snd po" cmd conf i ch] op by simp
  with exact p chan have "parser_exact (line st') (PSending cmd ch rest)"
    unfolding agent_exact_def parser_exact_def line by auto
  moreover have "receiver_exact conf (line st') rc" if "rc \<in> set (ag_Receivers st)" for rc
  proof -
    from live_chans(1) [OF live] that p have "rc_Chan rc \<noteq> ch" by (auto simp: parser_chans_def)
    with exact that chan show ?thesis unfolding line by (simp add: agent_exact_def receiver_exact_append)
  qed
  ultimately show ?thesis using exact unfolding agent_exact_def by (simp add: st' p pending_keys_def)
qed

lemma exact_receiver:
  assumes exact: "agent_exact conf msgs st" and p: "ag_Parser st = PSending cmd ch []"
    and st': "st' = st\<lparr>ag_Parser := PIdle,
      ag_Receivers := ag_Receivers st @ [make_receiver ch cmd (length (ops (cmd_Action cmd)))]\<rparr>"
  shows "agent_exact conf msgs st'"
proof -
  have line: "line st' = line st" by (simp add: st' line_def)
  from exact p have "parser_exact (line st) (PSending cmd ch [])" by (simp add: agent_exact_def)
  then have "receiver_exact conf (line st) (make_receiver ch cmd (length (ops (cmd_Action cmd))))"
    by (auto simp: parser_exact_def receiver_exact_def make_receiver_def op_of_def)
  with exact p show ?thesis
    unfolding agent_exact_def line
    by (auto simp: st' pending_keys_def parser_exact_def make_receiver_def answer_key_def ac_simps)
qed

lemma exact_run:
  assumes exact: "agent_exact conf msgs st" and q: "ag_Runner st = RIdle" "ag_Queue st = op # queue"
    and st': "st' = st\<lparr>ag_Queue := queue, ag_Running := al_del (mo_ID op) (ag_Running st),
      ag_Runner := RDone op (runModule conf reg out op), ag_Started := ag_Started st @ [x]\<rparr>"
  shows "agent_exact conf msgs st'"
proof -
  have line: "line st' = line st" using q by (simp add: st' line_def)
  from exact q show ?thesis unfolding agent_exact_def line by (auto simp: st' pending_keys_def)
qed

lemma exact_failed:
  assumes live: "agent_live conf st" and exact: "agent_exact conf msgs st" and rc: "rc \<in> set (ag_Receivers st)"
    and ord: "mset ord = mset (map snd (ag_Running st))"
  shows "agent_exact conf msgs (settle (failed_ops conf ord rc) (rc_Chan rc) st)"
proof -
  have "set ord = snd ` set (ag_Running st)" using arg_cong [OF ord, of set_mset] by simp
  with live have "\<forall>op\<in>set ord. mo_Err op = None" by (fastforce simp: agent_live_def)
  then have f: "failed_ops conf ord rc = Waiting (rc\<lparr>rc_Started := True\<rparr>)" by (rule failed_ops_none)
  let ?st = "settle (failed_ops conf ord rc) (rc_Chan rc) st"
  let ?others = "filter (\<lambda>x. rc_Chan x \<noteq> rc_Chan rc) (ag_Receivers st)"
  have st: "ag_Receivers ?st = ?others @ [rc\<lparr>rc_Started := True\<rparr>]" "ag_Results ?st = ag_Results st"
    by (simp_all add: f settle_def Let_def)
  have line: "line ?st = line st" by (simp add: line_def)
  have "distinct (map rc_Chan (ag_Receivers st))" using live_chans(1) [OF live] by simp
  from mset_map_remove [OF this rc, of "\<lambda>rc. answer_key (rc_Cmd rc)"]
  have "mset (pending_keys ?st) = mset (pending_keys st)"
    by (simp add: pending_keys_def st)
  moreover have "receiver_exact conf (line st) (rc\<lparr>rc_Started := True\<rparr>)"
    using exact rc by (simp add: agent_exact_def receiver_exact_def)
  ultimately show ?thesis using exact unfolding agent_exact_def line by (auto simp: st)
qed

lemma deliver_exact:
  assumes "receiver_exact conf (op # l) rc" and "rc_Chan rc = mo_Chan op" and "r = runModule conf reg out op"
    and "length (cmd_Results (rc_Cmd rc)) = rc_Total rc" and "mo_Position op < rc_Total rc"
  shows "receiver_exact conf l (rc\<lparr>rc_Cmd := put_result conf r (rc_Cmd rc), rc_Count := n\<rparr>)"
proof -
  let ?cmd = "put_result conf r (rc_Cmd rc)"
  have r: "mr_Position r = mo_Position op" using assms(3) by simp
  from assms(1,2) have "op_of (rc_Cmd rc) op" by (simp add: receiver_exact_def)
  then have ran: "ran conf ?cmd (mo_Position op) (output_of conf r)"
    using assms(3) by (auto simp: ran_def op_of_def)
  have "in_line l (rc_Chan rc) i \<or> ran conf ?cmd i (cmd_Results ?cmd ! i)" if "i < rc_Total rc" for i
  proof (cases "i = mo_Position op")
    case True
    with ran assms(4,5) show ?thesis by (simp add: r)
  next
    case False
    with assms(1) that have "in_line l (rc_Chan rc) i \<or> ran conf (rc_Cmd rc) i (cmd_Results (rc_Cmd rc) ! i)"
      by (auto simp: receiver_exact_def)
    with False show ?thesis by (auto simp: r ran_def op_of_def)
  qed
  with assms(1) show ?thesis by (simp add: receiver_exact_def op_of_def)
qed

lemma parser_exact_tail:
  "parser_exact (op # l) p \<Longrightarrow> (\<And>cmd ch rest. p = PSending cmd ch rest \<Longrightarrow> ch \<noteq> mo_Chan op) \<Longrightarrow> parser_exact l p"
  by (auto simp: parser_exact_def split: parser.splits)

lemma exact_deliver:
  assumes live: "agent_live conf st" and exact: "agent_exact conf msgs st" and run: "ag_Runner st = RDone op r"
    and rc: "rc \<in> set (ag_Receivers st)" "rc_Chan rc = mo_Chan op"
  shows "agent_exact conf msgs (settle (receive_one conf r rc) (rc_Chan rc) (st\<lparr>ag_Runner := RIdle\<rparr>))"
proof -
  let ?st = "settle (receive_one conf r rc) (rc_Chan rc) (st\<lparr>ag_Runner := RIdle\<rparr>)"
  let ?others = "filter (\<lambda>x. rc_Chan x \<noteq> rc_Chan rc) (ag_Receivers st)"
  let ?cmd = "put_result conf r (rc_Cmd rc)"
  have l: "line st = op # ag_Queue st" and l': "line ?st = ag_Queue st" by (simp_all add: line_def run)
  note d = live_chans(1) [OF live]
  have ok: "receiver_ok (op # ag_Queue st) rc" using live rc(1) l by (simp add: agent_live_def)
  have "mr_Position r = mo_Position op" using live by (simp add: agent_live_def run)
  then have one: "receive_one conf r rc = count_one rc ?cmd"
    using ok rc(2) by (simp add: receive_one_eq receiver_ok_def)
  obtain reg out where r: "r = runModule conf reg out op" using exact run by (auto simp: agent_exact_def)
  have ex: "receiver_exact conf (op # ag_Queue st) rc" using exact rc(1) l by (simp add: agent_exact_def)
  have new: "receiver_exact conf (ag_Queue st) (rc\<lparr>rc_Cmd := ?cmd, rc_Count := n\<rparr>)" for n
    by (rule deliver_exact [OF ex rc(2) r]) (use ok rc(2) in \<open>auto simp: receiver_ok_def\<close>)
  have others: "receiver_exact conf (ag_Queue st) x" if "x \<in> set ?others" for x
    using exact that rc(2) receiver_exact_other [of conf op "ag_Queue st" x] by (simp add: agent_exact_def l)
  have "ch \<noteq> mo_Chan op" if "ag_Parser st = PSending cmd ch rest" for cmd ch rest
    using d rc(2) imageI [OF rc(1), of rc_Chan] by (auto simp: parser_chans_def that)
  then have parser: "parser_exact (ag_Queue st) (ag_Parser st)"
    using exact parser_exact_tail [of op "ag_Queue st" "ag_Parser st"] by (simp add: agent_exact_def l)
  have "distinct (map rc_Chan (ag_Receivers st))" using d by simp
  note keys = mset_map_remove [OF this rc(1), of "\<lambda>rc. answer_key (rc_Cmd rc)"]
  show ?thesis
  proof (cases "rc_Total rc \<le> Suc (rc_Count rc)")
    case True
    then have st: "ag_Receivers ?st = ?others" "ag_Results ?st = ag_Results st @ [?cmd]"
      by (simp_all add: one count_one_def settle_def Let_def)
    have "chan_count (rc_Chan rc) (ag_Queue st) = 0" using ok True rc(2) by (simp add: receiver_ok_def)
    then have "answered conf ?cmd"
      using new [of 0] ok by (auto simp: answered_def receiver_exact_def receiver_ok_def dest: chan_count_line)
    with exact others parser keys show ?thesis
      unfolding agent_exact_def l' by (auto simp: st pending_keys_def)
  next
    case False
    then have st: "ag_Receivers ?st = ?others @ [rc\<lparr>rc_Cmd := ?cmd, rc_Count := Suc (rc_Count rc)\<rparr>]"
      "ag_Results ?st = ag_Results st"
      by (simp_all add: one count_one_def settle_def Let_def)
    from exact others parser keys new show ?thesis
      unfolding agent_exact_def l' by (auto simp: st pending_keys_def)
  qed
qed

lemma exact_work:
  assumes "agent_live conf st" "agent_exact conf msgs st" "agent_work conf st st'"
  shows "agent_exact conf msgs st'"
  using assms(3)
proof cases
  case (send cmd ch po rest i op)
  then show ?thesis using exact_send [OF assms(1,2)] by blast
next
  case (unavailable cmd ch po rest i op e)
  with assms(1) have "po \<in> set (numbered (ops (cmd_Action cmd)))"
    "list_all (\<lambda>operation. ac_Available conf (op_Module operation)) (ops (cmd_Action cmd))"
    by (auto simp: agent_live_def parser_live_def Let_def suffix_def)
  then have "ac_Available conf (op_Module (snd po))" using numbered_snd by (fastforce simp: list_all_iff)
  with unavailable show ?thesis by (simp add: make_op_def)
next
  case (receiver cmd ch)
  then show ?thesis using exact_receiver [OF assms(2)] by blast
next
  case (run op queue now reg out)
  then show ?thesis using exact_run [OF assms(2)] by blast
next
  case (failed rc ord)
  then show ?thesis using exact_failed [OF assms(1,2)] by blast
next
  case (deliver op r rc)
  then show ?thesis using exact_deliver [OF assms(1,2)] by blast
next
  case (closed op r)
  then show ?thesis using assms(2) by (simp add: agent_exact_def line_def pending_keys_def)
qed

lemma agent_takes_run: "agent_takes conf msgs st \<Longrightarrow> (agent_step conf)\<^sup>*\<^sup>* agent_init st"
proof (induction rule: agent_takes.induct)
  case (takes_parse msgs st now msg)
  from takes_parse.IH agent_step.parse [OF takes_parse.hyps(2,3)] show ?case by (rule rtranclp.rtrancl_into_rtrancl)
next
  case (takes_work msgs st st')
  from takes_work.IH agent_step.work [OF takes_work.hyps(2)] show ?case by (rule rtranclp.rtrancl_into_rtrancl)
qed simp

lemma agent_exact_run:
  assumes "serviceable conf"
  shows "agent_takes conf msgs st \<Longrightarrow> agent_exact conf msgs st"
proof (induction rule: agent_takes.induct)
  case takes_start
  show ?case by (simp add: agent_exact_def agent_init_def pending_keys_def parser_exact_def)
next
  case (takes_parse msgs st now msg)
  with exact_parse agent_live_run [OF assms agent_takes_run] show ?case by blast
next
  case (takes_work msgs st st')
  with exact_work agent_live_run [OF assms agent_takes_run] show ?case by blast
qed

lemma work_exact:
  "(agent_work conf ^^ k) st st' \<Longrightarrow> agent_live conf st \<Longrightarrow> agent_exact conf msgs st \<Longrightarrow> agent_exact conf msgs st'"
proof (induction k arbitrary: st')
  case (Suc k)
  then obtain st1 where 1: "(agent_work conf ^^ k) st st1" "agent_work conf st1 st'" by auto
  with Suc exact_work work_runs [OF 1(1)] show ?case by blast
qed simp

text \<open>
  C5. Every command is answered. If the commands that the agent accepts have between one and six operations, all
  of them for modules that it has, then whatever messages it took, and in whatever state they left it, without further
  messages the goroutines come to rest after at most \<open>work_left\<close> steps, in any order, and as long as they
  have not, a step is possible: no deadlock, no crash. At rest nothing is pending, and the commands that were sent
  back are, up to their order, exactly one for each command accepted and one for each that was refused with
  an identifier; each has one result per operation, the error of the refusal or the output of a run of
  the module for that very operation, at its position.
\<close>

theorem agent_answers_every_command:
  assumes "serviceable conf" and "agent_takes conf msgs st" and "(agent_work conf ^^ k) st st'"
  shows "k \<le> work_left st \<and> \<not> ag_Crashed st' \<and>
    ((\<exists>st''. agent_work conf st' st'') \<or>
     ag_Parser st' = PIdle \<and> ag_Runner st' = RIdle \<and> ag_Queue st' = [] \<and> ag_Receivers st' = [] \<and>
     length (ag_Closed st') = ag_NextChan st' \<and>
     mset (map answer_key (ag_Results st')) = mset (concat (map (answer_due conf) msgs)) \<and>
     (\<forall>c\<in>set (ag_Results st'). answered conf c))"
proof -
  note live0 = agent_live_run [OF assms(1) agent_takes_run [OF assms(2)]]
  from work_runs [OF assms(3) live0] have live: "agent_live conf st'" and k: "k \<le> work_left st" by auto
  from work_exact [OF assms(3) live0 agent_exact_run [OF assms(1,2)]] have exact: "agent_exact conf msgs st'" .
  show ?thesis
  proof (cases "\<exists>st''. agent_work conf st' st''")
    case True
    with k live show ?thesis by (simp add: agent_live_def)
  next
    case False
    from live_progress [OF live False] have rest: "ag_Parser st' = PIdle" "line st' = []" "ag_Receivers st' = []" by auto
    with live have "mset (ag_Closed st') = mset [0..<ag_NextChan st']" by (simp add: agent_live_def parser_chans_def)
    then have "length (ag_Closed st') = ag_NextChan st'" by (metis length_upt minus_nat.diff_0 size_mset)
    with rest k live exact show ?thesis
      by (auto simp: agent_live_def line_def agent_exact_def pending_keys_def split: runner.splits)
  qed
qed

section \<open>Witnesses\<close>

definition example_apg :: "unit openpgp" where
  "example_apg = example_pg\<lparr>ReadArmoredKeyRing := (\<lambda>_. Inr [\<lparr>PrimaryKeyFingerprint = [0xc0], HasPrivateKey = False\<rparr>]),
     Serialize := (\<lambda>_. Inr ''ring'')\<rparr>"

definition pings :: "nat \<Rightarrow> action" where
  "pings n = example_action\<lparr>act_Operations := Some (replicate n \<lparr>op_Module = ''ping'', op_Parameters = JStr ''x'',
     op_IsCompressed = False, op_WantCompressed = False\<rparr>)\<rparr>"

definition ping_command :: "nat \<Rightarrow> command" where
  "ping_command n = \<lparr>cmd_ID = 7, cmd_Action = pings n, cmd_Agent = zero_agent, cmd_Status = ''sent'', cmd_Results = [],
     cmd_StartTime = 0, cmd_FinishTime = 0\<rparr>"

definition example_aconf :: "(string \<Rightarrow> bool) \<Rightarrow> nat \<Rightarrow> unit agent_conf" where
  "example_aconf available n =
     \<lparr>ac_Codec = example_codec, ac_PGP = example_apg, ac_PublicKeys = [''key''], ac_OnlyVerifyPubKey = False,
      ac_ACL = example_acl, ac_Available = available, ac_Persistent = (\<lambda>_. False), ac_ModuleTimeout = 300,
      ac_StatsMax = 10, ac_Agent = zero_agent, ac_Unmarshal = (\<lambda>_. (ping_command n, None)),
      ac_Marshal = (\<lambda>_. Inr ''{}''), ac_UnmarshalResult = (\<lambda>_. (zero_result, None)),
      ac_ErrText = (\<lambda>_. ''error''), ac_UnmarshalInto = (\<lambda>_ r. (r, None))\<rparr>"

lemma example_aconf_fields [simp]:
  "ac_Unmarshal (example_aconf available n) msg = (ping_command n, None)" "cmd_Action (ping_command n) = pings n"
  "ac_Available (example_aconf available n) = available" "ac_ACL (example_aconf available n) = example_acl"
  "\<not> ac_OnlyVerifyPubKey (example_aconf available n)"
  by (simp_all add: example_aconf_def ping_command_def)

lemma ops_pings: "ops (pings n) = replicate n \<lparr>op_Module = ''ping'', op_Parameters = JStr ''x'',
     op_IsCompressed = False, op_WantCompressed = False\<rparr>"
  by (simp add: pings_def ops_def)

lemma pings_checked: "checkActionAuthorization (example_aconf available n) zero_time (pings n) = Inr ()"
proof -
  have ring: "ArmoredKeysToKeyring example_apg [''key''] = Inr (''ring'', 1)"
    by (simp add: ArmoredKeysToKeyring_def example_apg_def)
  have fp: "GetFingerprintFromSignature example_apg d sig k = GetFingerprintFromSignature example_pg d sig k" for d sig k
  proof -
    have eqs: "armor_Decode example_apg = armor_Decode example_pg" "ReadKeyRing example_apg = ReadKeyRing example_pg"
      "CheckDetachedSignature example_apg = CheckDetachedSignature example_pg"
      by (simp_all add: example_apg_def example_pg_def)
    show ?thesis unfolding GetFingerprintFromSignature_def Verify_def eqs ..
  qed
  obtain astr where "String example_codec (pings n) = Inr astr"
    by (simp add: String_eq_Inr example_codec_def)
  moreover have "signed_by example_apg ''ring'' astr (act_PGPSignatures (pings n)) [''c0'', ''af'']"
    by (simp add: signed_by_def pings_def example_action_def fp example_fingerprints)
  moreover have "verifyPermission ''ping'' example_acl [''c0'', ''af''] = Inr ()" by code_simp
  ultimately have "VerifyACL example_codec example_apg example_acl ''ring'' False (pings n) = Inr ()"
    unfolding VerifyACL_Inr by (force simp: ops_pings)
  moreover have "Validate zero_time (pings n) = Inr ()"
    by (simp add: Validate_def pings_def example_action_def zero_action_def ActionVersion_def)
  moreover have "act_ValidFrom (pings n) \<le> zero_time"
    by (simp add: pings_def example_action_def zero_action_def)
  ultimately show ?thesis
    by (simp add: checkActionAuthorization_def example_aconf_def ring)
qed

text \<open>The first steps for a command with one operation.\<close>

lemma example_parsed:
  "start_command (example_aconf available n) zero_time msg agent_init =
     agent_init\<lparr>ag_Stats := [stats_of zero_time (pings n) True],
       ag_Parser := PSending (ping_command n) 0 (numbered (ops (pings n))), ag_NextChan := 1\<rparr>"
  by (simp add: start_command_def pings_checked Let_def agent_init_def importAction_def numbered_def)
    (simp add: example_aconf_def)

theorem seven_operations_deadlock_witness:
  "\<exists>rest. ag_Parser (start_command (example_aconf (\<lambda>_. True) 7) zero_time ''m'' agent_init) =
     PSending (ping_command 7) 0 rest \<and> rest \<noteq> []"
  using seven_operations_deadlock [of "example_aconf (\<lambda>_. True) 7" "''m''" "ping_command 7" zero_time
      "start_command (example_aconf (\<lambda>_. True) 7) zero_time ''m'' agent_init"]
    pings_checked [of "\<lambda>_. True" 7]
  by (simp add: ops_pings list_all_iff)

lemma example_serviceable: "serviceable (example_aconf (\<lambda>_. True) 1)"
  by (auto simp: serviceable_def authorised_cmd_def ops_pings)

theorem agent_answers_every_command_witness:
  "\<exists>st'. agent_work (example_aconf (\<lambda>_. True) 1) (start_command (example_aconf (\<lambda>_. True) 1) zero_time ''m'' agent_init) st'"
proof -
  let ?conf = "example_aconf (\<lambda>_. True) 1" and ?st = "start_command (example_aconf (\<lambda>_. True) 1) zero_time ''m'' agent_init"
  have run: "agent_takes ?conf ([] @ [(zero_time, ''m'')]) ?st"
    by (rule agent_takes.takes_parse [OF agent_takes.takes_start]) (simp_all add: agent_init_def)
  from agent_answers_every_command [OF example_serviceable run, of 0 ?st] show ?thesis
    by (auto simp: example_parsed)
qed

lemma example_send:
  assumes "available ''ping''"
  shows "\<exists>st op. (agent_step (example_aconf available 1))\<^sup>*\<^sup>* agent_init st \<and> ag_Queue st = [op] \<and> ag_Runner st = RIdle \<and>
     \<not> ag_Crashed st \<and> ag_Started st = []"
proof -
  let ?conf = "example_aconf available 1" and ?st = "start_command (example_aconf available 1) zero_time ''m'' agent_init"
  have 1: "agent_step ?conf agent_init ?st" by (rule agent_step.parse) (simp_all add: agent_init_def)
  let ?po = "(0, ops (pings 1) ! 0)"
  let ?op = "make_op ?conf 1 (ping_command 1) 0 ?po"
  have p: "ag_Parser ?st = PSending (ping_command 1) 0 [?po]"
    unfolding example_parsed by (simp add: numbered_def ops_pings)
  have "agent_work ?conf ?st (?st\<lparr>ag_Parser := PSending (ping_command 1) 0 [], ag_LastID := 1,
      ag_Running := ag_Running ?st @ [(1, ?op)], ag_Queue := ag_Queue ?st @ [?op]\<rparr>)"
    by (rule agent_work.send [OF _ p _ refl])
      (simp_all add: example_parsed agent_init_def queue_capacity_def make_op_def ops_pings assms)
  with 1 have "(agent_step ?conf)\<^sup>*\<^sup>* agent_init (?st\<lparr>ag_Parser := PSending (ping_command 1) 0 [], ag_LastID := 1,
      ag_Running := ag_Running ?st @ [(1, ?op)], ag_Queue := ag_Queue ?st @ [?op]\<rparr>)"
    by (blast intro: agent_step.work rtranclp.rtrancl_into_rtrancl)
  then show ?thesis
    by (intro exI conjI, assumption) (simp_all add: example_parsed agent_init_def)
qed

theorem agent_runs_only_authorised_witness:
  "\<exists>st now limit op. (agent_step (example_aconf (\<lambda>_. True) 1))\<^sup>*\<^sup>* agent_init st \<and>
     (now, limit, op) \<in> set (ag_Started st) \<and> mo_Mode op = ''ping'' \<and> limit \<le> 300"
proof -
  let ?conf = "example_aconf (\<lambda>_. True) 1"
  obtain st op where st: "(agent_step ?conf)\<^sup>*\<^sup>* agent_init st" "ag_Queue st = [op]" "ag_Runner st = RIdle"
    "\<not> ag_Crashed st" "ag_Started st = []"
    using example_send [of "\<lambda>_. True"] by auto
  let ?st = "st\<lparr>ag_Queue := [], ag_Running := al_del (mo_ID op) (ag_Running st),
      ag_Runner := RDone op (runModule ?conf (\<lambda>_. None) Killed op),
      ag_Started := ag_Started st @ [(5, exec_timeout ?conf 5 op, op)]\<rparr>"
  have run: "(agent_step ?conf)\<^sup>*\<^sup>* agent_init ?st"
    by (rule rtranclp.rtrancl_into_rtrancl [OF st(1)], rule agent_step.work, rule agent_work.run [OF st(4,3,2)])
  have started: "(5, exec_timeout ?conf 5 op, op) \<in> set (ag_Started ?st)" by simp
  have only: "\<not> ac_OnlyVerifyPubKey ?conf" by simp
  have fits: "\<forall>e\<in>snd ` set (ac_ACL ?conf). \<forall>fps. in_int64 (signers_weight e fps)"
    using example_acl_fits by simp
  from agent_runs_only_authorised [OF run started only fits] obtain cmd operation msg where
    "ac_Unmarshal ?conf msg = (cmd, None)" "operation \<in> set (ops (cmd_Action cmd))" "mo_Mode op = op_Module operation"
    "exec_timeout ?conf 5 op \<le> ac_ModuleTimeout ?conf" by blast
  then have "mo_Mode op = ''ping'' \<and> exec_timeout ?conf 5 op \<le> ac_ModuleTimeout ?conf"
    by (auto simp: ops_pings)
  then have "mo_Mode op = ''ping'' \<and> exec_timeout ?conf 5 op \<le> 300" by (simp add: example_aconf_def)
  with run started show ?thesis by blast
qed

definition example_out :: "nat \<Rightarrow> module_out" where
  "example_out k = \<lparr>mr_ID = int k, mr_Err = None, mr_Status = StatusSuccess,
     mr_Output = zero_result\<lparr>res_FoundAnything := k = 1\<rparr>, mr_Position = k\<rparr>"

theorem receive_all_in_order_witness:
  "\<exists>rc cmd. failed_ops (example_aconf (\<lambda>_. True) 2) [make_op (example_aconf (\<lambda>_. True) 2) 1 (ping_command 2) 0 (0, ops (pings 2) ! 0)]
         (make_receiver 0 (ping_command 2) 2) = Waiting rc \<and>
     receive_all (example_aconf (\<lambda>_. True) 2) [example_out 1, example_out 0] rc = Finished cmd \<and>
     map res_FoundAnything (cmd_Results cmd) = [False, True] \<and> cmd_Status cmd = StatusSuccess"
proof -
  let ?conf = "example_aconf (\<lambda>_. True) 2"
  let ?running = "[make_op ?conf 1 (ping_command 2) 0 (0, ops (pings 2) ! 0)]"
  have pos: "mr_Position ` set [example_out 1, example_out 0] = {..<2}" by (auto simp: example_out_def)
  have none: "\<forall>op\<in>set ?running. mo_Err op = None" by (simp add: make_op_def)
  from receive_all_in_order [OF _ _ pos none, of ?conf 0 "ping_command 2"] obtain rc cmd
    where cmd: "failed_ops ?conf ?running (make_receiver 0 (ping_command 2) 2) = Waiting rc"
      "receive_all ?conf [example_out 1, example_out 0] rc = Finished cmd" "length (cmd_Results cmd) = 2"
      "cmd_Results cmd ! 1 = zero_result\<lparr>res_FoundAnything := True\<rparr>"
      "cmd_Results cmd ! 0 = zero_result\<lparr>res_FoundAnything := False\<rparr>" "cmd_Status cmd = StatusSuccess"
    by (auto simp: example_out_def output_of_def simp del: failed_ops.simps receive_all.simps)
  from cmd(3) obtain x y where "cmd_Results cmd = [x, y]" by (auto simp: length_Suc_conv numeral_2_eq_2)
  with cmd show ?thesis by auto
qed

theorem unavailable_module_spoils_witness:
  "\<exists>st1. agent_work (example_aconf (\<lambda>_. False) 1) (start_command (example_aconf (\<lambda>_. False) 1) zero_time ''m'' agent_init) st1 \<and>
     ag_Running st1 \<noteq> [] \<and> list_all (\<lambda>c. cmd_Status c \<noteq> ''success'') (ag_Results st1)"
proof -
  let ?conf = "example_aconf (\<lambda>_. False) 1" and ?st = "start_command (example_aconf (\<lambda>_. False) 1) zero_time ''m'' agent_init"
  have run: "(agent_step ?conf)\<^sup>*\<^sup>* agent_init ?st"
    by (rule r_into_rtranclp, rule agent_step.parse) (simp_all add: agent_init_def)
  let ?po = "(0, ops (pings 1) ! 0)"
  let ?op = "make_op ?conf 1 (ping_command 1) 0 ?po"
  have p: "ag_Parser ?st = PSending (ping_command 1) 0 [?po]"
    unfolding example_parsed by (simp add: numbered_def ops_pings)
  let ?st1 = "?st\<lparr>ag_Parser := PSending (ping_command 1) 0 [], ag_LastID := 1, ag_Running := ag_Running ?st @ [(1, ?op)]\<rparr>"
  have w: "agent_work ?conf ?st ?st1"
    by (rule agent_work.unavailable [OF _ p _ refl]) (simp_all add: example_parsed agent_init_def make_op_def)
  have none: "\<forall>rc\<in>set (ag_Receivers ?st). \<not> rc_Started rc" by (simp add: agent_init_def)
  from unavailable_module_spoils [OF run p _ none w _ rtranclp.rtrancl_refl] obtain new where
    new: "ag_Results ?st1 = ag_Results ?st1 @ new" "list_all (\<lambda>c. cmd_Status c \<noteq> ''success'') new" by auto
  have "ag_Results ?st = []" unfolding example_parsed by (simp add: agent_init_def)
  then have results: "ag_Results ?st1 = new" using new(1) by simp
  show ?thesis
  proof (intro exI conjI)
    show "agent_work ?conf ?st ?st1" by (rule w)
    show "ag_Running ?st1 \<noteq> []" by simp
    show "list_all (\<lambda>c. cmd_Status c \<noteq> ''success'') (ag_Results ?st1)" unfolding results by (rule new(2))
  qed
qed

end
