(* ===== verification/AgentPersist.thy ===== *)
theory AgentPersist
  imports Agent Heartbeats
begin

text \<open>
  The rest of the agent that keeps running on its own: the routine that looks after one persistent
  module (\<open>mig-agent/persist.go\<close>), alerts on their way to the dispatch module (\<open>mig-agent/alert.go\<close>),
  the heartbeats that the agent posts, and the modes in which \<open>mig-agent/agent.go\<close> runs modules directly.

  The routine and the goroutines that read from its modules are interleaved step by step; processes, pipes and
  clocks are events of the environment. Formatting a text that has no arguments is a parameter.
\<close>

section \<open>Persistent modules\<close>

record persist_env =
  pe_Codec :: codec
  pe_Name :: string
  pe_Hostname :: string
  pe_Env :: json
  pe_Tags :: json
  pe_Sprintf :: "string \<Rightarrow> string"
  pe_Alert :: "json \<Rightarrow> string result"
  pe_SockPath :: "json \<Rightarrow> string result"

text \<open>
  The variables of \<open>managePersistModule\<close> and what it shares with the goroutines that read from the modules. Each
  start makes a pipe; the process started with it, if any, has the same number. \<open>pm_Process\<close> is the number in
  \<open>cmd\<close> and \<open>pipein\<close>, \<open>pm_Chan\<close> the channel in \<open>inChan\<close>, numbered likewise. A reading goroutine refers to the
  variables, not to their values at its start: it evaluates \<open>pipein\<close> before each read, and \<open>inChan\<close> when it sends
  what it read or closes the channel.
\<close>

datatype persist_pc = AtTop | AtPiped | AtStarted | AtConfig | AtSelect | AtKill | AtWait | Returned

datatype reader = RdLoop | RdReading nat | RdGot nat message | RdSending nat nat message | RdFailed | RdDone

record persist_mod =
  pm_Pc :: persist_pc
  pm_Running :: bool
  pm_LastPing :: time
  pm_Dispatch :: bool
  pm_Local :: bool
  pm_Process :: nat
  pm_Chan :: nat
  pm_Closed :: "nat list"
  pm_Readers :: "reader list"
  pm_Alive :: "nat list"
  pm_Register :: persist_register
  pm_Alerts :: "string list"
  pm_Read :: "(nat \<times> message) list"
  pm_Written :: "(nat \<times> string) list"
  pm_Panicked :: bool

definition persist_init :: "time \<Rightarrow> persist_register \<Rightarrow> persist_mod" where
  "persist_init now reg =
     \<lparr>pm_Pc = AtTop, pm_Running = False, pm_LastPing = now, pm_Dispatch = False, pm_Local = False,
      pm_Process = 0, pm_Chan = 0, pm_Closed = [], pm_Readers = [], pm_Alive = [], pm_Register = reg,
      pm_Alerts = [], pm_Read = [], pm_Written = [], pm_Panicked = False\<rparr>"

text \<open>
  What happens next, with the choices of the environment. The first group are steps of the managing goroutine: at
  the top of the loop, while it starts a module, at the select statement, and when it kills or waits. The
  second group are a process that ends and the steps of reader \<open>k\<close>.
\<close>

datatype persist_event =
    EvPipeFailed time | EvPiped time | EvLaunchFailed | EvStarted | EvReader | EvConfig json "go_error option" | EvTop
  | EvReceive time nat | EvClosed | EvAlert string "go_error option" | EvTick time "go_error option"
  | EvKill "go_error option" | EvWaited
  | EvExit nat | EvLoop nat | EvInput nat message | EvError nat | EvGot nat | EvClose nat

definition register_set :: "persist_register \<Rightarrow> string \<Rightarrow> string \<Rightarrow> persist_register" where
  "register_set reg m spec = reg(m \<mapsto> Some spec)"

definition register_remove :: "persist_register \<Rightarrow> string \<Rightarrow> persist_register" where
  "register_remove reg m = reg(m \<mapsto> None)"

definition dispatchDealloc :: "persist_mod \<Rightarrow> persist_mod" where
  "dispatchDealloc pm = (if pm_Local pm then pm\<lparr>pm_Dispatch := False, pm_Local := False\<rparr> else pm)"

text \<open>The module is taken to be down; the loop starts again after ten seconds.\<close>

definition module_down :: "persist_env \<Rightarrow> persist_mod \<Rightarrow> persist_mod" where
  "module_down env pm =
     pm\<lparr>pm_Running := False, pm_Register := register_remove (pm_Register pm) (pe_Name env), pm_Pc := AtTop\<rparr>"

definition init_dispatch :: "persist_env \<Rightarrow> persist_mod \<Rightarrow> persist_mod" where
  "init_dispatch env pm =
     (if pe_Name env = ''dispatch'' \<and> \<not> pm_Dispatch pm then pm\<lparr>pm_Dispatch := True, pm_Local := True\<rparr> else pm)"

definition to_select :: "persist_env \<Rightarrow> persist_mod \<Rightarrow> persist_mod" where
  "to_select env pm = (init_dispatch env pm)\<lparr>pm_Pc := AtSelect\<rparr>"

text \<open>
  The configuration is written to a module that was started; when its message cannot be made the \<open>break\<close> leaves
  the loop, and the function returns.
\<close>

definition write_config :: "persist_env \<Rightarrow> json \<Rightarrow> go_error option \<Rightarrow> persist_mod \<Rightarrow> persist_mod" where
  "write_config env cfg failure pm =
     (case MakeMessageConfig (pe_Codec env) cfg (pe_Hostname env) (pe_Env env) (pe_Tags env) of
        Inl _ \<Rightarrow> pm\<lparr>pm_Pc := Returned\<rparr>
      | Inr cm \<Rightarrow>
          (case failure of
             Some _ \<Rightarrow> module_down env pm
           | None \<Rightarrow> to_select env (pm\<lparr>pm_Written := pm_Written pm @ [(pm_Process pm, cm)]\<rparr>)))"

text \<open>A message that was received, with the process whose pipe it was read from.\<close>

definition module_message :: "persist_env \<Rightarrow> time \<Rightarrow> nat \<times> message \<Rightarrow> persist_mod \<Rightarrow> persist_mod" where
  "module_message env now pmsg pm =
     (let msg = snd pmsg; pm = pm\<lparr>pm_Read := pm_Read pm @ [pmsg], pm_Pc := AtTop\<rparr>
      in if msg_Class msg = MsgClassPing then pm\<lparr>pm_LastPing := now\<rparr>
         else if msg_Class msg = MsgClassLog then pm
         else if msg_Class msg = MsgClassAlert
         then (case redecode (pe_Codec env) (pe_Alert env) (msg_Parameters msg) of
                 Inl _ \<Rightarrow> pm
               | Inr a \<Rightarrow> pm\<lparr>pm_Alerts := pm_Alerts pm @ [a]\<rparr>)
         else if msg_Class msg = MsgClassRegister
         then (case redecode (pe_Codec env) (pe_SockPath env) (msg_Parameters msg) of
                 Inl _ \<Rightarrow> pm
               | Inr spec \<Rightarrow> pm\<lparr>pm_Register := register_set (pm_Register pm) (pe_Name env) spec\<rparr>)
         else pm\<lparr>pm_Pc := AtKill\<rparr>)"

text \<open>Writing to the module: when that fails, the module is taken to be down.\<close>

definition module_write :: "persist_env \<Rightarrow> go_error option \<Rightarrow> string result \<Rightarrow> persist_mod \<Rightarrow> persist_mod" where
  "module_write env failure made pm =
     (case made of
        Inl _ \<Rightarrow> pm\<lparr>pm_Pc := AtTop\<rparr>
      | Inr m \<Rightarrow>
          (case failure of
             Some _ \<Rightarrow> module_down env (dispatchDealloc pm)
           | None \<Rightarrow> pm\<lparr>pm_Written := pm_Written pm @ [(pm_Process pm, m)], pm_Pc := AtTop\<rparr>))"

definition ping_limit :: duration where "ping_limit = 30 * second"

definition module_tick :: "persist_env \<Rightarrow> time \<Rightarrow> go_error option \<Rightarrow> persist_mod \<Rightarrow> persist_mod" where
  "module_tick env now failure pm =
     (if ping_limit \<le> now - pm_LastPing pm then pm\<lparr>pm_Pc := AtKill\<rparr>
      else module_write env failure (MakeMessage (pe_Codec env) ''ping'' JNull False) pm)"

text \<open>The steps of the managing goroutine; \<open>None\<close> when the step is not the next one.\<close>

definition step_if :: "bool \<Rightarrow> 'a \<Rightarrow> 'a option" where
  "step_if b x = (if b then Some x else None)"

definition set_reader :: "nat \<Rightarrow> reader \<Rightarrow> persist_mod \<Rightarrow> persist_mod" where
  "set_reader k rd pm = pm\<lparr>pm_Readers := (pm_Readers pm)[k := rd]\<rparr>"

fun manage_step :: "persist_env \<Rightarrow> persist_event \<Rightarrow> persist_mod \<Rightarrow> persist_mod option" where
  "manage_step env EvTop pm = step_if (pm_Pc pm = AtTop \<and> pm_Running pm) (to_select env pm)"
| "manage_step env (EvPipeFailed now) pm = step_if (pm_Pc pm = AtTop \<and> \<not> pm_Running pm) (pm\<lparr>pm_LastPing := now\<rparr>)"
| "manage_step env (EvPiped now) pm =
     step_if (pm_Pc pm = AtTop \<and> \<not> pm_Running pm)
       (pm\<lparr>pm_LastPing := now, pm_Process := Suc (pm_Process pm), pm_Pc := AtPiped\<rparr>)"
| "manage_step env EvLaunchFailed pm = step_if (pm_Pc pm = AtPiped) (pm\<lparr>pm_Pc := AtTop\<rparr>)"
| "manage_step env EvStarted pm =
     step_if (pm_Pc pm = AtPiped) (pm\<lparr>pm_Alive := pm_Process pm # pm_Alive pm, pm_Pc := AtStarted\<rparr>)"
| "manage_step env EvReader pm =
     step_if (pm_Pc pm = AtStarted)
       (pm\<lparr>pm_Chan := pm_Process pm, pm_Readers := pm_Readers pm @ [RdLoop], pm_Running := True, pm_Pc := AtConfig\<rparr>)"
| "manage_step env (EvConfig cfg failure) pm = step_if (pm_Pc pm = AtConfig) (write_config env cfg failure pm)"
| "manage_step env (EvReceive now k) pm =
     (if pm_Pc pm = AtSelect \<and> k < length (pm_Readers pm)
      then (case pm_Readers pm ! k of
              RdSending ch p msg \<Rightarrow> step_if (ch = pm_Chan pm) (module_message env now (p, msg) (set_reader k RdLoop pm))
            | _ \<Rightarrow> None)
      else None)"
| "manage_step env EvClosed pm =
     step_if (pm_Pc pm = AtSelect \<and> pm_Chan pm \<in> set (pm_Closed pm)) (pm\<lparr>pm_Pc := AtWait\<rparr>)"
| "manage_step env (EvAlert s failure) pm =
     step_if (pm_Pc pm = AtSelect \<and> pm_Local pm)
       (module_write env failure (MakeMessageAlert (pe_Codec env) (pe_Sprintf env s)) pm)"
| "manage_step env (EvTick now failure) pm = step_if (pm_Pc pm = AtSelect) (module_tick env now failure pm)"
| "manage_step env (EvKill failure) pm =
     step_if (pm_Pc pm = AtKill)
       (case failure of
          Some _ \<Rightarrow> pm\<lparr>pm_Pc := Returned\<rparr>
        | None \<Rightarrow> pm\<lparr>pm_Alive := removeAll (pm_Process pm) (pm_Alive pm), pm_Pc := AtWait\<rparr>)"
| "manage_step env EvWaited pm =
     step_if (pm_Pc pm = AtWait \<and> pm_Process pm \<notin> set (pm_Alive pm)) (module_down env (dispatchDealloc pm))"
| "manage_step env _ pm = None"

text \<open>
  The steps of a reader. It reads from the pipe that \<open>pipein\<close> holds when it gets there, and what it read, or the end, goes
  to the channel that \<open>inChan\<close> holds by then. To close a channel twice, to send on a closed one and to close one
  on which another goroutine sends makes the program panic. After an error of reading the goroutine ends.
\<close>

definition sends_on :: "nat \<Rightarrow> reader \<Rightarrow> bool" where
  "sends_on ch rd \<longleftrightarrow> (case rd of RdSending c p msg \<Rightarrow> c = ch | _ \<Rightarrow> False)"

definition reader_send :: "nat \<Rightarrow> nat \<Rightarrow> message \<Rightarrow> persist_mod \<Rightarrow> persist_mod" where
  "reader_send k p msg pm =
     (if pm_Chan pm \<in> set (pm_Closed pm) then pm\<lparr>pm_Panicked := True\<rparr>
      else set_reader k (RdSending (pm_Chan pm) p msg) pm)"

definition reader_close :: "nat \<Rightarrow> persist_mod \<Rightarrow> persist_mod" where
  "reader_close k pm =
     (if pm_Chan pm \<in> set (pm_Closed pm) \<or> list_ex (sends_on (pm_Chan pm)) (pm_Readers pm)
      then pm\<lparr>pm_Panicked := True\<rparr>
      else (set_reader k RdDone pm)\<lparr>pm_Closed := pm_Chan pm # pm_Closed pm\<rparr>)"

fun reader_step :: "persist_event \<Rightarrow> nat \<Rightarrow> reader \<Rightarrow> persist_mod \<Rightarrow> persist_mod option" where
  "reader_step (EvLoop _) k RdLoop pm = Some (set_reader k (RdReading (pm_Process pm)) pm)"
| "reader_step (EvInput _ msg) k (RdReading p) pm = Some (set_reader k (RdGot p msg) pm)"
| "reader_step (EvError _) k (RdReading p) pm = Some (set_reader k RdFailed pm)"
| "reader_step (EvGot _) k (RdGot p msg) pm = Some (reader_send k p msg pm)"
| "reader_step (EvClose _) k RdFailed pm = Some (reader_close k pm)"
| "reader_step _ _ _ _ = None"

fun reader_of :: "persist_event \<Rightarrow> nat option" where
  "reader_of (EvLoop k) = Some k" | "reader_of (EvInput k msg) = Some k" | "reader_of (EvError k) = Some k"
| "reader_of (EvGot k) = Some k" | "reader_of (EvClose k) = Some k" | "reader_of _ = None"

definition persist_step :: "persist_env \<Rightarrow> persist_event \<Rightarrow> persist_mod \<Rightarrow> persist_mod option" where
  "persist_step env e pm =
     (if pm_Panicked pm then None
      else (case reader_of e of
              Some k \<Rightarrow> if k < length (pm_Readers pm) then reader_step e k (pm_Readers pm ! k) pm else None
            | None \<Rightarrow>
                (case e of EvExit p \<Rightarrow> Some (pm\<lparr>pm_Alive := removeAll p (pm_Alive pm)\<rparr>) | _ \<Rightarrow> manage_step env e pm)))"

text \<open>The runs of \<open>managePersistModule\<close>: the events that occur, in their order.\<close>

fun managePersistModule :: "persist_env \<Rightarrow> persist_event list \<Rightarrow> persist_mod \<Rightarrow> persist_mod option" where
  "managePersistModule env [] pm = Some pm"
| "managePersistModule env (e # es) pm =
     (case persist_step env e pm of None \<Rightarrow> None | Some pm' \<Rightarrow> managePersistModule env es pm')"

section \<open>Sockets, restarts and silence\<close>

lemmas persist_defs = persist_step_def step_if_def write_config_def module_tick_def module_write_def module_message_def to_select_def
  init_dispatch_def dispatchDealloc_def module_down_def register_set_def register_remove_def reader_send_def reader_close_def
  set_reader_def Let_def

lemma manage_invariant:
  assumes "managePersistModule env es pm = Some pm'" and "I pm"
    and "\<And>e pm1 pm2. I pm1 \<Longrightarrow> e \<in> set es \<Longrightarrow> persist_step env e pm1 = Some pm2 \<Longrightarrow> I pm2"
  shows "I pm'"
  using assms
proof (induction es arbitrary: pm)
  case (Cons e es)
  from Cons.prems(1) obtain pm1 where 1: "persist_step env e pm = Some pm1" "managePersistModule env es pm1 = Some pm'"
    by (auto split: option.splits)
  have "I pm1" using Cons.prems(3) [OF Cons.prems(2) _ 1(1)] by simp
  show ?case
  proof (rule Cons.IH [OF 1(2) \<open>I pm1\<close>])
    fix e' pm2 pm3
    assume "I pm2" "e' \<in> set es" "persist_step env e' pm2 = Some pm3"
    with Cons.prems(3) [of pm2 e' pm3] show "I pm3" by simp
  qed
qed simp

fun reader_source :: "reader \<Rightarrow> nat option" where
  "reader_source (RdReading p) = Some p" | "reader_source (RdGot p msg) = Some p"
| "reader_source (RdSending ch p msg) = Some p" | "reader_source _ = None"

text \<open>A socket that the register holds for the module was announced by process \<open>p\<close>.\<close>

definition announced_by :: "persist_env \<Rightarrow> persist_mod \<Rightarrow> string \<Rightarrow> nat \<Rightarrow> bool" where
  "announced_by env pm spec p \<longleftrightarrow>
     (\<exists>msg. (p, msg) \<in> set (pm_Read pm) \<and> msg_Class msg = MsgClassRegister \<and>
        redecode (pe_Codec env) (pe_SockPath env) (msg_Parameters msg) = Inr spec)"

lemma persist_step_cases:
  assumes "persist_step env e pm = Some pm'"
  obtains (exits) p where "e = EvExit p" "pm' = pm\<lparr>pm_Alive := removeAll p (pm_Alive pm)\<rparr>"
  | (reads) k where "reader_of e = Some k" "k < length (pm_Readers pm)" "reader_step e k (pm_Readers pm ! k) pm = Some pm'"
  | (manages) "manage_step env e pm = Some pm'"
  using assms by (cases e) (auto simp: persist_step_def split: if_splits)

lemma reader_step_cases:
  assumes "reader_step e k rd pm = Some pm'"
  obtains (loops) "rd = RdLoop" "pm' = set_reader k (RdReading (pm_Process pm)) pm"
  | (gets) p msg where "rd = RdReading p" "pm' = set_reader k (RdGot p msg) pm"
  | (fails) p where "rd = RdReading p" "pm' = set_reader k RdFailed pm"
  | (sends) p msg where "rd = RdGot p msg" "pm' = reader_send k p msg pm"
  | (closes) "rd = RdFailed" "pm' = reader_close k pm"
  using assms by (cases e; cases rd) auto

text \<open>A reader changes only its own state, the channels that are closed, or it panics.\<close>

lemma reader_frame:
  assumes "reader_step e k rd pm = Some pm'"
  shows "pm' = pm\<lparr>pm_Readers := pm_Readers pm', pm_Closed := pm_Closed pm', pm_Panicked := pm_Panicked pm'\<rparr>"
  using assms by (cases rule: reader_step_cases) (simp_all add: persist_defs)

lemma reader_sources:
  assumes "reader_step e k rd pm = Some pm'" and "rd' \<in> set (pm_Readers pm')"
  shows "rd' \<in> set (pm_Readers pm) \<or> rd' = RdReading (pm_Process pm) \<or> reader_source rd' \<in> {None, reader_source rd}"
  using assms(1)
  by (cases rule: reader_step_cases)
    (use assms(2) in \<open>auto simp: persist_defs dest!: set_update_subset_insert [THEN subsetD] split: if_splits\<close>)

text \<open>What the parts of the managing goroutine leave alone, and where they go.\<close>

lemma module_down_fields [simp]:
  "pm_Pc (module_down env pm) = AtTop" "pm_Running (module_down env pm) = False"
  "pm_Readers (module_down env pm) = pm_Readers pm" "pm_Process (module_down env pm) = pm_Process pm"
  "pm_Read (module_down env pm) = pm_Read pm" "pm_Alive (module_down env pm) = pm_Alive pm"
  "pm_Register (module_down env pm) = (pm_Register pm)(pe_Name env \<mapsto> None)"
  by (simp_all add: module_down_def register_remove_def)

lemma dispatchDealloc_fields [simp]:
  "pm_Pc (dispatchDealloc pm) = pm_Pc pm" "pm_Running (dispatchDealloc pm) = pm_Running pm"
  "pm_Readers (dispatchDealloc pm) = pm_Readers pm" "pm_Process (dispatchDealloc pm) = pm_Process pm"
  "pm_Read (dispatchDealloc pm) = pm_Read pm" "pm_Alive (dispatchDealloc pm) = pm_Alive pm"
  "pm_Register (dispatchDealloc pm) = pm_Register pm"
  by (simp_all add: dispatchDealloc_def)

lemma to_select_fields [simp]:
  "pm_Pc (to_select env pm) = AtSelect" "pm_Running (to_select env pm) = pm_Running pm"
  "pm_Readers (to_select env pm) = pm_Readers pm" "pm_Process (to_select env pm) = pm_Process pm"
  "pm_Read (to_select env pm) = pm_Read pm" "pm_Alive (to_select env pm) = pm_Alive pm"
  "pm_Register (to_select env pm) = pm_Register pm"
  by (simp_all add: to_select_def init_dispatch_def)

lemma set_reader_fields [simp]:
  "pm_Pc (set_reader k rd pm) = pm_Pc pm" "pm_Running (set_reader k rd pm) = pm_Running pm"
  "pm_Readers (set_reader k rd pm) = (pm_Readers pm)[k := rd]" "pm_Process (set_reader k rd pm) = pm_Process pm"
  "pm_Read (set_reader k rd pm) = pm_Read pm" "pm_Alive (set_reader k rd pm) = pm_Alive pm"
  "pm_Register (set_reader k rd pm) = pm_Register pm"
  by (simp_all add: set_reader_def)

lemma write_config_cases:
  obtains (returns) "write_config env cfg failure pm = pm\<lparr>pm_Pc := Returned\<rparr>"
  | (down) "write_config env cfg failure pm = module_down env pm"
  | (goes) cm where "write_config env cfg failure pm = to_select env (pm\<lparr>pm_Written := pm_Written pm @ [(pm_Process pm, cm)]\<rparr>)"
proof (cases "MakeMessageConfig (pe_Codec env) cfg (pe_Hostname env) (pe_Env env) (pe_Tags env)")
  case (Inl e)
  then show ?thesis by (intro returns) (simp add: write_config_def)
next
  case (Inr cm)
  show ?thesis
  proof (cases failure)
    case None
    with Inr show ?thesis by (intro goes [of cm]) (simp add: write_config_def)
  next
    case (Some e)
    with Inr show ?thesis by (intro down) (simp add: write_config_def)
  qed
qed

lemma module_write_cases:
  obtains (skips) "module_write env failure made pm = pm\<lparr>pm_Pc := AtTop\<rparr>"
  | (down) "module_write env failure made pm = module_down env (dispatchDealloc pm)"
  | (writes) m where "module_write env failure made pm = pm\<lparr>pm_Written := pm_Written pm @ [(pm_Process pm, m)], pm_Pc := AtTop\<rparr>"
proof (cases made)
  case (Inl e)
  then show ?thesis by (intro skips) (simp add: module_write_def)
next
  case (Inr m)
  show ?thesis
  proof (cases failure)
    case None
    with Inr show ?thesis by (intro writes [of m]) (simp add: module_write_def)
  next
    case (Some e)
    with Inr show ?thesis by (intro down) (simp add: module_write_def)
  qed
qed

lemma module_message_cases:
  obtains (passes) pc t al where "module_message env now pmsg pm =
      pm\<lparr>pm_Read := pm_Read pm @ [pmsg], pm_Pc := pc, pm_LastPing := t, pm_Alerts := al\<rparr>" "pc \<in> {AtTop, AtKill}"
  | (registers) spec where "module_message env now pmsg pm =
      pm\<lparr>pm_Read := pm_Read pm @ [pmsg], pm_Pc := AtTop, pm_Register := (pm_Register pm)(pe_Name env \<mapsto> Some spec)\<rparr>"
    "msg_Class (snd pmsg) = MsgClassRegister" "redecode (pe_Codec env) (pe_SockPath env) (msg_Parameters (snd pmsg)) = Inr spec"
proof (cases "msg_Class (snd pmsg) = MsgClassRegister \<and> is_ok (redecode (pe_Codec env) (pe_SockPath env) (msg_Parameters (snd pmsg)))")
  case True
  then obtain spec where "redecode (pe_Codec env) (pe_SockPath env) (msg_Parameters (snd pmsg)) = Inr spec"
    by (auto simp: is_ok_iff)
  with True show ?thesis
    by (intro registers [of spec]) (simp_all add: module_message_def register_set_def message_classes Let_def)
next
  case False
  then show ?thesis
    by (intro passes [where pc = "pm_Pc (module_message env now pmsg pm)"
          and t = "pm_LastPing (module_message env now pmsg pm)" and al = "pm_Alerts (module_message env now pmsg pm)"])
      (auto simp: module_message_def is_ok_iff Let_def split: sum.splits)
qed

text \<open>
  Steps that leave the readers and what was read alone, and a socket of the module only when the module goes
  on running; \<open>settled\<close> says that the program counter fits \<open>isRunning\<close>.
\<close>

definition settled :: "persist_mod \<Rightarrow> bool" where
  "settled pm \<longleftrightarrow>
     (pm_Pc pm \<in> {AtConfig, AtSelect, AtKill, AtWait} \<longrightarrow> pm_Running pm) \<and>
     (pm_Pc pm \<in> {AtPiped, AtStarted} \<longrightarrow> \<not> pm_Running pm \<and> 0 < pm_Process pm)"

definition calm :: "persist_env \<Rightarrow> persist_mod \<Rightarrow> persist_mod \<Rightarrow> bool" where
  "calm env pm pm' \<longleftrightarrow> settled pm' \<and>
     pm_Readers pm' = pm_Readers pm \<and> pm_Process pm' = pm_Process pm \<and> pm_Read pm' = pm_Read pm \<and>
     (\<forall>m. m \<noteq> pe_Name env \<longrightarrow> pm_Register pm' m = pm_Register pm m) \<and>
     (\<forall>spec. pm_Register pm' (pe_Name env) = Some (Some spec) \<longrightarrow>
        pm_Register pm (pe_Name env) = Some (Some spec) \<and> pm_Running pm' = pm_Running pm)"

lemma calm_down: "calm env pm (module_down env (dispatchDealloc pm))" "calm env pm (module_down env pm)"
  by (simp_all add: calm_def settled_def)

lemma calm_write_config: "pm_Running pm \<Longrightarrow> calm env pm (write_config env cfg failure pm)"
  by (cases rule: write_config_cases [of env cfg failure pm]) (simp_all add: calm_down, simp_all add: calm_def settled_def)

lemma calm_module_write: "calm env pm (module_write env failure made pm)"
  by (cases rule: module_write_cases [of env failure made pm]) (simp_all add: calm_down, simp_all add: calm_def settled_def)

lemma calm_module_tick: "pm_Running pm \<Longrightarrow> calm env pm (module_tick env now failure pm)"
  by (simp add: module_tick_def calm_module_write) (simp add: calm_def settled_def)

lemma step_if_simps [simp]:
  "step_if b x = Some y \<longleftrightarrow> b \<and> x = y" "step_if True x = Some x" "step_if False x = None"
  by (auto simp: step_if_def)

lemma manage_step_calm:
  assumes "manage_step env e pm = Some pm'" and "settled pm"
    and "\<And>now. e \<noteq> EvPiped now" "e \<noteq> EvReader" "\<And>now k. e \<noteq> EvReceive now k"
  shows "calm env pm pm'"
proof (cases e)
  case (EvConfig cfg f)
  with assms(1,2) calm_write_config [of pm env cfg f] show ?thesis by (simp add: settled_def)
next
  case (EvAlert s f)
  with assms(1) calm_module_write show ?thesis by auto
next
  case (EvTick now f)
  with assms(1,2) calm_module_tick [of pm env now f] show ?thesis by (simp add: settled_def)
next
  case EvWaited
  with assms(1) calm_down show ?thesis by auto
next
  case (EvKill f)
  with assms(1,2) show ?thesis by (auto simp: calm_def settled_def split: option.splits)
next
  case EvTop
  with assms(1) show ?thesis by (auto simp: calm_def settled_def)
next
  case (EvPipeFailed now)
  with assms(1) show ?thesis by (auto simp: calm_def settled_def)
next
  case EvLaunchFailed
  with assms(1) show ?thesis by (auto simp: calm_def settled_def)
next
  case EvStarted
  with assms(1,2) show ?thesis by (auto simp: calm_def settled_def)
next
  case EvClosed
  with assms(1,2) show ?thesis by (auto simp: calm_def settled_def)
qed (use assms in simp_all)

text \<open>A step of the managing goroutine starts a pipe, starts a reader, receives a message, or is calm.\<close>

lemma manage_step_cases:
  assumes "manage_step env e pm = Some pm'" and "settled pm"
  obtains (pipes) now where "e = EvPiped now" "\<not> pm_Running pm"
      "pm' = pm\<lparr>pm_LastPing := now, pm_Process := Suc (pm_Process pm), pm_Pc := AtPiped\<rparr>"
  | (readers) "e = EvReader" "pm_Pc pm = AtStarted"
      "pm' = pm\<lparr>pm_Chan := pm_Process pm, pm_Readers := pm_Readers pm @ [RdLoop], pm_Running := True, pm_Pc := AtConfig\<rparr>"
  | (receives) now k ch p msg where "e = EvReceive now k" "k < length (pm_Readers pm)" "pm_Readers pm ! k = RdSending ch p msg"
      "pm_Pc pm = AtSelect" "pm' = module_message env now (p, msg) (set_reader k RdLoop pm)"
  | (calm) "calm env pm pm'"
proof -
  consider (1) now where "e = EvPiped now" | (2) "e = EvReader" | (3) now k where "e = EvReceive now k"
    | (4) "\<And>now. e \<noteq> EvPiped now" "e \<noteq> EvReader" "\<And>now k. e \<noteq> EvReceive now k" by blast
  then show thesis
  proof cases
    case 1
    with assms(1) show thesis by (intro pipes) auto
  next
    case 2
    with assms(1) show thesis by (intro readers) auto
  next
    case 3
    with assms(1) obtain ch p msg where "k < length (pm_Readers pm)" "pm_Readers pm ! k = RdSending ch p msg"
      "pm_Pc pm = AtSelect" "pm' = module_message env now (p, msg) (set_reader k RdLoop pm)"
      by (auto split: if_splits reader.splits)
    with 3 show thesis by (rule receives)
  next
    case 4
    from manage_step_calm [OF assms 4] show thesis by (rule calm)
  qed
qed

text \<open>
  What holds of sources of messages: they are processes that were started, and in the strict form the one that
  was started last.
\<close>

definition good_source :: "bool \<Rightarrow> persist_mod \<Rightarrow> nat \<Rightarrow> bool" where
  "good_source strict pm p \<longleftrightarrow> 0 < p \<and> p \<le> pm_Process pm \<and> (strict \<longrightarrow> p = pm_Process pm)"

definition socket_sound :: "bool \<Rightarrow> persist_env \<Rightarrow> persist_register \<Rightarrow> persist_mod \<Rightarrow> bool" where
  "socket_sound strict env reg pm \<longleftrightarrow> settled pm \<and>
     (pm_Readers pm \<noteq> [] \<longrightarrow> 0 < pm_Process pm) \<and>
     (\<forall>rd\<in>set (pm_Readers pm). \<forall>p. reader_source rd = Some p \<longrightarrow> good_source strict pm p) \<and>
     (\<forall>m. m \<noteq> pe_Name env \<longrightarrow> pm_Register pm m = reg m) \<and>
     (\<forall>spec. pm_Register pm (pe_Name env) = Some (Some spec) \<longrightarrow>
        pm_Running pm \<and> (\<exists>p. good_source strict pm p \<and> announced_by env pm spec p))"

lemma announced_by_cong: "pm_Read pm' = pm_Read pm \<Longrightarrow> announced_by env pm' spec p = announced_by env pm spec p"
  by (simp add: announced_by_def)

lemma sound_calm:
  assumes "socket_sound strict env reg pm" and "calm env pm pm'"
  shows "socket_sound strict env reg pm'"
  using assms unfolding socket_sound_def calm_def good_source_def announced_by_def by simp

lemma sound_reader:
  assumes sound: "socket_sound strict env reg pm" and k: "k < length (pm_Readers pm)"
    and step: "reader_step e k (pm_Readers pm ! k) pm = Some pm'"
  shows "socket_sound strict env reg pm'"
proof -
  note f = reader_frame [OF step]
  have g: "good_source strict (pm\<lparr>pm_Readers := rs, pm_Closed := c, pm_Panicked := q\<rparr>) = good_source strict pm" for rs c q
    by (simp add: good_source_def fun_eq_iff)
  have pos: "0 < pm_Process pm" using sound k by (auto simp: socket_sound_def)
  have src: "good_source strict pm p" if "rd \<in> set (pm_Readers pm)" "reader_source rd = Some p" for rd p
    using sound that unfolding socket_sound_def by blast
  have "good_source strict pm p" if "rd \<in> set (pm_Readers pm')" "reader_source rd = Some p" for rd p
  proof -
    from reader_sources [OF step that(1)] that(2)
    consider "rd \<in> set (pm_Readers pm)" | "p = pm_Process pm" | "reader_source (pm_Readers pm ! k) = Some p" by auto
    then show ?thesis
    proof cases
      case 1
      then show ?thesis using that(2) by (rule src)
    next
      case 2
      with pos show ?thesis by (simp add: good_source_def)
    next
      case 3
      with nth_mem [OF k] show ?thesis by (rule src)
    qed
  qed
  then show ?thesis
    using sound pos by (subst f) (simp add: socket_sound_def g settled_def announced_by_def)
qed

lemma sound_update:
  assumes sound: "socket_sound strict env reg pm" and "settled pm'" and same: "pm_Process pm' = pm_Process pm" and "0 < pm_Process pm"
    and sub: "set (pm_Readers pm') \<subseteq> insert RdLoop (set (pm_Readers pm))"
    and other: "\<And>m. m \<noteq> pe_Name env \<Longrightarrow> pm_Register pm' m = pm_Register pm m"
    and own: "\<And>spec. pm_Register pm' (pe_Name env) = Some (Some spec) \<Longrightarrow>
      pm_Running pm' \<and> (\<exists>p. good_source strict pm p \<and> announced_by env pm' spec p)"
  shows "socket_sound strict env reg pm'"
proof -
  have g: "good_source strict pm' = good_source strict pm" by (simp add: good_source_def fun_eq_iff same)
  have src: "good_source strict pm p" if "rd \<in> set (pm_Readers pm)" "reader_source rd = Some p" for rd p
    using sound that unfolding socket_sound_def by blast
  have "good_source strict pm p" if "rd \<in> set (pm_Readers pm')" "reader_source rd = Some p" for rd p
  proof -
    have "rd \<noteq> RdLoop" using that(2) by auto
    with that sub src show ?thesis by blast
  qed
  moreover have "pm_Register pm' m = reg m" if "m \<noteq> pe_Name env" for m
    using other [OF that] sound that by (simp add: socket_sound_def)
  ultimately show ?thesis using assms(2,4) own unfolding socket_sound_def g same by blast
qed

lemma sound_receive:
  assumes sound: "socket_sound strict env reg pm" and k: "k < length (pm_Readers pm)"
    and snd: "pm_Readers pm ! k = RdSending ch p msg" and at: "pm_Pc pm = AtSelect"
  shows "socket_sound strict env reg (module_message env now (p, msg) (set_reader k RdLoop pm))"
proof -
  have src: "good_source strict pm p" if "rd \<in> set (pm_Readers pm)" "reader_source rd = Some p" for rd p
    using sound that unfolding socket_sound_def by blast
  have p: "good_source strict pm p" using src [OF nth_mem [OF k]] by (simp add: snd)
  have run: "pm_Running pm" using sound at by (simp add: socket_sound_def settled_def)
  have sub: "set ((pm_Readers pm)[k := RdLoop]) \<subseteq> insert RdLoop (set (pm_Readers pm))" by (rule set_update_subset_insert)
  from p have pos: "0 < pm_Process pm" by (simp add: good_source_def)
  have own: "\<exists>p. good_source strict pm p \<and> announced_by env pm spec p"
    if "pm_Register pm (pe_Name env) = Some (Some spec)" for spec
    using sound that by (simp add: socket_sound_def)
  show ?thesis
  proof (cases rule: module_message_cases [of env now "(p, msg)" "set_reader k RdLoop pm"])
    case (passes pc t al)
    show ?thesis unfolding passes(1)
    proof (rule sound_update [OF sound], goal_cases)
      case (6 spec)
      then obtain q where "good_source strict pm q" "announced_by env pm spec q" using own by auto
      with run show ?case by (force simp: announced_by_def)
    qed (use passes(2) run pos sub in \<open>auto simp: settled_def\<close>)
  next
    case (registers spec)
    show ?thesis unfolding registers(1)
    proof (rule sound_update [OF sound], goal_cases)
      case (6 spec')
      then have "spec' = spec" by simp
      with run p registers(2,3) show ?case by (auto simp: announced_by_def)
    qed (use run pos sub in \<open>auto simp: settled_def\<close>)
  qed
qed

lemma sound_step:
  assumes sound: "socket_sound strict env reg pm" and step: "persist_step env e pm = Some pm'"
    and order: "\<And>now. strict \<Longrightarrow> e = EvPiped now \<Longrightarrow> list_all (\<lambda>rd. rd = RdDone) (pm_Readers pm)"
  shows "socket_sound strict env reg pm'"
  using step
proof (cases rule: persist_step_cases)
  case (exits p)
  with sound show ?thesis by (simp add: socket_sound_def settled_def good_source_def announced_by_def)
next
  case (reads k)
  with sound show ?thesis by (blast intro: sound_reader)
next
  case manages
  have settled: "settled pm" using sound by (simp add: socket_sound_def)
  from manages settled show ?thesis
  proof (cases rule: manage_step_cases)
    case (pipes now)
    have "reader_source rd = None" if "strict" "rd \<in> set (pm_Readers pm)" for rd
      using order [OF that(1) pipes(1)] that(2) by (auto simp: list_all_iff)
    with sound pipes(2) show ?thesis
      by (auto simp: pipes(3) socket_sound_def settled_def good_source_def announced_by_def)
  next
    case readers
    with sound settled show ?thesis by (auto simp: socket_sound_def settled_def good_source_def announced_by_def)
  next
    case (receives now k ch p msg)
    with sound show ?thesis by (blast intro: sound_receive)
  next
    case calm
    with sound show ?thesis by (rule sound_calm)
  qed
qed

text \<open>Runs in which every reader has ended before the module is started again, as ten seconds mean to ensure.\<close>

fun orderly :: "persist_env \<Rightarrow> persist_event list \<Rightarrow> persist_mod \<Rightarrow> bool" where
  "orderly env [] pm = True"
| "orderly env (e # es) pm =
     ((case e of EvPiped now \<Rightarrow> list_all (\<lambda>rd. rd = RdDone) (pm_Readers pm) | _ \<Rightarrow> True) \<and>
      (case persist_step env e pm of None \<Rightarrow> True | Some pm' \<Rightarrow> orderly env es pm'))"

lemma sound_run:
  "managePersistModule env es pm = Some pm' \<Longrightarrow> socket_sound strict env reg pm \<Longrightarrow> (strict \<longrightarrow> orderly env es pm) \<Longrightarrow>
   socket_sound strict env reg pm'"
proof (induction es arbitrary: pm)
  case (Cons e es)
  from Cons.prems(1) obtain pm1 where 1: "persist_step env e pm = Some pm1" "managePersistModule env es pm1 = Some pm'"
    by (auto split: option.splits)
  have "socket_sound strict env reg pm1"
    by (rule sound_step [OF Cons.prems(2) 1(1)]) (use Cons.prems(3) in simp)
  with Cons.IH [OF 1(2)] Cons.prems(3) 1(1) show ?case by simp
qed simp

lemma init_sound:
  "\<forall>spec. reg (pe_Name env) \<noteq> Some (Some spec) \<Longrightarrow> socket_sound strict env reg (persist_init t reg)"
  by (simp add: socket_sound_def persist_init_def settled_def)

text \<open>
  C21. A socket in the register belongs to a module that is taken to be running. Whatever the modules and the
  system do and however the goroutines are interleaved, a socket that the register holds for the module was announced by a
  process that this routine has started, and the module has not been found to be down since; when the reading
  goroutines of earlier processes have always ended before a restart, it was announced by the process that is running now.
  The entries of other modules are never touched.
\<close>

theorem registered_socket_is_announced:
  assumes "\<forall>spec. reg (pe_Name env) \<noteq> Some (Some spec)"
    and "managePersistModule env es (persist_init t reg) = Some pm" and "register_get (pm_Register pm) m = Inr spec"
  shows "if m = pe_Name env
    then pm_Running pm \<and>
      (\<exists>p msg. 1 \<le> p \<and> p \<le> pm_Process pm \<and> (p, msg) \<in> set (pm_Read pm) \<and> msg_Class msg = MsgClassRegister \<and>
         redecode (pe_Codec env) (pe_SockPath env) (msg_Parameters msg) = Inr spec \<and>
         (orderly env es (persist_init t reg) \<longrightarrow> p = pm_Process pm))
    else reg m = Some (Some spec)"
proof -
  have sound: "socket_sound (orderly env es (persist_init t reg)) env reg pm"
    by (rule sound_run [OF assms(2) init_sound [of reg env, OF assms(1)]]) simp
  from assms(3) have reg: "pm_Register pm m = Some (Some spec)"
    by (auto simp: register_get_def split: option.splits)
  show ?thesis
  proof (cases "m = pe_Name env")
    case True
    with sound reg obtain p where "pm_Running pm" "good_source (orderly env es (persist_init t reg)) pm p"
      "announced_by env pm spec p"
      by (auto simp: socket_sound_def)
    with True show ?thesis by (force simp: good_source_def announced_by_def Suc_le_eq)
  next
    case False
    with sound reg show ?thesis by (simp add: socket_sound_def)
  qed
qed

text \<open>
  When a write to a process fails the module is taken to be down, but the process may go on, and so does its reader. It then
  serves the channel of the next process: here the register gets the socket that process 1 announces, while
  process 2 is the one that is running.
\<close>

definition start_events :: "time \<Rightarrow> json \<Rightarrow> persist_event list" where
  "start_events now cfg = [EvPiped now, EvStarted, EvReader, EvConfig cfg None]"

lemmas run_defs = start_events_def step_if_def persist_init_def persist_step_def module_tick_def module_write_def write_config_def to_select_def
  init_dispatch_def dispatchDealloc_def module_down_def register_remove_def register_set_def reader_send_def reader_close_def
  set_reader_def module_message_def ping_limit_def sends_on_def Let_def

theorem old_process_registers:
  assumes "MakeMessageConfig (pe_Codec env) cfg (pe_Hostname env) (pe_Env env) (pe_Tags env) = Inr cm"
    and "MakeMessage (pe_Codec env) ''ping'' JNull False = Inr ping" and "msg_Class msg = MsgClassRegister"
    and "redecode (pe_Codec env) (pe_SockPath env) (msg_Parameters msg) = Inr spec"
  shows "\<exists>pm. managePersistModule env
      (start_events t cfg @ [EvLoop 0, EvTick t (Some e)] @ start_events t' cfg @ [EvInput 0 msg, EvGot 0, EvReceive t' 0])
      (persist_init t reg) = Some pm \<and>
    pm_Running pm \<and> pm_Process pm = 2 \<and> 2 \<in> set (pm_Alive pm) \<and> pm_Read pm = [(1, msg)] \<and>
    register_get (pm_Register pm) (pe_Name env) = Inr spec"
  using assms by (simp add: run_defs message_classes register_get_def)

text \<open>
  And when that reader comes to its end it closes the channel of the next process; once that process has ended too, its
  own reader closes the channel a second time, and the agent panics.
\<close>

theorem late_reader_panics:
  assumes "MakeMessageConfig (pe_Codec env) cfg (pe_Hostname env) (pe_Env env) (pe_Tags env) = Inr cm"
    and "MakeMessage (pe_Codec env) ''ping'' JNull False = Inr ping"
  shows "\<exists>pm pm'. managePersistModule env
      (start_events t cfg @ [EvLoop 0, EvTick t (Some e)] @ start_events t' cfg @ [EvLoop 1, EvExit 1, EvError 0, EvClose 0])
      (persist_init t reg) = Some pm \<and> pm_Process pm = 2 \<and> 2 \<in> set (pm_Alive pm) \<and> \<not> pm_Panicked pm \<and>
    managePersistModule env [EvClosed, EvExit 2, EvError 1, EvClose 1] pm = Some pm' \<and> pm_Panicked pm' \<and>
    (\<forall>ev. persist_step env ev pm' = None)"
  using assms by (simp add: run_defs)

text \<open>The managing goroutine waits for a process that goes on: nothing but the end of that process moves it.\<close>

definition waits_for :: "nat \<Rightarrow> persist_mod \<Rightarrow> persist_mod \<Rightarrow> bool" where
  "waits_for n pm0 pm \<longleftrightarrow> pm_Pc pm = AtWait \<and> pm_Process pm = n \<and> n \<in> set (pm_Alive pm) \<and>
     pm_Register pm = pm_Register pm0 \<and> pm_Written pm = pm_Written pm0"

lemma waits_for_step:
  assumes "waits_for n pm0 pm" and "e \<noteq> EvExit n" and "persist_step env e pm = Some pm'"
  shows "waits_for n pm0 pm'"
  using assms(3)
proof (cases rule: persist_step_cases)
  case (exits p)
  with assms(1,2) show ?thesis by (simp add: waits_for_def)
next
  case (reads k)
  from assms(1) show ?thesis by (subst reader_frame [OF reads(3)]) (simp add: waits_for_def)
next
  case manages
  with assms(1) show ?thesis by (cases e) (auto simp: waits_for_def split: if_splits)
qed

text \<open>
  C22. A malformed line switches the watch over a module off. When the reader of a module that is running cannot decode what it
  read, it closes the channel, and the managing goroutine waits for the process to end: along every
  further run in which the process does not end by itself it goes on waiting, sends no ping, kills nothing and
  leaves the socket of the module in the register, however much time passes.
\<close>

theorem malformed_line_disarms_watchdog:
  assumes "pm_Pc pm = AtSelect" and "\<not> pm_Panicked pm" and "pm_Process pm \<in> set (pm_Alive pm)"
    and "k < length (pm_Readers pm)" and "pm_Readers pm ! k = RdReading (pm_Process pm)"
    and "pm_Chan pm \<notin> set (pm_Closed pm)" and "list_all (\<lambda>rd. \<not> sends_on (pm_Chan pm) rd) (pm_Readers pm)"
  shows "\<exists>pm'. managePersistModule env [EvError k, EvClose k, EvClosed] pm = Some pm' \<and>
    (\<forall>es pm''. managePersistModule env es pm' = Some pm'' \<and> EvExit (pm_Process pm) \<notin> set es \<longrightarrow>
       pm_Pc pm'' = AtWait \<and> pm_Process pm \<in> set (pm_Alive pm'') \<and> pm_Register pm'' = pm_Register pm \<and>
       pm_Written pm'' = pm_Written pm)"
proof -
  define pm1 where "pm1 = set_reader k RdFailed pm"
  define pm' where "pm' = (set_reader k RdDone pm1)\<lparr>pm_Closed := pm_Chan pm # pm_Closed pm, pm_Pc := AtWait\<rparr>"
  have "\<not> list_ex (sends_on (pm_Chan pm)) ((pm_Readers pm)[k := RdFailed])"
    using assms(7) by (auto simp: list_ex_iff list_all_iff sends_on_def dest!: set_update_subset_insert [THEN subsetD] split: reader.splits)
  then have "managePersistModule env [EvError k, EvClose k, EvClosed] pm = Some pm'"
    using assms(1,2,4,5,6) by (simp add: persist_step_def pm1_def pm'_def reader_close_def set_reader_def)
  moreover have start: "waits_for (pm_Process pm) pm pm'" using assms(3) by (simp add: waits_for_def pm'_def pm1_def set_reader_def)
  have "waits_for (pm_Process pm) pm pm''"
    if "managePersistModule env es pm' = Some pm''" "EvExit (pm_Process pm) \<notin> set es" for es pm''
    by (rule manage_invariant [where I = "waits_for (pm_Process pm) pm", OF that(1) start]) (rule waits_for_step, assumption, use that(2) in auto)
  then have "\<forall>es pm''. managePersistModule env es pm' = Some pm'' \<and> EvExit (pm_Process pm) \<notin> set es \<longrightarrow>
       pm_Pc pm'' = AtWait \<and> pm_Process pm \<in> set (pm_Alive pm'') \<and> pm_Register pm'' = pm_Register pm \<and>
       pm_Written pm'' = pm_Written pm"
    unfolding waits_for_def by blast
  ultimately show ?thesis by blast
qed

text \<open>The watch as it is meant: a tick thirty seconds after the last answer kills the module, whose socket is removed.\<close>

theorem silent_module_killed:
  assumes "pm_Pc pm = AtSelect" and "\<not> pm_Panicked pm" and "30 * 1000000000 \<le> now - pm_LastPing pm"
  shows "\<exists>pm'. managePersistModule env [EvTick now f, EvKill None, EvWaited] pm = Some pm' \<and> \<not> pm_Running pm' \<and>
    pm_Process pm \<notin> set (pm_Alive pm') \<and> \<not> is_ok (register_get (pm_Register pm') (pe_Name env))"
  using assms by (simp add: persist_step_def module_tick_def ping_limit_def register_get_def)

section \<open>Alerts on their way to the dispatch module (alert.go)\<close>

text \<open>
  The routine \<open>alertProcessor\<close> and the routine that manages the dispatch module, with the lock that both
  take. The processor waits for an alert, holds one and wants the lock, or has the lock; the manager is
  at its select statement, wants the lock in \<open>dispatchDealloc\<close>, or has no module running. \<open>dw_Lost\<close> are
  the alerts in a dispatch channel that is closed and those whose message could not be made or written.
\<close>

datatype processor = PWaiting | PHolding string | PLocked string
datatype dispatcher = DSelect | DDealloc | DDown

record dispatch_world =
  dw_Arrived :: "string list"
  dw_Alerts :: "string list"
  dw_Processor :: processor
  dw_Chan :: "string list option"
  dw_Manager :: dispatcher
  dw_Logged :: "string list"
  dw_Dispatched :: "string list"
  dw_Lost :: "string list"

definition dispatch_start :: dispatch_world where
  "dispatch_start =
     \<lparr>dw_Arrived = [], dw_Alerts = [], dw_Processor = PWaiting, dw_Chan = None, dw_Manager = DDown,
      dw_Logged = [], dw_Dispatched = [], dw_Lost = []\<rparr>"

definition dispatch_capacity :: nat where "dispatch_capacity = 128"

definition lock_free :: "dispatch_world \<Rightarrow> bool" where
  "lock_free w \<longleftrightarrow> (case dw_Processor w of PLocked _ \<Rightarrow> False | _ \<Rightarrow> True)"

inductive alert_step :: "dispatch_world \<Rightarrow> dispatch_world \<Rightarrow> bool" where
  arrive: "length (dw_Alerts w) < dispatch_capacity \<Longrightarrow>
    alert_step w (w\<lparr>dw_Arrived := dw_Arrived w @ [a], dw_Alerts := dw_Alerts w @ [a]\<rparr>)"
| take: "dw_Processor w = PWaiting \<Longrightarrow> dw_Alerts w = a # as \<Longrightarrow>
    alert_step w (w\<lparr>dw_Processor := PHolding a, dw_Alerts := as\<rparr>)"
| lock: "dw_Processor w = PHolding a \<Longrightarrow> alert_step w (w\<lparr>dw_Processor := PLocked a\<rparr>)"
| send: "dw_Processor w = PLocked a \<Longrightarrow> dw_Chan w = Some q \<Longrightarrow> length q < dispatch_capacity \<Longrightarrow>
    alert_step w (w\<lparr>dw_Processor := PWaiting, dw_Chan := Some (q @ [a])\<rparr>)"
| log: "dw_Processor w = PLocked a \<Longrightarrow> dw_Chan w = None \<Longrightarrow>
    alert_step w (w\<lparr>dw_Processor := PWaiting, dw_Logged := dw_Logged w @ [a]\<rparr>)"
| dispatch: "dw_Manager w = DSelect \<Longrightarrow> dw_Chan w = Some (a # q) \<Longrightarrow>
    alert_step w (w\<lparr>dw_Chan := Some q, dw_Dispatched := dw_Dispatched w @ [a]\<rparr>)"
| write_fails: "dw_Manager w = DSelect \<Longrightarrow> dw_Chan w = Some (a # q) \<Longrightarrow>
    alert_step w (w\<lparr>dw_Chan := Some q, dw_Lost := dw_Lost w @ [a], dw_Manager := DDealloc\<rparr>)"
| unmade: "dw_Manager w = DSelect \<Longrightarrow> dw_Chan w = Some (a # q) \<Longrightarrow>
    alert_step w (w\<lparr>dw_Chan := Some q, dw_Lost := dw_Lost w @ [a]\<rparr>)"
| module_ends: "dw_Manager w = DSelect \<Longrightarrow> alert_step w (w\<lparr>dw_Manager := DDealloc\<rparr>)"
| dealloc: "dw_Manager w = DDealloc \<Longrightarrow> lock_free w \<Longrightarrow> dw_Chan w = Some q \<Longrightarrow>
    alert_step w (w\<lparr>dw_Chan := None, dw_Lost := dw_Lost w @ q, dw_Manager := DDown\<rparr>)"
| restart: "dw_Manager w = DDown \<Longrightarrow> lock_free w \<Longrightarrow> dw_Chan w = None \<Longrightarrow>
    alert_step w (w\<lparr>dw_Chan := Some [], dw_Manager := DSelect\<rparr>)"

definition in_hand :: "dispatch_world \<Rightarrow> string list" where
  "in_hand w = (case dw_Processor w of PWaiting \<Rightarrow> [] | PHolding a \<Rightarrow> [a] | PLocked a \<Rightarrow> [a])"

definition in_chan :: "dispatch_world \<Rightarrow> string list" where
  "in_chan w = (case dw_Chan w of None \<Rightarrow> [] | Some q \<Rightarrow> q)"

definition alerts_kept :: "dispatch_world \<Rightarrow> bool" where
  "alerts_kept w \<longleftrightarrow>
     mset (dw_Arrived w) =
       mset (dw_Logged w) + mset (dw_Dispatched w) + mset (dw_Lost w) + mset (in_chan w) + mset (in_hand w) +
       mset (dw_Alerts w) \<and>
     length (in_chan w) \<le> dispatch_capacity \<and> length (dw_Alerts w) \<le> dispatch_capacity \<and>
     (dw_Chan w = None \<longleftrightarrow> dw_Manager w = DDown)"

text \<open>What has been done with an alert is not undone.\<close>

definition alerts_grow :: "dispatch_world \<Rightarrow> dispatch_world \<Rightarrow> bool" where
  "alerts_grow w w' \<longleftrightarrow> (\<exists>l d. dw_Logged w' = dw_Logged w @ l \<and> dw_Dispatched w' = dw_Dispatched w @ d)"

interpretation alerts: state_machine alert_step alerts_kept alerts_grow
proof (unfold_locales, goal_cases)
  case (1 w w')
  from 1(2,1) show ?case
    by cases (auto simp: alerts_kept_def in_hand_def in_chan_def)
next
  case (2 w w')
  from 2(2) show ?case by cases (auto simp: alerts_grow_def)
qed (auto simp: alerts_grow_def)

text \<open>
  No alert vanishes without a reason: along every run of the two routines, each alert that arrived was
  logged, dispatched, or lost at the dispatch module, or is still on its way, and the
  channels hold at most 128.
\<close>

theorem alerts_accounted_for:
  assumes "alert_step\<^sup>*\<^sup>* dispatch_start w"
  shows "mset (dw_Arrived w) =
      mset (dw_Logged w) + mset (dw_Dispatched w) + mset (dw_Lost w) +
      mset (case dw_Chan w of None \<Rightarrow> [] | Some q \<Rightarrow> q) +
      mset (case dw_Processor w of PWaiting \<Rightarrow> [] | PHolding a \<Rightarrow> [a] | PLocked a \<Rightarrow> [a]) + mset (dw_Alerts w) \<and>
    (\<forall>q. dw_Chan w = Some q \<longrightarrow> length q \<le> 128) \<and> length (dw_Alerts w) \<le> 128"
proof -
  have "alerts_kept dispatch_start" by (simp add: alerts_kept_def dispatch_start_def in_hand_def in_chan_def)
  from alerts.run_inv [OF assms this] show ?thesis
    by (auto simp: alerts_kept_def in_hand_def in_chan_def dispatch_capacity_def)
qed

text \<open>The processor sits on the lock with the channel full, and the only reader of the channel wants the lock.\<close>

definition jammed :: "dispatch_world \<Rightarrow> bool" where
  "jammed w \<longleftrightarrow> dw_Manager w = DDealloc \<and> (\<exists>a. dw_Processor w = PLocked a) \<and>
     (\<exists>q. dw_Chan w = Some q \<and> length q = dispatch_capacity)"

lemma jammed_step: "alert_step w w' \<Longrightarrow> jammed w \<Longrightarrow>
    jammed w' \<and> dw_Logged w' = dw_Logged w \<and> dw_Dispatched w' = dw_Dispatched w \<and> dw_Lost w' = dw_Lost w"
  by (cases rule: alert_step.cases) (auto simp: jammed_def lock_free_def)

lemma jammed_run:
  "alert_step\<^sup>*\<^sup>* w w' \<Longrightarrow> jammed w \<Longrightarrow>
    jammed w' \<and> dw_Logged w' = dw_Logged w \<and> dw_Dispatched w' = dw_Dispatched w \<and> dw_Lost w' = dw_Lost w"
  by (induction rule: rtranclp_induct) (auto dest: jammed_step)

text \<open>A run that fills the dispatch channel.\<close>

definition filled :: "string list \<Rightarrow> dispatch_world" where
  "filled as = dispatch_start\<lparr>dw_Arrived := as, dw_Chan := Some as, dw_Manager := DSelect\<rparr>"

lemma fill_one:
  assumes "alert_step\<^sup>*\<^sup>* dispatch_start (filled as)"
  shows "alert_step\<^sup>*\<^sup>* dispatch_start ((filled as)\<lparr>dw_Arrived := as @ [a], dw_Processor := PLocked a\<rparr>)"
proof -
  note assms
  also have "alert_step (filled as) ((filled as)\<lparr>dw_Arrived := as @ [a], dw_Alerts := [a]\<rparr>)"
    using arrive [of "filled as" a] by (simp add: filled_def dispatch_start_def dispatch_capacity_def)
  also have "alert_step \<dots> ((filled as)\<lparr>dw_Arrived := as @ [a], dw_Processor := PHolding a\<rparr>)"
    using take [of "(filled as)\<lparr>dw_Arrived := as @ [a], dw_Alerts := [a]\<rparr>"] by (simp add: filled_def dispatch_start_def)
  also have "alert_step \<dots> ((filled as)\<lparr>dw_Arrived := as @ [a], dw_Processor := PLocked a\<rparr>)"
    using lock [of "(filled as)\<lparr>dw_Arrived := as @ [a], dw_Processor := PHolding a\<rparr>"]
    by (simp add: filled_def dispatch_start_def)
  finally show ?thesis .
qed

lemma fill: "length as \<le> dispatch_capacity \<Longrightarrow> alert_step\<^sup>*\<^sup>* dispatch_start (filled as)"
proof (induction as rule: rev_induct)
  case Nil
  show ?case using restart [of dispatch_start] by (auto simp: filled_def dispatch_start_def lock_free_def)
next
  case (snoc a as)
  then have "alert_step\<^sup>*\<^sup>* dispatch_start ((filled as)\<lparr>dw_Arrived := as @ [a], dw_Processor := PLocked a\<rparr>)"
    by (intro fill_one) simp
  also have "alert_step \<dots> (filled (as @ [a]))"
    using send [of "(filled as)\<lparr>dw_Arrived := as @ [a], dw_Processor := PLocked a\<rparr>"] snoc.prems
    by (simp add: filled_def dispatch_start_def)
  finally show ?case .
qed

text \<open>
  Alerts can stop for ever. \<open>alertProcessor\<close> sends to the dispatch channel while it holds the lock; when
  128 alerts wait in the channel and the dispatch module goes down, its routine, the only reader of the
  channel, waits for that lock. Such a state can be reached, and from it on, whatever happens, no
  alert is logged or dispatched any more.
\<close>

theorem alerts_can_jam:
  "\<exists>w. alert_step\<^sup>*\<^sup>* dispatch_start w \<and> length (dw_Arrived w) = 129 \<and>
     (\<forall>w'. alert_step\<^sup>*\<^sup>* w w' \<longrightarrow> dw_Logged w' = [] \<and> dw_Dispatched w' = [] \<and> dw_Manager w' = DDealloc)"
proof -
  let ?as = "replicate 128 ''alert''"
  let ?w = "(filled ?as)\<lparr>dw_Arrived := ?as @ [''alert''], dw_Processor := PLocked ''alert'', dw_Manager := DDealloc\<rparr>"
  have "alert_step\<^sup>*\<^sup>* dispatch_start ((filled ?as)\<lparr>dw_Arrived := ?as @ [''alert''], dw_Processor := PLocked ''alert''\<rparr>)"
    by (intro fill_one fill) (simp add: dispatch_capacity_def)
  also have "alert_step \<dots> ?w"
    using module_ends [of "(filled ?as)\<lparr>dw_Arrived := ?as @ [''alert''], dw_Processor := PLocked ''alert''\<rparr>"]
    by (simp add: filled_def dispatch_start_def)
  finally have "alert_step\<^sup>*\<^sup>* dispatch_start ?w" .
  moreover have "jammed ?w" by (simp add: jammed_def filled_def dispatch_capacity_def)
  ultimately show ?thesis
    using jammed_run [of ?w] by (intro exI [of _ ?w]) (auto simp: filled_def dispatch_start_def jammed_def)
qed

section \<open>Heartbeats of the agent\<close>

text \<open>
  What \<open>heartbeat\<close> posts: the agent's description, with the tags in the order of a map iteration. The
  environment of a heartbeat has no field for the instance data of the cloud provider.
\<close>

definition make_heartbeat :: "string \<Rightarrow> nat \<Rightarrow> (string \<times> string) list \<Rightarrow> time \<Rightarrow> agent \<Rightarrow> heartbeat" where
  "make_heartbeat version pid tags now agt =
     \<lparr>hb_Name = agt_Name agt, hb_Mode = agt_Mode agt, hb_Version = version, hb_PID = pid,
      hb_QueueLoc = agt_QueueLoc agt, hb_StartTime = now, hb_RefreshTime = agt_RefreshTS agt,
      hb_Env = (agt_Env agt)\<lparr>env_AWS := env_AWS zero_env\<rparr>, hb_Tags = tags\<rparr>"

text \<open>
  One round: the heartbeat travels as JSON, \<open>wire\<close>, to the endpoint of the API; the agent keeps running
  unless the request itself fails. \<open>None\<close> is a panic, which ends the agent.
\<close>

definition heartbeat_round ::
  "(heartbeat \<Rightarrow> heartbeat result) \<Rightarrow> db_json \<Rightarrow> bool \<Rightarrow> time \<Rightarrow> mig_id \<Rightarrow> heartbeat \<Rightarrow> mig_db \<Rightarrow> (mig_db \<times> nat) option" where
  "heartbeat_round wire js reachable now agtid hb db =
     (if reachable then Some (ServeHTTP js NilAuthenticator now agtid (wire hb) db) else None)"

text \<open>An agent whose description passes the checks of the endpoint.\<close>

definition presentable :: "string \<Rightarrow> nat \<Rightarrow> agent \<Rightarrow> bool" where
  "presentable version pid agt \<longleftrightarrow>
     agt_Name agt \<noteq> [] \<and> length (agt_Name agt) \<le> 1024 \<and> version \<noteq> [] \<and> length version \<le> 128 \<and> 0 < pid \<and>
     agt_QueueLoc agt \<noteq> [] \<and> (agt_Mode agt = ''daemon'' \<or> agt_Mode agt = ''checkin'') \<and>
     env_Init (agt_Env agt) \<noteq> [] \<and> env_Ident (agt_Env agt) \<noteq> [] \<and> env_OS (agt_Env agt) \<noteq> [] \<and>
     env_Arch (agt_Env agt) \<noteq> []"

lemma made_heartbeat_valid:
  assumes "presentable version pid agt" and "posted \<le> now + 300 * second"
  shows "heartbeat_validate posted (make_heartbeat version pid tags now agt) =
    (if env_PublicIP (agt_Env agt) = [] then Inl (errors_New ''missing field(s)'') else Inr ())"
  using assms by (auto simp: heartbeat_validate_def make_heartbeat_def presentable_def Let_def)

text \<open>
  From the agent to the table. The heartbeat of a new agent that knows its public address is accepted
  by the API and puts the agent online, on its queue; without a public address, as when its discovery
  is switched off or fails, every heartbeat is refused, the table never learns of the agent, and no
  action reaches it.
\<close>

theorem heartbeat_reaches_table:
  assumes "presentable version pid agt" and "posted \<le> now + 300 * 1000000000"
    and "wire (make_heartbeat version pid tags now agt) = Inr (make_heartbeat version pid tags now agt)"
    and "\<forall>g\<in>set (t_Agents db). gr_QueueLoc g \<noteq> agt_QueueLoc agt" and "i \<notin> gr_ID ` set (t_Agents db)"
    and "\<And>e. is_ok (dj_Env js e)" and "\<And>t. is_ok (dj_Tags js t)"
  shows "\<exists>db' code.
    heartbeat_round wire js True posted i (make_heartbeat version pid tags now agt) db = Some (db', code) \<and>
    (if env_PublicIP (agt_Env agt) = [] then code = 400 \<and> db' = db
     else \<exists>g. t_Agents db' = t_Agents db @ [g] \<and> gr_QueueLoc g = agt_QueueLoc agt \<and> gr_Status g = ''online'')"
proof (cases "env_PublicIP (agt_Env agt) = []")
  case True
  with made_heartbeat_valid [OF assms(1,2), of tags] assms(3) show ?thesis
    by (simp add: heartbeat_round_def ServeHTTP_def)
next
  case False
  let ?hb = "make_heartbeat version pid tags now agt"
  from False made_heartbeat_valid [OF assms(1,2), of tags] have "heartbeat_validate posted ?hb = Inr ()" by simp
  moreover have "\<forall>g\<in>set (t_Agents db). gr_QueueLoc g \<noteq> hb_QueueLoc ?hb" using assms(4) by (simp add: make_heartbeat_def)
  ultimately obtain g where "t_Agents (fst (ServeHTTP js NilAuthenticator posted i (Inr ?hb) db)) = t_Agents db @ [g]"
    "gr_QueueLoc g = hb_QueueLoc ?hb" "gr_Status g = AgtStatusOnline"
    using posted_heartbeat_inserts [OF _ _ assms(5-7)] by blast
  with False assms(3) show ?thesis
    by (auto simp: heartbeat_round_def make_heartbeat_def agent_statuses
        intro!: exI [of _ "fst (ServeHTTP js NilAuthenticator posted i (Inr ?hb) db)"]
          exI [of _ "snd (ServeHTTP js NilAuthenticator posted i (Inr ?hb) db)"])
qed

section \<open>Running modules directly\<close>

text \<open>
  The modes \<open>-i\<close>, \<open>-m\<close> and \<open>-P\<close>: \<open>de_Run\<close> is the \<open>Run\<close> method of a module on its input, \<open>de_Privacy\<close> and
  \<open>de_Printer\<close> the optional interfaces it implements.
\<close>

record direct_env =
  de_Codec :: codec
  de_Available :: "string \<Rightarrow> bool"
  de_Persistent :: "string \<Rightarrow> bool"
  de_Run :: "string \<Rightarrow> string \<Rightarrow> string"
  de_Stdin :: string
  de_Decode :: "string \<Rightarrow> module_result result"
  de_Encode :: "module_result \<Rightarrow> string result"
  de_ExtraPrivacy :: bool
  de_Privacy :: "string \<Rightarrow> (module_result \<Rightarrow> module_result result) option"
  de_Printer :: "string \<Rightarrow> (module_result \<Rightarrow> string list result) option"
  de_Quote :: "string \<Rightarrow> string"

text \<open>The output with the privacy of the module applied, and the output that is printed.\<close>

definition enhanced_output :: "direct_env \<Rightarrow> string \<Rightarrow> string \<Rightarrow> string result" where
  "enhanced_output env mode out =
     (case if de_ExtraPrivacy env then de_Privacy env mode else None of
        None \<Rightarrow> Inr out
      | Some enhance \<Rightarrow> and_then (and_then (de_Decode env out) enhance) (de_Encode env))"

definition printed_output :: "direct_env \<Rightarrow> string \<Rightarrow> string \<Rightarrow> string result" where
  "printed_output env mode out =
     and_then (de_Decode env out) (\<lambda>res.
       case de_Printer env mode of
         None \<Rightarrow> Inr (''[error] no printer available for module '' @ quoted mode @ [CHR 0x0A])
       | Some printer \<Rightarrow> and_then (printer res) (\<lambda>ls. Inr (concat (map (\<lambda>l. l @ [CHR 0x0A]) ls))))"

text \<open>The error of the result is a panic; a nil \<open>paramargs\<close> means that the module reads the standard input.\<close>

definition runModuleDirectly :: "direct_env \<Rightarrow> string \<Rightarrow> json \<Rightarrow> bool \<Rightarrow> string result" where
  "runModuleDirectly env mode paramargs pretty =
     (if \<not> de_Available env mode
      then (let dq = [CHR 0x22]
            in Inr (''{'' @ dq @ ''errors'' @ dq @ '': ['' @ dq @ ''module '' @ quoted mode @ '' is not available'' @ dq @ '']}''))
      else and_then (if paramargs = JNull then Inr (de_Stdin env)
                     else MakeMessage (de_Codec env) MsgClassParameters paramargs False) (\<lambda>inp.
           and_then (enhanced_output env mode (de_Run env mode inp)) (\<lambda>out.
           if pretty then printed_output env mode out else Inr out)))"

fun execute_operations :: "direct_env \<Rightarrow> bool \<Rightarrow> operation list \<Rightarrow> module_result list result" where
  "execute_operations env pretty [] = Inr []"
| "execute_operations env pretty (op # rest) =
     and_then (runModuleDirectly env (op_Module op) (op_Parameters op) pretty) (\<lambda>out.
     and_then (de_Decode env out) (\<lambda>res.
     and_then (execute_operations env pretty rest) (\<lambda>results. Inr (res # results))))"

definition executeAction :: "direct_env \<Rightarrow> bool \<Rightarrow> action \<Rightarrow> module_result list result" where
  "executeAction env pretty a = recovered ''executeAction'' (execute_operations env pretty (ops a))"

definition loadActionFromFile ::
  "direct_env \<Rightarrow> (module_result list \<Rightarrow> string result) \<Rightarrow> bool \<Rightarrow> action result \<Rightarrow> string result" where
  "loadActionFromFile env marshal pretty read =
     recovered ''loadActionFromFile'' (and_then read (\<lambda>a. and_then (executeAction env pretty a) marshal))"

text \<open>\<open>runModulePersist\<close>: what is printed, or that \<open>RunPersist\<close> of the module is called.\<close>

definition runModulePersist :: "direct_env \<Rightarrow> string \<Rightarrow> string option" where
  "runModulePersist env mode =
     (let say = (\<lambda>txt. case json_Marshal (de_Codec env)
                              (message_json \<lparr>msg_Class = MsgClassLog, msg_Parameters = JObj [(''message'', JStr txt)],
                                             msg_PersistSock = []\<rparr>) of
                          Inl _ \<Rightarrow> [] | Inr buf \<Rightarrow> buf)
      in if \<not> de_Available env mode then Some (say (''module '' @ de_Quote env mode @ '' is not available''))
         else if \<not> de_Persistent env mode
         then Some (say (''module '' @ de_Quote env mode @ '' does not support persistence''))
         else None)"

text \<open>
  The results of an action that is run from a file are those of its operations, in their order, each the
  decoded output of its module; parameters that are compressed reach the module as they are.
\<close>

lemma executeAction_results:
  "executeAction env pretty a = Inr results \<Longrightarrow>
    list_all2 (\<lambda>op res. \<exists>out. runModuleDirectly env (op_Module op) (op_Parameters op) pretty = Inr out \<and>
      de_Decode env out = Inr res) (ops a) results"
proof -
  have "execute_operations env pretty xs = Inr rs \<Longrightarrow>
    list_all2 (\<lambda>op res. \<exists>out. runModuleDirectly env (op_Module op) (op_Parameters op) pretty = Inr out \<and>
      de_Decode env out = Inr res) xs rs" for xs rs
    by (induction xs arbitrary: rs) (auto simp: and_then_eq_Inr)
  then show "executeAction env pretty a = Inr results \<Longrightarrow> ?thesis"
    by (auto simp: executeAction_def recovered_def split: sum.splits)
qed

section \<open>Concrete runs\<close>

definition example_penv :: persist_env where
  "example_penv =
     \<lparr>pe_Codec = example_mcodec\<lparr>json_Marshal := (\<lambda>_. Inr ''1'')\<rparr>, pe_Name = ''audit'', pe_Hostname = ''host'',
      pe_Env = JNull, pe_Tags = JNull, pe_Sprintf = (\<lambda>s. s), pe_Alert = (\<lambda>_. Inr ''alert''),
      pe_SockPath = (\<lambda>_. Inr ''unix:/run/audit'')\<rparr>"

lemmas example_persist = example_penv_def example_mcodec_def run_defs MakeMessageConfig_def make_message_of_def MakeMessage_def
  redecode_def message_classes

abbreviation example_registration :: message where
  "example_registration \<equiv> \<lparr>msg_Class = MsgClassRegister, msg_Parameters = JStr ''x'', msg_PersistSock = []\<rparr>"

abbreviation example_start :: persist_mod where
  "example_start \<equiv> persist_init 0 (\<lambda>_. None)"

lemma example_registers:
  "\<exists>pm. managePersistModule example_penv
       (start_events 0 JNull @ [EvLoop 0, EvInput 0 example_registration, EvGot 0, EvReceive 1 0]) example_start = Some pm \<and>
     register_get (pm_Register pm) ''audit'' = Inr ''unix:/run/audit'' \<and> pm_Process pm = 1"
  by (simp add: example_persist register_get_def)

theorem registered_socket_is_announced_witness:
  "\<exists>pm. managePersistModule example_penv
       (start_events 0 JNull @ [EvLoop 0, EvInput 0 example_registration, EvGot 0, EvReceive 1 0]) example_start = Some pm \<and>
     pm_Running pm \<and> (\<exists>msg. (1, msg) \<in> set (pm_Read pm))"
proof -
  obtain pm where pm: "managePersistModule example_penv
       (start_events 0 JNull @ [EvLoop 0, EvInput 0 example_registration, EvGot 0, EvReceive 1 0]) example_start = Some pm"
    "register_get (pm_Register pm) ''audit'' = Inr ''unix:/run/audit''" "pm_Process pm = 1"
    using example_registers by blast
  have n: "pe_Name example_penv = ''audit''" by (simp add: example_penv_def)
  from registered_socket_is_announced [OF _ pm(1,2)] n pm(3) obtain p msg where
    "pm_Running pm" "1 \<le> p" "p \<le> 1" "(p, msg) \<in> set (pm_Read pm)" by auto
  then have "pm_Running pm \<and> (1, msg) \<in> set (pm_Read pm)" by (metis le_antisym)
  with pm(1) show ?thesis by blast
qed

lemma example_config: "is_ok (MakeMessageConfig (pe_Codec example_penv) JNull (pe_Hostname example_penv) (pe_Env example_penv)
    (pe_Tags example_penv)) \<and> is_ok (MakeMessage (pe_Codec example_penv) ''ping'' JNull False)"
  by (simp add: example_persist)

theorem old_process_registers_witness:
  "\<exists>es pm. managePersistModule example_penv es example_start = Some pm \<and> pm_Process pm = 2 \<and> pm_Read pm = [(1, example_registration)] \<and>
     register_get (pm_Register pm) ''audit'' = Inr ''unix:/run/audit''"
proof -
  obtain cm ping where c: "MakeMessageConfig (pe_Codec example_penv) JNull (pe_Hostname example_penv) (pe_Env example_penv)
      (pe_Tags example_penv) = Inr cm" "MakeMessage (pe_Codec example_penv) ''ping'' JNull False = Inr ping"
    using example_config by (auto simp: is_ok_iff)
  have n: "pe_Name example_penv = ''audit''" by (simp add: example_penv_def)
  have r: "redecode (pe_Codec example_penv) (pe_SockPath example_penv) (msg_Parameters example_registration) = Inr ''unix:/run/audit''"
    by (simp add: example_persist)
  from old_process_registers [OF c _ r, of 0 e 0 "\<lambda>_. None" for e] n show ?thesis
    by (simp del: managePersistModule.simps) blast
qed

theorem late_reader_panics_witness:
  "\<exists>es pm. managePersistModule example_penv es example_start = Some pm \<and> pm_Process pm = 2 \<and> \<not> pm_Panicked pm"
proof -
  obtain cm ping where c: "MakeMessageConfig (pe_Codec example_penv) JNull (pe_Hostname example_penv) (pe_Env example_penv)
      (pe_Tags example_penv) = Inr cm" "MakeMessage (pe_Codec example_penv) ''ping'' JNull False = Inr ping"
    using example_config by (auto simp: is_ok_iff)
  from late_reader_panics [OF c] show ?thesis by blast
qed

abbreviation example_running :: persist_mod where
  "example_running \<equiv> example_start\<lparr>pm_Pc := AtSelect, pm_Running := True, pm_Process := 1, pm_Chan := 1, pm_Alive := [1],
     pm_Readers := [RdReading 1]\<rparr>"

lemma example_reachable:
  "\<exists>pm. managePersistModule example_penv (start_events 0 JNull @ [EvLoop 0]) example_start = Some pm \<and>
     pm\<lparr>pm_Written := []\<rparr> = example_running"
  by (simp add: example_persist)

theorem malformed_line_disarms_watchdog_witness:
  "\<exists>pm'. managePersistModule example_penv [EvError 0, EvClose 0, EvClosed] example_running = Some pm' \<and>
     pm_Pc pm' = AtWait \<and> 1 \<in> set (pm_Alive pm')"
proof -
  have "\<exists>pm'. managePersistModule example_penv [EvError 0, EvClose 0, EvClosed] example_running = Some pm' \<and>
      (\<forall>es pm''. managePersistModule example_penv es pm' = Some pm'' \<and> EvExit 1 \<notin> set es \<longrightarrow>
         pm_Pc pm'' = AtWait \<and> 1 \<in> set (pm_Alive pm'') \<and> pm_Register pm'' = pm_Register example_running \<and>
         pm_Written pm'' = pm_Written example_running)"
    using malformed_line_disarms_watchdog [of example_running 0 example_penv] by (simp add: sends_on_def persist_init_def)
  then obtain pm' where 1: "managePersistModule example_penv [EvError 0, EvClose 0, EvClosed] example_running = Some pm'"
    and 2: "\<forall>es pm''. managePersistModule example_penv es pm' = Some pm'' \<and> EvExit 1 \<notin> set es \<longrightarrow>
       pm_Pc pm'' = AtWait \<and> 1 \<in> set (pm_Alive pm'')" by blast
  from 2 [rule_format, of "[]" pm'] 1 show ?thesis by auto
qed

theorem silent_module_killed_witness:
  "\<exists>pm'. managePersistModule example_penv [EvTick 30000000000 None, EvKill None, EvWaited] example_running = Some pm' \<and>
     \<not> pm_Running pm'"
  using silent_module_killed [of example_running 30000000000 example_penv None] by (auto simp: persist_init_def)

theorem alerts_accounted_for_witness:
  "mset (dw_Arrived (filled [''a''])) = mset (dw_Logged (filled [''a''])) + mset (dw_Dispatched (filled [''a''])) +
     mset (dw_Lost (filled [''a''])) + mset [''a'']"
  using alerts_accounted_for [OF fill [of "[''a'']"]]
  by (simp add: dispatch_capacity_def filled_def dispatch_start_def)

theorem alerts_can_jam_witness:
  "\<exists>w. alert_step\<^sup>*\<^sup>* dispatch_start w \<and> length (dw_Arrived w) = 129 \<and> dw_Logged w = [] \<and> dw_Dispatched w = []"
  using alerts_can_jam by blast

definition example_agent :: agent where
  "example_agent =
     zero_agent\<lparr>agt_Name := ''host'', agt_QueueLoc := ''linux.host'', agt_Mode := ''daemon'',
       agt_Env := zero_env\<lparr>env_Init := ''systemd'', env_Ident := ''Debian'', env_OS := ''linux'', env_Arch := ''amd64''\<rparr>\<rparr>"

theorem heartbeat_reaches_table_witness:
  "\<exists>db'. heartbeat_round Inr example_js True 100 1 (make_heartbeat ''1.0'' 7 [] 100 example_agent) (hw_DB empty_world) = Some (db', 400)"
  using heartbeat_reaches_table [of "''1.0''" 7 example_agent 100 100 Inr "[]" "hw_DB empty_world" 1 example_js]
  by (simp add: presentable_def example_agent_def zero_agent_def zero_env_def empty_world_def example_js_def is_ok_iff)

end
