(* ===== verification/FileParams.thy ===== *)
theory FileParams
  imports GoStd "HOL-Library.Word"
begin

unbundle bit_operations_syntax

text \<open>
  The parameters of the file module (\<open>modules/file/file.go\<close>): searches and their options, validation, and
  the checks that \<open>makeChecks\<close> builds from them.

  The regular expressions of the validation are written out; those of a search are compiled by a
  parameter. The map of searches is an association list whose order is that of the iterations. The
  numbers of the options are floating-point numbers in JSON; they are taken to be integers.
\<close>

section \<open>Searches\<close>

type_synonym check_type = "64 word"

definition check_bit :: "nat \<Rightarrow> check_type" where "check_bit i = push_bit (63 - i) 1"

definition checkContent_code :: check_type where "checkContent_code = check_bit 0"
definition checkName_code :: check_type where "checkName_code = check_bit 1"
definition checkSize_code :: check_type where "checkSize_code = check_bit 2"
definition checkMode_code :: check_type where "checkMode_code = check_bit 3"
definition checkMtime_code :: check_type where "checkMtime_code = check_bit 4"
definition checkMD5 :: check_type where "checkMD5 = check_bit 5"
definition checkSHA1 :: check_type where "checkSHA1 = check_bit 6"
definition checkSHA256 :: check_type where "checkSHA256 = check_bit 7"
definition checkSHA384 :: check_type where "checkSHA384 = check_bit 8"
definition checkSHA512 :: check_type where "checkSHA512 = check_bit 9"
definition checkSHA3_224 :: check_type where "checkSHA3_224 = check_bit 10"
definition checkSHA3_256 :: check_type where "checkSHA3_256 = check_bit 11"
definition checkSHA3_384 :: check_type where "checkSHA3_384 = check_bit 12"
definition checkSHA3_512 :: check_type where "checkSHA3_512 = check_bit 13"

lemmas check_codes = checkContent_code_def checkName_code_def checkSize_code_def checkMode_code_def
  checkMtime_code_def checkMD5_def checkSHA1_def checkSHA256_def checkSHA384_def checkSHA512_def
  checkSHA3_224_def checkSHA3_256_def checkSHA3_384_def checkSHA3_512_def

text \<open>A check; \<open>ck_regex\<close> is the compiled expression.\<close>

record check =
  ck_checkid :: int
  ck_code :: check_type
  ck_matched :: nat
  ck_matchedfiles :: "string list"
  ck_value :: string
  ck_regex :: "string \<Rightarrow> bool"
  ck_minsize :: "64 word"
  ck_maxsize :: "64 word"
  ck_minmtime :: time
  ck_maxmtime :: time
  ck_inversematch :: bool
  ck_mismatch :: bool

record options =
  opt_MaxDepth :: int
  opt_MaxErrors :: int
  opt_MatchAll :: bool
  opt_Macroal :: bool
  opt_Mismatch :: "string list"
  opt_MatchLimit :: int
  opt_ReturnSHA256 :: bool
  opt_Decompress :: bool

record search =
  se_Description :: string
  se_Paths :: "string list"
  se_Contents :: "string list"
  se_Names :: "string list"
  se_Sizes :: "string list"
  se_Modes :: "string list"
  se_Mtimes :: "string list"
  se_MD5 :: "string list"
  se_SHA1 :: "string list"
  se_SHA2 :: "string list"
  se_SHA3 :: "string list"
  se_Options :: options
  se_checks :: "check list"
  se_checkmask :: check_type
  se_isactive :: bool
  se_iscurrent :: bool
  se_currentdepth :: "64 word"
  se_filesMatchingAll :: "string list"

definition unlimited :: int where "unlimited = 1125899906842624"

section \<open>Validation\<close>

type_synonym regex_engine = "string \<Rightarrow> (string \<Rightarrow> bool) result"

text \<open>
  The characters of a valid UTF-8 text are its bytes that do not continue one. A label is a text of 1 to
  64 characters other than a newline: in the expression the dot stands outside of the class.
\<close>

definition rune_count :: "string \<Rightarrow> nat" where
  "rune_count s = length (filter (\<lambda>c. \<not> (128 \<le> byte c \<and> byte c < 192)) s)"

definition validateLabel :: "string \<Rightarrow> unit result" where
  "validateLabel label =
     (if label = [] then Inl (errors_New ''empty labels are not permitted'')
      else if CHR 0x0A \<in> set label \<or> 64 < rune_count label
      then Inl (Errorf (''The syntax of label '' @ quoted ''%s'' @ '' is invalid'') [AStr label])
      else Inr ())"

text \<open>The leading exclamation mark of an inverse match.\<close>

definition has_bang :: "string \<Rightarrow> bool" where
  "has_bang v \<longleftrightarrow> 1 < length v \<and> hd v = CHR ''!''"

definition strip_bang :: "string \<Rightarrow> string" where
  "strip_bang v = (if has_bang v then tl v else v)"

definition validateRegex :: "regex_engine \<Rightarrow> string \<Rightarrow> unit result" where
  "validateRegex compile regex =
     (if regex = [] then Inl (errors_New ''Empty values are not permitted'')
      else (case compile (strip_bang regex) of
              Inl e \<Rightarrow> Inl (Errorf ''Invalid regexp. Compilation failed with %v'' [AErr e])
            | Inr _ \<Rightarrow> Inr ()))"

definition drop_sign :: "string \<Rightarrow> string" where
  "drop_sign s = (if s \<noteq> [] \<and> hd s \<in> {CHR ''<'', CHR ''>''} then tl s else s)"

definition drop_unit :: "char set \<Rightarrow> string \<Rightarrow> string" where
  "drop_unit units s = (if s \<noteq> [] \<and> last s \<in> units then butlast s else s)"

definition size_units :: "char set" where "size_units = {CHR ''k'', CHR ''m'', CHR ''g'', CHR ''t''}"
definition mtime_units :: "char set" where "mtime_units = {CHR ''d'', CHR ''h'', CHR ''m''}"

definition validateSize :: "string \<Rightarrow> unit result" where
  "validateSize sz =
     (if sz = [] then Inl (errors_New ''Empty values are not permitted'')
      else if list_all is_digit (drop_unit size_units (drop_sign sz)) then Inr ()
      else Inl (Errorf (''Invalid size format for size '' @ quoted ''%s'') [AStr sz]))"

definition validateMtime :: "string \<Rightarrow> unit result" where
  "validateMtime mtime =
     (if mtime = [] then Inl (errors_New ''Empty values are not permitted'')
      else if hd mtime \<in> {CHR ''<'', CHR ''>''} \<and> tl mtime \<noteq> [] \<and> last mtime \<in> mtime_units \<and>
              list_all is_digit (butlast (tl mtime))
      then Inr ()
      else Inl (Errorf (''Invalid mtime format for mtime '' @ quoted ''%s'') [AStr mtime]))"

definition hash_length :: "check_type \<Rightarrow> nat option" where
  "hash_length t =
     (if t = checkMD5 then Some 32 else if t = checkSHA1 then Some 40 else if t = checkSHA256 then Some 64
      else if t = checkSHA384 then Some 96 else if t = checkSHA512 then Some 128
      else if t = checkSHA3_224 then Some 56 else if t = checkSHA3_256 then Some 64
      else if t = checkSHA3_384 then Some 96 else if t = checkSHA3_512 then Some 128 else None)"

definition upper_hex :: "char \<Rightarrow> bool" where
  "upper_hex c \<longleftrightarrow> is_digit c \<or> 65 \<le> byte c \<and> byte c \<le> 70"

definition validateHash :: "string \<Rightarrow> check_type \<Rightarrow> unit result" where
  "validateHash hash t =
     (if hash = [] then Inl (errors_New ''Empty values are not permitted'')
      else (case hash_length t of
              None \<Rightarrow> Inl (Errorf (''Invalid hash type for hash '' @ quoted ''%s'') [AStr hash])
            | Some n \<Rightarrow>
                if length hash = n \<and> list_all upper_hex (ToUpper hash) then Inr ()
                else Inl (Errorf (''Invalid checksum format for hash '' @ quoted ''%s'') [AStr hash])))"

definition validateMismatch :: "string \<Rightarrow> unit result" where
  "validateMismatch filter_name =
     (if filter_name = [] then Inl (errors_New ''empty filters are not permitted'')
      else if filter_name \<in> {''name'', ''size'', ''mode'', ''mtime'', ''content'', ''md5'', ''sha1'', ''sha2'', ''sha3''}
      then Inr ()
      else Inl (Errorf (''The syntax of filter '' @ quoted ''%s'' @ '' is invalid'') [AStr filter_name]))"

text \<open>The code that the length of a SHA-2 or SHA-3 value selects; none for other lengths.\<close>

definition sha2_code :: "string \<Rightarrow> check_type option" where
  "sha2_code v =
     (if length v = 64 then Some checkSHA256 else if length v = 96 then Some checkSHA384
      else if length v = 128 then Some checkSHA512 else None)"

definition sha3_code :: "string \<Rightarrow> check_type option" where
  "sha3_code v =
     (if length v = 56 then Some checkSHA3_224 else if length v = 64 then Some checkSHA3_256
      else if length v = 96 then Some checkSHA3_384 else if length v = 128 then Some checkSHA3_512 else None)"

text \<open>A hash of another length is printed as an error but is not one.\<close>

definition validate_sha :: "(string \<Rightarrow> check_type option) \<Rightarrow> string \<Rightarrow> unit result" where
  "validate_sha code hash = (case code hash of None \<Rightarrow> Inr () | Some t \<Rightarrow> validateHash hash t)"

definition validate_search :: "regex_engine \<Rightarrow> string \<Rightarrow> search \<Rightarrow> unit result" where
  "validate_search compile label s =
     and_then (validateLabel label) (\<lambda>_.
     and_then (if se_Paths s = [] then Inl (errors_New ''invalid empty search path, must have at least one search path'')
               else Inr ()) (\<lambda>_.
     and_then (all_res (validateRegex compile) (se_Contents s)) (\<lambda>_.
     and_then (all_res (validateRegex compile) (se_Names s)) (\<lambda>_.
     and_then (all_res validateSize (se_Sizes s)) (\<lambda>_.
     and_then (all_res (validateRegex compile) (se_Modes s)) (\<lambda>_.
     and_then (all_res validateMtime (se_Mtimes s)) (\<lambda>_.
     and_then (all_res (\<lambda>h. validateHash h checkMD5) (se_MD5 s)) (\<lambda>_.
     and_then (all_res (\<lambda>h. validateHash h checkSHA1) (se_SHA1 s)) (\<lambda>_.
     and_then (all_res (validate_sha sha2_code) (se_SHA2 s)) (\<lambda>_.
     and_then (all_res (validate_sha sha3_code) (se_SHA3 s)) (\<lambda>_.
     all_res validateMismatch (opt_Mismatch (se_Options s)))))))))))))"

text \<open>
  \<open>ValidateParameters\<close> also sets the global \<open>tryDecompress\<close>, for all searches, to the option of the one it
  comes to last.
\<close>

definition ValidateParameters :: "regex_engine \<Rightarrow> (string \<times> search) list \<Rightarrow> unit result" where
  "ValidateParameters compile searches = all_res (\<lambda>(label, s). validate_search compile label s) searches"

definition tryDecompress :: "(string \<times> search) list \<Rightarrow> bool" where
  "tryDecompress searches = (searches \<noteq> [] \<and> opt_Decompress (se_Options (snd (last searches))))"

section \<open>Sizes and times\<close>

definition size_multiplier :: "char \<Rightarrow> 64 word" where
  "size_multiplier c =
     (if c = CHR ''k'' then 1024 else if c = CHR ''m'' then 1024 * 1024
      else if c = CHR ''g'' then 1024 * 1024 * 1024 else if c = CHR ''t'' then 1024 * 1024 * 1024 * 1024 else 1)"

text \<open>The empty string is a panic in the source, an index out of range.\<close>

definition parseSize :: "string \<Rightarrow> (64 word \<times> 64 word) result" where
  "parseSize sz =
     (if sz = [] then Inl (errors_New ''index out of range'')
      else (let multiplier = size_multiplier (last sz);
                upper = (if 1 < multiplier then butlast sz else sz);
                number = (\<lambda>s. and_then (ParseUint s 10 64) (\<lambda>n. Inr (of_nat n * multiplier)))
            in if hd sz = CHR ''<'' then and_then (number (tl upper)) (\<lambda>n. Inr (0, n))
               else if hd sz = CHR ''>'' then and_then (number (tl upper)) (\<lambda>n. Inr (n, 2 ^ 63 - 1))
               else and_then (number upper) (\<lambda>n. Inr (n, n))))"

definition mtime_min :: time where "mtime_min = - 27106577329 * 1000000000 + 11"
definition mtime_max :: time where "mtime_max = 253340133071 * 1000000000 + 11"

text \<open>
  \<open>parseMtime\<close>: a number of days becomes hours, with the wrap-around of \<open>uint64\<close>; \<open>time.ParseDuration\<close>
  refuses what does not fit 63 bits of nanoseconds.
\<close>

definition parse_duration :: "nat \<Rightarrow> char \<Rightarrow> duration result" where
  "parse_duration n unit =
     (let ns = int n * (if unit = CHR ''h'' then 3600 * 1000000000 else 60 * 1000000000)
      in if ns < 2 ^ 63 then Inr ns else Inl (errors_New ''time: invalid duration''))"

definition parseMtime :: "time \<Rightarrow> string \<Rightarrow> (time \<times> time) result" where
  "parseMtime now mtime =
     (let days = (last mtime = CHR ''d'')
      in and_then (ParseUint (butlast (tl mtime)) 10 64) (\<lambda>n.
         and_then (parse_duration (if days then (n * 24) mod 2 ^ 64 else n) (if days then CHR ''h'' else last mtime)) (\<lambda>d.
         Inr (if hd mtime = CHR ''<'' then (now - d, mtime_max) else (mtime_min, now - d)))))"

section \<open>Building the checks\<close>

definition hasMismatch :: "search \<Rightarrow> string \<Rightarrow> bool" where
  "hasMismatch s f \<longleftrightarrow> f \<in> set (opt_Mismatch (se_Options s))"

definition blank_check :: "int \<Rightarrow> check" where
  "blank_check i =
     \<lparr>ck_checkid = i, ck_code = 0, ck_matched = 0, ck_matchedfiles = [], ck_value = [], ck_regex = (\<lambda>_. False),
      ck_minsize = 0, ck_maxsize = 0, ck_minmtime = zero_time, ck_maxmtime = zero_time, ck_inversematch = False,
      ck_mismatch = False\<rparr>"

text \<open>
  One loop of \<open>makeChecks\<close>: each value becomes a check, numbered from 1 over all of the search; the code of
  the check is added to the mask.
\<close>

definition add_checks :: "(search \<Rightarrow> string \<Rightarrow> check \<Rightarrow> check result) \<Rightarrow> string list \<Rightarrow> search \<Rightarrow> search result" where
  "add_checks build vs s =
     fold_res (\<lambda>s v. and_then (build s v (blank_check (int (length (se_checks s)) + 1))) (\<lambda>c.
         Inr (s\<lparr>se_checks := se_checks s @ [c], se_checkmask := se_checkmask s OR ck_code c\<rparr>))) s vs"

definition regex_check :: "regex_engine \<Rightarrow> check_type \<Rightarrow> string \<Rightarrow> search \<Rightarrow> string \<Rightarrow> check \<Rightarrow> check result" where
  "regex_check compile code f s v c =
     and_then (compile (strip_bang v)) (\<lambda>re.
       Inr (c\<lparr>ck_code := code, ck_value := v, ck_inversematch := has_bang v, ck_mismatch := hasMismatch s f,
              ck_regex := re\<rparr>))"

text \<open>The expression of a mode is compiled as it is, with its exclamation mark.\<close>

definition mode_check :: "regex_engine \<Rightarrow> search \<Rightarrow> string \<Rightarrow> check \<Rightarrow> check result" where
  "mode_check compile s v c =
     and_then (compile v) (\<lambda>re.
       Inr (c\<lparr>ck_code := checkMode_code, ck_value := v, ck_mismatch := hasMismatch s ''mode'', ck_regex := re\<rparr>))"

definition size_check :: "search \<Rightarrow> string \<Rightarrow> check \<Rightarrow> check result" where
  "size_check s v c =
     and_then (parseSize v) (\<lambda>(lo, hi).
       Inr (c\<lparr>ck_code := checkSize_code, ck_value := v, ck_minsize := lo, ck_maxsize := hi,
              ck_mismatch := hasMismatch s ''size''\<rparr>))"

definition mtime_check :: "time \<Rightarrow> search \<Rightarrow> string \<Rightarrow> check \<Rightarrow> check result" where
  "mtime_check now s v c =
     and_then (parseMtime now v) (\<lambda>(lo, hi).
       Inr (c\<lparr>ck_code := checkMtime_code, ck_value := v, ck_mismatch := hasMismatch s ''mtime'',
              ck_minmtime := lo, ck_maxmtime := hi\<rparr>))"

text \<open>A hash check; a value of no known length leaves the code zero.\<close>

definition hash_check :: "(string \<Rightarrow> check_type option) \<Rightarrow> string \<Rightarrow> search \<Rightarrow> string \<Rightarrow> check \<Rightarrow> check result" where
  "hash_check code f s v c =
     Inr (c\<lparr>ck_code := (case code v of None \<Rightarrow> 0 | Some t \<Rightarrow> t), ck_value := ToUpper v,
            ck_mismatch := hasMismatch s f\<rparr>)"

definition default_limits :: "options \<Rightarrow> options" where
  "default_limits o' =
     o'\<lparr>opt_MaxDepth := (if opt_MaxDepth o' = 0 then unlimited else opt_MaxDepth o'),
       opt_MaxErrors := (if opt_MaxErrors o' = 0 then unlimited else opt_MaxErrors o'),
       opt_MatchLimit := (if opt_MatchLimit o' = 0 then unlimited else opt_MatchLimit o')\<rparr>"

definition makeChecks :: "regex_engine \<Rightarrow> time \<Rightarrow> search \<Rightarrow> search result" where
  "makeChecks compile now s =
     recovered ''makeChecks''
       (and_then (add_checks (regex_check compile checkContent_code ''content'') (se_Contents s)
                    (s\<lparr>se_Options := default_limits (se_Options s)\<rparr>)) (\<lambda>s1.
        and_then (add_checks (regex_check compile checkName_code ''name'') (se_Names s) s1) (\<lambda>s2.
        and_then (add_checks size_check (se_Sizes s) s2) (\<lambda>s3.
        and_then (add_checks (mode_check compile) (se_Modes s) s3) (\<lambda>s4.
        and_then (add_checks (mtime_check now) (se_Mtimes s) s4) (\<lambda>s5.
        and_then (add_checks (hash_check (\<lambda>_. Some checkMD5) ''md5'') (se_MD5 s) s5) (\<lambda>s6.
        and_then (add_checks (hash_check (\<lambda>_. Some checkSHA1) ''sha1'') (se_SHA1 s) s6) (\<lambda>s7.
        and_then (add_checks (hash_check sha2_code ''sha2'') (se_SHA2 s) s7) (\<lambda>s8.
        add_checks (hash_check sha3_code ''sha3'') (se_SHA3 s) s8)))))))))"

end
