(* ===== verification/FileScan.thy ===== *)
theory FileScan
  imports FileParams Modules
begin

text \<open>
  How the file module inspects one file (\<open>modules/file/file.go\<close>): storing matches, the checks on the
  metadata, the lines and the hashes of a file, and \<open>evaluateFile\<close>, which applies them to all searches.

  The file system is a record of functions of a path. The goroutine of \<open>processMatch\<close> is called and
  waited for on every match, so it is a function here. The searches are visited in the order of the
  list, in Go in the order of a map iteration.
\<close>

section \<open>Storing matches\<close>

definition wantThis :: "check \<Rightarrow> bool \<Rightarrow> bool" where
  "wantThis c matched =
     (if matched
      then (if ck_inversematch c then (if ck_mismatch c then True else False)
            else if ck_mismatch c then False else True)
      else (if ck_inversematch c then (if ck_mismatch c then False else True)
            else if ck_mismatch c then True else False))"

definition hasMatch :: "check \<Rightarrow> string \<Rightarrow> bool" where
  "hasMatch c f \<longleftrightarrow> f \<in> set (ck_matchedfiles c)"

definition allChecksMatched :: "search \<Rightarrow> string \<Rightarrow> bool" where
  "allChecksMatched s f \<longleftrightarrow> f \<in> set (se_filesMatchingAll s)"

definition add_match :: "int \<Rightarrow> string \<Rightarrow> check \<Rightarrow> check" where
  "add_match cid f c =
     (if ck_checkid c = cid
      then c\<lparr>ck_matchedfiles := ck_matchedfiles c @ [f], ck_matched := Suc (ck_matched c)\<rparr> else c)"

text \<open>\<open>processMatch\<close> on one match: the search and the number of hits.\<close>

definition processMatch :: "int \<Rightarrow> string \<Rightarrow> search \<times> int \<Rightarrow> search \<times> int" where
  "processMatch cid f st =
     (case st of (s, hits) \<Rightarrow>
        if list_ex (\<lambda>c. ck_checkid c = cid \<and> hasMatch c f) (se_checks s) then (s, hits)
        else (let s = s\<lparr>se_checks := map (add_match cid f) (se_checks s)\<rparr>
              in if opt_MatchAll (se_Options s) \<and> \<not> allChecksMatched s f
                 then (if list_all (\<lambda>c. hasMatch c f) (se_checks s)
                       then (s\<lparr>se_filesMatchingAll := se_filesMatchingAll s @ [f]\<rparr>, hits + 1)
                       else (s, hits))
                 else (s, hits + 1)))"

text \<open>A match is stored when the check wants it.\<close>

definition store_if :: "bool \<Rightarrow> check \<Rightarrow> string \<Rightarrow> search \<times> int \<Rightarrow> search \<times> int" where
  "store_if want c f st = (if want then processMatch (ck_checkid c) f st else st)"

section \<open>Files\<close>

record file_info =
  fi_Name :: string
  fi_Size :: int
  fi_Mode :: string
  fi_ModTime :: time

text \<open>
  \<open>fs_Content\<close> is what reading an open file gives, an error when the first read fails; \<open>fs_Gunzip\<close> is an
  error when the header is refused, and otherwise what reading the decompressed file gives; \<open>fs_Hash\<close>
  prints a hash in upper case; \<open>fs_Link\<close> is \<open>followSymLink\<close>: whether the target is a regular file, and
  its path.
\<close>

record file_system =
  fs_Stat :: "string \<Rightarrow> file_info result"
  fs_Open :: "string \<Rightarrow> go_error option"
  fs_Readdir :: "string \<Rightarrow> go_error option"
  fs_Content :: "string \<Rightarrow> string result"
  fs_Gunzip :: "string \<Rightarrow> string result result"
  fs_Hash :: "check_type \<Rightarrow> string \<Rightarrow> string"
  fs_Link :: "string \<Rightarrow> (bool \<times> string) result"

text \<open>The reader of a file, which is nil after an error, and whether opening it failed.\<close>

datatype reader = NilReader | Reader "string result"

definition getReader :: "file_system \<Rightarrow> bool \<Rightarrow> string \<Rightarrow> reader \<times> bool" where
  "getReader fs decompress f =
     (case fs_Open fs f of
        Some _ \<Rightarrow> (NilReader, True)
      | None \<Rightarrow>
          (if \<not> decompress then Reader (fs_Content fs f)
           else (case fs_Content fs f of
                   Inl _ \<Rightarrow> NilReader
                 | Inr [] \<Rightarrow> NilReader
                 | Inr [_] \<Rightarrow> Reader (Inr [])
                 | Inr (a # b # rest) \<Rightarrow>
                     if a = CHR 0x1F \<and> b = CHR 0x8B
                     then (case fs_Gunzip fs (a # b # rest) of Inl _ \<Rightarrow> NilReader | Inr r \<Rightarrow> Reader r)
                     else Reader (Inr (a # b # rest))), False))"

section \<open>Checks on the metadata\<close>

text \<open>The checks of one kind, and whether all of them want the file.\<close>

fun apply_checks ::
  "check_type \<Rightarrow> (check \<Rightarrow> bool) \<Rightarrow> string \<Rightarrow> check list \<Rightarrow> (search \<times> int) \<times> bool \<Rightarrow> (search \<times> int) \<times> bool" where
  "apply_checks code test f [] st = st"
| "apply_checks code test f (c # cs) st =
     (if ck_code c AND code = 0 then apply_checks code test f cs st
      else apply_checks code test f cs
             (store_if (wantThis c (test c)) c f (fst st), snd st \<and> wantThis c (test c)))"

definition checks_of ::
  "check_type \<Rightarrow> (check \<Rightarrow> bool) \<Rightarrow> string \<Rightarrow> search \<times> int \<Rightarrow> (search \<times> int) \<times> bool" where
  "checks_of code test f st =
     (if se_checkmask (fst st) AND code \<noteq> 0 then apply_checks code test f (se_checks (fst st)) (st, True)
      else (st, True))"

definition checkName :: "file_info \<Rightarrow> string \<Rightarrow> search \<times> int \<Rightarrow> (search \<times> int) \<times> bool" where
  "checkName fi = checks_of checkName_code (\<lambda>c. ck_regex c (fi_Name fi))"

definition checkMode :: "file_info \<Rightarrow> string \<Rightarrow> search \<times> int \<Rightarrow> (search \<times> int) \<times> bool" where
  "checkMode fi = checks_of checkMode_code (\<lambda>c. ck_regex c (fi_Mode fi))"

definition checkSize :: "file_info \<Rightarrow> string \<Rightarrow> search \<times> int \<Rightarrow> (search \<times> int) \<times> bool" where
  "checkSize fi =
     checks_of checkSize_code (\<lambda>c. sint (ck_minsize c) \<le> fi_Size fi \<and> fi_Size fi \<le> sint (ck_maxsize c))"

definition checkMtime :: "file_info \<Rightarrow> string \<Rightarrow> search \<times> int \<Rightarrow> (search \<times> int) \<times> bool" where
  "checkMtime fi = checks_of checkMtime_code (\<lambda>c. ck_minmtime c < fi_ModTime fi \<and> fi_ModTime fi < ck_maxmtime c)"

definition deactivate :: "search \<times> int \<Rightarrow> search \<times> int" where
  "deactivate st = (case st of (s, hits) \<Rightarrow> (s\<lparr>se_isactive := False\<rparr>, hits))"

text \<open>The first pass: a check that fails ends the pass for a search that wants all of them.\<close>

fun metadata_passes ::
  "(string \<Rightarrow> search \<times> int \<Rightarrow> (search \<times> int) \<times> bool) list \<Rightarrow> string \<Rightarrow> search \<times> int \<Rightarrow> search \<times> int" where
  "metadata_passes [] f st = st"
| "metadata_passes (p # ps) f st =
     (case p f st of (st', wanted) \<Rightarrow>
        if \<not> wanted \<and> opt_MatchAll (se_Options (fst st')) then deactivate st' else metadata_passes ps f st')"

definition check_metadata :: "file_info \<Rightarrow> string \<Rightarrow> search \<times> int \<Rightarrow> search \<times> int" where
  "check_metadata fi f st =
     (if se_isactive (fst st)
      then metadata_passes [checkName fi, checkMode fi, checkSize fi, checkMtime fi] f st else st)"

section \<open>Checks on the content\<close>

text \<open>
  What \<open>checkContent\<close> knows of one search: \<open>cs_Status\<close> are the checks that have matched, by their number
  in place of their index, \<open>cs_Inited\<close> tells whether the search has a map for them, \<open>cs_Macroal\<close> is the
  flag of the current line.
\<close>

record content_state =
  cs_Search :: search
  cs_Status :: "int set"
  cs_Inited :: bool
  cs_Macroal :: bool

definition has_content :: "search \<Rightarrow> bool" where
  "has_content s \<longleftrightarrow> list_ex (\<lambda>c. ck_code c AND checkContent_code \<noteq> 0) (se_checks s)"

definition content_start :: "search \<Rightarrow> content_state" where
  "content_start s =
     \<lparr>cs_Search = s, cs_Status = {}, cs_Inited = se_isactive s \<and> has_content s, cs_Macroal = False\<rparr>"

definition store_content :: "bool \<Rightarrow> check \<Rightarrow> string \<Rightarrow> content_state \<times> int \<Rightarrow> content_state \<times> int" where
  "store_content want c f st =
     (case st of (cs, hits) \<Rightarrow>
        (case store_if want c f (cs_Search cs, hits) of (s, hits') \<Rightarrow> (cs\<lparr>cs_Search := s\<rparr>, hits')))"

text \<open>One check on one line.\<close>

definition line_check :: "string \<Rightarrow> string \<Rightarrow> check \<Rightarrow> content_state \<times> int \<Rightarrow> content_state \<times> int" where
  "line_check f l c st =
     (case st of (cs, hits) \<Rightarrow>
        (let macroal = opt_Macroal (se_Options (cs_Search cs))
         in if ck_regex c l
            then (let st' = (if \<not> ck_inversematch c
                             then (if macroal then st else store_content (wantThis c True) c f st)
                             else (if macroal then store_content (wantThis c True) c f (cs\<lparr>cs_Macroal := False\<rparr>, hits)
                                   else st))
                  in ((fst st')\<lparr>cs_Status := insert (ck_checkid c) (cs_Status (fst st'))\<rparr>, snd st'))
            else if \<not> ck_inversematch c \<and> macroal
            then store_content (wantThis c False) c f (cs\<lparr>cs_Macroal := False\<rparr>, hits)
            else st))"

text \<open>The checks of a search on one line, and whether any of them was still to be made.\<close>

fun line_checks :: "string \<Rightarrow> string \<Rightarrow> check list \<Rightarrow> (content_state \<times> int) \<times> bool \<Rightarrow> (content_state \<times> int) \<times> bool" where
  "line_checks f l [] st = st"
| "line_checks f l (c # rest) (st, has) =
     (if ck_code c AND checkContent_code = 0 \<or>
         (ck_checkid c \<in> cs_Status (fst st) \<and> \<not> opt_Macroal (se_Options (cs_Search (fst st))))
      then line_checks f l rest (st, has)
      else line_checks f l rest (line_check f l c st, True))"

definition line_search :: "string \<Rightarrow> string \<Rightarrow> (content_state \<times> int) \<times> bool \<Rightarrow> (content_state \<times> int) \<times> bool" where
  "line_search f l st =
     (case st of ((cs, hits), has) \<Rightarrow>
        if \<not> se_isactive (cs_Search cs) \<or> se_checkmask (cs_Search cs) AND checkContent_code = 0 then st
        else (case line_checks f l (se_checks (cs_Search cs)) ((cs\<lparr>cs_Macroal := True\<rparr>, hits), has) of
                ((cs', hits'), has') \<Rightarrow>
                  if opt_Macroal (se_Options (cs_Search cs')) \<and> \<not> cs_Macroal cs'
                  then ((cs'\<lparr>cs_Search := (cs_Search cs')\<lparr>se_isactive := False\<rparr>\<rparr>, hits'), has')
                  else ((cs', hits'), has')))"

fun line_searches ::
  "string \<Rightarrow> string \<Rightarrow> (string \<times> content_state) list \<Rightarrow> int \<Rightarrow> (string \<times> content_state) list \<times> int \<times> bool" where
  "line_searches f l [] hits = ([], hits, False)"
| "line_searches f l ((label, cs) # rest) hits =
     (case line_search f l ((cs, hits), False) of
        ((cs', hits'), has) \<Rightarrow>
          (case line_searches f l rest hits' of (rest', hits'', has') \<Rightarrow> ((label, cs') # rest', hits'', has \<or> has')))"

text \<open>Reading stops after a line for which no check was left.\<close>

fun content_lines ::
  "string \<Rightarrow> string list \<Rightarrow> (string \<times> content_state) list \<Rightarrow> int \<Rightarrow> (string \<times> content_state) list \<times> int" where
  "content_lines f [] css hits = (css, hits)"
| "content_lines f (l # ls) css hits =
     (case line_searches f l css hits of
        (css', hits', has) \<Rightarrow> if has then content_lines f ls css' hits' else (css', hits'))"

text \<open>
  After the last line: \<open>finish_inverse\<close> records the inverse checks that did not match, \<open>finish_matchall\<close> the
  searches that want all checks. Writing to a map that was not made is a panic.
\<close>

definition nil_map :: go_error where "nil_map = errors_New ''assignment to entry in nil map''"

fun finish_macroal :: "string \<Rightarrow> check list \<Rightarrow> content_state \<times> int \<Rightarrow> content_state \<times> int" where
  "finish_macroal f [] st = st"
| "finish_macroal f (c # rest) st =
     finish_macroal f rest
       (if ck_code c AND checkContent_code = 0 then st
        else store_content (wantThis c (ck_checkid c \<in> cs_Status (fst st))) c f st)"

fun finish_inverse :: "string \<Rightarrow> check list \<Rightarrow> content_state \<times> int \<Rightarrow> (content_state \<times> int) \<times> go_error option" where
  "finish_inverse f [] st = (st, None)"
| "finish_inverse f (c # rest) st =
     (if ck_code c AND checkContent_code \<noteq> 0 \<and> ck_checkid c \<notin> cs_Status (fst st) \<and> ck_inversematch c
      then (let st' = store_content (wantThis c False) c f st
            in if cs_Inited (fst st')
               then finish_inverse f rest
                      ((fst st')\<lparr>cs_Status := insert (ck_checkid c) (cs_Status (fst st'))\<rparr>, snd st')
               else (st', Some nil_map))
      else finish_inverse f rest st)"

fun finish_matchall :: "string \<Rightarrow> check list \<Rightarrow> content_state \<times> int \<Rightarrow> content_state \<times> int" where
  "finish_matchall f [] st = st"
| "finish_matchall f (c # rest) st =
     (let matched = ck_checkid c \<in> cs_Status (fst st)
      in if ck_code c AND checkContent_code \<noteq> 0 \<and> (\<not> matched \<or> ck_inversematch c)
         then (case store_content (wantThis c matched) c f st of
                 (cs, hits) \<Rightarrow>
                   finish_matchall f rest (cs\<lparr>cs_Search := (cs_Search cs)\<lparr>se_isactive := False\<rparr>\<rparr>, hits))
         else finish_matchall f rest st)"

definition content_finish :: "string \<Rightarrow> content_state \<times> int \<Rightarrow> (content_state \<times> int) \<times> go_error option" where
  "content_finish f st =
     (let s = cs_Search (fst st)
      in if opt_Macroal (se_Options s) \<and> cs_Macroal (fst st) then (finish_macroal f (se_checks s) st, None)
         else (case finish_inverse f (se_checks s) st of
                 (st', Some e) \<Rightarrow> (st', Some e)
               | (st', None) \<Rightarrow>
                   if se_isactive s \<and> se_checkmask s AND checkContent_code \<noteq> 0 \<and> opt_MatchAll (se_Options s)
                   then (finish_matchall f (se_checks s) st', None) else (st', None)))"

fun content_finishes ::
  "string \<Rightarrow> (string \<times> content_state) list \<Rightarrow> int \<Rightarrow> ((string \<times> search) list \<times> int) \<times> go_error option" where
  "content_finishes f [] hits = (([], hits), None)"
| "content_finishes f ((label, cs) # rest) hits =
     (case content_finish f (cs, hits) of
        ((cs', hits'), Some e) \<Rightarrow>
          (((label, cs_Search cs') # map (\<lambda>(l, c). (l, cs_Search c)) rest, hits'), Some e)
      | ((cs', hits'), None) \<Rightarrow>
          (case content_finishes f rest hits' of
             ((ss, hits''), e) \<Rightarrow> (((label, cs_Search cs') # ss, hits''), e)))"

section \<open>A run of the module\<close>

record file_run =
  fr_Searches :: "(string \<times> search) list"
  fr_Filescount :: int
  fr_Openfailed :: int
  fr_Totalhits :: int
  fr_Errors :: "go_error list"

definition nil_reader :: go_error where
  "nil_reader = errors_New ''invalid memory address or nil pointer dereference''"

definition count_open :: "bool \<Rightarrow> file_run \<Rightarrow> file_run" where
  "count_open failed r = (if failed then r\<lparr>fr_Openfailed := fr_Openfailed r + 1\<rparr> else r)"

definition log_error :: "string \<Rightarrow> go_error option \<Rightarrow> file_run \<Rightarrow> file_run" where
  "log_error f e r =
     (case e of None \<Rightarrow> r | Some e \<Rightarrow> r\<lparr>fr_Errors := fr_Errors r @ [Errorf (f @ ''() -> %v'') [AErr e]]\<rparr>)"

definition checkContent :: "file_system \<Rightarrow> bool \<Rightarrow> string \<Rightarrow> file_run \<Rightarrow> file_run" where
  "checkContent fs decompress f r =
     (if \<not> list_ex (\<lambda>(label, s). se_isactive s \<and> has_content s) (fr_Searches r) then r
      else (case getReader fs decompress f of
              (NilReader, failed) \<Rightarrow> log_error ''checkContent'' (Some nil_reader) (count_open failed r)
            | (Reader bytes, failed) \<Rightarrow>
                (let ls = (case bytes of Inl _ \<Rightarrow> [] | Inr s \<Rightarrow> scan_lines s)
                 in (case content_lines f ls (map (\<lambda>(label, s). (label, content_start s)) (fr_Searches r)) (fr_Totalhits r) of
                       (css, hits) \<Rightarrow>
                         (case content_finishes f css hits of
                            ((ss, hits'), e) \<Rightarrow>
                              log_error ''checkContent'' e (r\<lparr>fr_Searches := ss, fr_Totalhits := hits'\<rparr>))))))"

section \<open>Checks on hashes\<close>

definition getHash :: "file_system \<Rightarrow> bool \<Rightarrow> string \<Rightarrow> check_type \<Rightarrow> string result \<times> bool" where
  "getHash fs decompress f t =
     (case getReader fs decompress f of
        (NilReader, failed) \<Rightarrow> (recovered ''getHash'' (Inl nil_reader), failed)
      | (Reader bytes, failed) \<Rightarrow> (recovered ''getHash'' (and_then bytes (\<lambda>s. Inr (fs_Hash fs t s))), failed))"

text \<open>A check that fails deactivates a search that wants all of them; its other checks are still made.\<close>

fun hash_checks :: "string \<Rightarrow> check_type \<Rightarrow> string \<Rightarrow> check list \<Rightarrow> search \<times> int \<Rightarrow> search \<times> int" where
  "hash_checks f code h [] st = st"
| "hash_checks f code h (c # rest) st =
     hash_checks f code h rest
       (if ck_code c AND code = 0 then st
        else if wantThis c (ck_value c = h) then processMatch (ck_checkid c) f st
        else if opt_MatchAll (se_Options (fst st)) then deactivate st else st)"

definition hash_applies :: "check_type \<Rightarrow> search \<Rightarrow> bool" where
  "hash_applies code s \<longleftrightarrow> se_isactive s \<and> se_checkmask s AND code \<noteq> 0"

definition hash_search :: "string \<Rightarrow> check_type \<Rightarrow> string \<Rightarrow> search \<times> int \<Rightarrow> search \<times> int" where
  "hash_search f code h st = (if hash_applies code (fst st) then hash_checks f code h (se_checks (fst st)) st else st)"

text \<open>Applying a function to each search in turn, with the number of hits.\<close>

fun each_search :: "(search \<times> int \<Rightarrow> search \<times> int) \<Rightarrow> (string \<times> search) list \<Rightarrow> int \<Rightarrow> (string \<times> search) list \<times> int" where
  "each_search g [] hits = ([], hits)"
| "each_search g ((label, s) # rest) hits =
     (case g (s, hits) of
        (s', hits') \<Rightarrow> (case each_search g rest hits' of (rest', hits'') \<Rightarrow> ((label, s') # rest', hits'')))"

definition with_each :: "(search \<times> int \<Rightarrow> search \<times> int) \<Rightarrow> file_run \<Rightarrow> file_run" where
  "with_each g r =
     (case each_search g (fr_Searches r) (fr_Totalhits r) of
        (ss, hits) \<Rightarrow> r\<lparr>fr_Searches := ss, fr_Totalhits := hits\<rparr>)"

definition checkHash :: "file_system \<Rightarrow> bool \<Rightarrow> string \<Rightarrow> check_type \<Rightarrow> file_run \<Rightarrow> file_run" where
  "checkHash fs decompress f code r =
     (if \<not> list_ex (\<lambda>(label, s). hash_applies code s) (fr_Searches r) then r
      else (case getHash fs decompress f code of
              (Inl e, failed) \<Rightarrow> log_error ''checkHash'' (Some e) (count_open failed r)
            | (Inr h, failed) \<Rightarrow> with_each (hash_search f code h) r))"

section \<open>Evaluating a file\<close>

definition hash_codes :: "check_type list" where
  "hash_codes = [checkMD5, checkSHA1, checkSHA256, checkSHA384, checkSHA512, checkSHA3_224, checkSHA3_256,
     checkSHA3_384, checkSHA3_512]"

text \<open>The searches that were active at the beginning are active again at the end.\<close>

definition reactivate :: "(string \<times> search) list \<Rightarrow> file_run \<Rightarrow> file_run" where
  "reactivate old r =
     r\<lparr>fr_Searches := map2 (\<lambda>(_, s) (label, s'). (label, if se_isactive s then s'\<lparr>se_isactive := True\<rparr> else s'))
        old (fr_Searches r)\<rparr>"

definition evaluateFile :: "file_system \<Rightarrow> bool \<Rightarrow> string \<Rightarrow> file_run \<Rightarrow> file_run \<times> go_error option" where
  "evaluateFile fs decompress f r =
     (let r1 = r\<lparr>fr_Filescount := fr_Filescount r + 1\<rparr>
      in (case fs_Stat fs f of
            Inl e \<Rightarrow> (r1, Some (Errorf ''evaluateFile() -> %v'' [AErr e]))
          | Inr fi \<Rightarrow>
              (let r2 = with_each (check_metadata fi f) r1;
                   r3 = checkContent fs decompress f r2;
                   r4 = foldl (\<lambda>r code. checkHash fs decompress f code r) r3 hash_codes
               in (reactivate (fr_Searches r) r4, None))))"

end
