(* ===== verification/FileWalk.thy ===== *)
theory FileWalk
  imports FileScan "HOL-Library.List_Lexorder" "HOL-Library.Char_ord"
begin

text \<open>
  Walking the file system (\<open>modules/file/file.go\<close>): \<open>pathWalk\<close>, the loop of \<open>Run\<close> over the roots, and the
  results.

  A directory is a tree; \<open>fs_Open\<close> and \<open>fs_Readdir\<close> say which paths cannot be opened or listed. Trees are
  finite and symbolic links to directories are not followed, so the walk is a structural recursion.
\<close>

section \<open>The tree\<close>

datatype node = Regular | Directory "(string \<times> node) list" | Symlink | Special

section \<open>The walk\<close>

text \<open>Entering a path: the searches in scope count a level, and those within their limits are activated.\<close>

definition in_scope :: "string \<Rightarrow> search \<Rightarrow> bool" where
  "in_scope path s \<longleftrightarrow> list_ex (\<lambda>p. prefix p path) (se_Paths s)"

definition enter_search :: "string \<Rightarrow> int \<Rightarrow> search \<Rightarrow> search \<times> bool" where
  "enter_search path hits s =
     (if in_scope path s
      then (let s = s\<lparr>se_currentdepth := se_currentdepth s + 1, se_iscurrent := True\<rparr>
            in if se_currentdepth s \<le> word_of_int (opt_MaxDepth (se_Options s)) \<and> hits < opt_MatchLimit (se_Options s)
               then (s\<lparr>se_isactive := True\<rparr>, True) else (s, False))
      else (s, False))"

definition enter :: "string \<Rightarrow> file_run \<Rightarrow> file_run \<times> bool" where
  "enter path r =
     (r\<lparr>fr_Searches := map (\<lambda>(label, s). (label, fst (enter_search path (fr_Totalhits r) s))) (fr_Searches r)\<rparr>,
      list_ex (\<lambda>(label, s). snd (enter_search path (fr_Totalhits r) s)) (fr_Searches r))"

text \<open>Leaving a path: the searches that were ever in scope lose a level.\<close>

definition leave :: "file_run \<Rightarrow> file_run" where
  "leave r =
     r\<lparr>fr_Searches := map (\<lambda>(label, s). (label,
        if se_iscurrent s then s\<lparr>se_currentdepth := se_currentdepth s - 1\<rparr> else s)) (fr_Searches r)\<rparr>"

definition stop_at_limit :: "file_run \<Rightarrow> file_run" where
  "stop_at_limit r =
     r\<lparr>fr_Searches := map (\<lambda>(label, s). (label,
        if opt_MatchLimit (se_Options s) \<le> fr_Totalhits r then s\<lparr>se_isactive := False\<rparr> else s)) (fr_Searches r)\<rparr>"

definition add_error :: "go_error option \<Rightarrow> file_run \<Rightarrow> file_run" where
  "add_error e r = (case e of None \<Rightarrow> r | Some e \<Rightarrow> r\<lparr>fr_Errors := fr_Errors r @ [e]\<rparr>)"

definition walk_error :: "go_error \<Rightarrow> go_error" where
  "walk_error e = Errorf ''ERROR: %v'' [AErr e]"

definition fail_open :: "go_error \<Rightarrow> file_run \<Rightarrow> file_run" where
  "fail_open e r = r\<lparr>fr_Openfailed := fr_Openfailed r + 1, fr_Errors := fr_Errors r @ [walk_error e]\<rparr>"

definition with_slash :: "string \<Rightarrow> string" where
  "with_slash p = (if last p = slash then p else p @ [slash])"

text \<open>The files of a directory, in the order of the listing; directories are left for later.\<close>

definition evaluate :: "file_system \<Rightarrow> bool \<Rightarrow> string \<Rightarrow> file_run \<Rightarrow> file_run" where
  "evaluate fs dc f r = (case evaluateFile fs dc f r of (r', e) \<Rightarrow> add_error e r')"

fun walk_files :: "file_system \<Rightarrow> bool \<Rightarrow> string \<Rightarrow> (string \<times> node) list \<Rightarrow> file_run \<Rightarrow> file_run" where
  "walk_files fs dc path [] r = r"
| "walk_files fs dc path ((name, n) # rest) r =
     (let r = stop_at_limit r; f = with_slash path @ name
      in walk_files fs dc path rest
           (case n of
              Directory _ \<Rightarrow> r
            | Special \<Rightarrow> r
            | Regular \<Rightarrow> evaluate fs dc f r
            | Symlink \<Rightarrow>
                (case fs_Link fs f of
                   Inl e \<Rightarrow> fail_open e r
                 | Inr (regular, _) \<Rightarrow> if regular then evaluate fs dc f r else r)))"

text \<open>A root or directory that is not one, after it was opened; the error is returned as well.\<close>

definition not_followed :: "string \<Rightarrow> string \<Rightarrow> go_error" where
  "not_followed path link = Errorf ''warning: %s is a link to %s and was not followed'' [AStr path, AStr link]"

definition walk_leaf :: "file_system \<Rightarrow> bool \<Rightarrow> string \<Rightarrow> node \<Rightarrow> file_run \<Rightarrow> file_run \<times> go_error option" where
  "walk_leaf fs dc path n r =
     (let eval = (\<lambda>f r. case evaluateFile fs dc f r of (r', e) \<Rightarrow> (add_error e r', e))
      in if n = Symlink
         then (case fs_Link fs path of
                 Inl e \<Rightarrow> (fail_open e r, None)
               | Inr (regular, linkpath) \<Rightarrow>
                   if regular then eval linkpath r
                   else eval path (r\<lparr>fr_Errors := fr_Errors r @ [not_followed path linkpath]\<rparr>))
         else eval path r)"

text \<open>
  \<open>pathWalk\<close>: the run, the roots found, and the error. The list of roots found and the error of a directory
  are those of its last subdirectory, if it has one.
\<close>

fun pathWalk ::
  "file_system \<Rightarrow> bool \<Rightarrow> string list \<Rightarrow> string \<Rightarrow> node \<Rightarrow> file_run \<Rightarrow> file_run \<times> string list \<times> go_error option"
and walk_subdirs ::
  "file_system \<Rightarrow> bool \<Rightarrow> string list \<Rightarrow> string \<Rightarrow> (string \<times> node) list \<Rightarrow>
     file_run \<times> string list \<times> go_error option \<Rightarrow> file_run \<times> string list \<times> go_error option" where
  "pathWalk fs dc roots path n r =
     (let traversed = filter (\<lambda>p. p = path) roots
      in (case enter path r of
            (r, active) \<Rightarrow>
              if \<not> active then (leave r, traversed, None)
              else (case fs_Open fs path of
                      Some e \<Rightarrow> (leave (fail_open e r), traversed, Some e)
                    | None \<Rightarrow>
                        (case n of
                           Directory es \<Rightarrow>
                             (case fs_Readdir fs path of
                                Some e \<Rightarrow> (leave (r\<lparr>fr_Errors := fr_Errors r @ [walk_error e]\<rparr>), traversed, None)
                              | None \<Rightarrow>
                                  (case walk_subdirs fs dc roots path es (walk_files fs dc path es r, traversed, None) of
                                     (r', t, e) \<Rightarrow> (leave r', t, e)))
                         | _ \<Rightarrow> (case walk_leaf fs dc path n r of (r', e) \<Rightarrow> (leave r', traversed, e))))))"
| "walk_subdirs fs dc roots path [] st = st"
| "walk_subdirs fs dc roots path ((name, n) # rest) (r, t, e) =
     (case n of
        Directory es \<Rightarrow>
          (case pathWalk fs dc roots (with_slash path @ name @ [slash]) n r of
             (r', t', e') \<Rightarrow> walk_subdirs fs dc roots path rest (add_error e' r', t', e'))
      | _ \<Rightarrow> walk_subdirs fs dc roots path rest (r, t, e))"

section \<open>The loop over the roots\<close>

text \<open>The paths of a search are cleaned and added to the roots, which are sorted after each search.\<close>

definition add_roots :: "string list \<Rightarrow> string list \<Rightarrow> string list" where
  "add_roots roots paths =
     sort (foldl (\<lambda>roots p. if p \<in> set roots then roots else roots @ [p]) roots paths)"

definition setup_search ::
  "regex_engine \<Rightarrow> time \<Rightarrow> (string \<times> search) list \<times> string list \<Rightarrow> string \<times> search \<Rightarrow>
     ((string \<times> search) list \<times> string list) result" where
  "setup_search compile now st ls =
     and_then (makeChecks compile now (snd ls)) (\<lambda>s.
       let paths = map Clean (se_Paths s)
       in Inr (fst st @ [(fst ls, s\<lparr>se_Paths := paths\<rparr>)], add_roots (snd st) paths))"

definition setup_searches ::
  "regex_engine \<Rightarrow> time \<Rightarrow> (string \<times> search) list \<Rightarrow> ((string \<times> search) list \<times> string list) result" where
  "setup_searches compile now searches = fold_res (setup_search compile now) ([], []) searches"

definition start_run :: "(string \<times> search) list \<Rightarrow> file_run" where
  "start_run ss = \<lparr>fr_Searches = ss, fr_Filescount = 0, fr_Openfailed = 0, fr_Totalhits = 0, fr_Errors = []\<rparr>"

definition reset_searches :: "file_run \<Rightarrow> file_run" where
  "reset_searches r =
     r\<lparr>fr_Searches := map (\<lambda>(label, s). (label, s\<lparr>se_isactive := False, se_currentdepth := 0\<rparr>)) (fr_Searches r)\<rparr>"

fun walk_roots ::
  "file_system \<Rightarrow> bool \<Rightarrow> (string \<Rightarrow> node) \<Rightarrow> string list \<Rightarrow> string list \<Rightarrow> string list \<Rightarrow> file_run \<Rightarrow> file_run" where
  "walk_roots fs dc tree all traversed [] r = r"
| "walk_roots fs dc tree all traversed (root # rest) r =
     (let r = reset_searches r
      in if root \<in> set traversed then walk_roots fs dc tree all traversed rest r
         else (case pathWalk fs dc all root (tree root) r of
                 (r', t, e) \<Rightarrow> walk_roots fs dc tree all t rest (add_error (map_option walk_error e) r')))"

section \<open>Results\<close>

record matched_file =
  mf_File :: string
  mf_Search :: search
  mf_Size :: int
  mf_Mode :: string
  mf_Mtime :: string
  mf_SHA256 :: string

record file_results =
  rs_Elements :: "(string \<times> matched_file list) list"
  rs_Filescount :: int
  rs_Openfailed :: int
  rs_Totalhits :: int
  rs_Errors :: "go_error list"
  rs_FoundAnything :: bool
  rs_Success :: bool

definition zero_options :: options where
  "zero_options =
     \<lparr>opt_MaxDepth = 0, opt_MaxErrors = 0, opt_MatchAll = False, opt_Macroal = False, opt_Mismatch = [],
      opt_MatchLimit = 0, opt_ReturnSHA256 = False, opt_Decompress = False\<rparr>"

definition zero_search :: search where
  "zero_search =
     \<lparr>se_Description = [], se_Paths = [], se_Contents = [], se_Names = [], se_Sizes = [], se_Modes = [],
      se_Mtimes = [], se_MD5 = [], se_SHA1 = [], se_SHA2 = [], se_SHA3 = [], se_Options = zero_options,
      se_checks = [], se_checkmask = 0, se_isactive = False, se_iscurrent = False, se_currentdepth = 0,
      se_filesMatchingAll = []\<rparr>"

definition clear_limits :: "options \<Rightarrow> options" where
  "clear_limits o' = o'\<lparr>opt_MatchLimit := 0, opt_MaxDepth := 0, opt_MaxErrors := 0\<rparr>"

text \<open>
  The metadata of a matched file, none for the empty name; \<open>show_time\<close> prints a time. A file that cannot be
  opened for its hash at this point ends the run, without being counted here.
\<close>

definition matched_info :: "file_system \<Rightarrow> (time \<Rightarrow> string) \<Rightarrow> string \<Rightarrow> search \<Rightarrow> matched_file result" where
  "matched_info fs show_time f s =
     (let none = \<lparr>mf_File = f, mf_Search = s, mf_Size = 0, mf_Mode = [], mf_Mtime = [], mf_SHA256 = []\<rparr>
      in if f = [] then Inr none
         else and_then (fs_Stat fs f) (\<lambda>fi.
              Inr (none\<lparr>mf_Size := fi_Size fi, mf_Mode := fi_Mode fi, mf_Mtime := show_time (fi_ModTime fi)\<rparr>)))"

definition matchall_file :: "file_system \<Rightarrow> bool \<Rightarrow> (time \<Rightarrow> string) \<Rightarrow> search \<Rightarrow> string \<Rightarrow> matched_file result" where
  "matchall_file fs dc show_time s f =
     and_then (matched_info fs show_time f (s\<lparr>se_Options := clear_limits (se_Options s)\<rparr>)) (\<lambda>mf.
       if f \<noteq> [] \<and> opt_ReturnSHA256 (se_Options s)
       then and_then (fst (getHash fs dc f checkSHA256)) (\<lambda>h. Inr (mf\<lparr>mf_SHA256 := h\<rparr>)) else Inr mf)"

text \<open>The value of a check is put where the parameters have it.\<close>

definition value_in_search :: "check \<Rightarrow> search \<Rightarrow> search" where
  "value_in_search c s =
     (if ck_code c = checkContent_code then s\<lparr>se_Contents := [ck_value c]\<rparr>
      else if ck_code c = checkName_code then s\<lparr>se_Names := [ck_value c]\<rparr>
      else if ck_code c = checkSize_code then s\<lparr>se_Sizes := [ck_value c]\<rparr>
      else if ck_code c = checkMode_code then s\<lparr>se_Modes := [ck_value c]\<rparr>
      else if ck_code c = checkMtime_code then s\<lparr>se_Mtimes := [ck_value c]\<rparr>
      else if ck_code c = checkMD5 then s\<lparr>se_MD5 := [ck_value c]\<rparr>
      else if ck_code c = checkSHA1 then s\<lparr>se_SHA1 := [ck_value c]\<rparr>
      else if ck_code c \<in> {checkSHA256, checkSHA384, checkSHA512} then s\<lparr>se_SHA2 := [ck_value c]\<rparr>
      else if ck_code c \<in> {checkSHA3_224, checkSHA3_256, checkSHA3_384, checkSHA3_512}
      then s\<lparr>se_SHA3 := [ck_value c]\<rparr> else s)"

definition matchany_file :: "file_system \<Rightarrow> (time \<Rightarrow> string) \<Rightarrow> search \<Rightarrow> check \<Rightarrow> string \<Rightarrow> matched_file result" where
  "matchany_file fs show_time s c f =
     matched_info fs show_time f
       (value_in_search c (zero_search\<lparr>se_Paths := (if f = [] then se_Paths s else [path_Dir f])\<rparr>))"

definition or_none :: "string list \<Rightarrow> string list" where
  "or_none fs = (if fs = [] then [[]] else fs)"

definition search_results ::
  "file_system \<Rightarrow> bool \<Rightarrow> (time \<Rightarrow> string) \<Rightarrow> search \<Rightarrow> matched_file list result" where
  "search_results fs dc show_time s =
     (if opt_MatchAll (se_Options s)
      then map_res (matchall_file fs dc show_time s) (or_none (se_filesMatchingAll s))
      else and_then (map_res (\<lambda>c. map_res (matchany_file fs show_time s c) (or_none (ck_matchedfiles c))) (se_checks s))
             (\<lambda>mfs. Inr (concat mfs)))"

text \<open>The number of errors returned is the largest \<open>maxerrors\<close> of a search that has a result to report.\<close>

definition reports :: "search \<Rightarrow> bool" where
  "reports s \<longleftrightarrow> opt_MatchAll (se_Options s) \<or> se_checks s \<noteq> []"

definition max_errors :: "(string \<times> search) list \<Rightarrow> int" where
  "max_errors ss =
     foldl (\<lambda>m (label, s). if reports s then max m (opt_MaxErrors (se_Options s)) else m) 0 ss"

definition returned_errors :: "int \<Rightarrow> go_error list \<Rightarrow> go_error list" where
  "returned_errors maxerrors es =
     take (nat (max 1 maxerrors)) es @
     (if maxerrors < int (length es)
      then [Errorf ''%d errors were not returned (max errors = %d)''
              [AInt (int (length es) - maxerrors), AInt maxerrors]] else [])"

definition buildResults ::
  "file_system \<Rightarrow> bool \<Rightarrow> (time \<Rightarrow> string) \<Rightarrow> file_run \<Rightarrow> file_results result" where
  "buildResults fs dc show_time r =
     recovered ''buildResults''
       (and_then (map_res (\<lambda>(label, s). and_then (search_results fs dc show_time s) (\<lambda>sr. Inr (label, sr))) (fr_Searches r))
          (\<lambda>elements. Inr
             \<lparr>rs_Elements = elements, rs_Filescount = fr_Filescount r, rs_Openfailed = fr_Openfailed r,
              rs_Totalhits = fr_Totalhits r, rs_Errors = returned_errors (max_errors (fr_Searches r)) (fr_Errors r),
              rs_FoundAnything = (0 < fr_Totalhits r), rs_Success = True\<rparr>))"

text \<open>The results of a panic in \<open>Run\<close>.\<close>

definition failed_results :: "file_run \<Rightarrow> go_error \<Rightarrow> file_results" where
  "failed_results r e =
     \<lparr>rs_Elements = [], rs_Filescount = fr_Filescount r, rs_Openfailed = fr_Openfailed r,
      rs_Totalhits = fr_Totalhits r, rs_Errors = fr_Errors r @ [e], rs_FoundAnything = False, rs_Success = False\<rparr>"

definition Run ::
  "regex_engine \<Rightarrow> file_system \<Rightarrow> (string \<Rightarrow> node) \<Rightarrow> (time \<Rightarrow> string) \<Rightarrow> time \<Rightarrow> (string \<times> search) list result \<Rightarrow>
     file_results" where
  "Run compile fs tree show_time now inp =
     (case and_then inp (\<lambda>ss. and_then (ValidateParameters compile ss) (\<lambda>_.
              and_then (setup_searches compile now ss) (\<lambda>st. Inr (tryDecompress ss, st)))) of
        Inl e \<Rightarrow> failed_results (start_run []) e
      | Inr (dc, ss, roots) \<Rightarrow>
          (let r = walk_roots fs dc tree roots [] roots (start_run ss)
           in (case buildResults fs dc show_time r of Inl e \<Rightarrow> failed_results r e | Inr res \<Rightarrow> res)))"

text \<open>\<open>EnhancePrivacy\<close> hides file names and errors; the directories in the searches stay.\<close>

definition EnhancePrivacy :: "file_results \<Rightarrow> file_results" where
  "EnhancePrivacy res =
     res\<lparr>rs_Errors := map (\<lambda>_. errors_New ''masked'') (rs_Errors res),
       rs_Elements := map (\<lambda>(label, mfs). (label, map (\<lambda>mf. if mf_File mf \<noteq> [] then mf\<lparr>mf_File := ''masked''\<rparr> else mf) mfs))
         (rs_Elements res)\<rparr>"

end
