(* ===== verification/FileMatch.thy ===== *)
theory FileMatch
  imports FileWalk
begin

text \<open>
  What the file module finds: how matches are stored and counted, which files one search reports, which
  files a walk inspects, and how searches disturb each other.
\<close>

section \<open>Matches of a search\<close>

text \<open>The part of a search that inspecting files does not change.\<close>

definition blank :: "check \<Rightarrow> check" where
  "blank c = c\<lparr>ck_matched := 0, ck_matchedfiles := []\<rparr>"

definition same_search :: "search \<Rightarrow> search \<Rightarrow> bool" where
  "same_search s s' \<longleftrightarrow>
     map blank (se_checks s') = map blank (se_checks s) \<and> se_Options s' = se_Options s \<and>
     se_Paths s' = se_Paths s \<and> se_checkmask s' = se_checkmask s \<and> se_iscurrent s' = se_iscurrent s \<and>
     se_currentdepth s' = se_currentdepth s"

definition ids :: "search \<Rightarrow> int set" where "ids s = ck_checkid ` set (se_checks s)"

text \<open>The checks that have a file.\<close>

definition matched_ids :: "search \<Rightarrow> string \<Rightarrow> int set" where
  "matched_ids s f = ck_checkid ` {c \<in> set (se_checks s). hasMatch c f}"

text \<open>The number of hits a search has contributed.\<close>

definition hit_count :: "search \<Rightarrow> int" where
  "hit_count s =
     (if opt_MatchAll (se_Options s) then int (length (se_filesMatchingAll s))
      else sum_list (map (\<lambda>c. int (length (ck_matchedfiles c))) (se_checks s)))"

text \<open>The invariant: check numbers are unique, nothing is stored twice, and the files that match all are kept.\<close>

definition search_ok :: "search \<Rightarrow> bool" where
  "search_ok s \<longleftrightarrow>
     distinct (map ck_checkid (se_checks s)) \<and> (\<forall>c\<in>set (se_checks s). distinct (ck_matchedfiles c)) \<and>
     distinct (se_filesMatchingAll s) \<and>
     (opt_MatchAll (se_Options s) \<longrightarrow>
        (\<forall>f. f \<in> set (se_filesMatchingAll s) \<longleftrightarrow> se_checks s \<noteq> [] \<and> (\<forall>c\<in>set (se_checks s). hasMatch c f)))"

text \<open>
  \<open>stores f X\<close>: the file \<open>f\<close> is stored with the checks of \<open>X\<close> and nothing else happens but that searches
  are switched on or off; each new match counts as a hit.
\<close>

definition stores :: "string \<Rightarrow> int set \<Rightarrow> search \<times> int \<Rightarrow> search \<times> int \<Rightarrow> bool" where
  "stores f X st st' \<longleftrightarrow>
     same_search (fst st) (fst st') \<and>
     (search_ok (fst st) \<longrightarrow>
        search_ok (fst st') \<and> snd st' - snd st = hit_count (fst st') - hit_count (fst st) \<and>
        matched_ids (fst st') f = matched_ids (fst st) f \<union> X \<and>
        (\<forall>g. g \<noteq> f \<longrightarrow> matched_ids (fst st') g = matched_ids (fst st) g))"

lemma same_search_refl [simp]: "same_search s s"
  by (simp add: same_search_def)

lemma same_search_trans: "same_search s s' \<Longrightarrow> same_search s' s'' \<Longrightarrow> same_search s s''"
  by (simp add: same_search_def)

lemma blank_id [simp]: "ck_checkid (blank c) = ck_checkid c" "ck_code (blank c) = ck_code c"
  by (simp_all add: blank_def)

lemma same_search_ids: "same_search s s' \<Longrightarrow> map ck_checkid (se_checks s') = map ck_checkid (se_checks s)"
proof -
  assume "same_search s s'"
  then have "map ck_checkid (map blank (se_checks s')) = map ck_checkid (map blank (se_checks s))"
    by (simp add: same_search_def del: map_map)
  then show ?thesis by (simp add: comp_def)
qed

lemma stores_refl: "X \<subseteq> matched_ids (fst st) f \<Longrightarrow> stores f X st st"
  by (auto simp: stores_def)

lemma stores_trans: "stores f X st st' \<Longrightarrow> stores f Y st' st'' \<Longrightarrow> stores f (X \<union> Y) st st''"
  by (auto simp: stores_def dest: same_search_trans)

lemma stores_active [simp]:
  "stores f {} (s, h) (s\<lparr>se_isactive := b\<rparr>, h)"
  by (simp add: stores_def same_search_def search_ok_def matched_ids_def hit_count_def)

lemma add_match_fields [simp]:
  "ck_checkid (add_match cid f c) = ck_checkid c" "blank (add_match cid f c) = blank c"
  by (simp_all add: add_match_def blank_def)

lemma hasMatch_add_match: "hasMatch (add_match cid f c) g \<longleftrightarrow> hasMatch c g \<or> (ck_checkid c = cid \<and> g = f)"
  by (auto simp: hasMatch_def add_match_def)

lemma sum_one_id:
  assumes "distinct (map ck_checkid cs)" and "c \<in> set cs"
  shows "sum_list (map (\<lambda>d. int (length (ck_matchedfiles (add_match (ck_checkid c) f d)))) cs) =
    sum_list (map (\<lambda>d. int (length (ck_matchedfiles d))) cs) + 1"
proof -
  have none: "ck_checkid c \<notin> ck_checkid ` set ds \<Longrightarrow>
      map (\<lambda>d. int (length (ck_matchedfiles (add_match (ck_checkid c) f d)))) ds =
      map (\<lambda>d. int (length (ck_matchedfiles d))) ds" for ds
    by (induction ds) (auto simp: add_match_def)
  show ?thesis using assms
  proof (induction cs)
    case (Cons d ds)
    show ?case
    proof (cases "d = c")
      case True
      with Cons.prems have "ck_checkid c \<notin> ck_checkid ` set ds" by simp
      then have "map (\<lambda>d. int (length (ck_matchedfiles (add_match (ck_checkid c) f d)))) ds =
          map (\<lambda>d. int (length (ck_matchedfiles d))) ds" by (rule none)
      with True show ?thesis by (simp del: map_eq_conv, simp add: add_match_def)
    next
      case False
      with Cons.prems have "c \<in> set ds" "ck_checkid d \<noteq> ck_checkid c" by (auto simp: image_iff)
      with Cons show ?thesis by (simp add: add_match_def)
    qed
  qed simp
qed

lemma matched_ids_iff: "i \<in> matched_ids s g \<longleftrightarrow> (\<exists>c\<in>set (se_checks s). ck_checkid c = i \<and> hasMatch c g)"
  by (auto simp: matched_ids_def)

lemma processMatch_stores:
  assumes "cid \<in> ids (fst st)"
  shows "stores f {cid} st (processMatch cid f st)"
proof -
  obtain s h where st: "st = (s, h)" by fastforce
  show ?thesis
  proof (cases "list_ex (\<lambda>c. ck_checkid c = cid \<and> hasMatch c f) (se_checks s)")
    case True
    then have "cid \<in> matched_ids s f" by (auto simp: matched_ids_def list_ex_iff)
    with True show ?thesis by (simp add: st processMatch_def stores_refl)
  next
    case False
    from assms obtain c where c: "c \<in> set (se_checks s)" "ck_checkid c = cid" by (auto simp: ids_def st)
    with False have new: "\<not> hasMatch c f" by (auto simp: list_ex_iff)
    let ?s = "s\<lparr>se_checks := map (add_match cid f) (se_checks s)\<rparr>"
    have m: "matched_ids ?s g = matched_ids s g \<union> (if g = f then {cid} else {})" for g
    proof (intro set_eqI)
      fix i
      have "i \<in> matched_ids ?s g \<longleftrightarrow>
          (\<exists>c\<in>set (se_checks s). ck_checkid c = i \<and> (hasMatch c g \<or> ck_checkid c = cid \<and> g = f))"
        by (simp add: matched_ids_iff hasMatch_add_match)
      then show "i \<in> matched_ids ?s g \<longleftrightarrow> i \<in> matched_ids s g \<union> (if g = f then {cid} else {})"
        using c by (cases "g = f") (auto simp: matched_ids_iff)
    qed
    have d: "search_ok s \<Longrightarrow> distinct (map ck_checkid (se_checks ?s)) \<and>
        (\<forall>c\<in>set (se_checks ?s). distinct (ck_matchedfiles c))"
    proof -
      assume ok: "search_ok s"
      have "map ck_checkid (se_checks ?s) = map ck_checkid (se_checks s)" by simp
      moreover have "distinct (ck_matchedfiles (add_match cid f c))" if "c \<in> set (se_checks s)" for c
        using that ok False by (auto simp: search_ok_def add_match_def hasMatch_def list_ex_iff)
      ultimately show ?thesis using ok by (simp only: search_ok_def) auto
    qed
    show ?thesis
    proof (cases "opt_MatchAll (se_Options s)")
      case True
      let ?all = "list_all (\<lambda>c. hasMatch c f) (se_checks ?s)"
      let ?s' = "if ?all then ?s\<lparr>se_filesMatchingAll := se_filesMatchingAll s @ [f]\<rparr> else ?s"
      show ?thesis
      proof (cases "search_ok s")
        case True2: True
        then have out: "f \<notin> set (se_filesMatchingAll s)" using True c new by (auto simp: search_ok_def)
        have eq: "processMatch cid f st = (?s', h + (if ?all then 1 else 0))"
          using True False out by (simp add: st processMatch_def Let_def allChecksMatched_def)
        have mem: "g \<in> set (se_filesMatchingAll ?s') \<longleftrightarrow> (\<forall>c\<in>set (se_checks ?s'). hasMatch c g)" for g
        proof (cases "g = f")
          case True
          with out show ?thesis by (auto simp: list_all_iff)
        next
          case False
          then show ?thesis using True2 True c(1) by (auto simp: search_ok_def hasMatch_add_match)
        qed
        have "search_ok ?s'"
          unfolding search_ok_def using d True2 out mem c(1)
          by (auto simp: search_ok_def) 
        moreover have "hit_count ?s' = hit_count s + (if ?all then 1 else 0)" using True by (simp add: hit_count_def)
        moreover have "matched_ids ?s' g = matched_ids ?s g" for g by (simp add: matched_ids_def)
        moreover have "same_search s ?s'" by (simp add: same_search_def comp_def)
        ultimately show ?thesis using m unfolding stores_def eq fst_conv snd_conv by (simp add: st)
      next
        case False2: False
        show ?thesis
          using False False2 by (auto simp: st processMatch_def stores_def same_search_def Let_def comp_def)
      qed
    next
      case False2: False
      have "search_ok s \<Longrightarrow> hit_count ?s = hit_count s + 1"
        using sum_one_id [OF _ c(1), of f] c(2) False2 by (simp add: search_ok_def hit_count_def comp_def)
      then show ?thesis
        using False False2 d m
        by (auto simp: st processMatch_def stores_def same_search_def search_ok_def Let_def comp_def)
    qed
  qed
qed

lemma processMatch_active [simp]: "se_isactive (fst (processMatch cid f st)) = se_isactive (fst st)"
  by (simp add: processMatch_def Let_def split: prod.splits)

lemma same_search_ids_eq: "same_search s s' \<Longrightarrow> ids s' = ids s"
  using same_search_ids [of s s'] unfolding ids_def by (metis set_map)

lemma stores_same: "stores f X st st' \<Longrightarrow> same_search (fst st) (fst st')"
  by (simp add: stores_def)

lemma stores_ids: "stores f X st st' \<Longrightarrow> ids (fst st') = ids (fst st)"
  by (simp add: stores_def same_search_ids_eq)

lemma stores_if: "ck_checkid c \<in> ids (fst st) \<Longrightarrow> stores f (if want then {ck_checkid c} else {}) st (store_if want c f st)"
  by (simp add: store_if_def processMatch_stores stores_refl)

lemma store_if_active [simp]: "se_isactive (fst (store_if want c f st)) = se_isactive (fst st)"
  by (simp add: store_if_def)

section \<open>One pass over the checks of a search\<close>

text \<open>The numbers of the checks of a list that have a property.\<close>

definition those :: "(check \<Rightarrow> bool) \<Rightarrow> check list \<Rightarrow> int set" where
  "those P cs = ck_checkid ` {c \<in> set cs. P c}"

lemma those_simps [simp]: "those P [] = {}" "those P (c # cs) = (if P c then {ck_checkid c} else {}) \<union> those P cs"
  by (auto simp: those_def)

lemma those_blank:
  assumes "same_search s s'" and "\<And>c. P (blank c) = P c"
  shows "those P (se_checks s') = those P (se_checks s)"
proof -
  have *: "those P cs = those P (map blank cs)" for cs
    using assms(2) by (induction cs) auto
  show ?thesis using assms(1) by (simp add: * [of "se_checks s'"] * [of "se_checks s"] same_search_def)
qed

lemma all_blank:
  assumes "same_search s s'" and "\<And>c. P (blank c) = P c"
  shows "(\<forall>c\<in>set (se_checks s'). P c) \<longleftrightarrow> (\<forall>c\<in>set (se_checks s). P c)"
proof -
  have *: "(\<forall>c\<in>set cs. P c) \<longleftrightarrow> (\<forall>c\<in>set (map blank cs). P c)" for cs using assms(2) by simp
  show ?thesis using assms(1) by (simp only: * [of "se_checks s'"] * [of "se_checks s"] same_search_def)
qed

definition of_code :: "check_type \<Rightarrow> check \<Rightarrow> bool" where
  "of_code code c \<longleftrightarrow> ck_code c AND code \<noteq> 0"

lemma apply_checks_stores:
  assumes "ck_checkid ` set cs \<subseteq> ids (fst (fst st))"
  shows "stores f (those (\<lambda>c. of_code code c \<and> wantThis c (test c)) cs) (fst st) (fst (apply_checks code test f cs st)) \<and>
    snd (apply_checks code test f cs st) = (snd st \<and> (\<forall>c\<in>set cs. of_code code c \<longrightarrow> wantThis c (test c))) \<and>
    se_isactive (fst (fst (apply_checks code test f cs st))) = se_isactive (fst (fst st))"
  using assms
proof (induction cs arbitrary: st)
  case (Cons c cs)
  let ?want = "wantThis c (test c)"
  let ?st = "(store_if ?want c f (fst st), snd st \<and> ?want)"
  show ?case
  proof (cases "of_code code c")
    case True
    have one: "stores f (if ?want then {ck_checkid c} else {}) (fst st) (fst ?st)"
      using Cons.prems by (simp add: stores_if)
    from stores_ids [OF one] Cons.prems have "ck_checkid ` set cs \<subseteq> ids (fst (fst ?st))" by simp
    note ih = Cons.IH [OF this]
    from stores_trans [OF one ih [THEN conjunct1]] ih True show ?thesis by (auto simp: of_code_def)
  next
    case False
    with Cons show ?thesis by (simp add: of_code_def)
  qed
qed (simp add: stores_refl)

text \<open>The mask of a search is made of the codes of its checks.\<close>

definition mask_ok :: "search \<Rightarrow> bool" where
  "mask_ok s \<longleftrightarrow> se_checkmask s = foldr (\<lambda>c m. ck_code c OR m) (se_checks s) 0"

lemma and_or_zero: "((a OR b) AND c = 0) \<longleftrightarrow> (a AND c = 0 \<and> b AND c = (0 :: 64 word))"
  by (metis (no_types, lifting) bit.conj_disj_distrib2 or_eq_0_iff)

lemma mask_code: "foldr (\<lambda>c m. ck_code c OR m) cs 0 AND code = 0 \<longleftrightarrow> (\<forall>c\<in>set cs. \<not> of_code code c)"
  by (induction cs) (auto simp: and_or_zero of_code_def)

lemma mask_ok_code: "mask_ok s \<Longrightarrow> (se_checkmask s AND code \<noteq> 0) \<longleftrightarrow> (\<exists>c\<in>set (se_checks s). of_code code c)"
  by (simp add: mask_ok_def mask_code)

lemma mask_ok_same: "same_search s s' \<Longrightarrow> mask_ok s \<Longrightarrow> mask_ok s'"
proof -
  have *: "foldr (\<lambda>c m. ck_code c OR m) cs 0 = foldr (\<lambda>c m. ck_code c OR m) (map blank cs) 0" for cs
    by (induction cs) auto
  show "same_search s s' \<Longrightarrow> mask_ok s \<Longrightarrow> mask_ok s'"
    by (simp only: mask_ok_def * [of "se_checks s"] * [of "se_checks s'"] same_search_def)
qed

lemma checks_of_stores:
  assumes "mask_ok (fst st)"
  shows "stores f (those (\<lambda>c. of_code code c \<and> wantThis c (test c)) (se_checks (fst st))) st (fst (checks_of code test f st)) \<and>
    snd (checks_of code test f st) = (\<forall>c\<in>set (se_checks (fst st)). of_code code c \<longrightarrow> wantThis c (test c)) \<and>
    se_isactive (fst (fst (checks_of code test f st))) = se_isactive (fst st)"
proof (cases "se_checkmask (fst st) AND code = 0")
  case True
  with mask_ok_code [OF assms] have "\<forall>c\<in>set (se_checks (fst st)). \<not> of_code code c" by auto
  with True show ?thesis by (auto simp: checks_of_def those_def intro!: stores_refl)
next
  case False
  then show ?thesis
    using apply_checks_stores [of "se_checks (fst st)" "(st, True)" f code test] by (simp add: checks_of_def ids_def)
qed

section \<open>The metadata\<close>

text \<open>Tests that look only at the part of a check that does not change.\<close>

definition steady :: "(check_type \<times> (check \<Rightarrow> bool)) list \<Rightarrow> bool" where
  "steady tests \<longleftrightarrow> (\<forall>t\<in>set tests. \<forall>c. snd t (blank c) = snd t c)"

definition wanted_by :: "(check_type \<times> (check \<Rightarrow> bool)) list \<Rightarrow> check \<Rightarrow> bool" where
  "wanted_by tests c \<longleftrightarrow> (\<exists>t\<in>set tests. of_code (fst t) c \<and> wantThis c (snd t c))"

definition refused_by :: "(check_type \<times> (check \<Rightarrow> bool)) list \<Rightarrow> check \<Rightarrow> bool" where
  "refused_by tests c \<longleftrightarrow> (\<exists>t\<in>set tests. of_code (fst t) c \<and> \<not> wantThis c (snd t c))"

lemma blank_want [simp]: "wantThis (blank c) b = wantThis c b" "of_code code (blank c) = of_code code c"
  by (simp_all add: wantThis_def of_code_def blank_def)

lemma steady_blank:
  "steady tests \<Longrightarrow> wanted_by tests (blank c) = wanted_by tests c"
  "steady tests \<Longrightarrow> refused_by tests (blank c) = refused_by tests c"
  by (auto simp: steady_def wanted_by_def refused_by_def)

lemma wanted_by_Cons [simp]:
  "wanted_by (t # ts) c \<longleftrightarrow> (of_code (fst t) c \<and> wantThis c (snd t c)) \<or> wanted_by ts c"
  "refused_by (t # ts) c \<longleftrightarrow> (of_code (fst t) c \<and> \<not> wantThis c (snd t c)) \<or> refused_by ts c"
  by (auto simp: wanted_by_def refused_by_def)

lemma those_none [simp]: "those (wanted_by []) cs = {}"
  by (simp add: those_def wanted_by_def)

lemma deactivate_stores [simp]: "stores f {} st (deactivate st)"
  by (simp add: deactivate_def split: prod.splits)

lemma stores_trans': "stores f X st st' \<Longrightarrow> stores f {} st' st'' \<Longrightarrow> stores f X st st''"
  using stores_trans [of f X st st' "{}" st''] by simp

lemma metadata_passes_stores:
  assumes "steady tests" and "mask_ok (fst st)"
  shows "\<exists>X. stores f X st (metadata_passes (map (\<lambda>t. checks_of (fst t) (snd t)) tests) f st) \<and>
    X \<subseteq> those (wanted_by tests) (se_checks (fst st)) \<and>
    ((\<forall>c\<in>set (se_checks (fst st)). \<not> refused_by tests c) \<longrightarrow>
       X = those (wanted_by tests) (se_checks (fst st)) \<and>
       se_isactive (fst (metadata_passes (map (\<lambda>t. checks_of (fst t) (snd t)) tests) f st)) = se_isactive (fst st))"
  using assms
proof (induction tests arbitrary: st)
  case Nil
  then show ?case by (auto intro!: exI [of _ "{}"] stores_refl)
next
  case (Cons t ts)
  obtain code test where t: "t = (code, test)" by fastforce
  have st1: "steady ts" "\<And>c. test (blank c) = test c" using Cons.prems(1) by (auto simp: steady_def t)
  obtain st' w where p: "checks_of code test f st = (st', w)" by fastforce
  let ?one = "those (\<lambda>c. of_code code c \<and> wantThis c (test c)) (se_checks (fst st))"
  from checks_of_stores [OF Cons.prems(2), of f code test] p
  have one: "stores f ?one st st'" "se_isactive (fst st') = se_isactive (fst st)"
    and w: "w \<longleftrightarrow> (\<forall>c\<in>set (se_checks (fst st)). of_code code c \<longrightarrow> wantThis c (test c))" by simp_all
  note same = stores_same [OF one(1)]
  show ?case
  proof (cases "\<not> w \<and> opt_MatchAll (se_Options (fst st'))")
    case True
    then have eq: "metadata_passes (map (\<lambda>t. checks_of (fst t) (snd t)) (t # ts)) f st = deactivate st'" by (simp add: t p)
    have "\<not> (\<forall>c\<in>set (se_checks (fst st)). \<not> refused_by (t # ts) c)" using True w by (auto simp: t)
    moreover have "stores f ?one st (deactivate st')" using one(1) by (rule stores_trans') simp
    moreover have "?one \<subseteq> those (wanted_by (t # ts)) (se_checks (fst st))" by (auto simp: those_def t)
    ultimately show ?thesis unfolding eq by blast
  next
    case False
    then have eq: "metadata_passes (map (\<lambda>t. checks_of (fst t) (snd t)) (t # ts)) f st =
        metadata_passes (map (\<lambda>t. checks_of (fst t) (snd t)) ts) f st'" by (auto simp: t p)
    from Cons.IH [OF st1(1) mask_ok_same [OF same Cons.prems(2)]]
    obtain X where X: "stores f X st' (metadata_passes (map (\<lambda>t. checks_of (fst t) (snd t)) ts) f st')"
      "X \<subseteq> those (wanted_by ts) (se_checks (fst st))"
      "(\<forall>c\<in>set (se_checks (fst st)). \<not> refused_by ts c) \<longrightarrow> X = those (wanted_by ts) (se_checks (fst st)) \<and>
         se_isactive (fst (metadata_passes (map (\<lambda>t. checks_of (fst t) (snd t)) ts) f st')) = se_isactive (fst st')"
      using those_blank [OF same, of "wanted_by ts"] all_blank [OF same, of "\<lambda>c. \<not> refused_by ts c"]
        steady_blank [OF st1(1)] by auto
    have "those (wanted_by (t # ts)) (se_checks (fst st)) = ?one \<union> those (wanted_by ts) (se_checks (fst st))"
      by (auto simp: those_def t)
    moreover have "(\<forall>c\<in>set (se_checks (fst st)). \<not> refused_by (t # ts) c) \<longrightarrow>
        (\<forall>c\<in>set (se_checks (fst st)). \<not> refused_by ts c)" by simp
    ultimately show ?thesis
      unfolding eq using stores_trans [OF one(1) X(1)] X(2,3) one(2) by (intro exI [of _ "?one \<union> X"]) blast
  qed
qed

definition metadata_tests :: "file_info \<Rightarrow> (check_type \<times> (check \<Rightarrow> bool)) list" where
  "metadata_tests fi =
     [(checkName_code, \<lambda>c. ck_regex c (fi_Name fi)), (checkMode_code, \<lambda>c. ck_regex c (fi_Mode fi)),
      (checkSize_code, \<lambda>c. sint (ck_minsize c) \<le> fi_Size fi \<and> fi_Size fi \<le> sint (ck_maxsize c)),
      (checkMtime_code, \<lambda>c. ck_minmtime c < fi_ModTime fi \<and> fi_ModTime fi < ck_maxmtime c)]"

lemma steady_metadata: "steady (metadata_tests fi)"
  by (simp add: steady_def metadata_tests_def blank_def)

lemma check_metadata_eq:
  "check_metadata fi f st =
     (if se_isactive (fst st)
      then metadata_passes (map (\<lambda>t. checks_of (fst t) (snd t)) (metadata_tests fi)) f st else st)"
  by (simp add: check_metadata_def metadata_tests_def checkName_def checkMode_def checkSize_def checkMtime_def)

lemma check_metadata_stores:
  assumes "mask_ok (fst st)"
  shows "\<exists>X. stores f X st (check_metadata fi f st) \<and> X \<subseteq> those (wanted_by (metadata_tests fi)) (se_checks (fst st)) \<and>
    (se_isactive (fst st) \<and> (\<forall>c\<in>set (se_checks (fst st)). \<not> refused_by (metadata_tests fi) c) \<longrightarrow>
       X = those (wanted_by (metadata_tests fi)) (se_checks (fst st)) \<and> se_isactive (fst (check_metadata fi f st)))"
  using metadata_passes_stores [OF steady_metadata assms, of f fi] stores_refl [of "{}" st f]
  by (auto simp: check_metadata_eq)

section \<open>The content\<close>

abbreviation view :: "content_state \<times> int \<Rightarrow> search \<times> int" where
  "view st \<equiv> (cs_Search (fst st), snd st)"

lemma store_content_frame [simp]:
  "cs_Status (fst (store_content w c f st)) = cs_Status (fst st)"
  "cs_Inited (fst (store_content w c f st)) = cs_Inited (fst st)"
  "cs_Macroal (fst (store_content w c f st)) = cs_Macroal (fst st)"
  "cs_Search (fst (store_content w c f st)) = fst (store_if w c f (view st))"
  "snd (store_content w c f st) = snd (store_if w c f (view st))"
  by (auto simp: store_content_def split: prod.splits)

lemma store_content_stores:
  "ck_checkid c \<in> ids (cs_Search (fst st)) \<Longrightarrow> \<exists>X. stores f X (view st) (view (store_content w c f st))"
  using stores_if [of c "view st" f w] by auto

lemma line_check_stores:
  assumes "ck_checkid c \<in> ids (cs_Search (fst st))"
  shows "\<exists>X. stores f X (view st) (view (line_check f l c st))"
proof -
  obtain cs hits where st: "st = (cs, hits)" by fastforce
  note one = store_content_stores [of c "(cs, hits)" f] store_content_stores [of c "(cs\<lparr>cs_Macroal := False\<rparr>, hits)" f]
  show ?thesis
    using one [of "wantThis c True"] one [of "wantThis c False"] assms stores_refl [of "{}" "view st" f]
    by (auto simp: st line_check_def Let_def)
qed

lemma line_checks_stores:
  assumes "ck_checkid ` set rest \<subseteq> ids (cs_Search (fst (fst st)))"
  shows "\<exists>X. stores f X (view (fst st)) (view (fst (line_checks f l rest st)))"
  using assms
proof (induction rest arbitrary: st)
  case (Cons c rest)
  obtain st0 has where st: "st = (st0, has)" by fastforce
  from Cons.prems obtain X where X: "stores f X (view st0) (view (line_check f l c st0))"
    using line_check_stores [of c st0 f l] by (auto simp: st)
  from stores_ids [OF X] Cons.prems have "ck_checkid ` set rest \<subseteq> ids (cs_Search (fst (fst (line_check f l c st0, True))))"
    by (simp add: st)
  from Cons.IH [OF this] obtain Y where
    "stores f Y (view (line_check f l c st0)) (view (fst (line_checks f l rest (line_check f l c st0, True))))" by auto
  with X have "\<exists>X. stores f X (view st0) (view (fst (line_checks f l rest (line_check f l c st0, True))))"
    by (blast intro: stores_trans)
  with Cons.IH [of st] Cons.prems show ?case by (auto simp: st)
qed (auto intro: stores_refl)

lemma stores_off: "stores f {} (s, h) (s\<lparr>se_isactive := False\<rparr>, h)"
  by simp

lemma line_search_stores: "\<exists>X. stores f X (view (fst st)) (view (fst (line_search f l st)))"
proof -
  obtain cs hits has where st: "st = ((cs, hits), has)" by (metis prod.exhaust)
  have "ck_checkid ` set (se_checks (cs_Search cs)) \<subseteq> ids (cs_Search (fst (fst ((cs\<lparr>cs_Macroal := True\<rparr>, hits), has))))"
    by (simp add: ids_def)
  from line_checks_stores [OF this, of f l] obtain X cs' hits' has' where
    eq: "line_checks f l (se_checks (cs_Search cs)) ((cs\<lparr>cs_Macroal := True\<rparr>, hits), has) = ((cs', hits'), has')"
    and X: "stores f X (cs_Search cs, hits) (cs_Search cs', hits')" by (auto, metis prod.exhaust fst_conv snd_conv)
  show ?thesis
    using X stores_trans' [OF X stores_off] stores_refl [of "{}" "(cs_Search cs, hits)" f]
    by (auto simp: st line_search_def eq)
qed

lemma finish_macroal_stores:
  "ck_checkid ` set rest \<subseteq> ids (cs_Search (fst st)) \<Longrightarrow> \<exists>X. stores f X (view st) (view (finish_macroal f rest st))"
proof (induction rest arbitrary: st)
  case (Cons c rest)
  let ?st = "if ck_code c AND checkContent_code = 0 then st
    else store_content (wantThis c (ck_checkid c \<in> cs_Status (fst st))) c f st"
  have "\<exists>X. stores f X (view st) (view ?st)"
    using Cons.prems store_content_stores [of c st f] stores_refl [of "{}" "view st" f] by auto
  then obtain X where X: "stores f X (view st) (view ?st)" by blast
  from stores_ids [OF X] Cons.prems Cons.IH [of ?st] obtain Y where
    Y: "stores f Y (view ?st) (view (finish_macroal f rest ?st))" by auto
  show ?case unfolding finish_macroal.simps using stores_trans [OF X Y] by blast
qed (auto intro: stores_refl)

lemma finish_inverse_stores:
  "ck_checkid ` set rest \<subseteq> ids (cs_Search (fst st)) \<Longrightarrow> \<exists>X. stores f X (view st) (view (fst (finish_inverse f rest st)))"
proof (induction rest arbitrary: st)
  case (Cons c rest)
  let ?st = "store_content (wantThis c False) c f st"
  let ?st' = "((fst ?st)\<lparr>cs_Status := insert (ck_checkid c) (cs_Status (fst ?st))\<rparr>, snd ?st)"
  from Cons.prems store_content_stores [of c st f "wantThis c False"]
  obtain X where X: "stores f X (view st) (view ?st)" by auto
  from stores_ids [OF X] Cons.prems Cons.IH [of ?st'] obtain Y where
    "stores f Y (view ?st) (view (fst (finish_inverse f rest ?st')))" by auto
  with X have "\<exists>X. stores f X (view st) (view (fst (finish_inverse f rest ?st')))" by (blast intro: stores_trans)
  with X Cons.IH [of st] Cons.prems show ?case by (auto simp: Let_def)
qed (auto intro: stores_refl)

lemma finish_matchall_stores:
  "ck_checkid ` set rest \<subseteq> ids (cs_Search (fst st)) \<Longrightarrow> \<exists>X. stores f X (view st) (view (finish_matchall f rest st))"
proof (induction rest arbitrary: st)
  case (Cons c rest)
  obtain cs hits where sc: "store_content (wantThis c (ck_checkid c \<in> cs_Status (fst st))) c f st = (cs, hits)" by fastforce
  let ?st' = "(cs\<lparr>cs_Search := (cs_Search cs)\<lparr>se_isactive := False\<rparr>\<rparr>, hits)"
  from Cons.prems store_content_stores [of c st f] obtain X where "stores f X (view st) (cs_Search cs, hits)"
    by (metis sc fst_conv snd_conv image_insert insert_subset list.simps(15))
  from stores_trans' [OF this stores_off] have X: "stores f X (view st) (view ?st')" by simp
  from stores_ids [OF X] Cons.prems Cons.IH [of ?st'] obtain Y where
    "stores f Y (view ?st') (view (finish_matchall f rest ?st'))" by auto
  with X have "\<exists>X. stores f X (view st) (view (finish_matchall f rest ?st'))" by (blast intro: stores_trans)
  with Cons.IH [of st] Cons.prems show ?case by (auto simp: Let_def sc)
qed (auto intro: stores_refl)

lemma content_finish_stores: "\<exists>X. stores f X (view st) (view (fst (content_finish f st)))"
proof -
  let ?s = "cs_Search (fst st)"
  have sub: "ck_checkid ` set (se_checks ?s) \<subseteq> ids ?s" by (simp add: ids_def)
  obtain st' e where inv: "finish_inverse f (se_checks ?s) st = (st', e)" by fastforce
  with finish_inverse_stores [OF sub, of f] obtain X where X: "stores f X (view st) (view st')" by (metis fst_conv)
  from stores_ids [OF X] sub finish_matchall_stores [of "se_checks ?s" st' f]
  obtain Y where "stores f Y (view st') (view (finish_matchall f (se_checks ?s) st'))" by auto
  with X have "\<exists>X. stores f X (view st) (view (finish_matchall f (se_checks ?s) st'))" by (blast intro: stores_trans)
  with X finish_macroal_stores [OF sub, of f] show ?thesis
    by (cases e) (auto simp: content_finish_def Let_def inv)
qed

section \<open>Counting hits\<close>

text \<open>What holds between the searches of a run at two moments: nothing but matches and switches changed.\<close>

definition same_params :: "search \<Rightarrow> search \<Rightarrow> bool" where
  "same_params s s' \<longleftrightarrow>
     map blank (se_checks s') = map blank (se_checks s) \<and> se_Options s' = se_Options s \<and>
     se_Paths s' = se_Paths s \<and> se_checkmask s' = se_checkmask s"

definition all_ok :: "(string \<times> search) list \<Rightarrow> bool" where
  "all_ok ss \<longleftrightarrow> (\<forall>p\<in>set ss. search_ok (snd p))"

definition total_hits :: "(string \<times> search) list \<Rightarrow> int" where
  "total_hits ss = sum_list (map (\<lambda>p. hit_count (snd p)) ss)"

definition counted :: "(string \<times> search) list \<Rightarrow> int \<Rightarrow> (string \<times> search) list \<Rightarrow> int \<Rightarrow> bool" where
  "counted ss h ss' h' \<longleftrightarrow>
     list_all2 (\<lambda>p p'. fst p' = fst p \<and> same_params (snd p) (snd p')) ss ss' \<and>
     (all_ok ss \<longrightarrow> all_ok ss' \<and> h' - h = total_hits ss' - total_hits ss)"

lemma same_params_refl [simp]: "same_params s s" by (simp add: same_params_def)

lemma same_search_params: "same_search s s' \<Longrightarrow> same_params s s'"
  by (simp add: same_search_def same_params_def)

lemma same_params_trans: "same_params s s' \<Longrightarrow> same_params s' s'' \<Longrightarrow> same_params s s''"
  by (simp add: same_params_def)

lemma counted_refl [simp]: "counted ss h ss h"
  by (simp add: counted_def list_all2_same)

lemma counted_trans:
  assumes "counted ss h ss' h'" and "counted ss' h' ss'' h''"
  shows "counted ss h ss'' h''"
proof -
  have "list_all2 (\<lambda>p p'. fst p' = fst p \<and> same_params (snd p) (snd p')) ss ss''"
    by (rule list_all2_trans [OF _ assms(1)[unfolded counted_def, THEN conjunct1] assms(2)[unfolded counted_def, THEN conjunct1]])
      (auto intro: same_params_trans)
  with assms show ?thesis by (auto simp: counted_def)
qed

lemma counted_Cons:
  assumes "stores f X (s, h) (s', h1)" and "counted ss h1 ss' h'"
  shows "counted ((l, s) # ss) h ((l, s') # ss') h'"
  using assms by (auto simp: counted_def stores_def all_ok_def total_hits_def intro: same_search_params)

text \<open>A change of every search that touches neither its parameters nor its matches.\<close>

lemma counted_map:
  assumes "\<And>l s. fst (g (l, s)) = l" and "\<And>l s. same_params s (snd (g (l, s)))"
    and "\<And>l s. search_ok s \<Longrightarrow> search_ok (snd (g (l, s)))" and "\<And>l s. hit_count (snd (g (l, s))) = hit_count s"
  shows "counted ss h (map g ss) h"
proof -
  have "list_all2 (\<lambda>p p'. fst p' = fst p \<and> same_params (snd p) (snd p')) ss (map g ss)"
    using assms(1,2) by (induction ss) auto
  moreover have "total_hits (map g ss) = total_hits ss"
    using assms(4) by (induction ss) (auto simp: total_hits_def)
  ultimately show ?thesis using assms(3) by (auto simp: counted_def all_ok_def)
qed

lemma each_search_counted:
  assumes "\<And>s h. \<exists>X. mask_ok s \<longrightarrow> stores f X (s, h) (g (s, h))" and "\<forall>p\<in>set ss. mask_ok (snd p)"
  shows "counted ss h (fst (each_search g ss h)) (snd (each_search g ss h))"
  using assms(2)
proof (induction ss arbitrary: h)
  case (Cons p ss)
  obtain l s where p: "p = (l, s)" by fastforce
  obtain s' h' where g: "g (s, h) = (s', h')" by fastforce
  from assms(1) [of s h] Cons.prems obtain X where "stores f X (s, h) (s', h')" by (auto simp: g p)
  with Cons.IH [of h'] Cons.prems show ?case by (auto simp: p g split: prod.splits intro: counted_Cons)
qed simp

definition view_list :: "(string \<times> content_state) list \<Rightarrow> (string \<times> search) list" where
  "view_list css = map (\<lambda>p. (fst p, cs_Search (snd p))) css"

lemma line_searches_counted:
  "line_searches f l css h = (css', h', has) \<Longrightarrow> counted (view_list css) h (view_list css') h'"
proof (induction css arbitrary: h css' h' has)
  case (Cons p css)
  obtain label cs where p: "p = (label, cs)" by fastforce
  obtain cs1 h1 has1 where l: "line_search f l ((cs, h), False) = ((cs1, h1), has1)" by (metis prod.exhaust)
  obtain css2 h2 has2 where rest: "line_searches f l css h1 = (css2, h2, has2)" by (metis prod.exhaust)
  from line_search_stores [of f "((cs, h), False)" l] obtain X where "stores f X (cs_Search cs, h) (cs_Search cs1, h1)"
    by (auto simp: l)
  from counted_Cons [OF this, of "view_list css" "view_list css2" h2 label] Cons.IH [OF rest] Cons.prems show ?case
    by (auto simp: p l rest view_list_def)
qed (auto simp: view_list_def)

lemma content_lines_counted:
  "content_lines f ls css h = (css', h') \<Longrightarrow> counted (view_list css) h (view_list css') h'"
proof (induction ls arbitrary: css h)
  case (Cons l ls)
  obtain css1 h1 has where l: "line_searches f l css h = (css1, h1, has)" by (metis prod.exhaust)
  from line_searches_counted [OF l] Cons show ?case by (auto simp: l split: if_splits intro: counted_trans)
qed simp

lemma content_finishes_counted:
  "content_finishes f css h = ((ss', h'), e) \<Longrightarrow> counted (view_list css) h ss' h'"
proof (induction css arbitrary: h ss' h' e)
  case (Cons p css)
  obtain label cs where p: "p = (label, cs)" by fastforce
  obtain cs1 h1 e1 where c: "content_finish f (cs, h) = ((cs1, h1), e1)" by (metis prod.exhaust)
  from content_finish_stores [of f "(cs, h)"] obtain X where X: "stores f X (cs_Search cs, h) (cs_Search cs1, h1)"
    by (auto simp: c)
  show ?case
  proof (cases e1)
    case None
    obtain ss2 h2 e2 where rest: "content_finishes f css h1 = ((ss2, h2), e2)" by (metis prod.exhaust)
    from counted_Cons [OF X Cons.IH [OF rest], of label] Cons.prems show ?thesis
      by (auto simp: p c None rest view_list_def)
  next
    case (Some e')
    from counted_Cons [OF X counted_refl [of "view_list css"], of label] Cons.prems show ?thesis
      by (auto simp: p c Some view_list_def case_prod_unfold)
  qed
qed (auto simp: view_list_def)

definition run_counted :: "file_run \<Rightarrow> file_run \<Rightarrow> bool" where
  "run_counted r r' \<longleftrightarrow> counted (fr_Searches r) (fr_Totalhits r) (fr_Searches r') (fr_Totalhits r')"

lemma run_counted_refl [simp]: "run_counted r r" by (simp add: run_counted_def)

lemma run_counted_trans: "run_counted r r' \<Longrightarrow> run_counted r' r'' \<Longrightarrow> run_counted r r''"
  by (auto simp: run_counted_def intro: counted_trans)

lemma run_counted_frame [simp]:
  "run_counted r (log_error n e r') = run_counted r r'" "run_counted r (count_open b r') = run_counted r r'"
  "run_counted r (add_error e r') = run_counted r r'" "run_counted r (fail_open e' r') = run_counted r r'"
  "run_counted r (r'\<lparr>fr_Filescount := n'\<rparr>) = run_counted r r'" "run_counted (r\<lparr>fr_Filescount := n'\<rparr>) r' = run_counted r r'"
  "run_counted r (r'\<lparr>fr_Errors := es\<rparr>) = run_counted r r'"
  by (auto simp: run_counted_def log_error_def count_open_def add_error_def fail_open_def split: option.splits)

lemma checkContent_counted: "run_counted r (checkContent fs dc f r)"
proof -
  let ?css = "map (\<lambda>(label, s). (label, content_start s)) (fr_Searches r)"
  have v: "view_list ?css = fr_Searches r" by (simp add: view_list_def content_start_def case_prod_unfold comp_def)
  have "run_counted r (r\<lparr>fr_Searches := ss, fr_Totalhits := h'\<rparr>)"
    if "content_lines f ls ?css (fr_Totalhits r) = (css, h)" "content_finishes f css h = ((ss, h'), e)" for ls css h ss h' e
    using counted_trans [OF content_lines_counted [OF that(1)] content_finishes_counted [OF that(2)]]
    by (simp add: v run_counted_def)
  then show ?thesis by (auto simp: checkContent_def Let_def split: prod.splits reader.splits)
qed

lemma hash_checks_stores:
  assumes "ck_checkid ` set cs \<subseteq> ids (fst st)"
  shows "\<exists>X. stores f X st (hash_checks f code h cs st)"
  using assms
proof (induction cs arbitrary: st)
  case (Cons c cs)
  let ?st = "if ck_code c AND code = 0 then st
    else if wantThis c (ck_value c = h) then processMatch (ck_checkid c) f st
    else if opt_MatchAll (se_Options (fst st)) then deactivate st else st"
  have "\<exists>X. stores f X st ?st"
  proof -
    have "\<exists>X. stores f X st (deactivate st)" by (rule exI [of _ "{}"]) simp
    then show ?thesis
      using Cons.prems processMatch_stores [of "ck_checkid c" st f] stores_refl [of "{}" st f] by auto
  qed
  then obtain X where X: "stores f X st ?st" by blast
  from stores_ids [OF X] Cons.prems Cons.IH [of ?st] obtain Y where Y: "stores f Y ?st (hash_checks f code h cs ?st)" by auto
  show ?case unfolding hash_checks.simps using stores_trans [OF X Y] by blast
qed (auto intro: stores_refl)

lemma hash_search_stores: "\<exists>X. stores f X st (hash_search f code h st)"
  using hash_checks_stores [of "se_checks (fst st)" st f code h] stores_refl [of "{}" st f]
  by (auto simp: hash_search_def ids_def)

definition masks_ok :: "file_run \<Rightarrow> bool" where
  "masks_ok r \<longleftrightarrow> (\<forall>p\<in>set (fr_Searches r). mask_ok (snd p))"

lemma mask_ok_params: "same_params s s' \<Longrightarrow> mask_ok s \<Longrightarrow> mask_ok s'"
proof -
  have *: "foldr (\<lambda>c m. ck_code c OR m) cs 0 = foldr (\<lambda>c m. ck_code c OR m) (map blank cs) 0" for cs
    by (induction cs) auto
  show "same_params s s' \<Longrightarrow> mask_ok s \<Longrightarrow> mask_ok s'"
    by (simp only: mask_ok_def * [of "se_checks s"] * [of "se_checks s'"] same_params_def)
qed

lemma masks_ok_counted: "run_counted r r' \<Longrightarrow> masks_ok r \<Longrightarrow> masks_ok r'"
  by (fastforce simp: run_counted_def counted_def masks_ok_def list_all2_conv_all_nth in_set_conv_nth
      intro: mask_ok_params)

lemma with_each_counted:
  assumes "\<And>s h. \<exists>X. mask_ok s \<longrightarrow> stores f X (s, h) (g (s, h))" and "masks_ok r"
  shows "run_counted r (with_each g r)"
  using each_search_counted [OF assms(1), of "fr_Searches r" "fr_Totalhits r"] assms(2)
  by (auto simp: run_counted_def with_each_def masks_ok_def split: prod.splits)

lemma checkHash_counted: "masks_ok r \<Longrightarrow> run_counted r (checkHash fs dc f code r)"
  using with_each_counted [of f "hash_search f code h" r for h] hash_search_stores [of f]
  by (auto simp: checkHash_def split: prod.splits sum.splits)

lemma hashes_counted: "masks_ok r \<Longrightarrow> run_counted r (foldl (\<lambda>r code. checkHash fs dc f code r) r codes)"
proof (induction codes arbitrary: r)
  case (Cons code codes)
  from checkHash_counted [OF Cons.prems] have "run_counted r (checkHash fs dc f code r)" .
  with Cons masks_ok_counted [OF this] show ?case by (auto intro: run_counted_trans)
qed simp

lemma reactivate_counted:
  assumes "run_counted r0 r" and "old = fr_Searches r0"
  shows "run_counted r (reactivate old r)"
proof -
  have len: "length old = length (fr_Searches r)"
    using assms by (auto simp: run_counted_def counted_def dest: list_all2_lengthD)
  let ?g = "\<lambda>(_, s) (label, s'). (label, if se_isactive s then s'\<lparr>se_isactive := True\<rparr> else s')"
  have ok: "search_ok (if b then s\<lparr>se_isactive := True\<rparr> else s) = search_ok s"
    "same_params s (if b then s\<lparr>se_isactive := True\<rparr> else s)"
    "hit_count (if b then s\<lparr>se_isactive := True\<rparr> else s) = hit_count s" for b s
    by (simp_all add: search_ok_def same_params_def hit_count_def)
  have "list_all2 (\<lambda>p p'. fst p' = fst p \<and> same_params (snd p) (snd p')) ss (map2 ?g os ss) \<and>
      total_hits (map2 ?g os ss) = total_hits ss \<and> all_ok (map2 ?g os ss) = all_ok ss"
    if "length os = length ss" for os ss :: "(string \<times> search) list"
    using that by (induction os ss rule: list_induct2) (auto simp: total_hits_def all_ok_def ok)
  from this [OF len] show ?thesis by (simp add: run_counted_def reactivate_def counted_def)
qed

lemma evaluateFile_counted:
  assumes "masks_ok r"
  shows "run_counted r (fst (evaluateFile fs dc f r))"
proof (cases "fs_Stat fs f")
  case (Inr fi)
  let ?r1 = "r\<lparr>fr_Filescount := fr_Filescount r + 1\<rparr>"
  let ?r2 = "with_each (check_metadata fi f) ?r1"
  let ?r3 = "checkContent fs dc f ?r2"
  let ?r4 = "foldl (\<lambda>r code. checkHash fs dc f code r) ?r3 hash_codes"
  have m1: "masks_ok ?r1" using assms by (simp add: masks_ok_def)
  have "\<exists>X. mask_ok s \<longrightarrow> stores f X (s, h) (check_metadata fi f (s, h))" for s h
    using check_metadata_stores [of "(s, h)" f fi] by auto
  then have 2: "run_counted ?r1 ?r2" using m1 by (rule with_each_counted)
  have 3: "run_counted ?r1 ?r3" using run_counted_trans [OF 2 checkContent_counted] .
  have 4: "run_counted ?r1 ?r4"
    using run_counted_trans [OF 3 hashes_counted [OF masks_ok_counted [OF 3 m1]]] .
  have "run_counted ?r1 (reactivate (fr_Searches r) ?r4)"
    using run_counted_trans [OF 4 reactivate_counted [OF 4]] by simp
  moreover have "run_counted r ?r1" by simp
  ultimately show ?thesis by (auto simp: evaluateFile_def Inr Let_def intro: run_counted_trans)
qed (simp add: evaluateFile_def Let_def)

lemma flags_counted:
  assumes "\<And>s. \<exists>b1 b2 d. g s = s\<lparr>se_isactive := b1, se_iscurrent := b2, se_currentdepth := d\<rparr>"
  shows "run_counted r (r\<lparr>fr_Searches := map (\<lambda>(label, s). (label, g s)) (fr_Searches r)\<rparr>)"
proof -
  have *: "same_params s (g s) \<and> (search_ok s \<longrightarrow> search_ok (g s)) \<and> hit_count (g s) = hit_count s" for s
    using assms [of s] by (auto simp: search_ok_def same_params_def hit_count_def)
  have "counted (fr_Searches r) (fr_Totalhits r) (map (\<lambda>p. (fst p, g (snd p))) (fr_Searches r)) (fr_Totalhits r)"
    using * by (intro counted_map) auto
  then show ?thesis by (simp add: run_counted_def case_prod_unfold)
qed

lemma enter_counted: "run_counted r (fst (enter path r))"
  unfolding enter_def fst_conv
proof (rule flags_counted)
  fix s :: search
  show "\<exists>b1 b2 d. fst (enter_search path (fr_Totalhits r) s) = s\<lparr>se_isactive := b1, se_iscurrent := b2, se_currentdepth := d\<rparr>"
    by (cases s) (auto simp: enter_search_def Let_def)
qed

lemma leave_counted: "run_counted r (leave r)"
  unfolding leave_def
proof (rule flags_counted)
  fix s :: search
  show "\<exists>b1 b2 d. (if se_iscurrent s then s\<lparr>se_currentdepth := se_currentdepth s - 1\<rparr> else s) =
      s\<lparr>se_isactive := b1, se_iscurrent := b2, se_currentdepth := d\<rparr>"
    by (cases s) auto
qed

lemma stop_counted: "run_counted r (stop_at_limit r)"
  unfolding stop_at_limit_def
proof (rule flags_counted)
  fix s :: search
  show "\<exists>b1 b2 d. (if opt_MatchLimit (se_Options s) \<le> fr_Totalhits r then s\<lparr>se_isactive := False\<rparr> else s) =
      s\<lparr>se_isactive := b1, se_iscurrent := b2, se_currentdepth := d\<rparr>"
    by (cases s) auto
qed

lemma reset_counted: "run_counted r (reset_searches r)"
  unfolding reset_searches_def
proof (rule flags_counted)
  fix s :: search
  show "\<exists>b1 b2 d. s\<lparr>se_isactive := False, se_currentdepth := 0\<rparr> =
      s\<lparr>se_isactive := b1, se_iscurrent := b2, se_currentdepth := d\<rparr>"
    by (cases s) auto
qed

lemma walk_files_counted: "masks_ok r \<Longrightarrow> run_counted r (walk_files fs dc path es r)"
proof (induction es arbitrary: r)
  case (Cons p es)
  obtain name n where p: "p = (name, n)" by fastforce
  let ?f = "with_slash path @ name"
  let ?r' = "case n of Directory _ \<Rightarrow> stop_at_limit r | Special \<Rightarrow> stop_at_limit r
    | Regular \<Rightarrow> evaluate fs dc ?f (stop_at_limit r)
    | Symlink \<Rightarrow> (case fs_Link fs ?f of Inl e \<Rightarrow> fail_open e (stop_at_limit r)
        | Inr (regular, _) \<Rightarrow> if regular then evaluate fs dc ?f (stop_at_limit r) else stop_at_limit r)"
  note stop = stop_counted [of r]
  have "run_counted (stop_at_limit r) (evaluate fs dc ?f (stop_at_limit r))"
    using evaluateFile_counted [OF masks_ok_counted [OF stop Cons.prems], of fs dc ?f]
    by (simp add: evaluate_def case_prod_unfold)
  then have "run_counted r ?r'"
    using stop run_counted_trans [OF stop] by (auto split: node.splits sum.splits)
  with Cons.IH [OF masks_ok_counted [OF this Cons.prems]] show ?case
    by (auto simp: p Let_def intro: run_counted_trans)
qed simp

lemma walk_leaf_counted:
  assumes "masks_ok r"
  shows "run_counted r (fst (walk_leaf fs dc path n r))"
proof -
  have "run_counted r (r\<lparr>fr_Errors := es\<rparr>)" "masks_ok (r\<lparr>fr_Errors := es\<rparr>)" for es
    using assms by (simp_all add: masks_ok_def)
  then have "run_counted r (fst (evaluateFile fs dc f (r\<lparr>fr_Errors := es\<rparr>)))" for f es
    using evaluateFile_counted run_counted_trans by blast
  then show ?thesis
    using evaluateFile_counted [OF assms]
    by (auto simp: walk_leaf_def Let_def case_prod_unfold split: sum.splits)
qed

lemma walk_counted:
  shows "masks_ok r \<Longrightarrow> run_counted r (fst (pathWalk fs dc roots path n r))"
    and "masks_ok (fst st) \<Longrightarrow> run_counted (fst st) (fst (walk_subdirs fs dc roots path es st))"
proof (induction fs dc roots path n r and fs dc roots path es st rule: pathWalk_walk_subdirs.induct)
  case (1 fs dc roots path n r)
  note e = enter_counted [of r path]
  have m: "masks_ok (fst (enter path r))" using masks_ok_counted [OF e 1(2)] .
  have l: "run_counted r (leave r')" if "run_counted (fst (enter path r)) r'" for r'
    using run_counted_trans [OF e run_counted_trans [OF that leave_counted]] .
  note w = walk_files_counted [OF m, of fs dc path]
  obtain r1 a where en: "enter path r = (r1, a)" by fastforce
  show ?case
  proof (cases "a \<and> fs_Open fs path = None \<and> (\<exists>es. n = Directory es) \<and> fs_Readdir fs path = None")
    case True
    then obtain es where n: "n = Directory es" by blast
    let ?st = "(walk_files fs dc path es r1, filter (\<lambda>p. p = path) roots, None)"
    have "run_counted (walk_files fs dc path es r1) (fst (walk_subdirs fs dc roots path es ?st))"
      using 1(1) [of "filter (\<lambda>p. p = path) roots"] en True n masks_ok_counted [OF w m] by auto
    with w [of es] have "run_counted r1 (fst (walk_subdirs fs dc roots path es ?st))"
      by (auto simp: en intro: run_counted_trans)
    with l show ?thesis using True by (auto simp: en n Let_def split: prod.splits)
  next
    case False
    have "run_counted r1 (r1\<lparr>fr_Errors := es\<rparr>)" for es by simp
    with l walk_leaf_counted [OF m, of fs dc path n] False show ?thesis
      by (auto simp: en Let_def split: prod.splits option.splits node.splits)
  qed
next
  case (3 fs dc roots path name n rest r t e)
  show ?case
  proof (cases "\<exists>es. n = Directory es")
    case True
    then obtain es where n: "n = Directory es" by blast
    obtain r' t' e' where w: "pathWalk fs dc roots (with_slash path @ name @ [slash]) n r = (r', t', e')"
      by (metis prod.exhaust)
    have 1: "run_counted r r'" using 3(2) [OF n] 3(6) w by simp
    have "masks_ok (add_error e' r')" using masks_ok_counted [OF 1] 3(6) by (cases e') (auto simp: add_error_def masks_ok_def)
    from 3(3) [OF n w [symmetric] refl] this have 2: "run_counted (add_error e' r') (fst (walk_subdirs fs dc roots path rest (add_error e' r', t', e')))"
      by simp
    have "run_counted r (add_error e' r')" using 1 by simp
    from run_counted_trans [OF this 2] show ?thesis using w by (simp add: n del: pathWalk.simps)
  next
    case False
    with 3 show ?thesis by (cases n) auto
  qed
qed simp

end
