(* ===== verification/FileRuns.thy ===== *)
theory FileRuns
  imports FileMatch
begin

text \<open>
  The properties of the file module: the checks that are built from valid parameters, the number of hits,
  what one search finds, and how searches that run together disturb each other.
\<close>

section \<open>The checks of a search\<close>

definition known_codes :: "check_type list" where
  "known_codes = [checkContent_code, checkName_code, checkSize_code, checkMode_code, checkMtime_code] @ hash_codes"

text \<open>A search as it is decoded, before its checks are built.\<close>

definition fresh_search :: "search \<Rightarrow> bool" where
  "fresh_search s \<longleftrightarrow> se_checks s = [] \<and> se_checkmask s = 0 \<and> se_filesMatchingAll s = []"

definition fresh_checks :: "search \<Rightarrow> bool" where
  "fresh_checks s \<longleftrightarrow>
     map ck_checkid (se_checks s) = map (\<lambda>i. int i + 1) [0..<length (se_checks s)] \<and> mask_ok s \<and>
     se_filesMatchingAll s = [] \<and>
     (\<forall>c\<in>set (se_checks s). ck_matchedfiles c = [] \<and> (ck_code c = 0 \<or> ck_code c \<in> set known_codes))"

definition builds :: "(search \<Rightarrow> string \<Rightarrow> check \<Rightarrow> check result) \<Rightarrow> bool" where
  "builds build \<longleftrightarrow>
     (\<forall>s v c c'. build s v c = Inr c' \<longrightarrow> ck_checkid c' = ck_checkid c \<and> ck_matchedfiles c' = ck_matchedfiles c \<and>
        (ck_code c' = 0 \<or> ck_code c' \<in> set known_codes))"

lemma builds_checks:
  "builds (regex_check compile checkContent_code ''content'')" "builds (regex_check compile checkName_code ''name'')"
  "builds size_check" "builds (mode_check compile)" "builds (mtime_check now)"
  "builds (hash_check (\<lambda>_. Some checkMD5) ''md5'')" "builds (hash_check (\<lambda>_. Some checkSHA1) ''sha1'')"
  "builds (hash_check sha2_code ''sha2'')" "builds (hash_check sha3_code ''sha3'')"
  by (auto simp: builds_def regex_check_def size_check_def mode_check_def mtime_check_def hash_check_def
      sha2_code_def sha3_code_def known_codes_def hash_codes_def and_then_eq_Inr)

lemma mask_append: "foldr (\<lambda>c m. ck_code c OR m) cs m = foldr (\<lambda>c m. ck_code c OR m) cs 0 OR m"
  by (induction cs) (auto simp: or.assoc)

lemma add_checks_fresh:
  assumes "builds build" and "fresh_checks s" and "add_checks build vs s = Inr s'"
  shows "fresh_checks s' \<and> length (se_checks s') = length (se_checks s) + length vs \<and> se_Options s' = se_Options s \<and>
    se_Paths s' = se_Paths s"
  using assms(2,3)
proof (induction vs arbitrary: s)
  case (Cons v vs)
  from Cons.prems(2) obtain c where c: "build s v (blank_check (int (length (se_checks s)) + 1)) = Inr c"
    and rest: "add_checks build vs (s\<lparr>se_checks := se_checks s @ [c], se_checkmask := se_checkmask s OR ck_code c\<rparr>) = Inr s'"
    by (auto simp: add_checks_def and_then_eq_Inr split: sum.splits)
  from assms(1) c have "ck_checkid c = int (length (se_checks s)) + 1" "ck_matchedfiles c = []"
    "ck_code c = 0 \<or> ck_code c \<in> set known_codes"
    by (auto simp: builds_def blank_check_def)
  with Cons.prems(1) have "fresh_checks (s\<lparr>se_checks := se_checks s @ [c], se_checkmask := se_checkmask s OR ck_code c\<rparr>)"
    by (auto simp: fresh_checks_def mask_ok_def mask_append [of _ "ck_code c"])
  from Cons.IH [OF this rest] show ?case by simp
qed (simp add: add_checks_def)

lemma makeChecks_fresh:
  assumes "fresh_search s" and "makeChecks compile now s = Inr s'"
  shows "fresh_checks s' \<and> se_Options s' = default_limits (se_Options s) \<and> se_Paths s' = se_Paths s \<and>
    length (se_checks s') = length (se_Contents s @ se_Names s @ se_Sizes s @ se_Modes s @ se_Mtimes s @ se_MD5 s @
      se_SHA1 s @ se_SHA2 s @ se_SHA3 s)"
proof -
  have 0: "fresh_checks (s\<lparr>se_Options := default_limits (se_Options s)\<rparr>)"
    using assms(1) by (simp add: fresh_search_def fresh_checks_def mask_ok_def)
  from assms(2) obtain s1 s2 s3 s4 s5 s6 s7 s8 where
    1: "add_checks (regex_check compile checkContent_code ''content'') (se_Contents s)
       (s\<lparr>se_Options := default_limits (se_Options s)\<rparr>) = Inr s1"
    and 2: "add_checks (regex_check compile checkName_code ''name'') (se_Names s) s1 = Inr s2"
    and 3: "add_checks size_check (se_Sizes s) s2 = Inr s3" and 4: "add_checks (mode_check compile) (se_Modes s) s3 = Inr s4"
    and 5: "add_checks (mtime_check now) (se_Mtimes s) s4 = Inr s5"
    and 6: "add_checks (hash_check (\<lambda>_. Some checkMD5) ''md5'') (se_MD5 s) s5 = Inr s6"
    and 7: "add_checks (hash_check (\<lambda>_. Some checkSHA1) ''sha1'') (se_SHA1 s) s6 = Inr s7"
    and 8: "add_checks (hash_check sha2_code ''sha2'') (se_SHA2 s) s7 = Inr s8"
    and 9: "add_checks (hash_check sha3_code ''sha3'') (se_SHA3 s) s8 = Inr s'"
    by (auto simp: makeChecks_def and_then_eq_Inr)
  note a1 = add_checks_fresh [OF builds_checks(1) 0 1]
  note a2 = add_checks_fresh [OF builds_checks(2) conjunct1 [OF a1] 2]
  note a3 = add_checks_fresh [OF builds_checks(3) conjunct1 [OF a2] 3]
  note a4 = add_checks_fresh [OF builds_checks(4) conjunct1 [OF a3] 4]
  note a5 = add_checks_fresh [OF builds_checks(5) conjunct1 [OF a4] 5]
  note a6 = add_checks_fresh [OF builds_checks(6) conjunct1 [OF a5] 6]
  note a7 = add_checks_fresh [OF builds_checks(7) conjunct1 [OF a6] 7]
  note a8 = add_checks_fresh [OF builds_checks(8) conjunct1 [OF a7] 8]
  note a9 = add_checks_fresh [OF builds_checks(9) conjunct1 [OF a8] 9]
  from a1 a2 a3 a4 a5 a6 a7 a8 a9 assms(1) show ?thesis by (simp add: fresh_search_def)
qed

section \<open>Hits\<close>

lemma fresh_ok:
  assumes "fresh_checks s"
  shows "search_ok s" and "mask_ok s" and "hit_count s = 0"
proof -
  have "distinct (map ck_checkid (se_checks s))"
  proof -
    have "distinct (map (\<lambda>i. int i + 1) [0..<length (se_checks s)])" by (simp add: distinct_map inj_on_def)
    with assms show ?thesis unfolding fresh_checks_def by (elim conjE) (simp only:)
  qed
  moreover have "se_checks s \<noteq> [] \<Longrightarrow> \<exists>c\<in>set (se_checks s). ck_matchedfiles c = []"
    using assms by (cases "se_checks s") (auto simp: fresh_checks_def)
  ultimately show "search_ok s" using assms by (auto simp: search_ok_def fresh_checks_def hasMatch_def)
  show "mask_ok s" using assms by (simp add: fresh_checks_def)
  have "map (\<lambda>c. int (length (ck_matchedfiles c))) (se_checks s) = map (\<lambda>c. 0) (se_checks s)"
    using assms by (intro map_cong) (auto simp: fresh_checks_def)
  then show "hit_count s = 0" using assms by (simp add: hit_count_def fresh_checks_def del: map_eq_conv)
qed

lemma setup_searches_fresh:
  assumes "setup_searches compile now ss = Inr (ss', roots)" and "\<forall>p\<in>set ss. fresh_search (snd p)"
  shows "\<forall>p\<in>set ss'. fresh_checks (snd p)"
proof -
  have "fold_res (setup_search compile now) (done, roots0) ss = Inr (ss', roots) \<Longrightarrow>
      \<forall>p\<in>set done. fresh_checks (snd p) \<Longrightarrow> \<forall>p\<in>set ss. fresh_search (snd p) \<Longrightarrow> \<forall>p\<in>set ss'. fresh_checks (snd p)"
    for "done" roots0
  proof (induction ss arbitrary: "done" roots0)
    case (Cons p ss)
    from Cons.prems(1) obtain s where s: "makeChecks compile now (snd p) = Inr s"
      and rest: "fold_res (setup_search compile now)
        (done @ [(fst p, s\<lparr>se_Paths := map Clean (se_Paths s)\<rparr>)], add_roots roots0 (map Clean (se_Paths s))) ss = Inr (ss', roots)"
    proof -
      obtain st where "setup_search compile now (done, roots0) p = Inr st" "fold_res (setup_search compile now) st ss = Inr (ss', roots)"
        using Cons.prems(1) by (auto split: sum.splits)
      then show thesis by (auto simp: setup_search_def and_then_eq_Inr Let_def intro: that)
    qed
    from makeChecks_fresh [OF _ s] Cons.prems(3) have "fresh_checks (s\<lparr>se_Paths := map Clean (se_Paths s)\<rparr>)"
      by (simp add: fresh_checks_def mask_ok_def)
    with Cons.IH [OF rest] Cons.prems(2,3) show ?case by simp
  qed simp
  from this [of "[]" "[]"] assms show ?thesis by (simp add: setup_searches_def)
qed

lemma walk_roots_counted: "masks_ok r \<Longrightarrow> run_counted r (walk_roots fs dc tree all trav roots r)"
proof (induction roots arbitrary: trav r)
  case (Cons root roots)
  note reset = reset_counted [of r]
  have m: "masks_ok (reset_searches r)" using masks_ok_counted [OF reset Cons.prems] .
  obtain r1 t e where w: "pathWalk fs dc all root (tree root) (reset_searches r) = (r1, t, e)" by (metis prod.exhaust)
  have r1: "run_counted r r1" using run_counted_trans [OF reset] walk_counted(1) [OF m, of fs dc all root "tree root"] w by simp
  have e: "masks_ok (add_error e' r1)" "run_counted r (add_error e' r1)" for e'
    using masks_ok_counted [OF r1 Cons.prems] r1 by (cases e'; simp add: add_error_def masks_ok_def)+
  show ?case
    using run_counted_trans [OF reset Cons.IH [OF m]] run_counted_trans [OF e(2) Cons.IH [OF e(1)]] w
    by (simp add: Let_def del: pathWalk.simps)
qed simp

text \<open>The files that a search reports.\<close>

definition reported :: "search \<Rightarrow> string \<Rightarrow> bool" where
  "reported s f \<longleftrightarrow>
     (if opt_MatchAll (se_Options s) then se_checks s \<noteq> [] \<and> (\<forall>c\<in>set (se_checks s). hasMatch c f)
      else (\<exists>c\<in>set (se_checks s). hasMatch c f))"

lemma sum_list_pos:
  fixes g :: "'a \<Rightarrow> int"
  assumes "\<forall>x\<in>set xs. 0 \<le> g x"
  shows "0 \<le> sum_list (map g xs) \<and> (0 < sum_list (map g xs) \<longleftrightarrow> (\<exists>x\<in>set xs. 0 < g x))"
  using assms by (induction xs) auto

lemma hit_count_pos:
  assumes "search_ok s"
  shows "0 \<le> hit_count s \<and> (0 < hit_count s \<longleftrightarrow> (\<exists>f. reported s f))"
proof (cases "opt_MatchAll (se_Options s)")
  case True
  then have "(\<exists>f. reported s f) \<longleftrightarrow> (\<exists>f. f \<in> set (se_filesMatchingAll s))" using assms by (simp add: reported_def search_ok_def)
  with True show ?thesis by (cases "se_filesMatchingAll s") (auto simp: hit_count_def)
next
  case False
  have "(\<exists>f. hasMatch c f) \<longleftrightarrow> 0 < int (length (ck_matchedfiles c))" for c
    by (cases "ck_matchedfiles c") (auto simp: hasMatch_def)
  with False sum_list_pos [of "se_checks s" "\<lambda>c. int (length (ck_matchedfiles c))"] show ?thesis
    by (simp add: hit_count_def reported_def) blast
qed

text \<open>
  C16. The number of hits is exact. However the searches, the files and the errors are, after a run the
  counter is the number of matches: for a search that wants all checks the files that matched every
  one of them, for another the files of each check, each counted once; something is found exactly
  when some search has a file to report.
\<close>

theorem hits_are_matches:
  assumes "setup_searches compile now ss = Inr (ss', roots)" and "\<forall>p\<in>set ss. fresh_search (snd p)"
    and "r = walk_roots fs dc tree roots [] roots (start_run ss')"
  shows "fr_Totalhits r = sum_list (map (\<lambda>p.
      if opt_MatchAll (se_Options (snd p)) then int (card {f. reported (snd p) f})
      else sum_list (map (\<lambda>c. int (card {f. hasMatch c f})) (se_checks (snd p)))) (fr_Searches r)) \<and>
    (0 < fr_Totalhits r \<longleftrightarrow> (\<exists>p\<in>set (fr_Searches r). \<exists>f. reported (snd p) f))"
proof -
  note fresh = setup_searches_fresh [OF assms(1,2)]
  have "masks_ok (start_run ss')" using fresh fresh_ok by (simp add: masks_ok_def start_run_def)
  from walk_roots_counted [OF this] have c: "counted ss' 0 (fr_Searches r) (fr_Totalhits r)"
    by (simp add: assms(3) run_counted_def start_run_def)
  have "all_ok ss'" using fresh fresh_ok by (simp add: all_ok_def)
  moreover have "total_hits ss' = 0"
    using fresh fresh_ok(3) by (induction ss') (auto simp: total_hits_def)
  ultimately have ok: "all_ok (fr_Searches r)" and t: "fr_Totalhits r = total_hits (fr_Searches r)"
    using c by (auto simp: counted_def)
  have one: "hit_count s = (if opt_MatchAll (se_Options s) then int (card {f. reported s f})
      else sum_list (map (\<lambda>c. int (card {f. hasMatch c f})) (se_checks s)))" if "search_ok s" for s
  proof (cases "opt_MatchAll (se_Options s)")
    case True
    then have "{f. reported s f} = set (se_filesMatchingAll s)" using that by (auto simp: reported_def search_ok_def)
    with True that show ?thesis by (simp add: hit_count_def search_ok_def distinct_card)
  next
    case False
    have "int (length (ck_matchedfiles c)) = int (card {f. hasMatch c f})" if "c \<in> set (se_checks s)" for c
      using that \<open>search_ok s\<close> by (simp add: hasMatch_def search_ok_def distinct_card)
    then have "map (\<lambda>c. int (length (ck_matchedfiles c))) (se_checks s) = map (\<lambda>c. int (card {f. hasMatch c f})) (se_checks s)"
      by simp
    with False show ?thesis by (simp add: hit_count_def del: map_eq_conv)
  qed
  have "map (\<lambda>p. hit_count (snd p)) (fr_Searches r) = map (\<lambda>p.
      if opt_MatchAll (se_Options (snd p)) then int (card {f. reported (snd p) f})
      else sum_list (map (\<lambda>c. int (card {f. hasMatch c f})) (se_checks (snd p)))) (fr_Searches r)"
    using ok one by (intro map_cong) (auto simp: all_ok_def)
  moreover have "0 < total_hits (fr_Searches r) \<longleftrightarrow> (\<exists>p\<in>set (fr_Searches r). \<exists>f. reported (snd p) f)"
    using sum_list_pos [of "fr_Searches r" "\<lambda>p. hit_count (snd p)"] hit_count_pos ok
    by (auto simp: total_hits_def all_ok_def)
  ultimately show ?thesis by (simp add: t total_hits_def del: map_eq_conv)
qed

section \<open>One search, one file\<close>

text \<open>A content check without inverse and mismatch; the other checks may have both.\<close>

definition plain :: "check \<Rightarrow> bool" where
  "plain c \<longleftrightarrow> (of_code checkContent_code c \<longrightarrow> \<not> ck_inversematch c \<and> \<not> ck_mismatch c)"

definition line_matches :: "string \<Rightarrow> check \<Rightarrow> bool" where
  "line_matches l c \<longleftrightarrow> of_code checkContent_code c \<and> ck_regex c l"

lemma plain_blank [simp]: "plain (blank c) = plain c" "line_matches l (blank c) = line_matches l c"
  by (simp_all add: plain_def line_matches_def blank_def of_code_def)

lemma line_check_plain:
  assumes "plain c" and "of_code checkContent_code c" and "\<not> opt_Macroal (se_Options (cs_Search (fst st)))"
  shows "line_check f l c st =
    (if ck_regex c l
     then ((fst (store_content True c f st))\<lparr>cs_Status := insert (ck_checkid c) (cs_Status (fst st))\<rparr>,
           snd (store_content True c f st))
     else st)"
  using assms by (cases st) (auto simp: line_check_def plain_def wantThis_def Let_def)

lemma line_checks_has: "line_checks f l rest (st, True) = (st', has') \<Longrightarrow> has'"
proof (induction rest arbitrary: st)
  case (Cons c rest)
  then show ?case by (cases st; cases "line_check f l c st") (auto split: if_splits)
qed simp

lemma line_checks_plain:
  assumes "\<forall>c\<in>set rest. plain c" and "\<not> opt_Macroal (se_Options (cs_Search (fst st)))"
    and "ck_checkid ` set rest \<subseteq> ids (cs_Search (fst st))" and "stores f (cs_Status (fst st)) st0 (view st)"
    and "line_checks f l rest (st, has) = (st', has')"
  shows "stores f (cs_Status (fst st')) st0 (view st') \<and>
    cs_Status (fst st') = cs_Status (fst st) \<union> those (line_matches l) rest \<and>
    se_isactive (cs_Search (fst st')) = se_isactive (cs_Search (fst st)) \<and> cs_Inited (fst st') = cs_Inited (fst st) \<and>
    same_search (cs_Search (fst st)) (cs_Search (fst st')) \<and>
    (\<not> has' \<longrightarrow> those (of_code checkContent_code) rest \<subseteq> cs_Status (fst st))"
  using assms
proof (induction rest arbitrary: st has)
  case (Cons c rest)
  show ?case
  proof (cases "of_code checkContent_code c \<and> ck_checkid c \<notin> cs_Status (fst st)")
    case False
    then have "line_checks f l rest (st, has) = (st', has')"
      using Cons.prems(2,5) by (auto simp: of_code_def)
    from Cons.IH [OF _ Cons.prems(2) _ Cons.prems(4) this] Cons.prems(1,3) False show ?thesis
      by (auto simp: line_matches_def)
  next
    case True
    let ?st = "line_check f l c st"
    note eq = line_check_plain [OF _ conjunct1 [OF True] Cons.prems(2), of f l]
    have c: "ck_checkid c \<in> ids (fst (view st))" using Cons.prems(3) by simp
    have one: "stores f (if ck_regex c l then {ck_checkid c} else {}) (view st) (view ?st)"
      using stores_if [OF c, of f True] Cons.prems(1) by (auto simp: eq stores_refl)
    have status: "cs_Status (fst ?st) = cs_Status (fst st) \<union> (if ck_regex c l then {ck_checkid c} else {})"
      "cs_Inited (fst ?st) = cs_Inited (fst st)"
      "se_isactive (cs_Search (fst ?st)) = se_isactive (cs_Search (fst st))"
      using Cons.prems(1) by (simp_all add: eq)
    from stores_same [OF one] have same: "same_search (cs_Search (fst st)) (cs_Search (fst ?st))" by simp
    have "line_checks f l rest (?st, True) = (st', has')"
      using True Cons.prems(2,5) by (simp add: of_code_def)
    moreover have "\<not> opt_Macroal (se_Options (cs_Search (fst ?st)))" using same Cons.prems(2) by (simp add: same_search_def)
    moreover have "ck_checkid ` set rest \<subseteq> ids (cs_Search (fst ?st))"
      using Cons.prems(3) same_search_ids_eq [OF same] by simp
    moreover have "stores f (cs_Status (fst ?st)) st0 (view ?st)"
      unfolding status(1) using stores_trans [OF Cons.prems(4) one] .
    moreover have "\<forall>c\<in>set rest. plain c" using Cons.prems(1) by simp
    ultimately have "stores f (cs_Status (fst st')) st0 (view st') \<and>
      cs_Status (fst st') = cs_Status (fst ?st) \<union> those (line_matches l) rest \<and>
      se_isactive (cs_Search (fst st')) = se_isactive (cs_Search (fst ?st)) \<and> cs_Inited (fst st') = cs_Inited (fst ?st) \<and>
      same_search (cs_Search (fst ?st)) (cs_Search (fst st')) \<and> has'"
      using Cons.IH [of ?st True] line_checks_has [of f l rest ?st st' has'] by blast
    moreover have "those (line_matches l) (c # rest) = (if ck_regex c l then {ck_checkid c} else {}) \<union> those (line_matches l) rest"
      using True by (simp add: line_matches_def)
    ultimately show ?thesis using status same_search_trans [OF same] by auto
  qed
qed auto

definition plain_search :: "search \<Rightarrow> bool" where
  "plain_search s \<longleftrightarrow> \<not> opt_Macroal (se_Options s) \<and> (\<forall>c\<in>set (se_checks s). plain c)"

lemma plain_search_same: "same_search s s' \<Longrightarrow> plain_search s \<Longrightarrow> plain_search s'"
  using all_blank [of s s' plain] by (simp add: plain_search_def) (simp add: same_search_def)

text \<open>The state of a plain search while the lines of a file are read.\<close>

definition reading :: "string \<Rightarrow> search \<times> int \<Rightarrow> content_state \<times> int \<Rightarrow> bool" where
  "reading f st0 st \<longleftrightarrow>
     stores f (cs_Status (fst st)) st0 (view st) \<and> se_isactive (cs_Search (fst st)) \<and> cs_Inited (fst st) \<and>
     plain_search (cs_Search (fst st)) \<and> mask_ok (cs_Search (fst st)) \<and> has_content (cs_Search (fst st))"

lemma has_content_iff: "has_content s \<longleftrightarrow> (\<exists>c\<in>set (se_checks s). of_code checkContent_code c)"
  by (simp add: has_content_def of_code_def list_ex_iff)

lemma has_content_same: "same_search s s' \<Longrightarrow> has_content s \<Longrightarrow> has_content s'"
  using all_blank [of s s' "\<lambda>c. \<not> of_code checkContent_code c"] by (auto simp: has_content_iff)

lemma line_search_plain:
  assumes "reading f st0 st" and "line_search f l (st, False) = (st', has)"
  shows "reading f st0 st' \<and> same_search (cs_Search (fst st)) (cs_Search (fst st')) \<and>
    cs_Status (fst st') = cs_Status (fst st) \<union> those (line_matches l) (se_checks (cs_Search (fst st))) \<and>
    (\<not> has \<longrightarrow> those (of_code checkContent_code) (se_checks (cs_Search (fst st))) \<subseteq> cs_Status (fst st))"
proof -
  obtain cs h where st: "st = (cs, h)" by fastforce
  let ?s = "cs_Search cs" and ?st = "(cs\<lparr>cs_Macroal := True\<rparr>, h)"
  from assms(1) have r: "stores f (cs_Status cs) st0 (?s, h)" "se_isactive ?s" "cs_Inited cs" "plain_search ?s" "mask_ok ?s"
    "has_content ?s" by (simp_all add: reading_def st)
  have m: "se_checkmask ?s AND checkContent_code \<noteq> 0" using r(5,6) mask_ok_code has_content_iff by blast
  obtain st1 has1 where lc: "line_checks f l (se_checks ?s) (?st, False) = (st1, has1)" by fastforce
  have a1: "\<forall>c\<in>set (se_checks ?s). plain c" and a2: "\<not> opt_Macroal (se_Options (cs_Search (fst ?st)))"
    using r(4) by (simp_all add: plain_search_def)
  have a3: "ck_checkid ` set (se_checks ?s) \<subseteq> ids (cs_Search (fst ?st))" by (simp add: ids_def)
  have a4: "stores f (cs_Status (fst ?st)) st0 (view ?st)" using r(1) by simp
  have st_eqs: "cs_Status (cs\<lparr>cs_Macroal := True\<rparr>) = cs_Status cs"
    "cs_Inited (cs\<lparr>cs_Macroal := True\<rparr>) = cs_Inited cs" "cs_Search (cs\<lparr>cs_Macroal := True\<rparr>) = ?s" by simp_all
  have big: "stores f (cs_Status (fst st1)) st0 (view st1) \<and>
    cs_Status (fst st1) = cs_Status cs \<union> those (line_matches l) (se_checks ?s) \<and>
    se_isactive (cs_Search (fst st1)) = se_isactive ?s \<and> cs_Inited (fst st1) = cs_Inited cs \<and>
    same_search ?s (cs_Search (fst st1)) \<and>
    (\<not> has1 \<longrightarrow> those (of_code checkContent_code) (se_checks ?s) \<subseteq> cs_Status cs)"
    by (rule line_checks_plain [OF a1 a2 a3 a4 lc, unfolded fst_conv st_eqs])
  then have res: "stores f (cs_Status (fst st1)) st0 (view st1)"
    "cs_Status (fst st1) = cs_Status cs \<union> those (line_matches l) (se_checks ?s)"
    "se_isactive (cs_Search (fst st1)) = se_isactive ?s" "cs_Inited (fst st1) = cs_Inited cs"
    "same_search ?s (cs_Search (fst st1))"
    "\<not> has1 \<longrightarrow> those (of_code checkContent_code) (se_checks ?s) \<subseteq> cs_Status cs" by blast+
  have "\<not> opt_Macroal (se_Options (cs_Search (fst st1)))"
    using plain_search_same [OF res(5) r(4)] by (simp add: plain_search_def)
  then have "line_search f l (st, False) = (st1, has1)" using r(2) m lc
    by (cases st1) (simp add: line_search_def st)
  with res r assms(2) plain_search_same [OF res(5)] mask_ok_same [OF res(5)] has_content_same [OF res(5)]
  show ?thesis by (simp add: st reading_def)
qed

lemma those_line_matches:
  assumes "same_search s s'"
  shows "those (\<lambda>c. \<exists>l\<in>set ls. line_matches l c) (se_checks s') = those (\<lambda>c. \<exists>l\<in>set ls. line_matches l c) (se_checks s)"
  by (rule those_blank [OF assms]) simp

lemma content_lines_plain:
  assumes "reading f st0 st"
  shows "\<exists>st'. content_lines f ls [(label, fst st)] (snd st) = ([(label, fst st')], snd st') \<and> reading f st0 st' \<and>
    same_search (cs_Search (fst st)) (cs_Search (fst st')) \<and>
    cs_Status (fst st') = cs_Status (fst st) \<union> those (\<lambda>c. \<exists>l\<in>set ls. line_matches l c) (se_checks (cs_Search (fst st)))"
  using assms
proof (induction ls arbitrary: st)
  case Nil
  then show ?case by (intro exI [of _ st]) (simp add: those_def)
next
  case (Cons l ls)
  obtain st1 has where ls1: "line_search f l (st, False) = (st1, has)" by fastforce
  then have eq: "line_searches f l [(label, fst st)] (snd st) = ([(label, fst st1)], snd st1, has)"
    by (simp split: prod.splits)
  note one = line_search_plain [OF Cons.prems ls1]
  let ?c = "se_checks (cs_Search (fst st))"
  have split: "those (\<lambda>c. \<exists>k\<in>set (l # ls). line_matches k c) ?c =
      those (line_matches l) ?c \<union> those (\<lambda>c. \<exists>k\<in>set ls. line_matches k c) ?c" by (auto simp: those_def)
  show ?case
  proof (cases has)
    case True
    from Cons.IH [OF conjunct1 [OF one]] obtain st2 where
      "content_lines f ls [(label, fst st1)] (snd st1) = ([(label, fst st2)], snd st2)" "reading f st0 st2"
      "same_search (cs_Search (fst st1)) (cs_Search (fst st2))"
      "cs_Status (fst st2) = cs_Status (fst st1) \<union> those (\<lambda>c. \<exists>l\<in>set ls. line_matches l c) (se_checks (cs_Search (fst st1)))"
      by blast
    with one True split show ?thesis
      by (intro exI [of _ st2]) (auto simp: eq those_line_matches simp del: line_searches.simps intro: same_search_trans)
  next
    case False
    with one have "those (of_code checkContent_code) ?c \<subseteq> cs_Status (fst st)" by blast
    moreover have "those (\<lambda>c. \<exists>k\<in>set ls. line_matches k c) ?c \<subseteq> those (of_code checkContent_code) ?c"
      by (auto simp: those_def line_matches_def)
    ultimately show ?thesis using one False split by (intro exI [of _ st1]) (auto simp: eq simp del: line_searches.simps)
  qed
qed

text \<open>After the last line, a plain search that misses a check is switched off; nothing more is stored.\<close>

lemma finish_inverse_plain:
  "\<forall>c\<in>set rest. plain c \<Longrightarrow> finish_inverse f rest st = (st, None)"
  by (induction rest) (auto simp: plain_def of_code_def)

lemma finish_matchall_plain:
  assumes "\<forall>c\<in>set rest. plain c"
  shows "\<exists>b. finish_matchall f rest st = ((fst st)\<lparr>cs_Search := (cs_Search (fst st))\<lparr>se_isactive := b\<rparr>\<rparr>, snd st) \<and>
    (b \<longleftrightarrow> se_isactive (cs_Search (fst st)) \<and> those (of_code checkContent_code) rest \<subseteq> cs_Status (fst st))"
  using assms
proof (induction rest arbitrary: st)
  case (Cons c rest)
  obtain cs h where st: "st = (cs, h)" by fastforce
  show ?case
  proof (cases "of_code checkContent_code c \<and> ck_checkid c \<notin> cs_Status cs")
    case True
    then have "\<not> wantThis c False" using Cons.prems by (auto simp: plain_def wantThis_def)
    then have sc: "store_content (wantThis c False) c f st = st" by (simp add: store_content_def store_if_def st)
    from Cons.IH [of "(cs\<lparr>cs_Search := (cs_Search cs)\<lparr>se_isactive := False\<rparr>\<rparr>, h)"] Cons.prems True sc show ?thesis
      by (auto simp: st of_code_def Let_def)
  next
    case False
    then have "finish_matchall f (c # rest) st = finish_matchall f rest st"
      using Cons.prems by (auto simp: st plain_def of_code_def Let_def)
    with Cons False show ?thesis by (auto simp: st)
  qed
qed (auto intro!: exI)

definition content_test :: "string \<Rightarrow> check_type \<times> (check \<Rightarrow> bool)" where
  "content_test bytes = (checkContent_code, \<lambda>c. list_ex (ck_regex c) (scan_lines bytes))"

definition hash_test :: "file_system \<Rightarrow> string \<Rightarrow> check_type \<Rightarrow> check_type \<times> (check \<Rightarrow> bool)" where
  "hash_test fs bytes code = (code, \<lambda>c. ck_value c = fs_Hash fs code bytes)"

lemma plain_wanted:
  "plain c \<Longrightarrow> (\<exists>l\<in>set (scan_lines bytes). line_matches l c) \<longleftrightarrow> wanted_by [content_test bytes] c"
  by (auto simp: plain_def line_matches_def content_test_def wanted_by_def wantThis_def list_ex_iff)

lemma those_cong: "(\<And>c. c \<in> set cs \<Longrightarrow> P c = Q c) \<Longrightarrow> those P cs = those Q cs"
  by (auto simp: those_def)

text \<open>\<open>one_search r label s\<close>: the run has a single search.\<close>

definition one_search :: "file_run \<Rightarrow> string \<Rightarrow> search \<Rightarrow> bool" where
  "one_search r label s \<longleftrightarrow> fr_Searches r = [(label, s)]"

text \<open>
  What a stage of the inspection does with a single search and a file: it stores wanted checks only, and
  all of them, with the search left on, when none is refused.
\<close>

definition stage :: "(check_type \<times> (check \<Rightarrow> bool)) list \<Rightarrow> string \<Rightarrow> string \<Rightarrow> search \<Rightarrow> file_run \<Rightarrow> file_run \<Rightarrow> bool" where
  "stage tests f label s r r' \<longleftrightarrow>
     (\<exists>X s'. one_search r' label s' \<and> stores f X (s, fr_Totalhits r) (s', fr_Totalhits r') \<and>
        fr_Errors r' = fr_Errors r \<and> fr_Openfailed r' = fr_Openfailed r \<and> fr_Filescount r' = fr_Filescount r \<and>
        X \<subseteq> those (wanted_by tests) (se_checks s) \<and>
        (se_isactive s \<and> (\<forall>c\<in>set (se_checks s). \<not> refused_by tests c) \<longrightarrow>
           X = those (wanted_by tests) (se_checks s) \<and> se_isactive s'))"

lemma wanted_by_append [simp]:
  "wanted_by (ts @ us) c \<longleftrightarrow> wanted_by ts c \<or> wanted_by us c"
  "refused_by (ts @ us) c \<longleftrightarrow> refused_by ts c \<or> refused_by us c"
  by (auto simp: wanted_by_def refused_by_def)

lemma stage_trans:
  assumes "stage ts f label s r r'" and "steady us"
    and "\<And>s'. one_search r' label s' \<Longrightarrow> same_search s s' \<Longrightarrow> stage us f label s' r' r''"
  shows "stage (ts @ us) f label s r r''"
proof -
  from assms(1) obtain X s' where 1: "one_search r' label s'" "stores f X (s, fr_Totalhits r) (s', fr_Totalhits r')"
    "fr_Errors r' = fr_Errors r" "fr_Openfailed r' = fr_Openfailed r" "fr_Filescount r' = fr_Filescount r"
    "X \<subseteq> those (wanted_by ts) (se_checks s)"
    "se_isactive s \<and> (\<forall>c\<in>set (se_checks s). \<not> refused_by ts c) \<longrightarrow>
       X = those (wanted_by ts) (se_checks s) \<and> se_isactive s'"
    unfolding stage_def by blast
  have same: "same_search s s'" using stores_same [OF 1(2)] by simp
  from assms(3) [OF 1(1) same] obtain Y s'' where 2: "one_search r'' label s''"
    "stores f Y (s', fr_Totalhits r') (s'', fr_Totalhits r'')"
    "fr_Errors r'' = fr_Errors r'" "fr_Openfailed r'' = fr_Openfailed r'" "fr_Filescount r'' = fr_Filescount r'"
    "Y \<subseteq> those (wanted_by us) (se_checks s')"
    "se_isactive s' \<and> (\<forall>c\<in>set (se_checks s'). \<not> refused_by us c) \<longrightarrow>
       Y = those (wanted_by us) (se_checks s') \<and> se_isactive s''"
    unfolding stage_def by blast
  have w: "those (wanted_by us) (se_checks s') = those (wanted_by us) (se_checks s)"
    and r: "(\<forall>c\<in>set (se_checks s'). \<not> refused_by us c) \<longleftrightarrow> (\<forall>c\<in>set (se_checks s). \<not> refused_by us c)"
    using those_blank [OF same, of "wanted_by us"] all_blank [OF same, of "\<lambda>c. \<not> refused_by us c"]
      steady_blank [OF assms(2)] by simp_all
  have u: "those (wanted_by (ts @ us)) (se_checks s) =
      those (wanted_by ts) (se_checks s) \<union> those (wanted_by us) (se_checks s)" by (auto simp: those_def)
  have "X \<union> Y \<subseteq> those (wanted_by (ts @ us)) (se_checks s)" using 1(6) 2(6) u w by blast
  moreover have "se_isactive s \<and> (\<forall>c\<in>set (se_checks s). \<not> refused_by (ts @ us) c) \<longrightarrow>
      X \<union> Y = those (wanted_by (ts @ us)) (se_checks s) \<and> se_isactive s''"
    using 1(7) 2(7) u w r by auto
  ultimately show ?thesis
    unfolding stage_def using stores_trans [OF 1(2) 2(2)] 1(3-5) 2(1,3-5)
    by (intro exI [of _ "X \<union> Y"] exI [of _ s'']) simp
qed

lemma stage_metadata:
  assumes "one_search r label s" and "mask_ok s"
  shows "stage (metadata_tests fi) f label s r (with_each (check_metadata fi f) r)"
proof -
  obtain s' h' where c: "check_metadata fi f (s, fr_Totalhits r) = (s', h')" by fastforce
  from check_metadata_stores [of "(s, fr_Totalhits r)" f fi] assms(2) show ?thesis
    using assms(1) by (auto simp: stage_def with_each_def one_search_def c)
qed

lemma stage_content:
  assumes "one_search r label s" and "mask_ok s" and "plain_search s" and "getReader fs dc f = (Reader (Inr bytes), b)"
  shows "stage [content_test bytes] f label s r (checkContent fs dc f r)"
proof (cases "se_isactive s \<and> has_content s")
  case False
  have none: "those (wanted_by [content_test bytes]) (se_checks s) = {}" if "\<not> has_content s"
    using that by (auto simp: those_def has_content_iff content_test_def wanted_by_def)
  have "checkContent fs dc f r = r" using assms(1) False by (auto simp: checkContent_def one_search_def)
  then show ?thesis using assms(1) False none by (auto simp: stage_def intro!: exI [of _ "{}"] exI [of _ s] stores_refl)
next
  case True
  let ?start = "(s, fr_Totalhits r)" and ?ls = "scan_lines bytes"
  let ?from = "(content_start s, fr_Totalhits r)"
  let ?W = "those (wanted_by [content_test bytes]) (se_checks s)"
  have "reading f ?start ?from"
    using True assms(2,3) by (simp add: reading_def content_start_def stores_refl)
  from content_lines_plain [OF this, of ?ls label] obtain st1 where
    lines: "content_lines f ?ls [(label, content_start s)] (fr_Totalhits r) = ([(label, fst st1)], snd st1)"
    and r1: "reading f ?start st1" and same: "same_search s (cs_Search (fst st1))"
    and status: "cs_Status (fst st1) = those (\<lambda>c. \<exists>l\<in>set ?ls. line_matches l c) (se_checks s)"
    by (auto simp: content_start_def)
  have W: "cs_Status (fst st1) = ?W" unfolding status
    using assms(3) by (intro those_cong plain_wanted) (auto simp: plain_search_def)
  have p1: "\<forall>c\<in>set (se_checks (cs_Search (fst st1))). plain c" "\<not> opt_Macroal (se_Options (cs_Search (fst st1)))"
    using r1 by (simp_all add: reading_def plain_search_def)
  from finish_matchall_plain [OF p1(1), of f st1] obtain b1 where
    fin: "finish_matchall f (se_checks (cs_Search (fst st1))) st1 =
      ((fst st1)\<lparr>cs_Search := (cs_Search (fst st1))\<lparr>se_isactive := b1\<rparr>\<rparr>, snd st1)"
    and b1: "b1 \<longleftrightarrow> se_isactive (cs_Search (fst st1)) \<and>
      those (of_code checkContent_code) (se_checks (cs_Search (fst st1))) \<subseteq> cs_Status (fst st1)" by blast
  have m: "se_checkmask (cs_Search (fst st1)) AND checkContent_code \<noteq> 0" "se_isactive (cs_Search (fst st1))"
    using r1 mask_ok_code has_content_iff unfolding reading_def by blast+
  have id: "cs\<lparr>cs_Search := cs_Search cs\<rparr> = cs" "q\<lparr>se_isactive := se_isactive q\<rparr> = q" for cs :: content_state and q :: search
    by (cases cs, simp) (cases q, simp)
  have "content_finish f st1 =
      (if opt_MatchAll (se_Options (cs_Search (fst st1)))
       then ((fst st1)\<lparr>cs_Search := (cs_Search (fst st1))\<lparr>se_isactive := b1\<rparr>\<rparr>, snd st1) else st1, None)"
    using fin p1(2) m finish_inverse_plain [OF p1(1), of f st1] by (simp add: content_finish_def Let_def)
  moreover have "(fst st1)\<lparr>cs_Search := (cs_Search (fst st1))\<lparr>se_isactive := True\<rparr>\<rparr> = fst st1"
    using id(2) [of "cs_Search (fst st1)"] id(1) [of "fst st1"] m(2) by simp
  ultimately have "content_finish f st1 = (((fst st1)\<lparr>cs_Search := (cs_Search (fst st1))\<lparr>se_isactive := b2\<rparr>\<rparr>, snd st1), None)"
    if "b2 = (if opt_MatchAll (se_Options (cs_Search (fst st1))) then b1 else True)" for b2
    using that by simp
  then have "\<exists>s2. content_finish f st1 = (((fst st1)\<lparr>cs_Search := s2\<rparr>, snd st1), None) \<and>
      (\<exists>b. s2 = (cs_Search (fst st1))\<lparr>se_isactive := b\<rparr>) \<and> (b1 \<longrightarrow> se_isactive s2)"
    by (intro exI [of _ "(cs_Search (fst st1))\<lparr>se_isactive :=
          (if opt_MatchAll (se_Options (cs_Search (fst st1))) then b1 else True)\<rparr>"]) auto
  then obtain s2 b2 where s2: "content_finish f st1 = (((fst st1)\<lparr>cs_Search := s2\<rparr>, snd st1), None)"
    "s2 = (cs_Search (fst st1))\<lparr>se_isactive := b2\<rparr>" "b1 \<longrightarrow> se_isactive s2" by blast
  have eq: "checkContent fs dc f r = r\<lparr>fr_Searches := [(label, s2)], fr_Totalhits := snd st1\<rparr>"
    using True assms(1,4) lines s2(1) by (simp add: checkContent_def one_search_def log_error_def Let_def)
  have "stores f ?W ?start (view st1)" using r1 W by (simp add: reading_def)
  from stores_trans' [OF this, of "(s2, snd st1)"] have st: "stores f ?W ?start (s2, snd st1)" by (simp add: s2(2))
  have "se_isactive s2" if "\<forall>c\<in>set (se_checks s). \<not> refused_by [content_test bytes] c"
  proof -
    have "those (of_code checkContent_code) (se_checks (cs_Search (fst st1))) = those (of_code checkContent_code) (se_checks s)"
      by (rule those_blank [OF same]) simp
    moreover have "those (of_code checkContent_code) (se_checks s) \<subseteq> ?W"
      using that by (auto simp: those_def refused_by_def wanted_by_def content_test_def)
    ultimately show ?thesis using b1 s2(3) r1 W by (simp add: reading_def)
  qed
  with st show ?thesis by (auto simp: stage_def eq one_search_def intro!: exI [of _ ?W])
qed

lemma hash_checks_exact:
  assumes "ck_checkid ` set cs \<subseteq> ids (fst st)"
  shows "stores f (those (wanted_by [(code, \<lambda>c. ck_value c = h)]) cs) st (hash_checks f code h cs st) \<and>
    ((\<forall>c\<in>set cs. \<not> refused_by [(code, \<lambda>c. ck_value c = h)] c) \<longrightarrow>
       se_isactive (fst (hash_checks f code h cs st)) = se_isactive (fst st))"
  using assms
proof (induction cs arbitrary: st)
  case (Cons c cs)
  let ?test = "[(code, \<lambda>c. ck_value c = h)]"
  define nx where "nx = (if ck_code c AND code = 0 then st
    else if wantThis c (ck_value c = h) then processMatch (ck_checkid c) f st
    else if opt_MatchAll (se_Options (fst st)) then deactivate st else st)"
  have one: "stores f (if wanted_by ?test c then {ck_checkid c} else {}) st nx"
    "\<not> refused_by ?test c \<Longrightarrow> se_isactive (fst nx) = se_isactive (fst st)"
    using Cons.prems processMatch_stores [of "ck_checkid c" st f]
    by (auto simp: wanted_by_def refused_by_def of_code_def stores_refl nx_def)
  from stores_ids [OF one(1)] Cons.prems have "ck_checkid ` set cs \<subseteq> ids (fst nx)" by simp
  note ih = Cons.IH [OF this]
  have eq: "hash_checks f code h (c # cs) st = hash_checks f code h cs nx" by (simp add: nx_def)
  show ?case unfolding eq those_simps(2)
  proof (intro conjI impI)
    show "stores f ((if wanted_by ?test c then {ck_checkid c} else {}) \<union> those (wanted_by ?test) cs) st (hash_checks f code h cs nx)"
      by (rule stores_trans [OF one(1) conjunct1 [OF ih]])
    assume "\<forall>c\<in>set (c # cs). \<not> refused_by ?test c"
    then have "\<not> refused_by ?test c" "\<forall>c\<in>set cs. \<not> refused_by ?test c" by (meson list.set_intros)+
    with one(2) conjunct2 [OF ih] show "se_isactive (fst (hash_checks f code h cs nx)) = se_isactive (fst st)" by metis
  qed
qed (simp add: stores_refl)

lemma steady_hash: "steady (map (hash_test fs bytes) codes)"
  by (auto simp: steady_def hash_test_def blank_def)

lemma steady_content: "steady [content_test bytes]"
  by (simp add: steady_def content_test_def blank_def)

lemma stage_hash:
  assumes "one_search r label s" and "mask_ok s" and "getReader fs dc f = (Reader (Inr bytes), b)"
  shows "stage [hash_test fs bytes code] f label s r (checkHash fs dc f code r)"
proof (cases "hash_applies code s")
  case False
  have none: "those (wanted_by [hash_test fs bytes code]) (se_checks s) = {}" if "se_isactive s"
  proof -
    have "\<not> (\<exists>c\<in>set (se_checks s). of_code code c)"
      using False that mask_ok_code [OF assms(2), of code] by (simp add: hash_applies_def)
    then show ?thesis by (auto simp: those_def hash_test_def wanted_by_def)
  qed
  have "checkHash fs dc f code r = r" using assms(1) False by (auto simp: checkHash_def one_search_def)
  then show ?thesis using assms(1) none by (auto simp: stage_def intro!: exI [of _ "{}"] exI [of _ s] stores_refl)
next
  case True
  let ?h = "fs_Hash fs code bytes"
  obtain s' h' where hc: "hash_checks f code ?h (se_checks s) (s, fr_Totalhits r) = (s', h')" by fastforce
  have "checkHash fs dc f code r = r\<lparr>fr_Searches := [(label, s')], fr_Totalhits := h'\<rparr>"
    using assms(1,3) True hc by (simp add: checkHash_def one_search_def getHash_def with_each_def hash_search_def)
  with hash_checks_exact [of "se_checks s" "(s, fr_Totalhits r)" f code ?h] hc show ?thesis
    by (auto simp: stage_def one_search_def ids_def hash_test_def
        intro!: exI [of _ "those (wanted_by [(code, \<lambda>c. ck_value c = ?h)]) (se_checks s)"])
qed

lemma stage_hashes:
  assumes "one_search r label s" and "mask_ok s" and "getReader fs dc f = (Reader (Inr bytes), b)"
  shows "stage (map (hash_test fs bytes) codes) f label s r (foldl (\<lambda>r code. checkHash fs dc f code r) r codes)"
  using assms(1,2)
proof (induction codes arbitrary: r s)
  case Nil
  then show ?case by (auto simp: stage_def intro!: exI [of _ "{}"] exI [of _ s] stores_refl)
next
  case (Cons code codes)
  from stage_trans [OF stage_hash [OF Cons.prems assms(3)] steady_hash Cons.IH [OF _ mask_ok_same [OF _ Cons.prems(2)]]]
  show ?case by simp
qed

text \<open>
  The tests of a file, and the files that a search wants: each check is of a known kind and wants what
  its test says, with inverse and mismatch.
\<close>

definition file_tests :: "file_system \<Rightarrow> file_info \<Rightarrow> string \<Rightarrow> (check_type \<times> (check \<Rightarrow> bool)) list" where
  "file_tests fs fi bytes = metadata_tests fi @ [content_test bytes] @ map (hash_test fs bytes) hash_codes"

definition codes_ok :: "search \<Rightarrow> bool" where
  "codes_ok s \<longleftrightarrow> (\<forall>c\<in>set (se_checks s). ck_code c = 0 \<or> ck_code c \<in> set known_codes)"

lemma check_bit_and:
  assumes "i < 14" "j < 14"
  shows "check_bit i AND check_bit j \<noteq> 0 \<longleftrightarrow> i = j"
proof
  assume "check_bit i AND check_bit j \<noteq> 0"
  then obtain n where "bit (check_bit i AND check_bit j) n" using bit_eq_iff [of "check_bit i AND check_bit j" 0] by auto
  with assms show "i = j" by (auto simp: check_bit_def bit_and_iff bit_exp_iff)
next
  assume "i = j"
  have "bit (check_bit j) (63 - j)" using assms(2) by (simp add: check_bit_def bit_exp_iff)
  then show "check_bit i AND check_bit j \<noteq> 0" using \<open>i = j\<close> by (metis and.idem bit_0_eq bot_apply bot_bool_def)
qed

lemma known_codes_eq: "known_codes = map check_bit [0, 1, 2, 3, 4, 5, 6, 7, 8, 9, 10, 11, 12, 13]"
  by (simp add: known_codes_def hash_codes_def check_codes)

lemma known_code: "code \<in> set known_codes \<Longrightarrow> \<exists>j<14. code = check_bit j"
proof -
  assume "code \<in> set known_codes"
  then have "code \<in> check_bit ` set [0, 1, 2, 3, 4, 5, 6, 7, 8, 9, 10, 11, 12, 13]"
    by (simp only: known_codes_eq set_map)
  then obtain j where "code = check_bit j" "j \<in> set [0, 1, 2, 3, 4, 5, 6, 7, 8, 9, 10, 11, 12, 13]" by (rule imageE)
  moreover from this(2) have "j < 14" by auto
  ultimately show ?thesis by blast
qed

lemma of_code_known:
  assumes "ck_code c = 0 \<or> ck_code c \<in> set known_codes" and "code \<in> set known_codes"
  shows "of_code code c \<longleftrightarrow> ck_code c = code"
proof -
  from assms(2) obtain j where j: "j < 14" "code = check_bit j" by (auto dest: known_code)
  have nz: "check_bit j \<noteq> 0" using check_bit_and [OF j(1) j(1)] by auto
  from assms(1) show ?thesis
  proof
    assume "ck_code c = 0"
    with nz j show ?thesis by (simp add: of_code_def)
  next
    assume "ck_code c \<in> set known_codes"
    then obtain i where i: "i < 14" "ck_code c = check_bit i" by (auto dest: known_code)
    have "check_bit i = check_bit j \<longleftrightarrow> i = j" using check_bit_and [OF i(1) j(1)] check_bit_and [OF i(1) i(1)] by auto
    with i j check_bit_and [OF i(1) j(1)] show ?thesis by (simp add: of_code_def)
  qed
qed

lemma file_tests_codes: "map fst (file_tests fs fi bytes) = [checkName_code, checkMode_code, checkSize_code,
    checkMtime_code, checkContent_code] @ hash_codes"
  by (simp add: file_tests_def metadata_tests_def content_test_def hash_test_def comp_def)

lemma distinct_codes: "distinct (map fst (file_tests fs fi bytes))"
proof -
  have inj: "inj_on check_bit {0..<14}"
    using check_bit_and by (auto simp: inj_on_def) (metis and.idem)
  have "map fst (file_tests fs fi bytes) = map check_bit [1, 3, 2, 4, 0, 5, 6, 7, 8, 9, 10, 11, 12, 13]"
    by (simp add: file_tests_codes hash_codes_def check_codes)
  moreover have "distinct (map check_bit [1, 3, 2, 4, 0, 5, 6, 7, 8, 9, 10, 11, 12, 13])"
    unfolding distinct_map by (intro conjI inj_on_subset [OF inj]) auto
  ultimately show ?thesis by metis
qed

lemma wanted_not_refused:
  assumes "ck_code c = 0 \<or> ck_code c \<in> set known_codes" and "wanted_by (file_tests fs fi bytes) c"
  shows "\<not> refused_by (file_tests fs fi bytes) c"
proof
  let ?ts = "file_tests fs fi bytes"
  have known: "fst t \<in> set known_codes" if "t \<in> set ?ts" for t
  proof -
    have "fst t \<in> set (map fst ?ts)" using that by simp
    then show ?thesis unfolding file_tests_codes by (auto simp: known_codes_def)
  qed
  assume "refused_by ?ts c"
  with assms(2) obtain t u where t: "t \<in> set ?ts" "of_code (fst t) c" "wantThis c (snd t c)"
    and u: "u \<in> set ?ts" "of_code (fst u) c" "\<not> wantThis c (snd u c)"
    by (auto simp: wanted_by_def refused_by_def)
  then have "fst t = fst u" using of_code_known [OF assms(1) known] by metis
  with distinct_codes [of fs fi bytes] t(1) u(1) have "t = u" by (metis distinct_map inj_onD)
  with t u show False by simp
qed

text \<open>A search as the exact results need it: it wants all of its checks, of which there are some, in plain form.\<close>

definition good_search :: "search \<Rightarrow> bool" where
  "good_search s \<longleftrightarrow> opt_MatchAll (se_Options s) \<and> plain_search s \<and> mask_ok s \<and> codes_ok s \<and> se_checks s \<noteq> []"

definition readable :: "file_system \<Rightarrow> bool \<Rightarrow> string \<Rightarrow> file_info \<Rightarrow> string \<Rightarrow> bool" where
  "readable fs dc f fi bytes \<longleftrightarrow> fs_Stat fs f = Inr fi \<and> getReader fs dc f = (Reader (Inr bytes), False)"

definition satisfies :: "file_system \<Rightarrow> bool \<Rightarrow> search \<Rightarrow> string \<Rightarrow> bool" where
  "satisfies fs dc s f \<longleftrightarrow>
     (\<exists>fi bytes. readable fs dc f fi bytes \<and> (\<forall>c\<in>set (se_checks s). wanted_by (file_tests fs fi bytes) c))"

lemma satisfies_readable:
  "readable fs dc f fi bytes \<Longrightarrow> satisfies fs dc s f \<longleftrightarrow> (\<forall>c\<in>set (se_checks s). wanted_by (file_tests fs fi bytes) c)"
  by (auto simp: satisfies_def readable_def)

lemma steady_file_tests: "steady (file_tests fs fi bytes)"
  using steady_metadata [of fi] steady_content [of bytes] steady_hash [of fs bytes hash_codes]
  by (auto simp: steady_def file_tests_def)

lemma satisfies_same:
  assumes "same_params s s'"
  shows "satisfies fs dc s' f = satisfies fs dc s f"
proof -
  have *: "(\<forall>c\<in>set (se_checks t). wanted_by ts c) \<longleftrightarrow> (\<forall>c\<in>set (map blank (se_checks t)). wanted_by ts c)" if "steady ts" for ts t
    using steady_blank [OF that] by simp
  show ?thesis unfolding satisfies_def * [OF steady_file_tests] using assms by (simp only: same_params_def)
qed

lemma those_all: "those P (se_checks s) = ids s \<longleftrightarrow> (\<forall>c\<in>set (se_checks s). P c)" if "distinct (map ck_checkid (se_checks s))"
proof
  assume eq: "those P (se_checks s) = ids s"
  show "\<forall>c\<in>set (se_checks s). P c"
  proof
    fix c assume c: "c \<in> set (se_checks s)"
    then have "ck_checkid c \<in> those P (se_checks s)" using eq by (simp add: ids_def)
    then obtain d where d: "d \<in> set (se_checks s)" "P d" "ck_checkid d = ck_checkid c" by (auto simp: those_def)
    with c that have "d = c" by (metis distinct_map inj_onD)
    with d show "P c" by simp
  qed
qed (auto simp: those_def ids_def)

lemma matched_ids_all:
  assumes "search_ok s"
  shows "matched_ids s f = ids s \<longleftrightarrow> (\<forall>c\<in>set (se_checks s). hasMatch c f)"
  using those_all [of s "\<lambda>c. hasMatch c f"] assms by (simp add: search_ok_def matched_ids_def those_def)

text \<open>
  Inspecting one file that was not seen before: afterwards it has matched all checks exactly if it
  satisfies them.
\<close>

lemma evaluateFile_one:
  assumes "one_search r label s" and "good_search s" and "search_ok s" and "se_isactive s"
    and "readable fs dc f fi bytes" and "matched_ids s f = {}"
  shows "\<exists>r' s'. evaluateFile fs dc f r = (r', None) \<and> one_search r' label s' \<and> same_search s s' \<and> se_isactive s' \<and>
    search_ok s' \<and> (\<forall>g. g \<noteq> f \<longrightarrow> matched_ids s' g = matched_ids s g) \<and>
    (matched_ids s' f = ids s' \<longleftrightarrow> satisfies fs dc s f) \<and>
    fr_Totalhits r' - fr_Totalhits r = hit_count s' - hit_count s \<and> fr_Errors r' = fr_Errors r"
proof -
  let ?ts = "file_tests fs fi bytes"
  from assms(5) have io: "fs_Stat fs f = Inr fi" "getReader fs dc f = (Reader (Inr bytes), False)" by (simp_all add: readable_def)
  from assms(2) have good: "mask_ok s" "plain_search s" "codes_ok s" by (simp_all add: good_search_def)
  let ?r1 = "r\<lparr>fr_Filescount := fr_Filescount r + 1\<rparr>"
  let ?r2 = "with_each (check_metadata fi f) ?r1"
  let ?r3 = "checkContent fs dc f ?r2"
  let ?r4 = "foldl (\<lambda>r code. checkHash fs dc f code r) ?r3 hash_codes"
  have o1: "one_search ?r1 label s" using assms(1) by (simp add: one_search_def)
  have "stage ([content_test bytes] @ map (hash_test fs bytes) hash_codes) f label s2 ?r2 ?r4"
    if "one_search ?r2 label s2" "same_search s s2" for s2
  proof (rule stage_trans [OF stage_content [OF that(1) mask_ok_same [OF that(2) good(1)] plain_search_same [OF that(2) good(2)] io(2)] steady_hash])
    fix s3 assume "one_search ?r3 label s3" "same_search s2 s3"
    then show "stage (map (hash_test fs bytes) hash_codes) f label s3 ?r3 ?r4"
      using mask_ok_same that(2) good(1) io(2) by (blast intro: stage_hashes)
  qed
  from stage_trans [OF stage_metadata [OF o1 good(1), of fi f] _ this]
  have st: "stage ?ts f label s ?r1 ?r4"
    using steady_content [of bytes] steady_hash [of fs bytes hash_codes] by (simp add: file_tests_def steady_def)
  then obtain X s4 where X: "one_search ?r4 label s4" "stores f X (s, fr_Totalhits r) (s4, fr_Totalhits ?r4)"
    "fr_Errors ?r4 = fr_Errors r" "X \<subseteq> those (wanted_by ?ts) (se_checks s)"
    "(\<forall>c\<in>set (se_checks s). \<not> refused_by ?ts c) \<longrightarrow> X = those (wanted_by ?ts) (se_checks s)"
    using assms(4) by (auto simp: stage_def)
  let ?s = "s4\<lparr>se_isactive := True\<rparr>"
  have ev: "evaluateFile fs dc f r = (?r4\<lparr>fr_Searches := [(label, ?s)]\<rparr>, None)"
    using io(1) assms(1,4) X(1) by (simp add: evaluateFile_def reactivate_def one_search_def Let_def)
  from stores_trans' [OF X(2), of "(?s, fr_Totalhits ?r4)"]
  have S: "stores f X (s, fr_Totalhits r) (?s, fr_Totalhits ?r4)" by simp
  with assms(3,6) have res: "search_ok ?s" "same_search s ?s" "matched_ids ?s f = X"
    "\<forall>g. g \<noteq> f \<longrightarrow> matched_ids ?s g = matched_ids s g" "fr_Totalhits ?r4 - fr_Totalhits r = hit_count ?s - hit_count s"
    by (simp_all add: stores_def)
  have ids: "ids ?s = ids s" by (rule same_search_ids_eq [OF res(2)])
  have d: "distinct (map ck_checkid (se_checks s))" using assms(3) by (simp add: search_ok_def)
  have "X = ids s \<longleftrightarrow> (\<forall>c\<in>set (se_checks s). wanted_by ?ts c)"
  proof
    assume "X = ids s"
    moreover have "those (wanted_by ?ts) (se_checks s) \<subseteq> ids s" by (auto simp: those_def ids_def)
    ultimately have "those (wanted_by ?ts) (se_checks s) = ids s" using X(4) by blast
    with those_all [OF d] show "\<forall>c\<in>set (se_checks s). wanted_by ?ts c" by blast
  next
    assume all: "\<forall>c\<in>set (se_checks s). wanted_by ?ts c"
    then have "\<forall>c\<in>set (se_checks s). \<not> refused_by ?ts c"
      using wanted_not_refused good(3) by (auto simp: codes_ok_def)
    with X(5) those_all [OF d] all show "X = ids s" by blast
  qed
  then show ?thesis
    using ev res ids X(3) satisfies_readable [OF assms(5), of s]
    by (intro exI [of _ "?r4\<lparr>fr_Searches := [(label, ?s)]\<rparr>"] exI [of _ ?s]) (simp add: one_search_def)
qed

end
