(* ===== verification/FileSearch.thy ===== *)
theory FileSearch
  imports FileRuns
begin

text \<open>
  What a search finds: the run of the file module with a single search, from its parameters to the
  results, and the effects of several searches on each other.
\<close>

section \<open>The files within reach\<close>

text \<open>The regular files of a directory listing, and the links to regular files.\<close>

definition is_file :: "file_system \<Rightarrow> string \<Rightarrow> node \<Rightarrow> bool" where
  "is_file fs f n \<longleftrightarrow> n = Regular \<or> (n = Symlink \<and> (case fs_Link fs f of Inr (True, _) \<Rightarrow> True | _ \<Rightarrow> False))"

fun listed_files :: "file_system \<Rightarrow> string \<Rightarrow> (string \<times> node) list \<Rightarrow> string list" where
  "listed_files fs path [] = []"
| "listed_files fs path ((name, n) # rest) =
     (if is_file fs (with_slash path @ name) n then [with_slash path @ name] else []) @ listed_files fs path rest"

text \<open>The files below a directory, down to a number of levels.\<close>

fun files_within :: "file_system \<Rightarrow> nat \<Rightarrow> string \<Rightarrow> node \<Rightarrow> string list"
and subdir_files :: "file_system \<Rightarrow> nat \<Rightarrow> string \<Rightarrow> (string \<times> node) list \<Rightarrow> string list" where
  "files_within fs d path n =
     (case d of 0 \<Rightarrow> []
      | Suc d' \<Rightarrow> (case n of Directory es \<Rightarrow> listed_files fs path es @ subdir_files fs d' path es | _ \<Rightarrow> []))"
| "subdir_files fs d path [] = []"
| "subdir_files fs d path ((name, n) # rest) =
     (case n of Directory _ \<Rightarrow> files_within fs d (with_slash path @ name @ [slash]) n | _ \<Rightarrow> []) @
     subdir_files fs d path rest"

declare files_within.simps [simp del]

text \<open>Every directory down to a number of levels can be opened and listed.\<close>

fun dirs_open :: "file_system \<Rightarrow> nat \<Rightarrow> string \<Rightarrow> node \<Rightarrow> bool"
and subdirs_open :: "file_system \<Rightarrow> nat \<Rightarrow> string \<Rightarrow> (string \<times> node) list \<Rightarrow> bool" where
  "dirs_open fs d path n =
     (case d of 0 \<Rightarrow> True
      | Suc d' \<Rightarrow> (case n of Directory es \<Rightarrow> fs_Open fs path = None \<and> fs_Readdir fs path = None \<and> subdirs_open fs d' path es
                 | _ \<Rightarrow> False))"
| "subdirs_open fs d path [] = True"
| "subdirs_open fs d path ((name, n) # rest) =
     ((case n of Directory _ \<Rightarrow> dirs_open fs d (with_slash path @ name @ [slash]) n | _ \<Rightarrow> True) \<and>
      subdirs_open fs d path rest)"

declare dirs_open.simps [simp del]

section \<open>The walk of one search\<close>

text \<open>
  The run after the files of \<open>F\<close> have been inspected: \<open>s0\<close> are the parameters of the search, \<open>j\<close> its depth.
\<close>

definition walked ::
  "file_system \<Rightarrow> bool \<Rightarrow> string \<Rightarrow> search \<Rightarrow> nat \<Rightarrow> string set \<Rightarrow> search \<Rightarrow> file_run \<Rightarrow> bool" where
  "walked fs dc label s0 j F s r \<longleftrightarrow>
     one_search r label s \<and> same_params s0 s \<and> search_ok s \<and> se_currentdepth s = of_nat j \<and>
     (0 < j \<longrightarrow> se_iscurrent s) \<and> fr_Totalhits r = hit_count s \<and> finite F \<and> (\<forall>g. g \<notin> F \<longrightarrow> matched_ids s g = {}) \<and>
     (\<forall>g\<in>F. matched_ids s g = ids s \<longleftrightarrow> satisfies fs dc s0 g)"

lemma good_search_same: "same_params s s' \<Longrightarrow> good_search s \<Longrightarrow> good_search s'"
proof -
  assume same: "same_params s s'"
  have "map blank (se_checks s') = map blank (se_checks s)" using same by (simp add: same_params_def)
  then have all: "(\<forall>c\<in>set (se_checks s'). P (blank c)) \<longleftrightarrow> (\<forall>c\<in>set (se_checks s). P (blank c))" for P
    by (metis (no_types, lifting) in_set_conv_nth length_map nth_map)
  assume "good_search s"
  with same mask_ok_params [OF same] all [of plain] all [of "\<lambda>c. ck_code c = 0 \<or> ck_code c \<in> set known_codes"]
  show "good_search s'"
    by (auto simp: good_search_def plain_search_def codes_ok_def same_params_def)
qed

lemma all_found:
  assumes "walked fs dc label s0 j F s r" and "good_search s0"
  shows "set (se_filesMatchingAll s) = {f \<in> F. satisfies fs dc s0 f}"
proof -
  have w: "search_ok s" "same_params s0 s" using assms(1) by (simp_all add: walked_def)
  have g: "good_search s" using good_search_same [OF w(2) assms(2)] .
  have ids: "ids s \<noteq> {}" using g by (simp add: ids_def good_search_def)
  have "f \<in> set (se_filesMatchingAll s) \<longleftrightarrow> matched_ids s f = ids s" for f
    using w(1) g matched_ids_all [OF w(1), of f] by (simp add: search_ok_def good_search_def)
  with ids assms(1) show ?thesis by (auto simp: walked_def)
qed

lemma hits_bounded:
  assumes "walked fs dc label s0 j F s r" and "good_search s0"
  shows "fr_Totalhits r \<le> int (card F)"
proof -
  have w: "search_ok s" "same_params s0 s" "finite F" using assms(1) by (simp_all add: walked_def)
  have g: "good_search s" using good_search_same [OF w(2) assms(2)] .
  have "length (se_filesMatchingAll s) = card {f \<in> F. satisfies fs dc s0 f}"
    using w(1) all_found [OF assms] by (metis distinct_card search_ok_def)
  also have "\<dots> \<le> card F" by (rule card_mono) (use w(3) in auto)
  finally show ?thesis using assms(1) g by (simp add: walked_def hit_count_def good_search_def)
qed

lemma stop_below:
  assumes "one_search r label s" and "fr_Totalhits r < opt_MatchLimit (se_Options s)"
  shows "stop_at_limit r = r"
  using assms by (simp add: stop_at_limit_def one_search_def)

lemma evaluate_walked:
  assumes "walked fs dc label s0 j F s r" and "good_search s0" and "se_isactive s" and "f \<notin> F"
    and "readable fs dc f fi bytes"
  shows "\<exists>s'. walked fs dc label s0 j (insert f F) s' (evaluate fs dc f r) \<and> se_isactive s' \<and>
    fr_Errors (evaluate fs dc f r) = fr_Errors r"
proof -
  have w: "one_search r label s" "search_ok s" "same_params s0 s" "matched_ids s f = {}"
    using assms(1,4) by (simp_all add: walked_def)
  have g: "good_search s" using good_search_same [OF w(3) assms(2)] .
  from evaluateFile_one [OF w(1) g w(2) assms(3) assms(5) w(4)] obtain r' s' where
    e: "evaluateFile fs dc f r = (r', None)" "one_search r' label s'" "same_search s s'" "se_isactive s'" "search_ok s'"
      "\<forall>h. h \<noteq> f \<longrightarrow> matched_ids s' h = matched_ids s h" "matched_ids s' f = ids s' \<longleftrightarrow> satisfies fs dc s f"
      "fr_Totalhits r' - fr_Totalhits r = hit_count s' - hit_count s" "fr_Errors r' = fr_Errors r" by blast
  have ids: "ids s' = ids s" using same_search_ids_eq [OF e(3)] .
  have "same_params s0 s'" using same_params_trans [OF w(3) same_search_params [OF e(3)]] .
  moreover have "se_currentdepth s' = of_nat j \<and> (0 < j \<longrightarrow> se_iscurrent s')"
    using e(3) assms(1) by (simp add: same_search_def walked_def)
  moreover have "\<forall>g\<in>insert f F. matched_ids s' g = ids s' \<longleftrightarrow> satisfies fs dc s0 g"
    using e(6,7) assms(1,4) satisfies_same [OF w(3), of fs dc] unfolding walked_def ids by (metis insert_iff)
  moreover have "\<forall>g. g \<notin> insert f F \<longrightarrow> matched_ids s' g = {}" using e(6) assms(1) by (simp add: walked_def)
  ultimately have "walked fs dc label s0 j (insert f F) s' r'"
    using e(2,5,8) assms(1) by (simp add: walked_def)
  with e show ?thesis by (auto simp: evaluate_def add_error_def)
qed

lemma walk_files_walked:
  assumes "walked fs dc label s0 j F s r" and "good_search s0" and "se_isactive s"
    and "distinct (listed_files fs path es)" and "set (listed_files fs path es) \<inter> F = {}"
    and "\<forall>f\<in>set (listed_files fs path es). \<exists>fi bytes. readable fs dc f fi bytes"
    and "int (card F + length (listed_files fs path es)) < opt_MatchLimit (se_Options s0)"
  shows "\<exists>s'. walked fs dc label s0 j (F \<union> set (listed_files fs path es)) s' (walk_files fs dc path es r) \<and> se_isactive s'"
  using assms(1,3-7)
proof (induction es arbitrary: F s r)
  case (Cons p es)
  obtain name n where p: "p = (name, n)" by fastforce
  let ?f = "with_slash path @ name"
  have one: "one_search r label s" and opt: "se_Options s = se_Options s0"
    using Cons.prems(1) by (simp_all add: walked_def same_params_def)
  have fin: "finite F" using Cons.prems(1) by (simp add: walked_def)
  have stop: "stop_at_limit r = r"
    using stop_below [OF one] hits_bounded [OF Cons.prems(1) assms(2)] Cons.prems(6) opt by simp
  show ?case
  proof (cases "is_file fs ?f n")
    case True
    from Cons.prems(4,5) True obtain fi bytes where new: "?f \<notin> F" "readable fs dc ?f fi bytes" by (auto simp: p)
    from evaluate_walked [OF Cons.prems(1) assms(2) Cons.prems(2) new] obtain s1 where
      s1: "walked fs dc label s0 j (insert ?f F) s1 (evaluate fs dc ?f r)" "se_isactive s1" by blast
    have "walk_files fs dc path (p # es) r = walk_files fs dc path es (evaluate fs dc ?f r)"
      using True stop by (auto simp: p is_file_def Let_def split: sum.splits prod.splits bool.splits)
    moreover have "int (card (insert ?f F) + length (listed_files fs path es)) < opt_MatchLimit (se_Options s0)"
      using Cons.prems(6) True new(1) fin by (simp add: p)
    ultimately show ?thesis
      using Cons.IH [OF s1(1) s1(2)] Cons.prems(3-5) True by (auto simp: p)
  next
    case False
    let ?r = "case n of Symlink \<Rightarrow> (case fs_Link fs ?f of Inl e \<Rightarrow> fail_open e r | _ \<Rightarrow> r) | _ \<Rightarrow> r"
    have eq: "walk_files fs dc path (p # es) r = walk_files fs dc path es ?r"
      using False stop by (auto simp: p is_file_def Let_def split: node.splits sum.splits prod.splits bool.splits)
    have "walked fs dc label s0 j F s ?r"
      using Cons.prems(1) by (auto simp: walked_def fail_open_def one_search_def split: node.splits sum.splits)
    from Cons.IH [OF this Cons.prems(2)] Cons.prems(3-6) False show ?thesis unfolding eq by (simp add: p)
  qed
qed auto

text \<open>Entering and leaving a path.\<close>

lemma walked_flags:
  assumes "walked fs dc label s0 j F s r" and "s' = s\<lparr>se_isactive := act, se_iscurrent := cur, se_currentdepth := of_nat k\<rparr>"
    and "0 < k \<longrightarrow> cur"
  shows "walked fs dc label s0 k F s' (r\<lparr>fr_Searches := [(label, s')]\<rparr>)"
proof -
  have "matched_ids s' g = matched_ids s g" "ids s' = ids s" for g by (simp_all add: assms(2) matched_ids_def ids_def)
  moreover have "hit_count s' = hit_count s" "search_ok s' = search_ok s" "same_params s s'"
    by (simp_all add: assms(2) hit_count_def search_ok_def same_params_def)
  moreover have "se_currentdepth s' = of_nat k" "se_iscurrent s' = cur" by (simp_all add: assms(2))
  ultimately show ?thesis
    using assms(1,3) by (auto simp: walked_def one_search_def intro: same_params_trans)
qed

definition depth_limit :: "search \<Rightarrow> nat" where
  "depth_limit s = nat (opt_MaxDepth (se_Options s))"

lemma enter_walked:
  assumes "walked fs dc label s0 j F s r" and "good_search s0" and "in_scope path s0" and "j \<le> depth_limit s0"
    and "0 \<le> opt_MaxDepth (se_Options s0)" and "opt_MaxDepth (se_Options s0) < 2 ^ 63"
    and "int (card F) < opt_MatchLimit (se_Options s0)"
  shows "\<exists>s' r'. enter path r = (r', j < depth_limit s0) \<and> walked fs dc label s0 (Suc j) F s' r' \<and>
    (j < depth_limit s0 \<longrightarrow> se_isactive s')"
proof -
  have one: "one_search r label s" and params: "same_params s0 s" and depth: "se_currentdepth s = of_nat j"
    using assms(1) by (simp_all add: walked_def)
  have scope: "in_scope path s" using params assms(3) by (simp add: in_scope_def same_params_def)
  have hits: "fr_Totalhits r < opt_MatchLimit (se_Options s)"
    using hits_bounded [OF assms(1,2)] assms(7) params by (simp add: same_params_def)
  let ?d = "word_of_nat (Suc j) :: 64 word"
  have "Suc j < 2 ^ 64" using assms(4-6) by (simp add: depth_limit_def)
  then have "unat ?d = Suc j" by (simp add: unat_of_nat take_bit_nat_eq_self del: of_nat_Suc)
  moreover have "unat (word_of_int (opt_MaxDepth (se_Options s)) :: 64 word) = depth_limit s0"
    using assms(5,6) params
    by (simp add: depth_limit_def unat_word_ariths same_params_def unsigned_of_int take_bit_int_eq_self)
  ultimately have le: "?d \<le> word_of_int (opt_MaxDepth (se_Options s)) \<longleftrightarrow> j < depth_limit s0"
    by (simp add: word_le_nat_alt Suc_le_eq)
  let ?s = "s\<lparr>se_isactive := (if j < depth_limit s0 then True else se_isactive s), se_iscurrent := True,
      se_currentdepth := of_nat (Suc j)\<rparr>"
  have "enter_search path (fr_Totalhits r) s = (?s, j < depth_limit s0)"
    using scope hits le depth by (cases s) (simp add: enter_search_def Let_def add.commute)
  with one have "enter path r = (r\<lparr>fr_Searches := [(label, ?s)]\<rparr>, j < depth_limit s0)" by (simp add: enter_def one_search_def)
  with walked_flags [OF assms(1) refl, where cur = True and k = "Suc j"] show ?thesis by (intro exI conjI) auto
qed

lemma leave_walked:
  assumes "walked fs dc label s0 (Suc j) F s r"
  shows "\<exists>s'. walked fs dc label s0 j F s' (leave r)"
proof -
  have s: "fr_Searches r = [(label, s)]" "se_iscurrent s" "se_currentdepth s = of_nat (Suc j)"
    using assms by (simp_all add: walked_def one_search_def)
  let ?s = "s\<lparr>se_isactive := se_isactive s, se_iscurrent := True, se_currentdepth := of_nat j\<rparr>"
  have "leave r = r\<lparr>fr_Searches := [(label, ?s)]\<rparr>"
    using s by (cases s) (simp add: leave_def)
  with walked_flags [OF assms refl, where cur = True and k = j] show ?thesis by metis
qed

lemma in_scope_sub: "in_scope path s \<Longrightarrow> in_scope (with_slash path @ rest) s"
proof -
  assume "in_scope path s"
  then obtain p where p: "p \<in> set (se_Paths s)" "prefix p path" by (auto simp: in_scope_def list_ex_iff)
  from p(2) have "prefix p (with_slash path @ rest)" by (auto simp: with_slash_def prefix_def)
  with p(1) show ?thesis by (auto simp: in_scope_def list_ex_iff)
qed

lemma walk_walked:
  shows "walked fs dc label s0 j F s r \<Longrightarrow> good_search s0 \<Longrightarrow> in_scope path s0 \<Longrightarrow> j + d = depth_limit s0 \<Longrightarrow>
      0 \<le> opt_MaxDepth (se_Options s0) \<Longrightarrow> opt_MaxDepth (se_Options s0) < 2 ^ 63 \<Longrightarrow> n = Directory es0 \<Longrightarrow>
      dirs_open fs d path n \<Longrightarrow> distinct (files_within fs d path n) \<Longrightarrow> set (files_within fs d path n) \<inter> F = {} \<Longrightarrow>
      (\<forall>f\<in>set (files_within fs d path n). \<exists>fi bytes. readable fs dc f fi bytes) \<Longrightarrow>
      int (card F + length (files_within fs d path n)) < opt_MatchLimit (se_Options s0) \<Longrightarrow>
      \<exists>r' t s'. pathWalk fs dc roots path n r = (r', t, None) \<and>
        walked fs dc label s0 j (F \<union> set (files_within fs d path n)) s' r'"
    and "walked fs dc label s0 j F s (fst st) \<Longrightarrow> good_search s0 \<Longrightarrow> in_scope path s0 \<Longrightarrow> j + d = depth_limit s0 \<Longrightarrow>
      0 \<le> opt_MaxDepth (se_Options s0) \<Longrightarrow> opt_MaxDepth (se_Options s0) < 2 ^ 63 \<Longrightarrow> snd (snd st) = None \<Longrightarrow>
      subdirs_open fs d path es \<Longrightarrow> distinct (subdir_files fs d path es) \<Longrightarrow> set (subdir_files fs d path es) \<inter> F = {} \<Longrightarrow>
      (\<forall>f\<in>set (subdir_files fs d path es). \<exists>fi bytes. readable fs dc f fi bytes) \<Longrightarrow>
      int (card F + length (subdir_files fs d path es)) < opt_MatchLimit (se_Options s0) \<Longrightarrow>
      \<exists>r' t s'. walk_subdirs fs dc roots path es st = (r', t, None) \<and>
        walked fs dc label s0 j (F \<union> set (subdir_files fs d path es)) s' r'"
proof (induction fs dc roots path n r and fs dc roots path es st arbitrary: j d F s es0 and j d F s
    rule: pathWalk_walk_subdirs.induct)
  case (1 fs dc roots path n r)
  note prems = 1(2-13)
  have fin: "finite F" using prems(1) by (simp add: walked_def)
  from enter_walked [OF prems(1,2,3) _ prems(5,6)] prems(4,12) obtain s1 r1 where
    en: "enter path r = (r1, j < depth_limit s0)" and w1: "walked fs dc label s0 (Suc j) F s1 r1"
    and act: "j < depth_limit s0 \<longrightarrow> se_isactive s1" by fastforce
  show ?case
  proof (cases d)
    case 0
    with leave_walked [OF w1] en prems(4) show ?thesis by (auto simp: files_within.simps)
  next
    case (Suc d')
    with prems(4) have lt: "j < depth_limit s0" "Suc j + d' = depth_limit s0" by simp_all
    let ?l = "listed_files fs path es0" and ?sub = "subdir_files fs d' path es0"
    have fw: "files_within fs d path n = ?l @ ?sub" by (simp add: prems(7) Suc files_within.simps)
    have op: "fs_Open fs path = None" "fs_Readdir fs path = None" "subdirs_open fs d' path es0"
      using prems(8) by (simp_all add: prems(7) Suc dirs_open.simps)
    from walk_files_walked [OF w1 prems(2) _, of path es0] act lt prems(9-12) fw obtain s2 where
      w2: "walked fs dc label s0 (Suc j) (F \<union> set ?l) s2 (walk_files fs dc path es0 r1)" by auto
    let ?st = "(walk_files fs dc path es0 r1, filter (\<lambda>p. p = path) roots, None)"
    have card: "card (F \<union> set ?l) = card F + length ?l"
    proof -
      have "F \<inter> set ?l = {}" using prems(10) by (auto simp: fw)
      with fin prems(9) show ?thesis by (simp add: fw card_Un_disjoint distinct_card)
    qed
    have "\<exists>r' t s'. walk_subdirs fs dc roots path es0 ?st = (r', t, None) \<and>
        walked fs dc label s0 (Suc j) (F \<union> set ?l \<union> set ?sub) s' r'"
    proof (rule 1(1) [OF refl en [symmetric] _ op(1) prems(7) op(2), where s = s2 and d = d'])
      show "int (card (F \<union> set ?l) + length ?sub) < opt_MatchLimit (se_Options s0)" using prems(12) card by (simp add: fw)
      show "distinct ?sub" "set ?sub \<inter> (F \<union> set ?l) = {}" using prems(9,10) by (auto simp: fw)
      show "\<forall>f\<in>set ?sub. \<exists>fi bytes. readable fs dc f fi bytes" using prems(11) by (simp add: fw)
    qed (use w2 lt prems(2,3,5,6) op(3) in simp_all)
    then obtain r' t s' where sub: "walk_subdirs fs dc roots path es0 ?st = (r', t, None)"
      "walked fs dc label s0 (Suc j) (F \<union> set ?l \<union> set ?sub) s' r'" by blast
    from leave_walked [OF sub(2)] have "\<exists>s'. walked fs dc label s0 j (F \<union> set (files_within fs d path n)) s' (leave r')"
      by (simp add: fw Un_assoc)
    with sub(1) en lt(1) op show ?thesis by (simp add: prems(7))
  qed
next
  case (2 fs dc roots path st)
  then show ?case by (cases st) auto
next
  case (3 fs dc roots path name n rest r t e)
  note prems = 3(6-17)
  show ?case
  proof (cases "\<exists>es. n = Directory es")
    case False
    with 3 show ?thesis by (cases n) auto
  next
    case True
    then obtain es where n: "n = Directory es" by blast
    let ?p = "with_slash path @ name @ [slash]"
    let ?one = "files_within fs d ?p n" and ?rest = "subdir_files fs d path rest"
    have fin: "finite F" using prems(1) by (simp add: walked_def)
    have fw: "subdir_files fs d path ((name, n) # rest) = ?one @ ?rest" by (simp add: n)
    have scope: "in_scope ?p s0" using in_scope_sub [OF prems(3)] by simp
    have "\<exists>r' t s'. pathWalk fs dc roots ?p n r = (r', t, None) \<and> walked fs dc label s0 j (F \<union> set ?one) s' r'"
      using 3(2) [OF n, of j F s d es] prems scope by (auto simp: fw n)
    then obtain r' t' s' where one: "pathWalk fs dc roots ?p n r = (r', t', None)"
      "walked fs dc label s0 j (F \<union> set ?one) s' r'" by blast
    have card: "card (F \<union> set ?one) = card F + length ?one"
    proof -
      have "F \<inter> set ?one = {}" using prems(10) unfolding fw by auto
      with fin prems(9) show ?thesis unfolding fw by (simp add: card_Un_disjoint distinct_card)
    qed
    have "add_error None r' = r'" by (simp add: add_error_def)
    then have "\<exists>r2 t s2. walk_subdirs fs dc roots path rest (r', t', None) = (r2, t, None) \<and>
        walked fs dc label s0 j (F \<union> set ?one \<union> set ?rest) s2 r2"
    proof (intro 3(3) [OF n one(1) [symmetric] refl, unfolded \<open>add_error None r' = r'\<close>, where s = s' and d = d])
      show "int (card (F \<union> set ?one) + length ?rest) < opt_MatchLimit (se_Options s0)"
        using prems(12) card unfolding fw by simp
      show "distinct ?rest" "set ?rest \<inter> (F \<union> set ?one) = {}" using prems(9,10) unfolding fw by auto
      show "\<forall>f\<in>set ?rest. \<exists>fi bytes. readable fs dc f fi bytes" using prems(11) unfolding fw by simp
    qed (use one(2) prems(2-6,8) n in simp_all)
    with one(1) \<open>add_error None r' = r'\<close> show ?thesis
      by (auto simp: fw n Un_assoc simp del: pathWalk.simps)
  qed
qed

section \<open>From the parameters to the results\<close>

lemma clean_nonempty: "Clean p \<noteq> []"
  by (simp add: Clean_def Let_def)

lemma with_slash_nonempty: "path \<noteq> [] \<Longrightarrow> with_slash path \<noteq> []"
  by (simp add: with_slash_def)

lemma listed_nonempty: "path \<noteq> [] \<Longrightarrow> [] \<notin> set (listed_files fs path es)"
  by (induction es) (auto simp: with_slash_nonempty)

lemma within_nonempty:
  shows "path \<noteq> [] \<Longrightarrow> [] \<notin> set (files_within fs d path n)"
    and "path \<noteq> [] \<Longrightarrow> [] \<notin> set (subdir_files fs d path es)"
proof (induction fs d path n and fs d path es rule: files_within_subdir_files.induct)
  case (1 fs d path n)
  then show ?case by (auto simp: files_within.simps listed_nonempty split: nat.splits node.splits)
qed (auto simp: with_slash_nonempty split: node.splits)

lemma map_res_files:
  assumes "\<forall>x\<in>set xs. \<exists>mf. g x = Inr mf \<and> mf_File mf = x"
  shows "\<exists>mfs. map_res g xs = Inr mfs \<and> map mf_File mfs = xs"
  using assms by (induction xs) (auto simp: and_then_def)

lemma matchall_file_readable:
  assumes "f = [] \<or> (\<exists>fi bytes. readable fs dc f fi bytes)"
  shows "\<exists>mf. matchall_file fs dc show_time s f = Inr mf \<and> mf_File mf = f"
  using assms
  by (auto simp: matchall_file_def matched_info_def readable_def getHash_def Let_def)

lemma start_walked:
  assumes "fresh_checks s"
  shows "\<exists>s'. walked fs dc label s 0 {} s' (reset_searches (start_run [(label, s)]))"
proof -
  let ?s = "s\<lparr>se_isactive := False, se_currentdepth := 0\<rparr>"
  have "\<forall>c\<in>set (se_checks s). ck_matchedfiles c = []" using assms by (simp add: fresh_checks_def)
  then have none: "matched_ids ?s g = {}" for g by (auto simp: matched_ids_def hasMatch_def)
  have "search_ok ?s = search_ok s" "hit_count ?s = hit_count s" "same_params s ?s"
    by (simp_all add: search_ok_def hit_count_def same_params_def)
  with none fresh_ok [OF assms] show ?thesis
    by (intro exI [of _ ?s]) (simp add: walked_def reset_searches_def start_run_def one_search_def)
qed

text \<open>
  C15. The file module returns what was asked for. For one search under one directory that wants all its
  filters to match - names, sizes, modes, times, hashes, each possibly inverted, and content
  expressions - with readable files and fewer of them than the match limit, the run succeeds and the
  files it returns are exactly those regular files and links to regular files down to \<open>maxdepth\<close>
  levels for which every check holds; the files that do not match are not returned and none is missing.
\<close>

theorem file_search_exact:
  assumes "ValidateParameters compile [(label, s)] = Inr ()" and "makeChecks compile now s = Inr s1"
    and "fresh_search s" and "opt_MatchAll (se_Options s)" and "plain_search s1" and "se_checks s1 \<noteq> []"
    and "se_Paths s = [p]" and "tree (Clean p) = Directory es"
    and "0 \<le> opt_MaxDepth (se_Options s1)" and "opt_MaxDepth (se_Options s1) < 2 ^ 63"
    and "reach = files_within fs (nat (opt_MaxDepth (se_Options s1))) (Clean p) (tree (Clean p))"
    and "dirs_open fs (nat (opt_MaxDepth (se_Options s1))) (Clean p) (tree (Clean p))" and "distinct reach"
    and "\<forall>f\<in>set reach. \<exists>fi bytes. readable fs (opt_Decompress (se_Options s)) f fi bytes"
    and "int (length reach) < opt_MatchLimit (se_Options s1)"
  shows "\<exists>mfs. rs_Success (Run compile fs tree show_time now (Inr [(label, s)])) \<and>
    rs_Elements (Run compile fs tree show_time now (Inr [(label, s)])) = [(label, mfs)] \<and>
    mf_File ` set mfs - {[]} = {f \<in> set reach. satisfies fs (opt_Decompress (se_Options s)) s1 f}"
proof -
  let ?dc = "opt_Decompress (se_Options s)" and ?root = "Clean p"
  let ?s = "s1\<lparr>se_Paths := [?root]\<rparr>"
  note made = makeChecks_fresh [OF assms(3,2)]
  have params: "se_Options s1 = default_limits (se_Options s)" "se_Paths s1 = [p]" using made assms(7) by simp_all
  have fresh: "fresh_checks ?s" using made by (simp add: fresh_checks_def mask_ok_def)
  have good: "good_search ?s"
    using made assms(4-6) params
    by (auto simp: good_search_def fresh_checks_def plain_search_def mask_ok_def codes_ok_def default_limits_def)
  have started: "setup_searches compile now [(label, s)] = Inr ([(label, ?s)], [?root])"
    using assms(2) params by (simp add: setup_searches_def setup_search_def add_roots_def Let_def)
  obtain s0 where w0: "walked fs ?dc label ?s 0 {} s0 (reset_searches (start_run [(label, ?s)]))"
    using start_walked [OF fresh] by blast
  let ?d = "nat (opt_MaxDepth (se_Options s1))"
  have "in_scope ?root ?s" by (simp add: in_scope_def)
  moreover have "0 + ?d = depth_limit ?s" by (simp add: depth_limit_def)
  ultimately obtain r1 t s2 where
    walk: "pathWalk fs ?dc [?root] ?root (tree ?root) (reset_searches (start_run [(label, ?s)])) = (r1, t, None)"
    and w1: "walked fs ?dc label ?s 0 (set reach) s2 r1"
    using walk_walked(1) [OF w0 good, of ?root ?d "tree ?root" es "[?root]"] assms(8-15) by auto
  have roots: "walk_roots fs ?dc tree [?root] [] [?root] (start_run [(label, ?s)]) = r1"
    using walk by (simp add: Let_def add_error_def del: pathWalk.simps)
  have found: "set (se_filesMatchingAll s2) = {f \<in> set reach. satisfies fs ?dc s1 f}"
    using all_found [OF w1 good] satisfies_same [of s1 ?s fs ?dc] satisfies_def by auto
  have one: "fr_Searches r1 = [(label, s2)]" and all: "opt_MatchAll (se_Options s2)"
    using w1 good by (simp_all add: walked_def one_search_def same_params_def good_search_def)
  have "\<forall>f\<in>set (or_none (se_filesMatchingAll s2)). f = [] \<or> (\<exists>fi bytes. readable fs ?dc f fi bytes)"
    using found by (auto simp: or_none_def satisfies_def)
  then have "\<forall>f\<in>set (or_none (se_filesMatchingAll s2)). \<exists>mf. matchall_file fs ?dc show_time s2 f = Inr mf \<and> mf_File mf = f"
    using matchall_file_readable by blast
  from map_res_files [OF this] obtain mfs where
    mfs: "map_res (matchall_file fs ?dc show_time s2) (or_none (se_filesMatchingAll s2)) = Inr mfs"
      "map mf_File mfs = or_none (se_filesMatchingAll s2)" by blast
  have td: "tryDecompress [(label, s)] = ?dc" by (simp add: tryDecompress_def)
  have run: "rs_Success (Run compile fs tree show_time now (Inr [(label, s)])) \<and>
      rs_Elements (Run compile fs tree show_time now (Inr [(label, s)])) = [(label, mfs)]"
    using assms(1) started roots one all mfs(1) td
    by (simp add: Run_def buildResults_def search_results_def Let_def)
  have "mf_File ` set mfs = set (or_none (se_filesMatchingAll s2))" using mfs(2) by (metis set_map)
  moreover have "[] \<notin> set reach" using within_nonempty(1) [OF clean_nonempty] assms(11) by blast
  ultimately have "mf_File ` set mfs - {[]} = {f \<in> set reach. satisfies fs ?dc s1 f}"
    using found by (auto simp: or_none_def)
  with run show ?thesis by blast
qed

end
