(* ===== verification/FileProps.thy ===== *)
theory FileProps
  imports FileSearch
begin

text \<open>
  The parameters of the file module and what becomes of them: the checks that are built, size filters, hashes
  of a wrong length; and an example of a run.
\<close>

section \<open>An example\<close>


definition example_engine :: regex_engine where
  "example_engine v = Inr (\<lambda>t. t = v)"

definition example_files :: "string \<Rightarrow> file_system" where
  "example_files bytes =
     \<lparr>fs_Stat = (\<lambda>f. Inr \<lparr>fi_Name = path_Split_file f, fi_Size = 3, fi_Mode = ''-rw-r--r--'', fi_ModTime = zero_time\<rparr>),
      fs_Open = (\<lambda>_. None), fs_Readdir = (\<lambda>_. None), fs_Content = (\<lambda>_. Inr bytes), fs_Gunzip = (\<lambda>_. Inr (Inr [])),
      fs_Hash = (\<lambda>_ b. b), fs_Link = (\<lambda>f. Inr (False, f))\<rparr>"

definition example_tree :: "string \<Rightarrow> node" where
  "example_tree p = (if p = ''/d'' then Directory [(''a'', Regular), (''b'', Regular)] else Special)"

definition example_search :: search where
  "example_search = zero_search\<lparr>se_Paths := [''/d''], se_Names := [''a''],
     se_Options := zero_options\<lparr>opt_MatchAll := True, opt_MaxDepth := 1, opt_MatchLimit := 5, opt_MaxErrors := 1\<rparr>\<rparr>"

lemma example_checks:
  "makeChecks example_engine now example_search =
     Inr (example_search\<lparr>se_checks := [(blank_check 1)\<lparr>ck_code := checkName_code, ck_value := ''a'', ck_regex := (\<lambda>t. t = ''a'')\<rparr>],
       se_checkmask := checkName_code\<rparr>)"
  by (simp add: makeChecks_def example_search_def zero_search_def zero_options_def add_checks_def regex_check_def
      example_engine_def default_limits_def unlimited_def blank_check_def hasMismatch_def has_bang_def strip_bang_def and_then_def recovered_def)

text \<open>A check wants a file as the test of its code does.\<close>

lemma wanted_by_code:
  assumes "t \<in> set (file_tests fs fi bytes)" and "ck_code c = fst t"
  shows "wanted_by (file_tests fs fi bytes) c \<longleftrightarrow> wantThis c (snd t c)"
proof -
  have known: "fst u \<in> set known_codes" if "u \<in> set (file_tests fs fi bytes)" for u
  proof -
    have "fst u \<in> set (map fst (file_tests fs fi bytes))" using that by simp
    then show ?thesis unfolding file_tests_codes by (auto simp: known_codes_def)
  qed
  then have "of_code (fst u) c \<longleftrightarrow> fst u = fst t" if "u \<in> set (file_tests fs fi bytes)" for u
    using that assms of_code_known [of c "fst u"] by auto
  moreover have "fst u = fst t \<Longrightarrow> u = t" if "u \<in> set (file_tests fs fi bytes)" for u
    using distinct_codes [of fs fi bytes] that assms(1) by (auto simp: distinct_map dest: inj_onD)
  ultimately show ?thesis using assms(1) by (auto simp: wanted_by_def)
qed

definition example_checked :: search where
  "example_checked = example_search\<lparr>se_checks := [(blank_check 1)\<lparr>ck_code := checkName_code, ck_value := ''a'', ck_regex := (\<lambda>t. t = ''a'')\<rparr>],
       se_checkmask := checkName_code\<rparr>"

lemma example_satisfies:
  "satisfies (example_files bytes) False example_checked f \<longleftrightarrow> path_Split_file f = ''a''"
proof -
  let ?fi = "\<lparr>fi_Name = path_Split_file f, fi_Size = 3, fi_Mode = ''-rw-r--r--'', fi_ModTime = zero_time\<rparr>"
  let ?c = "(blank_check 1)\<lparr>ck_code := checkName_code, ck_value := ''a'', ck_regex := (\<lambda>t. t = ''a'')\<rparr>"
  have "readable (example_files bytes) False f ?fi bytes"
    by (simp add: readable_def example_files_def getReader_def)
  from satisfies_readable [OF this]
  have "satisfies (example_files bytes) False example_checked f \<longleftrightarrow> wanted_by (file_tests (example_files bytes) ?fi bytes) ?c"
    by (simp add: example_checked_def)
  also have "\<dots> \<longleftrightarrow> path_Split_file f = ''a''"
    by (subst wanted_by_code [of "(checkName_code, \<lambda>c. ck_regex c (fi_Name ?fi))"])
      (simp_all add: file_tests_def metadata_tests_def blank_check_def wantThis_def)
  finally show ?thesis .
qed

lemma example_reach: "files_within (example_files bytes) (Suc 0) ''/d'' (example_tree ''/d'') = [''/d/a'', ''/d/b'']"
  by (simp add: files_within.simps example_tree_def is_file_def with_slash_def slash_def)

theorem file_search_exact_witness:
  "\<exists>mfs. rs_Success (Run example_engine (example_files []) example_tree (\<lambda>_. []) 0 (Inr [(''l'', example_search)])) \<and>
    rs_Elements (Run example_engine (example_files []) example_tree (\<lambda>_. []) 0 (Inr [(''l'', example_search)])) = [(''l'', mfs)] \<and>
    mf_File ` set mfs - {[]} = {''/d/a''}"
proof -
  let ?fs = "example_files []" and ?ss = "[(''l'', example_search)]" and ?es = "[(''a'', Regular), (''b'', Regular)]"
  have opts: "opt_MaxDepth (se_Options example_checked) = 1" "opt_MatchLimit (se_Options example_checked) = 5"
      "opt_Decompress (se_Options example_search) = False" "nat (opt_MaxDepth (se_Options example_checked)) = Suc 0"
      "opt_MatchAll (se_Options example_search)"
    by (simp_all add: example_checked_def example_search_def zero_search_def zero_options_def)
  have clean: "Clean ''/d'' = ''/d''" by (simp add: Clean_def slash_def)
  have v: "ValidateParameters example_engine ?ss = Inr ()"
    by (simp add: ValidateParameters_def validate_search_def validateLabel_def example_search_def zero_search_def zero_options_def
        rune_count_def validateRegex_def example_engine_def and_then_def)
  have m: "makeChecks example_engine 0 example_search = Inr example_checked"
      using example_checks [of 0] by (simp add: example_checked_def)
  have fr: "fresh_search example_search" by (simp add: fresh_search_def example_search_def zero_search_def)
  have pl: "plain_search example_checked" "se_checks example_checked \<noteq> []"
    by (simp_all add: example_checked_def example_search_def zero_options_def plain_search_def plain_def blank_check_def)
  have p: "se_Paths example_search = [''/d'']" by (simp add: example_search_def)
  have t: "example_tree (Clean ''/d'') = Directory ?es" by (simp add: clean example_tree_def)
  have reach: "[''/d/a'', ''/d/b''] =
      files_within ?fs (nat (opt_MaxDepth (se_Options example_checked))) (Clean ''/d'') (example_tree (Clean ''/d''))"
    unfolding clean opts by (simp add: example_reach)
  have ds: "dirs_open ?fs (nat (opt_MaxDepth (se_Options example_checked))) (Clean ''/d'') (example_tree (Clean ''/d''))"
    unfolding clean opts by (simp add: dirs_open.simps example_tree_def example_files_def)
  have rd: "\<forall>f\<in>set [''/d/a'', ''/d/b'']. \<exists>fi bytes. readable ?fs (opt_Decompress (se_Options example_search)) f fi bytes"
    unfolding opts by (simp add: readable_def example_files_def getReader_def)
  have d: "distinct [''/d/a'', ''/d/b'']" by simp
  have b: "0 \<le> opt_MaxDepth (se_Options example_checked)" "opt_MaxDepth (se_Options example_checked) < 2 ^ 63"
    "int (length [''/d/a'', ''/d/b'']) < opt_MatchLimit (se_Options example_checked)"
    by (simp_all add: opts)
  have "{f \<in> set [''/d/a'', ''/d/b'']. satisfies ?fs (opt_Decompress (se_Options example_search)) example_checked f} = {''/d/a''}"
    unfolding opts by (auto simp: example_satisfies path_Split_file_def)
  with file_search_exact [where tree = example_tree and p = "''/d''" and show_time = "\<lambda>_. []", OF v m fr opts(5) pl p t b(1,2) reach ds d rd b(3)] show ?thesis by simp
qed


theorem hits_are_matches_witness:
  "fr_Totalhits (walk_roots (example_files []) False example_tree [''/d''] [] [''/d''] (start_run [(''l'', example_checked)])) =
     sum_list (map (\<lambda>p.
      if opt_MatchAll (se_Options (snd p)) then int (card {f. reported (snd p) f})
      else sum_list (map (\<lambda>c. int (card {f. hasMatch c f})) (se_checks (snd p))))
      (fr_Searches (walk_roots (example_files []) False example_tree [''/d''] [] [''/d''] (start_run [(''l'', example_checked)]))))"
proof -
  have clean: "Clean ''/d'' = ''/d''" by (simp add: Clean_def slash_def)
  have m: "makeChecks example_engine 0 example_search = Inr example_checked"
    using example_checks [of 0] by (simp add: example_checked_def)
  have p: "se_Paths example_checked = [''/d'']" by (simp add: example_checked_def example_search_def)
  then have "example_checked\<lparr>se_Paths := map Clean (se_Paths example_checked)\<rparr> = example_checked"
    by (cases example_checked) (simp add: clean)
  then have "setup_searches example_engine 0 [(''l'', example_search)] = Inr ([(''l'', example_checked)], [''/d''])"
    using m p by (simp add: setup_searches_def setup_search_def Let_def add_roots_def clean del: list.map)
      (simp add: clean)
  moreover have "\<forall>p\<in>set [(''l'', example_search)]. fresh_search (snd p)"
    by (simp add: fresh_search_def example_search_def zero_search_def)
  ultimately show ?thesis by (rule conjunct1 [OF hits_are_matches [OF _ _ refl]])
qed

section \<open>Size filters\<close>

definition unit_factor :: "string \<Rightarrow> nat" where
  "unit_factor u = (if u = ''k'' then 2 ^ 10 else if u = ''m'' then 2 ^ 20 else if u = ''g'' then 2 ^ 30
     else if u = ''t'' then 2 ^ 40 else 1)"

text \<open>The sizes that a check on the size lets pass.\<close>

definition size_passes :: "64 word \<times> 64 word \<Rightarrow> int \<Rightarrow> bool" where
  "size_passes b k \<longleftrightarrow> sint (fst b) \<le> k \<and> k \<le> sint (snd b)"

lemma digit_not_unit: "digit_val c = Some d \<Longrightarrow> d < 10 \<Longrightarrow> size_multiplier c = 1 \<and> c \<noteq> CHR ''<'' \<and> c \<noteq> CHR ''>''"
  by (auto simp: digit_val_def size_multiplier_def split: if_splits)

lemma digits_val_all: "digits_val 10 a ds = Some n \<Longrightarrow> c \<in> set ds \<Longrightarrow> \<exists>d. digit_val c = Some d \<and> d < 10"
  by (induction ds arbitrary: a) (auto split: option.splits if_splits)

lemma size_digits:
  assumes "ds \<noteq> []" and "digits_val 10 0 ds = Some n"
  shows "size_multiplier (last ds) = 1" and "hd ds \<noteq> CHR ''<''" and "hd ds \<noteq> CHR ''>''"
proof -
  obtain d where "digit_val (last ds) = Some d" "d < 10" using digits_val_all [OF assms(2), of "last ds"] assms(1) by auto
  then show "size_multiplier (last ds) = 1" by (blast dest: digit_not_unit)
  obtain d' where "digit_val (hd ds) = Some d'" "d' < 10" using digits_val_all [OF assms(2), of "hd ds"] assms(1) by auto
  then show "hd ds \<noteq> CHR ''<''" "hd ds \<noteq> CHR ''>''" by (blast dest: digit_not_unit)+
qed

lemma size_split:
  assumes "ds \<noteq> []" and "digits_val 10 0 ds = Some n" and "u \<in> {[], ''k'', ''m'', ''g'', ''t''}"
  shows "size_multiplier (last (ds @ u)) = of_nat (unit_factor u)"
    and "(if 1 < (of_nat (unit_factor u) :: 64 word) then butlast (g @ ds @ u) else g @ ds @ u) = g @ ds"
proof -
  show "size_multiplier (last (ds @ u)) = of_nat (unit_factor u)"
    using assms(3) size_digits(1) [OF assms(1,2)] by (auto simp: size_multiplier_def unit_factor_def)
  show "(if 1 < (of_nat (unit_factor u) :: 64 word) then butlast (g @ ds @ u) else g @ ds @ u) = g @ ds"
    using assms(3) by (auto simp: unit_factor_def butlast_append)
qed

text \<open>The bounds of a number with a sign and a unit: the product is taken modulo \<open>2 ^ 64\<close>.\<close>

lemma parseSize_number:
  assumes "ds \<noteq> []" and "digits_val 10 0 ds = Some n" and "n < 2 ^ 64" and "u \<in> {[], ''k'', ''m'', ''g'', ''t''}"
  defines "w \<equiv> of_nat n * of_nat (unit_factor u) :: 64 word"
  shows "parseSize (ds @ u) = Inr (w, w)" and "parseSize (CHR ''<'' # ds @ u) = Inr (0, w)"
    and "parseSize (CHR ''>'' # ds @ u) = Inr (w, 2 ^ 63 - 1)"
proof -
  have p: "ParseUint ds 10 64 = Inr n" using assms(1-3) by (simp add: ParseUint_def)
  have h: "hd (ds @ u) \<noteq> CHR ''<''" "hd (ds @ u) \<noteq> CHR ''>''" using size_digits(2,3) [OF assms(1,2)] assms(1) by simp_all
  note sp = size_split [OF assms(1,2,4)]
  have n: "ds @ u \<noteq> []" using assms(1) by simp
  let ?f = "\<lambda>s. and_then (ParseUint s 10 64) (\<lambda>n. Inr (of_nat n * (of_nat (unit_factor u) :: 64 word)))"
  have f: "?f ds = Inr w" using p by (simp add: w_def)
  have "parseSize (ds @ u) = and_then (?f ds) (\<lambda>n. Inr (n, n))"
    using sp(2) [of "[]"] n h by (simp only: parseSize_def Let_def sp(1) append_Nil if_False)
  then show "parseSize (ds @ u) = Inr (w, w)" by (simp only: f and_then_simps)
  have l: "last (c # ds @ u) = last (ds @ u)" "c # ds @ u \<noteq> []" for c
    using n by (simp_all add: last_ConsR del: append_is_Nil_conv)
  have t: "tl (if 1 < (of_nat (unit_factor u) :: 64 word) then butlast (c # ds @ u) else c # ds @ u) = ds" for c
    using sp(2) [of "[c]"] by (simp only: append_Cons append_Nil list.sel)
  have "parseSize (CHR ''<'' # ds @ u) = and_then (?f ds) (\<lambda>n. Inr (0, n))"
    by (simp only: parseSize_def Let_def l sp(1) t if_False if_True list.sel simp_thms)
  then show "parseSize (CHR ''<'' # ds @ u) = Inr (0, w)" by (simp only: f and_then_simps)
  have "parseSize (CHR ''>'' # ds @ u) = and_then (?f ds) (\<lambda>n. Inr (n, 2 ^ 63 - 1))"
    by (simp add: parseSize_def Let_def l sp(1) t del: butlast.simps last.simps)
  then show "parseSize (CHR ''>'' # ds @ u) = Inr (w, 2 ^ 63 - 1)" by (simp only: f and_then_simps)
qed

text \<open>
  Size filters are exact below 2 to the 63: for a decimal number, with or without a unit, whose number of
  bytes fits, a filter without sign lets exactly that size pass, \<open><\<close> the sizes up to it and \<open>>\<close>
  those from it on, the number itself included in both. When the product is 2 to the 63 or more and
  less than 2 to the 64 it becomes negative: \<open>>\<close> lets every size pass, the others none.
\<close>

theorem size_filter_exact:
  assumes "ds \<noteq> []" and "digits_val 10 0 ds = Some n" and "u \<in> {[], ''k'', ''m'', ''g'', ''t''}"
    and "n * unit_factor u < 2 ^ 64" and "0 \<le> k" and "k < 2 ^ 63"
  shows "\<exists>eq lt gt. parseSize (ds @ u) = Inr eq \<and> parseSize (''<'' @ ds @ u) = Inr lt \<and> parseSize (''>'' @ ds @ u) = Inr gt \<and>
    (if n * unit_factor u < 2 ^ 63
     then (size_passes eq k \<longleftrightarrow> k = int (n * unit_factor u)) \<and> (size_passes lt k \<longleftrightarrow> k \<le> int (n * unit_factor u)) \<and>
          (size_passes gt k \<longleftrightarrow> int (n * unit_factor u) \<le> k)
     else \<not> size_passes eq k \<and> \<not> size_passes lt k \<and> size_passes gt k)"
proof -
  define b where "b = n * unit_factor u"
  have "1 \<le> unit_factor u" by (simp add: unit_factor_def)
  then have "n \<le> b" by (simp add: b_def)
  then have n: "n < 2 ^ 64" using assms(4) unfolding b_def by (rule le_less_trans)
  have w: "of_nat n * of_nat (unit_factor u) = (of_nat b :: 64 word)" by (simp add: b_def)
  have top: "sint (2 ^ 63 - 1 :: 64 word) = 2 ^ 63 - 1" by simp
  have sint: "sint (word_of_int x :: 64 word) = x" if "- (2 ^ 63) \<le> x" "x < 2 ^ 63" for x
    using that int_word_sint [of x, where 'a = 64] by simp
  have small: "sint (of_nat b :: 64 word) = int b" if "b < 2 ^ 63"
  proof -
    have "int b < 2 ^ 63" using that by (simp only: of_nat_less_numeral_power_cancel_iff)
    with sint [of "int b"] show ?thesis by simp
  qed
  have big: "sint (of_nat b :: 64 word) < 0" if "\<not> b < 2 ^ 63"
  proof -
    have lo: "2 ^ 63 \<le> int b" using that by (simp only: numeral_power_le_of_nat_cancel_iff not_less)
    have hi: "int b < 2 ^ 64" using assms(4) by (simp only: of_nat_less_numeral_power_cancel_iff b_def)
    have eq: "(of_nat b :: 64 word) = word_of_int (int b - 2 ^ 64)"
      by (simp only: of_int_diff of_int_of_nat_eq) simp
    have "sint (of_nat b :: 64 word) = int b - 2 ^ 64"
      unfolding eq by (rule sint; use lo hi in simp)
    with hi show ?thesis by simp
  qed
  note ps = parseSize_number [OF assms(1,2) n assms(3), unfolded w]
  show ?thesis unfolding b_def [symmetric]
    using ps small big assms(5,6) top
    by (intro exI [of _ "(of_nat b, of_nat b)"] exI [of _ "(0, of_nat b)"] exI [of _ "(of_nat b, 2 ^ 63 - 1)"])
      (cases "b < 2 ^ 63"; simp add: size_passes_def; linarith)
qed

theorem size_filter_exact_witness:
  "(\<exists>eq lt gt. parseSize ''10m'' = Inr eq \<and> parseSize ''<10m'' = Inr lt \<and> parseSize ''>10m'' = Inr gt \<and>
     \<not> size_passes eq 5 \<and> size_passes lt 5 \<and> \<not> size_passes gt 5) \<and>
   (\<exists>eq lt gt. parseSize ''8388608t'' = Inr eq \<and> parseSize ''<8388608t'' = Inr lt \<and> parseSize ''>8388608t'' = Inr gt \<and>
     \<not> size_passes eq 5 \<and> \<not> size_passes lt 5 \<and> size_passes gt 5)"
  using size_filter_exact [of "''10''" 10 "''m''" 5] size_filter_exact [of "''8388608''" 8388608 "''t''" 5]
  by (simp add: digit_val_def unit_factor_def)

section \<open>The checks that are built\<close>

lemma add_checks_values:
  assumes "\<And>s v c c'. build s v c = Inr c' \<Longrightarrow> ck_code c' = code v \<and> ck_value c' = val v"
    and "add_checks build vs s = Inr s'"
  shows "map ck_code (se_checks s') = map ck_code (se_checks s) @ map code vs \<and>
    map ck_value (se_checks s') = map ck_value (se_checks s) @ map val vs"
  using assms(2)
proof (induction vs arbitrary: s)
  case (Cons v vs)
  from Cons.prems obtain c where c: "build s v (blank_check (int (length (se_checks s)) + 1)) = Inr c"
    and rest: "add_checks build vs (s\<lparr>se_checks := se_checks s @ [c], se_checkmask := se_checkmask s OR ck_code c\<rparr>) = Inr s'"
    by (auto simp: add_checks_def and_then_eq_Inr split: sum.splits)
  from Cons.IH [OF rest] assms(1) [OF c] show ?case by simp
qed (simp add: add_checks_def)

lemma built_values:
  "regex_check compile code f s v c = Inr c' \<Longrightarrow> ck_code c' = code \<and> ck_value c' = id v"
  "mode_check compile s v c = Inr c' \<Longrightarrow> ck_code c' = checkMode_code \<and> ck_value c' = id v"
  "size_check s v c = Inr c' \<Longrightarrow> ck_code c' = checkSize_code \<and> ck_value c' = id v"
  "mtime_check now s v c = Inr c' \<Longrightarrow> ck_code c' = checkMtime_code \<and> ck_value c' = id v"
  "hash_check h f s v c = Inr c' \<Longrightarrow> ck_code c' = (case h v of None \<Rightarrow> 0 | Some t \<Rightarrow> t) \<and> ck_value c' = ToUpper v"
  by (auto simp: regex_check_def mode_check_def size_check_def mtime_check_def hash_check_def and_then_eq_Inr)

text \<open>The codes and values of the checks, from the parameters.\<close>

definition search_codes :: "search \<Rightarrow> check_type list" where
  "search_codes s =
     map (\<lambda>_. checkContent_code) (se_Contents s) @ map (\<lambda>_. checkName_code) (se_Names s) @
     map (\<lambda>_. checkSize_code) (se_Sizes s) @ map (\<lambda>_. checkMode_code) (se_Modes s) @
     map (\<lambda>_. checkMtime_code) (se_Mtimes s) @ map (\<lambda>_. checkMD5) (se_MD5 s) @ map (\<lambda>_. checkSHA1) (se_SHA1 s) @
     map (\<lambda>v. case sha2_code v of None \<Rightarrow> 0 | Some t \<Rightarrow> t) (se_SHA2 s) @
     map (\<lambda>v. case sha3_code v of None \<Rightarrow> 0 | Some t \<Rightarrow> t) (se_SHA3 s)"

definition search_values :: "search \<Rightarrow> string list" where
  "search_values s = se_Contents s @ se_Names s @ se_Sizes s @ se_Modes s @ se_Mtimes s @
     map ToUpper (se_MD5 s @ se_SHA1 s @ se_SHA2 s @ se_SHA3 s)"

lemma makeChecks_values:
  assumes "makeChecks compile now s = Inr s'" and "se_checks s = []"
  shows "map ck_code (se_checks s') = search_codes s" and "map ck_value (se_checks s') = search_values s"
proof -
  from assms(1) obtain s1 s2 s3 s4 s5 s6 s7 s8 where
    1: "add_checks (regex_check compile checkContent_code ''content'') (se_Contents s)
       (s\<lparr>se_Options := default_limits (se_Options s)\<rparr>) = Inr s1"
    and 2: "add_checks (regex_check compile checkName_code ''name'') (se_Names s) s1 = Inr s2"
    and 3: "add_checks size_check (se_Sizes s) s2 = Inr s3" and 4: "add_checks (mode_check compile) (se_Modes s) s3 = Inr s4"
    and 5: "add_checks (mtime_check now) (se_Mtimes s) s4 = Inr s5"
    and 6: "add_checks (hash_check (\<lambda>_. Some checkMD5) ''md5'') (se_MD5 s) s5 = Inr s6"
    and 7: "add_checks (hash_check (\<lambda>_. Some checkSHA1) ''sha1'') (se_SHA1 s) s6 = Inr s7"
    and 8: "add_checks (hash_check sha2_code ''sha2'') (se_SHA2 s) s7 = Inr s8"
    and 9: "add_checks (hash_check sha3_code ''sha3'') (se_SHA3 s) s8 = Inr s'"
    by (auto simp: makeChecks_def and_then_eq_Inr)
  note vs = add_checks_values [OF built_values(1) 1] add_checks_values [OF built_values(1) 2]
    add_checks_values [OF built_values(3) 3] add_checks_values [OF built_values(2) 4]
    add_checks_values [OF built_values(4) 5] add_checks_values [OF built_values(5) 6]
    add_checks_values [OF built_values(5) 7] add_checks_values [OF built_values(5) 8]
    add_checks_values [OF built_values(5) 9]
  then show "map ck_code (se_checks s') = search_codes s" "map ck_value (se_checks s') = search_values s"
    using assms(2) by (simp_all add: search_codes_def search_values_def)
qed

text \<open>
  C17. The checks have the type that the rest of the module relies on: there is one for each value of the
  parameters, in their order and numbered from 1, of the kind of the list it comes from, with no files
  matched; the mask is the union of their kinds, so the bit of a known kind is set exactly when
  there is a check of it.
\<close>

theorem makeChecks_well_formed:
  assumes "fresh_search s" and "makeChecks compile now s = Inr s'"
  shows "map ck_checkid (se_checks s') = map (\<lambda>i. int i + 1) [0..<length (search_values s)] \<and>
    map ck_code (se_checks s') = search_codes s \<and> map ck_value (se_checks s') = search_values s \<and>
    list_all (\<lambda>c. ck_matchedfiles c = []) (se_checks s') \<and>
    list_all (\<lambda>t. (se_checkmask s' AND t \<noteq> 0) = (t \<in> set (search_codes s))) known_codes"
proof -
  note fresh = makeChecks_fresh [OF assms]
  have vals: "map ck_code (se_checks s') = search_codes s" "map ck_value (se_checks s') = search_values s"
    using makeChecks_values [OF assms(2)] assms(1) by (simp_all add: fresh_search_def)
  have len: "length (se_checks s') = length (search_values s)" using vals(2) by (metis length_map)
  have mask: "se_checkmask s' AND t \<noteq> 0 \<longleftrightarrow> t \<in> set (search_codes s)" if t: "t \<in> set known_codes" for t
  proof -
    have "se_checkmask s' AND t \<noteq> 0 \<longleftrightarrow> (\<exists>c\<in>set (se_checks s'). of_code t c)"
      using mask_ok_code fresh by (simp add: fresh_checks_def)
    also have "\<dots> \<longleftrightarrow> (\<exists>c\<in>set (se_checks s'). ck_code c = t)"
      using of_code_known [OF _ t] fresh by (auto simp: fresh_checks_def)
    also have "\<dots> \<longleftrightarrow> t \<in> set (search_codes s)" unfolding vals(1) [symmetric] by auto
    finally show ?thesis .
  qed
  have "map ck_checkid (se_checks s') = map (\<lambda>i. int i + 1) [0..<length (search_values s)]"
    using fresh len by (simp only: fresh_checks_def)
  moreover have "list_all (\<lambda>c. ck_matchedfiles c = []) (se_checks s')"
    using fresh by (simp add: fresh_checks_def list_all_iff)
  moreover have "list_all (\<lambda>t. (se_checkmask s' AND t \<noteq> 0) = (t \<in> set (search_codes s))) known_codes"
    using mask by (simp add: list_all_iff del: set_append)
  ultimately show ?thesis using vals by (intro conjI)
qed

theorem makeChecks_well_formed_witness:
  "map ck_checkid (se_checks example_checked) = map (\<lambda>i. int i + 1) [0..<length (search_values example_search)] \<and>
   map ck_code (se_checks example_checked) = search_codes example_search"
proof -
  have "fresh_search example_search" by (simp add: fresh_search_def example_search_def zero_search_def)
  moreover have "makeChecks example_engine 0 example_search = Inr example_checked"
    using example_checks [of 0] by (simp add: example_checked_def)
  ultimately show ?thesis using makeChecks_well_formed by blast
qed

section \<open>A hash of the wrong length\<close>

text \<open>
  A SHA-2 value of a length that is not one of a hash passes the validation, and its check has the code
  zero, which no stage makes: whatever the files are, a search that wants all of its checks
  does not match any of them.
\<close>

theorem wrong_hash_matches_nothing:
  assumes "fresh_search s" and "makeChecks compile now s = Inr s'" and "h \<in> set (se_SHA2 s)"
    and "length h \<notin> {64, 96, 128}"
  shows "validate_sha sha2_code h = Inr () \<and> \<not> satisfies fs dc s' f"
proof -
  have none: "sha2_code h = None" using assms(4) by (simp add: sha2_code_def)
  have "(case sha2_code h of None \<Rightarrow> 0 | Some t \<Rightarrow> t) \<in> (\<lambda>v. case sha2_code v of None \<Rightarrow> 0 | Some t \<Rightarrow> t) ` set (se_SHA2 s)"
    using assms(3) by (rule imageI)
  then have "0 \<in> set (search_codes s)" unfolding none search_codes_def set_append set_map by simp
  moreover have "map ck_code (se_checks s') = search_codes s"
    using makeChecks_values [OF assms(2)] assms(1) by (simp add: fresh_search_def)
  ultimately have "0 \<in> ck_code ` set (se_checks s')" by (metis set_map)
  then obtain c where c: "c \<in> set (se_checks s')" "ck_code c = 0" by auto
  then have "\<not> wanted_by ts c" for ts by (simp add: wanted_by_def of_code_def)
  with c(1) have "\<not> satisfies fs dc s' f" unfolding satisfies_def by blast
  then show ?thesis using none by (simp add: validate_sha_def)
qed

theorem wrong_hash_matches_nothing_witness:
  "\<exists>s'. makeChecks example_engine 0 (zero_search\<lparr>se_SHA2 := [''AB'']\<rparr>) = Inr s' \<and> \<not> satisfies (example_files []) False s' ''/d/a''"
proof -
  let ?s = "zero_search\<lparr>se_SHA2 := [''AB'']\<rparr>"
  have "fresh_search ?s" by (simp add: fresh_search_def zero_search_def)
  moreover have "makeChecks example_engine 0 ?s \<noteq> Inl e" for e
    by (simp add: makeChecks_def zero_search_def add_checks_def hash_check_def recovered_def)
  then obtain s' where "makeChecks example_engine 0 ?s = Inr s'" by (cases "makeChecks example_engine 0 ?s") auto
  ultimately show ?thesis using wrong_hash_matches_nothing [of ?s example_engine 0 _ "''AB''"] by auto
qed

end
