(* ===== verification/SearchParams.thy ===== *)
theory SearchParams
  imports GoStd CommandTable
begin

text \<open>
  The parameters of a search (\<open>database/search/parameters.go\<close>), their query string, and how the API
  reads them (\<open>parseSearchParameters\<close> in \<open>mig-api/search.go\<close>).

  Numbers are floating-point numbers in Go; they are taken to be integers. Times are printed and
  parsed by parameters, and so are numbers.
\<close>

section \<open>Parameters\<close>

record search_params =
  sp_ActionID :: string
  sp_ActionName :: string
  sp_After :: time
  sp_AgentID :: string
  sp_AgentName :: string
  sp_AgentVersion :: string
  sp_Before :: time
  sp_CommandID :: string
  sp_FoundAnything :: bool
  sp_InvestigatorID :: string
  sp_InvestigatorName :: string
  sp_Limit :: int
  sp_LoaderID :: string
  sp_LoaderName :: string
  sp_ManifestID :: string
  sp_ManifestName :: string
  sp_Offset :: int
  sp_Report :: string
  sp_Status :: string
  sp_Target :: string
  sp_ThreatFamily :: string
  sp_Type :: string

definition DefaultWindow :: duration where "DefaultWindow = 39600 * 3600 * 1000000000"

text \<open>The bytes of the infinity sign, which stands for any identifier; any text is a percent sign.\<close>

definition any_id :: string where "any_id = [CHR 0xE2, CHR 0x88, CHR 0x9E]"
definition any_text :: string where "any_text = ''%''"

definition NewParameters :: "time \<Rightarrow> search_params" where
  "NewParameters now =
     \<lparr>sp_ActionID = any_id, sp_ActionName = any_text, sp_After = now - DefaultWindow, sp_AgentID = any_id,
      sp_AgentName = any_text, sp_AgentVersion = any_text, sp_Before = now + DefaultWindow, sp_CommandID = any_id,
      sp_FoundAnything = False, sp_InvestigatorID = any_id, sp_InvestigatorName = any_text, sp_Limit = 100,
      sp_LoaderID = any_id, sp_LoaderName = any_text, sp_ManifestID = any_id, sp_ManifestName = any_text,
      sp_Offset = 0, sp_Report = [], sp_Status = any_text, sp_Target = [], sp_ThreatFamily = any_text,
      sp_Type = ''action''\<rparr>"

text \<open>The query string: \<open>format\<close> prints a time, \<open>show_num\<close> a number as \<open>%.0f\<close>.\<close>

definition query_pair :: "string \<Rightarrow> string \<Rightarrow> string" where
  "query_pair k v = ''&'' @ k @ ''='' @ v"

definition pair_unless :: "string \<Rightarrow> string \<Rightarrow> string \<Rightarrow> string" where
  "pair_unless any k v = (if v \<noteq> any then query_pair k v else [])"

definition escape_wildcards :: "string \<Rightarrow> string" where
  "escape_wildcards q = replace_all ''+'' ''%25'' (replace_all ''*'' ''%25'' (replace_all ''%'' ''%25'' q))"

definition params_String :: "(time \<Rightarrow> string) \<Rightarrow> (int \<Rightarrow> string) \<Rightarrow> search_params \<Rightarrow> string" where
  "params_String format show_num p =
     escape_wildcards
       (''type='' @ sp_Type p @ query_pair ''after'' (format (sp_After p)) @ query_pair ''before'' (format (sp_Before p)) @
        pair_unless any_id ''actionid'' (sp_ActionID p) @ pair_unless any_text ''actionname'' (sp_ActionName p) @
        pair_unless any_id ''agentid'' (sp_AgentID p) @ pair_unless any_text ''agentname'' (sp_AgentName p) @
        pair_unless any_text ''agentversion'' (sp_AgentVersion p) @ pair_unless any_id ''commandid'' (sp_CommandID p) @
        pair_unless any_id ''investigatorid'' (sp_InvestigatorID p) @
        pair_unless any_text ''investigatorname'' (sp_InvestigatorName p) @
        pair_unless any_id ''loaderid'' (sp_LoaderID p) @ pair_unless any_text ''loadername'' (sp_LoaderName p) @
        pair_unless any_text ''manifestname'' (sp_ManifestName p) @ pair_unless any_id ''manifestid'' (sp_ManifestID p) @
        query_pair ''limit'' (show_num (sp_Limit p)) @
        (if sp_Offset p \<noteq> 0 then query_pair ''offset'' (show_num (sp_Offset p)) else []) @
        pair_unless any_text ''status'' (sp_Status p) @ pair_unless any_text ''threatfamily'' (sp_ThreatFamily p))"

section \<open>Reading a query\<close>

text \<open>
  \<open>url.Values\<close>, in the order of the iteration: the keys are distinct, and each has at least one value.
\<close>

type_synonym url_values = "(string \<times> string list) list"

record search_env =
  sn_ParseTime :: "string \<Rightarrow> time result"
  sn_ParseFloat :: "string \<Rightarrow> int \<times> go_error option"

definition string_params :: "(string \<times> (string \<Rightarrow> search_params \<Rightarrow> search_params)) list" where
  "string_params =
     [(''actionname'', \<lambda>v. sp_ActionName_update (\<lambda>_. v)), (''actionid'', \<lambda>v. sp_ActionID_update (\<lambda>_. v)),
      (''agentid'', \<lambda>v. sp_AgentID_update (\<lambda>_. v)), (''agentname'', \<lambda>v. sp_AgentName_update (\<lambda>_. v)),
      (''agentversion'', \<lambda>v. sp_AgentVersion_update (\<lambda>_. v)), (''commandid'', \<lambda>v. sp_CommandID_update (\<lambda>_. v)),
      (''investigatorid'', \<lambda>v. sp_InvestigatorID_update (\<lambda>_. v)),
      (''investigatorname'', \<lambda>v. sp_InvestigatorName_update (\<lambda>_. v)),
      (''loadername'', \<lambda>v. sp_LoaderName_update (\<lambda>_. v)), (''loaderid'', \<lambda>v. sp_LoaderID_update (\<lambda>_. v)),
      (''manifestname'', \<lambda>v. sp_ManifestName_update (\<lambda>_. v)), (''manifestid'', \<lambda>v. sp_ManifestID_update (\<lambda>_. v)),
      (''status'', \<lambda>v. sp_Status_update (\<lambda>_. v)), (''target'', \<lambda>v. sp_Target_update (\<lambda>_. v)),
      (''threatfamily'', \<lambda>v. sp_ThreatFamily_update (\<lambda>_. v)), (''type'', \<lambda>v. sp_Type_update (\<lambda>_. v))]"

definition parsed_number :: "string \<Rightarrow> int \<times> go_error option \<Rightarrow> int result" where
  "parsed_number msg r = (case r of (n, None) \<Rightarrow> Inr n | (_, Some _) \<Rightarrow> Inl (errors_New msg))"

definition parsed_time :: "string \<Rightarrow> time result \<Rightarrow> time result" where
  "parsed_time msg r = (case r of Inl _ \<Rightarrow> Inl (errors_New msg) | Inr t \<Rightarrow> Inr t)"

text \<open>One parameter of the query; unknown ones are passed over.\<close>

definition search_param :: "search_env \<Rightarrow> search_params \<times> bool \<Rightarrow> string \<times> string list \<Rightarrow> (search_params \<times> bool) result" where
  "search_param env st kv =
     (case st of (p, found) \<Rightarrow> case kv of (k, vs) \<Rightarrow>
        (let v = hd vs
         in if k = ''after''
            then and_then (parsed_time ''after date not in RFC3339 format'' (sn_ParseTime env v)) (\<lambda>t.
                   Inr (p\<lparr>sp_After := t\<rparr>, found))
            else if k = ''before''
            then and_then (parsed_time ''before date not in RFC3339 format'' (sn_ParseTime env v)) (\<lambda>t.
                   Inr (p\<lparr>sp_Before := t\<rparr>, found))
            else if k = ''foundanything''
            then (if ToUpper v = ''TRUE'' then Inr (p\<lparr>sp_FoundAnything := True\<rparr>, True)
                  else if ToUpper v = ''FALSE'' then Inr (p\<lparr>sp_FoundAnything := False\<rparr>, True)
                  else Inl (errors_New ''foundanything parameter must be true or false''))
            else if k = ''limit''
            then and_then (parsed_number ''invalid limit parameter'' (sn_ParseFloat env v)) (\<lambda>n.
                   Inr (p\<lparr>sp_Limit := n\<rparr>, found))
            else if k = ''offset''
            then and_then (parsed_number ''invalid offset parameter'' (sn_ParseFloat env v)) (\<lambda>n.
                   Inr (p\<lparr>sp_Offset := n\<rparr>, found))
            else (case map_of string_params k of Some upd \<Rightarrow> Inr (upd v p, found) | None \<Rightarrow> Inr (p, found))))"

definition parseSearchParameters :: "search_env \<Rightarrow> time \<Rightarrow> url_values \<Rightarrow> (search_params \<times> bool) result" where
  "parseSearchParameters env now qp =
     recovered ''parseSearchParameters'' (fold_res (search_param env) (NewParameters now, False) qp)"

end
