(* ===== verification/SearchQuery.thy ===== *)
theory SearchQuery
  imports SearchParams AgentTable
begin

text \<open>
  The searches of the database (\<open>database/searches.go\<close>). A statement is kept as its structure: the
  conditions with the numbers of their placeholders, the joined tables, and the values; \<open>query_text\<close> prints
  it, up to white space. PostgreSQL refuses a statement that has no condition after \<open>WHERE\<close> or that names a
  table that is not in it. What it selects is defined on lists of rows; \<open>ILIKE\<close> and the operators on JSON
  are parameters.
\<close>

section \<open>Statements\<close>

datatype sql_value = VText string | VTime time | VNum int | VBool bool | VNull

text \<open>A column of a table, or the family in its JSON value.\<close>

datatype column = Col string string | FamilyOf string string

datatype sql_op = LE | GE | ILIKE

text \<open>
  A condition over placeholders or over values. The last form is the condition of \<open>SearchCommands\<close> on the
  status and on the results, whose values are the status, the limits of the action and what is found.
\<close>

datatype 'a sql_cond = Cmp column sql_op 'a | Found 'a 'a 'a 'a

record sql_join =
  jn_Table :: string
  jn_Left :: column
  jn_Right :: column

record query_state =
  qs_Where :: "nat sql_cond list"
  qs_Vals :: "sql_value list"
  qs_Ctr :: nat

definition empty_query :: query_state where
  "empty_query = \<lparr>qs_Where = [], qs_Vals = [], qs_Ctr = 0\<rparr>"

fun number_cond :: "nat \<Rightarrow> 'a sql_cond \<Rightarrow> nat sql_cond" where
  "number_cond k (Cmp c op v) = Cmp c op (k + 1)"
| "number_cond k (Found s lo hi b) = Found (k + 1) (k + 2) (k + 3) (k + 4)"

fun cond_args :: "'a sql_cond \<Rightarrow> 'a list" where
  "cond_args (Cmp c op v) = [v]"
| "cond_args (Found s lo hi b) = [s, lo, hi, b]"

definition add_cond :: "query_state \<Rightarrow> sql_value sql_cond \<Rightarrow> query_state" where
  "add_cond qs c =
     qs\<lparr>qs_Where := qs_Where qs @ [number_cond (qs_Ctr qs) c], qs_Vals := qs_Vals qs @ cond_args c,
        qs_Ctr := qs_Ctr qs + length (cond_args c)\<rparr>"

text \<open>The conditions of the parameters that are set, in the order of the code.\<close>

definition add_if :: "query_state \<Rightarrow> bool \<times> sql_value sql_cond list \<Rightarrow> query_state" where
  "add_if qs g = (if fst g then foldl add_cond qs (snd g) else qs)"

definition build_query :: "(bool \<times> sql_value sql_cond list) list \<Rightarrow> query_state" where
  "build_query groups = foldl add_if empty_query groups"

subsection \<open>Text\<close>

fun show_column :: "column \<Rightarrow> string" where
  "show_column (Col t c) = t @ ''.'' @ c"
| "show_column (FamilyOf t c) = t @ ''.'' @ c @ ''#>>'' @ quoted ''{family}''"

fun show_op :: "sql_op \<Rightarrow> string" where
  "show_op LE = ''<=''" | "show_op GE = ''>=''" | "show_op ILIKE = ''ILIKE''"

definition placeholder :: "nat \<Rightarrow> string" where
  "placeholder k = ''$'' @ fmt_nat k"

fun show_cond :: "nat sql_cond \<Rightarrow> string" where
  "show_cond (Cmp c op k) = show_column c @ '' '' @ show_op op @ '' '' @ placeholder k"
| "show_cond (Found s lo hi b) =
     ''commands.status = '' @ placeholder s @
     '' AND commands.id IN ( SELECT commands.id FROM commands, actions, json_array_elements(commands.results) as r '' @
     ''WHERE commands.actionid=actions.id AND actions.id >= '' @ placeholder lo @ '' AND actions.id <= '' @ placeholder hi @
     '' AND r#>>'' @ quoted ''{foundanything}'' @ '' = '' @ placeholder b @ '') ''"

definition show_join :: "sql_join \<Rightarrow> string" where
  "show_join j = '' INNER JOIN '' @ jn_Table j @ '' ON ( '' @ show_column (jn_Left j) @ '' = '' @ show_column (jn_Right j) @ '' ) ''"

definition query_text :: "string \<Rightarrow> string \<Rightarrow> sql_join list \<Rightarrow> query_state \<Rightarrow> string \<Rightarrow> string" where
  "query_text columns from joins qs order =
     ''SELECT '' @ columns @ '' FROM '' @ from @ concat (map show_join joins) @ '' WHERE '' @
     Join (map show_cond (qs_Where qs)) '' AND '' @ order"

definition limit_text :: "query_state \<Rightarrow> string" where
  "limit_text qs = '' LIMIT '' @ placeholder (qs_Ctr qs + 1) @ '' OFFSET '' @ placeholder (qs_Ctr qs + 2) @ '';''"

subsection \<open>Meaning\<close>

record sql_ops =
  so_ILike :: "string \<Rightarrow> string \<Rightarrow> bool"
  so_Family :: "string \<Rightarrow> string option"
  so_Found :: "string \<Rightarrow> bool \<Rightarrow> bool"
  so_Uint64 :: "int \<Rightarrow> nat"
  so_Tie :: "nat \<Rightarrow> nat"

text \<open>A row as a function of its columns; a joined row has one for each table.\<close>

type_synonym view = "string \<Rightarrow> sql_value"
type_synonym joined = "(string \<times> view) list"

definition action_view :: "action_row \<Rightarrow> view" where
  "action_view r = (\<lambda>c. if c = ''id'' then VNum (ar_ID r) else if c = ''name'' then VText (ar_Name r)
     else if c = ''threat'' then VText (ar_Threat r) else if c = ''validfrom'' then VTime (ar_ValidFrom r)
     else if c = ''expireafter'' then VTime (ar_ExpireAfter r) else if c = ''status'' then VText (ar_Status r) else VNull)"

definition command_view :: "command_row \<Rightarrow> view" where
  "command_view r c = (if c = ''id'' then VNum (cr_ID r) else if c = ''actionid'' then VNum (cr_ActionID r)
     else if c = ''agentid'' then VNum (cr_AgentID r) else if c = ''status'' then VText (cr_Status r)
     else if c = ''results'' then VText (cr_Results r) else if c = ''starttime'' then VTime (cr_StartTime r) else VNull)"

definition agent_view :: "agent_row \<Rightarrow> view" where
  "agent_view r c = (if c = ''id'' then VNum (gr_ID r) else if c = ''name'' then VText (gr_Name r)
     else if c = ''version'' then VText (gr_Version r) else if c = ''heartbeattime'' then VTime (gr_HeartBeatTS r)
     else if c = ''status'' then VText (gr_Status r) else VNull)"

definition signature_view :: "signature_row \<Rightarrow> view" where
  "signature_view r c = (if c = ''actionid'' then VNum (sr_ActionID r)
     else if c = ''investigatorid'' then VNum (sr_InvestigatorID r) else VNull)"

definition investigator_view :: "inv_row \<Rightarrow> view" where
  "investigator_view r c = (if c = ''id'' then VNum (i_ID r) else if c = ''name'' then VText (i_Name r)
     else if c = ''status'' then VText (i_Status r) else if c = ''lastmodified'' then VTime (i_LastModified r) else VNull)"

definition manifest_view :: "manifest_row \<Rightarrow> view" where
  "manifest_view r c = (if c = ''id'' then VNum (m_ID r) else if c = ''name'' then VText (m_Name r)
     else if c = ''status'' then VText (m_Status r) else if c = ''timestamp'' then VTime (m_Timestamp r) else VNull)"

definition loader_view :: "loader_row \<Rightarrow> view" where
  "loader_view r c = (if c = ''id'' then VNum (l_ID r) else if c = ''loadername'' then VText (l_LoaderName r)
     else if c = ''name'' then (case l_Name r of None \<Rightarrow> VNull | Some n \<Rightarrow> VText n)
     else if c = ''lastseen'' then VTime (l_LastSeen r) else VNull)"

definition table_rows :: "mig_db \<Rightarrow> string \<Rightarrow> view list" where
  "table_rows db t =
     (if t = ''actions'' then map action_view (t_Actions db) else if t = ''commands'' then map command_view (t_Commands db)
      else if t = ''agents'' then map agent_view (t_Agents db) else if t = ''signatures'' then map signature_view (t_Signatures db)
      else if t = ''investigators'' then map investigator_view (idb_Rows (t_Investigators db)) else [])"

fun col_value :: "sql_ops \<Rightarrow> joined \<Rightarrow> column \<Rightarrow> sql_value" where
  "col_value eng j (Col t c) = (case map_of j t of None \<Rightarrow> VNull | Some v \<Rightarrow> v c)"
| "col_value eng j (FamilyOf t c) =
     (case map_of j t of
        Some v \<Rightarrow> (case v c of VText s \<Rightarrow> (case so_Family eng s of None \<Rightarrow> VNull | Some f \<Rightarrow> VText f) | _ \<Rightarrow> VNull)
      | None \<Rightarrow> VNull)"

definition op_holds :: "sql_ops \<Rightarrow> sql_op \<Rightarrow> sql_value \<Rightarrow> sql_value \<Rightarrow> bool" where
  "op_holds eng op a b =
     (case (a, b) of
        (VTime x, VTime y) \<Rightarrow> op = LE \<and> x \<le> y \<or> op = GE \<and> y \<le> x
      | (VNum x, VNum y) \<Rightarrow> op = LE \<and> x \<le> y \<or> op = GE \<and> y \<le> x
      | (VText x, VText y) \<Rightarrow> op = ILIKE \<and> so_ILike eng x y
      | _ \<Rightarrow> False)"

fun cond_holds :: "sql_ops \<Rightarrow> joined \<Rightarrow> ('a \<Rightarrow> sql_value) \<Rightarrow> 'a sql_cond \<Rightarrow> bool" where
  "cond_holds eng j val (Cmp c op x) = op_holds eng op (col_value eng j c) (val x)"
| "cond_holds eng j val (Found s lo hi b) =
     (col_value eng j (Col ''commands'' ''status'') = val s \<and>
      op_holds eng GE (col_value eng j (Col ''commands'' ''actionid'')) (val lo) \<and>
      op_holds eng LE (col_value eng j (Col ''commands'' ''actionid'')) (val hi) \<and>
      (case (col_value eng j (Col ''commands'' ''results''), val b) of
         (VText results, VBool found) \<Rightarrow> so_Found eng results found | _ \<Rightarrow> False))"

definition arg :: "sql_value list \<Rightarrow> nat \<Rightarrow> sql_value" where
  "arg vals k = (if 0 < k \<and> k \<le> length vals then vals ! (k - 1) else VNull)"

definition join_rows :: "sql_ops \<Rightarrow> (string \<Rightarrow> view list) \<Rightarrow> joined list \<Rightarrow> sql_join \<Rightarrow> joined list" where
  "join_rows eng tables js jn =
     [j @ [(jn_Table jn, v)]. j \<leftarrow> js, v \<leftarrow> tables (jn_Table jn),
        col_value eng (j @ [(jn_Table jn, v)]) (jn_Left jn) = col_value eng (j @ [(jn_Table jn, v)]) (jn_Right jn)]"

definition selected :: "sql_ops \<Rightarrow> (string \<Rightarrow> view list) \<Rightarrow> sql_join list \<Rightarrow> query_state \<Rightarrow> joined \<Rightarrow> bool" where
  "selected eng tables joins qs base =
     list_ex (\<lambda>j. list_all (cond_holds eng j (arg (qs_Vals qs))) (qs_Where qs)) (foldl (join_rows eng tables) [base] joins)"

fun column_table :: "column \<Rightarrow> string" where
  "column_table (Col t c) = t" | "column_table (FamilyOf t c) = t"

fun cond_tables :: "'a sql_cond \<Rightarrow> string list" where
  "cond_tables (Cmp c op x) = [column_table c]" | "cond_tables (Found s lo hi b) = [''commands'']"

definition in_tables :: "string list \<Rightarrow> string list \<Rightarrow> bool" where
  "in_tables scope ts \<longleftrightarrow> list_all (\<lambda>t. list_ex (\<lambda>s. s = t) scope) ts"

definition sql_prepare :: "string list \<Rightarrow> query_state \<Rightarrow> unit result" where
  "sql_prepare scope qs =
     (if qs_Where qs = [] then Inl (errors_New ''pq: syntax error'')
      else if \<not> list_all (\<lambda>c. in_tables scope (cond_tables c)) (qs_Where qs)
      then Inl (errors_New ''pq: missing FROM-clause entry'') else Inr ())"

text \<open>The conversion of a negative number to \<open>uint64\<close> is left open by Go; it is a parameter.\<close>

definition uint64_of :: "sql_ops \<Rightarrow> int \<Rightarrow> nat" where
  "uint64_of eng n = (if 0 \<le> n then nat n else so_Uint64 eng n)"

text \<open>
  \<open>ORDER BY\<close> leaves the order of rows with equal keys to the database, and every query may have another one:
  \<open>so_Tie\<close> ranks the positions of the rows before they are sorted by the key.
\<close>

definition order_by :: "sql_ops \<Rightarrow> ('r \<Rightarrow> 'k :: linorder) \<Rightarrow> 'r list \<Rightarrow> 'r list" where
  "order_by eng key rs = sort_key key (map snd (sort_key (\<lambda>(i, r). so_Tie eng i) (enumerate 0 rs)))"

lemma mset_order_by [simp]: "mset (order_by eng key rs) = mset rs"
proof -
  have "mset (order_by eng key rs) = image_mset snd (mset (enumerate 0 rs))" by (simp add: order_by_def)
  also have "\<dots> = mset (map snd (enumerate 0 rs))" by (simp only: mset_map)
  finally show ?thesis by simp
qed

lemma set_order_by [simp]: "set (order_by eng key rs) = set rs"
  using mset_order_by by (rule mset_eq_setD)

lemma length_order_by [simp]: "length (order_by eng key rs) = length rs"
  using mset_order_by by (rule mset_eq_length)

lemma distinct_order_by [simp]: "distinct (order_by eng key rs) = distinct rs"
  using mset_order_by by (rule mset_eq_imp_distinct_iff)

lemma sorted_order_by [simp]: "sorted (map key (order_by eng key rs))"
  by (simp add: order_by_def)

lemma order_by_Nil [simp]: "order_by eng key [] = []"
  by (simp add: order_by_def)

text \<open>Rows with different keys have one order only.\<close>

lemma order_by_no_ties:
  assumes "inj_on key (set rs)"
  shows "order_by eng key rs = sort_key key rs"
  using sort_key_inj_key_eq [OF mset_order_by [symmetric] assms sorted_order_by] by (rule sym)

definition limit_rows :: "sql_ops \<Rightarrow> search_params \<Rightarrow> 'r list \<Rightarrow> 'r list" where
  "limit_rows eng p rs = take (uint64_of eng (sp_Limit p)) (drop (uint64_of eng (sp_Offset p)) rs)"

definition prepare_error :: "string \<Rightarrow> unit result \<Rightarrow> unit result" where
  "prepare_error query r =
     (case r of
        Inl e \<Rightarrow> Inl (Errorf (''Error while preparing search statement: '' @ quoted ''%v'' @ '' in '' @ quoted ''%s'')
                   [AErr e, AStr query])
      | Inr _ \<Rightarrow> Inr ())"

end
