(* ===== verification/Searches.thy ===== *)
theory Searches
  imports SearchQuery "HOL-Library.List_Lexorder" "HOL-Library.Char_ord"
begin

text \<open>
  The six searches of \<open>database/searches.go\<close>. \<open>time.Now()\<close> is read once for a statement. Errors of the
  connection and of \<open>rows.Err\<close>, whose result the code drops, are left out.
\<close>

section \<open>Identifiers\<close>

record search_ids =
  minActionID :: int
  maxActionID :: int
  minCommandID :: int
  maxCommandID :: int
  minAgentID :: int
  maxAgentID :: int
  minInvID :: int
  maxInvID :: int
  minManID :: int
  maxManID :: int
  minLdrID :: int
  maxLdrID :: int

definition MAXFLOAT64 :: int where "MAXFLOAT64 = 9007199254740991"

definition zero_ids :: search_ids where
  "zero_ids = \<lparr>minActionID = 0, maxActionID = 0, minCommandID = 0, maxCommandID = 0, minAgentID = 0, maxAgentID = 0,
     minInvID = 0, maxInvID = 0, minManID = 0, maxManID = 0, minLdrID = 0, maxLdrID = 0\<rparr>"

text \<open>The limits for one identifier: after an error the lower one is what \<open>ParseFloat\<close> returned.\<close>

definition id_range :: "(string \<Rightarrow> int \<times> go_error option) \<Rightarrow> string \<Rightarrow> (int \<times> int) \<times> go_error option" where
  "id_range parse i =
     (if i = any_id then ((0, MAXFLOAT64), None)
      else (case parse i of (n, None) \<Rightarrow> ((n, n), None) | (n, Some e) \<Rightarrow> ((n, MAXFLOAT64), Some e)))"

text \<open>The first error ends the function; the limits that follow stay zero.\<close>

fun id_ranges ::
  "(string \<Rightarrow> int \<times> go_error option) \<Rightarrow> (string \<times> (int \<times> int \<Rightarrow> search_ids \<Rightarrow> search_ids)) list \<Rightarrow> search_ids \<Rightarrow>
     search_ids \<times> go_error option" where
  "id_ranges parse [] ids = (ids, None)"
| "id_ranges parse ((i, put) # rest) ids =
     (case id_range parse i of
        (r, None) \<Rightarrow> id_ranges parse rest (put r ids)
      | (r, Some e) \<Rightarrow> (put r ids, Some e))"

definition makeIDsFromParams :: "(string \<Rightarrow> int \<times> go_error option) \<Rightarrow> search_params \<Rightarrow> search_ids \<times> go_error option" where
  "makeIDsFromParams parse p =
     id_ranges parse
       [(sp_ActionID p, \<lambda>(lo, hi) ids. ids\<lparr>minActionID := lo, maxActionID := hi\<rparr>),
        (sp_CommandID p, \<lambda>(lo, hi) ids. ids\<lparr>minCommandID := lo, maxCommandID := hi\<rparr>),
        (sp_AgentID p, \<lambda>(lo, hi) ids. ids\<lparr>minAgentID := lo, maxAgentID := hi\<rparr>),
        (sp_InvestigatorID p, \<lambda>(lo, hi) ids. ids\<lparr>minInvID := lo, maxInvID := hi\<rparr>),
        (sp_ManifestID p, \<lambda>(lo, hi) ids. ids\<lparr>minManID := lo, maxManID := hi\<rparr>),
        (sp_LoaderID p, \<lambda>(lo, hi) ids. ids\<lparr>minLdrID := lo, maxLdrID := hi\<rparr>)] zero_ids"

section \<open>Conditions\<close>

definition hour_ns :: duration where "hour_ns = 3600 * 1000000000"

definition before_cond :: "time \<Rightarrow> search_params \<Rightarrow> column \<Rightarrow> bool \<times> sql_value sql_cond list" where
  "before_cond now p c = (sp_Before p < now + (DefaultWindow - hour_ns), [Cmp c LE (VTime (sp_Before p))])"

definition after_cond :: "time \<Rightarrow> search_params \<Rightarrow> column \<Rightarrow> bool \<times> sql_value sql_cond list" where
  "after_cond now p c = (now - (DefaultWindow - hour_ns) < sp_After p, [Cmp c GE (VTime (sp_After p))])"

definition id_cond :: "string \<Rightarrow> column \<Rightarrow> int \<Rightarrow> int \<Rightarrow> bool \<times> sql_value sql_cond list" where
  "id_cond i c lo hi = (i \<noteq> any_id, [Cmp c GE (VNum lo), Cmp c LE (VNum hi)])"

definition text_cond :: "string \<Rightarrow> column \<Rightarrow> bool \<times> sql_value sql_cond list" where
  "text_cond v c = (v \<noteq> any_text, [Cmp c ILIKE (VText v)])"

definition join_if :: "bool \<Rightarrow> sql_join list \<Rightarrow> sql_join list" where
  "join_if b js = (if b then js else [])"

definition to_signatures_of_action :: "sql_join list" where
  "to_signatures_of_action =
     [\<lparr>jn_Table = ''signatures'', jn_Left = Col ''actions'' ''id'', jn_Right = Col ''signatures'' ''actionid''\<rparr>,
      \<lparr>jn_Table = ''investigators'', jn_Left = Col ''signatures'' ''investigatorid'', jn_Right = Col ''investigators'' ''id''\<rparr>]"

definition commands_of_action :: sql_join where
  "commands_of_action = \<lparr>jn_Table = ''commands'', jn_Left = Col ''commands'' ''actionid'', jn_Right = Col ''actions'' ''id''\<rparr>"

definition agents_of_command :: sql_join where
  "agents_of_command = \<lparr>jn_Table = ''agents'', jn_Left = Col ''commands'' ''agentid'', jn_Right = Col ''agents'' ''id''\<rparr>"

text \<open>The statement is prepared, and its rows are those selected, sorted and cut.\<close>

definition run_search ::
  "sql_ops \<Rightarrow> (string \<Rightarrow> view list) \<Rightarrow> string \<Rightarrow> string list \<Rightarrow> sql_join list \<Rightarrow> query_state \<Rightarrow> ('r \<Rightarrow> joined) \<Rightarrow> ('r list \<Rightarrow> 'r list) \<Rightarrow>
     'r list \<Rightarrow> 'r list result" where
  "run_search eng tables text scope joins qs base arrange rs =
     and_then (prepare_error text (sql_prepare (scope @ map jn_Table joins) qs)) (\<lambda>_.
       Inr (arrange (filter (\<lambda>r. selected eng tables joins qs (base r)) rs)))"

section \<open>Commands\<close>

definition command_groups :: "time \<Rightarrow> search_ids \<Rightarrow> search_params \<Rightarrow> bool \<Rightarrow> (bool \<times> sql_value sql_cond list) list" where
  "command_groups now ids p doFoundAnything =
     [before_cond now p (Col ''commands'' ''starttime''), after_cond now p (Col ''commands'' ''starttime''),
      id_cond (sp_CommandID p) (Col ''commands'' ''id'') (minCommandID ids) (maxCommandID ids),
      text_cond (sp_Status p) (Col ''commands'' ''status''),
      id_cond (sp_ActionID p) (Col ''actions'' ''id'') (minActionID ids) (maxActionID ids),
      text_cond (sp_ActionName p) (Col ''actions'' ''name''),
      id_cond (sp_InvestigatorID p) (Col ''investigators'' ''id'') (minInvID ids) (maxInvID ids),
      text_cond (sp_InvestigatorName p) (Col ''investigators'' ''name''),
      id_cond (sp_AgentID p) (Col ''agents'' ''id'') (minAgentID ids) (maxAgentID ids),
      text_cond (sp_AgentName p) (Col ''agents'' ''name''), text_cond (sp_AgentVersion p) (Col ''agents'' ''version''),
      (doFoundAnything, [Found (VText StatusSuccess) (VNum (minActionID ids)) (VNum (maxActionID ids)) (VBool (sp_FoundAnything p))]),
      text_cond (sp_ThreatFamily p) (FamilyOf ''actions'' ''threat'')]"

definition command_columns :: string where
  "command_columns = ''commands.id, commands.status, commands.results, commands.starttime, commands.finishtime, '' @
     ''actions.id, actions.name, actions.target, actions.description, actions.threat, '' @
     ''actions.operations, actions.validfrom, actions.expireafter, actions.pgpsignatures, '' @
     ''actions.syntaxversion, agents.id, agents.name, agents.version, agents.tags, agents.environment''"

text \<open>The joins of a command with its action and its agent determine the rows of a result.\<close>

definition command_triples :: "mig_db \<Rightarrow> (command_row \<times> action_row \<times> agent_row) list" where
  "command_triples db =
     [(c, a, g). c \<leftarrow> t_Commands db, a \<leftarrow> t_Actions db, cr_ActionID c = ar_ID a, g \<leftarrow> t_Agents db, cr_AgentID c = gr_ID g]"

definition triple_joined :: "command_row \<times> action_row \<times> agent_row \<Rightarrow> joined" where
  "triple_joined = (\<lambda>(c, a, g). [(''commands'', command_view c), (''actions'', action_view a), (''agents'', agent_view g)])"

definition found_command :: "db_json \<Rightarrow> mig_db \<Rightarrow> command_row \<times> action_row \<times> agent_row \<Rightarrow> command result" where
  "found_command js db r =
     (case r of (c, a, g) \<Rightarrow>
       and_then (wrap_err ''Failed to unmarshal action threat'' (dj_UnThreat js (ar_Threat a))) (\<lambda>threat.
       and_then (wrap_err ''Failed to unmarshal command results'' (dj_UnResults js (cr_Results c))) (\<lambda>results.
       and_then (wrap_err ''Failed to unmarshal action description'' (dj_UnDescription js (ar_Description a))) (\<lambda>desc.
       and_then (wrap_err ''Failed to unmarshal action operations'' (dj_UnOperations js (ar_Operations a))) (\<lambda>operations.
       and_then (wrap_err ''Failed to unmarshal action signatures'' (dj_UnSignatures js (ar_PGPSignatures a))) (\<lambda>sigs.
       and_then (wrap_err ''Failed to unmarshal agent tags'' (dj_UnTags js (gr_Tags g))) (\<lambda>tags.
       and_then (wrap_err ''Failed to unmarshal agent environment'' (dj_UnEnv js (gr_Env g))) (\<lambda>env.
       and_then (wrap_err ''Failed to retrieve action investigators'' (InvestigatorByActionID (ar_ID a) db)) (\<lambda>invs.
         Inr \<lparr>cmd_ID = cr_ID c,
              cmd_Action = zero_action\<lparr>act_ID := ar_ID a, act_Name := ar_Name a, act_Target := ar_Target a,
                act_Description := desc, act_Threat := threat, act_ValidFrom := ar_ValidFrom a,
                act_ExpireAfter := ar_ExpireAfter a, act_Operations := operations, act_PGPSignatures := sigs,
                act_SyntaxVersion := ar_SyntaxVersion a, act_Counters := GetActionCounters (ar_ID a) db,
                act_Investigators := invs\<rparr>,
              cmd_Agent = zero_agent\<lparr>agt_ID := gr_ID g, agt_Name := gr_Name g, agt_Version := gr_Version g,
                agt_Tags := tags, agt_Env := env\<rparr>,
              cmd_Status = cr_Status c, cmd_Results = results, cmd_StartTime = cr_StartTime c,
              cmd_FinishTime = cr_FinishTime c\<rparr>)))))))))"

definition command_joins :: "sql_join list" where
  "command_joins = to_signatures_of_action"

text \<open>The text of the statement, as it is sent.\<close>

definition command_statement :: "time \<Rightarrow> search_ids \<Rightarrow> search_params \<Rightarrow> bool \<Rightarrow> string" where
  "command_statement now ids p doFoundAnything =
     (let qs = build_query (command_groups now ids p doFoundAnything);
          joins = \<lparr>jn_Table = ''actions'', jn_Left = Col ''commands'' ''actionid'', jn_Right = Col ''actions'' ''id''\<rparr> #
            command_joins @ [agents_of_command]
      in query_text command_columns ''commands'' joins qs
           (''GROUP BY commands.id, actions.id, agents.id ORDER BY commands.starttime DESC'' @ limit_text qs))"

definition SearchCommands ::
  "sql_ops \<Rightarrow> db_json \<Rightarrow> search_env \<Rightarrow> time \<Rightarrow> search_params \<Rightarrow> bool \<Rightarrow> mig_db \<Rightarrow> command list result" where
  "SearchCommands eng js env now p doFoundAnything db =
     (case makeIDsFromParams (sn_ParseFloat env) p of
        (ids, Some e) \<Rightarrow> Inl e
      | (ids, None) \<Rightarrow>
          (let qs = build_query (command_groups now ids p doFoundAnything);
               text = command_statement now ids p doFoundAnything
           in and_then (run_search eng (table_rows db) text [''commands'', ''actions'', ''agents''] command_joins qs triple_joined
                  (\<lambda>rs. limit_rows eng p (order_by eng (\<lambda>(c, a, g). - cr_StartTime c) rs)) (command_triples db))
                (\<lambda>rs. map_res (found_command js db) rs)))"

section \<open>Actions\<close>

text \<open>The status is looked for in a table \<open>action\<close>, which there is not.\<close>

definition action_groups :: "time \<Rightarrow> search_ids \<Rightarrow> search_params \<Rightarrow> (bool \<times> sql_value sql_cond list) list" where
  "action_groups now ids p =
     [before_cond now p (Col ''actions'' ''expireafter''), after_cond now p (Col ''actions'' ''validfrom''),
      text_cond (sp_Status p) (Col ''action'' ''status''),
      id_cond (sp_ActionID p) (Col ''actions'' ''id'') (minActionID ids) (maxActionID ids),
      text_cond (sp_ActionName p) (Col ''actions'' ''name''),
      id_cond (sp_InvestigatorID p) (Col ''investigators'' ''id'') (minInvID ids) (maxInvID ids),
      text_cond (sp_InvestigatorName p) (Col ''investigators'' ''name''),
      id_cond (sp_AgentID p) (Col ''agents'' ''id'') (minAgentID ids) (maxAgentID ids),
      text_cond (sp_AgentName p) (Col ''agents'' ''name''), text_cond (sp_AgentVersion p) (Col ''agents'' ''version''),
      id_cond (sp_CommandID p) (Col ''commands'' ''id'') (minCommandID ids) (maxCommandID ids),
      text_cond (sp_ThreatFamily p) (FamilyOf ''actions'' ''threat'')]"

definition wants_agent :: "search_params \<Rightarrow> bool" where
  "wants_agent p \<longleftrightarrow> sp_AgentID p \<noteq> any_id \<or> sp_AgentName p \<noteq> any_text \<or> sp_AgentVersion p \<noteq> any_text"

definition wants_investigator :: "search_params \<Rightarrow> bool" where
  "wants_investigator p \<longleftrightarrow> sp_InvestigatorID p \<noteq> any_id \<or> sp_InvestigatorName p \<noteq> any_text"

definition wants_action :: "search_params \<Rightarrow> bool" where
  "wants_action p \<longleftrightarrow> sp_ActionID p \<noteq> any_id \<or> sp_ActionName p \<noteq> any_text \<or> sp_ThreatFamily p \<noteq> any_text"

definition action_joins :: "search_params \<Rightarrow> sql_join list" where
  "action_joins p =
     join_if (wants_agent p \<or> sp_CommandID p \<noteq> any_id) [commands_of_action] @
     join_if (wants_agent p) [agents_of_command] @ join_if (wants_investigator p) to_signatures_of_action"

definition action_columns :: string where
  "action_columns = ''actions.id, actions.name, actions.target, actions.description, actions.threat, actions.operations, '' @
     ''actions.validfrom, actions.expireafter, actions.starttime, actions.finishtime, actions.lastupdatetime, '' @
     ''actions.status, actions.pgpsignatures, actions.syntaxversion''"

definition found_action :: "db_json \<Rightarrow> mig_db \<Rightarrow> action_row \<Rightarrow> action result" where
  "found_action js db a =
     and_then (wrap_err ''Failed to unmarshal action threat'' (dj_UnThreat js (ar_Threat a))) (\<lambda>threat.
     and_then (wrap_err ''Failed to unmarshal action description'' (dj_UnDescription js (ar_Description a))) (\<lambda>desc.
     and_then (wrap_err ''Failed to unmarshal action operations'' (dj_UnOperations js (ar_Operations a))) (\<lambda>operations.
     and_then (wrap_err ''Failed to unmarshal action signatures'' (dj_UnSignatures js (ar_PGPSignatures a))) (\<lambda>sigs.
     and_then (wrap_err ''Failed to retrieve action investigators'' (InvestigatorByActionID (ar_ID a) db)) (\<lambda>invs.
       Inr (zero_action\<lparr>act_ID := ar_ID a, act_Name := ar_Name a, act_Target := ar_Target a, act_Description := desc,
              act_Threat := threat, act_ValidFrom := ar_ValidFrom a, act_ExpireAfter := ar_ExpireAfter a,
              act_StartTime := ar_StartTime a, act_FinishTime := ar_FinishTime a, act_LastUpdateTime := ar_LastUpdateTime a,
              act_Status := ar_Status a, act_Operations := operations, act_PGPSignatures := sigs,
              act_SyntaxVersion := ar_SyntaxVersion a, act_Counters := GetActionCounters (ar_ID a) db,
              act_Investigators := invs\<rparr>))))))"

definition action_statement :: "time \<Rightarrow> search_ids \<Rightarrow> search_params \<Rightarrow> string" where
  "action_statement now ids p =
     (let qs = build_query (action_groups now ids p)
      in query_text action_columns ''actions'' (action_joins p) qs
           (''GROUP BY actions.id ORDER BY actions.validfrom DESC'' @ limit_text qs))"

definition SearchActions ::
  "sql_ops \<Rightarrow> db_json \<Rightarrow> search_env \<Rightarrow> time \<Rightarrow> search_params \<Rightarrow> mig_db \<Rightarrow> action list result" where
  "SearchActions eng js env now p db =
     (case makeIDsFromParams (sn_ParseFloat env) p of
        (ids, Some e) \<Rightarrow> Inl e
      | (ids, None) \<Rightarrow>
          (let qs = build_query (action_groups now ids p); joins = action_joins p;
               text = action_statement now ids p
           in and_then (run_search eng (table_rows db) text [''actions''] joins qs (\<lambda>a. [(''actions'', action_view a)])
                  (\<lambda>rs. limit_rows eng p (order_by eng (\<lambda>a. - ar_ValidFrom a) rs)) (t_Actions db))
                (\<lambda>rs. map_res (found_action js db) rs)))"

section \<open>Agents\<close>

definition agent_groups :: "time \<Rightarrow> search_ids \<Rightarrow> search_params \<Rightarrow> (bool \<times> sql_value sql_cond list) list" where
  "agent_groups now ids p =
     [before_cond now p (Col ''agents'' ''heartbeattime''), after_cond now p (Col ''agents'' ''heartbeattime''),
      id_cond (sp_AgentID p) (Col ''agents'' ''id'') (minAgentID ids) (maxAgentID ids),
      text_cond (sp_AgentName p) (Col ''agents'' ''name''), text_cond (sp_AgentVersion p) (Col ''agents'' ''version''),
      text_cond (sp_Status p) (Col ''agents'' ''status''),
      id_cond (sp_ActionID p) (Col ''actions'' ''id'') (minActionID ids) (maxActionID ids),
      text_cond (sp_ActionName p) (Col ''actions'' ''name''), text_cond (sp_ThreatFamily p) (FamilyOf ''actions'' ''threat''),
      id_cond (sp_InvestigatorID p) (Col ''investigators'' ''id'') (minInvID ids) (maxInvID ids),
      text_cond (sp_InvestigatorName p) (Col ''investigators'' ''name''),
      id_cond (sp_CommandID p) (Col ''commands'' ''id'') (minCommandID ids) (maxCommandID ids)]"

definition agent_joins :: "search_params \<Rightarrow> sql_join list" where
  "agent_joins p =
     join_if (wants_action p \<or> wants_investigator p \<or> sp_CommandID p \<noteq> any_id)
       [\<lparr>jn_Table = ''commands'', jn_Left = Col ''commands'' ''agentid'', jn_Right = Col ''agents'' ''id''\<rparr>] @
     join_if (wants_action p \<or> wants_investigator p)
       [\<lparr>jn_Table = ''actions'', jn_Left = Col ''commands'' ''actionid'', jn_Right = Col ''actions'' ''id''\<rparr>] @
     join_if (wants_investigator p) to_signatures_of_action"

definition agent_columns_text :: string where
  "agent_columns_text = ''agents.id, agents.name, agents.queueloc, agents.mode, agents.version, agents.pid, '' @
     ''agents.starttime, agents.destructiontime, agents.heartbeattime, agents.status, agents.tags, agents.environment''"

definition found_agent :: "db_json \<Rightarrow> agent_row \<Rightarrow> agent result" where
  "found_agent js g =
     and_then (dj_UnTags js (gr_Tags g)) (\<lambda>tags.
     and_then (dj_UnEnv js (gr_Env g)) (\<lambda>env.
       Inr (zero_agent\<lparr>agt_ID := gr_ID g, agt_Name := gr_Name g, agt_QueueLoc := gr_QueueLoc g, agt_Mode := gr_Mode g,
              agt_Version := gr_Version g, agt_PID := gr_PID g, agt_StartTime := gr_StartTime g,
              agt_DestructionTime := gr_DestructionTime g, agt_HeartBeatTS := gr_HeartBeatTS g,
              agt_Status := gr_Status g, agt_Tags := tags, agt_Env := env\<rparr>)))"

definition agent_statement :: "time \<Rightarrow> search_ids \<Rightarrow> search_params \<Rightarrow> string" where
  "agent_statement now ids p =
     (let qs = build_query (agent_groups now ids p)
      in query_text agent_columns_text ''agents'' (agent_joins p) qs
           (''GROUP BY agents.id ORDER BY agents.heartbeattime DESC'' @ limit_text qs))"

definition SearchAgents ::
  "sql_ops \<Rightarrow> db_json \<Rightarrow> search_env \<Rightarrow> time \<Rightarrow> search_params \<Rightarrow> mig_db \<Rightarrow> agent list result" where
  "SearchAgents eng js env now p db =
     (case makeIDsFromParams (sn_ParseFloat env) p of
        (ids, Some e) \<Rightarrow> Inl e
      | (ids, None) \<Rightarrow>
          (let qs = build_query (agent_groups now ids p); joins = agent_joins p;
               text = agent_statement now ids p
           in and_then (run_search eng (table_rows db) text [''agents''] joins qs (\<lambda>g. [(''agents'', agent_view g)])
                  (\<lambda>rs. limit_rows eng p (order_by eng (\<lambda>g. - gr_HeartBeatTS g) rs)) (t_Agents db))
                (\<lambda>rs. map_res (found_agent js) rs)))"

section \<open>Investigators\<close>

definition investigator_groups :: "time \<Rightarrow> search_ids \<Rightarrow> search_params \<Rightarrow> (bool \<times> sql_value sql_cond list) list" where
  "investigator_groups now ids p =
     [before_cond now p (Col ''investigators'' ''lastmodified''), after_cond now p (Col ''investigators'' ''lastmodified''),
      id_cond (sp_InvestigatorID p) (Col ''investigators'' ''id'') (minInvID ids) (maxInvID ids),
      text_cond (sp_InvestigatorName p) (Col ''investigators'' ''name''),
      text_cond (sp_Status p) (Col ''investigators'' ''status''),
      id_cond (sp_ActionID p) (Col ''actions'' ''id'') (minActionID ids) (maxActionID ids),
      text_cond (sp_ActionName p) (Col ''actions'' ''name''), text_cond (sp_ThreatFamily p) (FamilyOf ''actions'' ''threat''),
      id_cond (sp_CommandID p) (Col ''commands'' ''id'') (minCommandID ids) (maxCommandID ids),
      id_cond (sp_AgentID p) (Col ''agents'' ''id'') (minAgentID ids) (maxAgentID ids),
      text_cond (sp_AgentName p) (Col ''agents'' ''name''), text_cond (sp_AgentVersion p) (Col ''agents'' ''version'')]"

definition investigator_joins :: "search_params \<Rightarrow> sql_join list" where
  "investigator_joins p =
     join_if (wants_action p \<or> sp_CommandID p \<noteq> any_id \<or> wants_agent p)
       [\<lparr>jn_Table = ''signatures'', jn_Left = Col ''signatures'' ''investigatorid'', jn_Right = Col ''investigators'' ''id''\<rparr>,
        \<lparr>jn_Table = ''actions'', jn_Left = Col ''actions'' ''id'', jn_Right = Col ''signatures'' ''actionid''\<rparr>] @
     join_if (sp_CommandID p \<noteq> any_id \<or> wants_agent p) [commands_of_action] @
     join_if (wants_agent p) [agents_of_command]"

definition investigator_columns :: string where
  "investigator_columns = ''investigators.id, investigators.name, COALESCE(investigators.pgpfingerprint, '' @ quoted [] @
     ''), investigators.status, investigators.createdat, investigators.lastmodified, investigators.permissions''"

definition found_investigator :: "inv_row \<Rightarrow> investigator" where
  "found_investigator i =
     auth_disabled\<lparr>inv_ID := i_ID i, inv_Name := i_Name i, inv_PGPFingerprint := opt_text (i_PGPFingerprint i),
       inv_Status := i_Status i, inv_CreatedAt := i_CreatedAt i, inv_LastModified := i_LastModified i,
       inv_Permissions := FromMask no_perms (i_Permissions i)\<rparr>"

definition investigator_statement :: "time \<Rightarrow> search_ids \<Rightarrow> search_params \<Rightarrow> string" where
  "investigator_statement now ids p =
     (let qs = build_query (investigator_groups now ids p)
      in query_text investigator_columns ''investigators'' (investigator_joins p) qs
           (''GROUP BY investigators.id ORDER BY investigators.id ASC'' @ limit_text qs))"

definition SearchInvestigators ::
  "sql_ops \<Rightarrow> search_env \<Rightarrow> time \<Rightarrow> search_params \<Rightarrow> mig_db \<Rightarrow> investigator list result" where
  "SearchInvestigators eng env now p db =
     (case makeIDsFromParams (sn_ParseFloat env) p of
        (ids, Some e) \<Rightarrow> Inl e
      | (ids, None) \<Rightarrow>
          (let qs = build_query (investigator_groups now ids p); joins = investigator_joins p;
               text = investigator_statement now ids p
           in and_then (run_search eng (table_rows db) text [''investigators''] joins qs
                  (\<lambda>i. [(''investigators'', investigator_view i)])
                  (\<lambda>rs. limit_rows eng p (order_by eng i_ID rs)) (idb_Rows (t_Investigators db)))
                (\<lambda>rs. Inr (map found_investigator rs))))"

section \<open>Manifests and loaders\<close>

text \<open>
  Here the error of \<open>makeIDsFromParams\<close> is overwritten by that of \<open>Prepare\<close>, and neither limit nor offset
  is used.
\<close>

definition manifest_groups :: "time \<Rightarrow> search_ids \<Rightarrow> search_params \<Rightarrow> (bool \<times> sql_value sql_cond list) list" where
  "manifest_groups now ids p =
     [before_cond now p (Col ''manifests'' ''timestamp''), after_cond now p (Col ''manifests'' ''timestamp''),
      text_cond (sp_ManifestName p) (Col ''manifests'' ''name''),
      id_cond (sp_ManifestID p) (Col ''manifests'' ''id'') (minManID ids) (maxManID ids),
      text_cond (sp_Status p) (Col ''manifests'' ''status'')]"

definition manifest_columns :: string where
  "manifest_columns = ''manifests.id, manifests.name, manifests.status, manifests.target, manifests.timestamp''"

definition found_manifest :: "manifest_row \<Rightarrow> manifest_record" where
  "found_manifest m =
     \<lparr>mr_ID = m_ID m, mr_Name = m_Name m, mr_Content = [], mr_Timestamp = m_Timestamp m, mr_Status = m_Status m,
      mr_Target = m_Target m, mr_Signatures = []\<rparr>"

definition SearchManifests ::
  "sql_ops \<Rightarrow> search_env \<Rightarrow> time \<Rightarrow> search_params \<Rightarrow> manifest_db \<Rightarrow> manifest_record list result" where
  "SearchManifests eng env now p db =
     (case makeIDsFromParams (sn_ParseFloat env) p of
        (ids, _) \<Rightarrow>
          (let qs = build_query (manifest_groups now ids p);
               text = query_text manifest_columns ''manifests'' [] qs '' ORDER BY timestamp DESC;''
           in and_then (run_search eng (\<lambda>_. []) text [''manifests''] [] qs (\<lambda>m. [(''manifests'', manifest_view m)])
                  (order_by eng (\<lambda>m. - m_Timestamp m)) (db_Manifests db))
                (\<lambda>rs. Inr (map found_manifest rs))))"

definition loader_groups :: "time \<Rightarrow> search_ids \<Rightarrow> search_params \<Rightarrow> (bool \<times> sql_value sql_cond list) list" where
  "loader_groups now ids p =
     [before_cond now p (Col ''loaders'' ''lastseen''), after_cond now p (Col ''loaders'' ''lastseen''),
      text_cond (sp_LoaderName p) (Col ''loaders'' ''loadername''), text_cond (sp_AgentName p) (Col ''loaders'' ''name''),
      id_cond (sp_LoaderID p) (Col ''loaders'' ''id'') (minLdrID ids) (maxLdrID ids)]"

definition loader_columns :: string where
  "loader_columns = ''loaders.id, loaders.loadername, loaders.name, loaders.lastseen, loaders.enabled''"

definition found_loader :: "loader_row \<Rightarrow> loader_entry" where
  "found_loader l =
     \<lparr>le_ID = l_ID l, le_Name = l_LoaderName l, le_Prefix = [], le_Key = [],
      le_AgentName = (case l_Name l of None \<Rightarrow> ''unset'' | Some n \<Rightarrow> n), le_LastSeen = l_LastSeen l,
      le_Enabled = l_Enabled l, le_ExpectEnv = []\<rparr>"

definition SearchLoaders ::
  "sql_ops \<Rightarrow> search_env \<Rightarrow> time \<Rightarrow> search_params \<Rightarrow> manifest_db \<Rightarrow> loader_entry list result" where
  "SearchLoaders eng env now p db =
     (case makeIDsFromParams (sn_ParseFloat env) p of
        (ids, _) \<Rightarrow>
          (let qs = build_query (loader_groups now ids p);
               text = query_text loader_columns ''loaders'' [] qs '' ORDER BY loadername;''
           in and_then (run_search eng (\<lambda>_. []) text [''loaders''] [] qs (\<lambda>l. [(''loaders'', loader_view l)])
                  (order_by eng l_LoaderName) (db_Loaders db))
                (\<lambda>rs. Inr (map found_loader rs))))"

end
