(* ===== verification/SearchProps.thy ===== *)
theory SearchProps
  imports Searches
begin

text \<open>
  The properties of the searches: the statements and their placeholders, when PostgreSQL refuses them, and
  the rows that a search returns.
\<close>

section \<open>Statements\<close>

text \<open>The conditions of the parameters that are set.\<close>

definition on_conds :: "(bool \<times> sql_value sql_cond list) list \<Rightarrow> sql_value sql_cond list" where
  "on_conds groups = concat (map snd (filter fst groups))"

lemma add_cond_simps [simp]:
  "qs_Where (add_cond qs c) = qs_Where qs @ [number_cond (qs_Ctr qs) c]"
  "qs_Vals (add_cond qs c) = qs_Vals qs @ cond_args c"
  "qs_Ctr (add_cond qs c) = qs_Ctr qs + length (cond_args c)"
  by (simp_all add: add_cond_def)

lemma build_query_on: "build_query groups = foldl add_cond empty_query (on_conds groups)"
proof -
  have "foldl add_if qs groups = foldl add_cond qs (on_conds groups)" for qs
    by (induction groups arbitrary: qs) (auto simp: on_conds_def add_if_def)
  then show ?thesis by (simp add: build_query_def)
qed

lemma cond_args_number: "cond_args (number_cond k c) = [Suc k..<Suc (k + length (cond_args c))]"
  by (cases c) (simp_all add: upt_rec)

text \<open>What is built from a list of conditions: the values in order and the numbers of their placeholders.\<close>

lemma built:
  "qs_Vals (foldl add_cond empty_query cs) = concat (map cond_args cs) \<and>
   qs_Ctr (foldl add_cond empty_query cs) = length (concat (map cond_args cs)) \<and>
   concat (map cond_args (qs_Where (foldl add_cond empty_query cs))) = [1..<Suc (length (concat (map cond_args cs)))] \<and>
   length (qs_Where (foldl add_cond empty_query cs)) = length cs"
proof (induction cs rule: rev_induct)
  case (snoc c cs)
  let ?k = "length (concat (map cond_args cs))" and ?l = "length (cond_args c)"
  have "[1..<Suc (?k + ?l)] = [1..<Suc ?k] @ [Suc ?k..<Suc (?k + ?l)]"
    using upt_add_eq_append [of 1 "Suc ?k" ?l] by (simp del: upt_Suc)
  with snoc show ?case by (simp add: cond_args_number del: upt_Suc)
qed (simp add: empty_query_def)

lemma cond_holds_number:
  assumes "vals = pre @ cond_args c @ post"
  shows "cond_holds eng j (arg vals) (number_cond (length pre) c) = cond_holds eng j (\<lambda>v. v) c"
  using assms by (cases c) (simp_all add: arg_def nth_append numeral_eq_Suc)

lemma built_holds:
  "list_all (cond_holds eng j (arg (qs_Vals (foldl add_cond empty_query cs) @ post))) (qs_Where (foldl add_cond empty_query cs)) =
   list_all (cond_holds eng j (\<lambda>v. v)) cs"
proof (induction cs arbitrary: post rule: rev_induct)
  case (snoc c cs)
  let ?qs = "foldl add_cond empty_query cs"
  have "qs_Ctr ?qs = length (qs_Vals ?qs)" using built [of cs] by simp
  with snoc [of "cond_args c @ post"] cond_holds_number [of _ "qs_Vals ?qs" c post]
  show ?case by simp
qed (simp add: empty_query_def)

lemma where_holds:
  "list_all (cond_holds eng j (arg (qs_Vals (build_query groups)))) (qs_Where (build_query groups)) =
   list_all (cond_holds eng j (\<lambda>v. v)) (on_conds groups)"
  using built_holds [of eng j "on_conds groups" "[]"] by (simp add: build_query_on)

lemma where_empty: "qs_Where (build_query groups) = [] \<longleftrightarrow> on_conds groups = []"
  using built [of "on_conds groups"] by (simp add: build_query_on flip: length_0_conv)

lemma number_tables: "cond_tables (number_cond k c) = cond_tables c"
  by (cases c) simp_all

lemma where_tables: "map cond_tables (qs_Where (build_query groups)) = map cond_tables (on_conds groups)"
proof -
  have "map cond_tables (qs_Where (foldl add_cond empty_query cs)) = map cond_tables cs" for cs
    by (induction cs rule: rev_induct) (simp_all add: empty_query_def number_tables)
  then show ?thesis by (simp add: build_query_on)
qed

lemma prepare_ok:
  "sql_prepare scope (build_query groups) = Inr () \<longleftrightarrow>
   on_conds groups \<noteq> [] \<and> list_all (\<lambda>c. in_tables scope (cond_tables c)) (on_conds groups)"
proof -
  have mapped: "list_all (\<lambda>c. in_tables scope (cond_tables c)) cs = list_all (in_tables scope) (map cond_tables cs)" for cs :: "'x sql_cond list"
    by (induction cs) simp_all
  have "list_all (\<lambda>c. in_tables scope (cond_tables c)) (qs_Where (build_query groups)) =
      list_all (\<lambda>c. in_tables scope (cond_tables c)) (on_conds groups)"
    unfolding mapped where_tables by simp
  then show ?thesis by (simp add: sql_prepare_def where_empty)
qed

text \<open>
  The placeholders of every statement are numbered from one in the order of their values, and the
  counter is the number of values, so the two that follow are those of limit and offset.
\<close>

theorem placeholders_numbered:
  "concat (map cond_args (qs_Where (build_query groups))) = [1..<Suc (length (qs_Vals (build_query groups)))] \<and>
   qs_Ctr (build_query groups) = length (qs_Vals (build_query groups))"
  using built [of "on_conds groups"] by (simp add: build_query_on)

section \<open>What PostgreSQL refuses\<close>

lemma list_all_on: "list_all P (on_conds groups) = list_all (\<lambda>g. fst g \<longrightarrow> list_all P (snd g)) groups"
  by (induction groups) (auto simp: on_conds_def)

lemma on_conds_empty: "list_all (\<lambda>g. snd g \<noteq> []) groups \<Longrightarrow> on_conds groups \<noteq> [] \<longleftrightarrow> list_ex fst groups"
  by (induction groups) (auto simp: on_conds_def)

lemmas group_defs = command_groups_def action_groups_def agent_groups_def investigator_groups_def manifest_groups_def
  loader_groups_def

lemmas cond_defs = before_cond_def after_cond_def id_cond_def text_cond_def

lemmas join_defs = command_joins_def action_joins_def agent_joins_def investigator_joins_def join_if_def
  to_signatures_of_action_def commands_of_action_def agents_of_command_def

lemma groups_nonempty:
  "list_all (\<lambda>g. snd g \<noteq> []) (command_groups now ids p b)" "list_all (\<lambda>g. snd g \<noteq> []) (action_groups now ids p)"
  "list_all (\<lambda>g. snd g \<noteq> []) (agent_groups now ids p)" "list_all (\<lambda>g. snd g \<noteq> []) (investigator_groups now ids p)"
  "list_all (\<lambda>g. snd g \<noteq> []) (manifest_groups now ids p)" "list_all (\<lambda>g. snd g \<noteq> []) (loader_groups now ids p)"
  by (simp_all add: group_defs cond_defs)

lemma prepare_groups:
  assumes "list_all (\<lambda>g. snd g \<noteq> []) groups"
  shows "sql_prepare scope (build_query groups) = Inr () \<longleftrightarrow>
    list_ex fst groups \<and> list_all (\<lambda>g. fst g \<longrightarrow> list_all (\<lambda>c. in_tables scope (cond_tables c)) (snd g)) groups"
  by (simp add: prepare_ok on_conds_empty [OF assms] list_all_on)

lemma join_scope:
  "list_ex (\<lambda>s. s = t) (map jn_Table (join_if b js)) \<longleftrightarrow> b \<and> list_ex (\<lambda>s. s = t) (map jn_Table js)"
  by (simp add: join_if_def)

lemmas scope_simps = in_tables_def list_ex_append map_append join_scope to_signatures_of_action_def
  commands_of_action_def agents_of_command_def

lemma refused_commands:
  "sql_prepare ([''commands'', ''actions'', ''agents''] @ map jn_Table command_joins) (build_query (command_groups now ids p b)) = Inr () \<longleftrightarrow>
     list_ex fst (command_groups now ids p b)"
  unfolding prepare_groups [OF groups_nonempty(1)] by (simp add: group_defs cond_defs in_tables_def join_defs)

lemma refused_actions:
  "sql_prepare ([''actions''] @ map jn_Table (action_joins p)) (build_query (action_groups now ids p)) = Inr () \<longleftrightarrow>
     list_ex fst (action_groups now ids p) \<and> sp_Status p = any_text"
  unfolding prepare_groups [OF groups_nonempty(2)]
  by (simp add: action_groups_def cond_defs action_joins_def scope_simps)
    (auto simp: wants_agent_def wants_investigator_def)

lemma refused_agents:
  "sql_prepare ([''agents''] @ map jn_Table (agent_joins p)) (build_query (agent_groups now ids p)) = Inr () \<longleftrightarrow>
     list_ex fst (agent_groups now ids p)"
  unfolding prepare_groups [OF groups_nonempty(3)]
  by (simp add: agent_groups_def cond_defs agent_joins_def scope_simps) (auto simp: wants_action_def wants_investigator_def)

lemma refused_investigators:
  "sql_prepare ([''investigators''] @ map jn_Table (investigator_joins p)) (build_query (investigator_groups now ids p)) = Inr () \<longleftrightarrow>
     list_ex fst (investigator_groups now ids p)"
  unfolding prepare_groups [OF groups_nonempty(4)]
  by (simp add: investigator_groups_def cond_defs investigator_joins_def scope_simps) (auto simp: wants_action_def wants_agent_def)

lemma refused_manifests:
  "sql_prepare ([''manifests''] @ map jn_Table ([] :: sql_join list)) (build_query (manifest_groups now ids p)) = Inr () \<longleftrightarrow>
     list_ex fst (manifest_groups now ids p)"
  unfolding prepare_groups [OF groups_nonempty(5)] by (simp add: group_defs cond_defs in_tables_def)

lemma refused_loaders:
  "sql_prepare ([''loaders''] @ map jn_Table ([] :: sql_join list)) (build_query (loader_groups now ids p)) = Inr () \<longleftrightarrow>
     list_ex fst (loader_groups now ids p)"
  unfolding prepare_groups [OF groups_nonempty(6)] by (simp add: group_defs cond_defs in_tables_def)

lemma prepare_error_ok [simp]: "prepare_error text r = Inr u \<longleftrightarrow> r = Inr ()"
  by (cases r) (auto simp: prepare_error_def)

lemma run_search_ok:
  "run_search eng tables text scope joins qs base arrange rs = Inr xs \<longleftrightarrow>
     sql_prepare (scope @ map jn_Table joins) qs = Inr () \<and> xs = arrange (filter (\<lambda>r. selected eng tables joins qs (base r)) rs)"
  by (auto simp: run_search_def and_then_eq_Inr)

text \<open>
  A statement without condition has nothing between \<open>WHERE\<close> and \<open>GROUP BY\<close>, which PostgreSQL refuses. So a
  search with the parameters that it starts from fails, whatever it looks for, until an hour after they
  were made; and a search for actions of a status always fails, because its table is not named \<open>action\<close>.
\<close>

theorem unfiltered_search_refused:
  assumes "start \<le> now" and "now \<le> start + hour_ns"
  shows "\<not> is_ok (SearchCommands eng js env now (NewParameters start) False db) \<and>
    \<not> is_ok (SearchActions eng js env now (NewParameters start) db) \<and>
    \<not> is_ok (SearchAgents eng js env now (NewParameters start) db) \<and>
    \<not> is_ok (SearchInvestigators eng env now (NewParameters start) db) \<and>
    \<not> is_ok (SearchManifests eng env now (NewParameters start) mdb) \<and>
    \<not> is_ok (SearchLoaders eng env now (NewParameters start) mdb) \<and>
    (sp_Status p \<noteq> any_text \<longrightarrow> \<not> is_ok (SearchActions eng js env now p db))"
proof -
  let ?p = "NewParameters start"
  have off: "\<not> list_ex fst (command_groups now ids ?p False)" "\<not> list_ex fst (action_groups now ids ?p)"
    "\<not> list_ex fst (agent_groups now ids ?p)" "\<not> list_ex fst (investigator_groups now ids ?p)"
    "\<not> list_ex fst (manifest_groups now ids ?p)" "\<not> list_ex fst (loader_groups now ids ?p)" for ids
    using assms by (simp_all add: group_defs cond_defs NewParameters_def hour_ns_def)
  show ?thesis
    unfolding is_ok_iff SearchCommands_def SearchActions_def SearchAgents_def SearchInvestigators_def SearchManifests_def
      SearchLoaders_def Let_def
    using refused_commands [of now _ ?p False] refused_actions [of ?p now] refused_actions [of p now] refused_agents [of ?p now]
      refused_investigators [of ?p now] refused_manifests [of now _ ?p] refused_loaders [of now _ ?p] off
    by (auto simp: and_then_eq_Inr run_search_ok split: prod.splits option.splits)
qed

section \<open>What a search returns\<close>

text \<open>The parameters as predicates on rows.\<close>

definition text_ok :: "sql_ops \<Rightarrow> string \<Rightarrow> string \<Rightarrow> bool" where
  "text_ok eng v x \<longleftrightarrow> v = any_text \<or> so_ILike eng x v"

definition id_ok :: "string \<Rightarrow> int \<Rightarrow> int \<Rightarrow> int \<Rightarrow> bool" where
  "id_ok i lo hi x \<longleftrightarrow> i = any_id \<or> lo \<le> x \<and> x \<le> hi"

definition before_ok :: "time \<Rightarrow> search_params \<Rightarrow> time \<Rightarrow> bool" where
  "before_ok now p t \<longleftrightarrow> (sp_Before p < now + (DefaultWindow - hour_ns) \<longrightarrow> t \<le> sp_Before p)"

definition after_ok :: "time \<Rightarrow> search_params \<Rightarrow> time \<Rightarrow> bool" where
  "after_ok now p t \<longleftrightarrow> (now - (DefaultWindow - hour_ns) < sp_After p \<longrightarrow> sp_After p \<le> t)"

definition time_ok :: "time \<Rightarrow> search_params \<Rightarrow> time \<Rightarrow> time \<Rightarrow> bool" where
  "time_ok now p early late \<longleftrightarrow> before_ok now p late \<and> after_ok now p early"

definition family_ok :: "sql_ops \<Rightarrow> string \<Rightarrow> string \<Rightarrow> bool" where
  "family_ok eng v threat \<longleftrightarrow> v = any_text \<or> (\<exists>f. so_Family eng threat = Some f \<and> so_ILike eng f v)"

definition investigator_ok :: "sql_ops \<Rightarrow> search_ids \<Rightarrow> search_params \<Rightarrow> inv_row \<Rightarrow> bool" where
  "investigator_ok eng ids p i \<longleftrightarrow>
     id_ok (sp_InvestigatorID p) (minInvID ids) (maxInvID ids) (i_ID i) \<and> text_ok eng (sp_InvestigatorName p) (i_Name i)"

definition action_ok :: "sql_ops \<Rightarrow> search_ids \<Rightarrow> search_params \<Rightarrow> action_row \<Rightarrow> bool" where
  "action_ok eng ids p a \<longleftrightarrow>
     id_ok (sp_ActionID p) (minActionID ids) (maxActionID ids) (ar_ID a) \<and> text_ok eng (sp_ActionName p) (ar_Name a) \<and>
     family_ok eng (sp_ThreatFamily p) (ar_Threat a)"

definition agent_ok :: "sql_ops \<Rightarrow> search_ids \<Rightarrow> search_params \<Rightarrow> agent_row \<Rightarrow> bool" where
  "agent_ok eng ids p g \<longleftrightarrow>
     id_ok (sp_AgentID p) (minAgentID ids) (maxAgentID ids) (gr_ID g) \<and> text_ok eng (sp_AgentName p) (gr_Name g) \<and>
     text_ok eng (sp_AgentVersion p) (gr_Version g)"

text \<open>The investigators that signed an action.\<close>

definition signed_action :: "mig_db \<Rightarrow> action_row \<Rightarrow> inv_row \<Rightarrow> bool" where
  "signed_action db a i \<longleftrightarrow> i \<in> set (idb_Rows (t_Investigators db)) \<and>
     (\<exists>s\<in>set (t_Signatures db). ar_ID a = sr_ActionID s \<and> sr_InvestigatorID s = i_ID i)"

definition agent_matches :: "sql_ops \<Rightarrow> time \<Rightarrow> search_ids \<Rightarrow> search_params \<Rightarrow> mig_db \<Rightarrow> agent_row \<Rightarrow> bool" where
  "agent_matches eng now ids p db g \<longleftrightarrow>
     time_ok now p (gr_HeartBeatTS g) (gr_HeartBeatTS g) \<and> agent_ok eng ids p g \<and> text_ok eng (sp_Status p) (gr_Status g) \<and>
     (wants_action p \<or> wants_investigator p \<or> sp_CommandID p \<noteq> any_id \<longrightarrow>
        (\<exists>c\<in>set (t_Commands db). cr_AgentID c = gr_ID g \<and>
           id_ok (sp_CommandID p) (minCommandID ids) (maxCommandID ids) (cr_ID c) \<and>
           (wants_action p \<or> wants_investigator p \<longrightarrow>
              (\<exists>a\<in>set (t_Actions db). cr_ActionID c = ar_ID a \<and> action_ok eng ids p a \<and>
                 (wants_investigator p \<longrightarrow> (\<exists>i. signed_action db a i \<and> investigator_ok eng ids p i))))))"

lemma holds_simps:
  "op_holds eng LE (VTime x) (VTime y) = (x \<le> y)" "op_holds eng GE (VTime x) (VTime y) = (y \<le> x)"
  "op_holds eng LE (VNum x) (VNum y) = (x \<le> y)" "op_holds eng GE (VNum x) (VNum y) = (y \<le> x)"
  "op_holds eng ILIKE (VText s) (VText v) = so_ILike eng s v"
  by (simp_all add: op_holds_def)

lemma view_simps:
  "action_view a ''id'' = VNum (ar_ID a)" "action_view a ''name'' = VText (ar_Name a)" "action_view a ''threat'' = VText (ar_Threat a)"
  "action_view a ''validfrom'' = VTime (ar_ValidFrom a)" "action_view a ''expireafter'' = VTime (ar_ExpireAfter a)"
  "command_view c ''id'' = VNum (cr_ID c)" "command_view c ''actionid'' = VNum (cr_ActionID c)"
  "command_view c ''agentid'' = VNum (cr_AgentID c)" "command_view c ''status'' = VText (cr_Status c)"
  "command_view c ''results'' = VText (cr_Results c)" "command_view c ''starttime'' = VTime (cr_StartTime c)"
  "agent_view g ''id'' = VNum (gr_ID g)" "agent_view g ''name'' = VText (gr_Name g)" "agent_view g ''version'' = VText (gr_Version g)"
  "agent_view g ''heartbeattime'' = VTime (gr_HeartBeatTS g)" "agent_view g ''status'' = VText (gr_Status g)"
  "signature_view s ''actionid'' = VNum (sr_ActionID s)" "signature_view s ''investigatorid'' = VNum (sr_InvestigatorID s)"
  "investigator_view i ''id'' = VNum (i_ID i)" "investigator_view i ''name'' = VText (i_Name i)"
  "investigator_view i ''status'' = VText (i_Status i)" "investigator_view i ''lastmodified'' = VTime (i_LastModified i)"
  by (simp_all add: action_view_def command_view_def agent_view_def signature_view_def investigator_view_def)

lemma table_simps:
  "table_rows db ''actions'' = map action_view (t_Actions db)" "table_rows db ''commands'' = map command_view (t_Commands db)"
  "table_rows db ''agents'' = map agent_view (t_Agents db)" "table_rows db ''signatures'' = map signature_view (t_Signatures db)"
  "table_rows db ''investigators'' = map investigator_view (idb_Rows (t_Investigators db))"
  by (simp_all add: table_rows_def)

text \<open>One step of a join, as a property of the rows that the rest of the joins and the conditions need.\<close>

definition some_joined :: "sql_ops \<Rightarrow> (string \<Rightarrow> view list) \<Rightarrow> sql_join list \<Rightarrow> (joined \<Rightarrow> bool) \<Rightarrow> joined \<Rightarrow> bool" where
  "some_joined eng tables joins P base \<longleftrightarrow> list_ex P (foldl (join_rows eng tables) [base] joins)"

lemma some_joined_Nil [simp]: "some_joined eng tables [] P base = P base"
  by (simp add: some_joined_def)

lemma foldl_join_rows:
  "set (foldl (join_rows eng tables) js joins) = (\<Union>j\<in>set js. set (foldl (join_rows eng tables) [j] joins))"
proof (induction joins arbitrary: js)
  case (Cons jn joins)
  have "set (foldl (join_rows eng tables) (join_rows eng tables js jn) joins) =
      (\<Union>j\<in>set (join_rows eng tables js jn). set (foldl (join_rows eng tables) [j] joins))" by (rule Cons.IH)
  also have "\<dots> = (\<Union>i\<in>set js. \<Union>j\<in>set (join_rows eng tables [i] jn). set (foldl (join_rows eng tables) [j] joins))"
    by (auto simp: join_rows_def)
  also have "\<dots> = (\<Union>i\<in>set js. set (foldl (join_rows eng tables) (join_rows eng tables [i] jn) joins))"
    using Cons.IH by blast
  finally show ?case by simp
qed simp

lemma some_joined_Cons:
  "some_joined eng tables (jn # joins) P base \<longleftrightarrow>
     (\<exists>v\<in>set (tables (jn_Table jn)).
        col_value eng (base @ [(jn_Table jn, v)]) (jn_Left jn) = col_value eng (base @ [(jn_Table jn, v)]) (jn_Right jn) \<and>
        some_joined eng tables joins P (base @ [(jn_Table jn, v)]))"
proof -
  have "some_joined eng tables (jn # joins) P base \<longleftrightarrow>
      (\<exists>j\<in>set (join_rows eng tables [base] jn). some_joined eng tables joins P j)"
    using foldl_join_rows [of eng tables "join_rows eng tables [base] jn" joins]
    by (auto simp: some_joined_def list_ex_iff)
  also have "\<dots> \<longleftrightarrow> (\<exists>v\<in>set (tables (jn_Table jn)).
        col_value eng (base @ [(jn_Table jn, v)]) (jn_Left jn) = col_value eng (base @ [(jn_Table jn, v)]) (jn_Right jn) \<and>
        some_joined eng tables joins P (base @ [(jn_Table jn, v)]))"
    by (auto simp: join_rows_def)
  finally show ?thesis .
qed

definition group_holds :: "sql_ops \<Rightarrow> joined \<Rightarrow> bool \<times> sql_value sql_cond list \<Rightarrow> bool" where
  "group_holds eng j g \<longleftrightarrow> (fst g \<longrightarrow> list_all (cond_holds eng j (\<lambda>v. v)) (snd g))"

lemma group_holds_simps:
  "col_value eng j c = VText x \<Longrightarrow> group_holds eng j (text_cond v c) \<longleftrightarrow> text_ok eng v x"
  "col_value eng j c = VNum n \<Longrightarrow> group_holds eng j (id_cond i c lo hi) \<longleftrightarrow> id_ok i lo hi n"
  "col_value eng j c = VTime t \<Longrightarrow> group_holds eng j (before_cond now p c) \<longleftrightarrow> before_ok now p t"
  "col_value eng j c = VTime t \<Longrightarrow> group_holds eng j (after_cond now p c) \<longleftrightarrow> after_ok now p t"
  by (auto simp: group_holds_def text_cond_def id_cond_def before_cond_def after_cond_def text_ok_def id_ok_def
      before_ok_def after_ok_def holds_simps)

lemma group_family:
  "map_of j t = Some (action_view a) \<Longrightarrow>
     group_holds eng j (text_cond v (FamilyOf t ''threat'')) \<longleftrightarrow> family_ok eng v (ar_Threat a)"
  by (auto simp: group_holds_def text_cond_def family_ok_def view_simps op_holds_def split: option.splits)

lemma selected_joined:
  "selected eng tables joins (build_query groups) base \<longleftrightarrow>
     some_joined eng tables joins (\<lambda>j. list_all (group_holds eng j) groups) base"
  by (simp add: selected_def where_holds list_all_on some_joined_def group_holds_def [abs_def])

lemma wants_none:
  "\<not> wants_action p \<Longrightarrow> action_ok eng ids p a" "\<not> wants_investigator p \<Longrightarrow> investigator_ok eng ids p i"
  "\<not> wants_agent p \<Longrightarrow> agent_ok eng ids p g"
  by (simp_all add: wants_action_def wants_investigator_def wants_agent_def action_ok_def investigator_ok_def agent_ok_def
      id_ok_def text_ok_def family_ok_def)

lemma group_unset:
  "\<not> wants_action p \<Longrightarrow> group_holds eng j (id_cond (sp_ActionID p) c lo hi)"
  "\<not> wants_action p \<Longrightarrow> group_holds eng j (text_cond (sp_ActionName p) c)"
  "\<not> wants_action p \<Longrightarrow> group_holds eng j (text_cond (sp_ThreatFamily p) c)"
  "\<not> wants_investigator p \<Longrightarrow> group_holds eng j (id_cond (sp_InvestigatorID p) c lo hi)"
  "\<not> wants_investigator p \<Longrightarrow> group_holds eng j (text_cond (sp_InvestigatorName p) c)"
  "\<not> wants_agent p \<Longrightarrow> group_holds eng j (id_cond (sp_AgentID p) c lo hi)"
  "\<not> wants_agent p \<Longrightarrow> group_holds eng j (text_cond (sp_AgentName p) c)"
  "\<not> wants_agent p \<Longrightarrow> group_holds eng j (text_cond (sp_AgentVersion p) c)"
  "group_holds eng j (id_cond any_id c lo hi)"
  by (simp_all add: group_holds_def id_cond_def text_cond_def wants_action_def wants_investigator_def wants_agent_def)

lemmas match_simps = selected_joined some_joined_Cons table_simps view_simps group_holds_simps group_family group_unset
  join_if_def to_signatures_of_action_def commands_of_action_def agents_of_command_def

lemma selected_agents:
  "selected eng (table_rows db) (agent_joins p) (build_query (agent_groups now ids p)) [(''agents'', agent_view g)] \<longleftrightarrow>
     agent_matches eng now ids p db g"
proof -
  consider "wants_investigator p" | "\<not> wants_investigator p" "wants_action p"
    | "\<not> wants_investigator p" "\<not> wants_action p" "sp_CommandID p \<noteq> any_id"
    | "\<not> wants_investigator p" "\<not> wants_action p" "sp_CommandID p = any_id" by blast
  then show ?thesis
  proof cases
    case 1
    then show ?thesis
      by (simp add: match_simps agent_joins_def agent_groups_def agent_matches_def time_ok_def agent_ok_def action_ok_def
          investigator_ok_def signed_action_def del: col_value.simps(2)) blast
  next
    case 2
    then show ?thesis
      by (simp add: match_simps agent_joins_def agent_groups_def agent_matches_def time_ok_def agent_ok_def action_ok_def
          del: col_value.simps(2)) blast
  next
    case 3
    then show ?thesis
      by (simp add: match_simps agent_joins_def agent_groups_def agent_matches_def time_ok_def agent_ok_def) blast
  next
    case 4
    then show ?thesis
      by (auto simp: match_simps agent_joins_def agent_groups_def agent_matches_def time_ok_def agent_ok_def)
  qed
qed

text \<open>
  C18. Searching agents is exact: when an identifier is not refused and some parameter is set, the agents returned
  are those of the table that satisfy every parameter that is set - on the agent, on some command it got,
  the action of that command, and an investigator who signed that action -, the latest
  heartbeat first (in any order of the database where heartbeats are equal), from the offset on and no more than the limit.
\<close>

theorem search_agents_exact:
  assumes "makeIDsFromParams (sn_ParseFloat env) p = (ids, None)" and "list_ex fst (agent_groups now ids p)"
  shows "SearchAgents eng js env now p db =
    map_res (found_agent js)
      (limit_rows eng p (order_by eng (\<lambda>g. - gr_HeartBeatTS g) (filter (agent_matches eng now ids p db) (t_Agents db))))"
proof -
  have "sql_prepare ([''agents''] @ map jn_Table (agent_joins p)) (build_query (agent_groups now ids p)) = Inr ()"
    using refused_agents assms(2) by blast
  then show ?thesis
    by (simp only: SearchAgents_def assms(1) prod.case option.case Let_def run_search_def selected_agents
        prepare_error_def sum.case and_then_simps)
qed

definition command_matches ::
  "sql_ops \<Rightarrow> time \<Rightarrow> search_ids \<Rightarrow> search_params \<Rightarrow> bool \<Rightarrow> mig_db \<Rightarrow> command_row \<times> action_row \<times> agent_row \<Rightarrow> bool" where
  "command_matches eng now ids p b db r \<longleftrightarrow>
     (case r of (c, a, g) \<Rightarrow>
       time_ok now p (cr_StartTime c) (cr_StartTime c) \<and> id_ok (sp_CommandID p) (minCommandID ids) (maxCommandID ids) (cr_ID c) \<and>
       text_ok eng (sp_Status p) (cr_Status c) \<and> action_ok eng ids p a \<and> agent_ok eng ids p g \<and>
       (b \<longrightarrow> cr_Status c = StatusSuccess \<and> minActionID ids \<le> cr_ActionID c \<and> cr_ActionID c \<le> maxActionID ids \<and>
          so_Found eng (cr_Results c) (sp_FoundAnything p)) \<and>
       (\<exists>i. signed_action db a i \<and> investigator_ok eng ids p i))"

lemma group_found:
  "map_of j ''commands'' = Some (command_view c) \<Longrightarrow>
   group_holds eng j (b, [Found (VText s) (VNum lo) (VNum hi) (VBool f)]) \<longleftrightarrow>
     (b \<longrightarrow> cr_Status c = s \<and> lo \<le> cr_ActionID c \<and> cr_ActionID c \<le> hi \<and> so_Found eng (cr_Results c) f)"
  by (simp add: group_holds_def view_simps holds_simps)

lemma selected_commands:
  "selected eng (table_rows db) command_joins (build_query (command_groups now ids p b)) (triple_joined r) \<longleftrightarrow>
     command_matches eng now ids p b db r"
proof (cases r)
  case (fields c a g)
  show ?thesis
    by (simp add: fields match_simps group_found command_joins_def command_groups_def command_matches_def triple_joined_def
        time_ok_def agent_ok_def action_ok_def investigator_ok_def signed_action_def del: col_value.simps(2)) blast
qed

theorem search_commands_exact:
  assumes "makeIDsFromParams (sn_ParseFloat env) p = (ids, None)" and "list_ex fst (command_groups now ids p b)"
  shows "SearchCommands eng js env now p b db =
    map_res (found_command js db)
      (limit_rows eng p (order_by eng (\<lambda>(c, a, g). - cr_StartTime c) (filter (command_matches eng now ids p b db) (command_triples db))))"
proof -
  have "sql_prepare ([''commands'', ''actions'', ''agents''] @ map jn_Table command_joins) (build_query (command_groups now ids p b)) = Inr ()"
    using refused_commands assms(2) by blast
  then show ?thesis
    by (simp only: SearchCommands_def assms(1) prod.case option.case Let_def run_search_def selected_commands
        prepare_error_def sum.case and_then_simps)
qed

section \<open>Identifiers that are not numbers\<close>

text \<open>
  The searches for manifests and loaders go on after an identifier was refused: one for a manifest whose
  identifier is not a number returns all manifests, where a search for agents with the same parameter is an error.
\<close>

theorem bad_manifest_id_matches_all:
  assumes "sn_ParseFloat env i = (0, Some e)" and "i \<noteq> any_id" and "start \<le> now" and "now \<le> start + hour_ns"
    and "p = (NewParameters start)\<lparr>sp_ManifestID := i\<rparr>"
    and "\<forall>m\<in>set (db_Manifests mdb). 0 \<le> m_ID m \<and> m_ID m \<le> MAXFLOAT64"
  shows "SearchManifests eng env now p mdb = Inr (map found_manifest (order_by eng (\<lambda>m. - m_Timestamp m) (db_Manifests mdb))) \<and>
    SearchAgents eng js env now p db = Inl e"
proof -
  let ?ids = "zero_ids\<lparr>maxActionID := MAXFLOAT64, maxCommandID := MAXFLOAT64, maxAgentID := MAXFLOAT64,
     maxInvID := MAXFLOAT64, maxManID := MAXFLOAT64\<rparr>"
  have ids: "makeIDsFromParams (sn_ParseFloat env) p = (?ids, Some e)"
    using assms(1,2,5) by (simp add: makeIDsFromParams_def id_range_def NewParameters_def zero_ids_def)
  have man: "col_value eng [(''manifests'', manifest_view m)] (Col ''manifests'' ''id'') = VNum (m_ID m)" for m
    by (simp add: manifest_view_def)
  have all: "selected eng (\<lambda>_. []) [] (build_query (manifest_groups now ?ids p)) [(''manifests'', manifest_view m)]"
    if "m \<in> set (db_Manifests mdb)" for m
    using that assms(3-6) unfolding selected_joined
    by (simp add: some_joined_def manifest_groups_def group_holds_def cond_defs NewParameters_def hour_ns_def zero_ids_def
        holds_simps manifest_view_def)
  have "list_ex fst (manifest_groups now ?ids p)" using assms(2,5) by (simp add: manifest_groups_def cond_defs)
  then have "sql_prepare ([''manifests''] @ map jn_Table ([] :: sql_join list)) (build_query (manifest_groups now ?ids p)) = Inr ()"
    using refused_manifests by blast
  moreover have "filter (\<lambda>m. selected eng (\<lambda>_. []) [] (build_query (manifest_groups now ?ids p)) [(''manifests'', manifest_view m)])
      (db_Manifests mdb) = db_Manifests mdb" using all by (simp add: filter_id_conv)
  ultimately have "SearchManifests eng env now p mdb = Inr (map found_manifest (order_by eng (\<lambda>m. - m_Timestamp m) (db_Manifests mdb)))"
    by (simp only: SearchManifests_def ids prod.case Let_def run_search_def prepare_error_def sum.case and_then_simps)
  moreover have "SearchAgents eng js env now p db = Inl e" by (simp add: SearchAgents_def ids)
  ultimately show ?thesis by blast
qed

section \<open>Examples\<close>

definition example_eng :: sql_ops where
  "example_eng = \<lparr>so_ILike = (\<lambda>x v. x = v), so_Family = (\<lambda>_. None), so_Found = (\<lambda>_ _. False), so_Uint64 = (\<lambda>_. 0),
     so_Tie = (\<lambda>i. i)\<rparr>"

definition example_search_env :: search_env where
  "example_search_env =
     \<lparr>sn_ParseTime = (\<lambda>s. Inr (if s \<noteq> [] \<and> hd s = CHR ''m'' then - int (length s) else int (length s))),
      sn_ParseFloat = (\<lambda>s. if s = ''x'' then (0, Some (errors_New ''x''))
        else (if s \<noteq> [] \<and> hd s = CHR ''m'' then - int (length s) else int (length s), None))\<rparr>"

theorem unfiltered_search_refused_witness:
  "\<not> is_ok (SearchAgents example_eng example_js example_search_env 5 (NewParameters 5) example_mdb) \<and>
   \<not> is_ok (SearchActions example_eng example_js example_search_env 5 ((NewParameters 5)\<lparr>sp_Status := ''done''\<rparr>) example_mdb)"
  using unfiltered_search_refused [of 5 5 example_eng example_js example_search_env example_mdb empty_db
      "(NewParameters 5)\<lparr>sp_Status := ''done''\<rparr>"]
  by (simp add: hour_ns_def any_text_def)

theorem search_agents_exact_witness:
  "SearchAgents example_eng example_js example_search_env 5 ((NewParameters 5)\<lparr>sp_AgentName := ''a''\<rparr>) example_mdb =
    map_res (found_agent example_js)
      (limit_rows example_eng ((NewParameters 5)\<lparr>sp_AgentName := ''a''\<rparr>) (order_by example_eng (\<lambda>g. - gr_HeartBeatTS g)
        (filter (agent_matches example_eng 5 (fst (makeIDsFromParams (sn_ParseFloat example_search_env) ((NewParameters 5)\<lparr>sp_AgentName := ''a''\<rparr>)))
          ((NewParameters 5)\<lparr>sp_AgentName := ''a''\<rparr>) example_mdb) (t_Agents example_mdb))))"
proof (rule search_agents_exact)
  let ?p = "(NewParameters 5)\<lparr>sp_AgentName := ''a''\<rparr>"
  show "makeIDsFromParams (sn_ParseFloat example_search_env) ?p = (fst (makeIDsFromParams (sn_ParseFloat example_search_env) ?p), None)"
    by (simp add: makeIDsFromParams_def id_range_def NewParameters_def)
  show "list_ex fst (agent_groups 5 (fst (makeIDsFromParams (sn_ParseFloat example_search_env) ?p)) ?p)"
    by (simp add: agent_groups_def cond_defs any_text_def)
qed

theorem bad_manifest_id_matches_all_witness:
  "SearchManifests example_eng example_search_env 5 ((NewParameters 5)\<lparr>sp_ManifestID := ''x''\<rparr>) empty_db = Inr []"
  using bad_manifest_id_matches_all [of example_search_env "''x''" "errors_New ''x''" 5 5 "(NewParameters 5)\<lparr>sp_ManifestID := ''x''\<rparr>"
      empty_db example_eng]
  by (simp add: example_search_env_def any_id_def hour_ns_def empty_db_def)

end
