(* ===== verification/SearchApi.thy ===== *)
theory SearchApi
  imports SearchProps ManifestApi
begin

text \<open>
  The search endpoint (\<open>mig-api/search.go\<close>): the query is read, the search of its type is made, and the
  results are returned with the link to the next page.

  The query string is decoded as \<open>url.ParseQuery\<close> does, whose errors \<open>URL.Query\<close> drops. The search
  parameters that are returned beside an error are left out.
\<close>

section \<open>Query strings\<close>

fun hex_value :: "char \<Rightarrow> nat option" where
  "hex_value c =
     (if is_digit c then Some (byte c - 48)
      else if 65 \<le> byte c \<and> byte c \<le> 70 then Some (byte c - 55)
      else if 97 \<le> byte c \<and> byte c \<le> 102 then Some (byte c - 87) else None)"

fun QueryUnescape :: "string \<Rightarrow> string option" where
  "QueryUnescape [] = Some []"
| "QueryUnescape (c # s) =
     (if c = CHR ''%''
      then (case s of
              a # b # rest \<Rightarrow>
                (case (hex_value a, hex_value b) of
                   (Some x, Some y) \<Rightarrow> map_option ((#) (char_of (16 * x + y))) (QueryUnescape rest)
                 | _ \<Rightarrow> None)
            | _ \<Rightarrow> None)
      else map_option ((#) (if c = CHR ''+'' then CHR '' '' else c)) (QueryUnescape s))"

text \<open>A key with its value, cut at the first equals sign; nothing for an empty or malformed one.\<close>

definition query_part :: "string \<Rightarrow> (string \<times> string) list" where
  "query_part w =
     (if w = [] then []
      else (case (QueryUnescape (takeWhile (\<lambda>c. c \<noteq> CHR ''='') w), QueryUnescape (drop 1 (dropWhile (\<lambda>c. c \<noteq> CHR ''='') w))) of
              (Some k, Some v) \<Rightarrow> [(k, v)] | _ \<Rightarrow> []))"

text \<open>The values of each key in order; the keys are visited in the order of their first appearance.\<close>

definition ParseQuery :: "string \<Rightarrow> url_values" where
  "ParseQuery q =
     (let ps = concat (map query_part (Split (map (\<lambda>c. if c = CHR '';'' then CHR ''&'' else c) q) CHR ''&''))
      in map (\<lambda>k. (k, map snd (filter (\<lambda>p. fst p = k) ps))) (remdups (map fst ps)))"

section \<open>The endpoint\<close>

datatype found_item = FoundAction action | FoundAgent agent | FoundCommand command | FoundInvestigator investigator
  | FoundManifest manifest_record | FoundLoader loader_entry

datatype search_item = Result string found_item | Pagination int int string | SearchParameters search_params

record search_response =
  sr_Code :: nat
  sr_Error :: "go_error option"
  sr_Items :: "search_item list"

record server_env =
  sv_Host :: string
  sv_BaseRoute :: string
  sv_BaseURL :: string
  sv_Format :: "time \<Rightarrow> string"
  sv_ShowNum :: "int \<Rightarrow> string"
  sv_Holds :: "string \<Rightarrow> agent_row \<Rightarrow> bool result"

fun item_href :: "server_env \<Rightarrow> found_item \<Rightarrow> string" where
  "item_href sv (FoundAction a) = sv_Host sv @ sv_BaseRoute sv @ ''/action?actionid='' @ sv_ShowNum sv (act_ID a)"
| "item_href sv (FoundAgent g) = sv_Host sv @ sv_BaseRoute sv @ ''/agent?agentid='' @ sv_ShowNum sv (agt_ID g)"
| "item_href sv (FoundCommand c) = sv_Host sv @ sv_BaseRoute sv @ ''/command?commandid='' @ sv_ShowNum sv (cmd_ID c)"
| "item_href sv (FoundInvestigator i) =
     sv_Host sv @ sv_BaseRoute sv @ ''/investigator?investigatorid='' @ sv_ShowNum sv (inv_ID i)"
| "item_href sv (FoundManifest m) = sv_Host sv @ sv_BaseRoute sv @ ''/manifest?manifestid='' @ sv_ShowNum sv (mr_ID m)"
| "item_href sv (FoundLoader l) = sv_Host sv @ sv_BaseRoute sv"

definition search_results_of ::
  "sql_ops \<Rightarrow> db_json \<Rightarrow> search_env \<Rightarrow> server_env \<Rightarrow> time \<Rightarrow> search_params \<Rightarrow> bool \<Rightarrow> mig_db \<Rightarrow> manifest_db \<Rightarrow> found_item list result" where
  "search_results_of eng js env sv now p filterFound db mdb =
     (if sp_Type p = ''action'' then and_then (SearchActions eng js env now p db) (\<lambda>xs. Inr (map FoundAction xs))
      else if sp_Type p = ''agent''
      then and_then (if sp_Target p \<noteq> [] then ActiveAgentsByTarget js (sv_Holds sv) (sp_Target p) db
                     else SearchAgents eng js env now p db) (\<lambda>xs. Inr (map FoundAgent xs))
      else if sp_Type p = ''command''
      then and_then (SearchCommands eng js env now p filterFound db) (\<lambda>xs. Inr (map FoundCommand xs))
      else if sp_Type p = ''investigator''
      then and_then (SearchInvestigators eng env now p db) (\<lambda>xs. Inr (map FoundInvestigator xs))
      else if sp_Type p = ''manifest'' then and_then (SearchManifests eng env now p mdb) (\<lambda>xs. Inr (map FoundManifest xs))
      else if sp_Type p = ''loader'' then and_then (SearchLoaders eng env now p mdb) (\<lambda>xs. Inr (map FoundLoader xs))
      else Inl (errors_New ''search type is invalid''))"

text \<open>Items are added until the index of the one just added is above the limit.\<close>

fun add_items :: "int \<Rightarrow> int \<Rightarrow> 'a list \<Rightarrow> 'a list" where
  "add_items limit i [] = []"
| "add_items limit i (x # xs) = x # (if limit < i then [] else add_items limit (i + 1) xs)"

definition no_results :: go_error where "no_results = errors_New ''no results found''"

definition next_page :: "server_env \<Rightarrow> search_params \<Rightarrow> string" where
  "next_page sv p =
     sv_BaseURL sv @ ''/search?'' @ params_String (sv_Format sv) (sv_ShowNum sv) (p\<lparr>sp_Offset := sp_Offset p + sp_Limit p\<rparr>)"

definition search_items :: "server_env \<Rightarrow> search_params \<Rightarrow> found_item list \<Rightarrow> search_item list" where
  "search_items sv p xs =
     map (\<lambda>x. Result (item_href sv x) x) (add_items (sp_Limit p) 0 xs) @
     (if 0 < sp_Offset p then [Pagination (sp_Limit p) (sp_Offset p) (next_page sv p)] else []) @ [SearchParameters p]"

definition search_handler ::
  "sql_ops \<Rightarrow> db_json \<Rightarrow> search_env \<Rightarrow> server_env \<Rightarrow> time \<Rightarrow> string \<Rightarrow> mig_db \<Rightarrow> manifest_db \<Rightarrow> search_response" where
  "search_handler eng js env sv now query db mdb =
     (case and_then (parseSearchParameters env now (ParseQuery query)) (\<lambda>(p, filterFound).
             and_then (search_results_of eng js env sv now p filterFound db mdb) (\<lambda>xs.
               if xs = [] then Inl no_results else Inr (p, xs))) of
        Inl e \<Rightarrow> \<lparr>sr_Code = (if e = no_results then 404 else 500), sr_Error = Some e, sr_Items = []\<rparr>
      | Inr (p, xs) \<Rightarrow> \<lparr>sr_Code = 200, sr_Error = None, sr_Items = search_items sv p xs\<rparr>)"

section \<open>The link to the next page\<close>

text \<open>The parameters as pairs, in the order of the query string.\<close>

definition opt_pair :: "string \<Rightarrow> string \<Rightarrow> string \<Rightarrow> (string \<times> string) list" where
  "opt_pair any k v = (if v \<noteq> any then [(k, v)] else [])"

definition param_pairs :: "(time \<Rightarrow> string) \<Rightarrow> (int \<Rightarrow> string) \<Rightarrow> search_params \<Rightarrow> (string \<times> string) list" where
  "param_pairs fmt show_num p =
     [(''after'', fmt (sp_After p)), (''before'', fmt (sp_Before p))] @
     opt_pair any_id ''actionid'' (sp_ActionID p) @ opt_pair any_text ''actionname'' (sp_ActionName p) @
     opt_pair any_id ''agentid'' (sp_AgentID p) @ opt_pair any_text ''agentname'' (sp_AgentName p) @
     opt_pair any_text ''agentversion'' (sp_AgentVersion p) @ opt_pair any_id ''commandid'' (sp_CommandID p) @
     opt_pair any_id ''investigatorid'' (sp_InvestigatorID p) @ opt_pair any_text ''investigatorname'' (sp_InvestigatorName p) @
     opt_pair any_id ''loaderid'' (sp_LoaderID p) @ opt_pair any_text ''loadername'' (sp_LoaderName p) @
     opt_pair any_text ''manifestname'' (sp_ManifestName p) @ opt_pair any_id ''manifestid'' (sp_ManifestID p) @
     [(''limit'', show_num (sp_Limit p))] @
     (if sp_Offset p \<noteq> 0 then [(''offset'', show_num (sp_Offset p))] else []) @
     opt_pair any_text ''status'' (sp_Status p) @ opt_pair any_text ''threatfamily'' (sp_ThreatFamily p)"

definition safe_text :: "string \<Rightarrow> bool" where
  "safe_text v \<longleftrightarrow> list_all (\<lambda>c. c \<noteq> CHR ''&'' \<and> c \<noteq> CHR '';'' \<and> c \<noteq> CHR ''+'' \<and> c \<noteq> CHR ''*'') v"

definition plain_key :: "string \<Rightarrow> bool" where
  "plain_key k \<longleftrightarrow> k \<noteq> [] \<and> list_all (\<lambda>c. c \<noteq> CHR ''='' \<and> c \<noteq> CHR ''%'') k \<and> safe_text k"

definition safe_pairs :: "(string \<times> string) list \<Rightarrow> bool" where
  "safe_pairs ps \<longleftrightarrow> list_all (\<lambda>(k, v). plain_key k \<and> safe_text v) ps"

definition show_pairs :: "(string \<times> string) list \<Rightarrow> string" where
  "show_pairs ps = concat (map (\<lambda>(k, v). query_pair k v) ps)"

lemma show_pairs_simps [simp]: "show_pairs [] = []" "show_pairs ((k, v) # ps) = query_pair k v @ show_pairs ps"
  by (simp_all add: show_pairs_def)

lemma show_pairs_append [simp]: "show_pairs (ps @ qs) = show_pairs ps @ show_pairs qs"
  by (simp add: show_pairs_def)

lemma show_opt_pair [simp]: "show_pairs (opt_pair any k v) = pair_unless any k v"
  by (simp add: show_pairs_def opt_pair_def pair_unless_def)

lemma params_String_pairs:
  "params_String fmt show_num p = escape_wildcards (''type='' @ sp_Type p @ show_pairs (param_pairs fmt show_num p))"
  by (simp add: params_String_def param_pairs_def)

subsection \<open>Escaping\<close>

definition esc :: "string \<Rightarrow> string" where
  "esc s = concat (map (\<lambda>c. if c = CHR ''%'' then ''%25'' else [c]) s)"

lemma replace_char: "replace_all [c] new s = concat (map (\<lambda>x. if x = c then new else [x]) s)"
  by (induction s) auto

lemma replace_none: "c \<notin> set s \<Longrightarrow> replace_all [c] new s = s"
  by (induction s) auto

lemma esc_simps [simp]:
  "esc [] = []" "esc (c # s) = (if c = CHR ''%'' then ''%25'' else [c]) @ esc s" "esc (s @ t) = esc s @ esc t"
  by (simp_all add: esc_def)

lemma set_esc: "c \<noteq> CHR ''%'' \<Longrightarrow> c \<noteq> CHR ''2'' \<Longrightarrow> c \<noteq> CHR ''5'' \<Longrightarrow> c \<in> set (esc s) \<longleftrightarrow> c \<in> set s"
  by (induction s) auto

lemma escape_wildcards_esc:
  assumes "CHR ''*'' \<notin> set s" and "CHR ''+'' \<notin> set s"
  shows "escape_wildcards s = esc s"
proof -
  have "replace_all ''%'' ''%25'' s = esc s" by (simp add: replace_char esc_def)
  moreover have "CHR ''*'' \<notin> set (esc s)" "CHR ''+'' \<notin> set (esc s)" using assms by (simp_all add: set_esc)
  ultimately show ?thesis by (simp add: escape_wildcards_def replace_none)
qed

lemma unescape_esc: "CHR ''+'' \<notin> set v \<Longrightarrow> QueryUnescape (esc v) = Some v"
proof (induction v)
  case (Cons c v)
  have "char_of (37 :: nat) = CHR ''%''" by code_simp
  with Cons show ?case by (auto simp: is_digit_def)
qed simp

lemma safe_chars: "safe_text v \<longleftrightarrow> CHR ''&'' \<notin> set v \<and> CHR '';'' \<notin> set v \<and> CHR ''+'' \<notin> set v \<and> CHR ''*'' \<notin> set v"
  by (auto simp: safe_text_def list_all_iff)

lemma esc_none: "CHR ''%'' \<notin> set k \<Longrightarrow> esc k = k"
  by (induction k) auto

lemma plain_key_chars:
  "plain_key k \<longleftrightarrow> k \<noteq> [] \<and> CHR ''='' \<notin> set k \<and> CHR ''%'' \<notin> set k \<and> safe_text k"
  by (auto simp: plain_key_def list_all_iff)

lemma unescape_key: "plain_key k \<Longrightarrow> QueryUnescape k = Some k"
  using unescape_esc [of k] by (simp add: esc_none plain_key_chars safe_chars)

lemma query_part_pair:
  assumes "plain_key k" and "safe_text v"
  shows "query_part (esc (k @ ''='' @ v)) = [(k, v)]"
proof -
  have k: "esc k = k" "k \<noteq> []" "CHR ''='' \<notin> set k" "QueryUnescape k = Some k"
    using assms(1) unescape_key by (simp_all add: plain_key_chars esc_none)
  have split: "esc (k @ ''='' @ v) = k @ CHR ''='' # esc v" using k(1) by simp
  have "takeWhile (\<lambda>c. c \<noteq> CHR ''='') (k @ CHR ''='' # esc v) = k"
    using k(3) by (subst takeWhile_append2) auto
  moreover have "dropWhile (\<lambda>c. c \<noteq> CHR ''='') (k @ CHR ''='' # esc v) = CHR ''='' # esc v"
    using k(3) by (subst dropWhile_append2) auto
  moreover have "QueryUnescape (esc v) = Some v" using assms(2) by (simp add: unescape_esc safe_chars)
  ultimately show ?thesis using k(2,4) unfolding split query_part_def by simp
qed

lemma Split_pairs:
  assumes "safe_pairs ((k, v) # ps)"
  shows "Split (esc (k @ ''='' @ v @ show_pairs ps)) CHR ''&'' = map (\<lambda>(k, v). esc (k @ ''='' @ v)) ((k, v) # ps)"
  using assms
proof (induction ps arbitrary: k v)
  case Nil
  then have "CHR ''&'' \<notin> set (esc (k @ ''='' @ v))" by (simp add: safe_pairs_def plain_key_chars safe_chars set_esc)
  then show ?case by (simp add: Split_no_sep show_pairs_def)
next
  case (Cons p ps)
  obtain k' v' where p: "p = (k', v')" by fastforce
  have c: "CHR ''&'' \<notin> set (esc (k @ ''='' @ v))" using Cons.prems by (simp add: safe_pairs_def plain_key_chars safe_chars set_esc)
  have "show_pairs (p # ps) = CHR ''&'' # k' @ ''='' @ v' @ show_pairs ps" by (simp add: show_pairs_def p query_pair_def)
  then have "esc (k @ ''='' @ v @ show_pairs (p # ps)) = esc (k @ ''='' @ v) @ CHR ''&'' # esc (k' @ ''='' @ v' @ show_pairs ps)"
    by simp
  with Split_append [OF c] Cons.IH [of k' v'] Cons.prems show ?case by (simp add: p safe_pairs_def)
qed

subsection \<open>Reading the link\<close>

lemma Split_parts:
  assumes "safe_pairs ps"
  shows "concat (map query_part (map (\<lambda>(k, v). esc (k @ ''='' @ v)) ps)) = ps"
  using assms
proof (induction ps)
  case (Cons p ps)
  obtain k v where p: "p = (k, v)" by fastforce
  from Cons.prems have "query_part (esc (k @ ''='' @ v)) = [(k, v)]" by (intro query_part_pair) (simp_all add: p safe_pairs_def)
  with Cons show ?case by (simp add: p safe_pairs_def del: esc_simps)
qed simp

lemma not_in_show_pairs:
  assumes "d \<noteq> CHR ''&''" and "d \<noteq> CHR ''=''" and "list_all (\<lambda>(k, v). d \<notin> set k \<and> d \<notin> set v) ps"
  shows "d \<notin> set (show_pairs ps)"
  using assms(3)
proof (induction ps)
  case (Cons p ps)
  with assms(1,2) show ?case by (cases p) (simp add: query_pair_def)
qed simp

lemma safe_pairs_chars:
  assumes "safe_pairs ps" and "d \<in> {CHR '';'', CHR ''+'', CHR ''*''}"
  shows "list_all (\<lambda>(k, v). d \<notin> set k \<and> d \<notin> set v) ps"
  using assms(1) unfolding safe_pairs_def
  by (rule list.pred_mono_strong) (use assms(2) in \<open>auto simp: plain_key_chars safe_chars\<close>)

lemma no_semicolon:
  assumes "safe_pairs ((k, v) # ps)"
  shows "CHR '';'' \<notin> set (k @ ''='' @ v @ show_pairs ps)" and "CHR ''+'' \<notin> set (k @ ''='' @ v @ show_pairs ps)"
    and "CHR ''*'' \<notin> set (k @ ''='' @ v @ show_pairs ps)"
proof -
  have ps: "safe_pairs ps" and kv: "safe_text k" "safe_text v" using assms by (simp_all add: safe_pairs_def plain_key_chars)
  have "d \<notin> set (show_pairs ps)" if "d \<in> {CHR '';'', CHR ''+'', CHR ''*''}" for d
    by (rule not_in_show_pairs) (use that safe_pairs_chars [OF ps that] in auto)
  with kv show "CHR '';'' \<notin> set (k @ ''='' @ v @ show_pairs ps)" "CHR ''+'' \<notin> set (k @ ''='' @ v @ show_pairs ps)"
    "CHR ''*'' \<notin> set (k @ ''='' @ v @ show_pairs ps)" by (simp_all add: safe_chars)
qed

lemma map_none: "c \<notin> set s \<Longrightarrow> map (\<lambda>x. if x = c then d else x) s = s"
  by (induction s) auto

lemma values_distinct:
  assumes "distinct (map fst ps)"
  shows "map (\<lambda>k. (k, map snd (filter (\<lambda>p. fst p = k) ps))) (map fst ps) = map (\<lambda>(k, v). (k, [v])) ps"
proof -
  have one: "map snd (filter (\<lambda>q. fst q = k) ps) = [v]" if "(k, v) \<in> set ps" for k v
    using that assms
  proof (induction ps)
    case (Cons q ps)
    have "fst q \<notin> fst ` set ps" using Cons.prems(2) by simp
    then have "fst r \<noteq> fst q" if "r \<in> set ps" for r using imageI [OF that, of fst] by metis
    then have "filter (\<lambda>r. fst r = fst q) ps = []" by (simp add: filter_empty_conv)
    with Cons show ?case by (cases q) (auto simp: rev_image_eqI)
  qed simp
  show ?thesis using one by (auto simp: comp_def)
qed

lemma ParseQuery_pairs:
  assumes "safe_pairs ((k, v) # ps)" and "distinct (map fst ((k, v) # ps))"
  shows "ParseQuery (escape_wildcards (k @ ''='' @ v @ show_pairs ps)) = map (\<lambda>(k, v). (k, [v])) ((k, v) # ps)"
proof -
  note safe = no_semicolon [OF assms(1)]
  let ?q = "k @ ''='' @ v @ show_pairs ps"
  have "escape_wildcards ?q = esc ?q" by (rule escape_wildcards_esc [OF safe(3,2)])
  moreover have "map (\<lambda>c. if c = CHR '';'' then CHR ''&'' else c) (esc ?q) = esc ?q"
    by (rule map_none) (use safe(1) in \<open>simp add: set_esc del: esc_simps\<close>)
  moreover have "concat (map query_part (Split (esc ?q) CHR ''&'')) = (k, v) # ps"
    unfolding Split_pairs [OF assms(1)] by (rule Split_parts [OF assms(1)])
  moreover have "remdups (map fst ((k, v) # ps)) = map fst ((k, v) # ps)" using assms(2) by (rule distinct_remdups_id)
  ultimately show ?thesis unfolding ParseQuery_def Let_def using values_distinct [OF assms(2)] by (simp only:)
qed

text \<open>The pairs set the parameters one after the other.\<close>

definition read_pairs :: "search_env \<Rightarrow> search_params \<times> bool \<Rightarrow> (string \<times> string) list \<Rightarrow> (search_params \<times> bool) result" where
  "read_pairs env st ps = fold_res (search_param env) st (map (\<lambda>(k, v). (k, [v])) ps)"

lemma read_pairs_simps:
  "read_pairs env st [] = Inr st"
  "read_pairs env st ((k, v) # ps) =
     (case search_param env st (k, [v]) of Inl e \<Rightarrow> Inl e | Inr st' \<Rightarrow> read_pairs env st' ps)"
  by (simp_all add: read_pairs_def split: sum.splits)

lemma read_opt:
  assumes "map_of string_params k = Some upd" and "k \<notin> {''after'', ''before'', ''foundanything'', ''limit'', ''offset''}"
    and "upd any p = p"
  shows "read_pairs env (p, f) (opt_pair any k v @ rest) = read_pairs env (upd v p, f) rest"
  using assms by (cases "v = any") (simp_all add: opt_pair_def search_param_def read_pairs_simps)

lemma read_opts:
  "sp_ActionID p = any_id \<Longrightarrow> read_pairs env (p, f) (opt_pair any_id ''actionid'' v @ rest) = read_pairs env (p\<lparr>sp_ActionID := v\<rparr>, f) rest"
  "sp_ActionName p = any_text \<Longrightarrow> read_pairs env (p, f) (opt_pair any_text ''actionname'' v @ rest) = read_pairs env (p\<lparr>sp_ActionName := v\<rparr>, f) rest"
  "sp_AgentID p = any_id \<Longrightarrow> read_pairs env (p, f) (opt_pair any_id ''agentid'' v @ rest) = read_pairs env (p\<lparr>sp_AgentID := v\<rparr>, f) rest"
  "sp_AgentName p = any_text \<Longrightarrow> read_pairs env (p, f) (opt_pair any_text ''agentname'' v @ rest) = read_pairs env (p\<lparr>sp_AgentName := v\<rparr>, f) rest"
  "sp_AgentVersion p = any_text \<Longrightarrow> read_pairs env (p, f) (opt_pair any_text ''agentversion'' v @ rest) = read_pairs env (p\<lparr>sp_AgentVersion := v\<rparr>, f) rest"
  "sp_CommandID p = any_id \<Longrightarrow> read_pairs env (p, f) (opt_pair any_id ''commandid'' v @ rest) = read_pairs env (p\<lparr>sp_CommandID := v\<rparr>, f) rest"
  "sp_InvestigatorID p = any_id \<Longrightarrow> read_pairs env (p, f) (opt_pair any_id ''investigatorid'' v @ rest) = read_pairs env (p\<lparr>sp_InvestigatorID := v\<rparr>, f) rest"
  "sp_InvestigatorName p = any_text \<Longrightarrow> read_pairs env (p, f) (opt_pair any_text ''investigatorname'' v @ rest) = read_pairs env (p\<lparr>sp_InvestigatorName := v\<rparr>, f) rest"
  "sp_LoaderID p = any_id \<Longrightarrow> read_pairs env (p, f) (opt_pair any_id ''loaderid'' v @ rest) = read_pairs env (p\<lparr>sp_LoaderID := v\<rparr>, f) rest"
  "sp_LoaderName p = any_text \<Longrightarrow> read_pairs env (p, f) (opt_pair any_text ''loadername'' v @ rest) = read_pairs env (p\<lparr>sp_LoaderName := v\<rparr>, f) rest"
  "sp_ManifestName p = any_text \<Longrightarrow> read_pairs env (p, f) (opt_pair any_text ''manifestname'' v @ rest) = read_pairs env (p\<lparr>sp_ManifestName := v\<rparr>, f) rest"
  "sp_ManifestID p = any_id \<Longrightarrow> read_pairs env (p, f) (opt_pair any_id ''manifestid'' v @ rest) = read_pairs env (p\<lparr>sp_ManifestID := v\<rparr>, f) rest"
  "sp_Status p = any_text \<Longrightarrow> read_pairs env (p, f) (opt_pair any_text ''status'' v @ rest) = read_pairs env (p\<lparr>sp_Status := v\<rparr>, f) rest"
  "sp_ThreatFamily p = any_text \<Longrightarrow> read_pairs env (p, f) (opt_pair any_text ''threatfamily'' v @ rest) = read_pairs env (p\<lparr>sp_ThreatFamily := v\<rparr>, f) rest"
  by (rule read_opt; simp add: string_params_def)+

lemma read_params:
  assumes "sn_ParseTime env (fmt (sp_After p)) = Inr after" and "sn_ParseTime env (fmt (sp_Before p)) = Inr before"
    and "sn_ParseFloat env (show_num (sp_Limit p)) = (sp_Limit p, None)"
    and "sn_ParseFloat env (show_num (sp_Offset p)) = (sp_Offset p, None)"
    and "sp_Target p = []" and "sp_Report p = []" and "\<not> sp_FoundAnything p"
  shows "read_pairs env (NewParameters now, False) ((''type'', sp_Type p) # param_pairs fmt show_num p) =
    Inr (p\<lparr>sp_After := after, sp_Before := before\<rparr>, False)"
proof -
  have off: "read_pairs env (q, f) ((if sp_Offset p \<noteq> 0 then [(''offset'', show_num (sp_Offset p))] else []) @ rest) =
      read_pairs env (q\<lparr>sp_Offset := sp_Offset p\<rparr>, f) rest" if "sp_Offset q = 0" for q f rest
    using that assms(4) by (cases q) (simp add: search_param_def parsed_number_def read_pairs_simps)
  have fixed: "search_param env (q, f) (''type'', [v]) = Inr (q\<lparr>sp_Type := v\<rparr>, f)"
      "search_param env (q, f) (''after'', [fmt (sp_After p)]) = Inr (q\<lparr>sp_After := after\<rparr>, f)"
      "search_param env (q, f) (''before'', [fmt (sp_Before p)]) = Inr (q\<lparr>sp_Before := before\<rparr>, f)"
      "search_param env (q, f) (''limit'', [show_num (sp_Limit p)]) = Inr (q\<lparr>sp_Limit := sp_Limit p\<rparr>, f)" for q f v
    using assms(1-3) by (simp_all add: search_param_def parsed_time_def parsed_number_def string_params_def)
  note final = read_opts [where rest = "[]", unfolded append_Nil2]
  have "read_pairs env (NewParameters now, False) ((''type'', sp_Type p) # param_pairs fmt show_num p) =
      Inr (p\<lparr>sp_After := after, sp_Before := before, sp_FoundAnything := False, sp_Report := [], sp_Target := []\<rparr>, False)"
    unfolding param_pairs_def append_Cons append_Nil
    by (simp add: read_pairs_simps fixed off read_opts final NewParameters_def cong: if_cong split del: if_split)
  then show ?thesis using assms(5-7) by (cases p) simp
qed

definition safe_params :: "search_params \<Rightarrow> bool" where
  "safe_params p \<longleftrightarrow> list_all safe_text
     [sp_Type p, sp_ActionID p, sp_ActionName p, sp_AgentID p, sp_AgentName p, sp_AgentVersion p, sp_CommandID p,
      sp_InvestigatorID p, sp_InvestigatorName p, sp_LoaderID p, sp_LoaderName p, sp_ManifestName p, sp_ManifestID p,
      sp_Status p, sp_ThreatFamily p]"

lemma safe_pairs_simps:
  "safe_pairs []" "safe_pairs ((k, v) # ps) \<longleftrightarrow> plain_key k \<and> safe_text v \<and> safe_pairs ps"
  "safe_pairs (ps @ qs) \<longleftrightarrow> safe_pairs ps \<and> safe_pairs qs"
  by (auto simp: safe_pairs_def)

lemma safe_opt_pair: "plain_key k \<Longrightarrow> safe_text v \<Longrightarrow> safe_pairs (opt_pair any k v)"
  by (simp add: opt_pair_def safe_pairs_def)

lemma plain_keys:
  "plain_key ''type''" "plain_key ''after''" "plain_key ''before''" "plain_key ''actionid''" "plain_key ''actionname''"
  "plain_key ''agentid''" "plain_key ''agentname''" "plain_key ''agentversion''" "plain_key ''commandid''"
  "plain_key ''investigatorid''" "plain_key ''investigatorname''" "plain_key ''loaderid''" "plain_key ''loadername''"
  "plain_key ''manifestname''" "plain_key ''manifestid''" "plain_key ''limit''" "plain_key ''offset''" "plain_key ''status''"
  "plain_key ''threatfamily''"
  by (simp_all add: plain_key_def safe_text_def)

lemma param_pairs_safe:
  assumes "safe_params p" and "safe_text (fmt (sp_After p))" and "safe_text (fmt (sp_Before p))"
    and "\<And>n. safe_text (show_num n)"
  shows "safe_pairs ((''type'', sp_Type p) # param_pairs fmt show_num p)"
  using assms unfolding param_pairs_def append_Cons append_Nil
  by (simp add: safe_pairs_simps safe_opt_pair plain_keys safe_params_def)

lemma distinct_subseq: "subseq xs ys \<Longrightarrow> distinct ys \<Longrightarrow> distinct xs"
  by (induction rule: list_emb.induct) (auto dest: list_emb_set)

lemma keys_opt: "subseq (map fst (opt_pair any k v)) [k]"
  by (simp add: opt_pair_def)

lemma keys_if: "subseq (map fst (if b then [(k, v)] else [])) [k]"
  by simp

lemma param_pairs_distinct: "distinct (map fst ((''type'', sp_Type p) # param_pairs fmt show_num p))"
proof -
  have "subseq (map fst ((''type'', sp_Type p) # param_pairs fmt show_num p))
    ([''type''] @ [''after''] @ [''before''] @ [''actionid''] @ [''actionname''] @ [''agentid''] @ [''agentname''] @
     [''agentversion''] @ [''commandid''] @ [''investigatorid''] @ [''investigatorname''] @ [''loaderid''] @ [''loadername''] @
     [''manifestname''] @ [''manifestid''] @ [''limit''] @ [''offset''] @ [''status''] @ [''threatfamily''])"
    unfolding param_pairs_def append_Cons append_Nil map_append list.map fst_conv
    by (intro subseq_Cons2 list_emb_append_mono [of _ _ "[_]" _ _, unfolded append_Cons append_Nil] keys_opt keys_if)
  then show ?thesis by (rule distinct_subseq) simp
qed

text \<open>
  C19. The link to the next page keeps the search, its times cut to the second: when it is followed, the API reads the
  parameters of the page that it was on, with the offset advanced by the limit. The conditions: no text has a separator or a
  wildcard other than the percent sign; the two times are printed without a plus sign; the numbers are integers that a float
  holds; neither a target nor \<open>foundanything\<close> was asked for, which the link leaves out. A time in RFC 3339 has no fraction
  of a second, and what is read back is the time without it.
\<close>

theorem next_page_continues:
  assumes "safe_params p" and "safe_text (sv_Format sv (sp_After p))" and "safe_text (sv_Format sv (sp_Before p))"
    and "\<And>n. safe_text (sv_ShowNum sv n)"
    and "\<And>t. t \<in> {sp_After p, sp_Before p} \<Longrightarrow> sn_ParseTime env (sv_Format sv t) = Inr (t - t mod second)"
    and "\<And>n. \<bar>n\<bar> \<le> 2 ^ 53 \<Longrightarrow> sn_ParseFloat env (sv_ShowNum sv n) = (n, None)"
    and "\<bar>sp_Limit p\<bar> \<le> 2 ^ 53" and "\<bar>sp_Offset p + sp_Limit p\<bar> \<le> 2 ^ 53"
    and "sp_Target p = []" and "sp_Report p = []" and "\<not> sp_FoundAnything p"
  shows "\<exists>query. next_page sv p = sv_BaseURL sv @ ''/search?'' @ query \<and>
    parseSearchParameters env now (ParseQuery query) =
      Inr (p\<lparr>sp_After := sp_After p - sp_After p mod second, sp_Before := sp_Before p - sp_Before p mod second,
             sp_Offset := sp_Offset p + sp_Limit p\<rparr>, False)"
proof -
  let ?p = "p\<lparr>sp_Offset := sp_Offset p + sp_Limit p\<rparr>"
  let ?r = "?p\<lparr>sp_After := sp_After p - sp_After p mod second, sp_Before := sp_Before p - sp_Before p mod second\<rparr>"
  let ?ps = "param_pairs (sv_Format sv) (sv_ShowNum sv) ?p"
  have "safe_pairs ((''type'', sp_Type ?p) # ?ps)"
    by (rule param_pairs_safe) (use assms(1-4) in \<open>simp_all add: safe_params_def\<close>)
  from ParseQuery_pairs [OF this param_pairs_distinct]
  have "ParseQuery (params_String (sv_Format sv) (sv_ShowNum sv) ?p) = map (\<lambda>(k, v). (k, [v])) ((''type'', sp_Type ?p) # ?ps)"
    by (simp add: params_String_pairs)
  moreover have "read_pairs env (NewParameters now, False) ((''type'', sp_Type ?p) # ?ps) = Inr (?r, False)"
    by (rule read_params) (use assms(5,9-11) assms(6) [OF assms(7)] assms(6) [OF assms(8)] in simp_all)
  ultimately have "parseSearchParameters env now (ParseQuery (params_String (sv_Format sv) (sv_ShowNum sv) ?p)) = Inr (?r, False)"
    by (simp add: parseSearchParameters_def read_pairs_def)
  then show ?thesis by (auto simp: next_page_def)
qed

definition example_num :: "int \<Rightarrow> string" where
  "example_num n = (if n < 0 then replicate (nat (- n)) CHR ''m'' else replicate (nat n) CHR ''p'')"

definition example_server :: server_env where
  "example_server = \<lparr>sv_Host = ''h'', sv_BaseRoute = ''/r'', sv_BaseURL = ''h/r'', sv_Format = example_num,
     sv_ShowNum = example_num, sv_Holds = (\<lambda>_ _. Inr True)\<rparr>"

theorem next_page_continues_witness:
  "\<exists>query. next_page (example_server\<lparr>sv_Format := \<lambda>t. example_num (t div second)\<rparr>) ((NewParameters 5)\<lparr>sp_AgentName := ''a%''\<rparr>) =
      ''h/r/search?'' @ query \<and>
    parseSearchParameters (example_search_env\<lparr>sn_ParseTime := \<lambda>s. map_sum id (\<lambda>n. n * second) (sn_ParseTime example_search_env s)\<rparr>)
      5 (ParseQuery query) =
    Inr ((NewParameters 5)\<lparr>sp_AgentName := ''a%'', sp_After := - DefaultWindow, sp_Before := DefaultWindow, sp_Offset := 100\<rparr>, False)"
proof -
  let ?sv = "example_server\<lparr>sv_Format := \<lambda>t. example_num (t div second)\<rparr>"
  let ?env = "example_search_env\<lparr>sn_ParseTime := \<lambda>s. map_sum id (\<lambda>n. n * second) (sn_ParseTime example_search_env s)\<rparr>"
  have safe: "safe_text (example_num n)" for n by (auto simp: safe_text_def example_num_def list_all_iff)
  have hd: "n \<noteq> 0 \<Longrightarrow> example_num n \<noteq> [] \<and> hd (example_num n) = (if n < 0 then CHR ''m'' else CHR ''p'')"
    and len: "int (length (example_num n)) = \<bar>n\<bar>" for n
    by (auto simp: example_num_def)
  have x: "example_num n \<noteq> ''x''" for n using hd [of n] by (cases "n = 0") (auto simp: example_num_def)
  have read: "sn_ParseTime example_search_env (example_num n) = Inr n" "sn_ParseFloat example_search_env (example_num n) = (n, None)" for n
    using hd [of n] len [of n] x by (cases "n = 0"; auto simp: example_search_env_def split: if_splits)+
  have "sn_ParseTime ?env (sv_Format ?sv t) = Inr (t - t mod second)" for t
    by (simp add: read minus_mod_eq_div_mult)
  moreover have "sn_ParseFloat ?env (sv_ShowNum ?sv n) = (n, None)" for n
    by (simp add: read(2) example_server_def)
  ultimately show ?thesis
    using next_page_continues [of "(NewParameters 5)\<lparr>sp_AgentName := ''a%''\<rparr>" ?sv ?env 5] safe
    by (simp add: example_server_def safe_params_def NewParameters_def any_id_def any_text_def safe_text_def DefaultWindow_def)
qed

end
