(* ===== verification/ActionApi.thy ===== *)
theory ActionApi
  imports InvestigatorApi Heartbeats CommandTable
begin

text \<open>
  The endpoints for actions, commands, agents and the dashboard (\<open>mig-api/action_endpoints.go\<close>,
  \<open>command_endpoints.go\<close>, \<open>agent_endpoints.go\<close>, \<open>getDashboard\<close> in \<open>api.go\<close>), behind \<open>authenticate\<close>.

  A request runs alone: the statements of other requests do not come between its own. Of a request the
  form value or the values of the query parameter are given; parsing numbers and actions, and printing
  numbers, are parameters.
\<close>

section \<open>State, environment and responses\<close>

record action_api_state =
  aa_DB :: mig_db
  aa_Keyring :: "string option"
  aa_KeyringTime :: time
  aa_GlobalID :: mig_id

record 'ring action_api_env =
  ax_Auth :: "'ring auth_env"
  ax_Codec :: codec
  ax_JSON :: db_json
  ax_ParseAction :: "string \<Rightarrow> action result"
  ax_ParseFloat :: "string \<Rightarrow> int result"
  ax_ShowNum :: "int \<Rightarrow> string"
  ax_BaseURL :: string

datatype api_data = ActionData action | CommandData command | AgentData agent | StatsData agents_stats

text \<open>An item has its address, the addresses of what it links to, and its value.\<close>

record api_item =
  ai_Href :: string
  ai_Links :: "(string \<times> string) list"
  ai_Data :: api_data

record api_response =
  ap_Code :: nat
  ap_Error :: "go_error option"
  ap_Items :: "api_item list"

definition api_ok :: "nat \<Rightarrow> api_item list \<Rightarrow> api_response result" where
  "api_ok code items = Inr \<lparr>ap_Code = code, ap_Error = None, ap_Items = items\<rparr>"

definition api_error :: "nat \<Rightarrow> go_error \<Rightarrow> api_response" where
  "api_error code e = \<lparr>ap_Code = code, ap_Error = Some e, ap_Items = []\<rparr>"

text \<open>The deferred function of a handler.\<close>

definition api_recover :: "'st \<times> api_response result \<Rightarrow> 'st \<times> api_response" where
  "api_recover sr = (case sr of (st, Inl e) \<Rightarrow> (st, api_error 500 e) | (st, Inr r) \<Rightarrow> (st, r))"

text \<open>The keyring and the rows of investigators, as \<open>getKeyring\<close> and \<open>authenticate\<close> use them.\<close>

definition auth_state :: "action_api_state \<Rightarrow> inv_state" where
  "auth_state st = \<lparr>st_DB = t_Investigators (aa_DB st), st_Keyring = aa_Keyring st, st_KeyringTime = aa_KeyringTime st\<rparr>"

definition with_auth :: "action_api_state \<Rightarrow> inv_state \<Rightarrow> action_api_state" where
  "with_auth st ks = st\<lparr>aa_Keyring := st_Keyring ks, aa_KeyringTime := st_KeyringTime ks\<rparr>"

definition api_keyring :: "'ring action_api_env \<Rightarrow> time \<Rightarrow> action_api_state \<Rightarrow> action_api_state \<times> string result" where
  "api_keyring env now st = map_prod (with_auth st) id (getKeyring (ax_Auth env) now (auth_state st))"

section \<open>Creating an action\<close>

text \<open>The year of \<open>date0\<close> is written \<open>0011\<close>, which Go reads as octal: it is the year 9.\<close>

definition past_date :: time where "past_date = -61882231729 * second + 11"

definition init_action :: "mig_id \<Rightarrow> action \<Rightarrow> action" where
  "init_action i a =
     a\<lparr>act_ID := i, act_StartTime := past_date, act_FinishTime := future_date, act_LastUpdateTime := past_date,
       act_Status := ''pending''\<rparr>"

text \<open>The loop over the signatures; \<open>clock k\<close> is the time at which signature \<open>k\<close> is reached.\<close>

fun write_signatures ::
  "'ring action_api_env \<Rightarrow> (nat \<Rightarrow> time) \<Rightarrow> string \<Rightarrow> mig_id \<Rightarrow> nat \<Rightarrow> string list \<Rightarrow> action_api_state \<Rightarrow>
     action_api_state \<times> unit result" where
  "write_signatures env clock astr aid k [] st = (st, Inr ())"
| "write_signatures env clock astr aid k (sig # sigs) st =
     bind_db (api_keyring env (clock k) st) (\<lambda>kr st.
     bind_db (st, GetFingerprintFromSignature (ae_PGP (ax_Auth env)) astr sig kr) (\<lambda>fp st.
     bind_db (st, InvestigatorByFingerprint fp (t_Investigators (aa_DB st))) (\<lambda>iv st.
     bind_db (map_prod (\<lambda>db. st\<lparr>aa_DB := db\<rparr>) id (InsertSignature aid (inv_ID iv) sig (aa_DB st))) (\<lambda>_ st.
       write_signatures env clock astr aid (Suc k) sigs st))))"

definition href :: "'ring action_api_env \<Rightarrow> string \<Rightarrow> mig_id \<Rightarrow> string" where
  "href env path i = ax_BaseURL env @ path @ ax_ShowNum env i"

definition actionToItem :: "'ring action_api_env \<Rightarrow> action \<Rightarrow> api_item" where
  "actionToItem env a = \<lparr>ai_Href = href env ''/action?actionid='' (act_ID a), ai_Links = [], ai_Data = ActionData a\<rparr>"

definition createAction ::
  "'ring action_api_env \<Rightarrow> time \<Rightarrow> (nat \<Rightarrow> time) \<Rightarrow> string result \<Rightarrow> action_api_state \<Rightarrow> action_api_state \<times> api_response" where
  "createAction env now clock form st =
     api_recover
       (bind_db (st, form) (\<lambda>postAction st.
        bind_db (st, ax_ParseAction env postAction) (\<lambda>posted st.
          let (i, g) = GenID (aa_GlobalID st) now; action = init_action i posted; st = st\<lparr>aa_GlobalID := g\<rparr>
          in bind_db (api_keyring env now st) (\<lambda>keyring st.
             bind_db (st, Validate now action) (\<lambda>_ st.
             bind_db (st, VerifySignatures (ax_Codec env) (ae_PGP (ax_Auth env)) keyring action) (\<lambda>_ st.
             bind_db (map_prod (\<lambda>db. st\<lparr>aa_DB := db\<rparr>) id (InsertAction (ax_JSON env) action (aa_DB st))) (\<lambda>_ st.
             bind_db (st, String (ax_Codec env) action) (\<lambda>astr st.
             bind_db (write_signatures env clock astr i 0 (act_PGPSignatures action) st) (\<lambda>_ st.
               (st, api_ok 202 [actionToItem env action]))))))))))"

section \<open>Reading an action, a command, an agent\<close>

definition query_number :: "'ring action_api_env \<Rightarrow> string \<Rightarrow> string list \<Rightarrow> int result" where
  "query_number env nm query =
     (case query of
        [] \<Rightarrow> Inl (errors_New ''index out of range'')
      | v # _ \<Rightarrow> (case ax_ParseFloat env v of
                    Inl e \<Rightarrow> Inl (Errorf (''Wrong parameters '' @ quoted nm @ '': '' @ quoted ''%v'') [AErr e])
                  | Inr i \<Rightarrow> Inr i))"

text \<open>
  The three handlers have the same form: 400 unless the identifier is positive, 404 when there is no row,
  a panic for any other error of the database.
\<close>

definition get_by_id ::
  "'ring action_api_env \<Rightarrow> string \<Rightarrow> string \<Rightarrow> string \<Rightarrow> (mig_id \<Rightarrow> 'a result) \<Rightarrow> ('a \<Rightarrow> api_response result) \<Rightarrow> string list \<Rightarrow>
     api_response result" where
  "get_by_id env title what param retrieve answer query =
     and_then (query_number env param query) (\<lambda>i.
       if 0 < i
       then (case retrieve i of
               Inl e \<Rightarrow>
                 if e = not_found_err what
                 then Inr (api_error 404 (Errorf (title @ '' ID '' @ quoted ''%.0f'' @ '' not found'') [AInt i]))
                 else Inl e
             | Inr x \<Rightarrow> answer x)
       else Inr (api_error 400 (Errorf (''Invalid '' @ title @ '' ID '' @ quoted ''%.0f'') [AInt i])))"

definition getAction :: "'ring action_api_env \<Rightarrow> string list \<Rightarrow> action_api_state \<Rightarrow> action_api_state \<times> api_response" where
  "getAction env query st =
     api_recover (st,
       get_by_id env ''Action'' ''action'' ''actionid'' (\<lambda>i. ActionByID (ax_JSON env) i (aa_DB st))
         (\<lambda>a. and_then (InvestigatorByActionID (act_ID a) (aa_DB st)) (\<lambda>invs.
                api_ok 200 [actionToItem env (a\<lparr>act_Investigators := invs\<rparr>)]))
         query)"

definition commandToItem :: "'ring action_api_env \<Rightarrow> command \<Rightarrow> api_item" where
  "commandToItem env c =
     \<lparr>ai_Href = href env ''/command?commandid='' (cmd_ID c),
      ai_Links = [(''action'', href env ''/action?actionid='' (act_ID (cmd_Action c)))], ai_Data = CommandData c\<rparr>"

definition getCommand :: "'ring action_api_env \<Rightarrow> string list \<Rightarrow> action_api_state \<Rightarrow> action_api_state \<times> api_response" where
  "getCommand env query st =
     api_recover (st,
       get_by_id env ''Command'' ''command'' ''commandid'' (\<lambda>i. CommandByID (ax_JSON env) i (aa_DB st))
         (\<lambda>c. api_ok 200 [commandToItem env c]) query)"

definition agentToItem :: "'ring action_api_env \<Rightarrow> agent \<Rightarrow> api_item" where
  "agentToItem env g = \<lparr>ai_Href = href env ''/agent?agentid='' (agt_ID g), ai_Links = [], ai_Data = AgentData g\<rparr>"

definition getAgent :: "'ring action_api_env \<Rightarrow> string list \<Rightarrow> action_api_state \<Rightarrow> action_api_state \<times> api_response" where
  "getAgent env query st =
     api_recover (st,
       get_by_id env ''Agent'' ''agent'' ''agentid'' (\<lambda>i. AgentByID (ax_JSON env) i (aa_DB st))
         (\<lambda>g. api_ok 200 [agentToItem env g]) query)"

section \<open>The dashboard\<close>

definition agentsSummaryToItem :: "'ring action_api_env \<Rightarrow> agents_stats \<Rightarrow> api_item" where
  "agentsSummaryToItem env s = \<lparr>ai_Href = ax_BaseURL env @ ''/dashboard'', ai_Links = [], ai_Data = StatsData s\<rparr>"

definition getDashboard :: "'ring action_api_env \<Rightarrow> action_api_state \<Rightarrow> action_api_state \<times> api_response" where
  "getDashboard env st =
     api_recover (st,
       let stats = GetAgentsStats 1 (aa_DB st)
       in if 1 < length stats
          then Inl (Errorf ''expected 1 set of agents stats, got %d'' [AInt (int (length stats))])
          else and_then (LastActions (ax_JSON env) 10 (aa_DB st)) (\<lambda>actions.
               and_then (map_res (\<lambda>a. and_then (InvestigatorByActionID (act_ID a) (aa_DB st)) (\<lambda>invs.
                                  Inr (actionToItem env (a\<lparr>act_Investigators := invs\<rparr>)))) actions) (\<lambda>items.
                 api_ok 200 (map (agentsSummaryToItem env) stats @ items))))"

section \<open>Requests\<close>

datatype action_call = CreateAction "string result" | GetAction "string list" | GetCommand "string list"
  | GetAgent "string list" | GetDashboard

fun call_permission :: "action_call \<Rightarrow> mask" where
  "call_permission (CreateAction form) = PermActionCreate"
| "call_permission (GetAction q) = PermAction"
| "call_permission (GetCommand q) = PermCommand"
| "call_permission (GetAgent q) = PermAgent"
| "call_permission GetDashboard = PermDashboard"

fun call_handler ::
  "'ring action_api_env \<Rightarrow> time \<Rightarrow> (nat \<Rightarrow> time) \<Rightarrow> action_call \<Rightarrow> action_api_state \<Rightarrow> action_api_state \<times> api_response" where
  "call_handler env now clock (CreateAction form) st = createAction env now clock form st"
| "call_handler env now clock (GetAction q) st = getAction env q st"
| "call_handler env now clock (GetCommand q) st = getCommand env q st"
| "call_handler env now clock (GetAgent q) st = getAgent env q st"
| "call_handler env now clock GetDashboard st = getDashboard env st"

definition action_request ::
  "'ring action_api_env \<Rightarrow> time \<Rightarrow> (nat \<Rightarrow> time) \<Rightarrow> auth_request \<Rightarrow> action_call \<Rightarrow> action_api_state \<Rightarrow> action_api_state \<times> api_response" where
  "action_request env now clock rq call st =
     (case authenticate (ax_Auth env) now (call_permission call) rq (auth_state st) of
        (ks, Inl refused) \<Rightarrow> (with_auth st ks, api_error (rsp_Code refused) (case rsp_Error refused of Some e \<Rightarrow> e | None \<Rightarrow> no_rows))
      | (ks, Inr iv) \<Rightarrow> call_handler env now clock call (with_auth st ks))"

end
