(* ===== verification/ActionApiProps.thy ===== *)
theory ActionApiProps
  imports ActionApi
begin

text \<open>
  The properties of the endpoints of \<open>ActionApi\<close>: what a created action leaves in the database, that it is
  served and scheduled, what a refused one leaves, and who may write.
\<close>

section \<open>What a request changes\<close>

lemma bind_db_Inr:
  "bind_db m k = (st', Inr r) \<longleftrightarrow> (\<exists>st x. m = (st, Inr x) \<and> k x st = (st', Inr r))"
  by (cases m) (auto simp: bind_db_def split: sum.splits)

lemma bind_db_simps:
  "bind_db (st, Inl e) k = (st, Inl e)" "bind_db (st, Inr x) k = k x st"
  by (simp_all add: bind_db_def)

lemma map_prod_id_Inr: "map_prod f id m = (st', Inr r) \<longleftrightarrow> (\<exists>st. m = (st, Inr r) \<and> st' = f st)"
  by (cases m) auto

lemma api_recover_ok:
  "api_recover m = (st', rsp) \<Longrightarrow> ap_Code rsp \<noteq> 500 \<Longrightarrow> m = (st', Inr rsp)"
  by (cases m) (auto simp: api_recover_def api_error_def split: sum.splits)

lemma is_ok_ex: "is_ok r \<longleftrightarrow> (\<exists>x. r = Inr x)"
  by (cases r) (auto simp: is_ok_def)

lemma api_keyring_db: "api_keyring env now st = (st', r) \<Longrightarrow> aa_DB st' = aa_DB st \<and> aa_GlobalID st' = aa_GlobalID st"
  by (cases "getKeyring (ax_Auth env) now (auth_state st)") (auto simp: api_keyring_def with_auth_def)

lemma api_keyring_Inr:
  assumes "api_keyring env now st = (st', Inr kr)"
  shows "keyring_fresh (ax_Auth env) now (auth_state st) kr"
proof -
  from assms obtain ks where ks: "getKeyring (ax_Auth env) now (auth_state st) = (ks, Inr kr)"
    by (cases "getKeyring (ax_Auth env) now (auth_state st)") (auto simp: api_keyring_def)
  from getKeyring_Inr [OF this] show ?thesis by (auto simp: keyring_fresh_def)
qed

lemma InsertAction_Inr:
  assumes "InsertAction js a db = (db', Inr ())"
  shows "\<exists>r. db' = db\<lparr>t_Actions := t_Actions db @ [r]\<rparr> \<and> ar_ID r = act_ID a \<and> ar_Name r = act_Name a \<and>
    ar_Target r = act_Target a \<and> ar_ValidFrom r = act_ValidFrom a \<and> ar_ExpireAfter r = act_ExpireAfter a \<and>
    ar_StartTime r = act_StartTime a \<and> ar_FinishTime r = act_FinishTime a \<and> ar_LastUpdateTime r = act_LastUpdateTime a \<and>
    ar_Status r = act_Status a \<and> ar_SyntaxVersion r = act_SyntaxVersion a \<and>
    dj_Description js (act_Description a) = Inr (ar_Description r) \<and> dj_Threat js (act_Threat a) = Inr (ar_Threat r) \<and>
    dj_Operations js (act_Operations a) = Inr (ar_Operations r) \<and>
    dj_Signatures js (act_PGPSignatures a) = Inr (ar_PGPSignatures r) \<and>
    (\<forall>x\<in>set (t_Actions db). ar_ID x \<noteq> act_ID a)"
  using assms
  by (auto simp: InsertAction_def Let_def and_then_def split: if_splits sum.splits)

lemma InsertSignature_Inr:
  assumes "InsertSignature aid iid sig db = (db', Inr ())"
  shows "db' = db\<lparr>t_Signatures := t_Signatures db @ [\<lparr>sr_ActionID = aid, sr_InvestigatorID = iid, sr_PGPSignature = sig\<rparr>]\<rparr> \<and>
    (\<forall>s\<in>set (t_Signatures db). sr_ActionID s = aid \<longrightarrow> sr_InvestigatorID s \<noteq> iid)"
  using assms by (auto simp: InsertSignature_def wrap_err_def split: if_splits)

text \<open>Who a signature row says has signed: the investigator with the fingerprint of the key that verifies it.\<close>

definition signer_row :: "'ring action_api_env \<Rightarrow> string \<Rightarrow> inv_db \<Rightarrow> signature_row \<Rightarrow> bool" where
  "signer_row env astr idb s \<longleftrightarrow>
     (\<exists>kr fp iv. GetFingerprintFromSignature (ae_PGP (ax_Auth env)) astr (sr_PGPSignature s) kr = Inr fp \<and>
        InvestigatorByFingerprint fp idb = Inr iv \<and> sr_InvestigatorID s = inv_ID iv)"

lemma write_signatures_Inr:
  assumes "write_signatures env clock astr aid k sigs st = (st', Inr ())"
  shows "\<exists>ss. aa_DB st' = (aa_DB st)\<lparr>t_Signatures := t_Signatures (aa_DB st) @ ss\<rparr> \<and>
    map sr_PGPSignature ss = sigs \<and> distinct (map sr_InvestigatorID ss) \<and>
    (\<forall>s\<in>set ss. sr_ActionID s = aid \<and> signer_row env astr (t_Investigators (aa_DB st)) s \<and>
       (\<forall>x\<in>set (t_Signatures (aa_DB st)). sr_ActionID x = aid \<longrightarrow> sr_InvestigatorID x \<noteq> sr_InvestigatorID s))"
  using assms
proof (induction sigs arbitrary: k st)
  case Nil
  then show ?case by (intro exI [of _ "[]"]) simp
next
  case (Cons sig sigs)
  from Cons.prems obtain st1 kr fp iv db2 where
    kr: "api_keyring env (clock k) st = (st1, Inr kr)"
    and fp: "GetFingerprintFromSignature (ae_PGP (ax_Auth env)) astr sig kr = Inr fp"
    and iv: "InvestigatorByFingerprint fp (t_Investigators (aa_DB st1)) = Inr iv"
    and ins: "InsertSignature aid (inv_ID iv) sig (aa_DB st1) = (db2, Inr ())"
    and rest: "write_signatures env clock astr aid (Suc k) sigs (st1\<lparr>aa_DB := db2\<rparr>) = (st', Inr ())"
    by (auto simp: bind_db_Inr map_prod_id_Inr)
  let ?s = "\<lparr>sr_ActionID = aid, sr_InvestigatorID = inv_ID iv, sr_PGPSignature = sig\<rparr>"
  have db1: "aa_DB st1 = aa_DB st" using api_keyring_db [OF kr] by simp
  have db2: "db2 = (aa_DB st)\<lparr>t_Signatures := t_Signatures (aa_DB st) @ [?s]\<rparr>"
    and new: "\<forall>s\<in>set (t_Signatures (aa_DB st)). sr_ActionID s = aid \<longrightarrow> sr_InvestigatorID s \<noteq> inv_ID iv"
    using InsertSignature_Inr [OF ins] db1 by auto
  have s: "signer_row env astr (t_Investigators (aa_DB st)) ?s"
    using fp iv db1 by (auto simp: signer_row_def)
  from Cons.IH [OF rest] obtain ss where
    ss: "aa_DB st' = db2\<lparr>t_Signatures := t_Signatures db2 @ ss\<rparr>" "map sr_PGPSignature ss = sigs"
      "distinct (map sr_InvestigatorID ss)"
      "\<forall>s\<in>set ss. sr_ActionID s = aid \<and> signer_row env astr (t_Investigators db2) s \<and>
         (\<forall>x\<in>set (t_Signatures db2). sr_ActionID x = aid \<longrightarrow> sr_InvestigatorID x \<noteq> sr_InvestigatorID s)"
    by auto
  have "inv_ID iv \<notin> sr_InvestigatorID ` set ss" using ss(4) db2 by fastforce
  with ss s new show ?case
    by (intro exI [of _ "?s # ss"]) (auto simp: db2)
qed

text \<open>A request that is answered 202 has gone through every stage.\<close>

lemma createAction_202:
  assumes "createAction env now clock form st = (st', rsp)" and "ap_Code rsp = 202"
  obtains p posted a kr st1 db2 astr where "form = Inr p" "ax_ParseAction env p = Inr posted"
    "a = init_action (fst (GenID (aa_GlobalID st) now)) posted" "ap_Items rsp = [actionToItem env a]"
    "keyring_fresh (ax_Auth env) now (auth_state st) kr" "aa_DB st1 = aa_DB st" "Validate now a = Inr ()"
    "VerifySignatures (ax_Codec env) (ae_PGP (ax_Auth env)) kr a = Inr ()" "InsertAction (ax_JSON env) a (aa_DB st) = (db2, Inr ())"
    "String (ax_Codec env) a = Inr astr"
    "write_signatures env clock astr (act_ID a) 0 (act_PGPSignatures a) (st1\<lparr>aa_DB := db2\<rparr>) = (st', Inr ())"
proof -
  obtain i g where ig: "GenID (aa_GlobalID st) now = (i, g)" by (cases "GenID (aa_GlobalID st) now")
  note run = assms(1) [unfolded createAction_def, THEN api_recover_ok, OF eq_neq_eq_imp_neq [OF assms(2) _ refl], simplified]
  from run obtain p posted kr st1 db2 astr st3 where
    r: "form = Inr p" "ax_ParseAction env p = Inr posted" "api_keyring env now (st\<lparr>aa_GlobalID := g\<rparr>) = (st1, Inr kr)"
      "Validate now (init_action i posted) = Inr ()"
      "VerifySignatures (ax_Codec env) (ae_PGP (ax_Auth env)) kr (init_action i posted) = Inr ()"
      "InsertAction (ax_JSON env) (init_action i posted) (aa_DB st1) = (db2, Inr ())"
      "String (ax_Codec env) (init_action i posted) = Inr astr"
      "write_signatures env clock astr i 0 (act_PGPSignatures (init_action i posted)) (st1\<lparr>aa_DB := db2\<rparr>) = (st', Inr ())"
      "rsp = \<lparr>ap_Code = 202, ap_Error = None, ap_Items = [actionToItem env (init_action i posted)]\<rparr>"
    by (auto simp: bind_db_Inr map_prod_id_Inr ig Let_def api_ok_def)
  have db1: "aa_DB st1 = aa_DB st" using api_keyring_db [OF r(3)] by simp
  have fresh: "keyring_fresh (ax_Auth env) now (auth_state st) kr"
    using api_keyring_Inr [OF r(3)] by (simp add: auth_state_def keyring_fresh_def)
  show thesis
    by (rule that [of p posted "init_action i posted" kr st1 db2 astr])
      (use r db1 fresh in \<open>simp_all add: ig init_action_def\<close>)
qed

section \<open>Created actions\<close>

text \<open>
  C6. An action answered 202 is the posted one under a new identifier; all of its signatures verify with
  keys of active investigators; its row is added to the table, pending, and beside it one row for each signature,
  in order, of as many different investigators, each the one whose key made the signature. Nothing else
  changes in the database.
\<close>

theorem created_action_is_signed:
  assumes "createAction env now clock form st = (st', rsp)" and "ap_Code rsp = 202"
  shows "\<exists>a astr kr r ss. ap_Items rsp = [actionToItem env a] \<and> act_ID a = fst (GenID (aa_GlobalID st) now) \<and>
    keyring_fresh (ax_Auth env) now (auth_state st) kr \<and> String (ax_Codec env) a = Inr astr \<and>
    act_PGPSignatures a \<noteq> [] \<and>
    (\<forall>sig\<in>set (act_PGPSignatures a). \<exists>ent. Verify (ae_PGP (ax_Auth env)) astr sig kr = Inr ent) \<and>
    aa_DB st' = (aa_DB st)\<lparr>t_Actions := t_Actions (aa_DB st) @ [r], t_Signatures := t_Signatures (aa_DB st) @ ss\<rparr> \<and>
    ar_ID r = act_ID a \<and> ar_Name r = act_Name a \<and> ar_Target r = act_Target a \<and> ar_Status r = ''pending'' \<and>
    map sr_PGPSignature ss = act_PGPSignatures a \<and> distinct (map sr_InvestigatorID ss) \<and>
    (\<forall>s\<in>set ss. sr_ActionID s = act_ID a \<and> signer_row env astr (t_Investigators (aa_DB st)) s)"
proof -
  from createAction_202 [OF assms] obtain p posted a kr st1 db2 astr where
    a: "a = init_action (fst (GenID (aa_GlobalID st) now)) posted" "ap_Items rsp = [actionToItem env a]"
    and kr: "keyring_fresh (ax_Auth env) now (auth_state st) kr"
    and v: "VerifySignatures (ax_Codec env) (ae_PGP (ax_Auth env)) kr a = Inr ()"
    and ins: "InsertAction (ax_JSON env) a (aa_DB st) = (db2, Inr ())" and str: "String (ax_Codec env) a = Inr astr"
    and w: "write_signatures env clock astr (act_ID a) 0 (act_PGPSignatures a) (st1\<lparr>aa_DB := db2\<rparr>) = (st', Inr ())"
    by metis
  from InsertAction_Inr [OF ins] obtain r where
    r: "db2 = (aa_DB st)\<lparr>t_Actions := t_Actions (aa_DB st) @ [r]\<rparr>" "ar_ID r = act_ID a" "ar_Name r = act_Name a"
      "ar_Target r = act_Target a" "ar_Status r = act_Status a" by blast
  from write_signatures_Inr [OF w] r(1) obtain ss where
    ss: "aa_DB st' = db2\<lparr>t_Signatures := t_Signatures (aa_DB st) @ ss\<rparr>" "map sr_PGPSignature ss = act_PGPSignatures a"
      "distinct (map sr_InvestigatorID ss)"
      "\<forall>s\<in>set ss. sr_ActionID s = act_ID a \<and> signer_row env astr (t_Investigators (aa_DB st)) s" by auto
  have sigs: "act_PGPSignatures a \<noteq> [] \<and> (\<forall>sig\<in>set (act_PGPSignatures a). \<exists>ent. Verify (ae_PGP (ax_Auth env)) astr sig kr = Inr ent)"
    using v str by (auto simp: VerifySignatures_iff list_all_iff is_ok_ex)
  show ?thesis
    using a kr str sigs r ss by (intro exI [of _ a] exI [of _ astr] exI [of _ kr] exI [of _ r] exI [of _ ss])
      (simp add: init_action_def)
qed


lemma api_keyring_actions: "t_Actions (aa_DB (fst (api_keyring env now st))) = t_Actions (aa_DB st)"
  by (cases "api_keyring env now st") (simp add: api_keyring_db)

lemma InsertSignature_actions: "t_Actions (fst (InsertSignature aid iid sig db)) = t_Actions db"
  by (simp add: InsertSignature_def)

lemma write_signatures_actions:
  "t_Actions (aa_DB (fst (write_signatures env clock astr aid k sigs st))) = t_Actions (aa_DB st)"
proof (induction sigs arbitrary: k st)
  case Nil
  then show ?case by simp
next
  case (Cons sig sigs)
  obtain st1 r where kr: "api_keyring env (clock k) st = (st1, r)" by (cases "api_keyring env (clock k) st")
  have 1: "t_Actions (aa_DB st1) = t_Actions (aa_DB st)" using api_keyring_actions [of env "clock k" st] kr by simp
  show ?case
  proof (cases r)
    case (Inl e)
    with kr 1 show ?thesis by (simp add: bind_db_def)
  next
    case (Inr ring)
    have "t_Actions (aa_DB (fst (bind_db (map_prod (\<lambda>db. st1\<lparr>aa_DB := db\<rparr>) id (InsertSignature aid (inv_ID iv) sig (aa_DB st1)))
        (\<lambda>_ st. write_signatures env clock astr aid (Suc k) sigs st)))) = t_Actions (aa_DB st1)" for iv
      using InsertSignature_actions [of aid "inv_ID iv" sig "aa_DB st1"]
      by (cases "InsertSignature aid (inv_ID iv) sig (aa_DB st1)")
        (simp add: bind_db_def Cons.IH split: sum.splits)
    note inner = this
    show ?thesis
    proof (cases "GetFingerprintFromSignature (ae_PGP (ax_Auth env)) astr sig ring")
      case (Inl e)
      with kr \<open>r = Inr ring\<close> 1 show ?thesis by (simp add: bind_db_simps)
    next
      case (Inr fp)
      with kr \<open>r = Inr ring\<close> 1 inner show ?thesis
        by (cases "InvestigatorByFingerprint fp (t_Investigators (aa_DB st1))") (simp_all add: bind_db_simps)
    qed
  qed
qed



section \<open>Reading and scheduling it\<close>

text \<open>What is written to a JSON column is read back.\<close>

definition json_lossless :: "db_json \<Rightarrow> bool" where
  "json_lossless js \<longleftrightarrow>
     (\<forall>x s. dj_Description js x = Inr s \<longrightarrow> dj_UnDescription js s = Inr x) \<and>
     (\<forall>x s. dj_Threat js x = Inr s \<longrightarrow> dj_UnThreat js s = Inr x) \<and>
     (\<forall>x s. dj_Operations js x = Inr s \<longrightarrow> dj_UnOperations js s = Inr x) \<and>
     (\<forall>x s. dj_Signatures js x = Inr s \<longrightarrow> dj_UnSignatures js s = Inr x)"

definition row_holds :: "db_json \<Rightarrow> action \<Rightarrow> action_row \<Rightarrow> bool" where
  "row_holds js a r \<longleftrightarrow> ar_ID r = act_ID a \<and> ar_Name r = act_Name a \<and>
    ar_Target r = act_Target a \<and> ar_ValidFrom r = act_ValidFrom a \<and> ar_ExpireAfter r = act_ExpireAfter a \<and>
    ar_StartTime r = act_StartTime a \<and> ar_FinishTime r = act_FinishTime a \<and> ar_LastUpdateTime r = act_LastUpdateTime a \<and>
    ar_Status r = act_Status a \<and> ar_SyntaxVersion r = act_SyntaxVersion a \<and>
    dj_Description js (act_Description a) = Inr (ar_Description r) \<and> dj_Threat js (act_Threat a) = Inr (ar_Threat r) \<and>
    dj_Operations js (act_Operations a) = Inr (ar_Operations r) \<and>
    dj_Signatures js (act_PGPSignatures a) = Inr (ar_PGPSignatures r)"

text \<open>The parts of an action that go to the database.\<close>

definition same_action :: "action \<Rightarrow> action \<Rightarrow> bool" where
  "same_action a b \<longleftrightarrow> act_ID b = act_ID a \<and> act_Name b = act_Name a \<and> act_Target b = act_Target a \<and>
     act_Description b = act_Description a \<and> act_Threat b = act_Threat a \<and> act_Operations b = act_Operations a \<and>
     act_ValidFrom b = act_ValidFrom a \<and> act_ExpireAfter b = act_ExpireAfter a \<and>
     act_PGPSignatures b = act_PGPSignatures a \<and> act_SyntaxVersion b = act_SyntaxVersion a"

lemma unmarshal_row:
  assumes "json_lossless js" and "row_holds js a r"
  shows "unmarshal_action js (r\<lparr>ar_Status := s\<rparr>) b = Inr (b\<lparr>act_Description := act_Description a, act_Threat := act_Threat a,
    act_Operations := act_Operations a, act_PGPSignatures := act_PGPSignatures a\<rparr>)"
proof -
  have "dj_UnDescription js (ar_Description r) = Inr (act_Description a)" "dj_UnThreat js (ar_Threat r) = Inr (act_Threat a)"
    "dj_UnOperations js (ar_Operations r) = Inr (act_Operations a)" "dj_UnSignatures js (ar_PGPSignatures r) = Inr (act_PGPSignatures a)"
    using assms by (auto simp: json_lossless_def row_holds_def)
  then show ?thesis by (simp add: unmarshal_action_def wrap_err_def and_then_def)
qed

lemma full_action_row:
  assumes "json_lossless js" and "row_holds js a r"
  shows "\<exists>b. full_action js r db = Inr b \<and> same_action a b \<and> act_Status b = act_Status a"
proof -
  have "unmarshal_action js r b = Inr (b\<lparr>act_Description := act_Description a, act_Threat := act_Threat a,
      act_Operations := act_Operations a, act_PGPSignatures := act_PGPSignatures a\<rparr>)" for b
    using unmarshal_row [OF assms, of "ar_Status r" b] by simp
  with assms(2) show ?thesis by (simp add: full_action_def row_holds_def and_then_def same_action_def)
qed

lemma deserialize_row:
  assumes "json_lossless js" and "row_holds js a r"
  shows "\<exists>b. deserializeActionFromDB js (r\<lparr>ar_Status := s\<rparr>) = Inr b \<and> same_action a b"
  using assms(2) unmarshal_row [OF assms] by (simp add: deserializeActionFromDB_def row_holds_def same_action_def)

lemma same_action_string: "same_action a b \<Longrightarrow> String cd b = String cd a"
  by (simp add: same_action_def String_def cong del: sum.case_cong_weak)

lemma created_row:
  assumes "createAction env now clock form st = (st', rsp)" and "ap_Code rsp = 202"
  obtains a r ss kr where "ap_Items rsp = [actionToItem env a]" "row_holds (ax_JSON env) a r" "act_Status a = ''pending''"
    "aa_DB st' = (aa_DB st)\<lparr>t_Actions := t_Actions (aa_DB st) @ [r], t_Signatures := t_Signatures (aa_DB st) @ ss\<rparr>"
    "\<forall>x\<in>set (t_Actions (aa_DB st)). ar_ID x \<noteq> act_ID a" "map sr_PGPSignature ss = act_PGPSignatures a"
    "\<forall>s\<in>set ss. sr_ActionID s = act_ID a \<and> (\<exists>astr. signer_row env astr (t_Investigators (aa_DB st)) s)"
    "VerifySignatures (ax_Codec env) (ae_PGP (ax_Auth env)) kr a = Inr ()" "keyring_fresh (ax_Auth env) now (auth_state st) kr"
proof -
  from createAction_202 [OF assms] obtain p posted a kr st1 db2 astr where
    a: "a = init_action (fst (GenID (aa_GlobalID st) now)) posted" "ap_Items rsp = [actionToItem env a]"
    and kr: "keyring_fresh (ax_Auth env) now (auth_state st) kr"
    and v: "VerifySignatures (ax_Codec env) (ae_PGP (ax_Auth env)) kr a = Inr ()"
    and ins: "InsertAction (ax_JSON env) a (aa_DB st) = (db2, Inr ())"
    and w: "write_signatures env clock astr (act_ID a) 0 (act_PGPSignatures a) (st1\<lparr>aa_DB := db2\<rparr>) = (st', Inr ())"
    by metis
  from InsertAction_Inr [OF ins] obtain r where
    r: "db2 = (aa_DB st)\<lparr>t_Actions := t_Actions (aa_DB st) @ [r]\<rparr>" "row_holds (ax_JSON env) a r"
      "\<forall>x\<in>set (t_Actions (aa_DB st)). ar_ID x \<noteq> act_ID a" unfolding row_holds_def by blast
  from write_signatures_Inr [OF w] r(1) obtain ss where
    "aa_DB st' = db2\<lparr>t_Signatures := t_Signatures (aa_DB st) @ ss\<rparr>" "map sr_PGPSignature ss = act_PGPSignatures a"
      "\<forall>s\<in>set ss. sr_ActionID s = act_ID a \<and> (\<exists>astr. signer_row env astr (t_Investigators (aa_DB st)) s)" by auto
  with a kr v r show thesis by (intro that [of a r ss kr]) (simp_all add: init_action_def)
qed

text \<open>The rows of investigators that a list of signature rows refers to.\<close>

lemma signers_of:
  assumes "distinct (map i_ID rows)" and "\<forall>s\<in>set ss. sr_ActionID s = aid \<and> (\<exists>i\<in>set rows. i_ID i = sr_InvestigatorID s)"
  shows "map i_ID [i. s \<leftarrow> ss, sr_ActionID s = aid, i \<leftarrow> rows, i_ID i = sr_InvestigatorID s] = map sr_InvestigatorID ss"
proof -
  have one: "map i_ID [i. i \<leftarrow> rows, i_ID i = k] = [k]" if "\<exists>i\<in>set rows. i_ID i = k" for k
    using assms(1) that
  proof (induction rows)
    case Nil
    then show ?case by simp
  next
    case (Cons i rows)
    have none: "[j. j \<leftarrow> rows, i_ID j = k] = []" if "k \<notin> i_ID ` set rows" using that by (induction rows) auto
    show ?case
    proof (cases "i_ID i = k")
      case True
      with Cons.prems(1) none show ?thesis by auto
    next
      case False
      with Cons show ?thesis by auto
    qed
  qed
  show ?thesis
    using assms(2)
  proof (induction ss)
    case Nil
    then show ?case by simp
  next
    case (Cons s ss)
    then have "sr_ActionID s = aid" "\<exists>i\<in>set rows. i_ID i = sr_InvestigatorID s" by auto
    then show ?case using Cons one [of "sr_InvestigatorID s"] by simp
  qed
qed

lemma named_investigators:
  "\<forall>i\<in>set rs. i_PGPFingerprint i \<noteq> None \<Longrightarrow>
   \<exists>invs. map_res (\<lambda>i. case i_PGPFingerprint i of
       None \<Rightarrow> wrap_err ''Failed to retrieve investigator data''
                 (Inl (errors_New ''sql: Scan error: converting NULL to string is unsupported''))
     | Some fp \<Rightarrow> Inr (auth_disabled\<lparr>inv_ID := i_ID i, inv_Name := i_Name i, inv_PGPFingerprint := fp,
                   inv_Status := i_Status i, inv_CreatedAt := i_CreatedAt i, inv_LastModified := i_LastModified i,
                   inv_Permissions := FromMask no_perms (i_Permissions i)\<rparr>)) rs = Inr invs \<and>
     map inv_ID invs = map i_ID rs"
  by (induction rs) auto

text \<open>
  An action that was created is served: \<open>getAction\<close> finds it under its identifier, as it was posted and pending,
  and names as its investigators those of its signature rows, in the order of the signatures.
\<close>

theorem created_action_is_served:
  assumes "createAction env now clock form st = (st', rsp)" and "ap_Code rsp = 202"
    and "ap_Items rsp = [item]" and "ai_Data item = ActionData a"
    and "json_lossless (ax_JSON env)" and "ax_ParseFloat env q = Inr (act_ID a)" and "0 < act_ID a"
    and "distinct (map i_ID (idb_Rows (t_Investigators (aa_DB st))))"
    and "\<forall>s\<in>set (t_Signatures (aa_DB st)). \<exists>r\<in>set (t_Actions (aa_DB st)). ar_ID r = sr_ActionID s"
  shows "\<exists>b ss. getAction env [q] st' = (st', \<lparr>ap_Code = 200, ap_Error = None, ap_Items = [actionToItem env b]\<rparr>) \<and>
    same_action a b \<and> act_Status b = ''pending'' \<and>
    t_Signatures (aa_DB st') = t_Signatures (aa_DB st) @ ss \<and> map sr_PGPSignature ss = act_PGPSignatures b \<and>
    map inv_ID (act_Investigators b) = map sr_InvestigatorID ss"
proof -
  from created_row [OF assms(1,2)] obtain a' r ss where
    c: "ap_Items rsp = [actionToItem env a']" "row_holds (ax_JSON env) a' r" "act_Status a' = ''pending''"
    "aa_DB st' = (aa_DB st)\<lparr>t_Actions := t_Actions (aa_DB st) @ [r], t_Signatures := t_Signatures (aa_DB st) @ ss\<rparr>"
    "\<forall>x\<in>set (t_Actions (aa_DB st)). ar_ID x \<noteq> act_ID a'" "map sr_PGPSignature ss = act_PGPSignatures a'"
    "\<forall>s\<in>set ss. sr_ActionID s = act_ID a' \<and> (\<exists>astr. signer_row env astr (t_Investigators (aa_DB st)) s)"
    by metis
  have a: "a' = a" using assms(3,4) c(1) by (auto simp: actionToItem_def)
  note c = c [unfolded a]
  let ?rows = "idb_Rows (t_Investigators (aa_DB st))"
  have "row (\<lambda>x. ar_ID x = act_ID a) (t_Actions (aa_DB st')) = Inr r"
    using c(2,4,5) by (simp add: row_Inr find_append_None row_holds_def)
  with full_action_row [OF assms(5) c(2)] obtain b where
    b: "ActionByID (ax_JSON env) (act_ID a) (aa_DB st') = Inr b" "same_action a b" "act_Status b = ''pending''"
    using c(3) by (auto simp: ActionByID_def wrap_err_def and_then_def)
  have old: "\<forall>s\<in>set (t_Signatures (aa_DB st)). sr_ActionID s \<noteq> act_ID a" using assms(9) c(5) by metis
  have signer: "\<exists>i\<in>set ?rows. i_ID i = sr_InvestigatorID s \<and> i_PGPFingerprint i \<noteq> None" if "s \<in> set ss" for s
    using c(7) that InvestigatorByFingerprint_Inr unfolding signer_row_def by fastforce
  let ?found = "[i. s \<leftarrow> ss, sr_ActionID s = act_ID a, i \<leftarrow> ?rows, i_ID i = sr_InvestigatorID s]"
  have found: "[i. s \<leftarrow> t_Signatures (aa_DB st'), sr_ActionID s = act_ID a, i \<leftarrow> ?rows, i_ID i = sr_InvestigatorID s] = ?found"
    using old c(4) by (simp add: concat_eq_Nil_conv)
  have ids: "map i_ID ?found = map sr_InvestigatorID ss"
    using signers_of [OF assms(8), of ss "act_ID a"] c(7) signer by blast
  have fps: "\<forall>i\<in>set ?found. i_PGPFingerprint i \<noteq> None"
  proof
    fix i assume "i \<in> set ?found"
    then obtain s where s: "s \<in> set ss" "i \<in> set ?rows" "i_ID i = sr_InvestigatorID s" by (auto split: if_splits)
    from signer [OF s(1)] obtain j where j: "j \<in> set ?rows" "i_ID j = sr_InvestigatorID s" "i_PGPFingerprint j \<noteq> None" by blast
    with s assms(8) show "i_PGPFingerprint i \<noteq> None" by (metis distinct_map inj_onD)
  qed
  have rows: "t_Investigators (aa_DB st') = t_Investigators (aa_DB st)" using c(4) by simp
  have "\<exists>invs. InvestigatorByActionID (act_ID a) (aa_DB st') = Inr invs \<and> map inv_ID invs = map i_ID ?found"
    unfolding InvestigatorByActionID_def rows found by (rule named_investigators [OF fps])
  then obtain invs where invs: "InvestigatorByActionID (act_ID a) (aa_DB st') = Inr invs" "map inv_ID invs = map sr_InvestigatorID ss"
    using ids by auto
  have "getAction env [q] st' = (st', \<lparr>ap_Code = 200, ap_Error = None, ap_Items = [actionToItem env (b\<lparr>act_Investigators := invs\<rparr>)]\<rparr>)"
    using assms(6,7) b(1,2) invs(1)
    by (simp add: getAction_def get_by_id_def query_number_def and_then_def api_recover_def api_ok_def same_action_def)
  with b(2,3) invs(2) c(4,6) show ?thesis
    by (intro exI [of _ "b\<lparr>act_Investigators := invs\<rparr>"] exI [of _ ss]) (simp add: same_action_def)
qed

text \<open>
  The scheduler picks it up: once the action is within its validity, \<open>SetupRunnableActions\<close>, when it succeeds, hands
  out an action whose signatures are still valid for the key ring with which the API checked them.
\<close>

theorem created_action_is_scheduled:
  assumes "createAction env now clock form st = (st', rsp)" and "ap_Code rsp = 202"
    and "ap_Items rsp = [item]" and "ai_Data item = ActionData a"
    and "json_lossless (ax_JSON env)" and "act_ValidFrom a < now'" and "now' < act_ExpireAfter a"
    and "SetupRunnableActions (ax_JSON env) now' (aa_DB st') = (db', Inr handed)"
  shows "\<exists>b kr. b \<in> set handed \<and> same_action a b \<and> keyring_fresh (ax_Auth env) now (auth_state st) kr \<and>
    VerifySignatures (ax_Codec env) (ae_PGP (ax_Auth env)) kr b = Inr ()"
proof -
  from created_row [OF assms(1,2)] obtain a' r ss kr where
    c: "ap_Items rsp = [actionToItem env a']" "row_holds (ax_JSON env) a' r" "act_Status a' = ''pending''"
    "aa_DB st' = (aa_DB st)\<lparr>t_Actions := t_Actions (aa_DB st) @ [r], t_Signatures := t_Signatures (aa_DB st) @ ss\<rparr>"
    "VerifySignatures (ax_Codec env) (ae_PGP (ax_Auth env)) kr a' = Inr ()" "keyring_fresh (ax_Auth env) now (auth_state st) kr"
    by metis
  have a: "a' = a" using assms(3,4) c(1) by (auto simp: actionToItem_def)
  note c = c [unfolded a]
  let ?s = "r\<lparr>ar_Status := ''scheduled''\<rparr>"
  have "runnable now' r" using c(2,3) assms(6,7) by (simp add: runnable_def row_holds_def)
  moreover have "map_res (deserializeActionFromDB (ax_JSON env))
      (map (\<lambda>r. r\<lparr>ar_Status := ''scheduled''\<rparr>) (filter (runnable now') (t_Actions (aa_DB st)) @ filter (runnable now') [r])) = Inr handed"
    using assms(8) c(4) by (simp add: SetupRunnableActions_def Let_def)
  ultimately have "\<exists>b\<in>set handed. deserializeActionFromDB (ax_JSON env) ?s = Inr b"
    by (auto simp: map_res_eq_Inr list_all2_append1 list_all2_Cons1)
  then obtain b where b: "b \<in> set handed" "same_action a b"
    using deserialize_row [OF assms(5) c(2), of "''scheduled''"] by auto
  have "VerifySignatures (ax_Codec env) (ae_PGP (ax_Auth env)) kr b = Inr ()"
    using c(5) b(2) same_action_string [OF b(2)] by (simp add: VerifySignatures_iff same_action_def)
  with b c(6) show ?thesis by blast
qed



section \<open>Who may write\<close>

lemma readers_write_nothing:
  "aa_DB (fst (getAction env q st)) = aa_DB st" "aa_DB (fst (getCommand env q st)) = aa_DB st"
  "aa_DB (fst (getAgent env q st)) = aa_DB st" "aa_DB (fst (getDashboard env st)) = aa_DB st"
  by (simp_all add: getAction_def getCommand_def getAgent_def getDashboard_def api_recover_def split: sum.splits)

lemma requests_keep_db:
  assumes "\<And>form. call \<noteq> CreateAction form"
  shows "aa_DB (fst (call_handler env now clock call st)) = aa_DB st"
proof (cases call)
  case (CreateAction form)
  with assms show ?thesis by blast
qed (simp_all add: readers_write_nothing)

text \<open>
  Of the requests of this theory only the creation of an action writes to the database, and only for an
  investigator who was authenticated and may create actions.
\<close>

theorem only_authorised_create_writes:
  assumes "action_request env now clock rq call st = (st', rsp)" and "ae_Enabled (ax_Auth env)" and "aa_DB st' \<noteq> aa_DB st"
  shows "\<exists>form ks iv. call = CreateAction form \<and>
    authenticate (ax_Auth env) now PermActionCreate rq (auth_state st) = (ks, Inr iv) \<and>
    CheckPermission (inv_Permissions iv) PermActionCreate"
proof -
  obtain ks r where auth: "authenticate (ax_Auth env) now (call_permission call) rq (auth_state st) = (ks, r)"
    by (cases "authenticate (ax_Auth env) now (call_permission call) rq (auth_state st)")
  have "r \<noteq> Inl e" for e using assms(1,3) auth by (auto simp: action_request_def with_auth_def)
  then obtain iv where iv: "r = Inr iv" by (cases r) auto
  have "aa_DB st' = aa_DB st" if "\<And>form. call \<noteq> CreateAction form"
    using requests_keep_db [OF that, of env now clock "with_auth st ks"] assms(1) auth iv
    by (simp add: action_request_def with_auth_def)
  with assms(3) obtain form where form: "call = CreateAction form" by blast
  have "CheckPermission (inv_Permissions iv) PermActionCreate"
    using auth iv form assms(2) by (auto simp: authenticate_def split: if_splits prod.splits sum.splits)
  with form auth iv show ?thesis by auto
qed

section \<open>An example\<close>

definition lossless_js :: db_json where
  "lossless_js = example_js\<lparr>
     dj_Description := (\<lambda>x. if x = act_Description zero_action then Inr ''{}'' else Inl no_rows),
     dj_Threat := (\<lambda>x. if x = act_Threat zero_action then Inr ''{}'' else Inl no_rows),
     dj_Operations := (\<lambda>x. if x = act_Operations example_action then Inr ''[]'' else Inl no_rows),
     dj_UnOperations := (\<lambda>_. Inr (act_Operations example_action)),
     dj_Signatures := (\<lambda>x. if x = [''x=y'', ''z=w''] then Inr [] else if x = [''x=y'', ''x=y''] then Inr ''d'' else Inl no_rows),
     dj_UnSignatures := (\<lambda>s. Inr (if s = [] then [''x=y'', ''z=w''] else [''x=y'', ''x=y'']))\<rparr>"

definition example_aenv :: "string list \<Rightarrow> unit action_api_env" where
  "example_aenv sigs = \<lparr>ax_Auth = example_auth_env, ax_Codec = example_codec, ax_JSON = lossless_js,
     ax_ParseAction = (\<lambda>_. Inr (example_action\<lparr>act_ValidFrom := 10, act_ExpireAfter := 90, act_PGPSignatures := sigs\<rparr>)),
     ax_ParseFloat = (\<lambda>_. Inr 2), ax_ShowNum = (\<lambda>_. ''2''), ax_BaseURL = ''b''\<rparr>"

definition example_ast :: action_api_state where
  "example_ast = \<lparr>aa_DB = example_mdb\<lparr>t_Investigators := \<lparr>idb_Rows =
       [(inv_row_of 1 0)\<lparr>i_PGPFingerprint := Some ''c0''\<rparr>, (inv_row_of 2 0)\<lparr>i_PGPFingerprint := Some ''AF''\<rparr>], idb_Seq = 3\<rparr>\<rparr>,
     aa_Keyring = Some ''ring'', aa_KeyringTime = 0, aa_GlobalID = 1\<rparr>"

lemma example_api_keyring:
  "aa_KeyringTime st = 0 \<Longrightarrow> aa_Keyring st = Some ''ring'' \<Longrightarrow> api_keyring (example_aenv sigs) 0 st = (st, Inr ''ring'')"
  by (simp add: api_keyring_def getKeyring_def auth_state_def with_auth_def)

lemma example_lower: "ToLower ''c0'' = ''c0''" "ToLower ''AF'' = ''af''" "ToLower ''af'' = ''af''"
  by code_simp+

lemma example_signers:
  "InvestigatorByFingerprint ''c0'' (t_Investigators (aa_DB example_ast)) =
     Inr (auth_disabled\<lparr>inv_ID := 1, inv_Name := ''n'', inv_PGPFingerprint := ''c0'', inv_Status := ''active'',
       inv_CreatedAt := 0, inv_LastModified := 0, inv_Permissions := FromMask no_perms 0\<rparr>)"
  "InvestigatorByFingerprint ''af'' (t_Investigators (aa_DB example_ast)) =
     Inr (auth_disabled\<lparr>inv_ID := 2, inv_Name := ''n'', inv_PGPFingerprint := ''AF'', inv_Status := ''active'',
       inv_CreatedAt := 0, inv_LastModified := 0, inv_Permissions := FromMask no_perms 0\<rparr>)"
  by (simp_all add: InvestigatorByFingerprint_def example_ast_def row_def inv_row_of_def auth_disabled_def opt_text_def example_lower)

definition example_created :: action where
  "example_created = init_action 2 (example_action\<lparr>act_ValidFrom := 10, act_ExpireAfter := 90\<rparr>)"

abbreviation two_signatures :: "string list" where "two_signatures \<equiv> [''x=y'', ''z=w'']"

lemma example_aenv_simps [simp]:
  "ax_Auth (example_aenv sigs) = example_auth_env" "ax_Codec (example_aenv sigs) = example_codec"
  "ax_JSON (example_aenv sigs) = lossless_js" "ax_ParseFloat (example_aenv sigs) q = Inr 2" "ae_PGP example_auth_env = example_pg"
  by (simp_all add: example_aenv_def example_auth_env_def)

lemma example_ast_simps [simp]:
  "t_Signatures (aa_DB example_ast) = []" "aa_KeyringTime example_ast = 0" "aa_Keyring example_ast = Some ''ring''"
  "aa_GlobalID example_ast = 1" "map i_ID (idb_Rows (t_Investigators (aa_DB example_ast))) = [1, 2]"
  "t_Actions (aa_DB example_ast) = [example_action_row]"
  by (simp_all add: example_ast_def example_mdb_def inv_row_of_def)

lemma example_ids:
  "\<exists>i\<in>set (idb_Rows (t_Investigators (aa_DB example_ast))). i_ID i = 1" "\<exists>i\<in>set (idb_Rows (t_Investigators (aa_DB example_ast))). i_ID i = 2"
  by (simp_all add: example_ast_def inv_row_of_def)

lemma example_posted: "ax_ParseAction (example_aenv two_signatures) p = Inr (example_action\<lparr>act_ValidFrom := 10, act_ExpireAfter := 90\<rparr>)"
  by (simp add: example_aenv_def example_action_def)

lemma example_valid: "Validate 0 example_created = Inr ()"
  by (simp add: Validate_def example_created_def init_action_def example_action_def zero_action_def ActionVersion_def)

lemma example_verified: "VerifySignatures example_codec example_pg ''ring'' example_created = Inr ()"
proof -
  have "is_ok (Verify example_pg d sig ''ring'')" if "sig \<in> set two_signatures" for d sig
    using example_fingerprints [of d] that by (auto simp: GetFingerprint_Inr is_ok_ex)
  then show ?thesis
    by (auto simp: VerifySignatures_iff list_all_iff String_def example_codec_def example_created_def init_action_def
        example_action_def Let_def)
qed

lemma example_inserted:
  "\<exists>r. InsertAction lossless_js example_created (aa_DB example_ast) =
     ((aa_DB example_ast)\<lparr>t_Actions := [example_action_row, r]\<rparr>, Inr ()) \<and> ar_ID r = 2"
  by (simp add: InsertAction_def lossless_js_def example_created_def init_action_def example_action_def zero_action_def
      example_ast_def example_mdb_def example_action_row_def wrap_err_def and_then_def Let_def)

lemma example_written:
  assumes "aa_KeyringTime st = 0" and "aa_Keyring st = Some ''ring''"
    and "aa_DB st = (aa_DB example_ast)\<lparr>t_Actions := [example_action_row, r]\<rparr>" and "ar_ID r = 2"
  shows "\<exists>st'. write_signatures (example_aenv two_signatures) (\<lambda>_. 0) astr 2 0 two_signatures st = (st', Inr ())"
  using assms example_signers example_ids
  by (simp add: example_api_keyring bind_db_simps example_fingerprints InsertSignature_def)

lemma example_created_run:
  "\<exists>st'. createAction (example_aenv two_signatures) 0 (\<lambda>_. 0) (Inr ''a'') example_ast =
     (st', \<lparr>ap_Code = 202, ap_Error = None, ap_Items = [actionToItem (example_aenv two_signatures) example_created]\<rparr>)"
proof -
  let ?env = "example_aenv two_signatures" and ?st = "example_ast\<lparr>aa_GlobalID := 2\<rparr>"
  have gen: "GenID 1 0 = (2, 2)" by (simp add: GenID_def float_incr_def)
  obtain r where r: "InsertAction lossless_js example_created (aa_DB example_ast) =
      ((aa_DB example_ast)\<lparr>t_Actions := [example_action_row, r]\<rparr>, Inr ())" "ar_ID r = 2" using example_inserted by blast
  obtain astr where astr: "String example_codec example_created = Inr astr"
    using example_verified by (auto simp: VerifySignatures_iff)
  have sigs: "act_PGPSignatures example_created = two_signatures" by (simp add: example_created_def init_action_def example_action_def)
  obtain st' where "write_signatures ?env (\<lambda>_. 0) astr 2 0 two_signatures
      (?st\<lparr>aa_DB := (aa_DB example_ast)\<lparr>t_Actions := [example_action_row, r]\<rparr>\<rparr>) = (st', Inr ())"
    using example_written [of "?st\<lparr>aa_DB := (aa_DB example_ast)\<lparr>t_Actions := [example_action_row, r]\<rparr>\<rparr>" r astr] r(2) by auto
  then show ?thesis
    using r astr gen
    by (simp add: createAction_def bind_db_simps example_posted Let_def example_created_def [symmetric] example_api_keyring
        example_valid example_verified sigs api_recover_def api_ok_def)
qed

lemma lossless: "json_lossless lossless_js"
  by (simp add: json_lossless_def lossless_js_def example_js_def)

theorem created_action_is_signed_witness:
  "\<exists>st' ss. createAction (example_aenv two_signatures) 0 (\<lambda>_. 0) (Inr ''a'') example_ast =
     (st', \<lparr>ap_Code = 202, ap_Error = None, ap_Items = [actionToItem (example_aenv two_signatures) example_created]\<rparr>) \<and>
     t_Signatures (aa_DB st') = ss \<and> map sr_PGPSignature ss = two_signatures \<and> distinct (map sr_InvestigatorID ss)"
proof -
  obtain st' where run: "createAction (example_aenv two_signatures) 0 (\<lambda>_. 0) (Inr ''a'') example_ast =
     (st', \<lparr>ap_Code = 202, ap_Error = None, ap_Items = [actionToItem (example_aenv two_signatures) example_created]\<rparr>)"
    using example_created_run by blast
  from created_action_is_signed [OF this] obtain a ss where
    "actionToItem (example_aenv two_signatures) a = actionToItem (example_aenv two_signatures) example_created"
    "t_Signatures (aa_DB st') = ss" "map sr_PGPSignature ss = act_PGPSignatures a" "distinct (map sr_InvestigatorID ss)" by auto
  then show ?thesis using run by (auto simp: actionToItem_def example_created_def init_action_def example_action_def)
qed

lemma lossless_setup: "\<exists>db' handed. SetupRunnableActions lossless_js now db = (db', Inr handed)"
proof -
  have dec: "\<exists>b. deserializeActionFromDB lossless_js r = Inr b" for r
    by (simp add: deserializeActionFromDB_def unmarshal_action_def lossless_js_def example_js_def wrap_err_def and_then_def)
  have "\<exists>bs. map_res (deserializeActionFromDB lossless_js) rs = Inr bs" for rs
  proof (induction rs)
    case Nil
    then show ?case by simp
  next
    case (Cons r rs)
    with dec [of r] show ?case by auto
  qed
  then show ?thesis by (simp add: SetupRunnableActions_def Let_def)
qed


theorem created_action_is_served_witness:
  "\<exists>st' b. getAction (example_aenv two_signatures) [''2''] st' =
     (st', \<lparr>ap_Code = 200, ap_Error = None, ap_Items = [actionToItem (example_aenv two_signatures) b]\<rparr>) \<and>
     act_ID b = 2 \<and> act_Name b = ''n'' \<and> length (act_Investigators b) = 2"
proof -
  obtain st' where run: "createAction (example_aenv two_signatures) 0 (\<lambda>_. 0) (Inr ''a'') example_ast =
     (st', \<lparr>ap_Code = 202, ap_Error = None, ap_Items = [actionToItem (example_aenv two_signatures) example_created]\<rparr>)"
    using example_created_run by blast
  have facts: "act_ID example_created = 2" "act_Name example_created = ''n''" "act_PGPSignatures example_created = two_signatures"
    by (simp_all add: example_created_def init_action_def example_action_def)
  have "\<exists>b ss. getAction (example_aenv two_signatures) [''2''] st' =
      (st', \<lparr>ap_Code = 200, ap_Error = None, ap_Items = [actionToItem (example_aenv two_signatures) b]\<rparr>) \<and>
    same_action example_created b \<and> act_Status b = ''pending'' \<and>
    t_Signatures (aa_DB st') = t_Signatures (aa_DB example_ast) @ ss \<and> map sr_PGPSignature ss = act_PGPSignatures b \<and>
    map inv_ID (act_Investigators b) = map sr_InvestigatorID ss"
    by (rule created_action_is_served [OF run, where item = "actionToItem (example_aenv two_signatures) example_created"])
      (simp_all add: lossless facts actionToItem_def)
  then obtain b and ss :: "signature_row list" where b: "getAction (example_aenv two_signatures) [''2''] st' =
     (st', \<lparr>ap_Code = 200, ap_Error = None, ap_Items = [actionToItem (example_aenv two_signatures) b]\<rparr>)"
     "same_action example_created b" "map sr_PGPSignature ss = act_PGPSignatures b"
     "map inv_ID (act_Investigators b) = map sr_InvestigatorID ss" by blast
  have "length (act_Investigators b) = length ss" using arg_cong [OF b(4), of length] by simp
  moreover have "length ss = 2" using arg_cong [OF b(3), of length] b(2) facts(3) by (simp add: same_action_def)
  ultimately show ?thesis using b(1,2) facts by (auto simp: same_action_def)
qed

theorem created_action_is_scheduled_witness:
  "\<exists>(st' :: action_api_state) db' handed b. SetupRunnableActions lossless_js 50 (aa_DB st') = (db', Inr handed) \<and> b \<in> set handed \<and>
     act_ID b = 2 \<and> (\<exists>kr. VerifySignatures example_codec example_pg kr b = Inr ())"
proof -
  obtain st' where run: "createAction (example_aenv two_signatures) 0 (\<lambda>_. 0) (Inr ''a'') example_ast =
     (st', \<lparr>ap_Code = 202, ap_Error = None, ap_Items = [actionToItem (example_aenv two_signatures) example_created]\<rparr>)"
    using example_created_run by blast
  have facts: "act_ID example_created = 2" "act_ValidFrom example_created = 10" "act_ExpireAfter example_created = 90"
    by (simp_all add: example_created_def init_action_def example_action_def)
  obtain db' handed where run2: "SetupRunnableActions lossless_js 50 (aa_DB st') = (db', Inr handed)"
    using lossless_setup [of 50 "aa_DB st'"] by blast
  have "\<exists>b kr. b \<in> set handed \<and> same_action example_created b \<and>
      keyring_fresh (ax_Auth (example_aenv two_signatures)) 0 (auth_state example_ast) kr \<and>
      VerifySignatures (ax_Codec (example_aenv two_signatures)) (ae_PGP (ax_Auth (example_aenv two_signatures))) kr b = Inr ()"
    by (rule created_action_is_scheduled [OF run, where item = "actionToItem (example_aenv two_signatures) example_created"
          and now' = 50 and db' = db'])
      (simp_all add: lossless facts actionToItem_def run2)
  then obtain b kr where b: "b \<in> set handed" "same_action example_created b"
    "VerifySignatures example_codec example_pg kr b = Inr ()" by auto
  show ?thesis
    by (rule exI [of _ st'], rule exI [of _ db'], rule exI [of _ handed], rule exI [of _ b])
      (use run2 facts(1) b in \<open>auto simp: same_action_def\<close>)
qed

definition keyed_ast :: action_api_state where
  "keyed_ast = example_ast\<lparr>aa_DB := (aa_DB example_ast)\<lparr>t_Investigators := \<lparr>idb_Rows =
     map (\<lambda>i. i\<lparr>i_Permissions := PermActionCreate, i_APIKey := Some [1, 1], i_APISalt := Some [0]\<rparr>)
       (idb_Rows (t_Investigators (aa_DB example_ast))), idb_Seq = 3\<rparr>\<rparr>\<rparr>"

lemma keyed_authenticated:
  "\<exists>iv. authenticate example_auth_env 0 PermActionCreate \<lparr>aq_PGPAuthorization = [], aq_APIKey = ''k''\<rparr> (auth_state keyed_ast) =
     (auth_state keyed_ast, Inr iv)"
  by (simp add: authenticate_def auth_state_def keyed_ast_def example_ast_def example_auth_env_def verifyAPIKey_def
      InvestigatorAPIKeyAuthHelpers_def inv_row_of_def example_crypto_def InvestigatorByID_def row_def replicate_2
      CheckPermission_def FromMask_def no_perms_def Perm_defs verification_failed_def)

theorem only_authorised_create_writes_witness:
  "\<exists>st' rsp (iv :: investigator). action_request (example_aenv two_signatures) 0 (\<lambda>_. 0) \<lparr>aq_PGPAuthorization = [], aq_APIKey = ''k''\<rparr>
       (CreateAction (Inr ''a'')) keyed_ast = (st', rsp) \<and>
     aa_DB st' \<noteq> aa_DB keyed_ast \<and> CheckPermission (inv_Permissions iv) PermActionCreate"
proof -
  let ?env = "example_aenv two_signatures" and ?rq = "\<lparr>aq_PGPAuthorization = [], aq_APIKey = ''k''\<rparr>" and ?call = "CreateAction (Inr ''a'')"
  let ?st = "keyed_ast\<lparr>aa_GlobalID := 2\<rparr>"
  have st: "aa_KeyringTime keyed_ast = 0" "aa_Keyring keyed_ast = Some ''ring''" "aa_GlobalID keyed_ast = 1"
    "t_Actions (aa_DB keyed_ast) = [example_action_row]" "with_auth keyed_ast (auth_state keyed_ast) = keyed_ast"
    by (simp_all add: keyed_ast_def with_auth_def auth_state_def)
  obtain r where r: "InsertAction lossless_js example_created (aa_DB keyed_ast) =
      ((aa_DB keyed_ast)\<lparr>t_Actions := [example_action_row, r]\<rparr>, Inr ())"
    using st(4) by (simp add: InsertAction_def lossless_js_def example_created_def init_action_def example_action_def zero_action_def
        example_action_row_def wrap_err_def and_then_def Let_def)
  obtain astr where astr: "String example_codec example_created = Inr astr"
    using example_verified by (auto simp: VerifySignatures_iff)
  have "t_Actions (aa_DB (fst (createAction ?env 0 (\<lambda>_. 0) (Inr ''a'') keyed_ast))) = [example_action_row, r]"
    using r astr st write_signatures_actions [of ?env "\<lambda>_. 0" astr 2 0 "act_PGPSignatures example_created"
        "?st\<lparr>aa_DB := (aa_DB keyed_ast)\<lparr>t_Actions := [example_action_row, r]\<rparr>\<rparr>"]
    by (simp add: createAction_def bind_db_simps GenID_def float_incr_def example_posted Let_def example_created_def [symmetric]
        example_api_keyring example_valid example_verified api_recover_def api_ok_def bind_db_def split: sum.splits prod.splits) auto
  moreover obtain st' rsp where run: "action_request ?env 0 (\<lambda>_. 0) ?rq ?call keyed_ast = (st', rsp)"
    by (cases "action_request ?env 0 (\<lambda>_. 0) ?rq ?call keyed_ast")
  ultimately have "aa_DB st' \<noteq> aa_DB keyed_ast"
    using keyed_authenticated st(4,5) by (auto simp: action_request_def)
  with only_authorised_create_writes [OF run] run show ?thesis by (auto simp: example_auth_env_def)
qed

end
