(* ===== verification/Netstat.thy ===== *)
theory Netstat
  imports GoStd "HOL-Library.Word"
begin

unbundle bit_operations_syntax

text \<open>
  The netstat module (\<open>modules/netstat/netstat.go\<close>, \<open>netstat_linux.go\<close>): addresses of the host, its
  neighbours, connected peers and listening ports, read from \<open>/proc\<close>.

  Parsing and printing of addresses and regular expressions are parameters; so are the interfaces and the files
  of \<open>/proc\<close>, which do not change during a run. A map is iterated in the order in which its keys were
  entered. What a search found before an error is kept, as the named results of the code are.
\<close>

section \<open>Addresses (net)\<close>

text \<open>A \<open>net.IP\<close> is a slice of bytes, of length 4 or 16; the empty one is \<open>nil\<close>.\<close>

type_synonym ip = "8 word list"

record ip_net =
  in_IP :: ip
  in_Mask :: "8 word list"

definition v4_prefix :: "8 word list" where "v4_prefix = replicate 10 0 @ [0xFF, 0xFF]"

definition To4 :: "ip \<Rightarrow> ip option" where
  "To4 a = (if length a = 4 then Some a
            else if length a = 16 \<and> take 12 a = v4_prefix then Some (drop 12 a) else None)"

text \<open>\<open>net.CIDRMask(ones, 8 * l)\<close>.\<close>

fun CIDRMask :: "nat \<Rightarrow> nat \<Rightarrow> 8 word list" where
  "CIDRMask ones 0 = []"
| "CIDRMask ones (Suc l) =
     (if 8 \<le> ones then 0xFF # CIDRMask (ones - 8) l else NOT (drop_bit ones 0xFF) # CIDRMask 0 l)"

definition networkNumberAndMask :: "ip_net \<Rightarrow> ip \<times> 8 word list" where
  "networkNumberAndMask n =
     (let a = (case To4 (in_IP n) of Some a \<Rightarrow> a | None \<Rightarrow> in_IP n); m = in_Mask n
      in if length a \<noteq> 4 \<and> length a \<noteq> 16 then ([], [])
         else if length m = 4 then (if length a \<noteq> 4 then ([], []) else (a, m))
         else if length m = 16 then (a, if length a = 4 then drop 12 m else m) else ([], []))"

definition Contains :: "ip_net \<Rightarrow> ip \<Rightarrow> bool" where
  "Contains n a =
     (case networkNumberAndMask n of (nn, m) \<Rightarrow>
        (let x = (case To4 a of Some y \<Rightarrow> y | None \<Rightarrow> a)
         in length x = length nn \<and> list_all2 (\<lambda>(b, k) c. b AND k = c AND k) (zip nn m) x))"

section \<open>Environment and results\<close>

record netstat_env =
  ne_Regexp :: "string \<Rightarrow> (string \<Rightarrow> bool) result"
  ne_ParseIP :: "string \<Rightarrow> ip option"
  ne_ParseCIDR :: "string \<Rightarrow> (ip \<times> ip_net) result"
  ne_IPString :: "ip \<Rightarrow> string"
  ne_Interfaces :: "string list result"
  ne_InterfaceAddrs :: "string list result"
  ne_Open :: "string \<Rightarrow> string result"
  ne_ReadDir :: "string list result"
  ne_Readlink :: "string \<Rightarrow> string result"

record element =
  el_LocalMACAddr :: string
  el_RemoteMACAddr :: string
  el_LocalAddr :: string
  el_LocalPort :: int
  el_RemoteAddr :: string
  el_RemotePort :: int
  el_Namespace :: string

definition zero_element :: element where
  "zero_element = \<lparr>el_LocalMACAddr = [], el_RemoteMACAddr = [], el_LocalAddr = [], el_LocalPort = 0,
     el_RemoteAddr = [], el_RemotePort = 0, el_Namespace = []\<rparr>"

text \<open>The results of a search, and how many items it added to \<open>stats.Examined\<close>.\<close>

record search_out =
  no_Found :: bool
  no_Elements :: "element list"
  no_Examined :: nat
  no_Err :: "go_error option"

definition empty_out :: search_out where
  "empty_out = \<lparr>no_Found = False, no_Elements = [], no_Examined = 0, no_Err = None\<rparr>"

text \<open>The deferred function of a search: \<open>fmt.Errorf("name(): %v", e)\<close>; some print an arrow.\<close>

definition in_function :: "string \<Rightarrow> go_error \<Rightarrow> go_error" where
  "in_function f e = Errorf (f @ ''(): %v'') [AErr e]"

definition recovered_in :: "string \<Rightarrow> 'a result \<Rightarrow> 'a result" where
  "recovered_in f r = (case r of Inl e \<Rightarrow> Inl (in_function f e) | Inr x \<Rightarrow> Inr x)"

definition out_recovered :: "(go_error \<Rightarrow> go_error) \<Rightarrow> search_out \<Rightarrow> search_out" where
  "out_recovered w out = out\<lparr>no_Err := map_option w (no_Err out)\<rparr>"

definition failed_out :: "go_error \<Rightarrow> search_out" where
  "failed_out e = empty_out\<lparr>no_Err := Some e\<rparr>"

text \<open>
  What one item does to a search: a panic ends it, an item may be passed over without being counted, or be
  counted without matching, or match.
\<close>

datatype item_outcome = Panic go_error | Skip | Miss | Hit element

fun scan_items :: "('e \<Rightarrow> item_outcome) \<Rightarrow> 'e list \<Rightarrow> search_out \<Rightarrow> search_out" where
  "scan_items f [] out = out"
| "scan_items f (e # es) out =
     (case f e of
        Panic err \<Rightarrow> out\<lparr>no_Err := Some err\<rparr>
      | Skip \<Rightarrow> scan_items f es out
      | Miss \<Rightarrow> scan_items f es (out\<lparr>no_Examined := Suc (no_Examined out)\<rparr>)
      | Hit el \<Rightarrow> scan_items f es (out\<lparr>no_Found := True, no_Elements := no_Elements out @ [el],
                                     no_Examined := Suc (no_Examined out)\<rparr>))"

section \<open>Reading /proc\<close>

text \<open>A line of a file of \<open>/proc\<close>, with the namespace it comes from; the first line is a header.\<close>

type_synonym proc_line = "string \<times> string"

definition open_lines :: "netstat_env \<Rightarrow> string \<Rightarrow> string list result" where
  "open_lines env f = and_then (ne_Open env f) (\<lambda>s. Inr (drop 1 (scan_lines s)))"

text \<open>The processes of each network namespace, by the name of its link.\<close>

definition procCandidates :: "netstat_env \<Rightarrow> (string \<times> string list) list result" where
  "procCandidates env =
     and_then (ne_ReadDir env) (\<lambda>names.
       Inr (foldl (\<lambda>m x.
              if is_ok (Atoi x)
              then (case ne_Readlink env (''/proc/'' @ x @ ''/ns/net'') of
                      Inl _ \<Rightarrow> m
                    | Inr nsname \<Rightarrow>
                        al_set nsname ((case map_of m nsname of None \<Rightarrow> [] | Some ps \<Rightarrow> ps) @ [''/proc/'' @ x @ ''/net'']) m)
              else m) [] names))"

text \<open>
  The lines of the first process whose file can be opened. The goroutine that reads the file sends an error
  only when it cannot open it, before any line.
\<close>

fun first_readable :: "netstat_env \<Rightarrow> string \<Rightarrow> string list \<Rightarrow> string list" where
  "first_readable env fname [] = []"
| "first_readable env fname (p # ps) =
     (case open_lines env (p @ ''/'' @ fname) of Inl _ \<Rightarrow> first_readable env fname ps | Inr ls \<Rightarrow> ls)"

definition procNetNS :: "netstat_env \<Rightarrow> string \<Rightarrow> proc_line list result" where
  "procNetNS env fname =
     recovered_in ''procNetNS''
       (and_then (procCandidates env) (\<lambda>cache.
          Inr (concat (map (\<lambda>(nsid, ps). map (\<lambda>l. (l, nsid)) (first_readable env fname ps)) cache))))"

definition default_lines :: "netstat_env \<Rightarrow> string list \<Rightarrow> proc_line list result" where
  "default_lines env files =
     and_then (map_res (open_lines env) files) (\<lambda>lss. Inr (map (\<lambda>l. (l, ''default'')) (concat lss)))"

definition ns_lines :: "netstat_env \<Rightarrow> string list \<Rightarrow> proc_line list result" where
  "ns_lines env files = and_then (map_res (procNetNS env) files) (\<lambda>lss. Inr (concat lss))"

definition procArpEntries :: "netstat_env \<Rightarrow> bool \<Rightarrow> proc_line list result" where
  "procArpEntries env namespaceMode =
     (if namespaceMode then procNetNS env ''arp''
      else recovered_in ''procArpEntries'' (default_lines env [''/proc/net/arp'']))"

definition procIP4Entries :: "netstat_env \<Rightarrow> bool \<Rightarrow> proc_line list result" where
  "procIP4Entries env namespaceMode =
     (if namespaceMode then ns_lines env [''tcp'', ''udp'']
      else recovered_in ''procIP4Entries'' (default_lines env [''/proc/net/tcp'', ''/proc/net/udp'']))"

definition procIP6Entries :: "netstat_env \<Rightarrow> bool \<Rightarrow> proc_line list result" where
  "procIP6Entries env namespaceMode =
     (if namespaceMode then ns_lines env [''tcp6'', ''udp6'']
      else recovered_in ''procIP6Entries'' (default_lines env [''/proc/net/tcp6'', ''/proc/net/udp6'']))"

section \<open>Hexadecimal addresses\<close>

text \<open>
  The bytes at the given places: \<open>Inl\<close> is the panic of a slice that is out of range, \<open>Inr None\<close> the result
  \<open>nil\<close>.
\<close>

fun hex_bytes :: "string \<Rightarrow> nat list \<Rightarrow> ip option result" where
  "hex_bytes s [] = Inr (Some [])"
| "hex_bytes s (p # ps) =
     (if length s < p + 2 then Inl (errors_New ''slice bounds out of range'')
      else (case ParseUint (take 2 (drop p s)) 16 8 of
              Inl _ \<Rightarrow> Inr None
            | Inr b \<Rightarrow> and_then (hex_bytes s ps) (\<lambda>r. Inr (map_option ((#) (of_nat b)) r))))"

definition hexToIP4 :: "string \<Rightarrow> ip option result" where
  "hexToIP4 s = and_then (hex_bytes s [0, 2, 4, 6]) (\<lambda>r. Inr (map_option rev r))"

definition hexToIP6 :: "string \<Rightarrow> ip option result" where
  "hexToIP6 s = hex_bytes s (concat (map (\<lambda>i. [i + 6, i + 4, i + 2, i]) [0, 8, 16, 24]))"

section \<open>Connected peers\<close>

text \<open>An address and a port, as they stand in a field.\<close>

definition hex_address :: "(string \<Rightarrow> ip option result) \<Rightarrow> string \<Rightarrow> string \<Rightarrow> ip result" where
  "hex_address hexToIP what s =
     and_then (hexToIP s) (\<lambda>a. case a of None \<Rightarrow> Inl (errors_New (''failed to convert '' @ what)) | Some x \<Rightarrow> Inr x)"

definition hex_port :: "string \<Rightarrow> string \<Rightarrow> int result" where
  "hex_port what s =
     (case ParseUint s 16 16 of Inl _ \<Rightarrow> Inl (errors_New (''failed to convert '' @ what)) | Inr n \<Rightarrow> Inr (int n))"

definition two_parts :: "string \<Rightarrow> string \<Rightarrow> (string \<times> string) result" where
  "two_parts what s =
     (case Split s CHR '':'' of [a, b] \<Rightarrow> Inr (a, b) | _ \<Rightarrow> Inl (errors_New (what @ '' isn't in the form <ip>:<port>'')))"

definition item_result :: "item_outcome result \<Rightarrow> item_outcome" where
  "item_result r = (case r of Inl e \<Rightarrow> Panic e | Inr x \<Rightarrow> x)"

definition connected_item :: "netstat_env \<Rightarrow> (string \<Rightarrow> ip option result) \<Rightarrow> ip_net \<Rightarrow> proc_line \<Rightarrow> item_outcome" where
  "connected_item env hexToIP ipnet ent =
     (let fs = Fields (fst ent)
      in if length fs < 4 then Panic (errors_New ''/proc doesn't respect the expected format'')
         else item_result
           (and_then (two_parts ''remote'' (fs ! 2)) (\<lambda>(ra, rp).
            and_then (hex_address hexToIP ''remote IP'' ra) (\<lambda>remoteIP.
              if \<not> Contains ipnet remoteIP then Inr Miss
              else and_then (hex_port ''remote port'' rp) (\<lambda>remotePort.
                   and_then (two_parts ''local'' (fs ! 1)) (\<lambda>(la, lp).
                   and_then (hex_address hexToIP ''local ip'' la) (\<lambda>localAddr.
                   and_then (hex_port ''local port'' lp) (\<lambda>localPort.
                     Inr (Hit (zero_element\<lparr>el_RemoteAddr := ne_IPString env remoteIP, el_RemotePort := remotePort,
                       el_LocalAddr := ne_IPString env localAddr, el_LocalPort := localPort,
                       el_Namespace := snd ent\<rparr>))))))))))"

text \<open>Without a network the address is one with a full mask, of 4 or of 16 bytes.\<close>

definition full_net :: "nat \<Rightarrow> ip \<Rightarrow> ip_net option \<Rightarrow> ip_net" where
  "full_net l a n = (case n of None \<Rightarrow> \<lparr>in_IP = a, in_Mask = CIDRMask (8 * l) l\<rparr> | Some x \<Rightarrow> x)"

definition scan_entries :: "string \<Rightarrow> proc_line list result \<Rightarrow> (proc_line \<Rightarrow> item_outcome) \<Rightarrow> search_out" where
  "scan_entries f entries item =
     out_recovered (in_function f)
       (case entries of Inl e \<Rightarrow> failed_out e | Inr lns \<Rightarrow> scan_items item lns empty_out)"

definition hasIP4Connected :: "netstat_env \<Rightarrow> bool \<Rightarrow> ip \<Rightarrow> ip_net option \<Rightarrow> search_out" where
  "hasIP4Connected env ns a n =
     scan_entries ''hasIP4Connected'' (procIP4Entries env ns) (connected_item env hexToIP4 (full_net 4 a n))"

definition hasIP6Connected :: "netstat_env \<Rightarrow> bool \<Rightarrow> ip \<Rightarrow> ip_net option \<Rightarrow> search_out" where
  "hasIP6Connected env ns a n =
     scan_entries ''hasIP6Connected'' (procIP6Entries env ns) (connected_item env hexToIP6 (full_net 16 a n))"

text \<open>A value with a slash that is not its first byte is a network, any other one an address.\<close>

definition has_slash :: "string \<Rightarrow> bool" where
  "has_slash val \<longleftrightarrow> CHR ''/'' \<in> set val \<and> hd val \<noteq> CHR ''/''"

definition parse_target :: "netstat_env \<Rightarrow> string \<Rightarrow> (ip \<times> ip_net option) result" where
  "parse_target env val =
     (if has_slash val then and_then (ne_ParseCIDR env val) (\<lambda>(a, n). Inr (a, Some n))
      else (case ne_ParseIP env val of None \<Rightarrow> Inl (errors_New ''Invalid IP'') | Some a \<Rightarrow> Inr (a, None)))"

text \<open>
  The second search of an IPv4 target adds what it found; when it fails its results are dropped, those of
  the first stay.
\<close>

definition HasIPConnected :: "netstat_env \<Rightarrow> bool \<Rightarrow> string \<Rightarrow> search_out" where
  "HasIPConnected env ns val =
     out_recovered (in_function ''HasIPConnected'')
       (case parse_target env val of
          Inl e \<Rightarrow> failed_out e
        | Inr (a, n) \<Rightarrow>
            if To4 a \<noteq> None
            then (let out = hasIP4Connected env ns a n
                  in if no_Err out \<noteq> None then out
                     else (let out2 = hasIP6Connected env ns a n; ex = no_Examined out + no_Examined out2
                           in if no_Err out2 \<noteq> None then out\<lparr>no_Examined := ex, no_Err := no_Err out2\<rparr>
                              else if no_Found out2
                              then out\<lparr>no_Found := True, no_Elements := no_Elements out @ no_Elements out2, no_Examined := ex\<rparr>
                              else out\<lparr>no_Examined := ex\<rparr>))
            else hasIP6Connected env ns a n)"

section \<open>Listening ports\<close>

text \<open>\<open>%X\<close>.\<close>

definition hex_digit :: "nat \<Rightarrow> char" where
  "hex_digit d = (if d < 10 then char_of (48 + d) else char_of (55 + d))"

fun fmt_hex :: "nat \<Rightarrow> string" where
  "fmt_hex n = (if n < 16 then [hex_digit n] else fmt_hex (n div 16) @ [hex_digit (n mod 16)])"

declare fmt_hex.simps [simp del]

definition fmt_X :: "int \<Rightarrow> string" where
  "fmt_X x = (if x < 0 then CHR ''-'' # fmt_hex (nat (- x)) else fmt_hex (nat x))"

definition pad4 :: "string \<Rightarrow> string" where
  "pad4 s = replicate (4 - length s) CHR ''0'' @ s"

definition listening_item :: "netstat_env \<Rightarrow> int \<Rightarrow> proc_line \<Rightarrow> item_outcome" where
  "listening_item env portInt ent =
     (let fs = Fields (fst ent)
      in if length fs < 4 then Panic (errors_New ''/proc doesn't respect the expected format'')
         else (case Split (fs ! 1) CHR '':'' of
                 la # lp # _ \<Rightarrow>
                   if lp \<noteq> pad4 (fmt_X portInt) then Miss
                   else item_result
                     (and_then (if length la = 8 then hex_address hexToIP4 ''local ip'' la
                                else if length la = 32 then hex_address hexToIP6 ''local ip'' la
                                else Inl (errors_New ''invalid length for local address'')) (\<lambda>localAddr.
                        Inr (Hit (zero_element\<lparr>el_LocalAddr := ne_IPString env localAddr, el_LocalPort := portInt,
                          el_Namespace := snd ent\<rparr>))))
               | _ \<Rightarrow> Panic (errors_New ''index out of range'')))"

definition HasListeningPort :: "netstat_env \<Rightarrow> bool \<Rightarrow> string \<Rightarrow> search_out" where
  "HasListeningPort env ns val =
     scan_entries ''HasListeningPort''
       (and_then (Atoi val) (\<lambda>_. and_then (procIP4Entries env ns) (\<lambda>ls4.
          and_then (procIP6Entries env ns) (\<lambda>ls6. Inr (ls4 @ ls6)))))
       (listening_item env (case Atoi val of Inl _ \<Rightarrow> 0 | Inr p \<Rightarrow> p))"

section \<open>Neighbours\<close>

text \<open>A line of the table of neighbours with fewer than four fields is passed over.\<close>

definition HasSeenMac :: "netstat_env \<Rightarrow> bool \<Rightarrow> string \<Rightarrow> search_out" where
  "HasSeenMac env ns val =
     scan_entries ''HasSeenMac''
       (and_then (procArpEntries env ns) (\<lambda>lns. and_then (ne_Regexp env val) (\<lambda>_. Inr lns)))
       (\<lambda>ent. let fs = Fields (fst ent)
              in if length fs < 4 then Skip
                 else if (case ne_Regexp env val of Inl _ \<Rightarrow> False | Inr re \<Rightarrow> re (fs ! 3))
                 then Hit (zero_element\<lparr>el_RemoteAddr := fs ! 0, el_RemoteMACAddr := fs ! 3, el_Namespace := snd ent\<rparr>)
                 else Miss)"

definition seen_item :: "netstat_env \<Rightarrow> ip_net \<Rightarrow> proc_line \<Rightarrow> item_outcome" where
  "seen_item env ipnet ent =
     (let fs = Fields (fst ent)
      in if length fs < 4 then Skip
         else (case ne_ParseIP env (fs ! 0) of
                 None \<Rightarrow> Panic (errors_New ''failed to convert remote IP'')
               | Some remoteIP \<Rightarrow>
                   if Contains ipnet remoteIP
                   then Hit (zero_element\<lparr>el_RemoteAddr := ne_IPString env remoteIP, el_RemoteMACAddr := fs ! 3,
                              el_Namespace := snd ent\<rparr>)
                   else Miss))"

definition hasSeenIP4 :: "netstat_env \<Rightarrow> bool \<Rightarrow> ip \<Rightarrow> ip_net option \<Rightarrow> search_out" where
  "hasSeenIP4 env ns a n = scan_entries ''hasSeenIP4'' (procArpEntries env ns) (seen_item env (full_net 4 a n))"

definition hasSeenIP6 :: "netstat_env \<Rightarrow> bool \<Rightarrow> ip \<Rightarrow> ip_net option \<Rightarrow> search_out" where
  "hasSeenIP6 env ns a n = scan_entries ''hasSeenIP6'' (procArpEntries env ns) (seen_item env (full_net 16 a n))"

definition HasSeenIP :: "netstat_env \<Rightarrow> bool \<Rightarrow> string \<Rightarrow> search_out" where
  "HasSeenIP env ns val =
     out_recovered (in_function ''HasSeenIP'')
       (case parse_target env val of
          Inl e \<Rightarrow> failed_out e
        | Inr (a, n) \<Rightarrow> if To4 a \<noteq> None then hasSeenIP4 env ns a n else hasSeenIP6 env ns a n)"

section \<open>Addresses of the host\<close>

definition arrow_function :: "string \<Rightarrow> go_error \<Rightarrow> go_error" where
  "arrow_function f e = Errorf (f @ ''() -> %v'') [AErr e]"

definition HasLocalMAC :: "netstat_env \<Rightarrow> string \<Rightarrow> search_out" where
  "HasLocalMAC env macstr =
     out_recovered (arrow_function ''HasLocalMac'')
       (case and_then (ne_Regexp env (''(?i)'' @ macstr)) (\<lambda>re. and_then (ne_Interfaces env) (\<lambda>is. Inr (re, is))) of
          Inl e \<Rightarrow> failed_out e
        | Inr (re, ifaces) \<Rightarrow>
            scan_items (\<lambda>mac. if re mac then Hit (zero_element\<lparr>el_LocalMACAddr := mac\<rparr>) else Miss) ifaces empty_out)"

text \<open>An address that is not a network is compared as text.\<close>

definition local_item :: "(string \<Rightarrow> bool) \<Rightarrow> string \<Rightarrow> item_outcome" where
  "local_item p ifaceAddr =
     (let addr = hd (Split ifaceAddr CHR ''/'')
      in if p addr then Hit (zero_element\<lparr>el_LocalAddr := addr\<rparr>) else Miss)"

definition HasLocalIP :: "netstat_env \<Rightarrow> string \<Rightarrow> search_out" where
  "HasLocalIP env ipStr =
     out_recovered (arrow_function ''HasLocalIP'')
       (case (if has_slash ipStr
              then and_then (ne_ParseCIDR env ipStr) (\<lambda>(_, ipnet).
                     Inr (\<lambda>addr. Contains ipnet (case ne_ParseIP env addr of None \<Rightarrow> [] | Some a \<Rightarrow> a)))
              else Inr (\<lambda>addr. ipStr = addr)) of
          Inl e \<Rightarrow> failed_out e
        | Inr p \<Rightarrow>
            (case ne_InterfaceAddrs env of
               Inl e \<Rightarrow> failed_out e
             | Inr addrs \<Rightarrow> scan_items (local_item p) addrs empty_out))"

section \<open>The module\<close>

record netstat_params =
  np_LocalMAC :: "string list"
  np_LocalIP :: "string list"
  np_NeighborMAC :: "string list"
  np_NeighborIP :: "string list"
  np_ConnectedIP :: "string list"
  np_ListeningPort :: "string list"
  np_SearchNamespaces :: bool

definition validateMAC :: "netstat_env \<Rightarrow> string \<Rightarrow> unit result" where
  "validateMAC env regex =
     (case ne_Regexp env regex of
        Inl e \<Rightarrow> Inl (Errorf (''Invalid MAC regexp '' @ quoted ''%s'' @ ''. Compilation failed with '' @ quoted ''%v'' @
                   ''. Must be a valid regular expression.'') [AStr regex, AErr e])
      | Inr _ \<Rightarrow> Inr ())"

definition validateIP :: "netstat_env \<Rightarrow> string \<Rightarrow> unit result" where
  "validateIP env val =
     (if has_slash val
      then (case ne_ParseCIDR env val of
              Inl e \<Rightarrow> Inl (Errorf ''invalid IPv{4,6} CIDR %s: %v. Must be an IP or a CIDR.'' [AStr val, AErr e])
            | Inr _ \<Rightarrow> Inr ())
      else if ne_ParseIP env val = None then Inl (Errorf ''invalid IPv{4,6} %s. Must be an IP or a CIDR.'' [AStr val])
      else Inr ())"

definition validatePort :: "string \<Rightarrow> unit result" where
  "validatePort val =
     (case Atoi val of
        Inl _ \<Rightarrow> Inl (Errorf ''%s is not a valid port'' [AStr val])
      | Inr port \<Rightarrow> if port < 0 \<or> 65535 < port then Inl (errors_New ''port out of range. must be between 1 and 65535'') else Inr ())"

definition netstat_validate :: "netstat_env \<Rightarrow> netstat_params \<Rightarrow> unit result" where
  "netstat_validate env p =
     and_then (all_res (validateMAC env) (np_LocalMAC p)) (\<lambda>_.
     and_then (all_res (validateMAC env) (np_NeighborMAC p)) (\<lambda>_.
     and_then (all_res (validateIP env) (np_NeighborIP p)) (\<lambda>_.
     and_then (all_res (validateIP env) (np_LocalIP p)) (\<lambda>_.
     and_then (all_res (validateIP env) (np_ConnectedIP p)) (\<lambda>_.
       all_res validatePort (np_ListeningPort p))))))"

type_synonym found_map = "(string \<times> element list) list"

record elements =
  es_LocalMAC :: found_map
  es_LocalIP :: found_map
  es_NeighborMAC :: found_map
  es_NeighborIP :: found_map
  es_ConnectedIP :: found_map
  es_ListeningPort :: found_map

record netstat_results =
  nr_FoundAnything :: bool
  nr_Success :: bool
  nr_Elements :: "elements option"
  nr_Examined :: nat
  nr_Errors :: "go_error list"

text \<open>One loop over the values of a parameter: the map, whether something was found, the count and the errors.\<close>

fun values_loop :: "(string \<Rightarrow> search_out) \<Rightarrow> string list \<Rightarrow> netstat_results \<Rightarrow> found_map \<Rightarrow> netstat_results \<times> found_map" where
  "values_loop f [] r m = (r, m)"
| "values_loop f (val # vals) r m =
     (let out = f val
      in values_loop f vals
           (r\<lparr>nr_FoundAnything := nr_FoundAnything r \<or> no_Found out, nr_Examined := nr_Examined r + no_Examined out,
              nr_Errors := nr_Errors r @ (case no_Err out of None \<Rightarrow> [] | Some e \<Rightarrow> [e])\<rparr>)
           (al_set val (no_Elements out) m))"

definition netstat_start :: netstat_results where
  "netstat_start = \<lparr>nr_FoundAnything = False, nr_Success = False, nr_Elements = None, nr_Examined = 0, nr_Errors = []\<rparr>"

text \<open>
  \<open>Run\<close>, from the parameters read. \<open>namespaceMode\<close> is a global variable that a run may set and none
  clears; the agent starts a process for each run.
\<close>

definition netstat_Run :: "netstat_env \<Rightarrow> netstat_params result \<Rightarrow> netstat_results" where
  "netstat_Run env input =
     (case and_then input (\<lambda>p. and_then (netstat_validate env p) (\<lambda>_. Inr p)) of
        Inl e \<Rightarrow> netstat_start\<lparr>nr_Errors := [e]\<rparr>
      | Inr p \<Rightarrow>
          (let ns = np_SearchNamespaces p;
               (r, localmac) = values_loop (HasLocalMAC env) (np_LocalMAC p) netstat_start [];
               (r, neighbormac) = values_loop (HasSeenMac env ns) (np_NeighborMAC p) r [];
               (r, neighborip) = values_loop (HasSeenIP env ns) (np_NeighborIP p) r [];
               (r, localip) = values_loop (HasLocalIP env) (np_LocalIP p) r [];
               (r, connectedip) = values_loop (HasIPConnected env ns) (np_ConnectedIP p) r [];
               (r, listeningport) = values_loop (HasListeningPort env ns) (np_ListeningPort p) r []
           in r\<lparr>nr_Success := True, nr_Elements := Some \<lparr>es_LocalMAC = localmac, es_LocalIP = localip,
                  es_NeighborMAC = neighbormac, es_NeighborIP = neighborip, es_ConnectedIP = connectedip,
                  es_ListeningPort = listeningport\<rparr>\<rparr>))"

text \<open>The remote addresses of connections are masked for agents with enhanced privacy.\<close>

definition mask_remote :: "found_map \<Rightarrow> found_map" where
  "mask_remote = map (\<lambda>(k, v). (k, map (\<lambda>el. el\<lparr>el_RemoteAddr := ''masked''\<rparr>) v))"

definition netstat_EnhancePrivacy :: "netstat_results \<Rightarrow> netstat_results" where
  "netstat_EnhancePrivacy r =
     r\<lparr>nr_Elements := map_option (\<lambda>els. els\<lparr>es_ConnectedIP := mask_remote (es_ConnectedIP els)\<rparr>) (nr_Elements r)\<rparr>"

subsection \<open>Printing\<close>

definition printNamespaceId :: "string \<Rightarrow> string" where
  "printNamespaceId ns = (if ns \<noteq> [] \<and> ns \<noteq> ''default'' then '' namespace:['' @ ns @ '']'' else [])"

definition for_search :: "string \<Rightarrow> string \<Rightarrow> string" where
  "for_search what val = '' for netstat '' @ what @ '':'' @ quoted val"

text \<open>The lines for the values of one parameter; \<open>none\<close> tells whether a line says that nothing was found.\<close>

definition print_section :: "bool \<Rightarrow> bool \<Rightarrow> string \<Rightarrow> (element \<Rightarrow> string) \<Rightarrow> found_map \<Rightarrow> string list" where
  "print_section matchOnly none what line m =
     concat (map (\<lambda>(val, res).
       if matchOnly \<and> length res < 1 then []
       else map (\<lambda>el. line el @ for_search what val @ printNamespaceId (el_Namespace el)) res @
            (if none \<and> res = [] then [''did not find anything'' @ for_search what val] else [])) m)"

definition netstat_PrintResults ::
  "(go_error \<Rightarrow> string) \<Rightarrow> (netstat_results \<Rightarrow> string) \<Rightarrow> netstat_results \<Rightarrow> bool \<Rightarrow> string list result" where
  "netstat_PrintResults show_err show_stats r matchOnly =
     (case nr_Elements r of
        None \<Rightarrow> Inr (if matchOnly then [] else map (\<lambda>e. ''error: '' @ show_err e) (nr_Errors r) @ [show_stats r])
      | Some els \<Rightarrow>
          Inr (print_section matchOnly False ''localmac'' (\<lambda>el. ''found local mac '' @ el_LocalMACAddr el) (es_LocalMAC els) @
               print_section matchOnly True ''neighbormac''
                 (\<lambda>el. ''found neighbor mac '' @ el_RemoteMACAddr el @ '' '' @ el_RemoteAddr el) (es_NeighborMAC els) @
               print_section matchOnly True ''neighborIP''
                 (\<lambda>el. ''found neighbor IP '' @ el_RemoteAddr el @ '' '' @ el_RemoteMACAddr el) (es_NeighborIP els) @
               print_section matchOnly True ''localip'' (\<lambda>el. ''found local ip '' @ el_LocalAddr el) (es_LocalIP els) @
               print_section matchOnly True ''connectedip''
                 (\<lambda>el. ''found connected tuple '' @ el_RemoteAddr el @ '':'' @ fmt_d (el_RemotePort el) @
                       '' with local tuple '' @ el_LocalAddr el @ '':'' @ fmt_d (el_LocalPort el)) (es_ConnectedIP els) @
               print_section matchOnly True ''listeningport''
                 (\<lambda>el. ''found listening port '' @ fmt_d (el_LocalPort el)) (es_ListeningPort els) @
               (if matchOnly then [] else map (\<lambda>e. ''error: '' @ show_err e) (nr_Errors r) @ [show_stats r])))"

end
