(* ===== verification/NetstatProps.thy ===== *)
theory NetstatProps
  imports Netstat
begin

text \<open>
  The properties of the netstat module: the hexadecimal addresses of \<open>/proc\<close> are read back, a network
  contains the addresses that agree with it in its first bits, and the searches for peers and ports
  return exactly the entries asked for.
\<close>

section \<open>Addresses\<close>

text \<open>How the kernel writes the bytes of an address: words of four bytes in the reverse order.\<close>

definition hex2 :: "8 word \<Rightarrow> string" where
  "hex2 b = [hex_digit (unat b div 16), hex_digit (unat b mod 16)]"

definition proc_hex4 :: "ip \<Rightarrow> string" where
  "proc_hex4 a = concat (map hex2 (rev a))"

fun proc_hex6 :: "ip \<Rightarrow> string" where
  "proc_hex6 (a # b # c # d # rest) = proc_hex4 [a, b, c, d] @ proc_hex6 rest"
| "proc_hex6 a = []"

lemma digit_val_hex [simp]: "d < 16 \<Longrightarrow> digit_val (hex_digit d) = Some d"
  by (simp add: hex_digit_def digit_val_def)

lemma byte_halves: "unat (b :: 8 word) div 16 < 16" "unat b div 16 * 16 + unat b mod 16 = unat b" "unat b < 256"
proof -
  have "unat b < 2 ^ LENGTH(8)" by (rule unsigned_less)
  then show "unat b < 256" by simp
  then show "unat b div 16 < 16" by (simp add: less_mult_imp_div_less)
  show "unat b div 16 * 16 + unat b mod 16 = unat b" by simp
qed

lemma ParseUint_hex2: "ParseUint (hex2 b) 16 8 = Inr (unat b)"
  using byte_halves [of b] by (simp add: ParseUint_def hex2_def)

lemma hex_bytes_hex2:
  "hex_bytes (concat (map hex2 bs)) (map (\<lambda>i. 2 * i) is) = Inr (Some (map ((!) bs) is))"
  if "\<forall>i\<in>set is. i < length bs"
proof -
  have len: "length (concat (map hex2 bs)) = 2 * length bs" by (induction bs) (simp_all add: hex2_def)
  have at: "take 2 (drop (2 * i) (concat (map hex2 bs))) = hex2 (bs ! i)" if "i < length bs" for i
    using that
  proof (induction bs arbitrary: i)
    case Nil
    then show ?case by simp
  next
    case (Cons b bs)
    then show ?case by (cases i) (simp_all add: hex2_def)
  qed
  show ?thesis using that
  proof (induction "is")
    case Nil
    then show ?case by simp
  next
    case (Cons i "is")
    then show ?case using at [of i] len by (simp add: ParseUint_hex2 and_then_def)
  qed
qed

lemma length_four: "length xs = 4 \<longleftrightarrow> (\<exists>a b c d. xs = [a, b, c, d])"
  by (auto simp: length_Suc_conv eval_nat_numeral)

text \<open>An address that the kernel writes is read back, for both versions.\<close>

lemma proc_read4: "length a = 4 \<Longrightarrow> hexToIP4 (proc_hex4 a) = Inr (Some a)"
proof -
  assume "length a = 4"
  then obtain w x y z where a: "a = [w, x, y, z]" by (auto simp: length_four)
  show "hexToIP4 (proc_hex4 a) = Inr (Some a)"
    using hex_bytes_hex2 [of "[0, 1, 2, 3]" "rev a"] by (simp add: hexToIP4_def proc_hex4_def and_then_def a)
qed

lemma proc_read6: "length b = 16 \<Longrightarrow> hexToIP6 (proc_hex6 b) = Inr (Some b)"
proof -
  assume b: "length b = 16"
  then have "\<exists>b0 b1 b2 b3 b4 b5 b6 b7 b8 b9 b10 b11 b12 b13 b14 b15.
      b = [b0, b1, b2, b3, b4, b5, b6, b7, b8, b9, b10, b11, b12, b13, b14, b15]"
    by (simp add: length_Suc_conv eval_nat_numeral) (elim exE conjE, simp)
  then obtain b0 b1 b2 b3 b4 b5 b6 b7 b8 b9 b10 b11 b12 b13 b14 b15 where
    b: "b = [b0, b1, b2, b3, b4, b5, b6, b7, b8, b9, b10, b11, b12, b13, b14, b15]" by blast
  let ?places = "[3, 2, 1, 0, 7, 6, 5, 4, 11, 10, 9, 8, 15, 14, 13, 12] :: nat list"
  let ?bytes = "[b3, b2, b1, b0, b7, b6, b5, b4, b11, b10, b9, b8, b15, b14, b13, b12]"
  have places: "concat (map (\<lambda>i::nat. [i + 6, i + 4, i + 2, i]) [0, 8, 16, 24]) = map (\<lambda>i. 2 * i) ?places" by simp
  have hex: "proc_hex6 b = concat (map hex2 ?bytes)" by (simp add: proc_hex4_def b)
  have res: "map ((!) ?bytes) ?places = b" by (simp add: b)
  have "\<forall>i\<in>set ?places. i < length ?bytes" by simp
  from hex_bytes_hex2 [OF this] show "hexToIP6 (proc_hex6 b) = Inr (Some b)"
    unfolding hexToIP6_def places hex res .
qed

section \<open>Networks\<close>

text \<open>The number that an address is, most significant byte first.\<close>

fun ip_number :: "ip \<Rightarrow> nat" where
  "ip_number [] = 0"
| "ip_number (b # bs) = unat b * 256 ^ length bs + ip_number bs"

lemma ip_number_less: "ip_number bs < 256 ^ length bs"
proof (induction bs)
  case Nil
  then show ?case by simp
next
  case (Cons b bs)
  have "unat b * 256 ^ length bs + ip_number bs < Suc (unat b) * 256 ^ length bs" using Cons by simp
  also have "\<dots> \<le> 256 * 256 ^ length bs" using byte_halves(3) [of b] by (intro mult_right_mono) auto
  finally show ?case by simp
qed

definition masked_eq :: "8 word list \<Rightarrow> ip \<Rightarrow> ip \<Rightarrow> bool" where
  "masked_eq m a b \<longleftrightarrow> list_all2 (\<lambda>(x, k) y. x AND k = y AND k) (zip a m) b"

lemma masked_eq_Cons [simp]:
  "masked_eq (k # m) (x # a) (y # b) \<longleftrightarrow> x AND k = y AND k \<and> masked_eq m a b"
  by (simp add: masked_eq_def)

lemma byte_masked:
  assumes "n < 8"
  shows "(x AND NOT (drop_bit n 0xFF) = y AND NOT (drop_bit n (0xFF :: 8 word))) \<longleftrightarrow> unat x div 2 ^ (8 - n) = unat y div 2 ^ (8 - n)"
proof -
  have m: "drop_bit n (0xFF :: 8 word) = mask (8 - n)"
  proof -
    have "n \<in> {0, 1, 2, 3, 4, 5, 6, 7}" using assms by auto
    then show ?thesis by (auto simp: mask_eq_exp_minus_1 drop_bit_eq_div)
  qed
  have "(x AND NOT (mask k) = y AND NOT (mask k)) \<longleftrightarrow> drop_bit k x = drop_bit k y" for k
  proof
    assume eq: "x AND NOT (mask k) = y AND NOT (mask k)"
    have "bit x (k + i) \<longleftrightarrow> bit y (k + i)" for i
      using arg_cong [OF eq, of "\<lambda>w. bit w (k + i)"] by (auto simp: bit_simps dest: bit_imp_le_length)
    then show "drop_bit k x = drop_bit k y" by (simp add: bit_eq_iff bit_simps)
  next
    assume eq: "drop_bit k x = drop_bit k y"
    have "bit x i \<longleftrightarrow> bit y i" if "k \<le> i" for i
      using arg_cong [OF eq, of "\<lambda>w. bit w (i - k)"] that by (simp add: bit_simps)
    then show "x AND NOT (mask k) = y AND NOT (mask k)" by (auto simp: bit_eq_iff bit_simps not_less)
  qed
  note bits = this
  have "drop_bit k x = drop_bit k y \<longleftrightarrow> unat x div 2 ^ k = unat y div 2 ^ k" for k
    by (metis unat_drop_bit_eq drop_bit_eq_div unsigned_word_eqI)
  with bits show ?thesis unfolding m by blast
qed

lemma mixed_radix: "u * B + w = u' * B + w' \<longleftrightarrow> u = u' \<and> w = w'" if "w < B" "w' < B" for u w u' w' B :: nat
proof
  assume eq: "u * B + w = u' * B + w'"
  have "(u * B + w) div B = u" "(u' * B + w') div B = u'" using that by simp_all
  with eq show "u = u' \<and> w = w'" by (metis add_left_cancel)
qed simp

lemma div_split:
  assumes "k \<le> m" and "v < 2 ^ m"
  shows "(u * 2 ^ m + v) div 2 ^ k = u * 2 ^ (m - k) + v div 2 ^ k" and "v div 2 ^ k < (2 :: nat) ^ (m - k)"
proof -
  have m: "(2 :: nat) ^ m = 2 ^ (m - k) * 2 ^ k" using assms(1) by (simp add: power_add [symmetric])
  then have "u * 2 ^ m = u * 2 ^ (m - k) * 2 ^ k" by (metis mult.assoc)
  then show "(u * 2 ^ m + v) div 2 ^ k = u * 2 ^ (m - k) + v div 2 ^ k" by (simp only: div_mult_self3) simp
  show "v div 2 ^ k < 2 ^ (m - k)" using assms(2) m by (simp add: less_mult_imp_div_less)
qed

lemma div_high: "v < 2 ^ m \<Longrightarrow> (u * 2 ^ m + v) div 2 ^ (m + j) = u div (2 :: nat) ^ j"
proof -
  assume v: "v < 2 ^ m"
  have "(u * 2 ^ m + v) div 2 ^ (m + j) = (u * 2 ^ m + v) div 2 ^ m div 2 ^ j" by (simp add: power_add div_mult2_eq)
  also have "(u * 2 ^ m + v) div 2 ^ m = u" using v by simp
  finally show ?thesis .
qed

lemma byte_and_full: "x AND 0xFF = (x :: 8 word)"
proof -
  have "(0xFF :: 8 word) = - 1" by simp
  then show ?thesis by (simp only: and.right_neutral)
qed

lemma power_256: "(256 :: nat) ^ l = 2 ^ (8 * l)"
  by (simp add: power_mult)

lemma masked_eq_CIDRMask:
  assumes "length a = l" and "length b = l" and "ones \<le> 8 * l"
  shows "masked_eq (CIDRMask ones l) a b \<longleftrightarrow> ip_number a div 2 ^ (8 * l - ones) = ip_number b div 2 ^ (8 * l - ones)"
  using assms
proof (induction l arbitrary: ones a b)
  case 0
  then show ?case by (simp add: masked_eq_def)
next
  case (Suc l)
  obtain x a' y b' where a: "a = x # a'" "length a' = l" and b: "b = y # b'" "length b' = l"
    using Suc.prems by (metis length_Suc_conv)
  let ?m = "8 * l"
  have less: "ip_number a' < 2 ^ ?m" "ip_number b' < 2 ^ ?m"
    using ip_number_less [of a'] ip_number_less [of b'] a b by (simp_all add: power_256)
  have num: "ip_number a = unat x * 2 ^ ?m + ip_number a'" "ip_number b = unat y * 2 ^ ?m + ip_number b'"
    using a b by (simp_all add: power_256)
  show ?case
  proof (cases "8 \<le> ones")
    case True
    let ?k = "8 * l - (ones - 8)"
    have k: "?k \<le> ?m" "8 * Suc l - ones = ?k" using True by simp_all
    have eq: "x = y \<longleftrightarrow> unat x = unat y" by (auto intro: unsigned_word_eqI)
    have "masked_eq (CIDRMask ones (Suc l)) a b \<longleftrightarrow> unat x = unat y \<and> ip_number a' div 2 ^ ?k = ip_number b' div 2 ^ ?k"
      using True Suc.IH [OF a(2) b(2), of "ones - 8"] Suc.prems(3) by (simp add: a b byte_and_full eq)
    also have "\<dots> \<longleftrightarrow> ip_number a div 2 ^ ?k = ip_number b div 2 ^ ?k"
      unfolding num div_split(1) [OF k(1) less(1)] div_split(1) [OF k(1) less(2)]
      by (rule mixed_radix [symmetric]) (rule div_split(2) [OF k(1) less(1)], rule div_split(2) [OF k(1) less(2)])
    finally show ?thesis unfolding k(2) .
  next
    case False
    then have j: "8 * Suc l - ones = ?m + (8 - ones)" by simp
    have "masked_eq (CIDRMask 0 l) a' b'" using Suc.IH [OF a(2) b(2), of 0] less by simp
    then show ?thesis
      unfolding j num div_high [OF less(1)] div_high [OF less(2)] using False by (simp add: a b byte_masked)
  qed
qed

text \<open>A network of \<open>ones\<close> bits contains the addresses of its version that have these bits in common with it.\<close>

theorem Contains_prefix:
  assumes "length a = l" and "length b = l" and "l = 4 \<or> l = 16 \<and> To4 a = None \<and> To4 b = None" and "ones \<le> 8 * l"
  shows "Contains \<lparr>in_IP = a, in_Mask = CIDRMask ones l\<rparr> b \<longleftrightarrow>
    ip_number a div 2 ^ (8 * l - ones) = ip_number b div 2 ^ (8 * l - ones)"
proof -
  have len: "length (CIDRMask ones k) = k" for ones k by (induction ones k rule: CIDRMask.induct) simp_all
  have "Contains \<lparr>in_IP = a, in_Mask = CIDRMask ones l\<rparr> b \<longleftrightarrow> masked_eq (CIDRMask ones l) a b"
    using assms(1-3) by (auto simp: Contains_def networkNumberAndMask_def masked_eq_def To4_def len Let_def)
  with masked_eq_CIDRMask [OF assms(1,2,4)] show ?thesis by simp
qed

text \<open>With the full mask, of whichever length, the network of an address contains just that address.\<close>

lemma full_mask: "CIDRMask (8 * l) l = replicate l 0xFF"
  by (induction l) simp_all

lemma masked_full: "masked_eq (replicate (length a) 0xFF) a b \<longleftrightarrow> a = b"
proof (induction a arbitrary: b)
  case Nil
  then show ?case by (auto simp: masked_eq_def)
next
  case (Cons x a)
  then show ?case by (cases b) (auto simp: byte_and_full masked_eq_def)
qed

lemma To4_length: "To4 a = Some b \<Longrightarrow> length b = 4 \<and> (length a = 4 \<or> length a = 16)"
  by (auto simp: To4_def split: if_splits)

lemma Contains_full4:
  assumes "To4 a = Some a4" and "l = 4 \<and> length a = 4 \<or> l = 4 \<and> length a = 16 \<or> l = 16"
  shows "Contains (full_net l a None) b \<longleftrightarrow> To4 b = Some a4"
proof -
  have len: "length a4 = 4" using To4_length [OF assms(1)] by simp
  have net: "networkNumberAndMask (full_net l a None) = (a4, replicate 4 0xFF)"
    using assms len by (auto simp: networkNumberAndMask_def full_net_def full_mask Let_def)
  show ?thesis
  proof (cases "To4 b")
    case None
    then have "length b \<noteq> 4" by (auto simp: To4_def)
    with None net len show ?thesis by (simp add: Contains_def)
  next
    case (Some y)
    then have "length y = 4" using To4_length by simp
    with Some net len masked_full [of a4 y] show ?thesis by (auto simp: Contains_def masked_eq_def)
  qed
qed

lemma Contains_full6:
  assumes "To4 a = None" and "length a = 16"
  shows "Contains (full_net 16 a None) b \<longleftrightarrow> b = a"
proof -
  have net: "networkNumberAndMask (full_net 16 a None) = (a, replicate 16 0xFF)"
    using assms full_mask [of 16] by (simp add: networkNumberAndMask_def full_net_def Let_def)
  show ?thesis
  proof (cases "To4 b")
    case None
    then show ?thesis using net assms(2) masked_full [of a b] by (auto simp: Contains_def masked_eq_def dest: list_all2_lengthD)
  next
    case (Some y)
    then have "length y = 4" "b \<noteq> a" using To4_length assms(1) by auto
    with Some net assms(2) show ?thesis by (simp add: Contains_def)
  qed
qed

section \<open>Peers and ports\<close>

text \<open>A connection and the line that the kernel writes for it; the state is the field after the addresses.\<close>

record conn =
  cn_Local :: ip
  cn_LocalPort :: nat
  cn_Remote :: ip
  cn_RemotePort :: nat
  cn_Namespace :: string

definition proc_address :: "(ip \<Rightarrow> string) \<Rightarrow> ip \<Rightarrow> nat \<Rightarrow> string" where
  "proc_address hex a p = hex a @ CHR '':'' # pad4 (fmt_hex p)"

definition conn_line :: "nat \<Rightarrow> (ip \<Rightarrow> string) \<Rightarrow> proc_line \<Rightarrow> conn \<Rightarrow> bool" where
  "conn_line l hex ent c \<longleftrightarrow>
     (\<exists>slot state rest. Fields (fst ent) = slot # proc_address hex (cn_Local c) (cn_LocalPort c) #
        proc_address hex (cn_Remote c) (cn_RemotePort c) # state # rest) \<and>
     snd ent = cn_Namespace c \<and> length (cn_Local c) = l \<and> length (cn_Remote c) = l \<and>
     cn_LocalPort c < 65536 \<and> cn_RemotePort c < 65536"

text \<open>Hexadecimal numbers.\<close>

lemma digits_val_fmt_hex: "digits_val 16 acc (fmt_hex n) = Some (acc * 16 ^ length (fmt_hex n) + n)"
proof (induction n arbitrary: acc rule: fmt_hex.induct)
  case (1 n)
  then show ?case
    by (cases "n < 16") (simp_all add: fmt_hex.simps [of n] digits_val_append algebra_simps)
qed

lemma digits_val_pad4: "digits_val 16 0 (pad4 (fmt_hex n)) = Some n"
proof -
  have "digits_val 16 0 (replicate k CHR ''0'' @ s) = digits_val 16 0 s" for k s
    by (induction k) (simp_all add: digit_val_def)
  then show ?thesis by (simp add: pad4_def digits_val_fmt_hex)
qed

lemma ParseUint_pad4: "n < 65536 \<Longrightarrow> ParseUint (pad4 (fmt_hex n)) 16 16 = Inr n"
  by (auto simp: ParseUint_def digits_val_pad4) (simp add: pad4_def fmt_hex.simps [of n] split: if_splits)

lemma pad4_inj: "pad4 (fmt_hex m) = pad4 (fmt_hex n) \<Longrightarrow> m = n"
  by (metis digits_val_pad4 option.inject)

lemma no_colon:
  "CHR '':'' \<notin> set (fmt_hex n)" "CHR '':'' \<notin> set (pad4 s) \<longleftrightarrow> CHR '':'' \<notin> set s" "CHR '':'' \<notin> set (proc_hex4 a)"
proof -
  have digit: "hex_digit d \<noteq> CHR '':''" if "d < 16" for d
    using that digit_val_hex [OF that] by (auto simp: digit_val_def)
  show "CHR '':'' \<notin> set (fmt_hex n)"
  proof (induction n rule: fmt_hex.induct)
    case (1 n)
    with digit [of n] digit [of "n mod 16"] show ?case by (cases "n < 16") (auto simp: fmt_hex.simps [of n])
  qed
  show "CHR '':'' \<notin> set (pad4 s) \<longleftrightarrow> CHR '':'' \<notin> set s" by (auto simp: pad4_def)
  show "CHR '':'' \<notin> set (proc_hex4 a)"
  proof -
    have "CHR '':'' \<noteq> hex_digit (unat b div 16)" "CHR '':'' \<noteq> hex_digit (unat b mod 16)" for b :: "8 word"
      using digit byte_halves(1) [of b] by (metis, metis mod_less_divisor zero_less_numeral)
    then show ?thesis by (simp add: proc_hex4_def hex2_def)
  qed
qed

lemma no_colon6: "CHR '':'' \<notin> set (proc_hex6 a)"
  by (induction a rule: proc_hex6.induct) (simp_all add: no_colon)

lemma Split_address:
  "CHR '':'' \<notin> set (hex a) \<Longrightarrow> Split (proc_address hex a p) CHR '':'' = [hex a, pad4 (fmt_hex p)]"
  by (simp add: proc_address_def Split_append Split_no_sep no_colon)

text \<open>The two versions have the same search over different functions.\<close>

definition hex_inverse :: "nat \<Rightarrow> (ip \<Rightarrow> string) \<Rightarrow> (string \<Rightarrow> ip option result) \<Rightarrow> bool" where
  "hex_inverse l hex unhex \<longleftrightarrow> (\<forall>a. length a = l \<longrightarrow> unhex (hex a) = Inr (Some a)) \<and> (\<forall>a. CHR '':'' \<notin> set (hex a))"

lemma hex_inverses: "hex_inverse 4 proc_hex4 hexToIP4" "hex_inverse 16 proc_hex6 hexToIP6"
  by (simp_all add: hex_inverse_def proc_read4 proc_read6 no_colon no_colon6)

definition conn_element :: "netstat_env \<Rightarrow> conn \<Rightarrow> element" where
  "conn_element env c = zero_element\<lparr>el_RemoteAddr := ne_IPString env (cn_Remote c), el_RemotePort := int (cn_RemotePort c),
     el_LocalAddr := ne_IPString env (cn_Local c), el_LocalPort := int (cn_LocalPort c), el_Namespace := cn_Namespace c\<rparr>"

lemma connected_item_line:
  assumes "hex_inverse l hex unhex" and "conn_line l hex ent c"
  shows "connected_item env unhex n ent = (if Contains n (cn_Remote c) then Hit (conn_element env c) else Miss)"
proof -
  from assms(2) obtain slot state rest where f: "Fields (fst ent) = slot # proc_address hex (cn_Local c) (cn_LocalPort c) #
        proc_address hex (cn_Remote c) (cn_RemotePort c) # state # rest" and c: "snd ent = cn_Namespace c"
      "length (cn_Local c) = l" "length (cn_Remote c) = l" "cn_LocalPort c < 65536" "cn_RemotePort c < 65536"
    by (auto simp: conn_line_def)
  have h: "unhex (hex (cn_Local c)) = Inr (Some (cn_Local c))" "unhex (hex (cn_Remote c)) = Inr (Some (cn_Remote c))"
      "CHR '':'' \<notin> set (hex (cn_Local c))" "CHR '':'' \<notin> set (hex (cn_Remote c))"
    using assms(1) c by (auto simp: hex_inverse_def)
  have parts: "two_parts w (proc_address hex (cn_Local c) p) = Inr (hex (cn_Local c), pad4 (fmt_hex p))"
      "two_parts w (proc_address hex (cn_Remote c) p) = Inr (hex (cn_Remote c), pad4 (fmt_hex p))" for w p
    using h by (simp_all add: two_parts_def Split_address)
  have ports: "hex_port w (pad4 (fmt_hex (cn_LocalPort c))) = Inr (int (cn_LocalPort c))"
      "hex_port w (pad4 (fmt_hex (cn_RemotePort c))) = Inr (int (cn_RemotePort c))" for w
    using c by (simp_all add: hex_port_def ParseUint_pad4)
  show ?thesis
    by (simp add: connected_item_def Let_def f parts hex_address_def h ports and_then_def item_result_def conn_element_def c)
qed

lemma scan_items_exact:
  assumes "list_all2 (\<lambda>ent c. f ent = (if P c then Hit (g c) else Miss)) ents cs"
  shows "scan_items f ents out = out\<lparr>no_Found := no_Found out \<or> filter P cs \<noteq> [],
    no_Elements := no_Elements out @ map g (filter P cs), no_Examined := no_Examined out + length cs\<rparr>"
  using assms
  by (induction ents cs arbitrary: out rule: list_all2_induct) simp_all

text \<open>What a target asks for: the same host, or a host of the network.\<close>

definition same_host :: "ip \<Rightarrow> ip \<Rightarrow> bool" where
  "same_host a b \<longleftrightarrow> (case To4 a of None \<Rightarrow> b = a | Some a4 \<Rightarrow> To4 b = Some a4)"

lemma hasIP_exact:
  assumes "entries = Inr ls" and "hex_inverse l hex unhex" and "list_all2 (conn_line l hex) ls cs"
  shows "scan_entries f entries (connected_item env unhex net) =
    (let found = filter (\<lambda>c. Contains net (cn_Remote c)) cs
     in \<lparr>no_Found = (found \<noteq> []), no_Elements = map (conn_element env) found, no_Examined = length cs, no_Err = None\<rparr>)"
proof -
  have "list_all2 (\<lambda>ent c. connected_item env unhex net ent =
      (if Contains net (cn_Remote c) then Hit (conn_element env c) else Miss)) ls cs"
    using assms(3) by (rule list_all2_mono) (rule connected_item_line [OF assms(2)])
  from scan_items_exact [OF this] show ?thesis
    by (simp add: scan_entries_def assms(1) out_recovered_def empty_out_def Let_def)
qed

text \<open>
  C33. The search for a peer is exact: for an address, in either version, it returns the connections whose remote
  host it is, first those of the IPv4 tables and then those of the IPv6 tables, where IPv4 peers appear as mapped
  addresses; nothing is missed and nothing else is returned, and there is no error.
\<close>

theorem connected_search_exact:
  assumes "procIP4Entries env ns = Inr ls4" and "list_all2 (conn_line 4 proc_hex4) ls4 cs4"
    and "procIP6Entries env ns = Inr ls6" and "list_all2 (conn_line 16 proc_hex6) ls6 cs6"
    and "\<not> has_slash val" and "ne_ParseIP env val = Some a" and "length a = 16"
  shows "HasIPConnected env ns val =
    (let found = filter (\<lambda>c. same_host a (cn_Remote c)) (cs4 @ cs6)
     in \<lparr>no_Found = (found \<noteq> []), no_Elements = map (conn_element env) found,
         no_Examined = (if To4 a = None then 0 else length cs4) + length cs6, no_Err = None\<rparr>)"
proof -
  note four = hasIP_exact [OF assms(1) hex_inverses(1) assms(2), of "''hasIP4Connected''" env "full_net 4 a None"]
  note six = hasIP_exact [OF assms(3) hex_inverses(2) assms(4), of "''hasIP6Connected''" env "full_net 16 a None"]
  show ?thesis
  proof (cases "To4 a")
    case None
    have "\<forall>c\<in>set cs4. length (cn_Remote c) = 4"
      using assms(2) by (auto simp: list_all2_conv_all_nth conn_line_def in_set_conv_nth)
    with assms(7) have "filter (\<lambda>c. cn_Remote c = a) cs4 = []" by (auto simp: filter_empty_conv)
    with None six assms(5-7) show ?thesis
      by (simp add: HasIPConnected_def parse_target_def hasIP6Connected_def same_host_def Contains_full6 out_recovered_def Let_def)
  next
    case (Some a4)
    have "Contains (full_net 4 a None) b = (To4 b = Some a4)" "Contains (full_net 16 a None) b = (To4 b = Some a4)" for b
      using Contains_full4 [OF Some] assms(7) by simp_all
    with Some four six assms(5,6) show ?thesis
      by (simp add: HasIPConnected_def parse_target_def hasIP4Connected_def hasIP6Connected_def same_host_def out_recovered_def Let_def)
  qed
qed

text \<open>For a network in the CIDR notation the same holds with its own \<open>Contains\<close>.\<close>

lemma network_search_exact:
  assumes "procIP4Entries env ns = Inr ls4" and "list_all2 (conn_line 4 proc_hex4) ls4 cs4"
    and "procIP6Entries env ns = Inr ls6" and "list_all2 (conn_line 16 proc_hex6) ls6 cs6"
    and "has_slash val" and "ne_ParseCIDR env val = Inr (a, n)" and "To4 a \<noteq> None"
  shows "no_Elements (HasIPConnected env ns val) = map (conn_element env) (filter (\<lambda>c. Contains n (cn_Remote c)) (cs4 @ cs6))"
  using assms(5-7) hasIP_exact [OF assms(1) hex_inverses(1) assms(2), of "''hasIP4Connected''" env n]
    hasIP_exact [OF assms(3) hex_inverses(2) assms(4), of "''hasIP6Connected''" env n]
  by (auto simp: HasIPConnected_def parse_target_def hasIP4Connected_def hasIP6Connected_def full_net_def out_recovered_def
      and_then_def Let_def)


text \<open>What is returned for a socket.\<close>

definition port_element :: "netstat_env \<Rightarrow> conn \<Rightarrow> element" where
  "port_element env c = zero_element\<lparr>el_LocalAddr := ne_IPString env (cn_Local c), el_LocalPort := int (cn_LocalPort c),
     el_Namespace := cn_Namespace c\<rparr>"

lemma length_proc_hex: "length (proc_hex4 a) = 2 * length a" "length a = 16 \<Longrightarrow> length (proc_hex6 a) = 32"
proof -
  have hex: "length (concat (map hex2 bs)) = 2 * length bs" for bs by (induction bs) (simp_all add: hex2_def)
  then show four: "length (proc_hex4 a) = 2 * length a" for a by (simp add: proc_hex4_def)
  have "length a = 4 * k \<Longrightarrow> length (proc_hex6 a) = 8 * k" for k
  proof (induction k arbitrary: a)
    case 0
    then show ?case by simp
  next
    case (Suc k)
    then show ?case by (cases a rule: proc_hex6.cases) (simp_all add: four)
  qed
  from this [of 4] show "length a = 16 \<Longrightarrow> length (proc_hex6 a) = 32" by simp
qed

lemma listening_item_line:
  assumes "conn_line l hex ent c" and "l = 4 \<and> hex = proc_hex4 \<or> l = 16 \<and> hex = proc_hex6"
  shows "listening_item env (int p) ent = (if cn_LocalPort c = p then Hit (port_element env c) else Miss)"
proof -
  from assms(1) obtain slot state rest where f: "Fields (fst ent) = slot # proc_address hex (cn_Local c) (cn_LocalPort c) #
        proc_address hex (cn_Remote c) (cn_RemotePort c) # state # rest" and c: "snd ent = cn_Namespace c" "length (cn_Local c) = l"
    by (auto simp: conn_line_def)
  have s: "Split (proc_address hex (cn_Local c) (cn_LocalPort c)) CHR '':'' = [hex (cn_Local c), pad4 (fmt_hex (cn_LocalPort c))]"
    using assms(2) by (auto simp: Split_address no_colon no_colon6)
  have addr: "(if length (hex (cn_Local c)) = 8 then hex_address hexToIP4 w (hex (cn_Local c))
      else if length (hex (cn_Local c)) = 32 then hex_address hexToIP6 w (hex (cn_Local c)) else r) = Inr (cn_Local c)" for w r
    using assms(2) c(2) by (auto simp: length_proc_hex hex_address_def proc_read4 proc_read6 and_then_def)
  show ?thesis
    using pad4_inj [of "cn_LocalPort c" p]
    by (auto simp: listening_item_def Let_def f s addr and_then_def item_result_def port_element_def c fmt_X_def)
qed

text \<open>
  The search for a listening port looks only at local ports: it returns exactly the sockets with the local
  port asked for, whatever their state, so an outgoing connection from that port counts as well.
\<close>

theorem listening_search_exact:
  assumes "procIP4Entries env ns = Inr ls4" and "list_all2 (conn_line 4 proc_hex4) ls4 cs4"
    and "procIP6Entries env ns = Inr ls6" and "list_all2 (conn_line 16 proc_hex6) ls6 cs6"
    and "Atoi val = Inr (int p)"
  shows "HasListeningPort env ns val =
    (let found = filter (\<lambda>c. cn_LocalPort c = p) (cs4 @ cs6)
     in \<lparr>no_Found = (found \<noteq> []), no_Elements = map (port_element env) found,
         no_Examined = length cs4 + length cs6, no_Err = None\<rparr>)"
proof -
  have "list_all2 (\<lambda>ent c. listening_item env (int p) ent = (if cn_LocalPort c = p then Hit (port_element env c) else Miss)) ls4 cs4"
    using assms(2) by (rule list_all2_mono) (erule listening_item_line, simp)
  moreover have "list_all2 (\<lambda>ent c. listening_item env (int p) ent = (if cn_LocalPort c = p then Hit (port_element env c) else Miss)) ls6 cs6"
    using assms(4) by (rule list_all2_mono) (erule listening_item_line, simp)
  ultimately have "list_all2 (\<lambda>ent c. listening_item env (int p) ent = (if cn_LocalPort c = p then Hit (port_element env c) else Miss))
      (ls4 @ ls6) (cs4 @ cs6)" by (rule list_all2_appendI)
  from scan_items_exact [OF this] show ?thesis
    by (simp add: HasListeningPort_def scan_entries_def assms(1,3,5) and_then_def out_recovered_def empty_out_def Let_def)
qed

section \<open>Neighbours and privacy\<close>

text \<open>The table of neighbours that is read holds IPv4 addresses, so no IPv6 neighbour is ever found.\<close>

lemma no_ipv6_neighbour:
  assumes "ne_ParseIP env val = Some a" and "\<not> has_slash val" and "To4 a = None" and "length a = 16"
    and "procArpEntries env ns = Inr lns" and "\<And>s b. ne_ParseIP env (Fields s ! 0) = Some b \<Longrightarrow> s \<in> fst ` set lns \<Longrightarrow> To4 b \<noteq> None"
  shows "\<not> no_Found (HasSeenIP env ns val) \<and> no_Elements (HasSeenIP env ns val) = []"
proof -
  have miss: "\<exists>e. seen_item env (full_net 16 a None) ent \<in> {Skip, Miss, Panic e}" if "ent \<in> set lns" for ent
    using assms(3,4,6) that by (fastforce simp: seen_item_def Let_def Contains_full6 split: option.splits)
  have "no_Elements (scan_items (seen_item env (full_net 16 a None)) es out) = no_Elements out \<and>
      no_Found (scan_items (seen_item env (full_net 16 a None)) es out) = no_Found out" if "set es \<subseteq> set lns" for es out
    using that
  proof (induction es arbitrary: out)
    case Nil
    then show ?case by simp
  next
    case (Cons e es)
    with miss [of e] show ?case by auto
  qed
  from this [of lns empty_out] assms(1-5) show ?thesis
    by (simp add: HasSeenIP_def parse_target_def hasSeenIP6_def scan_entries_def out_recovered_def empty_out_def)
qed

text \<open>
  With enhanced privacy no result carries the address of a peer, and the other fields of the results, and so
  the number of matches for each value, stay as they are.
\<close>

theorem EnhancePrivacy_masks:
  assumes "nr_Elements r = Some els"
  shows "\<exists>els'. nr_Elements (netstat_EnhancePrivacy r) = Some els' \<and>
    (\<forall>v\<in>snd ` set (es_ConnectedIP els'). \<forall>el\<in>set v. el_RemoteAddr el = ''masked'') \<and>
    map (\<lambda>(k, v). (k, map (\<lambda>el. el\<lparr>el_RemoteAddr := []\<rparr>) v)) (es_ConnectedIP els') =
    map (\<lambda>(k, v). (k, map (\<lambda>el. el\<lparr>el_RemoteAddr := []\<rparr>) v)) (es_ConnectedIP els) \<and>
    els'\<lparr>es_ConnectedIP := []\<rparr> = els\<lparr>es_ConnectedIP := []\<rparr> \<and>
    nr_FoundAnything (netstat_EnhancePrivacy r) = nr_FoundAnything r"
  using assms by (auto simp: netstat_EnhancePrivacy_def mask_remote_def)

text \<open>A run reports that it found something exactly when one of its maps has an element.\<close>

lemma scan_items_found:
  "no_Found out = (no_Elements out \<noteq> []) \<Longrightarrow>
   no_Found (scan_items f es out) = (no_Elements (scan_items f es out) \<noteq> [])"
  by (induction es arbitrary: out) (auto split: item_outcome.split)

section \<open>An example\<close>

definition example_tcp :: string where
  "example_tcp = ''sl local rem'' @ [newline] @ ''0: 0100007F:0035 0200000A:01BB 01'' @ [newline] @
     ''1: 0100007F:0016 0300000A:01BB 01'' @ [newline]"

definition example_tcp6 :: string where
  "example_tcp6 = ''sl local rem'' @ [newline] @
     ''0: 0000000000000000FFFF00000100007F:0035 0000000000000000FFFF00000200000A:0050 01'' @ [newline]"

definition example_net_env :: netstat_env where
  "example_net_env = \<lparr>ne_Regexp = (\<lambda>_. Inr (\<lambda>_. True)), ne_ParseIP = (\<lambda>_. Some (v4_prefix @ [10, 0, 0, 2])),
     ne_ParseCIDR = (\<lambda>_. Inl (errors_New ''invalid'')), ne_IPString = map (\<lambda>b. char_of (unat b)),
     ne_Interfaces = Inr [], ne_InterfaceAddrs = Inr [],
     ne_Open = (\<lambda>f. Inr (if f = ''/proc/net/tcp'' then example_tcp else if f = ''/proc/net/tcp6'' then example_tcp6 else [])),
     ne_ReadDir = Inr [], ne_Readlink = (\<lambda>_. Inr [])\<rparr>"

definition example_conns4 :: "conn list" where
  "example_conns4 =
     [\<lparr>cn_Local = [127, 0, 0, 1], cn_LocalPort = 53, cn_Remote = [10, 0, 0, 2], cn_RemotePort = 443, cn_Namespace = ''default''\<rparr>,
      \<lparr>cn_Local = [127, 0, 0, 1], cn_LocalPort = 22, cn_Remote = [10, 0, 0, 3], cn_RemotePort = 443, cn_Namespace = ''default''\<rparr>]"

definition example_conns6 :: "conn list" where
  "example_conns6 =
     [\<lparr>cn_Local = v4_prefix @ [127, 0, 0, 1], cn_LocalPort = 53, cn_Remote = v4_prefix @ [10, 0, 0, 2], cn_RemotePort = 80,
       cn_Namespace = ''default''\<rparr>]"

lemma scan_lines_line:
  "newline \<notin> set l \<Longrightarrow> length l < max_token \<Longrightarrow> scan_lines (l @ newline # r) = drop_cr l # scan_lines r"
proof -
  assume l: "newline \<notin> set l" "length l < max_token"
  then have "takeWhile (\<lambda>c. c \<noteq> newline) (l @ newline # r) = l" by (induction l) auto
  with l(2) show ?thesis by (subst scan_lines.simps) (simp add: Let_def)
qed

lemma example_lines:
  "scan_lines example_tcp = [''sl local rem'', ''0: 0100007F:0035 0200000A:01BB 01'', ''1: 0100007F:0016 0300000A:01BB 01'']"
  "scan_lines example_tcp6 =
     [''sl local rem'', ''0: 0000000000000000FFFF00000100007F:0035 0000000000000000FFFF00000200000A:0050 01'']"
  "scan_lines [] = []"
proof -
  have nil: "scan_lines [] = []" by (subst scan_lines.simps) simp
  then show "scan_lines [] = []" .
  show "scan_lines example_tcp = [''sl local rem'', ''0: 0100007F:0035 0200000A:01BB 01'', ''1: 0100007F:0016 0300000A:01BB 01'']"
    using scan_lines_line [of "''sl local rem''"] scan_lines_line [of "''0: 0100007F:0035 0200000A:01BB 01''"]
      scan_lines_line [of "''1: 0100007F:0016 0300000A:01BB 01''"]
    by (simp add: example_tcp_def nil max_token_def drop_cr_def)
  show "scan_lines example_tcp6 =
      [''sl local rem'', ''0: 0000000000000000FFFF00000100007F:0035 0000000000000000FFFF00000200000A:0050 01'']"
    using scan_lines_line [of "''sl local rem''"]
      scan_lines_line [of "''0: 0000000000000000FFFF00000100007F:0035 0000000000000000FFFF00000200000A:0050 01''"]
    by (simp add: example_tcp6_def nil max_token_def drop_cr_def)
qed

lemma example_entries:
  "procIP4Entries example_net_env False =
     Inr [(''0: 0100007F:0035 0200000A:01BB 01'', ''default''), (''1: 0100007F:0016 0300000A:01BB 01'', ''default'')]"
  "procIP6Entries example_net_env False =
     Inr [(''0: 0000000000000000FFFF00000100007F:0035 0000000000000000FFFF00000200000A:0050 01'', ''default'')]"
  by (simp_all add: procIP4Entries_def procIP6Entries_def default_lines_def open_lines_def example_net_env_def example_lines
      and_then_def recovered_in_def)

lemma example_fields:
  "Fields ''0: 0100007F:0035 0200000A:01BB 01'' = [''0:'', ''0100007F:0035'', ''0200000A:01BB'', ''01'']"
  "Fields ''1: 0100007F:0016 0300000A:01BB 01'' = [''1:'', ''0100007F:0016'', ''0300000A:01BB'', ''01'']"
  "Fields ''0: 0000000000000000FFFF00000100007F:0035 0000000000000000FFFF00000200000A:0050 01'' =
     [''0:'', ''0000000000000000FFFF00000100007F:0035'', ''0000000000000000FFFF00000200000A:0050'', ''01'']"
  by (simp_all add: Fields.simps is_space_def Let_def)

lemma example_hexes:
  "proc_address proc_hex4 [127, 0, 0, 1] 53 = ''0100007F:0035''" "proc_address proc_hex4 [10, 0, 0, 2] 443 = ''0200000A:01BB''"
  "proc_address proc_hex4 [127, 0, 0, 1] 22 = ''0100007F:0016''" "proc_address proc_hex4 [10, 0, 0, 3] 443 = ''0300000A:01BB''"
  "proc_address proc_hex6 (v4_prefix @ [127, 0, 0, 1]) 53 = ''0000000000000000FFFF00000100007F:0035''"
  "proc_address proc_hex6 (v4_prefix @ [10, 0, 0, 2]) 80 = ''0000000000000000FFFF00000200000A:0050''"
  by code_simp+

lemma example_conn_lines:
  "list_all2 (conn_line 4 proc_hex4)
     [(''0: 0100007F:0035 0200000A:01BB 01'', ''default''), (''1: 0100007F:0016 0300000A:01BB 01'', ''default'')] example_conns4"
  "list_all2 (conn_line 16 proc_hex6)
     [(''0: 0000000000000000FFFF00000100007F:0035 0000000000000000FFFF00000200000A:0050 01'', ''default'')] example_conns6"
  by (simp_all add: conn_line_def example_conns4_def example_conns6_def example_fields example_hexes) (simp_all add: v4_prefix_def)

theorem Contains_prefix_witness:
  "Contains \<lparr>in_IP = [10, 0, 0, 2], in_Mask = CIDRMask 8 4\<rparr> [10, 1, 2, 3] \<and>
   \<not> Contains \<lparr>in_IP = [10, 0, 0, 2], in_Mask = CIDRMask 8 4\<rparr> [11, 1, 2, 3]"
  using Contains_prefix [of "[10, 0, 0, 2]" 4 "[10, 1, 2, 3]" 8] Contains_prefix [of "[10, 0, 0, 2]" 4 "[11, 1, 2, 3]" 8]
  by simp

theorem connected_search_exact_witness:
  "\<exists>el el'. no_Elements (HasIPConnected example_net_env False ''10.0.0.2'') = [el, el'] \<and>
     el_RemotePort el = 443 \<and> el_RemotePort el' = 80"
proof -
  have "HasIPConnected example_net_env False ''10.0.0.2'' =
    (let found = filter (\<lambda>c. same_host (v4_prefix @ [10, 0, 0, 2]) (cn_Remote c)) (example_conns4 @ example_conns6)
     in \<lparr>no_Found = (found \<noteq> []), no_Elements = map (conn_element example_net_env) found,
         no_Examined = (if To4 (v4_prefix @ [10, 0, 0, 2]) = None then 0 else length example_conns4) + length example_conns6, no_Err = None\<rparr>)"
    by (rule connected_search_exact [OF example_entries(1) example_conn_lines(1) example_entries(2) example_conn_lines(2)])
      (simp_all add: has_slash_def example_net_env_def v4_prefix_def)
  then show ?thesis
    by (simp add: Let_def example_conns4_def example_conns6_def same_host_def To4_def v4_prefix_def conn_element_def)
qed

theorem listening_search_exact_witness:
  "map el_LocalPort (no_Elements (HasListeningPort example_net_env False ''53'')) = [53, 53]"
proof -
  have "Atoi ''53'' = Inr (int 53)" by (simp add: Atoi_def digit_val_def in_int64_def)
  from listening_search_exact [OF example_entries(1) example_conn_lines(1) example_entries(2) example_conn_lines(2) this]
  show ?thesis by (simp add: Let_def example_conns4_def example_conns6_def port_element_def)
qed

theorem EnhancePrivacy_masks_witness:
  "\<exists>els'. nr_Elements (netstat_EnhancePrivacy (netstat_start\<lparr>nr_Elements := Some \<lparr>es_LocalMAC = [], es_LocalIP = [], es_NeighborMAC = [],
       es_NeighborIP = [], es_ConnectedIP = [(''v'', [zero_element\<lparr>el_RemoteAddr := ''10.0.0.2''\<rparr>])], es_ListeningPort = []\<rparr>\<rparr>)) = Some els' \<and>
     (\<forall>v\<in>snd ` set (es_ConnectedIP els'). \<forall>el\<in>set v. el_RemoteAddr el = ''masked'')"
proof -
  let ?els = "\<lparr>es_LocalMAC = [], es_LocalIP = [], es_NeighborMAC = [], es_NeighborIP = [],
    es_ConnectedIP = [(''v'', [zero_element\<lparr>el_RemoteAddr := ''10.0.0.2''\<rparr>])], es_ListeningPort = []\<rparr>"
  have "nr_Elements (netstat_start\<lparr>nr_Elements := Some ?els\<rparr>) = Some ?els" by simp
  from EnhancePrivacy_masks [OF this] show ?thesis by blast
qed

end
