(* ===== verification/Fswatch.thy ===== *)
theory Fswatch
  imports GoStd "HOL-Library.Word"
begin

text \<open>
  The fswatch module (\<open>modules/fswatch/watch.go\<close>, \<open>fswatch.go\<close>): the profile of watched paths, the objects of
  each entry, the events of fsnotify on their way to an entry, hashes and alerts.

  The goroutines are a step relation: the router, one handler per entry, the hash requests that a handler
  starts, the goroutine of the initial records, the one that waits for a lost path. A step holds the lock of one
  entry throughout; the router takes the lock of each entry in turn and sends without one, so the others may run between
  its steps. The file system is a choice of each step, the clock may pass at any time. The log and alert channels always
  have room. A handler that has closed its channel is taken to wait on the nil channel before the path is watched again.
\<close>

section \<open>Alerts\<close>

datatype severity = ALERT_CRITICAL | ALERT_HIGH | ALERT_MEDIUM | ALERT_LOW

fun severity_text :: "severity \<Rightarrow> string" where
  "severity_text ALERT_CRITICAL = ''critical''"
| "severity_text ALERT_HIGH = ''high''"
| "severity_text ALERT_MEDIUM = ''medium''"
| "severity_text ALERT_LOW = ''low''"

record fs_alert =
  al_Severity :: string
  al_Alert :: string

text \<open>What the module has sent and which paths fsnotify watches for it.\<close>

record fs_io =
  io_Alerts :: "fs_alert list"
  io_Log :: "string list"
  io_Watched :: "string list"

definition newAlert :: "severity \<Rightarrow> string \<Rightarrow> fs_io \<Rightarrow> fs_io" where
  "newAlert sev msg io = io\<lparr>io_Alerts := io_Alerts io @ [\<lparr>al_Severity = severity_text sev, al_Alert = msg\<rparr>]\<rparr>"

definition fs_log :: "string \<Rightarrow> fs_io \<Rightarrow> fs_io" where
  "fs_log msg io = io\<lparr>io_Log := io_Log io @ [msg]\<rparr>"

definition addMonitor :: "string \<Rightarrow> fs_io \<Rightarrow> fs_io" where
  "addMonitor p io = io\<lparr>io_Watched := (if p \<in> set (io_Watched io) then io_Watched io else io_Watched io @ [p])\<rparr>"

definition removeMonitor :: "string \<Rightarrow> fs_io \<Rightarrow> fs_io" where
  "removeMonitor p io = io\<lparr>io_Watched := filter (\<lambda>q. q \<noteq> p) (io_Watched io)\<rparr>"

text \<open>\<open>%x\<close> of bytes.\<close>

definition hex_low :: "nat \<Rightarrow> char" where
  "hex_low d = (if d < 10 then char_of (48 + d) else char_of (87 + d))"

definition fmt_x :: "string \<Rightarrow> string" where
  "fmt_x bs = concat (map (\<lambda>c. [hex_low (byte c div 16), hex_low (byte c mod 16)]) bs)"

section \<open>The file system and hashing\<close>

datatype file_kind = Regular | Directory | OtherKind

text \<open>What reading a file gives: pieces until the end or an error.\<close>

datatype read_item = Piece string | ReadFailed

record fs_env =
  fe_Stat :: "string \<Rightarrow> file_kind result"
  fe_Walk :: "string \<Rightarrow> (string \<times> file_kind result) list"
  fe_ReadDir :: "string \<Rightarrow> (string \<times> file_kind) list"
  fe_Open :: "string \<Rightarrow> read_item list result"
  fe_sha256 :: "string \<Rightarrow> string"

fun read_all :: "read_item list \<Rightarrow> string option" where
  "read_all [] = Some []"
| "read_all (Piece s # its) = map_option ((@) s) (read_all its)"
| "read_all (ReadFailed # its) = None"

definition respond :: "fs_env \<Rightarrow> string \<Rightarrow> string" where
  "respond env p =
     (case fe_Open env p of
        Inl _ \<Rightarrow> []
      | Inr its \<Rightarrow> (case read_all its of None \<Rightarrow> [] | Some s \<Rightarrow> fe_sha256 env s))"

text \<open>
  The throttle: a request within a second of the last one makes the pause longer by five milliseconds, up to
  fifty. The state is the time of the last hash and \<open>tindex\<close>.
\<close>

definition throttle :: "time \<Rightarrow> time \<Rightarrow> int \<Rightarrow> int \<times> duration" where
  "throttle now lasthash tindex =
     (if now - lasthash < second
      then (let t = (if tindex < 10 then tindex + 1 else tindex) in (t, t * 5000000))
      else (1, 0))"

section \<open>Objects and entries\<close>

datatype objtype = TYPE_FILE | TYPE_DIRECTORY

record object =
  ob_path :: string
  ob_objtype :: objtype
  ob_monitored :: bool
  ob_previous :: string
  ob_current :: string
  ob_lastAlert :: time

definition new_object :: "string \<Rightarrow> objtype \<Rightarrow> bool \<Rightarrow> object" where
  "new_object p t m = \<lparr>ob_path = p, ob_objtype = t, ob_monitored = m, ob_previous = [], ob_current = [],
     ob_lastAlert = zero_time\<rparr>"

text \<open>The operations of fsnotify are bits.\<close>

type_synonym fs_op = "32 word"

definition op_Create :: fs_op where "op_Create = 1"
definition op_Write :: fs_op where "op_Write = 2"
definition op_Remove :: fs_op where "op_Remove = 4"

record fs_event =
  ev_Name :: string
  ev_Op :: fs_op

text \<open>
  An entry. \<open>pe_Events\<close> tells whether its channel is open; \<open>pe_Event\<close> is the event its handler has taken,
  \<open>pe_Stopped\<close> that the handler has returned with an error, \<open>pe_Hashing\<close> the requests under way; \<open>pe_Starting\<close>
  counts the goroutines of the initial records that are still to run, and \<open>pe_Lost\<close> tells that one waits for the path.
\<close>

record profile_entry =
  pe_path :: string
  pe_recursive :: bool
  pe_Events :: bool
  pe_objects :: "object list"
  pe_Event :: "fs_event option"
  pe_Stopped :: bool
  pe_Hashing :: "string list"
  pe_Starting :: nat
  pe_Lost :: bool

definition hasObject :: "profile_entry \<Rightarrow> string \<Rightarrow> bool" where
  "hasObject pe p \<longleftrightarrow> list_ex (\<lambda>x. ob_path x = p) (pe_objects pe)"

type_synonym entry_io = "profile_entry \<times> fs_io"

definition addObject :: "string \<Rightarrow> objtype \<Rightarrow> entry_io \<Rightarrow> entry_io \<times> unit result" where
  "addObject p t st =
     (case st of (pe, io) \<Rightarrow>
        if hasObject pe p then (st, Inl (Errorf ''object for path %v already exists'' [AStr p]))
        else ((pe\<lparr>pe_objects := pe_objects pe @ [new_object p t True]\<rparr>,
               addMonitor p (fs_log (''adding monitoring for object '' @ p) io)), Inr ()))"

fun drop_object :: "string \<Rightarrow> object list \<Rightarrow> object list" where
  "drop_object p [] = []"
| "drop_object p (x # xs) = (if ob_path x = p then xs else x # drop_object p xs)"

definition removeObject :: "string \<Rightarrow> entry_io \<Rightarrow> entry_io" where
  "removeObject p st =
     (case st of (pe, io) \<Rightarrow>
        let monitored = (case find (\<lambda>x. ob_path x = p) (pe_objects pe) of None \<Rightarrow> False | Some x \<Rightarrow> ob_monitored x);
            pe = pe\<lparr>pe_objects := drop_object p (pe_objects pe)\<rparr>
        in if \<not> monitored then (pe, io)
           else (let io = removeMonitor p (fs_log (''removing monitoring for object '' @ p) io)
                 in if pe_objects pe = []
                    then (pe\<lparr>pe_Events := False, pe_Lost := True\<rparr>,
                          fs_log (''last object in '' @ pe_path pe @ '' removed, periodically checking for existence'') io)
                    else (pe, io)))"

section \<open>Hashes\<close>

definition alertSuppressWindow :: duration where "alertSuppressWindow = 15 * minute"

definition object_alert :: "time \<Rightarrow> object \<Rightarrow> fs_io \<Rightarrow> object \<times> fs_io" where
  "object_alert now x io =
     (if ob_lastAlert x \<noteq> zero_time \<and> now - ob_lastAlert x \<le> alertSuppressWindow then (x, io)
      else (x\<lparr>ob_lastAlert := now\<rparr>,
            newAlert ALERT_CRITICAL
              (ob_path x @ '' signature changed '' @ fmt_x (ob_previous x) @ '' -> '' @ fmt_x (ob_current x)) io))"

fun update_objects :: "time \<Rightarrow> string \<Rightarrow> string \<Rightarrow> object list \<Rightarrow> fs_io \<Rightarrow> (object list \<times> fs_io) option" where
  "update_objects now p newh [] io = None"
| "update_objects now p newh (x # xs) io =
     (if ob_path x = p
      then (let x = x\<lparr>ob_previous := ob_current x, ob_current := newh\<rparr>
            in if ob_previous x = [] \<or> ob_previous x = ob_current x then Some (x # xs, io)
               else (case object_alert now x io of (x, io) \<Rightarrow> Some (x # xs, io)))
      else (case update_objects now p newh xs io of None \<Rightarrow> None | Some (xs, io) \<Rightarrow> Some (x # xs, io)))"

definition updateObjectHash :: "time \<Rightarrow> string \<Rightarrow> string \<Rightarrow> entry_io \<Rightarrow> entry_io" where
  "updateObjectHash now p newh st =
     (case st of (pe, io) \<Rightarrow>
        (case update_objects now p newh (pe_objects pe) io of
           None \<Rightarrow> (pe, fs_log (''warning: received hash reply for untracked object '' @ p) io)
         | Some (xs, io) \<Rightarrow> (pe\<lparr>pe_objects := xs\<rparr>, io)))"

section \<open>Starting an entry\<close>

fun addObjects :: "objtype \<Rightarrow> string list \<Rightarrow> entry_io \<Rightarrow> entry_io \<times> unit result" where
  "addObjects t [] st = (st, Inr ())"
| "addObjects t (p # ps) st =
     (case addObject p t st of
        (st, Inl e) \<Rightarrow> (st, Inl e)
      | (st, Inr _) \<Rightarrow> addObjects t ps st)"

text \<open>The function passed to \<open>filepath.Walk\<close> keeps the directories and goes on after any error.\<close>

definition processDirectory :: "fs_env \<Rightarrow> entry_io \<Rightarrow> entry_io \<times> unit result" where
  "processDirectory env st =
     addObjects TYPE_DIRECTORY (map fst (filter (\<lambda>(p, k). k = Inr Directory) (fe_Walk env (pe_path (fst st))))) st"

definition start_objects :: "fs_env \<Rightarrow> entry_io \<Rightarrow> entry_io \<times> unit result" where
  "start_objects env st =
     (let p = pe_path (fst st)
      in case fe_Stat env p of
           Inl e \<Rightarrow> (st, Inl e)
         | Inr Regular \<Rightarrow> addObject p TYPE_FILE st
         | Inr Directory \<Rightarrow> if pe_recursive (fst st) then processDirectory env st else addObject p TYPE_DIRECTORY st
         | Inr OtherKind \<Rightarrow> (st, Inl (Errorf ''file type of entry path %v cannot be monitored'' [AStr p])))"

definition entry_initialize :: "fs_env \<Rightarrow> entry_io \<Rightarrow> entry_io \<times> unit result" where
  "entry_initialize env st =
     (case start_objects env ((fst st)\<lparr>pe_Events := True\<rparr>, snd st) of
        (st, Inl e) \<Rightarrow> (st, Inl e)
      | ((pe, io), Inr _) \<Rightarrow> ((pe\<lparr>pe_Starting := Suc (pe_Starting pe), pe_Event := None, pe_Stopped := False\<rparr>, io), Inr ()))"

text \<open>
  The initial records: a hash of each watched file and of the regular files of each watched directory, which
  become objects without a watch of their own.
\<close>

fun record_files :: "fs_env \<Rightarrow> time \<Rightarrow> string list \<Rightarrow> entry_io \<Rightarrow> entry_io" where
  "record_files env now [] st = st"
| "record_files env now (p # ps) st =
     (case st of (pe, io) \<Rightarrow>
        record_files env now ps
          (updateObjectHash now p (respond env p) (pe\<lparr>pe_objects := pe_objects pe @ [new_object p TYPE_FILE False]\<rparr>, io)))"

fun record_objects :: "fs_env \<Rightarrow> time \<Rightarrow> object list \<Rightarrow> entry_io \<Rightarrow> entry_io" where
  "record_objects env now [] st = st"
| "record_objects env now (x # xs) st =
     record_objects env now xs
       (if ob_objtype x = TYPE_FILE then updateObjectHash now (ob_path x) (respond env (ob_path x)) st
        else record_files env now
               (map (\<lambda>(n, k). path_Join (ob_path x) n) (filter (\<lambda>(n, k). k = Regular) (fe_ReadDir env (ob_path x)))) st)"

definition initial_records :: "fs_env \<Rightarrow> time \<Rightarrow> entry_io \<Rightarrow> entry_io" where
  "initial_records env now st =
     (case st of (pe, io) \<Rightarrow> record_objects env now (pe_objects pe) (pe\<lparr>pe_Starting := pe_Starting pe - 1\<rparr>, io))"

section \<open>Events\<close>

text \<open>The first part of \<open>handleEvent\<close>: what happens to the objects, and whether the function goes on.\<close>

definition handle_objects :: "fs_env \<Rightarrow> fs_event \<Rightarrow> entry_io \<Rightarrow> entry_io \<times> bool result" where
  "handle_objects env ev st =
     (case st of (pe, io) \<Rightarrow>
        if ev_Op ev = op_Create \<and> pe_recursive pe
        then (case fe_Stat env (ev_Name ev) of
                Inl _ \<Rightarrow> ((pe, newAlert ALERT_MEDIUM (''unable to stat new path '' @ ev_Name ev) io), Inr False)
              | Inr Directory \<Rightarrow> map_prod id (map_sum id (\<lambda>_. False)) (addObject (ev_Name ev) TYPE_DIRECTORY st)
              | Inr Regular \<Rightarrow>
                  ((pe\<lparr>pe_objects := pe_objects pe @ [new_object (ev_Name ev) TYPE_FILE False]\<rparr>, io), Inr True)
              | Inr OtherKind \<Rightarrow> (st, Inr True))
        else if ev_Op ev = op_Remove \<and> hasObject pe (ev_Name ev)
        then (removeObject (ev_Name ev) (pe, newAlert ALERT_LOW (''path '' @ ev_Name ev @ '' removed'') io), Inr False)
        else (st, Inr True))"

definition handleEvent :: "fs_env \<Rightarrow> fs_event \<Rightarrow> entry_io \<Rightarrow> entry_io \<times> unit result" where
  "handleEvent env ev st =
     (case handle_objects env ev st of
        (st, Inl e) \<Rightarrow> (st, Inl e)
      | (st, Inr False) \<Rightarrow> (st, Inr ())
      | ((pe, io), Inr True) \<Rightarrow>
          (if ev_Op ev = op_Create \<or> ev_Op ev = op_Write
           then (pe\<lparr>pe_Hashing := pe_Hashing pe @ [ev_Name ev]\<rparr>, io) else (pe, io), Inr ()))"

section \<open>The module\<close>

text \<open>
  The router: it waits for an event of fsnotify, looks at the entries in turn - for the name of the event, then for its
  directory -, has found an entry, waits at the channel of that entry, or waits for ever at a channel that is nil. A channel
  that is closed under it is a panic, which ends the module.
\<close>

datatype router = RIdle | RScan bool nat fs_event | RFound nat fs_event | RSend nat fs_event | RNil | RPanic

record fs_world =
  fw_Entries :: "profile_entry list"
  fw_Router :: router
  fw_IO :: fs_io
  fw_Errors :: "go_error list"
  fw_Now :: time

definition ready :: "profile_entry \<Rightarrow> bool" where
  "ready pe \<longleftrightarrow> pe_Events pe \<and> \<not> pe_Stopped pe \<and> pe_Event pe = None"

definition scan_name :: "bool \<Rightarrow> fs_event \<Rightarrow> string" where
  "scan_name up ev = (if up then path_Dir (ev_Name ev) else ev_Name ev)"

definition unhandled :: "fs_event \<Rightarrow> fs_io \<Rightarrow> fs_io" where
  "unhandled ev = newAlert ALERT_HIGH (''unhandled notification for '' @ ev_Name ev)"

text \<open>
  One step of the router. The channel of an entry has no buffer: the router waits until the handler takes the event.
\<close>

definition router_step :: "fs_world \<Rightarrow> fs_world option" where
  "router_step w =
     (case fw_Router w of
        RScan up i ev \<Rightarrow>
          Some (if i < length (fw_Entries w)
                then w\<lparr>fw_Router := (if hasObject (fw_Entries w ! i) (scan_name up ev) then RFound i ev else RScan up (Suc i) ev)\<rparr>
                else if \<not> up then w\<lparr>fw_Router := RScan True 0 ev\<rparr>
                else w\<lparr>fw_Router := RIdle, fw_IO := unhandled ev (fw_IO w)\<rparr>)
      | RFound i ev \<Rightarrow> Some (w\<lparr>fw_Router := (if pe_Events (fw_Entries w ! i) then RSend i ev else RNil)\<rparr>)
      | RSend i ev \<Rightarrow>
          if ready (fw_Entries w ! i)
          then Some (w\<lparr>fw_Router := RIdle, fw_Entries := (fw_Entries w)[i := (fw_Entries w ! i)\<lparr>pe_Event := Some ev\<rparr>]\<rparr>)
          else None
      | _ \<Rightarrow> None)"

text \<open>What the router does with an event when no other goroutine runs in between.\<close>

fun entry_of :: "string \<Rightarrow> profile_entry list \<Rightarrow> nat option" where
  "entry_of p [] = None"
| "entry_of p (pe # pes) = (if hasObject pe p then Some 0 else map_option Suc (entry_of p pes))"

definition route_target :: "fs_event \<Rightarrow> profile_entry list \<Rightarrow> nat option" where
  "route_target ev pes =
     (case entry_of (ev_Name ev) pes of
        Some i \<Rightarrow> Some i
      | None \<Rightarrow> entry_of (path_Dir (ev_Name ev)) pes)"

definition routeEvent :: "fs_event \<Rightarrow> fs_world \<Rightarrow> fs_world option" where
  "routeEvent ev w =
     (case route_target ev (fw_Entries w) of
        None \<Rightarrow> Some (w\<lparr>fw_IO := unhandled ev (fw_IO w)\<rparr>)
      | Some i \<Rightarrow>
          if ready (fw_Entries w ! i)
          then Some (w\<lparr>fw_Entries := (fw_Entries w)[i := (fw_Entries w ! i)\<lparr>pe_Event := Some ev\<rparr>]\<rparr>)
          else None)"

text \<open>What a goroutine of an entry leaves; its error goes to \<open>handlerErrChan\<close>.\<close>

definition put_entry :: "nat \<Rightarrow> entry_io \<Rightarrow> fs_world \<Rightarrow> fs_world" where
  "put_entry i st w = w\<lparr>fw_Entries := (fw_Entries w)[i := fst st], fw_IO := snd st\<rparr>"

text \<open>Closing a channel is a panic of the router that waits to send on it.\<close>

definition wake_sender :: "nat \<Rightarrow> fs_world \<Rightarrow> fs_world" where
  "wake_sender i w =
     (case fw_Router w of
        RSend j ev \<Rightarrow> if j = i \<and> \<not> pe_Events (fw_Entries w ! i) then w\<lparr>fw_Router := RPanic\<rparr> else w
      | _ \<Rightarrow> w)"

definition handle_step :: "fs_env \<Rightarrow> nat \<Rightarrow> fs_world \<Rightarrow> fs_world option" where
  "handle_step env i w =
     (let pe = fw_Entries w ! i
      in if pe_Stopped pe then None
         else (case pe_Event pe of
                 None \<Rightarrow> None
               | Some ev \<Rightarrow>
                   (case handleEvent env ev (pe\<lparr>pe_Event := None\<rparr>, fw_IO w) of
                      ((pe, io), Inl e) \<Rightarrow>
                        Some (wake_sender i ((put_entry i (pe\<lparr>pe_Stopped := True\<rparr>, io) w)\<lparr>fw_Errors := fw_Errors w @ [e]\<rparr>))
                    | (st, Inr _) \<Rightarrow> Some (wake_sender i (put_entry i st w)))))"

definition reply_step :: "fs_env \<Rightarrow> nat \<Rightarrow> nat \<Rightarrow> fs_world \<Rightarrow> fs_world option" where
  "reply_step env i k w =
     (let pe = fw_Entries w ! i
      in if k < length (pe_Hashing pe)
         then (let p = pe_Hashing pe ! k
               in Some (put_entry i (updateObjectHash (fw_Now w) p (respond env p)
                    (pe\<lparr>pe_Hashing := take k (pe_Hashing pe) @ drop (Suc k) (pe_Hashing pe)\<rparr>, fw_IO w)) w))
         else None)"

definition records_step :: "fs_env \<Rightarrow> nat \<Rightarrow> fs_world \<Rightarrow> fs_world option" where
  "records_step env i w =
     (if 0 < pe_Starting (fw_Entries w ! i) then Some (put_entry i (initial_records env (fw_Now w) (fw_Entries w ! i, fw_IO w)) w)
      else None)"

text \<open>One look of the goroutine that waits for a lost path.\<close>

definition recreate_step :: "fs_env \<Rightarrow> nat \<Rightarrow> fs_world \<Rightarrow> fs_world option" where
  "recreate_step env i w =
     (let pe = fw_Entries w ! i
      in if pe_Lost pe \<and> is_ok (fe_Stat env (pe_path pe))
         then (case entry_initialize env (pe\<lparr>pe_Lost := False\<rparr>, fw_IO w) of
                 (st, Inl e) \<Rightarrow> Some ((put_entry i st w)\<lparr>fw_Errors := fw_Errors w @ [e]\<rparr>)
               | (st, Inr _) \<Rightarrow> Some (put_entry i st w))
         else None)"

text \<open>The module runs until its first error, when \<open>DefaultPersistHandlers\<close> ends it, or until it panics.\<close>

definition fs_running :: "fs_world \<Rightarrow> bool" where
  "fs_running w \<longleftrightarrow> fw_Errors w = [] \<and> fw_Router w \<noteq> RPanic"

inductive fs_step :: "fs_world \<Rightarrow> fs_world \<Rightarrow> bool" where
  fs_event: "fs_running w \<Longrightarrow> fw_Router w = RIdle \<Longrightarrow> fs_step w (w\<lparr>fw_Router := RScan False 0 ev\<rparr>)"
| fs_failed: "fs_running w \<Longrightarrow> fw_Router w = RIdle \<Longrightarrow> fs_step w (w\<lparr>fw_Errors := [e]\<rparr>)"
| fs_router: "fs_running w \<Longrightarrow> router_step w = Some w' \<Longrightarrow> fs_step w w'"
| fs_handle: "fs_running w \<Longrightarrow> i < length (fw_Entries w) \<Longrightarrow> handle_step env i w = Some w' \<Longrightarrow> fs_step w w'"
| fs_reply: "fs_running w \<Longrightarrow> i < length (fw_Entries w) \<Longrightarrow> reply_step env i k w = Some w' \<Longrightarrow> fs_step w w'"
| fs_records: "fs_running w \<Longrightarrow> i < length (fw_Entries w) \<Longrightarrow> records_step env i w = Some w' \<Longrightarrow> fs_step w w'"
| fs_recreate: "fs_running w \<Longrightarrow> i < length (fw_Entries w) \<Longrightarrow> recreate_step env i w = Some w' \<Longrightarrow> fs_step w w'"
| fs_tick: "fs_running w \<Longrightarrow> 0 \<le> d \<Longrightarrow> fs_step w (w\<lparr>fw_Now := fw_Now w + d\<rparr>)"

text \<open>The profile of a configuration, or the one for Linux.\<close>

definition new_entry :: "string \<Rightarrow> bool \<Rightarrow> profile_entry" where
  "new_entry p r = \<lparr>pe_path = p, pe_recursive = r, pe_Events = False, pe_objects = [], pe_Event = None,
     pe_Stopped = False, pe_Hashing = [], pe_Starting = 0, pe_Lost = False\<rparr>"

definition localFsWatchProfile :: "profile_entry list" where
  "localFsWatchProfile =
     [new_entry ''/boot'' False, new_entry ''/etc/cron.d'' False, new_entry ''/var/spool/cron'' False, new_entry ''/bin'' False,
      new_entry ''/sbin'' False, new_entry ''/usr/bin'' False, new_entry ''/usr/sbin'' False, new_entry ''/etc'' True,
      new_entry ''/etc/init.d'' False, new_entry ''/etc/systemd'' True]"

definition config_entry :: "string \<Rightarrow> profile_entry" where
  "config_entry x = (if prefix ''recursive:'' x then new_entry (drop 10 x) True else new_entry x False)"

fun profile_initialize :: "fs_env \<Rightarrow> profile_entry list \<Rightarrow> fs_io \<Rightarrow> profile_entry list \<times> fs_io \<times> unit result" where
  "profile_initialize env [] io = ([], io, Inr ())"
| "profile_initialize env (pe # pes) io =
     (case entry_initialize env (pe, io) of
        ((pe, io), Inl e) \<Rightarrow> (pe # pes, io, Inl e)
      | ((pe, io), Inr _) \<Rightarrow> (case profile_initialize env pes io of (pes, io, r) \<Rightarrow> (pe # pes, io, r)))"

definition fsWatch :: "fs_env \<Rightarrow> time \<Rightarrow> string list \<Rightarrow> fs_world" where
  "fsWatch env now paths =
     (case profile_initialize env (if paths = [] then localFsWatchProfile else map config_entry paths)
             \<lparr>io_Alerts = [], io_Log = [], io_Watched = []\<rparr> of
        (pes, io, r) \<Rightarrow> \<lparr>fw_Entries = pes, fw_Router = RIdle, fw_IO = io, fw_Errors = (case r of Inl e \<Rightarrow> [e] | Inr _ \<Rightarrow> []), fw_Now = now\<rparr>)"

end
