(* ===== verification/FswatchProps.thy ===== *)
theory FswatchProps
  imports Fswatch
begin

text \<open>
  Properties of the fswatch module: the alerts for changed files against a specification on a map from paths
  to signatures, the invariant of the entries along every run, the router, and what is never reported.
\<close>

section \<open>Alerts for changed files\<close>

text \<open>
  The specification: for each path its last signature and when it was last reported. A change is reported
  unless the path was reported within the window.
\<close>

type_synonym signatures = "string \<Rightarrow> (string \<times> time) option"

definition spec_update :: "time \<Rightarrow> string \<Rightarrow> string \<Rightarrow> signatures \<Rightarrow> signatures \<times> (time \<times> string \<times> string \<times> string) list" where
  "spec_update now p h m =
     (case m p of
        None \<Rightarrow> (m, [])
      | Some (sig, reported) \<Rightarrow>
          if sig \<noteq> [] \<and> sig \<noteq> h \<and> (reported = zero_time \<or> alertSuppressWindow < now - reported)
          then (m(p \<mapsto> (h, now)), [(now, p, sig, h)]) else (m(p \<mapsto> (h, reported)), []))"

fun spec_updates :: "(time \<times> string \<times> string) list \<Rightarrow> signatures \<Rightarrow> signatures \<times> (time \<times> string \<times> string \<times> string) list" where
  "spec_updates [] m = (m, [])"
| "spec_updates ((now, p, h) # us) m =
     (case spec_update now p h m of (m, l) \<Rightarrow> (case spec_updates us m of (m, l') \<Rightarrow> (m, l @ l')))"

definition signature_alert :: "time \<times> string \<times> string \<times> string \<Rightarrow> fs_alert" where
  "signature_alert = (\<lambda>(now, p, old, new). \<lparr>al_Severity = ''critical'',
     al_Alert = p @ '' signature changed '' @ fmt_x old @ '' -> '' @ fmt_x new\<rparr>)"

definition signatures_of :: "object list \<Rightarrow> signatures" where
  "signatures_of xs p = map_option (\<lambda>x. (ob_current x, ob_lastAlert x)) (find (\<lambda>x. ob_path x = p) xs)"

fun hash_updates :: "(time \<times> string \<times> string) list \<Rightarrow> entry_io \<Rightarrow> entry_io" where
  "hash_updates [] st = st"
| "hash_updates ((now, p, h) # us) st = hash_updates us (updateObjectHash now p h st)"

lemma signatures_of_simps [simp]:
  "signatures_of [] = (\<lambda>p. None)"
  "signatures_of (x # xs) = (signatures_of xs)(ob_path x \<mapsto> (ob_current x, ob_lastAlert x))"
  by (auto simp: signatures_of_def fun_eq_iff)

lemma update_objects_None: "update_objects now p h xs io = None \<longleftrightarrow> signatures_of xs p = None"
  by (induction xs) (auto simp: Let_def split: option.splits prod.splits)

lemma spec_update_other:
  "q \<noteq> p \<Longrightarrow> spec_update now p h (m(q \<mapsto> v)) = map_prod (\<lambda>m. m(q \<mapsto> v)) id (spec_update now p h m)"
  by (cases "m p") (auto simp: spec_update_def fun_upd_twist)

lemma update_objects_Some:
  assumes "update_objects now p h xs io = Some (xs', io')"
  shows "io' = io\<lparr>io_Alerts := io_Alerts io @ map signature_alert (snd (spec_update now p h (signatures_of xs)))\<rparr> \<and>
    signatures_of xs' = fst (spec_update now p h (signatures_of xs)) \<and>
    map ob_path xs' = map ob_path xs \<and> map ob_monitored xs' = map ob_monitored xs"
  using assms
proof (induction xs arbitrary: xs')
  case Nil
  then show ?case by simp
next
  case (Cons x xs)
  show ?case
  proof (cases "ob_path x = p")
    case True
    with Cons.prems show ?thesis
      by (cases "ob_lastAlert x = zero_time \<or> alertSuppressWindow < now - ob_lastAlert x")
        (auto simp: spec_update_def object_alert_def newAlert_def signature_alert_def Let_def severity_text.simps
          split: if_splits)
  next
    case False
    with Cons.prems obtain ys where ys: "update_objects now p h xs io = Some (ys, io')" "xs' = x # ys"
      by (auto split: option.splits)
    have "spec_update now p h (signatures_of (x # xs)) =
        map_prod (\<lambda>m. m(ob_path x \<mapsto> (ob_current x, ob_lastAlert x))) id (spec_update now p h (signatures_of xs))"
      unfolding signatures_of_simps(2) using False by (rule spec_update_other)
    with Cons.IH [OF ys(1)] show ?thesis by (simp add: ys(2) del: fun_upd_apply)
  qed
qed

lemma updateObjectHash_spec:
  obtains pe' io' where "updateObjectHash now p h (pe, io) = (pe', io')"
    and "io_Alerts io' = io_Alerts io @ map signature_alert (snd (spec_update now p h (signatures_of (pe_objects pe))))"
    and "io_Watched io' = io_Watched io"
    and "signatures_of (pe_objects pe') = fst (spec_update now p h (signatures_of (pe_objects pe)))"
    and "map ob_path (pe_objects pe') = map ob_path (pe_objects pe)"
    and "map ob_monitored (pe_objects pe') = map ob_monitored (pe_objects pe)"
    and "pe' = pe\<lparr>pe_objects := pe_objects pe'\<rparr>"
proof (cases "update_objects now p h (pe_objects pe) io")
  case None
  moreover from this have "signatures_of (pe_objects pe) p = None" by (simp add: update_objects_None)
  ultimately show thesis
    by (intro that [of pe "fs_log (''warning: received hash reply for untracked object '' @ p) io"])
      (simp_all add: updateObjectHash_def fs_log_def spec_update_def)
next
  case (Some r)
  then obtain xs io' where r: "update_objects now p h (pe_objects pe) io = Some (xs, io')" by (cases r) auto
  from update_objects_Some [OF r] r show thesis
    by (intro that [of "pe\<lparr>pe_objects := xs\<rparr>" io']) (simp_all add: updateObjectHash_def)
qed

text \<open>
  C34. The alerts for changed files refine the map from paths to signatures: for every sequence of hash
  replies an entry sends exactly the alerts of the specification and keeps its signatures.
\<close>

theorem alerts_refine_signatures:
  "io_Alerts (snd (hash_updates us st)) =
     io_Alerts (snd st) @ map signature_alert (snd (spec_updates us (signatures_of (pe_objects (fst st))))) \<and>
   signatures_of (pe_objects (fst (hash_updates us st))) = fst (spec_updates us (signatures_of (pe_objects (fst st))))"
proof (induction us arbitrary: st)
  case Nil
  then show ?case by simp
next
  case (Cons u us)
  obtain now p h where u: "u = (now, p, h)" by (cases u) auto
  obtain pe io where st: "st = (pe, io)" by (cases st)
  obtain pe' io' where st': "updateObjectHash now p h (pe, io) = (pe', io')"
    "io_Alerts io' = io_Alerts io @ map signature_alert (snd (spec_update now p h (signatures_of (pe_objects pe))))"
    "signatures_of (pe_objects pe') = fst (spec_update now p h (signatures_of (pe_objects pe)))"
    by (rule updateObjectHash_spec)
  from Cons.IH [of "(pe', io')"] st'(2,3) show ?case
    by (simp add: u st st'(1) split: prod.split)
qed


lemma spec_updates_log:
  assumes "spec_updates us m = (m', l)" and "\<forall>(t, q, h)\<in>set us. t \<noteq> zero_time"
  shows "sorted_wrt (\<lambda>(t, p, _, _) (t', q, _, _). p = q \<longrightarrow> alertSuppressWindow < t' - t) l \<and>
    (\<forall>(t, p, old, new)\<in>set l. old \<noteq> [] \<and> old \<noteq> new \<and> (t, p, new) \<in> set us \<and>
      (\<forall>sig r. m p = Some (sig, r) \<and> r \<noteq> zero_time \<longrightarrow> alertSuppressWindow < t - r))"
  using assms
proof (induction us arbitrary: m l)
  case Nil
  then show ?case by simp
next
  case (Cons u us)
  obtain now p h where u: "u = (now, p, h)" by (cases u) auto
  obtain m1 l1 where 1: "spec_update now p h m = (m1, l1)" by (cases "spec_update now p h m")
  obtain l2 where 2: "spec_updates us m1 = (m', l2)" "l = l1 @ l2"
    using Cons.prems(1) by (auto simp: u 1 split: prod.splits)
  have now: "now \<noteq> zero_time" "\<forall>(t, q, h)\<in>set us. t \<noteq> zero_time" using Cons.prems(2) by (auto simp: u)
  note IH = Cons.IH [OF 2(1) now(2)]
  have w: "0 < alertSuppressWindow" by (simp add: alertSuppressWindow_def)
  show ?case
  proof (cases "m p")
    case None
    with 1 have "m1 = m" "l1 = []" by (auto simp: spec_update_def)
    with IH 2(2) show ?thesis by (fastforce simp: u)
  next
    case (Some v)
    obtain sig r where v: "v = (sig, r)" by (cases v)
    show ?thesis
    proof (cases "sig \<noteq> [] \<and> sig \<noteq> h \<and> (r = zero_time \<or> alertSuppressWindow < now - r)")
      case True
      with 1 Some v have m1: "m1 = m(p \<mapsto> (h, now))" "l1 = [(now, p, sig, h)]" by (auto simp: spec_update_def)
      from IH have later: "alertSuppressWindow < t - now" if "(t, p, old, new) \<in> set l2" for t old new
        using that now(1) by (fastforce simp: m1)
      have other: "alertSuppressWindow < t - r'" if "(t, q, old, new) \<in> set l2" "q \<noteq> p" "m q = Some (s, r')" "r' \<noteq> zero_time"
        for t q old new s r'
        using IH that by (fastforce simp: m1)
      show ?thesis using IH True later other w Some v by (fastforce simp: m1 2(2) u)
    next
      case False
      with 1 Some v have m1: "m1 = m(p \<mapsto> (h, r))" "l1 = []" by (auto simp: spec_update_def)
      from IH Some v show ?thesis by (fastforce simp: m1 2(2) u split: if_splits)
    qed
  qed
qed

text \<open>
  No file is reported as changed twice within a quarter of an hour, and each report shows two different
  signatures, the new one from a hash of that file.
\<close>

theorem alerts_spaced:
  assumes "\<forall>(t, q, h)\<in>set us. t \<noteq> zero_time"
  shows "\<exists>log. io_Alerts (snd (hash_updates us st)) = io_Alerts (snd st) @ map signature_alert log \<and>
    sorted_wrt (\<lambda>(t, p, _, _) (t', q, _, _). p = q \<longrightarrow> alertSuppressWindow < t' - t) log \<and>
    (\<forall>(t, p, old, new)\<in>set log. old \<noteq> [] \<and> old \<noteq> new \<and> (t, p, new) \<in> set us)"
proof -
  obtain m l where l: "spec_updates us (signatures_of (pe_objects (fst st))) = (m, l)" by fastforce
  from spec_updates_log [OF l assms] alerts_refine_signatures [of us st] show ?thesis
    by (intro exI [of _ l]) (auto simp: l)
qed

section \<open>The entries along a run\<close>

definition watched_once :: "object list \<Rightarrow> bool" where
  "watched_once xs \<longleftrightarrow> distinct (map ob_path (filter ob_monitored xs))"

text \<open>
  No path is watched twice for an entry; an entry with objects has an open channel, one that waits for its path
  has none; an event is taken only from an open channel.
\<close>

definition entry_sound :: "profile_entry \<Rightarrow> bool" where
  "entry_sound pe \<longleftrightarrow> watched_once (pe_objects pe) \<and> (pe_objects pe \<noteq> [] \<longrightarrow> pe_Events pe) \<and>
     (pe_Lost pe \<longrightarrow> pe_objects pe = [] \<and> \<not> pe_Events pe) \<and> (pe_Event pe \<noteq> None \<longrightarrow> pe_Events pe)"

definition entries_sound :: "fs_world \<Rightarrow> bool" where
  "entries_sound w \<longleftrightarrow> (\<forall>pe\<in>set (fw_Entries w). entry_sound pe \<and> (pe_Stopped pe \<longrightarrow> fw_Errors w \<noteq> []))"

text \<open>The router has found an entry of the profile, and the channel at which it waits is open.\<close>

definition router_sound :: "fs_world \<Rightarrow> bool" where
  "router_sound w \<longleftrightarrow>
     (case fw_Router w of
        RFound i ev \<Rightarrow> i < length (fw_Entries w)
      | RSend i ev \<Rightarrow> i < length (fw_Entries w) \<and> pe_Events (fw_Entries w ! i)
      | _ \<Rightarrow> True)"

definition world_sound :: "fs_world \<Rightarrow> bool" where
  "world_sound w \<longleftrightarrow> entries_sound w \<and> router_sound w"

text \<open>What every step keeps: the paths of the entries, the alerts sent so far, the order of time.\<close>

definition world_grows :: "fs_world \<Rightarrow> fs_world \<Rightarrow> bool" where
  "world_grows w w' \<longleftrightarrow> map pe_path (fw_Entries w') = map pe_path (fw_Entries w) \<and>
     prefix (io_Alerts (fw_IO w)) (io_Alerts (fw_IO w')) \<and> fw_Now w \<le> fw_Now w'"

text \<open>An operation of an entry keeps it sound, keeps its identity, and only adds alerts.\<close>

definition entry_kept :: "entry_io \<Rightarrow> entry_io \<Rightarrow> bool" where
  "entry_kept st st' \<longleftrightarrow> pe_path (fst st') = pe_path (fst st) \<and> prefix (io_Alerts (snd st)) (io_Alerts (snd st')) \<and>
     pe_Stopped (fst st') = pe_Stopped (fst st) \<and> pe_Event (fst st') = pe_Event (fst st)"

lemma entry_kept_refl [simp]: "entry_kept st st"
  by (simp add: entry_kept_def)

lemma entry_kept_trans: "entry_kept st st' \<Longrightarrow> entry_kept st' st'' \<Longrightarrow> entry_kept st st''"
  by (auto simp: entry_kept_def intro: prefix_order.trans)

lemma watched_once_add: "watched_once xs \<Longrightarrow> ob_monitored x \<Longrightarrow> (\<forall>y\<in>set xs. ob_path y \<noteq> ob_path x) \<Longrightarrow> watched_once (xs @ [x])"
  by (auto simp: watched_once_def)

lemma watched_once_plain: "watched_once xs \<Longrightarrow> \<not> ob_monitored x \<Longrightarrow> watched_once (xs @ [x])"
  by (simp add: watched_once_def)

lemma set_drop_object: "set (map ob_path (filter ob_monitored (drop_object p xs))) \<subseteq> set (map ob_path (filter ob_monitored xs))"
  by (induction p xs rule: drop_object.induct) auto

lemma watched_once_drop: "watched_once xs \<Longrightarrow> watched_once (drop_object p xs)"
proof (induction p xs rule: drop_object.induct)
  case (2 p x xs)
  with set_drop_object [of p xs] show ?case by (auto simp: watched_once_def)
qed simp

lemma watched_once_cong:
  "map ob_path xs = map ob_path ys \<Longrightarrow> map ob_monitored xs = map ob_monitored ys \<Longrightarrow> watched_once xs = watched_once ys"
proof -
  assume m: "map ob_path xs = map ob_path ys" "map ob_monitored xs = map ob_monitored ys"
  have z: "map ob_path (filter ob_monitored zs) = map fst (filter snd (zip (map ob_path zs) (map ob_monitored zs)))" for zs
    by (induction zs) auto
  show ?thesis unfolding watched_once_def z [of xs] z [of ys] m ..
qed

lemma hasObject_iff: "hasObject pe p \<longleftrightarrow> p \<in> ob_path ` set (pe_objects pe)"
  by (auto simp: hasObject_def list_ex_iff)

lemma addObject_kept:
  assumes "addObject p t st = (st', r)"
  shows "entry_kept st st' \<and> (entry_sound (fst st) \<and> pe_Events (fst st) \<longrightarrow> entry_sound (fst st') \<and> pe_Events (fst st'))"
proof -
  obtain pe io where st: "st = (pe, io)" by (cases st)
  show ?thesis
  proof (cases "hasObject pe p")
    case True
    with assms show ?thesis by (simp add: st addObject_def)
  next
    case False
    let ?x = "new_object p t True"
    from False have "\<forall>y\<in>set (pe_objects pe). ob_path y \<noteq> ob_path ?x" by (auto simp: hasObject_iff new_object_def)
    then have "watched_once (pe_objects pe) \<Longrightarrow> watched_once (pe_objects pe @ [?x])"
      by (intro watched_once_add) (simp_all add: new_object_def)
    with False assms show ?thesis
      by (auto simp: st addObject_def entry_kept_def entry_sound_def fs_log_def addMonitor_def)
  qed
qed

lemma addObjects_kept:
  assumes "addObjects t ps st = (st', r)"
  shows "entry_kept st st' \<and> (entry_sound (fst st) \<and> pe_Events (fst st) \<longrightarrow> entry_sound (fst st') \<and> pe_Events (fst st'))"
  using assms
proof (induction ps arbitrary: st)
  case Nil
  then show ?case by simp
next
  case (Cons p ps)
  obtain st1 r1 where 1: "addObject p t st = (st1, r1)" by fastforce
  note k = addObject_kept [OF 1]
  show ?case
  proof (cases r1)
    case (Inl e)
    with Cons.prems 1 k show ?thesis by auto
  next
    case (Inr u)
    with Cons.prems 1 have "addObjects t ps st1 = (st', r)" by simp
    from Cons.IH [OF this] k show ?thesis by (blast intro: entry_kept_trans)
  qed
qed

lemma updateObjectHash_kept:
  "entry_kept st (updateObjectHash now p h st) \<and>
   (entry_sound (fst st) \<longrightarrow> entry_sound (fst (updateObjectHash now p h st))) \<and>
   pe_Events (fst (updateObjectHash now p h st)) = pe_Events (fst st)"
proof -
  obtain pe io where st: "st = (pe, io)" by (cases st)
  obtain pe' io' where st': "updateObjectHash now p h (pe, io) = (pe', io')"
    "io_Alerts io' = io_Alerts io @ map signature_alert (snd (spec_update now p h (signatures_of (pe_objects pe))))"
    "map ob_path (pe_objects pe') = map ob_path (pe_objects pe)" "map ob_monitored (pe_objects pe') = map ob_monitored (pe_objects pe)"
    and pe': "pe' = pe\<lparr>pe_objects := pe_objects pe'\<rparr>"
    by (rule updateObjectHash_spec)
  obtain xs where xs: "pe' = pe\<lparr>pe_objects := xs\<rparr>" using pe' by blast
  have "xs = [] \<longleftrightarrow> pe_objects pe = []" using st'(3) by (auto simp: xs)
  with watched_once_cong [OF st'(3,4)] show ?thesis
    by (auto simp: st st'(1,2) entry_kept_def entry_sound_def xs)
qed


lemma removeObject_kept:
  assumes "entry_sound (fst st)" and "pe_Event (fst st) = None"
  shows "entry_kept st (removeObject p st) \<and> entry_sound (fst (removeObject p st))"
proof -
  obtain pe io where st: "st = (pe, io)" by (cases st)
  have nil: "drop_object p [] = []" by simp
  have "watched_once (drop_object p (pe_objects pe))"
    using assms(1) by (simp add: st entry_sound_def watched_once_drop)
  moreover have "pe_Events pe" "\<not> pe_Lost pe" if "find (\<lambda>x. ob_path x = p) (pe_objects pe) = Some x" for x
    using that assms(1) by (auto simp: st entry_sound_def)
  moreover have "pe_objects pe \<noteq> []" if "drop_object p (pe_objects pe) \<noteq> []" using that nil by metis
  moreover have "watched_once []" by (simp add: watched_once_def)
  ultimately show ?thesis using assms
    by (auto simp: st removeObject_def Let_def entry_kept_def entry_sound_def removeMonitor_def fs_log_def split: option.split)
qed

lemma record_files_kept:
  "entry_kept st (record_files env now ps st) \<and>
   (entry_sound (fst st) \<and> pe_Events (fst st) \<longrightarrow>
      entry_sound (fst (record_files env now ps st)) \<and> pe_Events (fst (record_files env now ps st)))"
proof (induction ps arbitrary: st)
  case Nil
  then show ?case by simp
next
  case (Cons p ps)
  obtain pe io where st: "st = (pe, io)" by (cases st)
  let ?st = "(pe\<lparr>pe_objects := pe_objects pe @ [new_object p TYPE_FILE False]\<rparr>, io)"
  have "entry_kept st ?st \<and> (entry_sound (fst st) \<and> pe_Events (fst st) \<longrightarrow> entry_sound (fst ?st))"
    by (auto simp: st entry_kept_def entry_sound_def new_object_def intro: watched_once_plain)
  with Cons.IH [of "updateObjectHash now p (respond env p) ?st"] updateObjectHash_kept [of ?st now p "respond env p"]
  show ?case by (auto simp: st intro: entry_kept_trans)
qed

lemma record_objects_kept:
  "entry_kept st (record_objects env now xs st) \<and>
   (entry_sound (fst st) \<and> pe_Events (fst st) \<longrightarrow>
      entry_sound (fst (record_objects env now xs st)) \<and> pe_Events (fst (record_objects env now xs st)))"
proof (induction xs arbitrary: st)
  case Nil
  then show ?case by simp
next
  case (Cons x xs)
  show ?case
  proof (cases "ob_objtype x = TYPE_FILE")
    case True
    with Cons.IH [of "updateObjectHash now (ob_path x) (respond env (ob_path x)) st"]
      updateObjectHash_kept [of st now "ob_path x" "respond env (ob_path x)"]
    show ?thesis by (auto intro: entry_kept_trans)
  next
    case False
    define ps where "ps = map (\<lambda>(n, k). path_Join (ob_path x) n) (filter (\<lambda>(n, k). k = Regular) (fe_ReadDir env (ob_path x)))"
    from Cons.IH [of "record_files env now ps st"] record_files_kept [of st env now ps] False
    show ?thesis by (auto simp: ps_def [symmetric] intro: entry_kept_trans)
  qed
qed

lemma initial_records_kept:
  assumes "entry_sound (fst st)"
  shows "entry_kept st (initial_records env now st) \<and> entry_sound (fst (initial_records env now st)) \<and>
    (pe_Events (fst st) \<longrightarrow> pe_Events (fst (initial_records env now st)))"
proof -
  obtain pe io where st: "st = (pe, io)" by (cases st)
  let ?st = "(pe\<lparr>pe_Starting := pe_Starting pe - 1\<rparr>, io)"
  have k: "entry_kept st ?st" "entry_sound (fst ?st)" using assms by (simp_all add: st entry_kept_def entry_sound_def)
  show ?thesis
  proof (cases "pe_objects pe = []")
    case True
    with k show ?thesis by (simp add: st initial_records_def)
  next
    case False
    with assms have "pe_Events (fst ?st)" by (simp add: st entry_sound_def)
    with record_objects_kept [of ?st env now "pe_objects pe"] k show ?thesis
      by (auto simp: st initial_records_def intro: entry_kept_trans)
  qed
qed

lemma entry_initialize_kept:
  assumes "entry_initialize env st = (st', r)" and "entry_sound (fst st)" and "\<not> pe_Lost (fst st)" and "\<not> pe_Stopped (fst st)"
  shows "pe_path (fst st') = pe_path (fst st) \<and> prefix (io_Alerts (snd st)) (io_Alerts (snd st')) \<and> entry_sound (fst st') \<and>
    \<not> pe_Stopped (fst st') \<and> (pe_Event (fst st') = None \<or> pe_Event (fst st') = pe_Event (fst st))"
proof -
  let ?st = "((fst st)\<lparr>pe_Events := True\<rparr>, snd st)"
  have s: "entry_sound (fst ?st)" "pe_Events (fst ?st)" using assms(2,3) by (auto simp: entry_sound_def)
  obtain st1 r1 where 1: "start_objects env ?st = (st1, r1)" by fastforce
  have "entry_kept ?st st1 \<and> entry_sound (fst st1)"
    using 1 s addObject_kept [of _ _ ?st st1 r1] addObjects_kept [of TYPE_DIRECTORY _ ?st st1 r1]
    by (auto simp: start_objects_def processDirectory_def Let_def split: sum.splits file_kind.splits if_splits)
  with assms(1,4) 1 show ?thesis
    by (cases r1; cases st1) (auto simp: entry_initialize_def entry_kept_def entry_sound_def)
qed

lemma handleEvent_kept:
  assumes "handleEvent env ev st = (st', r)" and "entry_sound (fst st)" and "pe_Events (fst st)" and "pe_Event (fst st) = None"
  shows "entry_kept st st' \<and> entry_sound (fst st')"
proof -
  obtain pe io where st: "st = (pe, io)" by (cases st)
  obtain st1 r1 where 1: "handle_objects env ev st = (st1, r1)" by fastforce
  have alert: "entry_kept st (pe, newAlert sev m io)" for sev m by (simp add: st entry_kept_def newAlert_def)
  have app: "entry_kept st (pe\<lparr>pe_objects := pe_objects pe @ [new_object p TYPE_FILE False]\<rparr>, io) \<and>
      entry_sound (pe\<lparr>pe_objects := pe_objects pe @ [new_object p TYPE_FILE False]\<rparr>)" for p
    using assms(2,3) by (auto simp: st entry_kept_def entry_sound_def new_object_def intro: watched_once_plain)
  have rm: "entry_kept st (removeObject p (pe, newAlert ALERT_LOW m io)) \<and> entry_sound (fst (removeObject p (pe, newAlert ALERT_LOW m io)))"
    for p m using removeObject_kept [of "(pe, newAlert ALERT_LOW m io)" p] alert [of ALERT_LOW m] assms(2,4)
    by (auto simp: st intro: entry_kept_trans)
  have add: "entry_kept st (fst (addObject p t st)) \<and> entry_sound (fst (fst (addObject p t st)))" for p t
    using addObject_kept [of p t st] assms(2,3) by (cases "addObject p t st") auto
  have "entry_kept st st1 \<and> entry_sound (fst st1)"
  proof (cases "ev_Op ev = op_Create \<and> pe_recursive pe")
    case True
    show ?thesis
      using 1 True alert app add [of "ev_Name ev" TYPE_DIRECTORY] assms(2)
      by (cases "fe_Stat env (ev_Name ev)"; cases "projr (fe_Stat env (ev_Name ev))")
        (auto simp: handle_objects_def st map_prod_def split: prod.splits)
  next
    case False
    with 1 rm [of "ev_Name ev"] assms(2) show ?thesis by (auto simp: handle_objects_def st split: if_splits)
  qed
  moreover have "entry_kept st1 (fst st1\<lparr>pe_Hashing := hs\<rparr>, snd st1)"
    "entry_sound (fst st1) \<Longrightarrow> entry_sound (fst st1\<lparr>pe_Hashing := hs\<rparr>)" for hs
    by (simp_all add: entry_kept_def entry_sound_def)
  ultimately show ?thesis using assms(1) 1
    by (cases r1) (auto simp: handleEvent_def split: prod.splits bool.splits if_splits intro: entry_kept_trans)
qed


lemma put_entry_entries:
  assumes "entries_sound w" and "i < length (fw_Entries w)" and "entry_sound (fst st)" and "pe_Stopped (fst st) \<longrightarrow> es \<noteq> []"
    and "pe_path (fst st) = pe_path (fw_Entries w ! i)" and "prefix (io_Alerts (fw_IO w)) (io_Alerts (snd st))"
    and "fw_Errors w \<noteq> [] \<longrightarrow> es \<noteq> []"
  shows "entries_sound ((put_entry i st w)\<lparr>fw_Errors := es\<rparr>) \<and> world_grows w ((put_entry i st w)\<lparr>fw_Errors := es\<rparr>)"
proof -
  have "entry_sound pe \<and> (pe_Stopped pe \<longrightarrow> es \<noteq> [])" if "pe \<in> set ((fw_Entries w)[i := fst st])" for pe
    using that assms(1,3,4,7) set_update_subset_insert [of "fw_Entries w" i "fst st"] by (auto simp: entries_sound_def)
  moreover have "map pe_path ((fw_Entries w)[i := fst st]) = map pe_path (fw_Entries w)"
    using assms(2,5) by (simp add: map_update list_update_same_conv)
  ultimately show ?thesis using assms(6) by (simp add: entries_sound_def world_grows_def put_entry_def)
qed

text \<open>A step of an entry that keeps its channel, and one of a handler, which may close it.\<close>

lemma put_entry_kept:
  assumes "world_sound w" and "i < length (fw_Entries w)" and "entry_sound (fst st)" and "pe_Stopped (fst st) \<longrightarrow> es \<noteq> []"
    and "pe_path (fst st) = pe_path (fw_Entries w ! i)" and "prefix (io_Alerts (fw_IO w)) (io_Alerts (snd st))"
    and "fw_Errors w \<noteq> [] \<longrightarrow> es \<noteq> []" and "pe_Events (fw_Entries w ! i) \<longrightarrow> pe_Events (fst st)"
  shows "world_sound ((put_entry i st w)\<lparr>fw_Errors := es\<rparr>) \<and> world_grows w ((put_entry i st w)\<lparr>fw_Errors := es\<rparr>)"
proof -
  have "router_sound ((put_entry i st w)\<lparr>fw_Errors := es\<rparr>)"
    using assms(1,2,8) by (auto simp: world_sound_def router_sound_def put_entry_def nth_list_update split: router.splits)
  with put_entry_entries [OF _ assms(2-7)] assms(1) show ?thesis by (simp add: world_sound_def)
qed

lemma put_entry_kept_same:
  assumes "world_sound w" and "i < length (fw_Entries w)" and "entry_sound (fst st)" and "\<not> pe_Stopped (fst st)"
    and "pe_path (fst st) = pe_path (fw_Entries w ! i)" and "prefix (io_Alerts (fw_IO w)) (io_Alerts (snd st))"
    and "pe_Events (fw_Entries w ! i) \<longrightarrow> pe_Events (fst st)"
  shows "world_sound (put_entry i st w) \<and> world_grows w (put_entry i st w)"
  using put_entry_kept [of w i st "fw_Errors w"] assms by (simp add: put_entry_def)

lemma wake_sender_kept:
  assumes "world_sound w" and "i < length (fw_Entries w)" and "entry_sound (fst st)" and "pe_Stopped (fst st) \<longrightarrow> es \<noteq> []"
    and "pe_path (fst st) = pe_path (fw_Entries w ! i)" and "prefix (io_Alerts (fw_IO w)) (io_Alerts (snd st))"
    and "fw_Errors w \<noteq> [] \<longrightarrow> es \<noteq> []"
  shows "world_sound (wake_sender i ((put_entry i st w)\<lparr>fw_Errors := es\<rparr>)) \<and>
    world_grows w (wake_sender i ((put_entry i st w)\<lparr>fw_Errors := es\<rparr>))"
proof -
  let ?w = "(put_entry i st w)\<lparr>fw_Errors := es\<rparr>"
  have "router_sound (wake_sender i ?w)"
    using assms(1,2) by (auto simp: world_sound_def router_sound_def put_entry_def wake_sender_def nth_list_update split: router.splits)
  moreover have "entries_sound (wake_sender i ?w) = entries_sound ?w" "world_grows w (wake_sender i ?w) = world_grows w ?w"
    by (auto simp: wake_sender_def entries_sound_def world_grows_def split: router.split)
  ultimately show ?thesis using put_entry_entries [OF _ assms(2-7)] assms(1) by (simp add: world_sound_def)
qed

lemma wake_sender_simps [simp]:
  "fw_Entries (wake_sender i w) = fw_Entries w" "fw_IO (wake_sender i w) = fw_IO w" "fw_Errors (wake_sender i w) = fw_Errors w"
  "fw_Now (wake_sender i w) = fw_Now w" "fw_Router w = RIdle \<Longrightarrow> wake_sender i w = w"
  "fw_Router w = RNil \<Longrightarrow> wake_sender i w = w"
  by (auto simp: wake_sender_def split: router.split)

lemma entry_at:
  assumes "world_sound w" and "i < length (fw_Entries w)" and "fw_Errors w = []"
  shows "entry_sound (fw_Entries w ! i)" "\<not> pe_Stopped (fw_Entries w ! i)"
  using assms by (auto simp: world_sound_def entries_sound_def)

lemma entry_of_Some: "entry_of p pes = Some i \<Longrightarrow> i < length pes \<and> hasObject (pes ! i) p"
  by (induction pes arbitrary: i) (auto split: if_splits)

lemma handle_step_kept:
  assumes "world_sound w" and "fw_Errors w = []" and "i < length (fw_Entries w)" and "handle_step env i w = Some w'"
  shows "world_sound w' \<and> world_grows w w'"
proof -
  let ?pe = "fw_Entries w ! i"
  obtain ev where ev: "pe_Event ?pe = Some ev" using assms(4) by (auto simp: handle_step_def Let_def split: if_splits option.splits)
  obtain st r where h: "handleEvent env ev (?pe\<lparr>pe_Event := None\<rparr>, fw_IO w) = (st, r)" by fastforce
  note s = entry_at [OF assms(1,3,2)]
  have "entry_sound (?pe\<lparr>pe_Event := None\<rparr>)" "pe_Events ?pe" using s(1) ev by (auto simp: entry_sound_def)
  with handleEvent_kept [OF h] have k: "entry_kept (?pe\<lparr>pe_Event := None\<rparr>, fw_IO w) st" "entry_sound (fst st)" by simp_all
  show ?thesis
  proof (cases r)
    case (Inl e)
    with assms(4) h ev have w': "w' = wake_sender i ((put_entry i (fst st\<lparr>pe_Stopped := True\<rparr>, snd st) w)\<lparr>fw_Errors := fw_Errors w @ [e]\<rparr>)"
      by (auto simp: handle_step_def Let_def split: prod.splits if_splits)
    have "entry_sound (fst st\<lparr>pe_Stopped := True\<rparr>)" using k(2) by (simp add: entry_sound_def)
    with assms(1,3) k(1) show ?thesis
      unfolding w' by (intro wake_sender_kept) (simp_all add: entry_kept_def)
  next
    case (Inr u)
    with assms(4) h ev have "w' = wake_sender i (put_entry i st w)"
      by (auto simp: handle_step_def Let_def split: prod.splits if_splits)
    then have w': "w' = wake_sender i ((put_entry i st w)\<lparr>fw_Errors := fw_Errors w\<rparr>)" by (simp add: put_entry_def)
    show ?thesis
      unfolding w' using assms(1,3) k s(2) by (intro wake_sender_kept) (simp_all add: entry_kept_def)
  qed
qed

lemma running_no_errors: "fs_running w \<Longrightarrow> fw_Errors w = []"
  by (simp add: fs_running_def)

lemma router_step_kept:
  assumes "world_sound w" and "fw_Errors w = []" and "router_step w = Some w'"
  shows "world_sound w' \<and> world_grows w w'"
proof (cases "fw_Router w")
  case (RSend i ev)
  with assms(1,3) have i: "i < length (fw_Entries w)" and r: "ready (fw_Entries w ! i)"
    and w': "w' = (put_entry i ((fw_Entries w ! i)\<lparr>pe_Event := Some ev\<rparr>, fw_IO w) w)\<lparr>fw_Router := RIdle\<rparr>"
    by (auto simp: router_step_def put_entry_def world_sound_def router_sound_def split: if_splits)
  let ?w = "put_entry i ((fw_Entries w ! i)\<lparr>pe_Event := Some ev\<rparr>, fw_IO w) w"
  from entry_at [OF assms(1) i assms(2)] r have "world_sound ?w \<and> world_grows w ?w"
    using assms(1) i by (intro put_entry_kept_same) (auto simp: entry_sound_def ready_def)
  then show ?thesis by (simp add: w' world_sound_def entries_sound_def router_sound_def world_grows_def)
qed (use assms in \<open>auto simp: router_step_def world_sound_def entries_sound_def router_sound_def world_grows_def unhandled_def
    newAlert_def split: if_splits\<close>)

lemma fs_step_kept: "fs_step w w' \<Longrightarrow> world_sound w \<Longrightarrow> world_sound w' \<and> world_grows w w'"
proof (induction rule: fs_step.induct)
  case (fs_event w ev)
  then show ?case by (simp add: world_sound_def entries_sound_def router_sound_def world_grows_def)
next
  case (fs_failed w e)
  then show ?case by (simp add: world_sound_def entries_sound_def router_sound_def world_grows_def)
next
  case (fs_router w w')
  then show ?case by (intro router_step_kept) (simp_all add: fs_running_def)
next
  case (fs_handle w i env w')
  then show ?case by (intro handle_step_kept) (simp_all add: fs_running_def)
next
  case (fs_reply w i env k w')
  let ?pe = "fw_Entries w ! i" and ?h = "respond env (pe_Hashing (fw_Entries w ! i) ! k)"
  let ?st = "(?pe\<lparr>pe_Hashing := take k (pe_Hashing ?pe) @ drop (Suc k) (pe_Hashing ?pe)\<rparr>, fw_IO w)"
  from fs_reply have w': "w' = put_entry i (updateObjectHash (fw_Now w) (pe_Hashing ?pe ! k) ?h ?st) w"
    by (auto simp: reply_step_def Let_def split: if_splits)
  note s = entry_at [OF fs_reply.prems fs_reply.hyps(2) running_no_errors [OF fs_reply.hyps(1)]]
  have "entry_sound (fst ?st)" using s(1) by (simp add: entry_sound_def)
  with updateObjectHash_kept [of ?st "fw_Now w" "pe_Hashing ?pe ! k" ?h] s(2) fs_reply.prems fs_reply.hyps(2) show ?case
    unfolding w' by (intro put_entry_kept_same) (simp_all add: entry_kept_def)
next
  case (fs_records w i env w')
  note s = entry_at [OF fs_records.prems fs_records.hyps(2) running_no_errors [OF fs_records.hyps(1)]]
  from fs_records have w': "w' = put_entry i (initial_records env (fw_Now w) (fw_Entries w ! i, fw_IO w)) w"
    by (auto simp: records_step_def split: if_splits)
  from initial_records_kept [of "(fw_Entries w ! i, fw_IO w)" env "fw_Now w"] s fs_records.prems fs_records.hyps(2) show ?case
    unfolding w' by (intro put_entry_kept_same) (simp_all add: entry_kept_def)
next
  case (fs_recreate w i env w')
  let ?pe = "(fw_Entries w ! i)\<lparr>pe_Lost := False\<rparr>"
  note s = entry_at [OF fs_recreate.prems fs_recreate.hyps(2) running_no_errors [OF fs_recreate.hyps(1)]]
  obtain st r where 1: "entry_initialize env (?pe, fw_IO w) = (st, r)" by fastforce
  have "entry_sound ?pe" using s(1) by (simp add: entry_sound_def)
  have closed: "\<not> pe_Events (fw_Entries w ! i)"
    using fs_recreate.hyps(3) s(1) by (auto simp: recreate_step_def Let_def entry_sound_def split: if_splits)
  from \<open>entry_sound ?pe\<close> entry_initialize_kept [OF 1] s(2)
  have k: "pe_path (fst st) = pe_path (fw_Entries w ! i)" "prefix (io_Alerts (fw_IO w)) (io_Alerts (snd st))"
    "entry_sound (fst st)" "\<not> pe_Stopped (fst st)" by simp_all
  show ?case
  proof (cases r)
    case (Inl e)
    with fs_recreate.hyps(3) 1 have w': "w' = (put_entry i st w)\<lparr>fw_Errors := fw_Errors w @ [e]\<rparr>"
      by (auto simp: recreate_step_def Let_def split: if_splits)
    show ?thesis unfolding w' using fs_recreate.prems fs_recreate.hyps(2) k closed by (intro put_entry_kept) simp_all
  next
    case (Inr u)
    with fs_recreate.hyps(3) 1 have w': "w' = put_entry i st w"
      by (auto simp: recreate_step_def Let_def split: if_splits)
    show ?thesis unfolding w' using fs_recreate.prems fs_recreate.hyps(2) k closed by (intro put_entry_kept_same) simp_all
  qed
next
  case (fs_tick w d)
  then show ?case by (auto simp: world_sound_def entries_sound_def router_sound_def world_grows_def split: router.splits)
qed

interpretation watch: state_machine fs_step world_sound world_grows
proof unfold_locales
  show "world_sound s \<Longrightarrow> fs_step s s' \<Longrightarrow> world_sound s'" "world_sound s \<Longrightarrow> fs_step s s' \<Longrightarrow> world_grows s s'" for s s'
    by (simp_all add: fs_step_kept)
  show "world_grows s s" for s by (simp add: world_grows_def)
  show "world_grows s s' \<Longrightarrow> world_grows s' s'' \<Longrightarrow> world_grows s s''" for s s' s''
    by (auto simp: world_grows_def intro: prefix_order.trans)
qed

lemma profile_initialize_sound:
  "profile_initialize env pes io = (pes', io', r) \<Longrightarrow>
   \<forall>pe\<in>set pes. entry_sound pe \<and> \<not> pe_Lost pe \<and> \<not> pe_Stopped pe \<Longrightarrow> \<forall>pe\<in>set pes'. entry_sound pe \<and> \<not> pe_Stopped pe"
proof (induction pes arbitrary: io pes' io' r)
  case Nil
  then show ?case by simp
next
  case (Cons pe pes)
  obtain pe1 io1 r1 where 1: "entry_initialize env (pe, io) = ((pe1, io1), r1)" by (metis prod.exhaust)
  from Cons.prems(2) entry_initialize_kept [OF 1] have k: "entry_sound pe1" "\<not> pe_Stopped pe1" by simp_all
  show ?case
  proof (cases r1)
    case (Inl e)
    with Cons.prems 1 k show ?thesis by auto
  next
    case (Inr u)
    obtain pes2 io2 r2 where 2: "profile_initialize env pes io1 = (pes2, io2, r2)" by (metis prod.exhaust)
    with Cons.IH [OF 2] Cons.prems Inr 1 k show ?thesis by auto
  qed
qed

lemma new_entry_sound: "entry_sound (new_entry p r) \<and> \<not> pe_Lost (new_entry p r) \<and> \<not> pe_Stopped (new_entry p r)"
  by (simp add: entry_sound_def new_entry_def watched_once_def)

lemma fsWatch_sound: "world_sound (fsWatch env now paths)"
proof -
  let ?pes = "if paths = [] then localFsWatchProfile else map config_entry paths"
  have "\<forall>pe\<in>set ?pes. \<exists>p r. pe = new_entry p r"
    by (auto simp: localFsWatchProfile_def config_entry_def)
  then have s: "\<forall>pe\<in>set ?pes. entry_sound pe \<and> \<not> pe_Lost pe \<and> \<not> pe_Stopped pe" using new_entry_sound by metis
  obtain pes io r where 1: "profile_initialize env ?pes \<lparr>io_Alerts = [], io_Log = [], io_Watched = []\<rparr> = (pes, io, r)"
    by (metis prod.exhaust)
  from profile_initialize_sound [OF 1 s] show ?thesis
    unfolding fsWatch_def 1 by (simp add: world_sound_def entries_sound_def router_sound_def)
qed


text \<open>
  Along every run of the module no entry watches a path twice, an entry with objects has an open channel, one
  that waits for its path has none, a handler stops only with an error; alerts are only added.
\<close>

theorem watch_invariant:
  assumes "fs_step\<^sup>*\<^sup>* (fsWatch env now paths) w"
  shows "(\<forall>pe\<in>set (fw_Entries w). distinct (map ob_path (filter ob_monitored (pe_objects pe))) \<and>
      (pe_objects pe \<noteq> [] \<longrightarrow> pe_Events pe) \<and> (pe_Lost pe \<longrightarrow> pe_objects pe = [] \<and> \<not> pe_Events pe) \<and>
      (pe_Stopped pe \<longrightarrow> fw_Errors w \<noteq> [])) \<and>
    map pe_path (fw_Entries w) = map pe_path (fw_Entries (fsWatch env now paths)) \<and>
    prefix (io_Alerts (fw_IO (fsWatch env now paths))) (io_Alerts (fw_IO w)) \<and> now \<le> fw_Now w"
proof -
  have "world_sound w" using assms fsWatch_sound by (rule watch.run_inv)
  moreover have "world_grows (fsWatch env now paths) w" using assms fsWatch_sound by (rule watch.run_keeps)
  moreover have "fw_Now (fsWatch env now paths) = now" by (simp add: fsWatch_def split: prod.split)
  ultimately show ?thesis by (auto simp: world_sound_def entries_sound_def entry_sound_def watched_once_def world_grows_def)
qed

section \<open>The router\<close>

text \<open>The steps of the router, when nothing runs in between, are \<open>routeEvent\<close>.\<close>

lemma entry_of_drop:
  assumes "k < length pes"
  shows "entry_of p (drop k pes) = (if hasObject (pes ! k) p then Some 0 else map_option Suc (entry_of p (drop (Suc k) pes)))"
proof -
  have "drop k pes = pes ! k # drop (Suc k) pes" using assms by (simp add: Cons_nth_drop_Suc)
  then show ?thesis by simp
qed

lemma entry_of_some_length: "entry_of p (drop k pes) = Some j \<Longrightarrow> k < length pes"
  by (rule ccontr) simp

lemma scan_one:
  assumes "fw_Errors w = []" and "k < length (fw_Entries w)"
  shows "fs_step (w\<lparr>fw_Router := RScan up k ev\<rparr>)
    (w\<lparr>fw_Router := if hasObject (fw_Entries w ! k) (scan_name up ev) then RFound k ev else RScan up (Suc k) ev\<rparr>)"
  by (rule fs_router) (simp_all add: fs_running_def router_step_def assms)

lemma scan_hit:
  assumes "fw_Errors w = []"
  shows "entry_of (scan_name up ev) (drop k (fw_Entries w)) = Some j \<Longrightarrow>
    fs_step\<^sup>*\<^sup>* (w\<lparr>fw_Router := RScan up k ev\<rparr>) (w\<lparr>fw_Router := RFound (k + j) ev\<rparr>)"
proof (induction j arbitrary: k)
  case 0
  then have "k < length (fw_Entries w)" "hasObject (fw_Entries w ! k) (scan_name up ev)"
    using entry_of_some_length [OF 0] by (auto simp: entry_of_drop split: if_splits)
  with scan_one [OF assms, of k up ev] show ?case by auto
next
  case (Suc j)
  have k: "k < length (fw_Entries w)" using entry_of_some_length [OF Suc.prems] .
  with Suc.prems have "\<not> hasObject (fw_Entries w ! k) (scan_name up ev)"
    "entry_of (scan_name up ev) (drop (Suc k) (fw_Entries w)) = Some j" by (auto simp: entry_of_drop split: if_splits)
  with scan_one [OF assms k, of up ev] Suc.IH [of "Suc k"] show ?case by (auto intro: converse_rtranclp_into_rtranclp)
qed

lemma scan_miss:
  assumes "fw_Errors w = []" and "k \<le> length (fw_Entries w)" and "entry_of (scan_name up ev) (drop k (fw_Entries w)) = None"
  shows "fs_step\<^sup>*\<^sup>* (w\<lparr>fw_Router := RScan up k ev\<rparr>) (w\<lparr>fw_Router := RScan up (length (fw_Entries w)) ev\<rparr>)"
  using assms(2,3)
proof (induction k rule: inc_induct)
  case (step k)
  then have "\<not> hasObject (fw_Entries w ! k) (scan_name up ev)" "entry_of (scan_name up ev) (drop (Suc k) (fw_Entries w)) = None"
    by (auto simp: entry_of_drop split: if_splits)
  with scan_one [OF assms(1) step.hyps(2), of up ev] step.IH show ?case by (auto intro: converse_rtranclp_into_rtranclp)
qed simp

lemma scan_up:
  assumes "fw_Errors w = []" and "fw_Router w = RIdle" and "entry_of (ev_Name ev) (fw_Entries w) = None"
  shows "fs_step\<^sup>*\<^sup>* w (w\<lparr>fw_Router := RScan True 0 ev\<rparr>)"
proof -
  have "fs_step w (w\<lparr>fw_Router := RScan False 0 ev\<rparr>)" using assms(1,2) by (intro fs_event) (simp_all add: fs_running_def)
  moreover have "fs_step\<^sup>*\<^sup>* (w\<lparr>fw_Router := RScan False 0 ev\<rparr>) (w\<lparr>fw_Router := RScan False (length (fw_Entries w)) ev\<rparr>)"
    using assms(1,3) by (intro scan_miss) (simp_all add: scan_name_def)
  moreover have "fs_step (w\<lparr>fw_Router := RScan False (length (fw_Entries w)) ev\<rparr>) (w\<lparr>fw_Router := RScan True 0 ev\<rparr>)"
    by (rule fs_router) (simp_all add: fs_running_def router_step_def assms(1))
  ultimately show ?thesis by (meson converse_rtranclp_into_rtranclp rtranclp.rtrancl_into_rtrancl)
qed

lemma scan_target:
  assumes "fw_Errors w = []" and "fw_Router w = RIdle" and "route_target ev (fw_Entries w) = Some i"
  shows "fs_step\<^sup>*\<^sup>* w (w\<lparr>fw_Router := RFound i ev\<rparr>)"
proof (cases "entry_of (ev_Name ev) (fw_Entries w)")
  case (Some j)
  have "fs_step w (w\<lparr>fw_Router := RScan False 0 ev\<rparr>)" using assms(1,2) by (intro fs_event) (simp_all add: fs_running_def)
  moreover have "fs_step\<^sup>*\<^sup>* (w\<lparr>fw_Router := RScan False 0 ev\<rparr>) (w\<lparr>fw_Router := RFound i ev\<rparr>)"
    using scan_hit [OF assms(1), of False ev 0 j] Some assms(3) by (simp add: scan_name_def route_target_def)
  ultimately show ?thesis by (rule converse_rtranclp_into_rtranclp)
next
  case None
  with assms(3) have "entry_of (scan_name True ev) (drop 0 (fw_Entries w)) = Some i"
    by (simp add: scan_name_def route_target_def)
  from scan_hit [OF assms(1) this] scan_up [OF assms(1,2) None] show ?thesis by simp
qed

lemma idle_again: "fw_Router w = RIdle \<Longrightarrow> w\<lparr>fw_Router := RIdle\<rparr> = w"
  by simp

lemma sent_steps:
  assumes "fw_Errors w = []" and "fw_Router w = RIdle" and "ready (fw_Entries w ! i)"
  shows "fs_step\<^sup>*\<^sup>* (w\<lparr>fw_Router := RFound i ev\<rparr>)
    (w\<lparr>fw_Entries := (fw_Entries w)[i := (fw_Entries w ! i)\<lparr>pe_Event := Some ev\<rparr>]\<rparr>)"
proof -
  have "fs_step (w\<lparr>fw_Router := RFound i ev\<rparr>) (w\<lparr>fw_Router := RSend i ev\<rparr>)"
    using assms by (intro fs_router) (simp_all add: fs_running_def router_step_def ready_def)
  moreover have "fs_step (w\<lparr>fw_Router := RSend i ev\<rparr>)
      (w\<lparr>fw_Router := RIdle, fw_Entries := (fw_Entries w)[i := (fw_Entries w ! i)\<lparr>pe_Event := Some ev\<rparr>]\<rparr>)"
    using assms by (intro fs_router) (simp_all add: fs_running_def router_step_def)
  ultimately show ?thesis using idle_again [OF assms(2)] by (auto intro: converse_rtranclp_into_rtranclp)
qed

lemma routed_run:
  assumes "fw_Errors w = []" and "fw_Router w = RIdle" and "routeEvent ev w = Some w'"
  shows "fs_step\<^sup>*\<^sup>* w w'"
proof (cases "route_target ev (fw_Entries w)")
  case (Some i)
  with assms(3) scan_target [OF assms(1,2) Some] sent_steps [OF assms(1,2)] show ?thesis
    by (auto simp: routeEvent_def split: if_splits intro: rtranclp_trans)
next
  case None
  then have n: "entry_of (ev_Name ev) (fw_Entries w) = None" "entry_of (path_Dir (ev_Name ev)) (fw_Entries w) = None"
    by (simp_all add: route_target_def split: option.splits)
  have "fs_step\<^sup>*\<^sup>* (w\<lparr>fw_Router := RScan True 0 ev\<rparr>) (w\<lparr>fw_Router := RScan True (length (fw_Entries w)) ev\<rparr>)"
    using assms(1) n(2) by (intro scan_miss) (simp_all add: scan_name_def)
  moreover have "fs_step (w\<lparr>fw_Router := RScan True (length (fw_Entries w)) ev\<rparr>)
      (w\<lparr>fw_Router := RIdle, fw_IO := unhandled ev (fw_IO w)\<rparr>)"
    by (rule fs_router) (simp_all add: fs_running_def router_step_def assms(1))
  moreover have "w' = w\<lparr>fw_Router := RIdle, fw_IO := unhandled ev (fw_IO w)\<rparr>"
    using None assms(2,3) idle_again [OF assms(2)] by (auto simp: routeEvent_def)
  ultimately show ?thesis using scan_up [OF assms(1,2) n(1)] by (meson rtranclp_trans rtranclp.rtrancl_into_rtrancl)
qed

subsection \<open>Delivering an event\<close>

text \<open>Only the router gives events to the handlers.\<close>

definition events_kept :: "fs_world \<Rightarrow> fs_world \<Rightarrow> bool" where
  "events_kept w w' \<longleftrightarrow> length (fw_Entries w') = length (fw_Entries w) \<and>
     (\<forall>j<length (fw_Entries w). pe_Event (fw_Entries w' ! j) = None \<or> pe_Event (fw_Entries w' ! j) = pe_Event (fw_Entries w ! j))"

lemma events_kept_trans: "events_kept w w' \<Longrightarrow> events_kept w' w'' \<Longrightarrow> events_kept w w''"
  unfolding events_kept_def by metis

lemma events_kept_put:
  assumes "pe_Event (fst st) = None \<or> pe_Event (fst st) = pe_Event (fw_Entries w ! i)"
  shows "events_kept w (put_entry i st w)" "events_kept w ((put_entry i st w)\<lparr>fw_Errors := es\<rparr>)"
  by (cases "i < length (fw_Entries w)"; use assms in \<open>auto simp: events_kept_def put_entry_def nth_list_update\<close>)+

lemma events_kept_same: "fw_Entries w' = fw_Entries w \<Longrightarrow> events_kept w w'"
  by (simp add: events_kept_def)

text \<open>A handler with an event takes its step, after which it has none.\<close>

lemma handle_step_result:
  assumes "world_sound w" and "fw_Errors w = []" and "i < length (fw_Entries w)" and "pe_Event (fw_Entries w ! i) = Some ev"
  shows "\<exists>st es. handle_step env i w = Some (wake_sender i ((put_entry i st w)\<lparr>fw_Errors := es\<rparr>)) \<and> pe_Event (fst st) = None"
proof -
  let ?pe = "fw_Entries w ! i"
  obtain st r where h: "handleEvent env ev (?pe\<lparr>pe_Event := None\<rparr>, fw_IO w) = (st, r)" by fastforce
  note s = entry_at [OF assms(1,3,2)]
  have "entry_sound (?pe\<lparr>pe_Event := None\<rparr>)" "pe_Events ?pe" using s(1) assms(4) by (auto simp: entry_sound_def)
  with handleEvent_kept [OF h] have none: "pe_Event (fst st) = None" by (simp add: entry_kept_def)
  show ?thesis
  proof (cases r)
    case (Inl e)
    with h assms(4) s(2) have "handle_step env i w =
        Some (wake_sender i ((put_entry i (fst st\<lparr>pe_Stopped := True\<rparr>, snd st) w)\<lparr>fw_Errors := fw_Errors w @ [e]\<rparr>))"
      by (auto simp: handle_step_def Let_def split: prod.splits)
    moreover have "pe_Event (fst (fst st\<lparr>pe_Stopped := True\<rparr>, snd st)) = None" using none by simp
    ultimately show ?thesis by blast
  next
    case (Inr u)
    with h assms(4) s(2) have "handle_step env i w = Some (wake_sender i (put_entry i st w))"
      by (auto simp: handle_step_def Let_def split: prod.splits)
    moreover have "put_entry i st w = (put_entry i st w)\<lparr>fw_Errors := fw_Errors w\<rparr>" by (simp add: put_entry_def)
    ultimately show ?thesis using none by metis
  qed
qed

lemma handle_step_event: "handle_step env i w = Some w' \<Longrightarrow> \<exists>ev. pe_Event (fw_Entries w ! i) = Some ev"
  by (auto simp: handle_step_def Let_def split: if_splits option.splits)

definition router_kept :: "fs_world \<Rightarrow> fs_world \<Rightarrow> bool" where
  "router_kept w w' \<longleftrightarrow> fw_Router w' = fw_Router w \<or> fw_Router w = RIdle \<or>
     (\<exists>i ev. fw_Router w = RSend i ev) \<and> fw_Router w' = RPanic"

lemma wake_sender_router: "router_kept w (wake_sender i ((put_entry i st w)\<lparr>fw_Errors := es\<rparr>))"
  by (auto simp: router_kept_def wake_sender_def put_entry_def split: router.split)

lemma fs_step_events:
  assumes "fs_step w w'" and "world_sound w"
  shows "router_step w = Some w' \<or> events_kept w w' \<and> router_kept w w'"
  using assms
proof (induction rule: fs_step.induct)
  case (fs_handle w i env w')
  obtain ev where ev: "pe_Event (fw_Entries w ! i) = Some ev" using handle_step_event [OF fs_handle.hyps(3)] by blast
  obtain st es where w': "w' = wake_sender i ((put_entry i st w)\<lparr>fw_Errors := es\<rparr>)" and none: "pe_Event (fst st) = None"
    using handle_step_result [OF fs_handle.prems running_no_errors [OF fs_handle.hyps(1)] fs_handle.hyps(2) ev, of env]
      fs_handle.hyps(3) by auto
  have "events_kept w ((put_entry i st w)\<lparr>fw_Errors := es\<rparr>)" using none by (intro events_kept_put(2)) simp
  then have "events_kept w w'" by (simp add: w' events_kept_def)
  with wake_sender_router show ?case unfolding w' by blast
next
  case (fs_reply w i env k w')
  let ?pe = "fw_Entries w ! i"
  let ?st = "(?pe\<lparr>pe_Hashing := take k (pe_Hashing ?pe) @ drop (Suc k) (pe_Hashing ?pe)\<rparr>, fw_IO w)"
  from fs_reply have w': "w' = put_entry i (updateObjectHash (fw_Now w) (pe_Hashing ?pe ! k) (respond env (pe_Hashing ?pe ! k)) ?st) w"
    by (auto simp: reply_step_def Let_def split: if_splits)
  have "events_kept w w'" unfolding w'
    by (rule events_kept_put) (use updateObjectHash_kept [of ?st] in \<open>simp add: entry_kept_def\<close>)
  then show ?case by (simp add: w' router_kept_def put_entry_def)
next
  case (fs_records w i env w')
  note s = entry_at [OF fs_records.prems fs_records.hyps(2) running_no_errors [OF fs_records.hyps(1)]]
  from fs_records have w': "w' = put_entry i (initial_records env (fw_Now w) (fw_Entries w ! i, fw_IO w)) w"
    by (auto simp: records_step_def split: if_splits)
  have "events_kept w w'" unfolding w'
    by (rule events_kept_put) (use initial_records_kept [of "(fw_Entries w ! i, fw_IO w)"] s in \<open>simp add: entry_kept_def\<close>)
  then show ?case by (simp add: w' router_kept_def put_entry_def)
next
  case (fs_recreate w i env w')
  let ?pe = "(fw_Entries w ! i)\<lparr>pe_Lost := False\<rparr>"
  note s = entry_at [OF fs_recreate.prems fs_recreate.hyps(2) running_no_errors [OF fs_recreate.hyps(1)]]
  obtain st r where 1: "entry_initialize env (?pe, fw_IO w) = (st, r)" by fastforce
  have "entry_sound ?pe" using s(1) by (simp add: entry_sound_def)
  with entry_initialize_kept [OF 1] s(2) have "pe_Event (fst st) = None \<or> pe_Event (fst st) = pe_Event (fw_Entries w ! i)" by simp
  from events_kept_put [OF this] 1 fs_recreate.hyps(3) show ?case
    by (auto simp: recreate_step_def Let_def router_kept_def put_entry_def split: if_splits sum.splits)
qed (simp_all add: events_kept_same router_kept_def)

definition busy :: "fs_world \<Rightarrow> nat set" where
  "busy w = {j. j < length (fw_Entries w) \<and> pe_Event (fw_Entries w ! j) \<noteq> None}"

lemma finite_busy [simp]: "finite (busy w)"
  by (simp add: busy_def)

lemma card_busy: "card (busy w) \<le> length (fw_Entries w)"
proof -
  have "card (busy w) \<le> card {..<length (fw_Entries w)}" by (rule card_mono) (auto simp: busy_def)
  then show ?thesis by simp
qed

lemma busy_kept: "events_kept w w' \<Longrightarrow> busy w' \<subseteq> busy w"
  by (auto simp: events_kept_def busy_def)

text \<open>What the router and the handlers have left to do before the event on its way is delivered.\<close>

definition route_work :: "fs_world \<Rightarrow> nat" where
  "route_work w = card (busy w) +
     (case fw_Router w of
        RScan up i ev \<Rightarrow> 4 + (length (fw_Entries w) - i) + (if up then 0 else length (fw_Entries w) + 1)
      | RFound i ev \<Rightarrow> 3 | RSend i ev \<Rightarrow> 2 | _ \<Rightarrow> 0)"

definition work_step :: "fs_world \<Rightarrow> fs_world \<Rightarrow> bool" where
  "work_step w w' \<longleftrightarrow> fs_running w \<and>
     (router_step w = Some w' \<or> (\<exists>env i. i < length (fw_Entries w) \<and> handle_step env i w = Some w'))"

lemma router_step_work:
  assumes "router_sound w" and "router_step w = Some w'"
  shows "route_work w' < route_work w"
proof (cases "fw_Router w")
  case (RSend i ev)
  with assms have i: "i < length (fw_Entries w)"
    and w': "w' = w\<lparr>fw_Router := RIdle, fw_Entries := (fw_Entries w)[i := (fw_Entries w ! i)\<lparr>pe_Event := Some ev\<rparr>]\<rparr>"
    by (auto simp: router_step_def router_sound_def split: if_splits)
  have "busy w' \<subseteq> insert i (busy w)" by (auto simp: w' busy_def nth_list_update split: if_splits)
  then have "card (busy w') \<le> card (insert i (busy w))" by (simp add: card_mono)
  also have "\<dots> \<le> card (busy w) + 1" by (simp add: card_insert_if)
  finally show ?thesis by (simp add: route_work_def RSend w')
qed (use assms(2) in \<open>auto simp: router_step_def route_work_def busy_def\<close>)

lemma handle_step_work:
  assumes "world_sound w" and "fw_Errors w = []" and "i < length (fw_Entries w)" and "handle_step env i w = Some w'"
  shows "route_work w' < route_work w"
proof -
  obtain ev where ev: "pe_Event (fw_Entries w ! i) = Some ev" using handle_step_event [OF assms(4)] by blast
  obtain st es where w': "w' = wake_sender i ((put_entry i st w)\<lparr>fw_Errors := es\<rparr>)" and none: "pe_Event (fst st) = None"
    using handle_step_result [OF assms(1-3) ev, of env] assms(4) by auto
  have "busy w' \<subset> busy w" using assms(3) ev none by (auto simp: w' busy_def put_entry_def nth_list_update split: if_splits)
  then have "card (busy w') < card (busy w)" by (simp add: psubset_card_mono)
  moreover have "fw_Router w' = fw_Router w \<or> fw_Router w' = RPanic" "length (fw_Entries w') = length (fw_Entries w)"
    by (auto simp: w' wake_sender_def put_entry_def split: router.split)
  ultimately show ?thesis by (auto simp: route_work_def split: router.split)
qed

text \<open>
  C35. The router does not wait for ever at an open channel. In every state of a run the router and the handlers
  together have at most three steps for each entry and five more left before the event on its way is delivered: each of their
  steps makes that number smaller, and no other step of the module makes it larger until the next event comes. When neither
  can go on, the router is back at the events of fsnotify, or the module has ended with an error, or a channel was closed
  under the router: it waits at a nil channel or has panicked.
\<close>

theorem router_delivers:
  assumes "fs_step\<^sup>*\<^sup>* (fsWatch env now paths) w"
  shows "route_work w \<le> 3 * length (fw_Entries w) + 5 \<and>
    (\<forall>w'. work_step w w' \<longrightarrow> fs_step w w' \<and> route_work w' < route_work w) \<and>
    (\<forall>w'. fs_step w w' \<and> fw_Router w \<noteq> RIdle \<longrightarrow> route_work w' \<le> route_work w) \<and>
    ((\<nexists>w'. work_step w w') \<longrightarrow> fw_Router w = RIdle \<or> fw_Errors w \<noteq> [] \<or> fw_Router w = RNil \<or> fw_Router w = RPanic)"
proof (intro conjI allI impI)
  have sound: "world_sound w" by (rule watch.run_inv [OF assms fsWatch_sound])
  then have router: "router_sound w" by (simp add: world_sound_def)
  show "route_work w \<le> 3 * length (fw_Entries w) + 5"
    using card_busy [of w] by (auto simp: route_work_def split: router.split)
  show "fs_step w w'" if "work_step w w'" for w' using that by (auto simp: work_step_def intro: fs_router fs_handle)
  show "route_work w' < route_work w" if "work_step w w'" for w'
    using that router_step_work [OF router] handle_step_work [OF sound] by (auto simp: work_step_def dest: running_no_errors)
  show "route_work w' \<le> route_work w" if s: "fs_step w w' \<and> fw_Router w \<noteq> RIdle" for w'
  proof (cases "router_step w = Some w'")
    case True
    then show ?thesis using router_step_work [OF router] by (simp add: less_imp_le)
  next
    case False
    with fs_step_events [of w w'] s sound have k: "events_kept w w'" "router_kept w w'" by auto
    from busy_kept [OF k(1)] have "card (busy w') \<le> card (busy w)" by (simp add: card_mono)
    with k s show ?thesis by (auto simp: route_work_def router_kept_def events_kept_def split: router.split)
  qed
  show "fw_Router w = RIdle \<or> fw_Errors w \<noteq> [] \<or> fw_Router w = RNil \<or> fw_Router w = RPanic" if "\<nexists>w'. work_step w w'"
  proof (rule ccontr)
    assume n: "\<not> ?thesis"
    then have run: "fs_running w" by (simp add: fs_running_def)
    with that have "router_step w = None" by (cases "router_step w") (auto simp: work_step_def)
    with n obtain i ev where r: "fw_Router w = RSend i ev" "\<not> ready (fw_Entries w ! i)"
      by (auto simp: router_step_def split: router.splits if_splits)
    with router have i: "i < length (fw_Entries w)" "pe_Events (fw_Entries w ! i)" by (simp_all add: router_sound_def)
    note e = running_no_errors [OF run]
    from r(2) i(2) entry_at(2) [OF sound i(1) e] obtain ev' where "pe_Event (fw_Entries w ! i) = Some ev'"
      by (auto simp: ready_def)
    with handle_step_result [OF sound e i(1)] that run i(1) show False unfolding work_step_def by blast
  qed
qed

subsection \<open>A channel closed under the router\<close>

lemma nil_for_ever:
  assumes "fs_step\<^sup>*\<^sup>* w w'" and "world_sound w" and "fw_Router w = RNil"
  shows "fw_Router w' = RNil \<and> events_kept w w'"
  using assms(1)
proof (induction rule: rtranclp_induct)
  case base
  show ?case using assms(3) by (simp add: events_kept_same)
next
  case (step w1 w2)
  have "world_sound w1" using step.hyps(1) assms(2) by (rule watch.run_inv)
  moreover have "router_step w1 = None" using step.IH by (simp add: router_step_def)
  ultimately have "events_kept w1 w2" "router_kept w1 w2" using fs_step_events [OF step.hyps(2)] by auto
  with step.IH show ?case by (auto simp: router_kept_def intro: events_kept_trans)
qed

lemma last_removed:
  assumes "pe_objects (fw_Entries w ! i) = [x]" and "ob_path x = p" and "ob_monitored x"
    and "pe_Event (fw_Entries w ! i) = Some \<lparr>ev_Name = p, ev_Op = op_Remove\<rparr>" and "\<not> pe_Stopped (fw_Entries w ! i)"
  shows "\<exists>io. handle_step env i w = Some (wake_sender i (put_entry i
    ((fw_Entries w ! i)\<lparr>pe_Event := None, pe_objects := [], pe_Events := False, pe_Lost := True\<rparr>, io) w))"
  by (rule exI) (simp add: assms handle_step_def handleEvent_def handle_objects_def hasObject_def removeObject_def Let_def
      op_Create_def op_Write_def op_Remove_def)

text \<open>
  C20. An event for the path of an entry that has one object left, while the handler of the entry removes that object: the
  router has found the entry when the channel is closed and set to nil. In one order it waits at the nil channel for ever, and
  no handler is given an event again, whatever else happens; in another it is waiting to send, and the close is a panic that
  ends the module.
\<close>

theorem removal_race:
  assumes "fs_step\<^sup>*\<^sup>* (fsWatch env now paths) w" and "fw_Errors w = []" and "fw_Router w = RIdle"
    and "entry_of p (fw_Entries w) = Some i" and "pe_objects (fw_Entries w ! i) = [x]" and "ob_monitored x"
    and "pe_Event (fw_Entries w ! i) = Some \<lparr>ev_Name = p, ev_Op = op_Remove\<rparr>" and "ev_Name (ev :: fs_event) = p"
  shows "fs_step w (w\<lparr>fw_Router := RScan False 0 ev\<rparr>) \<and>
    (\<exists>w1 w2. fs_step\<^sup>*\<^sup>* (w\<lparr>fw_Router := RScan False 0 ev\<rparr>) w1 \<and> fw_Router w1 = RNil \<and> fw_Errors w1 = [] \<and>
      (\<forall>w'. fs_step\<^sup>*\<^sup>* w1 w' \<longrightarrow> fw_Router w' = RNil \<and>
        (\<forall>j<length (fw_Entries w1). pe_Event (fw_Entries w' ! j) = None \<or>
           pe_Event (fw_Entries w' ! j) = pe_Event (fw_Entries w1 ! j))) \<and>
      fs_step\<^sup>*\<^sup>* (w\<lparr>fw_Router := RScan False 0 ev\<rparr>) w2 \<and> fw_Router w2 = RPanic \<and> fw_Errors w2 = [] \<and> (\<nexists>w'. fs_step w2 w'))"
proof -
  let ?pe = "fw_Entries w ! i"
  let ?gone = "?pe\<lparr>pe_Event := None, pe_objects := [], pe_Events := False, pe_Lost := True\<rparr>"
  have sound: "world_sound w" by (rule watch.run_inv [OF assms(1) fsWatch_sound])
  have i: "i < length (fw_Entries w)" "hasObject ?pe p" using entry_of_Some [OF assms(4)] by simp_all
  then have x: "ob_path x = p" using assms(5) by (simp add: hasObject_def)
  note s = entry_at [OF sound i(1) assms(2)]
  have opened: "pe_Events ?pe" using s(1) assms(5) by (simp add: entry_sound_def)
  let ?w0 = "w\<lparr>fw_Router := RScan False 0 ev\<rparr>"
  have event: "fs_step w ?w0" using assms(2,3) by (intro fs_event) (simp_all add: fs_running_def)
  have found: "fs_step\<^sup>*\<^sup>* ?w0 (w\<lparr>fw_Router := RFound i ev\<rparr>)"
    using scan_hit [OF assms(2), of False ev 0 i] assms(4,8) by (simp add: scan_name_def)
  have "\<exists>io. handle_step env i (w\<lparr>fw_Router := r\<rparr>) =
      Some (wake_sender i (put_entry i (?gone, io) (w\<lparr>fw_Router := r\<rparr>)))" for r
    using last_removed [of "w\<lparr>fw_Router := r\<rparr>" i x p env] assms(5,6,7) x s(2) by simp
  then obtain io where gone: "handle_step env i (w\<lparr>fw_Router := r\<rparr>) =
      Some (wake_sender i (put_entry i (?gone, io r) (w\<lparr>fw_Router := r\<rparr>)))" for r by metis
  define w1 where "w1 = (put_entry i (?gone, io (RFound i ev)) w)\<lparr>fw_Router := RNil\<rparr>"
  have "fs_step (w\<lparr>fw_Router := RFound i ev\<rparr>) ((put_entry i (?gone, io (RFound i ev)) w)\<lparr>fw_Router := RFound i ev\<rparr>)"
    using gone [of "RFound i ev"] i(1) assms(2)
    by (intro fs_handle [of _ i env]) (simp_all add: fs_running_def wake_sender_def put_entry_def)
  moreover have "fs_step ((put_entry i (?gone, io (RFound i ev)) w)\<lparr>fw_Router := RFound i ev\<rparr>) w1"
    using i(1) assms(2) by (intro fs_router) (simp_all add: fs_running_def router_step_def put_entry_def w1_def)
  ultimately have run1: "fs_step\<^sup>*\<^sup>* ?w0 w1" using found by (meson rtranclp.rtrancl_into_rtrancl)
  have nil: "fw_Router w1 = RNil" "fw_Errors w1 = []" using assms(2) by (simp_all add: w1_def put_entry_def)
  have "fs_step\<^sup>*\<^sup>* w w1" using event run1 by (rule converse_rtranclp_into_rtranclp)
  then have "world_sound w1" using sound by (rule watch.run_inv)
  with nil_for_ever nil(1) have ever: "\<forall>w'. fs_step\<^sup>*\<^sup>* w1 w' \<longrightarrow> fw_Router w' = RNil \<and>
      (\<forall>j<length (fw_Entries w1). pe_Event (fw_Entries w' ! j) = None \<or> pe_Event (fw_Entries w' ! j) = pe_Event (fw_Entries w1 ! j))"
    unfolding events_kept_def by blast
  define w2 where "w2 = (put_entry i (?gone, io (RSend i ev)) w)\<lparr>fw_Router := RPanic\<rparr>"
  have "fs_step (w\<lparr>fw_Router := RFound i ev\<rparr>) (w\<lparr>fw_Router := RSend i ev\<rparr>)"
    using opened assms(2) by (intro fs_router) (simp_all add: fs_running_def router_step_def)
  moreover have "fs_step (w\<lparr>fw_Router := RSend i ev\<rparr>) w2"
    using gone [of "RSend i ev"] i(1) assms(2)
    by (intro fs_handle [of _ i env]) (simp_all add: fs_running_def wake_sender_def put_entry_def w2_def)
  ultimately have run2: "fs_step\<^sup>*\<^sup>* ?w0 w2" using found by (meson rtranclp.rtrancl_into_rtrancl)
  have panic: "fw_Router w2 = RPanic" "fw_Errors w2 = []" using assms(2) by (simp_all add: w2_def put_entry_def)
  then have "\<nexists>w'. fs_step w2 w'" by (auto simp: fs_running_def elim: fs_step.cases)
  with event run1 nil ever run2 panic show ?thesis by blast
qed

section \<open>What is reported and what is not\<close>

text \<open>The steps of an event from the router to its hash.\<close>

lemma routed:
  assumes "entry_of (ev_Name ev) (fw_Entries w) = Some i" and "ready (fw_Entries w ! i)"
  shows "routeEvent ev w = Some (w\<lparr>fw_Entries := (fw_Entries w)[i := (fw_Entries w ! i)\<lparr>pe_Event := Some ev\<rparr>]\<rparr>)"
  using assms by (simp add: routeEvent_def route_target_def)

text \<open>
  A write to a file whose signature is known and that was not reported lately gives exactly one critical
  alert once it is hashed, with the old and the new signature.
\<close>

theorem modified_file_reported:
  assumes "fw_Errors w = []" and "fw_Router w = RIdle" and "entry_of p (fw_Entries w) = Some i" and "ready (fw_Entries w ! i)"
    and "pe_Hashing (fw_Entries w ! i) = []"
    and "signatures_of (pe_objects (fw_Entries w ! i)) p = Some (h, reported)" and "h \<noteq> []" and "respond env p \<noteq> h"
    and "reported = zero_time \<or> alertSuppressWindow < fw_Now w + d - reported" and "0 \<le> d"
  shows "\<exists>w1 w2 w3. routeEvent \<lparr>ev_Name = p, ev_Op = op_Write\<rparr> w = Some w1 \<and> handle_step env' i w1 = Some w2 \<and>
    reply_step env i 0 (w2\<lparr>fw_Now := fw_Now w2 + d\<rparr>) = Some w3 \<and> fs_step\<^sup>*\<^sup>* w w3 \<and>
    io_Alerts (fw_IO w3) = io_Alerts (fw_IO w) @ [signature_alert (fw_Now w + d, p, h, respond env p)]"
proof -
  let ?pe = "fw_Entries w ! i" and ?ev = "\<lparr>ev_Name = p, ev_Op = op_Write\<rparr>"
  have i: "i < length (fw_Entries w)" using entry_of_Some [OF assms(3)] by simp
  define w1 where "w1 = w\<lparr>fw_Entries := (fw_Entries w)[i := ?pe\<lparr>pe_Event := Some ?ev\<rparr>]\<rparr>"
  define w2 where "w2 = put_entry i (?pe\<lparr>pe_Event := None, pe_Hashing := [p]\<rparr>, fw_IO w) w"
  have 1: "routeEvent ?ev w = Some w1" unfolding w1_def by (rule routed) (simp_all add: assms)
  have "\<not> pe_Stopped ?pe" using assms(4) by (simp add: ready_def)
  then have 2: "handle_step env' i w1 = Some w2"
    using i assms(2,5) by (simp add: handle_step_def w1_def w2_def handleEvent_def handle_objects_def put_entry_def Let_def
        op_Create_def op_Write_def op_Remove_def)
  let ?q = "?pe\<lparr>pe_Event := None, pe_Hashing := []\<rparr>"
  obtain pe' io' where u: "updateObjectHash (fw_Now w + d) p (respond env p) (?q, fw_IO w) = (pe', io')"
    "io_Alerts io' = io_Alerts (fw_IO w) @ map signature_alert (snd (spec_update (fw_Now w + d) p (respond env p) (signatures_of (pe_objects ?q))))"
    by (rule updateObjectHash_spec)
  define w3 where "w3 = put_entry i (pe', io') (w2\<lparr>fw_Now := fw_Now w2 + d\<rparr>)"
  have 3: "reply_step env i 0 (w2\<lparr>fw_Now := fw_Now w2 + d\<rparr>) = Some w3"
    using i u(1) by (simp add: reply_step_def w3_def w2_def put_entry_def Let_def)
  have e: "fw_Errors w1 = []" "fw_Errors w2 = []" "length (fw_Entries w1) = length (fw_Entries w)"
    "length (fw_Entries w2) = length (fw_Entries w)" "fw_Router w1 = RIdle" "fw_Router w2 = RIdle"
    using assms(1,2) by (simp_all add: w1_def w2_def put_entry_def)
  have "fs_step\<^sup>*\<^sup>* w w1" using assms(1,2) 1 by (rule routed_run)
  moreover have "fs_step w1 w2" using e i 2 by (intro fs_handle [of w1 i env']) (simp_all add: fs_running_def)
  moreover have "fs_step w2 (w2\<lparr>fw_Now := fw_Now w2 + d\<rparr>)" using e assms(10) by (intro fs_tick) (simp_all add: fs_running_def)
  moreover have "fs_step (w2\<lparr>fw_Now := fw_Now w2 + d\<rparr>) w3" using e i 3 by (intro fs_reply [of _ i env 0]) (simp_all add: fs_running_def)
  ultimately have run: "fs_step\<^sup>*\<^sup>* w w3" by (meson rtranclp.rtrancl_into_rtrancl)
  have "io_Alerts (fw_IO w3) = io_Alerts (fw_IO w) @ [signature_alert (fw_Now w + d, p, h, respond env p)]"
    using u(2) assms(6-9) by (simp add: w3_def put_entry_def spec_update_def)
  with 1 2 3 run show ?thesis by blast
qed


text \<open>
  A file that is replaced, as most programs write files: the removal of the old one is reported as low, and
  the contents of the new one, whatever they are, become its signature without a report.
\<close>

theorem replaced_file_unreported:
  assumes "fw_Errors w = []" and "fw_Router w = RIdle" and "entry_of p (fw_Entries w) = Some i" and "ready (fw_Entries w ! i)"
    and "pe_path (fw_Entries w ! i) = p" and "pe_objects (fw_Entries w ! i) = [x]" and "ob_monitored x"
    and "pe_Starting (fw_Entries w ! i) = 0" and "fe_Stat env p = Inr Regular"
  shows "\<exists>w1 w2 w3 w4. routeEvent \<lparr>ev_Name = p, ev_Op = op_Remove\<rparr> w = Some w1 \<and> handle_step env i w1 = Some w2 \<and>
    recreate_step env i w2 = Some w3 \<and> records_step env i w3 = Some w4 \<and> fs_step\<^sup>*\<^sup>* w w4 \<and>
    io_Alerts (fw_IO w4) = io_Alerts (fw_IO w) @ [\<lparr>al_Severity = ''low'', al_Alert = ''path '' @ p @ '' removed''\<rparr>] \<and>
    signatures_of (pe_objects (fw_Entries w4 ! i)) p = Some (respond env p, zero_time)"
proof -
  let ?pe = "fw_Entries w ! i" and ?ev = "\<lparr>ev_Name = p, ev_Op = op_Remove\<rparr>"
  have i: "i < length (fw_Entries w)" "hasObject ?pe p" using entry_of_Some [OF assms(3)] by simp_all
  then have x: "ob_path x = p" using assms(6) by (simp add: hasObject_def)
  define w1 where "w1 = w\<lparr>fw_Entries := (fw_Entries w)[i := ?pe\<lparr>pe_Event := Some ?ev\<rparr>]\<rparr>"
  define st2 where "st2 = removeObject p (?pe\<lparr>pe_Event := None\<rparr>, newAlert ALERT_LOW (''path '' @ p @ '' removed'') (fw_IO w))"
  define w2 where "w2 = put_entry i st2 w"
  define st3 where "st3 = fst (entry_initialize env ((fst st2)\<lparr>pe_Lost := False\<rparr>, snd st2))"
  define w3 where "w3 = put_entry i st3 w2"
  define w4 where "w4 = put_entry i (initial_records env (fw_Now w) st3) w3"
  have st2: "fst st2 = ?pe\<lparr>pe_Event := None, pe_objects := [], pe_Events := False, pe_Lost := True\<rparr>"
    "io_Alerts (snd st2) = io_Alerts (fw_IO w) @ [\<lparr>al_Severity = ''low'', al_Alert = ''path '' @ p @ '' removed''\<rparr>]"
    by (simp_all add: st2_def removeObject_def assms(6,7) x Let_def newAlert_def fs_log_def removeMonitor_def)
  have init: "entry_initialize env ((fst st2)\<lparr>pe_Lost := False\<rparr>, snd st2) = (st3, Inr ())"
    "pe_objects (fst st3) = [new_object p TYPE_FILE True]" "pe_Starting (fst st3) = 1" "io_Alerts (snd st3) = io_Alerts (snd st2)"
    by (simp_all add: st3_def entry_initialize_def start_objects_def addObject_def hasObject_def st2(1) assms(5,8,9) Let_def
        fs_log_def addMonitor_def)
  have 1: "routeEvent ?ev w = Some w1" unfolding w1_def by (rule routed) (simp_all add: assms)
  have "\<not> pe_Stopped ?pe" using assms(4) by (simp add: ready_def)
  then have 2: "handle_step env i w1 = Some w2"
    using i assms(2) by (simp add: handle_step_def w1_def w2_def handleEvent_def handle_objects_def put_entry_def Let_def st2_def hasObject_def
        op_Create_def op_Write_def op_Remove_def split: prod.split)
  have 3: "recreate_step env i w2 = Some w3"
    using i st2(1) assms(5,9) init(1) by (simp add: recreate_step_def w3_def w2_def put_entry_def Let_def)
  have 4: "records_step env i w3 = Some w4"
    using i init(3) by (simp add: records_step_def w4_def w3_def w2_def put_entry_def)
  have e: "fw_Errors w1 = []" "fw_Errors w2 = []" "fw_Errors w3 = []" "length (fw_Entries w1) = length (fw_Entries w)"
    "length (fw_Entries w2) = length (fw_Entries w)" "length (fw_Entries w3) = length (fw_Entries w)"
    "fw_Router w1 = RIdle" "fw_Router w2 = RIdle" "fw_Router w3 = RIdle"
    using assms(1,2) by (simp_all add: w1_def w2_def w3_def put_entry_def)
  have "fs_step\<^sup>*\<^sup>* w w1" using assms(1,2) 1 by (rule routed_run)
  moreover have "fs_step w1 w2" using e i 2 by (intro fs_handle [of w1 i env]) (simp_all add: fs_running_def)
  moreover have "fs_step w2 w3" using e i 3 by (intro fs_recreate [of w2 i env]) (simp_all add: fs_running_def)
  moreover have "fs_step w3 w4" using e i 4 by (intro fs_records [of w3 i env]) (simp_all add: fs_running_def)
  ultimately have run: "fs_step\<^sup>*\<^sup>* w w4" by (meson rtranclp.rtrancl_into_rtrancl)
  obtain pe3 io3 where s3: "st3 = (pe3, io3)" by (cases st3)
  let ?q = "pe3\<lparr>pe_Starting := pe_Starting pe3 - 1\<rparr>"
  obtain pe' io' where u: "updateObjectHash (fw_Now w) p (respond env p) (?q, io3) = (pe', io')"
    "io_Alerts io' = io_Alerts io3 @ map signature_alert (snd (spec_update (fw_Now w) p (respond env p) (signatures_of (pe_objects ?q))))"
    "signatures_of (pe_objects pe') = fst (spec_update (fw_Now w) p (respond env p) (signatures_of (pe_objects ?q)))"
    by (rule updateObjectHash_spec)
  have "initial_records env (fw_Now w) st3 = (pe', io')"
    using init(2) u(1) by (simp add: initial_records_def s3 new_object_def)
  moreover have "signatures_of (pe_objects ?q) p = Some ([], zero_time)"
    using init(2) by (simp add: s3 new_object_def)
  ultimately have "io_Alerts (fw_IO w4) = io_Alerts (snd st2)"
    "signatures_of (pe_objects (fw_Entries w4 ! i)) p = Some (respond env p, zero_time)"
    using u(2,3) init(4) i by (simp_all add: w4_def w3_def w2_def put_entry_def spec_update_def s3)
  with 1 2 3 4 run st2(2) show ?thesis by auto
qed

text \<open>
  C36. A directory that was moved away stays an object, since the module does nothing on a rename; when it is
  moved back, the event for its creation is an error, which ends the module. The router waits for the events, which it
  gives to the handler in the steps that \<open>routeEvent\<close> puts together.
\<close>

theorem moved_directory_ends_module:
  assumes "fw_Errors w = []" and "fw_Router w = RIdle" and "entry_of p (fw_Entries w) = Some i" and "ready (fw_Entries w ! i)"
    and "pe_recursive (fw_Entries w ! i)" and "fe_Stat env p = Inr Directory"
  shows "\<exists>w1 w2 w3. routeEvent \<lparr>ev_Name = p, ev_Op = 8\<rparr> w = Some w1 \<and> handle_step env i w1 = Some w \<and>
    routeEvent \<lparr>ev_Name = p, ev_Op = op_Create\<rparr> w = Some w2 \<and> handle_step env i w2 = Some w3 \<and> fs_step\<^sup>*\<^sup>* w w3 \<and>
    fw_Errors w3 = [Errorf ''object for path %v already exists'' [AStr p]] \<and> (\<nexists>w4. fs_step w3 w4)"
proof -
  let ?pe = "fw_Entries w ! i"
  have i: "i < length (fw_Entries w)" "hasObject ?pe p" using entry_of_Some [OF assms(3)] by simp_all
  define taken where "taken = (\<lambda>ev. w\<lparr>fw_Entries := (fw_Entries w)[i := ?pe\<lparr>pe_Event := Some ev\<rparr>]\<rparr>)"
  have ro: "routeEvent \<lparr>ev_Name = p, ev_Op = op\<rparr> w = Some (taken \<lparr>ev_Name = p, ev_Op = op\<rparr>)" for op
    unfolding taken_def by (rule routed) (simp_all add: assms)
  have s: "\<not> pe_Stopped ?pe" and none: "?pe\<lparr>pe_Event := None\<rparr> = ?pe" using assms(4) by (simp_all add: ready_def)
  have 1: "handle_step env i (taken \<lparr>ev_Name = p, ev_Op = 8\<rparr>) = Some w"
    using i s none assms(2) by (simp add: handle_step_def taken_def handleEvent_def handle_objects_def put_entry_def
        op_Create_def op_Write_def op_Remove_def)
  define w3 where "w3 = (put_entry i (?pe\<lparr>pe_Stopped := True\<rparr>, fw_IO w) w)\<lparr>fw_Errors := [Errorf ''object for path %v already exists'' [AStr p]]\<rparr>"
  have 2: "handle_step env i (taken \<lparr>ev_Name = p, ev_Op = op_Create\<rparr>) = Some w3"
    using i s none assms(1,2,5,6) by (simp add: handle_step_def taken_def handleEvent_def handle_objects_def put_entry_def Let_def
        addObject_def hasObject_def w3_def)
  have "fs_step\<^sup>*\<^sup>* w (taken \<lparr>ev_Name = p, ev_Op = op_Create\<rparr>)" using assms(1,2) ro by (rule routed_run)
  moreover have "fs_step (taken \<lparr>ev_Name = p, ev_Op = op_Create\<rparr>) w3"
    using assms(1,2) i 2 by (intro fs_handle [of _ i env]) (simp_all add: taken_def fs_running_def)
  ultimately have run: "fs_step\<^sup>*\<^sup>* w w3" by (meson rtranclp.rtrancl_into_rtrancl)
  have "fw_Errors w3 \<noteq> []" by (simp add: w3_def)
  then have "\<nexists>w4. fs_step w3 w4" by (auto simp: fs_running_def elim: fs_step.cases)
  with ro 1 2 run show ?thesis by (auto simp: w3_def)
qed

text \<open>
  In a directory that is watched without its subdirectories a file created later is never an object: its events
  and their hashes leave everything but the log as it is.
\<close>

lemma new_file_ignored:
  assumes "\<not> pe_recursive pe" and "\<not> hasObject pe p" and "op = op_Create \<or> op = op_Write"
  shows "handleEvent env \<lparr>ev_Name = p, ev_Op = op\<rparr> (pe, io) = ((pe\<lparr>pe_Hashing := pe_Hashing pe @ [p]\<rparr>, io), Inr ()) \<and>
    (\<exists>l. updateObjectHash now p h (pe, io) = (pe, io\<lparr>io_Log := l\<rparr>))"
proof -
  have "signatures_of (pe_objects pe) p = None" using assms(2) by (auto simp: signatures_of_def find_None_iff hasObject_iff)
  then have "update_objects now p h (pe_objects pe) io = None" by (simp add: update_objects_None)
  with assms show ?thesis
    by (auto simp: handleEvent_def handle_objects_def updateObjectHash_def fs_log_def op_Create_def op_Write_def op_Remove_def)
qed


section \<open>An example\<close>

definition example_fs_env :: fs_env where
  "example_fs_env = \<lparr>fe_Stat = (\<lambda>p. if p = ''/f'' then Inr Regular else Inr Directory),
     fe_Walk = (\<lambda>p. [(p, Inr Directory), (p @ ''/s'', Inr Directory), (p @ ''/t'', Inr Regular)]), fe_ReadDir = (\<lambda>_. []),
     fe_Open = (\<lambda>_. Inr [Piece ''new'']), fe_sha256 = (\<lambda>s. s)\<rparr>"

definition example_fs_world :: "profile_entry \<Rightarrow> fs_world" where
  "example_fs_world pe = \<lparr>fw_Entries = [pe], fw_Router = RIdle, fw_IO = \<lparr>io_Alerts = [], io_Log = [], io_Watched = []\<rparr>, fw_Errors = [], fw_Now = 5\<rparr>"

definition example_file_entry :: profile_entry where
  "example_file_entry = (new_entry ''/f'' False)\<lparr>pe_Events := True, pe_objects := [(new_object ''/f'' TYPE_FILE True)\<lparr>ob_current := ''old''\<rparr>]\<rparr>"

definition example_dir_entry :: profile_entry where
  "example_dir_entry = (new_entry ''/d'' True)\<lparr>pe_Events := True,
     pe_objects := [new_object ''/d'' TYPE_DIRECTORY True, new_object ''/d/s'' TYPE_DIRECTORY True]\<rparr>"

lemmas example_fs = example_fs_env_def example_fs_world_def example_file_entry_def example_dir_entry_def new_entry_def new_object_def
  hasObject_def ready_def respond_def zero_time_def

lemma example_started:
  "fw_Entries (fsWatch example_fs_env 5 [''recursive:/d'']) = [example_dir_entry\<lparr>pe_Starting := 1\<rparr>]"
  "fw_Errors (fsWatch example_fs_env 5 [''recursive:/d'']) = []"
  "fw_Router (fsWatch example_fs_env 5 [''recursive:/d'']) = RIdle"
  by (simp_all add: fsWatch_def config_entry_def entry_initialize_def start_objects_def processDirectory_def addObject_def Let_def
      example_fs)

theorem alerts_spaced_witness:
  "\<exists>log. io_Alerts (snd (hash_updates [(1, ''/f'', ''a''), (2, ''/f'', ''b''), (3, ''/f'', ''c'')] (example_file_entry, fw_IO (example_fs_world example_file_entry)))) =
     map signature_alert log \<and>
   sorted_wrt (\<lambda>(t, p, _, _) (t', q, _, _). p = q \<longrightarrow> alertSuppressWindow < t' - t) log"
proof -
  have "\<forall>(t, q, h)\<in>set [(1, ''/f'', ''a''), (2, ''/f'', ''b''), (3, ''/f'', ''c'')]. t \<noteq> zero_time"
    by (simp add: zero_time_def)
  from alerts_spaced [OF this, of "(example_file_entry, fw_IO (example_fs_world example_file_entry))"] show ?thesis
    by (auto simp: example_fs_world_def)
qed

theorem watch_invariant_witness:
  "distinct (map ob_path (filter ob_monitored (pe_objects (fw_Entries (fsWatch example_fs_env 5 [''recursive:/d'']) ! 0)))) \<and>
   pe_Events (fw_Entries (fsWatch example_fs_env 5 [''recursive:/d'']) ! 0)"
proof -
  let ?w = "fsWatch example_fs_env 5 [''recursive:/d'']"
  have "fw_Entries ?w ! 0 \<in> set (fw_Entries ?w)" by (simp add: example_started)
  moreover have "pe_objects (fw_Entries ?w ! 0) \<noteq> []" by (simp add: example_started example_dir_entry_def)
  ultimately show ?thesis using watch_invariant [OF rtranclp.rtrancl_refl, of example_fs_env 5 "[''recursive:/d'']"] by blast
qed

theorem router_delivers_witness:
  "\<exists>w. fs_step\<^sup>*\<^sup>* (fsWatch example_fs_env 5 [''recursive:/d'']) w \<and>
     fw_Router w = RScan False 0 \<lparr>ev_Name = ''/d/s/x'', ev_Op = op_Create\<rparr> \<and> route_work w \<le> 8"
proof -
  let ?w = "fsWatch example_fs_env 5 [''recursive:/d'']" and ?ev = "\<lparr>ev_Name = ''/d/s/x'', ev_Op = op_Create\<rparr>"
  have "fs_running ?w" "fw_Router ?w = RIdle" using example_started by (simp_all add: fs_running_def)
  then have "fs_step ?w (?w\<lparr>fw_Router := RScan False 0 ?ev\<rparr>)" by (rule fs_event)
  then have run: "fs_step\<^sup>*\<^sup>* ?w (?w\<lparr>fw_Router := RScan False 0 ?ev\<rparr>)" ..
  from router_delivers [OF this] example_started(1) have "route_work (?w\<lparr>fw_Router := RScan False 0 ?ev\<rparr>) \<le> 8" by simp
  with run show ?thesis by (intro exI [of _ "?w\<lparr>fw_Router := RScan False 0 ?ev\<rparr>"]) simp
qed

theorem removal_race_witness:
  "\<exists>w. fs_step\<^sup>*\<^sup>* (fsWatch example_fs_env 5 [''/f'']) w \<and> fw_Errors w = [] \<and> fw_Router w = RNil"
proof -
  let ?w = "fsWatch example_fs_env 5 [''/f'']" and ?rm = "\<lparr>ev_Name = ''/f'', ev_Op = op_Remove\<rparr>"
  define w where "w = ?w\<lparr>fw_Entries := (fw_Entries ?w)[0 := (fw_Entries ?w ! 0)\<lparr>pe_Event := Some ?rm\<rparr>]\<rparr>"
  have start: "fw_Entries ?w = [(new_entry ''/f'' False)\<lparr>pe_Events := True, pe_objects := [new_object ''/f'' TYPE_FILE True], pe_Starting := 1\<rparr>]"
    "fw_Errors ?w = []" "fw_Router ?w = RIdle"
    by (simp_all add: fsWatch_def config_entry_def entry_initialize_def start_objects_def addObject_def Let_def example_fs)
  have "routeEvent ?rm ?w = Some w"
    unfolding w_def by (rule routed) (simp_all add: start hasObject_def new_object_def new_entry_def ready_def)
  then have run: "fs_step\<^sup>*\<^sup>* ?w w" by (rule routed_run [OF start(2,3)])
  have "fw_Errors w = []" "fw_Router w = RIdle" "entry_of ''/f'' (fw_Entries w) = Some 0"
    "pe_objects (fw_Entries w ! 0) = [new_object ''/f'' TYPE_FILE True]" "ob_monitored (new_object ''/f'' TYPE_FILE True)"
    "pe_Event (fw_Entries w ! 0) = Some ?rm" "ev_Name \<lparr>ev_Name = ''/f'', ev_Op = op_Create\<rparr> = ''/f''"
    by (simp_all add: w_def start hasObject_def new_object_def)
  from removal_race [OF run this] run show ?thesis by (meson converse_rtranclp_into_rtranclp rtranclp_trans)
qed

theorem modified_file_reported_witness:
  "\<exists>w. fs_step\<^sup>*\<^sup>* (example_fs_world example_file_entry) w \<and>
     io_Alerts (fw_IO w) = [signature_alert (7, ''/f'', ''old'', ''new'')]"
proof -
  let ?w = "example_fs_world example_file_entry"
  have "fw_Errors ?w = []" "fw_Router ?w = RIdle" "entry_of ''/f'' (fw_Entries ?w) = Some 0" "ready (fw_Entries ?w ! 0)" "pe_Hashing (fw_Entries ?w ! 0) = []"
    "signatures_of (pe_objects (fw_Entries ?w ! 0)) ''/f'' = Some (''old'', zero_time)" "''old'' \<noteq> []"
    "respond example_fs_env ''/f'' \<noteq> ''old''" "zero_time = zero_time \<or> alertSuppressWindow < fw_Now ?w + 2 - zero_time" "(0::int) \<le> 2"
    by (simp_all add: example_fs)
  from modified_file_reported [OF this, of example_fs_env] show ?thesis
    by (auto simp: example_fs_world_def respond_def example_fs_env_def)
qed

theorem replaced_file_unreported_witness:
  "\<exists>w. fs_step\<^sup>*\<^sup>* (example_fs_world example_file_entry) w \<and>
     io_Alerts (fw_IO w) = [\<lparr>al_Severity = ''low'', al_Alert = ''path /f removed''\<rparr>] \<and>
     signatures_of (pe_objects (fw_Entries w ! 0)) ''/f'' = Some (''new'', zero_time)"
proof -
  let ?w = "example_fs_world example_file_entry" and ?x = "(new_object ''/f'' TYPE_FILE True)\<lparr>ob_current := ''old''\<rparr>"
  have "fw_Errors ?w = []" "fw_Router ?w = RIdle" "entry_of ''/f'' (fw_Entries ?w) = Some 0" "ready (fw_Entries ?w ! 0)" "pe_path (fw_Entries ?w ! 0) = ''/f''"
    "pe_objects (fw_Entries ?w ! 0) = [?x]" "ob_monitored ?x" "pe_Starting (fw_Entries ?w ! 0) = 0"
    "fe_Stat example_fs_env ''/f'' = Inr Regular"
    by (simp_all add: example_fs)
  from replaced_file_unreported [OF this] show ?thesis
    by (auto simp: example_fs_world_def respond_def example_fs_env_def)
qed

theorem moved_directory_ends_module_witness:
  "\<exists>w. fs_step\<^sup>*\<^sup>* (example_fs_world example_dir_entry) w \<and>
     fw_Errors w = [Errorf ''object for path %v already exists'' [AStr ''/d/s'']]"
proof -
  let ?w = "example_fs_world example_dir_entry"
  have "fw_Errors ?w = []" "fw_Router ?w = RIdle" "entry_of ''/d/s'' (fw_Entries ?w) = Some 0" "ready (fw_Entries ?w ! 0)" "pe_recursive (fw_Entries ?w ! 0)"
    "fe_Stat example_fs_env ''/d/s'' = Inr Directory"
    by (simp_all add: example_fs)
  from moved_directory_ends_module [OF this] show ?thesis by blast
qed

end
