(* ===== verification/Timedrift.thy ===== *)
theory Timedrift
  imports GoStd "HOL-Library.Word"
begin

unbundle bit_operations_syntax

text \<open>
  The timedrift module (\<open>modules/timedrift/timedrift.go\<close>): the servers of \<open>/etc/ntp.conf\<close> and the fallbacks, the
  decoding of the answer of a server, the comparison with the local clock, results and parameters.

  The network, the contents of \<open>/etc/ntp.conf\<close>, the reading and printing of durations and times and the
  parsing of flags are parameters.
\<close>

section \<open>The environment\<close>

text \<open>
  What an exchange with a server gives: the bytes that were read, the time it took, and the local time right
  after it. \<open>tv_Query n\<close> is the exchange of the attempt number \<open>n\<close>.
\<close>

record ntp_answer =
  na_Data :: "8 word list"
  na_Latency :: duration
  na_LocalTime :: time

record timedrift_env =
  tv_ParseDuration :: "string \<Rightarrow> duration result"
  tv_DurationString :: "duration \<Rightarrow> string"
  tv_TimeString :: "time \<Rightarrow> string"
  tv_NtpConf :: "string result"
  tv_Query :: "nat \<Rightarrow> string \<Rightarrow> ntp_answer result"
  tv_ParseFlags :: "string list \<Rightarrow> string result"

text \<open>\<open>t.Sub(u)\<close> stays within the durations.\<close>

definition time_Sub :: "time \<Rightarrow> time \<Rightarrow> duration" where
  "time_Sub t u = max (- (2 ^ 63)) (min (2 ^ 63 - 1) (t - u))"

section \<open>Network time\<close>

text \<open>The request of 48 bytes is also the buffer of the answer, which may be shorter.\<close>

definition ntp_request :: "8 word list" where
  "ntp_request = (push_bit 3 3 OR 3) # replicate 47 0"

definition ntp_received :: "8 word list \<Rightarrow> 8 word list" where
  "ntp_received bs = take 48 bs @ drop (length bs) ntp_request"

definition ntp_word :: "8 word list \<Rightarrow> nat \<Rightarrow> 64 word" where
  "ntp_word d k = ucast (d ! (k + 3)) OR push_bit 8 (ucast (d ! (k + 2))) OR push_bit 16 (ucast (d ! (k + 1))) OR
     push_bit 24 (ucast (d ! k))"

text \<open>January 1, 1900.\<close>

definition ntp_epoch :: time where "ntp_epoch = - 2208988800 * second"

definition ntp_time :: "8 word list \<Rightarrow> time result" where
  "ntp_time d =
     (let sec = ntp_word d 40; frac = ntp_word d 44
      in if sec = 0 \<or> frac = 0 then Inl (errors_New ''null response received from NTP host'')
         else (let nsec = sec * 1000000000 + drop_bit 32 (frac * 1000000000)
               in Inr (ntp_epoch + sint nsec)))"

definition GetNetworkTime :: "timedrift_env \<Rightarrow> nat \<Rightarrow> string \<Rightarrow> (time \<times> ntp_answer) result" where
  "GetNetworkTime env n host =
     and_then (tv_Query env n host) (\<lambda>a. and_then (ntp_time (ntp_received (na_Data a))) (\<lambda>t. Inr (t, a)))"

section \<open>The run\<close>

record td_elements =
  te_HasCheckedDrift :: bool
  te_IsWithinDrift :: bool
  te_Drifts :: "string list"
  te_LocalTime :: time

record ntpstats =
  ns_Host :: string
  ns_Time :: time
  ns_Latency :: duration
  ns_Drift :: duration
  ns_Reachable :: bool

record td_results =
  tr_FoundAnything :: bool
  tr_Success :: bool
  tr_Elements :: "td_elements option"
  tr_NtpStats :: "ntpstats list"
  tr_Errors :: "go_error list"

definition NtpBackupPool :: "string list" where
  "NtpBackupPool = [''time.nist.gov'', ''0.pool.ntp.org'', ''1.pool.ntp.org'', ''2.pool.ntp.org'', ''3.pool.ntp.org'']"

definition timedrift_validate :: "timedrift_env \<Rightarrow> string \<Rightarrow> unit result" where
  "timedrift_validate env drift =
     (if drift = [] then Inr () else and_then (tv_ParseDuration env drift) (\<lambda>_. Inr ()))"

definition conf_servers :: "string \<Rightarrow> string list" where
  "conf_servers s =
     concat (map (\<lambda>l. case Fields l of w # v # _ \<Rightarrow> if w = ''server'' then [v] else [] | _ \<Rightarrow> []) (scan_lines s))"

text \<open>The comparison with the first server that answers; those that do not are recorded.\<close>

definition compare_time :: "timedrift_env \<Rightarrow> duration \<Rightarrow> string \<Rightarrow> time \<Rightarrow> time \<Rightarrow> td_elements \<Rightarrow> td_elements" where
  "compare_time env drift host t localtime el =
     (if localtime < t + wrap64 (- drift)
      then el\<lparr>te_IsWithinDrift := False, te_Drifts := te_Drifts el @
             [''Local time is behind ntp host '' @ host @ '' by '' @ tv_DurationString env (time_Sub t localtime)]\<rparr>
      else if t + drift < localtime
      then el\<lparr>te_IsWithinDrift := False, te_Drifts := te_Drifts el @
             [''Local time is ahead of ntp host '' @ host @ '' by '' @ tv_DurationString env (time_Sub localtime t)]\<rparr>
      else el)"

fun try_servers :: "timedrift_env \<Rightarrow> duration \<Rightarrow> nat \<Rightarrow> string list \<Rightarrow> td_elements \<times> ntpstats list \<Rightarrow> td_elements \<times> ntpstats list" where
  "try_servers env drift n [] st = st"
| "try_servers env drift n (host # hosts) (el, stats) =
     (case GetNetworkTime env n host of
        Inl _ \<Rightarrow> try_servers env drift (Suc n) hosts
                  (el, stats @ [\<lparr>ns_Host = host, ns_Time = zero_time, ns_Latency = 0, ns_Drift = 0, ns_Reachable = False\<rparr>])
      | Inr (t, a) \<Rightarrow>
          ((compare_time env drift host t (na_LocalTime a) el)\<lparr>te_HasCheckedDrift := True\<rparr>,
           stats @ [\<lparr>ns_Host = host, ns_Time = t, ns_Latency = na_Latency a,
             ns_Drift = time_Sub (na_LocalTime a) t, ns_Reachable = True\<rparr>]))"

text \<open>\<open>buildResults\<close>; \<open>success\<close> stays false with an error.\<close>

definition timedrift_buildResults :: "string \<Rightarrow> td_elements \<Rightarrow> ntpstats list \<Rightarrow> td_results \<Rightarrow> td_results" where
  "timedrift_buildResults drift el stats r =
     r\<lparr>tr_Elements := Some el, tr_NtpStats := stats,
       tr_Success := (if drift \<noteq> [] \<and> \<not> te_HasCheckedDrift el then False
                      else if tr_Errors r = [] then True else tr_Success r)\<rparr>"

definition td_start :: td_results where
  "td_start = \<lparr>tr_FoundAnything = False, tr_Success = False, tr_Elements = None, tr_NtpStats = [], tr_Errors = []\<rparr>"

text \<open>\<open>Run\<close>, from the parameters read; \<open>now\<close> is the local time at its start.\<close>

definition timedrift_Run :: "timedrift_env \<Rightarrow> time \<Rightarrow> string result \<Rightarrow> td_results" where
  "timedrift_Run env now params =
     (let el = \<lparr>te_HasCheckedDrift = False, te_IsWithinDrift = False, te_Drifts = [], te_LocalTime = now\<rparr>
      in case and_then params (\<lambda>drift. and_then (timedrift_validate env drift) (\<lambda>_.
                if drift = [] then Inr (drift, 0) else and_then (tv_ParseDuration env drift) (\<lambda>d. Inr (drift, d)))) of
           Inl e \<Rightarrow> td_start\<lparr>tr_Errors := [e]\<rparr>
         | Inr (drift, d) \<Rightarrow>
             if drift = [] then timedrift_buildResults drift el [] (td_start\<lparr>tr_FoundAnything := True\<rparr>)
             else (let (servers, errors) = (case tv_NtpConf env of
                         Inl e \<Rightarrow> ([], [Errorf (''Using backup NTP hosts. Failed to read /etc/ntp.conf with error '' @ quoted ''%v'') [AErr e]])
                       | Inr s \<Rightarrow> (conf_servers s, []));
                       (el, stats) = try_servers env d 0 (servers @ NtpBackupPool) (el\<lparr>te_IsWithinDrift := True\<rparr>, [])
                   in timedrift_buildResults drift el stats
                        (td_start\<lparr>tr_Errors := errors, tr_FoundAnything := \<not> te_IsWithinDrift el\<rparr>)))"

section \<open>Printing and parameters\<close>

definition timedrift_PrintResults :: "timedrift_env \<Rightarrow> (go_error \<Rightarrow> string) \<Rightarrow> string \<Rightarrow> td_results \<Rightarrow> td_elements \<Rightarrow> bool \<Rightarrow> string list" where
  "timedrift_PrintResults env text exectime r el foundOnly =
     [''local time is '' @ tv_TimeString env (te_LocalTime el)] @
     (if \<not> te_HasCheckedDrift el then []
      else if te_IsWithinDrift el then [''local time is within acceptable drift from NTP servers'']
      else ''local time is out of sync from NTP servers'' # te_Drifts el) @
     (if foundOnly then []
      else concat (map (\<lambda>e. [''error:'', text e]) (tr_Errors r)) @
           [''stat: execution time was '' @ exectime] @
           map (\<lambda>s. if ns_Reachable s
                    then ''stat: '' @ ns_Host s @ '' responded in '' @ tv_DurationString env (ns_Latency s) @ '' with time '' @
                         tv_TimeString env (ns_Time s) @ ''. local time drifts by '' @ tv_DurationString env (ns_Drift s)
                    else ''stat: '' @ ns_Host s @ '' was unreachable'') (tr_NtpStats r) @
           [if tr_Success r then ''timedrift module has succeeded'' else ''timedrift module has failed''])"

text \<open>\<open>ParamsCreator\<close>: the lines that are typed until one is taken; the end of the input is an empty line.\<close>

fun timedrift_creator :: "timedrift_env \<Rightarrow> string list \<Rightarrow> string" where
  "timedrift_creator env [] = []"
| "timedrift_creator env (l # ls) =
     (if l = ''help'' then timedrift_creator env ls
      else if l \<noteq> [] \<and> \<not> is_ok (tv_ParseDuration env l) then timedrift_creator env ls
      else l)"

definition timedrift_ParamsCreator :: "timedrift_env \<Rightarrow> string list \<Rightarrow> string result" where
  "timedrift_ParamsCreator env ls =
     (let drift = timedrift_creator env ls in and_then (timedrift_validate env drift) (\<lambda>_. Inr drift))"

definition timedrift_ParamsParser :: "timedrift_env \<Rightarrow> string list \<Rightarrow> string result" where
  "timedrift_ParamsParser env args =
     (if args \<noteq> [] \<and> hd args = ''help'' then Inl (errors_New ''help printed'')
      else if args = [] then Inr []
      else and_then (tv_ParseFlags env args) (\<lambda>drift.
             (case tv_ParseDuration env drift of
                Inl _ \<Rightarrow> Inl (errors_New ''invalid drift duration. try help.'')
              | Inr _ \<Rightarrow> and_then (timedrift_validate env drift) (\<lambda>_. Inr drift))))"

end
