(* ===== verification/TimedriftProps.thy ===== *)
theory TimedriftProps
  imports Timedrift
begin

unbundle bit_operations_syntax

text \<open>
  Properties of the timedrift module: the arithmetic on the answer of a time server, and the verdict of a run.
\<close>

section \<open>The time of an answer\<close>

text \<open>The value of the bytes of a number, the first one the most significant.\<close>

definition be32 :: "8 word list \<Rightarrow> int" where
  "be32 bs = foldl (\<lambda>n b. n * 256 + uint b) 0 bs"

lemma be32_4: "be32 [a, b, c, d] = uint a * 2 ^ 24 + uint b * 2 ^ 16 + uint c * 2 ^ 8 + uint d"
  by (simp add: be32_def)

lemma byte_bound: "uint (b :: 8 word) < 256"
  using uint_lt2p [of b] by simp

lemma be32_bound:
  assumes "length bs = 4" shows "0 \<le> be32 bs \<and> be32 bs < 2 ^ 32"
proof -
  obtain a b c d where bs: "bs = [a, b, c, d]" using assms by (auto simp: length_Suc_conv numeral_eq_Suc)
  show ?thesis using byte_bound [of a] byte_bound [of b] byte_bound [of c] byte_bound [of d] uint_ge_0 [of a] uint_ge_0 [of b]
    uint_ge_0 [of c] uint_ge_0 [of d] by (simp add: bs be32_4)
qed

lemma bytes_or:
  fixes a b c d :: "8 word"
  shows "ucast a OR push_bit 8 (ucast b) OR push_bit 16 (ucast c) OR push_bit 24 (ucast d) =
    (of_int (be32 [d, c, b, a]) :: 64 word)"
proof -
  have lt: "n < 8" if "bit (x :: 8 word) n" for x n using that bit_imp_le_length [of x n] by simp
  have uc: "bit (ucast x :: 64 word) n \<longleftrightarrow> bit x n" for x :: "8 word" and n
    using lt [of x n] by (auto simp: bit_simps)
  have pu: "bit (push_bit k (ucast x :: 64 word)) n \<longleftrightarrow> k \<le> n \<and> n < 64 \<and> bit x (n - k)" for x :: "8 word" and n k
    by (auto simp: bit_push_bit_iff uc)
  have 1: "ucast a OR push_bit 8 (ucast b) = (ucast a + push_bit 8 (ucast b) :: 64 word)"
    by (rule disjunctive_add [symmetric]) (use lt in \<open>fastforce simp: uc pu\<close>)
  have 2: "(ucast a OR push_bit 8 (ucast b)) OR push_bit 16 (ucast c) = ((ucast a OR push_bit 8 (ucast b)) + push_bit 16 (ucast c) :: 64 word)"
    by (rule disjunctive_add_eq_or [symmetric], rule bit_eqI) (use lt in \<open>fastforce simp: uc pu bit_and_iff bit_or_iff\<close>)
  have 3: "((ucast a OR push_bit 8 (ucast b)) OR push_bit 16 (ucast c)) OR push_bit 24 (ucast d) =
     (((ucast a OR push_bit 8 (ucast b)) OR push_bit 16 (ucast c)) + push_bit 24 (ucast d) :: 64 word)"
    by (rule disjunctive_add_eq_or [symmetric], rule bit_eqI) (use lt in \<open>fastforce simp: uc pu bit_and_iff bit_or_iff\<close>)
  have m: "push_bit k (ucast x :: 64 word) = of_int (uint x * 2 ^ k)" for x :: "8 word" and k
    by (simp add: push_bit_eq_mult)
  have "ucast a OR push_bit 8 (ucast b) OR push_bit 16 (ucast c) OR push_bit 24 (ucast d) =
      ((ucast a OR push_bit 8 (ucast b)) OR push_bit 16 (ucast c)) OR (push_bit 24 (ucast d) :: 64 word)"
    by (simp only: or.assoc)
  also have "\<dots> = ucast a + push_bit 8 (ucast b) + push_bit 16 (ucast c) + push_bit 24 (ucast d)"
    by (subst 3, subst 2, subst 1) (rule refl)
  finally have "ucast a OR push_bit 8 (ucast b) OR push_bit 16 (ucast c) OR push_bit 24 (ucast d) =
      ucast a + push_bit 8 (ucast b) + push_bit 16 (ucast c) + (push_bit 24 (ucast d) :: 64 word)" .
  then show ?thesis unfolding m be32_4 by (simp add: algebra_simps)
qed

lemma ntp_word_value:
  assumes "k + 4 \<le> length d"
  shows "ntp_word d k = of_int (be32 (take 4 (drop k d)))"
proof -
  have "4 \<le> length (drop k d)" using assms by simp
  then obtain a b c e r where r: "drop k d = a # b # c # e # r"
    by (cases "drop k d"; cases "tl (drop k d)"; cases "tl (tl (drop k d))"; cases "tl (tl (tl (drop k d)))") auto
  have "d ! (k + j) = (a # b # c # e # r) ! j" for j using assms by (simp add: r [symmetric])
  from this [of 0] this [of 1] this [of 2] this [of 3] show ?thesis by (simp add: ntp_word_def bytes_or r)
qed

lemma of_int_word64: "0 \<le> x \<Longrightarrow> x < 2 ^ 64 \<Longrightarrow> uint (of_int x :: 64 word) = x"
  by (simp add: uint_word_of_int_eq take_bit_int_eq_self)

lemma sint_word64: "0 \<le> x \<Longrightarrow> x < 2 ^ 63 \<Longrightarrow> sint (of_int x :: 64 word) = x"
  by (simp add: sint_uint of_int_word64 signed_take_bit_int_eq_self)

lemma drop_bit_word64:
  assumes "0 \<le> x" "x < 2 ^ 64"
  shows "drop_bit n (of_int x :: 64 word) = of_int (x div 2 ^ n)"
proof (rule word_uint_eqI)
  have "x div 2 ^ n \<le> x" using zdiv_mono2 [of x 1 "2 ^ n"] assms(1) by simp
  then have "0 \<le> x div 2 ^ n" "x div 2 ^ n < 2 ^ 64" using assms by (simp_all add: pos_imp_zdiv_nonneg_iff)
  then have "uint (of_int (x div 2 ^ n) :: 64 word) = x div 2 ^ n" by (rule of_int_word64)
  moreover have "uint (drop_bit n (of_int x :: 64 word)) = drop_bit n (take_bit 64 (uint (of_int x :: 64 word)))"
    using unsigned_drop_bit_eq [of n "of_int x :: 64 word", where 'a = int] by simp
  ultimately show "uint (drop_bit n (of_int x :: 64 word)) = uint (of_int (x div 2 ^ n) :: 64 word)"
    unfolding of_int_word64 [OF assms] using assms by (simp add: take_bit_int_eq_self drop_bit_eq_div)
qed

lemma ntp_nsec:
  assumes "0 \<le> S" "S < 2 ^ 32" "0 \<le> F" "F < 2 ^ 32"
  shows "sint (of_int S * 1000000000 + drop_bit 32 (of_int F * 1000000000) :: 64 word) = S * second + F * second div 2 ^ 32"
proof -
  have "(of_int F * 1000000000 :: 64 word) = of_int (F * second)" by simp
  moreover have "drop_bit 32 (of_int (F * second) :: 64 word) = of_int (F * second div 2 ^ 32)"
    using assms(3,4) by (intro drop_bit_word64) auto
  ultimately have "of_int S * 1000000000 + drop_bit 32 (of_int F * 1000000000) =
      (of_int (S * second + F * second div 2 ^ 32) :: 64 word)" by simp
  moreover have "0 \<le> S * second + F * second div 2 ^ 32" "S * second + F * second div 2 ^ 32 < 2 ^ 63"
    using assms by auto
  ultimately show ?thesis by (simp only: sint_word64)
qed


lemma ntp_time_value:
  assumes "48 \<le> length bs"
  shows "ntp_time (ntp_received bs) =
    (let S = be32 (take 4 (drop 40 bs)); F = be32 (take 4 (drop 44 bs))
     in if S = 0 \<or> F = 0 then Inl (errors_New ''null response received from NTP host'')
        else Inr (ntp_epoch + S * second + F * second div 2 ^ 32))"
proof -
  let ?S = "be32 (take 4 (drop 40 bs))" and ?F = "be32 (take 4 (drop 44 bs))"
  have d: "ntp_received bs = take 48 bs" using assms by (simp add: ntp_received_def ntp_request_def)
  have "take 4 (drop 40 (take 48 bs)) = take 4 (drop 40 bs)" "take 4 (drop 44 (take 48 bs)) = take 4 (drop 44 bs)"
    by (simp_all add: drop_take)
  then have w: "ntp_word (take 48 bs) 40 = of_int ?S" "ntp_word (take 48 bs) 44 = of_int ?F"
    using assms by (simp_all add: ntp_word_value)
  have b: "0 \<le> ?S" "?S < 2 ^ 32" "0 \<le> ?F" "?F < 2 ^ 32"
    using assms be32_bound [of "take 4 (drop 40 bs)"] be32_bound [of "take 4 (drop 44 bs)"] by simp_all
  have z: "(of_int x :: 64 word) = 0 \<longleftrightarrow> x = 0" if "0 \<le> x" "x < 2 ^ 32" for x
  proof -
    have "uint (of_int x :: 64 word) = x" using that by (intro of_int_word64) simp_all
    then show ?thesis by (metis of_int_0 unsigned_0)
  qed
  show ?thesis using z [OF b(1,2)] z [OF b(3,4)] by (simp only: ntp_time_def d w Let_def ntp_nsec [OF b] add.assoc)
qed

text \<open>The time stamp of RFC 5905 for an instant, given in nanoseconds since 1900.\<close>

definition ntp_bytes :: "int \<Rightarrow> 8 word list" where
  "ntp_bytes x = [of_int (x div 2 ^ 24), of_int (x div 2 ^ 16), of_int (x div 2 ^ 8), of_int x]"

definition ntp_stamp :: "int \<Rightarrow> 8 word list" where
  "ntp_stamp x = ntp_bytes (x div second) @ ntp_bytes (x mod second * 2 ^ 32 div second)"

lemma be32_ntp_bytes: "0 \<le> x \<Longrightarrow> x < 2 ^ 32 \<Longrightarrow> be32 (ntp_bytes x) = x"
proof -
  assume x: "0 \<le> x" "x < 2 ^ 32"
  have m: "uint (of_int y :: 8 word) = y mod 256" for y by (simp add: uint_word_of_int)
  have "x div 2 ^ 24 < 256" "0 \<le> x div 2 ^ 24" using x by auto
  then have a: "x div 2 ^ 24 mod 256 = x div 2 ^ 24" by simp
  have b: "(x div 2 ^ 24) * 256 + x div 2 ^ 16 mod 256 = x div 2 ^ 16" "(x div 2 ^ 16) * 256 + x div 2 ^ 8 mod 256 = x div 2 ^ 8"
    "(x div 2 ^ 8) * 256 + x mod 256 = x"
    using div_mult_mod_eq [of "x div 2 ^ 16" 256] div_mult_mod_eq [of "x div 2 ^ 8" 256] div_mult_mod_eq [of x 256]
    by (simp_all add: zdiv_zmult2_eq [symmetric])
  show ?thesis unfolding ntp_bytes_def be32_def foldl.simps m by (simp only: a b mult_zero_left add_0_left)
qed

lemma ntp_stamp_time:
  assumes "second \<le> x" and "x < 2 ^ 32 * second" and "x mod second \<noteq> 0"
    and "length header = 40"
  shows "\<exists>t. ntp_time (ntp_received (header @ ntp_stamp x)) = Inr t \<and> ntp_epoch + x - 1 \<le> t \<and> t \<le> ntp_epoch + x"
proof -
  define S where "S = x div second"
  define f where "f = x mod second"
  define F where "F = f * 2 ^ 32 div second"
  have S: "0 < S" "S < 2 ^ 32" using assms(1,2) by (auto simp: S_def)
  have f: "0 < f" "f < second" using assms(3) by (auto simp: f_def less_le)
  then have F: "0 < F" "F < 2 ^ 32" by (auto simp: F_def)
  have x: "x = S * second + f" by (simp add: S_def f_def)
  have "take 4 (drop 40 (header @ ntp_stamp x)) = ntp_bytes S" "take 4 (drop 44 (header @ ntp_stamp x)) = ntp_bytes F"
    using assms(4) by (simp_all add: ntp_stamp_def ntp_bytes_def S_def F_def f_def)
  moreover have "48 \<le> length (header @ ntp_stamp x)" using assms(4) by (simp add: ntp_stamp_def ntp_bytes_def)
  moreover have "be32 (ntp_bytes S) = S" "be32 (ntp_bytes F) = F" using S F by (simp_all add: be32_ntp_bytes)
  ultimately have "ntp_time (ntp_received (header @ ntp_stamp x)) = Inr (ntp_epoch + S * second + F * second div 2 ^ 32)"
    using S(1) F(1) by (simp add: ntp_time_value Let_def)
  moreover have "F * second div 2 ^ 32 \<le> f \<and> f - 1 \<le> F * second div 2 ^ 32"
  proof -
    have "F * second \<le> f * 2 ^ 32" "f * 2 ^ 32 < F * second + second"
      using div_mult_mod_eq [of "f * 2 ^ 32" second] pos_mod_bound [of second "f * 2 ^ 32"] pos_mod_sign [of second "f * 2 ^ 32"]
      unfolding F_def by linarith+
    then have "F * 1000000000 \<le> f * 4294967296" "f * 4294967296 < F * 1000000000 + 4294967296" by simp_all
    then have "F * 1000000000 div 4294967296 \<le> f \<and> f - 1 \<le> F * 1000000000 div 4294967296" by linarith
    then show ?thesis by simp
  qed
  ultimately show ?thesis unfolding x by auto
qed


text \<open>
  The time of an answer of 48 bytes is exact: no step of the arithmetic on 64 bits wraps around. An answer
  whose seconds or whose fraction is zero is refused.
\<close>

theorem ntp_time_exact:
  assumes "48 \<le> length bs"
  shows "ntp_time (ntp_received bs) =
    (let S = be32 (take 4 (drop 40 bs)); F = be32 (take 4 (drop 44 bs))
     in if S = 0 \<or> F = 0 then Inl (errors_New ''null response received from NTP host'')
        else Inr (ntp_epoch + S * second + F * second div 2 ^ 32))"
  using assms by (rule ntp_time_value)

text \<open>
  C40. A server that sends the time of an instant before 2036, not on a full second, is understood to within a
  nanosecond.
\<close>

theorem ntp_time_roundtrip:
  assumes "second \<le> x" and "x < 2 ^ 32 * second" and "x mod second \<noteq> 0" and "length header = 40"
  shows "\<exists>t. ntp_time (ntp_received (header @ ntp_stamp x)) = Inr t \<and> ntp_epoch + x - 1 \<le> t \<and> t \<le> ntp_epoch + x"
  using assms by (rule ntp_stamp_time)

section \<open>The verdict\<close>

lemma compare_time_within:
  assumes "0 \<le> d" "in_int64 d" "te_IsWithinDrift el" "te_Drifts el = []"
  shows "te_IsWithinDrift (compare_time env d host t l el) = (\<bar>l - t\<bar> \<le> d)"
    "te_Drifts (compare_time env d host t l el) = [] \<longleftrightarrow> \<bar>l - t\<bar> \<le> d"
proof -
  have "wrap64 (- d) = - d" using assms(1,2) by (intro wrap64_id) (simp add: in_int64_def)
  with assms show "te_IsWithinDrift (compare_time env d host t l el) = (\<bar>l - t\<bar> \<le> d)"
    "te_Drifts (compare_time env d host t l el) = [] \<longleftrightarrow> \<bar>l - t\<bar> \<le> d"
    by (auto simp: compare_time_def)
qed

lemma try_servers_first:
  assumes "k < length hosts" and "\<And>j. j < k \<Longrightarrow> \<not> is_ok (GetNetworkTime env (n + j) (hosts ! j))"
    and "GetNetworkTime env (n + k) (hosts ! k) = Inr (t, a)"
  shows "\<exists>stats'. try_servers env d n hosts (el, stats) =
    ((compare_time env d (hosts ! k) t (na_LocalTime a) el)\<lparr>te_HasCheckedDrift := True\<rparr>, stats') \<and>
    length stats' = length stats + k + 1"
  using assms
proof (induction hosts arbitrary: n k stats)
  case Nil
  then show ?case by simp
next
  case (Cons h hosts)
  show ?case
  proof (cases k)
    case 0
    with Cons.prems(3) show ?thesis by simp
  next
    case (Suc m)
    from Cons.prems(2) [of 0] Suc obtain e where e: "GetNetworkTime env n h = Inl e"
      by (cases "GetNetworkTime env n h") auto
    have "\<not> is_ok (GetNetworkTime env (Suc n + j) (hosts ! j))" if "j < m" for j
      using Cons.prems(2) [of "Suc j"] that Suc by simp
    with Cons.IH [of m "Suc n"] Cons.prems Suc e show ?thesis by fastforce
  qed
qed

lemma try_servers_none:
  assumes "\<And>j. j < length hosts \<Longrightarrow> \<not> is_ok (GetNetworkTime env (n + j) (hosts ! j))"
  shows "fst (try_servers env d n hosts (el, stats)) = el"
  using assms
proof (induction hosts arbitrary: n stats)
  case Nil
  then show ?case by simp
next
  case (Cons h hosts)
  from Cons.prems [of 0] obtain e where e: "GetNetworkTime env n h = Inl e"
    by (cases "GetNetworkTime env n h") auto
  have "\<not> is_ok (GetNetworkTime env (Suc n + j) (hosts ! j))" if "j < length hosts" for j
    using Cons.prems [of "Suc j"] that by simp
  with Cons.IH e show ?case by simp
qed

text \<open>
  The verdict of a run is that of the first server that answers: the local time is within the drift exactly
  when it differs from the time of that server by no more than the drift; no later server is asked.
\<close>

theorem drift_verdict:
  assumes "drift \<noteq> []" and "tv_ParseDuration env drift = Inr d" and "0 \<le> d" and "in_int64 d"
    and "tv_NtpConf env = Inr conf" and "k < length (conf_servers conf @ NtpBackupPool)"
    and "\<And>j. j < k \<Longrightarrow> \<not> is_ok (GetNetworkTime env j ((conf_servers conf @ NtpBackupPool) ! j))"
    and "GetNetworkTime env k ((conf_servers conf @ NtpBackupPool) ! k) = Inr (t, a)"
  shows "\<exists>el. tr_Elements (timedrift_Run env now (Inr drift)) = Some el \<and> te_HasCheckedDrift el \<and> te_LocalTime el = now \<and>
    te_IsWithinDrift el = (\<bar>na_LocalTime a - t\<bar> \<le> d) \<and> (te_Drifts el = [] \<longleftrightarrow> \<bar>na_LocalTime a - t\<bar> \<le> d) \<and>
    tr_FoundAnything (timedrift_Run env now (Inr drift)) = (\<bar>na_LocalTime a - t\<bar> > d) \<and>
    tr_Success (timedrift_Run env now (Inr drift)) \<and>
    length (tr_NtpStats (timedrift_Run env now (Inr drift))) = k + 1"
proof -
  let ?el = "\<lparr>te_HasCheckedDrift = False, te_IsWithinDrift = True, te_Drifts = [], te_LocalTime = now\<rparr>"
    and ?hosts = "conf_servers conf @ NtpBackupPool"
  have "\<And>j. j < k \<Longrightarrow> \<not> is_ok (GetNetworkTime env (0 + j) (?hosts ! j))" using assms(7) by simp
  moreover have "GetNetworkTime env (0 + k) (?hosts ! k) = Inr (t, a)" using assms(8) by simp
  ultimately obtain stats where s: "try_servers env d 0 ?hosts (?el, []) =
      ((compare_time env d (?hosts ! k) t (na_LocalTime a) ?el)\<lparr>te_HasCheckedDrift := True\<rparr>, stats)" "length stats = k + 1"
    using try_servers_first [OF assms(6), of env 0 t a d ?el "[]"] by auto
  have l: "te_LocalTime (compare_time env d (?hosts ! k) t (na_LocalTime a) ?el) = now" by (simp add: compare_time_def)
  have "timedrift_Run env now (Inr drift) =
      timedrift_buildResults drift ((compare_time env d (?hosts ! k) t (na_LocalTime a) ?el)\<lparr>te_HasCheckedDrift := True\<rparr>) stats
        (td_start\<lparr>tr_Errors := [], tr_FoundAnything := \<not> te_IsWithinDrift (compare_time env d (?hosts ! k) t (na_LocalTime a) ?el)\<rparr>)"
    using assms(1,2,5) s(1) by (simp add: timedrift_Run_def timedrift_validate_def Let_def)
  with compare_time_within [OF assms(3,4), of ?el] l s(2) show ?thesis
    by (auto simp: timedrift_buildResults_def td_start_def)
qed

text \<open>When no server answers nothing is found and the run is not successful.\<close>

lemma no_server_no_verdict:
  assumes "drift \<noteq> []" and "tv_ParseDuration env drift = Inr d" and "tv_NtpConf env = Inr conf"
    and "\<And>n host. \<not> is_ok (GetNetworkTime env n host)"
  shows "\<not> tr_Success (timedrift_Run env now (Inr drift)) \<and> \<not> tr_FoundAnything (timedrift_Run env now (Inr drift))"
proof -
  let ?el = "\<lparr>te_HasCheckedDrift = False, te_IsWithinDrift = True, te_Drifts = [], te_LocalTime = now\<rparr>"
  have "fst (try_servers env d 0 (conf_servers conf @ NtpBackupPool) (?el, [])) = ?el"
    by (rule try_servers_none) (simp add: assms(4))
  then show ?thesis using assms(1-3)
    by (auto simp: timedrift_Run_def timedrift_validate_def timedrift_buildResults_def td_start_def split: prod.split)
qed

text \<open>Without a readable \<open>/etc/ntp.conf\<close> the run is never successful, also when a fallback answers.\<close>

lemma missing_conf_fails:
  assumes "drift \<noteq> []" and "tv_ParseDuration env drift = Inr d" and "tv_NtpConf env = Inl e"
  shows "\<not> tr_Success (timedrift_Run env now (Inr drift))"
  using assms by (auto simp: timedrift_Run_def timedrift_validate_def timedrift_buildResults_def td_start_def split: prod.split)

section \<open>An example\<close>

definition example_ntp_answer :: ntp_answer where
  "example_ntp_answer = \<lparr>na_Data = replicate 40 0 @ ntp_stamp (3900000000 * second + 500000000), na_Latency = 10,
     na_LocalTime = ntp_epoch + 3900000000 * second + 700000000\<rparr>"

definition example_td_env :: timedrift_env where
  "example_td_env = \<lparr>tv_ParseDuration = (\<lambda>_. Inr second), tv_DurationString = (\<lambda>_. []), tv_TimeString = (\<lambda>_. []),
     tv_NtpConf = Inr [], tv_Query = (\<lambda>n h. if n = 0 then Inl (errors_New ''no such host'') else Inr example_ntp_answer),
     tv_ParseFlags = (\<lambda>_. Inl (errors_New ''no flag''))\<rparr>"

theorem ntp_time_exact_witness:
  "ntp_time (ntp_received (replicate 40 0 @ [0, 0, 0, 1, 0x80, 0, 0, 0])) = Inr (ntp_epoch + second + 500000000)"
  using ntp_time_exact [of "replicate 40 0 @ [0, 0, 0, 1, 0x80, 0, 0, 0]"] by (simp add: be32_def)

theorem ntp_time_roundtrip_witness:
  "\<exists>t. ntp_time (ntp_received (replicate 40 0 @ ntp_stamp (3900000000 * second + 500000000))) = Inr t \<and>
     ntp_epoch + (3900000000 * second + 500000000) - 1 \<le> t \<and> t \<le> ntp_epoch + (3900000000 * second + 500000000)"
  by (rule ntp_time_roundtrip) simp_all

lemma example_network_time:
  "GetNetworkTime example_td_env 0 ((conf_servers [] @ NtpBackupPool) ! 0) = Inl (errors_New ''no such host'')"
  "\<exists>t. GetNetworkTime example_td_env 1 ((conf_servers [] @ NtpBackupPool) ! 1) = Inr (t, example_ntp_answer) \<and>
     \<bar>na_LocalTime example_ntp_answer - t\<bar> \<le> second"
proof -
  show "GetNetworkTime example_td_env 0 ((conf_servers [] @ NtpBackupPool) ! 0) = Inl (errors_New ''no such host'')"
    by (simp add: GetNetworkTime_def example_td_env_def)
  have "\<exists>t. ntp_time (ntp_received (na_Data example_ntp_answer)) = Inr t \<and>
      ntp_epoch + (3900000000 * second + 500000000) - 1 \<le> t \<and> t \<le> ntp_epoch + (3900000000 * second + 500000000)"
    unfolding example_ntp_answer_def ntp_answer.select_convs by (rule ntp_stamp_time) simp_all
  then show "\<exists>t. GetNetworkTime example_td_env 1 ((conf_servers [] @ NtpBackupPool) ! 1) = Inr (t, example_ntp_answer) \<and>
      \<bar>na_LocalTime example_ntp_answer - t\<bar> \<le> second"
    by (auto simp: GetNetworkTime_def example_td_env_def example_ntp_answer_def)
qed

theorem drift_verdict_witness:
  "\<exists>el. tr_Elements (timedrift_Run example_td_env 0 (Inr ''1s'')) = Some el \<and> te_HasCheckedDrift el \<and> te_IsWithinDrift el \<and>
     tr_Success (timedrift_Run example_td_env 0 (Inr ''1s'')) \<and> length (tr_NtpStats (timedrift_Run example_td_env 0 (Inr ''1s''))) = 2"
proof -
  obtain t where t: "GetNetworkTime example_td_env 1 ((conf_servers [] @ NtpBackupPool) ! 1) = Inr (t, example_ntp_answer)"
    "\<bar>na_LocalTime example_ntp_answer - t\<bar> \<le> second" using example_network_time(2) by blast
  have "''1s'' \<noteq> []" "tv_ParseDuration example_td_env ''1s'' = Inr second" "(0::int) \<le> second" "in_int64 second"
    "tv_NtpConf example_td_env = Inr []" "1 < length (conf_servers [] @ NtpBackupPool)"
    by (simp_all add: example_td_env_def in_int64_def NtpBackupPool_def)
  from drift_verdict [OF this _ t(1), of 0] t(2) example_network_time(1) show ?thesis by auto
qed

end
