(* ===== verification/Memory.thy ===== *)
theory Memory
  imports Modules "HOL-Library.Sublist"
begin

text \<open>
  The memory module (\<open>modules/memory/memory.go\<close>, \<open>modules/memory/params.go\<close>): searches over the names, the
  libraries and the memory of all processes.

  Processes, their names and libraries and the chunks of memory that are read are parameters, and so are regular
  expressions; the walk over overlapping windows of the memory is that of the vendored \<open>memaccess.go\<close>. The map of
  searches is an association list in the order of its iteration. The numbers of the options are floating-point
  numbers; they are taken to be integers. Debugging output is left out.
\<close>

section \<open>Searches\<close>

datatype mem_code = CheckName | CheckLib | CheckByte | CheckContent

record mem_check =
  mk_code :: mem_code
  mk_matched :: nat
  mk_matchedPs :: "int list"
  mk_value :: string
  mk_bytes :: string
  mk_regex :: "string \<Rightarrow> bool"

record mem_options =
  mo_Offset :: int
  mo_MaxLength :: int
  mo_LogFailures :: bool
  mo_MatchAll :: bool

text \<open>The mask of the checks is the set of their codes.\<close>

record mem_search =
  ms_Description :: string
  ms_Names :: "string list"
  ms_Libraries :: "string list"
  ms_Bytes :: "string list"
  ms_Contents :: "string list"
  ms_Options :: mem_options
  ms_checks :: "mem_check list"
  ms_checkmask :: "mem_code set"
  ms_isactive :: bool

record mem_stats =
  mt_ProcessCount :: nat
  mt_MemoryRead :: nat
  mt_TotalHits :: nat
  mt_Failures :: "go_error list"

type_synonym mem_searches = "(string \<times> mem_search) list"

text \<open>A chunk of memory: the soft errors met before it, its address, its bytes.\<close>

type_synonym mem_chunk = "go_error list \<times> nat \<times> string"

record mem_env =
  mm_Compile :: "string \<Rightarrow> (string \<Rightarrow> bool) result"
  mm_Pids :: "(int list \<times> go_error list) result"
  mm_Open :: "int \<Rightarrow> go_error list result"
  mm_Name :: "int \<Rightarrow> (string \<times> go_error list) result"
  mm_NameAfter :: "int \<Rightarrow> string"
  mm_Libs :: "int \<Rightarrow> string \<Rightarrow> string list \<times> go_error list \<times> go_error option"
  mm_Walk :: "int \<Rightarrow> nat \<Rightarrow> nat \<Rightarrow> mem_chunk list \<times> go_error list \<times> go_error option"
  mm_Uintptr :: "int \<Rightarrow> nat"
  mm_ParseFloat :: "string \<Rightarrow> int \<times> go_error option"

definition mem_nil :: go_error where
  "mem_nil = errors_New ''runtime error: invalid memory address or nil pointer dereference''"

text \<open>\<open>hex.DecodeString\<close>.\<close>

fun hex_decode :: "string \<Rightarrow> string option" where
  "hex_decode [] = Some []"
| "hex_decode [a] = None"
| "hex_decode (a # b # s) =
     (case (digits_val 16 0 [a, b], hex_decode s) of (Some d, Some r) \<Rightarrow> Some (char_of d # r) | _ \<Rightarrow> None)"

definition max_length :: int where "max_length = 2 ^ 64"

definition new_check :: "mem_code \<Rightarrow> string \<Rightarrow> string \<Rightarrow> (string \<Rightarrow> bool) \<Rightarrow> mem_check" where
  "new_check code v bs re = \<lparr>mk_code = code, mk_matched = 0, mk_matchedPs = [], mk_value = v, mk_bytes = bs, mk_regex = re\<rparr>"

definition add_check :: "mem_search \<Rightarrow> mem_check \<Rightarrow> mem_search" where
  "add_check s c = s\<lparr>ms_checks := ms_checks s @ [c], ms_checkmask := insert (mk_code c) (ms_checkmask s)\<rparr>"

text \<open>\<open>MustCompile\<close> panics on an expression that does not compile.\<close>

definition mem_regex_check :: "mem_env \<Rightarrow> mem_code \<Rightarrow> mem_search \<Rightarrow> string \<Rightarrow> mem_search result" where
  "mem_regex_check env code s v = and_then (mm_Compile env v) (\<lambda>re. Inr (add_check s (new_check code v [] re)))"

definition bytes_check :: "mem_search \<Rightarrow> string \<Rightarrow> mem_search result" where
  "bytes_check s v = (case hex_decode v of None \<Rightarrow> Inl (errors_New ''encoding/hex: invalid byte'')
     | Some bs \<Rightarrow> Inr (add_check s (new_check CheckByte v bs (\<lambda>_. False))))"

definition mem_makeChecks :: "mem_env \<Rightarrow> mem_search \<Rightarrow> mem_search result" where
  "mem_makeChecks env s =
     (let s = (if mo_MaxLength (ms_Options s) = 0 then s\<lparr>ms_Options := (ms_Options s)\<lparr>mo_MaxLength := max_length\<rparr>\<rparr> else s)
      in recovered ''makeChecks''
           (and_then (fold_res (mem_regex_check env CheckName) s (ms_Names s)) (\<lambda>s.
            and_then (fold_res (mem_regex_check env CheckLib) s (ms_Libraries s)) (\<lambda>s.
            and_then (fold_res (mem_regex_check env CheckContent) s (ms_Contents s)) (\<lambda>s.
            fold_res bytes_check s (ms_Bytes s))))))"

definition mem_activate :: "mem_search \<Rightarrow> mem_search" where "mem_activate s = s\<lparr>ms_isactive := True\<rparr>"
definition mem_deactivate :: "mem_search \<Rightarrow> mem_search" where "mem_deactivate s = s\<lparr>ms_isactive := False\<rparr>"

definition mem_storeMatch :: "int \<Rightarrow> mem_check \<Rightarrow> mem_check" where
  "mem_storeMatch pid c =
     (if list_ex (\<lambda>p. p = pid) (mk_matchedPs c) then c
      else c\<lparr>mk_matched := mk_matched c + 1, mk_matchedPs := mk_matchedPs c @ [pid]\<rparr>)"

section \<open>Validation\<close>

definition label_char :: "char \<Rightarrow> bool" where
  "label_char c \<longleftrightarrow> is_upper c \<or> is_lower c \<or> is_digit c \<or> c = CHR ''_'' \<or> c = CHR ''-''"

definition mem_validateLabel :: "string \<Rightarrow> unit result" where
  "mem_validateLabel label =
     (if label = [] then Inl (errors_New ''empty labels are not permitted'')
      else if 64 < length label \<or> \<not> list_all label_char label
      then Inl (Errorf (''The syntax of label '' @ quoted ''%s'' @ '' is invalid. Must match regex %s'')
                  [AStr label, AStr ''^([a-zA-Z0-9_-]){1,64}$''])
      else Inr ())"

definition mem_validateRegex :: "mem_env \<Rightarrow> string \<Rightarrow> unit result" where
  "mem_validateRegex env v =
     (if v = [] then Inl (errors_New ''Empty values are not permitted'')
      else (case mm_Compile env v of
              Inl e \<Rightarrow> Inl (Errorf (''Invalid regexp '' @ quoted ''%s'' @ ''. Must be a regexp. Compilation failed with '' @ quoted ''%v'')
                         [AStr v, AErr e])
            | Inr _ \<Rightarrow> Inr ()))"

definition validateBytes :: "string \<Rightarrow> unit result" where
  "validateBytes v =
     (if v = [] then Inl (errors_New ''Empty values are not permitted'')
      else if hex_decode v = None
      then Inl (Errorf (''Invalid bytes '' @ quoted ''%s'' @ ''. Must be an hexadecimal byte string without leading 0x. ex: '' @ quoted ''ff00d1ab'')
                  [AStr v])
      else Inr ())"

definition mem_validate_search :: "mem_env \<Rightarrow> string \<times> mem_search \<Rightarrow> unit result" where
  "mem_validate_search env ls =
     (case ls of (label, s) \<Rightarrow>
        and_then (mem_validateLabel label) (\<lambda>_.
        and_then (all_res (mem_validateRegex env) (ms_Contents s)) (\<lambda>_.
        and_then (all_res (mem_validateRegex env) (ms_Names s)) (\<lambda>_.
        and_then (all_res (mem_validateRegex env) (ms_Libraries s)) (\<lambda>_.
          all_res validateBytes (ms_Bytes s))))))"

definition mem_ValidateParameters :: "mem_env \<Rightarrow> mem_searches \<Rightarrow> unit result" where
  "mem_ValidateParameters env ss = all_res (mem_validate_search env) ss"

section \<open>Names and libraries\<close>

text \<open>The checks with their new matches, and whether those of the kind all matched.\<close>

definition name_check :: "int \<Rightarrow> string \<Rightarrow> mem_check \<Rightarrow> mem_check \<times> bool" where
  "name_check pid procname c =
     (if mk_code c \<noteq> CheckName then (c, True)
      else if mk_regex c procname then (mem_storeMatch pid c, True) else (c, False))"

definition mem_checkName :: "int \<Rightarrow> string \<Rightarrow> mem_search \<Rightarrow> mem_search \<times> bool" where
  "mem_checkName pid procname s =
     (if CheckName \<notin> ms_checkmask s then (s, True)
      else (let cs = map (name_check pid procname) (ms_checks s)
            in (s\<lparr>ms_checks := map fst cs\<rparr>, list_all snd cs)))"

text \<open>
  After a soft error that is to be logged the code takes the text of the hard one, which need not be there. The
  last component is that panic; the checks after it are left as they are.
\<close>

fun lib_checks ::
  "mem_env \<Rightarrow> int \<Rightarrow> bool \<Rightarrow> mem_check list \<Rightarrow> go_error list \<Rightarrow> mem_check list \<times> bool \<times> go_error list \<times> go_error option" where
  "lib_checks env pid log [] fails = ([], True, fails, None)"
| "lib_checks env pid log (c # cs) fails =
     (if mk_code c \<noteq> CheckLib
      then (case lib_checks env pid log cs fails of (cs, all, fails, p) \<Rightarrow> (c # cs, all, fails, p))
      else (case mm_Libs env pid (mk_value c) of (libs, serr, err) \<Rightarrow>
        (let fails = (case err of None \<Rightarrow> fails | Some e \<Rightarrow> fails @ [e])
         in if serr \<noteq> [] \<and> log \<and> err = None then (c # cs, True, fails, Some mem_nil)
            else (let fails = (if serr \<noteq> [] \<and> log then (case err of None \<Rightarrow> fails | Some e \<Rightarrow> fails @ [e]) else fails)
                  in case lib_checks env pid log cs fails of (cs, all, fails, p) \<Rightarrow>
                       if libs \<noteq> [] then (mem_storeMatch pid c # cs, all, fails, p) else (c # cs, False, fails, p)))))"

definition mem_checkLibraries ::
  "mem_env \<Rightarrow> int \<Rightarrow> mem_search \<Rightarrow> go_error list \<Rightarrow> mem_search \<times> bool \<times> go_error list \<times> go_error option" where
  "mem_checkLibraries env pid s fails =
     (if CheckLib \<notin> ms_checkmask s then (s, True, fails, None)
      else (case lib_checks env pid (mo_LogFailures (ms_Options s)) (ms_checks s) fails of
              (cs, all, fails, p) \<Rightarrow> (s\<lparr>ms_checks := cs\<rparr>, all, fails, p)))"

definition first_checks ::
  "mem_env \<Rightarrow> int \<Rightarrow> string \<Rightarrow> mem_search \<Rightarrow> go_error list \<Rightarrow> mem_search \<times> go_error list \<times> go_error option" where
  "first_checks env pid procname s fails =
     (if \<not> ms_isactive s then (s, fails, None)
      else (case mem_checkName pid procname s of
              (s, named) \<Rightarrow>
                if \<not> named \<and> mo_MatchAll (ms_Options s) then (mem_deactivate s, fails, None)
                else (case mem_checkLibraries env pid s fails of
                        (s, linked, fails, Some p) \<Rightarrow> (s, fails, Some p)
                      | (s, linked, fails, None) \<Rightarrow>
                          (if \<not> linked \<and> mo_MatchAll (ms_Options s) then mem_deactivate s else s, fails, None))))"

fun first_pass ::
  "mem_env \<Rightarrow> int \<Rightarrow> string \<Rightarrow> mem_searches \<Rightarrow> go_error list \<Rightarrow> mem_searches \<times> go_error list \<times> go_error option" where
  "first_pass env pid procname [] fails = ([], fails, None)"
| "first_pass env pid procname ((label, s) # ss) fails =
     (case first_checks env pid procname s fails of
        (s, fails, Some p) \<Rightarrow> ((label, s) # ss, fails, Some p)
      | (s, fails, None) \<Rightarrow>
          (case first_pass env pid procname ss fails of (ss, fails, p) \<Rightarrow> ((label, s) # ss, fails, p)))"

section \<open>Windows of memory\<close>

text \<open>
  \<open>SlidingWalkMemory\<close>: a buffer of which the second half takes each chunk after the first. The \<open>copy\<close> that
  should move the second half to the front copies the first half to itself. The function that is called returns
  whether to go on.
\<close>

record 'st slide =
  sl_buffer :: string
  sl_start :: nat
  sl_buffered :: nat
  sl_st :: 'st

definition slide_call :: "('st \<Rightarrow> nat \<Rightarrow> string \<Rightarrow> 'st \<times> bool) \<Rightarrow> nat \<Rightarrow> 'st slide \<Rightarrow> 'st slide \<times> bool" where
  "slide_call f n sl = (case f (sl_st sl) (sl_start sl) (take n (sl_buffer sl)) of (st, go) \<Rightarrow> (sl\<lparr>sl_st := st\<rparr>, go))"

definition slide_flush :: "nat \<Rightarrow> ('st \<Rightarrow> nat \<Rightarrow> string \<Rightarrow> 'st \<times> bool) \<Rightarrow> nat \<Rightarrow> 'st slide \<Rightarrow> 'st slide \<times> bool" where
  "slide_flush bsize f addr sl =
     (if sl_start sl + sl_buffered sl < addr \<and> sl_start sl \<noteq> 0
      then (case (if 0 < sl_buffered sl \<and> sl_buffered sl < bsize then slide_call f (sl_buffered sl) sl else (sl, True)) of
              (sl, True) \<Rightarrow> (sl\<lparr>sl_buffered := 0\<rparr>, True) | (sl, False) \<Rightarrow> (sl, False))
      else (sl, True))"

definition slide_chunk :: "nat \<Rightarrow> ('st \<Rightarrow> nat \<Rightarrow> string \<Rightarrow> 'st \<times> bool) \<Rightarrow> nat \<Rightarrow> string \<Rightarrow> 'st slide \<Rightarrow> 'st slide \<times> bool" where
  "slide_chunk bsize f addr bs sl =
     (let half = bsize div 2
      in case slide_flush bsize f addr sl of
           (sl, False) \<Rightarrow> (sl, False)
         | (sl, True) \<Rightarrow>
             if sl_buffered sl = 0
             then (let sl = sl\<lparr>sl_buffer := bs @ drop (length bs) (sl_buffer sl), sl_start := addr\<rparr>
                   in if length bs \<noteq> half then slide_call f (length bs) sl else (sl\<lparr>sl_buffered := half\<rparr>, True))
             else (let sl = (if sl_buffered sl = bsize
                             then sl\<lparr>sl_buffer := take half (sl_buffer sl) @ drop half (sl_buffer sl), sl_start := sl_start sl + half\<rparr>
                             else sl);
                       sl = sl\<lparr>sl_buffer := take half (sl_buffer sl) @ bs @ drop (half + length bs) (sl_buffer sl)\<rparr>
                   in case slide_call f (half + length bs) sl of
                        (sl, False) \<Rightarrow> (sl, False)
                      | (sl, True) \<Rightarrow> (sl\<lparr>sl_buffered := (if length bs \<noteq> half then 0 else bsize)\<rparr>, True)))"

text \<open>When the function says to stop there is no error.\<close>

fun slide_chunks ::
  "nat \<Rightarrow> ('st \<Rightarrow> nat \<Rightarrow> string \<Rightarrow> 'st \<times> bool) \<Rightarrow> mem_chunk list \<Rightarrow> go_error list \<Rightarrow> go_error option \<Rightarrow> 'st slide \<Rightarrow>
     'st slide \<times> go_error list \<times> go_error option" where
  "slide_chunks bsize f [] serr err sl = (sl, serr, err)"
| "slide_chunks bsize f ((es, addr, bs) # cs) serr err sl =
     (case slide_chunk bsize f addr bs sl of
        (sl, False) \<Rightarrow> (sl, es, None)
      | (sl, True) \<Rightarrow> (case slide_chunks bsize f cs serr err sl of (sl, fs, e) \<Rightarrow> (sl, es @ fs, e)))"

definition SlidingWalkMemory ::
  "nat \<Rightarrow> ('st \<Rightarrow> nat \<Rightarrow> string \<Rightarrow> 'st \<times> bool) \<Rightarrow> mem_chunk list \<times> go_error list \<times> go_error option \<Rightarrow> 'st \<Rightarrow>
     'st \<times> go_error list \<times> go_error option" where
  "SlidingWalkMemory bsize f walk st =
     (if odd bsize then (st, [], Some (errors_New (''SlidingWalkMemory doesn'' @ [CHR 0x27] @ ''t support odd bufferSizes'')))
      else (case walk of (chunks, serr, err) \<Rightarrow>
        (case slide_chunks bsize f chunks serr err
                \<lparr>sl_buffer = replicate bsize (CHR 0x00), sl_start = 0, sl_buffered = 0, sl_st = st\<rparr> of
           (sl, serr, err) \<Rightarrow>
             (if sl_buffered sl = bsize div 2 then fst (f (sl_st sl) (sl_start sl) (take (bsize div 2) (sl_buffer sl)))
              else sl_st sl, serr, err))))"

section \<open>Contents and bytes\<close>

text \<open>One check on a buffer, and whether it leaves \<open>matchedall\<close> as it is.\<close>

definition buffer_check :: "int \<Rightarrow> string \<Rightarrow> mem_check \<Rightarrow> mem_check \<times> bool" where
  "buffer_check pid buf c =
     (case mk_code c of
        CheckContent \<Rightarrow> if mk_regex c buf then (mem_storeMatch pid c, True) else (c, False)
      | CheckByte \<Rightarrow> if sublist (mk_bytes c) buf then (mem_storeMatch pid c, True) else (c, False)
      | _ \<Rightarrow> (c, True))"

definition search_buffer :: "int \<Rightarrow> nat \<Rightarrow> string \<Rightarrow> mem_search \<Rightarrow> mem_search \<times> bool" where
  "search_buffer pid readBytes buf s =
     (if \<not> ms_isactive s then (s, False)
      else if mo_MaxLength (ms_Options s) \<le> int readBytes then (mem_deactivate s, False)
      else (let cs = map (buffer_check pid buf) (ms_checks s); s = s\<lparr>ms_checks := map fst cs\<rparr>
            in (if list_all snd cs then mem_deactivate s else s, True)))"

text \<open>The function that the walk calls, on the searches and the number of bytes read.\<close>

definition memory_walkfn :: "int \<Rightarrow> mem_searches \<times> nat \<Rightarrow> nat \<Rightarrow> string \<Rightarrow> (mem_searches \<times> nat) \<times> bool" where
  "memory_walkfn pid st addr buf =
     (case st of (ss, readBytes) \<Rightarrow>
        (let readBytes = (if readBytes = 0 then length buf else readBytes + length buf div 2);
             rs = map (\<lambda>(label, s). (label, search_buffer pid readBytes buf s)) ss
         in ((map (\<lambda>(label, s, keep). (label, s)) rs, readBytes), list_ex (\<lambda>(label, s, keep). keep) rs)))"

definition reads_memory :: "mem_search \<Rightarrow> bool" where
  "reads_memory s \<longleftrightarrow> ms_isactive s \<and> (CheckContent \<in> ms_checkmask s \<or> CheckByte \<in> ms_checkmask s)"

definition grow_buffer :: "nat \<Rightarrow> mem_check \<Rightarrow> nat" where
  "grow_buffer bsize c = (if mk_code c = CheckByte \<and> bsize div 2 < length (mk_bytes c) then 2 * length (mk_bytes c) else bsize)"

definition memory_bufsize :: "mem_searches \<Rightarrow> nat" where
  "memory_bufsize ss = foldl grow_buffer 4096 (concat (map (\<lambda>(label, s). if reads_memory s then ms_checks s else []) ss))"

definition memory_offset :: "mem_env \<Rightarrow> mem_searches \<Rightarrow> nat" where
  "memory_offset env ss =
     foldl min (2 ^ 63 - 1) (map (\<lambda>(label, s). mm_Uintptr env (mo_Offset (ms_Options s))) (filter (\<lambda>(label, s). reads_memory s) ss))"

text \<open>With failures to log the last soft error is also the error that is returned.\<close>

definition walkProcMemory ::
  "mem_env \<Rightarrow> int \<Rightarrow> mem_searches \<Rightarrow> mem_stats \<Rightarrow> mem_searches \<times> mem_stats \<times> go_error option" where
  "walkProcMemory env pid ss stats =
     (let readers = filter (\<lambda>(label, s). reads_memory s) ss;
          bsize = memory_bufsize ss; offset = memory_offset env ss;
          logFailures = list_ex (\<lambda>(label, s). mo_LogFailures (ms_Options s)) readers;
          ss = map (\<lambda>(label, s). (label, if reads_memory s then s else mem_deactivate s)) ss
      in if readers = [] then (ss, stats, None)
         else (case SlidingWalkMemory bsize (memory_walkfn pid) (mm_Walk env pid offset (bsize div 2)) (ss, 0) of
                 ((ss, readBytes), serr, Some e) \<Rightarrow> (ss, stats, Some e)
               | ((ss, readBytes), serr, None) \<Rightarrow>
                   (ss, stats\<lparr>mt_Failures := mt_Failures stats @ (if logFailures then serr else []),
                          mt_MemoryRead := mt_MemoryRead stats + readBytes\<rparr>,
                    if logFailures \<and> serr \<noteq> [] then Some (last serr) else None)))"

section \<open>One process after the other\<close>

definition evaluateProcess ::
  "mem_env \<Rightarrow> int \<Rightarrow> mem_searches \<Rightarrow> mem_stats \<Rightarrow> mem_searches \<times> mem_stats \<times> go_error option" where
  "evaluateProcess env pid ss stats =
     (case mm_Name env pid of
        Inl e \<Rightarrow> (ss, stats, Some e)
      | Inr (procname, serr) \<Rightarrow>
          (case first_pass env pid procname ss (mt_Failures stats @ serr) of
             (ss, fails, Some p) \<Rightarrow> (ss, stats\<lparr>mt_Failures := fails\<rparr>, Some (Errorf ''evaluateProcess() -> %v'' [AErr p]))
           | (ss, fails, None) \<Rightarrow> walkProcMemory env pid ss (stats\<lparr>mt_Failures := fails\<rparr>)))"

definition process_step :: "mem_env \<Rightarrow> mem_searches \<times> mem_stats \<Rightarrow> int \<Rightarrow> mem_searches \<times> mem_stats" where
  "process_step env st pid =
     (case st of (ss, stats) \<Rightarrow>
        (let ss = map (\<lambda>(label, s). (label, mem_activate s)) ss
         in case mm_Open env pid of
              Inl e \<Rightarrow> (ss, stats\<lparr>mt_Failures := mt_Failures stats @ [e]\<rparr>)
            | Inr serr \<Rightarrow>
                (case evaluateProcess env pid ss (stats\<lparr>mt_Failures := mt_Failures stats @ serr\<rparr>) of
                   (ss, stats, err) \<Rightarrow>
                     (ss, stats\<lparr>mt_Failures := mt_Failures stats @ (case err of None \<Rightarrow> [] | Some e \<Rightarrow> [e]),
                            mt_ProcessCount := mt_ProcessCount stats + 1\<rparr>))))"

section \<open>Results\<close>

text \<open>A process that matched, or none; the fields of the search that are returned.\<close>

record mem_match =
  mx_Process :: "(string \<times> int) option"
  mx_Description :: string
  mx_Names :: "string list"
  mx_Libraries :: "string list"
  mx_Bytes :: "string list"
  mx_Contents :: "string list"
  mx_LogFailures :: bool
  mx_MatchAll :: bool

definition found_process :: "mem_env \<Rightarrow> int option \<Rightarrow> (string \<times> int) option" where
  "found_process env p = map_option (\<lambda>pid. (mm_NameAfter env pid, pid)) p"

definition all_match :: "mem_env \<Rightarrow> mem_search \<Rightarrow> int option \<Rightarrow> mem_match" where
  "all_match env s p =
     \<lparr>mx_Process = found_process env p, mx_Description = ms_Description s, mx_Names = ms_Names s, mx_Libraries = ms_Libraries s, mx_Bytes = ms_Bytes s,
      mx_Contents = ms_Contents s, mx_LogFailures = mo_LogFailures (ms_Options s), mx_MatchAll = True\<rparr>"

definition check_match :: "mem_env \<Rightarrow> mem_check \<Rightarrow> int option \<Rightarrow> mem_match" where
  "check_match env c p =
     (let only = (\<lambda>code. if mk_code c = code then [mk_value c] else [])
      in \<lparr>mx_Process = found_process env p, mx_Description = [], mx_Names = only CheckName, mx_Libraries = only CheckLib, mx_Bytes = only CheckByte,
          mx_Contents = only CheckContent, mx_LogFailures = False, mx_MatchAll = False\<rparr>)"

definition mem_or_none :: "'a list \<Rightarrow> 'a option list" where
  "mem_or_none xs = (if xs = [] then [None] else map Some xs)"

definition add_new :: "'a list \<Rightarrow> 'a \<Rightarrow> 'a list" where
  "add_new xs x = (if list_ex (\<lambda>y. y = x) xs then xs else xs @ [x])"

definition all_processes :: "mem_search \<Rightarrow> int list" where
  "all_processes s = foldl add_new [] (concat (map mk_matchedPs (ms_checks s)))"

definition matched_processes :: "mem_search \<Rightarrow> int list" where
  "matched_processes s = filter (\<lambda>p. list_all (\<lambda>c. list_ex (\<lambda>q. q = p) (mk_matchedPs c)) (ms_checks s)) (all_processes s)"

definition mem_search_results :: "mem_env \<Rightarrow> mem_search \<Rightarrow> mem_match list" where
  "mem_search_results env s =
     (if mo_MatchAll (ms_Options s) then map (all_match env s) (mem_or_none (matched_processes s))
      else concat (map (\<lambda>c. map (check_match env c) (mem_or_none (mk_matchedPs c))) (ms_checks s)))"

record mem_results =
  mz_FoundAnything :: bool
  mz_Success :: bool
  mz_Elements :: "(string \<times> mem_match list) list"
  mz_Stats :: mem_stats
  mz_Errors :: "go_error list"

definition mem_buildResults :: "mem_env \<Rightarrow> mem_searches \<Rightarrow> mem_stats \<Rightarrow> mem_results" where
  "mem_buildResults env ss stats =
     (let els = map (\<lambda>(label, s). (label, mem_search_results env s)) ss;
          hits = length (filter (\<lambda>m. mx_Process m \<noteq> None) (concat (map snd els)));
          stats = stats\<lparr>mt_TotalHits := mt_TotalHits stats + hits\<rparr>
      in \<lparr>mz_FoundAnything = 0 < mt_TotalHits stats, mz_Success = True, mz_Elements = els, mz_Stats = stats, mz_Errors = []\<rparr>)"

definition zero_stats :: mem_stats where
  "zero_stats = \<lparr>mt_ProcessCount = 0, mt_MemoryRead = 0, mt_TotalHits = 0, mt_Failures = []\<rparr>"

definition make_all_checks :: "mem_env \<Rightarrow> mem_searches \<Rightarrow> mem_searches result" where
  "make_all_checks env ss = map_res (\<lambda>(label, s). and_then (mem_makeChecks env s) (\<lambda>s. Inr (label, s))) ss"

text \<open>\<open>Run\<close>, from the parameters read.\<close>

definition memory_Run :: "mem_env \<Rightarrow> mem_searches result \<Rightarrow> mem_results" where
  "memory_Run env params =
     (case and_then params (\<lambda>ss. and_then (mem_ValidateParameters env ss) (\<lambda>_. and_then (make_all_checks env ss) (\<lambda>ss.
             and_then (mm_Pids env) (\<lambda>(pids, serr). Inr (ss, pids, serr))))) of
        Inl e \<Rightarrow> \<lparr>mz_FoundAnything = False, mz_Success = False, mz_Elements = [], mz_Stats = zero_stats, mz_Errors = [e]\<rparr>
      | Inr (ss, pids, serr) \<Rightarrow>
          (case foldl (process_step env) (ss, zero_stats\<lparr>mt_Failures := serr\<rparr>) pids of
             (ss, stats) \<Rightarrow> mem_buildResults env ss stats))"

text \<open>Printing; an element without a process has an empty name, and so has a process whose name could not be read.\<close>

definition print_match :: "bool \<Rightarrow> string \<Rightarrow> mem_match \<Rightarrow> string list" where
  "print_match foundOnly label m =
     (let (nm, pid) = (case mx_Process m of None \<Rightarrow> ([], 0) | Some np \<Rightarrow> np);
          out = (if nm = [] then ''0 match found in search '' @ quoted label
                 else nm @ '' [pid:'' @ fmt_d pid @ ''] in search '' @ quoted label);
          detail = (\<lambda>what vs. concat (map (\<lambda>v. what @ quoted v) vs))
      in if nm = [] \<and> foundOnly then []
         else if mx_MatchAll m then [out]
         else [out @ '' on checks'' @ detail '' name='' (mx_Names m) @ detail '' library='' (mx_Libraries m) @
               detail '' content='' (mx_Contents m) @ detail '' byte='' (mx_Bytes m)])"

definition memory_PrintResults :: "(go_error \<Rightarrow> string) \<Rightarrow> string \<Rightarrow> mem_results \<Rightarrow> bool \<Rightarrow> string list" where
  "memory_PrintResults text exectime r foundOnly =
     concat (map (\<lambda>(label, ms). concat (map (print_match foundOnly label) ms)) (mz_Elements r)) @
     (if foundOnly then []
      else map (\<lambda>e. ''Failure: '' @ text e) (mt_Failures (mz_Stats r)) @ map text (mz_Errors r) @
           [''Statistics: '' @ fmt_nat (mt_ProcessCount (mz_Stats r)) @ '' processes checked, '' @
            fmt_nat (mt_TotalHits (mz_Stats r)) @ '' matched, '' @ fmt_nat (length (mt_Failures (mz_Stats r))) @
            '' failures, ran in '' @ exectime @ ''.''])"

section \<open>Parameters\<close>

definition new_search :: mem_search where
  "new_search = \<lparr>ms_Description = [], ms_Names = [], ms_Libraries = [], ms_Bytes = [], ms_Contents = [],
     ms_Options = \<lparr>mo_Offset = 0, mo_MaxLength = 0, mo_LogFailures = False, mo_MatchAll = False\<rparr>,
     ms_checks = [], ms_checkmask = {}, ms_isactive = False\<rparr>"

definition update_options :: "(mem_options \<Rightarrow> mem_options) \<Rightarrow> mem_search \<Rightarrow> mem_search" where
  "update_options f s = s\<lparr>ms_Options := f (ms_Options s)\<rparr>"

text \<open>A line of the dialogue on a search; one that is refused may have set a number.\<close>

definition creator_line :: "mem_env \<Rightarrow> string \<Rightarrow> mem_search \<Rightarrow> mem_search" where
  "creator_line env l s =
     (let kind = takeWhile (\<lambda>c. c \<noteq> CHR '' '') l; v = drop (Suc (length kind)) l
      in if kind = ''name'' then (if is_ok (mem_validateRegex env v) then s\<lparr>ms_Names := ms_Names s @ [v]\<rparr> else s)
         else if kind = ''lib'' then (if is_ok (mem_validateRegex env v) then s\<lparr>ms_Libraries := ms_Libraries s @ [v]\<rparr> else s)
         else if kind = ''bytes'' then (if is_ok (validateBytes v) then s\<lparr>ms_Bytes := ms_Bytes s @ [v]\<rparr> else s)
         else if kind = ''content'' then (if is_ok (mem_validateRegex env v) then s\<lparr>ms_Contents := ms_Contents s @ [v]\<rparr> else s)
         else if kind = ''matchall'' then update_options (\<lambda>opt. opt\<lparr>mo_MatchAll := True\<rparr>) s
         else if kind = ''matchany'' then update_options (\<lambda>opt. opt\<lparr>mo_MatchAll := False\<rparr>) s
         else if kind = ''offset'' then update_options (\<lambda>opt. opt\<lparr>mo_Offset := fst (mm_ParseFloat env v)\<rparr>) s
         else if kind = ''maxlength'' then update_options (\<lambda>opt. opt\<lparr>mo_MaxLength := fst (mm_ParseFloat env v)\<rparr>) s
         else if kind = ''logfailures'' then update_options (\<lambda>opt. opt\<lparr>mo_LogFailures := True\<rparr>) s
         else s)"

text \<open>
  The dialogue: \<open>None\<close> while a label is asked for, \<open>Some\<close> while a search is made. It has no result when the lines are
  used up: at the end of its input the code asks for ever.
\<close>

fun creator_dialogue :: "mem_env \<Rightarrow> string list \<Rightarrow> (string \<times> mem_search) option \<Rightarrow> mem_searches \<Rightarrow> mem_searches option" where
  "creator_dialogue env [] cur ss = None"
| "creator_dialogue env (l # ls) (Some (label, s)) ss =
     (if l = ''done'' then creator_dialogue env ls None (al_set label s ss)
      else if l = ''help'' then creator_dialogue env ls (Some (label, s)) ss
      else creator_dialogue env ls (Some (label, creator_line env l s)) ss)"
| "creator_dialogue env (l # ls) None ss =
     (if l = ''done'' then Some ss
      else if l = ''help'' \<or> \<not> is_ok (mem_validateLabel l) then creator_dialogue env ls None ss
      else if map_of ss l = None then creator_dialogue env ls (Some (l, new_search)) ss
      else (case ls of
              [] \<Rightarrow> None
            | a # ls \<Rightarrow> if a = ''y'' then creator_dialogue env ls (Some (l, new_search)) ss else creator_dialogue env ls None ss))"

definition memory_ParamsCreator :: "mem_env \<Rightarrow> string list \<Rightarrow> mem_searches result option" where
  "memory_ParamsCreator env ls =
     map_option (\<lambda>ss. and_then (mem_ValidateParameters env ss) (\<lambda>_. Inr ss)) (creator_dialogue env ls None [])"

text \<open>The flags of a command line, as the library parses them; offset and length are those of \<open>-maxdepth\<close> and \<open>-matchlimit\<close>.\<close>

record mem_flags =
  mf_Names :: "string list"
  mf_Libraries :: "string list"
  mf_Bytes :: "string list"
  mf_Contents :: "string list"
  mf_MaxDepth :: int
  mf_MatchLimit :: int
  mf_MatchAll :: bool
  mf_MatchAny :: bool
  mf_LogFailures :: bool

definition flag_search :: "mem_flags \<Rightarrow> mem_search" where
  "flag_search fl = new_search\<lparr>ms_Names := mf_Names fl, ms_Libraries := mf_Libraries fl, ms_Bytes := mf_Bytes fl,
     ms_Contents := mf_Contents fl, ms_Options := \<lparr>mo_Offset = mf_MaxDepth fl, mo_MaxLength = mf_MatchLimit fl,
       mo_LogFailures = mf_LogFailures fl, mo_MatchAll = mf_MatchAll fl \<and> \<not> mf_MatchAny fl\<rparr>\<rparr>"

definition memory_ParamsParser :: "mem_env \<Rightarrow> (string list \<Rightarrow> mem_flags result) \<Rightarrow> string list \<Rightarrow> mem_searches option result" where
  "memory_ParamsParser env parse args =
     (case args of
        [] \<Rightarrow> Inr None
      | a # _ \<Rightarrow>
          if a = [] \<or> a = ''help'' then Inr None
          else and_then (parse args) (\<lambda>fl.
                 and_then (mem_ValidateParameters env [(''s1'', flag_search fl)]) (\<lambda>_. Inr (Some [(''s1'', flag_search fl)]))))"

end
