(* ===== verification/MemoryWalk.thy ===== *)
theory MemoryWalk
  imports Memory
begin

text \<open>
  The walk over the memory of a process: a function that may stop it against all the windows, and the searches of the
  memory module, each as if it were alone.
\<close>

section \<open>The windows\<close>

text \<open>The windows are the buffers of a walk that nobody stops.\<close>

definition collect :: "string list \<Rightarrow> nat \<Rightarrow> string \<Rightarrow> string list \<times> bool" where
  "collect ws addr buf = (ws @ [buf], True)"

definition windows_of :: "nat \<Rightarrow> mem_chunk list \<times> go_error list \<times> go_error option \<Rightarrow> string list" where
  "windows_of bsize walk = fst (SlidingWalkMemory bsize collect walk [])"

text \<open>The bookkeeping after a call.\<close>

definition buffered :: "nat \<Rightarrow> 'st slide \<times> bool \<Rightarrow> 'st slide \<times> bool" where
  "buffered k r = (case r of (sl, False) \<Rightarrow> (sl, False) | (sl, True) \<Rightarrow> (sl\<lparr>sl_buffered := k\<rparr>, True))"

text \<open>
  A function that stops the walk only in a state in which later buffers change nothing of the projection \<open>pr\<close>: its
  final state is, under \<open>pr\<close>, that after all windows.
\<close>

locale stoppable =
  fixes g :: "'st \<Rightarrow> string \<Rightarrow> 'st" and h :: "'st \<Rightarrow> string \<Rightarrow> bool" and dead :: "'st \<Rightarrow> bool" and pr :: "'st \<Rightarrow> 'p"
  assumes stop: "\<not> h st buf \<Longrightarrow> dead (g st buf)"
    and dead_step: "dead st \<Longrightarrow> dead (g st buf) \<and> pr (g st buf) = pr st"
begin

definition call :: "'st \<Rightarrow> nat \<Rightarrow> string \<Rightarrow> 'st \<times> bool" where
  "call st addr buf = (g st buf, h st buf)"

lemma dead_fold: "dead st \<Longrightarrow> dead (foldl g st ws) \<and> pr (foldl g st ws) = pr st"
  by (induction ws arbitrary: st) (auto simp: dead_step)

definition running :: "'st \<Rightarrow> 'st slide \<Rightarrow> string list slide \<Rightarrow> bool" where
  "running st0 sl slc \<longleftrightarrow> sl_buffer sl = sl_buffer slc \<and> sl_start sl = sl_start slc \<and> sl_buffered sl = sl_buffered slc \<and>
     sl_st sl = foldl g st0 (sl_st slc)"

definition stopped :: "'st \<Rightarrow> 'st slide \<Rightarrow> string list slide \<Rightarrow> bool" where
  "stopped st0 sl slc \<longleftrightarrow> dead (sl_st sl) \<and> dead (foldl g st0 (sl_st slc)) \<and> pr (sl_st sl) = pr (foldl g st0 (sl_st slc))"

text \<open>After a step the two walks agree, or the first has stopped.\<close>

definition agree :: "'st \<Rightarrow> 'st slide \<times> bool \<Rightarrow> string list slide \<times> bool \<Rightarrow> bool" where
  "agree st0 r rc \<longleftrightarrow> snd rc \<and> (if snd r then running st0 (fst r) (fst rc) else stopped st0 (fst r) (fst rc))"

lemma call_agree: "running st0 sl slc \<Longrightarrow> agree st0 (slide_call call n sl) (slide_call collect n slc)"
  using stop [of "sl_st sl" "take n (sl_buffer sl)"]
  by (auto simp: running_def stopped_def agree_def slide_call_def call_def collect_def)

lemma stopped_more: "stopped st0 sl slc \<Longrightarrow> sl_st slc' = sl_st slc @ ws \<Longrightarrow> stopped st0 sl slc'"
  using dead_fold [of "foldl g st0 (sl_st slc)" ws] by (auto simp: stopped_def)

lemma collect_goes:
  "snd (slide_call collect n slc)" "snd (slide_flush bsize collect addr slc)" "snd (slide_chunk bsize collect addr bs slc)"
  by (simp_all add: slide_chunk_def slide_flush_def slide_call_def collect_def Let_def)

lemma flush_agree: "running st0 sl slc \<Longrightarrow> agree st0 (slide_flush bsize call addr sl) (slide_flush bsize collect addr slc)"
proof -
  assume run: "running st0 sl slc"
  then have same: "sl_start sl = sl_start slc" "sl_buffered sl = sl_buffered slc" by (simp_all add: running_def)
  consider "sl_start slc + sl_buffered slc < addr" "sl_start slc \<noteq> 0" "0 < sl_buffered slc" "sl_buffered slc < bsize"
    | "sl_start slc + sl_buffered slc < addr" "sl_start slc \<noteq> 0" "\<not> (0 < sl_buffered slc \<and> sl_buffered slc < bsize)"
    | "\<not> (sl_start slc + sl_buffered slc < addr \<and> sl_start slc \<noteq> 0)" by (metis (full_types))
  then show ?thesis
  proof cases
    case 1
    with call_agree [OF run, of "sl_buffered slc"] show ?thesis
      by (auto simp: slide_flush_def same agree_def running_def stopped_def split: prod.splits bool.splits)
  qed (use run in \<open>auto simp: slide_flush_def agree_def running_def\<close>)
qed

lemma collect_chunk_grows:
  "\<exists>ws. sl_st (fst (slide_chunk bsize collect addr bs slc)) = sl_st (fst (slide_flush bsize collect addr slc)) @ ws"
  using collect_goes(2) [of bsize addr slc]
  by (cases "slide_flush bsize collect addr slc") (simp add: slide_chunk_def slide_call_def collect_def Let_def)

lemma buffered_agree: "agree st0 r rc \<Longrightarrow> agree st0 (buffered k r) (buffered k rc)"
  by (auto simp: agree_def buffered_def running_def stopped_def split: prod.splits bool.splits)

lemma chunk_agree: "running st0 sl slc \<Longrightarrow> agree st0 (slide_chunk bsize call addr bs sl) (slide_chunk bsize collect addr bs slc)"
proof -
  assume "running st0 sl slc"
  from flush_agree [OF this, of bsize addr] obtain x go y where fl: "slide_flush bsize call addr sl = (x, go)"
      "slide_flush bsize collect addr slc = (y, True)" and ag: "agree st0 (x, go) (y, True)"
    by (cases "slide_flush bsize call addr sl"; cases "slide_flush bsize collect addr slc") (auto simp: agree_def)
  show ?thesis
  proof (cases go)
    case False
    then have "stopped st0 x y" using ag by (simp add: agree_def)
    moreover obtain ws where "sl_st (fst (slide_chunk bsize collect addr bs slc)) = sl_st y @ ws"
      using collect_chunk_grows [of bsize addr bs slc] fl(2) by auto
    ultimately have "stopped st0 x (fst (slide_chunk bsize collect addr bs slc))" by (rule stopped_more)
    then show ?thesis using fl(1) False collect_goes(3) by (auto simp: agree_def slide_chunk_def Let_def)
  next
    case True
    then have run: "running st0 x y" using ag by (simp add: agree_def)
    then have same: "sl_buffer x = sl_buffer y" "sl_start x = sl_start y" "sl_buffered x = sl_buffered y" "sl_st x = foldl g st0 (sl_st y)"
      by (simp_all add: running_def)
    have called: "agree st0 (slide_call call n (x\<lparr>sl_buffer := b, sl_start := a\<rparr>)) (slide_call collect n (y\<lparr>sl_buffer := b, sl_start := a\<rparr>))" for n b a
      by (rule call_agree) (use run in \<open>simp add: running_def\<close>)
    show ?thesis
    proof (cases "sl_buffered y = 0")
      case True
      with called [where n = "length bs" and b = "bs @ drop (length bs) (sl_buffer y)" and a = addr] fl \<open>go\<close> same show ?thesis
        by (auto simp: slide_chunk_def agree_def running_def Let_def)
    next
      case False
      define start where "start = (if sl_buffered y = bsize then sl_start y + bsize div 2 else sl_start y)"
      define b where "b = take (bsize div 2) (sl_buffer y) @ bs @ drop (bsize div 2 + length bs) (sl_buffer y)"
      define k where "k = (if length bs \<noteq> bsize div 2 then 0 else bsize)"
      have left: "slide_chunk bsize call addr bs sl = buffered k (slide_call call (bsize div 2 + length bs) (x\<lparr>sl_buffer := b, sl_start := start\<rparr>))"
        using fl(1) \<open>go\<close> same(1-3) False
        by (cases x; cases y; cases "sl_buffered y = bsize") (simp_all add: slide_chunk_def Let_def b_def start_def k_def buffered_def cong: prod.case_cong)
      have right: "slide_chunk bsize collect addr bs slc = buffered k (slide_call collect (bsize div 2 + length bs) (y\<lparr>sl_buffer := b, sl_start := start\<rparr>))"
        using fl(2) False
        by (cases x; cases y; cases "sl_buffered y = bsize") (simp_all add: slide_chunk_def Let_def b_def start_def k_def buffered_def cong: prod.case_cong)
      show ?thesis unfolding left right
        by (rule buffered_agree, rule called)
    qed
  qed
qed

lemma agree_started:
  "stopped st0 sl slc \<Longrightarrow> stopped st0 sl (fst (slide_chunks bsize collect cs serr err slc))"
proof (induction cs arbitrary: slc)
  case (Cons c cs)
  obtain es addr bs where c: "c = (es, addr, bs)" by (cases c) auto
  obtain y where y: "slide_chunk bsize collect addr bs slc = (y, True)" using collect_goes(3) [of bsize addr bs slc]
    by (cases "slide_chunk bsize collect addr bs slc") auto
  have "\<exists>ws. sl_st (fst (slide_flush bsize collect addr slc)) = sl_st slc @ ws"
    by (simp add: slide_flush_def slide_call_def collect_def)
  then have "\<exists>ws. sl_st y = sl_st slc @ ws" using collect_chunk_grows [of bsize addr bs slc] y by auto
  then have "stopped st0 sl y" using stopped_more Cons.prems by blast
  from Cons.IH [OF this] show ?case by (simp add: c y case_prod_beta)
qed simp

lemma chunks_agree:
  assumes "running st0 sl slc"
  shows "running st0 (fst (slide_chunks bsize call cs serr err sl)) (fst (slide_chunks bsize collect cs serr err slc)) \<or>
     stopped st0 (fst (slide_chunks bsize call cs serr err sl)) (fst (slide_chunks bsize collect cs serr err slc))"
  using assms
proof (induction cs arbitrary: sl slc)
  case (Cons c cs)
  obtain es addr bs where c: "c = (es, addr, bs)" by (cases c) auto
  obtain x go y where xy: "slide_chunk bsize call addr bs sl = (x, go)" "slide_chunk bsize collect addr bs slc = (y, True)"
      and ag: "agree st0 (x, go) (y, True)"
    using chunk_agree [OF Cons.prems, of bsize addr bs]
    by (cases "slide_chunk bsize call addr bs sl"; cases "slide_chunk bsize collect addr bs slc") (auto simp: agree_def)
  show ?case
  proof (cases go)
    case True
    with ag have "running st0 x y" by (simp add: agree_def)
    from Cons.IH [OF this] True xy show ?thesis by (simp add: c case_prod_beta)
  next
    case False
    with ag have "stopped st0 x y" by (simp add: agree_def)
    from agree_started [OF this, of bsize cs serr err] False xy show ?thesis by (simp add: c case_prod_beta)
  qed
qed simp

lemma walk_windows:
  "pr (fst (SlidingWalkMemory bsize call walk st)) = pr (foldl g st (windows_of bsize walk))"
proof (cases "odd bsize")
  case True
  then show ?thesis by (simp add: SlidingWalkMemory_def windows_of_def)
next
  case False
  obtain cs serr err where walk: "walk = (cs, serr, err)" by (cases walk) auto
  define x where "x = fst (slide_chunks bsize call cs serr err \<lparr>sl_buffer = replicate bsize (CHR 0x00), sl_start = 0, sl_buffered = 0, sl_st = st\<rparr>)"
  define y where "y = fst (slide_chunks bsize collect cs serr err \<lparr>sl_buffer = replicate bsize (CHR 0x00), sl_start = 0, sl_buffered = 0, sl_st = []\<rparr>)"
  have run: "fst (SlidingWalkMemory bsize call walk st) =
      (if sl_buffered x = bsize div 2 then g (sl_st x) (take (bsize div 2) (sl_buffer x)) else sl_st x)"
    using False by (simp add: SlidingWalkMemory_def walk x_def call_def split: prod.split)
  have wins: "windows_of bsize walk = (if sl_buffered y = bsize div 2 then sl_st y @ [take (bsize div 2) (sl_buffer y)] else sl_st y)"
    using False by (simp add: windows_of_def SlidingWalkMemory_def walk y_def collect_def split: prod.split)
  have "running st x y \<or> stopped st x y" unfolding x_def y_def by (rule chunks_agree) (simp add: running_def)
  then show ?thesis
  proof
    assume "running st x y"
    then show ?thesis unfolding run wins by (auto simp: running_def)
  next
    assume st: "stopped st x y"
    have "pr (foldl g st (windows_of bsize walk)) = pr (foldl g st (sl_st y))"
      unfolding wins using st dead_step by (auto simp: stopped_def)
    moreover have "pr (fst (SlidingWalkMemory bsize call walk st)) = pr (sl_st x)"
      unfolding run using st dead_step by (auto simp: stopped_def)
    ultimately show ?thesis using st by (simp add: stopped_def)
  qed
qed

end

section \<open>Searches side by side\<close>

definition count_read :: "nat \<Rightarrow> string \<Rightarrow> nat" where
  "count_read n buf = (if n = 0 then length buf else n + length buf div 2)"

definition memory_g :: "int \<Rightarrow> mem_searches \<times> nat \<Rightarrow> string \<Rightarrow> mem_searches \<times> nat" where
  "memory_g pid st buf = fst (memory_walkfn pid st 0 buf)"

definition memory_h :: "int \<Rightarrow> mem_searches \<times> nat \<Rightarrow> string \<Rightarrow> bool" where
  "memory_h pid st buf = snd (memory_walkfn pid st 0 buf)"

definition all_inactive :: "mem_searches \<times> nat \<Rightarrow> bool" where
  "all_inactive st \<longleftrightarrow> list_all (\<lambda>(label, s). \<not> ms_isactive s) (fst st)"

lemma memory_g_map:
  "memory_g pid (ss, n) buf = (map (\<lambda>(label, s). (label, fst (search_buffer pid (count_read n buf) buf s))) ss, count_read n buf)"
  by (auto simp: memory_g_def memory_walkfn_def Let_def count_read_def split: prod.split)

lemma memory_h_ex: "memory_h pid (ss, n) buf \<longleftrightarrow> list_ex (\<lambda>(label, s). snd (search_buffer pid (count_read n buf) buf s)) ss"
  by (simp add: memory_h_def memory_walkfn_def Let_def count_read_def list_ex_iff case_prod_beta)

lemma search_buffer_keeps: "\<not> snd (search_buffer pid n buf s) \<Longrightarrow> \<not> ms_isactive (fst (search_buffer pid n buf s))"
  by (auto simp: search_buffer_def mem_deactivate_def Let_def split: if_splits)

lemma search_buffer_inactive: "\<not> ms_isactive s \<Longrightarrow> search_buffer pid n buf s = (s, False)"
  by (simp add: search_buffer_def)

interpretation walkers: stoppable "memory_g pid" "memory_h pid" all_inactive fst
proof
  fix st :: "mem_searches \<times> nat" and buf
  obtain ss n where st: "st = (ss, n)" by (cases st)
  show "all_inactive (memory_g pid st buf)" if "\<not> memory_h pid st buf"
    using that search_buffer_keeps by (fastforce simp: st memory_h_ex memory_g_map all_inactive_def list_all_iff list_ex_iff)
  show "all_inactive (memory_g pid st buf) \<and> fst (memory_g pid st buf) = fst st" if "all_inactive st"
  proof -
    have "map (\<lambda>(label, s). (label, fst (search_buffer pid (count_read n buf) buf s))) ss = ss"
      by (rule map_idI) (use that in \<open>auto simp: st all_inactive_def list_all_iff search_buffer_inactive\<close>)
    with that show ?thesis by (simp add: st memory_g_map all_inactive_def)
  qed
qed

lemma walkers_call: "walkers.call pid = memory_walkfn pid"
  by (auto simp: fun_eq_iff walkers.call_def memory_g_def memory_h_def memory_walkfn_def Let_def split: prod.split)

text \<open>The numbers of bytes read when the windows are looked at.\<close>

fun read_counts :: "nat \<Rightarrow> string list \<Rightarrow> (nat \<times> string) list" where
  "read_counts n [] = []"
| "read_counts n (w # ws) = (count_read n w, w) # read_counts (count_read n w) ws"

definition search_windows :: "int \<Rightarrow> (nat \<times> string) list \<Rightarrow> mem_search \<Rightarrow> mem_search" where
  "search_windows pid ws s = foldl (\<lambda>s (n, w). fst (search_buffer pid n w s)) s ws"

lemma foldl_memory_g:
  "fst (foldl (memory_g pid) (ss, n) ws) = map (\<lambda>(label, s). (label, search_windows pid (read_counts n ws) s)) ss"
proof (induction ws arbitrary: ss n)
  case (Cons w ws)
  then show ?case by (simp add: memory_g_map search_windows_def case_prod_beta comp_def)
qed (simp add: search_windows_def)

text \<open>
  C38. The walk over the memory treats every search as if it were alone, although all are run on each buffer and the walk
  ends when none is left.
\<close>

theorem searches_independent:
  "fst (fst (SlidingWalkMemory bsize (memory_walkfn pid) walk (ss, 0))) =
     map (\<lambda>(label, s). (label, search_windows pid (read_counts 0 (windows_of bsize walk)) s)) ss"
  using walkers.walk_windows [of bsize pid walk "(ss, 0)"] unfolding walkers_call foldl_memory_g .

end
