(* ===== verification/MemoryProps.thy ===== *)
theory MemoryProps
  imports MemoryWalk
begin

text \<open>
  The memory module: the exact result of a search that wants all checks, the windows of a region of memory, and what
  these and the limit on what is read miss.
\<close>

section \<open>What a search finds\<close>

text \<open>Checks and searches without their matches.\<close>

definition bare_check :: "mem_check \<Rightarrow> mem_check" where
  "bare_check c = c\<lparr>mk_matched := 0, mk_matchedPs := []\<rparr>"

definition bare :: "mem_search \<Rightarrow> mem_search" where
  "bare s = s\<lparr>ms_checks := map bare_check (ms_checks s), ms_isactive := False\<rparr>"

lemma bare_check_simps [simp]:
  "mk_code (bare_check c) = mk_code c" "mk_value (bare_check c) = mk_value c" "mk_bytes (bare_check c) = mk_bytes c"
  "mk_regex (bare_check c) = mk_regex c"
  by (simp_all add: bare_check_def)

lemma store_simps [simp]:
  "mk_code (mem_storeMatch p c) = mk_code c" "mk_value (mem_storeMatch p c) = mk_value c" "mk_bytes (mem_storeMatch p c) = mk_bytes c"
  "mk_regex (mem_storeMatch p c) = mk_regex c" "bare_check (mem_storeMatch p c) = bare_check c"
  by (simp_all add: mem_storeMatch_def bare_check_def)

lemma store_twice [simp]: "mem_storeMatch p (mem_storeMatch p c) = mem_storeMatch p c"
  by (simp add: mem_storeMatch_def)

definition mem_store_if :: "(mem_check \<Rightarrow> bool) \<Rightarrow> int \<Rightarrow> mem_check \<Rightarrow> mem_check" where
  "mem_store_if P p c = (if P c then mem_storeMatch p c else c)"

text \<open>A check that looks at memory, and whether it is met by a buffer.\<close>

definition memory_check :: "mem_check \<Rightarrow> bool" where
  "memory_check c \<longleftrightarrow> mk_code c = CheckByte \<or> mk_code c = CheckContent"

definition buffer_holds :: "string \<Rightarrow> mem_check \<Rightarrow> bool" where
  "buffer_holds w c \<longleftrightarrow> (case mk_code c of CheckByte \<Rightarrow> sublist (mk_bytes c) w | CheckContent \<Rightarrow> mk_regex c w | _ \<Rightarrow> False)"

lemma buffer_check_eq: "buffer_check pid w c = (mem_store_if (buffer_holds w) pid c, memory_check c \<longrightarrow> buffer_holds w c)"
  by (simp add: buffer_check_def mem_store_if_def buffer_holds_def memory_check_def split: mem_code.split)

lemma buffer_holds_memory: "buffer_holds w c \<Longrightarrow> memory_check c"
  by (simp add: buffer_holds_def memory_check_def split: mem_code.splits)

lemma buffer_holds_store [simp]: "buffer_holds w (mem_store_if P p c) = buffer_holds w c" "memory_check (mem_store_if P p c) = memory_check c"
  by (simp_all add: mem_store_if_def buffer_holds_def memory_check_def split: mem_code.split)

lemma store_if_store_if: "(\<And>c. Q (mem_store_if P p c) = Q c) \<Longrightarrow> mem_store_if Q p (mem_store_if P p c) = mem_store_if (\<lambda>c. P c \<or> Q c) p c"
  by (auto simp: mem_store_if_def)

lemma windows_inactive: "\<not> ms_isactive s \<Longrightarrow> search_windows pid nws s = s"
  unfolding search_windows_def by (induction nws) (auto simp: search_buffer_inactive)

lemma search_windows_exact:
  assumes "ms_isactive s" and "\<forall>(n, w)\<in>set nws. int n < mo_MaxLength (ms_Options s)"
  shows "\<exists>b. search_windows pid nws s = s\<lparr>ms_checks := map (mem_store_if (\<lambda>c. \<exists>(n, w)\<in>set nws. buffer_holds w c) pid) (ms_checks s), ms_isactive := b\<rparr>"
  using assms
proof (induction nws arbitrary: s)
  case Nil
  then show ?case by (intro exI [of _ True]) (simp add: search_windows_def mem_store_if_def)
next
  case (Cons nw nws)
  obtain n w where nw: "nw = (n, w)" by (cases nw)
  define s1 where "s1 = s\<lparr>ms_checks := map (mem_store_if (buffer_holds w) pid) (ms_checks s)\<rparr>"
  have first: "search_windows pid (nw # nws) s =
      search_windows pid nws (if list_all (\<lambda>c. memory_check c \<longrightarrow> buffer_holds w c) (ms_checks s) then mem_deactivate s1 else s1)"
    using Cons.prems
    by (simp add: search_windows_def nw search_buffer_def Let_def buffer_check_eq s1_def comp_def list_all_iff cong: if_cong)
  show ?case
  proof (cases "list_all (\<lambda>c. memory_check c \<longrightarrow> buffer_holds w c) (ms_checks s)")
    case True
    then have "search_windows pid (nw # nws) s = mem_deactivate s1" unfolding first by (simp add: windows_inactive mem_deactivate_def)
    moreover have "map (mem_store_if (buffer_holds w) pid) (ms_checks s) =
        map (mem_store_if (\<lambda>c. \<exists>(n, w)\<in>set (nw # nws). buffer_holds w c) pid) (ms_checks s)"
      using True by (auto simp: mem_store_if_def nw list_all_iff dest: buffer_holds_memory)
    ultimately show ?thesis by (intro exI [of _ False]) (simp add: s1_def mem_deactivate_def)
  next
    case False
    have "ms_isactive s1" "\<forall>(n, w)\<in>set nws. int n < mo_MaxLength (ms_Options s1)" using Cons.prems by (simp_all add: s1_def)
    from Cons.IH [OF this] obtain b where "search_windows pid nws s1 =
        s1\<lparr>ms_checks := map (mem_store_if (\<lambda>c. \<exists>(n, w)\<in>set nws. buffer_holds w c) pid) (ms_checks s1), ms_isactive := b\<rparr>" ..
    with False show ?thesis unfolding first
      by (intro exI [of _ b]) (auto simp: s1_def store_if_store_if nw)
  qed
qed

text \<open>The counters stay below the bytes of all windows.\<close>

lemma counted_bound: "(n, w) \<in> set (read_counts k ws) \<Longrightarrow> n \<le> k + sum_list (map length ws)"
  by (induction ws arbitrary: k) (fastforce simp: count_read_def split: if_splits)+

lemma counted_windows: "(\<exists>(n, w)\<in>set (read_counts k ws). P w) \<longleftrightarrow> (\<exists>w\<in>set ws. P w)"
  by (induction ws arbitrary: k) auto

text \<open>What the names and libraries of a process give.\<close>

definition name_holds :: "string \<Rightarrow> mem_check \<Rightarrow> bool" where
  "name_holds nm c \<longleftrightarrow> mk_code c = CheckName \<and> mk_regex c nm"

definition lib_holds :: "mem_env \<Rightarrow> int \<Rightarrow> mem_check \<Rightarrow> bool" where
  "lib_holds env pid c \<longleftrightarrow> mk_code c = CheckLib \<and> fst (mm_Libs env pid (mk_value c)) \<noteq> []"

definition names_hold :: "string \<Rightarrow> mem_check list \<Rightarrow> bool" where
  "names_hold nm cs \<longleftrightarrow> list_all (\<lambda>c. mk_code c = CheckName \<longrightarrow> name_holds nm c) cs"

definition libs_hold :: "mem_env \<Rightarrow> int \<Rightarrow> mem_check list \<Rightarrow> bool" where
  "libs_hold env pid cs \<longleftrightarrow> list_all (\<lambda>c. mk_code c = CheckLib \<longrightarrow> lib_holds env pid c) cs"

definition masked :: "mem_search \<Rightarrow> bool" where
  "masked s \<longleftrightarrow> ms_checkmask s = mk_code ` set (ms_checks s)"

lemma store_if_none: "(\<And>c. c \<in> set cs \<Longrightarrow> \<not> P c) \<Longrightarrow> map (mem_store_if P pid) cs = cs"
  by (intro map_idI) (simp add: mem_store_if_def)

lemma checkName_eq:
  assumes "masked s"
  shows "mem_checkName pid nm s = (s\<lparr>ms_checks := map (mem_store_if (name_holds nm) pid) (ms_checks s)\<rparr>, names_hold nm (ms_checks s))"
proof -
  have one: "name_check pid nm c = (mem_store_if (name_holds nm) pid c, mk_code c = CheckName \<longrightarrow> name_holds nm c)" for c
    by (simp add: name_check_def mem_store_if_def name_holds_def)
  show ?thesis
  proof (cases "CheckName \<in> ms_checkmask s")
    case True
    then show ?thesis by (simp add: mem_checkName_def Let_def one comp_def names_hold_def list_all_iff)
  next
    case False
    then have "mk_code c \<noteq> CheckName" if "c \<in> set (ms_checks s)" for c using assms that by (metis imageI masked_def)
    then have "map (mem_store_if (name_holds nm) pid) (ms_checks s) = ms_checks s" "names_hold nm (ms_checks s)"
      by (auto simp: name_holds_def names_hold_def list_all_iff intro!: store_if_none)
    with False show ?thesis by (simp add: mem_checkName_def)
  qed
qed

lemma lib_checks_eq:
  "\<exists>fs. lib_checks env pid False cs fails = (map (mem_store_if (lib_holds env pid) pid) cs, libs_hold env pid cs, fs, None)"
proof (induction cs arbitrary: fails)
  case (Cons c cs)
  show ?case
  proof (cases "mk_code c = CheckLib")
    case True
    obtain libs serr err where l: "mm_Libs env pid (mk_value c) = (libs, serr, err)" by (cases "mm_Libs env pid (mk_value c)")
    obtain fs where "lib_checks env pid False cs (case err of None \<Rightarrow> fails | Some e \<Rightarrow> fails @ [e]) =
        (map (mem_store_if (lib_holds env pid) pid) cs, libs_hold env pid cs, fs, None)" using Cons.IH by blast
    with True l show ?thesis by (auto simp: Let_def mem_store_if_def lib_holds_def libs_hold_def)
  next
    case False
    obtain fs where "lib_checks env pid False cs fails = (map (mem_store_if (lib_holds env pid) pid) cs, libs_hold env pid cs, fs, None)"
      using Cons.IH by blast
    with False show ?thesis by (auto simp: mem_store_if_def lib_holds_def libs_hold_def)
  qed
qed (simp add: libs_hold_def)

lemma checkLibraries_eq:
  assumes "masked s" and "\<not> mo_LogFailures (ms_Options s)"
  shows "\<exists>fs. mem_checkLibraries env pid s fails =
    (s\<lparr>ms_checks := map (mem_store_if (lib_holds env pid) pid) (ms_checks s)\<rparr>, libs_hold env pid (ms_checks s), fs, None)"
proof (cases "CheckLib \<in> ms_checkmask s")
  case True
  obtain fs where "lib_checks env pid False (ms_checks s) fails =
      (map (mem_store_if (lib_holds env pid) pid) (ms_checks s), libs_hold env pid (ms_checks s), fs, None)"
    using lib_checks_eq by blast
  with True assms(2) show ?thesis by (simp add: mem_checkLibraries_def)
next
  case False
  then have "mk_code c \<noteq> CheckLib" if "c \<in> set (ms_checks s)" for c using assms(1) that by (metis imageI masked_def)
  then have "map (mem_store_if (lib_holds env pid) pid) (ms_checks s) = ms_checks s" "libs_hold env pid (ms_checks s)"
    by (auto simp: lib_holds_def libs_hold_def list_all_iff intro!: store_if_none)
  with False show ?thesis by (simp add: mem_checkLibraries_def)
qed

lemma hold_store [simp]:
  "name_holds nm (mem_store_if P p c) = name_holds nm c" "lib_holds env pid (mem_store_if P p c) = lib_holds env pid c"
  "mk_code (mem_store_if P p c) = mk_code c" "mk_bytes (mem_store_if P p c) = mk_bytes c" "bare_check (mem_store_if P p c) = bare_check c"
  by (simp_all add: name_holds_def lib_holds_def mem_store_if_def)

lemma hold_map [simp]:
  "names_hold nm (map (mem_store_if P p) cs) = names_hold nm cs" "libs_hold env pid (map (mem_store_if P p) cs) = libs_hold env pid cs"
  by (simp_all add: names_hold_def libs_hold_def list_all_iff)

lemma masked_map [simp]: "masked (s\<lparr>ms_checks := map (mem_store_if P p) (ms_checks s)\<rparr>) = masked s" "masked (s\<lparr>ms_isactive := b\<rparr>) = masked s"
  by (simp_all add: masked_def image_image)

lemma store_if_either:
  "map (mem_store_if Q p) (map (mem_store_if P p) cs) = map (mem_store_if (\<lambda>c. P c \<or> Q c) p) cs" if "\<And>c. Q (mem_store_if P p c) = Q c"
proof -
  have "mem_store_if Q p (mem_store_if P p c) = mem_store_if (\<lambda>c. P c \<or> Q c) p c" for c by (rule store_if_store_if) (rule that)
  then show ?thesis by simp
qed

lemma first_checks_eq:
  assumes "ms_isactive s" and "masked s" and "\<not> mo_LogFailures (ms_Options s)" and "mo_MatchAll (ms_Options s)"
  shows "\<exists>fs. first_checks env pid nm s fails =
    (s\<lparr>ms_checks := map (mem_store_if (\<lambda>c. name_holds nm c \<or> names_hold nm (ms_checks s) \<and> lib_holds env pid c) pid) (ms_checks s),
       ms_isactive := names_hold nm (ms_checks s) \<and> libs_hold env pid (ms_checks s)\<rparr>, fs, None)"
proof -
  let ?s = "s\<lparr>ms_checks := map (mem_store_if (name_holds nm) pid) (ms_checks s)\<rparr>"
  note named = checkName_eq [OF assms(2), of pid nm]
  show ?thesis
  proof (cases "names_hold nm (ms_checks s)")
    case False
    with named assms show ?thesis by (simp add: first_checks_def mem_deactivate_def)
  next
    case True
    obtain fs where "mem_checkLibraries env pid ?s fails =
        (?s\<lparr>ms_checks := map (mem_store_if (lib_holds env pid) pid) (ms_checks ?s)\<rparr>, libs_hold env pid (ms_checks ?s), fs, None)"
      using checkLibraries_eq [of ?s env pid fails] assms by auto
    moreover have "map (mem_store_if (lib_holds env pid) pid) (ms_checks ?s) =
        map (mem_store_if (\<lambda>c. name_holds nm c \<or> lib_holds env pid c) pid) (ms_checks s)"
      by (simp add: store_if_either del: map_map)
    ultimately show ?thesis using True named assms by (auto simp: first_checks_def mem_deactivate_def)
  qed
qed

definition credited :: "mem_env \<Rightarrow> string \<Rightarrow> string list \<Rightarrow> int \<Rightarrow> mem_check list \<Rightarrow> mem_check \<Rightarrow> bool" where
  "credited env nm ws pid cs c \<longleftrightarrow>
     name_holds nm c \<or> names_hold nm cs \<and> (lib_holds env pid c \<or> libs_hold env pid cs \<and> (\<exists>w\<in>set ws. buffer_holds w c))"

definition process_windows :: "mem_env \<Rightarrow> mem_search \<Rightarrow> int \<Rightarrow> string list" where
  "process_windows env s pid =
     (let ss = [([], mem_activate s)]; bsize = memory_bufsize ss
      in windows_of bsize (mm_Walk env pid (memory_offset env ss) (bsize div 2)))"

lemma walk_search_eq:
  assumes "masked s" and "\<not> ms_isactive s \<or> s = mem_activate t" and "process_windows env t pid = ws"
    and "int (sum_list (map length ws)) < mo_MaxLength (ms_Options s)"
  shows "\<exists>b stats' err. walkProcMemory env pid [(label, s)] stats =
    ([(label, s\<lparr>ms_checks := map (mem_store_if (\<lambda>c. ms_isactive s \<and> (\<exists>w\<in>set ws. buffer_holds w c)) pid) (ms_checks s), ms_isactive := b\<rparr>)], stats', err)"
proof (cases "reads_memory s")
  case False
  have "\<not> (ms_isactive s \<and> (\<exists>w\<in>set ws. buffer_holds w c))" if "c \<in> set (ms_checks s)" for c
  proof
    assume a: "ms_isactive s \<and> (\<exists>w\<in>set ws. buffer_holds w c)"
    then have "mk_code c = CheckByte \<or> mk_code c = CheckContent" using buffer_holds_memory by (auto simp: memory_check_def)
    moreover have "mk_code c \<in> ms_checkmask s" using that assms(1) by (simp add: masked_def)
    ultimately show False using False a by (auto simp: reads_memory_def)
  qed
  then have "map (mem_store_if (\<lambda>c. ms_isactive s \<and> (\<exists>w\<in>set ws. buffer_holds w c)) pid) (ms_checks s) = ms_checks s"
    by (rule store_if_none)
  with False show ?thesis by (intro exI [of _ False] exI [of _ stats] exI [of _ None]) (simp add: walkProcMemory_def mem_deactivate_def)
next
  case True
  then have act: "ms_isactive s" "s = mem_activate t" using assms(2) by (auto simp: reads_memory_def)
  let ?bs = "memory_bufsize [(label, s)]" and ?off = "memory_offset env [(label, s)]"
  have ws: "windows_of ?bs (mm_Walk env pid ?off (?bs div 2)) = ws"
    using assms(3) act(2) True by (simp add: process_windows_def Let_def memory_bufsize_def memory_offset_def)
  have "\<forall>(n, w)\<in>set (read_counts 0 ws). int n < mo_MaxLength (ms_Options s)"
    using assms(4) counted_bound [of _ _ 0 ws] by fastforce
  from search_windows_exact [OF act(1) this, of pid] obtain b where
    b: "search_windows pid (read_counts 0 ws) s = s\<lparr>ms_checks := map (mem_store_if (\<lambda>c. \<exists>w\<in>set ws. buffer_holds w c) pid) (ms_checks s), ms_isactive := b\<rparr>"
    unfolding counted_windows by blast
  obtain ss n serr err where walk: "SlidingWalkMemory ?bs (memory_walkfn pid) (mm_Walk env pid ?off (?bs div 2)) ([(label, s)], 0) = ((ss, n), serr, err)"
    by (metis prod.collapse)
  have "ss = [(label, search_windows pid (read_counts 0 ws) s)]"
    using walkers.walk_windows [of ?bs pid "mm_Walk env pid ?off (?bs div 2)" "([(label, s)], 0)"]
    unfolding walkers_call foldl_memory_g ws walk by simp
  with walk True act(1) b show ?thesis
    by (cases err) (auto simp: walkProcMemory_def Let_def)
qed

lemma process_windows_bare: "process_windows env (s\<lparr>ms_checks := map (mem_store_if P p) (ms_checks s), ms_isactive := b\<rparr>) pid = process_windows env s pid"
proof -
  have grow: "grow_buffer n (mem_store_if P p c) = grow_buffer n c" for n c by (simp add: grow_buffer_def)
  have "foldl grow_buffer n (map (mem_store_if P p) cs) = foldl grow_buffer n cs" for n cs by (induction cs arbitrary: n) (simp_all add: grow)
  then show ?thesis by (simp add: process_windows_def memory_bufsize_def memory_offset_def mem_activate_def reads_memory_def)
qed

text \<open>One process, for one search that wants all checks.\<close>

lemma evaluate_one:
  assumes "mm_Name env pid = Inr (nm, serr)" and "ms_isactive s" and "masked s" and "\<not> mo_LogFailures (ms_Options s)"
    and "mo_MatchAll (ms_Options s)" and "int (sum_list (map length (process_windows env s pid))) < mo_MaxLength (ms_Options s)"
  shows "\<exists>b stats' err. evaluateProcess env pid [(label, s)] stats =
    ([(label, s\<lparr>ms_checks := map (mem_store_if (credited env nm (process_windows env s pid) pid (ms_checks s)) pid) (ms_checks s), ms_isactive := b\<rparr>)],
     stats', err)"
proof -
  let ?ws = "process_windows env s pid"
  define P where "P = (\<lambda>c. name_holds nm c \<or> names_hold nm (ms_checks s) \<and> lib_holds env pid c)"
  define go where "go = (names_hold nm (ms_checks s) \<and> libs_hold env pid (ms_checks s))"
  define s1 where "s1 = s\<lparr>ms_checks := map (mem_store_if P pid) (ms_checks s), ms_isactive := go\<rparr>"
  obtain fs where first: "first_checks env pid nm s (mt_Failures stats @ serr) = (s1, fs, None)"
    using first_checks_eq [OF assms(2-5)] unfolding s1_def P_def go_def by blast
  have ws: "process_windows env s1 pid = ?ws" unfolding s1_def by (rule process_windows_bare)
  have "masked s1" using assms(3) by (simp add: s1_def masked_def image_image)
  moreover have "\<not> ms_isactive s1 \<or> s1 = mem_activate s1" by (cases go) (simp_all add: s1_def mem_activate_def)
  moreover have "int (sum_list (map length ?ws)) < mo_MaxLength (ms_Options s1)" using assms(6) by (simp add: s1_def)
  ultimately obtain b stats' err where walk: "walkProcMemory env pid [(label, s1)] (stats\<lparr>mt_Failures := fs\<rparr>) =
      ([(label, s1\<lparr>ms_checks := map (mem_store_if (\<lambda>c. ms_isactive s1 \<and> (\<exists>w\<in>set ?ws. buffer_holds w c)) pid) (ms_checks s1), ms_isactive := b\<rparr>)], stats', err)"
    using walk_search_eq [OF _ _ ws] by blast
  have "map (mem_store_if (\<lambda>c. ms_isactive s1 \<and> (\<exists>w\<in>set ?ws. buffer_holds w c)) pid) (ms_checks s1) =
      map (mem_store_if (\<lambda>c. P c \<or> go \<and> (\<exists>w\<in>set ?ws. buffer_holds w c)) pid) (ms_checks s)"
    by (simp add: s1_def store_if_either del: map_map)
  also have "(\<lambda>c. P c \<or> go \<and> (\<exists>w\<in>set ?ws. buffer_holds w c)) = credited env nm ?ws pid (ms_checks s)"
    by (auto simp: fun_eq_iff P_def go_def credited_def)
  finally show ?thesis using walk first assms(1)
    by (auto simp: evaluateProcess_def s1_def intro!: exI [of _ b])
qed

text \<open>Conditions on the processes: they can be opened and have a name, and their memory is below the limit.\<close>

definition readable_process :: "mem_env \<Rightarrow> mem_search \<Rightarrow> int \<Rightarrow> bool" where
  "readable_process env s pid \<longleftrightarrow> is_ok (mm_Open env pid) \<and> is_ok (mm_Name env pid) \<and>
     int (sum_list (map length (process_windows env s pid))) < mo_MaxLength (ms_Options s)"

definition process_name :: "mem_env \<Rightarrow> int \<Rightarrow> string" where
  "process_name env pid = (case mm_Name env pid of Inl _ \<Rightarrow> [] | Inr (nm, _) \<Rightarrow> nm)"

definition credit :: "mem_env \<Rightarrow> mem_search \<Rightarrow> int \<Rightarrow> mem_check \<Rightarrow> bool" where
  "credit env s pid = credited env (process_name env pid) (process_windows env s pid) pid (ms_checks s)"

lemma credit_same:
  "credit env (s\<lparr>ms_checks := map (mem_store_if P p) (ms_checks s), ms_isactive := b\<rparr>) pid = credit env s pid"
  by (simp add: fun_eq_iff credit_def credited_def process_windows_bare)

lemma credit_store [simp]: "credit env s pid (mem_store_if P p c) = credit env s pid c"
  by (simp add: credit_def credited_def)

lemma readable_same: "readable_process env (s\<lparr>ms_checks := map (mem_store_if P p) (ms_checks s), ms_isactive := b\<rparr>) pid = readable_process env s pid"
  by (simp add: readable_process_def process_windows_bare)

definition plain_mem_search :: "mem_search \<Rightarrow> bool" where
  "plain_mem_search s \<longleftrightarrow> masked s \<and> \<not> mo_LogFailures (ms_Options s) \<and> mo_MatchAll (ms_Options s)"

lemma process_step_one:
  assumes "plain_mem_search s" and "readable_process env s pid"
  shows "\<exists>b stats'. process_step env ([(label, s)], stats) pid =
    ([(label, s\<lparr>ms_checks := map (mem_store_if (credit env s pid) pid) (ms_checks s), ms_isactive := b\<rparr>)], stats')"
proof -
  obtain serr where o: "mm_Open env pid = Inr serr" using assms(2) by (auto simp: readable_process_def is_ok_iff)
  obtain nm es where n: "mm_Name env pid = Inr (nm, es)" using assms(2) by (auto simp: readable_process_def is_ok_iff)
  let ?s = "mem_activate s"
  have same: "process_windows env ?s pid = process_windows env s pid" by (simp add: process_windows_def mem_activate_def)
  obtain b stats' err where "evaluateProcess env pid [(label, ?s)] (stats\<lparr>mt_Failures := mt_Failures stats @ serr\<rparr>) =
      ([(label, ?s\<lparr>ms_checks := map (mem_store_if (credited env nm (process_windows env ?s pid) pid (ms_checks ?s)) pid) (ms_checks ?s), ms_isactive := b\<rparr>)],
       stats', err)"
    using evaluate_one [OF n, of ?s label "stats\<lparr>mt_Failures := mt_Failures stats @ serr\<rparr>"] assms unfolding same
    by (auto simp: plain_mem_search_def readable_process_def mem_activate_def masked_def)
  then show ?thesis unfolding same using o n
    by (auto simp: process_step_def credit_def process_name_def mem_activate_def intro!: exI [of _ b])
qed

text \<open>All processes: a check has the processes that are credited to it, in order.\<close>

lemma processes_fold:
  assumes "plain_mem_search s" and "\<forall>pid\<in>set pids. readable_process env s pid"
  shows "\<exists>b stats'. foldl (process_step env) ([(label, s)], stats) pids =
    ([(label, s\<lparr>ms_checks := map (\<lambda>c. foldl (\<lambda>c pid. mem_store_if (credit env s pid) pid c) c pids) (ms_checks s), ms_isactive := b\<rparr>)], stats')"
  using assms
proof (induction pids arbitrary: s stats)
  case Nil
  then show ?case by (auto intro: exI [of _ "ms_isactive s"])
next
  case (Cons pid pids)
  obtain b stats1 where one: "process_step env ([(label, s)], stats) pid =
      ([(label, s\<lparr>ms_checks := map (mem_store_if (credit env s pid) pid) (ms_checks s), ms_isactive := b\<rparr>)], stats1)"
    using process_step_one [of s env pid label stats] Cons.prems by auto
  define s1 where "s1 = s\<lparr>ms_checks := map (mem_store_if (credit env s pid) pid) (ms_checks s), ms_isactive := b\<rparr>"
  have "plain_mem_search s1" using Cons.prems(1) by (simp add: s1_def plain_mem_search_def masked_def image_image)
  moreover have "\<forall>q\<in>set pids. readable_process env s1 q" using Cons.prems(2) by (simp add: s1_def readable_same)
  ultimately obtain b' stats' where "foldl (process_step env) ([(label, s1)], stats1) pids =
      ([(label, s1\<lparr>ms_checks := map (\<lambda>c. foldl (\<lambda>c q. mem_store_if (credit env s1 q) q c) c pids) (ms_checks s1), ms_isactive := b'\<rparr>)], stats')"
    using Cons.IH by blast
  moreover have "credit env s1 q = credit env s q" for q unfolding s1_def by (rule credit_same)
  ultimately show ?case using one by (auto simp: s1_def comp_def)
qed

lemma store_fold:
  assumes "\<And>pid P p d. cr pid (mem_store_if P p d) = cr pid d" and "distinct pids" and "set pids \<inter> set (mk_matchedPs c) = {}"
  shows "mk_matchedPs (foldl (\<lambda>c pid. mem_store_if (cr pid) pid c) c pids) = mk_matchedPs c @ filter (\<lambda>pid. cr pid c) pids"
  using assms(2,3)
proof (induction pids arbitrary: c)
  case (Cons pid pids)
  let ?c = "mem_store_if (cr pid) pid c"
  have m: "mk_matchedPs ?c = mk_matchedPs c @ (if cr pid c then [pid] else [])"
    using Cons.prems by (auto simp: mem_store_if_def mem_storeMatch_def list_ex_iff)
  have "mk_matchedPs (foldl (\<lambda>c pid. mem_store_if (cr pid) pid c) ?c pids) = mk_matchedPs ?c @ filter (\<lambda>pid. cr pid ?c) pids"
    using Cons.prems m by (intro Cons.IH) (auto split: if_splits)
  then show ?case using m assms(1) by simp
qed simp

lemma foldl_add_new_prefix: "\<exists>ys. foldl add_new acc xs = acc @ ys \<and> set ys \<inter> set acc = {} \<and> set (acc @ ys) = set acc \<union> set xs"
proof (induction xs arbitrary: acc)
  case (Cons x xs)
  show ?case
  proof (cases "x \<in> set acc")
    case True
    then show ?thesis using Cons.IH [of acc] by (auto simp: add_new_def list_ex_iff)
  next
    case False
    obtain ys where "foldl add_new (acc @ [x]) xs = (acc @ [x]) @ ys" "set ys \<inter> set (acc @ [x]) = {}"
        "set ((acc @ [x]) @ ys) = set (acc @ [x]) \<union> set xs" using Cons.IH [of "acc @ [x]"] by blast
    moreover have "add_new acc x = acc @ [x]" using False by (auto simp: add_new_def list_ex_iff)
    ultimately show ?thesis using False by (intro exI [of _ "x # ys"]) auto
  qed
qed simp

lemma foldl_add_new_distinct: "distinct (acc @ xs) \<Longrightarrow> foldl add_new acc xs = acc @ xs"
  by (induction xs arbitrary: acc) (auto simp: add_new_def list_ex_iff)

text \<open>The processes that all checks have, in their order.\<close>

lemma matched_processes_eq:
  assumes "\<And>c. c \<in> set (ms_checks s) \<Longrightarrow> mk_matchedPs c = filter (cr c) pids" and "distinct pids" and "ms_checks s \<noteq> []"
  shows "matched_processes s = filter (\<lambda>p. \<forall>c\<in>set (ms_checks s). cr c p) pids"
proof -
  obtain c cs where cs: "ms_checks s = c # cs" using assms(3) by (cases "ms_checks s") auto
  have c: "mk_matchedPs c = filter (cr c) pids" using assms(1) cs by simp
  have "all_processes s = foldl add_new (foldl add_new [] (mk_matchedPs c)) (concat (map mk_matchedPs cs))"
    by (simp add: all_processes_def cs)
  also have "foldl add_new [] (mk_matchedPs c) = filter (cr c) pids"
    using foldl_add_new_distinct [of "[]" "mk_matchedPs c"] assms(2) by (simp add: c)
  finally obtain ys where ys: "all_processes s = filter (cr c) pids @ ys" "set ys \<inter> set (filter (cr c) pids) = {}"
    using foldl_add_new_prefix by metis
  have in_all: "list_all (\<lambda>c. list_ex (\<lambda>q. q = p) (mk_matchedPs c)) (ms_checks s) \<longleftrightarrow> p \<in> set pids \<and> (\<forall>c\<in>set (ms_checks s). cr c p)" for p
    using assms(1,3) cs by (auto simp: list_all_iff list_ex_iff)
  have "filter (\<lambda>p. p \<in> set pids \<and> (\<forall>c\<in>set (ms_checks s). cr c p)) ys = []"
    using ys(2) by (auto simp: filter_empty_conv cs)
  moreover have "filter (\<lambda>p. p \<in> set pids \<and> (\<forall>c\<in>set (ms_checks s). cr c p)) (filter (cr c) pids) =
      filter (\<lambda>p. \<forall>c\<in>set (ms_checks s). cr c p) pids"
    by (auto simp: cs intro!: filter_cong)
  ultimately show ?thesis by (simp add: matched_processes_def in_all ys(1))
qed

text \<open>What a check asks of a process.\<close>

definition check_holds :: "mem_env \<Rightarrow> mem_search \<Rightarrow> int \<Rightarrow> mem_check \<Rightarrow> bool" where
  "check_holds env s pid c \<longleftrightarrow>
     (case mk_code c of
        CheckName \<Rightarrow> mk_regex c (process_name env pid)
      | CheckLib \<Rightarrow> fst (mm_Libs env pid (mk_value c)) \<noteq> []
      | CheckByte \<Rightarrow> list_ex (\<lambda>w. sublist (mk_bytes c) w) (process_windows env s pid)
      | CheckContent \<Rightarrow> list_ex (\<lambda>w. mk_regex c w) (process_windows env s pid))"

lemma all_credited:
  "(\<forall>c\<in>set (ms_checks s). credit env s pid c) \<longleftrightarrow> list_all (check_holds env s pid) (ms_checks s)"
proof
  assume cr: "\<forall>c\<in>set (ms_checks s). credit env s pid c"
  show "list_all (check_holds env s pid) (ms_checks s)"
    unfolding list_all_iff
  proof
    fix c assume "c \<in> set (ms_checks s)"
    with cr have "credit env s pid c" by blast
    then show "check_holds env s pid c"
      by (cases "mk_code c") (auto simp: credit_def credited_def check_holds_def name_holds_def lib_holds_def buffer_holds_def list_ex_iff)
  qed
next
  assume h: "list_all (check_holds env s pid) (ms_checks s)"
  then have "names_hold (process_name env pid) (ms_checks s)" "libs_hold env pid (ms_checks s)"
    by (auto simp: names_hold_def libs_hold_def name_holds_def lib_holds_def check_holds_def list_all_iff split: mem_code.splits)
  moreover have "name_holds (process_name env pid) c \<or> lib_holds env pid c \<or> (\<exists>w\<in>set (process_windows env s pid). buffer_holds w c)"
    if "c \<in> set (ms_checks s)" for c
    using h that by (cases "mk_code c")
      (auto simp: check_holds_def name_holds_def lib_holds_def buffer_holds_def list_all_iff list_ex_iff)
  ultimately show "\<forall>c\<in>set (ms_checks s). credit env s pid c" by (auto simp: credit_def credited_def)
qed

lemma search_run:
  assumes "plain_mem_search s" and "\<forall>pid\<in>set pids. readable_process env s pid" and "distinct pids" and "ms_checks s \<noteq> []"
    and "\<forall>c\<in>set (ms_checks s). mk_matchedPs c = []"
  shows "\<exists>s' stats'. foldl (process_step env) ([(label, s)], stats) pids = ([(label, s')], stats') \<and>
     mem_search_results env s' = map (all_match env s) (mem_or_none (filter (\<lambda>pid. list_all (check_holds env s pid) (ms_checks s)) pids))"
proof -
  define fin where "fin = (\<lambda>c. foldl (\<lambda>c pid. mem_store_if (credit env s pid) pid c) c pids)"
  obtain b stats' where run: "foldl (process_step env) ([(label, s)], stats) pids =
      ([(label, s\<lparr>ms_checks := map fin (ms_checks s), ms_isactive := b\<rparr>)], stats')"
    using processes_fold [OF assms(1,2)] unfolding fin_def by blast
  let ?s = "s\<lparr>ms_checks := map fin (ms_checks s), ms_isactive := b\<rparr>"
  have fin: "mk_matchedPs (fin c) = filter (\<lambda>pid. credit env s pid c) pids" if "c \<in> set (ms_checks s)" for c
    using store_fold [of "credit env s" pids c] assms(3,5) that by (simp add: fin_def)
  have stay: "credit env s pid (fin c) = credit env s pid c" for pid c
    unfolding fin_def by (induction pids arbitrary: c) simp_all
  have "matched_processes ?s = filter (\<lambda>p. \<forall>c\<in>set (ms_checks ?s). credit env s p c) pids"
    by (rule matched_processes_eq) (use fin stay assms(3,4) in auto)
  also have "\<dots> = filter (\<lambda>pid. list_all (check_holds env s pid) (ms_checks s)) pids"
    by (simp add: stay flip: all_credited)
  finally have "mem_search_results env ?s = map (all_match env s) (mem_or_none (filter (\<lambda>pid. list_all (check_holds env s pid) (ms_checks s)) pids))"
    using assms(1) by (simp add: mem_search_results_def plain_mem_search_def all_match_def fun_eq_iff)
  with run show ?thesis by blast
qed

section \<open>The checks of a search\<close>

definition named_check :: "mem_env \<Rightarrow> mem_code \<Rightarrow> string \<Rightarrow> mem_check \<Rightarrow> bool" where
  "named_check env code v c \<longleftrightarrow> (\<exists>re. mm_Compile env v = Inr re \<and> c = new_check code v [] re)"

definition decoded_check :: "string \<Rightarrow> mem_check \<Rightarrow> bool" where
  "decoded_check v c \<longleftrightarrow> (\<exists>bs. hex_decode v = Some bs \<and> c = new_check CheckByte v bs (\<lambda>_. False))"

text \<open>A search that has got the checks \<open>cs\<close>.\<close>

definition extended :: "mem_search \<Rightarrow> mem_check list \<Rightarrow> mem_search" where
  "extended s cs = s\<lparr>ms_checks := ms_checks s @ cs, ms_checkmask := ms_checkmask s \<union> mk_code ` set cs\<rparr>"

lemma add_checks:
  assumes "\<And>s v s'. step s v = Inr s' \<Longrightarrow> \<exists>c. R v c \<and> s' = add_check s c" and "fold_res step s vs = Inr s'"
  shows "\<exists>cs. list_all2 R vs cs \<and> s' = extended s cs"
  using assms(2)
proof (induction vs arbitrary: s)
  case Nil
  then show ?case by (simp add: extended_def)
next
  case (Cons v vs)
  then obtain s1 where s1: "step s v = Inr s1" "fold_res step s1 vs = Inr s'" by (auto split: sum.splits)
  obtain c where c: "R v c" "s1 = add_check s c" using assms(1) [OF s1(1)] by blast
  obtain cs where "list_all2 R vs cs" "s' = extended s1 cs" using Cons.IH [OF s1(2)] by blast
  with c show ?case by (intro exI [of _ "c # cs"]) (simp add: extended_def add_check_def Un_assoc)
qed

lemma regex_checks: "fold_res (mem_regex_check env code) s vs = Inr s' \<Longrightarrow> \<exists>cs. list_all2 (named_check env code) vs cs \<and> s' = extended s cs"
  by (rule add_checks) (auto simp: mem_regex_check_def named_check_def and_then_def split: sum.splits)

lemma bytes_checks: "fold_res bytes_check s vs = Inr s' \<Longrightarrow> \<exists>cs. list_all2 decoded_check vs cs \<and> s' = extended s cs"
  by (rule add_checks) (auto simp: bytes_check_def decoded_check_def split: option.splits)

definition limited :: "mem_search \<Rightarrow> mem_search" where
  "limited s = (if mo_MaxLength (ms_Options s) = 0 then s\<lparr>ms_Options := (ms_Options s)\<lparr>mo_MaxLength := max_length\<rparr>\<rparr> else s)"

lemma extended_simps [simp]:
  "ms_Names (extended s cs) = ms_Names s" "ms_Libraries (extended s cs) = ms_Libraries s" "ms_Contents (extended s cs) = ms_Contents s"
  "ms_Bytes (extended s cs) = ms_Bytes s" "ms_Options (extended s cs) = ms_Options s" "ms_checks (extended s cs) = ms_checks s @ cs"
  "ms_checkmask (extended s cs) = ms_checkmask s \<union> mk_code ` set cs"
  by (simp_all add: extended_def)

lemma extended_twice: "extended (extended s cs) ds = extended s (cs @ ds)"
  by (simp add: extended_def image_Un Un_assoc)

lemma makeChecks_Inr:
  assumes "mem_makeChecks env s0 = Inr s"
  shows "\<exists>ns ls cs bs. list_all2 (named_check env CheckName) (ms_Names s0) ns \<and> list_all2 (named_check env CheckLib) (ms_Libraries s0) ls \<and>
     list_all2 (named_check env CheckContent) (ms_Contents s0) cs \<and> list_all2 decoded_check (ms_Bytes s0) bs \<and>
     s = extended (limited s0) (ns @ ls @ cs @ bs)"
proof -
  have lim: "ms_Names (limited s0) = ms_Names s0" "ms_Libraries (limited s0) = ms_Libraries s0" "ms_Contents (limited s0) = ms_Contents s0"
    "ms_Bytes (limited s0) = ms_Bytes s0" by (simp_all add: limited_def)
  from assms obtain s1 s2 s3 where folds: "fold_res (mem_regex_check env CheckName) (limited s0) (ms_Names (limited s0)) = Inr s1"
      "fold_res (mem_regex_check env CheckLib) s1 (ms_Libraries s1) = Inr s2" "fold_res (mem_regex_check env CheckContent) s2 (ms_Contents s2) = Inr s3"
      "fold_res bytes_check s3 (ms_Bytes s3) = Inr s"
    unfolding mem_makeChecks_def Let_def recovered_eq_Inr limited_def [symmetric] by (auto simp: and_then_def split: sum.splits)
  from regex_checks [OF folds(1)] obtain ns where ns: "list_all2 (named_check env CheckName) (ms_Names s0) ns" "s1 = extended (limited s0) ns"
    by (auto simp: lim)
  from regex_checks [OF folds(2)] obtain ls where ls: "list_all2 (named_check env CheckLib) (ms_Libraries s0) ls" "s2 = extended s1 ls"
    by (auto simp: lim ns(2))
  from regex_checks [OF folds(3)] obtain cs where cs: "list_all2 (named_check env CheckContent) (ms_Contents s0) cs" "s3 = extended s2 cs"
    by (auto simp: lim ns(2) ls(2))
  from bytes_checks [OF folds(4)] obtain bs where bs: "list_all2 decoded_check (ms_Bytes s0) bs" "s = extended s3 bs"
    by (auto simp: lim ns(2) ls(2) cs(2))
  have "s = extended (limited s0) (ns @ ls @ cs @ bs)" unfolding bs(2) cs(2) ls(2) ns(2) extended_twice by simp
  with ns ls cs bs show ?thesis by blast
qed

text \<open>What a search asks of a process, from its parameters.\<close>

definition process_matches :: "mem_env \<Rightarrow> mem_search \<Rightarrow> string list \<Rightarrow> int \<Rightarrow> bool" where
  "process_matches env s ws pid \<longleftrightarrow>
     (\<forall>v\<in>set (ms_Names s). \<exists>re. mm_Compile env v = Inr re \<and> re (process_name env pid)) \<and>
     (\<forall>v\<in>set (ms_Libraries s). fst (mm_Libs env pid v) \<noteq> []) \<and>
     (\<forall>v\<in>set (ms_Contents s). \<exists>re. mm_Compile env v = Inr re \<and> (\<exists>w\<in>set ws. re w)) \<and>
     (\<forall>v\<in>set (ms_Bytes s). \<exists>bs. hex_decode v = Some bs \<and> (\<exists>w\<in>set ws. sublist bs w))"

lemma list_all2_all:
  assumes "list_all2 R vs cs" and "\<And>v c. R v c \<Longrightarrow> P c \<longleftrightarrow> Q v"
  shows "list_all P cs \<longleftrightarrow> (\<forall>v\<in>set vs. Q v)"
  using assms(1) by induction (simp_all add: assms(2))

lemma checks_match:
  assumes "mem_makeChecks env s0 = Inr s" and "ms_checks s0 = []"
  shows "list_all (check_holds env s pid) (ms_checks s) \<longleftrightarrow> process_matches env s0 (process_windows env s pid) pid"
proof -
  obtain ns ls cs bs where all: "list_all2 (named_check env CheckName) (ms_Names s0) ns" "list_all2 (named_check env CheckLib) (ms_Libraries s0) ls"
      "list_all2 (named_check env CheckContent) (ms_Contents s0) cs" "list_all2 decoded_check (ms_Bytes s0) bs"
      "s = extended (limited s0) (ns @ ls @ cs @ bs)" using makeChecks_Inr [OF assms(1)] by blast
  have "ms_checks s = ns @ ls @ cs @ bs" using assms(2) by (simp add: all(5) limited_def)
  moreover have "list_all (check_holds env s pid) ns \<longleftrightarrow> (\<forall>v\<in>set (ms_Names s0). \<exists>re. mm_Compile env v = Inr re \<and> re (process_name env pid))"
    by (rule list_all2_all [OF all(1)]) (auto simp: named_check_def check_holds_def new_check_def)
  moreover have "list_all (check_holds env s pid) ls \<longleftrightarrow> (\<forall>v\<in>set (ms_Libraries s0). fst (mm_Libs env pid v) \<noteq> [])"
    by (rule list_all2_all [OF all(2)]) (auto simp: named_check_def check_holds_def new_check_def)
  moreover have "list_all (check_holds env s pid) cs \<longleftrightarrow>
      (\<forall>v\<in>set (ms_Contents s0). \<exists>re. mm_Compile env v = Inr re \<and> (\<exists>w\<in>set (process_windows env s pid). re w))"
    by (rule list_all2_all [OF all(3)]) (auto simp: named_check_def check_holds_def new_check_def list_ex_iff)
  moreover have "list_all (check_holds env s pid) bs \<longleftrightarrow>
      (\<forall>v\<in>set (ms_Bytes s0). \<exists>bs. hex_decode v = Some bs \<and> (\<exists>w\<in>set (process_windows env s pid). sublist bs w))"
    by (rule list_all2_all [OF all(4)]) (auto simp: decoded_check_def check_holds_def new_check_def list_ex_iff)
  ultimately show ?thesis by (simp add: process_matches_def)
qed

lemma made_search:
  assumes "mem_makeChecks env s0 = Inr s" and "ms_checks s0 = []" "ms_checkmask s0 = {}"
  shows "masked s" and "\<forall>c\<in>set (ms_checks s). mk_matchedPs c = []" and "all_match env s = all_match env s0"
    and "mo_LogFailures (ms_Options s) = mo_LogFailures (ms_Options s0)" and "mo_MatchAll (ms_Options s) = mo_MatchAll (ms_Options s0)"
proof -
  obtain ns ls cs bs where all: "list_all2 (named_check env CheckName) (ms_Names s0) ns" "list_all2 (named_check env CheckLib) (ms_Libraries s0) ls"
      "list_all2 (named_check env CheckContent) (ms_Contents s0) cs" "list_all2 decoded_check (ms_Bytes s0) bs"
      "s = extended (limited s0) (ns @ ls @ cs @ bs)" using makeChecks_Inr [OF assms(1)] by blast
  have new: "mk_matchedPs c = []" if "named_check env code v c \<or> decoded_check v c" for code v c
    using that by (auto simp: named_check_def decoded_check_def new_check_def)
  have "\<forall>c\<in>set ns \<union> set ls \<union> set cs \<union> set bs. mk_matchedPs c = []"
    using all(1-4) new by (auto simp: list_all2_conv_all_nth in_set_conv_nth) metis+
  then show "\<forall>c\<in>set (ms_checks s). mk_matchedPs c = []" using assms(2) by (auto simp: all(5) limited_def)
  show "masked s" using assms(2,3) by (simp add: all(5) masked_def limited_def)
  show "mo_LogFailures (ms_Options s) = mo_LogFailures (ms_Options s0)" "mo_MatchAll (ms_Options s) = mo_MatchAll (ms_Options s0)"
    by (simp_all add: all(5) limited_def)
  show "all_match env s = all_match env s0" by (simp add: fun_eq_iff all_match_def all(5) extended_def limited_def)
qed

lemma memory_run_exact:
  assumes "mem_ValidateParameters env [(label, s0)] = Inr ()" and "mem_makeChecks env s0 = Inr s" and "mm_Pids env = Inr (pids, serr)"
    and "ms_checks s0 = []" "ms_checkmask s0 = {}" "ms_checks s \<noteq> []" and "\<not> mo_LogFailures (ms_Options s0)" "mo_MatchAll (ms_Options s0)"
    and "distinct pids" and "\<forall>pid\<in>set pids. readable_process env s pid"
  shows "mz_Success (memory_Run env (Inr [(label, s0)])) \<and>
     mz_Elements (memory_Run env (Inr [(label, s0)])) =
       [(label, map (all_match env s0) (mem_or_none (filter (\<lambda>pid. process_matches env s0 (process_windows env s pid) pid) pids)))]"
proof -
  note made = made_search [OF assms(2,4,5)]
  have "plain_mem_search s" using made assms(7,8) by (simp add: plain_mem_search_def)
  from search_run [OF this assms(10,9,6) made(2), of label "zero_stats\<lparr>mt_Failures := serr\<rparr>"]
  obtain s' stats' where run: "foldl (process_step env) ([(label, s)], zero_stats\<lparr>mt_Failures := serr\<rparr>) pids = ([(label, s')], stats')"
      "mem_search_results env s' = map (all_match env s0) (mem_or_none (filter (\<lambda>pid. process_matches env s0 (process_windows env s pid) pid) pids))"
    unfolding checks_match [OF assms(2,4)] made(3) by blast
  then show ?thesis
    by (simp add: memory_Run_def assms(1-3) make_all_checks_def mem_buildResults_def Let_def)
qed

text \<open>
  C37. A search that wants all checks returns the processes whose name, libraries and windows of memory meet all of its
  parameters, in the order of the processes, and one empty match when there are none.
\<close>

theorem memory_search_exact:
  assumes "mem_ValidateParameters env [(label, s0)] = Inr ()" and "mem_makeChecks env s0 = Inr s" and "mm_Pids env = Inr (pids, serr)"
    and "ms_checks s0 = []" "ms_checkmask s0 = {}" "ms_checks s \<noteq> []" and "\<not> mo_LogFailures (ms_Options s0)" "mo_MatchAll (ms_Options s0)"
    and "distinct pids" and "\<forall>pid\<in>set pids. readable_process env s pid"
  shows "mz_Success (memory_Run env (Inr [(label, s0)])) \<and>
     mz_Elements (memory_Run env (Inr [(label, s0)])) =
       [(label, map (all_match env s0) (mem_or_none (filter (\<lambda>pid. process_matches env s0 (process_windows env s pid) pid) pids)))]"
  by (rule memory_run_exact [OF assms])

section \<open>What the windows miss\<close>

text \<open>The chunks of one region of memory.\<close>

fun region_chunks :: "nat \<Rightarrow> string list \<Rightarrow> mem_chunk list" where
  "region_chunks addr [] = []"
| "region_chunks addr (b # bs) = ([], addr, b) # region_chunks (addr + length b) bs"

lemma slid_chunks:
  assumes "sl_buffer sl = c0 @ d" "length c0 = half" "length d = half" "0 < half" "0 < sl_start sl"
    and "sl_buffered sl = half \<or> sl_buffered sl = 2 * half" "addr = sl_start sl + sl_buffered sl"
    and "\<forall>c\<in>set cs. length c = half"
  shows "\<exists>sl'. slide_chunks (2 * half) collect (region_chunks addr cs) serr err sl = (sl', serr, err) \<and>
    sl_st sl' = sl_st sl @ map ((@) c0) cs \<and> (cs \<noteq> [] \<longrightarrow> sl_buffered sl' = 2 * half)"
  using assms
proof (induction cs arbitrary: sl d addr)
  case Nil
  then show ?case by simp
next
  case (Cons c cs)
  let ?start = "if sl_buffered sl = 2 * half then sl_start sl + half else sl_start sl"
  define sl1 where "sl1 = sl\<lparr>sl_buffer := c0 @ c, sl_start := ?start, sl_st := sl_st sl @ [c0 @ c], sl_buffered := 2 * half\<rparr>"
  have "slide_flush (2 * half) collect addr sl = (sl, True)" using Cons.prems by (simp add: slide_flush_def)
  then have "slide_chunk (2 * half) collect addr c sl = (sl1, True)"
    using Cons.prems by (auto simp: slide_chunk_def Let_def slide_call_def collect_def sl1_def)
  moreover have "\<exists>sl'. slide_chunks (2 * half) collect (region_chunks (addr + length c) cs) serr err sl1 = (sl', serr, err) \<and>
      sl_st sl' = sl_st sl1 @ map ((@) c0) cs \<and> (cs \<noteq> [] \<longrightarrow> sl_buffered sl' = 2 * half)"
  proof (rule Cons.IH [where d = c])
    show "addr + length c = sl_start sl1 + sl_buffered sl1" using Cons.prems(6,7,8) by (auto simp: sl1_def)
  qed (use Cons.prems in \<open>simp_all add: sl1_def\<close>)
  ultimately show ?case by (cases cs) (auto simp: sl1_def)
qed

text \<open>After the first window only the second half moves on: the windows of a region all begin with its first chunk.\<close>

lemma windows_of_region:
  assumes "0 < half" and "0 < addr" and "\<forall>c\<in>set (c0 # c1 # cs). length c = half"
  shows "windows_of (2 * half) (region_chunks addr (c0 # c1 # cs), serr, err) = map ((@) c0) (c1 # cs)"
proof -
  let ?start = "\<lparr>sl_buffer = replicate (2 * half) (CHR 0x00), sl_start = 0, sl_buffered = 0, sl_st = []\<rparr> :: string list slide"
  define sl where "sl = \<lparr>sl_buffer = c0 @ drop half (replicate (2 * half) (CHR 0x00)), sl_start = addr, sl_buffered = half, sl_st = [] :: string list\<rparr>"
  have "slide_chunk (2 * half) collect addr c0 ?start = (sl, True)"
    using assms by (simp add: slide_chunk_def slide_flush_def Let_def sl_def)
  moreover obtain sl' where "slide_chunks (2 * half) collect (region_chunks (addr + half) (c1 # cs)) serr err sl = (sl', serr, err)"
      "sl_st sl' = map ((@) c0) (c1 # cs)" "sl_buffered sl' = 2 * half"
    using slid_chunks [of sl c0 "replicate half (CHR 0x00)" half "addr + half" "c1 # cs" serr err] assms by (auto simp: sl_def)
  moreover have "region_chunks addr (c0 # c1 # cs) = ([], addr, c0) # region_chunks (addr + half) (c1 # cs)" using assms(3) by simp
  ultimately show ?thesis using assms(1) by (simp add: windows_of_def SlidingWalkMemory_def del: region_chunks.simps(2))
qed

text \<open>
  C39. Bytes that lie across the second and the third chunk of a region are in the memory of the process, and the search for them
  returns no match.
\<close>

theorem straddling_bytes_missed:
  assumes "mem_ValidateParameters env [(label, s0)] = Inr ()" and "mem_makeChecks env s0 = Inr s" and "mm_Pids env = Inr ([pid], serr)"
    and "ms_checks s0 = []" "ms_checkmask s0 = {}" "\<not> mo_LogFailures (ms_Options s0)" "mo_MatchAll (ms_Options s0)"
    and "readable_process env s pid" and "ms_Bytes s0 = [v]" "hex_decode v = Some bs"
    and "process_windows env s pid = windows_of (2 * half) (region_chunks addr [c0, c1, c2], errs, None)"
    and "0 < half" "0 < addr" "length c0 = half" "length c1 = half" "length c2 = half"
    and "\<not> sublist bs (c0 @ c1)" "\<not> sublist bs (c0 @ c2)" and "sublist bs (c1 @ c2)"
  shows "sublist bs (c0 @ c1 @ c2) \<and> mz_Elements (memory_Run env (Inr [(label, s0)])) = [(label, [all_match env s0 None])]"
proof -
  have ws: "process_windows env s pid = [c0 @ c1, c0 @ c2]"
    using windows_of_region [of half addr c0 c1 "[c2]" errs None] assms(11-16) by simp
  then have "\<not> process_matches env s0 (process_windows env s pid) pid"
    using assms(9,10,17,18) by (simp add: process_matches_def)
  moreover have "ms_checks s \<noteq> []" using makeChecks_Inr [OF assms(2)] assms(9) by (auto simp: limited_def)
  ultimately have "mz_Elements (memory_Run env (Inr [(label, s0)])) = [(label, [all_match env s0 None])]"
    using memory_run_exact [OF assms(1-5) _ assms(6,7)] assms(8) by (simp add: mem_or_none_def)
  moreover have "sublist bs (c0 @ c1 @ c2)" using assms(19) by (auto simp: sublist_def) (metis append.assoc)
  ultimately show ?thesis by blast
qed

section \<open>Limits and failures\<close>

text \<open>
  The window with which the limit is reached is not looked at, so a limit of up to one window means that nothing is. A soft
  error on the libraries of a process, with failures to log, makes the evaluation panic.
\<close>

lemma limit_within_first_window:
  assumes "mo_MaxLength (ms_Options s) \<le> int (length w)"
  shows "ms_checks (search_windows pid (read_counts 0 (w # ws)) s) = ms_checks s"
proof -
  have "\<not> ms_isactive (fst (search_buffer pid (length w) w s))" "ms_checks (fst (search_buffer pid (length w) w s)) = ms_checks s"
    using assms by (auto simp: search_buffer_def mem_deactivate_def)
  then show ?thesis using windows_inactive by (simp add: search_windows_def count_read_def)
qed

lemma soft_library_error_panics:
  assumes "mm_Libs env pid (mk_value c) = (libs, e # es, None)" and "mk_code c = CheckLib"
  shows "lib_checks env pid True (c # cs) fails = (c # cs, True, fails, Some mem_nil)"
  using assms by (simp add: Let_def)

section \<open>Examples\<close>

text \<open>Two processes; expressions match the text that they are; memory is given.\<close>

definition example_mem_env :: "int list \<Rightarrow> mem_chunk list \<Rightarrow> mem_env" where
  "example_mem_env pids chunks =
     \<lparr>mm_Compile = (\<lambda>v. Inr (\<lambda>x. x = v)), mm_Pids = Inr (pids, []), mm_Open = (\<lambda>pid. Inr []),
      mm_Name = (\<lambda>pid. Inr (if pid = 1 then ''one'' else ''two'', [])), mm_NameAfter = (\<lambda>pid. ''one''),
      mm_Libs = (\<lambda>pid v. ([], [], None)), mm_Walk = (\<lambda>pid offset half. (chunks, [], None)), mm_Uintptr = nat,
      mm_ParseFloat = (\<lambda>s. (0, None))\<rparr>"

definition example_named :: mem_search where
  "example_named = update_options (\<lambda>opt. opt\<lparr>mo_MatchAll := True\<rparr>) (new_search\<lparr>ms_Names := [''one'']\<rparr>)"

definition example_bytes :: mem_search where
  "example_bytes = update_options (\<lambda>opt. opt\<lparr>mo_MatchAll := True\<rparr>) (new_search\<lparr>ms_Bytes := [''6263'']\<rparr>)"

lemma mem_example_valid:
  "mem_ValidateParameters (example_mem_env pids chunks) [(''l'', example_named)] = Inr ()"
  "mem_ValidateParameters (example_mem_env pids chunks) [(''l'', example_bytes)] = Inr ()"
  by (simp_all add: mem_ValidateParameters_def mem_validate_search_def mem_validateLabel_def label_char_def is_lower_def example_named_def
      example_bytes_def update_options_def new_search_def mem_validateRegex_def validateBytes_def example_mem_env_def digit_val_def)

definition named_search :: mem_search where
  "named_search = extended (limited example_named) [new_check CheckName ''one'' [] (\<lambda>x. x = ''one'')]"

definition bytes_search :: mem_search where
  "bytes_search = extended (limited example_bytes) [new_check CheckByte ''6263'' ''bc'' (\<lambda>_. False)]"

lemma example_hex_decode: "hex_decode ''6263'' = Some ''bc''"
  by code_simp

lemma mem_example_checks:
  "mem_makeChecks (example_mem_env pids chunks) example_named = Inr named_search"
  "mem_makeChecks (example_mem_env pids chunks) example_bytes = Inr bytes_search"
  using example_hex_decode
  by (simp_all add: mem_makeChecks_def Let_def example_named_def example_bytes_def update_options_def new_search_def mem_regex_check_def
      bytes_check_def example_mem_env_def add_check_def new_check_def named_search_def bytes_search_def extended_def limited_def
      del: hex_decode.simps)

lemma named_windows: "process_windows (example_mem_env pids []) named_search pid = []"
  by (simp add: process_windows_def Let_def example_mem_env_def windows_of_def SlidingWalkMemory_def memory_bufsize_def memory_offset_def
      reads_memory_def named_search_def extended_def limited_def new_check_def grow_buffer_def mem_activate_def example_named_def
      update_options_def new_search_def)

theorem memory_search_exact_witness:
  "mz_Elements (memory_Run (example_mem_env [1, 2] []) (Inr [(''l'', example_named)])) =
     [(''l'', [all_match (example_mem_env [1, 2] []) example_named (Some 1)])]"
proof -
  let ?env = "example_mem_env [1, 2] []"
  have match: "process_matches ?env example_named (process_windows ?env named_search pid) pid \<longleftrightarrow> pid = 1" for pid
    by (simp add: process_matches_def example_named_def update_options_def new_search_def example_mem_env_def process_name_def)
  have "mz_Elements (memory_Run ?env (Inr [(''l'', example_named)])) =
      [(''l'', map (all_match ?env example_named) (mem_or_none (filter (\<lambda>pid. process_matches ?env example_named (process_windows ?env named_search pid) pid) [1, 2])))]"
  proof (rule memory_search_exact [THEN conjunct2])
    show "mem_ValidateParameters ?env [(''l'', example_named)] = Inr ()" by (rule mem_example_valid)
    show "mem_makeChecks ?env example_named = Inr named_search" by (rule mem_example_checks)
    show "mm_Pids ?env = Inr ([1, 2], [])" by (simp add: example_mem_env_def)
    show "\<forall>pid\<in>set [1, 2]. readable_process ?env named_search pid"
      by (simp add: readable_process_def named_windows)
        (simp add: example_mem_env_def named_search_def extended_def limited_def example_named_def update_options_def new_search_def max_length_def)
  qed (simp_all add: example_named_def update_options_def new_search_def named_search_def extended_def)
  then show ?thesis by (simp add: match mem_or_none_def)
qed

definition example_chunks :: "string list" where
  "example_chunks = [replicate 2048 CHR ''a'', replicate 2047 CHR ''a'' @ ''b'', CHR ''c'' # replicate 2047 CHR ''a'']"

lemma bytes_windows:
  "process_windows (example_mem_env [1] (region_chunks 16 example_chunks)) bytes_search pid =
     windows_of (2 * 2048) (region_chunks 16 example_chunks, [], None)"
  by (simp add: process_windows_def Let_def example_mem_env_def memory_bufsize_def memory_offset_def reads_memory_def bytes_search_def
      extended_def limited_def new_check_def grow_buffer_def mem_activate_def example_bytes_def update_options_def new_search_def)

lemma not_sublist: "x \<in> set xs \<Longrightarrow> x \<notin> set ys \<Longrightarrow> \<not> sublist xs ys"
  using set_mono_sublist by fastforce

theorem straddling_bytes_missed_witness:
  "sublist ''bc'' (concat example_chunks) \<and>
   mz_Elements (memory_Run (example_mem_env [1] (region_chunks 16 example_chunks)) (Inr [(''l'', example_bytes)])) =
     [(''l'', [all_match (example_mem_env [1] (region_chunks 16 example_chunks)) example_bytes None])]"
proof -
  let ?env = "example_mem_env [1] (region_chunks 16 example_chunks)"
  let ?c0 = "replicate 2048 CHR ''a''" and ?c1 = "replicate 2047 CHR ''a'' @ ''b''" and ?c2 = "CHR ''c'' # replicate 2047 CHR ''a''"
  have chunks: "example_chunks = [?c0, ?c1, ?c2]" by (simp add: example_chunks_def)
  have "sublist ''bc'' (?c0 @ ?c1 @ ?c2) \<and>
      mz_Elements (memory_Run ?env (Inr [(''l'', example_bytes)])) = [(''l'', [all_match ?env example_bytes None])]"
  proof (rule straddling_bytes_missed)
    show "mem_ValidateParameters ?env [(''l'', example_bytes)] = Inr ()" by (rule mem_example_valid)
    show "mem_makeChecks ?env example_bytes = Inr bytes_search" by (rule mem_example_checks)
    show "mm_Pids ?env = Inr ([1], [])" by (simp add: example_mem_env_def)
    show "hex_decode ''6263'' = Some ''bc''" by (rule example_hex_decode)
    show ws: "process_windows ?env bytes_search 1 = windows_of (2 * 2048) (region_chunks 16 [?c0, ?c1, ?c2], [], None)"
      using bytes_windows [of 1] unfolding chunks .
    have "windows_of (2 * 2048) (region_chunks 16 [?c0, ?c1, ?c2], [], None) = map ((@) ?c0) [?c1, ?c2]"
      by (rule windows_of_region) simp_all
    then show "readable_process ?env bytes_search 1"
      unfolding readable_process_def ws
      by (simp add: example_mem_env_def bytes_search_def extended_def limited_def example_bytes_def update_options_def new_search_def max_length_def)
    show "\<not> sublist ''bc'' (?c0 @ ?c1)" by (rule not_sublist [of "CHR ''c''"]) simp_all
    show "\<not> sublist ''bc'' (?c0 @ ?c2)" by (rule not_sublist [of "CHR ''b''"]) simp_all
    show "sublist ''bc'' (?c1 @ ?c2)"
      unfolding sublist_def by (intro exI [of _ "replicate 2047 CHR ''a''"]) simp
  qed (simp_all add: example_bytes_def update_options_def new_search_def)
  then show ?thesis unfolding chunks by simp
qed

end
