(* ===== verification/Client.thy ===== *)
theory Client
  imports SearchApi ActionApi Modules
begin

text \<open>
  The client library (\<open>client/client.go\<close>, \<open>client/macro.go\<close>): authentication of requests, reading from and
  writing to the API, signing, targets, following an action and fetching its results.

  The API is a parameter: \<open>ce_Send\<close> takes a request and the state of the world to a reply. JSON, files, the
  signing key and the printing of times are parameters as well. The progress bar and debugging output are left
  out. A client is passed by value, so what a method stores in it is lost when the method returns.
\<close>

section \<open>Client, requests, replies\<close>

record client =
  cl_URL :: string
  cl_Home :: string
  cl_KeyID :: string
  cl_APIKey :: string
  cl_Token :: string
  cl_Macros :: "(string \<times> string) list"

record http_request =
  hr_Method :: string
  hr_URL :: string
  hr_Form :: "(string \<times> string) list"
  hr_File :: "(string \<times> string) option"
  hr_Auth :: auth_request

record http_reply =
  rp_Code :: nat
  rp_Body :: "string result"

text \<open>The parts of a Collection+JSON resource that the client reads.\<close>

record resource_item =
  it_Data :: "(string \<times> json) list"
  it_Links :: "string list"

record resource =
  rs_Items :: "resource_item list"
  rs_Message :: string
  rs_Code :: string

record 'w client_env =
  ce_Codec :: codec
  ce_Manifests :: manifest_env
  ce_Send :: "'w \<Rightarrow> http_request \<Rightarrow> 'w \<times> http_reply result"
  ce_Now :: "'w \<Rightarrow> time"
  ce_Sleep :: "duration \<Rightarrow> 'w \<Rightarrow> 'w"
  ce_ReadFile :: "string \<Rightarrow> string result"
  ce_FormatTime :: "time \<Rightarrow> string"
  ce_StatusText :: "nat \<Rightarrow> string"
  ce_Resource :: "string \<Rightarrow> resource result"
  ce_Action :: "json \<Rightarrow> action result"
  ce_ManifestRecord :: "json \<Rightarrow> manifest_record result"
  ce_LoaderEntry :: "json \<Rightarrow> loader_entry result"
  ce_Command :: "json \<Rightarrow> command result"
  ce_Agent :: "json \<Rightarrow> agent result"
  ce_Investigator :: "json \<Rightarrow> investigator result"
  ce_ActionText :: "action \<Rightarrow> string result"
  ce_ReadAction :: "string \<Rightarrow> action result"
  ce_ManifestText :: "manifest_record \<Rightarrow> string result"
  ce_LoaderText :: "loader_entry \<Rightarrow> string result"
  ce_PermsText :: "InvestigatorPerms \<Rightarrow> string result"
  ce_Printer :: "string \<Rightarrow> (module_result \<Rightarrow> bool \<Rightarrow> string list result) option option"

text \<open>The world and the counter of \<open>GenID\<close>.\<close>

record 'w client_state =
  cs_World :: 'w
  cs_GlobalID :: mig_id

type_synonym ('w, 'a) client_run = "'w client_state \<Rightarrow> 'w client_state \<times> 'a result"

definition nil_dereference :: go_error where
  "nil_dereference = errors_New ''runtime error: invalid memory address or nil pointer dereference''"

text \<open>\<open>panic(nil)\<close>, which a deferred function does not see.\<close>

definition nil_panic :: go_error where
  "nil_panic = errors_New ''<nil>''"

definition index_range :: go_error where
  "index_range = errors_New ''runtime error: index out of range''"

text \<open>The deferred function of a method.\<close>

definition run_recovered :: "string \<Rightarrow> 'st \<times> 'a result \<Rightarrow> 'st \<times> 'a result" where
  "run_recovered f r = map_prod id (recovered f) r"

section \<open>Macros and configuration\<close>

definition addMacro :: "string \<Rightarrow> string \<Rightarrow> (string \<times> string) list \<Rightarrow> (string \<times> string) list" where
  "addMacro nm tgt ms = al_set nm tgt ms"

definition getMacro :: "string \<Rightarrow> (string \<times> string) list \<Rightarrow> string result" where
  "getMacro nm ms = (case map_of ms nm of None \<Rightarrow> Inl (Errorf ''macro %v not found'' [AStr nm]) | Some t \<Rightarrow> Inr t)"

text \<open>A macro is a name of at least one byte, a colon, and the target.\<close>

definition add_macro :: "(string \<times> string) list \<Rightarrow> string \<Rightarrow> (string \<times> string) list result" where
  "add_macro ms x =
     (let nm = takeWhile (\<lambda>c. c \<noteq> CHR '':'') x
      in if CHR '':'' \<notin> set x \<or> nm = [] then Inl (Errorf ''Invalid macro format: %q'' [AStr x])
         else Inr (addMacro nm (drop (Suc (length nm)) x) ms))"

definition addTargetMacros :: "string list \<Rightarrow> (string \<times> string) list result" where
  "addTargetMacros macros = recovered ''addTargetMacros'' (fold_res add_macro [] macros)"

definition ResolveTargetMacro :: "client \<Rightarrow> string \<Rightarrow> string" where
  "ResolveTargetMacro cli target = (case getMacro target (cl_Macros cli) of Inl _ \<Rightarrow> target | Inr v \<Rightarrow> v)"

text \<open>\<open>FindHomedir\<close>: the variable \<open>HOME\<close>, or the directory of the current user.\<close>

definition FindHomedir :: "string \<Rightarrow> string result \<Rightarrow> string result" where
  "FindHomedir home user = recovered ''FindHomedir'' (if home \<noteq> [] then Inr home else user)"

record file_conf =
  fc_URL :: string
  fc_Home :: string
  fc_KeyID :: string
  fc_APIKey :: string
  fc_Macro :: "string list"

text \<open>
  \<open>ReadConfiguration\<close>, from the outcome of finding or making the file and of reading it; \<open>gnupghome\<close> and
  \<open>home\<close> are variables of the environment, \<open>user\<close> is the home directory of the current user, and \<open>exists\<close> tells
  which files there are.
\<close>

definition ReadConfiguration ::
  "unit result \<Rightarrow> file_conf result \<Rightarrow> string \<Rightarrow> string \<Rightarrow> string result \<Rightarrow> (string \<Rightarrow> bool) \<Rightarrow> client result" where
  "ReadConfiguration found conf gnupghome home user exists =
     recovered ''ReadConfiguration''
       (and_then found (\<lambda>_. and_then conf (\<lambda>c.
        and_then (if fc_APIKey c \<noteq> [] then Inr c
                  else and_then (if fc_Home c \<noteq> [] then Inr c
                                 else and_then (FindHomedir home user) (\<lambda>hdir.
                                        Inr (c\<lparr>fc_Home := path_Join hdir (if gnupghome = [] then ''/.gnupg'' else gnupghome)\<rparr>)))
                         (\<lambda>c. if exists (fc_Home c @ ''/secring.gpg'') then Inr c else Inl (errors_New ''secring.gpg not found'')))
          (\<lambda>c. let n = length (fc_URL c)
               in if n \<le> 1 then Inl (Errorf ''config API URL too short or undefined: len %d'' [AInt (int n)])
                  else and_then (addTargetMacros (fc_Macro c)) (\<lambda>ms.
                         Inr \<lparr>cl_URL = (if last (fc_URL c) \<noteq> CHR ''/'' then fc_URL c @ ''/'' else fc_URL c),
                              cl_Home = fc_Home c, cl_KeyID = fc_KeyID c, cl_APIKey = fc_APIKey c, cl_Token = [], cl_Macros = ms\<rparr>)))))"

section \<open>Tokens\<close>

definition secring_file :: "client \<Rightarrow> string" where
  "secring_file cli = cl_Home cli @ ''/secring.gpg''"

definition MakeSignedToken :: "'w client_env \<Rightarrow> client \<Rightarrow> ('w, string) client_run" where
  "MakeSignedToken env cli st =
     (let now = ce_Now env (cs_World st); (i, g) = GenID (cs_GlobalID st) now;
          str = ''1;'' @ ce_FormatTime env now @ '';'' @ fmt_d i
      in (st\<lparr>cs_GlobalID := g\<rparr>,
          recovered ''MakeSignedToken''
            (and_then (ce_ReadFile env (secring_file cli)) (\<lambda>secring.
             and_then (pgp_Sign (ce_Manifests env) (str @ [newline]) (cl_KeyID cli) secring) (\<lambda>sig.
               Inr (str @ '';'' @ sig))))))"

text \<open>\<open>NewClient\<close> makes a token only to see whether it can.\<close>

definition NewClient :: "'w client_env \<Rightarrow> client \<Rightarrow> ('w, client) client_run" where
  "NewClient env cli st =
     (if cl_APIKey cli \<noteq> [] then (st, Inr cli)
      else (case MakeSignedToken env cli st of
              (st, Inl e) \<Rightarrow>
                (st, Inl (Errorf ''failed to generate a security token using key %v from %v: %v''
                            [AStr (cl_KeyID cli), AStr (secring_file cli), AErr e]))
            | (st, Inr _) \<Rightarrow> (st, Inr cli)))"

section \<open>Requests\<close>

definition send_request :: "'w client_env \<Rightarrow> auth_request \<Rightarrow> http_request \<Rightarrow> ('w, http_reply) client_run" where
  "send_request env auth rq st =
     (case ce_Send env (cs_World st) (rq\<lparr>hr_Auth := auth\<rparr>) of (w, r) \<Rightarrow> (st\<lparr>cs_World := w\<rparr>, r))"

definition token_auth :: "string \<Rightarrow> auth_request" where
  "token_auth t = \<lparr>aq_PGPAuthorization = t, aq_APIKey = []\<rparr>"

text \<open>
  When the first request fails the code reads the status of a reply that is not there. Only a request with a
  token is tried again, once, with a new token; the first attempt has read the form and the file of the request to
  their end, so the second one has none.
\<close>

definition first_reply :: "'w client_env \<Rightarrow> auth_request \<Rightarrow> http_request \<Rightarrow> ('w, http_reply) client_run" where
  "first_reply env auth rq st =
     (case send_request env auth rq st of (st, Inl _) \<Rightarrow> (st, Inl nil_dereference) | (st, Inr rp) \<Rightarrow> (st, Inr rp))"

definition body_read :: "http_request \<Rightarrow> http_request" where
  "body_read rq = rq\<lparr>hr_Form := [], hr_File := None\<rparr>"

definition client_Do :: "'w client_env \<Rightarrow> client \<Rightarrow> http_request \<Rightarrow> ('w, http_reply) client_run" where
  "client_Do env cli rq st =
     run_recovered ''Do''
       (if cl_APIKey cli \<noteq> [] then first_reply env \<lparr>aq_PGPAuthorization = [], aq_APIKey = cl_APIKey cli\<rparr> rq st
        else bind_db (if cl_Token cli = [] then MakeSignedToken env cli st else (st, Inr (cl_Token cli))) (\<lambda>token st.
             bind_db (first_reply env (token_auth token) rq st) (\<lambda>rp st.
               if rp_Code rp \<noteq> 401 then (st, Inr rp)
               else bind_db (st, rp_Body rp) (\<lambda>_ st.
                    bind_db (MakeSignedToken env cli st) (\<lambda>token st.
                      send_request env (token_auth token) (body_read rq) st)))))"

definition http_get :: "client \<Rightarrow> string \<Rightarrow> http_request" where
  "http_get cli target = \<lparr>hr_Method = ''GET'', hr_URL = cl_URL cli @ target, hr_Form = [], hr_File = None,
     hr_Auth = \<lparr>aq_PGPAuthorization = [], aq_APIKey = []\<rparr>\<rparr>"

definition http_post :: "client \<Rightarrow> string \<Rightarrow> (string \<times> string) list \<Rightarrow> http_request" where
  "http_post cli target form = \<lparr>hr_Method = ''POST'', hr_URL = cl_URL cli @ target, hr_Form = form, hr_File = None,
     hr_Auth = \<lparr>aq_PGPAuthorization = [], aq_APIKey = []\<rparr>\<rparr>"

text \<open>A body of more than one byte is a resource.\<close>

definition read_resource :: "'w client_env \<Rightarrow> string result \<Rightarrow> resource option result" where
  "read_resource env body =
     and_then body (\<lambda>b. if 1 < length b then and_then (ce_Resource env b) (\<lambda>r. Inr (Some r)) else Inr None)"

definition api_failure :: "string \<Rightarrow> nat \<Rightarrow> resource \<Rightarrow> go_error" where
  "api_failure what code r =
     Errorf (''error: HTTP %d. '' @ what @ '' failed with error '' @ quoted ''%v'' @ '' (code %s)'')
       [AInt (int code), AStr (rs_Message r), AStr (rs_Code r)]"

text \<open>\<open>GetAPIResource\<close> returns the resource, if it could be read, also beside an error.\<close>

definition resource_of_reply :: "'w client_env \<Rightarrow> http_reply \<Rightarrow> resource option \<times> unit result" where
  "resource_of_reply env rp =
     (case (if rp_Code rp < 500 then read_resource env (rp_Body rp) else Inr None) of
        Inl e \<Rightarrow> (None, Inl e)
      | Inr r \<Rightarrow>
          (r, if rp_Code rp = 200 then Inr ()
              else (case r of
                      Some res \<Rightarrow> Inl (api_failure ''API call'' (rp_Code rp) res)
                    | None \<Rightarrow> Inl (Errorf ''error: HTTP %d %s. No response body''
                                [AInt (int (rp_Code rp)), AStr (ce_StatusText env (rp_Code rp))]))))"

definition GetAPIResource ::
  "'w client_env \<Rightarrow> client \<Rightarrow> string \<Rightarrow> 'w client_state \<Rightarrow> 'w client_state \<times> resource option \<times> unit result" where
  "GetAPIResource env cli target st =
     (case client_Do env cli (http_get cli target) st of
        (st, Inl e) \<Rightarrow> (st, None, recovered ''GetAPIResource'' (Inl e))
      | (st, Inr rp) \<Rightarrow>
          (case resource_of_reply env rp of (r, err) \<Rightarrow> (st, r, recovered ''GetAPIResource'' err)))"

text \<open>The callers that panic on an error.\<close>

definition present :: "'a option \<Rightarrow> 'a result" where
  "present r = (case r of None \<Rightarrow> Inl nil_dereference | Some x \<Rightarrow> Inr x)"

definition get_resource :: "'w client_env \<Rightarrow> client \<Rightarrow> string \<Rightarrow> ('w, resource) client_run" where
  "get_resource env cli target st =
     (case GetAPIResource env cli target st of (st, r, err) \<Rightarrow> (st, and_then err (\<lambda>_. present r)))"

definition first_data :: "resource \<Rightarrow> (string \<times> json \<times> string list) result" where
  "first_data r =
     (case rs_Items r of
        [] \<Rightarrow> Inl index_range
      | it # _ \<Rightarrow> (case it_Data it of [] \<Rightarrow> Inl index_range | (n, v) # _ \<Rightarrow> Inr (n, v, it_Links it)))"

definition ValueTo :: "'w client_env \<Rightarrow> string \<Rightarrow> (json \<Rightarrow> 'a result) \<Rightarrow> json \<Rightarrow> 'a result" where
  "ValueTo env f decode v = recovered f (redecode (ce_Codec env) decode v)"

definition ValueToAction :: "'w client_env \<Rightarrow> json \<Rightarrow> action result" where
  "ValueToAction env = ValueTo env ''ValueToAction'' (ce_Action env)"
definition ValueToLoaderEntry :: "'w client_env \<Rightarrow> json \<Rightarrow> loader_entry result" where
  "ValueToLoaderEntry env = ValueTo env ''ValueToLoaderEntries'' (ce_LoaderEntry env)"
definition ValueToManifestRecord :: "'w client_env \<Rightarrow> json \<Rightarrow> manifest_record result" where
  "ValueToManifestRecord env = ValueTo env ''ValueToManifestRecord'' (ce_ManifestRecord env)"
definition ValueToCommand :: "'w client_env \<Rightarrow> json \<Rightarrow> command result" where
  "ValueToCommand env = ValueTo env ''ValueToCommand'' (ce_Command env)"
definition ValueToAgent :: "'w client_env \<Rightarrow> json \<Rightarrow> agent result" where
  "ValueToAgent env = ValueTo env ''valueToAgent'' (ce_Agent env)"
definition ValueToInvestigator :: "'w client_env \<Rightarrow> json \<Rightarrow> investigator result" where
  "ValueToInvestigator env v =
     (case redecode (ce_Codec env) (ce_Investigator env) v of
        Inl e \<Rightarrow> Inl (Errorf ''valueToInvestigator) -> %v'' [AErr e]) | Inr i \<Rightarrow> Inr i)"


section \<open>Reading from the API\<close>

definition get_value :: "'w client_env \<Rightarrow> client \<Rightarrow> string \<Rightarrow> string \<Rightarrow> string \<Rightarrow> (json \<Rightarrow> 'a result) \<Rightarrow> ('w, 'a \<times> string list) client_run" where
  "get_value env cli target nm what decode st =
     bind_db (get_resource env cli target st) (\<lambda>r st.
       (st, and_then (first_data r) (\<lambda>(n, v, links).
              if n \<noteq> nm then Inl (errors_New (''API returned something that is not '' @ what @ ''... something's wrong.''))
              else and_then (decode v) (\<lambda>x. Inr (x, links)))))"

definition run_fst :: "'st \<times> ('a \<times> 'b) result \<Rightarrow> 'st \<times> 'a result" where
  "run_fst r = map_prod id (map_sum id fst) r"

definition client_GetAction :: "'w client_env \<Rightarrow> client \<Rightarrow> mig_id \<Rightarrow> ('w, action \<times> string list) client_run" where
  "client_GetAction env cli aid st =
     run_recovered ''GetAction''
       (get_value env cli (''action?actionid='' @ fmt_d aid) ''action'' ''an action'' (ValueToAction env) st)"

definition GetManifestRecord :: "'w client_env \<Rightarrow> client \<Rightarrow> mig_id \<Rightarrow> ('w, manifest_record) client_run" where
  "GetManifestRecord env cli mid st =
     run_recovered ''GetManifestRecord''
       (run_fst (get_value env cli (''manifest?manifestid='' @ fmt_d mid) ''manifest'' ''a manifest'' (ValueToManifestRecord env) st))"

definition GetLoaderEntry :: "'w client_env \<Rightarrow> client \<Rightarrow> mig_id \<Rightarrow> ('w, loader_entry) client_run" where
  "GetLoaderEntry env cli lid st =
     run_recovered ''GetLoaderEntry''
       (run_fst (get_value env cli (''loader?loaderid='' @ fmt_d lid) ''loader'' ''a loader'' (ValueToLoaderEntry env) st))"

definition client_GetCommand :: "'w client_env \<Rightarrow> client \<Rightarrow> mig_id \<Rightarrow> ('w, command) client_run" where
  "client_GetCommand env cli cmdid st =
     run_recovered ''GetCommand''
       (run_fst (get_value env cli (''command?commandid='' @ fmt_d cmdid) ''command'' ''a command'' (ValueToCommand env) st))"

definition client_GetAgent :: "'w client_env \<Rightarrow> client \<Rightarrow> mig_id \<Rightarrow> ('w, agent) client_run" where
  "client_GetAgent env cli agtid st =
     run_recovered ''GetAgent''
       (run_fst (get_value env cli (''agent?agentid='' @ fmt_d agtid) ''agent'' ''an agent'' (ValueToAgent env) st))"

definition GetInvestigator :: "'w client_env \<Rightarrow> client \<Rightarrow> mig_id \<Rightarrow> ('w, investigator) client_run" where
  "GetInvestigator env cli iid st =
     run_recovered ''GetInvestigator''
       (run_fst (get_value env cli (''investigator?investigatorid='' @ fmt_d iid) ''investigator'' ''an investigator''
          (ValueToInvestigator env) st))"

text \<open>All values of a name, in order; the first of each item for the loaders of a manifest.\<close>

definition named_values :: "string \<Rightarrow> resource \<Rightarrow> json list" where
  "named_values nm r = concat (map (\<lambda>it. map snd (filter (\<lambda>(n, v). n = nm) (it_Data it))) (rs_Items r))"

definition first_values :: "string \<Rightarrow> resource \<Rightarrow> json list" where
  "first_values nm r = concat (map (\<lambda>it. take 1 (map snd (filter (\<lambda>(n, v). n = nm) (it_Data it)))) (rs_Items r))"

definition GetManifestLoaders :: "'w client_env \<Rightarrow> client \<Rightarrow> mig_id \<Rightarrow> ('w, loader_entry list) client_run" where
  "GetManifestLoaders env cli mid st =
     run_recovered ''GetManifestLoaders''
       (bind_db (get_resource env cli (''manifest/loaders/?manifestid='' @ fmt_d mid) st) (\<lambda>r st.
          (st, map_res (ValueToLoaderEntry env) (first_values ''loader'' r))))"

section \<open>Writing to the API\<close>

text \<open>
  A form is posted and the reply must have the expected status; without a resource in the body of a refusal the
  code dereferences a nil pointer.
\<close>

definition post_resource ::
  "'w client_env \<Rightarrow> client \<Rightarrow> string \<Rightarrow> (string \<times> string) list \<Rightarrow> nat \<Rightarrow> string \<Rightarrow> ('w, resource option) client_run" where
  "post_resource env cli target form expected what st =
     bind_db (client_Do env cli (http_post cli target form) st) (\<lambda>rp st.
       (st, and_then (read_resource env (rp_Body rp)) (\<lambda>r.
              if rp_Code rp = expected then Inr r
              else and_then (present r) (\<lambda>res. Inl (api_failure what (rp_Code rp) res)))))"

definition run_unit :: "'st \<times> 'a result \<Rightarrow> 'st \<times> unit result" where
  "run_unit r = map_prod id (map_sum id (\<lambda>_. ())) r"

text \<open>The value that comes back with the reply.\<close>

definition reflected :: "(json \<Rightarrow> 'a result) \<Rightarrow> resource option \<Rightarrow> 'a result" where
  "reflected decode r = and_then (present r) (\<lambda>res. and_then (first_data res) (\<lambda>(n, v, links). decode v))"

definition post_reflected ::
  "'w client_env \<Rightarrow> client \<Rightarrow> string \<Rightarrow> (string \<times> string) list \<Rightarrow> nat \<Rightarrow> string \<Rightarrow> (json \<Rightarrow> 'a result) \<Rightarrow> ('w, 'a) client_run" where
  "post_reflected env cli target form expected what decode st =
     bind_db (post_resource env cli target form expected what st) (\<lambda>r st. (st, reflected decode r))"

definition ManifestRecordStatus :: "'w client_env \<Rightarrow> client \<Rightarrow> manifest_record \<Rightarrow> string \<Rightarrow> ('w, unit) client_run" where
  "ManifestRecordStatus env cli mr status st =
     run_recovered ''ResetManifestRecord''
       (run_unit (post_resource env cli ''manifest/status/'' [(''manifestid'', fmt_d (mr_ID mr)), (''status'', status)]
          200 ''Status update'' st))"

definition PostNewManifest :: "'w client_env \<Rightarrow> client \<Rightarrow> manifest_record \<Rightarrow> ('w, unit) client_run" where
  "PostNewManifest env cli mr st =
     run_recovered ''PostNewManifest''
       (bind_db (st, ce_ManifestText env mr) (\<lambda>mrbuf st.
          run_unit (post_resource env cli ''manifest/new/'' [(''manifest'', mrbuf)] 201 ''Manifest create'' st)))"

definition PostManifestSignature :: "'w client_env \<Rightarrow> client \<Rightarrow> manifest_record \<Rightarrow> string \<Rightarrow> ('w, unit) client_run" where
  "PostManifestSignature env cli mr sig st =
     run_recovered ''PostManifestSignature''
       (run_unit (post_resource env cli ''manifest/sign/'' [(''manifestid'', fmt_d (mr_ID mr)), (''signature'', sig)]
          200 ''Signature update'' st))"

definition LoaderEntryExpect :: "'w client_env \<Rightarrow> client \<Rightarrow> loader_entry \<Rightarrow> string \<Rightarrow> ('w, unit) client_run" where
  "LoaderEntryExpect env cli le eval st =
     run_recovered ''LoaderEntryExpect''
       (run_unit (post_resource env cli ''loader/expect/'' [(''loaderid'', fmt_d (le_ID le)), (''expectenv'', eval)]
          200 ''Expect update'' st))"

definition LoaderEntryStatus :: "'w client_env \<Rightarrow> client \<Rightarrow> loader_entry \<Rightarrow> bool \<Rightarrow> ('w, unit) client_run" where
  "LoaderEntryStatus env cli le status st =
     run_recovered ''LoaderEntryStatus''
       (run_unit (post_resource env cli ''loader/status/''
          [(''loaderid'', fmt_d (le_ID le)), (''status'', if status then ''enabled'' else ''disabled'')] 200 ''Status update'' st))"

definition LoaderEntryKey :: "'w client_env \<Rightarrow> client \<Rightarrow> loader_entry \<Rightarrow> ('w, loader_entry) client_run" where
  "LoaderEntryKey env cli le st =
     run_recovered ''LoaderEntryKey''
       (post_reflected env cli ''loader/key/'' [(''loaderid'', fmt_d (le_ID le))] 200 ''Key update'' (ValueToLoaderEntry env) st)"

definition PostNewLoader :: "'w client_env \<Rightarrow> client \<Rightarrow> loader_entry \<Rightarrow> ('w, loader_entry) client_run" where
  "PostNewLoader env cli le st =
     run_recovered ''PostNewLoader''
       (if le_Prefix le \<noteq> [] \<or> le_Key le \<noteq> [] then (st, Inl (errors_New ''loader key and prefix must be unset''))
        else bind_db (st, ce_LoaderText env le) (\<lambda>lebuf st.
               post_reflected env cli ''loader/new/'' [(''loader'', lebuf)] 201 ''Loader create'' (ValueToLoaderEntry env) st))"

definition PostAction :: "'w client_env \<Rightarrow> client \<Rightarrow> action \<Rightarrow> ('w, action) client_run" where
  "PostAction env cli a st =
     run_recovered ''PostAction''
       (bind_db (st, ce_ActionText env (a\<lparr>act_SyntaxVersion := ActionVersion\<rparr>)) (\<lambda>actionstr st.
        bind_db (client_Do env cli (http_post cli ''action/create/'' [(''action'', actionstr)]) st) (\<lambda>rp st.
          (st, and_then (rp_Body rp) (\<lambda>body.
                 if rp_Code rp \<noteq> 202 then Inl (Errorf ''error: HTTP %d. action creation failed'' [AInt (int (rp_Code rp))])
                 else and_then (ce_Resource env body) (\<lambda>res. reflected (ValueToAction env) (Some res)))))))"

text \<open>A refusal is returned without the name of the function.\<close>

definition PostInvestigator ::
  "'w client_env \<Rightarrow> client \<Rightarrow> string \<Rightarrow> string \<Rightarrow> InvestigatorPerms \<Rightarrow> ('w, investigator) client_run" where
  "PostInvestigator env cli nm pubkey pset st =
     bind_db (run_recovered ''PostInvestigator''
         (bind_db (st, ce_PermsText env pset) (\<lambda>pbuf st.
          bind_db (client_Do env cli ((http_post cli ''investigator/create/'' [(''name'', nm), (''permissions'', pbuf)])
              \<lparr>hr_File := if pubkey \<noteq> [] then Some (nm @ ''.asc'', pubkey) else None\<rparr>) st) (\<lambda>rp st.
          bind_db (st, and_then (rp_Body rp) (ce_Resource env)) (\<lambda>res st. (st, Inr (rp_Code rp, res))))))) (\<lambda>(code, res) st.
       if code \<noteq> 201
       then (st, Inl (Errorf ''HTTP %d: %v (code %s)'' [AInt (int code), AStr (rs_Message res), AStr (rs_Code res)]))
       else (st, recovered ''PostInvestigator'' (reflected (ValueToInvestigator env) (Some res))))"

definition PostInvestigatorPerms :: "'w client_env \<Rightarrow> client \<Rightarrow> mig_id \<Rightarrow> InvestigatorPerms \<Rightarrow> ('w, unit) client_run" where
  "PostInvestigatorPerms env cli iid perm st =
     run_recovered ''PostInvestigatorPerms''
       (bind_db (st, ce_PermsText env perm) (\<lambda>permbuf st.
          run_unit (post_resource env cli ''investigator/update/'' [(''id'', fmt_d iid), (''permissions'', permbuf)]
            200 ''permission update'' st)))"

definition PostInvestigatorStatus :: "'w client_env \<Rightarrow> client \<Rightarrow> mig_id \<Rightarrow> string \<Rightarrow> ('w, unit) client_run" where
  "PostInvestigatorStatus env cli iid newstatus st =
     run_recovered ''PostInvestigatorStatus''
       (run_unit (post_resource env cli ''investigator/update/'' [(''id'', fmt_d iid), (''status'', newstatus)]
          200 ''status update'' st))"

definition PostInvestigatorAPIKeyStatus :: "'w client_env \<Rightarrow> client \<Rightarrow> mig_id \<Rightarrow> string \<Rightarrow> ('w, investigator) client_run" where
  "PostInvestigatorAPIKeyStatus env cli iid newstatus st =
     run_recovered ''PostInvestigatorAPIKey''
       (post_reflected env cli ''investigator/update/'' [(''id'', fmt_d iid), (''apikey'', newstatus)]
          200 ''apikey update'' (ValueToInvestigator env) st)"

section \<open>Signing\<close>

text \<open>
  The operations are compressed one after the other; those before a failure stay compressed. (The slice is
  shared with the action that was passed.)
\<close>

fun compress_operations :: "codec \<Rightarrow> operation list \<Rightarrow> go_error option \<times> operation list" where
  "compress_operations cd [] = (None, [])"
| "compress_operations cd (op # os) =
     (if \<not> op_WantCompressed op \<or> op_IsCompressed op
      then (case compress_operations cd os of (e, os) \<Rightarrow> (e, op # os))
      else (case CompressOperationParam cd op of
              (Some e, op) \<Rightarrow> (Some e, op # os)
            | (None, op) \<Rightarrow> (case compress_operations cd os of (e, os) \<Rightarrow> (e, op # os))))"

definition CompressAction :: "codec \<Rightarrow> action \<Rightarrow> go_error option \<times> action" where
  "CompressAction cd a =
     (case act_Operations a of
        None \<Rightarrow> (None, a)
      | Some os \<Rightarrow>
          (case compress_operations cd os of
             (e, os) \<Rightarrow> (map_option (\<lambda>e. Errorf ''CompressAction() -> %v'' [AErr e]) e, a\<lparr>act_Operations := Some os\<rparr>)))"

text \<open>The action is written to a file and read back before it is signed (\<open>action.go\<close>).\<close>

definition Action_Sign :: "'w client_env \<Rightarrow> string \<Rightarrow> string \<Rightarrow> action \<Rightarrow> string result" where
  "Action_Sign env keyid secring a =
     recovered ''Sign''
       (and_then (ce_ActionText env a) (\<lambda>data. and_then (ce_ReadAction env data) (\<lambda>a2.
        and_then (String (ce_Codec env) a2) (\<lambda>str. pgp_Sign (ce_Manifests env) str keyid secring))))"

definition SignAction :: "'w client_env \<Rightarrow> client \<Rightarrow> action \<Rightarrow> action result" where
  "SignAction env cli a =
     recovered ''SignAction''
       (and_then (ce_ReadFile env (secring_file cli)) (\<lambda>secring.
        and_then (Action_Sign env (cl_KeyID cli) secring a) (\<lambda>sig.
          Inr (a\<lparr>act_PGPSignatures := act_PGPSignatures a @ [sig]\<rparr>))))"

definition SignManifest :: "'w client_env \<Rightarrow> client \<Rightarrow> manifest_record \<Rightarrow> string result" where
  "SignManifest env cli m =
     recovered ''SignManifest''
       (and_then (ce_ReadFile env (secring_file cli)) (\<lambda>secring. ManifestRecord_Sign (ce_Manifests env) (cl_KeyID cli) secring m))"

section \<open>Targets\<close>

definition hex_upper :: "nat \<Rightarrow> char" where
  "hex_upper d = (if d < 10 then char_of (48 + d) else char_of (55 + d))"

definition unreserved :: "char \<Rightarrow> bool" where
  "unreserved c \<longleftrightarrow> is_upper c \<or> is_lower c \<or> is_digit c \<or> c = CHR ''-'' \<or> c = CHR ''_'' \<or> c = CHR ''.'' \<or> c = CHR ''~''"

text \<open>\<open>url.QueryEscape\<close>.\<close>

definition QueryEscape :: "string \<Rightarrow> string" where
  "QueryEscape s = concat (map (\<lambda>c. if unreserved c then [c] else if c = CHR '' '' then ''+''
     else [CHR ''%'', hex_upper (byte c div 16), hex_upper (byte c mod 16)]) s)"

definition EvaluateAgentTarget :: "'w client_env \<Rightarrow> client \<Rightarrow> string \<Rightarrow> ('w, agent list) client_run" where
  "EvaluateAgentTarget env cli target st =
     run_recovered ''EvaluateAgentTarget''
       (bind_db (get_resource env cli (''search?type=agent&limit=1000000&target='' @ QueryEscape target) st) (\<lambda>r st.
          (st, map_res (ValueToAgent env) (named_values ''agent'' r))))"

section \<open>Following an action\<close>

text \<open>
  One turn asks for the action; after a failure \<open>a\<close> is the zero action, since the result is assigned to it. The
  status that decides is that of the first answer. The list gives for each turn whether the caller has asked to
  stop; when it is used up the function is still running.
\<close>

definition followed_statuses :: "string list" where
  "followed_statuses = [''pending'', ''scheduled'', ''preparing'', ''inflight'']"

definition follow_over :: "string \<Rightarrow> action \<Rightarrow> time \<Rightarrow> bool" where
  "follow_over status a now \<longleftrightarrow>
     \<not> list_ex (\<lambda>s. s = status) followed_statuses \<or>
     0 < cnt_Done (act_Counters a) \<and> cnt_Sent (act_Counters a) \<le> cnt_Done (act_Counters a) \<or>
     act_ExpireAfter a + 10 * second < now"

definition cli_sleep :: "'w client_env \<Rightarrow> duration \<Rightarrow> 'w client_state \<Rightarrow> 'w client_state" where
  "cli_sleep env d st = st\<lparr>cs_World := ce_Sleep env d (cs_World st)\<rparr>"

fun follow_loop ::
  "'w client_env \<Rightarrow> client \<Rightarrow> bool list \<Rightarrow> nat \<Rightarrow> string \<Rightarrow> action \<Rightarrow> 'w client_state \<Rightarrow> 'w client_state \<times> unit result option" where
  "follow_loop env cli [] attempts status a st = (st, None)"
| "follow_loop env cli (stop # stops) attempts status a st =
     (case client_GetAction env cli (act_ID a) st of
        (st, Inl e) \<Rightarrow>
          (let st = cli_sleep env second st
           in if 30 \<le> attempts + 1
              then (st, Some (recovered ''followAction''
                      (Inl (errors_New ''failed to retrieve action after 30 seconds. launch may have failed''))))
              else follow_loop env cli stops (attempts + 1) status zero_action st)
      | (st, Inr (a, _)) \<Rightarrow>
          (let status = (if status = [] then act_Status a else status)
           in if follow_over status a (ce_Now env (cs_World st))
              then (case client_GetAction env cli (act_ID a) st of (st, r) \<Rightarrow> (st, Some (map_sum id (\<lambda>_. ()) r)))
              else if stop then (st, Some (Inr ()))
              else follow_loop env cli stops attempts status a (cli_sleep env (2 * second) st)))"

definition FollowAction :: "'w client_env \<Rightarrow> client \<Rightarrow> bool list \<Rightarrow> action \<Rightarrow> 'w client_state \<Rightarrow> 'w client_state \<times> unit result option" where
  "FollowAction env cli stops a st = follow_loop env cli stops 0 [] a st"

section \<open>Results\<close>

definition page_limit :: int where "page_limit = 37"

definition page_target :: "int \<Rightarrow> mig_id \<Rightarrow> string" where
  "page_target offset aid =
     ''search?type=command&limit='' @ fmt_d page_limit @ ''&offset='' @ fmt_d offset @ ''&actionid='' @ fmt_d aid"

text \<open>
  Pages are fetched until one has no command; \<open>None\<close> means that the function is still running after \<open>n\<close> pages.
\<close>

fun fetch_pages ::
  "nat \<Rightarrow> 'w client_env \<Rightarrow> client \<Rightarrow> mig_id \<Rightarrow> int \<Rightarrow> command list \<Rightarrow> 'w client_state \<Rightarrow> 'w client_state \<times> command list result option" where
  "fetch_pages 0 env cli aid offset acc st = (st, None)"
| "fetch_pages (Suc n) env cli aid offset acc st =
     (case GetAPIResource env cli (page_target offset aid) st of
        (st, None, _) \<Rightarrow> (st, Some (Inl nil_dereference))
      | (st, Some r, err) \<Rightarrow>
          if rs_Message r = ''no results found'' then (st, Some (Inr acc))
          else (case and_then err (\<lambda>_. map_res (ValueToCommand env) (named_values ''command'' r)) of
                  Inl e \<Rightarrow> (st, Some (Inl e))
                | Inr [] \<Rightarrow> (st, Some (Inr acc))
                | Inr cs \<Rightarrow> fetch_pages n env cli aid (offset + page_limit) (acc @ cs) st))"

definition FetchActionResults :: "nat \<Rightarrow> 'w client_env \<Rightarrow> client \<Rightarrow> action \<Rightarrow> 'w client_state \<Rightarrow> 'w client_state \<times> command list result option" where
  "FetchActionResults n env cli a st =
     map_prod id (map_option (recovered ''FetchActionResults'')) (fetch_pages n env cli (act_ID a) 0 [] st)"

text \<open>Printing: the lines written, to both streams, and the error if there is one.\<close>

definition print_result :: "'w client_env \<Rightarrow> string \<Rightarrow> bool \<Rightarrow> operation list \<Rightarrow> nat \<times> module_result \<Rightarrow> string list result" where
  "print_result env pre onlyFound os ir =
     (case ir of (i, result) \<Rightarrow>
        if length os \<le> i
        then Inr (if onlyFound then [] else [pre @ ''[error] operation '' @ fmt_nat i @ '' did not return results''])
        else (let m = op_Module (os ! i)
              in case ce_Printer env m of
                   None \<Rightarrow> Inr (if onlyFound then [] else [pre @ ''[error] unknown module '' @ quoted m])
                 | Some None \<Rightarrow> Inr (if onlyFound then [] else [pre @ ''[error] no printer available for module '' @ quoted m])
                 | Some (Some pr) \<Rightarrow> and_then (pr result onlyFound) (\<lambda>ls. Inr (map ((@) pre) ls))))"

definition PrintCommandResults :: "'w client_env \<Rightarrow> command \<Rightarrow> bool \<Rightarrow> bool \<Rightarrow> string list result" where
  "PrintCommandResults env cmd onlyFound showAgent =
     (let pre = (if showAgent then agt_Name (cmd_Agent cmd) @ '' '' else [])
      in recovered ''PrintCommandResults''
           (if cmd_Status cmd \<noteq> StatusSuccess
            then Inr (if onlyFound then [] else [pre @ ''command did not succeed. status='' @ cmd_Status cmd])
            else and_then (map_res (print_result env pre onlyFound (ops (cmd_Action cmd))) (enumerate 0 (cmd_Results cmd))) (\<lambda>lss.
                   Inr (concat lss @ (if onlyFound then [] else [pre @ ''command '' @ cmd_Status cmd])))))"

text \<open>
  The pages of the results that were asked for. An error of the request is looked at only through the message of
  the resource. The lines are those of a run that reaches its end; agents are named by status in the order of the
  statuses, where the code goes through a map.
\<close>

fun print_pages ::
  "nat \<Rightarrow> 'w client_env \<Rightarrow> client \<Rightarrow> (int \<Rightarrow> string) \<Rightarrow> bool \<Rightarrow> int \<Rightarrow> string list \<Rightarrow> nat \<Rightarrow> 'w client_state \<Rightarrow>
     'w client_state \<times> (string list \<times> nat) result option" where
  "print_pages 0 env cli target found offset acc agtCount st = (st, None)"
| "print_pages (Suc n) env cli target found offset acc agtCount st =
     (case GetAPIResource env cli (target offset) st of
        (st, None, _) \<Rightarrow> (st, Some (Inl nil_dereference))
      | (st, Some r, err) \<Rightarrow>
          if rs_Message r \<noteq> [] \<and> rs_Message r \<noteq> ''no results found''
          then (st, Some (Inl (case err of Inl e \<Rightarrow> e | Inr _ \<Rightarrow> nil_panic)))
          else (case map_res (\<lambda>v. and_then (ValueToCommand env v) (\<lambda>c. PrintCommandResults env c found True))
                       (named_values ''command'' r) of
                  Inl e \<Rightarrow> (st, Some (Inl e))
                | Inr [] \<Rightarrow> (st, Some (Inr (acc, agtCount)))
                | Inr ls \<Rightarrow> print_pages n env cli target found (offset + page_limit) (acc @ concat ls) (agtCount + length ls) st))"

text \<open>The names of the agents whose commands have a status; only the answer without results ends the loop.\<close>

fun status_pages ::
  "nat \<Rightarrow> 'w client_env \<Rightarrow> client \<Rightarrow> (int \<Rightarrow> string) \<Rightarrow> int \<Rightarrow> string list \<Rightarrow> 'w client_state \<Rightarrow>
     'w client_state \<times> string list result option" where
  "status_pages 0 env cli target offset acc st = (st, None)"
| "status_pages (Suc n) env cli target offset acc st =
     (case GetAPIResource env cli (target offset) st of
        (st, None, _) \<Rightarrow> (st, Some (Inl nil_dereference))
      | (st, Some r, err) \<Rightarrow>
          if rs_Message r = ''no results found'' then (st, Some (Inr acc))
          else if rs_Message r \<noteq> [] then (st, Some (Inl (case err of Inl e \<Rightarrow> e | Inr _ \<Rightarrow> nil_panic)))
          else (case map_res (ValueToCommand env) (named_values ''command'' r) of
                  Inl e \<Rightarrow> (st, Some (Inl e))
                | Inr cs \<Rightarrow> status_pages n env cli target (offset + page_limit) (acc @ map (\<lambda>c. agt_Name (cmd_Agent c)) cs) st))"

fun statuses_loop ::
  "nat \<Rightarrow> 'w client_env \<Rightarrow> client \<Rightarrow> mig_id \<Rightarrow> string list \<Rightarrow> string list \<Rightarrow> 'w client_state \<Rightarrow> 'w client_state \<times> string list result option" where
  "statuses_loop n env cli aid [] acc st = (st, Some (Inr acc))"
| "statuses_loop n env cli aid (s # ss) acc st =
     (case status_pages n env cli (\<lambda>offset. page_target offset aid @ ''&status='' @ s) 0 [] st of
        (st, None) \<Rightarrow> (st, None)
      | (st, Some (Inl e)) \<Rightarrow> (st, Some (Inl e))
      | (st, Some (Inr agents)) \<Rightarrow>
          statuses_loop n env cli aid ss (acc @ (if agents = [] then [] else [s @ '': '' @ Join agents '', ''])) st)"

definition PrintActionResults ::
  "nat \<Rightarrow> 'w client_env \<Rightarrow> client \<Rightarrow> action \<Rightarrow> string \<Rightarrow> 'w client_state \<Rightarrow> 'w client_state \<times> string list result option" where
  "PrintActionResults n env cli a show st =
     (if \<not> list_ex (\<lambda>s. s = show) [''found'', ''notfound'', ''all'']
      then (st, Some (Inl (Errorf (''invalid parameter '' @ quoted ''%s'') [AStr show])))
      else (let foundQ = (if show = ''found'' then ''&foundanything=true'' else if show = ''notfound'' then ''&foundanything=false'' else [])
            in map_prod id (map_option (\<lambda>r. if r = Inl nil_panic then Inr [] else recovered ''PrintActionResults'' r))
                 (case print_pages n env cli (\<lambda>offset. page_target offset (act_ID a) @ foundQ) (show = ''found'') 0 [] 0 st of
                    (st, None) \<Rightarrow> (st, None)
                  | (st, Some (Inl e)) \<Rightarrow> (st, Some (Inl e))
                  | (st, Some (Inr (ls, agtCount))) \<Rightarrow>
                      (let ls = ls @ [fmt_nat agtCount @ (if 1 < agtCount then '' agents have '' else '' agent has '') @ show @ '' results'']
                       in if show = ''all'' then (st, Some (Inr ls))
                          else statuses_loop n env cli (act_ID a) [StatusCancelled, StatusExpired, StatusFailed, StatusTimeout] ls st))))"

end
