(* ===== verification/ClientProps.thy ===== *)
theory ClientProps
  imports Client
begin

text \<open>
  The client library against the services it talks to: its tokens authenticate at the API, the actions it signs
  are accepted by the agents, a target is evaluated by the API as by the scheduler, and all pages of the results
  of an action are fetched.
\<close>

section \<open>Tokens\<close>

lemma token_parts:
  assumes "CHR '';'' \<notin> set t" and "CHR '';'' \<notin> set sig"
  shows "Split (''1;'' @ t @ '';'' @ fmt_d i @ '';'' @ sig) CHR '';'' = [''1'', t, fmt_d i, sig]"
  using Split_append [of "CHR '';''" "''1''"] Split_append [OF assms(1)] Split_append [OF fmt_d_no_semicolon(1) [of i]]
    Split_no_sep [OF assms(2)]
  by simp

text \<open>What the laws of the signing key and of the printed time give.\<close>

lemma made_token:
  assumes "MakeSignedToken env cli st = (st', Inr token)"
  shows "\<exists>i secring sig. ce_ReadFile env (secring_file cli) = Inr secring \<and>
     pgp_Sign (ce_Manifests env) (''1;'' @ ce_FormatTime env (ce_Now env (cs_World st)) @ '';'' @ fmt_d i @ [newline])
       (cl_KeyID cli) secring = Inr sig \<and>
     token = ''1;'' @ ce_FormatTime env (ce_Now env (cs_World st)) @ '';'' @ fmt_d i @ '';'' @ sig"
  using assms unfolding MakeSignedToken_def Let_def
  by (auto simp: and_then_def split: prod.splits sum.splits)

lemma token_verified:
  assumes token: "MakeSignedToken cenv cli cst = (cst', Inr token)"
    and time: "ce_Now cenv (cs_World cst) = t" "ae_ParseTime aenv (ce_FormatTime cenv t) = Inr ts" "ts \<le> t" "t < ts + second"
      "CHR '';'' \<notin> set (ce_FormatTime cenv t)"
    and recent: "now - ae_Duration aenv + second \<le> t" "t \<le> now + ae_Duration aenv"
    and keyring: "getKeyring aenv now ist = (ist', Inr keyring)"
    and signed: "\<And>data secring sig. ce_ReadFile cenv (secring_file cli) = Inr secring \<Longrightarrow>
        pgp_Sign (ce_Manifests cenv) data (cl_KeyID cli) secring = Inr sig \<Longrightarrow>
        CHR '';'' \<notin> set sig \<and> GetFingerprintFromSignature (ae_PGP aenv) data sig keyring = Inr fp"
    and known: "fp \<noteq> []" "InvestigatorByFingerprint fp (st_DB ist') = Inr iv"
  shows "verifySignedToken aenv now token ist = (ist', Inr iv)"
proof -
  from made_token [OF token] time(1) obtain i secring sig where
    sig: "ce_ReadFile cenv (secring_file cli) = Inr secring"
      "pgp_Sign (ce_Manifests cenv) (''1;'' @ ce_FormatTime cenv t @ '';'' @ fmt_d i @ [newline]) (cl_KeyID cli) secring = Inr sig"
    and token_is: "token = ''1;'' @ ce_FormatTime cenv t @ '';'' @ fmt_d i @ '';'' @ sig" by blast
  note fp = signed [OF sig]
  have parts: "Split token CHR '';'' = [''1'', ce_FormatTime cenv t, fmt_d i, sig]"
    unfolding token_is using token_parts time(5) fp by simp
  have "\<not> (ts < now + - ae_Duration aenv \<or> now + ae_Duration aenv < ts)" using time(3,4) recent by simp
  then show ?thesis
    using fp known keyring time(2) unfolding verifySignedToken_def Let_def parts by simp
qed

text \<open>
  C29. A token that the client makes opens the API.
\<close>

theorem client_token_authenticates:
  assumes "MakeSignedToken cenv cli cst = (cst', Inr token)"
    and "ce_Now cenv (cs_World cst) = t" "ae_ParseTime aenv (ce_FormatTime cenv t) = Inr ts" "ts \<le> t" "t < ts + second"
      "CHR '';'' \<notin> set (ce_FormatTime cenv t)"
    and "now - ae_Duration aenv + second \<le> t" "t \<le> now + ae_Duration aenv"
    and "getKeyring aenv now ist = (ist', Inr keyring)"
    and "\<And>data secring sig. ce_ReadFile cenv (secring_file cli) = Inr secring \<Longrightarrow>
        pgp_Sign (ce_Manifests cenv) data (cl_KeyID cli) secring = Inr sig \<Longrightarrow>
        CHR '';'' \<notin> set sig \<and> GetFingerprintFromSignature (ae_PGP aenv) data sig keyring = Inr fp"
    and "fp \<noteq> []" "InvestigatorByFingerprint fp (st_DB ist') = Inr iv"
    and "ae_Enabled aenv" "CheckPermission (inv_Permissions iv) perm"
  shows "authenticate aenv now perm (token_auth token) ist = (ist', Inr iv)"
proof -
  have "token \<noteq> []" using made_token [OF assms(1)] by auto
  moreover have "verifySignedToken aenv now token ist = (ist', Inr iv)" by (rule token_verified [OF assms(1-12)])
  ultimately show ?thesis using assms(13,14) by (simp add: authenticate_def token_auth_def verification_failed_def)
qed

section \<open>Signed actions\<close>

lemma String_signatures [simp]: "String cd (a\<lparr>act_PGPSignatures := s\<rparr>) = String cd a"
  by (simp add: String_def split: sum.split)

text \<open>
  An action to which the client has added its signature is accepted by \<open>VerifySignatures\<close>, which the agents
  and the API run, if its other signatures are good.
\<close>

theorem signed_action_verifies:
  assumes run: "SignAction env cli a = Inr a'"
    and written: "\<And>data. ce_ActionText env a = Inr data \<Longrightarrow> \<exists>a2. ce_ReadAction env data = Inr a2 \<and> String (ce_Codec env) a2 = String (ce_Codec env) a"
    and sign: "\<And>data secring sig. ce_ReadFile env (secring_file cli) = Inr secring \<Longrightarrow>
        pgp_Sign (ce_Manifests env) data (cl_KeyID cli) secring = Inr sig \<Longrightarrow> is_ok (Verify pg data sig keyring)"
    and others: "\<And>astr sig. String (ce_Codec env) a = Inr astr \<Longrightarrow> sig \<in> set (act_PGPSignatures a) \<Longrightarrow> is_ok (Verify pg astr sig keyring)"
  shows "VerifySignatures (ce_Codec env) pg keyring a' = Inr () \<and>
     (\<exists>sig. a' = a\<lparr>act_PGPSignatures := act_PGPSignatures a @ [sig]\<rparr>)"
proof -
  from run obtain secring sig data a2 astr where s: "ce_ReadFile env (secring_file cli) = Inr secring"
      "ce_ActionText env a = Inr data" "ce_ReadAction env data = Inr a2" "String (ce_Codec env) a2 = Inr astr"
      "pgp_Sign (ce_Manifests env) astr (cl_KeyID cli) secring = Inr sig"
      "a' = a\<lparr>act_PGPSignatures := act_PGPSignatures a @ [sig]\<rparr>"
    by (auto simp: SignAction_def Action_Sign_def and_then_def split: sum.splits)
  have astr: "String (ce_Codec env) a = Inr astr" using written [OF s(2)] s(3,4) by auto
  have "is_ok (Verify pg astr sig keyring)" by (rule sign [OF s(1,5)])
  then show ?thesis using s(6) astr others [OF astr]
    by (auto simp: VerifySignatures_def all_res_eq_Inr is_ok_def split: sum.splits)
qed

section \<open>Queries\<close>

lemma hex_value_upper:
  assumes "d < 16"
  shows "hex_value (hex_upper d) = Some d"
proof -
  have "d \<in> set [0..<16]" using assms by simp
  then show ?thesis by (simp add: upt_rec hex_upper_def is_digit_def) (elim disjE; simp)
qed

text \<open>Neither a reserved byte nor a plus or percent sign needs no escape.\<close>

lemma unreserved_char:
  "unreserved c \<Longrightarrow> c \<notin> {CHR ''%'', CHR ''+'', CHR ''&'', CHR '';'', CHR ''='', CHR '' ''}"
  by (auto simp: unreserved_def is_upper_def is_lower_def is_digit_def)

lemma QueryEscape_simps [simp]:
  "QueryEscape [] = []"
  "QueryEscape (c # s) = (if unreserved c then [c] else if c = CHR '' '' then ''+''
     else [CHR ''%'', hex_upper (byte c div 16), hex_upper (byte c mod 16)]) @ QueryEscape s"
  by (simp_all add: QueryEscape_def)

lemma QueryUnescape_QueryEscape: "QueryUnescape (QueryEscape s) = Some s"
proof (induction s)
  case (Cons c s)
  have "byte c < 256" by simp
  then have "hex_value (hex_upper (byte c div 16)) = Some (byte c div 16)" "hex_value (hex_upper (byte c mod 16)) = Some (byte c mod 16)"
    by (simp_all add: hex_value_upper del: hex_value.simps nat_of_char_less_256)
  with Cons show ?case using unreserved_char [of c] by (simp del: hex_value.simps)
qed simp

lemma QueryEscape_chars:
  "c \<in> set (QueryEscape s) \<Longrightarrow> c \<notin> {CHR ''&'', CHR '';'', CHR ''=''}"
proof (induction s)
  case (Cons x s)
  have "hex_upper d \<notin> {CHR ''&'', CHR '';'', CHR ''=''}" if "d < 16" for d
    using hex_value_upper [OF that] by (auto simp: is_digit_def split: if_splits)
  moreover have "byte x div 16 < 16" "byte x mod 16 < 16"
    using nat_of_char_less_256 [of x] by (auto intro!: div_less_iff_less_mult [THEN iffD2] simp del: nat_of_char_less_256)
  ultimately have hex: "hex_upper (byte x div 16) \<notin> {CHR ''&'', CHR '';'', CHR ''=''}"
      "hex_upper (byte x mod 16) \<notin> {CHR ''&'', CHR '';'', CHR ''=''}" by blast+
  consider "c \<in> set (QueryEscape s)" | "unreserved x" "c = x" | "c \<in> set ''+%''"
    | "c = hex_upper (byte x div 16)" | "c = hex_upper (byte x mod 16)"
    using Cons.prems by (auto split: if_splits)
  then show ?case using Cons.IH unreserved_char [of x] hex by cases auto
qed simp

text \<open>A query string, as pairs of a key and a value that is escaped.\<close>

definition query_word :: "string \<times> string \<times> string \<Rightarrow> bool" where
  "query_word w \<longleftrightarrow> (case w of (k, ev, v) \<Rightarrow>
     k \<noteq> [] \<and> QueryUnescape k = Some k \<and> QueryUnescape ev = Some v \<and>
     set k \<inter> {CHR ''&'', CHR '';'', CHR ''=''} = {} \<and> set ev \<inter> {CHR ''&'', CHR '';''} = {})"

definition words_query :: "(string \<times> string \<times> string) list \<Rightarrow> string" where
  "words_query ws = Join (map (\<lambda>(k, ev, v). k @ ''='' @ ev) ws) ''&''"

lemma query_part_word: "query_word (k, ev, v) \<Longrightarrow> query_part (k @ ''='' @ ev) = [(k, v)]"
proof -
  assume w: "query_word (k, ev, v)"
  then have k: "CHR ''='' \<notin> set k" by (auto simp: query_word_def)
  have "takeWhile (\<lambda>c. c \<noteq> CHR ''='') (k @ CHR ''='' # ev) = k" "dropWhile (\<lambda>c. c \<noteq> CHR ''='') (k @ CHR ''='' # ev) = CHR ''='' # ev"
    using k by (subst takeWhile_append2; auto) (use k in \<open>subst dropWhile_append2; auto\<close>)
  with w show ?thesis by (simp add: query_part_def query_word_def)
qed

lemma Split_Join:
  assumes "ws \<noteq> []" and "\<And>w. w \<in> set ws \<Longrightarrow> d \<notin> set w"
  shows "Split (Join ws [d]) d = ws"
  using assms
proof (induction ws "[d]" rule: Join.induct)
  case (3 w v ws)
  then show ?case using Split_append [of d w] by simp
qed (simp_all add: Split_no_sep)

lemma set_Join: "set (Join ws sep) \<subseteq> \<Union> (set ` set ws) \<union> set sep"
  by (induction ws sep rule: Join.induct) auto

lemma ParseQuery_words:
  assumes "ws \<noteq> []" and "list_all query_word ws" and "distinct (map fst ws)"
  shows "ParseQuery (words_query ws) = map (\<lambda>(k, ev, v). (k, [v])) ws"
proof -
  let ?strs = "map (\<lambda>(k, ev, v). k @ ''='' @ ev) ws"
  have free: "CHR ''&'' \<notin> set w \<and> CHR '';'' \<notin> set w" if "w \<in> set ?strs" for w
  proof -
    from that obtain k ev v where "(k, ev, v) \<in> set ws" and w: "w = k @ ''='' @ ev" by auto
    with assms(2) have "query_word (k, ev, v)" by (auto simp: list_all_iff)
    then show ?thesis by (auto simp: w query_word_def)
  qed
  have "CHR '';'' \<notin> set (words_query ws)"
  proof
    assume "CHR '';'' \<in> set (words_query ws)"
    then have "CHR '';'' \<in> \<Union> (set ` set ?strs) \<union> set ''&''" using set_Join [of ?strs "''&''"] unfolding words_query_def by blast
    then have "\<exists>w\<in>set ?strs. CHR '';'' \<in> set w" by (simp only: Un_iff Union_iff image_iff) auto
    with free show False by blast
  qed
  then have "map (\<lambda>c. if c = CHR '';'' then CHR ''&'' else c) (words_query ws) = words_query ws" by (rule map_none)
  moreover have "Split (words_query ws) CHR ''&'' = ?strs"
    unfolding words_query_def by (rule Split_Join) (use assms(1) free in auto)
  moreover have "concat (map query_part ?strs) = map (\<lambda>(k, ev, v). (k, v)) ws"
    using assms(2) by (induction ws) (auto simp: query_part_word [simplified])
  moreover have "map fst (map (\<lambda>(k, ev, v). (k, v)) ws) = map fst ws" by (simp add: case_prod_beta comp_def)
  moreover have "distinct (map fst (map (\<lambda>(k, ev, v). (k, v)) ws))" unfolding calculation(4) by (rule assms(3))
  ultimately show ?thesis
    unfolding ParseQuery_def Let_def using values_distinct [of "map (\<lambda>(k, ev, v). (k, v)) ws"] assms(3)
    by (simp add: distinct_remdups_id case_prod_beta comp_def)
qed

section \<open>The API as the client sees it\<close>

text \<open>
  The network and the encoding of resources: a reply brings the status of a response, and below 500 a resource
  whose values of the given name decode to the response's results. It is asked of the queries \<open>qs\<close> only.
\<close>

definition response_results :: "(found_item \<Rightarrow> 'a option) \<Rightarrow> search_response \<Rightarrow> 'a list" where
  "response_results pick resp =
     List.map_filter (\<lambda>i. case i of Result h x \<Rightarrow> pick x | _ \<Rightarrow> None) (sr_Items resp)"

definition delivers ::
  "'w client_env \<Rightarrow> string \<Rightarrow> (json \<Rightarrow> 'a result) \<Rightarrow> (found_item \<Rightarrow> 'a option) \<Rightarrow> search_response \<Rightarrow> http_reply \<Rightarrow> bool" where
  "delivers env nm decode pick resp rp \<longleftrightarrow>
     rp_Code rp = sr_Code resp \<and>
     (sr_Code resp < 500 \<longrightarrow>
       (\<exists>body res. rp_Body rp = Inr body \<and> 1 < length body \<and> ce_Resource env body = Inr res \<and>
          (sr_Error resp = None \<longrightarrow> rs_Message res = []) \<and>
          (sr_Error resp = Some no_results \<longrightarrow> rs_Message res = ''no results found'') \<and>
          map_res decode (named_values nm res) = Inr (response_results pick resp)))"

definition search_service ::
  "'w client_env \<Rightarrow> client \<Rightarrow> string \<Rightarrow> (json \<Rightarrow> 'a result) \<Rightarrow> (found_item \<Rightarrow> 'a option) \<Rightarrow>
     string set \<Rightarrow> ('w \<Rightarrow> string \<Rightarrow> search_response) \<Rightarrow> bool" where
  "search_service env cli nm decode pick qs answer \<longleftrightarrow>
     (\<forall>w auth. \<forall>q\<in>qs. \<exists>w' rp.
        ce_Send env w ((http_get cli (''search?'' @ q))\<lparr>hr_Auth := auth\<rparr>) = (w', Inr rp) \<and>
        delivers env nm decode pick (answer w q) rp)"

text \<open>The client has an API key or can sign.\<close>

definition can_authenticate :: "'w client_env \<Rightarrow> client \<Rightarrow> bool" where
  "can_authenticate env cli \<longleftrightarrow> cl_APIKey cli \<noteq> [] \<or> (\<forall>st. is_ok (snd (MakeSignedToken env cli st)))"

lemma MakeSignedToken_world: "cs_World (fst (MakeSignedToken env cli st)) = cs_World st"
  by (simp add: MakeSignedToken_def Let_def split: prod.split)

lemma Do_delivers:
  assumes "can_authenticate env cli" and "search_service env cli nm decode pick qs answer" and "q \<in> qs"
    and "sr_Code (answer (cs_World st) q) \<noteq> 401"
  shows "\<exists>st' rp. client_Do env cli (http_get cli (''search?'' @ q)) st = (st', Inr rp) \<and>
     delivers env nm decode pick (answer (cs_World st) q) rp"
proof -
  have send: "\<exists>st' rp. first_reply env auth (http_get cli (''search?'' @ q)) s = (st', Inr rp) \<and>
      delivers env nm decode pick (answer (cs_World s) q) rp" for s auth
  proof -
    obtain w' rp where "ce_Send env (cs_World s) ((http_get cli (''search?'' @ q))\<lparr>hr_Auth := auth\<rparr>) = (w', Inr rp)"
        "delivers env nm decode pick (answer (cs_World s) q) rp"
      using assms(2,3) unfolding search_service_def by blast
    then show ?thesis by (simp add: first_reply_def send_request_def)
  qed
  show ?thesis
  proof (cases "cl_APIKey cli = []")
    case False
    then show ?thesis using send [of "\<lparr>aq_PGPAuthorization = [], aq_APIKey = cl_APIKey cli\<rparr>" st]
      by (auto simp: client_Do_def run_recovered_def)
  next
    case True
    obtain s token where token: "(if cl_Token cli = [] then MakeSignedToken env cli st else (st, Inr (cl_Token cli))) = (s, Inr token)"
        "cs_World s = cs_World st"
    proof (cases "cl_Token cli = []")
      case True
      then obtain token where "snd (MakeSignedToken env cli st) = Inr token"
        using assms(1) \<open>cl_APIKey cli = []\<close> unfolding can_authenticate_def is_ok_iff by blast
      then have "MakeSignedToken env cli st = (fst (MakeSignedToken env cli st), Inr token)" by (metis prod.collapse)
      with that True show thesis by (simp add: MakeSignedToken_world)
    qed (use that in simp)
    obtain s' rp where "first_reply env (token_auth token) (http_get cli (''search?'' @ q)) s = (s', Inr rp)"
        "delivers env nm decode pick (answer (cs_World st) q) rp"
      using send [of "token_auth token" s] token(2) by auto
    moreover from this(2) assms(4) have "rp_Code rp \<noteq> 401" by (simp add: delivers_def)
    ultimately show ?thesis using True token(1) by (simp add: client_Do_def run_recovered_def bind_db_def)
  qed
qed

text \<open>A search that finds something, and one that finds nothing.\<close>

lemma search_found:
  assumes "can_authenticate env cli" and "search_service env cli nm decode pick qs answer" and "q \<in> qs"
    and "sr_Code (answer (cs_World st) q) = 200" and "sr_Error (answer (cs_World st) q) = None"
  shows "\<exists>st' res. GetAPIResource env cli (''search?'' @ q) st = (st', Some res, Inr ()) \<and> rs_Message res = [] \<and>
     map_res decode (named_values nm res) = Inr (response_results pick (answer (cs_World st) q))"
proof -
  obtain st' rp where "client_Do env cli (http_get cli (''search?'' @ q)) st = (st', Inr rp)"
      "delivers env nm decode pick (answer (cs_World st) q) rp"
    using Do_delivers [OF assms(1-3), of st] assms(4) by auto
  with assms(4,5) show ?thesis
    by (auto simp: GetAPIResource_def delivers_def resource_of_reply_def read_resource_def)
qed

lemma search_nothing:
  assumes "can_authenticate env cli" and "search_service env cli nm decode pick qs answer" and "q \<in> qs"
    and "sr_Code (answer (cs_World st) q) = 404" and "sr_Error (answer (cs_World st) q) = Some no_results"
  shows "\<exists>st' res e. GetAPIResource env cli (''search?'' @ q) st = (st', Some res, Inl e) \<and> rs_Message res = ''no results found''"
proof -
  obtain st' rp where "client_Do env cli (http_get cli (''search?'' @ q)) st = (st', Inr rp)"
      "delivers env nm decode pick (answer (cs_World st) q) rp"
    using Do_delivers [OF assms(1-3), of st] assms(4) by auto
  with assms(4,5) show ?thesis
    by (auto simp: GetAPIResource_def delivers_def resource_of_reply_def read_resource_def)
qed

lemma search_failure:
  assumes "can_authenticate env cli" and "search_service env cli nm decode pick qs answer" and "q \<in> qs"
    and "sr_Code (answer (cs_World st) q) = 500"
  shows "\<exists>st' e. GetAPIResource env cli (''search?'' @ q) st = (st', None, Inl e)"
proof -
  obtain st' rp where "client_Do env cli (http_get cli (''search?'' @ q)) st = (st', Inr rp)"
      "delivers env nm decode pick (answer (cs_World st) q) rp"
    using Do_delivers [OF assms(1-3), of st] assms(4) by auto
  with assms(4) show ?thesis by (auto simp: GetAPIResource_def delivers_def resource_of_reply_def)
qed

section \<open>The searches of the client\<close>

lemma plain_word:
  assumes "k \<noteq> []" and "list_all unreserved k" and "list_all (\<lambda>c. unreserved c) v"
  shows "query_word (k, v, v)"
proof -
  have esc: "QueryEscape s = s" if "list_all unreserved s" for s using that by (induction s) simp_all
  have "QueryUnescape s = Some s" if "list_all unreserved s" for s using QueryUnescape_QueryEscape [of s] esc [OF that] by simp
  moreover have "set s \<inter> {CHR ''&'', CHR '';'', CHR ''=''} = {}" if "list_all unreserved s" for s
    using QueryEscape_chars [of _ s] esc [OF that] by auto
  ultimately show ?thesis using assms by (auto simp: query_word_def)
qed

lemma fmt_d_unreserved: "list_all unreserved (fmt_d n)"
  using fmt_nat_digits [of "nat n"] fmt_nat_digits [of "nat (- n)"]
  by (auto simp: fmt_d_def unreserved_def list_all_iff)

lemma unreserved_keys:
  "list_all unreserved ''type''" "list_all unreserved ''command''" "list_all unreserved ''agent''" "list_all unreserved ''limit''"
  "list_all unreserved ''offset''" "list_all unreserved ''actionid''" "list_all unreserved ''target''"
  by (simp_all add: unreserved_def is_lower_def)

text \<open>What \<open>ParseFloat\<close> does with a decimal integer.\<close>

definition reads_decimals :: "search_env \<Rightarrow> bool" where
  "reads_decimals senv \<longleftrightarrow> (\<forall>n. sn_ParseFloat senv (fmt_d n) = (n, None))"

definition page_params :: "time \<Rightarrow> int \<Rightarrow> mig_id \<Rightarrow> search_params" where
  "page_params now offset aid =
     (NewParameters now)\<lparr>sp_Type := ''command'', sp_Limit := page_limit, sp_Offset := offset, sp_ActionID := fmt_d aid\<rparr>"

definition page_query :: "int \<Rightarrow> mig_id \<Rightarrow> string" where
  "page_query offset aid = drop 7 (page_target offset aid)"

lemma page_target_query: "page_target offset aid = ''search?'' @ page_query offset aid"
  by (simp add: page_query_def page_target_def)

lemma page_parsed:
  assumes "reads_decimals senv"
  shows "parseSearchParameters senv now (ParseQuery (page_query offset aid)) = Inr (page_params now offset aid, False)"
proof -
  let ?ws = "[(''type'', ''command'', ''command''), (''limit'', fmt_d page_limit, fmt_d page_limit),
     (''offset'', fmt_d offset, fmt_d offset), (''actionid'', fmt_d aid, fmt_d aid)]"
  have "page_query offset aid = words_query ?ws"
    by (simp add: page_query_def page_target_def words_query_def)
  moreover have "list_all query_word ?ws"
    using plain_word fmt_d_unreserved unreserved_keys by simp
  ultimately have "ParseQuery (page_query offset aid) = map (\<lambda>(k, ev, v). (k, [v])) ?ws"
    by (simp only:) (rule ParseQuery_words; simp)
  then show ?thesis
    using assms by (simp add: parseSearchParameters_def search_param_def parsed_number_def string_params_def
        reads_decimals_def page_params_def)
qed

text \<open>
  The commands of an action, with their agents, that a search finds, the latest first: the agent of the command must be in
  the database, and the action must have a signature of a known investigator. Commands that started at the same time have
  no order of their own.
\<close>

definition action_triples :: "mig_db \<Rightarrow> mig_id \<Rightarrow> (command_row \<times> action_row \<times> agent_row) list" where
  "action_triples db aid =
     sort_key (\<lambda>(c, a, g). - cr_StartTime c)
       (filter (\<lambda>(c, a, g). ar_ID a = aid \<and> (\<exists>i. signed_action db a i)) (command_triples db))"

definition distinct_starts :: "mig_db \<Rightarrow> mig_id \<Rightarrow> bool" where
  "distinct_starts db aid \<longleftrightarrow> inj_on (\<lambda>(c, a, g). cr_StartTime c) (set (action_triples db aid))"

lemma fmt_d_not_any: "fmt_d n \<noteq> any_id"
proof
  assume "fmt_d n = any_id"
  with fmt_d_unreserved [of n] show False
    by (simp add: any_id_def unreserved_def is_upper_def is_lower_def is_digit_def)
qed

lemma inj_on_uminus: "inj_on f S \<Longrightarrow> inj_on (\<lambda>x. - f x :: int) S"
  by (simp add: inj_on_def)

lemma page_rows:
  assumes "reads_decimals senv" and "0 \<le> offset" and "distinct_starts db aid"
  shows "SearchCommands eng js senv now (page_params now offset aid) False db =
    map_res (found_command js db) (take 37 (drop (nat offset) (action_triples db aid)))"
proof -
  let ?p = "page_params now offset aid"
  let ?ids = "zero_ids\<lparr>minActionID := aid, maxActionID := aid, maxCommandID := MAXFLOAT64, maxAgentID := MAXFLOAT64,
     maxInvID := MAXFLOAT64, maxManID := MAXFLOAT64, maxLdrID := MAXFLOAT64\<rparr>"
  have ids: "makeIDsFromParams (sn_ParseFloat senv) ?p = (?ids, None)"
    using assms(1) fmt_d_not_any [of aid]
    by (simp add: makeIDsFromParams_def id_range_def page_params_def NewParameters_def reads_decimals_def zero_ids_def)
  have on: "list_ex fst (command_groups now ?ids ?p False)"
    using fmt_d_not_any [of aid] by (simp add: command_groups_def cond_defs page_params_def)
  have "command_matches eng now ?ids ?p False db = (\<lambda>(c, a, g). ar_ID a = aid \<and> (\<exists>i. signed_action db a i))"
    using fmt_d_not_any [of aid]
    by (auto simp: fun_eq_iff command_matches_def time_ok_def before_ok_def after_ok_def page_params_def NewParameters_def
        hour_ns_def id_ok_def text_ok_def action_ok_def family_ok_def agent_ok_def investigator_ok_def zero_ids_def)
  moreover have "limit_rows eng ?p rs = take 37 (drop (nat offset) rs)" for rs :: "(command_row \<times> action_row \<times> agent_row) list"
    using assms(2) by (simp add: limit_rows_def uint64_of_def page_params_def page_limit_def)
  moreover have "inj_on (\<lambda>(c, a, g). - cr_StartTime c)
      (set (filter (\<lambda>(c, a, g). ar_ID a = aid \<and> (\<exists>i. signed_action db a i)) (command_triples db)))"
    using assms(3) unfolding distinct_starts_def action_triples_def set_sort case_prod_unfold by (rule inj_on_uminus)
  ultimately show ?thesis unfolding search_commands_exact [OF ids on] action_triples_def by (simp add: order_by_no_ties)
qed

lemma add_items_short: "int (length xs) \<le> limit + 2 - i \<Longrightarrow> add_items limit i xs = xs"
proof (induction limit i xs rule: add_items.induct)
  case (2 limit i x xs)
  then have "xs = []" if "limit < i" using that by (cases xs) auto
  with 2 show ?case by auto
qed simp

definition pick_command :: "found_item \<Rightarrow> command option" where
  "pick_command x = (case x of FoundCommand c \<Rightarrow> Some c | _ \<Rightarrow> None)"

definition pick_agent :: "found_item \<Rightarrow> agent option" where
  "pick_agent x = (case x of FoundAgent g \<Rightarrow> Some g | _ \<Rightarrow> None)"

lemma map_filter_map_Some: "(\<And>x. f (g x) = Some x) \<Longrightarrow> List.map_filter f (map g xs) = xs"
  by (induction xs) (simp_all add: map_filter_simps)

lemma response_items:
  assumes "int (length xs) \<le> sp_Limit p + 2" and "\<And>x. pick (con x) = Some x"
  shows "response_results pick \<lparr>sr_Code = c, sr_Error = e, sr_Items = search_items sv p (map con xs)\<rparr> = xs"
proof -
  have "add_items (sp_Limit p) 0 (map con xs) = map con xs" by (rule add_items_short) (use assms(1) in simp)
  then have "response_results pick \<lparr>sr_Code = c, sr_Error = e, sr_Items = search_items sv p (map con xs)\<rparr> =
      List.map_filter (\<lambda>i. case i of Result h x \<Rightarrow> pick x | _ \<Rightarrow> None) (map (\<lambda>x. Result (item_href sv (con x)) (con x)) xs)"
    by (simp add: response_results_def search_items_def map_filter_def comp_def)
  also have "\<dots> = xs" by (rule map_filter_map_Some) (simp add: assms(2))
  finally show ?thesis .
qed

lemma page_answer:
  assumes "reads_decimals senv" and "0 \<le> offset" and "distinct_starts db aid"
    and "map_res (found_command js db) (take 37 (drop (nat offset) (action_triples db aid))) = Inr cs"
  shows "search_handler eng js senv sv now (page_query offset aid) db mdb =
    (if cs = [] then \<lparr>sr_Code = 404, sr_Error = Some no_results, sr_Items = []\<rparr>
     else \<lparr>sr_Code = 200, sr_Error = None, sr_Items = search_items sv (page_params now offset aid) (map FoundCommand cs)\<rparr>)"
proof -
  have t: "sp_Type (page_params now offset aid) = ''command''" by (simp add: page_params_def)
  have "search_results_of eng js senv sv now (page_params now offset aid) False db mdb = Inr (map FoundCommand cs)"
    unfolding search_results_of_def t page_rows [OF assms(1-3)] assms(4) by simp
  then show ?thesis by (simp add: search_handler_def page_parsed [OF assms(1)])
qed

section \<open>Fetching results\<close>

lemma map_res_take_drop: "map_res f xs = Inr ys \<Longrightarrow> map_res f (take m (drop n xs)) = Inr (take m (drop n ys))"
  by (simp add: map_res_eq_Inr)

text \<open>Every request is a query of its own: \<open>eng\<close> gives the order of equal rows for each state of the world.\<close>

definition command_service ::
  "'w client_env \<Rightarrow> client \<Rightarrow> mig_id \<Rightarrow> ('w \<Rightarrow> sql_ops) \<Rightarrow> db_json \<Rightarrow> search_env \<Rightarrow> server_env \<Rightarrow> ('w \<Rightarrow> time) \<Rightarrow> mig_db \<Rightarrow> manifest_db \<Rightarrow> bool" where
  "command_service env cli aid eng js senv sv clock db mdb \<longleftrightarrow>
     search_service env cli ''command'' (ValueToCommand env) pick_command
       {page_query (int offset) aid | offset. 37 dvd offset} (\<lambda>w q. search_handler (eng w) js senv sv (clock w) q db mdb)"

lemma fetch_page:
  assumes "can_authenticate env cli" and "command_service env cli aid eng js senv sv clock db mdb" and "reads_decimals senv"
    and "distinct_starts db aid"
    and "map_res (found_command js db) (action_triples db aid) = Inr cmds" and "page = take 37 (drop offset cmds)" and "37 dvd offset"
  shows "\<exists>st'. fetch_pages (Suc n) env cli aid (int offset) acc st =
    (if page = [] then (st', Some (Inr acc)) else fetch_pages n env cli aid (int (offset + 37)) (acc @ page) st')"
proof -
  let ?answer = "\<lambda>w q. search_handler (eng w) js senv sv (clock w) q db mdb"
  let ?q = "page_query (int offset) aid" and ?w = "cs_World st"
  note service = assms(2) [unfolded command_service_def]
  have asked: "?q \<in> {page_query (int offset) aid | offset. 37 dvd offset}" using assms(7) by blast
  have answer: "?answer ?w ?q = (if page = [] then \<lparr>sr_Code = 404, sr_Error = Some no_results, sr_Items = []\<rparr>
      else \<lparr>sr_Code = 200, sr_Error = None, sr_Items = search_items sv (page_params (clock ?w) (int offset) aid) (map FoundCommand page)\<rparr>)"
    using map_res_take_drop [OF assms(5)] assms(4,6) by (intro page_answer [OF assms(3)]) simp_all
  show ?thesis
  proof (cases "page = []")
    case True
    then obtain st' res e where "GetAPIResource env cli (page_target (int offset) aid) st = (st', Some res, Inl e)"
        "rs_Message res = ''no results found''"
      using search_nothing [OF assms(1) service asked, of st] answer unfolding page_target_query by auto
    with True show ?thesis by auto
  next
    case False
    have results: "response_results pick_command (?answer ?w ?q) = page"
      unfolding answer if_not_P [OF False] using assms(6)
      by (intro response_items) (simp_all add: page_params_def page_limit_def pick_command_def)
    obtain st' res where "GetAPIResource env cli (page_target (int offset) aid) st = (st', Some res, Inr ())"
        "rs_Message res = []" "map_res (ValueToCommand env) (named_values ''command'' res) = Inr page"
      using search_found [OF assms(1) service asked, of st] results answer False unfolding page_target_query by auto
    with False show ?thesis by (auto simp: page_limit_def neq_Nil_conv add.commute)
  qed
qed

lemma fetch_pages_complete:
  assumes "can_authenticate env cli" and "command_service env cli aid eng js senv sv clock db mdb" and "reads_decimals senv"
    and "distinct_starts db aid"
    and "map_res (found_command js db) (action_triples db aid) = Inr cmds"
    and "length cmds \<le> offset + 37 * m" and "m < n" and "37 dvd offset"
  shows "\<exists>st'. fetch_pages n env cli aid (int offset) acc st = (st', Some (Inr (acc @ drop offset cmds)))"
  using assms(6-8)
proof (induction m arbitrary: n offset acc st)
  case 0
  then obtain k where "n = Suc k" by (cases n) auto
  with 0 show ?case using fetch_page [OF assms(1-5) refl, of offset k acc st] by auto
next
  case (Suc m)
  then obtain k where n: "n = Suc k" "m < k" by (cases n) auto
  obtain st' where st': "fetch_pages n env cli aid (int offset) acc st =
      (if take 37 (drop offset cmds) = [] then (st', Some (Inr acc))
       else fetch_pages k env cli aid (int (offset + 37)) (acc @ take 37 (drop offset cmds)) st')"
    using fetch_page [OF assms(1-5) refl Suc.prems(3), of k acc st] n(1) by blast
  show ?case
  proof (cases "drop offset cmds = []")
    case True
    with st' show ?thesis by auto
  next
    case False
    have "take 37 (drop offset cmds) @ drop (offset + 37) cmds = drop offset cmds"
      by (metis append_take_drop_id drop_drop add.commute)
    with Suc.IH [of "offset + 37" k "acc @ take 37 (drop offset cmds)" st'] Suc.prems n(2) False st' show ?thesis by auto
  qed
qed

text \<open>
  C30. The client gets the commands of an action that the search selects - the agent is in the database, the action
  signed by a known investigator - all, each once, the latest first, whatever the number of pages and whatever order the
  database gives to equal rows, when no two of them started at the same time and the database does not change meanwhile.
\<close>

theorem fetch_results_complete:
  assumes "can_authenticate env cli" and "command_service env cli (act_ID a) eng js senv sv clock db mdb" and "reads_decimals senv"
    and "distinct_starts db (act_ID a)"
    and "map_res (found_command js db) (action_triples db (act_ID a)) = Inr cmds" and "length cmds div 37 + 1 < n"
  shows "\<exists>st'. FetchActionResults n env cli a st = (st', Some (Inr cmds))"
proof -
  have "length cmds \<le> 0 + 37 * (length cmds div 37 + 1)" by simp
  from fetch_pages_complete [OF assms(1-5) this assms(6) dvd_0_right, of "[]" st] show ?thesis
    by (auto simp: FetchActionResults_def)
qed

section \<open>Targets\<close>

definition target_query :: "string \<Rightarrow> string" where
  "target_query target = ''type=agent&limit=1000000&target='' @ QueryEscape target"

definition agent_service ::
  "'w client_env \<Rightarrow> client \<Rightarrow> string \<Rightarrow> sql_ops \<Rightarrow> db_json \<Rightarrow> search_env \<Rightarrow> server_env \<Rightarrow> ('w \<Rightarrow> time) \<Rightarrow> mig_db \<Rightarrow> manifest_db \<Rightarrow> bool" where
  "agent_service env cli target eng js senv sv clock db mdb \<longleftrightarrow>
     search_service env cli ''agent'' (ValueToAgent env) pick_agent {target_query target} (\<lambda>w q. search_handler eng js senv sv (clock w) q db mdb)"

definition target_params :: "time \<Rightarrow> string \<Rightarrow> search_params" where
  "target_params now target = (NewParameters now)\<lparr>sp_Type := ''agent'', sp_Limit := 1000000, sp_Target := target\<rparr>"

lemma target_parsed:
  assumes "reads_decimals senv"
  shows "parseSearchParameters senv now (ParseQuery (target_query target)) = Inr (target_params now target, False)"
proof -
  have digits: "fmt_d 1000000 = ''1000000''" by (simp add: fmt_d_def fmt_nat.simps char_of_def bit_Suc_0_iff)
  let ?ws = "[(''type'', ''agent'', ''agent''), (''limit'', fmt_d 1000000, fmt_d 1000000), (''target'', QueryEscape target, target)]"
  have "target_query target = words_query ?ws" by (simp add: target_query_def words_query_def digits)
  moreover have "query_word (''target'', QueryEscape target, target)"
    using QueryUnescape_QueryEscape [of target] QueryEscape_chars [of _ target] by (auto simp: query_word_def)
  then have "list_all query_word ?ws" using plain_word fmt_d_unreserved unreserved_keys by simp
  ultimately have "ParseQuery (target_query target) = map (\<lambda>(k, ev, v). (k, [v])) ?ws"
    by (simp only:) (rule ParseQuery_words; simp)
  then show ?thesis
    using assms by (simp add: parseSearchParameters_def search_param_def parsed_number_def string_params_def
        reads_decimals_def target_params_def)
qed

lemma target_answer:
  assumes "reads_decimals senv" and "target \<noteq> []"
  shows "search_handler eng js senv sv now (target_query target) db mdb =
    (case ActiveAgentsByTarget js (sv_Holds sv) target db of
       Inl e \<Rightarrow> \<lparr>sr_Code = (if e = no_results then 404 else 500), sr_Error = Some e, sr_Items = []\<rparr>
     | Inr gs \<Rightarrow> if gs = [] then \<lparr>sr_Code = 404, sr_Error = Some no_results, sr_Items = []\<rparr>
         else \<lparr>sr_Code = 200, sr_Error = None, sr_Items = search_items sv (target_params now target) (map FoundAgent gs)\<rparr>)"
  using assms(2)
  by (simp add: search_handler_def target_parsed [OF assms(1)] search_results_of_def target_params_def and_then_def split: sum.split)

text \<open>
  C31. The agents that the client shows for a target are those to which the scheduler would send the action.
\<close>

theorem evaluate_target_exact:
  assumes "can_authenticate env cli" and "agent_service env cli target eng js senv sv clock db mdb" and "reads_decimals senv"
    and "ActiveAgentsByTarget js (sv_Holds sv) target db = Inr gs" and "target \<noteq> []" and "length gs \<le> 1000000"
  shows "\<exists>st' e. EvaluateAgentTarget env cli target st = (st', if gs = [] then Inl e else Inr gs)"
proof -
  let ?answer = "\<lambda>w q. search_handler eng js senv sv (clock w) q db mdb"
  let ?q = "target_query target"
  note service = assms(2) [unfolded agent_service_def]
  have url: "''search?type=agent&limit=1000000&target='' @ QueryEscape target = ''search?'' @ ?q" by (simp add: target_query_def)
  note answer = target_answer [OF assms(3,5), where eng = eng and js = js and sv = sv and db = db and mdb = mdb, unfolded assms(4), simplified]
  show ?thesis
  proof (cases "gs = []")
    case True
    then obtain st' res e where "GetAPIResource env cli (''search?'' @ ?q) st = (st', Some res, Inl e)"
      using search_nothing [OF assms(1) service, of ?q st] answer by auto
    with True show ?thesis unfolding EvaluateAgentTarget_def url by (auto simp: run_recovered_def get_resource_def bind_db_def)
  next
    case False
    have results: "response_results pick_agent (?answer (cs_World st) ?q) = gs"
      unfolding answer if_not_P [OF False] using assms(6)
      by (intro response_items) (simp_all add: target_params_def pick_agent_def)
    obtain st' res where "GetAPIResource env cli (''search?'' @ ?q) st = (st', Some res, Inr ())"
        "map_res (ValueToAgent env) (named_values ''agent'' res) = Inr gs"
      using search_found [OF assms(1) service, of ?q st] results answer False by auto
    with False show ?thesis unfolding EvaluateAgentTarget_def url
      by (auto simp: run_recovered_def get_resource_def bind_db_def present_def)
  qed
qed

section \<open>Following an action\<close>

abbreviation cli_now :: "'w client_env \<Rightarrow> 'w client_state \<Rightarrow> time" where
  "cli_now env st \<equiv> ce_Now env (cs_World st)"

lemma follow_loop_ends:
  assumes got: "\<And>s. \<exists>s' b links. client_GetAction env cli i s = (s', Inr (b, links)) \<and> act_ID b = i \<and>
      act_ExpireAfter b \<le> expiry \<and> cli_now env s \<le> cli_now env s'"
    and sleeps: "\<And>d w. ce_Now env w + d \<le> ce_Now env (ce_Sleep env d w)"
    and "act_ID a = i" and "expiry + 10 * second < cli_now env st + 2 * second * int (length stops - 1)" and "stops \<noteq> []"
  shows "\<exists>st' r. follow_loop env cli stops attempts status a st = (st', Some r)"
  using assms(3-)
proof (induction stops arbitrary: status a st)
  case (Cons stop stops)
  obtain s b links where s: "client_GetAction env cli (act_ID a) st = (s, Inr (b, links))" "act_ID b = i"
      "act_ExpireAfter b \<le> expiry" "cli_now env st \<le> cli_now env s"
    using got [of st] unfolding Cons.prems(1) by blast
  let ?status = "if status = [] then act_Status b else status"
  show ?case
  proof (cases "follow_over ?status b (cli_now env s) \<or> stop")
    case True
    with s(1) show ?thesis by (cases "client_GetAction env cli (act_ID b) s") (auto simp: Let_def)
  next
    case False
    have more: "stops \<noteq> []"
    proof
      assume "stops = []"
      with Cons.prems(2) s(3,4) have "act_ExpireAfter b + 10 * second < cli_now env s" by simp
      with False show False by (simp add: follow_over_def)
    qed
    then have "int (length (stop # stops) - 1) = int (length stops - 1) + 1" by (cases stops) simp_all
    moreover have "cli_now env s + 2 * second \<le> cli_now env (cli_sleep env (2 * second) s)"
      using sleeps [of "cs_World s" "2 * second"] by (simp add: cli_sleep_def)
    ultimately have late: "expiry + 10 * second < cli_now env (cli_sleep env (2 * second) s) + 2 * second * int (length stops - 1)"
      using Cons.prems(2) s(4) by (simp only: distrib_left mult_1_right)
    from Cons.IH [OF s(2) late more]
    have "\<exists>st' r. follow_loop env cli stops attempts ?status b (cli_sleep env (2 * second) s) = (st', Some r)" .
    then show ?thesis using s(1) False by (simp add: Let_def)
  qed
qed simp

text \<open>
  As long as the action can be retrieved, following it ends: at the latest ten seconds after it expires, and one turn.
\<close>

theorem follow_ends:
  assumes "\<And>s. \<exists>s' b links. client_GetAction env cli (act_ID a) s = (s', Inr (b, links)) \<and> act_ID b = act_ID a \<and>
      act_ExpireAfter b \<le> expiry \<and> cli_now env s \<le> cli_now env s'"
    and "\<And>d w. ce_Now env w + d \<le> ce_Now env (ce_Sleep env d w)"
    and "expiry + 10 * second < cli_now env st + 2 * second * int (length stops - 1)" and "stops \<noteq> []"
  shows "\<exists>st' r. FollowAction env cli stops a st = (st', Some r)"
  unfolding FollowAction_def by (rule follow_loop_ends [OF assms(1,2) refl assms(3,4)])

definition follow_failed :: go_error where
  "follow_failed = errors_New ''failed to retrieve action after 30 seconds. launch may have failed''"

lemma follow_loop_zero:
  assumes none: "\<And>s. \<exists>s' e. client_GetAction env cli 0 s = (s', Inl e)"
    and "30 \<le> attempts + length stops" and "attempts < 30"
  shows "\<exists>st'. follow_loop env cli stops attempts status zero_action st = (st', Some (recovered ''followAction'' (Inl follow_failed)))"
  using assms(2,3)
proof (induction stops arbitrary: attempts st)
  case (Cons stop stops)
  obtain s e where "client_GetAction env cli (act_ID zero_action) st = (s, Inl e)"
    using none [of st] by (auto simp: zero_action_def)
  then show ?case using Cons by (auto simp: Let_def follow_failed_def)
qed simp

text \<open>
  C32. A single failure to retrieve the action makes the client give up: from then on it asks for action zero, and fails when
  there is none.
\<close>

theorem one_failure_ends_follow:
  assumes "client_GetAction env cli (act_ID a) st = (s, Inl e)"
    and "\<And>s. \<exists>s' e. client_GetAction env cli 0 s = (s', Inl e)" and "30 \<le> length stops"
  shows "\<exists>st'. FollowAction env cli stops a st = (st', Some (recovered ''followAction'' (Inl follow_failed)))"
proof -
  obtain stop rest where stops: "stops = stop # rest" using assms(3) by (cases stops) auto
  obtain st' where "follow_loop env cli rest 1 [] zero_action (cli_sleep env second s) =
      (st', Some (recovered ''followAction'' (Inl follow_failed)))"
    using follow_loop_zero [OF assms(2), of 1 rest "[]" "cli_sleep env second s"] assms(3) stops by auto
  with assms(1) show ?thesis by (simp add: FollowAction_def stops Let_def)
qed

section \<open>Posting\<close>

text \<open>Without a body, a refusal by the API is reported as the nil pointer that the code dereferences.\<close>

lemma refusal_without_body:
  assumes "client_Do env cli (http_post cli target form) st = (st', Inr rp)" and "rp_Code rp \<noteq> expected" and "rp_Body rp = Inr []"
  shows "post_resource env cli target form expected what st = (st', Inl nil_dereference)"
  using assms by (simp add: post_resource_def bind_db_def read_resource_def present_def)

text \<open>The text of an answer with a status of 500 and above never reaches the user.\<close>

lemma server_error_text_lost:
  "500 \<le> rp_Code rp \<Longrightarrow> resource_of_reply env (rp\<lparr>rp_Body := body\<rparr>) = resource_of_reply env rp"
  by (simp add: resource_of_reply_def)

section \<open>Examples\<close>

definition decimal :: "string \<Rightarrow> int" where
  "decimal s =
     (let digits = (\<lambda>r. int (case digits_val 10 0 r of None \<Rightarrow> 0 | Some n \<Rightarrow> n))
      in if s \<noteq> [] \<and> hd s = CHR ''-'' then - digits (tl s) else digits s)"

lemma decimal_fmt_d: "decimal (fmt_d n) = n"
  using fmt_nat_hd [of "nat n"] by (simp add: fmt_d_def decimal_def digits_val_fmt_nat)

definition decimal_env :: search_env where
  "decimal_env = \<lparr>sn_ParseTime = (\<lambda>s. Inr 0), sn_ParseFloat = (\<lambda>s. (decimal s, None))\<rparr>"

lemma decimal_env_reads: "reads_decimals decimal_env"
  by (simp add: reads_decimals_def decimal_env_def decimal_fmt_d)

definition signed_mdb :: mig_db where
  "signed_mdb = example_mdb\<lparr>t_Commands := map (\<lambda>c. c\<lparr>cr_StartTime := cr_ID c\<rparr>) (t_Commands example_mdb),
     t_Signatures := [\<lparr>sr_ActionID = 1, sr_InvestigatorID = 1, sr_PGPSignature = ''s''\<rparr>],
     t_Investigators := \<lparr>idb_Rows = [inv_row_of 1 0], idb_Seq = 2\<rparr>\<rparr>"

text \<open>A client with an API key, and a server whose replies carry the answers with the values \<open>xs\<close> under one name.\<close>

definition example_client :: client where
  "example_client = \<lparr>cl_URL = ''u/'', cl_Home = ''h'', cl_KeyID = ''k'', cl_APIKey = ''a'', cl_Token = [], cl_Macros = []\<rparr>"

definition example_client_env ::
  "string \<Rightarrow> (string \<Rightarrow> search_response) \<Rightarrow> command list \<Rightarrow> agent list \<Rightarrow> time client_env" where
  "example_client_env nm answer cmds agents =
     \<lparr>ce_Codec = example_codec, ce_Manifests = example_env\<lparr>pgp_Sign := (\<lambda>data keyid secring. Inr ''x=y'')\<rparr>,
      ce_Send = (\<lambda>w rq. let resp = answer (drop 9 (hr_URL rq)) in
        (w, Inr \<lparr>rp_Code = sr_Code resp, rp_Body = Inr (if sr_Error resp = None then ''ok'' else ''no'')\<rparr>)),
      ce_Now = id, ce_Sleep = (\<lambda>d w. w + d), ce_ReadFile = (\<lambda>f. Inr ''ring''), ce_FormatTime = (\<lambda>t. ''t''),
      ce_StatusText = (\<lambda>n. ''''),
      ce_Resource = (\<lambda>b. Inr \<lparr>rs_Items = if b = ''ok'' then
          [\<lparr>it_Data = map (\<lambda>i. (nm, JStr (replicate i CHR ''x''))) [0..<max (length cmds) (length agents)], it_Links = []\<rparr>] else [],
        rs_Message = if b = ''ok'' then [] else ''no results found'', rs_Code = []\<rparr>),
      ce_Action = (\<lambda>v. Inr zero_action), ce_ManifestRecord = (\<lambda>v. Inr example_manifest),
      ce_LoaderEntry = (\<lambda>v. Inr example_loader_entry),
      ce_Command = (\<lambda>v. case v of JStr s \<Rightarrow> Inr (cmds ! length s) | _ \<Rightarrow> Inl nil_dereference),
      ce_Agent = (\<lambda>v. case v of JStr s \<Rightarrow> Inr (agents ! length s) | _ \<Rightarrow> Inl nil_dereference),
      ce_Investigator = (\<lambda>v. Inr auth_disabled), ce_ActionText = (\<lambda>a. Inr ''{}''), ce_ReadAction = (\<lambda>s. Inr example_action),
      ce_ManifestText = (\<lambda>m. Inr ''{}''), ce_LoaderText = (\<lambda>l. Inr ''{}''), ce_PermsText = (\<lambda>p. Inr ''{}''),
      ce_Printer = (\<lambda>m. None)\<rparr>"

lemma example_can_authenticate: "can_authenticate env example_client"
  by (simp add: can_authenticate_def example_client_def)

lemma map_res_indexed: "map_res (\<lambda>i. Inr (xs ! i)) [0..<length xs] = Inr xs"
  by (simp add: map_res_eq_Inr list_all2_conv_all_nth)

lemma map_res_map: "map_res f (map g xs) = map_res (\<lambda>x. f (g x)) xs"
  by (induction xs) (simp_all split: sum.split)

theorem client_token_authenticates_witness:
  "\<exists>cst token ist iv. authenticate example_auth_env 0 PermSearch (token_auth token) (ist :: inv_state) = (ist, Inr iv) \<and>
     MakeSignedToken (example_client_env [] (\<lambda>q. \<lparr>sr_Code = 404, sr_Error = Some no_results, sr_Items = []\<rparr>) [] []) example_client
       \<lparr>cs_World = 0, cs_GlobalID = 5\<rparr> = (cst, Inr token) \<and> inv_ID iv = 1"
proof -
  let ?env = "example_client_env [] (\<lambda>q. \<lparr>sr_Code = 404, sr_Error = Some no_results, sr_Items = []\<rparr>) [] []"
  let ?st = "\<lparr>cs_World = 0, cs_GlobalID = 5\<rparr> :: time client_state"
  let ?ist = "\<lparr>st_DB = \<lparr>idb_Rows = [(inv_row_of 1 PermSearch)\<lparr>i_PGPFingerprint := Some ''c0''\<rparr>], idb_Seq = 2\<rparr>,
     st_Keyring = Some ''ring'', st_KeyringTime = 0\<rparr>"
  have "is_ok (snd (MakeSignedToken ?env example_client ?st))"
    by (simp add: MakeSignedToken_def example_client_env_def Let_def is_ok_def split: prod.split)
  then obtain cst token where token: "MakeSignedToken ?env example_client ?st = (cst, Inr token)"
    unfolding is_ok_iff by (metis prod.collapse)
  obtain iv where iv: "InvestigatorByFingerprint ''c0'' (st_DB ?ist) = Inr iv" "inv_ID iv = 1"
      "CheckPermission (inv_Permissions iv) PermSearch"
    by (simp add: InvestigatorByFingerprint_def inv_row_of_def row_def CheckPermission_def FromMask_def no_perms_def Perm_defs)
  have "authenticate example_auth_env 0 PermSearch (token_auth token) ?ist = (?ist, Inr iv)"
  proof (rule client_token_authenticates [OF token, where t = 0 and ts = 0])
    show "getKeyring example_auth_env 0 ?ist = (?ist, Inr ''ring'')" by (simp add: getKeyring_def)
    show "CHR '';'' \<notin> set sig \<and> GetFingerprintFromSignature (ae_PGP example_auth_env) data sig ''ring'' = Inr ''c0''"
      if "pgp_Sign (ce_Manifests ?env) data (cl_KeyID example_client) secring = Inr sig" for data secring sig
      using that example_fingerprints by (auto simp: example_client_env_def example_auth_env_def)
    show "InvestigatorByFingerprint ''c0'' (st_DB ?ist) = Inr iv" by (rule iv(1))
    show "CheckPermission (inv_Permissions iv) PermSearch" by (rule iv(3))
  qed (simp_all add: example_client_env_def example_auth_env_def)
  with token iv(2) show ?thesis by blast
qed

theorem signed_action_verifies_witness:
  "\<exists>a'. SignAction (example_client_env [] (\<lambda>q. \<lparr>sr_Code = 404, sr_Error = Some no_results, sr_Items = []\<rparr>) [] []) example_client
      example_action = Inr a' \<and> VerifySignatures example_codec example_pg ''ring'' a' = Inr ()"
proof -
  let ?env = "example_client_env [] (\<lambda>q. \<lparr>sr_Code = 404, sr_Error = Some no_results, sr_Items = []\<rparr>) [] []"
  have str: "is_ok (String example_codec example_action)" by (simp add: String_def example_codec_def is_ok_def)
  then obtain a' where run: "SignAction ?env example_client example_action = Inr a'"
    by (auto simp: SignAction_def Action_Sign_def example_client_env_def is_ok_iff)
  have good: "is_ok (Verify example_pg data sig ''ring'')" for data sig
    by (simp add: Verify_def example_pg_def is_ok_def)
  have "VerifySignatures (ce_Codec ?env) example_pg ''ring'' a' = Inr () \<and>
      (\<exists>sig. a' = example_action\<lparr>act_PGPSignatures := act_PGPSignatures example_action @ [sig]\<rparr>)"
    by (rule signed_action_verifies [OF run]) (simp_all add: good, simp add: example_client_env_def)
  with run show ?thesis by (simp add: example_client_env_def)
qed

lemma signed_found:
  "\<exists>cmds. map_res (found_command example_js signed_mdb) (action_triples signed_mdb 1) = Inr cmds \<and> length cmds = 2"
proof -
  have found: "is_ok (found_command example_js signed_mdb r)" if "r \<in> set (action_triples signed_mdb 1)" for r
    using that
    by (auto simp: action_triples_def command_triples_def signed_mdb_def example_mdb_def example_action_row_def found_command_def
        example_js_def wrap_err_def InvestigatorByActionID_def inv_row_of_def is_ok_def and_then_def split: if_splits sum.splits)
  have two: "length (action_triples signed_mdb 1) = 2"
    by (simp add: action_triples_def command_triples_def signed_mdb_def example_mdb_def example_action_row_def example_agent_row_def
        signed_action_def inv_row_of_def)
  have "\<exists>cmds. map_res (found_command example_js signed_mdb) rs = Inr cmds" if "set rs \<subseteq> set (action_triples signed_mdb 1)" for rs
    using that
  proof (induction rs)
    case (Cons r rs)
    then show ?case using found [of r] by (auto simp: is_ok_iff)
  qed simp
  with two show ?thesis using map_res_length by fastforce
qed

lemma signed_starts: "distinct_starts signed_mdb 1"
  by (simp add: distinct_starts_def action_triples_def command_triples_def signed_mdb_def example_mdb_def example_action_row_def
      example_agent_row_def signed_action_def inv_row_of_def inj_on_def)

lemma example_commands_served:
  assumes "map_res (found_command example_js signed_mdb) (action_triples signed_mdb 1) = Inr cmds" and "length cmds = 2"
  defines "answer \<equiv> \<lambda>q. search_handler example_eng example_js decimal_env example_server 0 q signed_mdb empty_db"
  shows "command_service (example_client_env ''command'' answer cmds []) example_client 1 (\<lambda>w. example_eng) example_js decimal_env
     example_server (\<lambda>w. 0) signed_mdb empty_db"
proof -
  let ?env = "example_client_env ''command'' answer cmds []"
  have reply: "ce_Send ?env w ((http_get example_client (''search?'' @ q))\<lparr>hr_Auth := auth\<rparr>) =
      (w, Inr \<lparr>rp_Code = sr_Code (answer q), rp_Body = Inr (if sr_Error (answer q) = None then ''ok'' else ''no'')\<rparr>)" for w auth q
    by (simp add: example_client_env_def http_get_def example_client_def Let_def)
  have "delivers ?env ''command'' (ValueToCommand ?env) pick_command (answer (page_query (int offset) 1))
      \<lparr>rp_Code = sr_Code (answer (page_query (int offset) 1)),
       rp_Body = Inr (if sr_Error (answer (page_query (int offset) 1)) = None then ''ok'' else ''no'')\<rparr>" if "37 dvd offset" for offset
  proof -
    let ?page = "take 37 (drop offset cmds)"
    have a: "answer (page_query (int offset) 1) = (if ?page = [] then \<lparr>sr_Code = 404, sr_Error = Some no_results, sr_Items = []\<rparr>
      else \<lparr>sr_Code = 200, sr_Error = None, sr_Items = search_items example_server (page_params 0 (int offset) 1) (map FoundCommand ?page)\<rparr>)"
      unfolding answer_def using map_res_take_drop [OF assms(1)] signed_starts by (intro page_answer [OF decimal_env_reads]) simp_all
    show ?thesis
    proof (cases "offset = 0")
      case True
      have items: "response_results pick_command (answer (page_query (int offset) 1)) = cmds"
      proof -
        have "response_results pick_command \<lparr>sr_Code = 200, sr_Error = None,
            sr_Items = search_items example_server (page_params 0 (int offset) 1) (map FoundCommand ?page)\<rparr> = ?page"
          by (rule response_items) (simp_all add: page_params_def page_limit_def pick_command_def)
        moreover have "?page = cmds" "cmds \<noteq> []" using True assms(2) by auto
        ultimately show ?thesis unfolding a by simp
      qed
      have "map_res (ValueToCommand ?env) (map (\<lambda>i. JStr (replicate i CHR ''x'')) [0..<2]) = Inr cmds"
        unfolding map_res_map using map_res_indexed [of cmds] assms(2)
        by (simp add: ValueToCommand_def ValueTo_def redecode_def example_client_env_def example_codec_def)
      moreover have "?page \<noteq> []" using True assms(2) by auto
      ultimately show ?thesis using items assms(2) unfolding delivers_def
        by (simp add: a) (simp add: example_client_env_def named_values_def comp_def)
    next
      case False
      with that have "37 \<le> offset" by (auto elim: dvdE)
      then have "?page = []" using assms(2) by simp
      then show ?thesis
        by (simp add: a delivers_def example_client_env_def named_values_def response_results_def map_filter_simps)
    qed
  qed
  then show ?thesis unfolding command_service_def search_service_def answer_def [symmetric] reply by blast
qed

theorem fetch_results_complete_witness:
  "\<exists>env st' cmds. length cmds = 2 \<and> FetchActionResults 3 (env :: time client_env) example_client (example_action\<lparr>act_ID := 1\<rparr>)
     \<lparr>cs_World = 0, cs_GlobalID = 5\<rparr> =
     (st', Some (Inr cmds))"
proof -
  obtain cmds where cmds: "map_res (found_command example_js signed_mdb) (action_triples signed_mdb 1) = Inr cmds" "length cmds = 2"
    using signed_found by blast
  let ?answer = "\<lambda>q. search_handler example_eng example_js decimal_env example_server 0 q signed_mdb empty_db"
  have "\<exists>st'. FetchActionResults 3 (example_client_env ''command'' ?answer cmds []) example_client (example_action\<lparr>act_ID := 1\<rparr>)
      \<lparr>cs_World = 0, cs_GlobalID = 5\<rparr> = (st', Some (Inr cmds))"
    by (rule fetch_results_complete [OF example_can_authenticate _ decimal_env_reads, where js = example_js and db = signed_mdb])
      (use cmds example_commands_served [OF cmds] signed_starts in simp_all)
  with cmds(2) show ?thesis by blast
qed

lemma targeted_mdb: "\<exists>g. ActiveAgentsByTarget example_js (sv_Holds example_server) ''all'' example_mdb = Inr [g]"
  using example_targets by (simp add: example_server_def)

lemma example_agents_served:
  assumes "ActiveAgentsByTarget example_js (sv_Holds example_server) ''all'' example_mdb = Inr [g]"
  defines "answer \<equiv> \<lambda>q. search_handler example_eng example_js decimal_env example_server 0 q example_mdb empty_db"
  shows "agent_service (example_client_env ''agent'' answer [] [g]) example_client ''all'' example_eng example_js decimal_env
     example_server (\<lambda>w. 0) example_mdb empty_db"
proof -
  let ?env = "example_client_env ''agent'' answer [] [g]" and ?q = "target_query ''all''"
  have a: "answer ?q = \<lparr>sr_Code = 200, sr_Error = None,
      sr_Items = search_items example_server (target_params 0 ''all'') (map FoundAgent [g])\<rparr>"
    using assms(1) by (simp add: answer_def target_answer [OF decimal_env_reads])
  have "response_results pick_agent (answer ?q) = [g]"
    unfolding a by (rule response_items) (simp_all add: target_params_def pick_agent_def)
  then have "delivers ?env ''agent'' (ValueToAgent ?env) pick_agent (answer ?q)
      \<lparr>rp_Code = sr_Code (answer ?q), rp_Body = Inr (if sr_Error (answer ?q) = None then ''ok'' else ''no'')\<rparr>"
    unfolding delivers_def
    by (simp add: a) (simp add: example_client_env_def named_values_def comp_def ValueToAgent_def ValueTo_def redecode_def example_codec_def)
  moreover have "ce_Send ?env w ((http_get example_client (''search?'' @ q))\<lparr>hr_Auth := auth\<rparr>) =
      (w, Inr \<lparr>rp_Code = sr_Code (answer q), rp_Body = Inr (if sr_Error (answer q) = None then ''ok'' else ''no'')\<rparr>)" for w auth q
    by (simp add: example_client_env_def http_get_def example_client_def Let_def)
  ultimately show ?thesis unfolding agent_service_def search_service_def answer_def [symmetric] by simp
qed

theorem evaluate_target_exact_witness:
  "\<exists>env st' g. EvaluateAgentTarget (env :: time client_env) example_client ''all'' \<lparr>cs_World = 0, cs_GlobalID = 5\<rparr> = (st', Inr [g]) \<and>
     ActiveAgentsByTarget example_js (sv_Holds example_server) ''all'' example_mdb = Inr [g]"
proof -
  obtain g where g: "ActiveAgentsByTarget example_js (sv_Holds example_server) ''all'' example_mdb = Inr [g]"
    using targeted_mdb by blast
  from evaluate_target_exact [OF example_can_authenticate example_agents_served [OF g] decimal_env_reads g,
      of "\<lparr>cs_World = 0, cs_GlobalID = 5\<rparr>"] g
  show ?thesis by auto
qed

text \<open>A server that answers every request with the zero action, and one that fails.\<close>

abbreviation steady_env :: "time client_env" where
  "steady_env \<equiv> example_client_env ''action'' (\<lambda>q. \<lparr>sr_Code = 200, sr_Error = None, sr_Items = []\<rparr>) [example_command 1 ''sent''] []"

abbreviation broken_env :: "time client_env" where
  "broken_env \<equiv> example_client_env ''action'' (\<lambda>q. \<lparr>sr_Code = 500, sr_Error = Some nil_panic, sr_Items = []\<rparr>) [] []"

lemma steady_action: "client_GetAction steady_env example_client i s = (s, Inr (zero_action, []))"
  by (cases s) (simp add: client_GetAction_def get_value_def get_resource_def GetAPIResource_def client_Do_def run_recovered_def first_reply_def
      send_request_def example_client_env_def example_client_def http_get_def resource_of_reply_def read_resource_def present_def
      bind_db_def first_data_def ValueToAction_def ValueTo_def redecode_def example_codec_def and_then_def Let_def)

lemma broken_action: "\<exists>e. client_GetAction broken_env example_client i s = (s, Inl e)"
  by (cases s) (simp add: client_GetAction_def get_value_def get_resource_def GetAPIResource_def client_Do_def run_recovered_def first_reply_def
      send_request_def example_client_env_def example_client_def http_get_def resource_of_reply_def bind_db_def and_then_def Let_def)

theorem follow_ends_witness:
  "\<exists>st' r. FollowAction steady_env example_client (replicate 7 False) zero_action \<lparr>cs_World = 0, cs_GlobalID = 5\<rparr> = (st', Some r)"
  by (rule follow_ends [where expiry = "act_ExpireAfter zero_action"])
    (simp_all add: steady_action, simp_all add: example_client_env_def zero_action_def zero_time_def)

theorem one_failure_ends_follow_witness:
  "\<exists>st'. FollowAction broken_env example_client (replicate 30 False) example_action \<lparr>cs_World = 0, cs_GlobalID = 5\<rparr> =
     (st', Some (recovered ''followAction'' (Inl follow_failed)))"
proof -
  obtain e where "client_GetAction broken_env example_client (act_ID example_action) \<lparr>cs_World = 0, cs_GlobalID = 5\<rparr> =
      (\<lparr>cs_World = 0, cs_GlobalID = 5\<rparr>, Inl e)" using broken_action by blast
  then show ?thesis by (rule one_failure_ends_follow) (use broken_action in blast, simp)
qed

end
