(* ===== verification/Spec2Isabelle.thy ===== *)
theory Spec2Isabelle
  imports Acl Perms Pgp Actions LoaderKeys Manifests Loader AgentTypes ManifestDB ManifestApi InvestigatorApi
    Database CommandTable AgentTable Heartbeats Scheduler Collector Scheduling Modules Agent AgentRuns AgentPersist FileParams FileScan FileWalk FileMatch FileRuns FileSearch FileProps
    SearchParams SearchQuery Searches SearchProps SearchApi ActionApi ActionApiProps
    Netstat NetstatProps Fswatch FswatchProps Timedrift TimedriftProps Memory MemoryWalk MemoryProps
    Client ClientProps
begin

text \<open>
  Mozilla MIG: investigators sign actions, the API stores them, the scheduler turns each action into
  one command per agent, the agents check signatures and access control and run modules; a loader
  installs and updates the agent from manifests that administrators sign.

  The theories, and the code under \<open>src/\<close> that they model:

  \<^item> \<open>Prelude\<close>: errors as values (\<open>'a result\<close> is \<open>go_error + 'a\<close>; a panic caught by a deferred
    \<open>recover\<close> is the same value with its wrapping text), Go maps as association lists, sequencing,
    and the locale \<open>state_machine\<close> for invariants and guarantees along runs.
  \<^item> \<open>GoStd\<close>: what is used of the Go library: the 64-bit \<open>int\<close>, strings as byte lists, \<open>strings\<close>,
    \<open>strconv\<close>, \<open>path\<close>, times in nanoseconds.
  \<^item> \<open>Acl\<close> (\<open>acl.go\<close>): the ACL and \<open>verifyPermission\<close>; the locale \<open>quorum\<close>, the common contract of the
    two places that count distinct signing keys, interpreted here and in \<open>Manifests\<close>.
  \<^item> \<open>Perms\<close> (\<open>investigator.go\<close>): permissions, masks, named sets.
  \<^item> \<open>Pgp\<close> (\<open>pgp/\<close>): keyrings, verification, armouring over a record of OpenPGP operations.
  \<^item> \<open>Actions\<close> (\<open>action.go\<close>): validation, the signed string, signature and ACL checks, compressed
    parameters, identifiers; the locale \<open>id_source\<close>, interpreted on \<open>GenID\<close>.
  \<^item> \<open>LoaderKeys\<close> (\<open>loader.go\<close>, \<open>misc.go\<close>, \<open>mig-api/apikey.go\<close>): generated keys and their hashes.
  \<^item> \<open>Manifests\<close> (\<open>manifest.go\<close>): archive, response, signature and verification.
  \<^item> \<open>Loader\<close> (\<open>mig-loader/\<close>): the update run over a disk (a map from paths to files), in which every
    system call of the replacement is a step that may fail.
  \<^item> \<open>AgentTypes\<close> (\<open>agent.go\<close>, \<open>command.go\<close>): records and statuses.
  \<^item> \<open>ManifestDB\<close> (\<open>database/manifest.go\<close>, \<open>database/loader.go\<close>): tables as lists of rows in insertion
    order, each SQL statement as an operation on them, with the unique constraints of the schema.
  \<^item> \<open>ManifestApi\<close> (\<open>mig-api/\<close>): the manifest and loader endpoints and loader authentication, the
    service as a step relation, its invariant.
  \<^item> \<open>InvestigatorApi\<close> (\<open>database/investigators.go\<close>, \<open>mig-api/\<close>): investigator rows, tokens, API keys,
    permissions, the client's address.
  \<^item> \<open>Database\<close>, \<open>CommandTable\<close>, \<open>AgentTable\<close> (\<open>database/actions.go\<close>, \<open>commands.go\<close>, \<open>agents.go\<close>): the
    tables of actions, commands and agents, their queries and the step relation \<open>command_step\<close> of the
    users of the table of commands, an interpretation of \<open>state_machine\<close>.
  \<^item> \<open>Heartbeats\<close> (\<open>mig-scheduler/\<close>, \<open>mig-api/agents/\<close>): the whitelist, heartbeats read and written in
    separate steps, agent statuses, duplicate agents, the heartbeat endpoint; \<open>hb_step\<close> interleaves them.
  \<^item> \<open>Scheduler\<close>, \<open>Collector\<close>, \<open>Scheduling\<close> (\<open>mig-scheduler/\<close>): the spool, the stages of actions, the
    routines and channels as the step relation \<open>sched_step\<close>, which refines \<open>command_step\<close>, and the
    properties of scheduling.
  \<^item> \<open>Modules\<close> (\<open>modules/modules.go\<close>): messages between the agent and its modules, the loops that read and
    write them, the handlers of persistent modules.
  \<^item> \<open>Agent\<close>, \<open>AgentRuns\<close> (\<open>mig-agent/\<close>): the check of an action, the goroutines that parse commands, run
    modules and collect results as the step relation \<open>agent_step\<close>, and the properties of its runs.
  \<^item> \<open>AgentPersist\<close> (\<open>mig-agent/\<close>): the life cycle of a persistent module, alerts on their way to the
    dispatch module (\<open>alert_step\<close>), the agent's heartbeats up to the table, modules run directly.
  \<^item> \<open>FileParams\<close>, \<open>FileScan\<close>, \<open>FileWalk\<close> (\<open>modules/file/file.go\<close>): the file module: searches and their
    checks, the inspection of one file for all searches, the walk over a directory tree and the results.
    \<open>FileMatch\<close>, \<open>FileRuns\<close>, \<open>FileSearch\<close> and \<open>FileProps\<close> hold the proofs: what a stage stores, the number
    of hits, the exact result of a search, the checks built from parameters.
  \<^item> \<open>SearchParams\<close>, \<open>SearchQuery\<close>, \<open>Searches\<close>, \<open>SearchApi\<close> (\<open>database/search/parameters.go\<close>,
    \<open>database/searches.go\<close>, \<open>mig-api/search.go\<close>): the parameters of a search and their query string, the
    statements as conditions with numbered placeholders and their meaning on rows, the six searches, the
    endpoint and its pages. \<open>SearchProps\<close> holds the proofs on placeholders and on what is selected.
  \<^item> \<open>ActionApi\<close>, \<open>ActionApiProps\<close> (\<open>mig-api/\<close>): creating an action, reading actions, commands and
    agents, the dashboard; what a created or a refused action leaves for the scheduler.
  \<^item> \<open>Netstat\<close>, \<open>NetstatProps\<close> (\<open>modules/netstat/\<close>): addresses and networks as bytes, the reading of
    \<open>/proc\<close> and its network namespaces, the six searches, the results and their privacy; the proofs that the
    searches for peers and ports are exact for a kernel that writes its tables as documented.
  \<^item> \<open>Fswatch\<close>, \<open>FswatchProps\<close> (\<open>modules/fswatch/\<close>): watched entries and their objects, the router and the handlers
    of events as the step relation \<open>fs_step\<close>, an interpretation of \<open>state_machine\<close>, hashes and alerts; the
    refinement of a map from paths to signatures, and what is never reported.
  \<^item> \<open>Timedrift\<close>, \<open>TimedriftProps\<close> (\<open>modules/timedrift/\<close>): the answer of a time server on 64-bit words, the
    verdict of a run.

  \<^item> \<open>Memory\<close>, \<open>MemoryWalk\<close>, \<open>MemoryProps\<close> (\<open>modules/memory/\<close>): searches over processes, and the walk over overlapping
    windows of memory of the vendored \<open>masche\<close>; the locale \<open>stoppable\<close> compares a walk that may be stopped with the
    list of all windows, and is interpreted on the searches; the exact result of a search and what the windows miss.
  \<^item> \<open>Client\<close>, \<open>ClientProps\<close> (\<open>client/client.go\<close>, \<open>client/macro.go\<close>): the client library over a world that answers
    requests; its tokens at the API, its queries and pages at the search endpoint, its signed actions at the
    agents. Loops that may run for ever take the number of pages, or the list of the user's choices, and are \<open>None\<close>
    when these are used up; the properties give a number that is enough.

  Cryptography, compression, JSON, tar, the target expressions that the database evaluates, HTTP and
  process control are parameters (records of functions); where a property relies on their
  documented behaviour it says so in a hypothesis, and its witness instantiates them. Other
  loops of the code are structural recursions over what they read, so no fuel is used there.

  Not modelled yet: the other modules, which come next in this order; the client programs, the runner, logging and service registration are user interface and operating-system glue.
\<close>

end
